(* ===== verification/Prelude.thy ===== *)
theory Prelude
  imports Main "HOL-Library.Word" "HOL-Library.Char_ord" "HOL-Library.List_Lexorder"
    "HOL-Library.Sublist"
begin

text \<open>
  Shared by every component: the names of the machine types, the result type of fallible
  code, ordered maps and sets (Rust's \<open>BTreeMap\<close> and \<open>BTreeSet\<close>), saturating
  arithmetic, and the interfaces (locales) that several components implement:
  an ordered map, a machine with an invariant, a transactional machine, and an encoder
  with its decoder.
\<close>

section \<open>Machine types and results\<close>

text \<open>
  Fixed-width integers are words. Lengths, capacities and positions (\<open>usize\<close>) are
  \<open>nat\<close>: every one of them counts elements held in memory, and the places where the code
  subtracts from one are covered by lemmas that the subtraction does not go below zero.
  A Rust \<open>str\<close> is the list of its UTF-8 bytes.
\<close>

type_synonym u16 = "16 word"
type_synonym u32 = "32 word"
type_synonym u64 = "64 word"
type_synonym u128 = "128 word"

type_synonym ('e, 'a) res = "'e + 'a"

named_theorems model_defs \<open>definitions of small operations, for unfolding\<close>
named_theorems frame_simps \<open>fields an operation leaves as they were\<close>

definition is_ok :: "('e, 'a) res \<Rightarrow> bool" where
  "is_ok r \<longleftrightarrow> (case r of Inl _ \<Rightarrow> False | Inr _ \<Rightarrow> True)"

lemma is_ok_simps [simp]: "is_ok (Inr a)" "\<not> is_ok (Inl e)"
  by (simp_all add: is_ok_def)

lemma is_ok_iff: "is_ok r \<longleftrightarrow> (\<exists>a. r = Inr a)"
  by (cases r) auto

lemma not_is_ok_iff: "\<not> is_ok r \<longleftrightarrow> (\<exists>e. r = Inl e)"
  by (cases r) auto

subsection \<open>Saturating arithmetic\<close>

definition sat_add :: "'a::len word \<Rightarrow> 'a word \<Rightarrow> 'a word" where
  "sat_add a b = (if unat a + unat b < 2 ^ LENGTH('a) then a + b else - 1)"

definition sat_sub :: "'a::len word \<Rightarrow> 'a word \<Rightarrow> 'a word" where
  "sat_sub a b = (if b \<le> a then a - b else 0)"

lemma unat_sat_add:
  "unat (sat_add a b) = min (unat a + unat b) (2 ^ LENGTH('a) - 1)"
  for a b :: "'a::len word"
proof (cases "unat a + unat b < 2 ^ LENGTH('a)")
  case True
  then show ?thesis by (simp add: sat_add_def unat_word_ariths)
next
  case False
  then show ?thesis by (simp add: sat_add_def unsigned_minus_1_eq_mask mask_eq_exp_minus_1)
qed

lemma unat_sat_sub: "unat (sat_sub a b) = unat a - unat b"
  for a b :: "'a::len word"
  by (auto simp: sat_sub_def word_le_nat_alt unat_sub)

lemma sat_add_ge: "a \<le> sat_add a b"
  for a b :: "'a::len word"
proof -
  have "unat a < 2 ^ LENGTH('a)" by (rule unsigned_less)
  then have "unat a \<le> 2 ^ LENGTH('a) - 1" by linarith
  then show ?thesis by (simp add: word_le_nat_alt unat_sat_add)
qed

section \<open>Ordered maps and sets\<close>

text \<open>
  A \<open>BTreeMap\<close> is an association list in strictly increasing order of its keys, so that
  the iteration order of the code is the order of the list. Insertion replaces the binding
  of a key that is present, as \<open>BTreeMap::insert\<close> does.
\<close>

type_synonym ('k, 'v) bmap = "('k \<times> 'v) list"

abbreviation bm_get :: "('k, 'v) bmap \<Rightarrow> 'k \<Rightarrow> 'v option" where
  "bm_get \<equiv> map_of"

fun bm_insert :: "'k::linorder \<Rightarrow> 'v \<Rightarrow> ('k, 'v) bmap \<Rightarrow> ('k, 'v) bmap" where
  "bm_insert k v [] = [(k, v)]"
| "bm_insert k v ((k', v') # m) =
     (if k < k' then (k, v) # (k', v') # m
      else if k = k' then (k, v) # m
      else (k', v') # bm_insert k v m)"

definition bm_remove :: "'k \<Rightarrow> ('k, 'v) bmap \<Rightarrow> ('k, 'v) bmap" where
  "bm_remove k m = filter (\<lambda>p. fst p \<noteq> k) m"

abbreviation bm_keys :: "('k, 'v) bmap \<Rightarrow> 'k list" where
  "bm_keys m \<equiv> map fst m"

abbreviation bm_values :: "('k, 'v) bmap \<Rightarrow> 'v list" where
  "bm_values m \<equiv> map snd m"

definition bm_wf :: "('k::linorder, 'v) bmap \<Rightarrow> bool" where
  "bm_wf m \<longleftrightarrow> sorted_wrt (<) (map fst m)"

lemma bm_wf_Nil [simp]: "bm_wf []"
  by (simp add: bm_wf_def)

lemma bm_wf_Cons: "bm_wf ((k, v) # m) \<longleftrightarrow> (\<forall>k' \<in> fst ` set m. k < k') \<and> bm_wf m"
  by (simp add: bm_wf_def)

lemma fst_set_bm_insert [simp]: "fst ` set (bm_insert k v m) = insert k (fst ` set m)"
  by (induction k v m rule: bm_insert.induct) auto

lemma bm_wf_insert [simp, intro]: "bm_wf m \<Longrightarrow> bm_wf (bm_insert k v m)"
  by (induction k v m rule: bm_insert.induct) (auto simp: bm_wf_Cons)

lemma bm_get_insert [simp]: "bm_wf m \<Longrightarrow> bm_get (bm_insert k v m) = (bm_get m)(k \<mapsto> v)"
proof (induction k v m rule: bm_insert.induct)
  case (2 k v k' v' m)
  then show ?case by (auto simp: bm_wf_Cons fun_eq_iff)
qed auto

lemma bm_wf_remove [simp, intro]: "bm_wf m \<Longrightarrow> bm_wf (bm_remove k m)"
  by (induction m) (auto simp: bm_remove_def bm_wf_Cons)

lemma bm_get_remove [simp]: "bm_get (bm_remove k m) = (bm_get m)(k := None)"
  by (induction m) (auto simp: bm_remove_def fun_eq_iff)

lemma dom_bm_get: "dom (bm_get m) = fst ` set m"
  by (rule dom_map_of_conv_image_fst)

lemma bm_distinct_keys: "bm_wf m \<Longrightarrow> distinct (map fst m)"
  by (simp add: bm_wf_def strict_sorted_iff)

lemma bm_get_iff_mem: "bm_wf m \<Longrightarrow> bm_get m k = Some v \<longleftrightarrow> (k, v) \<in> set m"
  by (simp add: bm_distinct_keys)

lemma length_bm_remove:
  "bm_wf m \<Longrightarrow> bm_get m k = Some v \<Longrightarrow> Suc (length (bm_remove k m)) = length m"
proof (induction m)
  case (Cons p m)
  obtain k' v' where p: "p = (k', v')" by (cases p)
  have gone: "bm_remove k m = m" if "k = k'"
    using Cons.prems(1) p that by (auto simp: bm_remove_def bm_wf_Cons filter_id_conv)
  show ?case
  proof (cases "k' = k")
    case True
    with gone p show ?thesis by (simp add: bm_remove_def)
  next
    case False
    with Cons p show ?thesis by (simp add: bm_remove_def bm_wf_Cons)
  qed
qed simp

lemma length_bm_insert_new:
  "bm_get m k = None \<Longrightarrow> length (bm_insert k v m) = Suc (length m)"
  by (induction k v m rule: bm_insert.induct) (auto split: if_splits)

lemma length_bm_insert_old:
  "bm_wf m \<Longrightarrow> bm_get m k = Some w \<Longrightarrow> length (bm_insert k v m) = length m"
proof (induction k v m rule: bm_insert.induct)
  case (2 k v k' v' m)
  have "bm_get m k = None" if "k < k'"
    using "2.prems"(1) that by (auto simp: bm_wf_Cons map_of_eq_None_iff)
  with 2 show ?case by (auto simp: bm_wf_Cons split: if_splits)
qed simp

lemma length_bm_remove_le: "length (bm_remove k m) \<le> length m"
  by (simp add: bm_remove_def)

lemma bm_remove_id: "bm_get m k = None \<Longrightarrow> bm_remove k m = m"
  by (auto simp: bm_remove_def filter_id_conv map_of_eq_None_iff)

text \<open>A \<open>BTreeSet\<close> is a strictly increasing list.\<close>

abbreviation bs_wf :: "'k::linorder list \<Rightarrow> bool" where
  "bs_wf xs \<equiv> sorted xs \<and> distinct xs"

abbreviation bs_insert :: "'k::linorder \<Rightarrow> 'k list \<Rightarrow> 'k list" where
  "bs_insert \<equiv> insort_insert"

abbreviation bs_remove :: "'k \<Rightarrow> 'k list \<Rightarrow> 'k list" where
  "bs_remove \<equiv> remove1"

lemma length_bs_insert_new: "x \<notin> set xs \<Longrightarrow> length (bs_insert x xs) = Suc (length xs)"
  by (simp add: insort_insert_key_def)

section \<open>Interfaces\<close>

subsection \<open>An ordered map\<close>

locale ordered_map =
  fixes get :: "'m \<Rightarrow> 'k::linorder \<Rightarrow> 'v option"
    and ins :: "'k \<Rightarrow> 'v \<Rightarrow> 'm \<Rightarrow> 'm"
    and del :: "'k \<Rightarrow> 'm \<Rightarrow> 'm"
    and ks :: "'m \<Rightarrow> 'k list"
    and inv :: "'m \<Rightarrow> bool"
  assumes get_ins: "inv m \<Longrightarrow> get (ins k v m) = (get m)(k \<mapsto> v)"
    and get_del: "inv m \<Longrightarrow> get (del k m) = (get m)(k := None)"
    and inv_ins: "inv m \<Longrightarrow> inv (ins k v m)"
    and inv_del: "inv m \<Longrightarrow> inv (del k m)"
    and sorted_ks: "inv m \<Longrightarrow> sorted_wrt (<) (ks m)"
    and set_ks: "inv m \<Longrightarrow> set (ks m) = dom (get m)"
begin

lemma inv_del_all: "inv m \<Longrightarrow> inv (fold del xs m)"
  by (induction xs arbitrary: m) (auto intro: inv_del)

lemma get_del_all: "inv m \<Longrightarrow> get (fold del xs m) k = (if k \<in> set xs then None else get m k)"
  by (induction xs arbitrary: m) (auto simp: get_del inv_del)

lemma inv_ins_all: "inv m \<Longrightarrow> inv (fold (\<lambda>k. ins k (f k)) xs m)"
  by (induction xs arbitrary: m) (auto intro: inv_ins)

lemma get_ins_all:
  "inv m \<Longrightarrow> get (fold (\<lambda>k. ins k (f k)) xs m) k =
     (if k \<in> set xs then Some (f k) else get m k)"
  by (induction xs arbitrary: m) (auto simp: get_ins inv_ins)

lemma ks_eqI:
  assumes "inv m" and "inv m'" and "get m = get m'"
  shows "ks m = ks m'"
proof (rule sorted_distinct_set_unique)
  show "sorted (ks m)" "distinct (ks m)" "sorted (ks m')" "distinct (ks m')"
    using assms sorted_ks strict_sorted_iff by auto
  show "set (ks m) = set (ks m')" using assms by (simp add: set_ks)
qed

end

interpretation bm: ordered_map "bm_get :: ('k::linorder, 'v) bmap \<Rightarrow> 'k \<Rightarrow> 'v option"
    bm_insert bm_remove bm_keys bm_wf
proof unfold_locales
  fix m :: "('k, 'v) bmap"
  show "bm_wf m \<Longrightarrow> sorted_wrt (<) (bm_keys m)" by (simp add: bm_wf_def)
  show "bm_wf m \<Longrightarrow> set (bm_keys m) = dom (bm_get m)" by (simp add: dom_bm_get)
qed auto

text \<open>Two well-formed maps with the same bindings are the same list.\<close>

lemma bm_eqI: "bm_wf m \<Longrightarrow> bm_wf m' \<Longrightarrow> bm_get m = bm_get m' \<Longrightarrow> m = m'"
proof -
  assume wf: "bm_wf m" "bm_wf m'" and eq: "bm_get m = bm_get m'"
  have "set m = set m'"
    using wf eq by (auto simp flip: bm_get_iff_mem)
  moreover have "distinct (map fst m)" "sorted (map fst m)" "distinct (map fst m')" "sorted (map fst m')"
    using wf by (simp_all add: bm_wf_def strict_sorted_iff)
  ultimately show "m = m'"
    by (intro map_sorted_distinct_set_unique [of fst]) (auto simp: distinct_map)
qed

lemma bm_insert_same: "bm_wf m \<Longrightarrow> bm_get m k = Some v \<Longrightarrow> bm_insert k v m = m"
  by (rule bm_eqI) (auto simp: fun_eq_iff)

subsection \<open>Machines\<close>

text \<open>A run applies operations in order and collects their results.\<close>

fun run_ops :: "('op \<Rightarrow> 's \<Rightarrow> 'r \<times> 's) \<Rightarrow> 'op list \<Rightarrow> 's \<Rightarrow> 'r list \<times> 's" where
  "run_ops step [] s = ([], s)"
| "run_ops step (x # xs) s =
     (let p = step x s; q = run_ops step xs (snd p) in (fst p # fst q, snd q))"

lemma snd_run_ops: "snd (run_ops step xs s) = fold (\<lambda>x s. snd (step x s)) xs s"
  by (induction xs arbitrary: s) (simp_all add: Let_def)

lemma length_run_ops: "length (fst (run_ops step xs s)) = length xs"
  by (induction xs arbitrary: s) (simp_all add: Let_def)

lemma run_ops_append:
  "run_ops step (xs @ ys) s =
     (let p = run_ops step xs s; q = run_ops step ys (snd p) in (fst p @ fst q, snd q))"
  by (induction xs arbitrary: s) (simp_all add: Let_def)

locale invariant_machine =
  fixes step :: "'op \<Rightarrow> 's \<Rightarrow> 'r \<times> 's"
    and inv :: "'s \<Rightarrow> bool"
  assumes step_inv: "inv s \<Longrightarrow> inv (snd (step x s))"
begin

lemma run_inv: "inv s \<Longrightarrow> inv (snd (run_ops step xs s))"
  by (induction xs arbitrary: s) (simp_all add: Let_def step_inv)

lemma run_inv_at:
  "inv s \<Longrightarrow> inv (snd (run_ops step (take n xs) s))"
  by (rule run_inv)

end

text \<open>
  A transactional machine leaves the state alone when an operation fails; a run then ends
  where the run of its successful operations alone ends.
\<close>

fun succeeding :: "('op \<Rightarrow> 's \<Rightarrow> ('e, 'a) res \<times> 's) \<Rightarrow> 'op list \<Rightarrow> 's \<Rightarrow> 'op list" where
  "succeeding step [] s = []"
| "succeeding step (x # xs) s =
     (let p = step x s in
        (if is_ok (fst p) then x # succeeding step xs (snd p) else succeeding step xs (snd p)))"

locale transactional_machine =
  fixes step :: "'op \<Rightarrow> 's \<Rightarrow> ('e, 'a) res \<times> 's"
  assumes err_frame: "fst (step x s) = Inl e \<Longrightarrow> snd (step x s) = s"
begin

lemma run_succeeding:
  "snd (run_ops step (succeeding step xs s) s) = snd (run_ops step xs s)"
proof (induction xs arbitrary: s)
  case (Cons x xs)
  have "snd (step x s) = s" if "\<not> is_ok (fst (step x s))"
    using err_frame that by (auto simp: not_is_ok_iff)
  with Cons show ?case by (simp add: Let_def)
qed simp

end

subsection \<open>Encoders and decoders\<close>

locale codec =
  fixes enc :: "'a \<Rightarrow> 'b"
    and dec :: "'b \<Rightarrow> ('e, 'a) res"
    and ok :: "'a \<Rightarrow> bool"
  assumes dec_enc: "ok x \<Longrightarrow> dec (enc x) = Inr x"
begin

lemma enc_inj:
  assumes "ok x" and "ok y"
  shows "enc x = enc y \<longleftrightarrow> x = y"
proof
  assume "enc x = enc y"
  then have "dec (enc x) = dec (enc y)" by (rule arg_cong)
  then show "x = y" by (simp add: dec_enc [OF assms(1)] dec_enc [OF assms(2)])
qed simp

lemma map_enc_inj:
  "list_all ok xs \<Longrightarrow> list_all ok ys \<Longrightarrow> map enc xs = map enc ys \<longleftrightarrow> xs = ys"
proof (induction xs arbitrary: ys)
  case Nil
  show ?case by (cases ys) simp_all
next
  case (Cons x xs)
  then show ?case by (cases ys) (simp_all add: enc_inj)
qed

end

end
