(* ===== verification/Rust_Text.thy ===== *)
theory Rust_Text
  imports Prelude
begin

text \<open>
  The operations of Rust's \<open>str\<close>, \<open>String\<close> and integer parsing that the crates use, over
  strings as lists of UTF-8 bytes: trimming (of every Unicode white-space character, in its
  encoding), splitting, prefixes and suffixes, lines, ASCII case, decimal numbers and their
  parser. The last section relates printing and parsing.
\<close>

section \<open>Bytes\<close>

definition byte_val :: "char \<Rightarrow> nat" where
  "byte_val c = of_char c"

abbreviation ch_nl :: char where "ch_nl \<equiv> CHR 0x0A"
abbreviation ch_cr :: char where "ch_cr \<equiv> CHR 0x0D"
abbreviation ch_tab :: char where "ch_tab \<equiv> CHR 0x09"
abbreviation ch_quote :: char where "ch_quote \<equiv> CHR 0x22"
abbreviation ch_apos :: char where "ch_apos \<equiv> CHR 0x27"
abbreviation ch_backslash :: char where "ch_backslash \<equiv> CHR 0x5C"

definition is_ascii_digit :: "char \<Rightarrow> bool" where
  "is_ascii_digit c \<longleftrightarrow> CHR ''0'' \<le> c \<and> c \<le> CHR ''9''"

definition is_ascii_upper :: "char \<Rightarrow> bool" where
  "is_ascii_upper c \<longleftrightarrow> CHR ''A'' \<le> c \<and> c \<le> CHR ''Z''"

definition is_ascii_lower :: "char \<Rightarrow> bool" where
  "is_ascii_lower c \<longleftrightarrow> CHR ''a'' \<le> c \<and> c \<le> CHR ''z''"

definition is_ascii_alphanumeric :: "char \<Rightarrow> bool" where
  "is_ascii_alphanumeric c \<longleftrightarrow> is_ascii_digit c \<or> is_ascii_upper c \<or> is_ascii_lower c"

text \<open>\<open>u8::is_ascii_whitespace\<close>: space, tab, line feed, form feed, carriage return.\<close>

definition is_ascii_whitespace :: "char \<Rightarrow> bool" where
  "is_ascii_whitespace c \<longleftrightarrow> c \<in> {CHR '' '', ch_tab, ch_nl, CHR 0x0C, ch_cr}"

definition ascii_lower :: "char \<Rightarrow> char" where
  "ascii_lower c = (if is_ascii_upper c then char_of (byte_val c + 32) else c)"

definition to_ascii_lowercase :: "string \<Rightarrow> string" where
  "to_ascii_lowercase s = map ascii_lower s"

section \<open>Prefixes, suffixes, substrings\<close>

abbreviation starts_with :: "string \<Rightarrow> string \<Rightarrow> bool" where
  "starts_with s p \<equiv> prefix p s"

abbreviation ends_with :: "string \<Rightarrow> string \<Rightarrow> bool" where
  "ends_with s p \<equiv> suffix p s"

abbreviation str_contains :: "string \<Rightarrow> string \<Rightarrow> bool" where
  "str_contains s p \<equiv> sublist p s"

definition strip_prefix :: "string \<Rightarrow> string \<Rightarrow> string option" where
  "strip_prefix p s = (if prefix p s then Some (drop (length p) s) else None)"

definition strip_suffix :: "string \<Rightarrow> string \<Rightarrow> string option" where
  "strip_suffix p s = (if suffix p s then Some (take (length s - length p) s) else None)"

text \<open>\<open>str::find\<close>: the first position where the pattern starts.\<close>

fun find_sub :: "string \<Rightarrow> string \<Rightarrow> nat option" where
  "find_sub p [] = (if p = [] then Some 0 else None)"
| "find_sub p (c # s) = (if prefix p (c # s) then Some 0 else map_option Suc (find_sub p s))"

fun find_char :: "(char \<Rightarrow> bool) \<Rightarrow> string \<Rightarrow> nat option" where
  "find_char P [] = None"
| "find_char P (c # s) = (if P c then Some 0 else map_option Suc (find_char P s))"

fun split_once :: "char \<Rightarrow> string \<Rightarrow> (string \<times> string) option" where
  "split_once c [] = None"
| "split_once c (x # xs) =
     (if x = c then Some ([], xs)
      else map_option (\<lambda>(a, b). (x # a, b)) (split_once c xs))"

definition rsplit_once :: "char \<Rightarrow> string \<Rightarrow> (string \<times> string) option" where
  "rsplit_once c s = map_option (\<lambda>(a, b). (rev b, rev a)) (split_once c (rev s))"

fun split_on :: "char \<Rightarrow> string \<Rightarrow> string list" where
  "split_on c [] = [[]]"
| "split_on c (x # xs) =
     (if x = c then [] # split_on c xs
      else (case split_on c xs of p # ps \<Rightarrow> (x # p) # ps | [] \<Rightarrow> [[x]]))"

text \<open>
  \<open>str::lines\<close>: pieces that end at a line feed lose it and one carriage return before it;
  a last piece without a line feed is kept as it is, and dropped when empty.
\<close>

definition strip_cr :: "string \<Rightarrow> string" where
  "strip_cr s = (if s \<noteq> [] \<and> last s = ch_cr then butlast s else s)"

definition lines_of :: "string \<Rightarrow> string list" where
  "lines_of s =
     (let ps = split_on ch_nl s
      in map strip_cr (butlast ps) @ (if last ps = [] then [] else [last ps]))"

fun join_with :: "string \<Rightarrow> string list \<Rightarrow> string" where
  "join_with sep [] = []"
| "join_with sep [x] = x"
| "join_with sep (x # y # xs) = x @ sep @ join_with sep (y # xs)"

section \<open>Trimming\<close>

text \<open>The 25 Unicode white-space characters in UTF-8.\<close>

definition unicode_ws :: "string list" where
  "unicode_ws =
     [[CHR 0x20], [CHR 0x09], [CHR 0x0A], [CHR 0x0B], [CHR 0x0C], [CHR 0x0D],
      [CHR 0xC2, CHR 0x85], [CHR 0xC2, CHR 0xA0], [CHR 0xE1, CHR 0x9A, CHR 0x80],
      [CHR 0xE2, CHR 0x80, CHR 0x80], [CHR 0xE2, CHR 0x80, CHR 0x81],
      [CHR 0xE2, CHR 0x80, CHR 0x82], [CHR 0xE2, CHR 0x80, CHR 0x83],
      [CHR 0xE2, CHR 0x80, CHR 0x84], [CHR 0xE2, CHR 0x80, CHR 0x85],
      [CHR 0xE2, CHR 0x80, CHR 0x86], [CHR 0xE2, CHR 0x80, CHR 0x87],
      [CHR 0xE2, CHR 0x80, CHR 0x88], [CHR 0xE2, CHR 0x80, CHR 0x89],
      [CHR 0xE2, CHR 0x80, CHR 0x8A], [CHR 0xE2, CHR 0x80, CHR 0xA8],
      [CHR 0xE2, CHR 0x80, CHR 0xA9], [CHR 0xE2, CHR 0x80, CHR 0xAF],
      [CHR 0xE2, CHR 0x81, CHR 0x9F], [CHR 0xE3, CHR 0x80, CHR 0x80]]"

definition leading_ws :: "string \<Rightarrow> nat" where
  "leading_ws s = (case find (\<lambda>w. prefix w s) unicode_ws of None \<Rightarrow> 0 | Some w \<Rightarrow> length w)"

definition trailing_ws :: "string \<Rightarrow> nat" where
  "trailing_ws s = (case find (\<lambda>w. suffix w s) unicode_ws of None \<Rightarrow> 0 | Some w \<Rightarrow> length w)"

lemma unicode_ws_nonempty: "w \<in> set unicode_ws \<Longrightarrow> w \<noteq> []"
  by (auto simp: unicode_ws_def)

lemma leading_ws_le: "leading_ws s \<le> length s"
  by (auto simp: leading_ws_def find_Some_iff prefix_def split: option.splits)

lemma trailing_ws_le: "trailing_ws s \<le> length s"
  by (auto simp: trailing_ws_def find_Some_iff suffix_def split: option.splits)

function trim_start :: "string \<Rightarrow> string" where
  "trim_start s = (if leading_ws s = 0 then s else trim_start (drop (leading_ws s) s))"
  by pat_completeness auto
termination
proof (relation "measure length")
  fix s :: string
  assume "leading_ws s \<noteq> 0"
  then show "(drop (leading_ws s) s, s) \<in> measure length"
    using leading_ws_le [of s] by simp
qed simp

function trim_end :: "string \<Rightarrow> string" where
  "trim_end s = (if trailing_ws s = 0 then s else trim_end (take (length s - trailing_ws s) s))"
  by pat_completeness auto
termination
proof (relation "measure length")
  fix s :: string
  assume "trailing_ws s \<noteq> 0"
  then show "(take (length s - trailing_ws s) s, s) \<in> measure length"
    using trailing_ws_le [of s] by simp
qed simp

declare trim_start.simps [simp del] trim_end.simps [simp del]

definition trim :: "string \<Rightarrow> string" where
  "trim s = trim_end (trim_start s)"

definition trim_start_matches :: "(char \<Rightarrow> bool) \<Rightarrow> string \<Rightarrow> string" where
  "trim_start_matches P s = dropWhile P s"

definition trim_end_matches :: "(char \<Rightarrow> bool) \<Rightarrow> string \<Rightarrow> string" where
  "trim_end_matches P s = rev (dropWhile P (rev s))"

definition trim_matches :: "(char \<Rightarrow> bool) \<Rightarrow> string \<Rightarrow> string" where
  "trim_matches P s = trim_end_matches P (trim_start_matches P s)"

section \<open>Decimal numbers\<close>

definition digit_char :: "nat \<Rightarrow> char" where
  "digit_char d = char_of (48 + d)"

fun dec_str :: "nat \<Rightarrow> string" where
  "dec_str n = (if n < 10 then [digit_char n] else dec_str (n div 10) @ [digit_char (n mod 10)])"

declare dec_str.simps [simp del]

definition hex_digit :: "nat \<Rightarrow> char" where
  "hex_digit d = (if d < 10 then char_of (48 + d) else char_of (87 + d))"

datatype int_error = IntEmpty | IntInvalidDigit | IntPosOverflow

fun int_error_str :: "int_error \<Rightarrow> string" where
  "int_error_str IntEmpty = ''cannot parse integer from empty string''"
| "int_error_str IntInvalidDigit = ''invalid digit found in string''"
| "int_error_str IntPosOverflow = ''number too large to fit in target type''"

definition digit_val :: "char \<Rightarrow> nat option" where
  "digit_val c = (if is_ascii_digit c then Some (byte_val c - 48) else None)"

text \<open>
  The loop of \<open>from_str_radix\<close>: a character that is no digit is reported before the overflow
  it would cause, an overflow before any later character.
\<close>

fun parse_digits :: "nat \<Rightarrow> nat \<Rightarrow> string \<Rightarrow> (int_error, nat) res" where
  "parse_digits bound acc [] = Inr acc"
| "parse_digits bound acc (c # cs) =
     (case digit_val c of
        None \<Rightarrow> Inl IntInvalidDigit
      | Some d \<Rightarrow>
          (if acc * 10 + d < bound then parse_digits bound (acc * 10 + d) cs
           else Inl IntPosOverflow))"

text \<open>\<open>bound\<close> is the number of values of the type, as \<open>2 ^ 64\<close> for \<open>u64\<close>.\<close>

definition parse_unsigned :: "nat \<Rightarrow> string \<Rightarrow> (int_error, nat) res" where
  "parse_unsigned bound s =
     (if s = [] then Inl IntEmpty
      else if s = ''+'' \<or> s = ''-'' then Inl IntInvalidDigit
      else if hd s = CHR ''+'' then parse_digits bound 0 (tl s)
      else parse_digits bound 0 s)"

definition parse_word :: "string \<Rightarrow> (int_error, 'a::len word) res" where
  "parse_word s = map_sum id of_nat (parse_unsigned (2 ^ LENGTH('a)) s)"

section \<open>Facts about splitting, searching and trimming\<close>

lemma split_once_append [simp]: "c \<notin> set a \<Longrightarrow> split_once c (a @ c # b) = Some (a, b)"
  by (induction a) auto

lemma split_once_sound: "split_once c s = Some (a, b) \<Longrightarrow> s = a @ c # b \<and> c \<notin> set a"
  by (induction s arbitrary: a) (auto split: if_splits)

lemma split_once_Some:
  "split_once c s = Some (a, b) \<longleftrightarrow> s = a @ c # b \<and> c \<notin> set a"
  using split_once_sound by fastforce

lemma split_once_None: "split_once c s = None \<longleftrightarrow> c \<notin> set s"
  by (induction s) auto

lemma rsplit_once_Some:
  "rsplit_once c s = Some (a, b) \<longleftrightarrow> s = a @ c # b \<and> c \<notin> set b"
proof -
  have "rsplit_once c s = Some (a, b) \<longleftrightarrow> split_once c (rev s) = Some (rev b, rev a)"
    by (auto simp: rsplit_once_def)
  also have "\<dots> \<longleftrightarrow> rev s = rev b @ c # rev a \<and> c \<notin> set b"
    by (simp add: split_once_Some)
  also have "rev s = rev b @ c # rev a \<longleftrightarrow> s = a @ c # b"
    by (metis append.assoc append_Cons append_Nil rev_append rev_rev_ident rev.simps(2))
  finally show ?thesis .
qed

lemma rsplit_once_None: "rsplit_once c s = None \<longleftrightarrow> c \<notin> set s"
  by (simp add: rsplit_once_def split_once_None)

lemma split_on_nonempty [simp]: "split_on c s \<noteq> []"
  by (induction s) (auto split: list.splits)

lemma split_on_none: "c \<notin> set s \<Longrightarrow> split_on c s = [s]"
  by (induction s) auto

lemma split_on_append [simp]: "c \<notin> set a \<Longrightarrow> split_on c (a @ c # b) = a # split_on c b"
  by (induction a) auto

lemma split_on_pieces: "p \<in> set (split_on c s) \<Longrightarrow> c \<notin> set p"
  by (induction s arbitrary: p) (auto split: list.splits if_splits)

lemma join_split_on: "join_with [c] (split_on c s) = s"
proof (induction s)
  case (Cons x xs)
  obtain p ps where sp: "split_on c xs = p # ps"
    by (cases "split_on c xs") auto
  with Cons show ?case by (cases ps) auto
qed simp

text \<open>A text written line by line reads back line by line.\<close>

lemma split_on_terminated:
  "\<forall>l \<in> set ls. c \<notin> set l \<Longrightarrow> split_on c (concat (map (\<lambda>l. l @ [c]) ls)) = ls @ [[]]"
  by (induction ls) auto

lemma lines_of_terminated:
  "\<forall>l \<in> set ls. ch_nl \<notin> set l \<Longrightarrow>
     lines_of (concat (map (\<lambda>l. l @ [ch_nl]) ls)) = map strip_cr ls"
  by (simp add: lines_of_def split_on_terminated)

lemma find_sub_Some:
  assumes "find_sub p s = Some i"
  shows "prefix p (drop i s)" and "i \<le> length s" and "\<And>j. j < i \<Longrightarrow> \<not> prefix p (drop j s)"
proof -
  have "prefix p (drop i s) \<and> i \<le> length s \<and> (\<forall>j < i. \<not> prefix p (drop j s))"
    using assms
  proof (induction s arbitrary: i)
    case (Cons c s)
    show ?case
    proof (cases "prefix p (c # s)")
      case True
      with Cons.prems show ?thesis by simp
    next
      case False
      with Cons.prems obtain k where k: "find_sub p s = Some k" "i = Suc k" by auto
      with Cons.IH [of k] False show ?thesis by (auto simp: less_Suc_eq_0_disj)
    qed
  qed (auto split: if_splits)
  then show "prefix p (drop i s)" "i \<le> length s" "\<And>j. j < i \<Longrightarrow> \<not> prefix p (drop j s)"
    by auto
qed

lemma find_sub_bound: "find_sub p s = Some i \<Longrightarrow> i + length p \<le> length s"
  using find_sub_Some [of p s i] by (auto dest: prefix_length_le)

lemma find_sub_None: "find_sub p s = None \<longleftrightarrow> \<not> sublist p s"
  by (induction s) (auto simp: sublist_Cons_right)

lemma strip_prefix_Some: "strip_prefix p s = Some t \<longleftrightarrow> s = p @ t"
  by (auto simp: strip_prefix_def prefix_def)

lemma strip_suffix_Some: "strip_suffix p s = Some t \<longleftrightarrow> s = t @ p"
  by (auto simp: strip_suffix_def suffix_def)

lemma trim_start_suffix: "suffix (trim_start s) s"
proof (induction s rule: trim_start.induct)
  case (1 s)
  show ?case
  proof (cases "leading_ws s = 0")
    case True
    then show ?thesis by (simp add: trim_start.simps [of s])
  next
    case False
    with 1 have "suffix (trim_start (drop (leading_ws s) s)) (drop (leading_ws s) s)" by simp
    then have "suffix (trim_start (drop (leading_ws s) s)) s"
      using suffix_drop suffix_order.trans by blast
    with False show ?thesis by (simp add: trim_start.simps [of s])
  qed
qed

lemma leading_ws_trim_start: "leading_ws (trim_start s) = 0"
proof (induction s rule: trim_start.induct)
  case (1 s)
  then show ?case by (cases "leading_ws s = 0") (simp_all add: trim_start.simps [of s])
qed

lemma trim_end_prefix: "prefix (trim_end s) s"
proof (induction s rule: trim_end.induct)
  case (1 s)
  show ?case
  proof (cases "trailing_ws s = 0")
    case True
    then show ?thesis by (simp add: trim_end.simps [of s])
  next
    case False
    let ?t = "take (length s - trailing_ws s) s"
    from False 1 have "prefix (trim_end ?t) ?t" by simp
    then have "prefix (trim_end ?t) s"
      using take_is_prefix prefix_order.trans by blast
    with False show ?thesis by (simp add: trim_end.simps [of s])
  qed
qed

lemma set_trim: "set (trim s) \<subseteq> set s"
  using set_mono_prefix [OF trim_end_prefix [of "trim_start s"]]
    set_mono_suffix [OF trim_start_suffix [of s]] by (auto simp: trim_def)

text \<open>A text that neither starts nor ends with a white-space byte is its own trimmed form.\<close>

definition ws_free :: "char \<Rightarrow> bool" where
  "ws_free c \<longleftrightarrow> c \<notin> hd ` set unicode_ws \<and> c \<notin> last ` set unicode_ws"

lemma leading_ws_free: "ws_free c \<Longrightarrow> leading_ws (c # s) = 0"
proof -
  assume free: "ws_free c"
  have "\<not> prefix w (c # s)" if w: "w \<in> set unicode_ws" for w
    using unicode_ws_nonempty [OF w] free w by (cases w) (auto simp: ws_free_def image_iff)
  then have "find (\<lambda>w. prefix w (c # s)) unicode_ws = None" by (simp add: find_None_iff)
  then show ?thesis by (simp add: leading_ws_def)
qed

lemma trailing_ws_free: "ws_free c \<Longrightarrow> trailing_ws (s @ [c]) = 0"
proof -
  assume free: "ws_free c"
  have "\<not> suffix w (s @ [c])" if w: "w \<in> set unicode_ws" for w
  proof
    assume "suffix w (s @ [c])"
    then have "last w = c"
      using unicode_ws_nonempty [OF w] by (auto simp: suffix_def dest: arg_cong [where f = last])
    with free w show False by (auto simp: ws_free_def image_iff)
  qed
  then have "find (\<lambda>w. suffix w (s @ [c])) unicode_ws = None" by (simp add: find_None_iff)
  then show ?thesis by (simp add: trailing_ws_def)
qed

lemma trim_id:
  assumes "s = [] \<or> ws_free (hd s) \<and> ws_free (last s)"
  shows "trim s = s"
proof (cases "s = []")
  case True
  have "leading_ws [] = 0" "trailing_ws [] = 0" by (simp_all add: leading_ws_def trailing_ws_def unicode_ws_def)
  with True show ?thesis by (simp add: trim_def trim_start.simps trim_end.simps)
next
  case False
  with assms have "leading_ws s = 0" "trailing_ws s = 0"
    using leading_ws_free [of "hd s" "tl s"] trailing_ws_free [of "last s" "butlast s"] by auto
  then show ?thesis by (simp add: trim_def trim_start.simps [of s] trim_end.simps [of s])
qed

lemma trim_nonempty:
  assumes "s \<noteq> []" and "\<forall>c \<in> set s. ws_free c"
  shows "trim s = s"
  using assms by (intro trim_id) simp

section \<open>Printing and parsing numbers\<close>

lemma digit_val_char: "d < 10 \<Longrightarrow> digit_val (digit_char d) = Some d"
  by (auto simp: digit_val_def digit_char_def is_ascii_digit_def byte_val_def less_eq_char_def)

lemma parse_digits_snoc:
  "parse_digits b acc (s @ [c]) =
     (case parse_digits b acc s of
        Inl e \<Rightarrow> Inl e
      | Inr v \<Rightarrow> parse_digits b v [c])"
  by (induction s arbitrary: acc) (auto split: option.splits)

lemma parse_dec_str: "n < b \<Longrightarrow> parse_digits b 0 (dec_str n) = Inr n"
proof (induction n rule: dec_str.induct)
  case (1 n)
  show ?case
  proof (cases "n < 10")
    case True
    with "1.prems" show ?thesis by (simp add: dec_str.simps [of n] digit_val_char)
  next
    case False
    with 1 have "parse_digits b 0 (dec_str (n div 10)) = Inr (n div 10)" by simp
    with False "1.prems" show ?thesis
      by (simp add: dec_str.simps [of n] parse_digits_snoc digit_val_char)
  qed
qed

lemma dec_str_digits: "c \<in> set (dec_str n) \<Longrightarrow> is_ascii_digit c"
proof (induction n rule: dec_str.induct)
  case (1 n)
  then show ?case
    by (cases "n < 10")
      (auto simp: dec_str.simps [of n] digit_char_def is_ascii_digit_def less_eq_char_def)
qed

lemma dec_str_nonempty [simp]: "dec_str n \<noteq> []"
  by (subst dec_str.simps) simp

lemma parse_unsigned_dec_str: "n < b \<Longrightarrow> parse_unsigned b (dec_str n) = Inr n"
proof -
  assume n: "n < b"
  have dig: "is_ascii_digit (hd (dec_str n))"
    by (rule dec_str_digits [of _ n]) simp
  have "hd (dec_str n) \<noteq> CHR ''+''" "dec_str n \<noteq> ''+''" "dec_str n \<noteq> ''-''"
    using dig by (auto simp: is_ascii_digit_def)
  then show ?thesis by (simp add: parse_unsigned_def parse_dec_str n)
qed

interpretation dec_word: codec "\<lambda>w :: 'a::len word. dec_str (unat w)" parse_word "\<lambda>_. True"
proof unfold_locales
  fix w :: "'a word"
  have "unat w < 2 ^ LENGTH('a)" by (rule unsigned_less)
  then show "parse_word (dec_str (unat w)) = Inr w"
    by (simp add: parse_word_def parse_unsigned_dec_str)
qed

lemma dec_str_inj: "dec_str m = dec_str n \<longleftrightarrow> m = n"
proof
  assume eq: "dec_str m = dec_str n"
  have "Inr m = parse_unsigned (Suc (m + n)) (dec_str m)"
    by (rule parse_unsigned_dec_str [symmetric]) simp
  also have "\<dots> = parse_unsigned (Suc (m + n)) (dec_str n)" by (simp only: eq)
  also have "\<dots> = Inr n" by (rule parse_unsigned_dec_str) simp
  finally show "m = n" by simp
qed simp

lemma hex_digit_inj: "d < 16 \<Longrightarrow> e < 16 \<Longrightarrow> hex_digit d = hex_digit e \<Longrightarrow> d = e"
proof -
  assume l: "d < 16" "e < 16" and eq: "hex_digit d = hex_digit e"
  have "(of_char (hex_digit d) :: nat) = of_char (hex_digit e)" using eq by simp
  with l show "d = e" by (auto simp: hex_digit_def split: if_splits)
qed

end
