(* ===== verification/Intent.thy ===== *)
theory Intent
  imports Rust_Text
begin

text \<open>
  Session intents and the requests of the daemon's socket
  (\<open>crates/apolysis-accountability/src/intent.rs\<close>): the data, the validation of every
  request, retention windows, and the decoding of a frame. The JSON parser is a parameter of
  \<open>decode_intent_frame\<close>.
\<close>

section \<open>Data\<close>

definition intent_schema_v1 :: u32 where
  "intent_schema_v1 = 1"

definition max_intent_frame_bytes :: nat where
  "max_intent_frame_bytes = 64 * 1024"

definition default_tenant_id :: string where
  "default_tenant_id = ''default''"

datatype retention_tier = TierShort | TierStandard | TierExtended

definition day_ms :: u64 where
  "day_ms = 24 * 60 * 60 * 1000"

fun retention_window_ms :: "retention_tier \<Rightarrow> u64" where
  "retention_window_ms TierShort = 7 * day_ms"
| "retention_window_ms TierStandard = 30 * day_ms"
| "retention_window_ms TierExtended = 365 * day_ms"

datatype action_class =
    AcTest | AcBuild | AcExecute | AcReadFile | AcWriteFile | AcNetwork | AcCredential

datatype resource_kind =
    ReWorkspace | RePath | ReEgress | ReCommand | ReCredential | ReServiceAccountToken

record resource_selector =
  rs_kind :: resource_kind
  rs_value :: string

datatype runtime_selector = RsLocal | RsDocker | RsContainerd | RsKubernetes

record workload_selector =
  ws_runtime :: runtime_selector
  ws_key :: string
  ws_value :: string

record session_intent =
  si_schema_version :: u32
  si_tenant_id :: string
  si_retention_tier :: retention_tier
  si_session_id :: string
  si_expires_at :: u64
  si_declared_actions :: "action_class list"
  si_allowed_resources :: "resource_selector list"
  si_policy_ref :: string
  si_workload_selectors :: "workload_selector list"

datatype intent_request =
    ReqRegister session_intent
  | ReqRenew string u64
  | ReqClose string
  | ReqQuery string string
  | ReqListSessions string "retention_tier option"
  | ReqApplyRetention string bool "u64 option"
  | ReqHealth

datatype intent_error =
    FrameTooLarge nat
  | InvalidJson string
  | UnsupportedSchemaVersion u32
  | EmptyTenantId
  | InvalidTenantId
  | EmptySessionId
  | InvalidSessionId
  | EmptyPolicyRef
  | Expired

fun intent_error_str :: "intent_error \<Rightarrow> string" where
  "intent_error_str (FrameTooLarge n) = ''intent frame is too large: '' @ dec_str n"
| "intent_error_str (InvalidJson e) = ''invalid intent JSON: '' @ e"
| "intent_error_str (UnsupportedSchemaVersion v) =
     ''unsupported intent schema version: '' @ dec_str (unat v)"
| "intent_error_str EmptyTenantId = ''tenant id must not be empty''"
| "intent_error_str InvalidTenantId =
     ''tenant id must be 1-63 ASCII letters, digits, dots, underscores, or hyphens''"
| "intent_error_str EmptySessionId = ''session id must not be empty''"
| "intent_error_str InvalidSessionId =
     ''session id must be 1-128 ASCII letters, digits, dots, underscores, or hyphens''"
| "intent_error_str EmptyPolicyRef = ''policy reference must not be empty''"
| "intent_error_str Expired = ''intent is expired''"

section \<open>Validation\<close>

definition id_byte :: "char \<Rightarrow> bool" where
  "id_byte c \<longleftrightarrow> is_ascii_alphanumeric c \<or> c = CHR ''.'' \<or> c = CHR ''_'' \<or> c = CHR ''-''"

definition validate_session_id :: "string \<Rightarrow> (intent_error, unit) res" where
  "validate_session_id s =
     (if trim s = [] then Inl EmptySessionId
      else if length s > 128 \<or> \<not> list_all id_byte s then Inl InvalidSessionId
      else Inr ())"

definition validate_tenant_id :: "string \<Rightarrow> (intent_error, unit) res" where
  "validate_tenant_id s =
     (if trim s = [] then Inl EmptyTenantId
      else if length s > 63 \<or> \<not> list_all id_byte s then Inl InvalidTenantId
      else Inr ())"

definition validate_intent :: "session_intent \<Rightarrow> u64 \<Rightarrow> (intent_error, unit) res" where
  "validate_intent i now =
     (if si_schema_version i \<noteq> intent_schema_v1 then
        Inl (UnsupportedSchemaVersion (si_schema_version i))
      else
        (case validate_tenant_id (si_tenant_id i) of
           Inl e \<Rightarrow> Inl e
         | Inr _ \<Rightarrow>
             (case validate_session_id (si_session_id i) of
                Inl e \<Rightarrow> Inl e
              | Inr _ \<Rightarrow>
                  (if si_expires_at i \<le> now then Inl Expired
                   else if trim (si_policy_ref i) = [] then Inl EmptyPolicyRef
                   else Inr ()))))"

fun validate_request :: "intent_request \<Rightarrow> u64 \<Rightarrow> (intent_error, unit) res" where
  "validate_request (ReqRegister i) now = validate_intent i now"
| "validate_request (ReqRenew sid expires) now =
     (case validate_session_id sid of
        Inl e \<Rightarrow> Inl e
      | Inr _ \<Rightarrow> (if expires \<le> now then Inl Expired else Inr ()))"
| "validate_request (ReqClose sid) now = validate_session_id sid"
| "validate_request (ReqQuery tenant sid) now =
     (case validate_tenant_id tenant of
        Inl e \<Rightarrow> Inl e
      | Inr _ \<Rightarrow> validate_session_id sid)"
| "validate_request (ReqListSessions tenant _) now = validate_tenant_id tenant"
| "validate_request (ReqApplyRetention tenant _ _) now = validate_tenant_id tenant"
| "validate_request ReqHealth now = Inr ()"

text \<open>\<open>from_slice\<close> is the JSON deserializer: a request, or the text of its error.\<close>

definition decode_intent_frame ::
    "(string \<Rightarrow> (string, intent_request) res) \<Rightarrow> string \<Rightarrow> u64 \<Rightarrow> (intent_error, intent_request) res" where
  "decode_intent_frame from_slice frame now =
     (if length frame > max_intent_frame_bytes then Inl (FrameTooLarge (length frame))
      else
        (case from_slice frame of
           Inl e \<Rightarrow> Inl (InvalidJson e)
         | Inr request \<Rightarrow>
             (case validate_request request now of
                Inl e \<Rightarrow> Inl e
              | Inr _ \<Rightarrow> Inr request)))"

section \<open>What validation accepts\<close>

lemma id_byte_ws_free: "id_byte c \<Longrightarrow> ws_free c"
  by (auto simp: id_byte_def ws_free_def unicode_ws_def is_ascii_alphanumeric_def
      is_ascii_digit_def is_ascii_upper_def is_ascii_lower_def less_eq_char_def)

lemma trim_id_bytes: "list_all id_byte s \<Longrightarrow> trim s = s"
  using id_byte_ws_free by (intro trim_id) (cases "s = []"; auto simp: list_all_iff)

lemma validate_session_id_iff:
  "validate_session_id s = Inr () \<longleftrightarrow> s \<noteq> [] \<and> length s \<le> 128 \<and> list_all id_byte s"
  using trim_id_bytes [of s] by (auto simp: validate_session_id_def)

lemma validate_tenant_id_iff:
  "validate_tenant_id s = Inr () \<longleftrightarrow> s \<noteq> [] \<and> length s \<le> 63 \<and> list_all id_byte s"
  using trim_id_bytes [of s] by (auto simp: validate_tenant_id_def)

lemma validate_intent_iff:
  "validate_intent i now = Inr () \<longleftrightarrow>
     si_schema_version i = intent_schema_v1 \<and> validate_tenant_id (si_tenant_id i) = Inr ()
     \<and> validate_session_id (si_session_id i) = Inr () \<and> now < si_expires_at i
     \<and> trim (si_policy_ref i) \<noteq> []"
  by (auto simp: validate_intent_def not_le split: sum.splits)

lemma unat_retention_window:
  "unat (retention_window_ms TierShort) = 604800000"
  "unat (retention_window_ms TierStandard) = 2592000000"
  "unat (retention_window_ms TierExtended) = 31536000000"
  by (simp_all add: day_ms_def)

end
