(* ===== verification/Session_Registry.thy ===== *)
theory Session_Registry
  imports Intent
begin

text \<open>
  The session registry (\<open>crates/apolysis-accountability/src/session.rs\<close>): sessions by id,
  the index from cgroups to the session that owns them, cgroups discovered before their
  intent was registered, and the operations on them. An operation returns its result
  together with the registry it leaves, also when it fails: the code mutates in place.
\<close>

section \<open>Data\<close>

datatype session_status = StActive | StDegraded | StExpired | StClosed

record session_state =
  st_intent :: session_intent
  st_expires_at :: u64
  st_status :: session_status
  st_cgroup_ids :: "u64 list"

definition session_state_new :: "session_intent \<Rightarrow> session_state" where
  "session_state_new i =
     \<lparr>st_intent = i, st_expires_at = si_expires_at i, st_status = StActive, st_cgroup_ids = []\<rparr>"

datatype register_outcome = Inserted | Replaced

datatype association_outcome = Attached | MissingIntent

record purge_report =
  pr_tenant_id :: string
  pr_now :: u64
  pr_dry_run :: bool
  pr_eligible :: "string list"
  pr_purged :: "string list"
  pr_retained :: "string list"

datatype registry_error =
    InvalidIntent intent_error
  | SessionCapacityReached nat
  | PendingCapacityReached nat
  | SessionNotFound string
  | SessionNotActive string
  | CgroupAlreadyAssigned u64 string

fun registry_error_str :: "registry_error \<Rightarrow> string" where
  "registry_error_str (InvalidIntent e) = ''invalid intent: '' @ intent_error_str e"
| "registry_error_str (SessionCapacityReached n) = ''session capacity reached: '' @ dec_str n"
| "registry_error_str (PendingCapacityReached n) =
     ''pending workload capacity reached: '' @ dec_str n"
| "registry_error_str (SessionNotFound s) = ''session not found: '' @ s"
| "registry_error_str (SessionNotActive s) = ''session is not active: '' @ s"
| "registry_error_str (CgroupAlreadyAssigned c s) =
     ''cgroup '' @ dec_str (unat c) @ '' is already assigned to session '' @ s"

record session_registry =
  sr_max_sessions :: nat
  sr_max_pending :: nat
  sr_sessions :: "(string, session_state) bmap"
  sr_cgroup_index :: "(u64, string) bmap"
  sr_pending :: "(string, u64 list) bmap"
  sr_pending_count :: nat

definition registry_new :: "nat \<Rightarrow> nat \<Rightarrow> session_registry" where
  "registry_new max_sessions max_pending =
     \<lparr>sr_max_sessions = max_sessions, sr_max_pending = max_pending, sr_sessions = [],
      sr_cgroup_index = [], sr_pending = [], sr_pending_count = 0\<rparr>"

section \<open>Operations\<close>

abbreviation session_at :: "session_registry \<Rightarrow> string \<Rightarrow> session_state option" where
  "session_at r \<equiv> bm_get (sr_sessions r)"

abbreviation owner_of :: "session_registry \<Rightarrow> u64 \<Rightarrow> string option" where
  "owner_of r \<equiv> bm_get (sr_cgroup_index r)"

abbreviation pending_at :: "session_registry \<Rightarrow> string \<Rightarrow> u64 list option" where
  "pending_at r \<equiv> bm_get (sr_pending r)"

definition put_session :: "string \<Rightarrow> session_state \<Rightarrow> session_registry \<Rightarrow> session_registry" where
  "put_session sid st r = r\<lparr>sr_sessions := bm_insert sid st (sr_sessions r)\<rparr>"

text \<open>\<open>contains\<close>, \<open>push\<close>, \<open>sort_unstable\<close> on a vector of cgroups.\<close>

definition add_cgroup :: "u64 \<Rightarrow> u64 list \<Rightarrow> u64 list" where
  "add_cgroup c ids = (if c \<in> set ids then ids else sort (ids @ [c]))"

definition ensure_cgroup_available ::
    "session_registry \<Rightarrow> string \<Rightarrow> u64 \<Rightarrow> (registry_error, unit) res" where
  "ensure_cgroup_available r sid c =
     (case owner_of r c of
        Some owner \<Rightarrow> if owner \<noteq> sid then Inl (CgroupAlreadyAssigned c owner) else Inr ()
      | None \<Rightarrow> Inr ())"

definition attach_known_cgroup ::
    "string \<Rightarrow> u64 \<Rightarrow> session_registry \<Rightarrow> (registry_error, unit) res \<times> session_registry" where
  "attach_known_cgroup sid c r =
     (case ensure_cgroup_available r sid c of
        Inl e \<Rightarrow> (Inl e, r)
      | Inr _ \<Rightarrow>
          (case session_at r sid of
             None \<Rightarrow> (Inl (SessionNotFound sid), r)
           | Some st \<Rightarrow>
               (Inr (),
                (put_session sid (st\<lparr>st_cgroup_ids := add_cgroup c (st_cgroup_ids st)\<rparr>) r)
                  \<lparr>sr_cgroup_index := bm_insert c sid (sr_cgroup_index r)\<rparr>)))"

text \<open>The loop over the pending cgroups of a session, left at the first error.\<close>

fun attach_all ::
    "string \<Rightarrow> u64 list \<Rightarrow> session_registry \<Rightarrow> (registry_error, unit) res \<times> session_registry" where
  "attach_all sid [] r = (Inr (), r)"
| "attach_all sid (c # cs) r =
     (case attach_known_cgroup sid c r of
        (Inl e, r') \<Rightarrow> (Inl e, r')
      | (Inr _, r') \<Rightarrow> attach_all sid cs r')"

definition registry_register ::
    "session_intent \<Rightarrow> u64 \<Rightarrow> session_registry
     \<Rightarrow> (registry_error, register_outcome) res \<times> session_registry" where
  "registry_register intent now r =
     (case validate_intent intent now of
        Inl e \<Rightarrow> (Inl (InvalidIntent e), r)
      | Inr _ \<Rightarrow>
          (let sid = si_session_id intent;
               placed =
                 (case session_at r sid of
                    Some st \<Rightarrow>
                      Inr (Replaced,
                           put_session sid
                             (st\<lparr>st_intent := intent, st_expires_at := si_expires_at intent,
                                 st_status := StActive\<rparr>) r)
                  | None \<Rightarrow>
                      (if sr_max_sessions r \<le> length (sr_sessions r) then
                         Inl (SessionCapacityReached (sr_max_sessions r))
                       else Inr (Inserted, put_session sid (session_state_new intent) r)))
           in
             (case placed of
                Inl e \<Rightarrow> (Inl e, r)
              | Inr (outcome, r1) \<Rightarrow>
                  (case pending_at r1 sid of
                     None \<Rightarrow> (Inr outcome, r1)
                   | Some cgroups \<Rightarrow>
                       (case attach_all sid cgroups
                               (r1\<lparr>sr_pending := bm_remove sid (sr_pending r1),
                                   sr_pending_count := sr_pending_count r1 - length cgroups\<rparr>) of
                          (Inl e, r2) \<Rightarrow> (Inl e, r2)
                        | (Inr _, r2) \<Rightarrow> (Inr outcome, r2))))))"

definition registry_renew ::
    "string \<Rightarrow> u64 \<Rightarrow> u64 \<Rightarrow> session_registry \<Rightarrow> (registry_error, unit) res \<times> session_registry" where
  "registry_renew sid expires now r =
     (if expires \<le> now then (Inl (InvalidIntent Expired), r)
      else
        (case session_at r sid of
           None \<Rightarrow> (Inl (SessionNotFound sid), r)
         | Some st \<Rightarrow>
             (if st_status st = StClosed then (Inl (SessionNotActive sid), r)
              else
                (Inr (),
                 put_session sid
                   (st\<lparr>st_expires_at := expires,
                       st_intent := (st_intent st)\<lparr>si_expires_at := expires\<rparr>,
                       st_status := StActive\<rparr>) r))))"

definition drop_cgroups :: "u64 list \<Rightarrow> (u64, string) bmap \<Rightarrow> (u64, string) bmap" where
  "drop_cgroups cs m = fold bm_remove cs m"

definition registry_deactivate ::
    "string \<Rightarrow> session_status \<Rightarrow> session_registry
     \<Rightarrow> (registry_error, unit) res \<times> session_registry" where
  "registry_deactivate sid status r =
     (case session_at r sid of
        None \<Rightarrow> (Inl (SessionNotFound sid), r)
      | Some st \<Rightarrow>
          (Inr (),
           (put_session sid (st\<lparr>st_status := status\<rparr>) r)
             \<lparr>sr_cgroup_index := drop_cgroups (st_cgroup_ids st) (sr_cgroup_index r)\<rparr>))"

definition deactivate_and_get ::
    "session_status \<Rightarrow> string \<Rightarrow> session_registry
     \<Rightarrow> (registry_error, session_state) res \<times> session_registry" where
  "deactivate_and_get status sid r =
     (case registry_deactivate sid status r of
        (Inl e, r') \<Rightarrow> (Inl e, r')
      | (Inr _, r') \<Rightarrow>
          ((case session_at r' sid of
              Some st \<Rightarrow> Inr st
            | None \<Rightarrow> Inl (SessionNotFound sid)), r'))"

definition registry_close ::
    "string \<Rightarrow> session_registry \<Rightarrow> (registry_error, session_state) res \<times> session_registry" where
  "registry_close sid r = deactivate_and_get StClosed sid r"

definition registry_degrade ::
    "string \<Rightarrow> session_registry \<Rightarrow> (registry_error, session_state) res \<times> session_registry" where
  "registry_degrade sid r = deactivate_and_get StDegraded sid r"

definition session_overdue :: "u64 \<Rightarrow> session_state \<Rightarrow> bool" where
  "session_overdue now st \<longleftrightarrow> st_status st = StActive \<and> st_expires_at st \<le> now"

definition registry_expire :: "u64 \<Rightarrow> session_registry \<Rightarrow> string list \<times> session_registry" where
  "registry_expire now r =
     (let expired = map fst (filter (\<lambda>p. session_overdue now (snd p)) (sr_sessions r))
      in (expired, fold (\<lambda>sid r. snd (registry_deactivate sid StExpired r)) expired r))"

definition registry_associate ::
    "string \<Rightarrow> u64 \<Rightarrow> session_registry \<Rightarrow> (registry_error, unit) res \<times> session_registry" where
  "registry_associate sid c r =
     (case session_at r sid of
        None \<Rightarrow> (Inl (SessionNotFound sid), r)
      | Some st \<Rightarrow>
          (if st_status st \<noteq> StActive then (Inl (SessionNotActive sid), r)
           else attach_known_cgroup sid c r))"

definition registry_discover ::
    "string \<Rightarrow> u64 \<Rightarrow> session_registry
     \<Rightarrow> (registry_error, association_outcome) res \<times> session_registry" where
  "registry_discover sid c r =
     (if session_at r sid \<noteq> None then
        (case registry_associate sid c r of
           (Inl e, r') \<Rightarrow> (Inl e, r')
         | (Inr _, r') \<Rightarrow> (Inr Attached, r'))
      else
        (case ensure_cgroup_available r sid c of
           Inl e \<Rightarrow> (Inl e, r)
         | Inr _ \<Rightarrow>
             (if sr_max_pending r \<le> sr_pending_count r then
                (Inl (PendingCapacityReached (sr_max_pending r)), r)
              else
                (let cgroups = (case pending_at r sid of Some cs \<Rightarrow> cs | None \<Rightarrow> []) in
                 if c \<in> set cgroups then
                   (Inr MissingIntent, r\<lparr>sr_pending := bm_insert sid cgroups (sr_pending r)\<rparr>)
                 else
                   (Inr MissingIntent,
                    r\<lparr>sr_pending := bm_insert sid (add_cgroup c cgroups) (sr_pending r),
                      sr_pending_count := sr_pending_count r + 1,
                      sr_cgroup_index := bm_insert c sid (sr_cgroup_index r)\<rparr>)))))"

definition get_for_tenant :: "session_registry \<Rightarrow> string \<Rightarrow> string \<Rightarrow> session_state option" where
  "get_for_tenant r sid tenant =
     (case session_at r sid of
        Some st \<Rightarrow> if si_tenant_id (st_intent st) = tenant then Some st else None
      | None \<Rightarrow> None)"

definition list_for_tenant ::
    "session_registry \<Rightarrow> string \<Rightarrow> retention_tier option \<Rightarrow> session_state list" where
  "list_for_tenant r tenant tier =
     filter (\<lambda>st. si_tenant_id (st_intent st) = tenant
               \<and> (case tier of Some t \<Rightarrow> si_retention_tier (st_intent st) = t | None \<Rightarrow> True))
       (bm_values (sr_sessions r))"

definition retention_eligible :: "session_state \<Rightarrow> u64 \<Rightarrow> bool" where
  "retention_eligible st now \<longleftrightarrow>
     (st_status st \<in> {StClosed, StExpired} \<or> (st_status st = StActive \<and> st_expires_at st \<le> now))
     \<and> sat_add (st_expires_at st) (retention_window_ms (si_retention_tier (st_intent st))) \<le> now"

definition retention_purge_report ::
    "session_registry \<Rightarrow> string \<Rightarrow> u64 \<Rightarrow> bool \<Rightarrow> purge_report" where
  "retention_purge_report r tenant now dry_run =
     (let mine = filter (\<lambda>p. si_tenant_id (st_intent (snd p)) = tenant) (sr_sessions r)
      in \<lparr>pr_tenant_id = tenant, pr_now = now, pr_dry_run = dry_run,
          pr_eligible = map fst (filter (\<lambda>p. retention_eligible (snd p) now) mine),
          pr_purged = [],
          pr_retained = map fst (filter (\<lambda>p. \<not> retention_eligible (snd p) now) mine)\<rparr>)"

text \<open>One turn of the purge loop: the report's list of purged ids and the registry.\<close>

definition purge_session :: "string \<Rightarrow> string list \<times> session_registry \<Rightarrow> string list \<times> session_registry" where
  "purge_session sid acc =
     (case acc of (purged, r) \<Rightarrow>
        (case session_at r sid of
           None \<Rightarrow> (purged, r)
         | Some st \<Rightarrow>
             (purged @ [sid],
              r\<lparr>sr_sessions := bm_remove sid (sr_sessions r),
                sr_cgroup_index := drop_cgroups (st_cgroup_ids st) (sr_cgroup_index r)\<rparr>)))"

definition apply_retention :: "string \<Rightarrow> u64 \<Rightarrow> session_registry \<Rightarrow> purge_report \<times> session_registry" where
  "apply_retention tenant now r =
     (let report = retention_purge_report r tenant now False;
          (purged, r') = fold purge_session (pr_eligible report) ([], r)
      in (report\<lparr>pr_purged := purged\<rparr>, r'))"

definition session_for_cgroup :: "session_registry \<Rightarrow> u64 \<Rightarrow> string option" where
  "session_for_cgroup r c = owner_of r c"

definition tracked_cgroups :: "session_registry \<Rightarrow> u64 list" where
  "tracked_cgroups r = bm_keys (sr_cgroup_index r)"

definition is_scope_admitted :: "session_registry \<Rightarrow> string \<Rightarrow> bool" where
  "is_scope_admitted r sid \<longleftrightarrow>
     (case session_at r sid of Some st \<Rightarrow> st_status st = StActive | None \<Rightarrow> False)"

section \<open>The registry as a machine\<close>

datatype registry_op =
    OpRegister session_intent u64
  | OpRenew string u64 u64
  | OpClose string
  | OpDegrade string
  | OpExpire u64
  | OpAssociate string u64
  | OpDiscover string u64
  | OpRetention string u64

datatype registry_value =
    ValRegistered register_outcome
  | ValUnit
  | ValState session_state
  | ValExpired "string list"
  | ValAssociation association_outcome
  | ValReport purge_report

fun registry_step ::
    "registry_op \<Rightarrow> session_registry \<Rightarrow> (registry_error, registry_value) res \<times> session_registry" where
  "registry_step (OpRegister i now) r = map_prod (map_sum id ValRegistered) id (registry_register i now r)"
| "registry_step (OpRenew sid e now) r = map_prod (map_sum id (\<lambda>_. ValUnit)) id (registry_renew sid e now r)"
| "registry_step (OpClose sid) r = map_prod (map_sum id ValState) id (registry_close sid r)"
| "registry_step (OpDegrade sid) r = map_prod (map_sum id ValState) id (registry_degrade sid r)"
| "registry_step (OpExpire now) r = map_prod (\<lambda>v. Inr (ValExpired v)) id (registry_expire now r)"
| "registry_step (OpAssociate sid c) r = map_prod (map_sum id (\<lambda>_. ValUnit)) id (registry_associate sid c r)"
| "registry_step (OpDiscover sid c) r = map_prod (map_sum id ValAssociation) id (registry_discover sid c r)"
| "registry_step (OpRetention t now) r = map_prod (\<lambda>v. Inr (ValReport v)) id (apply_retention t now r)"

text \<open>
  How the daemon uses it: the operation runs on a clone of the registry, and the clone
  replaces the registry only when the operation succeeded.
\<close>

definition on_candidate :: "('op \<Rightarrow> 's \<Rightarrow> ('e, 'a) res \<times> 's) \<Rightarrow> 'op \<Rightarrow> 's \<Rightarrow> ('e, 'a) res \<times> 's" where
  "on_candidate step x s =
     (let p = step x s in if is_ok (fst p) then p else (fst p, s))"

interpretation candidate: transactional_machine "on_candidate (step :: 'op \<Rightarrow> 's \<Rightarrow> ('e, 'a) res \<times> 's)"
  by unfold_locales (simp add: on_candidate_def Let_def split: if_splits)

end
