(* ===== verification/Session_Invariants.thy ===== *)
theory Session_Invariants
  imports Session_Registry
begin

text \<open>
  What the session registry keeps: the shape of its maps and its bounds (kept by every
  operation, failed ones included), the soundness of the cgroup index (kept by every
  operation that succeeds, hence by the daemon, which drops the clone on which one
  failed), the rule that no operation takes a cgroup from its owner, and what expiry and
  retention do to each session.
\<close>

section \<open>The invariants\<close>

definition session_wf :: "string \<Rightarrow> session_state \<Rightarrow> bool" where
  "session_wf sid st \<longleftrightarrow>
     si_session_id (st_intent st) = sid \<and> st_expires_at st = si_expires_at (st_intent st)
     \<and> bs_wf (st_cgroup_ids st)"

definition pending_total :: "(string, u64 list) bmap \<Rightarrow> nat" where
  "pending_total m = sum_list (map (length \<circ> snd) m)"

definition maps_wf :: "session_registry \<Rightarrow> bool" where
  "maps_wf r \<longleftrightarrow>
     bm_wf (sr_sessions r) \<and> bm_wf (sr_cgroup_index r) \<and> bm_wf (sr_pending r)
     \<and> (\<forall>sid st. session_at r sid = Some st \<longrightarrow> session_wf sid st)
     \<and> (\<forall>sid cs. pending_at r sid = Some cs \<longrightarrow>
          cs \<noteq> [] \<and> bs_wf cs \<and> session_at r sid = None)"

definition counts_wf :: "session_registry \<Rightarrow> bool" where
  "counts_wf r \<longleftrightarrow>
     length (sr_sessions r) \<le> sr_max_sessions r
     \<and> sr_pending_count r = pending_total (sr_pending r)
     \<and> sr_pending_count r \<le> sr_max_pending r"

definition registry_wf :: "session_registry \<Rightarrow> bool" where
  "registry_wf r \<longleftrightarrow> maps_wf r \<and> counts_wf r"

definition holds_cgroup :: "session_registry \<Rightarrow> string \<Rightarrow> u64 \<Rightarrow> bool" where
  "holds_cgroup r sid c \<longleftrightarrow>
     (case session_at r sid of
        Some st \<Rightarrow> st_status st = StActive \<and> c \<in> set (st_cgroup_ids st)
      | None \<Rightarrow> (case pending_at r sid of Some cs \<Rightarrow> c \<in> set cs | None \<Rightarrow> False))"

lemma holds_cgroup_cong:
  "session_at r s = session_at r' s \<Longrightarrow> pending_at r s = pending_at r' s \<Longrightarrow>
   holds_cgroup r s c = holds_cgroup r' s c"
  by (simp add: holds_cgroup_def split: option.splits)

text \<open>
  The index is sound up to cgroups that \<open>extra\<close> allows: between the removal of the pending
  entry and the end of the attachment loop, the cgroups still to attach.
\<close>

definition index_sound_upto :: "(string \<Rightarrow> u64 \<Rightarrow> bool) \<Rightarrow> session_registry \<Rightarrow> bool" where
  "index_sound_upto extra r \<longleftrightarrow>
     (\<forall>c sid. owner_of r c = Some sid \<longrightarrow> holds_cgroup r sid c \<or> extra sid c)"

lemma index_sound_uptoI:
  "(\<And>c sid. owner_of r c = Some sid \<Longrightarrow> holds_cgroup r sid c \<or> extra sid c) \<Longrightarrow>
   index_sound_upto extra r"
  by (simp add: index_sound_upto_def)

abbreviation index_sound :: "session_registry \<Rightarrow> bool" where
  "index_sound \<equiv> index_sound_upto (\<lambda>_ _. False)"

definition registry_inv :: "session_registry \<Rightarrow> bool" where
  "registry_inv r \<longleftrightarrow> registry_wf r \<and> index_sound r"

lemma maps_wfD:
  assumes "maps_wf r"
  shows "bm_wf (sr_sessions r)" "bm_wf (sr_cgroup_index r)" "bm_wf (sr_pending r)"
    "\<And>sid st. session_at r sid = Some st \<Longrightarrow> session_wf sid st"
    "\<And>sid cs. pending_at r sid = Some cs \<Longrightarrow> cs \<noteq> []"
    "\<And>sid cs. pending_at r sid = Some cs \<Longrightarrow> bs_wf cs"
    "\<And>sid cs. pending_at r sid = Some cs \<Longrightarrow> session_at r sid = None"
  using assms by (auto simp: maps_wf_def)

lemma registry_wfD: "registry_wf r \<Longrightarrow> maps_wf r" "registry_wf r \<Longrightarrow> counts_wf r"
  by (simp_all add: registry_wf_def)

lemma pending_of_session:
  "maps_wf r \<Longrightarrow> session_at r sid = Some st \<Longrightarrow> pending_at r sid = None"
  by (cases "pending_at r sid") (auto dest: maps_wfD(7))

lemma registry_new_inv: "registry_inv (registry_new ms mp)"
  by (simp add: registry_inv_def registry_wf_def maps_wf_def counts_wf_def pending_total_def
      index_sound_upto_def registry_new_def)

subsection \<open>Counting pending cgroups\<close>

lemma pending_total_simps [simp]:
  "pending_total [] = 0"
  "pending_total ((sid, cs) # m) = length cs + pending_total m"
  by (simp_all add: pending_total_def)

lemma pending_total_remove:
  "bm_wf m \<Longrightarrow> bm_get m sid = Some cs \<Longrightarrow>
   pending_total (bm_remove sid m) + length cs = pending_total m"
proof (induction m)
  case (Cons p m)
  obtain k v where p: "p = (k, v)" by (cases p)
  have "bm_remove sid m = m" if "k = sid"
    using Cons.prems(1) p that
    by (intro bm_remove_id) (auto simp: bm_wf_Cons map_of_eq_None_iff)
  with Cons p show ?case by (auto simp: bm_remove_def bm_wf_Cons split: if_splits)
qed simp

lemma pending_total_insert:
  "bm_wf m \<Longrightarrow>
   pending_total (bm_insert sid cs m) + (case bm_get m sid of Some old \<Rightarrow> length old | None \<Rightarrow> 0)
     = pending_total m + length cs"
proof (induction sid cs m rule: bm_insert.induct)
  case (2 k v k' v' m)
  have "bm_get m k = None" if "k < k'"
    using "2.prems" that by (auto simp: bm_wf_Cons map_of_eq_None_iff)
  with 2 show ?case by (auto simp: bm_wf_Cons)
qed simp

subsection \<open>Adding a cgroup to a sorted vector\<close>

lemma set_add_cgroup [simp]: "set (add_cgroup c ids) = insert c (set ids)"
  by (auto simp: add_cgroup_def)

lemma bs_wf_add_cgroup [simp]: "bs_wf ids \<Longrightarrow> bs_wf (add_cgroup c ids)"
  by (auto simp: add_cgroup_def)

lemma length_add_cgroup: "c \<notin> set ids \<Longrightarrow> length (add_cgroup c ids) = Suc (length ids)"
  by (simp add: add_cgroup_def)

lemma add_cgroup_nonempty [simp]: "add_cgroup c ids \<noteq> []"
  by (metis empty_iff insert_not_empty list.set(1) set_add_cgroup)

section \<open>What each operation keeps\<close>

subsection \<open>Placing a session\<close>

lemma put_session_fields [frame_simps]:
  "sr_sessions (put_session sid st r) = bm_insert sid st (sr_sessions r)"
  "sr_cgroup_index (put_session sid st r) = sr_cgroup_index r"
  "sr_pending (put_session sid st r) = sr_pending r"
  "sr_pending_count (put_session sid st r) = sr_pending_count r"
  "sr_max_sessions (put_session sid st r) = sr_max_sessions r"
  "sr_max_pending (put_session sid st r) = sr_max_pending r"
  by (simp_all add: put_session_def)

lemma maps_wf_put:
  "maps_wf r \<Longrightarrow> session_wf sid st \<Longrightarrow> pending_at r sid = None \<Longrightarrow> maps_wf (put_session sid st r)"
  unfolding maps_wf_def by (auto simp: frame_simps)

lemma counts_wf_put:
  assumes "counts_wf r" and "maps_wf r"
    and "session_at r sid \<noteq> None \<or> length (sr_sessions r) < sr_max_sessions r"
  shows "counts_wf (put_session sid st r)"
proof (cases "session_at r sid")
  case None
  with assms show ?thesis by (simp add: counts_wf_def frame_simps length_bm_insert_new)
next
  case (Some w)
  with assms show ?thesis
    by (simp add: counts_wf_def frame_simps length_bm_insert_old [OF maps_wfD(1)])
qed

lemma maps_wf_index:
  "maps_wf r \<Longrightarrow> bm_wf m \<Longrightarrow> maps_wf (r\<lparr>sr_cgroup_index := m\<rparr>)"
  by (simp add: maps_wf_def)

lemma counts_wf_index [simp]: "counts_wf (r\<lparr>sr_cgroup_index := m\<rparr>) = counts_wf r"
  by (simp add: counts_wf_def)

lemma drop_cgroups_get:
  "bm_wf m \<Longrightarrow> bm_get (drop_cgroups cs m) c = (if c \<in> set cs then None else bm_get m c)"
  unfolding drop_cgroups_def by (rule bm.get_del_all)

lemma bm_wf_drop_cgroups: "bm_wf m \<Longrightarrow> bm_wf (drop_cgroups cs m)"
  unfolding drop_cgroups_def by (rule bm.inv_del_all)

subsection \<open>Attaching\<close>

lemma ensure_ok_iff:
  "ensure_cgroup_available r sid c = Inr () \<longleftrightarrow> (\<forall>a. owner_of r c = Some a \<longrightarrow> a = sid)"
  by (auto simp: ensure_cgroup_available_def split: option.splits)

lemma attach_cases:
  obtains (assigned) a where "owner_of r c = Some a" "a \<noteq> sid"
      "attach_known_cgroup sid c r = (Inl (CgroupAlreadyAssigned c a), r)"
  | (missing) "session_at r sid = None" "attach_known_cgroup sid c r = (Inl (SessionNotFound sid), r)"
  | (attached) st where "session_at r sid = Some st" "\<forall>a. owner_of r c = Some a \<longrightarrow> a = sid"
      "attach_known_cgroup sid c r =
         (Inr (), (put_session sid (st\<lparr>st_cgroup_ids := add_cgroup c (st_cgroup_ids st)\<rparr>) r)
                    \<lparr>sr_cgroup_index := bm_insert c sid (sr_cgroup_index r)\<rparr>)"
proof (cases "owner_of r c")
  case None
  then have e: "ensure_cgroup_available r sid c = Inr ()"
    by (simp add: ensure_cgroup_available_def)
  show ?thesis
  proof (cases "session_at r sid")
    case None
    with e show ?thesis by (intro missing) (simp_all add: attach_known_cgroup_def)
  next
    case (Some st)
    with e \<open>owner_of r c = None\<close> show ?thesis
      by (intro attached) (simp_all add: attach_known_cgroup_def)
  qed
next
  case (Some a)
  show ?thesis
  proof (cases "a = sid")
    case False
    with Some show ?thesis
      by (intro assigned [of a]) (simp_all add: attach_known_cgroup_def ensure_cgroup_available_def)
  next
    case True
    with Some have e: "ensure_cgroup_available r sid c = Inr ()"
      by (simp add: ensure_cgroup_available_def)
    show ?thesis
    proof (cases "session_at r sid")
      case None
      with e show ?thesis by (intro missing) (simp_all add: attach_known_cgroup_def)
    next
      case (Some st)
      with e \<open>owner_of r c = Some a\<close> True show ?thesis
        by (intro attached) (simp_all add: attach_known_cgroup_def)
    qed
  qed
qed

lemma attach_wf: "registry_wf r \<Longrightarrow> registry_wf (snd (attach_known_cgroup sid c r))"
proof (cases rule: attach_cases [of r c sid])
  case (attached st)
  assume wf: "registry_wf r"
  note m = registry_wfD(1) [OF wf]
  let ?st = "st\<lparr>st_cgroup_ids := add_cgroup c (st_cgroup_ids st)\<rparr>"
  have swf: "session_wf sid ?st"
    using maps_wfD(4) [OF m attached(1)] by (simp add: session_wf_def)
  have "maps_wf (put_session sid ?st r)"
    by (rule maps_wf_put [OF m swf pending_of_session [OF m attached(1)]])
  moreover have "counts_wf (put_session sid ?st r)"
    using registry_wfD(2) [OF wf] m attached(1) by (intro counts_wf_put) simp_all
  ultimately show ?thesis
    using maps_wfD(2) [OF m] by (simp add: attached(3) registry_wf_def maps_wf_index)
qed simp_all

lemma attach_owner:
  assumes "bm_wf (sr_cgroup_index r)"
  shows "owner_of (snd (attach_known_cgroup sid c r)) =
    (if is_ok (fst (attach_known_cgroup sid c r)) then (owner_of r)(c \<mapsto> sid) else owner_of r)"
  using assms by (cases rule: attach_cases [of r c sid]) simp_all

lemma attach_all_wf: "registry_wf r \<Longrightarrow> registry_wf (snd (attach_all sid cs r))"
proof (induction sid cs r rule: attach_all.induct)
  case (2 sid c cs r)
  then show ?case
    using attach_wf [OF "2.prems", of sid c] by (auto split: prod.splits sum.splits)
qed simp

text \<open>Attaching never takes a cgroup from its owner.\<close>

lemma attach_keeps:
  assumes "registry_wf r" and "owner_of r c' = Some a"
  shows "owner_of (snd (attach_known_cgroup sid c r)) c' = Some a"
  using assms maps_wfD(2) [OF registry_wfD(1) [OF assms(1)]]
  by (cases rule: attach_cases [of r c sid]) auto

lemma attach_all_keeps:
  "registry_wf r \<Longrightarrow> owner_of r c' = Some a \<Longrightarrow> owner_of (snd (attach_all sid cs r)) c' = Some a"
proof (induction sid cs r rule: attach_all.induct)
  case (2 sid c cs r)
  then show ?case
    using attach_wf [OF "2.prems"(1), of sid c] attach_keeps [OF "2.prems", of sid c]
    by (auto split: prod.splits sum.splits)
qed simp

definition active_at :: "session_registry \<Rightarrow> string \<Rightarrow> bool" where
  "active_at r sid \<longleftrightarrow> (case session_at r sid of Some st \<Rightarrow> st_status st = StActive | None \<Rightarrow> False)"

lemma attach_sound:
  assumes wf: "registry_wf r" and act: "active_at r sid"
    and ok: "is_ok (fst (attach_known_cgroup sid c r))"
    and sound: "index_sound_upto (\<lambda>s x. extra s x \<or> (s = sid \<and> x = c)) r"
  shows "index_sound_upto extra (snd (attach_known_cgroup sid c r))"
    and "active_at (snd (attach_known_cgroup sid c r)) sid"
proof (atomize(full), cases rule: attach_cases [of r c sid])
  case (attached st)
  note m = maps_wfD [OF registry_wfD(1) [OF wf]]
  from act attached(1) have st: "st_status st = StActive" by (simp add: active_at_def)
  show "index_sound_upto extra (snd (attach_known_cgroup sid c r)) \<and>
      active_at (snd (attach_known_cgroup sid c r)) sid"
  proof (intro conjI index_sound_uptoI)
    fix x s
    assume own: "owner_of (snd (attach_known_cgroup sid c r)) x = Some s"
    show "holds_cgroup (snd (attach_known_cgroup sid c r)) s x \<or> extra s x"
    proof (cases "x = c")
      case True
      with own m(1,2) attached st show ?thesis
        by (simp add: frame_simps holds_cgroup_def split: if_splits)
    next
      case False
      with own m(2) attached have "owner_of r x = Some s"
        by (simp split: if_splits)
      with sound False have "holds_cgroup r s x \<or> extra s x"
        unfolding index_sound_upto_def by blast
      then show ?thesis
      proof (cases "s = sid")
        case True
        with \<open>holds_cgroup r s x \<or> extra s x\<close> m(1) attached st show ?thesis
          by (simp add: frame_simps holds_cgroup_def)
      next
        case False
        with m(1) attached have
          "holds_cgroup (snd (attach_known_cgroup sid c r)) s x = holds_cgroup r s x"
          by (intro holds_cgroup_cong) (simp_all add: frame_simps)
        with \<open>holds_cgroup r s x \<or> extra s x\<close> show ?thesis by simp
      qed
    qed
  next
    show "active_at (snd (attach_known_cgroup sid c r)) sid"
      using m(1) attached st by (simp add: active_at_def frame_simps)
  qed
qed (use ok in simp_all)

lemma attach_all_sound:
  "registry_wf r \<Longrightarrow> active_at r sid \<Longrightarrow> is_ok (fst (attach_all sid cs r)) \<Longrightarrow>
   index_sound_upto (\<lambda>s x. s = sid \<and> x \<in> set cs) r \<Longrightarrow> index_sound (snd (attach_all sid cs r))"
proof (induction sid cs r rule: attach_all.induct)
  case (1 sid r)
  then show ?case by (simp add: index_sound_upto_def)
next
  case (2 sid c cs r)
  obtain res r1 where a: "attach_known_cgroup sid c r = (res, r1)"
    by (cases "attach_known_cgroup sid c r")
  from "2.prems"(3) a obtain u where res: "res = Inr u" by (cases res) auto
  have up: "index_sound_upto (\<lambda>s x. (s = sid \<and> x \<in> set cs) \<or> (s = sid \<and> x = c)) r"
    using "2.prems"(4) unfolding index_sound_upto_def by auto
  have ok: "is_ok (fst (attach_known_cgroup sid c r))" by (simp add: a res)
  note step = attach_sound [OF "2.prems"(1,2) ok up] attach_wf [OF "2.prems"(1), of sid c]
  show ?case
    using "2.IH" [OF _ res] a res step "2.prems"(3) by simp
qed

subsection \<open>Registering\<close>

text \<open>
  The registry after the first half of \<open>register\<close>: the session placed, the pending entry
  removed. The second half attaches what was pending.
\<close>

definition registered :: "string \<Rightarrow> session_state \<Rightarrow> session_registry \<Rightarrow> session_registry" where
  "registered sid st r =
     (put_session sid st r)
       \<lparr>sr_pending := bm_remove sid (sr_pending r),
        sr_pending_count := sr_pending_count r
          - (case pending_at r sid of Some cs \<Rightarrow> length cs | None \<Rightarrow> 0)\<rparr>"

definition intent_session :: "session_intent \<Rightarrow> session_registry \<Rightarrow> session_state" where
  "intent_session i r =
     (case session_at r (si_session_id i) of
        Some st \<Rightarrow> st\<lparr>st_intent := i, st_expires_at := si_expires_at i, st_status := StActive\<rparr>
      | None \<Rightarrow> session_state_new i)"

lemma register_cases:
  obtains (refused) e where "registry_register i now r = (Inl e, r)"
  | (placed) outcome where
      "session_at r (si_session_id i) \<noteq> None \<or> length (sr_sessions r) < sr_max_sessions r"
      "registry_register i now r =
         (case attach_all (si_session_id i)
                 (case pending_at r (si_session_id i) of Some cs \<Rightarrow> cs | None \<Rightarrow> [])
                 (registered (si_session_id i) (intent_session i r) r) of
            (Inl e, r') \<Rightarrow> (Inl e, r') | (Inr _, r') \<Rightarrow> (Inr outcome, r'))"
proof (cases "validate_intent i now")
  case (Inl e)
  then show ?thesis by (intro refused) (simp add: registry_register_def)
next
  case (Inr u)
  let ?sid = "si_session_id i"
  show ?thesis
  proof (cases "session_at r ?sid")
    case None
    show ?thesis
    proof (cases "sr_max_sessions r \<le> length (sr_sessions r)")
      case True
      with Inr None show ?thesis by (intro refused) (simp add: registry_register_def)
    next
      case False
      with Inr None show ?thesis
        by (intro placed [of Inserted])
          (auto simp: registry_register_def Let_def intent_session_def registered_def put_session_def
            bm_remove_id split: option.splits)
    qed
  next
    case (Some st)
    with Inr show ?thesis
      by (intro placed [of Replaced])
        (auto simp: registry_register_def Let_def intent_session_def registered_def put_session_def
          bm_remove_id split: option.splits)
  qed
qed

lemma session_wf_intent_session:
  "maps_wf r \<Longrightarrow> session_wf (si_session_id i) (intent_session i r)"
  by (auto simp: intent_session_def session_wf_def session_state_new_def
      dest: maps_wfD(4) split: option.splits)

lemma registered_wf:
  assumes wf: "registry_wf r" and swf: "session_wf sid st"
    and room: "session_at r sid \<noteq> None \<or> length (sr_sessions r) < sr_max_sessions r"
  shows "registry_wf (registered sid st r)"
proof -
  note m = registry_wfD(1) [OF wf] and c = registry_wfD(2) [OF wf]
  have "maps_wf (registered sid st r)"
    using m swf unfolding maps_wf_def
    by (auto simp: registered_def frame_simps split: if_splits)
  moreover have "counts_wf (put_session sid st r)"
    by (rule counts_wf_put [OF c m room])
  then have "counts_wf (registered sid st r)"
    using pending_total_remove [OF maps_wfD(3) [OF m], of sid]
    by (cases "pending_at r sid") (auto simp: counts_wf_def registered_def frame_simps bm_remove_id)
  ultimately show ?thesis by (simp add: registry_wf_def)
qed

lemma register_wf: "registry_wf r \<Longrightarrow> registry_wf (snd (registry_register i now r))"
proof (cases rule: register_cases [of i now r])
  case (placed outcome)
  assume wf: "registry_wf r"
  note attach_all_wf [OF registered_wf
      [OF wf session_wf_intent_session [OF registry_wfD(1) [OF wf]] placed(1)]]
  then show ?thesis
    unfolding placed(2) by (simp add: case_prod_beta split: sum.splits)
qed simp

lemma registered_sound:
  assumes wf: "registry_wf r" and sound: "index_sound r" and act: "st_status st = StActive"
    and ids: "\<forall>old. session_at r sid = Some old \<longrightarrow> st_cgroup_ids old = st_cgroup_ids st"
  shows "index_sound_upto
      (\<lambda>s x. s = sid \<and> x \<in> set (case pending_at r sid of Some cs \<Rightarrow> cs | None \<Rightarrow> []))
      (registered sid st r)"
proof (rule index_sound_uptoI)
  fix c s
  let ?cs = "case pending_at r sid of Some cs \<Rightarrow> cs | None \<Rightarrow> []"
  note m = maps_wfD(1) [OF registry_wfD(1) [OF wf]]
  assume "owner_of (registered sid st r) c = Some s"
  then have own: "holds_cgroup r s c"
    using sound by (simp add: registered_def frame_simps index_sound_upto_def)
  show "holds_cgroup (registered sid st r) s c \<or> (s = sid \<and> c \<in> set ?cs)"
  proof (cases "s = sid")
    case True
    with own m act ids show ?thesis
      by (auto simp: registered_def frame_simps holds_cgroup_def split: option.splits)
  next
    case False
    then have "holds_cgroup (registered sid st r) s c = holds_cgroup r s c"
      using m by (intro holds_cgroup_cong) (simp_all add: registered_def frame_simps)
    with own show ?thesis by simp
  qed
qed

lemma register_sound:
  assumes inv: "registry_inv r" and ok: "is_ok (fst (registry_register i now r))"
  shows "index_sound (snd (registry_register i now r))"
proof (cases rule: register_cases [of i now r])
  case (placed outcome)
  let ?sid = "si_session_id i" and ?st = "intent_session i r"
  let ?cs = "case pending_at r ?sid of Some cs \<Rightarrow> cs | None \<Rightarrow> []"
  let ?r = "registered ?sid ?st r"
  from inv have wf: "registry_wf r" and sound: "index_sound r" by (simp_all add: registry_inv_def)
  have act: "st_status ?st = StActive"
    by (simp add: intent_session_def session_state_new_def split: option.splits)
  have wf': "registry_wf ?r"
    by (rule registered_wf [OF wf session_wf_intent_session [OF registry_wfD(1) [OF wf]] placed(1)])
  have "active_at ?r ?sid"
    using act maps_wfD(1) [OF registry_wfD(1) [OF wf]]
    by (simp add: active_at_def registered_def frame_simps)
  moreover have "index_sound_upto (\<lambda>s x. s = ?sid \<and> x \<in> set ?cs) ?r"
    by (rule registered_sound [OF wf sound act]) (simp add: intent_session_def)
  moreover have "is_ok (fst (attach_all ?sid ?cs ?r))"
    using ok placed(2) by (auto split: prod.splits sum.splits)
  ultimately have "index_sound (snd (attach_all ?sid ?cs ?r))"
    using wf' by (intro attach_all_sound)
  then show ?thesis unfolding placed(2) by (auto split: prod.splits sum.splits)
qed (use ok in simp)

lemma register_keeps:
  assumes "registry_wf r" and "owner_of r c = Some a"
  shows "owner_of (snd (registry_register i now r)) c = Some a"
proof (cases rule: register_cases [of i now r])
  case (placed outcome)
  let ?r = "registered (si_session_id i) (intent_session i r) r"
  have "owner_of ?r c = Some a" using assms(2) by (simp add: registered_def frame_simps)
  moreover have "registry_wf ?r"
    by (rule registered_wf [OF assms(1) session_wf_intent_session [OF registry_wfD(1) [OF assms(1)]] placed(1)])
  ultimately have "owner_of (snd (attach_all (si_session_id i) cs ?r)) c = Some a" for cs
    by (intro attach_all_keeps)
  then show ?thesis
    unfolding placed(2) by (simp add: case_prod_beta split: sum.splits)
qed (use assms in simp)

subsection \<open>Renewing, closing, degrading\<close>

text \<open>
  These operations rewrite a session that is there, or remove entries from the index:
  one lemma for each ingredient.
\<close>

lemma put_present_wf:
  assumes wf: "registry_wf r" and at: "session_at r sid = Some old" and swf: "session_wf sid st"
  shows "registry_wf (put_session sid st r)"
  using registry_wfD [OF wf] maps_wf_put [OF registry_wfD(1) [OF wf] swf
      pending_of_session [OF registry_wfD(1) [OF wf] at]] at
  by (simp add: registry_wf_def counts_wf_put)

lemma index_wf:
  "registry_wf r \<Longrightarrow> bm_wf m \<Longrightarrow> registry_wf (r\<lparr>sr_cgroup_index := m\<rparr>)"
  by (simp add: registry_wf_def maps_wf_index)

lemma renew_cases:
  obtains (refused) e where "registry_renew sid expires now r = (Inl e, r)"
  | (renewed) st where "session_at r sid = Some st" "st_status st \<noteq> StClosed" "now < expires"
      "registry_renew sid expires now r =
         (Inr (), put_session sid
            (st\<lparr>st_expires_at := expires, st_intent := (st_intent st)\<lparr>si_expires_at := expires\<rparr>,
                st_status := StActive\<rparr>) r)"
proof (cases "expires \<le> now")
  case True
  then show ?thesis by (intro refused) (simp add: registry_renew_def)
next
  case early: False
  show ?thesis
  proof (cases "session_at r sid")
    case None
    with early show ?thesis by (intro refused) (simp add: registry_renew_def)
  next
    case (Some st)
    show ?thesis
    proof (cases "st_status st = StClosed")
      case True
      with early Some show ?thesis by (intro refused) (simp add: registry_renew_def)
    next
      case False
      with early Some show ?thesis by (intro renewed) (simp_all add: registry_renew_def)
    qed
  qed
qed

lemma renew_wf: "registry_wf r \<Longrightarrow> registry_wf (snd (registry_renew sid expires now r))"
proof (cases rule: renew_cases [of sid expires now r])
  case (renewed st)
  assume wf: "registry_wf r"
  from maps_wfD(4) [OF registry_wfD(1) [OF wf] renewed(1)]
  show ?thesis
    unfolding renewed(4) snd_conv
    by (intro put_present_wf [OF wf renewed(1)]) (simp add: session_wf_def)
qed simp

lemma renew_sound:
  assumes "registry_wf r" and "index_sound r"
  shows "index_sound (snd (registry_renew sid expires now r))"
proof (cases rule: renew_cases [of sid expires now r])
  case (renewed st)
  note m = maps_wfD(1) [OF registry_wfD(1) [OF assms(1)]]
  show ?thesis
  proof (rule index_sound_uptoI)
    fix c s
    assume "owner_of (snd (registry_renew sid expires now r)) c = Some s"
    then have "holds_cgroup r s c"
      using assms(2) by (simp add: renewed(4) frame_simps index_sound_upto_def)
    then show "holds_cgroup (snd (registry_renew sid expires now r)) s c \<or> False"
      using m renewed(1) by (auto simp: renewed(4) frame_simps holds_cgroup_def split: if_splits option.splits)
  qed
qed (use assms in simp)

lemma renew_owner [simp]: "sr_cgroup_index (snd (registry_renew sid expires now r)) = sr_cgroup_index r"
  by (cases rule: renew_cases [of sid expires now r]) (simp_all add: frame_simps)

lemma deactivate_wf: "registry_wf r \<Longrightarrow> registry_wf (snd (registry_deactivate sid status r))"
proof (cases "session_at r sid")
  case (Some st)
  assume wf: "registry_wf r"
  from maps_wfD(4) [OF registry_wfD(1) [OF wf] Some]
  have "registry_wf (put_session sid (st\<lparr>st_status := status\<rparr>) r)"
    by (intro put_present_wf [OF wf Some]) (simp add: session_wf_def)
  then show ?thesis
    using maps_wfD(2) [OF registry_wfD(1) [OF wf]]
    by (simp add: registry_deactivate_def Some index_wf bm_wf_drop_cgroups)
qed (simp add: registry_deactivate_def)

lemma deactivate_owner:
  assumes "registry_wf r"
  shows "owner_of (snd (registry_deactivate sid status r)) c =
    (if \<exists>st. session_at r sid = Some st \<and> c \<in> set (st_cgroup_ids st) then None else owner_of r c)"
  using maps_wfD(2) [OF registry_wfD(1) [OF assms]]
  by (cases "session_at r sid") (simp_all add: registry_deactivate_def drop_cgroups_get)

lemma deactivate_session:
  assumes "registry_wf r"
  shows "session_at (snd (registry_deactivate sid status r)) s =
    (if s = sid then map_option (\<lambda>st. st\<lparr>st_status := status\<rparr>) (session_at r s) else session_at r s)"
  using maps_wfD(1) [OF registry_wfD(1) [OF assms]]
  by (cases "session_at r sid") (auto simp: registry_deactivate_def frame_simps)

lemma deactivate_pending:
  "sr_pending (snd (registry_deactivate sid status r)) = sr_pending r"
  by (simp add: registry_deactivate_def frame_simps split: option.splits)

lemma deactivate_sound:
  assumes wf: "registry_wf r" and sound: "index_sound r"
  shows "index_sound (snd (registry_deactivate sid status r))"
proof (rule index_sound_uptoI)
  fix c s
  let ?r = "snd (registry_deactivate sid status r)"
  assume own: "owner_of ?r c = Some s"
  then have "holds_cgroup r s c"
    using sound by (simp add: deactivate_owner [OF wf] index_sound_upto_def split: if_splits)
  with own show "holds_cgroup ?r s c \<or> False"
    by (auto simp: holds_cgroup_def deactivate_session [OF wf] deactivate_pending
        deactivate_owner [OF wf] split: if_splits option.splits)
qed

lemma snd_deactivate_and_get [simp]:
  "snd (deactivate_and_get status sid r) = snd (registry_deactivate sid status r)"
  by (simp add: deactivate_and_get_def split: prod.splits sum.splits)

text \<open>Several sessions deactivated in turn, as \<open>expire\<close> does.\<close>

abbreviation deactivate_all :: "session_status \<Rightarrow> string list \<Rightarrow> session_registry \<Rightarrow> session_registry" where
  "deactivate_all status sids r \<equiv> fold (\<lambda>sid r. snd (registry_deactivate sid status r)) sids r"

lemma deactivate_all_wf: "registry_wf r \<Longrightarrow> registry_wf (deactivate_all status sids r)"
  by (induction sids arbitrary: r) (simp_all add: deactivate_wf)

lemma deactivate_all_sound:
  "registry_wf r \<Longrightarrow> index_sound r \<Longrightarrow> index_sound (deactivate_all status sids r)"
  by (induction sids arbitrary: r) (simp_all add: deactivate_wf deactivate_sound)

lemma deactivate_all_session:
  "registry_wf r \<Longrightarrow> session_at (deactivate_all status sids r) s =
    (if s \<in> set sids then map_option (\<lambda>st. st\<lparr>st_status := status\<rparr>) (session_at r s) else session_at r s)"
  by (induction sids arbitrary: r)
    (auto simp: deactivate_wf deactivate_session option.map_comp comp_def)

lemma deactivate_all_owner:
  "registry_wf r \<Longrightarrow> owner_of (deactivate_all status sids r) c =
    (if \<exists>s\<in>set sids. \<exists>st. session_at r s = Some st \<and> c \<in> set (st_cgroup_ids st)
     then None else owner_of r c)"
proof (induction sids arbitrary: r)
  case (Cons sid sids)
  let ?r = "snd (registry_deactivate sid status r)"
  have same: "(\<exists>st. session_at ?r s = Some st \<and> c \<in> set (st_cgroup_ids st)) =
      (\<exists>st. session_at r s = Some st \<and> c \<in> set (st_cgroup_ids st))" for s
    by (auto simp: deactivate_session [OF Cons.prems])
  show ?case
    using Cons.IH [OF deactivate_wf [OF Cons.prems], of sid status]
    by (auto simp: same deactivate_owner [OF Cons.prems])
qed simp

subsection \<open>Associating and discovering\<close>

lemma associate_cases:
  obtains (refused) e where "registry_associate sid c r = (Inl e, r)"
  | (attach) "active_at r sid" "registry_associate sid c r = attach_known_cgroup sid c r"
proof (cases "session_at r sid")
  case None
  then show ?thesis by (intro refused) (simp add: registry_associate_def)
next
  case (Some st)
  then show ?thesis
    by (cases "st_status st = StActive")
      (auto intro: refused attach simp: registry_associate_def active_at_def)
qed

lemma associate_wf: "registry_wf r \<Longrightarrow> registry_wf (snd (registry_associate sid c r))"
  by (cases rule: associate_cases [of sid c r]) (simp_all add: attach_wf)

lemma index_sound_weaken: "index_sound r \<Longrightarrow> index_sound_upto extra r"
  by (simp add: index_sound_upto_def)

lemma associate_sound:
  assumes "registry_wf r" and "index_sound r"
  shows "index_sound (snd (registry_associate sid c r))"
proof (cases rule: associate_cases [of sid c r])
  case attach
  show ?thesis
  proof (cases "is_ok (fst (attach_known_cgroup sid c r))")
    case True
    then show ?thesis
      using attach_sound(1) [OF assms(1) attach(1), where extra = "\<lambda>_ _. False"]
        index_sound_weaken [OF assms(2)] attach(2) by simp
  next
    case False
    then have "snd (attach_known_cgroup sid c r) = r"
      by (cases rule: attach_cases [of r c sid]) simp_all
    with attach(2) assms(2) show ?thesis by simp
  qed
qed (use assms in simp)

lemma associate_keeps:
  "registry_wf r \<Longrightarrow> owner_of r c' = Some a \<Longrightarrow> owner_of (snd (registry_associate sid c r)) c' = Some a"
  by (cases rule: associate_cases [of sid c r]) (simp_all add: attach_keeps)

definition pending_list :: "session_registry \<Rightarrow> string \<Rightarrow> u64 list" where
  "pending_list r sid = (case pending_at r sid of Some cs \<Rightarrow> cs | None \<Rightarrow> [])"

definition with_pending :: "string \<Rightarrow> u64 \<Rightarrow> session_registry \<Rightarrow> session_registry" where
  "with_pending sid c r =
     r\<lparr>sr_pending := bm_insert sid (add_cgroup c (pending_list r sid)) (sr_pending r),
       sr_pending_count := sr_pending_count r + 1,
       sr_cgroup_index := bm_insert c sid (sr_cgroup_index r)\<rparr>"

lemma discover_cases:
  obtains (refused) e where "registry_discover sid c r = (Inl e, r)"
  | (known) "snd (registry_discover sid c r) = snd (registry_associate sid c r)"
  | (again) "registry_discover sid c r =
      (Inr MissingIntent, r\<lparr>sr_pending := bm_insert sid (pending_list r sid) (sr_pending r)\<rparr>)"
      "c \<in> set (pending_list r sid)"
  | (pending) "session_at r sid = None" "c \<notin> set (pending_list r sid)"
      "\<forall>a. owner_of r c = Some a \<longrightarrow> a = sid" "sr_pending_count r < sr_max_pending r"
      "registry_discover sid c r = (Inr MissingIntent, with_pending sid c r)"
proof (cases "session_at r sid")
  case (Some st)
  then show ?thesis
    by (intro known) (auto simp: registry_discover_def split: prod.splits sum.splits)
next
  case None
  show ?thesis
  proof (cases "ensure_cgroup_available r sid c")
    case (Inl e)
    with None show ?thesis by (intro refused) (simp add: registry_discover_def)
  next
    case (Inr u)
    then have free: "\<forall>a. owner_of r c = Some a \<longrightarrow> a = sid"
      by (simp flip: ensure_ok_iff)
    consider "sr_max_pending r \<le> sr_pending_count r"
      | "sr_pending_count r < sr_max_pending r" "c \<in> set (pending_list r sid)"
      | "sr_pending_count r < sr_max_pending r" "c \<notin> set (pending_list r sid)"
      by linarith
    then show ?thesis
    proof cases
      case 1
      with None Inr show ?thesis by (intro refused) (simp add: registry_discover_def)
    next
      case 2
      with None Inr show ?thesis
        by (intro again) (auto simp: registry_discover_def pending_list_def Let_def split: option.splits)
    next
      case 3
      with None Inr free show ?thesis
        by (intro pending)
          (auto simp: registry_discover_def pending_list_def with_pending_def Let_def split: option.splits)
    qed
  qed
qed

lemma discover_again_same:
  assumes "maps_wf r" and "c \<in> set (pending_list r sid)"
  shows "r\<lparr>sr_pending := bm_insert sid (pending_list r sid) (sr_pending r)\<rparr> = r"
proof -
  have "pending_at r sid = Some (pending_list r sid)"
    using assms(2) by (cases "pending_at r sid") (simp_all add: pending_list_def)
  then show ?thesis by (simp add: bm_insert_same [OF maps_wfD(3) [OF assms(1)]])
qed

lemma with_pending_wf:
  assumes wf: "registry_wf r" and none: "session_at r sid = None"
    and new: "c \<notin> set (pending_list r sid)" and room: "sr_pending_count r < sr_max_pending r"
  shows "registry_wf (with_pending sid c r)"
proof -
  note m = maps_wfD [OF registry_wfD(1) [OF wf]]
  have sd: "bs_wf (pending_list r sid)"
    using m(6) [of sid] by (cases "pending_at r sid") (auto simp: pending_list_def)
  have "maps_wf (with_pending sid c r)"
    using registry_wfD(1) [OF wf] none bs_wf_add_cgroup [OF sd]
    unfolding maps_wf_def by (auto simp: with_pending_def)
  moreover have "counts_wf (with_pending sid c r)"
    using registry_wfD(2) [OF wf] room length_add_cgroup [OF new]
      pending_total_insert [OF m(3), of sid "add_cgroup c (pending_list r sid)"]
    by (auto simp: counts_wf_def with_pending_def pending_list_def split: option.splits)
  ultimately show ?thesis by (simp add: registry_wf_def)
qed

lemma with_pending_sound:
  assumes wf: "registry_wf r" and none: "session_at r sid = None" and sound: "index_sound r"
  shows "index_sound (with_pending sid c r)"
proof (rule index_sound_uptoI)
  fix x s
  note m = maps_wfD [OF registry_wfD(1) [OF wf]]
  assume own: "owner_of (with_pending sid c r) x = Some s"
  show "holds_cgroup (with_pending sid c r) s x \<or> False"
  proof (cases "x = c")
    case True
    with own m(2,3) none show ?thesis
      by (simp add: with_pending_def holds_cgroup_def)
  next
    case False
    with own m(2) sound have "holds_cgroup r s x"
      by (simp add: with_pending_def index_sound_upto_def)
    then show ?thesis
      using m(3) none
      by (auto simp: with_pending_def holds_cgroup_def pending_list_def split: if_splits option.splits)
  qed
qed

lemma discover_wf: "registry_wf r \<Longrightarrow> registry_wf (snd (registry_discover sid c r))"
  by (cases rule: discover_cases [of sid c r])
    (simp_all add: associate_wf discover_again_same registry_wfD with_pending_wf)

lemma discover_sound:
  "registry_wf r \<Longrightarrow> index_sound r \<Longrightarrow> index_sound (snd (registry_discover sid c r))"
  by (cases rule: discover_cases [of sid c r])
    (simp_all add: associate_sound discover_again_same registry_wfD with_pending_sound)

lemma discover_keeps:
  assumes "registry_wf r" and "owner_of r x = Some a"
  shows "owner_of (snd (registry_discover sid c r)) x = Some a"
  using assms maps_wfD(2) [OF registry_wfD(1) [OF assms(1)]]
  by (cases rule: discover_cases [of sid c r]) (auto simp: associate_keeps discover_again_same registry_wfD with_pending_def)

subsection \<open>Retention\<close>

abbreviation purge_all :: "string list \<Rightarrow> string list \<times> session_registry \<Rightarrow> string list \<times> session_registry" where
  "purge_all \<equiv> fold purge_session"

definition purged_registry :: "string \<Rightarrow> session_registry \<Rightarrow> session_registry" where
  "purged_registry sid r = snd (purge_session sid ([], r))"

lemma purge_session_parts:
  "purge_session sid (p, r) =
     ((if session_at r sid = None then p else p @ [sid]), purged_registry sid r)"
  by (simp add: purge_session_def purged_registry_def split: option.splits)

lemma purged_wf: "registry_wf r \<Longrightarrow> registry_wf (purged_registry sid r)"
proof (cases "session_at r sid")
  case (Some st)
  assume wf: "registry_wf r"
  note m = registry_wfD(1) [OF wf]
  let ?r = "r\<lparr>sr_sessions := bm_remove sid (sr_sessions r)\<rparr>"
  have "maps_wf ?r"
    using m unfolding maps_wf_def by (auto split: if_splits)
  moreover have "counts_wf ?r"
    using registry_wfD(2) [OF wf] length_bm_remove_le [of sid "sr_sessions r"]
    by (simp add: counts_wf_def)
  ultimately have "registry_wf ?r" by (simp add: registry_wf_def)
  then show ?thesis
    using maps_wfD(2) [OF m] index_wf [of ?r "drop_cgroups (st_cgroup_ids st) (sr_cgroup_index r)"]
    by (simp add: purged_registry_def purge_session_def Some bm_wf_drop_cgroups)
qed (simp add: purged_registry_def purge_session_def)

lemma purged_session: "session_at (purged_registry sid r) = (session_at r)(sid := None)"
  by (auto simp: purged_registry_def purge_session_def fun_eq_iff split: option.splits)

lemma purged_owner:
  assumes "registry_wf r"
  shows "owner_of (purged_registry sid r) c =
    (if \<exists>st. session_at r sid = Some st \<and> c \<in> set (st_cgroup_ids st) then None else owner_of r c)"
  using maps_wfD(2) [OF registry_wfD(1) [OF assms]]
  by (cases "session_at r sid") (simp_all add: purged_registry_def purge_session_def drop_cgroups_get)

lemma purged_pending: "sr_pending (purged_registry sid r) = sr_pending r"
  by (simp add: purged_registry_def purge_session_def split: option.splits)

lemma purged_sound:
  assumes wf: "registry_wf r" and sound: "index_sound r"
  shows "index_sound (purged_registry sid r)"
proof (rule index_sound_uptoI)
  fix c s
  assume own: "owner_of (purged_registry sid r) c = Some s"
  then have "holds_cgroup r s c"
    using sound by (simp add: purged_owner [OF wf] index_sound_upto_def split: if_splits)
  with own show "holds_cgroup (purged_registry sid r) s c \<or> False"
    by (auto simp: holds_cgroup_def purged_session purged_pending purged_owner [OF wf]
        split: if_splits option.splits)
qed

lemma snd_purge_all:
  "snd (purge_all sids (p, r)) = fold purged_registry sids r"
  by (induction sids arbitrary: p r) (simp_all add: purge_session_parts)

lemma fst_purge_all:
  "distinct sids \<Longrightarrow> (\<forall>s\<in>set sids. session_at r s \<noteq> None) \<Longrightarrow> fst (purge_all sids (p, r)) = p @ sids"
proof (induction sids arbitrary: p r)
  case (Cons s sids)
  then have "\<forall>x\<in>set sids. session_at (purged_registry s r) x \<noteq> None"
    by (auto simp: purged_session)
  with Cons show ?case by (simp add: purge_session_parts)
qed simp

lemma purged_all_wf: "registry_wf r \<Longrightarrow> registry_wf (fold purged_registry sids r)"
  by (induction sids arbitrary: r) (simp_all add: purged_wf)

lemma purged_all_sound:
  "registry_wf r \<Longrightarrow> index_sound r \<Longrightarrow> index_sound (fold purged_registry sids r)"
  by (induction sids arbitrary: r) (simp_all add: purged_wf purged_sound)

lemma purged_all_session:
  "session_at (fold purged_registry sids r) s = (if s \<in> set sids then None else session_at r s)"
  by (induction sids arbitrary: r) (auto simp: purged_session)

lemma purged_all_drops:
  "registry_wf r \<Longrightarrow> owner_of (fold purged_registry sids r) c = Some a \<Longrightarrow> owner_of r c = Some a"
proof (induction sids arbitrary: r)
  case (Cons s sids)
  then have "owner_of (purged_registry s r) c = Some a" by (simp add: purged_wf)
  with Cons.prems show ?case by (simp add: purged_owner split: if_splits)
qed simp

lemma apply_retention_parts:
  "snd (apply_retention t now r) =
     fold purged_registry (pr_eligible (retention_purge_report r t now False)) r"
  "fst (apply_retention t now r) =
     (retention_purge_report r t now False)
       \<lparr>pr_purged := fst (purge_all (pr_eligible (retention_purge_report r t now False)) ([], r))\<rparr>"
  by (simp_all add: apply_retention_def Let_def case_prod_beta snd_purge_all)

section \<open>The registry machine\<close>

lemma expire_parts:
  "snd (registry_expire now r) = deactivate_all StExpired (fst (registry_expire now r)) r"
  by (simp add: registry_expire_def Let_def)

lemma step_wf: "registry_wf r \<Longrightarrow> registry_wf (snd (registry_step x r))"
  by (cases x)
    (simp_all add: register_wf renew_wf deactivate_wf associate_wf discover_wf expire_parts
      deactivate_all_wf apply_retention_parts purged_all_wf registry_close_def registry_degrade_def)

lemma step_sound:
  assumes "registry_inv r" and ok: "is_ok (fst (registry_step x r))"
  shows "index_sound (snd (registry_step x r))"
proof -
  from assms(1) have wf: "registry_wf r" and sound: "index_sound r"
    by (simp_all add: registry_inv_def)
  have ok_map: "is_ok (map_sum id f res) = is_ok res" for f :: "'b \<Rightarrow> 'c" and res :: "('d, 'b) res"
    by (cases res) simp_all
  show ?thesis
  proof (cases x)
    case (OpRegister i now)
    with ok show ?thesis using register_sound [OF assms(1)] by (simp add: ok_map)
  qed (use wf sound in \<open>simp_all add: renew_sound deactivate_sound associate_sound discover_sound
      expire_parts deactivate_all_sound apply_retention_parts purged_all_sound
      registry_close_def registry_degrade_def\<close>)
qed

text \<open>
  An operation changes neither capacity. Attachment and purge loops keep them because each
  of their turns does.
\<close>

abbreviation limits :: "session_registry \<Rightarrow> nat \<times> nat" where
  "limits r \<equiv> (sr_max_sessions r, sr_max_pending r)"

lemma attach_limits: "limits (snd (attach_known_cgroup sid c r)) = limits r"
  by (cases rule: attach_cases [of r c sid]) (simp_all add: frame_simps)

lemma attach_all_limits: "limits (snd (attach_all sid cs r)) = limits r"
proof (induction sid cs r rule: attach_all.induct)
  case (2 sid c cs r)
  then show ?case using attach_limits [of sid c r] by (auto split: prod.splits sum.splits)
qed simp

lemma deactivate_limits: "limits (snd (registry_deactivate sid status r)) = limits r"
  by (simp add: registry_deactivate_def frame_simps split: option.splits)

lemma deactivate_all_limits: "limits (deactivate_all status sids r) = limits r"
  using deactivate_limits by (induction sids arbitrary: r) simp_all

lemma purged_limits: "limits (purged_registry sid r) = limits r"
  by (simp add: purged_registry_def purge_session_def split: option.splits)

lemma purged_all_limits: "limits (fold purged_registry sids r) = limits r"
  using purged_limits by (induction sids arbitrary: r) simp_all

lemma register_limits: "limits (snd (registry_register i now r)) = limits r"
proof (cases rule: register_cases [of i now r])
  case (placed outcome)
  let ?r = "registered (si_session_id i) (intent_session i r) r"
  have "limits ?r = limits r" by (simp add: registered_def frame_simps)
  then show ?thesis
    unfolding placed(2) using attach_all_limits [of "si_session_id i" _ ?r]
    by (simp add: case_prod_beta split: sum.splits)
qed simp

lemma associate_limits: "limits (snd (registry_associate sid c r)) = limits r"
  using attach_limits by (cases rule: associate_cases [of sid c r]) simp_all

lemma step_limits: "limits (snd (registry_step x r)) = limits r"
proof (cases x)
  case (OpRenew sid e now)
  then show ?thesis by (cases rule: renew_cases [of sid e now r]) (simp_all add: frame_simps)
next
  case (OpDiscover sid c)
  then show ?thesis
    using associate_limits [of sid c r]
    by (cases rule: discover_cases [of sid c r]) (simp_all add: with_pending_def)
qed (use register_limits associate_limits deactivate_limits deactivate_all_limits purged_all_limits
     in \<open>simp_all add: expire_parts apply_retention_parts registry_close_def registry_degrade_def\<close>)

text \<open>The registry as the daemon uses it, and as it is.\<close>

interpretation registry_raw: invariant_machine registry_step
    "\<lambda>r. registry_wf r \<and> limits r = (ms, mp)" for ms mp
  by unfold_locales (use step_wf step_limits in auto)

interpretation registry_tx: invariant_machine "on_candidate registry_step" registry_inv
proof
  fix r x
  assume inv: "registry_inv r"
  show "registry_inv (snd (on_candidate registry_step x r))"
  proof (cases "is_ok (fst (registry_step x r))")
    case True
    with inv show ?thesis
      using step_sound [OF inv True] step_wf [of r x]
      by (simp add: on_candidate_def Let_def registry_inv_def)
  next
    case False
    with inv show ?thesis by (simp add: on_candidate_def Let_def)
  qed
qed

text \<open>No operation, failed or not, moves a cgroup from one session to another.\<close>

lemma step_owner:
  assumes wf: "registry_wf r"
  shows "owner_of (snd (registry_step x r)) c \<in>
    (case owner_of r c of None \<Rightarrow> UNIV | Some a \<Rightarrow> {None, Some a})"
proof (cases "owner_of r c")
  case (Some a)
  note drops = deactivate_owner [OF wf] deactivate_all_owner [OF wf]
  have "owner_of (snd (registry_step x r)) c \<in> {None, Some a}"
  proof (cases x)
    case (OpRetention t now)
    have "b = a" if "owner_of (snd (apply_retention t now r)) c = Some b" for b
      using purged_all_drops [OF wf that [unfolded apply_retention_parts]] Some by simp
    with OpRetention show ?thesis
      by (cases "owner_of (snd (apply_retention t now r)) c") auto
  qed (use Some register_keeps [OF wf Some] associate_keeps [OF wf Some] discover_keeps [OF wf Some]
       in \<open>simp_all add: drops expire_parts registry_close_def registry_degrade_def\<close>)
  with Some show ?thesis by simp
qed simp

section \<open>Expiry and retention, session by session\<close>

lemma set_bm_keys_filter:
  "bm_wf m \<Longrightarrow> k \<in> set (map fst (filter (\<lambda>p. P (snd p)) m)) \<longleftrightarrow>
     (case bm_get m k of Some v \<Rightarrow> P v | None \<Rightarrow> False)"
proof -
  assume wf: "bm_wf m"
  have "k \<in> set (map fst (filter (\<lambda>p. P (snd p)) m)) \<longleftrightarrow> (\<exists>v. (k, v) \<in> set m \<and> P v)"
    by (auto simp: image_iff)
  also have "\<dots> \<longleftrightarrow> (\<exists>v. bm_get m k = Some v \<and> P v)"
    by (simp only: bm_get_iff_mem [OF wf])
  finally show ?thesis by (simp split: option.splits)
qed

lemma expire_session:
  assumes wf: "registry_wf r"
  shows "session_at (snd (registry_expire now r)) sid =
    map_option (\<lambda>st. if session_overdue now st then st\<lparr>st_status := StExpired\<rparr> else st) (session_at r sid)"
proof -
  have "sid \<in> set (fst (registry_expire now r)) \<longleftrightarrow>
      (case session_at r sid of Some st \<Rightarrow> session_overdue now st | None \<Rightarrow> False)"
    using set_bm_keys_filter [OF maps_wfD(1) [OF registry_wfD(1) [OF wf]]]
    by (simp add: registry_expire_def Let_def)
  then show ?thesis
    by (cases "session_at r sid") (simp_all add: expire_parts deactivate_all_session [OF wf])
qed

definition purgeable :: "string \<Rightarrow> u64 \<Rightarrow> session_state \<Rightarrow> bool" where
  "purgeable t now st \<longleftrightarrow> si_tenant_id (st_intent st) = t \<and> retention_eligible st now"

lemma report_eligible:
  "pr_eligible (retention_purge_report r t now d) =
     map fst (filter (\<lambda>p. purgeable t now (snd p)) (sr_sessions r))"
  by (simp add: retention_purge_report_def Let_def purgeable_def conj_commute)

lemma retention_session:
  assumes wf: "registry_wf r"
  shows "session_at (snd (apply_retention t now r)) sid =
    (case session_at r sid of Some st \<Rightarrow> if purgeable t now st then None else Some st | None \<Rightarrow> None)"
  using set_bm_keys_filter [OF maps_wfD(1) [OF registry_wfD(1) [OF wf]], of sid "purgeable t now"]
  by (simp add: apply_retention_parts purged_all_session report_eligible split: option.splits)

lemma retention_purged:
  assumes wf: "registry_wf r"
  shows "pr_purged (fst (apply_retention t now r)) = pr_eligible (fst (apply_retention t now r))"
proof -
  let ?e = "pr_eligible (retention_purge_report r t now False)"
  note m = maps_wfD(1) [OF registry_wfD(1) [OF wf]]
  have "distinct ?e"
    using bm_distinct_keys [OF m] by (simp add: report_eligible distinct_map_filter)
  moreover have "\<forall>s\<in>set ?e. session_at r s \<noteq> None"
    by (simp add: report_eligible map_of_eq_None_iff image_def) force
  ultimately show ?thesis by (simp add: apply_retention_parts fst_purge_all)
qed

lemma retention_eligible_iff:
  "retention_eligible st now \<longleftrightarrow>
     (st_status st = StClosed \<or> st_status st = StExpired
        \<or> (st_status st = StActive \<and> unat (st_expires_at st) \<le> unat now))
     \<and> min (unat (st_expires_at st) + unat (retention_window_ms (si_retention_tier (st_intent st))))
           (2 ^ 64 - 1) \<le> unat now"
  by (simp add: retention_eligible_def word_le_nat_alt unat_sat_add)

section \<open>The registry's properties\<close>

abbreviation raw_registry :: "registry_op list \<Rightarrow> nat \<Rightarrow> nat \<Rightarrow> session_registry" where
  "raw_registry xs ms mp \<equiv> snd (run_ops registry_step xs (registry_new ms mp))"

abbreviation live_registry :: "registry_op list \<Rightarrow> nat \<Rightarrow> nat \<Rightarrow> session_registry" where
  "live_registry xs ms mp \<equiv> snd (run_ops (on_candidate registry_step) xs (registry_new ms mp))"

lemma raw_registry_wf: "registry_wf (raw_registry xs ms mp) \<and> limits (raw_registry xs ms mp) = (ms, mp)"
proof (rule registry_raw.run_inv)
  show "registry_wf (registry_new ms mp) \<and> limits (registry_new ms mp) = (ms, mp)"
    using registry_new_inv [of ms mp] by (simp add: registry_inv_def) (simp add: registry_new_def)
qed

lemma live_registry_inv: "registry_inv (live_registry xs ms mp)"
  by (rule registry_tx.run_inv) (rule registry_new_inv)

text \<open>C16. Capacity. After any sequence of registry operations, also ones that failed half
  way, the registry holds at most its maximum of sessions, at most its maximum of pending
  cgroups, and its pending counter is the number of cgroups that are pending.\<close>

theorem registry_bounds:
  "let r = raw_registry xs ms mp in
     length (sr_sessions r) \<le> ms
     \<and> sr_pending_count r = sum_list (map length (bm_values (sr_pending r)))
     \<and> sr_pending_count r \<le> mp"
  using raw_registry_wf [of xs ms mp]
  by (auto simp: Let_def registry_wf_def counts_wf_def pending_total_def comp_def)

text \<open>C1. Attribution. In a registry driven as the daemon drives it (each operation on a
  clone, kept when it succeeds), the session a cgroup is attributed to is an active session
  that lists the cgroup, or has no intent yet and lists it as pending: no event is
  attributed to a closed, expired or degraded session.\<close>

theorem registry_attribution:
  "let r = live_registry xs ms mp in
     (case session_for_cgroup r c of
        None \<Rightarrow> True
      | Some sid \<Rightarrow>
          (case session_at r sid of
             Some st \<Rightarrow> is_scope_admitted r sid \<and> c \<in> set (st_cgroup_ids st)
           | None \<Rightarrow> (case pending_at r sid of Some cs \<Rightarrow> c \<in> set cs | None \<Rightarrow> False)))"
proof (cases "session_for_cgroup (live_registry xs ms mp) c")
  case (Some sid)
  with live_registry_inv [of xs ms mp] have "holds_cgroup (live_registry xs ms mp) sid c"
    by (simp add: registry_inv_def index_sound_upto_def session_for_cgroup_def)
  with Some show ?thesis
    by (simp add: Let_def holds_cgroup_def is_scope_admitted_def split: option.splits)
qed (simp add: Let_def)

text \<open>No stealing. Whatever operation runs next, and whether it succeeds or not, a
  cgroup that is attributed to a session stays with it or becomes free; it never goes to
  another session in one step.\<close>

lemma registry_no_steal:
  "let r = raw_registry xs ms mp in
     (case session_for_cgroup r c of
        None \<Rightarrow> True
      | Some sid \<Rightarrow> session_for_cgroup (snd (registry_step x r)) c \<in> {None, Some sid})"
proof -
  from raw_registry_wf have "registry_wf (raw_registry xs ms mp)" by blast
  from step_owner [OF this, of x c] show ?thesis
    by (simp add: Let_def session_for_cgroup_def split: option.splits)
qed

text \<open>Retention is exact. Applying retention for a tenant removes the sessions of that
  tenant that are eligible, reports exactly those it removed, and leaves every other
  session, of this tenant or another, as it was.\<close>

lemma retention_exact:
  "let r = raw_registry xs ms mp; (report, r') = apply_retention t now r in
     pr_purged report = pr_eligible report
     \<and> (\<forall>sid. session_at r' sid =
          (case session_at r sid of
             Some st \<Rightarrow>
               if si_tenant_id (st_intent st) = t \<and> retention_eligible st now then None else Some st
           | None \<Rightarrow> None))"
proof -
  from raw_registry_wf have wf: "registry_wf (raw_registry xs ms mp)" by blast
  show ?thesis
    using retention_purged [OF wf, of t now] retention_session [OF wf, of t now]
    by (simp add: Let_def case_prod_beta purgeable_def split: option.splits)
qed

text \<open>Retention is not early. A session that retention removes was closed, expired or
  overdue, and its window had passed in full since its expiry, computed without wrap-around
  (the only exception is the last representable instant, where the saturated sum lies).\<close>

lemma retention_not_early:
  "let r = raw_registry xs ms mp; r' = snd (apply_retention t now r) in
     (case session_at r sid of
        None \<Rightarrow> True
      | Some st \<Rightarrow>
          session_at r' sid = Some st
          \<or> (si_tenant_id (st_intent st) = t \<and> st_status st \<noteq> StDegraded
             \<and> (unat (st_expires_at st)
                  + unat (retention_window_ms (si_retention_tier (st_intent st))) \<le> unat now
                \<or> unat now = 2 ^ 64 - 1)))"
proof -
  from raw_registry_wf have wf: "registry_wf (raw_registry xs ms mp)" by blast
  have "unat now < 2 ^ LENGTH(64)" by (rule unsigned_less)
  then have top: "unat now \<le> 2 ^ 64 - 1" by simp
  show ?thesis
    using retention_session [OF wf, of t now sid] top
    by (auto simp: Let_def purgeable_def retention_eligible_iff min_def split: option.splits if_splits)
qed

text \<open>Expiry. Expiring at an instant turns exactly the active sessions that are due by
  then into expired ones, reports their ids, and frees every cgroup they list; sessions
  that are not due keep their state.\<close>

lemma expire_exact:
  "let r = raw_registry xs ms mp; (expired, r') = registry_expire now r in
     (\<forall>sid. session_at r' sid =
        map_option (\<lambda>st. if st_status st = StActive \<and> st_expires_at st \<le> now
                          then st\<lparr>st_status := StExpired\<rparr> else st) (session_at r sid))
     \<and> (\<forall>sid. sid \<in> set expired \<longleftrightarrow>
          (case session_at r sid of
             Some st \<Rightarrow> st_status st = StActive \<and> st_expires_at st \<le> now | None \<Rightarrow> False))
     \<and> (\<forall>c. session_for_cgroup r' c =
          (if \<exists>sid\<in>set expired. \<exists>st. session_at r sid = Some st \<and> c \<in> set (st_cgroup_ids st)
           then None else session_for_cgroup r c))"
proof -
  from raw_registry_wf have wf: "registry_wf (raw_registry xs ms mp)" by blast
  note m = maps_wfD(1) [OF registry_wfD(1) [OF wf]]
  have expired: "sid \<in> set (fst (registry_expire now (raw_registry xs ms mp))) \<longleftrightarrow>
      (case session_at (raw_registry xs ms mp) sid of
         Some st \<Rightarrow> session_overdue now st | None \<Rightarrow> False)" for sid
    using set_bm_keys_filter [OF m, of sid "session_overdue now"]
    by (simp add: registry_expire_def Let_def)
  have owner: "owner_of (snd (registry_expire now (raw_registry xs ms mp))) c =
      (if \<exists>sid\<in>set (fst (registry_expire now (raw_registry xs ms mp))).
            \<exists>st. session_at (raw_registry xs ms mp) sid = Some st \<and> c \<in> set (st_cgroup_ids st)
       then None else owner_of (raw_registry xs ms mp) c)" for c
    by (simp only: expire_parts deactivate_all_owner [OF wf])
  show ?thesis
    unfolding Let_def case_prod_beta session_for_cgroup_def
    using expire_session [OF wf, of now] expired owner
    by (simp only: session_overdue_def simp_thms)
qed

section \<open>Where the registry departs from what it means to do\<close>

definition sample_intent :: "string \<Rightarrow> string \<Rightarrow> session_intent" where
  "sample_intent tenant sid =
     \<lparr>si_schema_version = 1, si_tenant_id = tenant, si_retention_tier = TierShort,
      si_session_id = sid, si_expires_at = 100, si_declared_actions = [],
      si_allowed_resources = [], si_policy_ref = ''p'', si_workload_selectors = []\<rparr>"

text \<open>
  A closed session keeps its list of cgroups. Closing it again takes the attribution of a
  cgroup from the session, here another tenant's, that has owned it since.
\<close>

lemma close_again_unindexes_other:
  "let r = live_registry
        [OpRegister (sample_intent ''t1'' ''a'') 1, OpAssociate ''a'' 7, OpClose ''a'',
         OpRegister (sample_intent ''t2'' ''b'') 1, OpAssociate ''b'' 7, OpClose ''a''] 4 4
   in session_for_cgroup r 7 = None \<and> is_scope_admitted r ''b''
      \<and> map_option st_cgroup_ids (session_at r ''b'') = Some [7]"
  by code_simp

text \<open>Registering a closed session again makes it active with cgroups the index does not hold.\<close>

lemma register_again_unindexed:
  "let r = live_registry
        [OpRegister (sample_intent ''t1'' ''a'') 1, OpAssociate ''a'' 7, OpClose ''a'',
         OpRegister (sample_intent ''t1'' ''a'') 1] 4 4
   in session_for_cgroup r 7 = None \<and> is_scope_admitted r ''a''
      \<and> map_option st_cgroup_ids (session_at r ''a'') = Some [7]"
  by code_simp

text \<open>Renewal refuses a closed session, but not one that was degraded after it was closed.\<close>

lemma degraded_closed_session_renews:
  "let xs = [OpRegister (sample_intent ''t1'' ''a'') 1, OpClose ''a''] in
     \<not> is_ok (fst (registry_step (OpRenew ''a'' 200 1) (live_registry xs 4 4)))
     \<and> is_scope_admitted (live_registry (xs @ [OpDegrade ''a'', OpRenew ''a'' 200 1]) 4 4) ''a''"
  by code_simp

text \<open>Registering an id that another tenant holds replaces that tenant's session.\<close>

lemma register_replaces_other_tenant:
  "let r = live_registry
        [OpRegister (sample_intent ''t1'' ''a'') 1, OpRegister (sample_intent ''t2'' ''a'') 1] 4 4
   in get_for_tenant r ''a'' ''t1'' = None \<and> get_for_tenant r ''a'' ''t2'' \<noteq> None"
  by code_simp

text \<open>A registration that fails has changed the registry it ran on.\<close>

lemma failed_register_mutates:
  "let r = raw_registry
        [OpRegister (sample_intent ''t'' ''a'') 1, OpAssociate ''a'' 7, OpClose ''a'',
         OpDiscover ''b'' 7, OpClose ''a'', OpRegister (sample_intent ''t'' ''d'') 1,
         OpAssociate ''d'' 7] 4 4;
       p = registry_register (sample_intent ''t'' ''b'') 1 r
   in \<not> is_ok (fst p) \<and> session_at r ''b'' = None \<and> is_scope_admitted (snd p) ''b''"
  by code_simp

end
