(* ===== verification/Buf_Writer.thy ===== *)
theory Buf_Writer
  imports Rust_Text
begin

text \<open>
  The standard library's \<open>BufWriter<File>\<close> as the two stores use it: \<open>write_all\<close> and
  \<open>flush\<close> with the default capacity, over a file on a device with limited room, so that a
  write may fail after part of it is on the disk. The interface is the locale
  \<open>byte_sink\<close>: what a writer accepted is a stream of bytes of which the disk holds a prefix.
\<close>

section \<open>The device and the buffer\<close>

record buf_writer =
  bw_disk :: string
  bw_room :: nat
  bw_buffer :: string

definition bw_capacity :: nat where
  "bw_capacity = 8 * 1024"

definition bw_new :: "string \<Rightarrow> nat \<Rightarrow> buf_writer" where
  "bw_new contents room = \<lparr>bw_disk = contents, bw_room = room, bw_buffer = []\<rparr>"

definition enospc :: string where
  "enospc = ''No space left on device (os error 28)''"

text \<open>\<open>File::write_all\<close>: what fits is written, and the call fails when not all of it did.\<close>

definition device_write :: "string \<Rightarrow> buf_writer \<Rightarrow> (string, unit) res \<times> buf_writer" where
  "device_write data w =
     ((if length data \<le> bw_room w then Inr () else Inl enospc),
      w\<lparr>bw_disk := bw_disk w @ take (bw_room w) data, bw_room := bw_room w - length data\<rparr>)"

text \<open>\<open>flush_buf\<close>: what could not be written stays in the buffer.\<close>

definition bw_flush :: "buf_writer \<Rightarrow> (string, unit) res \<times> buf_writer" where
  "bw_flush w =
     (let (res, w') = device_write (bw_buffer w) w in
      (res, w'\<lparr>bw_buffer := drop (bw_room w) (bw_buffer w)\<rparr>))"

definition bw_spare :: "buf_writer \<Rightarrow> nat" where
  "bw_spare w = bw_capacity - length (bw_buffer w)"

definition bw_write_all :: "string \<Rightarrow> buf_writer \<Rightarrow> (string, unit) res \<times> buf_writer" where
  "bw_write_all data w =
     (if length data < bw_spare w then (Inr (), w\<lparr>bw_buffer := bw_buffer w @ data\<rparr>)
      else
        (let (res, w1) = (if length data > bw_spare w then bw_flush w else (Inr (), w)) in
         case res of
           Inl e \<Rightarrow> (Inl e, w1)
         | Inr _ \<Rightarrow>
             (if length data \<ge> bw_capacity then device_write data w1
              else (Inr (), w1\<lparr>bw_buffer := bw_buffer w1 @ data\<rparr>))))"

section \<open>The interface\<close>

locale byte_sink =
  fixes wr :: "string \<Rightarrow> 'w \<Rightarrow> (string, unit) res \<times> 'w"
    and fl :: "'w \<Rightarrow> (string, unit) res \<times> 'w"
    and stream :: "'w \<Rightarrow> string"
    and disk :: "'w \<Rightarrow> string"
  assumes write_ok: "is_ok (fst (wr s w)) \<Longrightarrow> stream (snd (wr s w)) = stream w @ s"
    and write_fail: "\<not> is_ok (fst (wr s w)) \<Longrightarrow>
           \<exists>t. strict_prefix t s \<and> stream (snd (wr s w)) = stream w @ t"
    and flush_stream: "stream (snd (fl w)) = stream w"
    and flush_ok: "is_ok (fst (fl w)) \<Longrightarrow> disk (snd (fl w)) = stream w"
    and flush_fail: "\<not> is_ok (fst (fl w)) \<Longrightarrow> strict_prefix (disk (snd (fl w))) (stream w)"
    and disk_prefix: "prefix (disk w) (stream w)"
    and write_grows: "prefix (disk w) (disk (snd (wr s w)))"
    and flush_grows: "prefix (disk w) (disk (snd (fl w)))"
begin

text \<open>Several writes in a row, stopped at the first that fails.\<close>

fun write_list :: "string list \<Rightarrow> 'w \<Rightarrow> (string, unit) res \<times> 'w" where
  "write_list [] w = (Inr (), w)"
| "write_list (s # ss) w =
     (case wr s w of (Inl e, w') \<Rightarrow> (Inl e, w') | (Inr _, w') \<Rightarrow> write_list ss w')"

lemma write_list_ok:
  "is_ok (fst (write_list ss w)) \<Longrightarrow> stream (snd (write_list ss w)) = stream w @ concat ss"
proof (induction ss arbitrary: w)
  case (Cons s ss)
  then show ?case
    using write_ok [of s w] by (auto split: prod.splits sum.splits)
qed simp

text \<open>A run of writes that fails has written a proper prefix of what was to be written.\<close>

lemma write_list_fail:
  "\<not> is_ok (fst (write_list ss w)) \<Longrightarrow>
   \<exists>t. strict_prefix t (concat ss) \<and> stream (snd (write_list ss w)) = stream w @ t"
proof (induction ss arbitrary: w)
  case (Cons s ss)
  obtain res w' where s: "wr s w = (res, w')" by (cases "wr s w")
  show ?case
  proof (cases res)
    case (Inl e)
    with s write_fail [of s w] obtain t where "strict_prefix t s" "stream w' = stream w @ t" by auto
    moreover from this(1) have "strict_prefix t (s @ concat ss)"
      by (auto simp: strict_prefix_def prefix_def)
    ultimately show ?thesis using s Inl by auto
  next
    case (Inr u)
    with s Cons.prems have "\<not> is_ok (fst (write_list ss w'))" by simp
    from Cons.IH [OF this] obtain t where "strict_prefix t (concat ss)"
      and t: "stream (snd (write_list ss w')) = stream w' @ t" by blast
    moreover have "stream w' = stream w @ s" using write_ok [of s w] s Inr by simp
    ultimately show ?thesis using s Inr by (intro exI [of _ "s @ t"]) (simp add: strict_prefix_def)
  qed
qed simp

lemma write_list_grows: "prefix (disk w) (disk (snd (write_list ss w)))"
proof (induction ss arbitrary: w)
  case (Cons s ss)
  obtain res w' where s: "wr s w = (res, w')" by (cases "wr s w")
  have "prefix (disk w) (disk w')" using write_grows [of w s] s by simp
  with Cons.IH [of w'] s show ?case by (auto split: sum.splits intro: prefix_order.trans)
qed simp

end

definition bw_stream :: "buf_writer \<Rightarrow> string" where
  "bw_stream w = bw_disk w @ bw_buffer w"

lemma device_write_stream:
  "bw_buffer w = [] \<Longrightarrow> bw_stream (snd (device_write s w)) = bw_stream w @ take (bw_room w) s"
  by (simp add: device_write_def bw_stream_def)

lemma bw_flush_parts:
  "bw_stream (snd (bw_flush w)) = bw_stream w"
  "is_ok (fst (bw_flush w)) \<Longrightarrow> bw_buffer (snd (bw_flush w)) = []"
  by (auto simp: bw_flush_def device_write_def bw_stream_def split: if_splits)

lemma bw_flush_grows: "prefix (bw_disk w) (bw_disk (snd (bw_flush w)))"
  by (simp add: bw_flush_def device_write_def)

lemma bw_write_all_cases:
  obtains (buffered) "fst (bw_write_all s w) = Inr ()" "bw_stream (snd (bw_write_all s w)) = bw_stream w @ s"
  | (refused) e where "fst (bw_write_all s w) = Inl e" "bw_stream (snd (bw_write_all s w)) = bw_stream w"
  | (direct) w' where "bw_stream w' = bw_stream w" "bw_buffer w' = []" "bw_write_all s w = device_write s w'"
proof (cases "length s < bw_spare w")
  case True
  then show ?thesis by (intro buffered) (simp_all add: bw_write_all_def bw_stream_def)
next
  case False
  let ?p = "if length s > bw_spare w then bw_flush w else (Inr (), w)"
  have str: "bw_stream (snd ?p) = bw_stream w" using bw_flush_parts(1) [of w] by simp
  have eq: "bw_write_all s w =
      (case fst ?p of
         Inl e \<Rightarrow> (Inl e, snd ?p)
       | Inr _ \<Rightarrow> (if length s \<ge> bw_capacity then device_write s (snd ?p)
                     else (Inr (), (snd ?p)\<lparr>bw_buffer := bw_buffer (snd ?p) @ s\<rparr>)))"
    using False by (simp only: bw_write_all_def Let_def case_prod_beta if_False)
  show ?thesis
  proof (cases "fst ?p")
    case (Inl e)
    with eq str show ?thesis by (intro refused [of e]) simp_all
  next
    case (Inr u)
    show ?thesis
    proof (cases "length s \<ge> bw_capacity")
      case True
      have "bw_buffer (snd ?p) = []"
      proof (cases "length s > bw_spare w")
        case True
        with Inr bw_flush_parts(2) [of w] show ?thesis by simp
      next
        case False
        have "length (bw_buffer w) = 0"
          using False \<open>length s \<ge> bw_capacity\<close> unfolding bw_spare_def bw_capacity_def by arith
        with False show ?thesis by simp
      qed
      with eq str Inr True show ?thesis by (intro direct [of "snd ?p"]) simp_all
    next
      case False
      with eq str Inr show ?thesis by (intro buffered) (simp_all add: bw_stream_def)
    qed
  qed
qed

interpretation bw: byte_sink bw_write_all bw_flush bw_stream bw_disk
proof unfold_locales
  fix s w
  show "is_ok (fst (bw_write_all s w)) \<Longrightarrow> bw_stream (snd (bw_write_all s w)) = bw_stream w @ s"
    by (cases rule: bw_write_all_cases [of s w])
      (auto simp: device_write_stream, auto simp: device_write_def split: if_splits)
  assume fail: "\<not> is_ok (fst (bw_write_all s w))"
  show "\<exists>t. strict_prefix t s \<and> bw_stream (snd (bw_write_all s w)) = bw_stream w @ t"
  proof (cases rule: bw_write_all_cases [of s w])
    case (refused e)
    have "s \<noteq> []"
      using fail by (auto simp: bw_write_all_def bw_capacity_def split: if_splits)
    with refused show ?thesis by (intro exI [of _ "[]"]) (simp add: strict_prefix_def)
  next
    case (direct w')
    then have "bw_room w' < length s"
      using fail by (simp add: device_write_def split: if_splits)
    then have "strict_prefix (take (bw_room w') s) s"
      by (metis length_take min.strict_order_iff nless_le order.asym strict_prefix_def take_is_prefix)
    with direct show ?thesis by (auto simp: device_write_stream)
  qed (use fail in simp)
next
  fix w
  show "bw_stream (snd (bw_flush w)) = bw_stream w" by (rule bw_flush_parts)
  show "is_ok (fst (bw_flush w)) \<Longrightarrow> bw_disk (snd (bw_flush w)) = bw_stream w"
    using bw_flush_parts [of w] by (auto simp: bw_stream_def)
  show "prefix (bw_disk w) (bw_stream w)" by (simp add: bw_stream_def)
  show "prefix (bw_disk w) (bw_disk (snd (bw_flush w)))" by (rule bw_flush_grows)
  show "prefix (bw_disk w) (bw_disk (snd (bw_write_all s w)))" for s
    using bw_flush_grows [of w]
    by (auto simp: bw_write_all_def device_write_def prefix_def Let_def split: sum.splits prod.splits)
  show "strict_prefix (bw_disk (snd (bw_flush w))) (bw_stream w)" if "\<not> is_ok (fst (bw_flush w))"
  proof -
    have "bw_room w < length (bw_buffer w)"
      using that by (simp add: bw_flush_def device_write_def split: if_splits)
    then have "strict_prefix (take (bw_room w) (bw_buffer w)) (bw_buffer w)"
      by (metis length_take min.strict_order_iff nless_le order.asym strict_prefix_def take_is_prefix)
    then show ?thesis by (simp add: bw_flush_def device_write_def bw_stream_def strict_prefix_def)
  qed
qed

lemma bw_flush_room:
  "length (bw_buffer w) \<le> bw_room w \<Longrightarrow>
   bw_flush w = (Inr (), w\<lparr>bw_disk := bw_disk w @ bw_buffer w, bw_room := bw_room w - length (bw_buffer w),
                           bw_buffer := []\<rparr>)"
  by (simp add: bw_flush_def device_write_def)

text \<open>With room for the buffer and the data, a write succeeds, and uses up the data's length.\<close>

lemma bw_write_room:
  assumes "length (bw_buffer w) + length data \<le> bw_room w"
  shows "is_ok (fst (bw_write_all data w))"
    and "length (bw_buffer (snd (bw_write_all data w))) + bw_room w =
         bw_room (snd (bw_write_all data w)) + length (bw_buffer w) + length data"
proof -
  have f: "bw_flush w = (Inr (), w\<lparr>bw_disk := bw_disk w @ bw_buffer w,
      bw_room := bw_room w - length (bw_buffer w), bw_buffer := []\<rparr>)"
    using assms by (intro bw_flush_room) simp
  have empty: "bw_buffer w = []" if "\<not> length data > bw_spare w" "length data \<ge> bw_capacity"
  proof -
    have "length (bw_buffer w) = 0"
      using that unfolding bw_spare_def bw_capacity_def by arith
    then show ?thesis by simp
  qed
  show "is_ok (fst (bw_write_all data w))"
    using assms f by (auto simp: bw_write_all_def device_write_def Let_def)
  show "length (bw_buffer (snd (bw_write_all data w))) + bw_room w =
         bw_room (snd (bw_write_all data w)) + length (bw_buffer w) + length data"
    using assms f empty by (auto simp: bw_write_all_def device_write_def Let_def)
qed

end
