(* ===== verification/Hash_Chain.thy ===== *)
theory Hash_Chain
  imports Buf_Writer
begin

text \<open>
  The hash-chained timeline (\<open>crates/apolysis-store/src/hash_chain.rs\<close>): records that carry
  the hash of their predecessor, appending, read-only verification, and recovery after a
  crash with the damaged tail set aside. The JSON library and SHA-256 are the parameters
  \<open>chain_lib\<close>; a timeline file is the bytes it holds.
\<close>

section \<open>Data\<close>

record 'v chain_record =
  cr_schema_version :: u32
  cr_sequence :: u64
  cr_previous_hash :: string
  cr_record_hash :: string
  cr_payload :: 'v

text \<open>
  What the code calls of \<open>serde_json\<close> and \<open>sha2\<close>: \<open>from_slice\<close> and \<open>to_string\<close> of a record,
  \<open>from_str\<close> and \<open>to_string\<close> of a value, and the digest of a message.
\<close>

record 'v chain_lib =
  cl_parse_record :: "string \<Rightarrow> (string, 'v chain_record) res"
  cl_print_record :: "'v chain_record \<Rightarrow> (string, string) res"
  cl_parse_value :: "string \<Rightarrow> (string, 'v) res"
  cl_print_value :: "'v \<Rightarrow> (string, string) res"
  cl_sha256 :: "string \<Rightarrow> string"

record hash_chain_store =
  hs_writer :: buf_writer
  hs_sequence :: u64
  hs_previous_hash :: string

record verification_report =
  vr_passed :: bool
  vr_record_count :: nat
  vr_last_sequence :: u64
  vr_last_record_hash :: string
  vr_valid_bytes :: nat
  vr_total_bytes :: nat
  vr_failure :: "string option"

datatype store_error =
    StoreIo string
  | InvalidPayload string
  | Integrity "u64 option" string

definition debug_some_u64 :: "u64 option \<Rightarrow> string" where
  "debug_some_u64 so =
     (case so of None \<Rightarrow> ''None'' | Some n \<Rightarrow> ''Some('' @ dec_str (unat n) @ '')'')"

fun store_error_str :: "store_error \<Rightarrow> string" where
  "store_error_str (StoreIo e) = ''hash-chain I/O failure: '' @ e"
| "store_error_str (InvalidPayload e) = ''invalid JSON payload: '' @ e"
| "store_error_str (Integrity sq detail) =
     ''hash-chain integrity failure at '' @ debug_some_u64 sq @ '': '' @ detail"

definition zero_hash :: string where
  "zero_hash = replicate 64 (CHR ''0'')"

section \<open>Hashing a record\<close>

definition be_bytes :: "nat \<Rightarrow> 'a::len word \<Rightarrow> string" where
  "be_bytes n w = rev (map (\<lambda>i. char_of ((unat w div 256 ^ i) mod 256)) [0..<n])"

definition encode_hex :: "string \<Rightarrow> string" where
  "encode_hex bytes =
     concat (map (\<lambda>c. [hex_digit (byte_val c div 16), hex_digit (byte_val c mod 16)]) bytes)"

definition hash_input :: "u32 \<Rightarrow> u64 \<Rightarrow> string \<Rightarrow> string \<Rightarrow> string" where
  "hash_input version sq prev payload = be_bytes 4 version @ be_bytes 8 sq @ prev @ payload"

definition calculate_hash :: "'v chain_lib \<Rightarrow> u32 \<Rightarrow> u64 \<Rightarrow> string \<Rightarrow> string \<Rightarrow> string" where
  "calculate_hash lib version sq prev payload =
     encode_hex (cl_sha256 lib (hash_input version sq prev payload))"

section \<open>Validation\<close>

definition validate_line ::
    "'v chain_lib \<Rightarrow> string \<Rightarrow> u64 \<Rightarrow> string \<Rightarrow> (string, 'v chain_record) res" where
  "validate_line lib line sq prev =
     (case cl_parse_record lib line of
        Inl e \<Rightarrow> Inl (''invalid record JSON: '' @ e)
      | Inr r \<Rightarrow>
          (if cr_sequence r \<noteq> sq then
             Inl (''expected sequence '' @ dec_str (unat sq) @ '', got '' @ dec_str (unat (cr_sequence r)))
           else if cr_previous_hash r \<noteq> prev then Inl ''previous hash does not match valid prefix''
           else
             (case cl_print_value lib (cr_payload r) of
                Inl e \<Rightarrow> Inl e
              | Inr payload \<Rightarrow>
                  (if cr_record_hash r \<noteq>
                      calculate_hash lib (cr_schema_version r) (cr_sequence r) (cr_previous_hash r) payload
                   then Inl ''record hash does not match payload''
                   else Inr r))))"

text \<open>The positions of the line feeds, and the slice of the bytes between two positions.\<close>

definition newline_positions :: "string \<Rightarrow> nat list" where
  "newline_positions bytes = filter (\<lambda>i. bytes ! i = ch_nl) [0..<length bytes]"

definition slice :: "string \<Rightarrow> nat \<Rightarrow> nat \<Rightarrow> string" where
  "slice bytes a b = take (b - a) (drop a bytes)"

text \<open>
  What a scan of a timeline has found: the last valid sequence and hash, the length of the
  valid prefix, and its records.
\<close>

record 'v chain_scan =
  cs_sequence :: u64
  cs_previous_hash :: string
  cs_valid_len :: nat
  cs_records :: "'v chain_record list"

definition scan_start :: "'v chain_scan" where
  "scan_start =
     \<lparr>cs_sequence = 0, cs_previous_hash = zero_hash, cs_valid_len = 0, cs_records = []\<rparr>"

definition scan_accept :: "'v chain_record \<Rightarrow> nat \<Rightarrow> 'v chain_scan \<Rightarrow> 'v chain_scan" where
  "scan_accept r newline s =
     s\<lparr>cs_sequence := cr_sequence r, cs_previous_hash := cr_record_hash r,
       cs_valid_len := newline + 1, cs_records := cs_records s @ [r]\<rparr>"

definition integrity_text :: "u64 \<Rightarrow> string \<Rightarrow> string" where
  "integrity_text sq detail =
     ''hash-chain integrity failure at '' @ debug_some_u64 (Some sq) @ '': '' @ detail"

text \<open>The read-only loop of \<open>verify_existing\<close>: the scan and the failure it stopped at.\<close>

fun verify_loop ::
    "'v chain_lib \<Rightarrow> string \<Rightarrow> nat list \<Rightarrow> nat \<Rightarrow> 'v chain_scan \<Rightarrow> 'v chain_scan \<times> string option" where
  "verify_loop lib bytes [] start s = (s, None)"
| "verify_loop lib bytes (newline # ps) start s =
     (let expected = sat_add (cs_sequence s) 1 in
      case validate_line lib (slice bytes start newline) expected (cs_previous_hash s) of
        Inr r \<Rightarrow> verify_loop lib bytes ps (newline + 1) (scan_accept r newline s)
      | Inl detail \<Rightarrow> (s, Some (integrity_text expected detail)))"

definition verify_existing :: "'v chain_lib \<Rightarrow> string \<Rightarrow> 'v chain_scan \<times> string option" where
  "verify_existing lib bytes = verify_loop lib bytes (newline_positions bytes) 0 scan_start"

text \<open>
  \<open>HashChainStore::verify\<close>, on the bytes read; the path of the report is left out, and the
  two byte counts stay natural numbers (\<open>usize as u64\<close> keeps every length).
\<close>

definition chain_verify :: "'v chain_lib \<Rightarrow> string \<Rightarrow> verification_report" where
  "chain_verify lib bytes =
     (let total = length bytes;
          (s, fl) = verify_existing lib bytes;
          valid = cs_valid_len s;
          failure =
            (case fl of
               Some e \<Rightarrow> Some e
             | None \<Rightarrow>
                 (if valid \<noteq> total then
                    Some (''invalid or truncated tail after valid prefix at byte ''
                          @ dec_str (cs_valid_len s))
                  else None))
      in \<lparr>vr_passed = (failure = None), vr_record_count = length (cs_records s),
          vr_last_sequence = cs_sequence s, vr_last_record_hash = cs_previous_hash s,
          vr_valid_bytes = valid, vr_total_bytes = total, vr_failure = failure\<rparr>)"

text \<open>
  The loop of \<open>validate_existing\<close>: an invalid line is an error when complete lines or
  other bytes follow it, and the end of the valid prefix when it is the last.
\<close>

fun validate_loop ::
    "'v chain_lib \<Rightarrow> string \<Rightarrow> bool \<Rightarrow> nat list \<Rightarrow> nat \<Rightarrow> 'v chain_scan
     \<Rightarrow> (store_error, 'v chain_scan) res" where
  "validate_loop lib bytes trailing [] start s = Inr s"
| "validate_loop lib bytes trailing (newline # ps) start s =
     (let expected = sat_add (cs_sequence s) 1 in
      case validate_line lib (slice bytes start newline) expected (cs_previous_hash s) of
        Inr r \<Rightarrow> validate_loop lib bytes trailing ps (newline + 1) (scan_accept r newline s)
      | Inl detail \<Rightarrow>
          (if ps \<noteq> [] \<or> trailing then Inl (Integrity (Some expected) detail)
           else Inr (s\<lparr>cs_valid_len := start\<rparr>)))"

definition trailing_bytes :: "string \<Rightarrow> bool" where
  "trailing_bytes bytes =
     (let ps = newline_positions bytes in
      if ps = [] then bytes \<noteq> [] else last ps + 1 < length bytes)"

definition validate_existing :: "'v chain_lib \<Rightarrow> string \<Rightarrow> (store_error, 'v chain_scan) res" where
  "validate_existing lib bytes =
     validate_loop lib bytes (trailing_bytes bytes) (newline_positions bytes) 0 scan_start"

section \<open>Recovery and appending\<close>

record 'v recovery =
  rc_store :: hash_chain_store
  rc_next_sequence :: u64
  rc_previous_hash :: string
  rc_quarantined :: "string option"
  rc_records :: "'v chain_record list"

text \<open>
  \<open>create_or_recover\<close> on the bytes of the file (none when it does not exist) and the room on
  the device: the file is cut to its valid prefix, the rest goes to the quarantine file,
  of which the model keeps the contents. \<open>room\<close> is what the device has left afterwards. The
  errors of the calls around it (making the directory, reading and opening the file, writing the
  quarantine file, cutting) end the opening with a store error and are left out; so is the name
  of the quarantine file.
\<close>

definition create_or_recover ::
    "'v chain_lib \<Rightarrow> nat \<Rightarrow> string option \<Rightarrow> (store_error, 'v recovery) res" where
  "create_or_recover lib room file =
     (let bytes = (case file of Some b \<Rightarrow> b | None \<Rightarrow> []) in
      case validate_existing lib bytes of
        Inl e \<Rightarrow> Inl e
      | Inr v \<Rightarrow>
          Inr \<lparr>rc_store = \<lparr>hs_writer = bw_new (take (cs_valid_len v) bytes) room,
                           hs_sequence = cs_sequence v, hs_previous_hash = cs_previous_hash v\<rparr>,
               rc_next_sequence = sat_add (cs_sequence v) 1,
               rc_previous_hash = cs_previous_hash v,
               rc_quarantined =
                 (if cs_valid_len v < length bytes then Some (drop (cs_valid_len v) bytes) else None),
               rc_records = cs_records v\<rparr>)"

definition append_json ::
    "'v chain_lib \<Rightarrow> u32 \<Rightarrow> string \<Rightarrow> hash_chain_store
     \<Rightarrow> (store_error, 'v chain_record) res \<times> hash_chain_store" where
  "append_json lib version text s =
     (case cl_parse_value lib text of
        Inl e \<Rightarrow> (Inl (InvalidPayload e), s)
      | Inr payload \<Rightarrow>
          (case cl_print_value lib payload of
             Inl e \<Rightarrow> (Inl (InvalidPayload e), s)
           | Inr canonical \<Rightarrow>
               (let sq = sat_add (hs_sequence s) 1;
                    h = calculate_hash lib version sq (hs_previous_hash s) canonical;
                    r = \<lparr>cr_schema_version = version, cr_sequence = sq,
                         cr_previous_hash = hs_previous_hash s, cr_record_hash = h,
                         cr_payload = payload\<rparr>
                in
                  (case cl_print_record lib r of
                     Inl e \<Rightarrow> (Inl (InvalidPayload e), s)
                   | Inr line \<Rightarrow>
                       (case bw_write_all line (hs_writer s) of
                          (Inl e, w) \<Rightarrow> (Inl (StoreIo e), s\<lparr>hs_writer := w\<rparr>)
                        | (Inr _, w) \<Rightarrow>
                            (case bw_write_all [ch_nl] w of
                               (Inl e, w') \<Rightarrow> (Inl (StoreIo e), s\<lparr>hs_writer := w'\<rparr>)
                             | (Inr _, w') \<Rightarrow>
                                 (Inr r, s\<lparr>hs_writer := w', hs_sequence := sq,
                                           hs_previous_hash := h\<rparr>)))))))"

definition chain_flush :: "hash_chain_store \<Rightarrow> (store_error, unit) res \<times> hash_chain_store" where
  "chain_flush s =
     (let (res, w) = bw_flush (hs_writer s) in (map_sum StoreIo id res, s\<lparr>hs_writer := w\<rparr>))"

section \<open>The loops over positions as a scan over lines\<close>

abbreviation unlines :: "string list \<Rightarrow> string" where
  "unlines ls \<equiv> concat (map (\<lambda>l. l @ [ch_nl]) ls)"

abbreviation one_line :: "string \<Rightarrow> bool" where
  "one_line l \<equiv> ch_nl \<notin> set l"

text \<open>Any text is its complete lines and what follows the last line feed.\<close>

lemma lines_decompose:
  obtains ls t where "bytes = unlines ls @ t" "list_all one_line ls" "one_line t"
proof (induction bytes arbitrary: thesis)
  case Nil
  show ?case by (rule Nil [of "[]" "[]"]) simp_all
next
  case (Cons c bytes)
  obtain ls t where d: "bytes = unlines ls @ t" "list_all one_line ls" "one_line t"
    by (rule Cons.IH)
  show ?case
  proof (cases "c = ch_nl")
    case True
    with d show ?thesis by (intro Cons.prems [of "[] # ls" t]) simp_all
  next
    case False
    show ?thesis
    proof (cases ls)
      case Nil
      with d False show ?thesis by (intro Cons.prems [of "[]" "c # t"]) simp_all
    next
      case (Cons l ls')
      with d False show ?thesis by (intro Cons.prems [of "(c # l) # ls'" t]) simp_all
    qed
  qed
qed

lemma newline_positions_Cons:
  "newline_positions (c # bytes) = (if c = ch_nl then [0] else []) @ map Suc (newline_positions bytes)"
proof -
  have "[0..<Suc (length bytes)] = 0 # map Suc [0..<length bytes]"
    by (simp only: map_Suc_upt upt_conv_Cons zero_less_Suc One_nat_def)
  then show ?thesis
    by (simp add: newline_positions_def filter_map comp_def)
qed

lemma newline_positions_none: "one_line t \<Longrightarrow> newline_positions t = []"
proof -
  assume "one_line t"
  then have "t ! i \<noteq> ch_nl" if "i < length t" for i
    using nth_mem [OF that] by auto
  then show "newline_positions t = []" by (simp add: newline_positions_def filter_empty_conv)
qed

lemma newline_positions_line:
  "one_line l \<Longrightarrow> newline_positions (l @ ch_nl # rest) =
     length l # map ((+) (Suc (length l))) (newline_positions rest)"
proof (induction l)
  case (Cons c l)
  then have "c \<noteq> ch_nl" by auto
  with Cons show ?case by (simp add: newline_positions_Cons comp_def)
qed (simp add: newline_positions_Cons)

lemma newline_positions_empty_iff:
  "list_all one_line ls \<Longrightarrow> one_line t \<Longrightarrow> newline_positions (unlines ls @ t) = [] \<longleftrightarrow> ls = []"
  by (cases ls) (simp_all add: newline_positions_none newline_positions_line)

lemma slice_line: "slice (pre @ l @ rest) (length pre) (length pre + length l) = l"
  by (simp add: slice_def)

fun scan_lines ::
    "'v chain_lib \<Rightarrow> string list \<Rightarrow> 'v chain_scan \<Rightarrow> 'v chain_scan \<times> string list" where
  "scan_lines lib [] s = (s, [])"
| "scan_lines lib (l # ls) s =
     (case validate_line lib l (sat_add (cs_sequence s) 1) (cs_previous_hash s) of
        Inr r \<Rightarrow> scan_lines lib ls (scan_accept r (cs_valid_len s + length l) s)
      | Inl _ \<Rightarrow> (s, l # ls))"

definition scan_fault :: "'v chain_lib \<Rightarrow> 'v chain_scan \<Rightarrow> string \<Rightarrow> u64 \<times> string" where
  "scan_fault lib s l =
     (let sq = sat_add (cs_sequence s) 1 in
      (sq, case validate_line lib l sq (cs_previous_hash s) of Inl d \<Rightarrow> d | Inr _ \<Rightarrow> []))"

lemma positions_shift:
  "map ((+) n) (map ((+) m) xs) = map ((+) (n + m)) xs" for n m :: nat
  by (simp add: add.assoc)

lemma validate_loop_lines:
  "list_all one_line ls \<Longrightarrow> one_line t \<Longrightarrow> cs_valid_len s = length pre \<Longrightarrow>
   validate_loop lib (pre @ unlines ls @ t) tr
     (map ((+) (length pre)) (newline_positions (unlines ls @ t))) (length pre) s =
   (case scan_lines lib ls s of
      (s', []) \<Rightarrow> Inr s'
    | (s', l # rest) \<Rightarrow>
        (if rest \<noteq> [] \<or> tr then Inl (Integrity (Some (fst (scan_fault lib s' l))) (snd (scan_fault lib s' l)))
         else Inr s'))"
proof (induction ls arbitrary: pre s)
  case Nil
  then show ?case by (simp add: newline_positions_none)
next
  case (Cons l ls)
  let ?pre = "pre @ l @ [ch_nl]"
  let ?rest = "unlines ls @ t"
  have pos: "map ((+) (length pre)) (newline_positions (unlines (l # ls) @ t)) =
      (length pre + length l) # map ((+) (length ?pre)) (newline_positions ?rest)"
    using Cons.prems(1) by (simp add: newline_positions_line positions_shift del: map_map)
  have sl: "slice (pre @ l @ ch_nl # ?rest) (length pre) (length pre + length l) = l"
    by (rule slice_line)
  show ?case
  proof (cases "validate_line lib l (sat_add (cs_sequence s) 1) (cs_previous_hash s)")
    case (Inl d)
    have none: "newline_positions ?rest = [] \<longleftrightarrow> ls = []"
      using newline_positions_empty_iff [of ls t] Cons.prems by simp
    have upd: "s\<lparr>cs_valid_len := length pre\<rparr> = s"
      using Cons.prems(3) by (cases s) simp
    from Inl show ?thesis
      unfolding pos by (simp add: sl none Let_def scan_fault_def upd del: map_map)
  next
    case (Inr r)
    have v: "cs_valid_len (scan_accept r (length pre + length l) s) = length ?pre"
      by (simp add: scan_accept_def)
    have "validate_loop lib (?pre @ ?rest) tr (map ((+) (length ?pre)) (newline_positions ?rest))
        (length ?pre) (scan_accept r (length pre + length l) s) =
      (case scan_lines lib ls (scan_accept r (length pre + length l) s) of
         (s', []) \<Rightarrow> Inr s'
       | (s', l # rest) \<Rightarrow>
           (if rest \<noteq> [] \<or> tr then Inl (Integrity (Some (fst (scan_fault lib s' l))) (snd (scan_fault lib s' l)))
            else Inr s'))"
      using Cons.prems by (intro Cons.IH [OF _ _ v]) simp_all
    with Inr show ?thesis
      unfolding pos by (simp add: sl Let_def Cons.prems(3))
  qed
qed

lemma verify_loop_lines:
  "list_all one_line ls \<Longrightarrow> one_line t \<Longrightarrow> cs_valid_len s = length pre \<Longrightarrow>
   verify_loop lib (pre @ unlines ls @ t)
     (map ((+) (length pre)) (newline_positions (unlines ls @ t))) (length pre) s =
   (case scan_lines lib ls s of
      (s', []) \<Rightarrow> (s', None)
    | (s', l # rest) \<Rightarrow>
        (s', Some (integrity_text (fst (scan_fault lib s' l)) (snd (scan_fault lib s' l)))))"
proof (induction ls arbitrary: pre s)
  case Nil
  then show ?case by (simp add: newline_positions_none)
next
  case (Cons l ls)
  let ?pre = "pre @ l @ [ch_nl]"
  let ?rest = "unlines ls @ t"
  have pos: "map ((+) (length pre)) (newline_positions (unlines (l # ls) @ t)) =
      (length pre + length l) # map ((+) (length ?pre)) (newline_positions ?rest)"
    using Cons.prems(1) by (simp add: newline_positions_line positions_shift del: map_map)
  have sl: "slice (pre @ l @ ch_nl # ?rest) (length pre) (length pre + length l) = l"
    by (rule slice_line)
  show ?case
  proof (cases "validate_line lib l (sat_add (cs_sequence s) 1) (cs_previous_hash s)")
    case (Inl d)
    then show ?thesis
      unfolding pos by (simp add: sl Let_def scan_fault_def del: map_map)
  next
    case (Inr r)
    have v: "cs_valid_len (scan_accept r (length pre + length l) s) = length ?pre"
      by (simp add: scan_accept_def)
    have "verify_loop lib (?pre @ ?rest) (map ((+) (length ?pre)) (newline_positions ?rest))
        (length ?pre) (scan_accept r (length pre + length l) s) =
      (case scan_lines lib ls (scan_accept r (length pre + length l) s) of
         (s', []) \<Rightarrow> (s', None)
       | (s', l # rest) \<Rightarrow>
           (s', Some (integrity_text (fst (scan_fault lib s' l)) (snd (scan_fault lib s' l)))))"
      using Cons.prems by (intro Cons.IH [OF _ _ v]) simp_all
    with Inr show ?thesis
      unfolding pos by (simp add: sl Let_def Cons.prems(3))
  qed
qed

section \<open>Scans\<close>

lemma scan_append:
  "scan_lines lib a s = (s', []) \<Longrightarrow> scan_lines lib (a @ b) s = scan_lines lib b s'"
  by (induction a arbitrary: s) (auto split: sum.splits)

lemma scan_split:
  "scan_lines lib ls s = (s', rest) \<Longrightarrow>
   \<exists>acc. ls = acc @ rest \<and> scan_lines lib acc s = (s', [])
     \<and> cs_valid_len s' = cs_valid_len s + length (unlines acc)
     \<and> length (cs_records s') = length (cs_records s) + length acc"
proof (induction ls arbitrary: s)
  case (Cons l ls)
  show ?case
  proof (cases "validate_line lib l (sat_add (cs_sequence s) 1) (cs_previous_hash s)")
    case (Inl d)
    with Cons.prems show ?thesis by (intro exI [of _ "[]"]) auto
  next
    case (Inr r)
    with Cons.prems have "scan_lines lib ls (scan_accept r (cs_valid_len s + length l) s) = (s', rest)"
      by simp
    from Cons.IH [OF this] obtain acc where acc: "ls = acc @ rest"
      "scan_lines lib acc (scan_accept r (cs_valid_len s + length l) s) = (s', [])"
      "cs_valid_len s' = cs_valid_len (scan_accept r (cs_valid_len s + length l) s) + length (unlines acc)"
      "length (cs_records s') =
         length (cs_records (scan_accept r (cs_valid_len s + length l) s)) + length acc" by blast
    with Inr show ?thesis by (intro exI [of _ "l # acc"]) (auto simp: scan_accept_def)
  qed
qed auto

lemma last_newline:
  "list_all one_line ls \<Longrightarrow> one_line t \<Longrightarrow> ls \<noteq> [] \<Longrightarrow>
   Suc (last (newline_positions (unlines ls @ t))) = length (unlines ls)"
proof (induction ls)
  case (Cons l ls)
  have pos: "newline_positions (unlines (l # ls) @ t) =
      length l # map ((+) (Suc (length l))) (newline_positions (unlines ls @ t))"
    using Cons.prems(1) by (simp add: newline_positions_line)
  show ?case
  proof (cases "ls = []")
    case True
    with pos Cons.prems show ?thesis by (simp add: newline_positions_none)
  next
    case False
    then have "newline_positions (unlines ls @ t) \<noteq> []"
      using newline_positions_empty_iff [of ls t] Cons.prems by simp
    with pos Cons False show ?thesis by (simp add: last_map)
  qed
qed simp

lemma trailing_bytes_iff:
  "list_all one_line ls \<Longrightarrow> one_line t \<Longrightarrow> trailing_bytes (unlines ls @ t) \<longleftrightarrow> t \<noteq> []"
proof (cases "ls = []")
  case True
  assume "one_line t"
  with True show ?thesis by (simp add: trailing_bytes_def newline_positions_none)
next
  case False
  assume l: "list_all one_line ls" "one_line t"
  have "newline_positions (unlines ls @ t) \<noteq> []"
    using False newline_positions_empty_iff [OF l] by blast
  moreover have "Suc (last (newline_positions (unlines ls @ t))) = length (unlines ls)"
    by (rule last_newline [OF l False])
  then have "last (newline_positions (unlines ls @ t)) + 1 < length (unlines ls @ t) \<longleftrightarrow> t \<noteq> []"
    by (cases t) (simp_all del: length_concat)
  ultimately show ?thesis
    by (simp only: trailing_bytes_def Let_def if_False)
qed

lemma plus_zero_id [simp]: "map ((+) (0::nat)) xs = xs"
  by (simp add: map_idI)

lemma scan_start_len [simp]: "cs_valid_len scan_start = 0"
  by (simp add: scan_start_def)

lemma validate_existing_lines:
  assumes "list_all one_line ls" and "one_line t"
  shows "validate_existing lib (unlines ls @ t) =
    (case scan_lines lib ls scan_start of
       (s, []) \<Rightarrow> Inr s
     | (s, l # rest) \<Rightarrow>
         (if rest \<noteq> [] \<or> t \<noteq> []
          then Inl (Integrity (Some (fst (scan_fault lib s l))) (snd (scan_fault lib s l)))
          else Inr s))"
  using validate_loop_lines [OF assms, of scan_start "[]" lib "trailing_bytes (unlines ls @ t)"]
  by (simp add: validate_existing_def trailing_bytes_iff [OF assms] split: prod.splits list.splits)

lemma verify_existing_lines:
  assumes "list_all one_line ls" and "one_line t"
  shows "verify_existing lib (unlines ls @ t) =
    (case scan_lines lib ls scan_start of
       (s, []) \<Rightarrow> (s, None)
     | (s, l # rest) \<Rightarrow>
         (s, Some (integrity_text (fst (scan_fault lib s l)) (snd (scan_fault lib s l)))))"
  using verify_loop_lines [OF assms, of scan_start "[]" lib]
  by (simp add: verify_existing_def)

text \<open>A timeline passes when every line is accepted and nothing follows the last one.\<close>

lemma verify_passed_lines:
  assumes "list_all one_line ls" and "one_line t"
  shows "vr_passed (chain_verify lib (unlines ls @ t)) \<longleftrightarrow>
    t = [] \<and> (\<exists>s. scan_lines lib ls scan_start = (s, []))"
proof -
  obtain s rest where sc: "scan_lines lib ls scan_start = (s, rest)"
    by (cases "scan_lines lib ls scan_start")
  from scan_split [OF sc] obtain acc where acc: "ls = acc @ rest"
    "cs_valid_len s = length (unlines acc)" by (auto simp: scan_start_def)
  show ?thesis
  proof (cases rest)
    case Nil
    have v: "verify_existing lib (unlines ls @ t) = (s, None)"
      using verify_existing_lines [OF assms, of lib] sc Nil by simp
    have "cs_valid_len s = length (unlines ls)" using acc Nil by simp
    then show ?thesis
      using sc Nil by (simp add: chain_verify_def v Let_def del: length_concat)
  next
    case (Cons l r)
    with sc have "verify_existing lib (unlines ls @ t) =
        (s, Some (integrity_text (fst (scan_fault lib s l)) (snd (scan_fault lib s l))))"
      by (simp add: verify_existing_lines [OF assms])
    with sc Cons show ?thesis by (simp add: chain_verify_def Let_def)
  qed
qed

lemma verify_report_lines:
  assumes "list_all one_line ls" and "scan_lines lib ls scan_start = (s, [])"
  shows "chain_verify lib (unlines ls) =
    \<lparr>vr_passed = True, vr_record_count = length (cs_records s), vr_last_sequence = cs_sequence s,
     vr_last_record_hash = cs_previous_hash s, vr_valid_bytes = length (unlines ls),
     vr_total_bytes = length (unlines ls), vr_failure = None\<rparr>"
proof -
  have v: "verify_existing lib (unlines ls) = (s, None)"
    using verify_existing_lines [OF assms(1), of "[]" lib] assms(2) by simp
  have len: "cs_valid_len s = length (unlines ls)"
    using scan_split [OF assms(2)] by (auto simp: scan_start_def)
  show ?thesis by (simp add: chain_verify_def v len Let_def)
qed

text \<open>What recovery finds: a valid prefix of complete lines, and the rest set aside.\<close>

definition recovered :: "'v chain_scan \<Rightarrow> nat \<Rightarrow> string list \<Rightarrow> string \<Rightarrow> 'v recovery" where
  "recovered s room ls rest =
     \<lparr>rc_store = \<lparr>hs_writer = bw_new (unlines ls) room, hs_sequence = cs_sequence s,
                  hs_previous_hash = cs_previous_hash s\<rparr>,
      rc_next_sequence = sat_add (cs_sequence s) 1, rc_previous_hash = cs_previous_hash s,
      rc_quarantined = (if rest = [] then None else Some rest), rc_records = cs_records s\<rparr>"

abbreviation file_bytes :: "string option \<Rightarrow> string" where
  "file_bytes file \<equiv> (case file of Some b \<Rightarrow> b | None \<Rightarrow> [])"

lemma recover_ok:
  assumes "create_or_recover lib room file = Inr rc"
  obtains ls rest s where "file_bytes file = unlines ls @ rest" "list_all one_line ls"
    "scan_lines lib ls scan_start = (s, [])" "rc = recovered s room ls rest"
proof -
  obtain ls t where d: "file_bytes file = unlines ls @ t" "list_all one_line ls" "one_line t"
    by (rule lines_decompose)
  obtain s rest where sc: "scan_lines lib ls scan_start = (s, rest)"
    by (cases "scan_lines lib ls scan_start")
  from scan_split [OF sc] obtain acc where acc: "ls = acc @ rest"
    "scan_lines lib acc scan_start = (s, [])" "cs_valid_len s = length (unlines acc)"
    by (auto simp: scan_start_def)
  have v: "validate_existing lib (file_bytes file) = Inr s"
    using assms validate_existing_lines [OF d(2,3), of lib] d(1) sc
    by (auto simp: create_or_recover_def split: list.splits sum.splits if_splits)
  have bytes: "file_bytes file = unlines acc @ (unlines rest @ t)"
    using d(1) acc(1) by simp
  have cut: "take (cs_valid_len s) (file_bytes file) = unlines acc"
    "drop (cs_valid_len s) (file_bytes file) = unlines rest @ t"
    "cs_valid_len s < length (file_bytes file) \<longleftrightarrow> unlines rest @ t \<noteq> []"
    unfolding bytes acc(3) by (simp_all del: length_concat)
  have "rc = recovered s room acc (unlines rest @ t)"
    using assms v unfolding create_or_recover_def Let_def recovered_def
    by (auto simp only: cut sum.case sum.inject split: if_splits)
  moreover have "list_all one_line acc" using d(2) acc(1) by simp
  ultimately show ?thesis using that bytes acc(2) by blast
qed

lemma recover_valid:
  assumes "list_all one_line ls" and "one_line t" and "scan_lines lib ls scan_start = (s, [])"
  shows "create_or_recover lib room (Some (unlines ls @ t)) = Inr (recovered s room ls t)"
proof -
  have "cs_valid_len s = length (unlines ls)"
    using scan_split [OF assms(3)] by (auto simp: scan_start_def)
  then show ?thesis
    using validate_existing_lines [OF assms(1,2), of lib] assms(3)
    unfolding create_or_recover_def Let_def by (simp add: recovered_def del: length_concat)
qed

section \<open>Appending\<close>

text \<open>
  What is assumed of the JSON library where a round trip is claimed: a record whose payload
  has an exact text form (\<open>ok\<close>; without \<open>serde_json\<close>'s \<open>float_roundtrip\<close> feature that leaves
  out floating-point numbers) prints as one line that reads back as the same record.
\<close>

definition serde_exact :: "('v \<Rightarrow> bool) \<Rightarrow> 'v chain_lib \<Rightarrow> bool" where
  "serde_exact ok lib \<longleftrightarrow>
     (\<forall>r line. ok (cr_payload r) \<longrightarrow> cl_print_record lib r = Inr line \<longrightarrow>
        one_line line \<and> cl_parse_record lib line = Inr r)"

definition exact_text :: "('v \<Rightarrow> bool) \<Rightarrow> 'v chain_lib \<Rightarrow> string \<Rightarrow> bool" where
  "exact_text ok lib raw \<longleftrightarrow>
     (case cl_parse_value lib raw of Inl _ \<Rightarrow> True | Inr v \<Rightarrow> ok v)"

text \<open>Appending in turn, stopped at the first failure, as the daemon pauses a session then.\<close>

fun append_run ::
    "'v chain_lib \<Rightarrow> u32 \<Rightarrow> string list \<Rightarrow> hash_chain_store \<Rightarrow> 'v chain_record list \<times> hash_chain_store" where
  "append_run lib version [] s = ([], s)"
| "append_run lib version (raw # raws) s =
     (case append_json lib version raw s of
        (Inl e, s') \<Rightarrow> ([], s')
      | (Inr r, s') \<Rightarrow> (let (rs, s'') = append_run lib version raws s' in (r # rs, s'')))"

text \<open>The lines a store has accepted, and the scan they give.\<close>

definition store_holds :: "'v chain_lib \<Rightarrow> string list \<Rightarrow> 'v chain_scan \<Rightarrow> hash_chain_store \<Rightarrow> bool" where
  "store_holds lib ls sc s \<longleftrightarrow>
     bw_stream (hs_writer s) = unlines ls \<and> list_all one_line ls
     \<and> scan_lines lib ls scan_start = (sc, []) \<and> cs_sequence sc = hs_sequence s
     \<and> cs_previous_hash sc = hs_previous_hash s"

lemma recovered_holds:
  assumes "list_all one_line ls" and "scan_lines lib ls scan_start = (sc, [])"
  shows "store_holds lib ls sc (rc_store (recovered sc room ls rest))"
  using assms by (simp add: store_holds_def recovered_def bw_new_def bw_stream_def)

lemma append_cases:
  obtains (rejected) e where "append_json lib version raw s = (Inl e, s)"
  | (written) payload canonical r line where
      "cl_parse_value lib raw = Inr payload" "cl_print_value lib payload = Inr canonical"
      "cr_schema_version r = version" "cr_sequence r = sat_add (hs_sequence s) 1"
      "cr_previous_hash r = hs_previous_hash s" "cr_payload r = payload"
      "cr_record_hash r =
         calculate_hash lib version (sat_add (hs_sequence s) 1) (hs_previous_hash s) canonical"
      "cl_print_record lib r = Inr line"
      "append_json lib version raw s =
         (case bw.write_list [line, [ch_nl]] (hs_writer s) of
            (Inl e, w) \<Rightarrow> (Inl (StoreIo e), s\<lparr>hs_writer := w\<rparr>)
          | (Inr _, w) \<Rightarrow>
              (Inr r, s\<lparr>hs_writer := w, hs_sequence := cr_sequence r,
                        hs_previous_hash := cr_record_hash r\<rparr>))"
proof (cases "cl_parse_value lib raw")
  case (Inl e)
  then show ?thesis by (intro rejected) (simp add: append_json_def)
next
  case parsed: (Inr payload)
  show ?thesis
  proof (cases "cl_print_value lib payload")
    case (Inl e)
    with parsed show ?thesis by (intro rejected) (simp add: append_json_def)
  next
    case printed: (Inr canonical)
    let ?sq = "sat_add (hs_sequence s) 1"
    define r where "r = \<lparr>cr_schema_version = version, cr_sequence = ?sq,
        cr_previous_hash = hs_previous_hash s,
        cr_record_hash = calculate_hash lib version ?sq (hs_previous_hash s) canonical,
        cr_payload = payload\<rparr>"
    show ?thesis
    proof (cases "cl_print_record lib r")
      case (Inl e)
      with parsed printed show ?thesis
        by (intro rejected) (simp add: append_json_def Let_def r_def)
    next
      case (Inr line)
      show ?thesis
      proof (rule written [of payload canonical r line])
        show "append_json lib version raw s =
          (case bw.write_list [line, [ch_nl]] (hs_writer s) of
            (Inl e, w) \<Rightarrow> (Inl (StoreIo e), s\<lparr>hs_writer := w\<rparr>)
          | (Inr _, w) \<Rightarrow>
              (Inr r, s\<lparr>hs_writer := w, hs_sequence := cr_sequence r,
                        hs_previous_hash := cr_record_hash r\<rparr>))"
          using parsed printed Inr
          by (simp add: append_json_def Let_def r_def split: prod.splits sum.splits)
      qed (use parsed printed Inr in \<open>simp_all add: r_def\<close>)
    qed
  qed
qed

text \<open>A record that was appended is a line the scan accepts after the ones before it.\<close>

lemma append_ok_holds:
  assumes lib: "serde_exact ok lib" and raw: "exact_text ok lib raw"
    and holds: "store_holds lib ls sc s" and res: "append_json lib version raw s = (Inr r, s')"
  shows "\<exists>line sc'. store_holds lib (ls @ [line]) sc' s' \<and> cs_records sc' = cs_records sc @ [r]"
proof (cases rule: append_cases [of lib version raw s])
  case (written payload canonical r' line)
  obtain u w where wl: "bw.write_list [line, [ch_nl]] (hs_writer s) = (Inr u, w)"
    using res written(9) by (auto split: prod.splits sum.splits)
  with res written(9) have r: "r' = r"
    and s': "s' = s\<lparr>hs_writer := w, hs_sequence := cr_sequence r, hs_previous_hash := cr_record_hash r\<rparr>"
    by auto
  have "ok payload" using raw written(1) by (simp add: exact_text_def)
  with lib written(6,8) have line: "one_line line" "cl_parse_record lib line = Inr r"
    by (auto simp: serde_exact_def r)
  have "validate_line lib line (sat_add (cs_sequence sc) 1) (cs_previous_hash sc) = Inr r"
    using holds written(2-8) line(2) by (simp add: validate_line_def store_holds_def r)
  moreover define sc' where "sc' = scan_accept r (cs_valid_len sc + length line) sc"
  ultimately have "scan_lines lib (ls @ [line]) scan_start = (sc', [])"
    using holds by (simp add: store_holds_def scan_append)
  moreover have "bw_stream w = bw_stream (hs_writer s) @ line @ [ch_nl]"
    using bw.write_list_ok [of "[line, [ch_nl]]" "hs_writer s"] wl by simp
  ultimately have "store_holds lib (ls @ [line]) sc' s'"
    using holds line(1) by (simp add: store_holds_def s' sc'_def scan_accept_def)
  then show ?thesis by (intro exI [of _ line] exI [of _ sc']) (simp add: sc'_def scan_accept_def)
qed (use res in simp)

text \<open>A failed append adds at most a part of its line to the stream.\<close>

lemma append_fail_stream:
  assumes lib: "serde_exact ok lib" and raw: "exact_text ok lib raw"
    and holds: "store_holds lib ls sc s" and res: "append_json lib version raw s = (Inl e, s')"
  shows "\<exists>t. bw_stream (hs_writer s') = unlines ls @ t \<and> one_line t"
proof (cases rule: append_cases [of lib version raw s])
  case (rejected e')
  with res holds show ?thesis by (intro exI [of _ "[]"]) (simp add: store_holds_def)
next
  case (written payload canonical r line)
  obtain e' where w: "bw.write_list [line, [ch_nl]] (hs_writer s) = (Inl e', hs_writer s')"
    using res written(9) by (auto split: prod.splits sum.splits)
  have "one_line line"
    using raw written(1,6,8) lib by (auto simp: serde_exact_def exact_text_def)
  moreover obtain t where t: "strict_prefix t (line @ [ch_nl])"
    "bw_stream (hs_writer s') = bw_stream (hs_writer s) @ t"
    using bw.write_list_fail [of "[line, [ch_nl]]" "hs_writer s"] w by auto
  from t(1) have "prefix t line"
    by (auto simp: strict_prefix_def prefix_snoc)
  ultimately have "one_line t" using set_mono_prefix by blast
  with t(2) holds show ?thesis by (auto simp: store_holds_def)
qed

text \<open>
  After a run the stream is the accepted lines and, when the last append failed, a part of
  its line.
\<close>

lemma append_run_stream:
  assumes lib: "serde_exact ok lib"
  shows "list_all (exact_text ok lib) raws \<Longrightarrow> store_holds lib ls sc s \<Longrightarrow>
    \<exists>ls' sc' t. bw_stream (hs_writer (snd (append_run lib version raws s))) = unlines (ls @ ls') @ t
      \<and> list_all one_line (ls @ ls') \<and> scan_lines lib (ls @ ls') scan_start = (sc', [])
      \<and> cs_records sc' = cs_records sc @ fst (append_run lib version raws s)
      \<and> one_line t
      \<and> (length (fst (append_run lib version raws s)) = length raws \<longrightarrow>
           t = [] \<and> store_holds lib (ls @ ls') sc' (snd (append_run lib version raws s)))"
proof (induction raws arbitrary: ls sc s)
  case Nil
  then show ?case
    by (intro exI [of _ "[]"] exI [of _ sc]) (simp add: store_holds_def)
next
  case (Cons raw raws)
  obtain res s1 where a: "append_json lib version raw s = (res, s1)"
    by (cases "append_json lib version raw s")
  show ?case
  proof (cases res)
    case (Inr r)
    from append_ok_holds [OF lib _ Cons.prems(2), of raw version r s1] Cons.prems(1) a Inr
    obtain line sc1 where h: "store_holds lib (ls @ [line]) sc1 s1" "cs_records sc1 = cs_records sc @ [r]"
      by auto
    from Cons.IH [OF _ h(1)] Cons.prems(1) obtain ls' sc' t where ih:
      "bw_stream (hs_writer (snd (append_run lib version raws s1))) = unlines ((ls @ [line]) @ ls') @ t"
      "list_all one_line ((ls @ [line]) @ ls')" "scan_lines lib ((ls @ [line]) @ ls') scan_start = (sc', [])"
      "cs_records sc' = cs_records sc1 @ fst (append_run lib version raws s1)"
      "one_line t"
      "length (fst (append_run lib version raws s1)) = length raws \<longrightarrow>
         t = [] \<and> store_holds lib ((ls @ [line]) @ ls') sc' (snd (append_run lib version raws s1))"
      by auto
    show ?thesis
      using ih h(2) a Inr
      by (intro exI [of _ "line # ls'"] exI [of _ sc'] exI [of _ t])
        (simp add: case_prod_beta)
  next
    case (Inl e)
    obtain t where "bw_stream (hs_writer s1) = unlines ls @ t" "one_line t"
      using append_fail_stream [OF lib _ Cons.prems(2), of raw version e s1] Cons.prems(1) a Inl by auto
    with a Inl Cons.prems(2) show ?thesis
      by (intro exI [of _ "[]"] exI [of _ sc] exI [of _ t]) (simp add: store_holds_def)
  qed
qed

text \<open>Appends and flushes in turn. A flush that fails keeps what it could not write in the buffer.\<close>

datatype store_op = StoreAppend string | StoreFlush

fun store_run ::
    "'v chain_lib \<Rightarrow> u32 \<Rightarrow> store_op list \<Rightarrow> hash_chain_store \<Rightarrow> 'v chain_record list \<times> hash_chain_store" where
  "store_run lib version [] s = ([], s)"
| "store_run lib version (StoreAppend raw # ops) s =
     (case append_json lib version raw s of
        (Inl e, s') \<Rightarrow> ([], s')
      | (Inr r, s') \<Rightarrow> (let (rs, s'') = store_run lib version ops s' in (r # rs, s'')))"
| "store_run lib version (StoreFlush # ops) s = store_run lib version ops (snd (chain_flush s))"

fun op_exact :: "('v \<Rightarrow> bool) \<Rightarrow> 'v chain_lib \<Rightarrow> store_op \<Rightarrow> bool" where
  "op_exact ok lib (StoreAppend raw) = exact_text ok lib raw"
| "op_exact ok lib StoreFlush = True"

lemma chain_flush_holds: "store_holds lib ls sc s \<Longrightarrow> store_holds lib ls sc (snd (chain_flush s))"
  by (auto simp: store_holds_def chain_flush_def bw_flush_parts split: prod.splits sum.splits)
    (metis bw_flush_parts(1) snd_conv)+

lemma store_run_stream:
  assumes lib: "serde_exact ok lib"
  shows "list_all (op_exact ok lib) ops \<Longrightarrow> store_holds lib ls sc s \<Longrightarrow>
    \<exists>ls' sc' t. bw_stream (hs_writer (snd (store_run lib version ops s))) = unlines (ls @ ls') @ t
      \<and> list_all one_line (ls @ ls') \<and> scan_lines lib (ls @ ls') scan_start = (sc', [])
      \<and> cs_records sc' = cs_records sc @ fst (store_run lib version ops s)
      \<and> one_line t"
proof (induction ops arbitrary: ls sc s)
  case Nil
  then show ?case
    by (intro exI [of _ "[]"] exI [of _ sc]) (simp add: store_holds_def)
next
  case (Cons op ops)
  show ?case
  proof (cases op)
    case StoreFlush
    with Cons.IH [OF _ chain_flush_holds [OF Cons.prems(2)]] Cons.prems(1) show ?thesis by simp
  next
    case (StoreAppend raw)
    obtain res s1 where a: "append_json lib version raw s = (res, s1)"
      by (cases "append_json lib version raw s")
    have raw: "exact_text ok lib raw" using Cons.prems(1) StoreAppend by simp
    show ?thesis
    proof (cases res)
      case (Inr r)
      from append_ok_holds [OF lib raw Cons.prems(2), of version r s1] a Inr
      obtain line sc1 where h: "store_holds lib (ls @ [line]) sc1 s1" "cs_records sc1 = cs_records sc @ [r]"
        by auto
      from Cons.IH [OF _ h(1)] Cons.prems(1) obtain ls' sc' t where
        "bw_stream (hs_writer (snd (store_run lib version ops s1))) = unlines ((ls @ [line]) @ ls') @ t"
        "list_all one_line ((ls @ [line]) @ ls')" "scan_lines lib ((ls @ [line]) @ ls') scan_start = (sc', [])"
        "cs_records sc' = cs_records sc1 @ fst (store_run lib version ops s1)" "one_line t"
        by auto
      then show ?thesis
        using h(2) a Inr StoreAppend
        by (intro exI [of _ "line # ls'"] exI [of _ sc'] exI [of _ t]) (simp add: case_prod_beta)
    next
      case (Inl e)
      obtain t where "bw_stream (hs_writer s1) = unlines ls @ t" "one_line t"
        using append_fail_stream [OF lib raw Cons.prems(2), of version e s1] a Inl by auto
      with a Inl Cons.prems(2) StoreAppend show ?thesis
        by (intro exI [of _ "[]"] exI [of _ sc] exI [of _ t]) (simp add: store_holds_def)
    qed
  qed
qed

section \<open>Torn files\<close>

lemma take_unlines:
  "list_all one_line ls \<Longrightarrow> one_line t \<Longrightarrow>
   \<exists>ls' t'. take n (unlines ls @ t) = unlines ls' @ t' \<and> prefix ls' ls \<and> one_line t'"
proof (induction ls arbitrary: n)
  case Nil
  then show ?case by (intro exI [of _ "[]"] exI [of _ "take n t"]) (auto dest: in_set_takeD)
next
  case (Cons l ls)
  show ?case
  proof (cases "n \<le> length l")
    case True
    then show ?thesis
      using Cons.prems by (intro exI [of _ "[]"] exI [of _ "take n l"]) (auto dest: in_set_takeD)
  next
    case False
    define m where "m = n - Suc (length l)"
    with False have n: "n = Suc (length l + m)" by simp
    have "list_all one_line ls" using Cons.prems(1) by simp
    from Cons.IH [OF this Cons.prems(2), of m] obtain ls' t' where
      "take m (unlines ls @ t) = unlines ls' @ t'" "prefix ls' ls" "one_line t'" by blast
    then show ?thesis by (intro exI [of _ "l # ls'"] exI [of _ t']) (simp add: n)
  qed
qed

lemma scan_records_grow: "scan_lines lib ls s = (s', rest) \<Longrightarrow> prefix (cs_records s) (cs_records s')"
proof (induction ls arbitrary: s)
  case (Cons l ls)
  show ?case
  proof (cases "validate_line lib l (sat_add (cs_sequence s) 1) (cs_previous_hash s)")
    case (Inr r)
    with Cons.prems have "prefix (cs_records (scan_accept r (cs_valid_len s + length l) s)) (cs_records s')"
      by (intro Cons.IH) simp
    then show ?thesis by (auto simp: scan_accept_def prefix_def)
  qed (use Cons.prems in simp)
qed simp

lemma scan_prefix:
  "scan_lines lib (a @ b) s = (s', []) \<Longrightarrow>
   \<exists>s1. scan_lines lib a s = (s1, []) \<and> prefix (cs_records s1) (cs_records s')"
proof (induction a arbitrary: s)
  case Nil
  then show ?case using scan_records_grow by auto
next
  case (Cons l a)
  then show ?case by (auto split: sum.splits)
qed

text \<open>A line that is accepted is a record.\<close>

lemma scan_count:
  "scan_lines lib ls s = (s', []) \<Longrightarrow> length (cs_records s') = length (cs_records s) + length ls"
proof (induction ls arbitrary: s)
  case (Cons l ls)
  show ?case
  proof (cases "validate_line lib l (sat_add (cs_sequence s) 1) (cs_previous_hash s)")
    case (Inr r)
    with Cons.prems have "length (cs_records s')
        = length (cs_records (scan_accept r (cs_valid_len s + length l) s)) + length ls"
      by (intro Cons.IH) simp
    then show ?thesis by (simp add: scan_accept_def)
  qed (use Cons.prems in simp)
qed simp

text \<open>The number of lines of a file that are there to their end.\<close>

definition complete_lines :: "string \<Rightarrow> nat" where
  "complete_lines bytes = length (filter (\<lambda>c. c = ch_nl) bytes)"

lemma complete_lines_unlines:
  "list_all one_line ls \<Longrightarrow> one_line t \<Longrightarrow> complete_lines (unlines ls @ t) = length ls"
proof (induction ls)
  case Nil
  then show ?case by (auto simp: complete_lines_def filter_empty_conv)
next
  case (Cons l ls)
  then have "filter (\<lambda>c. c = ch_nl) l = []" by (auto simp: filter_empty_conv)
  with Cons show ?case by (simp add: complete_lines_def)
qed

text \<open>
  Any beginning of a file of valid lines recovers to the records whose lines it has to the end.
\<close>

lemma recover_torn:
  assumes "list_all one_line ls" and "one_line t" and "scan_lines lib ls scan_start = (sc, [])"
    and left: "prefix left (unlines ls @ t)"
  shows "\<exists>rc. create_or_recover lib room (Some left) = Inr rc
    \<and> rc_records rc = take (complete_lines left) (cs_records sc)
    \<and> vr_passed (chain_verify lib (bw_disk (hs_writer (rc_store rc))))"
proof -
  have "left = take (length left) (unlines ls @ t)" using left by (metis append_eq_conv_conj prefixE)
  then obtain ls' t' where d: "left = unlines ls' @ t'" "prefix ls' ls" "one_line t'"
    using take_unlines [OF assms(1,2), of "length left"] by metis
  from d(2) obtain b where b: "ls = ls' @ b" by (auto simp: prefix_def)
  with assms(3) obtain s1 where s1: "scan_lines lib ls' scan_start = (s1, [])"
    "prefix (cs_records s1) (cs_records sc)" using scan_prefix by blast
  have one: "list_all one_line ls'" using assms(1) b by simp
  have "length (cs_records s1) = complete_lines left"
    using scan_count [OF s1(1)] complete_lines_unlines [OF one d(3)] by (simp add: d(1) scan_start_def)
  with s1(2) have recs: "cs_records s1 = take (complete_lines left) (cs_records sc)"
    by (auto simp: prefix_def)
  have "vr_passed (chain_verify lib (unlines ls'))"
    using verify_passed_lines [OF one, of "[]" lib] s1(1) by simp
  with recover_valid [OF one d(3) s1(1), of room] recs d(1) show ?thesis
    by (auto simp: recovered_def bw_new_def)
qed

section \<open>What equal hashes say\<close>

lemma unat_be_sum: "x mod 256 ^ n = (\<Sum>i<n. ((x div 256 ^ i) mod 256) * 256 ^ i)" for x :: nat
proof (induction n)
  case (Suc n)
  have "x mod 256 ^ Suc n = 256 ^ n * (x div 256 ^ n mod 256) + x mod 256 ^ n"
    by (metis mod_mult2_eq power_Suc2)
  with Suc show ?case by simp
qed simp

lemma length_be_bytes [simp]: "length (be_bytes n w) = n"
  by (simp add: be_bytes_def)

lemma be_bytes_inj:
  fixes v w :: "'a::len word"
  assumes "be_bytes n v = be_bytes n w" and "LENGTH('a) = 8 * n"
  shows "v = w"
proof -
  have eq: "(unat v div 256 ^ i) mod 256 = (unat w div 256 ^ i) mod 256" if "i < n" for i
  proof -
    have "map (\<lambda>i. char_of ((unat v div 256 ^ i) mod 256) :: char) [0..<n] =
        map (\<lambda>i. char_of ((unat w div 256 ^ i) mod 256)) [0..<n]"
      using assms(1) by (simp add: be_bytes_def)
    with that have "(char_of ((unat v div 256 ^ i) mod 256) :: char) =
        char_of ((unat w div 256 ^ i) mod 256)" by simp
    then have "(of_char (char_of ((unat v div 256 ^ i) mod 256)) :: nat) =
        of_char (char_of ((unat w div 256 ^ i) mod 256))" by simp
    then show ?thesis by simp
  qed
  have "unat v mod 256 ^ n = unat w mod 256 ^ n"
    unfolding unat_be_sum using eq by (intro sum.cong) simp_all
  moreover have "(256::nat) ^ n = 2 ^ LENGTH('a)"
    by (simp add: assms(2) power_mult)
  then have "unat v < 256 ^ n" "unat w < 256 ^ n"
    using unsigned_less [of v] unsigned_less [of w] by simp_all
  ultimately have "unat v = unat w" by simp
  then show ?thesis by (rule unsigned_word_eqI)
qed

lemma encode_hex_inj: "encode_hex a = encode_hex b \<Longrightarrow> a = b"
proof (induction a arbitrary: b)
  case Nil
  then show ?case by (cases b) (simp_all add: encode_hex_def)
next
  case (Cons c a)
  then obtain d b' where b: "b = d # b'" by (cases b) (simp_all add: encode_hex_def)
  have lt: "byte_val x < 256" for x by (simp add: byte_val_def)
  have "hex_digit (byte_val c div 16) = hex_digit (byte_val d div 16)"
    "hex_digit (byte_val c mod 16) = hex_digit (byte_val d mod 16)" "encode_hex a = encode_hex b'"
    using Cons.prems b by (simp_all add: encode_hex_def)
  moreover from this(1,2) have "byte_val c div 16 = byte_val d div 16" "byte_val c mod 16 = byte_val d mod 16"
    using lt [of c] lt [of d] by (auto intro!: hex_digit_inj)
  then have "byte_val c = byte_val d" by (metis div_mult_mod_eq)
  then have "c = d" by (simp add: byte_val_def)
  ultimately show ?case using Cons.IH b by simp
qed

lemma length_encode_hex: "length (encode_hex s) = 2 * length s"
  by (induction s) (simp_all add: encode_hex_def)

lemma length_zero_hash [simp]: "length zero_hash = 64"
  by (simp add: zero_hash_def)

text \<open>The bytes the hash of a record is taken of, and a collision between two timelines.\<close>

definition record_input :: "'v chain_lib \<Rightarrow> 'v chain_record \<Rightarrow> string" where
  "record_input lib r =
     (case cl_print_value lib (cr_payload r) of
        Inr p \<Rightarrow> hash_input (cr_schema_version r) (cr_sequence r) (cr_previous_hash r) p
      | Inl _ \<Rightarrow> [])"

definition colliding :: "'v chain_lib \<Rightarrow> 'v chain_record list \<Rightarrow> 'v chain_record list \<Rightarrow> bool" where
  "colliding lib rs qs \<longleftrightarrow>
     list_ex (\<lambda>r. list_ex (\<lambda>q. record_input lib r \<noteq> record_input lib q
       \<and> cl_sha256 lib (record_input lib r) = cl_sha256 lib (record_input lib q)) qs) rs"

lemma colliding_Cons:
  "colliding lib rs qs \<Longrightarrow> colliding lib (r # rs) (q # qs)"
  by (auto simp: colliding_def list_ex_iff)

lemma colliding_rev: "colliding lib (rev rs) (rev qs) = colliding lib rs qs"
  by (simp add: colliding_def list_ex_iff)

text \<open>What a record says: everything the hash covers, and the hash.\<close>

definition record_content ::
    "'v chain_lib \<Rightarrow> 'v chain_record \<Rightarrow> u32 \<times> u64 \<times> string \<times> string \<times> (string, string) res" where
  "record_content lib r =
     (cr_schema_version r, cr_sequence r, cr_previous_hash r, cr_record_hash r,
      cl_print_value lib (cr_payload r))"

text \<open>A list of records linked by their hashes, from the zero hash to a last one.\<close>

fun linked :: "'v chain_lib \<Rightarrow> string \<Rightarrow> 'v chain_record list \<Rightarrow> bool" where
  "linked lib h [] \<longleftrightarrow> h = zero_hash"
| "linked lib h (r # rs) \<longleftrightarrow>
     (\<exists>p. cl_print_value lib (cr_payload r) = Inr p \<and> h = cr_record_hash r
        \<and> h = calculate_hash lib (cr_schema_version r) (cr_sequence r) (cr_previous_hash r) p)
     \<and> linked lib (cr_previous_hash r) rs"

lemma validate_line_ok:
  "validate_line lib l sq prev = Inr r \<Longrightarrow>
   cr_previous_hash r = prev \<and>
   (\<exists>p. cl_print_value lib (cr_payload r) = Inr p
      \<and> cr_record_hash r = calculate_hash lib (cr_schema_version r) (cr_sequence r) (cr_previous_hash r) p)"
  by (auto simp: validate_line_def split: sum.splits if_splits)

lemma scan_linked:
  "scan_lines lib ls s = (s', rest) \<Longrightarrow> linked lib (cs_previous_hash s) (rev (cs_records s)) \<Longrightarrow>
   linked lib (cs_previous_hash s') (rev (cs_records s'))"
proof (induction ls arbitrary: s)
  case (Cons l ls)
  show ?case
  proof (cases "validate_line lib l (sat_add (cs_sequence s) 1) (cs_previous_hash s)")
    case (Inr r)
    have "linked lib (cs_previous_hash (scan_accept r (cs_valid_len s + length l) s))
        (rev (cs_records (scan_accept r (cs_valid_len s + length l) s)))"
      using validate_line_ok [OF Inr] Cons.prems(2) by (auto simp: scan_accept_def)
    moreover have "scan_lines lib ls (scan_accept r (cs_valid_len s + length l) s) = (s', rest)"
      using Cons.prems(1) Inr by simp
    ultimately show ?thesis using Cons.IH by blast
  qed (use Cons.prems in simp)
qed simp

lemma linked_length:
  "(\<And>m. length (cl_sha256 lib m) = 32) \<Longrightarrow> linked lib h rs \<Longrightarrow> length h = 64"
  by (cases rs) (auto simp: calculate_hash_def length_encode_hex)

lemma linked_determined:
  assumes len: "\<And>m. length (cl_sha256 lib m) = 32"
  shows "linked lib h rs \<Longrightarrow> linked lib h qs \<Longrightarrow> length rs = length qs \<Longrightarrow>
    map (record_content lib) rs = map (record_content lib) qs \<or> colliding lib rs qs"
proof (induction rs arbitrary: h qs)
  case (Cons r rs)
  then obtain q qs' where qs: "qs = q # qs'" by (cases qs) auto
  from Cons.prems(1) obtain p where p: "cl_print_value lib (cr_payload r) = Inr p" "h = cr_record_hash r"
    "h = calculate_hash lib (cr_schema_version r) (cr_sequence r) (cr_previous_hash r) p"
    "linked lib (cr_previous_hash r) rs" by auto
  from Cons.prems(2) qs obtain p' where p': "cl_print_value lib (cr_payload q) = Inr p'"
    "h = cr_record_hash q"
    "h = calculate_hash lib (cr_schema_version q) (cr_sequence q) (cr_previous_hash q) p'"
    "linked lib (cr_previous_hash q) qs'" by auto
  have inputs: "record_input lib r = hash_input (cr_schema_version r) (cr_sequence r) (cr_previous_hash r) p"
    "record_input lib q = hash_input (cr_schema_version q) (cr_sequence q) (cr_previous_hash q) p'"
    using p(1) p'(1) by (simp_all add: record_input_def)
  have same_hash: "cl_sha256 lib (record_input lib r) = cl_sha256 lib (record_input lib q)"
    using p(3) p'(3) by (auto simp: calculate_hash_def inputs intro: encode_hex_inj)
  show ?case
  proof (cases "record_input lib r = record_input lib q")
    case False
    with same_hash qs show ?thesis by (simp add: colliding_def)
  next
    case True
  from True [unfolded inputs] have "be_bytes 4 (cr_schema_version r) = be_bytes 4 (cr_schema_version q)"
    "be_bytes 8 (cr_sequence r) = be_bytes 8 (cr_sequence q)"
    "cr_previous_hash r @ p = cr_previous_hash q @ p'"
    by (simp_all add: hash_input_def append_eq_append_conv)
  moreover have "length (cr_previous_hash r) = length (cr_previous_hash q)"
    using linked_length [OF len p(4)] linked_length [OF len p'(4)] by simp
  ultimately have same: "cr_schema_version r = cr_schema_version q" "cr_sequence r = cr_sequence q"
    "cr_previous_hash r = cr_previous_hash q" "p = p'"
    by (auto dest: be_bytes_inj simp: append_eq_append_conv)
  from Cons.IH [OF p(4)] p'(4) same(3) Cons.prems(3) qs
  have "map (record_content lib) rs = map (record_content lib) qs' \<or> colliding lib rs qs'" by simp
  moreover have "record_content lib r = record_content lib q"
    using same p(1,2) p'(1,2) by (simp add: record_content_def)
  ultimately show ?thesis using colliding_Cons [of lib rs qs' r q] by (auto simp: qs)
  qed
qed simp

end
