(* ===== verification/Core_Schema.thy ===== *)
theory Core_Schema
  imports Rust_Text
begin

text \<open>
  The crate \<open>apolysis-core\<close>: the enumerations of the timeline schema with their stable
  strings, the records with their builders, and their rendering as JSONL lines
  (\<open>crates/apolysis-core/src/lib.rs\<close>), the scalar helpers (\<open>scalars.rs\<close>) and the
  pipe-delimited fixture fields (\<open>fields.rs\<close>). The clock (\<open>now_unix_ms\<close>) is an argument of
  the constructors that read it.
\<close>

section \<open>Enumerations\<close>

datatype runtime_kind = RkLocal | RkDocker | RkKubernetes | RkFirecracker

fun runtime_kind_str :: "runtime_kind \<Rightarrow> string" where
  "runtime_kind_str RkLocal = ''local''"
| "runtime_kind_str RkDocker = ''docker''"
| "runtime_kind_str RkKubernetes = ''kubernetes''"
| "runtime_kind_str RkFirecracker = ''firecracker''"

datatype event_source =
    SrcManual | SrcProcessTree | SrcKernelTracepoint | SrcBpfLsm | SrcUprobe
  | SrcRuntimeMetadata | SrcAgentFeedback

fun event_source_str :: "event_source \<Rightarrow> string" where
  "event_source_str SrcManual = ''manual''"
| "event_source_str SrcProcessTree = ''process_tree''"
| "event_source_str SrcKernelTracepoint = ''kernel_tracepoint''"
| "event_source_str SrcBpfLsm = ''bpf_lsm''"
| "event_source_str SrcUprobe = ''uprobe''"
| "event_source_str SrcRuntimeMetadata = ''runtime_metadata''"
| "event_source_str SrcAgentFeedback = ''agent_feedback''"

datatype event_type =
    EvSessionStarted | EvRuntimeMetadata | EvExec | EvFileOpen | EvFileCreate
  | EvFileTruncate | EvFileUnlink | EvFileRename | EvNetworkConnect | EvCredentialRead
  | EvProcessExit

fun event_type_str :: "event_type \<Rightarrow> string" where
  "event_type_str EvSessionStarted = ''session_started''"
| "event_type_str EvRuntimeMetadata = ''runtime_metadata''"
| "event_type_str EvExec = ''exec''"
| "event_type_str EvFileOpen = ''file_open''"
| "event_type_str EvFileCreate = ''file_create''"
| "event_type_str EvFileTruncate = ''file_truncate''"
| "event_type_str EvFileUnlink = ''file_unlink''"
| "event_type_str EvFileRename = ''file_rename''"
| "event_type_str EvNetworkConnect = ''network_connect''"
| "event_type_str EvCredentialRead = ''credential_read''"
| "event_type_str EvProcessExit = ''process_exit''"

datatype core_decision = CdAllow | CdNotify | CdBlock | CdKill | CdReview

fun core_decision_str :: "core_decision \<Rightarrow> string" where
  "core_decision_str CdAllow = ''allow''"
| "core_decision_str CdNotify = ''notify''"
| "core_decision_str CdBlock = ''block''"
| "core_decision_str CdKill = ''kill''"
| "core_decision_str CdReview = ''review''"

datatype enforcement_backend =
    BeAuditOnly | BeTracepointNotify | BeBpfLsmBlock | BeSeccompBlock | BeSignalKill

fun enforcement_backend_str :: "enforcement_backend \<Rightarrow> string" where
  "enforcement_backend_str BeAuditOnly = ''audit_only''"
| "enforcement_backend_str BeTracepointNotify = ''tracepoint_notify''"
| "enforcement_backend_str BeBpfLsmBlock = ''bpf_lsm_block''"
| "enforcement_backend_str BeSeccompBlock = ''seccomp_block''"
| "enforcement_backend_str BeSignalKill = ''signal_kill''"

datatype diagnostic_kind =
    DkRingBufferReserveFailure | DkMapPressure | DkDecodeFailure | DkTruncation
  | DkAttachFailure | DkVerifierFailure | DkSummary

fun diagnostic_kind_str :: "diagnostic_kind \<Rightarrow> string" where
  "diagnostic_kind_str DkRingBufferReserveFailure = ''ring_buffer_reserve_failure''"
| "diagnostic_kind_str DkMapPressure = ''map_pressure''"
| "diagnostic_kind_str DkDecodeFailure = ''decode_failure''"
| "diagnostic_kind_str DkTruncation = ''truncation''"
| "diagnostic_kind_str DkAttachFailure = ''attach_failure''"
| "diagnostic_kind_str DkVerifierFailure = ''verifier_failure''"
| "diagnostic_kind_str DkSummary = ''summary''"

section \<open>JSON strings\<close>

definition unicode_escape :: "nat \<Rightarrow> string" where
  "unicode_escape n =
     [ch_backslash, CHR ''u'', hex_digit (n div 4096 mod 16), hex_digit (n div 256 mod 16),
      hex_digit (n div 16 mod 16), hex_digit (n mod 16)]"

text \<open>
  \<open>json_string\<close> runs over the characters of the text. Over UTF-8 bytes the control characters
  (\<open>char::is_control\<close>) are the bytes below \<open>0x20\<close>, the byte \<open>0x7F\<close>, and the pairs \<open>0xC2\<close>
  with a byte from \<open>0x80\<close> to \<open>0x9F\<close>, which encode the code points with the same numbers.
\<close>

definition is_c1_control :: "char \<Rightarrow> string \<Rightarrow> bool" where
  "is_c1_control c cs \<longleftrightarrow>
     c = CHR 0xC2 \<and> (case cs of d # _ \<Rightarrow> 128 \<le> byte_val d \<and> byte_val d < 160 | [] \<Rightarrow> False)"

fun json_escape :: "string \<Rightarrow> string" where
  "json_escape [] = []"
| "json_escape (c # cs) =
     (if c = ch_quote then [ch_backslash, ch_quote] @ json_escape cs
      else if c = ch_backslash then [ch_backslash, ch_backslash] @ json_escape cs
      else if c = ch_nl then [ch_backslash, CHR ''n''] @ json_escape cs
      else if c = ch_cr then [ch_backslash, CHR ''r''] @ json_escape cs
      else if c = ch_tab then [ch_backslash, CHR ''t''] @ json_escape cs
      else if byte_val c < 32 \<or> byte_val c = 127 then
        unicode_escape (byte_val c) @ json_escape cs
      else if is_c1_control c cs then
        unicode_escape (byte_val (hd cs)) @ json_escape (tl cs)
      else c # json_escape cs)"

definition json_string :: "string \<Rightarrow> string" where
  "json_string s = [ch_quote] @ json_escape s @ [ch_quote]"

definition json_null :: string where
  "json_null = ''null''"

definition optional_json_string :: "string option \<Rightarrow> string" where
  "optional_json_string v = (case v of Some s \<Rightarrow> json_string s | None \<Rightarrow> json_null)"

definition optional_json_u128 :: "u128 option \<Rightarrow> string" where
  "optional_json_u128 v = (case v of Some n \<Rightarrow> dec_str (unat n) | None \<Rightarrow> json_null)"

definition json_bool :: "bool \<Rightarrow> string" where
  "json_bool b = (if b then ''true'' else ''false'')"

definition json_num :: "'a::len word \<Rightarrow> string" where
  "json_num n = dec_str (unat n)"

text \<open>The format strings: an object of named, already rendered fields.\<close>

definition json_field :: "string \<times> string \<Rightarrow> string" where
  "json_field f = [ch_quote] @ fst f @ [ch_quote, CHR '':''] @ snd f"

definition json_object :: "(string \<times> string) list \<Rightarrow> string" where
  "json_object fs = ''{'' @ join_with '','' (map json_field fs) @ ''}''"

section \<open>Records and their builders\<close>

record sandbox_session =
  ss_id :: string
  ss_runtime :: runtime_kind
  ss_root :: "string option"
  ss_policy_path :: string
  ss_started_at :: u128

definition sandbox_session_new :: "u128 \<Rightarrow> string \<Rightarrow> runtime_kind \<Rightarrow> string \<Rightarrow> sandbox_session" where
  "sandbox_session_new now sid rt policy_path =
     \<lparr>ss_id = sid, ss_runtime = rt, ss_root = None, ss_policy_path = policy_path,
      ss_started_at = now\<rparr>"

definition sandbox_session_json :: "sandbox_session \<Rightarrow> string" where
  "sandbox_session_json s = json_object
     [(''record_type'', json_string ''session''),
      (''id'', json_string (ss_id s)),
      (''runtime'', json_string (runtime_kind_str (ss_runtime s))),
      (''root'', optional_json_string (ss_root s)),
      (''policy_path'', json_string (ss_policy_path s)),
      (''started_at_unix_ms'', json_num (ss_started_at s))]"

record canonical_event =
  ce_timestamp :: u128
  ce_session_id :: string
  ce_source :: event_source
  ce_type :: event_type
  ce_raw_event_id :: "string option"
  ce_pid :: u32
  ce_ppid :: u32
  ce_actor :: string
  ce_resource :: string
  ce_action :: string
  ce_container_id :: "string option"
  ce_cgroup_id :: "string option"
  ce_process_command :: "string option"
  ce_process_executable :: "string option"
  ce_process_started_at :: "u128 option"

definition canonical_event_new ::
    "u128 \<Rightarrow> string \<Rightarrow> event_source \<Rightarrow> event_type \<Rightarrow> u32 \<Rightarrow> u32 \<Rightarrow> string \<Rightarrow> string \<Rightarrow> string
     \<Rightarrow> canonical_event" where
  "canonical_event_new now sid src ty pid ppid actor resource action =
     \<lparr>ce_timestamp = now, ce_session_id = sid, ce_source = src, ce_type = ty,
      ce_raw_event_id = None, ce_pid = pid, ce_ppid = ppid, ce_actor = actor,
      ce_resource = resource, ce_action = action, ce_container_id = None,
      ce_cgroup_id = None, ce_process_command = None, ce_process_executable = None,
      ce_process_started_at = None\<rparr>"

definition ce_with_timestamp :: "u128 \<Rightarrow> canonical_event \<Rightarrow> canonical_event" where
  "ce_with_timestamp t e = e\<lparr>ce_timestamp := t\<rparr>"

definition ce_with_raw_event_id :: "string \<Rightarrow> canonical_event \<Rightarrow> canonical_event" where
  "ce_with_raw_event_id i e = e\<lparr>ce_raw_event_id := Some i\<rparr>"

definition ce_with_runtime_identity ::
    "string option \<Rightarrow> string option \<Rightarrow> canonical_event \<Rightarrow> canonical_event" where
  "ce_with_runtime_identity container cgroup e =
     e\<lparr>ce_container_id := container, ce_cgroup_id := cgroup\<rparr>"

definition ce_with_process_context ::
    "string \<Rightarrow> string \<Rightarrow> u128 \<Rightarrow> canonical_event \<Rightarrow> canonical_event" where
  "ce_with_process_context command executable started e =
     e\<lparr>ce_process_command := Some command, ce_process_executable := Some executable,
       ce_process_started_at := Some started\<rparr>"

definition canonical_event_json :: "canonical_event \<Rightarrow> string" where
  "canonical_event_json e = json_object
     [(''record_type'', json_string ''event''),
      (''timestamp_unix_ms'', json_num (ce_timestamp e)),
      (''session_id'', json_string (ce_session_id e)),
      (''event_source'', json_string (event_source_str (ce_source e))),
      (''event_type'', json_string (event_type_str (ce_type e))),
      (''raw_event_id'', optional_json_string (ce_raw_event_id e)),
      (''pid'', json_num (ce_pid e)),
      (''ppid'', json_num (ce_ppid e)),
      (''actor'', json_string (ce_actor e)),
      (''resource'', json_string (ce_resource e)),
      (''action'', json_string (ce_action e)),
      (''container_id'', optional_json_string (ce_container_id e)),
      (''cgroup_id'', optional_json_string (ce_cgroup_id e)),
      (''process_command'', optional_json_string (ce_process_command e)),
      (''process_executable'', optional_json_string (ce_process_executable e)),
      (''process_started_at_unix_ms'', optional_json_u128 (ce_process_started_at e))]"

record raw_kernel_event =
  rk_timestamp :: u128
  rk_session_id :: string
  rk_source :: event_source
  rk_event_name :: string
  rk_event_id :: "string option"
  rk_pid :: u32
  rk_ppid :: u32
  rk_uid :: u32
  rk_gid :: u32
  rk_comm :: string
  rk_resource :: string
  rk_action :: string
  rk_container_id :: "string option"
  rk_cgroup_id :: "string option"
  rk_raw_payload :: string

definition raw_kernel_event_new ::
    "u128 \<Rightarrow> string \<Rightarrow> event_source \<Rightarrow> string \<Rightarrow> u32 \<Rightarrow> u32 \<Rightarrow> u32 \<Rightarrow> u32 \<Rightarrow> string \<Rightarrow> string
     \<Rightarrow> string \<Rightarrow> string option \<Rightarrow> string option \<Rightarrow> string \<Rightarrow> raw_kernel_event" where
  "raw_kernel_event_new ts sid src name pid ppid uid gid comm resource action container cgroup
     payload =
     \<lparr>rk_timestamp = ts, rk_session_id = sid, rk_source = src, rk_event_name = name,
      rk_event_id = None, rk_pid = pid, rk_ppid = ppid, rk_uid = uid, rk_gid = gid,
      rk_comm = comm, rk_resource = resource, rk_action = action,
      rk_container_id = container, rk_cgroup_id = cgroup, rk_raw_payload = payload\<rparr>"

definition rk_with_event_id :: "string \<Rightarrow> raw_kernel_event \<Rightarrow> raw_kernel_event" where
  "rk_with_event_id i e = e\<lparr>rk_event_id := Some i\<rparr>"

definition raw_kernel_event_json :: "raw_kernel_event \<Rightarrow> string" where
  "raw_kernel_event_json e = json_object
     [(''record_type'', json_string ''raw_kernel_event''),
      (''timestamp_unix_ms'', json_num (rk_timestamp e)),
      (''session_id'', json_string (rk_session_id e)),
      (''event_source'', json_string (event_source_str (rk_source e))),
      (''event_name'', json_string (rk_event_name e)),
      (''event_id'', optional_json_string (rk_event_id e)),
      (''pid'', json_num (rk_pid e)),
      (''ppid'', json_num (rk_ppid e)),
      (''uid'', json_num (rk_uid e)),
      (''gid'', json_num (rk_gid e)),
      (''comm'', json_string (rk_comm e)),
      (''resource'', json_string (rk_resource e)),
      (''action'', json_string (rk_action e)),
      (''container_id'', optional_json_string (rk_container_id e)),
      (''cgroup_id'', optional_json_string (rk_cgroup_id e)),
      (''raw_payload'', json_string (rk_raw_payload e))]"

record session_intent_record =
  ir_timestamp :: u128
  ir_session_id :: string
  ir_intent_source :: string
  ir_intent_id :: string
  ir_source_event_id :: "string option"
  ir_intent_type :: string
  ir_tool_name :: string
  ir_declared_action :: "string option"
  ir_target :: "string option"
  ir_command :: "string option"
  ir_raw_event_id :: "string option"

definition session_intent_record_new ::
    "u128 \<Rightarrow> string \<Rightarrow> string \<Rightarrow> string \<Rightarrow> string \<Rightarrow> string \<Rightarrow> session_intent_record" where
  "session_intent_record_new now sid src iid ty tool =
     \<lparr>ir_timestamp = now, ir_session_id = sid, ir_intent_source = src, ir_intent_id = iid,
      ir_source_event_id = None, ir_intent_type = ty, ir_tool_name = tool,
      ir_declared_action = None, ir_target = None, ir_command = None,
      ir_raw_event_id = None\<rparr>"

definition ir_with_timestamp :: "u128 \<Rightarrow> session_intent_record \<Rightarrow> session_intent_record" where
  "ir_with_timestamp t r = r\<lparr>ir_timestamp := t\<rparr>"

definition ir_with_source_event_id :: "string \<Rightarrow> session_intent_record \<Rightarrow> session_intent_record" where
  "ir_with_source_event_id i r = r\<lparr>ir_source_event_id := Some i\<rparr>"

definition ir_with_declared_action :: "string \<Rightarrow> session_intent_record \<Rightarrow> session_intent_record" where
  "ir_with_declared_action a r = r\<lparr>ir_declared_action := Some a\<rparr>"

definition ir_with_target :: "string \<Rightarrow> session_intent_record \<Rightarrow> session_intent_record" where
  "ir_with_target t r = r\<lparr>ir_target := Some t\<rparr>"

definition ir_with_command :: "string \<Rightarrow> session_intent_record \<Rightarrow> session_intent_record" where
  "ir_with_command c r = r\<lparr>ir_command := Some c\<rparr>"

definition ir_with_raw_event_id :: "string \<Rightarrow> session_intent_record \<Rightarrow> session_intent_record" where
  "ir_with_raw_event_id i r = r\<lparr>ir_raw_event_id := Some i\<rparr>"

definition session_intent_record_json :: "session_intent_record \<Rightarrow> string" where
  "session_intent_record_json r = json_object
     [(''record_type'', json_string ''intent''),
      (''timestamp_unix_ms'', json_num (ir_timestamp r)),
      (''session_id'', json_string (ir_session_id r)),
      (''intent_source'', json_string (ir_intent_source r)),
      (''intent_id'', json_string (ir_intent_id r)),
      (''source_event_id'', optional_json_string (ir_source_event_id r)),
      (''intent_type'', json_string (ir_intent_type r)),
      (''tool_name'', json_string (ir_tool_name r)),
      (''declared_action'', optional_json_string (ir_declared_action r)),
      (''target'', optional_json_string (ir_target r)),
      (''command'', optional_json_string (ir_command r)),
      (''raw_event_id'', optional_json_string (ir_raw_event_id r))]"

record observer_diagnostic =
  od_timestamp :: u128
  od_session_id :: string
  od_kind :: diagnostic_kind
  od_count :: u64
  od_detail :: string

definition observer_diagnostic_new ::
    "u128 \<Rightarrow> string \<Rightarrow> diagnostic_kind \<Rightarrow> u64 \<Rightarrow> string \<Rightarrow> observer_diagnostic" where
  "observer_diagnostic_new now sid kind n detail =
     \<lparr>od_timestamp = now, od_session_id = sid, od_kind = kind, od_count = n,
      od_detail = detail\<rparr>"

definition observer_diagnostic_json :: "observer_diagnostic \<Rightarrow> string" where
  "observer_diagnostic_json d = json_object
     [(''record_type'', json_string ''observer_diagnostic''),
      (''timestamp_unix_ms'', json_num (od_timestamp d)),
      (''session_id'', json_string (od_session_id d)),
      (''kind'', json_string (diagnostic_kind_str (od_kind d))),
      (''count'', json_num (od_count d)),
      (''detail'', json_string (od_detail d))]"

record policy_violation =
  pv_timestamp :: u128
  pv_session_id :: string
  pv_observed_event_id :: "string option"
  pv_rule_id :: string
  pv_decision :: core_decision
  pv_reason :: string
  pv_pid :: u32
  pv_target :: string
  pv_backend :: enforcement_backend

definition policy_violation_new ::
    "u128 \<Rightarrow> string \<Rightarrow> string \<Rightarrow> core_decision \<Rightarrow> string \<Rightarrow> u32 \<Rightarrow> string \<Rightarrow> enforcement_backend
     \<Rightarrow> policy_violation" where
  "policy_violation_new now sid rule decision reason pid target backend =
     \<lparr>pv_timestamp = now, pv_session_id = sid, pv_observed_event_id = None,
      pv_rule_id = rule, pv_decision = decision, pv_reason = reason, pv_pid = pid,
      pv_target = target, pv_backend = backend\<rparr>"

definition pv_with_observed_event_id :: "string \<Rightarrow> policy_violation \<Rightarrow> policy_violation" where
  "pv_with_observed_event_id i v = v\<lparr>pv_observed_event_id := Some i\<rparr>"

definition policy_violation_json :: "policy_violation \<Rightarrow> string" where
  "policy_violation_json v = json_object
     [(''record_type'', json_string ''policy_violation''),
      (''timestamp_unix_ms'', json_num (pv_timestamp v)),
      (''session_id'', json_string (pv_session_id v)),
      (''observed_event_id'', optional_json_string (pv_observed_event_id v)),
      (''rule_id'', json_string (pv_rule_id v)),
      (''decision'', json_string (core_decision_str (pv_decision v))),
      (''reason'', json_string (pv_reason v)),
      (''pid'', json_num (pv_pid v)),
      (''target'', json_string (pv_target v)),
      (''enforcement_backend'', json_string (enforcement_backend_str (pv_backend v)))]"

record enforcement_metadata =
  em_timestamp :: u128
  em_session_id :: string
  em_rule_id :: "string option"
  em_observed_event_id :: "string option"
  em_requested :: core_decision
  em_effective :: core_decision
  em_backend :: enforcement_backend
  em_timing :: string
  em_runtime :: string
  em_action :: string
  em_preop_prevention :: bool
  em_observed_timestamp :: "u128 option"
  em_latency :: "u128 option"
  em_race_window :: "u128 option"
  em_downgrade_reason :: "string option"

definition enforcement_metadata_new ::
    "u128 \<Rightarrow> string \<Rightarrow> core_decision \<Rightarrow> core_decision \<Rightarrow> enforcement_backend \<Rightarrow> string \<Rightarrow> string
     \<Rightarrow> string \<Rightarrow> bool \<Rightarrow> enforcement_metadata" where
  "enforcement_metadata_new now sid requested effective backend timing runtime action preop =
     \<lparr>em_timestamp = now, em_session_id = sid, em_rule_id = None,
      em_observed_event_id = None, em_requested = requested, em_effective = effective,
      em_backend = backend, em_timing = timing, em_runtime = runtime, em_action = action,
      em_preop_prevention = preop, em_observed_timestamp = None, em_latency = None,
      em_race_window = None, em_downgrade_reason = None\<rparr>"

definition em_with_rule_id :: "string \<Rightarrow> enforcement_metadata \<Rightarrow> enforcement_metadata" where
  "em_with_rule_id r m = m\<lparr>em_rule_id := Some r\<rparr>"

definition em_with_observed_event_id :: "string \<Rightarrow> enforcement_metadata \<Rightarrow> enforcement_metadata" where
  "em_with_observed_event_id i m = m\<lparr>em_observed_event_id := Some i\<rparr>"

definition em_with_downgrade_reason ::
    "string option \<Rightarrow> enforcement_metadata \<Rightarrow> enforcement_metadata" where
  "em_with_downgrade_reason r m = m\<lparr>em_downgrade_reason := r\<rparr>"

definition em_with_measurement :: "u128 \<Rightarrow> u128 \<Rightarrow> enforcement_metadata \<Rightarrow> enforcement_metadata" where
  "em_with_measurement observed decided m =
     (let latency = sat_sub decided observed in
      m\<lparr>em_timestamp := decided,
        em_observed_timestamp := Some observed,
        em_latency := Some latency,
        em_race_window := Some (if em_preop_prevention m then 0 else latency)\<rparr>)"

definition enforcement_metadata_json :: "enforcement_metadata \<Rightarrow> string" where
  "enforcement_metadata_json m = json_object
     [(''record_type'', json_string ''enforcement_metadata''),
      (''timestamp_unix_ms'', json_num (em_timestamp m)),
      (''session_id'', json_string (em_session_id m)),
      (''rule_id'', optional_json_string (em_rule_id m)),
      (''observed_event_id'', optional_json_string (em_observed_event_id m)),
      (''requested_decision'', json_string (core_decision_str (em_requested m))),
      (''effective_decision'', json_string (core_decision_str (em_effective m))),
      (''enforcement_backend'', json_string (enforcement_backend_str (em_backend m))),
      (''timing'', json_string (em_timing m)),
      (''runtime'', json_string (em_runtime m)),
      (''action'', json_string (em_action m)),
      (''preoperation_prevention'', json_bool (em_preop_prevention m)),
      (''observed_event_timestamp_unix_ms'', optional_json_u128 (em_observed_timestamp m)),
      (''decision_latency_ms'', optional_json_u128 (em_latency m)),
      (''side_effect_race_window_ms'', optional_json_u128 (em_race_window m)),
      (''downgrade_reason'', optional_json_string (em_downgrade_reason m))]"

section \<open>Scalars\<close>

definition clean_scalar :: "string \<Rightarrow> string" where
  "clean_scalar s = trim_matches (\<lambda>c. c = ch_apos) (trim_matches (\<lambda>c. c = ch_quote) (trim s))"

definition parse_bool :: "string \<Rightarrow> string \<Rightarrow> (string, bool) res" where
  "parse_bool v field =
     (if v = ''true'' then Inr True
      else if v = ''false'' then Inr False
      else Inl (''invalid '' @ field @ '' boolean: '' @ v))"

section \<open>Pipe-delimited fields\<close>

text \<open>The fields of a line; a key that occurs again replaces the earlier binding.\<close>

type_synonym pipe_fields = "(string, string) bmap"

fun parse_pipe_parts :: "string list \<Rightarrow> pipe_fields \<Rightarrow> (string, pipe_fields) res" where
  "parse_pipe_parts [] inner = Inr inner"
| "parse_pipe_parts (p # ps) inner =
     (let part = trim p in
      case split_once (CHR ''='') part of
        None \<Rightarrow> Inl (''invalid pipe field: '' @ part)
      | Some (k, v) \<Rightarrow> parse_pipe_parts ps (bm_insert (trim k) (trim v) inner))"

definition pipe_parse :: "string \<Rightarrow> (string, pipe_fields) res" where
  "pipe_parse line = parse_pipe_parts (split_on (CHR ''|'') line) []"

definition pipe_optional :: "pipe_fields \<Rightarrow> string \<Rightarrow> string option" where
  "pipe_optional f k = bm_get f k"

definition pipe_required :: "pipe_fields \<Rightarrow> string \<Rightarrow> (string, string) res" where
  "pipe_required f k =
     (case pipe_optional f k of
        Some v \<Rightarrow> if v \<noteq> [] then Inr v else Inl (''missing pipe field: '' @ k)
      | None \<Rightarrow> Inl (''missing pipe field: '' @ k))"

definition pipe_parse_u32 :: "pipe_fields \<Rightarrow> string \<Rightarrow> (string, u32) res" where
  "pipe_parse_u32 f k =
     (case pipe_required f k of
        Inl e \<Rightarrow> Inl e
      | Inr v \<Rightarrow> map_sum (\<lambda>e. ''invalid '' @ k @ '': '' @ int_error_str e) id (parse_word v))"

definition pipe_parse_u128 :: "pipe_fields \<Rightarrow> string \<Rightarrow> (string, u128) res" where
  "pipe_parse_u128 f k =
     (case pipe_required f k of
        Inl e \<Rightarrow> Inl e
      | Inr v \<Rightarrow> map_sum (\<lambda>e. ''invalid '' @ k @ '': '' @ int_error_str e) id (parse_word v))"

section \<open>A reader for the emitted strings\<close>

text \<open>
  The specification side: how a consumer reads a JSON string (RFC 8259, escapes of one code
  unit). It is not code of the repository; it states what the emitted text means.
\<close>

definition hex_val :: "char \<Rightarrow> nat option" where
  "hex_val c =
     (if is_ascii_digit c then Some (byte_val c - 48)
      else if CHR ''a'' \<le> c \<and> c \<le> CHR ''f'' then Some (byte_val c - 87)
      else None)"

fun hex4_val :: "char list \<Rightarrow> nat option" where
  "hex4_val [a, b, c, d] =
     (case (hex_val a, hex_val b, hex_val c, hex_val d) of
        (Some x, Some y, Some z, Some w) \<Rightarrow> Some (((x * 16 + y) * 16 + z) * 16 + w)
      | _ \<Rightarrow> None)"
| "hex4_val _ = None"

definition utf8_encode :: "nat \<Rightarrow> string" where
  "utf8_encode n =
     (if n < 128 then [char_of n]
      else if n < 2048 then [char_of (192 + n div 64), char_of (128 + n mod 64)]
      else [char_of (224 + n div 4096), char_of (128 + n div 64 mod 64), char_of (128 + n mod 64)])"

definition simple_unescape :: "char \<Rightarrow> char option" where
  "simple_unescape e =
     (if e = ch_quote \<or> e = ch_backslash \<or> e = CHR ''/'' then Some e
      else if e = CHR ''n'' then Some ch_nl
      else if e = CHR ''r'' then Some ch_cr
      else if e = CHR ''t'' then Some ch_tab
      else None)"

definition push_read :: "string \<Rightarrow> (string \<times> string) option \<Rightarrow> (string \<times> string) option" where
  "push_read p r = map_option (\<lambda>(s, t). (p @ s, t)) r"

fun json_read_chars :: "string \<Rightarrow> (string \<times> string) option" where
  "json_read_chars [] = None"
| "json_read_chars (c # cs) =
     (if c = ch_quote then Some ([], cs)
      else if c = ch_backslash then
        (case cs of
           [] \<Rightarrow> None
         | e # es \<Rightarrow>
             (if e = CHR ''u'' then
                (case hex4_val (take 4 es) of
                   None \<Rightarrow> None
                 | Some n \<Rightarrow> push_read (utf8_encode n) (json_read_chars (drop 4 es)))
              else
                (case simple_unescape e of
                   None \<Rightarrow> None
                 | Some d \<Rightarrow> push_read [d] (json_read_chars es))))
      else push_read [c] (json_read_chars cs))"

definition json_read_string :: "string \<Rightarrow> (string \<times> string) option" where
  "json_read_string s = (case s of c # cs \<Rightarrow> if c = ch_quote then json_read_chars cs else None | [] \<Rightarrow> None)"

section \<open>Facts about the rendering\<close>

lemma hex_val_digit: "d < 16 \<Longrightarrow> hex_val (hex_digit d) = Some d"
  by (auto simp: hex_val_def hex_digit_def is_ascii_digit_def byte_val_def less_eq_char_def)

lemma hex4_unicode_escape:
  "n < 256 \<Longrightarrow> hex4_val (take 4 (drop 2 (unicode_escape n @ r))) = Some n"
  by (simp add: unicode_escape_def hex_val_digit)

lemma json_read_unicode_escape:
  "n < 256 \<Longrightarrow>
     json_read_chars (unicode_escape n @ r) = push_read (utf8_encode n) (json_read_chars r)"
  using hex4_unicode_escape [of n r] by (simp add: unicode_escape_def)

lemma utf8_encode_byte: "byte_val c < 128 \<Longrightarrow> utf8_encode (byte_val c) = [c]"
  by (simp add: utf8_encode_def byte_val_def)

lemma char_of_byte_val [simp]: "char_of (byte_val c) = c"
  by (simp add: byte_val_def)

lemma utf8_encode_c1:
  assumes "128 \<le> byte_val d" and "byte_val d < 160"
  shows "utf8_encode (byte_val d) = [CHR 0xC2, d]"
proof -
  have "byte_val d div 64 = 2" using assms by (intro div_nat_eqI) simp_all
  then have n: "192 + byte_val d div 64 = 194" "128 + byte_val d mod 64 = byte_val d"
    using mult_div_mod_eq [of 64 "byte_val d"] by simp_all
  have "utf8_encode (byte_val d) = [char_of (192 + byte_val d div 64), char_of (128 + byte_val d mod 64)]"
    using assms by (simp add: utf8_encode_def)
  also have "\<dots> = [char_of (194 :: nat), d]" by (simp only: n char_of_byte_val)
  also have "char_of (194 :: nat) = CHR 0xC2" by code_simp
  finally show ?thesis .
qed

lemma json_escape_plain:
  "c \<notin> {ch_quote, ch_backslash, ch_nl, ch_cr, ch_tab} \<Longrightarrow>
     json_escape (c # cs) =
       (if byte_val c < 32 \<or> byte_val c = 127 then unicode_escape (byte_val c) @ json_escape cs
        else if is_c1_control c cs then unicode_escape (byte_val (hd cs)) @ json_escape (tl cs)
        else c # json_escape cs)"
  by simp

lemma push_read_Some [simp]: "push_read p (Some (s, t)) = Some (p @ s, t)"
  by (simp add: push_read_def)

lemma json_read_escape: "json_read_chars (json_escape s @ ch_quote # rest) = Some (s, rest)"
proof (induction s rule: length_induct)
  case (1 s)
  then have IH: "json_read_chars (json_escape t @ ch_quote # rest) = Some (t, rest)"
    if "length t < length s" for t using that by blast
  show ?case
  proof (cases s)
    case Nil
    then show ?thesis by simp
  next
    case (Cons c cs)
    note IHcs = IH [of cs, unfolded Cons, simplified]
    show ?thesis
    proof (cases "c \<in> {ch_quote, ch_backslash, ch_nl, ch_cr, ch_tab}")
      case True
      then show ?thesis
        unfolding Cons by (elim insertE emptyE) (simp_all add: IHcs simple_unescape_def)
    next
      case plain: False
      show ?thesis
      proof (cases "byte_val c < 32 \<or> byte_val c = 127")
        case True
        then have "byte_val c < 256" "byte_val c < 128" by auto
        with True show ?thesis
          unfolding Cons json_escape_plain [OF plain]
          by (simp add: json_read_unicode_escape utf8_encode_byte IHcs)
      next
        case visible: False
        show ?thesis
        proof (cases "is_c1_control c cs")
          case True
          then obtain d ds where d: "cs = d # ds" "c = CHR 0xC2" "128 \<le> byte_val d" "byte_val d < 160"
            by (auto simp: is_c1_control_def split: list.splits)
          then have "json_read_chars (json_escape ds @ ch_quote # rest) = Some (ds, rest)"
            using Cons by (intro IH) simp
          with True visible d(3,4) show ?thesis
            unfolding Cons json_escape_plain [OF plain]
            by (simp add: json_read_unicode_escape utf8_encode_c1 d(1,2))
        next
          case False
          with visible plain show ?thesis
            unfolding Cons json_escape_plain [OF plain] by (simp add: IHcs)
        qed
      qed
    qed
  qed
qed

interpretation json_str: codec json_string
    "\<lambda>s. case json_read_string s of Some (v, []) \<Rightarrow> Inr v | _ \<Rightarrow> Inl ()" "\<lambda>_. True"
  by unfold_locales (simp add: json_string_def json_read_string_def json_read_escape)

text \<open>No rendered text contains a control byte; in particular none contains a line feed.\<close>

definition printable :: "string \<Rightarrow> bool" where
  "printable s \<longleftrightarrow> (\<forall>c \<in> set s. 32 \<le> byte_val c \<and> byte_val c \<noteq> 127)"

lemma printable_simps [simp]:
  "printable []"
  "printable (c # s) \<longleftrightarrow> 32 \<le> byte_val c \<and> byte_val c \<noteq> 127 \<and> printable s"
  "printable (s @ t) \<longleftrightarrow> printable s \<and> printable t"
  by (auto simp: printable_def)

lemma byte_val_Char [simp]:
  "byte_val (Char b0 b1 b2 b3 b4 b5 b6 b7) =
     horner_sum of_bool 2 [b0, b1, b2, b3, b4, b5, b6, b7]"
  by (simp add: byte_val_def)

lemma printable_no_nl: "printable s \<Longrightarrow> ch_nl \<notin> set s"
  by (auto simp: printable_def)

lemma printable_hex_digit: "d < 16 \<Longrightarrow> 32 \<le> byte_val (hex_digit d) \<and> byte_val (hex_digit d) \<noteq> 127"
  by (auto simp: hex_digit_def byte_val_def)

lemma printable_unicode_escape: "printable (unicode_escape n)"
  by (simp add: unicode_escape_def printable_hex_digit)

lemma printable_json_escape: "printable (json_escape s)"
  by (induction s rule: json_escape.induct) (simp_all add: printable_unicode_escape)

lemma printable_json_string [simp]: "printable (json_string s)"
  by (simp add: json_string_def printable_json_escape)

lemma printable_dec_str: "printable (dec_str n)"
  unfolding printable_def
proof
  fix c
  assume "c \<in> set (dec_str n)"
  then have "is_ascii_digit c" by (rule dec_str_digits)
  then show "32 \<le> byte_val c \<and> byte_val c \<noteq> 127"
    by (auto simp: is_ascii_digit_def less_eq_char_def byte_val_def)
qed

lemma printable_rendered [simp]:
  "printable (json_num w)" "printable (optional_json_string so)"
  "printable (optional_json_u128 no)" "printable (json_bool b)"
  by (auto simp: json_num_def optional_json_string_def optional_json_u128_def json_bool_def
      json_null_def printable_dec_str split: option.splits)

lemma printable_join: "printable sep \<Longrightarrow> list_all printable xs \<Longrightarrow> printable (join_with sep xs)"
  by (induction sep xs rule: join_with.induct) auto

lemma printable_json_object:
  "list_all (\<lambda>f. printable (fst f) \<and> printable (snd f)) fs \<Longrightarrow> printable (json_object fs)"
proof -
  assume fs: "list_all (\<lambda>f. printable (fst f) \<and> printable (snd f)) fs"
  have "list_all printable (map json_field fs)"
    using fs by (auto simp: list_all_iff json_field_def)
  then show ?thesis by (simp add: json_object_def printable_join)
qed

lemma printable_records:
  "printable (sandbox_session_json s)" "printable (canonical_event_json e)"
  "printable (raw_kernel_event_json k)" "printable (session_intent_record_json r)"
  "printable (observer_diagnostic_json d)" "printable (policy_violation_json v)"
  "printable (enforcement_metadata_json m)"
  by (simp_all add: sandbox_session_json_def canonical_event_json_def raw_kernel_event_json_def
      session_intent_record_json_def observer_diagnostic_json_def policy_violation_json_def
      enforcement_metadata_json_def printable_json_object)

section \<open>The schema's properties\<close>

text \<open>String encoding round trip. A JSON reader gets back exactly the bytes that were
  encoded, whatever they are (quotes, backslashes, control bytes, parts of characters), and
  the encoded text ends where the reader stops.\<close>

lemma json_string_roundtrip: "json_read_string (json_string s @ rest) = Some (s, rest)"
  by (simp add: json_string_def json_read_string_def json_read_escape)

text \<open>One record, one line. No record type renders a line feed (or any other control
  byte), whatever its text fields hold: hostile paths, arguments and reasons cannot forge a
  second line in a JSONL file.\<close>

lemma records_are_single_lines:
  "ch_nl \<notin> set (sandbox_session_json s) \<and> ch_nl \<notin> set (canonical_event_json e)
   \<and> ch_nl \<notin> set (raw_kernel_event_json k) \<and> ch_nl \<notin> set (session_intent_record_json r)
   \<and> ch_nl \<notin> set (observer_diagnostic_json d) \<and> ch_nl \<notin> set (policy_violation_json v)
   \<and> ch_nl \<notin> set (enforcement_metadata_json m)"
  by (intro conjI printable_no_nl printable_records)

end
