(* ===== verification/Timeline_Integrity.thy ===== *)
theory Timeline_Integrity
  imports Hash_Chain Core_Schema
begin

text \<open>
  What the hash-chained timeline guarantees: verification and recovery agree, recovery
  keeps the valid prefix and sets the rest aside, appended records read back, a file torn
  at any byte recovers to a beginning of its records, and two timelines that end in the
  same hash tell the same story. A concrete JSON-like codec shows that the assumptions on
  the library can hold.
\<close>

section \<open>A concrete library\<close>

definition sample_print :: "string chain_record \<Rightarrow> (string, string) res" where
  "sample_print r =
     Inr (json_string (cr_payload r) @ json_string (cr_previous_hash r) @ json_string (cr_record_hash r)
          @ dec_str (unat (cr_schema_version r)) @ CHR '','' # dec_str (unat (cr_sequence r)))"

definition sample_parse :: "string \<Rightarrow> (string, string chain_record) res" where
  "sample_parse s =
     (case json_read_string s of
        None \<Rightarrow> Inl ''payload''
      | Some (p, s1) \<Rightarrow>
          (case json_read_string s1 of
             None \<Rightarrow> Inl ''previous''
           | Some (prev, s2) \<Rightarrow>
               (case json_read_string s2 of
                  None \<Rightarrow> Inl ''hash''
                | Some (h, s3) \<Rightarrow>
                    (case split_once (CHR '','') s3 of
                       None \<Rightarrow> Inl ''numbers''
                     | Some (a, b) \<Rightarrow>
                         (case (parse_word a, parse_word b) of
                            (Inr v, Inr n) \<Rightarrow>
                              Inr \<lparr>cr_schema_version = v, cr_sequence = n, cr_previous_hash = prev,
                                   cr_record_hash = h, cr_payload = p\<rparr>
                          | _ \<Rightarrow> Inl ''number'')))))"

definition sample_digest :: "string \<Rightarrow> string" where
  "sample_digest m = replicate 31 (CHR ''d'') @ [char_of (sum_list (map byte_val m) mod 256)]"

definition sample_lib :: "string chain_lib" where
  "sample_lib =
     \<lparr>cl_parse_record = sample_parse, cl_print_record = sample_print,
      cl_parse_value = (\<lambda>s. case json_read_string s of Some (v, []) \<Rightarrow> Inr v | _ \<Rightarrow> Inl ''value''),
      cl_print_value = (\<lambda>v. Inr (json_string v)), cl_sha256 = sample_digest\<rparr>"

lemma digits_no_comma: "CHR '','' \<notin> set (dec_str n)"
  using dec_str_digits [of "CHR '',''" n] by (auto simp: is_ascii_digit_def less_eq_char_def)

lemma sample_lib_exact: "serde_exact (\<lambda>_. True) sample_lib"
  unfolding serde_exact_def
proof (intro allI impI)
  fix r line
  assume "cl_print_record sample_lib r = Inr line"
  then have line: "line = json_string (cr_payload r) @ json_string (cr_previous_hash r)
      @ json_string (cr_record_hash r)
      @ dec_str (unat (cr_schema_version r)) @ CHR '','' # dec_str (unat (cr_sequence r))"
    by (simp add: sample_lib_def sample_print_def)
  have "printable line" by (simp add: line printable_dec_str)
  then have "one_line line" by (rule printable_no_nl)
  moreover have read: "json_read_string (json_string s @ rest) = Some (s, rest)" for s rest
    by (simp add: json_string_def json_read_string_def json_read_escape)
  have "cl_parse_record sample_lib line = Inr r"
    by (simp add: sample_lib_def sample_parse_def line read digits_no_comma
        dec_word.dec_enc)
  ultimately show "one_line line \<and> cl_parse_record sample_lib line = Inr r" by blast
qed

lemma sample_digest_length: "length (cl_sha256 sample_lib m) = 32"
  by (simp add: sample_lib_def sample_digest_def)

section \<open>The timeline's properties\<close>

text \<open>C15. Verification and recovery agree. The read-only verifier passes a timeline exactly
  when recovery accepts it without setting anything aside, for any bytes and any library.\<close>

theorem verify_iff_clean_recovery:
  "vr_passed (chain_verify lib bytes) \<longleftrightarrow>
     (case create_or_recover lib room (Some bytes) of
        Inl _ \<Rightarrow> False | Inr rc \<Rightarrow> rc_quarantined rc = None)"
proof -
  obtain ls t where d: "bytes = unlines ls @ t" "list_all one_line ls" "one_line t"
    by (rule lines_decompose)
  note passed = verify_passed_lines [OF d(2,3), of lib]
  show ?thesis
  proof (cases "vr_passed (chain_verify lib bytes)")
    case True
    with passed d(1) obtain s where s: "t = []" "scan_lines lib ls scan_start = (s, [])" by auto
    from recover_valid [OF d(2,3) s(2), of room] s(1) d(1) True show ?thesis
      by (simp add: recovered_def)
  next
    case False
    have "rc_quarantined rc \<noteq> None" if rec: "create_or_recover lib room (Some bytes) = Inr rc" for rc
    proof -
      from rec obtain acc rest s where r: "bytes = unlines acc @ rest" "list_all one_line acc"
        "scan_lines lib acc scan_start = (s, [])" "rc = recovered s room acc rest"
        by (rule recover_ok) simp
      have "rest \<noteq> []"
        using False verify_passed_lines [OF r(2), of "[]" lib] r(1,3) by auto
      with r(4) show ?thesis by (simp add: recovered_def)
    qed
    with False show ?thesis by (auto split: sum.splits)
  qed
qed

text \<open>Recovery keeps the valid prefix. When recovery accepts a file, what it leaves on
  the disk followed by what it sets aside is the file, byte for byte; what it leaves passes
  verification; and recovering again returns the same records, sets nothing aside and
  continues at the same sequence and hash.\<close>

lemma recovery_keeps_valid_prefix:
  "case create_or_recover lib room file of
     Inl _ \<Rightarrow> True
   | Inr rc \<Rightarrow>
       (let kept = bw_disk (hs_writer (rc_store rc)) in
        kept @ file_bytes (rc_quarantined rc) = file_bytes file
        \<and> vr_passed (chain_verify lib kept)
        \<and> (case create_or_recover lib room' (Some kept) of
             Inl _ \<Rightarrow> False
           | Inr rc' \<Rightarrow>
               rc_records rc' = rc_records rc \<and> rc_quarantined rc' = None
               \<and> rc_next_sequence rc' = rc_next_sequence rc
               \<and> rc_previous_hash rc' = rc_previous_hash rc))"
proof (cases "create_or_recover lib room file")
  case (Inr rc)
  then obtain ls rest s where r: "file_bytes file = unlines ls @ rest" "list_all one_line ls"
    "scan_lines lib ls scan_start = (s, [])" "rc = recovered s room ls rest"
    by (rule recover_ok)
  have "create_or_recover lib room' (Some (unlines ls)) = Inr (recovered s room' ls [])"
    using recover_valid [OF r(2) _ r(3), of "[]" room'] by simp
  moreover have "vr_passed (chain_verify lib (unlines ls))"
    using verify_passed_lines [OF r(2), of "[]" lib] r(3) by simp
  ultimately show ?thesis
    using Inr r(1) by (simp add: r(4) recovered_def bw_new_def Let_def)
qed simp

text \<open>C7. Appended records read back. When every append and the flush succeeded, the file
  passes verification with one record more per append, and recovering it returns the
  records that were there followed by the appended ones, in order. The assumption is that
  the payloads have an exact JSON text.\<close>

theorem appended_records_read_back:
  assumes "serde_exact ok lib" and "list_all (exact_text ok lib) raws"
    and "create_or_recover lib room file = Inr rc"
    and "append_run lib version raws (rc_store rc) = (rs, s)" and "length rs = length raws"
    and "is_ok (fst (chain_flush s))"
  shows "let kept = bw_disk (hs_writer (snd (chain_flush s))); report = chain_verify lib kept in
     vr_passed report \<and> vr_record_count report = length (rc_records rc) + length raws
     \<and> (case create_or_recover lib room' (Some kept) of
          Inl _ \<Rightarrow> False
        | Inr rc' \<Rightarrow> rc_records rc' = rc_records rc @ rs \<and> rc_quarantined rc' = None
            \<and> rc_next_sequence rc' = sat_add (hs_sequence s) 1)"
proof -
  from assms(3) obtain ls rest sc where r: "list_all one_line ls"
    "scan_lines lib ls scan_start = (sc, [])" "rc = recovered sc room ls rest"
    by (rule recover_ok)
  have "store_holds lib ls sc (rc_store rc)" unfolding r(3) by (rule recovered_holds [OF r(1,2)])
  from append_run_stream [OF assms(1,2) this, of version] assms(4,5) obtain ls' sc' where
    h: "store_holds lib (ls @ ls') sc' s" "cs_records sc' = cs_records sc @ rs" by auto
  have fl: "bw_disk (hs_writer (snd (chain_flush s))) = unlines (ls @ ls')"
  proof -
    obtain res w where f: "bw_flush (hs_writer s) = (res, w)" by (cases "bw_flush (hs_writer s)")
    with assms(6) have "is_ok res" by (cases res) (simp_all add: chain_flush_def)
    with f bw.flush_ok [of "hs_writer s"] h(1) show ?thesis
      by (simp add: chain_flush_def store_holds_def)
  qed
  have one: "list_all one_line (ls @ ls')" and sc: "scan_lines lib (ls @ ls') scan_start = (sc', [])"
    and sq: "cs_sequence sc' = hs_sequence s" using h(1) by (simp_all add: store_holds_def)
  have rec: "create_or_recover lib room' (Some (unlines (ls @ ls'))) = Inr (recovered sc' room' (ls @ ls') [])"
    using recover_valid [OF one _ sc, of "[]" room'] by simp
  show ?thesis
    unfolding Let_def fl rec verify_report_lines [OF one sc]
    by (simp add: recovered_def h(2) r(3) assms(5) sq)
qed

text \<open>C8. A torn file recovers. After any run of appends and flushes, the last append of which may
  have failed half way for want of room, let any beginning of what was handed to the writer be left of
  the file; what is on the disk is one, whether flushed, flushed in part or not at all, and so is the disk cut at
  any byte. Recovery accepts it and returns exactly the records whose lines were left to their end:
  of the records that were there followed by the appended ones as many as there are
  line ends. And it leaves a file that passes verification. The assumption is that
  the payloads have an exact JSON text.\<close>

theorem torn_file_recovers:
  assumes "serde_exact ok lib" and "list_all (op_exact ok lib) ops"
    and "create_or_recover lib room file = Inr rc"
    and "store_run lib version ops (rc_store rc) = (rs, s)"
    and "prefix left (bw_stream (hs_writer s))"
  shows "prefix (bw_disk (hs_writer s)) (bw_stream (hs_writer s))
     \<and> (\<exists>rc'. create_or_recover lib room' (Some left) = Inr rc'
          \<and> rc_records rc' = take (complete_lines left) (rc_records rc @ rs)
          \<and> vr_passed (chain_verify lib (bw_disk (hs_writer (rc_store rc')))))"
proof -
  from assms(3) obtain ls rest sc where r: "list_all one_line ls"
    "scan_lines lib ls scan_start = (sc, [])" "rc = recovered sc room ls rest"
    by (rule recover_ok)
  have "store_holds lib ls sc (rc_store rc)" unfolding r(3) by (rule recovered_holds [OF r(1,2)])
  from store_run_stream [OF assms(1,2) this, of version] assms(4) obtain ls' sc' t where
    h: "bw_stream (hs_writer s) = unlines (ls @ ls') @ t" "list_all one_line (ls @ ls')"
    "scan_lines lib (ls @ ls') scan_start = (sc', [])" "cs_records sc' = cs_records sc @ rs"
    "one_line t" by auto
  have "prefix left (unlines (ls @ ls') @ t)" using assms(5) h(1) by simp
  from recover_torn [OF h(2,5,3) this, of room'] h(4) r(3) bw.disk_prefix [of "hs_writer s"]
  show ?thesis by (simp add: recovered_def)
qed

text \<open>C14. Tamper evidence. Two timelines that pass verification with the same number of
  records and the same last hash hold the same records (version, sequence, hashes and
  canonical payload of each), unless two of their records exhibit a collision of SHA-256.
  The assumption is that a digest has 32 bytes.\<close>

theorem same_hash_same_records:
  assumes "\<And>m. length (cl_sha256 lib m) = 32"
    and "create_or_recover lib room (Some a) = Inr ra" and "create_or_recover lib room (Some b) = Inr rb"
    and "rc_previous_hash ra = rc_previous_hash rb"
    and "length (rc_records ra) = length (rc_records rb)"
  shows "map (record_content lib) (rc_records ra) = map (record_content lib) (rc_records rb)
     \<or> colliding lib (rc_records ra) (rc_records rb)"
proof -
  have link: "linked lib (rc_previous_hash rc) (rev (rc_records rc))"
    if "create_or_recover lib room (Some x) = Inr rc" for x rc
  proof -
    from that obtain ls rest s where "scan_lines lib ls scan_start = (s, [])" "rc = recovered s room ls rest"
      by (rule recover_ok)
    from scan_linked [OF this(1)] this(2) show ?thesis
      by (simp add: scan_start_def recovered_def)
  qed
  from linked_determined [OF assms(1) link [OF assms(2)], of "rev (rc_records rb)"]
    link [OF assms(3)] assms(4,5)
  show ?thesis by (simp add: colliding_rev flip: rev_map)
qed

section \<open>The assumptions can hold\<close>

definition sample_record :: "string chain_record" where
  "sample_record =
     \<lparr>cr_schema_version = 1, cr_sequence = 1, cr_previous_hash = zero_hash,
      cr_record_hash = calculate_hash sample_lib 1 1 zero_hash (json_string ''a''), cr_payload = ''a''\<rparr>"

definition sample_line :: string where
  "sample_line = json_string ''a'' @ json_string zero_hash @ json_string (cr_record_hash sample_record) @ ''1,1''"

abbreviation sample_start :: "string recovery" where
  "sample_start \<equiv> recovered scan_start (length sample_line + 1) [] []"

lemma sample_append:
  "\<exists>s. append_run sample_lib 1 [json_string ''a''] (rc_store sample_start) = ([sample_record], s)
     \<and> is_ok (fst (chain_flush s))"
proof -
  let ?w = "bw_new [] (length sample_line + 1)"
  define w1 where "w1 = snd (bw_write_all sample_line ?w)"
  define w2 where "w2 = snd (bw_write_all [ch_nl] w1)"
  have a: "bw_write_all sample_line ?w = (Inr (), w1)" "length (bw_buffer w1) + 1 = bw_room w1"
    using bw_write_room [of ?w sample_line] unfolding w1_def
    by (simp_all add: bw_new_def is_ok_iff prod_eq_iff)
  then have b: "bw_write_all [ch_nl] w1 = (Inr (), w2)" "length (bw_buffer w2) = bw_room w2"
    using bw_write_room [of w1 "[ch_nl]"] unfolding w2_def
    by (simp_all add: is_ok_iff prod_eq_iff)
  have parse: "cl_parse_value sample_lib (json_string ''a'') = Inr ''a''"
    using json_str.dec_enc [of "''a''"] by (simp add: sample_lib_def split: option.splits list.splits prod.splits)
  have one: "sat_add (0::u64) 1 = 1" by (simp add: sat_add_def)
  have "dec_str 1 = ''1''" by code_simp
  then have prt: "cl_print_record sample_lib sample_record = Inr sample_line"
    by (simp add: sample_lib_def sample_print_def sample_record_def sample_line_def)
  have pv: "cl_print_value sample_lib v = Inr (json_string v)" for v by (simp add: sample_lib_def)
  have "append_json sample_lib 1 (json_string ''a'') (rc_store sample_start) =
     (Inr sample_record, \<lparr>hs_writer = w2, hs_sequence = 1, hs_previous_hash = cr_record_hash sample_record\<rparr>)"
    using a(1) b(1) prt unfolding append_json_def parse sample_record_def
    by (simp add: pv recovered_def scan_start_def one Let_def)
  moreover have "is_ok (fst (chain_flush \<lparr>hs_writer = w2, hs_sequence = 1,
      hs_previous_hash = cr_record_hash sample_record\<rparr>))"
    using b(2) by (simp add: chain_flush_def bw_flush_room)
  ultimately show ?thesis by simp
qed

lemma sample_exact: "list_all (exact_text (\<lambda>_. True) sample_lib) raws"
  by (simp add: list_all_iff exact_text_def split: sum.splits)

lemma sample_recover: "create_or_recover sample_lib (length sample_line + 1) None = Inr sample_start"
  using recover_valid [of "[]" "[]" sample_lib scan_start "length sample_line + 1"]
  by (simp add: create_or_recover_def)

lemma appended_records_read_back_witness:
  "\<exists>s :: hash_chain_store. let kept = bw_disk (hs_writer (snd (chain_flush s))); report = chain_verify sample_lib kept in
     vr_passed report \<and> vr_record_count report = length (rc_records sample_start) + 1
     \<and> (case create_or_recover sample_lib 0 (Some kept) of
          Inl _ \<Rightarrow> False
        | Inr rc' \<Rightarrow> rc_records rc' = rc_records sample_start @ [sample_record] \<and> rc_quarantined rc' = None
            \<and> rc_next_sequence rc' = sat_add (hs_sequence s) 1)"
proof -
  obtain s where s: "append_run sample_lib 1 [json_string ''a''] (rc_store sample_start) = ([sample_record], s)"
    "is_ok (fst (chain_flush s))" using sample_append by blast
  from appended_records_read_back [OF sample_lib_exact sample_exact sample_recover s(1) _ s(2), of 0]
  show ?thesis by (intro exI [of _ s]) simp
qed

lemma sample_flushed:
  "\<exists>s. store_run sample_lib 1 [StoreAppend (json_string ''a''), StoreFlush] (rc_store sample_start) = ([sample_record], s)
     \<and> complete_lines (bw_stream (hs_writer s)) = 1"
proof -
  obtain s where s: "append_run sample_lib 1 [json_string ''a''] (rc_store sample_start) = ([sample_record], s)"
    using sample_append by blast
  then have one: "append_json sample_lib 1 (json_string ''a'') (rc_store sample_start) = (Inr sample_record, s)"
    by (auto split: prod.splits sum.splits)
  have "store_holds sample_lib [] scan_start (rc_store sample_start)"
    by (rule recovered_holds) simp_all
  from append_ok_holds [OF sample_lib_exact _ this one] sample_exact [of "[json_string ''a'']"]
  obtain line sc where "store_holds sample_lib [line] sc s" by auto
  then have "store_holds sample_lib [line] sc (snd (chain_flush s))" by (rule chain_flush_holds)
  then have "complete_lines (bw_stream (hs_writer (snd (chain_flush s)))) = 1"
    using complete_lines_unlines [of "[line]" "[]"] by (simp add: store_holds_def)
  with one show ?thesis by simp
qed

lemma torn_file_recovers_witness:
  "\<exists>(s :: hash_chain_store) (rc' :: string recovery).
     create_or_recover sample_lib 0 (Some (bw_stream (hs_writer s))) = Inr rc' \<and> rc_records rc' = [sample_record]"
proof -
  obtain s where s: "store_run sample_lib 1 [StoreAppend (json_string ''a''), StoreFlush] (rc_store sample_start)
      = ([sample_record], s)" "complete_lines (bw_stream (hs_writer s)) = 1"
    using sample_flushed by blast
  have "list_all (op_exact (\<lambda>_. True) sample_lib) [StoreAppend (json_string ''a''), StoreFlush]"
    using sample_exact [of "[json_string ''a'']"] by simp
  from torn_file_recovers [OF sample_lib_exact this sample_recover s(1) prefix_order.refl, of 0] s(2)
  show ?thesis by (auto simp: recovered_def scan_start_def)
qed

lemma same_hash_same_records_witness:
  "\<exists>(s :: hash_chain_store) (ra :: string recovery). create_or_recover sample_lib 0 (Some (bw_disk (hs_writer s))) = Inr ra
     \<and> (map (record_content sample_lib) (rc_records ra) = map (record_content sample_lib) (rc_records ra)
        \<or> colliding sample_lib (rc_records ra) (rc_records ra))"
proof -
  obtain ls where ls: "list_all one_line ls" "scan_lines sample_lib ls scan_start = (scan_start, [])"
    by (rule that [of "[]"]) simp_all
  have rec: "create_or_recover sample_lib 0 (Some (unlines ls)) = Inr (recovered scan_start 0 ls [])"
    using recover_valid [OF ls(1) _ ls(2), of "[]" 0] by simp
  from same_hash_same_records [OF sample_digest_length rec rec refl refl] rec show ?thesis
    by (intro exI [of _ "\<lparr>hs_writer = bw_new (unlines ls) 0, hs_sequence = 0, hs_previous_hash = []\<rparr>"])
      (simp add: bw_new_def)
qed

end
