(* ===== verification/Jsonl_Store.thy ===== *)
theory Jsonl_Store
  imports Buf_Writer
begin

text \<open>
  The JSONL timeline with bounded rotation (\<open>crates/apolysis-store/src/lib.rs\<close>): appending
  one line per record, deciding when to rotate, and shifting the archives. Refinement of an
  abstract log of whole lines: a current file, and the archives from the newest on.
\<close>

section \<open>The store\<close>

record rotation_policy =
  rp_max_file_bytes :: u64
  rp_max_archived_files :: nat

text \<open>
  The active file is the writer's; \<open>js_files\<close> are the other files of the directory. The
  store is the only process that renames or removes them. A record is given by its JSON
  line (\<open>to_json_line\<close>).
\<close>

record jsonl_store =
  js_writer :: buf_writer
  js_path :: string
  js_current_bytes :: u64
  js_rotation :: "rotation_policy option"
  js_files :: "string \<Rightarrow> string option"

definition archive_path :: "string \<Rightarrow> nat \<Rightarrow> string" where
  "archive_path path index = path @ ''.'' @ dec_str index"

definition validate_rotation_policy :: "rotation_policy \<Rightarrow> (string, unit) res" where
  "validate_rotation_policy p =
     (if rp_max_file_bytes p = 0 then Inl ''max_file_bytes must be greater than zero''
      else if rp_max_archived_files p = 0 then Inl ''max_archived_files must be greater than zero''
      else Inr ())"

text \<open>
  A new store starts from an empty file. The errors of making its directory and of creating the
  file, which end the creation, are left out.
\<close>

definition jsonl_create ::
    "string \<Rightarrow> rotation_policy option \<Rightarrow> nat \<Rightarrow> (string \<Rightarrow> string option) \<Rightarrow> (string, jsonl_store) res" where
  "jsonl_create path rotation room files =
     (case (case rotation of Some p \<Rightarrow> validate_rotation_policy p | None \<Rightarrow> Inr ()) of
        Inl e \<Rightarrow> Inl e
      | Inr _ \<Rightarrow>
          Inr \<lparr>js_writer = bw_new [] room, js_path = path, js_current_bytes = 0,
               js_rotation = rotation, js_files = files\<rparr>)"

definition should_rotate_before :: "u64 \<Rightarrow> jsonl_store \<Rightarrow> bool" where
  "should_rotate_before next_line_bytes s =
     (case js_rotation s of
        None \<Rightarrow> False
      | Some p \<Rightarrow>
          0 < js_current_bytes s
          \<and> rp_max_file_bytes p < sat_add (js_current_bytes s) next_line_bytes)"

definition rename_if_exists :: "string \<Rightarrow> string \<Rightarrow> (string \<Rightarrow> string option) \<Rightarrow> (string \<Rightarrow> string option)" where
  "rename_if_exists source target files =
     (case files source of
        None \<Rightarrow> files
      | Some c \<Rightarrow> (files(target := Some c))(source := None))"

text \<open>The loop over \<open>(1..max_archived_files).rev()\<close>, from its highest index down.\<close>

fun shift_archives :: "string \<Rightarrow> nat \<Rightarrow> (string \<Rightarrow> string option) \<Rightarrow> (string \<Rightarrow> string option)" where
  "shift_archives path 0 files = files"
| "shift_archives path (Suc n) files =
     shift_archives path n
       (rename_if_exists (archive_path path (Suc n)) (archive_path path (Suc n + 1)) files)"

text \<open>Removing the oldest archive gives its room back to the device.\<close>

definition jsonl_rotate :: "jsonl_store \<Rightarrow> (string, unit) res \<times> jsonl_store" where
  "jsonl_rotate s =
     (case js_rotation s of
        None \<Rightarrow> (Inr (), s)
      | Some p \<Rightarrow>
          (case bw_flush (js_writer s) of
             (Inl e, w) \<Rightarrow> (Inl e, s\<lparr>js_writer := w\<rparr>)
           | (Inr _, w) \<Rightarrow>
               (let oldest = archive_path (js_path s) (rp_max_archived_files p);
                    freed = (case js_files s oldest of Some c \<Rightarrow> length c | None \<Rightarrow> 0);
                    shifted = shift_archives (js_path s) (rp_max_archived_files p - 1)
                                ((js_files s)(oldest := None));
                    files = shifted(archive_path (js_path s) 1 := Some (bw_disk w))
                in (Inr (), s\<lparr>js_writer := bw_new [] (bw_room w + freed),
                              js_current_bytes := 0, js_files := files\<rparr>))))"

definition jsonl_append :: "string \<Rightarrow> jsonl_store \<Rightarrow> (string, unit) res \<times> jsonl_store" where
  "jsonl_append line s =
     (if 2 ^ 64 \<le> length line then (Inl ''JSONL record too large'', s)
      else
        (let line_len = sat_add (of_nat (length line)) 1;
             (res, s1) = (if should_rotate_before line_len s then jsonl_rotate s else (Inr (), s))
         in
           (case res of
              Inl e \<Rightarrow> (Inl e, s1)
            | Inr _ \<Rightarrow>
                (case bw_write_all line (js_writer s1) of
                   (Inl e, w) \<Rightarrow> (Inl e, s1\<lparr>js_writer := w\<rparr>)
                 | (Inr _, w) \<Rightarrow>
                     (case bw_write_all [ch_nl] w of
                        (Inl e, w') \<Rightarrow> (Inl e, s1\<lparr>js_writer := w'\<rparr>)
                      | (Inr _, w') \<Rightarrow>
                          (Inr (),
                           s1\<lparr>js_writer := w',
                              js_current_bytes := sat_add (js_current_bytes s1) line_len\<rparr>))))))"

definition jsonl_flush :: "jsonl_store \<Rightarrow> (string, unit) res \<times> jsonl_store" where
  "jsonl_flush s = (let (res, w) = bw_flush (js_writer s) in (res, s\<lparr>js_writer := w\<rparr>))"

section \<open>The abstract log\<close>

text \<open>
  The lines of the current file, and those of the archives, newest first. A line that does
  not fit moves the current file to the front of the archives, of which the newest are kept.
\<close>

type_synonym line_log = "string list \<times> string list list"

definition log_bytes :: "string list \<Rightarrow> nat" where
  "log_bytes ls = sum_list (map (\<lambda>l. length l + 1) ls)"

definition over_budget :: "nat \<Rightarrow> string list \<Rightarrow> string \<Rightarrow> bool" where
  "over_budget b cur line \<longleftrightarrow> cur \<noteq> [] \<and> b < min (log_bytes cur + (length line + 1)) (2 ^ 64 - 1)"

fun spec_append :: "rotation_policy option \<Rightarrow> string \<Rightarrow> line_log \<Rightarrow> line_log" where
  "spec_append None line (cur, old) = (cur @ [line], old)"
| "spec_append (Some p) line (cur, old) =
     (if over_budget (unat (rp_max_file_bytes p)) cur line
      then ([line], take (rp_max_archived_files p) (cur # old))
      else (cur @ [line], old))"

definition log_text :: "string list \<Rightarrow> string" where
  "log_text ls = concat (map (\<lambda>l. l @ [ch_nl]) ls)"

lemma log_text_simps [simp]:
  "log_text [] = []" "log_text (ls @ [l]) = log_text ls @ l @ [ch_nl]"
  by (simp_all add: log_text_def)

lemma length_log_text: "length (log_text ls) = log_bytes ls"
  by (induction ls) (simp_all add: log_text_def log_bytes_def)

lemma log_bytes_snoc [simp]: "log_bytes (ls @ [l]) = log_bytes ls + (length l + 1)"
  by (simp add: log_bytes_def)

lemma log_bytes_zero: "log_bytes ls = 0 \<longleftrightarrow> ls = []"
  by (cases ls) (simp_all add: log_bytes_def)

text \<open>The store implements a log when every archive, and no other, holds its lines.\<close>

definition archives_are :: "jsonl_store \<Rightarrow> string list list \<Rightarrow> bool" where
  "archives_are s old \<longleftrightarrow>
     (\<forall>i. js_files s (archive_path (js_path s) (Suc i)) =
            (if i < length old then Some (log_text (old ! i)) else None))"

definition implements_log :: "jsonl_store \<Rightarrow> line_log \<Rightarrow> bool" where
  "implements_log s lg \<longleftrightarrow>
     bw_stream (js_writer s) = log_text (fst lg)
     \<and> unat (js_current_bytes s) = min (log_bytes (fst lg)) (2 ^ 64 - 1)
     \<and> archives_are s (snd lg)
     \<and> (case js_rotation s of
          None \<Rightarrow> snd lg = []
        | Some p \<Rightarrow> 0 < rp_max_archived_files p \<and> length (snd lg) \<le> rp_max_archived_files p)"

section \<open>Shifting the archives\<close>

lemma archive_path_inj [simp]: "archive_path path i = archive_path path j \<longleftrightarrow> i = j"
  by (simp add: archive_path_def dec_str_inj)

lemma shift_archives_at:
  "files (archive_path path (Suc n)) = None \<Longrightarrow>
   shift_archives path n files (archive_path path i) =
     (if i = 1 \<and> 0 < n then None
      else if 1 < i \<and> i \<le> Suc n then files (archive_path path (i - 1))
      else files (archive_path path i))"
proof (induction n arbitrary: files)
  case (Suc n)
  let ?ap = "archive_path path"
  let ?f = "rename_if_exists (?ap (Suc n)) (?ap (Suc n + 1)) files"
  have f: "?f (?ap j) =
      (if j = Suc n then None else if j = Suc n + 1 then files (?ap (Suc n)) else files (?ap j))" for j
    using Suc.prems by (cases "files (?ap (Suc n))") (auto simp: rename_if_exists_def)
  have "?f (?ap (Suc n)) = None" using f [of "Suc n"] by simp
  note ih = Suc.IH [where files = ?f, OF this]
  show ?case
    unfolding shift_archives.simps ih f by auto
qed auto

lemma unat_sat_min:
  assumes "unat (x :: u64) = min a (2 ^ 64 - 1)" and "unat y = min b (2 ^ 64 - 1)"
  shows "unat (sat_add x y) = min (a + b) (2 ^ 64 - 1)"
  using assms by (simp add: unat_sat_add min_def split: if_splits)

lemma unat_line_len:
  assumes "length line < 2 ^ 64"
  shows "unat (sat_add (of_nat (length line) :: u64) 1) = min (length line + 1) (2 ^ 64 - 1)"
proof -
  have "unat (of_nat (length line) :: u64) = length line"
    using assms by (simp add: unsigned_of_nat take_bit_nat_eq_self)
  then show ?thesis by (simp add: unat_sat_add)
qed

section \<open>The store implements the log\<close>

lemma should_rotate_iff:
  assumes "implements_log s (cur, old)" and "length line < 2 ^ 64"
  shows "should_rotate_before (sat_add (of_nat (length line)) 1) s \<longleftrightarrow>
    (case js_rotation s of None \<Rightarrow> False | Some p \<Rightarrow> over_budget (unat (rp_max_file_bytes p)) cur line)"
proof -
  have cb: "unat (js_current_bytes s) = min (log_bytes cur) (2 ^ 64 - 1)"
    using assms(1) by (simp add: implements_log_def)
  then have "0 < js_current_bytes s \<longleftrightarrow> cur \<noteq> []"
    using log_bytes_zero [of cur] by (auto simp: word_less_nat_alt min_def split: if_splits)
  moreover have "unat (sat_add (js_current_bytes s) (sat_add (of_nat (length line)) 1)) =
      min (log_bytes cur + (length line + 1)) (2 ^ 64 - 1)"
    by (rule unat_sat_min [OF cb unat_line_len [OF assms(2)]])
  ultimately show ?thesis
    by (simp add: should_rotate_before_def over_budget_def word_less_nat_alt split: option.splits)
qed

lemma rotate_implements:
  assumes impl: "implements_log s (cur, old)" and p: "js_rotation s = Some p"
    and res: "jsonl_rotate s = (Inr u, s')"
  shows "implements_log s' ([], take (rp_max_archived_files p) (cur # old))"
    and "js_rotation s' = Some p"
proof -
  let ?k = "rp_max_archived_files p" and ?ap = "archive_path (js_path s)"
  have k: "0 < ?k" and len: "length old \<le> ?k" and str: "bw_stream (js_writer s) = log_text cur"
    and arch: "archives_are s old"
    using impl p by (simp_all add: implements_log_def)
  obtain w where w: "bw_flush (js_writer s) = (Inr (), w)"
    using res p by (auto simp: jsonl_rotate_def split: prod.splits sum.splits)
  have disk: "bw_disk w = log_text cur"
    using bw.flush_ok [of "js_writer s"] w str by simp
  have at: "js_files s (?ap i) = (if 1 \<le> i \<and> i \<le> length old then Some (log_text (old ! (i - 1))) else None)"
    if "1 \<le> i" for i
    using arch that by (cases i) (auto simp: archives_are_def)
  let ?cut = "(js_files s)(?ap ?k := None)"
  have k_eq: "Suc (?k - 1) = ?k" using k by simp
  have "?cut (?ap (Suc (?k - 1))) = None" unfolding k_eq by simp
  note sh = shift_archives_at [where files = ?cut, OF this]
  have files: "js_files s' (?ap (Suc i)) =
      (if i < length (take ?k (cur # old)) then Some (log_text (take ?k (cur # old) ! i)) else None)" for i
  proof (cases i)
    case 0
    with res p w k show ?thesis by (auto simp: jsonl_rotate_def disk Let_def)
  next
    case (Suc j)
    have "js_files s' (?ap (Suc i)) = shift_archives (js_path s) (?k - 1) ?cut (?ap (Suc i))"
      using res p w Suc by (auto simp: jsonl_rotate_def Let_def)
    also have "\<dots> = (if Suc i \<le> ?k then ?cut (?ap i) else ?cut (?ap (Suc i)))"
      unfolding sh k_eq using Suc by simp
    also have "\<dots> = (if Suc i \<le> ?k then js_files s (?ap i) else None)"
      using len at [of "Suc i"] Suc by simp
    also have "\<dots> = (if i < length (take ?k (cur # old)) then Some (log_text (take ?k (cur # old) ! i)) else None)"
      using at [of i] Suc by (auto simp: min_def)
    finally show ?thesis .
  qed
  have path: "js_path s' = js_path s" and "js_rotation s' = Some p"
    and cur: "js_current_bytes s' = 0" "bw_stream (js_writer s') = []"
    using res p w by (auto simp: jsonl_rotate_def Let_def bw_new_def bw_stream_def)
  then show "implements_log s' ([], take ?k (cur # old))" "js_rotation s' = Some p"
    using files k by (simp_all add: implements_log_def archives_are_def log_bytes_def)
qed

lemma append_implements:
  assumes impl: "implements_log s lg" and res: "jsonl_append line s = (Inr u, s')"
  shows "implements_log s' (spec_append (js_rotation s) line lg) \<and> js_rotation s' = js_rotation s"
proof -
  obtain cur old where lg: "lg = (cur, old)" by (cases lg)
  have short: "length line < 2 ^ 64" using res by (simp add: jsonl_append_def split: if_splits)
  let ?len = "sat_add (of_nat (length line)) 1 :: u64"
  define p where "p = (if should_rotate_before ?len s then jsonl_rotate s else (Inr (), s))"
  have app: "jsonl_append line s =
      (case fst p of
         Inl e \<Rightarrow> (Inl e, snd p)
       | Inr _ \<Rightarrow>
           (case bw.write_list [line, [ch_nl]] (js_writer (snd p)) of
              (Inl e, w) \<Rightarrow> (Inl e, (snd p)\<lparr>js_writer := w\<rparr>)
            | (Inr _, w) \<Rightarrow>
                (Inr (), (snd p)\<lparr>js_writer := w,
                   js_current_bytes := sat_add (js_current_bytes (snd p)) ?len\<rparr>)))"
    using short by (simp add: jsonl_append_def Let_def p_def case_prod_beta split: sum.splits)
  obtain u1 s1 where p1: "p = (Inr u1, s1)"
    using res app by (cases p; cases "fst p") auto
  obtain u2 w where wl: "bw.write_list [line, [ch_nl]] (js_writer s1) = (Inr u2, w)"
    using res app p1 by (auto split: prod.splits sum.splits)
  have s': "s' = s1\<lparr>js_writer := w, js_current_bytes := sat_add (js_current_bytes s1) ?len\<rparr>"
    using res app p1 wl by simp
  obtain cur1 old1 where i1: "implements_log s1 (cur1, old1)" "js_rotation s1 = js_rotation s"
    and sp: "spec_append (js_rotation s) line lg = (cur1 @ [line], old1)"
  proof (cases "js_rotation s")
    case None
    then have "s1 = s" using p1 by (simp add: p_def should_rotate_before_def)
    with impl lg None that [of cur old] show ?thesis by simp
  next
    case (Some q)
    note r = should_rotate_iff [OF impl [unfolded lg] short]
    show ?thesis
    proof (cases "over_budget (unat (rp_max_file_bytes q)) cur line")
      case True
      with r Some p1 have rot: "jsonl_rotate s = (Inr u1, s1)" by (simp add: p_def)
      from rotate_implements [OF impl [unfolded lg] Some rot] True Some lg
      show ?thesis by (intro that) simp_all
    next
      case False
      with r Some p1 have "s1 = s" by (simp add: p_def)
      with impl lg Some False that [of cur old] show ?thesis by simp
    qed
  qed
  have "bw_stream w = log_text cur1 @ line @ [ch_nl]"
    using bw.write_list_ok [of "[line, [ch_nl]]" "js_writer s1"] wl i1(1)
    by (simp add: implements_log_def)
  moreover have "unat (sat_add (js_current_bytes s1) ?len) =
      min (log_bytes (cur1 @ [line])) (2 ^ 64 - 1)"
    using unat_sat_min [OF _ unat_line_len [OF short]] i1(1) by (simp add: implements_log_def)
  ultimately show ?thesis
    using i1 by (auto simp: s' sp implements_log_def archives_are_def split: option.splits)
qed

lemma run_implements:
  "implements_log s lg \<Longrightarrow> list_all is_ok (fst (run_ops jsonl_append lines s)) \<Longrightarrow>
   implements_log (snd (run_ops jsonl_append lines s)) (fold (spec_append (js_rotation s)) lines lg)
   \<and> js_rotation (snd (run_ops jsonl_append lines s)) = js_rotation s"
proof (induction lines arbitrary: s lg)
  case (Cons line lines)
  obtain u s1 where a: "jsonl_append line s = (Inr u, s1)"
    using Cons.prems(2) by (cases "jsonl_append line s") (auto simp: Let_def is_ok_iff)
  have i: "implements_log s1 (spec_append (js_rotation s) line lg)" "js_rotation s1 = js_rotation s"
    using append_implements [OF Cons.prems(1) a] by simp_all
  have "list_all is_ok (fst (run_ops jsonl_append lines s1))"
    using Cons.prems(2) a by (simp add: Let_def)
  from Cons.IH [OF i(1) this] i(2) a show ?case by (simp add: Let_def)
qed simp

section \<open>What the log keeps\<close>

abbreviation spec_run :: "rotation_policy option \<Rightarrow> string list \<Rightarrow> line_log" where
  "spec_run policy lines \<equiv> fold (spec_append policy) lines ([], [])"

text \<open>The files, oldest first, hold the latest lines in the order they were appended.\<close>

lemma spec_suffix:
  "\<exists>dropped. concat (rev (snd lg0)) @ fst lg0 @ lines =
     dropped @ concat (rev (snd (fold (spec_append policy) lines lg0))) @ fst (fold (spec_append policy) lines lg0)"
proof (induction lines arbitrary: lg0)
  case (Cons line lines)
  obtain cur old where lg: "lg0 = (cur, old)" by (cases lg0)
  have "\<exists>d. concat (rev old) @ cur @ [line] =
      d @ concat (rev (snd (spec_append policy line lg0))) @ fst (spec_append policy line lg0)"
  proof (cases policy)
    case (Some p)
    have "concat (rev (cur # old)) =
        concat (rev (drop (rp_max_archived_files p) (cur # old)))
        @ concat (rev (take (rp_max_archived_files p) (cur # old)))"
      by (metis append_take_drop_id concat_append rev_append)
    then show ?thesis using Some lg by auto
  qed (simp add: lg)
  then obtain d where d: "concat (rev old) @ cur @ [line] =
      d @ concat (rev (snd (spec_append policy line lg0))) @ fst (spec_append policy line lg0)" by blast
  obtain d' where d': "concat (rev (snd (spec_append policy line lg0))) @ fst (spec_append policy line lg0) @ lines =
      d' @ concat (rev (snd (fold (spec_append policy) lines (spec_append policy line lg0))))
        @ fst (fold (spec_append policy) lines (spec_append policy line lg0))"
    using Cons.IH [of "spec_append policy line lg0"] by auto
  have "concat (rev old) @ cur @ line # lines = (concat (rev old) @ cur @ [line]) @ lines" by simp
  also have "\<dots> = d @ d' @ concat (rev (snd (fold (spec_append policy) lines (spec_append policy line lg0))))
        @ fst (fold (spec_append policy) lines (spec_append policy line lg0))"
    unfolding d using d' by simp
  finally show ?case by (intro exI [of _ "d @ d'"]) (simp add: lg)
qed simp

text \<open>Every file stays within the budget, or is one line that exceeds it alone.\<close>

definition within_budget :: "rotation_policy \<Rightarrow> string list \<Rightarrow> bool" where
  "within_budget p ls \<longleftrightarrow>
     log_bytes ls \<le> unat (rp_max_file_bytes p) \<or> length ls = 1 \<or> unat (rp_max_file_bytes p) = 2 ^ 64 - 1"

lemma spec_budget:
  "within_budget p (fst lg) \<Longrightarrow> list_all (within_budget p) (snd lg) \<Longrightarrow>
   within_budget p (fst (fold (spec_append (Some p)) lines lg))
   \<and> list_all (within_budget p) (snd (fold (spec_append (Some p)) lines lg))"
proof (induction lines arbitrary: lg)
  case (Cons line lines)
  obtain cur old where lg: "lg = (cur, old)" by (cases lg)
  have "unat (rp_max_file_bytes p) < 2 ^ LENGTH(64)" by (rule unsigned_less)
  then have top: "unat (rp_max_file_bytes p) \<le> 2 ^ 64 - 1" by simp
  have "within_budget p (fst (spec_append (Some p) line lg))
      \<and> list_all (within_budget p) (snd (spec_append (Some p) line lg))"
  proof (cases "over_budget (unat (rp_max_file_bytes p)) cur line")
    case True
    with Cons.prems lg show ?thesis
      by (auto simp: list_all_iff within_budget_def dest!: in_set_takeD)
  next
    case False
    have "within_budget p (cur @ [line])"
    proof (cases "cur = []")
      case True
      then show ?thesis by (simp add: within_budget_def)
    next
      case nonempty: False
      with False top show ?thesis
        by (auto simp: over_budget_def within_budget_def min_def split: if_splits)
    qed
    with False Cons.prems lg show ?thesis by simp
  qed
  then show ?case using Cons.IH [of "spec_append (Some p) line lg"] by simp
qed simp

text \<open>A file is rotated away only when it holds something and the first line of the next does not fit.\<close>

definition rotated_late :: "rotation_policy \<Rightarrow> string list \<Rightarrow> string list \<Rightarrow> bool" where
  "rotated_late p newer older \<longleftrightarrow>
     newer \<noteq> [] \<and> older \<noteq> []
     \<and> unat (rp_max_file_bytes p) < log_bytes older + length (hd newer) + 1"

lemma successively_take: "successively P xs \<Longrightarrow> successively P (take n xs)"
  by (metis append_take_drop_id successively_append_iff)

lemma spec_rotates_late:
  "successively (rotated_late p) (fst lg # snd lg) \<Longrightarrow>
   successively (rotated_late p)
     (fst (fold (spec_append (Some p)) lines lg) # snd (fold (spec_append (Some p)) lines lg))"
proof (induction lines arbitrary: lg)
  case (Cons line lines)
  obtain cur old where lg: "lg = (cur, old)" by (cases lg)
  have "successively (rotated_late p) (fst (spec_append (Some p) line lg) # snd (spec_append (Some p) line lg))"
  proof (cases "over_budget (unat (rp_max_file_bytes p)) cur line")
    case True
    then have "rotated_late p [line] cur" by (auto simp: rotated_late_def over_budget_def)
    then have "successively (rotated_late p) ([line] # cur # old)" using Cons.prems lg by simp
    then have "successively (rotated_late p) (take (Suc (rp_max_archived_files p)) ([line] # cur # old))"
      by (rule successively_take)
    with True lg show ?thesis by simp
  next
    case False
    with Cons.prems lg show ?thesis
      by (cases old) (auto simp: rotated_late_def)
  qed
  then show ?case using Cons.IH [of "spec_append (Some p) line lg"] by simp
qed simp

text \<open>Nothing is given up before all the archives are in use.\<close>

lemma spec_drops_late:
  "(length (snd lg) < rp_max_archived_files p \<Longrightarrow> concat (rev (snd lg)) @ fst lg = before) \<Longrightarrow>
   length (snd (fold (spec_append (Some p)) lines lg)) < rp_max_archived_files p \<Longrightarrow>
   concat (rev (snd (fold (spec_append (Some p)) lines lg))) @ fst (fold (spec_append (Some p)) lines lg)
     = before @ lines"
proof (induction lines arbitrary: lg before)
  case (Cons line lines)
  obtain cur old where lg: "lg = (cur, old)" by (cases lg)
  have "concat (rev (snd (spec_append (Some p) line lg))) @ fst (spec_append (Some p) line lg) = before @ [line]"
    if "length (snd (spec_append (Some p) line lg)) < rp_max_archived_files p"
    using that Cons.prems(1) lg
    by (cases "over_budget (unat (rp_max_file_bytes p)) cur line") auto
  from Cons.IH [OF this] Cons.prems(2) show ?case by simp
qed simp

lemma spec_cur_nonempty: "lines \<noteq> [] \<Longrightarrow> fst (fold (spec_append policy) lines lg) \<noteq> []"
proof (induction lines rule: rev_induct)
  case (snoc line lines)
  show ?case
    by (cases policy; cases "fold (spec_append policy) lines lg") (simp_all split: if_splits)
qed simp

section \<open>The store's properties\<close>

text \<open>C13. Rotation keeps the latest records whole. When a run of appends on a new store with
  a rotation policy succeeds, the active file and the archives hold, oldest archive first,
  a contiguous end of the appended lines, each line whole in one file, the last of them in the
  active file; there are at most as many archives as the policy allows, numbered from one without
  gaps; every file stays within the byte budget, or is a single line that exceeds it alone. And
  nothing is given up early: lines are dropped only when all the archives are in use, and a
  file was rotated away only because the first line of the next did not fit into it.\<close>

theorem rotation_keeps_latest_lines:
  assumes "jsonl_create path (Some p) room (\<lambda>_. None) = Inr s0"
    and "list_all is_ok (fst (run_ops jsonl_append lines s0))"
  shows "let s = snd (run_ops jsonl_append lines s0) in
    \<exists>cur old dropped.
      lines = dropped @ concat (rev old) @ cur
      \<and> bw_stream (js_writer s) = log_text cur
      \<and> (\<forall>i. js_files s (archive_path (js_path s) (Suc i)) =
             (if i < length old then Some (log_text (old ! i)) else None))
      \<and> length old \<le> rp_max_archived_files p
      \<and> list_all (within_budget p) (cur # old)
      \<and> (dropped = [] \<or> length old = rp_max_archived_files p)
      \<and> (cur = [] \<longleftrightarrow> lines = [])
      \<and> successively (rotated_late p) (cur # old)"
proof -
  from assms(1) have s0: "js_rotation s0 = Some p" "implements_log s0 ([], [])"
    by (auto simp: jsonl_create_def implements_log_def archives_are_def bw_new_def bw_stream_def
        log_bytes_def validate_rotation_policy_def split: if_splits)
  obtain cur old where run: "spec_run (Some p) lines = (cur, old)" by (cases "spec_run (Some p) lines")
  have impl: "implements_log (snd (run_ops jsonl_append lines s0)) (cur, old)"
    "js_rotation (snd (run_ops jsonl_append lines s0)) = Some p"
    using run_implements [OF s0(2) assms(2)] s0(1) run by simp_all
  obtain dropped where d: "lines = dropped @ concat (rev old) @ cur"
    using spec_suffix [of "([], [])" lines "Some p"] run by auto
  moreover have "within_budget p cur \<and> list_all (within_budget p) old"
    using spec_budget [of p "([], [])" lines] run by (simp add: within_budget_def log_bytes_def)
  moreover have "successively (rotated_late p) (cur # old)"
    using spec_rotates_late [of p "([], [])" lines] run by simp
  moreover have "cur = [] \<longleftrightarrow> lines = []"
    using spec_cur_nonempty [of lines "Some p" "([], [])"] run by auto
  moreover have "dropped = [] \<or> length old = rp_max_archived_files p"
  proof (cases "length old < rp_max_archived_files p")
    case True
    with spec_drops_late [of "([], [])" p "[]" lines] run d show ?thesis by simp
  next
    case False
    with impl show ?thesis by (simp add: implements_log_def archives_are_def)
  qed
  ultimately show ?thesis
    using impl unfolding Let_def implements_log_def archives_are_def
    by (intro exI [of _ cur] exI [of _ old] exI [of _ dropped]) simp
qed

definition sample_policy :: rotation_policy where
  "sample_policy = \<lparr>rp_max_file_bytes = 4, rp_max_archived_files = 1\<rparr>"

definition sample_store :: jsonl_store where
  "sample_store =
     \<lparr>js_writer = bw_new [] 100, js_path = ''t'', js_current_bytes = 0,
      js_rotation = Some sample_policy, js_files = (\<lambda>_. None)\<rparr>"

lemma sample_store_created: "jsonl_create ''t'' (Some sample_policy) 100 (\<lambda>_. None) = Inr sample_store"
  by (simp add: jsonl_create_def sample_store_def sample_policy_def validate_rotation_policy_def)

lemma sample_store_run: "list_all is_ok (fst (run_ops jsonl_append [''aa'', ''bb''] sample_store))"
  by (simp add: jsonl_append_def sample_store_def sample_policy_def should_rotate_before_def
      jsonl_rotate_def bw_write_all_def bw_flush_def device_write_def bw_new_def bw_spare_def
      bw_capacity_def sat_add_def Let_def)

theorem rotation_keeps_latest_lines_witness:
  "let s = snd (run_ops jsonl_append [''aa'', ''bb''] sample_store) in
    \<exists>cur old dropped.
      [''aa'', ''bb''] = dropped @ concat (rev old) @ cur
      \<and> bw_stream (js_writer s) = log_text cur
      \<and> (\<forall>i. js_files s (archive_path (js_path s) (Suc i)) =
             (if i < length old then Some (log_text (old ! i)) else None))
      \<and> length old \<le> rp_max_archived_files sample_policy
      \<and> list_all (within_budget sample_policy) (cur # old)
      \<and> (dropped = [] \<or> length old = rp_max_archived_files sample_policy)
      \<and> (cur = [] \<longleftrightarrow> [''aa'', ''bb''] = [])
      \<and> successively (rotated_late sample_policy) (cur # old)"
  by (rule rotation_keeps_latest_lines [OF sample_store_created sample_store_run])

end
