(* ===== verification/Priority_Queue.thy ===== *)
theory Priority_Queue
  imports Rust_Text "HOL-Library.Multiset"
begin

text \<open>
  The bounded priority queue of the accountability crate
  (\<open>crates/apolysis-accountability/src/queue.rs\<close>): five lanes, a capacity over all lanes
  together, shedding of ordinary records when a more important one arrives at a full queue,
  and the counters. The interface that the daemon's pipeline needs of it is the locale
  \<open>lossy_buffer\<close>, whose lemmas account for every record put into a buffer.
\<close>

section \<open>Data and operations\<close>

datatype queue_priority = Ordinary | Lifecycle | Diagnostic | Finding | Integrity

text \<open>The derived order: the order of the constructors.\<close>

fun priority_rank :: "queue_priority \<Rightarrow> nat" where
  "priority_rank Ordinary = 0"
| "priority_rank Lifecycle = 1"
| "priority_rank Diagnostic = 2"
| "priority_rank Finding = 3"
| "priority_rank Integrity = 4"

lemma priority_rank_inj: "priority_rank p = priority_rank q \<Longrightarrow> p = q"
  by (cases p; cases q) simp_all

instantiation queue_priority :: linorder
begin

definition less_eq_queue_priority :: "queue_priority \<Rightarrow> queue_priority \<Rightarrow> bool" where
  "less_eq_queue_priority p q \<longleftrightarrow> priority_rank p \<le> priority_rank q"

definition less_queue_priority :: "queue_priority \<Rightarrow> queue_priority \<Rightarrow> bool" where
  "less_queue_priority p q \<longleftrightarrow> priority_rank p < priority_rank q"

instance
  by standard
    (auto simp: less_eq_queue_priority_def less_queue_priority_def dest: priority_rank_inj)

end

datatype push_outcome =
    Accepted
  | AcceptedAfterShedding queue_priority
  | Dropped queue_priority

record queue_stats =
  qs_capacity :: nat
  qs_depth :: nat
  qs_accepted :: u64
  qs_dropped :: "(queue_priority, u64) bmap"

definition queue_stats_new :: "nat \<Rightarrow> queue_stats" where
  "queue_stats_new cap = \<lparr>qs_capacity = cap, qs_depth = 0, qs_accepted = 0, qs_dropped = []\<rparr>"

definition qs_dropped_count :: "queue_stats \<Rightarrow> queue_priority \<Rightarrow> u64" where
  "qs_dropped_count st p = (case bm_get (qs_dropped st) p of Some n \<Rightarrow> n | None \<Rightarrow> 0)"

definition increment_drop :: "queue_priority \<Rightarrow> queue_stats \<Rightarrow> queue_stats" where
  "increment_drop p st =
     st\<lparr>qs_dropped := bm_insert p (qs_dropped_count st p + 1) (qs_dropped st)\<rparr>"

definition qs_with_depth :: "nat \<Rightarrow> queue_stats \<Rightarrow> queue_stats" where
  "qs_with_depth d st = st\<lparr>qs_depth := d\<rparr>"

definition qs_with_accepted :: "u64 \<Rightarrow> queue_stats \<Rightarrow> queue_stats" where
  "qs_with_accepted n st = st\<lparr>qs_accepted := n\<rparr>"

definition qs_with_drop :: "queue_priority \<Rightarrow> queue_stats \<Rightarrow> queue_stats" where
  "qs_with_drop p st = increment_drop p st"

record 'a bpq =
  bq_queues :: "(queue_priority, 'a list) bmap"
  bq_stats :: queue_stats

definition bpq_new :: "nat \<Rightarrow> 'a bpq" where
  "bpq_new cap = \<lparr>bq_queues = [], bq_stats = queue_stats_new cap\<rparr>"

text \<open>The contents of a lane; an absent lane is empty (\<open>or_default\<close>).\<close>

definition lane :: "'a bpq \<Rightarrow> queue_priority \<Rightarrow> 'a list" where
  "lane q p = (case bm_get (bq_queues q) p of Some xs \<Rightarrow> xs | None \<Rightarrow> [])"

definition bpq_enqueue :: "queue_priority \<Rightarrow> 'a \<Rightarrow> 'a bpq \<Rightarrow> 'a bpq" where
  "bpq_enqueue p x q =
     q\<lparr>bq_queues := bm_insert p (lane q p @ [x]) (bq_queues q),
       bq_stats := (bq_stats q)\<lparr>qs_depth := qs_depth (bq_stats q) + 1,
                                 qs_accepted := qs_accepted (bq_stats q) + 1\<rparr>\<rparr>"

text \<open>
  \<open>get_mut(priority).and_then(pop_front)\<close>: the first element of a lane that exists and is
  not empty, and the queue without it.
\<close>

definition bpq_take_front :: "queue_priority \<Rightarrow> 'a bpq \<Rightarrow> ('a \<times> 'a bpq) option" where
  "bpq_take_front p q =
     (case bm_get (bq_queues q) p of
        Some (x # xs) \<Rightarrow>
          Some (x, q\<lparr>bq_queues := bm_insert p xs (bq_queues q),
                     bq_stats := (bq_stats q)\<lparr>qs_depth := qs_depth (bq_stats q) - 1\<rparr>\<rparr>)
      | _ \<Rightarrow> None)"

definition shed_oldest_ordinary :: "'a bpq \<Rightarrow> bool \<times> 'a bpq" where
  "shed_oldest_ordinary q =
     (case bpq_take_front Ordinary q of Some (_, q') \<Rightarrow> (True, q') | None \<Rightarrow> (False, q))"

definition bpq_count_drop :: "queue_priority \<Rightarrow> 'a bpq \<Rightarrow> 'a bpq" where
  "bpq_count_drop p q = q\<lparr>bq_stats := increment_drop p (bq_stats q)\<rparr>"

definition bpq_push :: "queue_priority \<Rightarrow> 'a \<Rightarrow> 'a bpq \<Rightarrow> push_outcome \<times> 'a bpq" where
  "bpq_push p x q =
     (if qs_depth (bq_stats q) < qs_capacity (bq_stats q) then (Accepted, bpq_enqueue p x q)
      else
        (let (shed, q') = (if p \<noteq> Ordinary then shed_oldest_ordinary q else (False, q)) in
         if shed then
           (AcceptedAfterShedding Ordinary, bpq_enqueue p x (bpq_count_drop Ordinary q'))
         else (Dropped p, bpq_count_drop p q')))"

text \<open>The loop of \<open>pop\<close> over the lanes, most important first.\<close>

definition pop_order :: "queue_priority list" where
  "pop_order = [Integrity, Finding, Diagnostic, Lifecycle, Ordinary]"

fun bpq_pop_from :: "queue_priority list \<Rightarrow> 'a bpq \<Rightarrow> 'a option \<times> 'a bpq" where
  "bpq_pop_from [] q = (None, q)"
| "bpq_pop_from (p # ps) q =
     (case bpq_take_front p q of Some (x, q') \<Rightarrow> (Some x, q') | None \<Rightarrow> bpq_pop_from ps q)"

definition bpq_pop :: "'a bpq \<Rightarrow> 'a option \<times> 'a bpq" where
  "bpq_pop q = bpq_pop_from pop_order q"

definition bpq_len :: "'a bpq \<Rightarrow> nat" where
  "bpq_len q = qs_depth (bq_stats q)"

definition bpq_is_empty :: "'a bpq \<Rightarrow> bool" where
  "bpq_is_empty q \<longleftrightarrow> qs_depth (bq_stats q) = 0"

section \<open>Invariant\<close>

definition stored_count :: "'a bpq \<Rightarrow> nat" where
  "stored_count q = sum_list (map length (bm_values (bq_queues q)))"

definition bpq_inv :: "'a bpq \<Rightarrow> bool" where
  "bpq_inv q \<longleftrightarrow>
     bm_wf (bq_queues q) \<and> bm_wf (qs_dropped (bq_stats q))
     \<and> qs_depth (bq_stats q) = stored_count q
     \<and> qs_depth (bq_stats q) \<le> qs_capacity (bq_stats q)"

definition bpq_items :: "'a bpq \<Rightarrow> 'a multiset" where
  "bpq_items q = (\<Sum>xs \<leftarrow> bm_values (bq_queues q). mset xs)"

lemma size_bpq_items: "size (bpq_items q) = stored_count q"
proof -
  have "size (\<Sum>xs \<leftarrow> m. mset xs) = sum_list (map length m)" for m :: "'b list list"
    by (induction m) simp_all
  then show ?thesis by (simp add: bpq_items_def stored_count_def del: map_map)
qed

text \<open>One binding of an ordered map of lanes against the others.\<close>

lemma items_insert:
  fixes m :: "(queue_priority, 'a list) bmap"
  assumes "bm_wf m"
  shows "(\<Sum>xs \<leftarrow> bm_values (bm_insert p ys m). mset xs)
           + mset (case bm_get m p of Some xs \<Rightarrow> xs | None \<Rightarrow> [])
         = (\<Sum>xs \<leftarrow> bm_values m. mset xs) + mset ys"
  using assms
proof (induction p ys m rule: bm_insert.induct)
  case (2 k v k' v' m)
  have gone: "bm_get m k = None" if "k < k'"
    using "2.prems" that by (auto simp: bm_wf_Cons map_of_eq_None_iff)
  show ?case
    using 2 gone by (cases "k < k'"; cases "k = k'") (auto simp: bm_wf_Cons ac_simps)
qed simp

lemma bpq_items_insert:
  assumes "bm_wf (bq_queues q)"
  shows "bpq_items (q\<lparr>bq_queues := bm_insert p ys (bq_queues q), bq_stats := st\<rparr>) + mset (lane q p)
         = bpq_items q + mset ys"
  using items_insert [OF assms] by (simp add: bpq_items_def lane_def)

lemma stored_count_insert:
  assumes "bm_wf (bq_queues q)"
  shows "stored_count (q\<lparr>bq_queues := bm_insert p ys (bq_queues q), bq_stats := st\<rparr>) + length (lane q p)
         = stored_count q + length ys"
  using arg_cong [OF bpq_items_insert [OF assms], of size]
  by (simp add: size_bpq_items)

section \<open>What each step does\<close>

lemma lane_enqueue:
  "bm_wf (bq_queues q) \<Longrightarrow>
     lane (bpq_enqueue p x q) = (lane q)(p := lane q p @ [x])"
  by (auto simp: lane_def bpq_enqueue_def fun_eq_iff)

lemma items_enqueue:
  "bm_wf (bq_queues q) \<Longrightarrow> bpq_items (bpq_enqueue p x q) = add_mset x (bpq_items q)"
  using bpq_items_insert [where q = q and p = p and ys = "lane q p @ [x]"] by (simp add: bpq_enqueue_def)

lemma stats_enqueue:
  "qs_depth (bq_stats (bpq_enqueue p x q)) = Suc (qs_depth (bq_stats q))"
  "qs_capacity (bq_stats (bpq_enqueue p x q)) = qs_capacity (bq_stats q)"
  "qs_accepted (bq_stats (bpq_enqueue p x q)) = qs_accepted (bq_stats q) + 1"
  "qs_dropped (bq_stats (bpq_enqueue p x q)) = qs_dropped (bq_stats q)"
  by (simp_all add: bpq_enqueue_def)

lemma inv_enqueue:
  assumes "bpq_inv q" and "qs_depth (bq_stats q) < qs_capacity (bq_stats q)"
  shows "bpq_inv (bpq_enqueue p x q)"
proof -
  have wf: "bm_wf (bq_queues q)" using assms(1) by (simp add: bpq_inv_def)
  have "stored_count (bpq_enqueue p x q) = Suc (stored_count q)"
    using items_enqueue [OF wf, of p x] by (simp flip: size_bpq_items)
  with assms show ?thesis by (simp add: bpq_inv_def stats_enqueue) (simp add: bpq_enqueue_def)
qed

lemma take_front_Some:
  assumes "bpq_take_front p q = Some (x, q')" and "bm_wf (bq_queues q)"
  shows "\<exists>xs. lane q p = x # xs \<and> lane q' = (lane q)(p := xs)"
    and "bpq_items q = add_mset x (bpq_items q')"
    and "bm_wf (bq_queues q')"
    and "bq_stats q' = (bq_stats q)\<lparr>qs_depth := qs_depth (bq_stats q) - 1\<rparr>"
proof -
  from assms(1) obtain xs where xs: "bm_get (bq_queues q) p = Some (x # xs)"
    and q': "q' = q\<lparr>bq_queues := bm_insert p xs (bq_queues q),
                     bq_stats := (bq_stats q)\<lparr>qs_depth := qs_depth (bq_stats q) - 1\<rparr>\<rparr>"
    by (auto simp: bpq_take_front_def split: option.splits list.splits)
  have l: "lane q p = x # xs" using xs by (simp add: lane_def)
  then show "\<exists>xs. lane q p = x # xs \<and> lane q' = (lane q)(p := xs)"
    using assms(2) by (auto simp: lane_def q' fun_eq_iff)
  show "bpq_items q = add_mset x (bpq_items q')"
    using bpq_items_insert [OF assms(2), where p = p and ys = xs] l by (simp add: q')
  show "bm_wf (bq_queues q')" using assms(2) by (simp add: q')
  show "bq_stats q' = (bq_stats q)\<lparr>qs_depth := qs_depth (bq_stats q) - 1\<rparr>" by (simp add: q')
qed

lemma take_front_None: "bpq_take_front p q = None \<longleftrightarrow> lane q p = []"
  by (auto simp: bpq_take_front_def lane_def split: option.splits list.splits)

lemma take_front_inv:
  assumes "bpq_take_front p q = Some (x, q')" and "bpq_inv q"
  shows "bpq_inv q'" and "Suc (qs_depth (bq_stats q')) = qs_depth (bq_stats q)"
proof -
  have wf: "bm_wf (bq_queues q)" using assms(2) by (simp add: bpq_inv_def)
  note t = take_front_Some [OF assms(1) wf]
  have c: "stored_count q = Suc (stored_count q')"
    using t(2) by (simp flip: size_bpq_items)
  with assms(2) t(3,4) show "bpq_inv q'" by (auto simp: bpq_inv_def)
  from c assms(2) t(4) show "Suc (qs_depth (bq_stats q')) = qs_depth (bq_stats q)"
    by (simp add: bpq_inv_def)
qed

lemma count_drop_simps [frame_simps]:
  "bq_queues (bpq_count_drop p q) = bq_queues q"
  "lane (bpq_count_drop p q) = lane q"
  "bpq_items (bpq_count_drop p q) = bpq_items q"
  "stored_count (bpq_count_drop p q) = stored_count q"
  "qs_depth (bq_stats (bpq_count_drop p q)) = qs_depth (bq_stats q)"
  "qs_capacity (bq_stats (bpq_count_drop p q)) = qs_capacity (bq_stats q)"
  "qs_accepted (bq_stats (bpq_count_drop p q)) = qs_accepted (bq_stats q)"
  by (simp_all add: bpq_count_drop_def increment_drop_def lane_def bpq_items_def stored_count_def
      fun_eq_iff)

lemma count_drop_inv: "bpq_inv q \<Longrightarrow> bpq_inv (bpq_count_drop p q)"
  by (simp add: bpq_inv_def frame_simps) (simp add: bpq_count_drop_def increment_drop_def)

text \<open>The three outcomes of a push.\<close>

lemma push_cases:
  assumes inv: "bpq_inv q"
  obtains
    (accept) "qs_depth (bq_stats q) < qs_capacity (bq_stats q)"
      "bpq_push p x q = (Accepted, bpq_enqueue p x q)"
  | (shed) y ys q' where "\<not> qs_depth (bq_stats q) < qs_capacity (bq_stats q)" "p \<noteq> Ordinary"
      "lane q Ordinary = y # ys" "bpq_take_front Ordinary q = Some (y, q')"
      "bpq_push p x q =
         (AcceptedAfterShedding Ordinary, bpq_enqueue p x (bpq_count_drop Ordinary q'))"
  | (reject) "\<not> qs_depth (bq_stats q) < qs_capacity (bq_stats q)"
      "p = Ordinary \<or> lane q Ordinary = []"
      "bpq_push p x q = (Dropped p, bpq_count_drop p q)"
proof (cases "qs_depth (bq_stats q) < qs_capacity (bq_stats q)")
  case True
  then show ?thesis by (intro accept) (simp_all add: bpq_push_def)
next
  case full: False
  have wf: "bm_wf (bq_queues q)" using inv by (simp add: bpq_inv_def)
  show ?thesis
  proof (cases "p \<noteq> Ordinary \<and> lane q Ordinary \<noteq> []")
    case True
    then obtain y q' where t: "bpq_take_front Ordinary q = Some (y, q')"
      by (cases "bpq_take_front Ordinary q") (auto simp: take_front_None)
    from take_front_Some(1) [OF t wf] obtain ys where "lane q Ordinary = y # ys" by auto
    with t True full show ?thesis
      by (intro shed [of y ys q']) (simp_all add: bpq_push_def shed_oldest_ordinary_def)
  next
    case False
    then have "bpq_push p x q = (Dropped p, bpq_count_drop p q)"
      using full take_front_None [of Ordinary q]
      by (auto simp: bpq_push_def shed_oldest_ordinary_def)
    with False full show ?thesis by (intro reject) auto
  qed
qed

text \<open>How many records a push loses: the one shed, or the one refused.\<close>

fun outcome_loss :: "push_outcome \<Rightarrow> nat" where
  "outcome_loss Accepted = 0"
| "outcome_loss (AcceptedAfterShedding _) = 1"
| "outcome_loss (Dropped _) = 1"

lemma push_inv:
  assumes "bpq_inv q"
  shows "bpq_inv (snd (bpq_push p x q))"
  using assms
proof (cases rule: push_cases [where p = p and x = x])
  case accept
  with assms show ?thesis by (simp add: inv_enqueue)
next
  case (shed y ys q')
  note t = take_front_inv [OF shed(4) assms]
  have "qs_capacity (bq_stats q') = qs_capacity (bq_stats q)"
    using take_front_Some(4) [OF shed(4)] assms by (simp add: bpq_inv_def)
  with t shed assms show ?thesis
    by (auto simp: frame_simps bpq_inv_def [of q] intro!: inv_enqueue count_drop_inv)
next
  case reject
  with assms show ?thesis by (simp add: count_drop_inv)
qed

lemma push_items:
  assumes "bpq_inv q"
  shows "\<exists>lost. add_mset x (bpq_items q) = bpq_items (snd (bpq_push p x q)) + lost
           \<and> size lost = outcome_loss (fst (bpq_push p x q))"
  using assms
proof (cases rule: push_cases [where p = p and x = x])
  case accept
  with assms show ?thesis by (simp add: items_enqueue bpq_inv_def)
next
  case (shed y ys q')
  have wf: "bm_wf (bq_queues q)" using assms by (simp add: bpq_inv_def)
  note t = take_front_Some [OF shed(4) wf]
  have "add_mset x (bpq_items q) = bpq_items (snd (bpq_push p x q)) + {#y#}"
    using shed(5) t(2,3) by (simp add: items_enqueue frame_simps)
  with shed(5) show ?thesis by (intro exI [of _ "{#y#}"]) simp
next
  case reject
  then show ?thesis by (intro exI [of _ "{#x#}"]) (simp add: frame_simps)
qed

lemma pop_from_Some:
  "bpq_pop_from ps q = (Some x, q') \<Longrightarrow>
     \<exists>p qs rs. ps = qs @ p # rs \<and> (\<forall>r \<in> set qs. lane q r = []) \<and> bpq_take_front p q = Some (x, q')"
proof (induction ps)
  case (Cons p ps)
  show ?case
  proof (cases "bpq_take_front p q")
    case None
    with Cons obtain r qs rs where "ps = qs @ r # rs" "\<forall>r \<in> set qs. lane q r = []"
      "bpq_take_front r q = Some (x, q')" by auto
    with None show ?thesis
      by (intro exI [of _ r] exI [of _ "p # qs"] exI [of _ rs]) (simp add: take_front_None)
  next
    case (Some a)
    with Cons.prems show ?thesis by (intro exI [of _ p] exI [of _ "[]"] exI [of _ ps]) (auto split: prod.splits)
  qed
qed simp

lemma pop_from_None:
  "bpq_pop_from ps q = (None, q') \<Longrightarrow> q' = q \<and> (\<forall>p \<in> set ps. lane q p = [])"
  by (induction ps) (auto simp: take_front_None split: option.splits)

lemma set_pop_order: "p \<in> set pop_order"
  by (cases p) (simp_all add: pop_order_def)

lemma pop_order_before:
  "pop_order = qs @ p # rs \<Longrightarrow> p < r \<Longrightarrow> r \<in> set qs"
proof -
  assume eq: "pop_order = qs @ p # rs" and less: "p < r"
  have "sorted_wrt (>) pop_order" by (simp add: pop_order_def less_queue_priority_def)
  then have "\<forall>r \<in> set (p # rs). r \<le> p" by (auto simp: eq sorted_wrt_append)
  with less have "r \<notin> set (p # rs)" by auto
  with set_pop_order [of r] show "r \<in> set qs" by (auto simp: eq)
qed

text \<open>A pop takes the oldest record of the most important lane that has one.\<close>

lemma pop_Some:
  assumes "bpq_inv q" and "bpq_pop q = (Some x, q')"
  obtains p xs where "lane q p = x # xs" "lane q' = (lane q)(p := xs)" "\<forall>r > p. lane q r = []"
    "bpq_take_front p q = Some (x, q')"
proof -
  from assms(2) obtain p qs rs where eq: "pop_order = qs @ p # rs"
    and none: "\<forall>r \<in> set qs. lane q r = []" and t: "bpq_take_front p q = Some (x, q')"
    unfolding bpq_pop_def by (blast dest: pop_from_Some)
  have wf: "bm_wf (bq_queues q)" using assms(1) by (simp add: bpq_inv_def)
  from take_front_Some(1) [OF t wf] obtain xs where "lane q p = x # xs" "lane q' = (lane q)(p := xs)"
    by blast
  moreover have "\<forall>r > p. lane q r = []" using none pop_order_before [OF eq] by blast
  ultimately show ?thesis using t that by blast
qed

lemma items_empty: "bm_wf (bq_queues q) \<Longrightarrow> (\<forall>p. lane q p = []) \<Longrightarrow> bpq_items q = {#}"
proof -
  assume wf: "bm_wf (bq_queues q)" and e: "\<forall>p. lane q p = []"
  have "snd b = []" if "b \<in> set (bq_queues q)" for b
  proof -
    from that wf have "bm_get (bq_queues q) (fst b) = Some (snd b)" by (simp add: bm_get_iff_mem)
    moreover have "lane q (fst b) = []" using e by blast
    ultimately show ?thesis by (simp add: lane_def)
  qed
  then have "\<forall>b \<in> set (bq_queues q). mset (snd b) = {#}" by simp
  moreover have "(\<forall>b \<in> set m. mset (snd b) = {#}) \<Longrightarrow> (\<Sum>xs \<leftarrow> bm_values m. mset xs) = {#}"
    for m :: "(queue_priority, 'a list) bmap"
    by (induction m) simp_all
  ultimately show ?thesis by (simp add: bpq_items_def)
qed

lemma pop_None:
  assumes "bpq_inv q" and "fst (bpq_pop q) = None"
  shows "snd (bpq_pop q) = q" and "bpq_items q = {#}"
proof -
  obtain q' where "bpq_pop q = (None, q')" using assms(2) by (cases "bpq_pop q") auto
  from pop_from_None [OF this [unfolded bpq_pop_def]]
  have q': "q' = q" and e: "\<forall>p. lane q p = []" using set_pop_order by auto
  show "snd (bpq_pop q) = q" using \<open>bpq_pop q = (None, q')\<close> q' by simp
  show "bpq_items q = {#}" using assms(1) e by (intro items_empty) (simp_all add: bpq_inv_def)
qed

lemma pop_inv: "bpq_inv q \<Longrightarrow> bpq_inv (snd (bpq_pop q))"
proof (cases "fst (bpq_pop q)")
  case None
  assume "bpq_inv q"
  with None show ?thesis by (simp add: pop_None)
next
  case (Some x)
  assume inv: "bpq_inv q"
  obtain q' where "bpq_pop q = (Some x, q')" using Some by (cases "bpq_pop q") auto
  then obtain p where "bpq_take_front p q = Some (x, q')" by (rule pop_Some [OF inv])
  from take_front_inv(1) [OF this inv] \<open>bpq_pop q = (Some x, q')\<close> show ?thesis by simp
qed

lemma pop_items:
  assumes "bpq_inv q" and "fst (bpq_pop q) = Some x"
  shows "bpq_items q = add_mset x (bpq_items (snd (bpq_pop q)))"
proof -
  obtain q' where eq: "bpq_pop q = (Some x, q')" using assms(2) by (cases "bpq_pop q") auto
  with assms(1) obtain p where "bpq_take_front p q = Some (x, q')" by (elim pop_Some)
  from take_front_Some(2) [OF this] assms(1) eq show ?thesis by (simp add: bpq_inv_def)
qed

section \<open>The interface: a buffer that may lose records, and says so\<close>

datatype ('k, 'a) buffer_op = Put 'k 'a | Take

datatype ('o, 'a) buffer_result = PutResult 'o | TakeResult "'a option"

definition buffer_step ::
    "('k \<Rightarrow> 'a \<Rightarrow> 'q \<Rightarrow> 'o \<times> 'q) \<Rightarrow> ('q \<Rightarrow> 'a option \<times> 'q) \<Rightarrow> ('k, 'a) buffer_op \<Rightarrow> 'q
     \<Rightarrow> ('o, 'a) buffer_result \<times> 'q" where
  "buffer_step push pop x q =
     (case x of
        Put k v \<Rightarrow> map_prod PutResult id (push k v q)
      | Take \<Rightarrow> map_prod TakeResult id (pop q))"

definition values_put :: "('k, 'a) buffer_op list \<Rightarrow> 'a multiset" where
  "values_put xs = mset (concat (map (\<lambda>x. case x of Put _ v \<Rightarrow> [v] | Take \<Rightarrow> []) xs))"

definition values_taken :: "('o, 'a) buffer_result list \<Rightarrow> 'a multiset" where
  "values_taken rs =
     mset (concat (map (\<lambda>r. case r of TakeResult (Some v) \<Rightarrow> [v] | _ \<Rightarrow> []) rs))"

definition total_loss :: "('o \<Rightarrow> nat) \<Rightarrow> ('o, 'a) buffer_result list \<Rightarrow> nat" where
  "total_loss loss rs = sum_list (map (\<lambda>r. case r of PutResult x \<Rightarrow> loss x | _ \<Rightarrow> 0) rs)"

text \<open>Taking until the buffer answers that it is empty, at most \<open>n\<close> times.\<close>

fun drain :: "('q \<Rightarrow> 'a option \<times> 'q) \<Rightarrow> nat \<Rightarrow> 'q \<Rightarrow> 'a list \<times> 'q" where
  "drain pop 0 q = ([], q)"
| "drain pop (Suc n) q =
     (let p = pop q in
      case fst p of
        None \<Rightarrow> ([], snd p)
      | Some x \<Rightarrow> (let r = drain pop n (snd p) in (x # fst r, snd r)))"

locale lossy_buffer =
  fixes push :: "'k \<Rightarrow> 'a \<Rightarrow> 'q \<Rightarrow> 'o \<times> 'q"
    and pop :: "'q \<Rightarrow> 'a option \<times> 'q"
    and items :: "'q \<Rightarrow> 'a multiset"
    and loss :: "'o \<Rightarrow> nat"
    and inv :: "'q \<Rightarrow> bool"
  assumes push_acc: "inv q \<Longrightarrow> \<exists>lost. add_mset v (items q) = items (snd (push k v q)) + lost
                       \<and> size lost = loss (fst (push k v q))"
    and pop_acc: "inv q \<Longrightarrow> fst (pop q) = Some v \<Longrightarrow> items q = add_mset v (items (snd (pop q)))"
    and pop_none: "inv q \<Longrightarrow> fst (pop q) = None \<Longrightarrow> items q = {#} \<and> snd (pop q) = q"
    and push_keeps: "inv q \<Longrightarrow> inv (snd (push k v q))"
    and pop_keeps: "inv q \<Longrightarrow> inv (snd (pop q))"

sublocale lossy_buffer \<subseteq> invariant_machine "buffer_step push pop" inv
  by unfold_locales (auto simp: buffer_step_def push_keeps pop_keeps split: buffer_op.splits)

context lossy_buffer
begin

lemma step_acc:
  assumes "inv q"
  shows "\<exists>lost. items q + values_put [x] =
      items (snd (buffer_step push pop x q)) + values_taken [fst (buffer_step push pop x q)] + lost
    \<and> size lost = total_loss loss [fst (buffer_step push pop x q)]"
proof (cases x)
  case (Put k v)
  with push_acc [OF assms, of v k] show ?thesis
    by (auto simp: buffer_step_def values_put_def values_taken_def total_loss_def)
next
  case Take
  with pop_acc [OF assms] pop_none [OF assms] show ?thesis
    by (cases "fst (pop q)")
      (auto simp: buffer_step_def values_put_def values_taken_def total_loss_def)
qed

lemma values_Cons:
  "values_put (x # xs) = values_put [x] + values_put xs"
  "values_taken (r # rs) = values_taken [r] + values_taken rs"
  "total_loss f (r # rs) = total_loss f [r] + total_loss f rs"
  by (simp_all add: values_put_def values_taken_def total_loss_def)

text \<open>Every record put in is still there, was taken, or was lost and counted.\<close>

lemma run_acc:
  assumes "inv q"
  shows "\<exists>lost. items q + values_put xs =
      items (snd (run_ops (buffer_step push pop) xs q))
      + values_taken (fst (run_ops (buffer_step push pop) xs q)) + lost
    \<and> size lost = total_loss loss (fst (run_ops (buffer_step push pop) xs q))"
  using assms
proof (induction xs arbitrary: q)
  case Nil
  show ?case by (simp add: values_put_def values_taken_def total_loss_def)
next
  case (Cons x xs)
  let ?s = "buffer_step push pop x q"
  let ?r = "run_ops (buffer_step push pop) xs (snd ?s)"
  from step_acc [OF Cons.prems, of x] obtain l1 where
    l1: "items q + values_put [x] = items (snd ?s) + values_taken [fst ?s] + l1"
    "size l1 = total_loss loss [fst ?s]" by blast
  from Cons.IH [OF step_inv [OF Cons.prems, of x]] obtain l2 where
    l2: "items (snd ?s) + values_put xs = items (snd ?r) + values_taken (fst ?r) + l2"
    "size l2 = total_loss loss (fst ?r)" by blast
  have "items q + values_put (x # xs) =
      items (snd ?r) + values_taken (fst ?s # fst ?r) + (l1 + l2)"
  proof -
    have "items q + values_put (x # xs) = (items q + values_put [x]) + values_put xs"
      by (simp only: values_Cons(1) [of x xs] add.assoc)
    also have "\<dots> = items (snd ?s) + values_taken [fst ?s] + l1 + values_put xs"
      by (simp only: l1(1))
    also have "\<dots> = (items (snd ?s) + values_put xs) + (values_taken [fst ?s] + l1)"
      by (simp only: ac_simps)
    also have "\<dots> = (items (snd ?r) + values_taken (fst ?r) + l2) + (values_taken [fst ?s] + l1)"
      by (simp only: l2(1))
    also have "\<dots> = items (snd ?r) + (values_taken [fst ?s] + values_taken (fst ?r)) + (l1 + l2)"
      by (simp only: ac_simps)
    finally show ?thesis by (simp only: values_Cons(2) [of "fst ?s" "fst ?r"])
  qed
  moreover have "size (l1 + l2) = total_loss loss (fst ?s # fst ?r)"
    using l1(2) l2(2) values_Cons(3) [of loss "fst ?s" "fst ?r"] by simp
  ultimately show ?case by (auto simp: Let_def)
qed

lemma drain_all:
  "inv q \<Longrightarrow> size (items q) \<le> n \<Longrightarrow>
     mset (fst (drain pop n q)) = items q \<and> items (snd (drain pop n q)) = {#}"
proof (induction n arbitrary: q)
  case (Suc n)
  show ?case
  proof (cases "fst (pop q)")
    case None
    with pop_none [OF Suc.prems(1)] show ?thesis by (simp add: Let_def)
  next
    case (Some v)
    note acc = pop_acc [OF Suc.prems(1) Some]
    have "mset (fst (drain pop n (snd (pop q)))) = items (snd (pop q))
        \<and> items (snd (drain pop n (snd (pop q)))) = {#}"
      using Suc.prems acc by (intro Suc.IH pop_keeps) simp_all
    with Some acc show ?thesis by (simp add: Let_def)
  qed
qed simp

end

interpretation bpq: lossy_buffer bpq_push bpq_pop bpq_items outcome_loss bpq_inv
  by unfold_locales (simp_all add: push_items pop_items pop_None push_inv pop_inv)

abbreviation bpq_run ::
    "(queue_priority, 'a) buffer_op list \<Rightarrow> 'a bpq \<Rightarrow> (push_outcome, 'a) buffer_result list \<times> 'a bpq" where
  "bpq_run xs q \<equiv> run_ops (buffer_step bpq_push bpq_pop) xs q"

lemma bpq_new_inv: "bpq_inv (bpq_new cap)"
  by (simp add: bpq_inv_def bpq_new_def queue_stats_new_def stored_count_def)

lemma bpq_new_items: "bpq_items (bpq_new cap) = {#}"
  by (simp add: bpq_items_def bpq_new_def)

section \<open>The abstract queue\<close>

text \<open>
  What the queue promises, over its lanes alone: a push appends to its lane when there is
  room, makes room by giving up the oldest ordinary record, or is refused; a pop takes the
  head of the greatest lane that is not empty, in the order of the priorities.
\<close>

type_synonym 'a lanes = "queue_priority \<Rightarrow> 'a list"

definition all_lanes :: "queue_priority list" where
  "all_lanes = [Ordinary, Lifecycle, Diagnostic, Finding, Integrity]"

definition lanes_total :: "'a lanes \<Rightarrow> nat" where
  "lanes_total L = sum_list (map (\<lambda>p. length (L p)) all_lanes)"

definition spec_push :: "nat \<Rightarrow> queue_priority \<Rightarrow> 'a \<Rightarrow> 'a lanes \<Rightarrow> push_outcome \<times> 'a lanes" where
  "spec_push cap p x L =
     (if lanes_total L < cap then (Accepted, L(p := L p @ [x]))
      else if p \<noteq> Ordinary \<and> L Ordinary \<noteq> [] then
        (AcceptedAfterShedding Ordinary, L(Ordinary := tl (L Ordinary), p := L p @ [x]))
      else (Dropped p, L))"

definition spec_pop :: "'a lanes \<Rightarrow> 'a option \<times> 'a lanes" where
  "spec_pop L =
     (let waiting = filter (\<lambda>p. L p \<noteq> []) all_lanes; p = Max (set waiting) in
      if waiting = [] then (None, L) else (Some (hd (L p)), L(p := tl (L p))))"

lemma set_all_lanes: "p \<in> set all_lanes"
  by (cases p) (simp_all add: all_lanes_def)

text \<open>The loop over the lanes finds the greatest of them.\<close>

lemma find_pop_order:
  "find P pop_order =
     (let ps = filter P all_lanes in if ps = [] then None else Some (Max (set ps)))"
  by (cases "P Ordinary"; cases "P Lifecycle"; cases "P Diagnostic"; cases "P Finding"; cases "P Integrity")
    (simp_all add: pop_order_def all_lanes_def max_def less_eq_queue_priority_def)

lemma stored_count_lanes:
  assumes "bm_wf (bq_queues q)"
  shows "stored_count q = lanes_total (lane q)"
proof -
  let ?m = "bq_queues q"
  have d: "distinct (bm_keys ?m)" using assms by (rule bm_distinct_keys)
  have "stored_count q = sum_list (map (\<lambda>p. length (lane q p)) (bm_keys ?m))"
  proof -
    have "lane q (fst b) = snd b" if "b \<in> set ?m" for b
      using that bm_get_iff_mem [OF assms, of "fst b" "snd b"] by (simp add: lane_def)
    then have "map (\<lambda>b. length (snd b)) ?m = map (\<lambda>b. length (lane q (fst b))) ?m"
      by (intro map_cong) simp_all
    from arg_cong [OF this, of sum_list] show ?thesis
      by (simp only: stored_count_def map_map comp_def)
  qed
  also have "\<dots> = (\<Sum>p \<in> set (bm_keys ?m). length (lane q p))"
    using d by (rule sum_list_distinct_conv_sum_set)
  also have "\<dots> = (\<Sum>p \<in> set all_lanes. length (lane q p))"
  proof (rule sum.mono_neutral_left)
    show "\<forall>p \<in> set all_lanes - set (bm_keys ?m). length (lane q p) = 0"
      by (auto simp: lane_def split: option.splits dest!: map_of_SomeD) force
  qed (auto simp: set_all_lanes)
  also have "\<dots> = lanes_total (lane q)"
    unfolding lanes_total_def
    by (rule sum_list_distinct_conv_sum_set [symmetric]) (simp add: all_lanes_def)
  finally show ?thesis .
qed

lemma push_refines:
  assumes "bpq_inv q"
  shows "map_prod id lane (bpq_push p x q) = spec_push (qs_capacity (bq_stats q)) p x (lane q)"
  using assms
proof -
  have wf: "bm_wf (bq_queues q)" and tot: "qs_depth (bq_stats q) = lanes_total (lane q)"
    using assms stored_count_lanes by (auto simp: bpq_inv_def)
  from assms show ?thesis
  proof (cases rule: push_cases [where p = p and x = x])
    case accept
    then show ?thesis using wf tot by (simp add: spec_push_def lane_enqueue)
  next
    case (shed y ys q')
    have "lane q' = (lane q)(Ordinary := ys)" "bm_wf (bq_queues q')"
      using take_front_Some(1,3) [OF shed(4) wf] shed(3) by auto
    with shed tot show ?thesis
      by (simp add: spec_push_def lane_enqueue frame_simps fun_eq_iff)
  next
    case reject
    then show ?thesis using tot by (auto simp: spec_push_def frame_simps)
  qed
qed

lemma pop_from_refines:
  assumes "bm_wf (bq_queues q)"
  shows "map_prod id lane (bpq_pop_from ps q) =
     (case find (\<lambda>p. lane q p \<noteq> []) ps of
        None \<Rightarrow> (None, lane q)
      | Some p \<Rightarrow> (Some (hd (lane q p)), (lane q)(p := tl (lane q p))))"
proof (induction ps)
  case (Cons p ps)
  show ?case
  proof (cases "bpq_take_front p q")
    case None
    then have "lane q p = []" by (simp add: take_front_None)
    with Cons None show ?thesis by simp
  next
    case (Some a)
    obtain y q' where a: "a = (y, q')" by (cases a)
    from take_front_Some(1) [OF Some [unfolded a] assms] Some a show ?thesis by auto
  qed
qed simp

lemma pop_refines:
  "bpq_inv q \<Longrightarrow> map_prod id lane (bpq_pop q) = spec_pop (lane q)"
  by (simp add: bpq_pop_def spec_pop_def bpq_inv_def pop_from_refines find_pop_order Let_def)

section \<open>The counters\<close>

fun outcome_accepts :: "push_outcome \<Rightarrow> bool" where
  "outcome_accepts (Dropped _) = False"
| "outcome_accepts _ = True"

fun outcome_drops :: "queue_priority \<Rightarrow> push_outcome \<Rightarrow> bool" where
  "outcome_drops p Accepted = False"
| "outcome_drops p (AcceptedAfterShedding r) = (r = p)"
| "outcome_drops p (Dropped r) = (r = p)"

definition count_outcomes :: "(push_outcome \<Rightarrow> bool) \<Rightarrow> (push_outcome, 'a) buffer_result list \<Rightarrow> nat" where
  "count_outcomes P rs =
     length (filter (\<lambda>r. case r of PutResult x \<Rightarrow> P x | _ \<Rightarrow> False) rs)"

lemma dropped_count_drop:
  "bpq_inv q \<Longrightarrow> qs_dropped_count (bq_stats (bpq_count_drop r q)) p =
     qs_dropped_count (bq_stats q) p + (if r = p then 1 else 0)"
  by (simp add: bpq_count_drop_def increment_drop_def qs_dropped_count_def bpq_inv_def)

lemma push_counters:
  assumes "bpq_inv q"
  shows "qs_accepted (bq_stats (snd (bpq_push p x q))) =
           qs_accepted (bq_stats q) + (if outcome_accepts (fst (bpq_push p x q)) then 1 else 0)"
    and "qs_dropped_count (bq_stats (snd (bpq_push p x q))) r =
           qs_dropped_count (bq_stats q) r + (if outcome_drops r (fst (bpq_push p x q)) then 1 else 0)"
    and "qs_capacity (bq_stats (snd (bpq_push p x q))) = qs_capacity (bq_stats q)"
proof -
  have enq: "qs_dropped_count (bq_stats (bpq_enqueue p x q')) r = qs_dropped_count (bq_stats q') r" for q'
    by (simp add: qs_dropped_count_def stats_enqueue)
  have "qs_accepted (bq_stats (snd (bpq_push p x q))) =
           qs_accepted (bq_stats q) + (if outcome_accepts (fst (bpq_push p x q)) then 1 else 0)
    \<and> qs_dropped_count (bq_stats (snd (bpq_push p x q))) r =
           qs_dropped_count (bq_stats q) r + (if outcome_drops r (fst (bpq_push p x q)) then 1 else 0)
    \<and> qs_capacity (bq_stats (snd (bpq_push p x q))) = qs_capacity (bq_stats q)"
    using assms
  proof (cases rule: push_cases [where p = p and x = x])
    case accept
    then show ?thesis by (simp add: stats_enqueue enq)
  next
    case (shed y ys q')
    have "bpq_inv q'" using take_front_inv(1) [OF shed(4) assms] .
    moreover have "bq_stats q' = (bq_stats q)\<lparr>qs_depth := qs_depth (bq_stats q) - 1\<rparr>"
      using take_front_Some(4) [OF shed(4)] assms by (simp add: bpq_inv_def)
    ultimately show ?thesis
      using shed(5) by (simp add: stats_enqueue enq frame_simps dropped_count_drop)
        (simp add: qs_dropped_count_def)
  next
    case reject
    then show ?thesis using assms by (simp add: frame_simps dropped_count_drop)
  qed
  then show "qs_accepted (bq_stats (snd (bpq_push p x q))) =
           qs_accepted (bq_stats q) + (if outcome_accepts (fst (bpq_push p x q)) then 1 else 0)"
    "qs_dropped_count (bq_stats (snd (bpq_push p x q))) r =
           qs_dropped_count (bq_stats q) r + (if outcome_drops r (fst (bpq_push p x q)) then 1 else 0)"
    "qs_capacity (bq_stats (snd (bpq_push p x q))) = qs_capacity (bq_stats q)" by blast+
qed

lemma pop_counters:
  assumes "bpq_inv q"
  shows "qs_accepted (bq_stats (snd (bpq_pop q))) = qs_accepted (bq_stats q)"
    and "qs_dropped_count (bq_stats (snd (bpq_pop q))) r = qs_dropped_count (bq_stats q) r"
    and "qs_capacity (bq_stats (snd (bpq_pop q))) = qs_capacity (bq_stats q)"
proof -
  have "\<exists>d. bq_stats (snd (bpq_pop q)) = (bq_stats q)\<lparr>qs_depth := d\<rparr>"
  proof (cases "fst (bpq_pop q)")
    case None
    then have "bq_stats (snd (bpq_pop q)) = (bq_stats q)\<lparr>qs_depth := qs_depth (bq_stats q)\<rparr>"
      using pop_None [OF assms] by simp
    then show ?thesis by blast
  next
    case (Some x)
    obtain q' where eq: "bpq_pop q = (Some x, q')" using Some by (cases "bpq_pop q") auto
    then obtain p where "bpq_take_front p q = Some (x, q')" by (rule pop_Some [OF assms])
    from take_front_Some(4) [OF this] assms eq show ?thesis by (auto simp: bpq_inv_def)
  qed
  then obtain d where "bq_stats (snd (bpq_pop q)) = (bq_stats q)\<lparr>qs_depth := d\<rparr>" by blast
  then show "qs_accepted (bq_stats (snd (bpq_pop q))) = qs_accepted (bq_stats q)"
    "qs_dropped_count (bq_stats (snd (bpq_pop q))) r = qs_dropped_count (bq_stats q) r"
    "qs_capacity (bq_stats (snd (bpq_pop q))) = qs_capacity (bq_stats q)"
    by (simp_all add: qs_dropped_count_def)
qed

lemma run_counters:
  assumes "bpq_inv q"
  shows "qs_accepted (bq_stats (snd (bpq_run xs q))) =
           qs_accepted (bq_stats q) + of_nat (count_outcomes outcome_accepts (fst (bpq_run xs q)))
    \<and> qs_dropped_count (bq_stats (snd (bpq_run xs q))) r =
           qs_dropped_count (bq_stats q) r
           + of_nat (count_outcomes (outcome_drops r) (fst (bpq_run xs q)))
    \<and> qs_capacity (bq_stats (snd (bpq_run xs q))) = qs_capacity (bq_stats q)"
  using assms
proof (induction xs arbitrary: q)
  case Nil
  then show ?case by (simp add: count_outcomes_def)
next
  case (Cons x xs)
  note IH = Cons.IH [OF bpq.step_inv [OF Cons.prems, of x]]
  show ?case
  proof (cases x)
    case (Put k v)
    with IH push_counters [OF Cons.prems, of k v] show ?thesis
      by (auto simp: Let_def buffer_step_def count_outcomes_def)
  next
    case Take
    with IH pop_counters [OF Cons.prems] show ?thesis
      by (auto simp: Let_def buffer_step_def count_outcomes_def)
  qed
qed

section \<open>The queue's properties\<close>

lemma reachable_bpq: "bpq_inv (snd (bpq_run xs (bpq_new cap)))"
  by (rule bpq.run_inv) (rule bpq_new_inv)

lemma reachable_capacity: "qs_capacity (bq_stats (snd (bpq_run xs (bpq_new cap)))) = cap"
  using run_counters [OF bpq_new_inv, of xs cap]
  by (simp add: bpq_new_def queue_stats_new_def)

lemma step_refines:
  assumes "bpq_inv q" and "qs_capacity (bq_stats q) = cap"
  shows "map_prod id lane (buffer_step bpq_push bpq_pop x q) =
     buffer_step (spec_push cap) spec_pop x (lane q)"
proof (cases x)
  case (Put k v)
  have "map_prod id lane (map_prod PutResult id (bpq_push k v q)) =
      map_prod PutResult id (map_prod id lane (bpq_push k v q))"
    by (simp add: prod.map_comp comp_def)
  then show ?thesis using Put assms by (simp add: buffer_step_def push_refines)
next
  case Take
  have "map_prod id lane (map_prod TakeResult id (bpq_pop q)) =
      map_prod TakeResult id (map_prod id lane (bpq_pop q))"
    by (simp add: prod.map_comp comp_def)
  then show ?thesis using Take assms by (simp add: buffer_step_def pop_refines)
qed

lemma step_capacity:
  "bpq_inv q \<Longrightarrow> qs_capacity (bq_stats (snd (buffer_step bpq_push bpq_pop x q))) = qs_capacity (bq_stats q)"
  by (cases x) (simp_all add: buffer_step_def push_counters pop_counters)

lemma run_refines:
  "bpq_inv q \<Longrightarrow> qs_capacity (bq_stats q) = cap \<Longrightarrow>
   map_prod id lane (bpq_run xs q) = run_ops (buffer_step (spec_push cap) spec_pop) xs (lane q)"
proof (induction xs arbitrary: q)
  case (Cons x xs)
  let ?s = "buffer_step bpq_push bpq_pop x q"
  have "map_prod id lane (bpq_run xs (snd ?s)) =
      run_ops (buffer_step (spec_push cap) spec_pop) xs (lane (snd ?s))"
    using Cons.prems by (intro Cons.IH bpq.step_inv) (simp_all add: step_capacity)
  with step_refines [OF Cons.prems, of x] show ?case
    by (simp add: Let_def prod_eq_iff)
qed simp

text \<open>C9. The queue refines its abstract specification. Every sequence of pushes and pops
  on a new queue gives the results, and leaves the lanes, of the abstract queue that is a
  list per priority: refusals, sheddings and pop order included. A pop of the abstract queue takes the head
  of the greatest priority that waits.\<close>

theorem queue_refines_spec:
  "map_prod id lane (bpq_run xs (bpq_new cap)) =
     run_ops (buffer_step (spec_push cap) spec_pop) xs (\<lambda>_. [])"
proof -
  have "lane (bpq_new cap :: 'a bpq) = (\<lambda>_. [])" by (simp add: lane_def bpq_new_def fun_eq_iff)
  then show ?thesis
    using run_refines [OF bpq_new_inv, of cap cap xs] by (simp add: bpq_new_def queue_stats_new_def)
qed

lemma drop_counts_total:
  "count_outcomes (outcome_drops Integrity) rs + count_outcomes (outcome_drops Finding) rs
     + count_outcomes (outcome_drops Diagnostic) rs + count_outcomes (outcome_drops Lifecycle) rs
     + count_outcomes (outcome_drops Ordinary) rs = total_loss outcome_loss rs"
proof (induction rs)
  case (Cons r rs)
  have one: "(if outcome_drops Integrity x then 1 else 0) + (if outcome_drops Finding x then 1 else 0)
      + (if outcome_drops Diagnostic x then 1 else 0) + (if outcome_drops Lifecycle x then 1 else 0)
      + (if outcome_drops Ordinary x then 1 else (0::nat)) = outcome_loss x" for x
  proof (cases x)
    case (AcceptedAfterShedding p)
    then show ?thesis by (cases p) simp_all
  next
    case (Dropped p)
    then show ?thesis by (cases p) simp_all
  qed simp
  show ?case
  proof (cases r)
    case (PutResult x)
    with Cons one [of x] show ?thesis by (simp add: count_outcomes_def total_loss_def split: if_splits)
  next
    case (TakeResult v)
    with Cons show ?thesis by (simp add: count_outcomes_def total_loss_def)
  qed
qed (simp add: count_outcomes_def total_loss_def)

text \<open>C10. No silent loss. Of the records pushed in any run, each one is still queued, was
  popped, or is one of the lost ones, and the per-priority drop counters add up to the
  number of lost ones (as 64-bit counters do).\<close>

theorem queue_accounts_for_every_record:
  "let (rs, q) = bpq_run xs (bpq_new cap); st = bq_stats q in
     \<exists>lost. values_put xs = bpq_items q + values_taken rs + lost
       \<and> of_nat (size lost) =
           qs_dropped_count st Integrity + qs_dropped_count st Finding
           + qs_dropped_count st Diagnostic + qs_dropped_count st Lifecycle
           + qs_dropped_count st Ordinary"
proof -
  let ?rs = "fst (bpq_run xs (bpq_new cap))" and ?q = "snd (bpq_run xs (bpq_new cap))"
  from bpq.run_acc [OF bpq_new_inv, of cap xs] obtain lost where
    lost: "values_put xs = bpq_items ?q + values_taken ?rs + lost"
    "size lost = total_loss outcome_loss ?rs"
    by (auto simp: bpq_new_items)
  have "qs_dropped_count (bq_stats ?q) r = of_nat (count_outcomes (outcome_drops r) ?rs)" for r
    using run_counters [OF bpq_new_inv, of xs cap r]
    by (simp add: bpq_new_def queue_stats_new_def qs_dropped_count_def)
  then have "of_nat (size lost) =
      qs_dropped_count (bq_stats ?q) Integrity + qs_dropped_count (bq_stats ?q) Finding
      + qs_dropped_count (bq_stats ?q) Diagnostic + qs_dropped_count (bq_stats ?q) Lifecycle
      + qs_dropped_count (bq_stats ?q) Ordinary"
    by (simp add: lost(2) flip: drop_counts_total [of ?rs])
  with lost(1) show ?thesis by (auto simp: case_prod_beta Let_def)
qed

text \<open>Protected priorities. In a reachable queue a push never evicts anything but the
  oldest ordinary record, and then only when the queue is full and the new record is more
  important; a record is refused only when the queue is full and holds no ordinary record,
  or is ordinary itself. The depth never exceeds the capacity.\<close>

lemma queue_protects_priorities:
  "let q = snd (bpq_run xs (bpq_new cap)); (out, q') = bpq_push p x q in
     bpq_len q' \<le> cap \<and>
     (case out of
        Accepted \<Rightarrow> bpq_len q < cap \<and> lane q' = (lane q)(p := lane q p @ [x])
      | AcceptedAfterShedding r \<Rightarrow>
          bpq_len q = cap \<and> r = Ordinary \<and> r < p \<and> lane q Ordinary \<noteq> []
          \<and> lane q' = (lane q)(Ordinary := tl (lane q Ordinary), p := lane q p @ [x])
      | Dropped r \<Rightarrow>
          bpq_len q = cap \<and> r = p \<and> (p = Ordinary \<or> lane q Ordinary = []) \<and> lane q' = lane q)"
proof -
  let ?q = "snd (bpq_run xs (bpq_new cap))"
  have inv: "bpq_inv ?q" by (rule reachable_bpq)
  have cap: "qs_capacity (bq_stats ?q) = cap" by (rule reachable_capacity)
  have wf: "bm_wf (bq_queues ?q)" and le: "qs_depth (bq_stats ?q) \<le> cap"
    and tot: "qs_depth (bq_stats ?q) = lanes_total (lane ?q)"
    using inv cap stored_count_lanes by (auto simp: bpq_inv_def)
  have "bpq_inv (snd (bpq_push p x ?q))" using inv by (rule push_inv)
  moreover have "qs_capacity (bq_stats (snd (bpq_push p x ?q))) = cap"
    using push_counters(3) [OF inv] cap by simp
  ultimately have bound: "bpq_len (snd (bpq_push p x ?q)) \<le> cap"
    by (auto simp: bpq_inv_def bpq_len_def)
  have out: "fst (bpq_push p x ?q) = fst (spec_push cap p x (lane ?q))"
    "lane (snd (bpq_push p x ?q)) = snd (spec_push cap p x (lane ?q))"
    using push_refines [OF inv, of p x] cap by (simp_all add: prod_eq_iff)
  have less: "p \<noteq> Ordinary \<Longrightarrow> Ordinary < p" by (cases p) (simp_all add: less_queue_priority_def)
  show ?thesis
    using bound out le tot less
    by (simp add: Let_def case_prod_beta spec_push_def bpq_len_def split: if_splits)
qed

end
