(* ===== verification/Finding_Analysis.thy ===== *)
theory Finding_Analysis
  imports Intent
begin

text \<open>
  The accountability analyzer (\<open>crates/apolysis-accountability/src/finding.rs\<close>): observed
  effects, findings, the evaluation of an effect against the registered intent, and the
  matching of paths, endpoints and commands it uses; with a declarative account of which
  effects an intent permits.
\<close>

section \<open>Data\<close>

definition finding_schema_v1 :: u32 where
  "finding_schema_v1 = 1"

datatype effect_kind =
    EkExec | EkFileRead | EkFileWrite | EkNetworkConnect | EkCredentialRead
  | EkServiceAccountTokenRead

fun effect_action_class :: "effect_kind \<Rightarrow> action_class" where
  "effect_action_class EkExec = AcExecute"
| "effect_action_class EkFileRead = AcReadFile"
| "effect_action_class EkServiceAccountTokenRead = AcReadFile"
| "effect_action_class EkFileWrite = AcWriteFile"
| "effect_action_class EkNetworkConnect = AcNetwork"
| "effect_action_class EkCredentialRead = AcCredential"

datatype evidence_boundary = HostBoundary | GuestSemantic

record runtime_identity =
  ri_runtime :: string
  ri_container_id :: "string option"
  ri_pod_uid :: "string option"
  ri_cgroup_id :: "u64 option"

record observed_effect =
  oe_session_id :: string
  oe_evidence_ref :: string
  oe_kind :: effect_kind
  oe_actor :: string
  oe_resource :: string
  oe_runtime :: runtime_identity
  oe_boundary :: evidence_boundary

datatype finding_kind =
    FkMissingIntent | FkUndeclaredAction | FkCredentialRead | FkWorkspaceBoundary
  | FkUnknownEgress | FkDangerousCommand | FkServiceAccountTokenRead

datatype finding_decision = FdNotify | FdReview

record accountability_finding =
  af_schema_version :: u32
  af_session_id :: string
  af_kind :: finding_kind
  af_decision :: finding_decision
  af_reason :: string
  af_evidence_ref :: string
  af_runtime :: runtime_identity
  af_boundary :: evidence_boundary

definition mk_finding ::
    "observed_effect \<Rightarrow> finding_kind \<Rightarrow> finding_decision \<Rightarrow> string \<Rightarrow> accountability_finding" where
  "mk_finding e k d reason =
     \<lparr>af_schema_version = finding_schema_v1, af_session_id = oe_session_id e, af_kind = k,
      af_decision = d, af_reason = reason, af_evidence_ref = oe_evidence_ref e,
      af_runtime = oe_runtime e, af_boundary = oe_boundary e\<rparr>"

section \<open>Matching\<close>

definition is_path_kind :: "resource_kind \<Rightarrow> bool" where
  "is_path_kind k \<longleftrightarrow> k = ReWorkspace \<or> k = RePath"

definition has_path_policy :: "session_intent \<Rightarrow> bool" where
  "has_path_policy i \<longleftrightarrow> list_ex (\<lambda>s. is_path_kind (rs_kind s)) (si_allowed_resources i)"

definition intent_path_matches :: "string \<Rightarrow> string \<Rightarrow> bool" where
  "intent_path_matches pre path =
     (let p = trim_end_matches (\<lambda>c. c = CHR ''/'') pre in
      path = p \<or> (case strip_prefix p path of
                     Some rest \<Rightarrow> starts_with rest ''/'' | None \<Rightarrow> False))"

definition endpoint_matches :: "string \<Rightarrow> string \<Rightarrow> bool" where
  "endpoint_matches pat endpoint =
     (if pat = endpoint then True
      else (case strip_prefix ''*.'' pat of
              Some sfx \<Rightarrow> ends_with endpoint sfx | None \<Rightarrow> False))"

definition dangerous_commands :: "string list" where
  "dangerous_commands = [''rm -rf'', ''curl | sh'', ''wget | sh'', ''chmod 777'', ''dd if='']"

definition is_dangerous_command :: "string \<Rightarrow> bool" where
  "is_dangerous_command cmd \<longleftrightarrow> list_ex (str_contains cmd) dangerous_commands"

section \<open>Evaluation\<close>

definition kind_findings :: "session_intent \<Rightarrow> observed_effect \<Rightarrow> accountability_finding list" where
  "kind_findings i e =
     (case oe_kind e of
        EkCredentialRead \<Rightarrow>
          [mk_finding e FkCredentialRead FdNotify ''workload read a credential-classified resource'']
      | EkFileRead \<Rightarrow>
          (if has_path_policy i
              \<and> \<not> list_ex (\<lambda>s. is_path_kind (rs_kind s) \<and> intent_path_matches (rs_value s) (oe_resource e))
                    (si_allowed_resources i)
           then [mk_finding e FkWorkspaceBoundary FdReview
                   ''file access crossed the declared workspace boundary''] else [])
      | EkFileWrite \<Rightarrow>
          (if has_path_policy i
              \<and> \<not> list_ex (\<lambda>s. is_path_kind (rs_kind s) \<and> intent_path_matches (rs_value s) (oe_resource e))
                    (si_allowed_resources i)
           then [mk_finding e FkWorkspaceBoundary FdReview
                   ''file access crossed the declared workspace boundary''] else [])
      | EkNetworkConnect \<Rightarrow>
          (if \<not> list_ex (\<lambda>s. rs_kind s = ReEgress \<and> endpoint_matches (rs_value s) (oe_resource e))
                   (si_allowed_resources i)
           then [mk_finding e FkUnknownEgress FdReview
                   ''network endpoint is outside the declared egress set''] else [])
      | EkExec \<Rightarrow>
          (if is_dangerous_command (oe_actor e)
           then [mk_finding e FkDangerousCommand FdReview
                   ''command matches the dangerous-command baseline''] else [])
      | EkServiceAccountTokenRead \<Rightarrow>
          [mk_finding e FkServiceAccountTokenRead FdReview
             ''workload read a Kubernetes service account token''])"

definition evaluate_effect ::
    "session_intent option \<Rightarrow> observed_effect \<Rightarrow> accountability_finding list" where
  "evaluate_effect intent e =
     (case intent of
        None \<Rightarrow>
          [mk_finding e FkMissingIntent FdReview ''marked workload has no registered intent'']
      | Some i \<Rightarrow>
          (if effect_action_class (oe_kind e) \<notin> set (si_declared_actions i)
           then [mk_finding e FkUndeclaredAction FdReview
                   ''observed action class was not declared by intent''] else [])
          @ kind_findings i e)"

section \<open>Which effects an intent permits\<close>

text \<open>
  A path lies under a directory when it is the directory or continues it at a separator; an
  endpoint is covered by a pattern when it is the pattern, or the pattern is a wildcard and
  the endpoint ends with what follows the wildcard.
\<close>

definition path_under :: "string \<Rightarrow> string \<Rightarrow> bool" where
  "path_under dir path \<longleftrightarrow> path = dir \<or> (\<exists>rest. path = dir @ ''/'' @ rest)"

definition wildcard_covers :: "string \<Rightarrow> string \<Rightarrow> bool" where
  "wildcard_covers pat endpoint \<longleftrightarrow>
     pat = endpoint \<or> (\<exists>sfx pre. pat = ''*.'' @ sfx \<and> endpoint = pre @ sfx)"

definition path_permitted :: "session_intent \<Rightarrow> string \<Rightarrow> bool" where
  "path_permitted i path \<longleftrightarrow>
     (\<forall>s \<in> set (si_allowed_resources i). \<not> is_path_kind (rs_kind s))
     \<or> (\<exists>s \<in> set (si_allowed_resources i). is_path_kind (rs_kind s)
          \<and> path_under (trim_end_matches (\<lambda>c. c = CHR ''/'') (rs_value s)) path)"

definition egress_permitted :: "session_intent \<Rightarrow> string \<Rightarrow> bool" where
  "egress_permitted i endpoint \<longleftrightarrow>
     (\<exists>s \<in> set (si_allowed_resources i). rs_kind s = ReEgress \<and> wildcard_covers (rs_value s) endpoint)"

fun effect_permitted :: "session_intent \<Rightarrow> observed_effect \<Rightarrow> bool" where
  "effect_permitted i e \<longleftrightarrow>
     effect_action_class (oe_kind e) \<in> set (si_declared_actions i) \<and>
     (case oe_kind e of
        EkFileRead \<Rightarrow> path_permitted i (oe_resource e)
      | EkFileWrite \<Rightarrow> path_permitted i (oe_resource e)
      | EkNetworkConnect \<Rightarrow> egress_permitted i (oe_resource e)
      | EkExec \<Rightarrow> (\<forall>p \<in> set dangerous_commands. \<nexists>a b. oe_actor e = a @ p @ b)
      | _ \<Rightarrow> False)"

lemma intent_path_matches_iff:
  "intent_path_matches pre path \<longleftrightarrow> path_under (trim_end_matches (\<lambda>c. c = CHR ''/'') pre) path"
  by (auto simp: intent_path_matches_def path_under_def Let_def strip_prefix_def prefix_def
      split: option.splits if_splits)

lemma endpoint_matches_iff: "endpoint_matches pat endpoint \<longleftrightarrow> wildcard_covers pat endpoint"
  by (auto simp: endpoint_matches_def wildcard_covers_def strip_prefix_def prefix_def suffix_def
      split: option.splits)

lemma path_permitted_iff:
  "path_permitted i path \<longleftrightarrow>
     \<not> (has_path_policy i
        \<and> \<not> list_ex (\<lambda>s. is_path_kind (rs_kind s) \<and> intent_path_matches (rs_value s) path)
              (si_allowed_resources i))"
  by (auto simp: path_permitted_def has_path_policy_def list_ex_iff intent_path_matches_iff)

lemma egress_permitted_iff:
  "egress_permitted i endpoint \<longleftrightarrow>
     list_ex (\<lambda>s. rs_kind s = ReEgress \<and> endpoint_matches (rs_value s) endpoint) (si_allowed_resources i)"
  by (simp add: egress_permitted_def list_ex_iff endpoint_matches_iff)

lemma dangerous_iff:
  "is_dangerous_command cmd \<longleftrightarrow> (\<exists>p \<in> set dangerous_commands. \<exists>a b. cmd = a @ p @ b)"
  by (simp add: is_dangerous_command_def list_ex_iff sublist_def)

lemma kind_findings_Nil:
  "kind_findings i e = [] \<longleftrightarrow>
     (case oe_kind e of
        EkFileRead \<Rightarrow> path_permitted i (oe_resource e)
      | EkFileWrite \<Rightarrow> path_permitted i (oe_resource e)
      | EkNetworkConnect \<Rightarrow> egress_permitted i (oe_resource e)
      | EkExec \<Rightarrow> \<not> is_dangerous_command (oe_actor e)
      | _ \<Rightarrow> False)"
  by (auto simp: kind_findings_def path_permitted_iff egress_permitted_iff split: effect_kind.splits)

lemma kind_findings_about:
  "f \<in> set (kind_findings i e) \<Longrightarrow> \<exists>k d reason. f = mk_finding e k d reason"
  by (auto simp: kind_findings_def split: effect_kind.splits if_splits)

section \<open>The analyzer's properties\<close>

text \<open>C18. Completeness and precision of the analyzer. An effect of a session with an intent
  yields no finding exactly when the intent permits it: its action class is declared, a file
  access stays under a declared directory (when any is declared), a connection goes to a
  declared endpoint, a command contains no dangerous pattern; reads of credentials and of
  service account tokens always yield one.\<close>

theorem no_finding_iff_permitted: "evaluate_effect (Some i) e = [] \<longleftrightarrow> effect_permitted i e"
  by (auto simp: evaluate_effect_def kind_findings_Nil dangerous_iff split: effect_kind.splits)

text \<open>Findings are attributed to their evidence. Every evaluation yields at most two
  findings, exactly one asking for review when there is no intent, and each finding carries
  the session, the evidence reference, the runtime identity and the evidence boundary of
  the effect it is about.\<close>

lemma findings_attributed:
  "length (evaluate_effect intent e) \<le> 2
   \<and> map af_kind (evaluate_effect None e) = [FkMissingIntent]
   \<and> map af_decision (evaluate_effect None e) = [FdReview]
   \<and> map (\<lambda>f. (af_session_id f, af_evidence_ref f, af_runtime f, af_boundary f)) (evaluate_effect intent e)
     = replicate (length (evaluate_effect intent e))
         (oe_session_id e, oe_evidence_ref e, oe_runtime e, oe_boundary e)"
proof -
  have len: "length (kind_findings i e) \<le> 1" for i
    by (simp add: kind_findings_def split: effect_kind.splits)
  have about: "(af_session_id f, af_evidence_ref f, af_runtime f, af_boundary f)
      = (oe_session_id e, oe_evidence_ref e, oe_runtime e, oe_boundary e)"
    if "f \<in> set (evaluate_effect intent e)" for f
  proof -
    have "\<exists>k d reason. f = mk_finding e k d reason"
      using that kind_findings_about [of f _ e]
      by (auto simp: evaluate_effect_def split: option.splits if_splits)
    then show ?thesis by (auto simp: mk_finding_def)
  qed
  have "length (evaluate_effect (Some i) e) \<le> 2" for i
    using len [of i] by (simp add: evaluate_effect_def)
  then have two: "length (evaluate_effect intent e) \<le> 2"
    by (cases intent) (simp_all add: evaluate_effect_def)
  have "map (\<lambda>f. (af_session_id f, af_evidence_ref f, af_runtime f, af_boundary f))
        (evaluate_effect intent e)
     = map (\<lambda>_. (oe_session_id e, oe_evidence_ref e, oe_runtime e, oe_boundary e))
        (evaluate_effect intent e)"
    using about by (intro map_cong) simp_all
  with two show ?thesis
    by (simp add: map_replicate_const) (simp add: evaluate_effect_def mk_finding_def)
qed

section \<open>Where matching departs from what it means to do\<close>

text \<open>A wildcard covers hosts of other domains, and a path may leave its directory again.\<close>

lemma wildcard_covers_other_domain: "endpoint_matches ''*.example.com'' ''evilexample.com''"
  by (simp add: endpoint_matches_def strip_prefix_def suffix_def)

lemma path_escapes_workspace: "intent_path_matches ''/workspace'' ''/workspace/../etc/shadow''"
  by code_simp

end
