(* ===== verification/Policy_Enforcement.thy ===== *)
theory Policy_Enforcement
  imports Core_Schema
begin

text \<open>
  The policy engine (\<open>crates/apolysis-policy/src/lib.rs\<close>), parsing apart: decisions, the
  capabilities of the host, the evidence that enables pre-operation blocking, the
  enforcement matrix, the rules, and the evaluation of an event.
\<close>

section \<open>Data\<close>

datatype decision_kind = DAllow | DNotify | DBlock | DKill | DReview

fun decision_kind_str :: "decision_kind \<Rightarrow> string" where
  "decision_kind_str DAllow = ''allow''"
| "decision_kind_str DNotify = ''notify''"
| "decision_kind_str DBlock = ''block''"
| "decision_kind_str DKill = ''kill''"
| "decision_kind_str DReview = ''review''"

fun decision_kind_core :: "decision_kind \<Rightarrow> core_decision" where
  "decision_kind_core DAllow = CdAllow"
| "decision_kind_core DNotify = CdNotify"
| "decision_kind_core DBlock = CdBlock"
| "decision_kind_core DKill = CdKill"
| "decision_kind_core DReview = CdReview"

record enforcement_policy =
  ep_requested :: decision_kind
  ep_fallback :: decision_kind

record policy =
  po_deny_read :: "string list"
  po_max_seconds :: "u64 option"
  po_max_processes :: "u64 option"
  po_allow_read :: "string list"
  po_allow_write :: "string list"
  po_commands_deny :: "string list"
  po_allow_egress :: "string list"
  po_enforcement :: enforcement_policy

definition policy_default :: policy where
  "policy_default =
     \<lparr>po_deny_read = [], po_max_seconds = None, po_max_processes = None, po_allow_read = [],
      po_allow_write = [], po_commands_deny = [], po_allow_egress = [],
      po_enforcement = \<lparr>ep_requested = DNotify, ep_fallback = DNotify\<rparr>\<rparr>"

datatype enforcement_runtime =
    RtLocal | RtDocker | RtContainerd | RtKubernetes | RtGvisor | RtKata | RtFirecracker | RtUnknown

fun enforcement_runtime_str :: "enforcement_runtime \<Rightarrow> string" where
  "enforcement_runtime_str RtLocal = ''local''"
| "enforcement_runtime_str RtDocker = ''docker''"
| "enforcement_runtime_str RtContainerd = ''containerd''"
| "enforcement_runtime_str RtKubernetes = ''kubernetes''"
| "enforcement_runtime_str RtGvisor = ''gvisor''"
| "enforcement_runtime_str RtKata = ''kata''"
| "enforcement_runtime_str RtFirecracker = ''firecracker''"
| "enforcement_runtime_str RtUnknown = ''unknown''"

datatype enforcement_action =
    EaExec | EaFileRead | EaFileWrite | EaNetworkConnect | EaCredentialRead | EaOther

fun action_of_event :: "event_type \<Rightarrow> enforcement_action" where
  "action_of_event EvExec = EaExec"
| "action_of_event EvFileOpen = EaFileRead"
| "action_of_event EvCredentialRead = EaCredentialRead"
| "action_of_event EvFileCreate = EaFileWrite"
| "action_of_event EvFileTruncate = EaFileWrite"
| "action_of_event EvFileUnlink = EaFileWrite"
| "action_of_event EvFileRename = EaFileWrite"
| "action_of_event EvNetworkConnect = EaNetworkConnect"
| "action_of_event EvSessionStarted = EaOther"
| "action_of_event EvRuntimeMetadata = EaOther"
| "action_of_event EvProcessExit = EaOther"

fun enforcement_action_str :: "enforcement_action \<Rightarrow> string" where
  "enforcement_action_str EaExec = ''exec''"
| "enforcement_action_str EaFileRead = ''file_read''"
| "enforcement_action_str EaFileWrite = ''file_write''"
| "enforcement_action_str EaNetworkConnect = ''network_connect''"
| "enforcement_action_str EaCredentialRead = ''credential_read''"
| "enforcement_action_str EaOther = ''other''"

record block_support =
  bs_exec :: bool
  bs_file_read :: bool
  bs_file_write :: bool
  bs_network_connect :: bool
  bs_credential_read :: bool

definition block_support_none :: block_support where
  "block_support_none =
     \<lparr>bs_exec = False, bs_file_read = False, bs_file_write = False, bs_network_connect = False,
      bs_credential_read = False\<rparr>"

definition support_any :: "block_support \<Rightarrow> bool" where
  "support_any s \<longleftrightarrow>
     bs_exec s \<or> bs_file_read s \<or> bs_file_write s \<or> bs_network_connect s \<or> bs_credential_read s"

fun supports_action :: "block_support \<Rightarrow> enforcement_action \<Rightarrow> bool" where
  "supports_action s EaExec = bs_exec s"
| "supports_action s EaFileRead = bs_file_read s"
| "supports_action s EaFileWrite = bs_file_write s"
| "supports_action s EaNetworkConnect = bs_network_connect s"
| "supports_action s EaCredentialRead = bs_credential_read s"
| "supports_action s EaOther = False"

fun enable_action :: "enforcement_action \<Rightarrow> block_support \<Rightarrow> (string, block_support) res" where
  "enable_action EaExec s = Inr (s\<lparr>bs_exec := True\<rparr>)"
| "enable_action EaFileRead s = Inr (s\<lparr>bs_file_read := True\<rparr>)"
| "enable_action EaFileWrite s = Inr (s\<lparr>bs_file_write := True\<rparr>)"
| "enable_action EaNetworkConnect s = Inr (s\<lparr>bs_network_connect := True\<rparr>)"
| "enable_action EaCredentialRead s = Inr (s\<lparr>bs_credential_read := True\<rparr>)"
| "enable_action EaOther s = Inl ''event type does not map to a blockable action''"

datatype evidence_source = FixtureEvidence | LiveHostEvidence

datatype block_backend = BbBpfLsm | BbSeccomp

fun block_backend_str :: "block_backend \<Rightarrow> string" where
  "block_backend_str BbBpfLsm = ''bpf_lsm_block''"
| "block_backend_str BbSeccomp = ''seccomp_block''"

fun block_backend_enforcement :: "block_backend \<Rightarrow> enforcement_backend" where
  "block_backend_enforcement BbBpfLsm = BeBpfLsmBlock"
| "block_backend_enforcement BbSeccomp = BeSeccompBlock"

record block_evidence =
  be_backend :: block_backend
  be_source :: evidence_source
  be_runtime :: enforcement_runtime
  be_action :: event_type
  be_preop_prevention :: bool
  be_latency :: "u128 option"
  be_race_window :: "u128 option"

datatype enforcement_timing = TmAuditOnly | TmPostEventFeedback | TmPostEventContainment | TmPreOperation

fun enforcement_timing_str :: "enforcement_timing \<Rightarrow> string" where
  "enforcement_timing_str TmAuditOnly = ''audit_only''"
| "enforcement_timing_str TmPostEventFeedback = ''post_event_feedback''"
| "enforcement_timing_str TmPostEventContainment = ''post_event_containment''"
| "enforcement_timing_str TmPreOperation = ''pre_operation''"

record decision_downgrade =
  dd_from :: decision_kind
  dd_to :: decision_kind
  dd_reason :: string

record enforcement_capability =
  ec_requested :: decision_kind
  ec_effective :: decision_kind
  ec_action :: enforcement_action
  ec_runtime :: enforcement_runtime
  ec_requested_supported :: bool
  ec_backend :: enforcement_backend
  ec_timing :: enforcement_timing
  ec_preop_prevention :: bool
  ec_downgrade :: "decision_downgrade option"

record capabilities =
  ca_kernel_release :: "string option"
  ca_bpf_lsm :: bool
  ca_seccomp :: bool
  ca_runtime :: enforcement_runtime
  ca_block_backend :: "block_backend option"
  ca_block :: block_support

definition capabilities_default :: capabilities where
  "capabilities_default =
     \<lparr>ca_kernel_release = None, ca_bpf_lsm = False, ca_seccomp = False, ca_runtime = RtLocal,
      ca_block_backend = None, ca_block = block_support_none\<rparr>"

section \<open>Capabilities\<close>

text \<open>
  The files and the environment variable that \<open>detect\<close> reads are its arguments: the
  contents of the kernel release file, whether the seccomp file is there, the variable, and
  the contents of the LSM list.
\<close>

definition kernel_release :: "string option \<Rightarrow> string option" where
  "kernel_release file =
     (case file of
        Some s \<Rightarrow> if trim s \<noteq> [] then Some (trim s) else None
      | None \<Rightarrow> None)"

definition capabilities_detect ::
    "string option \<Rightarrow> bool \<Rightarrow> string option \<Rightarrow> string option \<Rightarrow> capabilities" where
  "capabilities_detect release seccomp env lsm =
     (case env of
        Some v \<Rightarrow>
          capabilities_default
            \<lparr>ca_kernel_release := kernel_release release,
             ca_bpf_lsm := v \<in> {''1'', ''true'', ''yes'', ''on''}, ca_seccomp := seccomp\<rparr>
      | None \<Rightarrow>
          capabilities_default
            \<lparr>ca_kernel_release := kernel_release release,
             ca_bpf_lsm :=
               (case lsm of
                  Some s \<Rightarrow> list_ex (\<lambda>name. trim name = ''bpf'') (split_on (CHR '','') s)
                | None \<Rightarrow> False),
             ca_seccomp := seccomp\<rparr>)"

definition runtime_supports_host_bpf_lsm :: "enforcement_runtime \<Rightarrow> bool" where
  "runtime_supports_host_bpf_lsm r \<longleftrightarrow> r \<in> {RtLocal, RtDocker, RtContainerd, RtKubernetes}"

definition runtime_supports_seccomp :: "enforcement_runtime \<Rightarrow> bool" where
  "runtime_supports_seccomp r \<longleftrightarrow> r = RtLocal"

fun backend_available :: "capabilities \<Rightarrow> block_backend \<Rightarrow> enforcement_runtime \<Rightarrow> bool" where
  "backend_available c BbBpfLsm r = (ca_bpf_lsm c \<and> runtime_supports_host_bpf_lsm r)"
| "backend_available c BbSeccomp r = (ca_seccomp c \<and> runtime_supports_seccomp r)"

definition can_preop_block :: "capabilities \<Rightarrow> enforcement_runtime \<Rightarrow> enforcement_action \<Rightarrow> bool" where
  "can_preop_block c r a \<longleftrightarrow>
     (case ca_block_backend c of Some b \<Rightarrow> backend_available c b r | None \<Rightarrow> False)
     \<and> supports_action (ca_block c) a"

definition any_preop_block :: "capabilities \<Rightarrow> bool" where
  "any_preop_block c \<longleftrightarrow>
     (case ca_block_backend c of Some b \<Rightarrow> backend_available c b (ca_runtime c) | None \<Rightarrow> False)
     \<and> support_any (ca_block c)"

fun validate_block_backend ::
    "capabilities \<Rightarrow> block_backend \<Rightarrow> enforcement_runtime \<Rightarrow> (string, unit) res" where
  "validate_block_backend c BbBpfLsm r =
     (if \<not> ca_bpf_lsm c then Inl ''BPF-LSM must be available before enabling block prototype''
      else if \<not> runtime_supports_host_bpf_lsm r then
        Inl (''runtime '' @ enforcement_runtime_str r @ '' does not support host BPF-LSM block validation'')
      else Inr ())"
| "validate_block_backend c BbSeccomp r =
     (if \<not> ca_seccomp c then Inl ''seccomp must be available before enabling block prototype''
      else if \<not> runtime_supports_seccomp r then
        Inl (''runtime '' @ enforcement_runtime_str r @ '' does not support seccomp block validation'')
      else Inr ())"

definition with_validated_block_prototype ::
    "block_evidence \<Rightarrow> capabilities \<Rightarrow> (string, capabilities) res" where
  "with_validated_block_prototype e c =
     (if be_source e \<noteq> LiveHostEvidence then
        Inl ''pre-operation block requires live-host validation evidence''
      else
        (case validate_block_backend c (be_backend e) (be_runtime e) of
           Inl err \<Rightarrow> Inl err
         | Inr _ \<Rightarrow>
             (if ca_runtime c \<noteq> be_runtime e then
                Inl (''validation runtime '' @ enforcement_runtime_str (be_runtime e)
                     @ '' does not match capability runtime '' @ enforcement_runtime_str (ca_runtime c))
              else if \<not> be_preop_prevention e then
                Inl ''block prototype evidence must prove pre-operation prevention''
              else if be_latency e = None then
                Inl ''block prototype evidence must include decision latency''
              else if be_race_window e \<noteq> Some 0 then
                Inl ''block prototype evidence must prove a zero side-effect race window''
              else
                (case enable_action (action_of_event (be_action e)) (ca_block c) of
                   Inl err \<Rightarrow> Inl err
                 | Inr s \<Rightarrow> Inr (c\<lparr>ca_block_backend := Some (be_backend e), ca_block := s\<rparr>)))))"

definition downgrade_target :: "enforcement_runtime \<Rightarrow> enforcement_action \<Rightarrow> string" where
  "downgrade_target r a = enforcement_runtime_str r @ ''/'' @ enforcement_action_str a"

definition block_downgrade_reason ::
    "capabilities \<Rightarrow> enforcement_runtime \<Rightarrow> enforcement_action \<Rightarrow> decision_kind \<Rightarrow> string" where
  "block_downgrade_reason c r a fallback =
     (if \<not> ca_bpf_lsm c then
        ''BPF-LSM is not available; requested block for '' @ downgrade_target r a
          @ '' downgraded to '' @ decision_kind_str fallback
      else if \<not> runtime_supports_host_bpf_lsm r then
        ''pre-operation block is unsupported for '' @ downgrade_target r a
          @ ''; requested block downgraded to '' @ decision_kind_str fallback
      else
        ''pre-operation block prototype is not enabled for '' @ downgrade_target r a
          @ ''; requested block downgraded to '' @ decision_kind_str fallback)"

section \<open>The enforcement matrix\<close>

fun backend_for_fallback :: "decision_kind \<Rightarrow> enforcement_backend" where
  "backend_for_fallback DAllow = BeAuditOnly"
| "backend_for_fallback DNotify = BeTracepointNotify"
| "backend_for_fallback DReview = BeTracepointNotify"
| "backend_for_fallback DBlock = BeTracepointNotify"
| "backend_for_fallback DKill = BeSignalKill"

fun timing_for_fallback :: "decision_kind \<Rightarrow> enforcement_timing" where
  "timing_for_fallback DAllow = TmAuditOnly"
| "timing_for_fallback DNotify = TmPostEventFeedback"
| "timing_for_fallback DReview = TmPostEventFeedback"
| "timing_for_fallback DBlock = TmPostEventFeedback"
| "timing_for_fallback DKill = TmPostEventContainment"

definition safe_non_block_fallback :: "decision_kind \<Rightarrow> decision_kind" where
  "safe_non_block_fallback k = (if k = DBlock then DNotify else k)"

definition resolve_block ::
    "capabilities \<Rightarrow> decision_kind \<Rightarrow> enforcement_runtime \<Rightarrow> enforcement_action \<Rightarrow> enforcement_capability" where
  "resolve_block c fallback r a =
     (if can_preop_block c r a then
        \<lparr>ec_requested = DBlock, ec_effective = DBlock, ec_action = a, ec_runtime = r,
         ec_requested_supported = True,
         ec_backend =
           (case ca_block_backend c of
              Some b \<Rightarrow> block_backend_enforcement b | None \<Rightarrow> BeBpfLsmBlock),
         ec_timing = TmPreOperation, ec_preop_prevention = True, ec_downgrade = None\<rparr>
      else
        (let fb = safe_non_block_fallback fallback in
         \<lparr>ec_requested = DBlock, ec_effective = fb, ec_action = a, ec_runtime = r,
          ec_requested_supported = False, ec_backend = backend_for_fallback fb,
          ec_timing = timing_for_fallback fb, ec_preop_prevention = False,
          ec_downgrade =
            Some \<lparr>dd_from = DBlock, dd_to = fb, dd_reason = block_downgrade_reason c r a fb\<rparr>\<rparr>))"

definition resolved ::
    "decision_kind \<Rightarrow> enforcement_action \<Rightarrow> enforcement_runtime \<Rightarrow> enforcement_backend
     \<Rightarrow> enforcement_timing \<Rightarrow> enforcement_capability" where
  "resolved k a r b t =
     \<lparr>ec_requested = k, ec_effective = k, ec_action = a, ec_runtime = r,
      ec_requested_supported = True, ec_backend = b, ec_timing = t,
      ec_preop_prevention = False, ec_downgrade = None\<rparr>"

definition matrix_resolve ::
    "capabilities \<Rightarrow> decision_kind \<Rightarrow> decision_kind \<Rightarrow> enforcement_runtime \<Rightarrow> event_type
     \<Rightarrow> enforcement_capability" where
  "matrix_resolve c requested fallback r ty =
     (let a = action_of_event ty in
      case requested of
        DAllow \<Rightarrow> resolved DAllow a r BeAuditOnly TmAuditOnly
      | DNotify \<Rightarrow> resolved DNotify a r BeTracepointNotify TmPostEventFeedback
      | DReview \<Rightarrow> resolved DReview a r BeTracepointNotify TmPostEventFeedback
      | DKill \<Rightarrow> resolved DKill a r BeSignalKill TmPostEventContainment
      | DBlock \<Rightarrow> resolve_block c fallback r a)"

section \<open>Matching\<close>

definition strip_dot_slash :: "string \<Rightarrow> string" where
  "strip_dot_slash s = (case strip_prefix ''./'' s of Some t \<Rightarrow> t | None \<Rightarrow> s)"

definition matches_anywhere :: "string \<Rightarrow> string \<Rightarrow> bool" where
  "matches_anywhere rel path \<longleftrightarrow>
     ends_with path (''/'' @ rel) \<or> str_contains path ((''/'' @ rel) @ ''/'')"

definition policy_path_matches :: "string \<Rightarrow> string \<Rightarrow> bool" where
  "policy_path_matches pat path =
     (let pat = strip_dot_slash pat; path = strip_dot_slash path in
      if path = pat \<or> starts_with path (pat @ ''/'') then True
      else
        (case strip_prefix ''~/'' pat of
           Some rel \<Rightarrow> matches_anywhere rel path
         | None \<Rightarrow> if \<not> starts_with pat ''/'' then matches_anywhere pat path else False))"

definition path_matches_any :: "string list \<Rightarrow> string \<Rightarrow> bool" where
  "path_matches_any pats path \<longleftrightarrow> list_ex (\<lambda>p. policy_path_matches p path) pats"

definition policy_endpoint_matches :: "string \<Rightarrow> string \<Rightarrow> bool" where
  "policy_endpoint_matches pat endpoint =
     (if pat = endpoint then True
      else
        (case rsplit_once (CHR '':'') pat of
           None \<Rightarrow> starts_with endpoint pat
         | Some (host, port) \<Rightarrow>
             (case rsplit_once (CHR '':'') endpoint of
                None \<Rightarrow> False
              | Some (ehost, _) \<Rightarrow> host = ehost \<and> port = ''0'')))"

definition endpoint_matches_any :: "string list \<Rightarrow> string \<Rightarrow> bool" where
  "endpoint_matches_any pats endpoint \<longleftrightarrow> list_ex (\<lambda>p. policy_endpoint_matches p endpoint) pats"

section \<open>Evaluation\<close>

datatype policy_decision =
    PdAllow
  | PdNotify string string
  | PdBlock string string
  | PdKill string string
  | PdReview string string

definition is_allow :: "policy_decision \<Rightarrow> bool" where
  "is_allow d \<longleftrightarrow> d = PdAllow"

fun policy_decision_core :: "policy_decision \<Rightarrow> core_decision" where
  "policy_decision_core PdAllow = CdAllow"
| "policy_decision_core (PdNotify _ _) = CdNotify"
| "policy_decision_core (PdBlock _ _) = CdBlock"
| "policy_decision_core (PdKill _ _) = CdKill"
| "policy_decision_core (PdReview _ _) = CdReview"

fun decision_rule_id :: "policy_decision \<Rightarrow> string option" where
  "decision_rule_id PdAllow = None"
| "decision_rule_id (PdNotify r _) = Some r"
| "decision_rule_id (PdBlock r _) = Some r"
| "decision_rule_id (PdKill r _) = Some r"
| "decision_rule_id (PdReview r _) = Some r"

fun decision_reason :: "policy_decision \<Rightarrow> string option" where
  "decision_reason PdAllow = None"
| "decision_reason (PdNotify _ r) = Some r"
| "decision_reason (PdBlock _ r) = Some r"
| "decision_reason (PdKill _ r) = Some r"
| "decision_reason (PdReview _ r) = Some r"

fun decision_for_kind :: "decision_kind \<Rightarrow> string \<Rightarrow> string \<Rightarrow> policy_decision" where
  "decision_for_kind DAllow r s = PdAllow"
| "decision_for_kind DNotify r s = PdNotify r s"
| "decision_for_kind DBlock r s = PdBlock r s"
| "decision_for_kind DKill r s = PdKill r s"
| "decision_for_kind DReview r s = PdReview r s"

record policy_evaluation =
  pe_decision :: policy_decision
  pe_requested :: decision_kind
  pe_effective :: decision_kind
  pe_backend :: enforcement_backend
  pe_timing :: enforcement_timing
  pe_runtime :: enforcement_runtime
  pe_action :: enforcement_action
  pe_preop_prevention :: bool
  pe_downgrade :: "decision_downgrade option"

definition evaluation_allow :: policy_evaluation where
  "evaluation_allow =
     \<lparr>pe_decision = PdAllow, pe_requested = DAllow, pe_effective = DAllow,
      pe_backend = BeAuditOnly, pe_timing = TmAuditOnly, pe_runtime = RtLocal,
      pe_action = EaOther, pe_preop_prevention = False, pe_downgrade = None\<rparr>"

definition denies_credential_path :: "policy \<Rightarrow> string \<Rightarrow> bool" where
  "denies_credential_path p path \<longleftrightarrow> list_ex (\<lambda>pat. policy_path_matches pat path) (po_deny_read p)"

definition evaluate_file_read :: "policy \<Rightarrow> string \<Rightarrow> policy_decision" where
  "evaluate_file_read p path =
     (if denies_credential_path p path then
        PdNotify ''credentials.deny_read'' ''file path matches credential deny list''
      else PdAllow)"

definition startup_downgrade :: "policy \<Rightarrow> capabilities \<Rightarrow> decision_downgrade option" where
  "startup_downgrade p c =
     (if ep_requested (po_enforcement p) = DBlock \<and> \<not> any_preop_block c then
        (let fb = safe_non_block_fallback (ep_fallback (po_enforcement p)) in
         Some \<lparr>dd_from = DBlock, dd_to = fb,
               dd_reason = ''pre-operation block is not available for runtime ''
                 @ enforcement_runtime_str (ca_runtime c) @ ''; requested block downgraded to ''
                 @ decision_kind_str fb\<rparr>)
      else None)"

definition outside_allow_list :: "string list \<Rightarrow> (string list \<Rightarrow> string \<Rightarrow> bool) \<Rightarrow> string \<Rightarrow> bool" where
  "outside_allow_list allow matches resource \<longleftrightarrow> allow \<noteq> [] \<and> \<not> matches allow resource"

definition write_rule :: "policy \<Rightarrow> string \<Rightarrow> (string \<times> string) option" where
  "write_rule p resource =
     (if outside_allow_list (po_allow_write p) path_matches_any resource then
        Some (''workspace.allow_write'', ''file write is outside workspace write allow list'')
      else None)"

definition match_event_rule :: "policy \<Rightarrow> canonical_event \<Rightarrow> (string \<times> string) option" where
  "match_event_rule p e =
     (case ce_type e of
        EvCredentialRead \<Rightarrow>
          Some (''credentials.deny_read'', ''file path matches credential deny list'')
      | EvFileOpen \<Rightarrow>
          (if outside_allow_list (po_allow_read p) path_matches_any (ce_resource e) then
             Some (''workspace.allow_read'', ''file read is outside workspace read allow list'')
           else None)
      | EvFileCreate \<Rightarrow> write_rule p (ce_resource e)
      | EvFileTruncate \<Rightarrow> write_rule p (ce_resource e)
      | EvFileUnlink \<Rightarrow> write_rule p (ce_resource e)
      | EvFileRename \<Rightarrow> write_rule p (ce_resource e)
      | EvNetworkConnect \<Rightarrow>
          (if outside_allow_list (po_allow_egress p) endpoint_matches_any (ce_resource e) then
             Some (''network.allow_egress'', ''network endpoint is outside egress allow list'')
           else None)
      | EvExec \<Rightarrow>
          (if list_ex (\<lambda>pat. str_contains (ce_actor e) pat \<or> str_contains (ce_resource e) pat)
                (po_commands_deny p) then
             Some (''commands.deny'', ''command matches deny list'')
           else None)
      | _ \<Rightarrow> None)"

definition effective_decision :: "policy \<Rightarrow> capabilities \<Rightarrow> event_type \<Rightarrow> enforcement_capability" where
  "effective_decision p c ty =
     matrix_resolve c (ep_requested (po_enforcement p)) (ep_fallback (po_enforcement p)) (ca_runtime c) ty"

definition evaluate_event :: "policy \<Rightarrow> canonical_event \<Rightarrow> capabilities \<Rightarrow> policy_evaluation" where
  "evaluate_event p e c =
     (case match_event_rule p e of
        None \<Rightarrow> evaluation_allow
      | Some (rule_id, reason) \<Rightarrow>
          (let k = effective_decision p c (ce_type e) in
           \<lparr>pe_decision = decision_for_kind (ec_effective k) rule_id reason,
            pe_requested = ec_requested k, pe_effective = ec_effective k,
            pe_backend = ec_backend k, pe_timing = ec_timing k, pe_runtime = ec_runtime k,
            pe_action = ec_action k, pe_preop_prevention = ec_preop_prevention k,
            pe_downgrade = ec_downgrade k\<rparr>))"

section \<open>The matrix's properties\<close>

lemma support_any_iff: "support_any s \<longleftrightarrow> (\<exists>a. supports_action s a)"
proof
  assume "support_any s"
  then show "\<exists>a. supports_action s a"
    unfolding support_any_def by (metis supports_action.simps(1-5))
next
  assume "\<exists>a. supports_action s a"
  then obtain a where "supports_action s a" ..
  then show "support_any s" by (cases a) (auto simp: support_any_def)
qed

lemma can_preop_block_support: "can_preop_block c r a \<Longrightarrow> ca_block_backend c \<noteq> None \<and> supports_action (ca_block c) a"
  by (auto simp: can_preop_block_def split: option.splits)

lemma safe_fallback_not_block [simp]: "safe_non_block_fallback k \<noteq> DBlock"
  by (simp add: safe_non_block_fallback_def)

lemma fallback_backend_not_block:
  "backend_for_fallback k \<notin> {BeBpfLsmBlock, BeSeccompBlock} \<and> timing_for_fallback k \<noteq> TmPreOperation"
  by (cases k) simp_all

lemma resolve_block_parts:
  "ec_effective (resolve_block c fb r a) = DBlock \<longleftrightarrow> can_preop_block c r a"
  "ec_preop_prevention (resolve_block c fb r a) \<longleftrightarrow> can_preop_block c r a"
  "ec_timing (resolve_block c fb r a) = TmPreOperation \<longleftrightarrow> can_preop_block c r a"
  "ec_backend (resolve_block c fb r a) \<in> {BeBpfLsmBlock, BeSeccompBlock} \<longleftrightarrow> can_preop_block c r a"
  "ec_downgrade (resolve_block c fb r a) = None \<longleftrightarrow> can_preop_block c r a"
proof -
  have "block_backend_enforcement b \<in> {BeBpfLsmBlock, BeSeccompBlock}" for b
    by (cases b) simp_all
  then have "(case ca_block_backend c of Some b \<Rightarrow> block_backend_enforcement b | None \<Rightarrow> BeBpfLsmBlock)
      \<in> {BeBpfLsmBlock, BeSeccompBlock}"
    by (simp split: option.splits)
  then show "ec_backend (resolve_block c fb r a) \<in> {BeBpfLsmBlock, BeSeccompBlock}
      \<longleftrightarrow> can_preop_block c r a"
    using fallback_backend_not_block [of "safe_non_block_fallback fb"]
    by (auto simp: resolve_block_def Let_def)
  show "ec_timing (resolve_block c fb r a) = TmPreOperation \<longleftrightarrow> can_preop_block c r a"
    using fallback_backend_not_block [of "safe_non_block_fallback fb"]
    by (simp add: resolve_block_def Let_def)
qed (simp_all add: resolve_block_def Let_def)

lemma matrix_non_block:
  "requested \<noteq> DBlock \<Longrightarrow>
   let k = matrix_resolve c requested fb r ty in
     ec_effective k = requested \<and> \<not> ec_preop_prevention k \<and> ec_timing k \<noteq> TmPreOperation
     \<and> ec_backend k \<notin> {BeBpfLsmBlock, BeSeccompBlock} \<and> ec_downgrade k = None"
  by (cases requested) (simp_all add: matrix_resolve_def resolved_def Let_def)

text \<open>
  When the capabilities say that an event can be blocked, in words of its own: the enabled backend is there on the host
  and works for the runtime, and the kind of the event is one that was enabled.
\<close>

definition host_can_block :: "capabilities \<Rightarrow> event_type \<Rightarrow> bool" where
  "host_can_block c ty \<longleftrightarrow>
     (ca_block_backend c = Some BbBpfLsm \<and> ca_bpf_lsm c
        \<and> ca_runtime c \<in> {RtLocal, RtDocker, RtContainerd, RtKubernetes}
      \<or> ca_block_backend c = Some BbSeccomp \<and> ca_seccomp c \<and> ca_runtime c = RtLocal)
     \<and> (bs_exec (ca_block c) \<and> ty = EvExec
        \<or> bs_file_read (ca_block c) \<and> ty = EvFileOpen
        \<or> bs_file_write (ca_block c) \<and> ty \<in> {EvFileCreate, EvFileTruncate, EvFileUnlink, EvFileRename}
        \<or> bs_network_connect (ca_block c) \<and> ty = EvNetworkConnect
        \<or> bs_credential_read (ca_block c) \<and> ty = EvCredentialRead)"

lemma can_preop_block_host: "can_preop_block c (ca_runtime c) (action_of_event ty) \<longleftrightarrow> host_can_block c ty"
proof -
  have "(case ca_block_backend c of Some b \<Rightarrow> backend_available c b (ca_runtime c) | None \<Rightarrow> False) \<longleftrightarrow>
      (ca_block_backend c = Some BbBpfLsm \<and> ca_bpf_lsm c
        \<and> ca_runtime c \<in> {RtLocal, RtDocker, RtContainerd, RtKubernetes}
      \<or> ca_block_backend c = Some BbSeccomp \<and> ca_seccomp c \<and> ca_runtime c = RtLocal)"
  proof (cases "ca_block_backend c")
    case (Some b)
    then show ?thesis
      by (cases b) (simp_all add: runtime_supports_host_bpf_lsm_def runtime_supports_seccomp_def)
  qed simp
  moreover have "supports_action (ca_block c) (action_of_event ty) \<longleftrightarrow>
      (bs_exec (ca_block c) \<and> ty = EvExec
        \<or> bs_file_read (ca_block c) \<and> ty = EvFileOpen
        \<or> bs_file_write (ca_block c) \<and> ty \<in> {EvFileCreate, EvFileTruncate, EvFileUnlink, EvFileRename}
        \<or> bs_network_connect (ca_block c) \<and> ty = EvNetworkConnect
        \<or> bs_credential_read (ca_block c) \<and> ty = EvCredentialRead)"
    by (cases ty) simp_all
  ultimately show ?thesis unfolding can_preop_block_def host_can_block_def by (simp only:)
qed

text \<open>C11. Blocking is never claimed without support. An evaluation is effectively a block
  exactly when a rule matched, a block was requested, and the capabilities of the host say that this event can
  be blocked: the enabled backend is on the host and works for the runtime (BPF-LSM for the
  local, Docker, containerd and Kubernetes runtimes, seccomp for the local one only), and blocking was enabled for this
  kind of event. Only then does it claim prevention, pre-operation timing, or a
  blocking backend, and that is then the enabled one. A downgrade is reported exactly when a matched
  rule's requested block could not be had, and then names the decision taken instead.\<close>

theorem evaluation_is_honest:
  "let v = evaluate_event p e c; matched = (match_event_rule p e \<noteq> None);
       wants = (ep_requested (po_enforcement p) = DBlock);
       able = host_can_block c (ce_type e)
   in (pe_effective v = DBlock \<longleftrightarrow> matched \<and> wants \<and> able)
      \<and> (pe_preop_prevention v \<longleftrightarrow> matched \<and> wants \<and> able)
      \<and> (pe_timing v = TmPreOperation \<longleftrightarrow> matched \<and> wants \<and> able)
      \<and> (pe_backend v = BeBpfLsmBlock \<longleftrightarrow> matched \<and> wants \<and> able \<and> ca_block_backend c = Some BbBpfLsm)
      \<and> (pe_backend v = BeSeccompBlock \<longleftrightarrow> matched \<and> wants \<and> able \<and> ca_block_backend c = Some BbSeccomp)
      \<and> (pe_downgrade v \<noteq> None \<longleftrightarrow> matched \<and> wants \<and> \<not> able)
      \<and> map_option dd_to (pe_downgrade v) \<in> {None, Some (pe_effective v)}
      \<and> (\<not> is_allow (pe_decision v) \<longleftrightarrow> matched \<and> pe_effective v \<noteq> DAllow)"
proof (cases "match_event_rule p e")
  case None
  then show ?thesis by (simp add: evaluate_event_def evaluation_allow_def is_allow_def Let_def)
next
  case (Some m)
  obtain rule reason where m: "m = (rule, reason)" by (cases m)
  let ?k = "effective_decision p c (ce_type e)"
  let ?a = "action_of_event (ce_type e)"
  have dec: "is_allow (decision_for_kind k rule reason) \<longleftrightarrow> k = DAllow" for k
    by (cases k) (simp_all add: is_allow_def)
  show ?thesis
  proof (cases "ep_requested (po_enforcement p) = DBlock")
    case True
    then have k: "?k = resolve_block c (ep_fallback (po_enforcement p)) (ca_runtime c) ?a"
      by (simp add: effective_decision_def matrix_resolve_def Let_def)
    have "map_option dd_to (ec_downgrade ?k) \<in> {None, Some (ec_effective ?k)}"
      by (simp add: k resolve_block_def Let_def)
    moreover have "ec_backend ?k = BeBpfLsmBlock \<longleftrightarrow> host_can_block c (ce_type e) \<and> ca_block_backend c = Some BbBpfLsm"
      "ec_backend ?k = BeSeccompBlock \<longleftrightarrow> host_can_block c (ce_type e) \<and> ca_block_backend c = Some BbSeccomp"
      using fallback_backend_not_block [of "safe_non_block_fallback (ep_fallback (po_enforcement p))"]
      by (auto simp: k resolve_block_def Let_def can_preop_block_host)
        (auto simp: host_can_block_def)
    ultimately show ?thesis using Some m dec True
      using resolve_block_parts [of c "ep_fallback (po_enforcement p)" "ca_runtime c" ?a]
      by (simp add: evaluate_event_def Let_def can_preop_block_host del: not_None_eq flip: k)
  next
    case False
    with Some m dec matrix_non_block [OF False, of c "ep_fallback (po_enforcement p)" "ca_runtime c" "ce_type e"]
    show ?thesis by (auto simp: evaluate_event_def Let_def effective_decision_def)
  qed
qed

text \<open>The startup report is exact. A policy is reported as downgraded at startup exactly
  when it requests blocking and there is no action at all that the host can block in the
  runtime it was detected for.\<close>

lemma startup_downgrade_exact:
  "startup_downgrade p c \<noteq> None \<longleftrightarrow>
     ep_requested (po_enforcement p) = DBlock \<and> (\<nexists>a. can_preop_block c (ca_runtime c) a)"
  by (auto simp: startup_downgrade_def any_preop_block_def can_preop_block_def support_any_iff
      Let_def split: option.splits)

section \<open>Evidence\<close>

text \<open>What evidence has to show on a host, in the words of the checks.\<close>

definition evidence_proves :: "capabilities \<Rightarrow> block_evidence \<Rightarrow> bool" where
  "evidence_proves c e \<longleftrightarrow>
     be_source e = LiveHostEvidence \<and> backend_available c (be_backend e) (be_runtime e)
     \<and> be_runtime e = ca_runtime c \<and> be_preop_prevention e \<and> be_latency e \<noteq> None
     \<and> be_race_window e = Some 0 \<and> action_of_event (be_action e) \<noteq> EaOther"

lemma validate_block_backend_iff:
  "validate_block_backend c b r = Inr () \<longleftrightarrow> backend_available c b r"
  by (cases b) simp_all

lemma enable_action_ok:
  "a \<noteq> EaOther \<Longrightarrow> \<exists>s'. enable_action a s = Inr s' \<and> (\<forall>x. supports_action s' x \<longleftrightarrow> x = a \<or> supports_action s x)"
  by (cases a; simp; intro allI; case_tac x; simp)

lemma evidence_accepted:
  assumes "evidence_proves c e"
  shows "\<exists>s. with_validated_block_prototype e c = Inr (c\<lparr>ca_block_backend := Some (be_backend e), ca_block := s\<rparr>)
     \<and> (\<forall>x. supports_action s x \<longleftrightarrow> x = action_of_event (be_action e) \<or> supports_action (ca_block c) x)"
proof -
  have v: "validate_block_backend c (be_backend e) (be_runtime e) = Inr ()"
    using assms unfolding evidence_proves_def validate_block_backend_iff by blast
  from enable_action_ok [of "action_of_event (be_action e)" "ca_block c"] assms obtain s where
    "enable_action (action_of_event (be_action e)) (ca_block c) = Inr s"
    "\<forall>x. supports_action s x \<longleftrightarrow> x = action_of_event (be_action e) \<or> supports_action (ca_block c) x"
    by (auto simp: evidence_proves_def)
  with assms v show ?thesis
    by (intro exI [of _ s]) (simp add: with_validated_block_prototype_def evidence_proves_def)
qed

lemma evidence_refused:
  assumes "\<not> evidence_proves c e"
  shows "\<not> is_ok (with_validated_block_prototype e c)"
proof (cases "validate_block_backend c (be_backend e) (be_runtime e)")
  case (Inl err)
  then show ?thesis by (simp add: with_validated_block_prototype_def)
next
  case (Inr u)
  then have "backend_available c (be_backend e) (be_runtime e)"
    by (simp flip: validate_block_backend_iff)
  with assms Inr show ?thesis
    by (auto simp: with_validated_block_prototype_def evidence_proves_def)
qed

text \<open>Evidence offered in turn; refused evidence leaves the capabilities as they were.\<close>

definition offer_evidence :: "block_evidence \<Rightarrow> capabilities \<Rightarrow> capabilities" where
  "offer_evidence e c = (case with_validated_block_prototype e c of Inl _ \<Rightarrow> c | Inr c' \<Rightarrow> c')"

lemma offer_evidence_parts:
  "evidence_proves (offer_evidence e c) x \<longleftrightarrow> evidence_proves c x"
  "supports_action (ca_block (offer_evidence e c)) a \<longleftrightarrow>
     (evidence_proves c e \<and> a = action_of_event (be_action e)) \<or> supports_action (ca_block c) a"
  "ca_block_backend (offer_evidence e c) =
     (if evidence_proves c e then Some (be_backend e) else ca_block_backend c)"
proof -
  have av: "backend_available (c\<lparr>ca_block_backend := b, ca_block := s\<rparr>) = backend_available c" for b s
  proof (intro ext)
    fix k r
    show "backend_available (c\<lparr>ca_block_backend := b, ca_block := s\<rparr>) k r = backend_available c k r"
      by (cases k) simp_all
  qed
  consider (yes) s where "evidence_proves c e"
      "offer_evidence e c = c\<lparr>ca_block_backend := Some (be_backend e), ca_block := s\<rparr>"
      "\<forall>x. supports_action s x \<longleftrightarrow> x = action_of_event (be_action e) \<or> supports_action (ca_block c) x"
    | (no) "\<not> evidence_proves c e" "offer_evidence e c = c"
  proof (cases "evidence_proves c e")
    case True
    with evidence_accepted [OF True] that(1) show ?thesis by (auto simp: offer_evidence_def)
  next
    case False
    from evidence_refused [OF False] obtain err where "with_validated_block_prototype e c = Inl err"
      by (auto simp: not_is_ok_iff)
    with False that(2) show ?thesis by (simp add: offer_evidence_def)
  qed
  then have "(evidence_proves (offer_evidence e c) x \<longleftrightarrow> evidence_proves c x)
    \<and> (supports_action (ca_block (offer_evidence e c)) a \<longleftrightarrow>
         (evidence_proves c e \<and> a = action_of_event (be_action e)) \<or> supports_action (ca_block c) a)
    \<and> ca_block_backend (offer_evidence e c) =
         (if evidence_proves c e then Some (be_backend e) else ca_block_backend c)"
    by cases (auto simp: evidence_proves_def av)
  then show "evidence_proves (offer_evidence e c) x \<longleftrightarrow> evidence_proves c x"
    "supports_action (ca_block (offer_evidence e c)) a \<longleftrightarrow>
       (evidence_proves c e \<and> a = action_of_event (be_action e)) \<or> supports_action (ca_block c) a"
    "ca_block_backend (offer_evidence e c) =
       (if evidence_proves c e then Some (be_backend e) else ca_block_backend c)" by blast+
qed

lemma offer_evidence_proves [simp]: "evidence_proves (offer_evidence e c) = evidence_proves c"
  by (intro ext offer_evidence_parts)

lemma offers_parts:
  "supports_action (ca_block (fold offer_evidence es c)) a \<longleftrightarrow>
     (\<exists>e \<in> set es. evidence_proves c e \<and> a = action_of_event (be_action e)) \<or> supports_action (ca_block c) a"
  "ca_block_backend (fold offer_evidence es c) =
     (case filter (evidence_proves c) (rev es) of [] \<Rightarrow> ca_block_backend c | e # _ \<Rightarrow> Some (be_backend e))"
proof -
  show "supports_action (ca_block (fold offer_evidence es c)) a \<longleftrightarrow>
     (\<exists>e \<in> set es. evidence_proves c e \<and> a = action_of_event (be_action e)) \<or> supports_action (ca_block c) a"
    by (induction es arbitrary: c) (auto simp: offer_evidence_parts)
  show "ca_block_backend (fold offer_evidence es c) =
     (case filter (evidence_proves c) (rev es) of [] \<Rightarrow> ca_block_backend c | e # _ \<Rightarrow> Some (be_backend e))"
    by (induction es arbitrary: c) (auto simp: offer_evidence_parts split: list.splits)
qed

text \<open>C12. Blocking rests on evidence. Starting from detected capabilities, whatever evidence
  is offered in whatever order, an action counts as blockable exactly when some piece of
  live-host evidence proved it for this runtime, with an available backend, a measured
  latency and a zero race window; and the backend in use is that of the latest such piece.\<close>

theorem blocking_rests_on_evidence:
  "let c0 = capabilities_detect release seccomp env lsm; c = fold offer_evidence es c0 in
     (supports_action (ca_block c) a \<longleftrightarrow>
        list_ex (\<lambda>e. evidence_proves c0 e \<and> a = action_of_event (be_action e)) es)
     \<and> ca_block_backend c =
         (case filter (evidence_proves c0) (rev es) of [] \<Rightarrow> None | e # _ \<Rightarrow> Some (be_backend e))"
proof -
  have none: "\<not> supports_action block_support_none a"
    by (cases a) (simp_all add: block_support_none_def)
  have "ca_block (capabilities_detect release seccomp env lsm) = block_support_none"
    "ca_block_backend (capabilities_detect release seccomp env lsm) = None"
    by (simp_all add: capabilities_detect_def capabilities_default_def split: option.splits)
  with none show ?thesis by (simp add: Let_def offers_parts list_ex_iff split: list.splits)
qed

text \<open>
  The support is not kept per backend: an action proved for BPF-LSM counts as blockable by
  seccomp once evidence for another action switched the backend.
\<close>

definition sample_evidence :: "block_backend \<Rightarrow> event_type \<Rightarrow> block_evidence" where
  "sample_evidence b ty =
     \<lparr>be_backend = b, be_source = LiveHostEvidence, be_runtime = RtLocal, be_action = ty,
      be_preop_prevention = True, be_latency = Some 1, be_race_window = Some 0\<rparr>"

lemma evidence_crosses_backends:
  "let c = fold offer_evidence [sample_evidence BbBpfLsm EvFileOpen, sample_evidence BbSeccomp EvExec]
             (capabilities_detect None True (Some ''1'') None);
       k = matrix_resolve c DBlock DNotify RtLocal EvFileOpen
   in ec_effective k = DBlock \<and> ec_backend k = BeSeccompBlock"
  by code_simp

text \<open>A downgrade blames BPF-LSM even where the backend in use is seccomp.\<close>

lemma downgrade_blames_wrong_backend:
  "let c = offer_evidence (sample_evidence BbSeccomp EvExec) (capabilities_detect None True (Some ''0'') None);
       k = matrix_resolve c DBlock DNotify RtLocal EvFileOpen
   in ca_block_backend c = Some BbSeccomp
      \<and> (case ec_downgrade k of None \<Rightarrow> False
         | Some d \<Rightarrow> prefix ''BPF-LSM is not available'' (dd_reason d))"
  by code_simp

end
