(* ===== verification/Policy_Matching.thy ===== *)
theory Policy_Matching
  imports Policy_Enforcement
begin

text \<open>
  What the policy's matching means (\<open>path_matches\<close>, \<open>endpoint_matches\<close> and
  \<open>match_event_rule\<close> of \<open>crates/apolysis-policy/src/lib.rs\<close>): the string tests of the code
  against path components, and the events a policy lets pass.
\<close>

section \<open>Components of a path\<close>

abbreviation components :: "string \<Rightarrow> string list" where
  "components \<equiv> split_on (CHR ''/'')"

lemma split_on_both: "split_on c (a @ c # b) = split_on c a @ split_on c b"
  by (induction a) (auto split: list.splits)

lemma join_with_append:
  "xs \<noteq> [] \<Longrightarrow> ys \<noteq> [] \<Longrightarrow> join_with [c] (xs @ ys) = join_with [c] xs @ c # join_with [c] ys"
proof (induction xs)
  case (Cons x xs)
  show ?case
  proof (cases xs)
    case Nil
    with Cons.prems obtain y ys' where "ys = y # ys'" by (cases ys) auto
    with Nil show ?thesis by simp
  next
    case (Cons x' xs')
    with Cons.IH Cons.prems show ?thesis by simp
  qed
qed simp

text \<open>The components of one text begin those of another: it is it, or continues it.\<close>

lemma components_prefix:
  "prefix (split_on c p) (split_on c q) \<longleftrightarrow> q = p \<or> prefix (p @ [c]) q"
proof
  assume "prefix (split_on c p) (split_on c q)"
  then obtain ys where ys: "split_on c q = split_on c p @ ys" by (auto simp: prefix_def)
  show "q = p \<or> prefix (p @ [c]) q"
  proof (cases "ys = []")
    case True
    with ys show ?thesis using join_split_on [of c p] join_split_on [of c q] by simp
  next
    case False
    then have "q = p @ c # join_with [c] ys"
      using ys join_split_on [of c q] join_split_on [of c p]
      by (simp add: join_with_append)
    then show ?thesis by (simp add: prefix_def)
  qed
next
  assume "q = p \<or> prefix (p @ [c]) q"
  then show "prefix (split_on c p) (split_on c q)"
    by (auto simp: prefix_def split_on_both)
qed

lemma components_within:
  "sublist (split_on c r) (tl (split_on c q)) \<longleftrightarrow> suffix (c # r) q \<or> sublist (c # r @ [c]) q"
proof
  assume "sublist (split_on c r) (tl (split_on c q))"
  then obtain xs ys where "tl (split_on c q) = xs @ split_on c r @ ys" by (auto simp: sublist_def)
  then have sp: "split_on c q = (hd (split_on c q) # xs) @ split_on c r @ ys"
    by (metis append_Cons list.collapse split_on_nonempty)
  let ?a = "join_with [c] (hd (split_on c q) # xs)"
  have q: "q = ?a @ c # join_with [c] (split_on c r @ ys)"
    using join_split_on [of c q] join_with_append [of "hd (split_on c q) # xs" "split_on c r @ ys" c]
    by (subst (asm) sp) simp
  show "suffix (c # r) q \<or> sublist (c # r @ [c]) q"
  proof (cases "ys = []")
    case True
    with q have "q = ?a @ c # r" by (simp add: join_split_on)
    then show ?thesis by (metis suffixI)
  next
    case False
    with q have "q = ?a @ (c # r @ [c]) @ join_with [c] ys"
      by (simp add: join_with_append join_split_on)
    then show ?thesis by (metis sublist_appendI)
  qed
next
  assume "suffix (c # r) q \<or> sublist (c # r @ [c]) q"
  then obtain a where "q = a @ c # r \<or> (\<exists>b. q = a @ c # r @ c # b)"
    by (auto simp: suffix_def sublist_def)
  then obtain ys where "split_on c q = split_on c a @ split_on c r @ ys"
    by (auto simp: split_on_both)
  then show "sublist (split_on c r) (tl (split_on c q))"
    by (simp add: sublist_def) (metis split_on_nonempty)
qed

lemma sublist_tl: "sublist xs ys \<longleftrightarrow> prefix xs ys \<or> sublist xs (tl ys)"
  by (cases ys) (auto simp: sublist_Cons_right)

text \<open>C17. Path patterns match whole components. With a leading \<open>./\<close> dropped on both sides,
  an absolute pattern matches a path exactly when its components begin the path's; a
  relative pattern exactly when its components occur, next to each other and in order,
  anywhere in the path's; a pattern under the home directory exactly when its components,
  taken literally, begin the path's or the rest of them occurs after the first component.
  No pattern ever matches a part of a component.\<close>

theorem path_match_is_component_match:
  "policy_path_matches pat path \<longleftrightarrow>
     (let p = strip_dot_slash pat; q = components (strip_dot_slash path) in
      case strip_prefix ''~/'' p of
        Some rel \<Rightarrow> prefix (components p) q \<or> sublist (components rel) (tl q)
      | None \<Rightarrow>
          if prefix ''/'' p then prefix (components p) q else sublist (components p) q)"
  using sublist_tl [of "components (strip_dot_slash pat)" "components (strip_dot_slash path)"]
  by (auto simp: policy_path_matches_def matches_anywhere_def Let_def components_prefix
      components_within split: option.splits)

section \<open>Which events a policy lets pass\<close>

definition endpoint_host :: "string \<Rightarrow> string \<Rightarrow> bool" where
  "endpoint_host endpoint host \<longleftrightarrow>
     (\<exists>port. endpoint = host @ CHR '':'' # port \<and> CHR '':'' \<notin> set port)"

lemma policy_endpoint_matches_iff:
  "policy_endpoint_matches pat endpoint \<longleftrightarrow>
     pat = endpoint
     \<or> (CHR '':'' \<notin> set pat \<and> prefix pat endpoint)
     \<or> (\<exists>host. pat = host @ '':0'' \<and> endpoint_host endpoint host)"
proof -
  have pat: "rsplit_once (CHR '':'') pat = Some (host, ''0'') \<longleftrightarrow> pat = host @ '':0''" for host
    by (simp add: rsplit_once_Some)
  have ep: "(\<exists>port. rsplit_once (CHR '':'') endpoint = Some (host, port)) \<longleftrightarrow> endpoint_host endpoint host" for host
    by (simp add: rsplit_once_Some endpoint_host_def)
  show ?thesis
  proof (cases "rsplit_once (CHR '':'') pat")
    case None
    then have "CHR '':'' \<notin> set pat" by (simp add: rsplit_once_None)
    with None show ?thesis by (auto simp: policy_endpoint_matches_def)
  next
    case (Some hp)
    obtain h po where hp: "hp = (h, po)" by (cases hp)
    then have "pat = h @ CHR '':'' # po" using Some by (simp add: rsplit_once_Some)
    then have colon: "CHR '':'' \<in> set pat" by simp
    have "(\<exists>host. pat = host @ '':0'' \<and> endpoint_host endpoint host) \<longleftrightarrow>
        po = ''0'' \<and> endpoint_host endpoint h"
      using Some hp by (auto simp flip: pat)
    also have "\<dots> \<longleftrightarrow> (case rsplit_once (CHR '':'') endpoint of
        None \<Rightarrow> False | Some (eh, _) \<Rightarrow> h = eh \<and> po = ''0'')"
      by (auto simp flip: ep split: option.splits)
    finally show ?thesis using Some hp colon by (simp add: policy_endpoint_matches_def)
  qed
qed

definition listed :: "string list \<Rightarrow> (string \<Rightarrow> string \<Rightarrow> bool) \<Rightarrow> string \<Rightarrow> bool" where
  "listed allow matches resource \<longleftrightarrow> allow = [] \<or> list_ex (\<lambda>p. matches p resource) allow"

fun event_passes :: "policy \<Rightarrow> canonical_event \<Rightarrow> bool" where
  "event_passes p e \<longleftrightarrow>
     (case action_of_event (ce_type e) of
        EaCredentialRead \<Rightarrow> False
      | EaFileRead \<Rightarrow> listed (po_allow_read p) policy_path_matches (ce_resource e)
      | EaFileWrite \<Rightarrow> listed (po_allow_write p) policy_path_matches (ce_resource e)
      | EaNetworkConnect \<Rightarrow> listed (po_allow_egress p) policy_endpoint_matches (ce_resource e)
      | EaExec \<Rightarrow>
          \<not> list_ex (\<lambda>pat. str_contains (ce_actor e) pat \<or> str_contains (ce_resource e) pat)
              (po_commands_deny p)
      | EaOther \<Rightarrow> True)"

lemma match_event_rule_None: "match_event_rule p e = None \<longleftrightarrow> event_passes p e"
  by (auto simp: match_event_rule_def write_rule_def outside_allow_list_def listed_def
      path_matches_any_def endpoint_matches_any_def split: event_type.splits)

text \<open>The rules are complete and precise. An event is allowed without a rule exactly when
  the policy lets it pass: credential reads never do; reads, writes and connections do when
  the list for their class is empty or has an entry that matches; a command does when no
  denied text occurs in its actor or resource. Such an event is evaluated as allowed, and
  any other decision than to allow carries the rule that matched.\<close>

lemma no_rule_iff_passes:
  "(match_event_rule p e = None \<longleftrightarrow> event_passes p e)
   \<and> (case match_event_rule p e of
        None \<Rightarrow> evaluate_event p e c = evaluation_allow
      | Some (rule, reason) \<Rightarrow>
          pe_decision (evaluate_event p e c) = PdAllow
          \<or> decision_rule_id (pe_decision (evaluate_event p e c)) = Some rule)"
proof -
  have "decision_for_kind k rule reason = PdAllow
      \<or> decision_rule_id (decision_for_kind k rule reason) = Some rule" for k rule reason
    by (cases k) simp_all
  then have "(case match_event_rule p e of
        None \<Rightarrow> evaluate_event p e c = evaluation_allow
      | Some (rule, reason) \<Rightarrow>
          pe_decision (evaluate_event p e c) = PdAllow
          \<or> decision_rule_id (pe_decision (evaluate_event p e c)) = Some rule)"
    by (auto simp: evaluate_event_def Let_def split: option.splits)
  then show ?thesis using match_event_rule_None by blast
qed

text \<open>A pattern without a port covers every endpoint that begins with its text.\<close>

lemma endpoint_prefix_covers_other_hosts:
  "policy_endpoint_matches ''10.0.0.1'' ''10.0.0.100:443''"
  by code_simp

text \<open>Components are compared as they are: a path may leave the listed directory again.\<close>

lemma path_match_escapes: "policy_path_matches ''./src'' ''src/../../etc/shadow''"
  by code_simp

end
