(* ===== verification/Policy_Parser.thy ===== *)
theory Policy_Parser
  imports Policy_Enforcement
begin

text \<open>
  The policy parser (\<open>Policy::parse\<close> and \<open>parse_json_policy\<close> of
  \<open>crates/apolysis-policy/src/lib.rs\<close>): the line-based subset of YAML and the JSON subset.
  Positions in the JSON text are represented by the text from there on. A policy written out
  by a reference printer parses back to itself.
\<close>

section \<open>Scalars\<close>

definition parse_u64_field :: "string \<Rightarrow> string \<Rightarrow> (string, u64) res" where
  "parse_u64_field field v =
     map_sum (\<lambda>e. ''invalid '' @ field @ '': '' @ int_error_str e) id (parse_word (trim v))"

definition parse_decision_kind :: "string \<Rightarrow> (string, decision_kind) res" where
  "parse_decision_kind v =
     (if v = ''allow'' then Inr DAllow
      else if v = ''notify'' then Inr DNotify
      else if v = ''block'' then Inr DBlock
      else if v = ''kill'' then Inr DKill
      else if v = ''review'' then Inr DReview
      else Inl (''unknown policy decision: '' @ v))"

section \<open>The line-based form\<close>

definition push_list_value :: "string \<Rightarrow> string \<Rightarrow> string \<Rightarrow> policy \<Rightarrow> policy" where
  "push_list_value sect lst v p =
     (if sect = ''credentials'' \<and> lst = ''deny_read'' then p\<lparr>po_deny_read := po_deny_read p @ [v]\<rparr>
      else if sect = ''workspace'' \<and> lst = ''allow_read'' then p\<lparr>po_allow_read := po_allow_read p @ [v]\<rparr>
      else if sect = ''workspace'' \<and> lst = ''allow_write'' then p\<lparr>po_allow_write := po_allow_write p @ [v]\<rparr>
      else if sect = ''commands'' \<and> lst = ''deny'' then p\<lparr>po_commands_deny := po_commands_deny p @ [v]\<rparr>
      else if sect = ''network'' \<and> lst = ''allow_egress'' then p\<lparr>po_allow_egress := po_allow_egress p @ [v]\<rparr>
      else p)"

record yaml_state =
  ys_policy :: policy
  ys_section :: string
  ys_list :: string

definition with_requested :: "decision_kind \<Rightarrow> policy \<Rightarrow> policy" where
  "with_requested k p = p\<lparr>po_enforcement := (po_enforcement p)\<lparr>ep_requested := k\<rparr>\<rparr>"

definition with_fallback :: "decision_kind \<Rightarrow> policy \<Rightarrow> policy" where
  "with_fallback k p = p\<lparr>po_enforcement := (po_enforcement p)\<lparr>ep_fallback := k\<rparr>\<rparr>"

abbreviation is_colon :: "char \<Rightarrow> bool" where
  "is_colon c \<equiv> c = CHR '':''"

text \<open>The body of the loop over the lines; \<open>continue\<close> ends a branch.\<close>

definition yaml_entry :: "string \<Rightarrow> yaml_state \<Rightarrow> (string, yaml_state) res" where
  "yaml_entry line s =
     (case strip_prefix ''- '' line of
        Some v \<Rightarrow>
          Inr (s\<lparr>ys_policy :=
            push_list_value (ys_section s) (ys_list s) (clean_scalar (trim v)) (ys_policy s)\<rparr>)
      | None \<Rightarrow>
     (case strip_prefix ''max_seconds:'' line of
        Some v \<Rightarrow>
          map_sum id (\<lambda>n. s\<lparr>ys_policy := (ys_policy s)\<lparr>po_max_seconds := Some n\<rparr>\<rparr>)
            (parse_u64_field ''max_seconds'' v)
      | None \<Rightarrow>
     (case strip_prefix ''max_processes:'' line of
        Some v \<Rightarrow>
          map_sum id (\<lambda>n. s\<lparr>ys_policy := (ys_policy s)\<lparr>po_max_processes := Some n\<rparr>\<rparr>)
            (parse_u64_field ''max_processes'' v)
      | None \<Rightarrow>
     (case strip_prefix ''requested:'' line of
        Some v \<Rightarrow>
          (if ys_section s = ''enforcement'' then
             map_sum id (\<lambda>k. s\<lparr>ys_policy := with_requested k (ys_policy s)\<rparr>)
               (parse_decision_kind (clean_scalar (trim v)))
           else Inr s)
      | None \<Rightarrow>
     (case strip_prefix ''fallback:'' line of
        Some v \<Rightarrow>
          (if ys_section s = ''enforcement'' then
             map_sum id (\<lambda>k. s\<lparr>ys_policy := with_fallback k (ys_policy s)\<rparr>)
               (parse_decision_kind (clean_scalar (trim v)))
           else Inr s)
      | None \<Rightarrow> Inr s)))))"

definition yaml_line :: "string \<Rightarrow> yaml_state \<Rightarrow> (string, yaml_state) res" where
  "yaml_line raw s =
     (let line = trim raw in
      if line = [] \<or> starts_with line ''#'' \<or> line = ''---'' then Inr s
      else if \<not> starts_with raw '' '' \<and> ends_with line '':'' then
        Inr (s\<lparr>ys_section := trim_end_matches is_colon line, ys_list := []\<rparr>)
      else if ends_with line '':'' then Inr (s\<lparr>ys_list := trim_end_matches is_colon line\<rparr>)
      else yaml_entry line s)"

fun yaml_lines :: "string list \<Rightarrow> yaml_state \<Rightarrow> (string, yaml_state) res" where
  "yaml_lines [] s = Inr s"
| "yaml_lines (l # ls) s = (case yaml_line l s of Inl e \<Rightarrow> Inl e | Inr s' \<Rightarrow> yaml_lines ls s')"

section \<open>The JSON form\<close>

definition skip_json_whitespace :: "string \<Rightarrow> string" where
  "skip_json_whitespace s = dropWhile is_ascii_whitespace s"

text \<open>\<open>json_value_start\<close>: the text from the value of the first occurrence of the quoted key on.\<close>

definition json_value_at :: "string \<Rightarrow> string \<Rightarrow> string option" where
  "json_value_at input key =
     (let pat = [ch_quote] @ key @ [ch_quote] in
      case find_sub pat input of
        None \<Rightarrow> None
      | Some key_start \<Rightarrow>
          (let after_key = drop (key_start + length pat) input in
           case find_sub '':'' after_key of
             None \<Rightarrow> None
           | Some colon \<Rightarrow> Some (skip_json_whitespace (drop (colon + 1) after_key))))"

text \<open>The scan of \<open>matching_delimiter\<close>, from an offset on, with its nesting and string state.\<close>

fun match_scan :: "char \<Rightarrow> char \<Rightarrow> nat \<Rightarrow> bool \<Rightarrow> bool \<Rightarrow> nat \<Rightarrow> string \<Rightarrow> nat option" where
  "match_scan opn cls depth in_string escaped offset [] = None"
| "match_scan opn cls depth in_string escaped offset (c # cs) =
     (if in_string then
        (if escaped then match_scan opn cls depth True False (offset + 1) cs
         else if c = ch_backslash then match_scan opn cls depth True True (offset + 1) cs
         else if c = ch_quote then match_scan opn cls depth False escaped (offset + 1) cs
         else match_scan opn cls depth True escaped (offset + 1) cs)
      else if c = ch_quote then match_scan opn cls depth True escaped (offset + 1) cs
      else if c = opn then match_scan opn cls (depth + 1) False escaped (offset + 1) cs
      else if c = cls then
        (if depth - 1 = 0 then Some offset
         else match_scan opn cls (depth - 1) False escaped (offset + 1) cs)
      else match_scan opn cls depth False escaped (offset + 1) cs)"

definition matching_delimiter :: "string \<Rightarrow> char \<Rightarrow> char \<Rightarrow> nat option" where
  "matching_delimiter s opn cls = match_scan opn cls 0 False False 0 s"

definition first_is :: "char \<Rightarrow> string \<Rightarrow> bool" where
  "first_is c s \<longleftrightarrow> (case s of d # _ \<Rightarrow> d = c | [] \<Rightarrow> False)"

definition json_object_section :: "string \<Rightarrow> string \<Rightarrow> (string, string option) res" where
  "json_object_section input key =
     (case json_value_at input key of
        None \<Rightarrow> Inr None
      | Some s \<Rightarrow>
          (if \<not> first_is (CHR ''{'') s then Inl (''json field '' @ key @ '' must be an object'')
           else
             (case matching_delimiter s (CHR ''{'') (CHR ''}'') of
                None \<Rightarrow> Inl (''json object '' @ key @ '' is not closed'')
              | Some e \<Rightarrow> Inr (Some (take (e - 1) (drop 1 s))))))"

text \<open>A character of the text: a byte and its continuation bytes.\<close>

definition first_char :: "string \<Rightarrow> string" where
  "first_char s =
     take 1 s @ takeWhile (\<lambda>c. 128 \<le> byte_val c \<and> byte_val c < 192) (drop 1 s)"

fun json_string_chars :: "string \<Rightarrow> bool \<Rightarrow> string \<Rightarrow> (string, string) res" where
  "json_string_chars out escaped [] = Inl ''json string is not closed''"
| "json_string_chars out escaped (c # cs) =
     (if escaped then
        (if c = ch_quote then json_string_chars (out @ [ch_quote]) False cs
         else if c = ch_backslash then json_string_chars (out @ [ch_backslash]) False cs
         else if c = CHR ''/'' then json_string_chars (out @ ''/'') False cs
         else if c = CHR ''n'' then json_string_chars (out @ [ch_nl]) False cs
         else if c = CHR ''r'' then json_string_chars (out @ [ch_cr]) False cs
         else if c = CHR ''t'' then json_string_chars (out @ [ch_tab]) False cs
         else Inl (''unsupported json escape: '' @ [ch_backslash] @ first_char (c # cs)))
      else if c = ch_backslash then json_string_chars out True cs
      else if c = ch_quote then Inr out
      else json_string_chars (out @ [c]) False cs)"

definition parse_json_string_at :: "string \<Rightarrow> (string, string) res" where
  "parse_json_string_at s =
     (if \<not> first_is ch_quote s then Inl ''expected json string''
      else json_string_chars [] False (drop 1 s))"

fun consumed_scan :: "nat \<Rightarrow> bool \<Rightarrow> string \<Rightarrow> (string, nat) res" where
  "consumed_scan offset escaped [] = Inl ''json string is not closed''"
| "consumed_scan offset escaped (c # cs) =
     (if escaped then consumed_scan (offset + 1) False cs
      else if c = ch_backslash then consumed_scan (offset + 1) True cs
      else if c = ch_quote then Inr (offset + 2)
      else consumed_scan (offset + 1) False cs)"

definition consumed_json_string_len :: "string \<Rightarrow> (string, nat) res" where
  "consumed_json_string_len s =
     (if \<not> first_is ch_quote s then Inl ''expected json string'' else consumed_scan 0 False (drop 1 s))"

lemma consumed_scan_ge: "consumed_scan offset escaped s = Inr n \<Longrightarrow> offset + 2 \<le> n"
  by (induction offset escaped s rule: consumed_scan.induct) (force split: if_splits)+

lemma consumed_ge: "consumed_json_string_len s = Inr n \<Longrightarrow> 2 \<le> n \<and> s \<noteq> []"
  using consumed_scan_ge [of 0 False "drop 1 s" n]
  by (auto simp: consumed_json_string_len_def first_is_def split: if_splits list.splits)

lemma length_skip_json_whitespace [simp]: "length (skip_json_whitespace s) \<le> length s"
  by (simp add: skip_json_whitespace_def length_dropWhile_le)

text \<open>The loop of \<open>parse_json_string_array_items\<close>: each turn consumes at least a byte.\<close>

function json_array_loop :: "string list \<Rightarrow> string \<Rightarrow> (string, string list) res" where
  "json_array_loop items s =
     (if s = [] then Inr items
      else if first_is (CHR '','') s then json_array_loop items (skip_json_whitespace (drop 1 s))
      else
        (case parse_json_string_at s of
           Inl e \<Rightarrow> Inl e
         | Inr v \<Rightarrow>
             (case consumed_json_string_len s of
                Inl e \<Rightarrow> Inl e
              | Inr n \<Rightarrow>
                  (let rest = skip_json_whitespace (drop n s) in
                   if first_is (CHR '','') rest then
                     json_array_loop (items @ [v]) (skip_json_whitespace (drop 1 rest))
                   else if rest \<noteq> [] then Inl ''expected comma between json string array items''
                   else json_array_loop (items @ [v]) rest))))"
  by pat_completeness auto
termination
proof (relation "measure (\<lambda>(items, s). length s)", goal_cases)
  case (2 items s)
  have "length (skip_json_whitespace (drop 1 s)) \<le> length (drop 1 s)"
    by (rule length_skip_json_whitespace)
  also have "length (drop 1 s) < length s" using 2 by (cases s) auto
  finally show ?case by simp
next
  case (3 items s v n rest)
  have "length rest \<le> length (drop n s)"
    unfolding 3(5) by (rule length_skip_json_whitespace)
  moreover have "length (drop n s) < length s" using consumed_ge [OF 3(4)] by (cases s) auto
  moreover have "length (skip_json_whitespace (drop 1 rest)) \<le> length (drop 1 rest)"
    by (rule length_skip_json_whitespace)
  moreover have "length (drop 1 rest) \<le> length rest" by simp
  ultimately have "length (skip_json_whitespace (drop 1 rest)) < length s" by linarith
  then show ?case by simp
next
  case (4 items s v n rest)
  have "length rest \<le> length (drop n s)"
    unfolding 4(5) by (rule length_skip_json_whitespace)
  moreover have "length (drop n s) < length s" using consumed_ge [OF 4(4)] by (cases s) auto
  ultimately have "length rest < length s" by linarith
  then show ?case by simp
qed simp

declare json_array_loop.simps [simp del]

definition parse_json_string_array_items :: "string \<Rightarrow> (string, string list) res" where
  "parse_json_string_array_items input = json_array_loop [] (skip_json_whitespace input)"

definition json_string_array :: "string \<Rightarrow> string \<Rightarrow> (string, string list) res" where
  "json_string_array input key =
     (case json_value_at input key of
        None \<Rightarrow> Inr []
      | Some s \<Rightarrow>
          (if \<not> first_is (CHR ''['') s then Inl (''json field '' @ key @ '' must be an array'')
           else
             (case matching_delimiter s (CHR ''['') (CHR '']'') of
                None \<Rightarrow> Inl (''json array '' @ key @ '' is not closed'')
              | Some e \<Rightarrow> parse_json_string_array_items (take (e - 1) (drop 1 s)))))"

definition json_string_field :: "string \<Rightarrow> string \<Rightarrow> (string, string option) res" where
  "json_string_field input key =
     (case json_value_at input key of
        None \<Rightarrow> Inr None
      | Some s \<Rightarrow> map_sum id Some (parse_json_string_at s))"

definition json_u64 :: "string \<Rightarrow> string \<Rightarrow> (string, u64 option) res" where
  "json_u64 input key =
     (case json_value_at input key of
        None \<Rightarrow> Inr None
      | Some s \<Rightarrow>
          (let digits = takeWhile is_ascii_digit s in
           if digits = [] then Inl (''json field '' @ key @ '' must be a number'')
           else map_sum (\<lambda>e. ''invalid json number '' @ key @ '': '' @ int_error_str e) Some
                  (parse_word digits)))"

text \<open>One step of \<open>parse_json_policy\<close>: an absent section leaves the policy as it is.\<close>

definition json_in_section ::
  "string \<Rightarrow> string \<Rightarrow> (string \<Rightarrow> policy \<Rightarrow> (string, policy) res) \<Rightarrow> policy \<Rightarrow> (string, policy) res" where
  "json_in_section input key f p =
     (case json_object_section input key of
        Inl e \<Rightarrow> Inl e
      | Inr None \<Rightarrow> Inr p
      | Inr (Some sect) \<Rightarrow> f sect p)"

definition json_credentials :: "string \<Rightarrow> policy \<Rightarrow> (string, policy) res" where
  "json_credentials sect p =
     map_sum id (\<lambda>xs. p\<lparr>po_deny_read := xs\<rparr>) (json_string_array sect ''deny_read'')"

definition json_workspace :: "string \<Rightarrow> policy \<Rightarrow> (string, policy) res" where
  "json_workspace sect p =
     (case json_string_array sect ''allow_read'' of
        Inl e \<Rightarrow> Inl e
      | Inr xs \<Rightarrow>
          map_sum id (\<lambda>ys. p\<lparr>po_allow_read := xs, po_allow_write := ys\<rparr>)
            (json_string_array sect ''allow_write''))"

definition json_commands :: "string \<Rightarrow> policy \<Rightarrow> (string, policy) res" where
  "json_commands sect p =
     map_sum id (\<lambda>xs. p\<lparr>po_commands_deny := xs\<rparr>) (json_string_array sect ''deny'')"

definition json_network :: "string \<Rightarrow> policy \<Rightarrow> (string, policy) res" where
  "json_network sect p =
     map_sum id (\<lambda>xs. p\<lparr>po_allow_egress := xs\<rparr>) (json_string_array sect ''allow_egress'')"

definition json_runtime :: "string \<Rightarrow> policy \<Rightarrow> (string, policy) res" where
  "json_runtime sect p =
     (case json_u64 sect ''max_seconds'' of
        Inl e \<Rightarrow> Inl e
      | Inr m \<Rightarrow>
          map_sum id (\<lambda>n. p\<lparr>po_max_seconds := m, po_max_processes := n\<rparr>)
            (json_u64 sect ''max_processes''))"

definition json_decision ::
  "string \<Rightarrow> string \<Rightarrow> (decision_kind \<Rightarrow> policy \<Rightarrow> policy) \<Rightarrow> policy \<Rightarrow> (string, policy) res" where
  "json_decision sect key set_kind p =
     (case json_string_field sect key of
        Inl e \<Rightarrow> Inl e
      | Inr None \<Rightarrow> Inr p
      | Inr (Some v) \<Rightarrow> map_sum id (\<lambda>k. set_kind k p) (parse_decision_kind v))"

definition json_enforcement :: "string \<Rightarrow> policy \<Rightarrow> (string, policy) res" where
  "json_enforcement sect p =
     (case json_decision sect ''requested'' with_requested p of
        Inl e \<Rightarrow> Inl e
      | Inr p' \<Rightarrow> json_decision sect ''fallback'' with_fallback p')"

fun json_sections ::
  "string \<Rightarrow> (string \<times> (string \<Rightarrow> policy \<Rightarrow> (string, policy) res)) list \<Rightarrow> policy \<Rightarrow> (string, policy) res"
  where
  "json_sections input [] p = Inr p"
| "json_sections input ((key, f) # rest) p =
     (case json_in_section input key f p of
        Inl e \<Rightarrow> Inl e
      | Inr p' \<Rightarrow> json_sections input rest p')"

definition parse_json_policy :: "string \<Rightarrow> (string, policy) res" where
  "parse_json_policy input =
     json_sections input
       [(''credentials'', json_credentials), (''workspace'', json_workspace),
        (''commands'', json_commands), (''network'', json_network),
        (''runtime'', json_runtime), (''enforcement'', json_enforcement)]
       policy_default"

section \<open>Both forms\<close>

definition policy_parse :: "string \<Rightarrow> (string, policy) res" where
  "policy_parse input =
     (if starts_with (trim_start input) ''{'' then parse_json_policy input
      else
        map_sum id ys_policy
          (yaml_lines (lines_of input)
            \<lparr>ys_policy = policy_default, ys_section = [], ys_list = []\<rparr>))"

section \<open>A reference printer\<close>

definition render_list :: "string \<Rightarrow> string list \<Rightarrow> string list" where
  "render_list name vs = (''  '' @ name @ '':'') # map (\<lambda>v. ''    - '' @ v) vs"

definition render_limit :: "string \<Rightarrow> u64 option \<Rightarrow> string list" where
  "render_limit name m =
     (case m of None \<Rightarrow> [] | Some n \<Rightarrow> [''  '' @ name @ '': '' @ dec_str (unat n)])"

definition policy_lines :: "policy \<Rightarrow> string list" where
  "policy_lines p =
     [''credentials:''] @ render_list ''deny_read'' (po_deny_read p) @
     [''workspace:''] @ render_list ''allow_read'' (po_allow_read p) @
       render_list ''allow_write'' (po_allow_write p) @
     [''commands:''] @ render_list ''deny'' (po_commands_deny p) @
     [''network:''] @ render_list ''allow_egress'' (po_allow_egress p) @
     [''runtime:''] @ render_limit ''max_seconds'' (po_max_seconds p) @
       render_limit ''max_processes'' (po_max_processes p) @
     [''enforcement:'', ''  requested: '' @ decision_kind_str (ep_requested (po_enforcement p)),
      ''  fallback: '' @ decision_kind_str (ep_fallback (po_enforcement p))]"

definition render_policy :: "policy \<Rightarrow> string" where
  "render_policy p = concat (map (\<lambda>l. l @ [ch_nl]) (policy_lines p))"

text \<open>
  The values the line-based form can carry: no line feed, no white space or quote at either
  end, and no colon at the end, which would make the line the head of a list.
\<close>

definition plain_value :: "string \<Rightarrow> bool" where
  "plain_value v \<longleftrightarrow>
     v \<noteq> [] \<and> ws_free (hd v) \<and> ws_free (last v) \<and> ch_nl \<notin> set v \<and>
     hd v \<noteq> ch_quote \<and> last v \<noteq> ch_quote \<and> hd v \<noteq> ch_apos \<and> last v \<noteq> ch_apos \<and>
     last v \<noteq> CHR '':''"

definition plain_policy :: "policy \<Rightarrow> bool" where
  "plain_policy p \<longleftrightarrow>
     list_all plain_value (po_deny_read p) \<and> list_all plain_value (po_allow_read p) \<and>
     list_all plain_value (po_allow_write p) \<and> list_all plain_value (po_commands_deny p) \<and>
     list_all plain_value (po_allow_egress p)"

section \<open>The printed form parses back\<close>

lemma trim_start_space [simp]: "trim_start (CHR '' '' # s) = trim_start s"
  by (subst trim_start.simps) (simp add: leading_ws_def unicode_ws_def)

lemma trim_space [simp]: "trim (CHR '' '' # s) = trim s"
  by (simp add: trim_def)

lemma ws_free_digit: "is_ascii_digit c \<Longrightarrow> ws_free c"
  by (auto simp: ws_free_def unicode_ws_def is_ascii_digit_def less_eq_char_def)

lemma trim_end_colon: "last s \<noteq> CHR '':'' \<Longrightarrow> trim_end_matches is_colon (s @ '':'') = s"
  by (cases s rule: rev_cases) (simp_all add: trim_end_matches_def)

lemma trim_ends_id:
  "v \<noteq> [] \<Longrightarrow> \<not> P (hd v) \<Longrightarrow> \<not> P (last v) \<Longrightarrow> trim_matches P v = v"
proof -
  assume v: "v \<noteq> []" "\<not> P (hd v)" "\<not> P (last v)"
  then have "dropWhile P v = v" by (cases v) auto
  moreover have "dropWhile P (rev v) = rev v"
    using v by (cases v rule: rev_cases) auto
  ultimately show ?thesis
    by (simp add: trim_matches_def trim_start_matches_def trim_end_matches_def)
qed

lemma clean_plain: "plain_value v \<Longrightarrow> clean_scalar (trim v) = v"
  by (simp add: clean_scalar_def plain_value_def trim_id trim_ends_id)

text \<open>The head of a section or list: a name without white space or colon at its ends.\<close>

definition plain_name :: "string \<Rightarrow> bool" where
  "plain_name n \<longleftrightarrow> n \<noteq> [] \<and> ws_free (hd n) \<and> hd n \<noteq> CHR ''#'' \<and> last n \<noteq> CHR '':''"

lemma trim_header: "plain_name n \<Longrightarrow> trim (n @ '':'') = n @ '':''"
  by (rule trim_id) (simp add: plain_name_def ws_free_def unicode_ws_def)

lemma header_line:
  assumes "plain_name n"
  shows "n @ '':'' \<noteq> ''---''" and "\<not> starts_with (n @ '':'') ''#''" and "\<not> starts_with (n @ '':'') '' ''"
  using assms by (auto simp: plain_name_def prefix_def ws_free_def unicode_ws_def neq_Nil_conv dest: arg_cong [where f = last])

lemma yaml_section_line:
  assumes "plain_name n"
  shows "yaml_line (n @ '':'') s = Inr (s\<lparr>ys_section := n, ys_list := []\<rparr>)"
  using header_line [OF assms] assms
  by (simp add: yaml_line_def trim_header trim_end_colon plain_name_def)

lemma yaml_list_line:
  assumes "plain_name n"
  shows "yaml_line (''  '' @ n @ '':'') s = Inr (s\<lparr>ys_list := n\<rparr>)"
  using header_line [OF assms] assms
  by (simp add: yaml_line_def trim_header trim_end_colon plain_name_def)

lemma item_line:
  assumes "plain_value v"
  shows "trim (''- '' @ v) = ''- '' @ v" and "\<not> ends_with (''- '' @ v) '':''"
    and "''- '' @ v \<noteq> ''---''"
proof -
  show "trim (''- '' @ v) = ''- '' @ v"
    using assms by (intro trim_id) (simp add: plain_value_def ws_free_def unicode_ws_def)
  show "\<not> ends_with (''- '' @ v) '':''"
  proof
    assume "ends_with (''- '' @ v) '':''"
    then obtain z where "''- '' @ v = z @ '':''" by (auto simp: suffix_def)
    then have "last (''- '' @ v) = CHR '':''" by (metis last_snoc)
    with assms show False by (simp add: plain_value_def)
  qed
qed simp

lemma yaml_item_line:
  assumes "plain_value v"
  shows "yaml_line (''    - '' @ v) s =
    Inr (s\<lparr>ys_policy := push_list_value (ys_section s) (ys_list s) v (ys_policy s)\<rparr>)"
  using item_line [OF assms] clean_plain [OF assms]
  by (simp add: yaml_line_def yaml_entry_def strip_prefix_def)

lemma yaml_lines_append [simp]:
  "yaml_lines (a @ b) s = (case yaml_lines a s of Inl e \<Rightarrow> Inl e | Inr s' \<Rightarrow> yaml_lines b s')"
  by (induction a arbitrary: s) (auto split: sum.splits)

definition push_all :: "string \<Rightarrow> string \<Rightarrow> string list \<Rightarrow> policy \<Rightarrow> policy" where
  "push_all sect lst vs p = foldl (\<lambda>p v. push_list_value sect lst v p) p vs"

lemma push_all_simps [simp]:
  "push_all ''credentials'' ''deny_read'' vs p = p\<lparr>po_deny_read := po_deny_read p @ vs\<rparr>"
  "push_all ''workspace'' ''allow_read'' vs p = p\<lparr>po_allow_read := po_allow_read p @ vs\<rparr>"
  "push_all ''workspace'' ''allow_write'' vs p = p\<lparr>po_allow_write := po_allow_write p @ vs\<rparr>"
  "push_all ''commands'' ''deny'' vs p = p\<lparr>po_commands_deny := po_commands_deny p @ vs\<rparr>"
  "push_all ''network'' ''allow_egress'' vs p = p\<lparr>po_allow_egress := po_allow_egress p @ vs\<rparr>"
  unfolding push_all_def by (induction vs arbitrary: p) (simp_all add: push_list_value_def)

lemma yaml_items:
  "list_all plain_value vs \<Longrightarrow>
     yaml_lines (map (\<lambda>v. ''    - '' @ v) vs) s =
       Inr (s\<lparr>ys_policy := push_all (ys_section s) (ys_list s) vs (ys_policy s)\<rparr>)"
  by (induction vs arbitrary: s) (simp_all add: push_all_def yaml_item_line [simplified])

lemma yaml_render_list:
  assumes "plain_name n" and "list_all plain_value vs"
  shows "yaml_lines (render_list n vs) s =
    Inr (s\<lparr>ys_list := n, ys_policy := push_all (ys_section s) n vs (ys_policy s)\<rparr>)"
  using assms yaml_list_line [of n s]
  by (simp add: render_list_def yaml_items [simplified])

lemma parse_limit: "parse_u64_field f (CHR '' '' # dec_str (unat n)) = Inr n"
proof -
  have "trim (dec_str (unat n)) = dec_str (unat n)"
    by (rule trim_nonempty) (auto intro: ws_free_digit dec_str_digits)
  then show ?thesis by (simp add: parse_u64_field_def dec_word.dec_enc)
qed

lemma dec_last_digit: "is_ascii_digit (last (dec_str n))"
  by (rule dec_str_digits [of _ n]) simp

lemma limit_line:
  assumes "plain_name n"
  shows "trim (n @ '': '' @ dec_str k) = n @ '': '' @ dec_str k"
    and "\<not> ends_with (n @ '': '' @ dec_str k) '':''"
proof -
  show "trim (n @ '': '' @ dec_str k) = n @ '': '' @ dec_str k"
    using assms dec_last_digit [of k] by (intro trim_id) (simp add: plain_name_def ws_free_digit)
  show "\<not> ends_with (n @ '': '' @ dec_str k) '':''"
  proof
    assume "ends_with (n @ '': '' @ dec_str k) '':''"
    then obtain z where "n @ '': '' @ dec_str k = z @ '':''" by (auto simp: suffix_def)
    then have "last (n @ '': '' @ dec_str k) = CHR '':''" by (metis last_snoc)
    with dec_last_digit [of k] show False by (simp add: is_ascii_digit_def)
  qed
qed

lemma yaml_limit_seconds:
  "yaml_lines (render_limit ''max_seconds'' m) s =
    Inr (s\<lparr>ys_policy := (ys_policy s)\<lparr>po_max_seconds :=
      (case m of None \<Rightarrow> po_max_seconds (ys_policy s) | Some n \<Rightarrow> Some n)\<rparr>\<rparr>)"
proof (cases m)
  case (Some n)
  have "plain_name ''max_seconds''" by (simp add: plain_name_def ws_free_def unicode_ws_def)
  from limit_line [OF this, of "unat n"] Some show ?thesis
    by (simp add: render_limit_def yaml_line_def yaml_entry_def strip_prefix_def parse_limit)
qed (simp add: render_limit_def)

lemma yaml_limit_processes:
  "yaml_lines (render_limit ''max_processes'' m) s =
    Inr (s\<lparr>ys_policy := (ys_policy s)\<lparr>po_max_processes :=
      (case m of None \<Rightarrow> po_max_processes (ys_policy s) | Some n \<Rightarrow> Some n)\<rparr>\<rparr>)"
proof (cases m)
  case (Some n)
  have "plain_name ''max_processes''" by (simp add: plain_name_def ws_free_def unicode_ws_def)
  from limit_line [OF this, of "unat n"] Some show ?thesis
    by (simp add: render_limit_def yaml_line_def yaml_entry_def strip_prefix_def parse_limit)
qed (simp add: render_limit_def)

lemma yaml_requested_line:
  "ys_section s = ''enforcement'' \<Longrightarrow>
     yaml_line (''  requested: '' @ decision_kind_str k) s =
       Inr (s\<lparr>ys_policy := with_requested k (ys_policy s)\<rparr>)"
  by (cases k; simp add: yaml_line_def yaml_entry_def strip_prefix_def trim_id ws_free_def unicode_ws_def
      clean_scalar_def trim_matches_def trim_start_matches_def trim_end_matches_def
      parse_decision_kind_def suffix_def)

lemma yaml_fallback_line:
  "ys_section s = ''enforcement'' \<Longrightarrow>
     yaml_line (''  fallback: '' @ decision_kind_str k) s =
       Inr (s\<lparr>ys_policy := with_fallback k (ys_policy s)\<rparr>)"
  by (cases k; simp add: yaml_line_def yaml_entry_def strip_prefix_def trim_id ws_free_def unicode_ws_def
      clean_scalar_def trim_matches_def trim_start_matches_def trim_end_matches_def
      parse_decision_kind_def suffix_def)

definition clean_line :: "string \<Rightarrow> bool" where
  "clean_line l \<longleftrightarrow> ch_nl \<notin> set l \<and> last l \<noteq> ch_cr"

lemma clean_item: "plain_value v \<Longrightarrow> clean_line (''    - '' @ v)"
  by (auto simp: clean_line_def plain_value_def ws_free_def unicode_ws_def)

lemma clean_head: "clean_line (n @ '':'') \<Longrightarrow> clean_line (''  '' @ n @ '':'')"
  by (simp add: clean_line_def)

lemma clean_render_list:
  "clean_line (n @ '':'') \<Longrightarrow> list_all plain_value vs \<Longrightarrow> list_all clean_line (render_list n vs)"
  using clean_head [of n] by (simp add: render_list_def list_all_iff clean_item [simplified])

lemma clean_render_limit: "ch_nl \<notin> set n \<Longrightarrow> list_all clean_line (render_limit n m)"
  using dec_str_digits [of ch_nl] dec_last_digit [of "unat (the m)"]
  by (auto simp: render_limit_def clean_line_def is_ascii_digit_def less_eq_char_def split: option.splits)

lemma clean_policy_lines: "plain_policy p \<Longrightarrow> list_all clean_line (policy_lines p)"
  unfolding policy_lines_def list_all_append
  by (intro conjI clean_render_list clean_render_limit;
      (simp add: clean_line_def plain_policy_def)?)
    (cases "ep_requested (po_enforcement p)"; cases "ep_fallback (po_enforcement p)";
      simp add: clean_line_def)

lemma lines_of_render: "plain_policy p \<Longrightarrow> lines_of (render_policy p) = policy_lines p"
proof -
  assume "plain_policy p"
  then have clean: "\<forall>l \<in> set (policy_lines p). clean_line l"
    using clean_policy_lines by (simp add: list_all_iff)
  then have "lines_of (render_policy p) = map strip_cr (policy_lines p)"
    unfolding render_policy_def by (intro lines_of_terminated) (simp add: clean_line_def)
  also have "\<dots> = policy_lines p"
    using clean by (intro map_idI) (simp add: strip_cr_def clean_line_def)
  finally show ?thesis .
qed

lemma plain_names:
  "plain_name ''credentials''" "plain_name ''deny_read''" "plain_name ''workspace''"
  "plain_name ''allow_read''" "plain_name ''allow_write''" "plain_name ''commands''"
  "plain_name ''deny''" "plain_name ''network''" "plain_name ''allow_egress''"
  "plain_name ''runtime''" "plain_name ''enforcement''"
  by (simp_all add: plain_name_def ws_free_def unicode_ws_def)

lemma yaml_policy_lines:
  assumes "plain_policy p"
  shows "yaml_lines (policy_lines p) \<lparr>ys_policy = policy_default, ys_section = [], ys_list = []\<rparr> =
    Inr \<lparr>ys_policy = p, ys_section = ''enforcement'', ys_list = []\<rparr>"
  using assms
  by (simp add: policy_lines_def plain_policy_def yaml_render_list plain_names
      plain_names [THEN yaml_section_line, simplified] yaml_limit_seconds yaml_limit_processes
      yaml_requested_line [simplified] yaml_fallback_line [simplified]
      policy_default_def with_requested_def with_fallback_def split: option.splits)

lemma render_policy_yaml: "\<not> starts_with (trim_start (render_policy p)) ''{''"
proof -
  have "\<exists>t. render_policy p = CHR ''c'' # t" by (simp add: render_policy_def policy_lines_def)
  then obtain t where "render_policy p = CHR ''c'' # t" ..
  moreover have "leading_ws (CHR ''c'' # t) = 0"
    by (rule leading_ws_free) (simp add: ws_free_def unicode_ws_def)
  ultimately show ?thesis by (simp add: trim_start.simps [of "CHR ''c'' # t"])
qed


definition sample_policy :: policy where
  "sample_policy =
     \<lparr>po_deny_read = [''~/.ssh'', ''.env''], po_max_seconds = Some 3600, po_max_processes = None,
      po_allow_read = [''./src''], po_allow_write = [],
      po_commands_deny = [''rm -rf /'', ''curl http://169.254.169.254''],
      po_allow_egress = [''127.0.0.1:0''],
      po_enforcement = \<lparr>ep_requested = DBlock, ep_fallback = DKill\<rparr>\<rparr>"

lemma sample_policy_plain: "plain_policy sample_policy"
  by (simp add: sample_policy_def plain_policy_def plain_value_def ws_free_def unicode_ws_def)


section \<open>Texts that lose a rule\<close>

text \<open>
  A list item that ends in a colon is read as the head of a list, so it and the items after
  it are lost.
\<close>

lemma item_with_colon_ends_list:
  "map_sum id (\<lambda>p. po_commands_deny (ys_policy p))
     (yaml_lines [''commands:'', ''  deny:'', ''    - cat c:'', ''    - rm -rf /'']
       \<lparr>ys_policy = policy_default, ys_section = [], ys_list = []\<rparr>) = Inr []"
  by code_simp

text \<open>
  The key of a section is searched as text, so a list value of that name is taken for it: the
  egress list of this policy is not read.
\<close>

lemma json_value_taken_for_key:
  "map_sum id po_allow_egress
     (policy_parse ''{\"commands\":{\"deny\":[\"network\"]},\"runtime\":{},\"network\":{\"allow_egress\":[\"none\"]}}'')
   = Inr []"
  by code_simp

end
