(* ===== verification/Event_Pipeline.thy ===== *)
theory Event_Pipeline
  imports Priority_Queue
begin

text \<open>
  The event pipeline of the daemon (\<open>crates/apolysis-daemon/src/pipeline.rs\<close>): any number of
  concurrent \<open>submit\<close> calls, one writer that drains the queue into a sink, a wake-up permit,
  and the shutdown. A call is a thread of atomic steps (a load or store of an atomic, a
  critical section of the mutex, a use of \<open>Notify\<close>), the system interleaves the steps of all
  threads in any order, and its properties are invariants of the reachable states.
\<close>

section \<open>Data\<close>

record 'v daemon_record =
  dr_session_id :: string
  dr_priority :: queue_priority
  dr_payload :: 'v

datatype submit_error = SubClosed | SubUnavailable

fun submit_error_str :: "submit_error \<Rightarrow> string" where
  "submit_error_str SubClosed = ''event pipeline is closed''"
| "submit_error_str SubUnavailable = ''event pipeline queue is unavailable''"

record writer_summary =
  ws_written :: u64
  ws_failed :: u64
  ws_final_stats :: queue_stats

datatype write_outcome = Written | Failed

text \<open>
  \<open>PipelineInner\<close>. The mutex is held or not, and poisoned or not (a thread panicked while it
  held it); the permit of \<open>Notify\<close> is there or not (\<open>notify_one\<close> stores at most one).
\<close>

record 'v pipeline =
  pl_queue :: "'v daemon_record bpq"
  pl_locked :: bool
  pl_poisoned :: bool
  pl_permit :: bool
  pl_accepting :: bool
  pl_writer_started :: bool

definition pipeline_new :: "nat \<Rightarrow> 'v pipeline" where
  "pipeline_new cap =
     \<lparr>pl_queue = bpq_new cap, pl_locked = False, pl_poisoned = False, pl_permit = False,
      pl_accepting = True, pl_writer_started = False\<rparr>"

section \<open>A call of submit\<close>

text \<open>
  Where a call stands: before the first load of \<open>accepting\<close>, at the lock, holding it before
  the second load, holding it before the push, before \<open>notify_one\<close>, and returned.
\<close>

datatype 'v submit_pc =
    SubStart "'v daemon_record"
  | SubLock "'v daemon_record"
  | SubHeld "'v daemon_record"
  | SubPush "'v daemon_record"
  | SubNotify "'v daemon_record" push_outcome
  | SubDone "'v daemon_record" "(submit_error, push_outcome) res"

fun submit_step :: "'v submit_pc \<Rightarrow> 'v pipeline \<Rightarrow> ('v submit_pc \<times> 'v pipeline) option" where
  "submit_step (SubStart r) p =
     Some (if pl_accepting p then SubLock r else SubDone r (Inl SubClosed), p)"
| "submit_step (SubLock r) p =
     (if pl_locked p then None
      else if pl_poisoned p then Some (SubDone r (Inl SubUnavailable), p)
      else Some (SubHeld r, p\<lparr>pl_locked := True\<rparr>))"
| "submit_step (SubHeld r) p =
     (if pl_accepting p then Some (SubPush r, p)
      else Some (SubDone r (Inl SubClosed), p\<lparr>pl_locked := False\<rparr>))"
| "submit_step (SubPush r) p =
     (let (outcome, q) = bpq_push (dr_priority r) r (pl_queue p)
      in Some (SubNotify r outcome, p\<lparr>pl_queue := q, pl_locked := False\<rparr>))"
| "submit_step (SubNotify r outcome) p = Some (SubDone r (Inr outcome), p\<lparr>pl_permit := True\<rparr>)"
| "submit_step (SubDone r res) p = None"

definition pipeline_stats :: "'v pipeline \<Rightarrow> (submit_error, queue_stats) res" where
  "pipeline_stats p = (if pl_poisoned p then Inl SubUnavailable else Inr (bq_stats (pl_queue p)))"

section \<open>The writer\<close>

datatype 'v writer_pc =
    WrStart
  | WrPop
  | WrSink "'v daemon_record"
  | WrWait
  | WrStats
  | WrDone "(string, writer_summary) res"

text \<open>The locals of \<open>run_writer\<close>; \<open>wr_log\<close>, which the code has not, is what the sink answered.\<close>

record 'v writer =
  wr_pc :: "'v writer_pc"
  wr_stopping :: bool
  wr_written :: u64
  wr_failed :: u64
  wr_log :: "('v daemon_record \<times> (string, write_outcome) res) list"

definition writer_new :: "'v writer" where
  "writer_new = \<lparr>wr_pc = WrStart, wr_stopping = False, wr_written = 0, wr_failed = 0, wr_log = []\<rparr>"

text \<open>What the environment decides: the answer of the sink, and the branch of \<open>select!\<close>.\<close>

datatype writer_event = EvRun | EvSink "(string, write_outcome) res" | EvNotified | EvShutdown

definition pipeline_pop ::
    "'v pipeline \<Rightarrow> (string, 'v daemon_record option) res \<times> 'v pipeline" where
  "pipeline_pop p =
     (if pl_poisoned p then (Inl ''event pipeline queue is unavailable'', p)
      else (let (x, q) = bpq_pop (pl_queue p) in (Inr x, p\<lparr>pl_queue := q\<rparr>)))"

definition writer_begin :: "'v writer \<Rightarrow> 'v pipeline \<Rightarrow> 'v writer \<times> 'v pipeline" where
  "writer_begin w p =
     (if pl_writer_started p then
        (w\<lparr>wr_pc := WrDone (Inl ''event pipeline already has a writer'')\<rparr>, p)
      else (w\<lparr>wr_pc := WrPop\<rparr>, p\<lparr>pl_writer_started := True\<rparr>))"

definition writer_pop :: "'v writer \<Rightarrow> 'v pipeline \<Rightarrow> 'v writer \<times> 'v pipeline" where
  "writer_pop w p =
     (case pipeline_pop p of
        (Inl e, p') \<Rightarrow> (w\<lparr>wr_pc := WrDone (Inl e)\<rparr>, p')
      | (Inr (Some r), p') \<Rightarrow> (w\<lparr>wr_pc := WrSink r\<rparr>, p')
      | (Inr None, p') \<Rightarrow> (w\<lparr>wr_pc := (if wr_stopping w then WrStats else WrWait)\<rparr>, p'))"

definition writer_answer ::
    "'v daemon_record \<Rightarrow> (string, write_outcome) res \<Rightarrow> 'v writer \<Rightarrow> 'v pipeline
     \<Rightarrow> 'v writer \<times> 'v pipeline" where
  "writer_answer r a w p =
     (let w' = w\<lparr>wr_log := wr_log w @ [(r, a)]\<rparr> in
      case a of
        Inr Written \<Rightarrow> (w'\<lparr>wr_pc := WrPop, wr_written := sat_add (wr_written w) 1\<rparr>, p)
      | Inr Failed \<Rightarrow> (w'\<lparr>wr_pc := WrPop, wr_failed := sat_add (wr_failed w) 1\<rparr>, p)
      | Inl e \<Rightarrow> (w'\<lparr>wr_pc := WrDone (Inl e)\<rparr>, p\<lparr>pl_accepting := False\<rparr>))"

definition writer_finish :: "'v writer \<Rightarrow> 'v pipeline \<Rightarrow> 'v writer" where
  "writer_finish w p =
     w\<lparr>wr_pc := WrDone (case pipeline_stats p of
         Inl e \<Rightarrow> Inl (submit_error_str e)
       | Inr st \<Rightarrow> Inr \<lparr>ws_written = wr_written w, ws_failed = wr_failed w, ws_final_stats = st\<rparr>)\<rparr>"

text \<open>One step of the writer; \<open>shut\<close> tells whether the shutdown channel has fired.\<close>

fun writer_step ::
    "writer_event \<Rightarrow> bool \<Rightarrow> 'v writer \<Rightarrow> 'v pipeline \<Rightarrow> ('v writer \<times> 'v pipeline) option" where
  "writer_step EvRun shut w p =
     (case wr_pc w of
        WrStart \<Rightarrow> Some (writer_begin w p)
      | WrPop \<Rightarrow> if pl_locked p then None else Some (writer_pop w p)
      | WrStats \<Rightarrow> if pl_locked p then None else Some (writer_finish w p, p)
      | _ \<Rightarrow> None)"
| "writer_step (EvSink a) shut w p =
     (case wr_pc w of WrSink r \<Rightarrow> Some (writer_answer r a w p) | _ \<Rightarrow> None)"
| "writer_step EvNotified shut w p =
     (case wr_pc w of
        WrWait \<Rightarrow>
          if pl_permit p then Some (w\<lparr>wr_pc := WrPop\<rparr>, p\<lparr>pl_permit := False\<rparr>) else None
      | _ \<Rightarrow> None)"
| "writer_step EvShutdown shut w p =
     (case wr_pc w of
        WrWait \<Rightarrow>
          if shut then
            Some (w\<lparr>wr_pc := WrPop, wr_stopping := True\<rparr>, p\<lparr>pl_accepting := False\<rparr>)
          else None
      | _ \<Rightarrow> None)"

section \<open>The system\<close>

record 'v psys =
  ps_pipe :: "'v pipeline"
  ps_subs :: "'v submit_pc list"
  ps_writer :: "'v writer"
  ps_shutdown :: bool

definition psys_init :: "nat \<Rightarrow> 'v psys" where
  "psys_init cap =
     \<lparr>ps_pipe = pipeline_new cap, ps_subs = [], ps_writer = writer_new, ps_shutdown = False\<rparr>"

text \<open>
  A new call, a step of a call, a step of the writer, the shutdown signal. Another call of
  \<open>run_writer\<close> fails at once and changes nothing, so it needs no rule.
\<close>

inductive psys_step :: "'v psys \<Rightarrow> 'v psys \<Rightarrow> bool" where
  call: "psys_step s (s\<lparr>ps_subs := ps_subs s @ [SubStart r]\<rparr>)"
| submit: "i < length (ps_subs s) \<Longrightarrow> submit_step (ps_subs s ! i) (ps_pipe s) = Some (pc, p) \<Longrightarrow>
    psys_step s (s\<lparr>ps_pipe := p, ps_subs := (ps_subs s)[i := pc]\<rparr>)"
| writer: "writer_step ev (ps_shutdown s) (ps_writer s) (ps_pipe s) = Some (w, p) \<Longrightarrow>
    psys_step s (s\<lparr>ps_pipe := p, ps_writer := w\<rparr>)"
| shut: "psys_step s (s\<lparr>ps_shutdown := True\<rparr>)"

inductive_cases psys_stepE: "psys_step s s'"

inductive psys_reach :: "nat \<Rightarrow> 'v psys \<Rightarrow> bool" for cap where
  init: "psys_reach cap (psys_init cap)"
| step: "psys_reach cap s \<Longrightarrow> psys_step s s' \<Longrightarrow> psys_reach cap s'"

section \<open>What the calls have done\<close>

text \<open>The calls that have pushed, with their outcome; those that hold the lock, those about to push.\<close>

fun sub_pushed :: "'v submit_pc \<Rightarrow> ('v daemon_record \<times> push_outcome) list" where
  "sub_pushed (SubNotify r x) = [(r, x)]"
| "sub_pushed (SubDone r (Inr x)) = [(r, x)]"
| "sub_pushed _ = []"

definition pushed :: "'v submit_pc list \<Rightarrow> ('v daemon_record \<times> push_outcome) list" where
  "pushed subs = concat (map sub_pushed subs)"

fun sub_holds :: "'v submit_pc \<Rightarrow> bool" where
  "sub_holds (SubHeld _) = True"
| "sub_holds (SubPush _) = True"
| "sub_holds _ = False"

fun sub_pushing :: "'v submit_pc \<Rightarrow> bool" where
  "sub_pushing (SubPush _) = True"
| "sub_pushing _ = False"

fun sub_notifying :: "'v submit_pc \<Rightarrow> bool" where
  "sub_notifying (SubNotify _ _) = True"
| "sub_notifying _ = False"

lemma sub_pushing_holds: "sub_pushing c \<Longrightarrow> sub_holds c"
  by (cases c) simp_all

definition holders :: "'v submit_pc list \<Rightarrow> nat" where
  "holders subs = length (filter sub_holds subs)"

definition pushed_records :: "'v submit_pc list \<Rightarrow> 'v daemon_record multiset" where
  "pushed_records subs = mset (map fst (pushed subs))"

definition pushed_loss :: "'v submit_pc list \<Rightarrow> nat" where
  "pushed_loss subs = sum_list (map (outcome_loss \<circ> snd) (pushed subs))"

text \<open>What replacing one thread does to each count.\<close>

lemma list_at: "i < length xs \<Longrightarrow> xs = take i xs @ xs ! i # drop (Suc i) xs"
  by (rule id_take_nth_drop)

lemma update_counts:
  assumes "i < length subs"
  shows "holders (subs[i := c]) + of_bool (sub_holds (subs ! i)) = holders subs + of_bool (sub_holds c)"
    and "pushed_records (subs[i := c]) + mset (map fst (sub_pushed (subs ! i)))
           = pushed_records subs + mset (map fst (sub_pushed c))"
    and "pushed_loss (subs[i := c]) + sum_list (map (outcome_loss \<circ> snd) (sub_pushed (subs ! i)))
           = pushed_loss subs + sum_list (map (outcome_loss \<circ> snd) (sub_pushed c))"
proof -
  obtain a b where ab: "subs = a @ subs ! i # b" and i: "length a = i"
    using list_at [OF assms] assms by (metis length_take min.absorb2 less_imp_le)
  have upd: "subs[i := c] = a @ c # b" by (subst ab) (simp add: i [symmetric])
  show "holders (subs[i := c]) + of_bool (sub_holds (subs ! i)) = holders subs + of_bool (sub_holds c)"
    by (subst (2) ab) (simp add: upd holders_def)
  show "pushed_records (subs[i := c]) + mset (map fst (sub_pushed (subs ! i)))
           = pushed_records subs + mset (map fst (sub_pushed c))"
    by (subst (2) ab) (simp add: upd pushed_records_def pushed_def)
  show "pushed_loss (subs[i := c]) + sum_list (map (outcome_loss \<circ> snd) (sub_pushed (subs ! i)))
           = pushed_loss subs + sum_list (map (outcome_loss \<circ> snd) (sub_pushed c))"
    by (subst (2) ab) (simp add: upd pushed_loss_def pushed_def)
qed

lemma holders_pos: "i < length subs \<Longrightarrow> sub_holds (subs ! i) \<Longrightarrow> 0 < holders subs"
  by (auto simp: holders_def filter_empty_conv intro: bexI [of _ "subs ! i"])

lemma no_holder: "holders subs = 0 \<Longrightarrow> \<not> list_ex sub_pushing subs"
  by (auto simp: holders_def list_ex_iff filter_empty_conv dest: sub_pushing_holds)

section \<open>Invariants\<close>

text \<open>The mutex excludes: a call holds it exactly when it is held, and no two do.\<close>

definition lock_inv :: "nat \<Rightarrow> 'v psys \<Rightarrow> bool" where
  "lock_inv cap s \<longleftrightarrow>
     bpq_inv (pl_queue (ps_pipe s)) \<and> qs_capacity (bq_stats (pl_queue (ps_pipe s))) = cap \<and>
     holders (ps_subs s) = of_bool (pl_locked (ps_pipe s))"

lemma push_keeps:
  assumes "bpq_push k x q = (r, q')" and "bpq_inv q"
  shows "bpq_inv q'" and "qs_capacity (bq_stats q') = qs_capacity (bq_stats q)"
  using push_inv [OF assms(2), of k x] push_counters(3) [OF assms(2), of k x] assms(1) by simp_all

lemma lock_inv_submit:
  assumes "lock_inv cap s" and i: "i < length (ps_subs s)"
    and st: "submit_step (ps_subs s ! i) (ps_pipe s) = Some (pc, p)"
  shows "lock_inv cap (s\<lparr>ps_pipe := p, ps_subs := (ps_subs s)[i := pc]\<rparr>)"
  using assms(1) st update_counts(1) [OF i, of pc] holders_pos [OF i]
  by (cases "ps_subs s ! i")
    (auto simp: lock_inv_def push_keeps Let_def split: if_splits prod.splits)

text \<open>What the writer does to the queue: nothing, or a pop.\<close>

lemma writer_queue:
  assumes "writer_step ev shut w p = Some (w', p')"
  shows "pl_locked p' = pl_locked p"
    and "pl_queue p' = pl_queue p \<or> pl_queue p' = snd (bpq_pop (pl_queue p))"
proof -
  have "pl_locked p' = pl_locked p \<and>
      (pl_queue p' = pl_queue p \<or> pl_queue p' = snd (bpq_pop (pl_queue p)))"
    using assms
    by (cases ev; cases "wr_pc w")
      (auto simp: writer_begin_def writer_pop_def pipeline_pop_def writer_answer_def Let_def
        split: if_splits prod.splits option.splits sum.splits write_outcome.splits)
  then show "pl_locked p' = pl_locked p"
    "pl_queue p' = pl_queue p \<or> pl_queue p' = snd (bpq_pop (pl_queue p))" by blast+
qed

lemma lock_inv_writer:
  assumes "lock_inv cap s" and "writer_step ev (ps_shutdown s) (ps_writer s) (ps_pipe s) = Some (w, p)"
  shows "lock_inv cap (s\<lparr>ps_pipe := p, ps_writer := w\<rparr>)"
  using writer_queue [OF assms(2)] assms(1) by (auto simp: lock_inv_def pop_inv pop_counters)

lemma lock_inv_step: "psys_step s s' \<Longrightarrow> lock_inv cap s \<Longrightarrow> lock_inv cap s'"
proof (induction rule: psys_step.induct)
  case (call s r)
  then show ?case by (simp add: lock_inv_def holders_def)
next
  case (shut s)
  then show ?case by (simp add: lock_inv_def)
qed (simp_all add: lock_inv_submit lock_inv_writer)

lemma lock_inv_reach: "psys_reach cap s \<Longrightarrow> lock_inv cap s"
proof (induction rule: psys_reach.induct)
  case init
  show ?case
    by (simp add: lock_inv_def psys_init_def pipeline_new_def bpq_new_inv holders_def)
      (simp add: bpq_new_def queue_stats_new_def)
qed (rule lock_inv_step)

subsection \<open>No record disappears\<close>

fun in_flight :: "'v writer_pc \<Rightarrow> 'v daemon_record list" where
  "in_flight (WrSink r) = [r]"
| "in_flight _ = []"

definition accounted :: "'v psys \<Rightarrow> bool" where
  "accounted s \<longleftrightarrow>
     (\<exists>lost. pushed_records (ps_subs s) =
         bpq_items (pl_queue (ps_pipe s)) + mset (in_flight (wr_pc (ps_writer s)))
         + mset (map fst (wr_log (ps_writer s))) + lost
       \<and> size lost = pushed_loss (ps_subs s))"

lemma accounted_submit:
  assumes "accounted s" and "lock_inv cap s" and i: "i < length (ps_subs s)"
    and st: "submit_step (ps_subs s ! i) (ps_pipe s) = Some (pc, p)"
  shows "accounted (s\<lparr>ps_pipe := p, ps_subs := (ps_subs s)[i := pc]\<rparr>)"
proof (cases "sub_pushing (ps_subs s ! i)")
  case False
  then have "pl_queue p = pl_queue (ps_pipe s)" "sub_pushed pc = sub_pushed (ps_subs s ! i)"
    using st by (cases "ps_subs s ! i"; force split: if_splits)+
  with assms(1) update_counts(2,3) [OF i, of pc] show ?thesis by (simp add: accounted_def)
next
  case True
  then obtain r where r: "ps_subs s ! i = SubPush r" by (cases "ps_subs s ! i") auto
  obtain x q where pq: "bpq_push (dr_priority r) r (pl_queue (ps_pipe s)) = (x, q)"
    by (cases "bpq_push (dr_priority r) r (pl_queue (ps_pipe s))")
  have pc: "pc = SubNotify r x" and p: "pl_queue p = q" using st r pq by auto
  have "bpq_inv (pl_queue (ps_pipe s))" using assms(2) by (simp add: lock_inv_def)
  from push_items [OF this, of r "dr_priority r"] pq obtain l1 where
    l1: "add_mset r (bpq_items (pl_queue (ps_pipe s))) = bpq_items q + l1" "size l1 = outcome_loss x"
    by auto
  from assms(1) obtain l2 where
    l2: "pushed_records (ps_subs s) = bpq_items (pl_queue (ps_pipe s))
           + mset (in_flight (wr_pc (ps_writer s))) + mset (map fst (wr_log (ps_writer s))) + l2"
      "size l2 = pushed_loss (ps_subs s)"
    by (auto simp: accounted_def)
  have "pushed_records ((ps_subs s)[i := pc]) = add_mset r (pushed_records (ps_subs s))"
    "pushed_loss ((ps_subs s)[i := pc]) = pushed_loss (ps_subs s) + outcome_loss x"
    using update_counts(2,3) [OF i, of pc] by (simp_all add: pc r)
  then have "pushed_records ((ps_subs s)[i := pc]) = bpq_items q
        + mset (in_flight (wr_pc (ps_writer s))) + mset (map fst (wr_log (ps_writer s))) + (l1 + l2)
      \<and> size (l1 + l2) = pushed_loss ((ps_subs s)[i := pc])"
    using l1 l2 by (simp add: ac_simps flip: add_mset_add_single)
  with p show ?thesis unfolding accounted_def by auto
qed

text \<open>The popped record is in flight until the sink has answered.\<close>

lemma pop_shape:
  assumes "bpq_pop q = (x, q')" and "bpq_inv q"
  shows "case x of
      None \<Rightarrow> q' = q \<and> bpq_items q = {#}
    | Some r \<Rightarrow> bpq_items q = add_mset r (bpq_items q')"
  using assms pop_None [OF assms(2)] pop_items [OF assms(2)] by (cases x) auto

lemma accounted_writer:
  assumes "accounted s" and "lock_inv cap s"
    and st: "writer_step ev (ps_shutdown s) (ps_writer s) (ps_pipe s) = Some (w, p)"
  shows "accounted (s\<lparr>ps_pipe := p, ps_writer := w\<rparr>)"
proof -
  have inv: "bpq_inv (pl_queue (ps_pipe s))" using assms(2) by (simp add: lock_inv_def)
  have "bpq_items (pl_queue p) + mset (in_flight (wr_pc w)) + mset (map fst (wr_log w)) =
      bpq_items (pl_queue (ps_pipe s)) + mset (in_flight (wr_pc (ps_writer s)))
        + mset (map fst (wr_log (ps_writer s)))"
    using st inv
    by (cases ev; cases "wr_pc (ps_writer s)")
      (auto simp: writer_begin_def writer_pop_def pipeline_pop_def writer_answer_def writer_finish_def
        Let_def split: if_splits prod.splits option.splits sum.splits write_outcome.splits
        dest!: pop_shape)
  with assms(1) show ?thesis by (simp add: accounted_def)
qed

lemma accounted_step: "psys_step s s' \<Longrightarrow> lock_inv cap s \<Longrightarrow> accounted s \<Longrightarrow> accounted s'"
proof (induction rule: psys_step.induct)
  case (call s r)
  then show ?case by (simp add: accounted_def pushed_records_def pushed_loss_def pushed_def)
next
  case (shut s)
  then show ?case by (simp add: accounted_def)
qed (simp_all add: accounted_submit accounted_writer)

lemma accounted_reach: "psys_reach cap s \<Longrightarrow> accounted s"
proof (induction rule: psys_reach.induct)
  case init
  show ?case
    by (simp add: accounted_def psys_init_def pipeline_new_def writer_new_def bpq_new_items
        pushed_records_def pushed_loss_def pushed_def)
next
  case (step s s')
  then show ?case using accounted_step lock_inv_reach by blast
qed

subsection \<open>What the writer knows\<close>

definition answered :: "write_outcome \<Rightarrow> 'v writer \<Rightarrow> nat" where
  "answered a w = length (filter (\<lambda>e. snd e = Inr a) (wr_log w))"

definition counters_inv :: "'v writer \<Rightarrow> bool" where
  "counters_inv w \<longleftrightarrow>
     unat (wr_written w) = min (answered Written w) (2 ^ 64 - 1) \<and>
     unat (wr_failed w) = min (answered Failed w) (2 ^ 64 - 1) \<and>
     (case wr_pc w of WrDone (Inl _) \<Rightarrow> True | _ \<Rightarrow> list_all (\<lambda>e. is_ok (snd e)) (wr_log w))"

lemma sat_count: "unat (n :: u64) = min k (2 ^ 64 - 1) \<Longrightarrow> unat (sat_add n 1) = min (Suc k) (2 ^ 64 - 1)"
  by (simp add: unat_sat_add)

lemma counters_step:
  assumes "writer_step ev shut w p = Some (w', p')" and "counters_inv w"
  shows "counters_inv w'"
  using assms
  by (cases ev; cases "wr_pc w")
    (auto simp: counters_inv_def answered_def sat_count writer_begin_def writer_pop_def pipeline_pop_def
      writer_answer_def writer_finish_def Let_def
      split: if_splits prod.splits option.splits sum.splits write_outcome.splits)

lemma counters_reach: "psys_reach cap s \<Longrightarrow> counters_inv (ps_writer s)"
proof (induction rule: psys_reach.induct)
  case init
  show ?case by (simp add: counters_inv_def answered_def psys_init_def writer_new_def)
next
  case (step s s')
  from step(2,3) show ?case
    by (cases rule: psys_step.cases) (auto intro: counters_step)
qed

text \<open>Nothing is queued, and nothing will be.\<close>

definition quiet :: "'v pipeline \<Rightarrow> 'v submit_pc list \<Rightarrow> bool" where
  "quiet p subs \<longleftrightarrow>
     \<not> pl_accepting p \<and> bpq_items (pl_queue p) = {#} \<and> \<not> list_ex sub_pushing subs"

definition stop_inv :: "'v psys \<Rightarrow> bool" where
  "stop_inv s \<longleftrightarrow>
     (let w = ps_writer s; p = ps_pipe s in
       (wr_stopping w \<longrightarrow> \<not> pl_accepting p) \<and>
       (case wr_pc w of
          WrStart \<Rightarrow> \<not> pl_writer_started p
        | WrWait \<Rightarrow> \<not> wr_stopping w
        | WrStats \<Rightarrow> quiet p (ps_subs s)
        | WrDone (Inr sm) \<Rightarrow>
            quiet p (ps_subs s) \<and>
            sm = \<lparr>ws_written = wr_written w, ws_failed = wr_failed w,
                  ws_final_stats = bq_stats (pl_queue p)\<rparr>
        | WrDone (Inl e) \<Rightarrow> pl_accepting p \<longrightarrow> pl_poisoned p
        | _ \<Rightarrow> True))"

lemma submit_quiet:
  assumes "submit_step c p = Some (c', p')" and "\<not> pl_accepting p" and "\<not> sub_pushing c"
  shows "\<not> sub_pushing c'" and "pl_queue p' = pl_queue p"
  using assms by (cases c; force split: if_splits)+

lemma submit_frame:
  assumes "submit_step c p = Some (c', p')"
  shows "pl_accepting p' = pl_accepting p" and "pl_poisoned p' = pl_poisoned p"
    and "pl_writer_started p' = pl_writer_started p"
  using assms by (cases c; force split: if_splits prod.splits)+

lemma quiet_submit:
  assumes "quiet p subs" and i: "i < length subs" and st: "submit_step (subs ! i) p = Some (pc, p')"
  shows "quiet p' (subs[i := pc])" and "pl_queue p' = pl_queue p"
proof -
  have np: "\<not> sub_pushing (subs ! i)" using assms(1) i by (auto simp: quiet_def list_ex_iff)
  have na: "\<not> pl_accepting p" using assms(1) by (simp add: quiet_def)
  note sq = submit_quiet [OF st na np]
  have "\<not> list_ex sub_pushing (subs[i := pc])"
    using assms(1) sq(1) set_update_subset_insert [of subs i pc] by (auto simp: quiet_def list_ex_iff)
  with assms(1) sq(2) submit_frame [OF st] show "quiet p' (subs[i := pc])" by (simp add: quiet_def)
  show "pl_queue p' = pl_queue p" by (rule sq(2))
qed

lemma stop_inv_submit:
  assumes "stop_inv s" and i: "i < length (ps_subs s)"
    and st: "submit_step (ps_subs s ! i) (ps_pipe s) = Some (pc, p)"
  shows "stop_inv (s\<lparr>ps_pipe := p, ps_subs := (ps_subs s)[i := pc]\<rparr>)"
  using assms(1) submit_frame [OF st] quiet_submit [OF _ i st]
  by (auto simp: stop_inv_def Let_def split: writer_pc.splits sum.splits)

lemma stop_inv_writer:
  assumes "stop_inv s" and "lock_inv cap s"
    and st: "writer_step ev (ps_shutdown s) (ps_writer s) (ps_pipe s) = Some (w, p)"
  shows "stop_inv (s\<lparr>ps_pipe := p, ps_writer := w\<rparr>)"
proof -
  have inv: "bpq_inv (pl_queue (ps_pipe s))" and
    np: "\<not> pl_locked (ps_pipe s) \<Longrightarrow> \<not> list_ex sub_pushing (ps_subs s)"
    using assms(2) no_holder by (auto simp: lock_inv_def)
  show ?thesis
    using st assms(1) inv np
    by (cases ev; cases "wr_pc (ps_writer s)")
      (auto simp: stop_inv_def quiet_def writer_begin_def writer_pop_def pipeline_pop_def
        writer_answer_def writer_finish_def pipeline_stats_def Let_def
        split: if_splits prod.splits option.splits sum.splits write_outcome.splits
        dest!: pop_shape)
qed

lemma stop_inv_step: "psys_step s s' \<Longrightarrow> lock_inv cap s \<Longrightarrow> stop_inv s \<Longrightarrow> stop_inv s'"
proof (induction rule: psys_step.induct)
  case (call s r)
  then show ?case
    by (auto simp: stop_inv_def quiet_def Let_def split: writer_pc.splits sum.splits)
next
  case (shut s)
  then show ?case by (auto simp: stop_inv_def Let_def split: writer_pc.splits sum.splits)
qed (simp_all add: stop_inv_submit stop_inv_writer)

lemma stop_inv_reach: "psys_reach cap s \<Longrightarrow> stop_inv s"
proof (induction rule: psys_reach.induct)
  case init
  show ?case by (simp add: stop_inv_def psys_init_def writer_new_def pipeline_new_def)
next
  case (step s s')
  then show ?case using stop_inv_step lock_inv_reach by blast
qed

subsection \<open>A waiting writer is woken\<close>

definition wake_inv :: "'v psys \<Rightarrow> bool" where
  "wake_inv s \<longleftrightarrow>
     (wr_pc (ps_writer s) = WrWait \<and> bpq_items (pl_queue (ps_pipe s)) \<noteq> {#} \<longrightarrow>
        pl_permit (ps_pipe s) \<or> list_ex sub_notifying (ps_subs s))"

lemma list_ex_update_other:
  assumes "list_ex P xs" and "\<not> P (xs ! i)"
  shows "list_ex P (xs[i := y])"
proof -
  obtain j where "j < length xs" "P (xs ! j)" using assms(1) by (auto simp: list_ex_length)
  moreover from this assms(2) have "j \<noteq> i" by auto
  ultimately show ?thesis by (auto simp: list_ex_length)
qed

lemma list_ex_update_here: "i < length xs \<Longrightarrow> P y \<Longrightarrow> list_ex P (xs[i := y])"
  by (auto simp: list_ex_iff set_update_memI)

lemma wake_inv_submit:
  assumes "wake_inv s" and i: "i < length (ps_subs s)"
    and st: "submit_step (ps_subs s ! i) (ps_pipe s) = Some (pc, p)"
  shows "wake_inv (s\<lparr>ps_pipe := p, ps_subs := (ps_subs s)[i := pc]\<rparr>)"
proof (cases "ps_subs s ! i")
  case (SubPush r)
  then have "sub_notifying pc" using st by (auto split: prod.splits)
  with i show ?thesis by (simp add: wake_inv_def list_ex_update_here)
next
  case (SubNotify r x)
  then have "pl_permit p" using st by auto
  then show ?thesis by (simp add: wake_inv_def)
qed (use assms in \<open>auto simp: wake_inv_def list_ex_update_other split: if_splits\<close>)

lemma wake_inv_writer:
  assumes "lock_inv cap s"
    and st: "writer_step ev (ps_shutdown s) (ps_writer s) (ps_pipe s) = Some (w, p)"
  shows "wake_inv (s\<lparr>ps_pipe := p, ps_writer := w\<rparr>)"
proof -
  have "bpq_inv (pl_queue (ps_pipe s))" using assms(1) by (simp add: lock_inv_def)
  with st show ?thesis
    by (cases ev; cases "wr_pc (ps_writer s)")
      (auto simp: wake_inv_def writer_begin_def writer_pop_def pipeline_pop_def writer_answer_def
        writer_finish_def Let_def
        split: if_splits prod.splits option.splits sum.splits write_outcome.splits
        dest!: pop_shape)
qed

lemma wake_inv_step: "psys_step s s' \<Longrightarrow> lock_inv cap s \<Longrightarrow> wake_inv s \<Longrightarrow> wake_inv s'"
proof (induction rule: psys_step.induct)
  case (call s r)
  then show ?case by (simp add: wake_inv_def)
next
  case (shut s)
  then show ?case by (simp add: wake_inv_def)
qed (simp_all add: wake_inv_submit wake_inv_writer)

lemma wake_inv_reach: "psys_reach cap s \<Longrightarrow> wake_inv s"
proof (induction rule: psys_reach.induct)
  case init
  show ?case by (simp add: wake_inv_def psys_init_def writer_new_def)
next
  case (step s s')
  then show ?case using wake_inv_step lock_inv_reach by blast
qed

subsection \<open>After the writer has returned\<close>

lemma done_step:
  assumes "psys_step s s'" and "stop_inv s" and dn: "wr_pc (ps_writer s) = WrDone (Inr sm)"
  shows "wr_pc (ps_writer s') = WrDone (Inr sm) \<and> pushed_records (ps_subs s') = pushed_records (ps_subs s)"
  using assms(1)
proof (cases rule: psys_step.cases)
  case (call r)
  with dn show ?thesis by (simp add: pushed_records_def pushed_def)
next
  case (submit i pc p)
  have "quiet (ps_pipe s) (ps_subs s)" using assms(2) dn by (simp add: stop_inv_def Let_def)
  then have "\<not> sub_pushing (ps_subs s ! i)" using submit(2) by (auto simp: quiet_def list_ex_iff)
  then have "sub_pushed pc = sub_pushed (ps_subs s ! i)"
    using submit(3) by (cases "ps_subs s ! i") (auto split: if_splits)
  with update_counts(2) [OF submit(2), of pc] submit(1) dn show ?thesis by simp
next
  case (writer ev w p)
  with dn show ?thesis by (cases ev) simp_all
next
  case shut
  with dn show ?thesis by simp
qed

lemma done_steps:
  assumes "psys_step\<^sup>*\<^sup>* s s'" and "psys_reach cap s" and "wr_pc (ps_writer s) = WrDone (Inr sm)"
  shows "wr_pc (ps_writer s') = WrDone (Inr sm) \<and> psys_reach cap s' \<and>
    pushed_records (ps_subs s') = pushed_records (ps_subs s)"
  using assms
proof (induction rule: rtranclp_induct)
  case (step y z)
  then have y: "wr_pc (ps_writer y) = WrDone (Inr sm)" "psys_reach cap y"
    "pushed_records (ps_subs y) = pushed_records (ps_subs s)" by auto
  with done_step [OF step(2) stop_inv_reach [OF y(2)] y(1)] psys_reach.step [OF y(2) step(2)]
  show ?case by simp
qed simp

section \<open>The writer alone\<close>

text \<open>The writer's next event when it runs undisturbed after the shutdown signal.\<close>

fun alone_event :: "('v daemon_record \<Rightarrow> (string, write_outcome) res) \<Rightarrow> 'v writer_pc \<Rightarrow> writer_event" where
  "alone_event sink (WrSink r) = EvSink (sink r)"
| "alone_event sink WrWait = EvShutdown"
| "alone_event sink _ = EvRun"

fun run_alone ::
    "('v daemon_record \<Rightarrow> (string, write_outcome) res) \<Rightarrow> nat \<Rightarrow> 'v writer \<times> 'v pipeline
     \<Rightarrow> 'v writer \<times> 'v pipeline" where
  "run_alone sink 0 wp = wp"
| "run_alone sink (Suc n) wp =
     (case writer_step (alone_event sink (wr_pc (fst wp))) True (fst wp) (snd wp) of
        None \<Rightarrow> wp
      | Some wp' \<Rightarrow> run_alone sink n wp')"

definition pipe_depth :: "'v pipeline \<Rightarrow> nat" where
  "pipe_depth p = qs_depth (bq_stats (pl_queue p))"

fun writer_rank :: "bool \<Rightarrow> nat \<Rightarrow> 'v writer_pc \<Rightarrow> nat" where
  "writer_rank stopping d WrStart = 6 + 2 * d"
| "writer_rank stopping d WrPop = (if stopping then 2 else 5) + 2 * d"
| "writer_rank stopping d (WrSink r) = (if stopping then 3 else 6) + 2 * d"
| "writer_rank stopping d WrWait = 4 + 2 * d"
| "writer_rank stopping d WrStats = 1"
| "writer_rank stopping d (WrDone r) = 0"

abbreviation rank_of :: "'v writer \<times> 'v pipeline \<Rightarrow> nat" where
  "rank_of wp \<equiv> writer_rank (wr_stopping (fst wp)) (pipe_depth (snd wp)) (wr_pc (fst wp))"

lemma pop_depth:
  assumes "bpq_pop q = (Some r, q')" and "bpq_inv q"
  shows "qs_depth (bq_stats q) = Suc (qs_depth (bq_stats q'))"
proof -
  have "bpq_inv q'" using pop_inv [OF assms(2)] assms(1) by simp
  with pop_shape [OF assms] assms(2) show ?thesis
    by (simp add: bpq_inv_def flip: size_bpq_items)
qed

text \<open>Unless it has returned, the writer has a step while the lock is free, and it goes down.\<close>

lemma writer_progress:
  assumes "\<not> pl_locked p" and "bpq_inv (pl_queue p)" and "0 < rank_of (w, p)"
  shows "\<exists>w' p'. writer_step (alone_event sink (wr_pc w)) True w p = Some (w', p')
    \<and> \<not> pl_locked p' \<and> bpq_inv (pl_queue p') \<and> rank_of (w', p') < rank_of (w, p)"
  using assms pop_inv [OF assms(2)]
  by (cases "wr_pc w")
    (auto simp: writer_begin_def writer_pop_def pipeline_pop_def writer_answer_def writer_finish_def
      pipe_depth_def pop_depth Let_def
      split: prod.splits option.splits sum.splits write_outcome.splits
      dest: pop_shape)

lemma alone_returns:
  assumes "\<not> pl_locked p" and "bpq_inv (pl_queue p)" and "rank_of (w, p) \<le> n"
  shows "\<exists>r. wr_pc (fst (run_alone sink n (w, p))) = WrDone r"
  using assms
proof (induction n arbitrary: w p)
  case 0
  then show ?case by (cases "wr_pc w") (auto split: if_splits)
next
  case (Suc n)
  show ?case
  proof (cases "rank_of (w, p) = 0")
    case True
    then obtain r where "wr_pc w = WrDone r" by (cases "wr_pc w") (auto split: if_splits)
    then show ?thesis by simp
  next
    case False
    then obtain w' p' where st: "writer_step (alone_event sink (wr_pc w)) True w p = Some (w', p')"
      and ok: "\<not> pl_locked p'" "bpq_inv (pl_queue p')" "rank_of (w', p') < rank_of (w, p)"
      using writer_progress [OF Suc.prems(1,2), of w sink] by auto
    from ok(3) Suc.prems(3) have "rank_of (w', p') \<le> n" by simp
    from Suc.IH [OF ok(1,2) this] st show ?thesis by simp
  qed
qed

text \<open>Its steps are steps of the system.\<close>

lemma alone_reach:
  assumes "psys_reach cap s" and "ps_shutdown s"
    and "run_alone sink n (ps_writer s, ps_pipe s) = (w, p)"
  shows "psys_reach cap (s\<lparr>ps_pipe := p, ps_writer := w\<rparr>)"
  using assms
proof (induction n arbitrary: s)
  case 0
  then have "s\<lparr>ps_pipe := p, ps_writer := w\<rparr> = s" by (cases s) auto
  with 0(1) show ?case by (simp only:)
next
  case (Suc n)
  show ?case
  proof (cases "writer_step (alone_event sink (wr_pc (ps_writer s))) True (ps_writer s) (ps_pipe s)")
    case None
    with Suc.prems(3) have "s\<lparr>ps_pipe := p, ps_writer := w\<rparr> = s" by (cases s) auto
    with Suc.prems(1) show ?thesis by (simp only:)
  next
    case (Some wp)
    obtain w1 p1 where wp: "wp = (w1, p1)" by (cases wp)
    let ?s = "s\<lparr>ps_pipe := p1, ps_writer := w1\<rparr>"
    have "psys_step s ?s"
      using Some wp Suc.prems(2) by (intro psys_step.writer) simp
    with Suc.prems(1) have "psys_reach cap ?s" by (rule psys_reach.step)
    from Suc.IH [OF this] Suc.prems(2,3) Some wp show ?thesis by simp
  qed
qed

lemma not_poisoned_step: "psys_step s s' \<Longrightarrow> pl_poisoned (ps_pipe s') = pl_poisoned (ps_pipe s)"
proof (induction rule: psys_step.induct)
  case (writer ev s w p)
  then show ?case
    by (cases ev; cases "wr_pc (ps_writer s)")
      (auto simp: writer_begin_def writer_pop_def pipeline_pop_def writer_answer_def Let_def
        split: if_splits prod.splits option.splits sum.splits write_outcome.splits)
qed (simp_all add: submit_frame)

lemma not_poisoned: "psys_reach cap s \<Longrightarrow> \<not> pl_poisoned (ps_pipe s)"
proof (induction rule: psys_reach.induct)
  case init
  show ?case by (simp add: psys_init_def pipeline_new_def)
next
  case (step s s')
  then show ?case using not_poisoned_step by blast
qed

section \<open>The pipeline's properties\<close>

text \<open>An executable schedule, for concrete runs.\<close>

datatype 'v psys_event = PeCall "'v daemon_record" | PeSubmit nat | PeWriter writer_event | PeShut

fun psys_exec :: "'v psys_event list \<Rightarrow> 'v psys \<Rightarrow> 'v psys option" where
  "psys_exec [] s = Some s"
| "psys_exec (PeCall r # es) s = psys_exec es (s\<lparr>ps_subs := ps_subs s @ [SubStart r]\<rparr>)"
| "psys_exec (PeSubmit i # es) s =
     (if i < length (ps_subs s) then
        (case submit_step (ps_subs s ! i) (ps_pipe s) of
           None \<Rightarrow> None
         | Some (pc, p) \<Rightarrow> psys_exec es (s\<lparr>ps_pipe := p, ps_subs := (ps_subs s)[i := pc]\<rparr>))
      else None)"
| "psys_exec (PeWriter ev # es) s =
     (case writer_step ev (ps_shutdown s) (ps_writer s) (ps_pipe s) of
        None \<Rightarrow> None
      | Some (w, p) \<Rightarrow> psys_exec es (s\<lparr>ps_pipe := p, ps_writer := w\<rparr>))"
| "psys_exec (PeShut # es) s = psys_exec es (s\<lparr>ps_shutdown := True\<rparr>)"

lemma exec_reach: "psys_exec es s = Some s' \<Longrightarrow> psys_reach cap s \<Longrightarrow> psys_reach cap s'"
proof (induction es s rule: psys_exec.induct)
  case (2 r es s)
  from psys_reach.step [OF 2(3) psys_step.call] 2(1,2) show ?case by simp
next
  case (3 i es s)
  then obtain pc p where st: "i < length (ps_subs s)"
    "submit_step (ps_subs s ! i) (ps_pipe s) = Some (pc, p)"
    by (auto split: if_splits option.splits)
  from psys_reach.step [OF 3(3) psys_step.submit [OF st]] 3(1) [OF st(1,2) refl] 3(2) st
  show ?case by simp
next
  case (4 ev es s)
  then obtain w p where st: "writer_step ev (ps_shutdown s) (ps_writer s) (ps_pipe s) = Some (w, p)"
    by (auto split: option.splits)
  from psys_reach.step [OF 4(3) psys_step.writer [OF st]] 4(1) [OF st refl] 4(2) st
  show ?case by simp
next
  case (5 es s)
  from psys_reach.step [OF 5(3) psys_step.shut] 5(1,2) show ?case by simp
qed simp

definition sample_record :: "nat daemon_record" where
  "sample_record = \<lparr>dr_session_id = ''s'', dr_priority = Finding, dr_payload = 7\<rparr>"

text \<open>
  A call overtaken by the shutdown: it has passed both checks and holds the lock when the
  writer stops accepting; the writer then waits for the lock and takes its record.
\<close>

definition overtaken :: "nat psys_event list" where
  "overtaken =
     [PeWriter EvRun, PeWriter EvRun, PeShut, PeCall sample_record, PeSubmit 0, PeSubmit 0,
      PeSubmit 0, PeWriter EvShutdown, PeSubmit 0, PeWriter EvRun, PeWriter (EvSink (Inr Written)),
      PeWriter EvRun, PeWriter EvRun]"

definition overtaken_end :: "nat psys" where
  "overtaken_end = the (psys_exec overtaken (psys_init 4))"

definition overtaken_summary :: writer_summary where
  "overtaken_summary =
     \<lparr>ws_written = 1, ws_failed = 0,
      ws_final_stats = \<lparr>qs_capacity = 4, qs_depth = 0, qs_accepted = 1, qs_dropped = []\<rparr>\<rparr>"

lemmas run_simps = psys_init_def pipeline_new_def writer_new_def bpq_new_def queue_stats_new_def
  writer_begin_def writer_pop_def pipeline_pop_def writer_answer_def writer_finish_def
  pipeline_stats_def bpq_push_def bpq_pop_def pop_order_def bpq_take_front_def bpq_enqueue_def
  lane_def sample_record_def sat_add_def

lemma overtaken_runs:
  "psys_exec overtaken (psys_init 4) = Some overtaken_end"
  "wr_pc (ps_writer overtaken_end) = WrDone (Inr overtaken_summary)"
  "pushed (ps_subs overtaken_end) = [(sample_record, Accepted)]"
  "wr_log (ps_writer overtaken_end) = [(sample_record, Inr Written)]"
  by (simp_all add: overtaken_end_def overtaken_def overtaken_summary_def run_simps pushed_def
      less_queue_priority_def)

lemma overtaken_reach: "psys_reach 4 overtaken_end"
  by (rule exec_reach [OF overtaken_runs(1) psys_reach.init])

text \<open>The lengths of the two kinds of answers make up a log without errors.\<close>

lemma answered_length:
  "list_all (\<lambda>e. is_ok (snd e)) (wr_log w) \<Longrightarrow> answered Written w + answered Failed w = length (wr_log w)"
proof -
  have "list_all (\<lambda>e. is_ok (snd e)) l \<Longrightarrow>
      length (filter (\<lambda>e. snd e = Inr Written) l) + length (filter (\<lambda>e. snd e = Inr Failed) l) = length l"
    for l :: "('v daemon_record \<times> (string, write_outcome) res) list"
  proof (induction l)
    case (Cons e l)
    then show ?case by (cases "snd e"; cases "projr (snd e)") auto
  qed simp
  then show "list_all (\<lambda>e. is_ok (snd e)) (wr_log w) \<Longrightarrow> ?thesis" by (simp add: answered_def)
qed

text \<open>C20. However submissions, the writer and the shutdown interleave: once the writer has
  returned its summary, every record a call has pushed was handed to the sink and answered, or
  is one of those the queue gave up and reported; the summary counts the answers exactly (up
  to the saturation of its counters), its queue is empty, and nothing is pushed ever after.\<close>

theorem shutdown_loses_no_record:
  assumes "psys_reach cap s" and "wr_pc (ps_writer s) = WrDone (Inr sm)"
  shows "(\<exists>lost. pushed_records (ps_subs s) = mset (map fst (wr_log (ps_writer s))) + lost
            \<and> size lost = pushed_loss (ps_subs s))
    \<and> answered Written (ps_writer s) + answered Failed (ps_writer s) = length (wr_log (ps_writer s))
    \<and> unat (ws_written sm) = min (answered Written (ps_writer s)) (2 ^ 64 - 1)
    \<and> unat (ws_failed sm) = min (answered Failed (ps_writer s)) (2 ^ 64 - 1)
    \<and> qs_depth (ws_final_stats sm) = 0
    \<and> (\<forall>s'. psys_step\<^sup>*\<^sup>* s s' \<longrightarrow> pushed_records (ps_subs s') = pushed_records (ps_subs s))"
proof -
  have st: "quiet (ps_pipe s) (ps_subs s)"
    "sm = \<lparr>ws_written = wr_written (ps_writer s), ws_failed = wr_failed (ps_writer s),
           ws_final_stats = bq_stats (pl_queue (ps_pipe s))\<rparr>"
    using stop_inv_reach [OF assms(1)] assms(2) by (simp_all add: stop_inv_def Let_def)
  have "bpq_inv (pl_queue (ps_pipe s))" using lock_inv_reach [OF assms(1)] by (simp add: lock_inv_def)
  with st have "qs_depth (ws_final_stats sm) = 0"
    by (simp add: bpq_inv_def quiet_def flip: size_bpq_items)
  moreover have "\<exists>lost. pushed_records (ps_subs s) = mset (map fst (wr_log (ps_writer s))) + lost
            \<and> size lost = pushed_loss (ps_subs s)"
    using accounted_reach [OF assms(1)] st(1) assms(2) by (simp add: accounted_def quiet_def)
  moreover have "pushed_records (ps_subs s') = pushed_records (ps_subs s)" if "psys_step\<^sup>*\<^sup>* s s'" for s'
    using done_steps [OF that assms] by simp
  moreover have cnt: "counters_inv (ps_writer s)" by (rule counters_reach [OF assms(1)])
  moreover from cnt assms(2) have "list_all (\<lambda>e. is_ok (snd e)) (wr_log (ps_writer s))"
    by (simp add: counters_inv_def)
  then have "answered Written (ps_writer s) + answered Failed (ps_writer s) = length (wr_log (ps_writer s))"
    by (rule answered_length)
  moreover have "unat (ws_written sm) = min (answered Written (ps_writer s)) (2 ^ 64 - 1)"
    "unat (ws_failed sm) = min (answered Failed (ps_writer s)) (2 ^ 64 - 1)"
    using cnt st(2) by (simp_all add: counters_inv_def)
  ultimately show ?thesis by blast
qed

theorem shutdown_loses_no_record_witness:
  "psys_reach 4 overtaken_end \<and> wr_pc (ps_writer overtaken_end) = WrDone (Inr overtaken_summary)
   \<and> qs_depth (ws_final_stats overtaken_summary) = 0
   \<and> answered Written (ps_writer overtaken_end) + answered Failed (ps_writer overtaken_end) = 1"
  using shutdown_loses_no_record [OF overtaken_reach overtaken_runs(2)] overtaken_reach overtaken_runs
  by (simp del: psys_exec.simps)

definition waiting_run :: "nat psys_event list" where
  "waiting_run = take 2 overtaken @ take 4 (drop 3 overtaken) @ [PeSubmit 0]"

definition waiting_end :: "nat psys" where
  "waiting_end = the (psys_exec waiting_run (psys_init 4))"

lemma waiting_runs:
  "psys_exec waiting_run (psys_init 4) = Some waiting_end"
  "wr_pc (ps_writer waiting_end) = WrWait"
  "bpq_items (pl_queue (ps_pipe waiting_end)) \<noteq> {#}"
  by (simp_all add: waiting_end_def waiting_run_def overtaken_def run_simps bpq_items_def
      less_queue_priority_def)

lemma waiting_reach: "psys_reach 4 waiting_end"
  by (rule exec_reach [OF waiting_runs(1) psys_reach.init])

text \<open>C21. No wake-up is lost: whenever the writer waits while a record is queued, its wake-up
  permit is there, or a call that is about to leave it has still to take its last step.\<close>

theorem no_lost_wakeup:
  assumes "psys_reach cap s" and "wr_pc (ps_writer s) = WrWait"
    and "bpq_items (pl_queue (ps_pipe s)) \<noteq> {#}"
  shows "pl_permit (ps_pipe s) \<or> list_ex sub_notifying (ps_subs s)"
  using wake_inv_reach [OF assms(1)] assms(2,3) by (simp add: wake_inv_def)

theorem no_lost_wakeup_witness:
  "wr_pc (ps_writer waiting_end) = WrWait \<and> bpq_items (pl_queue (ps_pipe waiting_end)) \<noteq> {#}
   \<and> (pl_permit (ps_pipe waiting_end) \<or> list_ex sub_notifying (ps_subs waiting_end))"
  using no_lost_wakeup [OF waiting_reach waiting_runs(2,3)] waiting_runs(2,3) by blast


definition shut_end :: "nat psys" where
  "shut_end = waiting_end\<lparr>ps_shutdown := True\<rparr>"

lemma shut_reach: "psys_reach 4 shut_end"
  unfolding shut_end_def by (rule psys_reach.step [OF waiting_reach psys_step.shut])


end
