(* ===== verification/Health_Metrics.thy ===== *)
theory Health_Metrics
  imports Priority_Queue
begin

text \<open>
  The health snapshot (\<open>crates/apolysis-accountability/src/health.rs\<close>) and its rendering in
  the Prometheus text format (\<open>crates/apolysis-daemon/src/metrics.rs\<close>). A reference reader
  of the format gets back every value, under series whose names do not depend on the
  snapshot.
\<close>

section \<open>The snapshot\<close>

datatype component_state = CsReady | CsDegraded | CsUnavailable

datatype adapter_kind = AkDocker | AkContainerd | AkK3sContainerd | AkKubernetes

fun adapter_rank :: "adapter_kind \<Rightarrow> nat" where
  "adapter_rank AkDocker = 0"
| "adapter_rank AkContainerd = 1"
| "adapter_rank AkK3sContainerd = 2"
| "adapter_rank AkKubernetes = 3"

lemma adapter_rank_inj: "adapter_rank a = adapter_rank b \<Longrightarrow> a = b"
  by (cases a; cases b) simp_all

instantiation adapter_kind :: linorder
begin

definition less_eq_adapter_kind :: "adapter_kind \<Rightarrow> adapter_kind \<Rightarrow> bool" where
  "less_eq_adapter_kind a b \<longleftrightarrow> adapter_rank a \<le> adapter_rank b"

definition less_adapter_kind :: "adapter_kind \<Rightarrow> adapter_kind \<Rightarrow> bool" where
  "less_adapter_kind a b \<longleftrightarrow> adapter_rank a < adapter_rank b"

instance
  by standard
    (auto simp: less_eq_adapter_kind_def less_adapter_kind_def dest: adapter_rank_inj)

end

record health_snapshot =
  hl_running :: bool
  hl_ebpf :: component_state
  hl_storage :: component_state
  hl_adapters :: "(adapter_kind, component_state) bmap"
  hl_queue :: queue_stats

definition health_new :: "queue_stats \<Rightarrow> health_snapshot" where
  "health_new q =
     \<lparr>hl_running = True, hl_ebpf = CsUnavailable, hl_storage = CsUnavailable, hl_adapters = [],
      hl_queue = q\<rparr>"

definition health_set_adapter ::
    "adapter_kind \<Rightarrow> component_state \<Rightarrow> health_snapshot \<Rightarrow> health_snapshot" where
  "health_set_adapter a s h = h\<lparr>hl_adapters := bm_insert a s (hl_adapters h)\<rparr>"

definition health_set_ebpf :: "component_state \<Rightarrow> health_snapshot \<Rightarrow> health_snapshot" where
  "health_set_ebpf s h = h\<lparr>hl_ebpf := s\<rparr>"

definition health_set_storage :: "component_state \<Rightarrow> health_snapshot \<Rightarrow> health_snapshot" where
  "health_set_storage s h = h\<lparr>hl_storage := s\<rparr>"

definition health_set_running :: "bool \<Rightarrow> health_snapshot \<Rightarrow> health_snapshot" where
  "health_set_running b h = h\<lparr>hl_running := b\<rparr>"

definition health_adapter :: "health_snapshot \<Rightarrow> adapter_kind \<Rightarrow> component_state" where
  "health_adapter h a =
     (case bm_get (hl_adapters h) a of Some s \<Rightarrow> s | None \<Rightarrow> CsUnavailable)"

definition liveness :: "health_snapshot \<Rightarrow> bool" where
  "liveness h \<longleftrightarrow> hl_running h"

definition readiness :: "health_snapshot \<Rightarrow> bool" where
  "readiness h \<longleftrightarrow> liveness h \<and> hl_ebpf h = CsReady \<and> hl_storage h = CsReady"

definition metric_label_keys :: "string list" where
  "metric_label_keys = [''component'', ''adapter'', ''priority'']"

section \<open>The text format\<close>

fun component_value :: "component_state \<Rightarrow> string" where
  "component_value CsReady = ''1''"
| "component_value CsDegraded = ''0.5''"
| "component_value CsUnavailable = ''0''"

fun metrics_adapter_name :: "adapter_kind \<Rightarrow> string" where
  "metrics_adapter_name AkDocker = ''docker''"
| "metrics_adapter_name AkContainerd = ''containerd''"
| "metrics_adapter_name AkK3sContainerd = ''k3s_containerd''"
| "metrics_adapter_name AkKubernetes = ''kubernetes''"

fun priority_name :: "queue_priority \<Rightarrow> string" where
  "priority_name Ordinary = ''ordinary''"
| "priority_name Lifecycle = ''lifecycle''"
| "priority_name Diagnostic = ''diagnostic''"
| "priority_name Finding = ''finding''"
| "priority_name Integrity = ''integrity''"

definition metric_labels :: "(string \<times> string) list \<Rightarrow> string" where
  "metric_labels labels =
     (if labels = [] then []
      else ''{'' @ join_with '','' (map (\<lambda>(k, v). k @ ''=\"'' @ v @ ''\"'') labels) @ ''}'')"

definition push_metric ::
    "string \<Rightarrow> (string \<times> string) list \<Rightarrow> string \<Rightarrow> string \<Rightarrow> string" where
  "push_metric name labels val metrics =
     metrics @ name @ metric_labels labels @ '' '' @ val @ [ch_nl]"

definition push_line :: "string \<Rightarrow> string \<Rightarrow> string" where
  "push_line line metrics = metrics @ line @ [ch_nl]"

definition render_prometheus_metrics :: "health_snapshot \<Rightarrow> string" where
  "render_prometheus_metrics h =
     fold (\<lambda>p. push_metric ''apolysis_queue_dropped_total'' [(''priority'', priority_name p)]
             (dec_str (unat (qs_dropped_count (hl_queue h) p))))
       [Ordinary, Lifecycle, Diagnostic, Finding, Integrity]
     (push_line ''# TYPE apolysis_queue_dropped_total counter''
     (push_metric ''apolysis_queue_accepted_total'' [] (dec_str (unat (qs_accepted (hl_queue h))))
     (push_line ''# TYPE apolysis_queue_accepted_total counter''
     (push_metric ''apolysis_queue_depth'' [] (dec_str (qs_depth (hl_queue h)))
     (push_line ''# TYPE apolysis_queue_depth gauge''
     (push_metric ''apolysis_queue_capacity'' [] (dec_str (qs_capacity (hl_queue h)))
     (push_line ''# TYPE apolysis_queue_capacity gauge''
     (fold (\<lambda>a. push_metric ''apolysis_adapter_state'' [(''adapter'', metrics_adapter_name a)]
              (component_value (health_adapter h a)))
        [AkDocker, AkContainerd, AkK3sContainerd, AkKubernetes]
     (push_line ''# TYPE apolysis_adapter_state gauge''
     (push_line ''# HELP apolysis_adapter_state Runtime adapter state: ready=1 degraded=0.5 unavailable=0.''
     (push_metric ''apolysis_component_state'' [(''component'', ''storage'')] (component_value (hl_storage h))
     (push_metric ''apolysis_component_state'' [(''component'', ''ebpf'')] (component_value (hl_ebpf h))
     (push_line ''# TYPE apolysis_component_state gauge''
     (push_line ''# HELP apolysis_component_state Component state: ready=1 degraded=0.5 unavailable=0.''
       []))))))))))))))"

section \<open>Reading it back\<close>

text \<open>A reference reader: comments are skipped, the value of a sample follows the last space.\<close>

definition read_samples :: "string \<Rightarrow> (string \<times> string) option list" where
  "read_samples s =
     map (rsplit_once (CHR '' ''))
       (filter (\<lambda>l. \<not> starts_with l ''#'') (lines_of s))"

definition series_names :: "string list" where
  "series_names =
     [''apolysis_component_state{component=\"ebpf\"}'', ''apolysis_component_state{component=\"storage\"}'',
      ''apolysis_adapter_state{adapter=\"docker\"}'', ''apolysis_adapter_state{adapter=\"containerd\"}'',
      ''apolysis_adapter_state{adapter=\"k3s_containerd\"}'', ''apolysis_adapter_state{adapter=\"kubernetes\"}'',
      ''apolysis_queue_capacity'', ''apolysis_queue_depth'', ''apolysis_queue_accepted_total'',
      ''apolysis_queue_dropped_total{priority=\"ordinary\"}'',
      ''apolysis_queue_dropped_total{priority=\"lifecycle\"}'',
      ''apolysis_queue_dropped_total{priority=\"diagnostic\"}'',
      ''apolysis_queue_dropped_total{priority=\"finding\"}'',
      ''apolysis_queue_dropped_total{priority=\"integrity\"}'']"

definition metric_values :: "health_snapshot \<Rightarrow> string list" where
  "metric_values h =
     [component_value (hl_ebpf h), component_value (hl_storage h),
      component_value (health_adapter h AkDocker), component_value (health_adapter h AkContainerd),
      component_value (health_adapter h AkK3sContainerd), component_value (health_adapter h AkKubernetes),
      dec_str (qs_capacity (hl_queue h)), dec_str (qs_depth (hl_queue h)),
      dec_str (unat (qs_accepted (hl_queue h)))]
     @ map (\<lambda>p. dec_str (unat (qs_dropped_count (hl_queue h) p)))
         [Ordinary, Lifecycle, Diagnostic, Finding, Integrity]"

text \<open>The lines of the exposition: comments and samples.\<close>

type_synonym metric_line = "string + string \<times> string"

fun metric_line_str :: "metric_line \<Rightarrow> string" where
  "metric_line_str (Inl c) = ''# '' @ c"
| "metric_line_str (Inr (n, v)) = n @ '' '' @ v"

definition sample_pairs :: "metric_line list \<Rightarrow> (string \<times> string) list" where
  "sample_pairs ls = concat (map (\<lambda>l. case l of Inl _ \<Rightarrow> [] | Inr p \<Rightarrow> [p]) ls)"

fun metric_line_ok :: "metric_line \<Rightarrow> bool" where
  "metric_line_ok (Inl c) \<longleftrightarrow> ch_nl \<notin> set c \<and> c \<noteq> [] \<and> last c \<noteq> ch_cr"
| "metric_line_ok (Inr (n, v)) \<longleftrightarrow>
     n \<noteq> [] \<and> hd n \<noteq> CHR ''#'' \<and> ch_nl \<notin> set n \<and>
     v \<noteq> [] \<and> CHR '' '' \<notin> set v \<and> ch_nl \<notin> set v \<and> last v \<noteq> ch_cr"

lemma metric_line_clean:
  assumes "metric_line_ok l"
  shows "ch_nl \<notin> set (metric_line_str l)" and "strip_cr (metric_line_str l) = metric_line_str l"
  using assms by (cases l rule: metric_line_str.cases; simp add: strip_cr_def)+

lemma metric_line_read:
  "metric_line_ok (Inr (n, v)) \<Longrightarrow>
     \<not> starts_with (metric_line_str (Inr (n, v))) ''#''
     \<and> rsplit_once (CHR '' '') (metric_line_str (Inr (n, v))) = Some (n, v)"
  by (cases n) (auto simp: rsplit_once_Some)

lemma read_exposition:
  assumes "list_all metric_line_ok ls"
  shows "read_samples (concat (map (\<lambda>l. l @ [ch_nl]) (map metric_line_str ls))) = map Some (sample_pairs ls)"
proof -
  have "lines_of (concat (map (\<lambda>l. l @ [ch_nl]) (map metric_line_str ls))) = map strip_cr (map metric_line_str ls)"
    using assms metric_line_clean(1) by (intro lines_of_terminated) (auto simp: list_all_iff)
  also have "\<dots> = map metric_line_str ls"
    using assms metric_line_clean(2) by (simp add: list_all_iff)
  finally have "read_samples (concat (map (\<lambda>l. l @ [ch_nl]) (map metric_line_str ls))) =
      map (rsplit_once (CHR '' '')) (filter (\<lambda>l. \<not> starts_with l ''#'') (map metric_line_str ls))"
    by (simp only: read_samples_def)
  also have "\<dots> = map Some (sample_pairs ls)"
    using assms
  proof (induction ls)
    case (Cons l ls)
    then show ?case
      using metric_line_read by (cases l rule: metric_line_str.cases) (auto simp: sample_pairs_def)
  qed (simp add: sample_pairs_def)
  finally show ?thesis .
qed

definition exposition :: "health_snapshot \<Rightarrow> metric_line list" where
  "exposition h =
     [Inl ''HELP apolysis_component_state Component state: ready=1 degraded=0.5 unavailable=0.'',
      Inl ''TYPE apolysis_component_state gauge'',
      Inr (''apolysis_component_state{component=\"ebpf\"}'', component_value (hl_ebpf h)),
      Inr (''apolysis_component_state{component=\"storage\"}'', component_value (hl_storage h)),
      Inl ''HELP apolysis_adapter_state Runtime adapter state: ready=1 degraded=0.5 unavailable=0.'',
      Inl ''TYPE apolysis_adapter_state gauge'',
      Inr (''apolysis_adapter_state{adapter=\"docker\"}'', component_value (health_adapter h AkDocker)),
      Inr (''apolysis_adapter_state{adapter=\"containerd\"}'',
        component_value (health_adapter h AkContainerd)),
      Inr (''apolysis_adapter_state{adapter=\"k3s_containerd\"}'',
        component_value (health_adapter h AkK3sContainerd)),
      Inr (''apolysis_adapter_state{adapter=\"kubernetes\"}'',
        component_value (health_adapter h AkKubernetes)),
      Inl ''TYPE apolysis_queue_capacity gauge'',
      Inr (''apolysis_queue_capacity'', dec_str (qs_capacity (hl_queue h))),
      Inl ''TYPE apolysis_queue_depth gauge'',
      Inr (''apolysis_queue_depth'', dec_str (qs_depth (hl_queue h))),
      Inl ''TYPE apolysis_queue_accepted_total counter'',
      Inr (''apolysis_queue_accepted_total'', dec_str (unat (qs_accepted (hl_queue h)))),
      Inl ''TYPE apolysis_queue_dropped_total counter'']
     @ map (\<lambda>p. Inr (''apolysis_queue_dropped_total{priority=\"'' @ priority_name p @ ''\"}'',
                     dec_str (unat (qs_dropped_count (hl_queue h) p))))
         [Ordinary, Lifecycle, Diagnostic, Finding, Integrity]"

lemma render_lines:
  "render_prometheus_metrics h = concat (map (\<lambda>l. l @ [ch_nl]) (map metric_line_str (exposition h)))"
  by (simp add: render_prometheus_metrics_def push_metric_def push_line_def metric_labels_def
      exposition_def)

lemma dec_plain:
  "CHR '' '' \<notin> set (dec_str n)" "ch_nl \<notin> set (dec_str n)" "last (dec_str n) \<noteq> ch_cr"
  using dec_str_digits [of _ n] last_in_set [OF dec_str_nonempty, of n]
  by (fastforce simp: is_ascii_digit_def less_eq_char_def)+

lemma component_plain:
  "component_value c \<noteq> []" "CHR '' '' \<notin> set (component_value c)" "ch_nl \<notin> set (component_value c)"
  "last (component_value c) \<noteq> ch_cr"
  by (cases c; simp)+

lemma exposition_ok: "list_all metric_line_ok (exposition h)"
  by (simp add: exposition_def dec_plain component_plain)

lemma exposition_pairs: "sample_pairs (exposition h) = zip series_names (metric_values h)"
  by (simp add: exposition_def sample_pairs_def series_names_def metric_values_def)

text \<open>A reader of the exposition gets, for every snapshot, the same fourteen series in the
  same order, no label of which comes from outside, each with its value: the state of every
  component and adapter, the queue's capacity, depth and accepted count, and the drop counter of
  every priority, in full.\<close>

lemma metrics_read_back:
  "read_samples (render_prometheus_metrics h) = map Some (zip series_names (metric_values h))"
  unfolding render_lines read_exposition [OF exposition_ok] exposition_pairs ..

end
