(* ===== verification/Daemon_Config.thy ===== *)
theory Daemon_Config
  imports Rust_Text
begin

text \<open>
  The daemon's configuration (\<open>crates/apolysis-daemon/src/config.rs\<close>): defaults, the parser of
  the command line, and the checks on what it accepted. Durations are milliseconds; the parser
  of socket addresses is a parameter.
\<close>

section \<open>The configuration\<close>

record 'a daemon_config =
  dc_socket_path :: string
  dc_state_dir :: string
  dc_bpf_object :: "string option"
  dc_feedback_dir :: "string option"
  dc_docker_socket :: "string option"
  dc_containerd_socket :: "string option"
  dc_k3s_containerd_socket :: "string option"
  dc_kubernetes_kubectl :: "string option"
  dc_kubernetes_cri_socket :: "string option"
  dc_proc_root :: string
  dc_cgroup_root :: string
  dc_scan_interval_ms :: u64
  dc_seen_capacity :: u64
  dc_max_sessions :: u64
  dc_max_pending :: u64
  dc_max_connections :: u64
  dc_queue_capacity :: u64
  dc_scope_command_capacity :: u64
  dc_metrics_listen :: "'a option"
  dc_request_timeout_ms :: u64
  dc_shutdown_drain_ms :: u64

definition config_default :: "'a daemon_config" where
  "config_default =
     \<lparr>dc_socket_path = ''/run/apolysis/apolysisd.sock'', dc_state_dir = ''/var/lib/apolysis'',
      dc_bpf_object = None, dc_feedback_dir = None, dc_docker_socket = None,
      dc_containerd_socket = None, dc_k3s_containerd_socket = None, dc_kubernetes_kubectl = None,
      dc_kubernetes_cri_socket = None, dc_proc_root = ''/proc'', dc_cgroup_root = ''/sys/fs/cgroup'',
      dc_scan_interval_ms = 5000, dc_seen_capacity = 16384, dc_max_sessions = 4096,
      dc_max_pending = 4096, dc_max_connections = 128, dc_queue_capacity = 16384,
      dc_scope_command_capacity = 1024, dc_metrics_listen = None, dc_request_timeout_ms = 5000,
      dc_shutdown_drain_ms = 5000\<rparr>"

section \<open>The command line\<close>

text \<open>\<open>parse_u64\<close> and \<open>parse_usize\<close>: both are 64 bits wide.\<close>

definition config_number :: "string \<Rightarrow> string \<Rightarrow> (string, u64) res" where
  "config_number opt v =
     map_sum (\<lambda>e. ''invalid value for '' @ opt @ '': '' @ int_error_str e) id (parse_word v)"

definition config_option ::
    "(string \<Rightarrow> (string, 'a) res) \<Rightarrow> string \<Rightarrow> string \<Rightarrow> 'a daemon_config
     \<Rightarrow> (string, 'a daemon_config) res" where
  "config_option parse_addr opt v c =
     (if opt = ''--socket'' then Inr (c\<lparr>dc_socket_path := v\<rparr>)
      else if opt = ''--state-dir'' then Inr (c\<lparr>dc_state_dir := v\<rparr>)
      else if opt = ''--bpf-object'' then Inr (c\<lparr>dc_bpf_object := Some v\<rparr>)
      else if opt = ''--feedback-dir'' then Inr (c\<lparr>dc_feedback_dir := Some v\<rparr>)
      else if opt = ''--docker-socket'' then Inr (c\<lparr>dc_docker_socket := Some v\<rparr>)
      else if opt = ''--containerd-socket'' then Inr (c\<lparr>dc_containerd_socket := Some v\<rparr>)
      else if opt = ''--k3s-containerd-socket'' then Inr (c\<lparr>dc_k3s_containerd_socket := Some v\<rparr>)
      else if opt = ''--kubernetes-kubectl'' then Inr (c\<lparr>dc_kubernetes_kubectl := Some v\<rparr>)
      else if opt = ''--kubernetes-cri-socket'' then Inr (c\<lparr>dc_kubernetes_cri_socket := Some v\<rparr>)
      else if opt = ''--proc-root'' then Inr (c\<lparr>dc_proc_root := v\<rparr>)
      else if opt = ''--cgroup-root'' then Inr (c\<lparr>dc_cgroup_root := v\<rparr>)
      else if opt = ''--runtime-adapter-scan-ms'' then
        map_sum id (\<lambda>n. c\<lparr>dc_scan_interval_ms := n\<rparr>) (config_number opt v)
      else if opt = ''--runtime-adapter-seen-capacity'' then
        map_sum id (\<lambda>n. c\<lparr>dc_seen_capacity := n\<rparr>) (config_number opt v)
      else if opt = ''--max-sessions'' then
        map_sum id (\<lambda>n. c\<lparr>dc_max_sessions := n\<rparr>) (config_number opt v)
      else if opt = ''--max-pending'' then
        map_sum id (\<lambda>n. c\<lparr>dc_max_pending := n\<rparr>) (config_number opt v)
      else if opt = ''--max-connections'' then
        map_sum id (\<lambda>n. c\<lparr>dc_max_connections := n\<rparr>) (config_number opt v)
      else if opt = ''--queue-capacity'' then
        map_sum id (\<lambda>n. c\<lparr>dc_queue_capacity := n\<rparr>) (config_number opt v)
      else if opt = ''--scope-command-capacity'' then
        map_sum id (\<lambda>n. c\<lparr>dc_scope_command_capacity := n\<rparr>) (config_number opt v)
      else if opt = ''--metrics-listen'' then
        map_sum (\<lambda>e. ''invalid value for '' @ opt @ '': '' @ e) (\<lambda>a. c\<lparr>dc_metrics_listen := Some a\<rparr>)
          (parse_addr v)
      else if opt = ''--request-timeout-ms'' then
        map_sum id (\<lambda>n. c\<lparr>dc_request_timeout_ms := n\<rparr>) (config_number opt v)
      else if opt = ''--shutdown-drain-ms'' then
        map_sum id (\<lambda>n. c\<lparr>dc_shutdown_drain_ms := n\<rparr>) (config_number opt v)
      else Inl (''unknown argument: '' @ opt))"

text \<open>The loop over the arguments: options and values in turn.\<close>

fun config_options ::
    "(string \<Rightarrow> (string, 'a) res) \<Rightarrow> string list \<Rightarrow> 'a daemon_config \<Rightarrow> (string, 'a daemon_config) res" where
  "config_options parse_addr [] c = Inr c"
| "config_options parse_addr [opt] c = Inl (''missing value for '' @ opt)"
| "config_options parse_addr (opt # v # args) c =
     (case config_option parse_addr opt v c of
        Inl e \<Rightarrow> Inl e
      | Inr c' \<Rightarrow> config_options parse_addr args c')"

definition config_check :: "'a daemon_config \<Rightarrow> (string, 'a daemon_config) res" where
  "config_check c =
     (if dc_max_connections c = 0 then Inl ''--max-connections must be greater than zero''
      else if dc_queue_capacity c = 0 then Inl ''--queue-capacity must be greater than zero''
      else if dc_scope_command_capacity c = 0 then
        Inl ''--scope-command-capacity must be greater than zero''
      else if dc_scan_interval_ms c = 0 then Inl ''--runtime-adapter-scan-ms must be greater than zero''
      else if dc_seen_capacity c = 0 then
        Inl ''--runtime-adapter-seen-capacity must be greater than zero''
      else if dc_request_timeout_ms c = 0 then Inl ''--request-timeout-ms must be greater than zero''
      else if dc_shutdown_drain_ms c = 0 then Inl ''--shutdown-drain-ms must be greater than zero''
      else Inr c)"

definition config_from_args ::
    "(string \<Rightarrow> (string, 'a) res) \<Rightarrow> string list \<Rightarrow> (string, 'a daemon_config) res" where
  "config_from_args parse_addr args =
     (case config_options parse_addr args config_default of
        Inl e \<Rightarrow> Inl e
      | Inr c \<Rightarrow> config_check c)"

section \<open>Every configuration can be written on the command line\<close>

definition opt_arg :: "string \<Rightarrow> string option \<Rightarrow> string list" where
  "opt_arg opt v = (case v of None \<Rightarrow> [] | Some x \<Rightarrow> [opt, x])"

definition num_arg :: "string \<Rightarrow> u64 \<Rightarrow> string list" where
  "num_arg opt n = [opt, dec_str (unat n)]"

definition config_args :: "('a \<Rightarrow> string) \<Rightarrow> 'a daemon_config \<Rightarrow> string list" where
  "config_args print_addr c =
     [''--socket'', dc_socket_path c, ''--state-dir'', dc_state_dir c]
     @ opt_arg ''--bpf-object'' (dc_bpf_object c) @ opt_arg ''--feedback-dir'' (dc_feedback_dir c)
     @ opt_arg ''--docker-socket'' (dc_docker_socket c)
     @ opt_arg ''--containerd-socket'' (dc_containerd_socket c)
     @ opt_arg ''--k3s-containerd-socket'' (dc_k3s_containerd_socket c)
     @ opt_arg ''--kubernetes-kubectl'' (dc_kubernetes_kubectl c)
     @ opt_arg ''--kubernetes-cri-socket'' (dc_kubernetes_cri_socket c)
     @ [''--proc-root'', dc_proc_root c, ''--cgroup-root'', dc_cgroup_root c]
     @ num_arg ''--runtime-adapter-scan-ms'' (dc_scan_interval_ms c)
     @ num_arg ''--runtime-adapter-seen-capacity'' (dc_seen_capacity c)
     @ num_arg ''--max-sessions'' (dc_max_sessions c) @ num_arg ''--max-pending'' (dc_max_pending c)
     @ num_arg ''--max-connections'' (dc_max_connections c)
     @ num_arg ''--queue-capacity'' (dc_queue_capacity c)
     @ num_arg ''--scope-command-capacity'' (dc_scope_command_capacity c)
     @ opt_arg ''--metrics-listen'' (map_option print_addr (dc_metrics_listen c))
     @ num_arg ''--request-timeout-ms'' (dc_request_timeout_ms c)
     @ num_arg ''--shutdown-drain-ms'' (dc_shutdown_drain_ms c)"

lemma config_number_dec [simp]: "config_number opt (dec_str (unat n)) = Inr n"
  by (simp add: config_number_def dec_word.dec_enc)

text \<open>Each argument in turn sets its field.\<close>

lemma options_strings:
  "config_options pa (''--socket'' # v # args) c = config_options pa args (c\<lparr>dc_socket_path := v\<rparr>)"
  "config_options pa (''--state-dir'' # v # args) c = config_options pa args (c\<lparr>dc_state_dir := v\<rparr>)"
  "config_options pa (''--proc-root'' # v # args) c = config_options pa args (c\<lparr>dc_proc_root := v\<rparr>)"
  "config_options pa (''--cgroup-root'' # v # args) c = config_options pa args (c\<lparr>dc_cgroup_root := v\<rparr>)"
  by (simp_all add: config_option_def)

lemma options_numbers:
  "config_options pa (num_arg ''--runtime-adapter-scan-ms'' n @ args) c = config_options pa args (c\<lparr>dc_scan_interval_ms := n\<rparr>)"
  "config_options pa (num_arg ''--runtime-adapter-seen-capacity'' n @ args) c = config_options pa args (c\<lparr>dc_seen_capacity := n\<rparr>)"
  "config_options pa (num_arg ''--max-sessions'' n @ args) c = config_options pa args (c\<lparr>dc_max_sessions := n\<rparr>)"
  "config_options pa (num_arg ''--max-pending'' n @ args) c = config_options pa args (c\<lparr>dc_max_pending := n\<rparr>)"
  "config_options pa (num_arg ''--max-connections'' n @ args) c = config_options pa args (c\<lparr>dc_max_connections := n\<rparr>)"
  "config_options pa (num_arg ''--queue-capacity'' n @ args) c = config_options pa args (c\<lparr>dc_queue_capacity := n\<rparr>)"
  "config_options pa (num_arg ''--scope-command-capacity'' n @ args) c = config_options pa args (c\<lparr>dc_scope_command_capacity := n\<rparr>)"
  "config_options pa (num_arg ''--request-timeout-ms'' n @ args) c = config_options pa args (c\<lparr>dc_request_timeout_ms := n\<rparr>)"
  "config_options pa (num_arg ''--shutdown-drain-ms'' n @ args) c = config_options pa args (c\<lparr>dc_shutdown_drain_ms := n\<rparr>)"
  by (simp_all add: num_arg_def config_option_def)

lemma options_optional:
  "dc_bpf_object c = None \<Longrightarrow>
     config_options pa (opt_arg ''--bpf-object'' w @ args) c = config_options pa args (c\<lparr>dc_bpf_object := w\<rparr>)"
  "dc_feedback_dir c = None \<Longrightarrow>
     config_options pa (opt_arg ''--feedback-dir'' w @ args) c = config_options pa args (c\<lparr>dc_feedback_dir := w\<rparr>)"
  "dc_docker_socket c = None \<Longrightarrow>
     config_options pa (opt_arg ''--docker-socket'' w @ args) c = config_options pa args (c\<lparr>dc_docker_socket := w\<rparr>)"
  "dc_containerd_socket c = None \<Longrightarrow>
     config_options pa (opt_arg ''--containerd-socket'' w @ args) c = config_options pa args (c\<lparr>dc_containerd_socket := w\<rparr>)"
  "dc_k3s_containerd_socket c = None \<Longrightarrow>
     config_options pa (opt_arg ''--k3s-containerd-socket'' w @ args) c = config_options pa args (c\<lparr>dc_k3s_containerd_socket := w\<rparr>)"
  "dc_kubernetes_kubectl c = None \<Longrightarrow>
     config_options pa (opt_arg ''--kubernetes-kubectl'' w @ args) c = config_options pa args (c\<lparr>dc_kubernetes_kubectl := w\<rparr>)"
  "dc_kubernetes_cri_socket c = None \<Longrightarrow>
     config_options pa (opt_arg ''--kubernetes-cri-socket'' w @ args) c = config_options pa args (c\<lparr>dc_kubernetes_cri_socket := w\<rparr>)"
  by (cases w; cases c; simp add: opt_arg_def config_option_def)+

lemma options_listen:
  assumes "\<And>a. pa (pr a) = Inr a" and "dc_metrics_listen c = None"
  shows "config_options pa (opt_arg ''--metrics-listen'' (map_option pr w) @ args) c =
    config_options pa args (c\<lparr>dc_metrics_listen := w\<rparr>)"
  using assms by (cases w; cases c; simp add: opt_arg_def config_option_def)

lemma options_last:
  "config_options pa (num_arg ''--shutdown-drain-ms'' n) c = Inr (c\<lparr>dc_shutdown_drain_ms := n\<rparr>)"
  using options_numbers(9) [of pa n "[]" c] by simp

lemma default_unset:
  "dc_bpf_object config_default = None" "dc_feedback_dir config_default = None"
  "dc_docker_socket config_default = None" "dc_containerd_socket config_default = None"
  "dc_k3s_containerd_socket config_default = None" "dc_kubernetes_kubectl config_default = None"
  "dc_kubernetes_cri_socket config_default = None" "dc_metrics_listen config_default = None"
  by (simp_all add: config_default_def)

text \<open>C23. Every configuration that passes the checks is written as arguments that parse back to
  it, whatever its paths hold; one that does not pass them is refused.\<close>

theorem config_args_parse:
  assumes "\<And>a. parse_addr (print_addr a) = Inr a"
  shows "config_from_args parse_addr (config_args print_addr c) = config_check c"
proof -
  have "config_options parse_addr (config_args print_addr c) config_default = Inr c"
    unfolding config_args_def append_Cons append_Nil append.assoc
    by (simp add: options_strings options_numbers options_optional options_listen [OF assms]
        options_last default_unset del: config_options.simps(3))
  then show ?thesis by (simp add: config_from_args_def)
qed

theorem config_args_parse_witness:
  "config_from_args Inr (config_args id (config_default\<lparr>dc_metrics_listen := Some ''::1:9100''\<rparr>)) =
     Inr (config_default\<lparr>dc_metrics_listen := Some ''::1:9100''\<rparr>)"
  using config_args_parse [of Inr id "config_default\<lparr>dc_metrics_listen := Some ''::1:9100''\<rparr>"]
  by (simp add: config_check_def config_default_def)

end
