(* ===== verification/Json_Value.thy ===== *)
theory Json_Value
  imports Timeline_Integrity Finding_Analysis "HOL-Library.Monad_Syntax"
begin

text \<open>
  What the daemon uses of \<open>serde_json::Value\<close>: the parameter \<open>json_lib\<close>, its documented laws
  \<open>json_laws\<close>, and a concrete instance (values, a compact printer and its reader, the derived
  encodings of intents and findings) on which the laws, and the assumptions of the timeline
  on its codec, hold.
\<close>

section \<open>The library as a parameter\<close>

record 'v json_lib =
  jl_null :: 'v
  jl_string :: "string \<Rightarrow> 'v"
  jl_u64 :: "u64 \<Rightarrow> 'v"
  jl_object :: "(string \<times> 'v) list \<Rightarrow> 'v"
  jl_get :: "'v \<Rightarrow> string \<Rightarrow> 'v option"
  jl_as_str :: "'v \<Rightarrow> string option"
  jl_as_u64 :: "'v \<Rightarrow> u64 option"
  jl_insert :: "string \<Rightarrow> 'v \<Rightarrow> 'v \<Rightarrow> 'v option"
  jl_of_intent :: "session_intent \<Rightarrow> 'v"
  jl_to_intent :: "'v \<Rightarrow> (string, session_intent) res"
  jl_of_finding :: "accountability_finding \<Rightarrow> (string, 'v) res"

text \<open>
  A member of an object built by the macro \<open>json!\<close> is found again under its key, strings and
  numbers are returned as they were given, an inserted member is found, and an intent
  reads back (\<open>Serialize\<close> and \<open>Deserialize\<close> are derived side by side).
\<close>

definition json_laws :: "'v json_lib \<Rightarrow> bool" where
  "json_laws J \<longleftrightarrow>
     (\<forall>kvs k. distinct (map fst kvs) \<longrightarrow> jl_get J (jl_object J kvs) k = map_of kvs k) \<and>
     (\<forall>s. jl_as_str J (jl_string J s) = Some s) \<and>
     (\<forall>n. jl_as_u64 J (jl_u64 J n) = Some n) \<and>
     (\<forall>k x v w. jl_insert J k x v = Some w \<longrightarrow> jl_get J w k = Some x) \<and>
     (\<forall>i. jl_to_intent J (jl_of_intent J i) = Inr i)"

lemma json_lawsD:
  assumes "json_laws J"
  shows "distinct (map fst kvs) \<Longrightarrow> jl_get J (jl_object J kvs) k = map_of kvs k"
    and "jl_as_str J (jl_string J s) = Some s"
    and "jl_as_u64 J (jl_u64 J n) = Some n"
    and "jl_insert J key x v = Some w \<Longrightarrow> jl_get J w key = Some x"
    and "jl_to_intent J (jl_of_intent J i) = Inr i"
  using assms by (auto simp: json_laws_def)

text \<open>A value that was printed reads back; \<open>ok\<close> leaves out numbers with a fraction.\<close>

definition value_exact :: "('v \<Rightarrow> bool) \<Rightarrow> 'v chain_lib \<Rightarrow> bool" where
  "value_exact ok lib \<longleftrightarrow>
     (\<forall>v t. ok v \<longrightarrow> cl_print_value lib v = Inr t \<longrightarrow> cl_parse_value lib t = Inr v)"

section \<open>A concrete instance: values\<close>

datatype json =
    JNull
  | JNum u64
  | JStr string
  | JArr "json list"
  | JObj "(string \<times> json) list"

fun json_print :: "json \<Rightarrow> string" and json_print_items :: "json list \<Rightarrow> string"
  and json_print_members :: "(string \<times> json) list \<Rightarrow> string" where
  "json_print JNull = ''null''"
| "json_print (JNum n) = dec_str (unat n)"
| "json_print (JStr s) = json_string s"
| "json_print (JArr vs) = ''['' @ json_print_items vs"
| "json_print (JObj kvs) = ''{'' @ json_print_members kvs"
| "json_print_items [] = '']''"
| "json_print_items [v] = json_print v @ '']''"
| "json_print_items (v # w # vs) = json_print v @ '','' @ json_print_items (w # vs)"
| "json_print_members [] = ''}''"
| "json_print_members [(k, v)] = json_string k @ '':'' @ json_print v @ ''}''"
| "json_print_members ((k, v) # kv # kvs) =
     json_string k @ '':'' @ json_print v @ '','' @ json_print_members (kv # kvs)"

definition expect :: "char \<Rightarrow> string \<Rightarrow> string option" where
  "expect c s = (case s of [] \<Rightarrow> None | d # r \<Rightarrow> if d = c then Some r else None)"

fun json_read :: "nat \<Rightarrow> string \<Rightarrow> (json \<times> string) option"
  and json_read_items :: "nat \<Rightarrow> string \<Rightarrow> (json list \<times> string) option"
  and json_read_members :: "nat \<Rightarrow> string \<Rightarrow> ((string \<times> json) list \<times> string) option" where
  "json_read 0 s = None"
| "json_read (Suc n) s =
     (case s of
        [] \<Rightarrow> None
      | c # r \<Rightarrow>
          (if c = CHR ''n'' then map_option (Pair JNull) (strip_prefix ''ull'' r)
           else if c = ch_quote then map_option (map_prod JStr id) (json_read_string s)
           else if c = CHR ''['' then
             (case expect (CHR '']'') r of
                Some r' \<Rightarrow> Some (JArr [], r')
              | None \<Rightarrow> map_option (map_prod JArr id) (json_read_items n r))
           else if c = CHR ''{'' then
             (case expect (CHR ''}'') r of
                Some r' \<Rightarrow> Some (JObj [], r')
              | None \<Rightarrow> map_option (map_prod JObj id) (json_read_members n r))
           else
             (case parse_word (takeWhile is_ascii_digit s) of
                Inl _ \<Rightarrow> None
              | Inr w \<Rightarrow> Some (JNum w, dropWhile is_ascii_digit s))))"
| "json_read_items 0 s = None"
| "json_read_items (Suc n) s =
     (case json_read n s of
        None \<Rightarrow> None
      | Some (v, r) \<Rightarrow>
          (case expect (CHR '']'') r of
             Some r' \<Rightarrow> Some ([v], r')
           | None \<Rightarrow>
               (case expect (CHR '','') r of
                  None \<Rightarrow> None
                | Some r' \<Rightarrow> map_option (map_prod (Cons v) id) (json_read_items n r'))))"
| "json_read_members 0 s = None"
| "json_read_members (Suc n) s =
     (case json_read_string s of
        None \<Rightarrow> None
      | Some (k, r0) \<Rightarrow>
     (case expect (CHR '':'') r0 of
        None \<Rightarrow> None
      | Some r1 \<Rightarrow>
     (case json_read n r1 of
        None \<Rightarrow> None
      | Some (v, r) \<Rightarrow>
          (case expect (CHR ''}'') r of
             Some r' \<Rightarrow> Some ([(k, v)], r')
           | None \<Rightarrow>
               (case expect (CHR '','') r of
                  None \<Rightarrow> None
                | Some r' \<Rightarrow> map_option (map_prod (Cons (k, v)) id) (json_read_members n r'))))))"

text \<open>Enough fuel: one per level and per member.\<close>

fun json_fuel :: "json \<Rightarrow> nat" and items_fuel :: "json list \<Rightarrow> nat"
  and members_fuel :: "(string \<times> json) list \<Rightarrow> nat" where
  "json_fuel JNull = 1"
| "json_fuel (JNum n) = 1"
| "json_fuel (JStr s) = 1"
| "json_fuel (JArr vs) = Suc (items_fuel vs)"
| "json_fuel (JObj kvs) = Suc (members_fuel kvs)"
| "items_fuel [] = 0"
| "items_fuel (v # vs) = Suc (json_fuel v + items_fuel vs)"
| "members_fuel [] = 0"
| "members_fuel ((k, v) # kvs) = Suc (json_fuel v + members_fuel kvs)"

definition json_follow :: "string \<Rightarrow> bool" where
  "json_follow rest \<longleftrightarrow> (case rest of [] \<Rightarrow> True | c # _ \<Rightarrow> \<not> is_ascii_digit c)"

lemma read_string_print [simp]: "json_read_string (json_string s @ rest) = Some (s, rest)"
  by (simp add: json_string_def json_read_string_def json_read_escape)

lemma hd_json_string: "\<exists>r. json_string s = ch_quote # r"
  by (simp add: json_string_def)

lemma dec_takeWhile:
  assumes "json_follow rest"
  shows "takeWhile is_ascii_digit (dec_str n @ rest) = dec_str n"
    and "dropWhile is_ascii_digit (dec_str n @ rest) = rest"
  using assms dec_str_digits [of _ n]
  by (cases rest; force simp: json_follow_def takeWhile_append dropWhile_append)+

lemma dec_first: "\<exists>c r. dec_str n = c # r \<and> is_ascii_digit c"
  using dec_str_digits [of "hd (dec_str n)" n] by (cases "dec_str n") auto

lemma digit_not:
  "is_ascii_digit c \<Longrightarrow> c \<noteq> CHR ''n'' \<and> c \<noteq> ch_quote \<and> c \<noteq> CHR ''['' \<and> c \<noteq> CHR ''{'' \<and> c \<noteq> CHR '']''
     \<and> c \<noteq> CHR ''}''"
  by (auto simp: is_ascii_digit_def less_eq_char_def)

lemma expect_simps [simp]:
  "expect c (c # r) = Some r" "c \<noteq> d \<Longrightarrow> expect c (d # r) = None" "expect c [] = None"
  by (auto simp: expect_def)

text \<open>No value starts with a closing bracket.\<close>

lemma print_first: "\<exists>c r. json_print v = c # r \<and> c \<noteq> CHR '']'' \<and> c \<noteq> CHR ''}''"
proof (cases v)
  case (JNum n)
  then show ?thesis using dec_first [of "unat n"] digit_not by auto
next
  case (JStr s)
  then show ?thesis using hd_json_string [of s] by auto
qed simp_all

lemma follow_closers [simp]:
  "json_follow []" "json_follow (CHR '']'' # r)" "json_follow (CHR ''}'' # r)" "json_follow (CHR '','' # r)"
  by (simp_all add: json_follow_def is_ascii_digit_def less_eq_char_def)

lemma items_first: "vs \<noteq> [] \<Longrightarrow> expect (CHR '']'') (json_print_items vs @ rest) = None"
proof (cases vs rule: json_print_items.cases)
  fix v assume "vs = [v]"
  with print_first [of v] show ?thesis by auto
next
  fix v w ws assume "vs = v # w # ws"
  with print_first [of v] show ?thesis by auto
qed simp

lemma members_first: "kvs \<noteq> [] \<Longrightarrow> expect (CHR ''}'') (json_print_members kvs @ rest) = None"
proof (cases kvs rule: json_print_members.cases)
  fix k v assume "kvs = [(k, v)]"
  with hd_json_string [of k] show ?thesis by auto
next
  fix k v kv kvs' assume "kvs = (k, v) # kv # kvs'"
  with hd_json_string [of k] show ?thesis by auto
qed simp

lemma json_read_print:
  "json_follow rest \<Longrightarrow> json_fuel v \<le> n \<Longrightarrow> json_read n (json_print v @ rest) = Some (v, rest)"
  and "vs \<noteq> [] \<Longrightarrow> items_fuel vs \<le> n \<Longrightarrow> json_read_items n (json_print_items vs @ rest) = Some (vs, rest)"
  and "kvs \<noteq> [] \<Longrightarrow> members_fuel kvs \<le> n \<Longrightarrow>
     json_read_members n (json_print_members kvs @ rest) = Some (kvs, rest)"
proof (induction v and vs and kvs arbitrary: rest n and rest n and rest n
    rule: json_print_json_print_items_json_print_members.induct)
  case 1
  then show ?case by (cases n) (simp_all add: strip_prefix_def)
next
  case (2 w)
  obtain c r where c: "dec_str (unat w) = c # r" "is_ascii_digit c" using dec_first by blast
  have "takeWhile is_ascii_digit (c # r @ rest) = c # r" "dropWhile is_ascii_digit (c # r @ rest) = rest"
    using dec_takeWhile [OF 2(1), of "unat w"] c(1) by simp_all
  moreover have "parse_word (c # r) = Inr w" using dec_word.dec_enc [of w] c(1) by simp
  ultimately show ?case using 2(2) digit_not [OF c(2)] c(1) by (cases n) simp_all
next
  case (3 s)
  obtain r where r: "json_string s = ch_quote # r" using hd_json_string by blast
  have "json_read_string (ch_quote # r @ rest) = Some (s, rest)"
    using read_string_print [of s rest] r by simp
  with 3 r show ?case by (cases n) simp_all
next
  case (4 vs)
  then show ?case using items_first [of vs rest] by (cases n; cases "vs = []") simp_all
next
  case (5 kvs)
  then show ?case using members_first [of kvs rest] by (cases n; cases "kvs = []") simp_all
next
  case 6
  then show ?case by simp
next
  case (7 v)
  then show ?case by (cases n) simp_all
next
  case (8 v w vs)
  then show ?case by (cases n) simp_all
next
  case 9
  then show ?case by simp
next
  case (10 k v)
  then show ?case by (cases n) simp_all
next
  case (11 k v kv kvs)
  then show ?case by (cases n) simp_all
qed

lemma printable_items:
  "printable (json_print v)" "printable (json_print_items vs)" "printable (json_print_members kvs)"
  by (induction v and vs and kvs rule: json_print_json_print_items_json_print_members.induct)
    (simp_all add: printable_dec_str)

text \<open>The length of the text is fuel enough.\<close>

lemma fuel_length:
  "json_fuel v \<le> length (json_print v)" "items_fuel vs \<le> length (json_print_items vs)"
  "members_fuel kvs \<le> length (json_print_members kvs)"
proof (induction v and vs and kvs rule: json_print_json_print_items_json_print_members.induct)
  case (2 w)
  then show ?case using dec_first [of "unat w"] by auto
next
  case (3 s)
  then show ?case using hd_json_string [of s] by auto
qed simp_all

definition json_parse :: "string \<Rightarrow> (string, json) res" where
  "json_parse s = (case json_read (length s) s of Some (v, []) \<Rightarrow> Inr v | _ \<Rightarrow> Inl ''invalid JSON'')"

interpretation json_text: codec json_print json_parse "\<lambda>_. True"
proof unfold_locales
  fix v
  have "json_read (length (json_print v)) (json_print v @ []) = Some (v, [])"
    by (rule json_read_print(1)) (simp_all add: fuel_length)
  then show "json_parse (json_print v) = Inr v" by (simp add: json_parse_def)
qed

section \<open>Derived encodings\<close>

text \<open>The names \<open>rename_all = "snake_case"\<close> gives, and their reader.\<close>

definition enum_of :: "('a \<Rightarrow> string) \<Rightarrow> 'a list \<Rightarrow> string \<Rightarrow> 'a option" where
  "enum_of name xs s = find (\<lambda>x. name x = s) xs"

fun tier_name :: "retention_tier \<Rightarrow> string" where
  "tier_name TierShort = ''short''"
| "tier_name TierStandard = ''standard''"
| "tier_name TierExtended = ''extended''"

fun action_name :: "action_class \<Rightarrow> string" where
  "action_name AcTest = ''test''"
| "action_name AcBuild = ''build''"
| "action_name AcExecute = ''execute''"
| "action_name AcReadFile = ''read_file''"
| "action_name AcWriteFile = ''write_file''"
| "action_name AcNetwork = ''network''"
| "action_name AcCredential = ''credential''"

fun resource_name :: "resource_kind \<Rightarrow> string" where
  "resource_name ReWorkspace = ''workspace''"
| "resource_name RePath = ''path''"
| "resource_name ReEgress = ''egress''"
| "resource_name ReCommand = ''command''"
| "resource_name ReCredential = ''credential''"
| "resource_name ReServiceAccountToken = ''service_account_token''"

fun runtime_name :: "runtime_selector \<Rightarrow> string" where
  "runtime_name RsLocal = ''local''"
| "runtime_name RsDocker = ''docker''"
| "runtime_name RsContainerd = ''containerd''"
| "runtime_name RsKubernetes = ''kubernetes''"

lemma enum_of_name [simp]:
  "enum_of tier_name [TierShort, TierStandard, TierExtended] (tier_name t) = Some t"
  "enum_of action_name [AcTest, AcBuild, AcExecute, AcReadFile, AcWriteFile, AcNetwork, AcCredential]
     (action_name a) = Some a"
  "enum_of resource_name [ReWorkspace, RePath, ReEgress, ReCommand, ReCredential, ReServiceAccountToken]
     (resource_name r) = Some r"
  "enum_of runtime_name [RsLocal, RsDocker, RsContainerd, RsKubernetes] (runtime_name w) = Some w"
  by ((cases t; simp add: enum_of_def), (cases a; simp add: enum_of_def),
      (cases r; simp add: enum_of_def), (cases w; simp add: enum_of_def))

fun json_get :: "json \<Rightarrow> string \<Rightarrow> json option" where
  "json_get (JObj kvs) k = map_of kvs k"
| "json_get _ k = None"

fun json_as_str :: "json \<Rightarrow> string option" where
  "json_as_str (JStr s) = Some s"
| "json_as_str _ = None"

fun json_as_u64 :: "json \<Rightarrow> u64 option" where
  "json_as_u64 (JNum n) = Some n"
| "json_as_u64 _ = None"

fun json_as_array :: "json \<Rightarrow> json list option" where
  "json_as_array (JArr vs) = Some vs"
| "json_as_array _ = None"

fun json_insert :: "string \<Rightarrow> json \<Rightarrow> json \<Rightarrow> json option" where
  "json_insert k x (JObj kvs) = Some (JObj ((k, x) # filter (\<lambda>p. fst p \<noteq> k) kvs))"
| "json_insert k x _ = None"

fun all_some :: "'a option list \<Rightarrow> 'a list option" where
  "all_some [] = Some []"
| "all_some (None # xs) = None"
| "all_some (Some x # xs) = map_option (Cons x) (all_some xs)"

lemma all_some_map [simp]: "all_some (map Some xs) = Some xs"
  by (induction xs) simp_all

definition json_str_at :: "json \<Rightarrow> string \<Rightarrow> string option" where
  "json_str_at v k = Option.bind (json_get v k) json_as_str"

definition json_u64_at :: "json \<Rightarrow> string \<Rightarrow> u64 option" where
  "json_u64_at v k = Option.bind (json_get v k) json_as_u64"

definition json_list_at :: "(json \<Rightarrow> 'a option) \<Rightarrow> json \<Rightarrow> string \<Rightarrow> 'a list option" where
  "json_list_at f v k =
     do { vs \<leftarrow> Option.bind (json_get v k) json_as_array; all_some (map f vs) }"

definition json_of_selector :: "resource_selector \<Rightarrow> json" where
  "json_of_selector s = JObj [(''kind'', JStr (resource_name (rs_kind s))), (''value'', JStr (rs_value s))]"

definition selector_of_json :: "json \<Rightarrow> resource_selector option" where
  "selector_of_json v =
     do { n \<leftarrow> json_str_at v ''kind'';
          k \<leftarrow> enum_of resource_name [ReWorkspace, RePath, ReEgress, ReCommand, ReCredential, ReServiceAccountToken] n;
          x \<leftarrow> json_str_at v ''value'';
          Some \<lparr>rs_kind = k, rs_value = x\<rparr> }"

definition json_of_workload_selector :: "workload_selector \<Rightarrow> json" where
  "json_of_workload_selector s =
     JObj [(''runtime'', JStr (runtime_name (ws_runtime s))), (''key'', JStr (ws_key s)),
           (''value'', JStr (ws_value s))]"

definition workload_selector_of_json :: "json \<Rightarrow> workload_selector option" where
  "workload_selector_of_json v =
     do { n \<leftarrow> json_str_at v ''runtime'';
          r \<leftarrow> enum_of runtime_name [RsLocal, RsDocker, RsContainerd, RsKubernetes] n;
          k \<leftarrow> json_str_at v ''key'';
          x \<leftarrow> json_str_at v ''value'';
          Some \<lparr>ws_runtime = r, ws_key = k, ws_value = x\<rparr> }"

definition json_of_intent :: "session_intent \<Rightarrow> json" where
  "json_of_intent i =
     JObj [(''schema_version'', JNum (ucast (si_schema_version i))), (''tenant_id'', JStr (si_tenant_id i)),
           (''retention_tier'', JStr (tier_name (si_retention_tier i))),
           (''session_id'', JStr (si_session_id i)), (''expires_at_unix_ms'', JNum (si_expires_at i)),
           (''declared_actions'', JArr (map (\<lambda>a. JStr (action_name a)) (si_declared_actions i))),
           (''allowed_resources'', JArr (map json_of_selector (si_allowed_resources i))),
           (''policy_ref'', JStr (si_policy_ref i)),
           (''workload_selectors'', JArr (map json_of_workload_selector (si_workload_selectors i)))]"

definition intent_of_json :: "json \<Rightarrow> session_intent option" where
  "intent_of_json v =
     do { ver \<leftarrow> json_u64_at v ''schema_version'';
          tenant \<leftarrow> (case json_get v ''tenant_id'' of None \<Rightarrow> Some default_tenant_id | Some x \<Rightarrow> json_as_str x);
          tier \<leftarrow> (case json_get v ''retention_tier'' of
                    None \<Rightarrow> Some TierStandard
                  | Some x \<Rightarrow> Option.bind (json_as_str x) (enum_of tier_name [TierShort, TierStandard, TierExtended]));
          sid \<leftarrow> json_str_at v ''session_id'';
          expires \<leftarrow> json_u64_at v ''expires_at_unix_ms'';
          actions \<leftarrow> json_list_at (\<lambda>x. Option.bind (json_as_str x)
            (enum_of action_name [AcTest, AcBuild, AcExecute, AcReadFile, AcWriteFile, AcNetwork, AcCredential]))
            v ''declared_actions'';
          resources \<leftarrow> json_list_at selector_of_json v ''allowed_resources'';
          policy \<leftarrow> json_str_at v ''policy_ref'';
          workloads \<leftarrow> json_list_at workload_selector_of_json v ''workload_selectors'';
          (if unat ver < 2 ^ 32 then
             Some \<lparr>si_schema_version = ucast ver, si_tenant_id = tenant, si_retention_tier = tier,
                   si_session_id = sid, si_expires_at = expires, si_declared_actions = actions,
                   si_allowed_resources = resources, si_policy_ref = policy,
                   si_workload_selectors = workloads\<rparr>
           else None) }"

lemma selector_json [simp]: "selector_of_json (json_of_selector s) = Some s"
  by (simp add: selector_of_json_def json_of_selector_def json_str_at_def)

lemma workload_selector_json [simp]: "workload_selector_of_json (json_of_workload_selector s) = Some s"
  by (simp add: workload_selector_of_json_def json_of_workload_selector_def json_str_at_def)

lemma ucast_up_down: "ucast (ucast (x :: u32) :: u64) = x"
  by transfer simp

lemma intent_json: "intent_of_json (json_of_intent i) = Some i"
proof -
  have "unat (si_schema_version i) < 2 ^ LENGTH(32)" by (rule unsigned_less)
  then have small: "unat (si_schema_version i) < 2 ^ 32" by simp
  then have "unat (ucast (si_schema_version i) :: u64) = unat (si_schema_version i)"
    by (simp add: unsigned_ucast_eq take_bit_nat_eq_self)
  with small have "unat (ucast (si_schema_version i) :: u64) < 2 ^ 32" by simp
  then show ?thesis
    by (simp add: intent_of_json_def json_of_intent_def json_str_at_def json_u64_at_def json_list_at_def
        comp_def ucast_up_down)
qed

fun finding_kind_name :: "finding_kind \<Rightarrow> string" where
  "finding_kind_name FkMissingIntent = ''missing_intent''"
| "finding_kind_name FkUndeclaredAction = ''undeclared_action''"
| "finding_kind_name FkCredentialRead = ''credential_read''"
| "finding_kind_name FkWorkspaceBoundary = ''workspace_boundary''"
| "finding_kind_name FkUnknownEgress = ''unknown_egress''"
| "finding_kind_name FkDangerousCommand = ''dangerous_command''"
| "finding_kind_name FkServiceAccountTokenRead = ''service_account_token_read''"

definition json_opt :: "('a \<Rightarrow> json) \<Rightarrow> 'a option \<Rightarrow> json" where
  "json_opt f x = (case x of None \<Rightarrow> JNull | Some a \<Rightarrow> f a)"

definition json_of_finding :: "accountability_finding \<Rightarrow> json" where
  "json_of_finding f =
     JObj [(''schema_version'', JNum (ucast (af_schema_version f))), (''session_id'', JStr (af_session_id f)),
           (''kind'', JStr (finding_kind_name (af_kind f))),
           (''decision'', JStr (case af_decision f of FdNotify \<Rightarrow> ''notify'' | FdReview \<Rightarrow> ''review'')),
           (''reason'', JStr (af_reason f)), (''evidence_ref'', JStr (af_evidence_ref f)),
           (''runtime'',
             JObj [(''runtime'', JStr (ri_runtime (af_runtime f))),
                   (''container_id'', json_opt JStr (ri_container_id (af_runtime f))),
                   (''pod_uid'', json_opt JStr (ri_pod_uid (af_runtime f))),
                   (''cgroup_id'', json_opt JNum (ri_cgroup_id (af_runtime f)))]),
           (''evidence_boundary'',
             JStr (case af_boundary f of HostBoundary \<Rightarrow> ''host_boundary'' | GuestSemantic \<Rightarrow> ''guest_semantic''))]"

definition sample_json_lib :: "json json_lib" where
  "sample_json_lib =
     \<lparr>jl_null = JNull, jl_string = JStr, jl_u64 = JNum, jl_object = JObj, jl_get = json_get,
      jl_as_str = json_as_str, jl_as_u64 = json_as_u64, jl_insert = json_insert,
      jl_of_intent = json_of_intent,
      jl_to_intent = (\<lambda>v. case intent_of_json v of None \<Rightarrow> Inl ''invalid intent'' | Some i \<Rightarrow> Inr i),
      jl_of_finding = (\<lambda>f. Inr (json_of_finding f))\<rparr>"

lemma sample_json_laws: "json_laws sample_json_lib"
proof -
  have "json_get w k = Some x" if "json_insert k x v = Some w" for k x v w
    using that by (cases v) auto
  then show ?thesis by (simp add: json_laws_def sample_json_lib_def intent_json)
qed

section \<open>The timeline's codec on these values\<close>

definition record_to_json :: "json chain_record \<Rightarrow> json" where
  "record_to_json r =
     JObj [(''schema_version'', JNum (ucast (cr_schema_version r))), (''sequence'', JNum (cr_sequence r)),
           (''previous_hash'', JStr (cr_previous_hash r)), (''record_hash'', JStr (cr_record_hash r)),
           (''payload'', cr_payload r)]"

definition record_of_json :: "json \<Rightarrow> json chain_record option" where
  "record_of_json v =
     do { ver \<leftarrow> json_u64_at v ''schema_version'';
          sq \<leftarrow> json_u64_at v ''sequence'';
          prev \<leftarrow> json_str_at v ''previous_hash'';
          h \<leftarrow> json_str_at v ''record_hash'';
          p \<leftarrow> json_get v ''payload'';
          Some \<lparr>cr_schema_version = ucast ver, cr_sequence = sq, cr_previous_hash = prev,
                cr_record_hash = h, cr_payload = p\<rparr> }"

lemma record_json: "record_of_json (record_to_json r) = Some r"
  by (simp add: record_of_json_def record_to_json_def json_u64_at_def json_str_at_def ucast_up_down)

definition json_chain_lib :: "json chain_lib" where
  "json_chain_lib =
     \<lparr>cl_parse_record =
        (\<lambda>s. case json_parse s of
               Inl e \<Rightarrow> Inl e
             | Inr v \<Rightarrow> (case record_of_json v of None \<Rightarrow> Inl ''invalid record'' | Some r \<Rightarrow> Inr r)),
      cl_print_record = (\<lambda>r. Inr (json_print (record_to_json r))),
      cl_parse_value = json_parse, cl_print_value = (\<lambda>v. Inr (json_print v)),
      cl_sha256 = sample_digest\<rparr>"

lemma json_chain_exact: "serde_exact (\<lambda>_. True) json_chain_lib" "value_exact (\<lambda>_. True) json_chain_lib"
  by (simp_all add: serde_exact_def value_exact_def json_chain_lib_def json_text.dec_enc record_json
      printable_no_nl [OF printable_items(1)])

end
