(* ===== verification/Rust_Path.thy ===== *)
theory Rust_Path
  imports Rust_Text
begin

text \<open>
  What the code uses of \<open>std::path\<close> on Unix and of \<open>str::split_whitespace\<close>: the components of
  a path, the prefix test on them, and the words of a text.
\<close>

section \<open>Components of a path\<close>

datatype path_component = RootDir | CurDir | ParentDir | NormalDir string

text \<open>
  Empty pieces and pieces that are a single dot vanish, but for a dot at the front of a
  relative path.
\<close>

definition piece_component :: "string \<Rightarrow> path_component option" where
  "piece_component p =
     (if p = [] \<or> p = ''.'' then None else if p = ''..'' then Some ParentDir else Some (NormalDir p))"

definition path_components :: "string \<Rightarrow> path_component list" where
  "path_components p =
     (let ps = split_on (CHR ''/'') p in
      (if prefix ''/'' p then [RootDir] else if hd ps = ''.'' then [CurDir] else [])
      @ List.map_filter piece_component ps)"

definition path_is_absolute :: "string \<Rightarrow> bool" where
  "path_is_absolute p \<longleftrightarrow> prefix ''/'' p"

definition path_starts_with :: "string \<Rightarrow> string \<Rightarrow> bool" where
  "path_starts_with p base \<longleftrightarrow> prefix (path_components base) (path_components p)"

lemma piece_not_root [simp]:
  "piece_component q \<noteq> Some RootDir" "piece_component q \<noteq> Some CurDir"
  by (auto simp: piece_component_def)

lemma root_component: "RootDir \<in> set (path_components p) \<longleftrightarrow> path_is_absolute p"
proof -
  have "RootDir \<notin> set (List.map_filter piece_component ps)" for ps
    by (auto simp: List.map_filter_def image_iff dest: sym)
  then show ?thesis by (simp add: path_components_def path_is_absolute_def Let_def)
qed

lemma length_path_components: "length (path_components p) \<le> Suc (Suc (length p))"
proof -
  have f: "length (List.map_filter g xs) \<le> length xs" for g :: "string \<Rightarrow> path_component option" and xs
    by (simp add: List.map_filter_def)
  have "length (split_on (CHR ''/'') q) \<le> Suc (length q)" for q
    by (induction q) (auto split: list.splits)
  then show ?thesis
    using f [of piece_component "split_on (CHR ''/'') p"]
    by (auto simp: path_components_def Let_def intro: order.trans le_SucI)
qed

section \<open>Words\<close>

text \<open>\<open>acc\<close> is the word read so far.\<close>

function words_from :: "string \<Rightarrow> string \<Rightarrow> string list" where
  "words_from acc s =
     (if s = [] then (if acc = [] then [] else [acc])
      else if leading_ws s = 0 then words_from (acc @ [hd s]) (tl s)
      else (if acc = [] then [] else [acc]) @ words_from [] (drop (leading_ws s) s))"
  by pat_completeness auto
termination
proof (relation "measure (\<lambda>(acc, s). length s)")
  fix acc s :: string
  assume "s \<noteq> []" "leading_ws s \<noteq> 0"
  then show "(([], drop (leading_ws s) s), (acc, s)) \<in> measure (\<lambda>(acc, s). length s)"
    using leading_ws_le [of s] by simp
qed auto

declare words_from.simps [simp del]

definition split_whitespace :: "string \<Rightarrow> string list" where
  "split_whitespace s = words_from [] s"

lemma words_nonempty: "w \<in> set (words_from acc s) \<Longrightarrow> w \<noteq> []"
proof (induction acc s rule: words_from.induct)
  case (1 acc s)
  then show ?case by (subst (asm) (2) words_from.simps) (auto split: if_splits)
qed

text \<open>Words without white space, joined by single spaces, are split again.\<close>

definition plain_word :: "string \<Rightarrow> bool" where
  "plain_word w \<longleftrightarrow> w \<noteq> [] \<and> list_all ws_free w"

lemma words_from_plain:
  "list_all ws_free w \<Longrightarrow> words_from acc (w @ s) = words_from (acc @ w) s"
proof (induction w arbitrary: acc)
  case (Cons c w)
  then have "leading_ws (c # w @ s) = 0" by (simp add: leading_ws_free)
  with Cons show ?case by (subst words_from.simps) simp
qed simp

lemma words_from_space: "words_from acc (CHR '' '' # s) = (if acc = [] then [] else [acc]) @ words_from [] s"
proof -
  have "leading_ws (CHR '' '' # s) = 1" by (simp add: leading_ws_def unicode_ws_def)
  then show ?thesis by (subst words_from.simps) simp
qed

lemma split_join_words: "list_all plain_word ws \<Longrightarrow> split_whitespace (join_with '' '' ws) = ws"
proof (induction ws)
  case Nil
  then show ?case by (simp add: split_whitespace_def words_from.simps)
next
  case (Cons x ws)
  show ?case
  proof (cases ws)
    case Nil
    then show ?thesis
      using Cons.prems words_from_plain [of x "[]" "[]"]
      by (simp add: plain_word_def split_whitespace_def words_from.simps)
  next
    case (Cons y xs)
    then show ?thesis
      using Cons.prems Cons.IH words_from_plain [of x "[]" "'' '' @ join_with '' '' ws"]
      by (simp add: plain_word_def split_whitespace_def words_from_space)
  qed
qed

text \<open>\<open>Path::join\<close>.\<close>

definition path_join :: "string \<Rightarrow> string \<Rightarrow> string" where
  "path_join base p =
     (if prefix ''/'' p \<or> base = [] then p
      else if suffix ''/'' base then base @ p
      else base @ ''/'' @ p)"

end
