(* ===== verification/Daemon_State.thy ===== *)
theory Daemon_State
  imports Session_Invariants Json_Value Health_Metrics Policy_Parser Event_Pipeline Rust_Path
begin

text \<open>
  The daemon's state (\<open>crates/apolysis-daemon/src/state.rs\<close>): the registry, one timeline per
  session, the health snapshot, paused sessions and redaction policies, every operation on
  them, the replay of a timeline and the start of the daemon. JSON, SHA-256, the observer's
  scope worker, the file system and the feedback writer answer through the records
  \<open>daemon_lib\<close> and \<open>daemon_env\<close>. An operation runs as one step: the code holds the write
  lock of the registry for all of it.
\<close>

section \<open>The environment\<close>

record 'v daemon_lib =
  dl_chain :: "'v chain_lib"
  dl_json :: "'v json_lib"

text \<open>
  What an operation meets: the room on the device, the answers of the scope worker to a
  request for a cgroup, the contents of files read, where the tail of a timeline was set aside,
  the answer of \<open>remove_dir_all\<close> for a directory (one that is not there counts as success, as
  in the code), the sessions whose directories a removal that fails half way leaves, and the
  answer of the feedback writer.
\<close>

record daemon_env =
  de_room :: nat
  de_track :: "u64 \<Rightarrow> (string, unit) res"
  de_untrack :: "u64 \<Rightarrow> (string, unit) res"
  de_read_file :: "string \<Rightarrow> string option"
  de_quarantine_path :: "string \<Rightarrow> string"
  de_remove_dir :: "string \<Rightarrow> (string, unit) res"
  de_spares :: "string \<Rightarrow> string \<Rightarrow> bool"
  de_feedback :: "accountability_finding \<Rightarrow> (string, unit) res"

section \<open>The state\<close>

text \<open>
  \<open>ds_files\<close> holds the timelines on the disk of the sessions that have no open store,
  \<open>ds_unlinked\<close> the open stores whose file has been removed under them: what they still write
  goes with them. \<open>ds_tracked\<close> holds the cgroups the scope worker has been told to track, when
  there is one.
\<close>

record daemon_state =
  ds_registry :: session_registry
  ds_health :: health_snapshot
  ds_stores :: "(string, hash_chain_store) bmap"
  ds_files :: "(string, string) bmap"
  ds_unlinked :: "string list"
  ds_paused :: "(string, string) bmap"
  ds_sessions_dir :: string
  ds_storage_writable :: bool
  ds_scope :: bool
  ds_tracked :: "u64 list"
  ds_policies :: "(string, policy option) bmap"
  ds_feedback :: bool

record runtime_workload =
  rw_adapter :: adapter_kind
  rw_session_id :: string
  rw_workload_id :: string
  rw_cgroup_id :: u64
  rw_image :: "string option"
  rw_runtime_handler :: "string option"

definition session_timeline :: "string \<Rightarrow> string \<Rightarrow> string" where
  "session_timeline sessions_dir sid = path_join (path_join sessions_dir sid) ''timeline.jsonl''"

definition load_redaction_policy :: "daemon_env \<Rightarrow> string \<Rightarrow> policy option" where
  "load_redaction_policy env path =
     (case de_read_file env path of
        None \<Rightarrow> None
      | Some input \<Rightarrow> (case policy_parse input of Inl _ \<Rightarrow> None | Inr p \<Rightarrow> Some p))"

section \<open>The records of a timeline\<close>

definition v_intent_registered :: "'v json_lib \<Rightarrow> session_intent \<Rightarrow> 'v" where
  "v_intent_registered J i =
     jl_object J [(''record_type'', jl_string J ''intent_registered''), (''intent'', jl_of_intent J i)]"

definition v_intent_renewed :: "'v json_lib \<Rightarrow> string \<Rightarrow> u64 \<Rightarrow> 'v" where
  "v_intent_renewed J sid expires =
     jl_object J [(''record_type'', jl_string J ''intent_renewed''), (''session_id'', jl_string J sid),
       (''expires_at_unix_ms'', jl_u64 J expires)]"

definition v_session_closed :: "'v json_lib \<Rightarrow> string \<Rightarrow> 'v" where
  "v_session_closed J sid =
     jl_object J [(''record_type'', jl_string J ''session_closed''), (''session_id'', jl_string J sid)]"

fun outcome_name :: "association_outcome \<Rightarrow> string" where
  "outcome_name Attached = ''attached''"
| "outcome_name MissingIntent = ''missing_intent''"

definition v_cgroup_discovered :: "'v json_lib \<Rightarrow> string \<Rightarrow> u64 \<Rightarrow> association_outcome \<Rightarrow> 'v" where
  "v_cgroup_discovered J sid c outcome =
     jl_object J [(''record_type'', jl_string J ''cgroup_discovered''), (''session_id'', jl_string J sid),
       (''cgroup_id'', jl_u64 J c), (''outcome'', jl_string J (outcome_name outcome))]"

definition jl_optional :: "'v json_lib \<Rightarrow> string option \<Rightarrow> 'v" where
  "jl_optional J s = (case s of None \<Rightarrow> jl_null J | Some x \<Rightarrow> jl_string J x)"

definition v_runtime_workload :: "'v json_lib \<Rightarrow> runtime_workload \<Rightarrow> association_outcome \<Rightarrow> 'v" where
  "v_runtime_workload J w outcome =
     jl_object J [(''record_type'', jl_string J ''runtime_workload_discovered''),
       (''adapter'', jl_string J (metrics_adapter_name (rw_adapter w))),
       (''session_id'', jl_string J (rw_session_id w)), (''workload_id'', jl_string J (rw_workload_id w)),
       (''cgroup_id'', jl_u64 J (rw_cgroup_id w)), (''image'', jl_optional J (rw_image w)),
       (''runtime_handler'', jl_optional J (rw_runtime_handler w)),
       (''outcome'', jl_string J (outcome_name outcome))]"

definition v_integrity_finding :: "'v json_lib \<Rightarrow> string \<Rightarrow> string \<Rightarrow> string \<Rightarrow> nat \<Rightarrow> 'v" where
  "v_integrity_finding J sid timeline quarantine valid_records =
     jl_object J [(''record_type'', jl_string J ''integrity_finding''), (''session_id'', jl_string J sid),
       (''reason'', jl_string J ''hash_chain_tail_quarantined''),
       (''timeline_path'', jl_string J timeline), (''quarantine_path'', jl_string J quarantine),
       (''valid_records'', jl_u64 J (of_nat valid_records))]"

definition finding_payload :: "'v json_lib \<Rightarrow> accountability_finding \<Rightarrow> (string, 'v) res" where
  "finding_payload J f =
     (case jl_of_finding J f of
        Inl e \<Rightarrow> Inl (''failed to serialize accountability finding: '' @ e)
      | Inr v \<Rightarrow>
          (case jl_insert J ''record_type'' (jl_string J ''accountability_finding'') v of
             None \<Rightarrow> Inl ''accountability finding did not serialize as an object''
           | Some w \<Rightarrow> Inr w))"

section \<open>Writing to a timeline\<close>

definition with_room :: "nat \<Rightarrow> hash_chain_store \<Rightarrow> hash_chain_store" where
  "with_room room s = s\<lparr>hs_writer := (hs_writer s)\<lparr>bw_room := room\<rparr>\<rparr>"

definition put_store :: "string \<Rightarrow> hash_chain_store \<Rightarrow> daemon_state \<Rightarrow> daemon_state" where
  "put_store sid s d = d\<lparr>ds_stores := bm_insert sid s (ds_stores d)\<rparr>"

definition open_store ::
    "'v daemon_lib \<Rightarrow> daemon_env \<Rightarrow> string \<Rightarrow> daemon_state
     \<Rightarrow> (string, hash_chain_store \<times> daemon_state) res" where
  "open_store L env sid d =
     (case bm_get (ds_stores d) sid of
        Some s \<Rightarrow> Inr (with_room (de_room env) s, d)
      | None \<Rightarrow>
          (case create_or_recover (dl_chain L) (de_room env) (bm_get (ds_files d) sid) of
             Inl e \<Rightarrow> Inl (''failed to recover session timeline: '' @ store_error_str e)
           | Inr rc \<Rightarrow> Inr (rc_store rc, put_store sid (rc_store rc) d)))"

text \<open>\<open>to_string\<close>, \<open>append_json\<close> and \<open>flush\<close> on a store, with the three messages of the caller.\<close>

definition append_flush ::
    "'v daemon_lib \<Rightarrow> string \<Rightarrow> string \<Rightarrow> string \<Rightarrow> 'v \<Rightarrow> hash_chain_store
     \<Rightarrow> (string, unit) res \<times> hash_chain_store" where
  "append_flush L serialize_msg append_msg flush_msg v s =
     (case cl_print_value (dl_chain L) v of
        Inl e \<Rightarrow> (Inl (serialize_msg @ e), s)
      | Inr payload \<Rightarrow>
          (case append_json (dl_chain L) 1 payload s of
             (Inl e, s') \<Rightarrow> (Inl (append_msg @ store_error_str e), s')
           | (Inr _, s') \<Rightarrow>
               (case chain_flush s' of
                  (Inl e, s'') \<Rightarrow> (Inl (flush_msg @ store_error_str e), s'')
                | (Inr _, s'') \<Rightarrow> (Inr (), s''))))"

definition persist_inner ::
    "'v daemon_lib \<Rightarrow> daemon_env \<Rightarrow> string \<Rightarrow> 'v \<Rightarrow> daemon_state \<Rightarrow> (string, unit) res \<times> daemon_state" where
  "persist_inner L env sid v d =
     (case open_store L env sid d of
        Inl e \<Rightarrow> (Inl e, d)
      | Inr (s, d1) \<Rightarrow>
          (let (res, s') = append_flush L ''failed to serialize session record: ''
                 ''failed to append session timeline: '' ''failed to flush session timeline: '' v s
           in (res, put_store sid s' d1)))"

definition storage_unavailable :: string where
  "storage_unavailable = ''session storage is unavailable; restart after repairing storage''"

definition ds_persist ::
    "'v daemon_lib \<Rightarrow> daemon_env \<Rightarrow> string \<Rightarrow> 'v \<Rightarrow> daemon_state \<Rightarrow> (string, unit) res \<times> daemon_state" where
  "ds_persist L env sid v d =
     (if \<not> ds_storage_writable d then (Inl storage_unavailable, d)
      else
        (case persist_inner L env sid v d of
           (Inr _, d') \<Rightarrow> (Inr (), d')
         | (Inl e, d') \<Rightarrow>
             (Inl e, d'\<lparr>ds_storage_writable := False,
                        ds_health := health_set_storage CsUnavailable (ds_health d')\<rparr>)))"

section \<open>The scope worker\<close>

definition scope_track :: "daemon_env \<Rightarrow> u64 \<Rightarrow> daemon_state \<Rightarrow> (string, unit) res \<times> daemon_state" where
  "scope_track env c d =
     (case de_track env c of
        Inl e \<Rightarrow> (Inl e, d)
      | Inr _ \<Rightarrow> (Inr (), d\<lparr>ds_tracked := bs_insert c (ds_tracked d)\<rparr>))"

definition scope_untrack :: "daemon_env \<Rightarrow> u64 \<Rightarrow> daemon_state \<Rightarrow> (string, unit) res \<times> daemon_state" where
  "scope_untrack env c d =
     (case de_untrack env c of
        Inl e \<Rightarrow> (Inl e, d)
      | Inr _ \<Rightarrow> (Inr (), d\<lparr>ds_tracked := bs_remove c (ds_tracked d)\<rparr>))"

text \<open>Tracking again what was untracked, without looking at the answers.\<close>

definition retrack_quietly :: "daemon_env \<Rightarrow> u64 list \<Rightarrow> daemon_state \<Rightarrow> daemon_state" where
  "retrack_quietly env cs d = fold (\<lambda>c d. snd (scope_track env c d)) cs d"

text \<open>The same, stopped at the first refusal.\<close>

fun retrack :: "daemon_env \<Rightarrow> u64 list \<Rightarrow> daemon_state \<Rightarrow> (string, unit) res \<times> daemon_state" where
  "retrack env [] d = (Inr (), d)"
| "retrack env (c # cs) d =
     (case scope_track env c d of
        (Inl e, d') \<Rightarrow> (Inl e, d')
      | (Inr _, d') \<Rightarrow> retrack env cs d')"

text \<open>The loop of \<open>close\<close>: at the first refusal the ones before it are tracked again.\<close>

fun untrack_all ::
    "daemon_env \<Rightarrow> u64 list \<Rightarrow> u64 list \<Rightarrow> daemon_state \<Rightarrow> (string, u64 list) res \<times> daemon_state" where
  "untrack_all env removed [] d = (Inr removed, d)"
| "untrack_all env removed (c # cs) d =
     (case scope_untrack env c d of
        (Inl e, d') \<Rightarrow> (Inl e, retrack_quietly env removed d')
      | (Inr _, d') \<Rightarrow> untrack_all env (removed @ [c]) cs d')"

section \<open>Operations\<close>

definition ds_register ::
    "'v daemon_lib \<Rightarrow> daemon_env \<Rightarrow> session_intent \<Rightarrow> u64 \<Rightarrow> daemon_state
     \<Rightarrow> (string, register_outcome) res \<times> daemon_state" where
  "ds_register L env intent now d =
     (case registry_register intent now (ds_registry d) of
        (Inl e, _) \<Rightarrow> (Inl (registry_error_str e), d)
      | (Inr outcome, candidate) \<Rightarrow>
          (case ds_persist L env (si_session_id intent) (v_intent_registered (dl_json L) intent) d of
             (Inl e, d') \<Rightarrow> (Inl e, d')
           | (Inr _, d') \<Rightarrow>
               (Inr outcome,
                d'\<lparr>ds_registry := candidate,
                   ds_policies :=
                     bm_insert (si_session_id intent) (load_redaction_policy env (si_policy_ref intent))
                       (ds_policies d')\<rparr>)))"

definition ds_renew ::
    "'v daemon_lib \<Rightarrow> daemon_env \<Rightarrow> string \<Rightarrow> u64 \<Rightarrow> u64 \<Rightarrow> daemon_state
     \<Rightarrow> (string, unit) res \<times> daemon_state" where
  "ds_renew L env sid expires now d =
     (case registry_renew sid expires now (ds_registry d) of
        (Inl e, _) \<Rightarrow> (Inl (registry_error_str e), d)
      | (Inr _, candidate) \<Rightarrow>
          (case ds_persist L env sid (v_intent_renewed (dl_json L) sid expires) d of
             (Inl e, d') \<Rightarrow> (Inl e, d')
           | (Inr _, d') \<Rightarrow> (Inr (), d'\<lparr>ds_registry := candidate\<rparr>)))"

definition scope_rollback_failed :: "string \<Rightarrow> string \<Rightarrow> string" where
  "scope_rollback_failed e rollback = e @ ''; scope rollback failed: '' @ rollback"

definition ds_close ::
    "'v daemon_lib \<Rightarrow> daemon_env \<Rightarrow> string \<Rightarrow> daemon_state \<Rightarrow> (string, unit) res \<times> daemon_state" where
  "ds_close L env sid d =
     (case registry_close sid (ds_registry d) of
        (Inl e, _) \<Rightarrow> (Inl (registry_error_str e), d)
      | (Inr closed, candidate) \<Rightarrow>
          (case (if ds_scope d then untrack_all env [] (st_cgroup_ids closed) d else (Inr [], d)) of
             (Inl e, d1) \<Rightarrow> (Inl e, d1)
           | (Inr removed, d1) \<Rightarrow>
               (case ds_persist L env sid (v_session_closed (dl_json L) sid) d1 of
                  (Inl e, d2) \<Rightarrow>
                    (if ds_scope d then
                       (case retrack env removed d2 of
                          (Inl rollback, d3) \<Rightarrow> (Inl (scope_rollback_failed e rollback), d3)
                        | (Inr _, d3) \<Rightarrow> (Inl e, d3))
                     else (Inl e, d2))
                | (Inr _, d2) \<Rightarrow> (Inr (), d2\<lparr>ds_registry := candidate\<rparr>))))"

definition ds_query :: "string \<Rightarrow> daemon_state \<Rightarrow> session_state option" where
  "ds_query sid d = session_at (ds_registry d) sid"

definition ds_query_for_tenant :: "string \<Rightarrow> string \<Rightarrow> daemon_state \<Rightarrow> session_state option" where
  "ds_query_for_tenant sid tenant d = get_for_tenant (ds_registry d) sid tenant"

definition ds_list_for_tenant :: "string \<Rightarrow> retention_tier option \<Rightarrow> daemon_state \<Rightarrow> session_state list" where
  "ds_list_for_tenant tenant tier d = list_for_tenant (ds_registry d) tenant tier"

text \<open>
  Dropping a store: the buffered writer flushes what it still holds (its error is ignored),
  and the file stays, unless it has been removed before.
\<close>

definition drop_store :: "daemon_env \<Rightarrow> string \<Rightarrow> daemon_state \<Rightarrow> daemon_state" where
  "drop_store env sid d =
     (case bm_get (ds_stores d) sid of
        None \<Rightarrow> d
      | Some s \<Rightarrow>
          (if sid \<in> set (ds_unlinked d) then
             d\<lparr>ds_stores := bm_remove sid (ds_stores d), ds_unlinked := removeAll sid (ds_unlinked d)\<rparr>
           else
             d\<lparr>ds_stores := bm_remove sid (ds_stores d),
               ds_files :=
                 bm_insert sid (bw_disk (snd (bw_flush (hs_writer (with_room (de_room env) s)))))
                   (ds_files d)\<rparr>))"

text \<open>
  The directory a path names, when no link is on its way: \<open>.\<close> stays, \<open>..\<close> goes up.
\<close>

fun resolve_step :: "path_component \<Rightarrow> path_component list \<Rightarrow> path_component list" where
  "resolve_step RootDir at = [RootDir]"
| "resolve_step CurDir at = at"
| "resolve_step (NormalDir n) at = at @ [NormalDir n]"
| "resolve_step ParentDir at =
     (if at = [RootDir] then at
      else if at = [] \<or> last at = ParentDir then at @ [ParentDir]
      else butlast at)"

definition resolved_dir :: "string \<Rightarrow> path_component list" where
  "resolved_dir p = fold resolve_step (path_components p) []"

text \<open>
  \<open>remove_dir_all\<close> takes everything below the directory: the timelines of all the sessions whose
  directories lie in it, whoever's they are. One that is still open is written to no more.
\<close>

definition dir_below :: "string \<Rightarrow> string \<Rightarrow> bool" where
  "dir_below dir other \<longleftrightarrow> prefix (resolved_dir dir) (resolved_dir other)"

definition remove_session_dir ::
    "daemon_env \<Rightarrow> string \<Rightarrow> daemon_state \<Rightarrow> (string, unit) res \<times> daemon_state" where
  "remove_session_dir env dir d =
     (let res = de_remove_dir env dir;
          gone = (\<lambda>other. dir_below dir (path_join (ds_sessions_dir d) other)
                   \<and> \<not> (res \<noteq> Inr () \<and> de_spares env dir other))
      in (res, d\<lparr>ds_files := filter (\<lambda>p. \<not> gone (fst p)) (ds_files d),
                 ds_unlinked := filter gone (bm_keys (ds_stores d)) @ ds_unlinked d\<rparr>))"

text \<open>The loop over the directories of the purged sessions, left at the first error.\<close>

fun remove_dirs :: "daemon_env \<Rightarrow> string list \<Rightarrow> daemon_state \<Rightarrow> (string, unit) res \<times> daemon_state" where
  "remove_dirs env [] d = (Inr (), d)"
| "remove_dirs env (sid # sids) d =
     (let session_dir = path_join (ds_sessions_dir d) sid in
      case remove_session_dir env session_dir d of
        (Inl e, d') \<Rightarrow> (Inl (''failed to remove retained session state '' @ session_dir @ '': '' @ e), d')
      | (Inr _, d') \<Rightarrow> remove_dirs env sids d')"

definition ds_apply_retention ::
    "daemon_env \<Rightarrow> string \<Rightarrow> u64 \<Rightarrow> bool \<Rightarrow> daemon_state \<Rightarrow> (string, purge_report) res \<times> daemon_state" where
  "ds_apply_retention env tenant now dry_run d =
     (if dry_run then (Inr (retention_purge_report (ds_registry d) tenant now True), d)
      else
        (let (report, candidate) = apply_retention tenant now (ds_registry d);
             purged = pr_purged report;
             d1 = fold (drop_store env) purged d
         in
           (case remove_dirs env purged d1 of
              (Inl e, d2) \<Rightarrow> (Inl e, d2)
            | (Inr _, d2) \<Rightarrow>
                (Inr report,
                 d2\<lparr>ds_policies := fold bm_remove purged (ds_policies d2),
                    ds_paused := fold bm_remove purged (ds_paused d2),
                    ds_registry := candidate\<rparr>))))"

definition ds_session_for_cgroup :: "u64 \<Rightarrow> daemon_state \<Rightarrow> string option" where
  "ds_session_for_cgroup c d = session_for_cgroup (ds_registry d) c"

definition ds_tracked_cgroups :: "daemon_state \<Rightarrow> u64 list" where
  "ds_tracked_cgroups d = tracked_cgroups (ds_registry d)"

definition workspace_root_for_session :: "string \<Rightarrow> daemon_state \<Rightarrow> string" where
  "workspace_root_for_session sid d =
     (case session_at (ds_registry d) sid of
        None \<Rightarrow> ''/__apolysis_no_workspace__''
      | Some st \<Rightarrow>
          (case find (\<lambda>s. rs_kind s = ReWorkspace) (si_allowed_resources (st_intent st)) of
             None \<Rightarrow> ''/__apolysis_no_workspace__''
           | Some s \<Rightarrow> rs_value s))"

definition credential_path_requires_redaction :: "string \<Rightarrow> string \<Rightarrow> daemon_state \<Rightarrow> bool" where
  "credential_path_requires_redaction sid path d =
     (case bm_get (ds_policies d) sid of
        Some (Some p) \<Rightarrow> denies_credential_path p path
      | _ \<Rightarrow> True)"

definition ds_discover_cgroup ::
    "'v daemon_lib \<Rightarrow> daemon_env \<Rightarrow> string \<Rightarrow> u64 \<Rightarrow> daemon_state
     \<Rightarrow> (string, association_outcome) res \<times> daemon_state" where
  "ds_discover_cgroup L env sid c d =
     (if session_for_cgroup (ds_registry d) c = Some sid then
        (Inr (if session_at (ds_registry d) sid \<noteq> None then Attached else MissingIntent), d)
      else
        (case registry_discover sid c (ds_registry d) of
           (Inl e, _) \<Rightarrow> (Inl (registry_error_str e), d)
         | (Inr outcome, candidate) \<Rightarrow>
             (case (if ds_scope d then scope_track env c d else (Inr (), d)) of
                (Inl e, d1) \<Rightarrow> (Inl e, d1)
              | (Inr _, d1) \<Rightarrow>
                  (case ds_persist L env sid (v_cgroup_discovered (dl_json L) sid c outcome) d1 of
                     (Inl e, d2) \<Rightarrow>
                       (if ds_scope d then
                          (case scope_untrack env c d2 of
                             (Inl rollback, d3) \<Rightarrow> (Inl (scope_rollback_failed e rollback), d3)
                           | (Inr _, d3) \<Rightarrow> (Inl e, d3))
                        else (Inl e, d2))
                   | (Inr _, d2) \<Rightarrow> (Inr outcome, d2\<lparr>ds_registry := candidate\<rparr>)))))"

text \<open>\<open>health\<close>: the snapshot with the statistics of the pipeline, when they can be read.\<close>

definition ds_health_of :: "(submit_error, queue_stats) res \<Rightarrow> daemon_state \<Rightarrow> health_snapshot" where
  "ds_health_of stats d =
     (case stats of
        Inl _ \<Rightarrow> ds_health d
      | Inr st \<Rightarrow> (ds_health d)\<lparr>hl_queue := st\<rparr>)"

definition ds_set_ebpf :: "component_state \<Rightarrow> daemon_state \<Rightarrow> daemon_state" where
  "ds_set_ebpf s d = d\<lparr>ds_health := health_set_ebpf s (ds_health d)\<rparr>"

definition ds_set_adapter :: "adapter_kind \<Rightarrow> component_state \<Rightarrow> daemon_state \<Rightarrow> daemon_state" where
  "ds_set_adapter a s d = d\<lparr>ds_health := health_set_adapter a s (ds_health d)\<rparr>"

text \<open>The loop of \<open>accountability_finding_payloads\<close>.\<close>

fun finding_payloads ::
    "'v json_lib \<Rightarrow> daemon_env \<Rightarrow> bool \<Rightarrow> accountability_finding list \<Rightarrow> 'v list \<Rightarrow> (string, 'v list) res" where
  "finding_payloads J env feedback [] acc = Inr acc"
| "finding_payloads J env feedback (f # fs) acc =
     (case (if feedback then de_feedback env f else Inr ()) of
        Inl e \<Rightarrow> Inl e
      | Inr _ \<Rightarrow>
          (case finding_payload J f of
             Inl e \<Rightarrow> Inl e
           | Inr v \<Rightarrow> finding_payloads J env feedback fs (acc @ [v])))"

definition accountability_finding_payloads ::
    "'v daemon_lib \<Rightarrow> daemon_env \<Rightarrow> observed_effect \<Rightarrow> daemon_state \<Rightarrow> (string, 'v list) res" where
  "accountability_finding_payloads L env e d =
     finding_payloads (dl_json L) env (ds_feedback d)
       (evaluate_effect (map_option st_intent (session_at (ds_registry d) (oe_session_id e))) e) []"

text \<open>The loop that persists the payloads of a finding.\<close>

fun persist_all ::
    "'v daemon_lib \<Rightarrow> daemon_env \<Rightarrow> string \<Rightarrow> 'v list \<Rightarrow> daemon_state \<Rightarrow> (string, unit) res \<times> daemon_state" where
  "persist_all L env sid [] d = (Inr (), d)"
| "persist_all L env sid (v # vs) d =
     (case ds_persist L env sid v d of
        (Inl e, d') \<Rightarrow> (Inl e, d')
      | (Inr _, d') \<Rightarrow> persist_all L env sid vs d')"

fun container_identity :: "adapter_kind \<Rightarrow> string \<Rightarrow> string option" where
  "container_identity AkKubernetes w = None"
| "container_identity AkDocker w = Some w"
| "container_identity AkContainerd w = Some w"
| "container_identity AkK3sContainerd w = Some w"

definition missing_intent_effect :: "runtime_workload \<Rightarrow> observed_effect" where
  "missing_intent_effect w =
     \<lparr>oe_session_id = rw_session_id w, oe_evidence_ref = ''runtime_workload:'' @ rw_workload_id w,
      oe_kind = EkExec, oe_actor = rw_workload_id w, oe_resource = rw_workload_id w,
      oe_runtime =
        \<lparr>ri_runtime = metrics_adapter_name (rw_adapter w),
         ri_container_id = container_identity (rw_adapter w) (rw_workload_id w),
         ri_pod_uid = None, ri_cgroup_id = Some (rw_cgroup_id w)\<rparr>,
      oe_boundary = HostBoundary\<rparr>"

definition persist_missing_intent_finding ::
    "'v daemon_lib \<Rightarrow> daemon_env \<Rightarrow> runtime_workload \<Rightarrow> daemon_state \<Rightarrow> (string, unit) res \<times> daemon_state" where
  "persist_missing_intent_finding L env w d =
     (case accountability_finding_payloads L env (missing_intent_effect w) d of
        Inl e \<Rightarrow> (Inl e, d)
      | Inr vs \<Rightarrow> persist_all L env (rw_session_id w) vs d)"

definition ingest_runtime_workload ::
    "'v daemon_lib \<Rightarrow> daemon_env \<Rightarrow> runtime_workload \<Rightarrow> daemon_state
     \<Rightarrow> (string, association_outcome) res \<times> daemon_state" where
  "ingest_runtime_workload L env w d =
     (case ds_discover_cgroup L env (rw_session_id w) (rw_cgroup_id w) d of
        (Inl e, d1) \<Rightarrow> (Inl e, d1)
      | (Inr outcome, d1) \<Rightarrow>
          (case ds_persist L env (rw_session_id w) (v_runtime_workload (dl_json L) w outcome) d1 of
             (Inl e, d2) \<Rightarrow> (Inl e, d2)
           | (Inr _, d2) \<Rightarrow>
               (case (if outcome = MissingIntent then persist_missing_intent_finding L env w d2
                      else (Inr (), d2)) of
                  (Inl e, d3) \<Rightarrow> (Inl e, d3)
                | (Inr _, d3) \<Rightarrow> (Inr outcome, ds_set_adapter (rw_adapter w) CsReady d3))))"

text \<open>Untracking the cgroups of a degraded session, without looking at the answers.\<close>

definition untrack_quietly :: "daemon_env \<Rightarrow> u64 list \<Rightarrow> daemon_state \<Rightarrow> daemon_state" where
  "untrack_quietly env cs d = fold (\<lambda>c d. snd (scope_untrack env c d)) cs d"

definition mark_session_degraded :: "daemon_env \<Rightarrow> string \<Rightarrow> string \<Rightarrow> daemon_state \<Rightarrow> daemon_state" where
  "mark_session_degraded env sid reason d =
     (let d1 = d\<lparr>ds_paused := bm_insert sid reason (ds_paused d)\<rparr>;
          (res, r) = registry_degrade sid (ds_registry d1);
          cs = (case res of Inl _ \<Rightarrow> [] | Inr st \<Rightarrow> st_cgroup_ids st);
          d2 = d1\<lparr>ds_registry := r\<rparr>;
          d3 = (if ds_scope d2 then untrack_quietly env cs d2 else d2)
      in d3\<lparr>ds_health := health_set_storage CsDegraded (ds_health d3)\<rparr>)"

definition persist_record ::
    "'v daemon_lib \<Rightarrow> daemon_env \<Rightarrow> 'v daemon_record \<Rightarrow> daemon_state
     \<Rightarrow> (string, write_outcome) res \<times> daemon_state" where
  "persist_record L env r d =
     (if \<not> ds_storage_writable d then (Inl storage_unavailable, d)
      else if bm_get (ds_paused d) (dr_session_id r) \<noteq> None then (Inr Failed, d)
      else
        (case persist_inner L env (dr_session_id r) (dr_payload r) d of
           (Inr _, d') \<Rightarrow> (Inr Written, d')
         | (Inl e, d') \<Rightarrow> (Inr Failed, mark_session_degraded env (dr_session_id r) e d')))"

section \<open>Replaying a timeline\<close>

record replay =
  rp_intent :: "session_intent option"
  rp_cgroups :: "u64 list"
  rp_closed :: bool

definition replay_start :: replay where
  "replay_start = \<lparr>rp_intent = None, rp_cgroups = [], rp_closed = False\<rparr>"

definition record_type :: "'v json_lib \<Rightarrow> 'v \<Rightarrow> string option" where
  "record_type J v = Option.bind (jl_get J v ''record_type'') (jl_as_str J)"

definition u64_field :: "'v json_lib \<Rightarrow> string \<Rightarrow> 'v \<Rightarrow> u64 option" where
  "u64_field J k v = Option.bind (jl_get J v k) (jl_as_u64 J)"

text \<open>The body of the loop, one branch per type of record.\<close>

definition replay_registered :: "'v json_lib \<Rightarrow> 'v \<Rightarrow> replay \<Rightarrow> (string, replay) res" where
  "replay_registered J v s =
     (let cgroups = (if rp_closed s then [] else rp_cgroups s) in
      case jl_get J v ''intent'' of
        None \<Rightarrow> Inl ''intent_registered record is missing intent''
      | Some x \<Rightarrow>
          (case jl_to_intent J x of
             Inl e \<Rightarrow> Inl (''failed to replay registered intent: '' @ e)
           | Inr i \<Rightarrow> Inr \<lparr>rp_intent = Some i, rp_cgroups = cgroups, rp_closed = False\<rparr>))"

definition replay_renewed :: "'v json_lib \<Rightarrow> 'v \<Rightarrow> replay \<Rightarrow> replay" where
  "replay_renewed J v s =
     (case (rp_intent s, u64_field J ''expires_at_unix_ms'' v) of
        (Some i, Some expiry) \<Rightarrow> s\<lparr>rp_intent := Some (i\<lparr>si_expires_at := expiry\<rparr>)\<rparr>
      | _ \<Rightarrow> s)"

definition replay_discovered :: "'v json_lib \<Rightarrow> 'v \<Rightarrow> replay \<Rightarrow> replay" where
  "replay_discovered J v s =
     (case u64_field J ''cgroup_id'' v of
        None \<Rightarrow> s
      | Some c \<Rightarrow> if c \<in> set (rp_cgroups s) then s else s\<lparr>rp_cgroups := rp_cgroups s @ [c]\<rparr>)"

definition replay_record :: "'v json_lib \<Rightarrow> 'v \<Rightarrow> replay \<Rightarrow> (string, replay) res" where
  "replay_record J v s =
     (case record_type J v of
        None \<Rightarrow> Inr s
      | Some t \<Rightarrow>
          (if t = ''intent_registered'' then replay_registered J v s
           else if t = ''intent_renewed'' then Inr (replay_renewed J v s)
           else if t = ''cgroup_discovered'' then Inr (replay_discovered J v s)
           else if t = ''session_closed'' then Inr (s\<lparr>rp_closed := True, rp_cgroups := []\<rparr>)
           else Inr s))"

fun replay_loop :: "'v json_lib \<Rightarrow> 'v list \<Rightarrow> replay \<Rightarrow> (string, replay) res" where
  "replay_loop J [] s = Inr s"
| "replay_loop J (v # vs) s =
     (case replay_record J v s of Inl e \<Rightarrow> Inl e | Inr s' \<Rightarrow> replay_loop J vs s')"

definition replay_result :: "u64 \<Rightarrow> replay \<Rightarrow> (session_intent \<times> u64 list) option" where
  "replay_result now s =
     (case rp_intent s of
        None \<Rightarrow> None
      | Some i \<Rightarrow>
          (if \<not> rp_closed s \<and> now < si_expires_at i then Some (i, sort (rp_cgroups s)) else None))"

definition replay_active_session ::
    "'v json_lib \<Rightarrow> 'v chain_record list \<Rightarrow> u64 \<Rightarrow> (string, (session_intent \<times> u64 list) option) res" where
  "replay_active_session J records now =
     map_sum id (replay_result now) (replay_loop J (map cr_payload records) replay_start)"

section \<open>Starting the daemon\<close>

text \<open>The loop over the cgroups of a restored session, left at the first error.\<close>

fun restore_cgroups :: "string \<Rightarrow> u64 list \<Rightarrow> session_registry \<Rightarrow> (string, session_registry) res" where
  "restore_cgroups sid [] r = Inr r"
| "restore_cgroups sid (c # cs) r =
     (case registry_discover sid c r of
        (Inl e, _) \<Rightarrow>
          Inl (''failed to restore cgroup '' @ dec_str (unat c) @ '' for session '' @ sid @ '': ''
               @ registry_error_str e)
      | (Inr _, r') \<Rightarrow> restore_cgroups sid cs r')"

record starting =
  sg_registry :: session_registry
  sg_stores :: "(string, hash_chain_store) bmap"
  sg_policies :: "(string, policy option) bmap"
  sg_issue :: bool

text \<open>The record of a quarantined tail.\<close>

definition append_integrity_finding ::
    "'v daemon_lib \<Rightarrow> string \<Rightarrow> string \<Rightarrow> string \<Rightarrow> nat \<Rightarrow> hash_chain_store
     \<Rightarrow> (string, unit) res \<times> hash_chain_store" where
  "append_integrity_finding L sid timeline quarantine valid_records s =
     append_flush L ''failed to serialize integrity finding: '' ''failed to append integrity finding: ''
       ''failed to flush integrity finding: ''
       (v_integrity_finding (dl_json L) sid timeline quarantine valid_records) s"

definition restore_session ::
    "daemon_env \<Rightarrow> u64 \<Rightarrow> string \<Rightarrow> (session_intent \<times> u64 list) option \<Rightarrow> starting \<Rightarrow> (string, starting) res" where
  "restore_session env now sid session g =
     (case session of
        None \<Rightarrow> Inr g
      | Some (intent, cgroups) \<Rightarrow>
          (case registry_register intent now (sg_registry g) of
             (Inl e, _) \<Rightarrow> Inl (''failed to restore session '' @ sid @ '': '' @ registry_error_str e)
           | (Inr _, r1) \<Rightarrow>
               (case restore_cgroups sid cgroups r1 of
                  Inl e \<Rightarrow> Inl e
                | Inr r2 \<Rightarrow>
                    Inr (g\<lparr>sg_registry := r2,
                           sg_policies :=
                             bm_insert sid (load_redaction_policy env (si_policy_ref intent)) (sg_policies g)\<rparr>))))"

text \<open>One directory of the scan: the session's name and the bytes of its timeline.\<close>

definition start_session ::
    "'v daemon_lib \<Rightarrow> daemon_env \<Rightarrow> string \<Rightarrow> u64 \<Rightarrow> string \<Rightarrow> string \<Rightarrow> starting
     \<Rightarrow> (string, starting) res" where
  "start_session L env sessions_dir now sid bytes g =
     (case create_or_recover (dl_chain L) (de_room env) (Some bytes) of
        Inl e \<Rightarrow> Inl (''failed to recover session '' @ sid @ '': '' @ store_error_str e)
      | Inr rc \<Rightarrow>
          (let timeline = session_timeline sessions_dir sid;
               quarantined = rc_quarantined rc \<noteq> None;
               (res, store) =
                 (if quarantined then
                    append_integrity_finding L sid timeline (de_quarantine_path env timeline)
                      (length (rc_records rc)) (rc_store rc)
                  else (Inr (), rc_store rc))
           in
             (case res of
                Inl e \<Rightarrow> Inl e
              | Inr _ \<Rightarrow>
                  (case replay_active_session (dl_json L) (rc_records rc) now of
                     Inl e \<Rightarrow> Inl e
                   | Inr session \<Rightarrow>
                       (case restore_session env now sid session
                               (g\<lparr>sg_issue := sg_issue g \<or> quarantined\<rparr>) of
                          Inl e \<Rightarrow> Inl e
                        | Inr g' \<Rightarrow> Inr (g'\<lparr>sg_stores := bm_insert sid store (sg_stores g')\<rparr>))))))"

fun start_all ::
    "'v daemon_lib \<Rightarrow> daemon_env \<Rightarrow> string \<Rightarrow> u64 \<Rightarrow> (string \<times> string) list \<Rightarrow> starting
     \<Rightarrow> (string, starting) res" where
  "start_all L env sessions_dir now [] g = Inr g"
| "start_all L env sessions_dir now ((sid, bytes) # rest) g =
     (case start_session L env sessions_dir now sid bytes g of
        Inl e \<Rightarrow> Inl e
      | Inr g' \<Rightarrow> start_all L env sessions_dir now rest g')"

text \<open>
  \<open>new_with_scope\<close>: \<open>entries\<close> is what the scan of the state directory finds, the directories
  with a timeline, in any order. That the scan itself works (the directory is made and read, the
  type of each entry is known) and that the clock is read are taken for granted: their errors end
  the start before any session is looked at.
\<close>

record start_config =
  sc_state_dir :: string
  sc_max_sessions :: nat
  sc_max_pending :: nat
  sc_queue_capacity :: nat
  sc_feedback :: bool
  sc_scope :: bool

definition daemon_new ::
    "'v daemon_lib \<Rightarrow> daemon_env \<Rightarrow> start_config \<Rightarrow> u64 \<Rightarrow> (string \<times> string) list
     \<Rightarrow> (string, daemon_state) res" where
  "daemon_new L env cfg now entries =
     (case start_all L env (path_join (sc_state_dir cfg) ''sessions'') now entries
             \<lparr>sg_registry = registry_new (sc_max_sessions cfg) (sc_max_pending cfg), sg_stores = [],
              sg_policies = [], sg_issue = False\<rparr> of
        Inl e \<Rightarrow> Inl e
      | Inr g \<Rightarrow>
          Inr \<lparr>ds_registry = sg_registry g,
               ds_health =
                 health_set_ebpf CsUnavailable
                   (health_set_storage (if sg_issue g then CsDegraded else CsReady)
                     (health_new (queue_stats_new (sc_queue_capacity cfg)))),
               ds_stores = sg_stores g, ds_files = [], ds_unlinked = [], ds_paused = [],
               ds_sessions_dir = path_join (sc_state_dir cfg) ''sessions'', ds_storage_writable = True,
               ds_scope = sc_scope cfg, ds_tracked = [], ds_policies = sg_policies g,
               ds_feedback = sc_feedback cfg\<rparr>)"

end
