(* ===== verification/Session_Replay.thy ===== *)
theory Session_Replay
  imports Daemon_State
begin

text \<open>
  Replaying the records of a session against the registry that wrote them: what each operation
  of the registry changes, seen as the intent, the status and the cgroups of each session, and
  that the record the daemon writes for the operation makes the same change when it is
  replayed.
\<close>

section \<open>What the registry says of a session\<close>

definition session_view :: "session_registry \<Rightarrow> string \<Rightarrow> (session_intent \<times> session_status) option" where
  "session_view r sid = map_option (\<lambda>st. (st_intent st, st_status st)) (session_at r sid)"

definition owned :: "session_registry \<Rightarrow> string \<Rightarrow> u64 set" where
  "owned r sid = {c. owner_of r c = Some sid}"

text \<open>Every pending cgroup is in the index.\<close>

definition pending_indexed :: "session_registry \<Rightarrow> bool" where
  "pending_indexed r \<longleftrightarrow> (\<forall>sid c. c \<in> set (pending_list r sid) \<longrightarrow> owner_of r c = Some sid)"

text \<open>A registry in which the cgroups a session lists are its own, or nobody's.\<close>

definition lists_own :: "session_registry \<Rightarrow> string \<Rightarrow> bool" where
  "lists_own r sid \<longleftrightarrow>
     (case session_at r sid of
        None \<Rightarrow> True
      | Some st \<Rightarrow> list_all (\<lambda>c. owner_of r c \<in> {None, Some sid}) (st_cgroup_ids st))"

lemma session_view_None: "session_view r sid = None \<longleftrightarrow> session_at r sid = None"
  by (simp add: session_view_def)

lemma session_view_put:
  "maps_wf r \<Longrightarrow> session_view (put_session sid st r) = (session_view r)(sid \<mapsto> (st_intent st, st_status st))"
  by (auto simp: session_view_def fun_eq_iff frame_simps dest: maps_wfD(1))

lemma inv_parts:
  "registry_inv r \<Longrightarrow> registry_wf r" "registry_inv r \<Longrightarrow> maps_wf r" "registry_inv r \<Longrightarrow> index_sound r"
  by (auto simp: registry_inv_def registry_wf_def)

text \<open>Only an active session, or one without an intent, owns cgroups.\<close>

lemma owned_active:
  assumes "index_sound r" and "session_view r sid = Some (i, status)" and "status \<noteq> StActive"
  shows "owned r sid = {}"
proof -
  from assms(2,3) obtain st where "session_at r sid = Some st" "st_status st \<noteq> StActive"
    by (auto simp: session_view_def)
  then have "\<not> holds_cgroup r sid c" for c by (simp add: holds_cgroup_def)
  with assms(1) show ?thesis by (auto simp: owned_def index_sound_upto_def)
qed

section \<open>Operations, as changes of the view\<close>

lemma attach_view:
  assumes wf: "maps_wf r" and ok: "attach_known_cgroup sid c r = (Inr (), r')"
  shows "session_view r' = session_view r" and "owner_of r' = (owner_of r)(c \<mapsto> sid)"
    and "sr_pending r' = sr_pending r"
proof -
  obtain st where st: "session_at r sid = Some st"
    and r': "r' = (put_session sid (st\<lparr>st_cgroup_ids := add_cgroup c (st_cgroup_ids st)\<rparr>) r)
                    \<lparr>sr_cgroup_index := bm_insert c sid (sr_cgroup_index r)\<rparr>"
    using ok by (cases rule: attach_cases [of r c sid]) auto
  have "session_view r' = session_view (put_session sid (st\<lparr>st_cgroup_ids := add_cgroup c (st_cgroup_ids st)\<rparr>) r)"
    by (simp add: r' session_view_def fun_eq_iff)
  also have "\<dots> = session_view r"
    using st by (simp add: session_view_put [OF wf] fun_eq_iff session_view_def)
  finally show "session_view r' = session_view r" .
  show "owner_of r' = (owner_of r)(c \<mapsto> sid)" using maps_wfD(2) [OF wf] by (simp add: r')
  show "sr_pending r' = sr_pending r" by (simp add: r' frame_simps)
qed

lemma attach_all_view:
  assumes "registry_wf r" and "attach_all sid cs r = (Inr (), r')"
  shows "session_view r' = session_view r"
    and "owner_of r' = (\<lambda>c. if c \<in> set cs then Some sid else owner_of r c)"
    and "sr_pending r' = sr_pending r"
proof -
  have "session_view r' = session_view r \<and> sr_pending r' = sr_pending r
      \<and> owner_of r' = (\<lambda>c. if c \<in> set cs then Some sid else owner_of r c)"
    using assms
  proof (induction cs arbitrary: r)
    case Nil
    then show ?case by simp
  next
    case (Cons c cs)
    then obtain r1 where r1: "attach_known_cgroup sid c r = (Inr (), r1)" "attach_all sid cs r1 = (Inr (), r')"
      by (auto split: prod.splits sum.splits)
    have "registry_wf r1" using attach_wf [OF Cons.prems(1), of sid c] r1(1) by simp
    with Cons.IH r1(2) attach_view [OF registry_wfD(1) [OF Cons.prems(1)] r1(1)] show ?case
      by (auto simp: fun_eq_iff)
  qed
  then show "session_view r' = session_view r" "sr_pending r' = sr_pending r"
    "owner_of r' = (\<lambda>c. if c \<in> set cs then Some sid else owner_of r c)" by blast+
qed

lemma register_view:
  assumes inv: "registry_inv r" and pend: "pending_indexed r"
    and ok: "registry_register i now r = (Inr outcome, r')"
  shows "session_view r' = (session_view r)(si_session_id i \<mapsto> (i, StActive))"
    and "owner_of r' = owner_of r" and "pending_indexed r'" and "validate_intent i now = Inr ()"
proof -
  let ?sid = "si_session_id i" and ?st = "intent_session i r"
  let ?cs = "pending_list r ?sid" and ?r1 = "registered ?sid ?st r"
  note wf = inv_parts(1) [OF inv] and mwf = inv_parts(2) [OF inv]
  have room: "session_at r ?sid \<noteq> None \<or> length (sr_sessions r) < sr_max_sessions r"
    and att: "attach_all ?sid ?cs ?r1 = (Inr (), r')"
    using ok by (cases rule: register_cases [of i now r];
      auto simp: pending_list_def split: prod.splits sum.splits option.splits)+
  have st: "st_intent ?st = i" "st_status ?st = StActive"
    by (auto simp: intent_session_def session_state_new_def split: option.splits)
  have wf1: "registry_wf ?r1" by (rule registered_wf [OF wf session_wf_intent_session [OF mwf] room])
  have "session_view ?r1 = session_view (put_session ?sid ?st r)"
    by (simp add: registered_def session_view_def fun_eq_iff)
  then show "session_view r' = (session_view r)(?sid \<mapsto> (i, StActive))"
    using attach_all_view(1) [OF wf1 att] st by (simp add: session_view_put [OF mwf])
  have idx: "owner_of ?r1 = owner_of r" by (simp add: registered_def frame_simps)
  have own: "owner_of r c = Some ?sid" if "c \<in> set ?cs" for c
    using that pend by (simp add: pending_indexed_def)
  then show o: "owner_of r' = owner_of r"
    using attach_all_view(2) [OF wf1 att] by (auto simp: idx fun_eq_iff)
  have "sr_pending r' = bm_remove ?sid (sr_pending r)"
    using attach_all_view(3) [OF wf1 att] by (simp add: registered_def frame_simps)
  then have "set (pending_list r' s) \<subseteq> set (pending_list r s)" for s
    by (auto simp: pending_list_def split: option.splits if_splits)
  with pend show "pending_indexed r'" by (auto simp: pending_indexed_def o)
  show "validate_intent i now = Inr ()"
    using ok by (auto simp: registry_register_def split: sum.splits)
qed

lemma renew_view:
  assumes inv: "registry_inv r" and pend: "pending_indexed r"
    and ok: "registry_renew sid expires now r = (Inr (), r')"
    and act: "\<forall>i status. session_view r sid = Some (i, status) \<longrightarrow> status \<in> {StActive, StClosed}"
  obtains i where "session_view r sid = Some (i, StActive)"
    "session_view r' = (session_view r)(sid \<mapsto> (i\<lparr>si_expires_at := expires\<rparr>, StActive))"
    "owner_of r' = owner_of r" "pending_indexed r'"
proof (cases rule: renew_cases [of sid expires now r])
  case (renewed st)
  let ?st = "st\<lparr>st_expires_at := expires, st_intent := (st_intent st)\<lparr>si_expires_at := expires\<rparr>,
      st_status := StActive\<rparr>"
  have r': "r' = put_session sid ?st r" using ok renewed(4) by simp
  show ?thesis
  proof (rule that)
    show "session_view r sid = Some (st_intent st, StActive)"
      using renewed(1,2) act by (auto simp: session_view_def)
    show "session_view r' = (session_view r)(sid \<mapsto> ((st_intent st)\<lparr>si_expires_at := expires\<rparr>, StActive))"
      by (simp add: r' session_view_put [OF inv_parts(2) [OF inv]])
    show "owner_of r' = owner_of r" "pending_indexed r'"
      using pend by (simp_all add: r' frame_simps pending_indexed_def pending_list_def)
  qed
qed (use ok in simp)

lemma lists_own_clears:
  assumes "index_sound r" and "lists_own r sid" and "session_at r sid = Some st"
  shows "(\<lambda>c. if c \<in> set (st_cgroup_ids st) then None else owner_of r c) =
    (\<lambda>c. if owner_of r c = Some sid then None else owner_of r c)"
proof
  fix c
  have "owner_of r c = None \<or> owner_of r c = Some sid" if "c \<in> set (st_cgroup_ids st)"
    using that assms(2,3) by (auto simp: lists_own_def list_all_iff)
  moreover have "c \<in> set (st_cgroup_ids st)" if "owner_of r c = Some sid"
    using that assms(1,3) by (auto simp: index_sound_upto_def holds_cgroup_def split: option.splits)
  ultimately show "(if c \<in> set (st_cgroup_ids st) then None else owner_of r c) =
      (if owner_of r c = Some sid then None else owner_of r c)" by auto
qed

lemma pending_indexed_frees:
  assumes "maps_wf r" and "pending_indexed r" and "sr_pending r' = sr_pending r"
    and "\<And>c a. owner_of r c = Some a \<Longrightarrow> session_at r a = None \<Longrightarrow> owner_of r' c = Some a"
  shows "pending_indexed r'"
proof -
  have "session_at r sid = None" if "c \<in> set (pending_list r sid)" for sid c
    using that maps_wfD(7) [OF assms(1), of sid] by (cases "pending_at r sid") (auto simp: pending_list_def)
  then show ?thesis
    using assms(2-4) by (auto simp: pending_indexed_def pending_list_def)
qed

lemma close_view:
  assumes inv: "registry_inv r" and pend: "pending_indexed r" and own: "lists_own r sid"
    and ok: "registry_close sid r = (Inr closed, r')"
  obtains i status where "session_view r sid = Some (i, status)"
    "session_view r' = (session_view r)(sid \<mapsto> (i, StClosed))"
    "owner_of r' = (\<lambda>c. if owner_of r c = Some sid then None else owner_of r c)" "pending_indexed r'"
proof -
  note wf = inv_parts(1) [OF inv]
  have r': "r' = snd (registry_deactivate sid StClosed r)"
    using ok snd_deactivate_and_get [of StClosed sid r] by (simp add: registry_close_def)
  obtain st where st: "session_at r sid = Some st"
    using ok by (auto simp: registry_close_def deactivate_and_get_def registry_deactivate_def
        split: option.splits prod.splits)
  have o: "owner_of r' = (\<lambda>c. if owner_of r c = Some sid then None else owner_of r c)"
    using deactivate_owner [OF wf, of sid StClosed] st lists_own_clears [OF inv_parts(3) [OF inv] own st]
    by (auto simp: r' fun_eq_iff)
  show ?thesis
  proof (rule that [of "st_intent st" "st_status st"])
    show "session_view r sid = Some (st_intent st, st_status st)" by (simp add: session_view_def st)
    show "session_view r' = (session_view r)(sid \<mapsto> (st_intent st, StClosed))"
      using st by (auto simp: r' session_view_def fun_eq_iff deactivate_session [OF wf])
    show "pending_indexed r'"
      by (rule pending_indexed_frees [OF inv_parts(2) [OF inv] pend])
        (use st in \<open>auto simp: r' deactivate_pending o [unfolded r']\<close>)
  qed (rule o)
qed

lemma discover_view:
  assumes inv: "registry_inv r" and pend: "pending_indexed r"
    and ok: "registry_discover sid c r = (Inr outcome, r')"
  shows "session_view r' = session_view r" and "owner_of r' = (owner_of r)(c \<mapsto> sid)"
    and "pending_indexed r'"
    and "session_view r sid = Some (i, status) \<Longrightarrow> status = StActive"
proof -
  note wf = inv_parts(1) [OF inv] and mwf = inv_parts(2) [OF inv]
  have free: "owner_of r c \<in> {None, Some sid}"
    using ok by (auto simp: registry_discover_def registry_associate_def attach_known_cgroup_def
        ensure_cgroup_available_def split: if_splits option.splits sum.splits prod.splits)
  have "session_view r' = session_view r \<and> owner_of r' = (owner_of r)(c \<mapsto> sid) \<and> pending_indexed r'
      \<and> (\<forall>i status. session_view r sid = Some (i, status) \<longrightarrow> status = StActive)"
  proof (cases "session_at r sid")
    case (Some st)
    then have a: "st_status st = StActive" "attach_known_cgroup sid c r = (Inr (), r')"
      using ok by (auto simp: registry_discover_def registry_associate_def
          split: if_splits option.splits sum.splits prod.splits)
    note v = attach_view [OF mwf a(2)]
    have "pending_indexed r'"
      using v free by (intro pending_indexed_frees [OF mwf pend]) (auto simp: Some)
    with v a(1) Some show ?thesis by (simp add: session_view_def)
  next
    case None
    show ?thesis
    proof (cases "c \<in> set (pending_list r sid)")
      case True
      then have "r' = r"
        using ok None discover_again_same [OF mwf True]
        by (auto simp: registry_discover_def pending_list_def Let_def split: if_splits option.splits sum.splits)
      moreover have "owner_of r c = Some sid" using True pend by (simp add: pending_indexed_def)
      ultimately show ?thesis using pend None by (auto simp: fun_eq_iff session_view_def)
    next
      case False
      then have r': "r' = with_pending sid c r"
        using ok None
        by (auto simp: registry_discover_def with_pending_def pending_list_def Let_def
            split: if_splits option.splits sum.splits)
      have "owner_of r' = (owner_of r)(c \<mapsto> sid)"
        using maps_wfD(2) [OF mwf] by (simp add: r' with_pending_def)
      moreover have "pending_list r' s = (if s = sid then add_cgroup c (pending_list r sid) else pending_list r s)" for s
        using maps_wfD(3) [OF mwf] by (simp add: r' with_pending_def pending_list_def)
      ultimately have "pending_indexed r'"
        using pend free by (auto simp: pending_indexed_def)
      moreover have "session_view r' = session_view r"
        by (simp add: r' with_pending_def session_view_def fun_eq_iff)
      moreover have "owner_of r' = (owner_of r)(c \<mapsto> sid)" by fact
      ultimately show ?thesis using None by (simp add: session_view_def)
    qed
  qed
  then show "session_view r' = session_view r" "owner_of r' = (owner_of r)(c \<mapsto> sid)"
    "pending_indexed r'" "session_view r sid = Some (i, status) \<Longrightarrow> status = StActive" by blast+
qed

text \<open>The sessions retention purges; all of them list only cgroups of their own.\<close>

definition purged_by :: "session_registry \<Rightarrow> string \<Rightarrow> u64 \<Rightarrow> string list" where
  "purged_by r tenant now = pr_eligible (retention_purge_report r tenant now False)"

lemma purged_view:
  assumes inv: "registry_inv r" and pend: "pending_indexed r" and own: "lists_own r sid"
    and st: "session_at r sid = Some st"
  shows "session_view (purged_registry sid r) = (session_view r)(sid := None)"
    and "owner_of (purged_registry sid r) = (\<lambda>c. if owner_of r c = Some sid then None else owner_of r c)"
    and "pending_indexed (purged_registry sid r)"
proof -
  show "session_view (purged_registry sid r) = (session_view r)(sid := None)"
    by (simp add: session_view_def fun_eq_iff purged_session)
  show o: "owner_of (purged_registry sid r) = (\<lambda>c. if owner_of r c = Some sid then None else owner_of r c)"
    using purged_owner [OF inv_parts(1) [OF inv], of sid] st lists_own_clears [OF inv_parts(3) [OF inv] own st]
    by (auto simp: fun_eq_iff)
  show "pending_indexed (purged_registry sid r)"
    by (rule pending_indexed_frees [OF inv_parts(2) [OF inv] pend purged_pending]) (use st in \<open>auto simp: o\<close>)
qed

lemma purged_inv: "registry_inv r \<Longrightarrow> registry_inv (purged_registry sid r)"
  by (simp add: registry_inv_def purged_wf purged_sound)

lemma purge_all_view:
  "registry_inv r \<Longrightarrow> pending_indexed r \<Longrightarrow> list_all (lists_own r) sids \<Longrightarrow> distinct sids \<Longrightarrow>
   (\<forall>sid\<in>set sids. session_at r sid \<noteq> None) \<Longrightarrow>
   session_view (fold purged_registry sids r) = (\<lambda>s. if s \<in> set sids then None else session_view r s)
   \<and> owner_of (fold purged_registry sids r) =
        (\<lambda>c. case owner_of r c of Some a \<Rightarrow> if a \<in> set sids then None else Some a | None \<Rightarrow> None)
   \<and> pending_indexed (fold purged_registry sids r)"
proof (induction sids arbitrary: r)
  case Nil
  then show ?case by (simp add: fun_eq_iff split: option.splits)
next
  case (Cons sid sids)
  then obtain st where st: "session_at r sid = Some st" by auto
  note v = purged_view [OF Cons.prems(1,2) _ st]
  have own: "lists_own r sid" using Cons.prems(3) by simp
  have "list_all (lists_own (purged_registry sid r)) sids"
    unfolding list_all_iff
  proof
    fix s assume s: "s \<in> set sids"
    then have "lists_own r s" using Cons.prems(3) by (simp add: list_all_iff)
    moreover have "s \<noteq> sid" using s Cons.prems(4) by auto
    ultimately show "lists_own (purged_registry sid r) s"
      by (auto simp: lists_own_def purged_session v(2) [OF own] list_all_iff split: option.splits)
  qed
  moreover have "\<forall>s\<in>set sids. session_at (purged_registry sid r) s \<noteq> None"
    using Cons.prems(4,5) by (auto simp: purged_session)
  ultimately have "session_view (fold purged_registry sids (purged_registry sid r)) =
      (\<lambda>s. if s \<in> set sids then None else session_view (purged_registry sid r) s)
    \<and> owner_of (fold purged_registry sids (purged_registry sid r)) =
      (\<lambda>c. case owner_of (purged_registry sid r) c of
             Some a \<Rightarrow> if a \<in> set sids then None else Some a | None \<Rightarrow> None)
    \<and> pending_indexed (fold purged_registry sids (purged_registry sid r))"
    using Cons.prems(4) by (intro Cons.IH purged_inv Cons.prems(1) v(3) [OF own]) simp_all
  then show ?case
    by (auto simp: fun_eq_iff v(1,2) [OF own] split: option.splits)
qed

lemma purged_by_sessions:
  assumes "registry_inv r"
  shows "distinct (purged_by r t now)" and "sid \<in> set (purged_by r t now) \<Longrightarrow> session_at r sid \<noteq> None"
proof -
  have wf: "bm_wf (sr_sessions r)" using maps_wfD(1) [OF inv_parts(2) [OF assms]] .
  show "distinct (purged_by r t now)"
    using bm_distinct_keys [OF wf] by (auto simp: purged_by_def report_eligible distinct_map_filter)
  show "sid \<in> set (purged_by r t now) \<Longrightarrow> session_at r sid \<noteq> None"
  proof -
    assume "sid \<in> set (purged_by r t now)"
    then have "sid \<in> fst ` set (sr_sessions r)" by (auto simp: purged_by_def report_eligible)
    then show ?thesis by (simp add: map_of_eq_None_iff)
  qed
qed

lemma retention_view:
  assumes inv: "registry_inv r" and pend: "pending_indexed r"
    and own: "list_all (lists_own r) (purged_by r t now)"
  shows "session_view (snd (apply_retention t now r)) =
      (\<lambda>s. if s \<in> set (purged_by r t now) then None else session_view r s)"
    and "owner_of (snd (apply_retention t now r)) =
      (\<lambda>c. case owner_of r c of Some a \<Rightarrow> if a \<in> set (purged_by r t now) then None else Some a | None \<Rightarrow> None)"
    and "pending_indexed (snd (apply_retention t now r))"
    and "pr_purged (fst (apply_retention t now r)) = purged_by r t now"
  using purge_all_view [OF inv pend own] purged_by_sessions [OF inv, where t = t and now = now]
    retention_purged [OF inv_parts(1) [OF inv], of t now] apply_retention_parts
  by (simp_all add: purged_by_def)

section \<open>What a replay has restored\<close>

definition mirrors :: "session_registry \<Rightarrow> string \<Rightarrow> replay \<Rightarrow> bool" where
  "mirrors r sid s \<longleftrightarrow>
     set (rp_cgroups s) = owned r sid \<and> distinct (rp_cgroups s) \<and>
     (case session_view r sid of
        None \<Rightarrow> rp_intent s = None \<and> \<not> rp_closed s
      | Some (i, status) \<Rightarrow>
          rp_intent s = Some i \<and> status \<in> {StActive, StClosed} \<and> (rp_closed s \<longleftrightarrow> status = StClosed)
          \<and> (\<exists>t. validate_intent i t = Inr ()))"

definition replays :: "'v json_lib \<Rightarrow> 'v list \<Rightarrow> session_registry \<Rightarrow> string \<Rightarrow> bool" where
  "replays J vs r sid \<longleftrightarrow> (\<exists>s. replay_loop J vs replay_start = Inr s \<and> mirrors r sid s)"

lemma mirrors_cong:
  "session_view r' sid = session_view r sid \<Longrightarrow> owned r' sid = owned r sid \<Longrightarrow>
   mirrors r' sid s = mirrors r sid s"
  by (simp add: mirrors_def)

lemma replays_cong:
  "session_view r' sid = session_view r sid \<Longrightarrow> owned r' sid = owned r sid \<Longrightarrow>
   replays J vs r' sid = replays J vs r sid"
  by (simp add: replays_def mirrors_def)

lemma replay_loop_append:
  "replay_loop J (us @ vs) s =
     (case replay_loop J us s of Inl e \<Rightarrow> Inl e | Inr s' \<Rightarrow> replay_loop J vs s')"
  by (induction us arbitrary: s) (simp_all split: sum.splits)

lemma replays_snoc:
  assumes "replays J vs r sid"
    and "\<And>s. mirrors r sid s \<Longrightarrow> \<exists>s'. replay_record J v s = Inr s' \<and> mirrors r' sid s'"
  shows "replays J (vs @ [v]) r' sid"
proof -
  from assms(1) obtain s where s: "replay_loop J vs replay_start = Inr s" "mirrors r sid s"
    by (auto simp: replays_def)
  from assms(2) [OF s(2)] obtain s' where "replay_record J v s = Inr s'" "mirrors r' sid s'" by blast
  with s(1) show ?thesis by (simp add: replays_def replay_loop_append)
qed

definition journal_types :: "string list" where
  "journal_types = [''intent_registered'', ''intent_renewed'', ''cgroup_discovered'', ''session_closed'']"

definition inert :: "'v json_lib \<Rightarrow> 'v \<Rightarrow> bool" where
  "inert J v \<longleftrightarrow> (case record_type J v of None \<Rightarrow> True | Some t \<Rightarrow> t \<notin> set journal_types)"

lemma replay_inert: "inert J v \<Longrightarrow> replay_record J v s = Inr s"
  by (cases "record_type J v") (simp_all add: inert_def journal_types_def replay_record_def)

lemma replays_inert: "replays J vs r sid \<Longrightarrow> inert J v \<Longrightarrow> replays J (vs @ [v]) r sid"
  by (rule replays_snoc) (auto simp: replay_inert)

section \<open>The records the daemon writes\<close>

text \<open>The law of objects at the keys of a record; \<open>json!\<close> never repeats one.\<close>

lemma record_fields:
  assumes J: "json_laws J"
  shows "record_type J (v_intent_registered J i) = Some ''intent_registered''"
    and "jl_get J (v_intent_registered J i) ''intent'' = Some (jl_of_intent J i)"
    and "record_type J (v_intent_renewed J sid e) = Some ''intent_renewed''"
    and "u64_field J ''expires_at_unix_ms'' (v_intent_renewed J sid e) = Some e"
    and "record_type J (v_session_closed J sid) = Some ''session_closed''"
    and "record_type J (v_cgroup_discovered J sid c oc) = Some ''cgroup_discovered''"
    and "u64_field J ''cgroup_id'' (v_cgroup_discovered J sid c oc) = Some c"
    and "record_type J (v_runtime_workload J w oc) = Some ''runtime_workload_discovered''"
    and "record_type J (v_integrity_finding J sid path q n) = Some ''integrity_finding''"
  by (simp_all add: record_type_def u64_field_def json_lawsD(1-3) [OF J] v_intent_registered_def
      v_intent_renewed_def v_session_closed_def v_cgroup_discovered_def v_runtime_workload_def
      v_integrity_finding_def)

lemma finding_inert:
  assumes J: "json_laws J" and f: "finding_payload J f = Inr v"
  shows "inert J v"
proof -
  obtain u where "jl_insert J ''record_type'' (jl_string J ''accountability_finding'') u = Some v"
    using f by (auto simp: finding_payload_def split: sum.splits option.splits)
  then have "record_type J v = Some ''accountability_finding''"
    by (simp add: record_type_def json_lawsD(2,4) [OF J])
  then show ?thesis by (simp add: inert_def journal_types_def)
qed

lemma runtime_inert: "json_laws J \<Longrightarrow> inert J (v_runtime_workload J w oc)"
  by (simp add: inert_def journal_types_def record_fields(8))

lemma replay_register:
  assumes J: "json_laws J" and inv: "registry_inv r" and pend: "pending_indexed r"
    and ok: "registry_register i now r = (Inr outcome, r')"
    and s: "mirrors r (si_session_id i) s"
  shows "\<exists>s'. replay_record J (v_intent_registered J i) s = Inr s' \<and> mirrors r' (si_session_id i) s'"
proof -
  note v = register_view [OF inv pend ok]
  define cs where "cs = (if rp_closed s then [] else rp_cgroups s)"
  have "set cs = owned r (si_session_id i)" "distinct cs"
    using s owned_active [OF inv_parts(3) [OF inv]]
    by (auto simp: cs_def mirrors_def split: option.splits prod.splits)
  moreover have "replay_record J (v_intent_registered J i) s =
      Inr \<lparr>rp_intent = Some i, rp_cgroups = cs, rp_closed = False\<rparr>"
    by (simp add: replay_record_def record_fields(1,2) [OF J] replay_registered_def json_lawsD(5) [OF J]
        cs_def Let_def)
  ultimately show ?thesis using v by (auto simp: mirrors_def owned_def)
qed

lemma replay_renew:
  assumes J: "json_laws J" and inv: "registry_inv r" and pend: "pending_indexed r"
    and ok: "registry_renew sid expires now r = (Inr (), r')"
    and s: "mirrors r sid s"
  shows "\<exists>s'. replay_record J (v_intent_renewed J sid expires) s = Inr s' \<and> mirrors r' sid s'"
proof -
  have act: "\<forall>i status. session_view r sid = Some (i, status) \<longrightarrow> status \<in> {StActive, StClosed}"
    using s by (auto simp: mirrors_def)
  obtain i where v: "session_view r sid = Some (i, StActive)"
    "session_view r' = (session_view r)(sid \<mapsto> (i\<lparr>si_expires_at := expires\<rparr>, StActive))"
    "owner_of r' = owner_of r"
    using renew_view [OF inv pend ok act] by blast
  have i: "rp_intent s = Some i" and valid: "\<exists>t. validate_intent i t = Inr ()"
    using s v(1) by (auto simp: mirrors_def)
  have "validate_intent (i\<lparr>si_expires_at := expires\<rparr>) now = Inr ()"
    using valid ok by (auto simp: validate_intent_iff registry_renew_def split: if_splits)
  moreover have "replay_record J (v_intent_renewed J sid expires) s =
      Inr (s\<lparr>rp_intent := Some (i\<lparr>si_expires_at := expires\<rparr>)\<rparr>)"
    by (simp add: replay_record_def record_fields(3,4) [OF J] replay_renewed_def i)
  ultimately show ?thesis using s v by (auto simp: mirrors_def owned_def)
qed

lemma replay_close:
  assumes J: "json_laws J" and inv: "registry_inv r" and pend: "pending_indexed r"
    and own: "lists_own r sid" and ok: "registry_close sid r = (Inr closed, r')"
    and s: "mirrors r sid s"
  shows "\<exists>s'. replay_record J (v_session_closed J sid) s = Inr s' \<and> mirrors r' sid s'"
proof -
  obtain i status where v: "session_view r sid = Some (i, status)"
    "session_view r' = (session_view r)(sid \<mapsto> (i, StClosed))"
    "owner_of r' = (\<lambda>c. if owner_of r c = Some sid then None else owner_of r c)"
    using close_view [OF inv pend own ok] by blast
  have "replay_record J (v_session_closed J sid) s = Inr (s\<lparr>rp_closed := True, rp_cgroups := []\<rparr>)"
    by (simp add: replay_record_def record_fields(5) [OF J])
  then show ?thesis using s v by (auto simp: mirrors_def owned_def)
qed

lemma replay_discover:
  assumes J: "json_laws J" and inv: "registry_inv r" and pend: "pending_indexed r"
    and ok: "registry_discover sid c r = (Inr outcome, r')"
    and s: "mirrors r sid s"
  shows "\<exists>s'. replay_record J (v_cgroup_discovered J sid c outcome) s = Inr s' \<and> mirrors r' sid s'"
proof -
  note v = discover_view(1,2) [OF inv pend ok]
  have "replay_record J (v_cgroup_discovered J sid c outcome) s =
      Inr (if c \<in> set (rp_cgroups s) then s else s\<lparr>rp_cgroups := rp_cgroups s @ [c]\<rparr>)"
    by (simp add: replay_record_def record_fields(6,7) [OF J] replay_discovered_def)
  moreover have "owned r' sid = insert c (owned r sid)" by (auto simp: v(2) owned_def)
  ultimately show ?thesis
    using s by (cases "c \<in> set (rp_cgroups s)") (auto simp: mirrors_def v(1) split: option.splits)
qed

section \<open>A step of the registry and its record\<close>

text \<open>
  The registry moves from \<open>r\<close> to \<open>r'\<close> and \<open>v\<close>, in the timeline of \<open>sid\<close>, says how: replayed
  it restores what the registry now says of \<open>sid\<close>, and of no other session has anything
  changed.
\<close>

definition journal_step :: "'v json_lib \<Rightarrow> string \<Rightarrow> 'v \<Rightarrow> session_registry \<Rightarrow> session_registry \<Rightarrow> bool" where
  "journal_step J sid v r r' \<longleftrightarrow>
     registry_inv r' \<and> pending_indexed r' \<and> limits r' = limits r
     \<and> (\<forall>x. x \<noteq> sid \<longrightarrow> session_view r' x = session_view r x \<and> owned r' x = owned r x)
     \<and> (\<forall>s. mirrors r sid s \<longrightarrow> (\<exists>s'. replay_record J v s = Inr s' \<and> mirrors r' sid s'))"

lemma journal_step_inert:
  assumes "registry_inv r" "pending_indexed r" "inert J v"
  shows "journal_step J sid v r r"
  using assms by (simp add: journal_step_def replay_inert)

lemma journal_step_replays:
  assumes step: "journal_step J sid v r r'" and H: "\<And>x. replays J (H x) r x"
  shows "replays J ((H(sid := H sid @ [v])) x) r' x"
proof (cases "x = sid")
  case True
  then show ?thesis
    using replays_snoc [OF H [of sid], of v r'] step by (simp add: journal_step_def)
next
  case False
  then show ?thesis
    using H [of x] step replays_cong [of r' x r J "H x"] by (simp add: journal_step_def)
qed

text \<open>The invariant after an operation of the registry that succeeds, from the machine's lemmas.\<close>

lemma step_inv:
  assumes "registry_inv r" and "is_ok (fst (registry_step x r))"
  shows "registry_inv (snd (registry_step x r))" and "limits (snd (registry_step x r)) = limits r"
  using assms step_wf [OF inv_parts(1) [OF assms(1)]] step_sound [OF assms] step_limits
  by (simp_all add: registry_inv_def)

lemma register_journal:
  assumes J: "json_laws J" and inv: "registry_inv r" and pend: "pending_indexed r"
    and ok: "registry_register i now r = (Inr outcome, r')"
  shows "journal_step J (si_session_id i) (v_intent_registered J i) r r'"
  using step_inv [OF inv, of "OpRegister i now"] register_view [OF inv pend ok] ok
    replay_register [OF J inv pend ok]
  by (simp add: journal_step_def owned_def)

lemma renew_journal:
  assumes J: "json_laws J" and inv: "registry_inv r" and pend: "pending_indexed r"
    and act: "\<forall>i status. session_view r sid = Some (i, status) \<longrightarrow> status \<in> {StActive, StClosed}"
    and ok: "registry_renew sid expires now r = (Inr (), r')"
  shows "journal_step J sid (v_intent_renewed J sid expires) r r'"
proof -
  obtain i where "session_view r' = (session_view r)(sid \<mapsto> (i\<lparr>si_expires_at := expires\<rparr>, StActive))"
    "owner_of r' = owner_of r" "pending_indexed r'"
    using renew_view [OF inv pend ok act] by blast
  with step_inv [OF inv, of "OpRenew sid expires now"] ok replay_renew [OF J inv pend ok]
  show ?thesis by (simp add: journal_step_def owned_def)
qed

lemma close_journal:
  assumes J: "json_laws J" and inv: "registry_inv r" and pend: "pending_indexed r"
    and own: "lists_own r sid" and ok: "registry_close sid r = (Inr closed, r')"
  shows "journal_step J sid (v_session_closed J sid) r r'"
proof -
  obtain i where "session_view r' = (session_view r)(sid \<mapsto> (i, StClosed))"
    "owner_of r' = (\<lambda>c. if owner_of r c = Some sid then None else owner_of r c)" "pending_indexed r'"
    using close_view [OF inv pend own ok] by blast
  with step_inv [OF inv, of "OpClose sid"] ok replay_close [OF J inv pend own ok]
  show ?thesis by (auto simp: journal_step_def owned_def)
qed

lemma discover_journal:
  assumes J: "json_laws J" and inv: "registry_inv r" and pend: "pending_indexed r"
    and ok: "registry_discover sid c r = (Inr outcome, r')"
  shows "journal_step J sid (v_cgroup_discovered J sid c outcome) r r'"
proof -
  have "owner_of r c \<in> {None, Some sid}"
    using discover_keeps [OF inv_parts(1) [OF inv], of c _ sid c] ok discover_view(2) [OF inv pend ok]
    by (cases "owner_of r c") auto
  then have "owned r' x = owned r x" if "x \<noteq> sid" for x
    using that discover_view(2) [OF inv pend ok] by (auto simp: owned_def)
  with step_inv [OF inv, of "OpDiscover sid c"] ok discover_view(1,3) [OF inv pend ok]
    replay_discover [OF J inv pend ok]
  show ?thesis by (simp add: journal_step_def)
qed

end
