(* ===== verification/Daemon_Journal.thy ===== *)
theory Daemon_Journal
  imports Session_Replay Policy_Matching
begin

text \<open>
  The timelines as the journal of the daemon: every operation that changes the registry has
  put a record on the disk before it returns, a failed write leaves a beginning of its line
  at most, and replaying the disk gives what the registry says.
\<close>

section \<open>What a timeline on the disk holds\<close>

definition bytes_hold :: "'v chain_lib \<Rightarrow> string \<Rightarrow> 'v list \<Rightarrow> bool" where
  "bytes_hold C b vs \<longleftrightarrow>
     (\<exists>ls t sc. b = unlines ls @ t \<and> list_all one_line ls \<and> one_line t
        \<and> scan_lines C ls scan_start = (sc, []) \<and> map cr_payload (cs_records sc) = vs)"

text \<open>A store all of whose records are on the disk.\<close>

definition store_flushed :: "'v chain_lib \<Rightarrow> hash_chain_store \<Rightarrow> 'v list \<Rightarrow> bool" where
  "store_flushed C s vs \<longleftrightarrow>
     bw_buffer (hs_writer s) = []
     \<and> (\<exists>ls sc. store_holds C ls sc s \<and> map cr_payload (cs_records sc) = vs)"

lemma store_flushed_disk: "store_flushed C s vs \<Longrightarrow> bytes_hold C (bw_disk (hs_writer s)) vs"
proof -
  assume "store_flushed C s vs"
  then obtain ls sc where "bw_buffer (hs_writer s) = []" "store_holds C ls sc s"
    "map cr_payload (cs_records sc) = vs" by (auto simp: store_flushed_def)
  then show ?thesis
    unfolding bytes_hold_def
    by (intro exI [of _ ls] exI [of _ "[]"] exI [of _ sc]) (simp add: store_holds_def bw_stream_def)
qed

lemma store_flushed_room [simp]: "store_flushed C (with_room n s) vs = store_flushed C s vs"
  by (simp add: store_flushed_def with_room_def store_holds_def bw_stream_def)

lemma bytes_hold_recover:
  assumes "bytes_hold C b vs"
  obtains rc where "create_or_recover C room (Some b) = Inr rc" "map cr_payload (rc_records rc) = vs"
    "store_flushed C (rc_store rc) vs"
proof -
  from assms obtain ls t sc where b: "b = unlines ls @ t" "list_all one_line ls" "one_line t"
    "scan_lines C ls scan_start = (sc, [])" "map cr_payload (cs_records sc) = vs"
    by (auto simp: bytes_hold_def)
  have "store_holds C ls sc (rc_store (recovered sc room ls t))"
    by (rule recovered_holds [OF b(2,4)])
  moreover have "bw_buffer (hs_writer (rc_store (recovered sc room ls t))) = []"
    by (simp add: recovered_def bw_new_def)
  ultimately have "store_flushed C (rc_store (recovered sc room ls t)) vs"
    using b(5) by (auto simp: store_flushed_def)
  moreover have "map cr_payload (rc_records (recovered sc room ls t)) = vs"
    using b(5) by (simp add: recovered_def)
  ultimately show ?thesis
    using recover_valid [OF b(2,3,4), of room] b(1) that by blast
qed

lemma fresh_store:
  obtains rc where "create_or_recover C room None = Inr rc" "store_flushed C (rc_store rc) []"
proof -
  have "bytes_hold C [] []" by (auto simp: bytes_hold_def scan_start_def intro: exI [of _ "[]"])
  moreover have "create_or_recover C room None = create_or_recover C room (Some [])"
    by (simp add: create_or_recover_def)
  ultimately show ?thesis using bytes_hold_recover that by metis
qed

section \<open>Writing a record\<close>

lemma chain_flush_iff:
  "chain_flush s = (Inr u, s') \<longleftrightarrow> (\<exists>w. bw_flush (hs_writer s) = (Inr (), w) \<and> s' = s\<lparr>hs_writer := w\<rparr>)"
  "chain_flush s = (Inl e, s') \<longleftrightarrow>
     (\<exists>w y. bw_flush (hs_writer s) = (Inl y, w) \<and> e = StoreIo y \<and> s' = s\<lparr>hs_writer := w\<rparr>)"
  by (cases "bw_flush (hs_writer s)"; cases "fst (bw_flush (hs_writer s))"; force simp: chain_flush_def)+

lemma append_json_grows:
  "prefix (bw_disk (hs_writer s)) (bw_disk (hs_writer (snd (append_json C version p s))))"
proof (cases rule: append_cases [of C version p s])
  case (written payload canonical r line)
  show ?thesis
    using bw.write_list_grows [of "hs_writer s" "[line, [ch_nl]]"]
    by (cases "bw.write_list [line, [ch_nl]] (hs_writer s)") (auto simp: written(9) split: sum.splits)
qed simp

lemma append_flush_grows:
  "append_flush L m1 m2 m3 v s = (res, s') \<Longrightarrow> prefix (bw_disk (hs_writer s)) (bw_disk (hs_writer s'))"
proof -
  have f: "prefix (bw_disk (hs_writer s)) (bw_disk (hs_writer (snd (chain_flush s))))" for s
    using bw.flush_grows [of "hs_writer s"] by (simp add: chain_flush_def case_prod_beta)
  assume *: "append_flush L m1 m2 m3 v s = (res, s')"
  show ?thesis
  proof (cases "cl_print_value (dl_chain L) v")
    case (Inl e)
    with * show ?thesis by (simp add: append_flush_def)
  next
    case (Inr p)
    with * append_json_grows [of s "dl_chain L" 1 p] f [of "snd (append_json (dl_chain L) 1 p s)"] show ?thesis
      by (auto simp: append_flush_def split: prod.splits sum.splits intro: prefix_order.trans)
  qed
qed

lemma append_flush_ok:
  assumes exact: "serde_exact ok (dl_chain L)" "value_exact ok (dl_chain L)" and v: "ok v"
    and s: "store_flushed (dl_chain L) s vs" and ok: "append_flush L m1 m2 m3 v s = (Inr (), s')"
  shows "store_flushed (dl_chain L) s' (vs @ [v])"
proof -
  obtain ls sc where h: "store_holds (dl_chain L) ls sc s" "map cr_payload (cs_records sc) = vs"
    using s by (auto simp: store_flushed_def)
  obtain p r s1 where p: "cl_print_value (dl_chain L) v = Inr p"
    "append_json (dl_chain L) 1 p s = (Inr r, s1)" "chain_flush s1 = (Inr (), s')"
    using ok by (auto simp: append_flush_def split: prod.splits sum.splits)
  have parse: "cl_parse_value (dl_chain L) p = Inr v"
    using exact(2) v p(1) by (auto simp: value_exact_def)
  then have "exact_text ok (dl_chain L) p" using v by (simp add: exact_text_def)
  from append_ok_holds [OF exact(1) this h(1) p(2)] obtain line sc' where
    h1: "store_holds (dl_chain L) (ls @ [line]) sc' s1" "cs_records sc' = cs_records sc @ [r]" by blast
  have "cr_payload r = v"
    using p(2) parse by (cases rule: append_cases [of "dl_chain L" 1 p s]) (auto split: prod.splits sum.splits)
  moreover have "store_holds (dl_chain L) (ls @ [line]) sc' s'" "bw_buffer (hs_writer s') = []"
    using h1(1) p(3) bw_flush_parts [of "hs_writer s1"]
    by (auto simp: chain_flush_iff store_holds_def)
  ultimately show ?thesis
    using h(2) h1(2) by (auto simp: store_flushed_def intro!: exI [of _ "ls @ [line]"] exI [of _ sc'])
qed

lemma append_flush_fail:
  assumes exact: "serde_exact ok (dl_chain L)" "value_exact ok (dl_chain L)" and v: "ok v"
    and s: "store_flushed (dl_chain L) s vs" and res: "append_flush L m1 m2 m3 v s = (Inl e, s')"
  shows "bytes_hold (dl_chain L) (bw_disk (hs_writer s')) vs"
proof -
  obtain ls sc where h: "store_holds (dl_chain L) ls sc s" "map cr_payload (cs_records sc) = vs"
    and empty: "bw_buffer (hs_writer s) = []"
    using s by (auto simp: store_flushed_def)
  have disk: "bw_disk (hs_writer s) = unlines ls"
    using h(1) empty by (simp add: store_holds_def bw_stream_def)
  have tail: "\<exists>t. bw_disk (hs_writer s') = unlines ls @ t \<and> one_line t"
  proof (cases "cl_print_value (dl_chain L) v")
    case (Inl e')
    with res disk show ?thesis by (intro exI [of _ "[]"]) (simp add: append_flush_def)
  next
    case (Inr p)
    have raw: "exact_text ok (dl_chain L) p"
      using exact(2) v Inr by (auto simp: value_exact_def exact_text_def)
    obtain x s1 where a: "append_json (dl_chain L) 1 p s = (x, s1)"
      by (cases "append_json (dl_chain L) 1 p s")
    from append_flush_grows [OF res] disk obtain z where z: "bw_disk (hs_writer s') = unlines ls @ z"
      by (auto simp: prefix_def)
    have "\<exists>t. prefix z t \<and> one_line t"
    proof (cases x)
      case (Inl e')
      with a res Inr have "s' = s1" by (simp add: append_flush_def)
      with append_fail_stream [OF exact(1) raw h(1)] a Inl obtain t where
        "bw_stream (hs_writer s') = unlines ls @ t" "one_line t" by blast
      with z bw.disk_prefix [of "hs_writer s'"] show ?thesis by auto
    next
      case ok: (Inr r)
      from append_ok_holds [OF exact(1) raw h(1) a [unfolded ok]] obtain line sc' where
        h1: "store_holds (dl_chain L) (ls @ [line]) sc' s1" by blast
      obtain y where y: "bw_flush (hs_writer s1) = (Inl y, hs_writer s')"
        using res Inr a ok by (auto simp: append_flush_def chain_flush_iff split: prod.splits sum.splits)
      have "strict_prefix (bw_disk (hs_writer s')) (unlines (ls @ [line]))"
        using bw.flush_fail [of "hs_writer s1"] y h1 by (simp add: store_holds_def)
      then have "strict_prefix z (line @ [ch_nl])" by (auto simp: z strict_prefix_def)
      then have "prefix z line" by (auto simp: strict_prefix_def prefix_snoc)
      then show ?thesis using h1 by (auto simp: store_holds_def)
    qed
    then have "one_line z" using set_mono_prefix by blast
    with z show ?thesis by blast
  qed
  then show ?thesis using h by (auto simp: bytes_hold_def store_holds_def)
qed

section \<open>The directories of sessions\<close>

text \<open>
  A file name: what the checks of a request leave of a session id is one. It names a directory
  of its own when it is neither of the two names every directory has.
\<close>

definition file_name :: "string \<Rightarrow> bool" where
  "file_name s \<longleftrightarrow> s \<noteq> [] \<and> CHR ''/'' \<notin> set s"

definition dir_named :: "string \<Rightarrow> bool" where
  "dir_named s \<longleftrightarrow> file_name s \<and> s \<noteq> ''.'' \<and> s \<noteq> ''..''"

lemma validated_file_name: "validate_session_id s = Inr () \<Longrightarrow> file_name s"
proof -
  assume v: "validate_session_id s = Inr ()"
  have "trim [] = []" "\<not> id_byte (CHR ''/'')" by code_simp+
  with v show ?thesis by (auto simp: validate_session_id_def file_name_def list_all_iff split: if_splits)
qed

text \<open>The pieces of a name joined to a directory are those of the directory, and the name.\<close>

lemma path_components_join:
  assumes p: "file_name p" and base: "base \<noteq> []"
  shows "path_components (path_join base p) = path_components base @ List.map_filter piece_component [p]"
proof -
  have one: "split_on (CHR ''/'') p = [p]" and slash: "\<not> prefix ''/'' p"
    using p by (auto simp: file_name_def split_on_none prefix_def)
  have dir: "path_components (b @ CHR ''/'' # p) = path_components b @ List.map_filter piece_component [p]"
    "path_components (b @ ''/'') = path_components b" if "b \<noteq> []" for b
  proof -
    have "prefix ''/'' (b @ x) \<longleftrightarrow> prefix ''/'' b" for x using that by (cases b) auto
    then show "path_components (b @ CHR ''/'' # p) = path_components b @ List.map_filter piece_component [p]"
      "path_components (b @ ''/'') = path_components b"
      using that split_on_both [of "CHR ''/''" b p] split_on_both [of "CHR ''/''" b "[]"]
      by (simp_all add: path_components_def Let_def one List.map_filter_def piece_component_def hd_append)
  qed
  have root: "path_components (CHR ''/'' # p) = path_components ''/'' @ List.map_filter piece_component [p]"
    using split_on_both [of "CHR ''/''" "[]" p]
    by (simp add: path_components_def Let_def one List.map_filter_def piece_component_def)
  show ?thesis
  proof (cases "suffix ''/'' base")
    case True
    then obtain b where b: "base = b @ ''/''" by (auto simp: suffix_def)
    then show ?thesis
      using dir [of b] root slash by (cases "b = []") (simp_all add: path_join_def)
  next
    case False
    with slash base dir(1) show ?thesis by (simp add: path_join_def)
  qed
qed

lemma resolved_join:
  assumes "file_name p"
  shows "resolved_dir (path_join base p) =
    (if p = ''.'' then resolved_dir base
     else if p = ''..'' then resolve_step ParentDir (resolved_dir base)
     else resolved_dir base @ [NormalDir p])"
proof -
  show ?thesis
  proof (cases "base = []")
    case True
    have "split_on (CHR ''/'') p = [p]" "\<not> prefix ''/'' p" "p \<noteq> []"
      using assms by (auto simp: file_name_def split_on_none prefix_def)
    then show ?thesis
      by (auto simp: True path_join_def resolved_dir_def path_components_def Let_def List.map_filter_def
          piece_component_def)
  next
    case False
    have "p \<noteq> []" using assms by (simp add: file_name_def)
    then show ?thesis
      by (auto simp: resolved_dir_def path_components_join [OF assms False] piece_component_def
          List.map_filter_def simp del: resolve_step.simps(4))
  qed
qed

text \<open>Only its own directory lies in that of a session, when it names one.\<close>

lemma dir_below_own:
  assumes a: "dir_named a" and b: "file_name b"
  shows "dir_below (path_join base a) (path_join base b) \<longleftrightarrow> a = b"
proof -
  have a': "resolved_dir (path_join base a) = resolved_dir base @ [NormalDir a]"
    using a by (simp add: dir_named_def resolved_join)
  let ?r = "resolved_dir base"
  have "\<not> prefix (?r @ [NormalDir a]) (resolve_step ParentDir ?r)"
    by (auto simp: prefix_def dest: arg_cong [of _ _ length] split: if_splits)
  then show ?thesis
    using a b by (auto simp: dir_below_def a' resolved_join dir_named_def dest: prefix_length_le)
qed

text \<open>
  The two other names: the directory of the sessions is what the first names, and the second
  the directory it is in. The directories of all the sessions lie in both.
\<close>

lemma dir_below_all:
  assumes b: "dir_named b" and a: "a = ''.'' \<or> a = ''..''"
  shows "dir_below (path_join (path_join state ''sessions'') a) (path_join (path_join state ''sessions'') b)"
proof -
  let ?d = "path_join state ''sessions''"
  have d: "resolved_dir ?d = resolved_dir state @ [NormalDir ''sessions'']"
    by (simp add: resolved_join file_name_def)
  have "resolved_dir (path_join ?d b) = resolved_dir ?d @ [NormalDir b]"
    using b by (simp add: dir_named_def resolved_join)
  moreover have "prefix (resolved_dir (path_join ?d a)) (resolved_dir ?d)"
    using a by (auto simp: resolved_join file_name_def d)
  ultimately show ?thesis by (simp add: dir_below_def)
qed

section \<open>The timelines of a running daemon\<close>

text \<open>The part of the state the journal is about; the scope worker and health are not.\<close>

definition journal_part ::
    "daemon_state \<Rightarrow> session_registry \<times> (string, hash_chain_store) bmap
      \<times> ((string, string) bmap \<times> string list) \<times> bool" where
  "journal_part d = (ds_registry d, ds_stores d, (ds_files d, ds_unlinked d), ds_storage_writable d)"

text \<open>
  \<open>H\<close> gives the records of each timeline. While storage is writable every store is flushed;
  after a failed write the daemon writes nothing more.
\<close>

definition timeline_holds :: "'v chain_lib \<Rightarrow> bool \<Rightarrow> hash_chain_store option \<Rightarrow> 'v list \<Rightarrow> bool" where
  "timeline_holds C writable so vs \<longleftrightarrow>
     (case so of
        None \<Rightarrow> vs = []
      | Some s \<Rightarrow>
          if writable then store_flushed C s vs else bytes_hold C (bw_disk (hs_writer s)) vs)"

definition stores_hold :: "'v daemon_lib \<Rightarrow> daemon_state \<Rightarrow> (string \<Rightarrow> 'v list) \<Rightarrow> bool" where
  "stores_hold L d H \<longleftrightarrow>
     bm_wf (ds_stores d) \<and> ds_files d = [] \<and> ds_unlinked d = []
     \<and> (\<forall>sid. bm_get (ds_stores d) sid \<noteq> None \<longrightarrow> dir_named sid) \<and>
     (\<forall>sid. timeline_holds (dl_chain L) (ds_storage_writable d) (bm_get (ds_stores d) sid) (H sid))"

lemma timeline_holds_simps [simp]:
  "timeline_holds C w None vs \<longleftrightarrow> vs = []"
  "timeline_holds C True (Some s) vs \<longleftrightarrow> store_flushed C s vs"
  "timeline_holds C False (Some s) vs \<longleftrightarrow> bytes_hold C (bw_disk (hs_writer s)) vs"
  by (simp_all add: timeline_holds_def)

lemma timeline_holds_weaken: "timeline_holds C True so vs \<Longrightarrow> timeline_holds C w so vs"
  by (cases so; cases w) (auto intro: store_flushed_disk)

lemma stores_hold_cong: "journal_part d = journal_part d' \<Longrightarrow> stores_hold L d H = stores_hold L d' H"
  by (simp add: journal_part_def stores_hold_def)

lemma open_store_flushed:
  assumes h: "stores_hold L d H" and w: "ds_storage_writable d" and name: "dir_named sid"
  obtains s d1 where "open_store L env sid d = Inr (s, d1)" "store_flushed (dl_chain L) s (H sid)"
    "journal_part d1 = (ds_registry d, ds_stores d1, ([], []), True)"
    "bm_get (ds_stores d1) sid \<noteq> None" "bm_wf (ds_stores d1)"
    "\<And>x. x \<noteq> sid \<Longrightarrow> bm_get (ds_stores d1) x = bm_get (ds_stores d) x"
    "ds_paused d1 = ds_paused d" "ds_scope d1 = ds_scope d"
proof (cases "bm_get (ds_stores d) sid")
  case (Some s)
  with h have "timeline_holds (dl_chain L) True (Some s) (H sid)"
    unfolding stores_hold_def using w by metis
  then have "store_flushed (dl_chain L) s (H sid)" by simp
  with Some h w show ?thesis
    by (intro that [of "with_room (de_room env) s" d])
      (auto simp: open_store_def stores_hold_def journal_part_def)
next
  case None
  obtain rc where rc: "create_or_recover (dl_chain L) (de_room env) None = Inr rc"
    "store_flushed (dl_chain L) (rc_store rc) []" by (rule fresh_store)
  have "H sid = []" "ds_files d = []" "ds_unlinked d = []" "bm_wf (ds_stores d)"
    using h None unfolding stores_hold_def by (metis timeline_holds_simps(1), blast+)
  with None rc w show ?thesis
    by (intro that [of "rc_store rc" "put_store sid (rc_store rc) d"])
      (auto simp: open_store_def put_store_def journal_part_def)
qed

lemma persist_inner_hold:
  assumes exact: "serde_exact ok (dl_chain L)" "value_exact ok (dl_chain L)" and v: "ok v"
    and h: "stores_hold L d H" and w: "ds_storage_writable d" and name: "dir_named sid"
    and p: "persist_inner L env sid v d = (res, d')"
  shows "ds_registry d' = ds_registry d" and "ds_storage_writable d'" and "ds_paused d' = ds_paused d"
    and "res = Inr () \<Longrightarrow> stores_hold L d' (H(sid := H sid @ [v]))"
    and "res = Inl e \<Longrightarrow> stores_hold L (d'\<lparr>ds_storage_writable := False\<rparr>) H"
proof -
  obtain s d1 where o: "open_store L env sid d = Inr (s, d1)" "store_flushed (dl_chain L) s (H sid)"
    "journal_part d1 = (ds_registry d, ds_stores d1, ([], []), True)" "bm_wf (ds_stores d1)"
    "\<And>x. x \<noteq> sid \<Longrightarrow> bm_get (ds_stores d1) x = bm_get (ds_stores d) x" "ds_paused d1 = ds_paused d"
    by (rule open_store_flushed [OF h w name, of env]) blast
  obtain s' where a: "append_flush L ''failed to serialize session record: ''
      ''failed to append session timeline: '' ''failed to flush session timeline: '' v s = (res, s')"
    and d': "d' = put_store sid s' d1"
    using p o(1) by (auto simp: persist_inner_def split: prod.splits)
  show "ds_registry d' = ds_registry d" "ds_storage_writable d'" "ds_paused d' = ds_paused d"
    using o(3,6) by (auto simp: d' put_store_def journal_part_def)
  have others: "timeline_holds (dl_chain L) True (bm_get (ds_stores d1) x) (H x)" if "x \<noteq> sid" for x
    using h w o(5) [OF that] by (simp add: stores_hold_def)
  have named: "dir_named x" if "bm_get (ds_stores d1) x \<noteq> None" for x
    using that h o(5) [of x] name by (cases "x = sid") (simp_all add: stores_hold_def)
  show "stores_hold L d' (H(sid := H sid @ [v]))" if "res = Inr ()"
  proof -
    have "store_flushed (dl_chain L) s' (H sid @ [v])"
      using append_flush_ok [OF exact v o(2)] a that by simp
    then show ?thesis
      using o(3,4) others name named by (auto simp: d' put_store_def stores_hold_def journal_part_def)
  qed
  show "stores_hold L (d'\<lparr>ds_storage_writable := False\<rparr>) H" if "res = Inl e"
  proof -
    have "bytes_hold (dl_chain L) (bw_disk (hs_writer s')) (H sid)"
      using append_flush_fail [OF exact v o(2)] a that by simp
    moreover have "timeline_holds (dl_chain L) False (bm_get (ds_stores d1) x) (H x)" if "x \<noteq> sid" for x
      by (rule timeline_holds_weaken [OF others [OF that]])
    ultimately show ?thesis
      using o(3,4) name named by (auto simp: d' put_store_def stores_hold_def journal_part_def)
  qed
qed

lemma ds_persist_hold:
  assumes exact: "serde_exact ok (dl_chain L)" "value_exact ok (dl_chain L)" and v: "ok v"
    and h: "stores_hold L d H" and name: "dir_named sid" and p: "ds_persist L env sid v d = (res, d')"
  shows "ds_registry d' = ds_registry d"
    and "res = Inr () \<Longrightarrow> stores_hold L d' (H(sid := H sid @ [v]))"
    and "res = Inl e \<Longrightarrow> stores_hold L d' H"
proof -
  have "ds_registry d' = ds_registry d \<and> (res = Inr () \<longrightarrow> stores_hold L d' (H(sid := H sid @ [v])))
      \<and> (\<forall>e. res = Inl e \<longrightarrow> stores_hold L d' H)"
  proof (cases "ds_storage_writable d")
    case False
    with p h show ?thesis by (auto simp: ds_persist_def)
  next
    case True
    obtain x d1 where i: "persist_inner L env sid v d = (x, d1)" by (cases "persist_inner L env sid v d")
    note hold = persist_inner_hold [OF exact v h True name i]
    show ?thesis
    proof (cases x)
      case (Inl e)
      with p i True have r: "res = Inl e" "d' = d1\<lparr>ds_storage_writable := False,
          ds_health := health_set_storage CsUnavailable (ds_health d1)\<rparr>" by (simp_all add: ds_persist_def)
      have "journal_part d' = journal_part (d1\<lparr>ds_storage_writable := False\<rparr>)"
        by (simp add: r(2) journal_part_def)
      from stores_hold_cong [OF this, of L H] hold(5) [OF Inl] hold(1) r show ?thesis by simp
    next
      case (Inr u)
      with p i True hold(1,4) show ?thesis by (auto simp: ds_persist_def)
    qed
  qed
  then show "ds_registry d' = ds_registry d" "res = Inr () \<Longrightarrow> stores_hold L d' (H(sid := H sid @ [v]))"
    "res = Inl e \<Longrightarrow> stores_hold L d' H" by blast+
qed

section \<open>Operations keep the journal\<close>

definition journaled :: "start_config \<Rightarrow> 'v daemon_lib \<Rightarrow> daemon_state \<Rightarrow> bool" where
  "journaled cfg L d \<longleftrightarrow>
     registry_inv (ds_registry d) \<and> pending_indexed (ds_registry d)
     \<and> limits (ds_registry d) = (sc_max_sessions cfg, sc_max_pending cfg)
     \<and> (\<exists>H. stores_hold L d H \<and> (\<forall>sid. replays (dl_json L) (H sid) (ds_registry d) sid))"

lemma journaled_cong:
  assumes "journal_part d = journal_part d'" and "journaled cfg L d"
  shows "journaled cfg L d'"
  using assms(2) stores_hold_cong [OF assms(1), of L] assms(1)
  by (auto simp: journaled_def journal_part_def)

lemma scope_journal_part:
  "scope_track env c d = (res, d') \<Longrightarrow> journal_part d' = journal_part d"
  "scope_untrack env c d = (res, d') \<Longrightarrow> journal_part d' = journal_part d"
  by (auto simp: scope_track_def scope_untrack_def journal_part_def split: sum.splits)

lemma retrack_journal_part: "journal_part (snd (retrack env cs d)) = journal_part d"
proof (induction cs arbitrary: d)
  case (Cons c cs)
  obtain res d' where "scope_track env c d = (res, d')" by (cases "scope_track env c d")
  with Cons scope_journal_part(1) [OF this] show ?case by (auto split: sum.splits)
qed simp

lemma retrack_quietly_journal_part: "journal_part (retrack_quietly env cs d) = journal_part d"
proof (induction cs arbitrary: d)
  case (Cons c cs)
  have "journal_part (snd (scope_track env c d)) = journal_part d"
    using scope_journal_part(1) [of env c d] by (cases "scope_track env c d") simp
  with Cons [of "snd (scope_track env c d)"] show ?case by (simp add: retrack_quietly_def)
qed (simp add: retrack_quietly_def)

lemma untrack_all_journal_part: "journal_part (snd (untrack_all env removed cs d)) = journal_part d"
proof (induction cs arbitrary: removed d)
  case (Cons c cs)
  obtain res d' where "scope_untrack env c d = (res, d')" by (cases "scope_untrack env c d")
  with Cons scope_journal_part(2) [OF this] retrack_quietly_journal_part [of env removed d']
  show ?case by (auto split: sum.splits)
qed simp

text \<open>
  A library on which the daemon's own records have an exact text form; event payloads are
  asked for it one by one.
\<close>

definition exact_lib :: "('v \<Rightarrow> bool) \<Rightarrow> 'v daemon_lib \<Rightarrow> bool" where
  "exact_lib ok L \<longleftrightarrow>
     json_laws (dl_json L) \<and> serde_exact ok (dl_chain L) \<and> value_exact ok (dl_chain L)
     \<and> (\<forall>i. ok (v_intent_registered (dl_json L) i))
     \<and> (\<forall>sid e. ok (v_intent_renewed (dl_json L) sid e))
     \<and> (\<forall>sid. ok (v_session_closed (dl_json L) sid))
     \<and> (\<forall>sid c oc. ok (v_cgroup_discovered (dl_json L) sid c oc))
     \<and> (\<forall>w oc. ok (v_runtime_workload (dl_json L) w oc))
     \<and> (\<forall>sid timeline q n. ok (v_integrity_finding (dl_json L) sid timeline q n))
     \<and> (\<forall>f v. finding_payload (dl_json L) f = Inr v \<longrightarrow> ok v)"

lemma exact_libD:
  assumes "exact_lib ok L"
  shows "json_laws (dl_json L)" "serde_exact ok (dl_chain L)" "value_exact ok (dl_chain L)"
    "ok (v_intent_registered (dl_json L) i)" "ok (v_intent_renewed (dl_json L) sid e)"
    "ok (v_session_closed (dl_json L) sid)" "ok (v_cgroup_discovered (dl_json L) sid c oc)"
    "ok (v_runtime_workload (dl_json L) w oc)"
    "ok (v_integrity_finding (dl_json L) sid timeline q n)"
    "finding_payload (dl_json L) f = Inr v \<Longrightarrow> ok v"
  using assms by (auto simp: exact_lib_def)

text \<open>
  The pattern of every operation: the registry's step on a clone, its record on the disk,
  then the clone in place of the registry; a failed write leaves the registry.
\<close>

lemma journaled_persist_fail:
  assumes L: "exact_lib ok L" and v: "ok v" and j: "journaled cfg L d"
    and name: "dir_named sid" and p: "ds_persist L env sid v d = (Inl e, d')"
  shows "journaled cfg L d'"
proof -
  obtain H where H: "stores_hold L d H" "\<And>x. replays (dl_json L) (H x) (ds_registry d) x"
    using j by (auto simp: journaled_def)
  have "ds_registry d' = ds_registry d" by (rule ds_persist_hold(1) [OF exact_libD(2,3) [OF L] v H(1) name p])
  moreover have "stores_hold L d' H" by (rule ds_persist_hold(3) [OF exact_libD(2,3) [OF L] v H(1) name p refl])
  ultimately show ?thesis using j H(2) by (auto simp: journaled_def)
qed

lemma journaled_persist_ok:
  assumes L: "exact_lib ok L" and v: "ok v" and j: "journaled cfg L d"
    and name: "dir_named sid" and p: "ds_persist L env sid v d = (Inr (), d')"
    and step: "journal_step (dl_json L) sid v (ds_registry d) r'"
  shows "journaled cfg L (d'\<lparr>ds_registry := r'\<rparr>)"
proof -
  obtain H where H: "stores_hold L d H" "\<And>x. replays (dl_json L) (H x) (ds_registry d) x"
    using j by (auto simp: journaled_def)
  let ?H = "H(sid := H sid @ [v])"
  have "stores_hold L d' ?H" by (rule ds_persist_hold(2) [OF exact_libD(2,3) [OF L] v H(1) name p refl])
  then have "stores_hold L (d'\<lparr>ds_registry := r'\<rparr>) ?H" by (simp add: stores_hold_def)
  moreover have "replays (dl_json L) (?H x) r' x" for x
    by (rule journal_step_replays [OF step H(2)])
  moreover have "registry_inv r'" "pending_indexed r'" "limits r' = limits (ds_registry d)"
    using step by (simp_all add: journal_step_def)
  ultimately show ?thesis using j by (auto simp: journaled_def)
qed

lemma journaled_inv: "journaled cfg L d \<Longrightarrow> registry_inv (ds_registry d)"
  "journaled cfg L d \<Longrightarrow> pending_indexed (ds_registry d)"
  by (simp_all add: journaled_def)

lemma journaled_active:
  assumes "journaled cfg L d" and "session_view (ds_registry d) sid = Some (i, status)"
  shows "status \<in> {StActive, StClosed}"
proof -
  obtain H where "replays (dl_json L) (H sid) (ds_registry d) sid"
    using assms(1) by (auto simp: journaled_def)
  with assms(2) show ?thesis by (auto simp: replays_def mirrors_def)
qed

lemma journaled_persist_inert:
  assumes L: "exact_lib ok L" and v: "ok v" and j: "journaled cfg L d" and i: "inert (dl_json L) v"
    and name: "dir_named sid" and p: "ds_persist L env sid v d = (res, d')"
  shows "journaled cfg L d'"
proof (cases res)
  case (Inl e)
  then show ?thesis using journaled_persist_fail [OF L v j name] p by simp
next
  case (Inr u)
  have "journaled cfg L (d'\<lparr>ds_registry := ds_registry d\<rparr>)"
    using p Inr by (intro journaled_persist_ok [OF L v j name, of env] journal_step_inert
        journaled_inv [OF j] i) simp
  moreover have "ds_registry d' = ds_registry d"
    using j ds_persist_hold(1) [OF exact_libD(2,3) [OF L] v _ name p] by (auto simp: journaled_def)
  ultimately show ?thesis
    by (elim journaled_cong [rotated]) (simp add: journal_part_def)
qed

lemma journaled_register:
  assumes L: "exact_lib ok L" and j: "journaled cfg L d" and name: "dir_named (si_session_id i)" and op: "ds_register L env i now d = (res, d')"
  shows "journaled cfg L d'"
proof (cases "registry_register i now (ds_registry d)")
  case r: (Pair x r')
  obtain y d1 where p: "ds_persist L env (si_session_id i) (v_intent_registered (dl_json L) i) d = (y, d1)"
    by (cases "ds_persist L env (si_session_id i) (v_intent_registered (dl_json L) i) d")
  note v = exact_libD(4) [OF L, of i]
  consider e where "x = Inl e" | oc e where "x = Inr oc" "y = Inl e" | oc where "x = Inr oc" "y = Inr ()"
    by (cases x; cases y) auto
  then show ?thesis
  proof cases
    case (3 oc)
    have "journaled cfg L (d1\<lparr>ds_registry := r'\<rparr>)"
      using p r 3 journaled_inv [OF j]
      by (intro journaled_persist_ok [OF L v j name, of env] register_journal
          exact_libD(1) [OF L]) simp_all
    then show ?thesis
      using op r p 3 by (elim journaled_cong [rotated]) (auto simp: ds_register_def journal_part_def)
  qed (use op r p j journaled_persist_fail [OF L v j name] in \<open>auto simp: ds_register_def\<close>)
qed

text \<open>A session that is there has a timeline, and its name is that of a directory.\<close>

lemma journaled_named:
  assumes "journaled cfg L d" and "session_at (ds_registry d) sid \<noteq> None"
  shows "dir_named sid"
proof -
  obtain H where H: "stores_hold L d H" "replays (dl_json L) (H sid) (ds_registry d) sid"
    using assms(1) by (auto simp: journaled_def)
  have "H sid \<noteq> []"
    using H(2) assms(2) by (auto simp: replays_def mirrors_def replay_start_def session_view_def)
  then have "bm_get (ds_stores d) sid \<noteq> None" using H(1) unfolding stores_hold_def by (metis timeline_holds_simps(1))
  with H(1) show ?thesis by (simp add: stores_hold_def)
qed

lemma journaled_renew:
  assumes L: "exact_lib ok L" and j: "journaled cfg L d" and op: "ds_renew L env sid expires now d = (res, d')"
  shows "journaled cfg L d'"
proof (cases "session_at (ds_registry d) sid = None")
  case True
  with op j show ?thesis by (auto simp: ds_renew_def registry_renew_def split: if_splits)
next
  case False
  note name = journaled_named [OF j False]
  show ?thesis
  proof (cases "registry_renew sid expires now (ds_registry d)")
    case r: (Pair x r')
    obtain y d1 where p: "ds_persist L env sid (v_intent_renewed (dl_json L) sid expires) d = (y, d1)"
      by (cases "ds_persist L env sid (v_intent_renewed (dl_json L) sid expires) d")
    note v = exact_libD(5) [OF L, of sid expires]
    consider e where "x = Inl e" | e where "x = Inr ()" "y = Inl e" | "x = Inr ()" "y = Inr ()"
      by (cases x; cases y) auto
    then show ?thesis
    proof cases
      case 3
      have "journaled cfg L (d1\<lparr>ds_registry := r'\<rparr>)"
        using p r 3 journaled_inv [OF j] journaled_active [OF j]
        by (intro journaled_persist_ok [OF L v j name, of env] renew_journal exact_libD(1) [OF L]) auto
      then show ?thesis using op r p 3 by (simp add: ds_renew_def)
    qed (use op r p j journaled_persist_fail [OF L v j name] in \<open>auto simp: ds_renew_def\<close>)
  qed
qed

text \<open>The scope worker, when there is one, is asked before or after; it changes no timeline.\<close>

lemma optional_scope_journal_part:
  "(if ds_scope d then scope_track env c d else (Inr (), d)) = (res, d') \<Longrightarrow> journal_part d' = journal_part d"
  "(if ds_scope d then untrack_all env [] cs d else (Inr [], d)) = (ids, d') \<Longrightarrow> journal_part d' = journal_part d"
  using scope_journal_part(1) [of env c d res d'] untrack_all_journal_part [of env "[]" cs d]
  by (auto split: if_splits)

lemma journal_part_registry: "journal_part d' = journal_part d \<Longrightarrow> ds_registry d' = ds_registry d"
  by (simp add: journal_part_def)

lemma journaled_discover:
  assumes L: "exact_lib ok L" and j: "journaled cfg L d" and name: "dir_named sid"
    and op: "ds_discover_cgroup L env sid c d = (res, d')"
  shows "journaled cfg L d'"
proof (cases "session_for_cgroup (ds_registry d) c = Some sid")
  case True
  with op j show ?thesis by (simp add: ds_discover_cgroup_def)
next
  case unknown: False
  obtain x r' where r: "registry_discover sid c (ds_registry d) = (x, r')"
    by (cases "registry_discover sid c (ds_registry d)")
  obtain t d1 where t: "(if ds_scope d then scope_track env c d else (Inr (), d)) = (t, d1)"
    by (cases "if ds_scope d then scope_track env c d else (Inr (), d)")
  have j1: "journaled cfg L d1"
    using journaled_cong [OF optional_scope_journal_part(1) [OF t, symmetric] j] .
  have r1: "ds_registry d1 = ds_registry d"
    by (rule journal_part_registry [OF optional_scope_journal_part(1) [OF t]])
  show ?thesis
  proof (cases x)
    case (Inl e)
    with op r j unknown show ?thesis by (simp add: ds_discover_cgroup_def)
  next
    case x: (Inr oc)
    let ?v = "v_cgroup_discovered (dl_json L) sid c oc"
    note v = exact_libD(7) [OF L, of sid c oc]
    obtain y d2 where p: "ds_persist L env sid ?v d1 = (y, d2)" by (cases "ds_persist L env sid ?v d1")
    consider e where "t = Inl e" | e where "t = Inr ()" "y = Inl e" | "t = Inr ()" "y = Inr ()"
      by (cases t; cases y) auto
    then show ?thesis
    proof cases
      case (1 e)
      with op r x t j1 unknown show ?thesis by (simp add: ds_discover_cgroup_def)
    next
      case (2 e)
      have j2: "journaled cfg L d2" using journaled_persist_fail [OF L v j1 name] p 2 by simp
      obtain z d3 where u: "scope_untrack env c d2 = (z, d3)" by (cases "scope_untrack env c d2")
      have "d' = (if ds_scope d then d3 else d2)"
        using op r x t p 2 u unknown by (auto simp: ds_discover_cgroup_def split: sum.splits)
      with j2 journaled_cong [OF scope_journal_part(2) [OF u, symmetric] j2] show ?thesis by simp
    next
      case 3
      have "journaled cfg L (d2\<lparr>ds_registry := r'\<rparr>)"
        using p r x 3 journaled_inv [OF j1] r1
        by (intro journaled_persist_ok [OF L v j1 name, of env] discover_journal exact_libD(1) [OF L]) auto
      then show ?thesis using op r x t p 3 unknown by (simp add: ds_discover_cgroup_def)
    qed
  qed
qed

lemma journaled_close:
  assumes L: "exact_lib ok L" and j: "journaled cfg L d" and own: "lists_own (ds_registry d) sid"
    and op: "ds_close L env sid d = (res, d')"
  shows "journaled cfg L d'"
proof (cases "session_at (ds_registry d) sid = None")
  case True
  with op j show ?thesis
    by (auto simp: ds_close_def registry_close_def deactivate_and_get_def registry_deactivate_def)
next
  case False
  note name = journaled_named [OF j False]
  show ?thesis
  proof (cases "registry_close sid (ds_registry d)")
    case r: (Pair x r')
    show ?thesis
    proof (cases x)
      case (Inl e)
      with op r j show ?thesis by (simp add: ds_close_def)
    next
      case x: (Inr closed)
      obtain t d1 where t: "(if ds_scope d then untrack_all env [] (st_cgroup_ids closed) d else (Inr [], d)) = (t, d1)"
        by (cases "if ds_scope d then untrack_all env [] (st_cgroup_ids closed) d else (Inr [], d)")
      note part1 = optional_scope_journal_part(2) [OF t]
      have j1: "journaled cfg L d1" using journaled_cong [OF part1 [symmetric] j] .
      note r1 = journal_part_registry [OF part1]
      note v = exact_libD(6) [OF L, of sid]
      obtain y d2 where p: "ds_persist L env sid (v_session_closed (dl_json L) sid) d1 = (y, d2)"
        by (cases "ds_persist L env sid (v_session_closed (dl_json L) sid) d1")
      consider e where "t = Inl e" | ids e where "t = Inr ids" "y = Inl e" | ids where "t = Inr ids" "y = Inr ()"
        by (cases t; cases y) auto
      then show ?thesis
      proof cases
        case (1 e)
        with op r x t j1 show ?thesis by (simp add: ds_close_def)
      next
        case (2 ids e)
        have j2: "journaled cfg L d2" using journaled_persist_fail [OF L v j1 name] p 2 by simp
        have "d' = (if ds_scope d then snd (retrack env ids d2) else d2)"
          using op r x t p 2 by (auto simp: ds_close_def split: sum.splits prod.splits)
        with j2 journaled_cong [OF retrack_journal_part [symmetric] j2] show ?thesis by simp
      next
        case (3 ids)
        have "journaled cfg L (d2\<lparr>ds_registry := r'\<rparr>)"
          using p r x 3 journaled_inv [OF j1] r1 own
          by (intro journaled_persist_ok [OF L v j1 name, of env] close_journal exact_libD(1) [OF L]) auto
        then show ?thesis using op r x t p 3 by (simp add: ds_close_def)
      qed
    qed
  qed
qed

lemma journaled_persist_all:
  assumes L: "exact_lib ok L" and name: "dir_named sid"
  shows "journaled cfg L d \<Longrightarrow> list_all (\<lambda>v. ok v \<and> inert (dl_json L) v) vs \<Longrightarrow>
    persist_all L env sid vs d = (res, d') \<Longrightarrow> journaled cfg L d'"
proof (induction vs arbitrary: d)
  case (Cons v vs)
  obtain y d1 where p: "ds_persist L env sid v d = (y, d1)" by (cases "ds_persist L env sid v d")
  have "journaled cfg L d1"
    using journaled_persist_inert [OF L _ Cons.prems(1) _ name p] Cons.prems(2) by simp
  with Cons p show ?case by (cases y) auto
qed simp

lemma finding_payloads_exact:
  assumes L: "exact_lib ok L"
  shows "finding_payloads (dl_json L) env fb fs acc = Inr vs \<Longrightarrow>
    list_all (\<lambda>v. ok v \<and> inert (dl_json L) v) acc \<Longrightarrow> list_all (\<lambda>v. ok v \<and> inert (dl_json L) v) vs"
proof (induction fs arbitrary: acc)
  case (Cons f fs)
  then obtain v where v: "finding_payload (dl_json L) f = Inr v"
    "finding_payloads (dl_json L) env fb fs (acc @ [v]) = Inr vs"
    by (auto split: sum.splits if_splits)
  with Cons.IH [OF v(2)] Cons.prems(2) exact_libD(10) [OF L v(1)] finding_inert [OF exact_libD(1) [OF L] v(1)]
  show ?case by simp
qed simp

lemma journaled_missing_intent:
  assumes L: "exact_lib ok L" and j: "journaled cfg L d" and name: "dir_named (rw_session_id w)"
    and op: "persist_missing_intent_finding L env w d = (res, d')"
  shows "journaled cfg L d'"
proof (cases "accountability_finding_payloads L env (missing_intent_effect w) d")
  case (Inl e)
  with op j show ?thesis by (simp add: persist_missing_intent_finding_def)
next
  case (Inr vs)
  then have "list_all (\<lambda>v. ok v \<and> inert (dl_json L) v) vs"
    unfolding accountability_finding_payloads_def by (rule finding_payloads_exact [OF L]) simp
  moreover have "persist_all L env (rw_session_id w) vs d = (res, d')"
    using op Inr by (simp add: persist_missing_intent_finding_def)
  ultimately show ?thesis by (rule journaled_persist_all [OF L name j])
qed

lemma journaled_ingest:
  assumes L: "exact_lib ok L" and j: "journaled cfg L d" and name: "dir_named (rw_session_id w)"
    and op: "ingest_runtime_workload L env w d = (res, d')"
  shows "journaled cfg L d'"
proof -
  obtain x d1 where d1: "ds_discover_cgroup L env (rw_session_id w) (rw_cgroup_id w) d = (x, d1)"
    by (cases "ds_discover_cgroup L env (rw_session_id w) (rw_cgroup_id w) d")
  have j1: "journaled cfg L d1" by (rule journaled_discover [OF L j name d1])
  show ?thesis
  proof (cases x)
    case (Inl e)
    with op d1 j1 show ?thesis by (simp add: ingest_runtime_workload_def)
  next
    case x: (Inr oc)
    let ?v = "v_runtime_workload (dl_json L) w oc"
    obtain y d2 where d2: "ds_persist L env (rw_session_id w) ?v d1 = (y, d2)"
      by (cases "ds_persist L env (rw_session_id w) ?v d1")
    have j2: "journaled cfg L d2"
      by (rule journaled_persist_inert [OF L exact_libD(8) [OF L] j1 runtime_inert [OF exact_libD(1) [OF L]]
          name d2])
    obtain z d3 where d3: "(if oc = MissingIntent then persist_missing_intent_finding L env w d2
        else (Inr (), d2)) = (z, d3)"
      by (cases "if oc = MissingIntent then persist_missing_intent_finding L env w d2 else (Inr (), d2)")
    have j3: "journaled cfg L d3"
      using d3 j2 journaled_missing_intent [OF L j2 name] by (auto split: if_splits)
    have "d' = (case y of Inl _ \<Rightarrow> d2 | Inr _ \<Rightarrow>
        (case z of Inl _ \<Rightarrow> d3 | Inr _ \<Rightarrow> ds_set_adapter (rw_adapter w) CsReady d3))"
      using op d1 x d2 d3 by (auto simp: ingest_runtime_workload_def split: sum.splits)
    moreover have "journaled cfg L (ds_set_adapter (rw_adapter w) CsReady d3)"
      using j3 by (elim journaled_cong [rotated]) (simp add: journal_part_def ds_set_adapter_def)
    ultimately show ?thesis using j2 j3 by (simp split: sum.splits)
  qed
qed

text \<open>Retention: the stores and directories of the purged sessions go, and nothing else.\<close>

lemma set_fold_remove: "set (fold bm_remove ks m) = {p \<in> set m. fst p \<notin> set ks}"
  by (induction ks arbitrary: m) (auto simp: bm_remove_def)

lemma fold_remove_covered: "fst ` set m \<subseteq> set ks \<Longrightarrow> fold bm_remove ks m = []"
proof -
  assume "fst ` set m \<subseteq> set ks"
  then have "set (fold bm_remove ks m) = {}" by (auto simp: set_fold_remove)
  then show ?thesis by simp
qed

lemma drop_store_parts:
  "ds_stores (drop_store env sid d) = bm_remove sid (ds_stores d)"
  "fst ` set (ds_files (drop_store env sid d)) \<subseteq> insert sid (fst ` set (ds_files d))"
  "ds_registry (drop_store env sid d) = ds_registry d"
  "ds_storage_writable (drop_store env sid d) = ds_storage_writable d"
  "ds_sessions_dir (drop_store env sid d) = ds_sessions_dir d"
  "ds_unlinked d = [] \<Longrightarrow> ds_unlinked (drop_store env sid d) = []"
  by (auto simp: drop_store_def bm_remove_id split: option.splits)

lemma drop_stores_parts:
  "ds_stores (fold (drop_store env) sids d) = fold bm_remove sids (ds_stores d)
   \<and> fst ` set (ds_files (fold (drop_store env) sids d)) \<subseteq> fst ` set (ds_files d) \<union> set sids
   \<and> ds_registry (fold (drop_store env) sids d) = ds_registry d
   \<and> ds_storage_writable (fold (drop_store env) sids d) = ds_storage_writable d
   \<and> (ds_unlinked d = [] \<longrightarrow> ds_unlinked (fold (drop_store env) sids d) = [])"
proof (induction sids arbitrary: d)
  case (Cons sid sids)
  have "fst ` set (ds_files (fold (drop_store env) sids (drop_store env sid d)))
      \<subseteq> fst ` set (ds_files d) \<union> set (sid # sids)"
    using Cons.IH [of "drop_store env sid d"] drop_store_parts(2) [of env sid d]
    by (elim conjE) (erule subset_trans, simp, blast)
  with Cons.IH [of "drop_store env sid d"] show ?case by (simp add: drop_store_parts(1,3,4,6))
qed simp

text \<open>Removing the directory of a session with a name of its own takes its file and no other.\<close>

lemma remove_session_dir_own:
  assumes "dir_named sid" and "\<forall>x\<in>fst ` set (ds_files d) \<union> fst ` set (ds_stores d). file_name x"
    and "sid \<notin> fst ` set (ds_stores d)"
    and "remove_session_dir env (path_join (ds_sessions_dir d) sid) d = (Inr (), d')"
  shows "d' = d\<lparr>ds_files := bm_remove sid (ds_files d)\<rparr>"
proof -
  have "filter (\<lambda>p. \<not> dir_below (path_join (ds_sessions_dir d) sid) (path_join (ds_sessions_dir d) (fst p)))
      (ds_files d) = bm_remove sid (ds_files d)"
    unfolding bm_remove_def using dir_below_own [OF assms(1)] assms(2) by (intro filter_cong) auto
  moreover have "filter (\<lambda>x. dir_below (path_join (ds_sessions_dir d) sid) (path_join (ds_sessions_dir d) x))
      (bm_keys (ds_stores d)) = []"
    using dir_below_own [OF assms(1)] assms(2,3) by (auto simp: filter_empty_conv)
  ultimately show ?thesis using assms(4) by (auto simp: remove_session_dir_def Let_def)
qed

lemma remove_dirs_parts:
  assumes "list_all dir_named sids" and "\<forall>x\<in>fst ` set (ds_files d) \<union> fst ` set (ds_stores d). file_name x"
    and "set sids \<inter> fst ` set (ds_stores d) = {}" and "remove_dirs env sids d = (Inr (), d')"
  shows "d' = d\<lparr>ds_files := fold bm_remove sids (ds_files d)\<rparr>"
  using assms
proof (induction sids arbitrary: d)
  case (Cons sid sids)
  let ?dir = "path_join (ds_sessions_dir d) sid"
  obtain d1 where d1: "remove_session_dir env ?dir d = (Inr (), d1)" "remove_dirs env sids d1 = (Inr (), d')"
    using Cons.prems(4) by (auto simp: Let_def split: prod.splits sum.splits)
  have own: "d1 = d\<lparr>ds_files := bm_remove sid (ds_files d)\<rparr>"
    using Cons.prems by (intro remove_session_dir_own [OF _ _ _ d1(1)]) auto
  have "d' = d1\<lparr>ds_files := fold bm_remove sids (ds_files d1)\<rparr>"
    using Cons.prems(1,2,3) d1(2) by (intro Cons.IH) (auto simp: own bm_remove_def)
  then show ?case by (simp add: own)
qed simp

lemma journaled_retention:
  assumes j: "journaled cfg L d"
    and own: "dry_run \<or> list_all (lists_own (ds_registry d)) (purged_by (ds_registry d) tenant now)"
    and op: "ds_apply_retention env tenant now dry_run d = (Inr report, d')"
  shows "journaled cfg L d'"
proof (cases dry_run)
  case True
  with op j show ?thesis by (simp add: ds_apply_retention_def)
next
  case wet: False
  let ?r = "ds_registry d"
  let ?r' = "snd (apply_retention tenant now ?r)" and ?ps = "purged_by ?r tenant now"
  note inv = journaled_inv [OF j]
  have own': "list_all (lists_own ?r) ?ps" using own wet by simp
  note view = retention_view [OF inv own']
  obtain d2 where d2: "remove_dirs env ?ps (fold (drop_store env) ?ps d) = (Inr (), d2)"
    and d': "journal_part d' = (?r', ds_stores d2, (ds_files d2, ds_unlinked d2), ds_storage_writable d2)"
    using op wet view(4)
    by (cases "remove_dirs env ?ps (fold (drop_store env) ?ps d)")
      (auto simp: ds_apply_retention_def Let_def case_prod_beta journal_part_def split: sum.splits)
  obtain H where H: "stores_hold L d H" "\<And>x. replays (dl_json L) (H x) ?r x"
    using j by (auto simp: journaled_def)
  note H' = H(1) [unfolded stores_hold_def]
  let ?d1 = "fold (drop_store env) ?ps d"
  note dropped = drop_stores_parts [of env ?ps d]
  have named: "list_all dir_named ?ps"
    using journaled_named [OF j] purged_by_sessions(2) [OF inv(1)] by (auto simp: list_all_iff)
  have stored: "fst ` set (ds_stores ?d1) = fst ` set (ds_stores d) - set ?ps"
    using dropped by (auto simp: set_fold_remove image_iff)
  have "\<forall>x\<in>fst ` set (ds_files ?d1) \<union> fst ` set (ds_stores ?d1). file_name x"
  proof -
    have "fst ` set (ds_files ?d1) \<subseteq> set ?ps" using dropped H' by auto
    moreover have "dir_named x" if "x \<in> fst ` set (ds_stores d)" for x
      using that H' by (auto simp: dom_bm_get [symmetric])
    ultimately show ?thesis using named stored by (auto simp: dir_named_def list_all_iff)
  qed
  then have "d2 = ?d1\<lparr>ds_files := fold bm_remove ?ps (ds_files ?d1)\<rparr>"
    by (rule remove_dirs_parts [OF named _ _ d2]) (auto simp: stored)
  then have parts: "ds_registry d' = ?r'" "ds_stores d' = fold bm_remove ?ps (ds_stores d)" "ds_files d' = []"
    "ds_unlinked d' = []" "ds_storage_writable d' = ds_storage_writable d"
    using d' dropped H' fold_remove_covered [of "ds_files ?d1" ?ps]
    by (auto simp: journal_part_def)
  let ?H = "\<lambda>x. if x \<in> set ?ps then [] else H x"
  have "bm_wf (ds_stores d)" using H(1) by (simp add: stores_hold_def)
  then have "stores_hold L d' ?H"
    using H(1) by (auto simp: stores_hold_def parts bm.get_del_all bm.inv_del_all)
  moreover have "replays (dl_json L) (?H x) ?r' x" for x
  proof (cases "x \<in> set ?ps")
    case True
    then have "session_view ?r' x = None" "owned ?r' x = {}"
      using view(1,2) by (auto simp: owned_def split: option.splits if_splits)
    with True show ?thesis by (simp add: replays_def mirrors_def replay_start_def)
  next
    case False
    then have "session_view ?r' x = session_view ?r x" "owned ?r' x = owned ?r x"
      using view(1,2) by (auto simp: owned_def split: option.splits if_splits)
    with False H(2) [of x] show ?thesis by (simp add: replays_cong [of ?r' x ?r])
  qed
  moreover have "registry_inv ?r'" "limits ?r' = limits ?r"
    using step_inv [OF inv(1), of "OpRetention tenant now"] by (simp_all add: map_prod_def case_prod_beta)
  ultimately show ?thesis using j view(3) by (auto simp: journaled_def parts(1))
qed

lemma journaled_event:
  assumes L: "exact_lib ok L" and j: "journaled cfg L d" and name: "dir_named (dr_session_id x)"
    and v: "ok (dr_payload x)" "inert (dl_json L) (dr_payload x)"
    and op: "persist_record L env x d = (res, d')" and res: "res \<noteq> Inr Failed"
  shows "journaled cfg L d'"
proof (cases "ds_storage_writable d")
  case False
  with op j show ?thesis by (simp add: persist_record_def)
next
  case w: True
  obtain y d1 where p: "persist_inner L env (dr_session_id x) (dr_payload x) d = (y, d1)"
    by (cases "persist_inner L env (dr_session_id x) (dr_payload x) d")
  have "y = Inr ()" "d' = d1" 
    using op res w p by (auto simp: persist_record_def split: if_splits sum.splits)
  with w p have "ds_persist L env (dr_session_id x) (dr_payload x) d = (Inr (), d')"
    by (simp add: ds_persist_def)
  then show ?thesis by (rule journaled_persist_inert [OF L v(1) j v(2) name])
qed

end
