(* ===== verification/Daemon_Restart.thy ===== *)
theory Daemon_Restart
  imports Daemon_Journal
begin

text \<open>
  The daemon started again on the timelines of a run has the sessions that were active and
  not due, with their cgroups; an operation that fails changes no session; and runs, outside
  those of the first claim, on which the daemon departs from that.
\<close>

section \<open>A life of the daemon\<close>

text \<open>
  From an empty state directory, operations against any environment, whatever they answer, but
  for four things, each of which breaks what is claimed below: a session closed or purged whose
  list names a cgroup that belongs to another session by now; retention that fails half way; an
  event that could not be written (its session is degraded in memory only); and a session id
  that does not name a directory of its own. The ids of requests are file names by their checks,
  all but \<open>.\<close> and \<open>..\<close>; those of runtime workloads, which come from labels, are not checked at
  all. A registration, renewal, closing, discovery or runtime record that could not be written is
  part of a run. Events are what the observer sends, which writes none of the four types of
  record that are replayed. A restarted daemon is not started again: a run has one start.
\<close>

inductive daemon_run :: "('v \<Rightarrow> bool) \<Rightarrow> 'v daemon_lib \<Rightarrow> start_config \<Rightarrow> daemon_state \<Rightarrow> bool"
  for ok :: "'v \<Rightarrow> bool" and L :: "'v daemon_lib" and cfg :: start_config where
  run_start: "daemon_new L env cfg now [] = Inr d \<Longrightarrow> daemon_run ok L cfg d"
| run_register:
    "daemon_run ok L cfg d \<Longrightarrow> dir_named (si_session_id i) \<Longrightarrow> ds_register L env i now d = (r1, d') \<Longrightarrow>
     daemon_run ok L cfg d'"
| run_renew: "daemon_run ok L cfg d \<Longrightarrow> ds_renew L env sid expires now d = (r2, d') \<Longrightarrow> daemon_run ok L cfg d'"
| run_close:
    "daemon_run ok L cfg d \<Longrightarrow> lists_own (ds_registry d) sid \<Longrightarrow> ds_close L env sid d = (r3, d') \<Longrightarrow>
     daemon_run ok L cfg d'"
| run_discover:
    "daemon_run ok L cfg d \<Longrightarrow> dir_named sid \<Longrightarrow> ds_discover_cgroup L env sid c d = (r4, d') \<Longrightarrow>
     daemon_run ok L cfg d'"
| run_ingest:
    "daemon_run ok L cfg d \<Longrightarrow> dir_named (rw_session_id w) \<Longrightarrow> ingest_runtime_workload L env w d = (r5, d') \<Longrightarrow>
     daemon_run ok L cfg d'"
| run_retention:
    "daemon_run ok L cfg d \<Longrightarrow>
     dry_run \<or> list_all (lists_own (ds_registry d)) (purged_by (ds_registry d) tenant now) \<Longrightarrow>
     ds_apply_retention env tenant now dry_run d = (Inr report, d') \<Longrightarrow> daemon_run ok L cfg d'"
| run_event:
    "daemon_run ok L cfg d \<Longrightarrow> dir_named (dr_session_id x) \<Longrightarrow> ok (dr_payload x) \<Longrightarrow> inert (dl_json L) (dr_payload x) \<Longrightarrow>
     persist_record L env x d = (r6, d') \<Longrightarrow> r6 \<noteq> Inr Failed \<Longrightarrow> daemon_run ok L cfg d'"
| run_ebpf: "daemon_run ok L cfg d \<Longrightarrow> daemon_run ok L cfg (ds_set_ebpf s d)"
| run_adapter: "daemon_run ok L cfg d \<Longrightarrow> daemon_run ok L cfg (ds_set_adapter a s d)"

lemma journaled_start: "daemon_new L env cfg now [] = Inr d \<Longrightarrow> journaled cfg L d"
proof -
  assume d: "daemon_new L env cfg now [] = Inr d"
  then have p: "journal_part d = (registry_new (sc_max_sessions cfg) (sc_max_pending cfg), [], ([], []), True)"
    by (auto simp: daemon_new_def journal_part_def)
  let ?r = "registry_new (sc_max_sessions cfg) (sc_max_pending cfg)"
  have "replays (dl_json L) [] ?r sid" for sid
    by (simp add: replays_def mirrors_def replay_start_def owned_def session_view_def registry_new_def)
  then have "\<exists>H. stores_hold L d H \<and> (\<forall>sid. replays (dl_json L) (H sid) ?r sid)"
    using p by (intro exI [of _ "\<lambda>_. []"]) (simp add: stores_hold_def journal_part_def)
  moreover have "registry_inv ?r" by (rule registry_new_inv)
  moreover have "pending_indexed ?r" "limits ?r = (sc_max_sessions cfg, sc_max_pending cfg)"
    by (simp_all add: pending_indexed_def pending_list_def registry_new_def)
  ultimately show ?thesis using p by (simp add: journaled_def journal_part_def)
qed

lemma daemon_run_journaled:
  assumes L: "exact_lib ok L" and "daemon_run ok L cfg d"
  shows "journaled cfg L d"
  using assms(2)
proof induction
  case (run_ebpf d s)
  then show ?case by (elim journaled_cong [rotated]) (simp add: ds_set_ebpf_def journal_part_def)
next
  case (run_adapter d a s)
  then show ?case by (elim journaled_cong [rotated]) (simp add: ds_set_adapter_def journal_part_def)
qed (blast intro: journaled_start journaled_register [OF L] journaled_renew [OF L] journaled_close [OF L]
      journaled_discover [OF L] journaled_ingest [OF L] journaled_retention journaled_event [OF L])+

section \<open>Starting again\<close>

definition survives :: "session_registry \<Rightarrow> u64 \<Rightarrow> string \<Rightarrow> session_intent option" where
  "survives r now sid =
     (case session_view r sid of
        Some (i, status) \<Rightarrow> if status = StActive \<and> now < si_expires_at i then Some i else None
      | None \<Rightarrow> None)"

definition restored_state :: "session_registry \<Rightarrow> string \<Rightarrow> session_intent \<Rightarrow> session_state" where
  "restored_state r sid i =
     (session_state_new i)\<lparr>st_cgroup_ids := filter (\<lambda>c. owner_of r c = Some sid) (tracked_cgroups r)\<rparr>"

lemma attach_all_session:
  assumes "registry_wf r" and "session_at r sid = Some st" and "\<forall>c\<in>set cs. owner_of r c \<in> {None, Some sid}"
  shows "\<exists>r'. attach_all sid cs r = (Inr (), r')
    \<and> session_at r' = (session_at r)(sid \<mapsto> st\<lparr>st_cgroup_ids := fold add_cgroup cs (st_cgroup_ids st)\<rparr>)"
  using assms
proof (induction cs arbitrary: r st)
  case Nil
  then show ?case by (auto simp: fun_eq_iff)
next
  case (Cons c cs)
  let ?st = "st\<lparr>st_cgroup_ids := add_cgroup c (st_cgroup_ids st)\<rparr>"
  note m = maps_wfD(1,2) [OF registry_wfD(1) [OF Cons.prems(1)]]
  obtain r1 where a: "attach_known_cgroup sid c r = (Inr (), r1)"
    and r1: "session_at r1 = (session_at r)(sid \<mapsto> ?st)" "owner_of r1 = (owner_of r)(c \<mapsto> sid)"
    using Cons.prems(2,3) m
    by (auto simp: attach_known_cgroup_def ensure_cgroup_available_def frame_simps)
  have "registry_wf r1" using attach_wf [OF Cons.prems(1), of sid c] a by simp
  moreover have "\<forall>c\<in>set cs. owner_of r1 c \<in> {None, Some sid}" using Cons.prems(3) r1(2) by simp
  ultimately have "\<exists>r'. attach_all sid cs r1 = (Inr (), r')
      \<and> session_at r' = (session_at r1)(sid \<mapsto> ?st\<lparr>st_cgroup_ids := fold add_cgroup cs (st_cgroup_ids ?st)\<rparr>)"
    by (intro Cons.IH) (simp_all add: r1(1))
  then obtain r' where "attach_all sid cs r1 = (Inr (), r')"
    "session_at r' = (session_at r1)(sid \<mapsto> ?st\<lparr>st_cgroup_ids := fold add_cgroup cs (st_cgroup_ids ?st)\<rparr>)"
    by blast
  with a show ?case by (intro exI [of _ r']) (simp add: r1(1))
qed

lemma restore_attach:
  "registry_wf r \<Longrightarrow> active_at r sid \<Longrightarrow> attach_all sid cs r = (Inr (), r') \<Longrightarrow> restore_cgroups sid cs r = Inr r'"
proof (induction cs arbitrary: r)
  case (Cons c cs)
  then obtain r1 where a: "attach_known_cgroup sid c r = (Inr (), r1)" "attach_all sid cs r1 = (Inr (), r')"
    by (auto split: prod.splits sum.splits)
  have act: "active_at x sid \<longleftrightarrow> (\<exists>i. session_view x sid = Some (i, StActive))" for x
    by (auto simp: active_at_def session_view_def split: option.splits)
  have "active_at r1 sid"
    using attach_view(1) [OF registry_wfD(1) [OF Cons.prems(1)] a(1)] Cons.prems(2) by (simp add: act)
  moreover have "registry_wf r1" using attach_wf [OF Cons.prems(1), of sid c] a by simp
  moreover have "registry_discover sid c r = (Inr Attached, r1)"
    using Cons.prems(2) a(1)
    by (auto simp: registry_discover_def registry_associate_def active_at_def split: option.splits)
  ultimately show ?case using Cons.IH a(2) by simp
qed simp

lemma fold_add_cgroup:
  "set (fold add_cgroup cs ids) = set cs \<union> set ids"
  "bs_wf ids \<Longrightarrow> bs_wf (fold add_cgroup cs ids)"
  by (induction cs arbitrary: ids) auto

text \<open>Registering a session that is not there and restoring its cgroups.\<close>

lemma restore_fresh:
  assumes wf: "registry_wf r" and none: "sr_pending r = []" "session_at r sid = None"
    and room: "length (sr_sessions r) < sr_max_sessions r"
    and i: "validate_intent i now = Inr ()" "si_session_id i = sid"
    and free: "\<forall>c\<in>set cs. owner_of r c = None"
  obtains r1 r2 where "registry_register i now r = (Inr Inserted, r1)" "restore_cgroups sid cs r1 = Inr r2"
    "registry_wf r2" "sr_pending r2 = []" "sr_max_sessions r2 = sr_max_sessions r"
    "session_at r2 = (session_at r)(sid \<mapsto> (session_state_new i)\<lparr>st_cgroup_ids := fold add_cgroup cs []\<rparr>)"
    "owner_of r2 = (\<lambda>c. if c \<in> set cs then Some sid else owner_of r c)"
proof -
  define r1 where "r1 = put_session sid (session_state_new i) r"
  have reg: "registry_register i now r = (Inr Inserted, r1)"
    using none room i by (simp add: registry_register_def r1_def frame_simps)
  have wf1: "registry_wf r1" using register_wf [OF wf, of i now] reg by simp
  have s1: "session_at r1 = (session_at r)(sid \<mapsto> session_state_new i)"
    using maps_wfD(1) [OF registry_wfD(1) [OF wf]] by (simp add: r1_def frame_simps)
  have o1: "owner_of r1 = owner_of r" "sr_pending r1 = []" "sr_max_sessions r1 = sr_max_sessions r"
    using none by (simp_all add: r1_def frame_simps)
  obtain r2 where a: "attach_all sid cs r1 = (Inr (), r2)"
    and s2: "session_at r2 = (session_at r1)(sid \<mapsto> (session_state_new i)
        \<lparr>st_cgroup_ids := fold add_cgroup cs (st_cgroup_ids (session_state_new i))\<rparr>)"
    using attach_all_session [OF wf1, of sid "session_state_new i" cs] s1 free o1(1) by auto
  have act: "active_at r1 sid" using s1 by (simp add: active_at_def session_state_new_def)
  show ?thesis
  proof (rule that [OF reg restore_attach [OF wf1 act a]])
    show "registry_wf r2" using attach_all_wf [OF wf1, of sid cs] a by simp
    show "sr_pending r2 = []" using attach_all_view(3) [OF wf1 a] o1 by simp
    show "sr_max_sessions r2 = sr_max_sessions r" using attach_all_limits [of sid cs r1] a o1 by simp
    show "session_at r2 = (session_at r)(sid \<mapsto> (session_state_new i)\<lparr>st_cgroup_ids := fold add_cgroup cs []\<rparr>)"
      using s1 s2 by (simp add: session_state_new_def fun_eq_iff)
    show "owner_of r2 = (\<lambda>c. if c \<in> set cs then Some sid else owner_of r c)"
      unfolding attach_all_view(2) [OF wf1 a] o1(1) ..
  qed
qed

text \<open>
  What the scan has built after some of the directories: their surviving sessions, and
  the cgroups of these.
\<close>

definition started :: "session_registry \<Rightarrow> u64 \<Rightarrow> string set \<Rightarrow> session_registry \<Rightarrow> bool" where
  "started r now P q \<longleftrightarrow>
     registry_wf q \<and> sr_pending q = []
     \<and> session_at q = (\<lambda>sid. if sid \<in> P then map_option (restored_state r sid) (survives r now sid) else None)
     \<and> owner_of q = (\<lambda>c. case owner_of r c of
          Some sid \<Rightarrow> if sid \<in> P \<and> survives r now sid \<noteq> None then Some sid else None | None \<Rightarrow> None)"

lemma restored_ids:
  assumes "maps_wf r" and "set cs = owned r sid"
  shows "filter (\<lambda>c. owner_of r c = Some sid) (tracked_cgroups r) = fold add_cgroup cs []"
proof (rule sorted_distinct_set_unique)
  have "sorted_wrt (<) (tracked_cgroups r)"
    using maps_wfD(2) [OF assms(1)] by (simp add: tracked_cgroups_def bm_wf_def)
  then show "sorted (filter (\<lambda>c. owner_of r c = Some sid) (tracked_cgroups r))"
    "distinct (filter (\<lambda>c. owner_of r c = Some sid) (tracked_cgroups r))"
    by (auto simp: strict_sorted_iff sorted_wrt_filter intro: sorted_filter [of id, simplified])
  show "sorted (fold add_cgroup cs [])" "distinct (fold add_cgroup cs [])"
    using fold_add_cgroup(2) [of "[]" cs] by simp_all
  show "set (filter (\<lambda>c. owner_of r c = Some sid) (tracked_cgroups r)) = set (fold add_cgroup cs [])"
    using assms(2) by (auto simp: fold_add_cgroup(1) owned_def tracked_cgroups_def dom_bm_get [symmetric])
qed

lemma replay_survives:
  assumes m: "mirrors r sid s" and x: "replay_result now s = x"
  shows "case x of None \<Rightarrow> survives r now sid = None
    | Some (i, cs) \<Rightarrow> survives r now sid = Some i \<and> set cs = owned r sid \<and> validate_intent i now = Inr ()"
  using m by (auto simp: mirrors_def survives_def replay_result_def validate_intent_iff
      simp flip: x split: option.splits if_splits)

lemma restore_session_started:
  assumes r: "maps_wf r" and q: "started r now P (sg_registry g)" and new: "sid \<notin> P"
    and m: "mirrors r sid s" and cap: "length (sr_sessions r) \<le> sr_max_sessions (sg_registry g)"
  shows "\<exists>g'. restore_session env now sid (replay_result now s) g = Inr g'
    \<and> started r now (insert sid P) (sg_registry g')
    \<and> sr_max_sessions (sg_registry g') = sr_max_sessions (sg_registry g)"
proof (cases "replay_result now s")
  case None
  then have "survives r now sid = None" using replay_survives [OF m, of now] by simp
  then have "started r now (insert sid P) (sg_registry g)"
    using q by (auto simp: started_def fun_eq_iff split: option.splits)
  with None show ?thesis by (simp add: restore_session_def)
next
  case (Some p)
  obtain i cs where p: "p = (i, cs)" by (cases p)
  have sv: "survives r now sid = Some i" "set cs = owned r sid" "validate_intent i now = Inr ()"
    using replay_survives [OF m, of now] Some p by auto
  then obtain st where st: "session_at r sid = Some st" "st_intent st = i"
    by (auto simp: survives_def session_view_def split: option.splits if_splits)
  then have sid: "si_session_id i = sid" using maps_wfD(4) [OF r] by (auto simp: session_wf_def)
  let ?q = "sg_registry g"
  have qs: "registry_wf ?q" "sr_pending ?q = []" "session_at ?q sid = None"
    using q new by (auto simp: started_def)
  have "dom (session_at ?q) \<subseteq> dom (session_at r) - {sid}"
    using q new by (auto simp: started_def survives_def session_view_def split: if_splits option.splits)
  moreover have "sid \<in> dom (session_at r)" using st(1) by blast
  ultimately have "dom (session_at ?q) \<subset> dom (session_at r)" by blast
  then have "card (dom (session_at ?q)) < card (dom (session_at r))"
    by (rule psubset_card_mono [rotated]) (rule finite_dom_map_of)
  moreover have "card (dom (session_at x)) = length (sr_sessions x)" if "maps_wf x" for x
    using bm_distinct_keys [OF maps_wfD(1) [OF that]] distinct_card [of "map fst (sr_sessions x)"]
    by (simp add: dom_bm_get)
  ultimately have room: "length (sr_sessions ?q) < sr_max_sessions ?q"
    using cap r registry_wfD(1) [OF qs(1)] by simp
  have free: "\<forall>c\<in>set cs. owner_of ?q c = None"
    using q new sv(2) by (auto simp: started_def owned_def)
  obtain r1 r2 where r2: "registry_register i now ?q = (Inr Inserted, r1)" "restore_cgroups sid cs r1 = Inr r2"
    "registry_wf r2" "sr_pending r2 = []" "sr_max_sessions r2 = sr_max_sessions ?q"
    "session_at r2 = (session_at ?q)(sid \<mapsto> (session_state_new i)\<lparr>st_cgroup_ids := fold add_cgroup cs []\<rparr>)"
    "owner_of r2 = (\<lambda>c. if c \<in> set cs then Some sid else owner_of ?q c)"
    by (rule restore_fresh [OF qs room sv(3) sid free])
  have "started r now (insert sid P) r2"
    using q sv(1,2) r2(3,4,6,7) new restored_ids [OF r sv(2)]
    by (auto simp: started_def fun_eq_iff restored_state_def owned_def split: option.splits)
  with r2 Some p show ?thesis by (simp add: restore_session_def)
qed

text \<open>A directory of the scan whose bytes hold the records of a session.\<close>

definition recovers :: "'v daemon_lib \<Rightarrow> nat \<Rightarrow> bool \<Rightarrow> session_registry \<Rightarrow> string \<Rightarrow> string \<Rightarrow> bool" where
  "recovers L room clean r sid bytes \<longleftrightarrow>
     (\<exists>rc. create_or_recover (dl_chain L) room (Some bytes) = Inr rc
        \<and> replays (dl_json L) (map cr_payload (rc_records rc)) r sid
        \<and> (clean \<longrightarrow> rc_quarantined rc = None))"

lemma start_session_started:
  assumes r: "maps_wf r" and q: "started r now P (sg_registry g)" and new: "sid \<notin> P"
    and b: "recovers L (de_room env) clean r sid bytes"
    and cap: "length (sr_sessions r) \<le> sr_max_sessions (sg_registry g)"
  shows "case start_session L env dir now sid bytes g of
      Inl e \<Rightarrow> \<not> clean
    | Inr g' \<Rightarrow> started r now (insert sid P) (sg_registry g')
        \<and> sr_max_sessions (sg_registry g') = sr_max_sessions (sg_registry g)"
proof -
  obtain rc s where rc: "create_or_recover (dl_chain L) (de_room env) (Some bytes) = Inr rc"
    "clean \<longrightarrow> rc_quarantined rc = None"
    "replay_loop (dl_json L) (map cr_payload (rc_records rc)) replay_start = Inr s" "mirrors r sid s"
    using b by (auto simp: recovers_def replays_def)
  have act: "replay_active_session (dl_json L) (rc_records rc) now = Inr (replay_result now s)"
    by (simp add: replay_active_session_def rc(3))
  let ?g = "g\<lparr>sg_issue := sg_issue g \<or> rc_quarantined rc \<noteq> None\<rparr>"
  obtain g' where g': "restore_session env now sid (replay_result now s) ?g = Inr g'"
    "started r now (insert sid P) (sg_registry g')"
    "sr_max_sessions (sg_registry g') = sr_max_sessions (sg_registry g)"
    using restore_session_started [OF r _ new rc(4), where g = ?g and env = env and now = now] q cap by auto
  show ?thesis
    using rc(1,2) act g' by (auto simp: start_session_def Let_def split: sum.splits prod.splits if_splits)
qed

lemma start_all_started:
  assumes r: "maps_wf r"
  shows "started r now P (sg_registry g) \<Longrightarrow> distinct (map fst entries) \<Longrightarrow>
    P \<inter> fst ` set entries = {} \<Longrightarrow>
    (\<forall>(sid, bytes)\<in>set entries. recovers L (de_room env) clean r sid bytes) \<Longrightarrow>
    length (sr_sessions r) \<le> sr_max_sessions (sg_registry g) \<Longrightarrow>
    (case start_all L env dir now entries g of
       Inl e \<Rightarrow> \<not> clean
     | Inr g' \<Rightarrow> started r now (P \<union> fst ` set entries) (sg_registry g'))"
proof (induction entries arbitrary: g P)
  case (Cons e entries)
  obtain sid bytes where e: "e = (sid, bytes)" by (cases e)
  have step: "case start_session L env dir now sid bytes g of
      Inl e \<Rightarrow> \<not> clean
    | Inr g' \<Rightarrow> started r now (insert sid P) (sg_registry g')
        \<and> sr_max_sessions (sg_registry g') = sr_max_sessions (sg_registry g)"
    using Cons.prems by (intro start_session_started [OF r]) (auto simp: e)
  show ?case
  proof (cases "start_session L env dir now sid bytes g")
    case (Inl x)
    with step show ?thesis by (simp add: e)
  next
    case (Inr g')
    have "case start_all L env dir now entries g' of
        Inl e \<Rightarrow> \<not> clean | Inr x \<Rightarrow> started r now (insert sid P \<union> fst ` set entries) (sg_registry x)"
      using step Inr Cons.prems by (intro Cons.IH) (auto simp: e)
    moreover have "insert sid P \<union> fst ` set entries = P \<union> fst ` set (e # entries)" by (simp add: e)
    ultimately show ?thesis using Inr by (simp only: start_all.simps e sum.case)
  qed
qed simp

section \<open>The restart\<close>

text \<open>What is on the disk of each session, and a listing of it in some order.\<close>

definition timeline_bytes :: "daemon_state \<Rightarrow> string \<Rightarrow> string option" where
  "timeline_bytes d sid =
     (case bm_get (ds_stores d) sid of
        Some s \<Rightarrow> if sid \<in> set (ds_unlinked d) then None else Some (bw_disk (hs_writer s))
      | None \<Rightarrow> bm_get (ds_files d) sid)"

definition disk_listing :: "daemon_state \<Rightarrow> (string \<times> string) list \<Rightarrow> bool" where
  "disk_listing d entries \<longleftrightarrow> distinct (map fst entries) \<and> map_of entries = timeline_bytes d"

lemma clean_recover:
  assumes "store_flushed C s vs"
  obtains rc where "create_or_recover C room (Some (bw_disk (hs_writer s))) = Inr rc"
    "map cr_payload (rc_records rc) = vs" "rc_quarantined rc = None"
proof -
  obtain ls sc where h: "bw_disk (hs_writer s) = unlines ls" "list_all one_line ls"
    "scan_lines C ls scan_start = (sc, [])" "map cr_payload (cs_records sc) = vs"
    using assms by (auto simp: store_flushed_def store_holds_def bw_stream_def)
  have "create_or_recover C room (Some (unlines ls)) = Inr (recovered sc room ls [])"
    using recover_valid [OF h(2) _ h(3), of "[]" room] by simp
  with h show ?thesis by (intro that [of "recovered sc room ls []"]) (simp_all add: recovered_def)
qed

lemma journaled_recovers:
  assumes j: "journaled cfg L d" and b: "timeline_bytes d sid = Some bytes"
  shows "recovers L room (ds_storage_writable d) (ds_registry d) sid bytes"
proof -
  obtain H where H: "stores_hold L d H" "replays (dl_json L) (H sid) (ds_registry d) sid"
    using j by (auto simp: journaled_def)
  obtain s where s: "bm_get (ds_stores d) sid = Some s" "bytes = bw_disk (hs_writer s)"
    using b H(1) by (auto simp: timeline_bytes_def stores_hold_def split: option.splits if_splits)
  have t: "timeline_holds (dl_chain L) (ds_storage_writable d) (Some s) (H sid)"
    using H(1) s(1) unfolding stores_hold_def by metis
  show ?thesis
  proof (cases "ds_storage_writable d")
    case True
    with t obtain rc where "create_or_recover (dl_chain L) room (Some bytes) = Inr rc"
      "map cr_payload (rc_records rc) = H sid" "rc_quarantined rc = None"
      using clean_recover [of "dl_chain L" s "H sid" room] s(2) by auto
    with H(2) show ?thesis by (auto simp: recovers_def)
  next
    case False
    with t obtain rc where "create_or_recover (dl_chain L) room (Some bytes) = Inr rc"
      "map cr_payload (rc_records rc) = H sid"
      using bytes_hold_recover [of "dl_chain L" bytes "H sid" room] s(2) by auto
    with H(2) False show ?thesis by (auto simp: recovers_def)
  qed
qed

lemma journaled_no_timeline:
  assumes j: "journaled cfg L d" and none: "timeline_bytes d sid = None"
  shows "session_view (ds_registry d) sid = None" and "owned (ds_registry d) sid = {}"
proof -
  obtain H where H: "stores_hold L d H" "replays (dl_json L) (H sid) (ds_registry d) sid"
    using j by (auto simp: journaled_def)
  have "bm_get (ds_stores d) sid = None"
    using none H(1) by (simp add: timeline_bytes_def stores_hold_def split: option.splits)
  then have "H sid = []" using H(1) unfolding stores_hold_def by (metis timeline_holds_simps(1))
  with H(2) show "session_view (ds_registry d) sid = None" "owned (ds_registry d) sid = {}"
    by (auto simp: replays_def mirrors_def replay_start_def split: option.splits)
qed

text \<open>C2. Restart. Take the daemon after a run from an empty directory, of operations that may have
  failed, on a device that may have filled up on the way, and kill it; start a daemon on what is
  on the disk, listed in any order. If storage was still writable it starts. When it starts,
  its sessions are exactly those that were active and not due, each with the same intent
  and expiry, and a cgroup is attributed to a session exactly when it was before and the
  session is one of these. The runs are those of \<open>daemon_run\<close>: not the ones with a session closed
  or purged while its list names a cgroup that another session owns, with retention that failed,
  with an event that could not be written, or with a session id that is not the name of a
  directory of its own.\<close>

theorem restart_restores:
  assumes "exact_lib ok L" and "daemon_run ok L cfg d" and "disk_listing d entries"
    and "sc_max_sessions cfg \<le> sc_max_sessions cfg'"
  shows "case daemon_new L env cfg' now entries of
      Inl e \<Rightarrow> \<not> ds_storage_writable d
    | Inr d' \<Rightarrow>
        (\<forall>sid. ds_query sid d' =
           (case ds_query sid d of
              Some st \<Rightarrow>
                if st_status st = StActive \<and> now < st_expires_at st then
                  Some (st\<lparr>st_cgroup_ids :=
                          filter (\<lambda>c. ds_session_for_cgroup c d = Some sid) (ds_tracked_cgroups d)\<rparr>)
                else None
            | None \<Rightarrow> None))
        \<and> (\<forall>c. ds_session_for_cgroup c d' =
             (case ds_session_for_cgroup c d of
                Some sid \<Rightarrow> if ds_query sid d' \<noteq> None then Some sid else None
              | None \<Rightarrow> None))"
proof -
  let ?r = "ds_registry d"
  have j: "journaled cfg L d" by (rule daemon_run_journaled [OF assms(1,2)])
  have wf: "maps_wf ?r" and cnt: "counts_wf ?r" and cap: "sr_max_sessions ?r = sc_max_sessions cfg"
    using journaled_inv(1) [OF j] j by (auto simp: registry_inv_def registry_wf_def journaled_def)
  define g0 where "g0 = \<lparr>sg_registry = registry_new (sc_max_sessions cfg') (sc_max_pending cfg'),
      sg_stores = [], sg_policies = [], sg_issue = False\<rparr>"
  have "started ?r now {} (sg_registry g0)"
    using registry_new_inv [of "sc_max_sessions cfg'" "sc_max_pending cfg'"]
    by (simp add: started_def g0_def registry_new_def registry_inv_def fun_eq_iff split: option.splits)
  moreover have "\<forall>(sid, bytes)\<in>set entries. recovers L (de_room env) (ds_storage_writable d) ?r sid bytes"
    using assms(3) journaled_recovers [OF j]
    by (auto simp: disk_listing_def) (metis map_of_eq_Some_iff)
  moreover have "length (sr_sessions ?r) \<le> sr_max_sessions (sg_registry g0)"
    using cnt cap assms(4) by (simp add: g0_def registry_new_def counts_wf_def)
  ultimately have st: "case start_all L env (path_join (sc_state_dir cfg') ''sessions'') now entries g0 of
      Inl e \<Rightarrow> \<not> ds_storage_writable d
    | Inr g' \<Rightarrow> started ?r now ({} \<union> fst ` set entries) (sg_registry g')"
    using assms(3) by (intro start_all_started [OF wf]) (simp_all add: disk_listing_def)
  show ?thesis
  proof (cases "start_all L env (path_join (sc_state_dir cfg') ''sessions'') now entries g0")
    case (Inl e)
    with st show ?thesis by (simp add: daemon_new_def g0_def)
  next
    case (Inr g)
    then obtain d' where d': "daemon_new L env cfg' now entries = Inr d'" "ds_registry d' = sg_registry g"
      by (simp add: daemon_new_def g0_def)
    have s: "started ?r now (fst ` set entries) (sg_registry g)" using st Inr by simp
    have gone: "session_view ?r sid = None \<and> owned ?r sid = {}" if "sid \<notin> fst ` set entries" for sid
      using journaled_no_timeline [OF j, of sid] that assms(3)
      by (simp add: disk_listing_def map_of_eq_None_iff [symmetric])
    have q: "ds_query sid d' = map_option (restored_state ?r sid) (survives ?r now sid)" for sid
      using s gone [of sid] by (auto simp: ds_query_def d'(2) started_def survives_def)
    have sv: "survives ?r now sid = (case session_at ?r sid of
        Some st \<Rightarrow> if st_status st = StActive \<and> now < st_expires_at st then Some (st_intent st) else None
      | None \<Rightarrow> None)" for sid
      using maps_wfD(4) [OF wf] by (auto simp: survives_def session_view_def session_wf_def split: option.splits)
    have state: "restored_state ?r sid (st_intent st) =
        st\<lparr>st_cgroup_ids := filter (\<lambda>c. owner_of ?r c = Some sid) (tracked_cgroups ?r)\<rparr>"
      if "session_at ?r sid = Some st" "st_status st = StActive" for sid st
      using maps_wfD(4) [OF wf that(1)] that(2) by (simp add: restored_state_def session_state_new_def session_wf_def)
    have "owner_of (sg_registry g) c = (case owner_of ?r c of
        Some sid \<Rightarrow> if survives ?r now sid \<noteq> None then Some sid else None | None \<Rightarrow> None)" for c
      using s gone by (auto simp: started_def owned_def survives_def split: option.splits)
    then have "ds_session_for_cgroup c d' = (case ds_session_for_cgroup c d of
        Some sid \<Rightarrow> if ds_query sid d' \<noteq> None then Some sid else None | None \<Rightarrow> None)" for c
      by (simp add: ds_session_for_cgroup_def session_for_cgroup_def d'(2) q split: option.splits)
    moreover have "ds_query sid d' =
        (case ds_query sid d of
           Some st \<Rightarrow>
             if st_status st = StActive \<and> now < st_expires_at st then
               Some (st\<lparr>st_cgroup_ids :=
                       filter (\<lambda>c. ds_session_for_cgroup c d = Some sid) (ds_tracked_cgroups d)\<rparr>)
             else None
         | None \<Rightarrow> None)" for sid
      unfolding q sv
      using state by (auto simp: ds_query_def ds_session_for_cgroup_def session_for_cgroup_def
          ds_tracked_cgroups_def split: option.splits)
    ultimately show ?thesis unfolding d'(1) by simp
  qed
qed

section \<open>A run to start again from\<close>

text \<open>With room for its line a record is written and flushed.\<close>

lemma append_flush_room:
  assumes v: "cl_print_value (dl_chain L) v = Inr p" "cl_parse_value (dl_chain L) p = Inr v"
    and r: "r = \<lparr>cr_schema_version = 1, cr_sequence = sat_add (hs_sequence s) 1,
        cr_previous_hash = hs_previous_hash s,
        cr_record_hash = calculate_hash (dl_chain L) 1 (sat_add (hs_sequence s) 1) (hs_previous_hash s) p,
        cr_payload = v\<rparr>"
    and line: "cl_print_record (dl_chain L) r = Inr line"
    and room: "bw_buffer (hs_writer s) = []" "length line + 1 \<le> bw_room (hs_writer s)"
  shows "fst (append_flush L m1 m2 m3 v s) = Inr ()"
proof -
  obtain w1 where w1: "bw_write_all line (hs_writer s) = (Inr (), w1)"
    "length (bw_buffer w1) + bw_room (hs_writer s) = bw_room w1 + length line"
    using bw_write_room [of "hs_writer s" line] room
    by (cases "bw_write_all line (hs_writer s)") (auto simp: is_ok_iff)
  then obtain w2 where w2: "bw_write_all [ch_nl] w1 = (Inr (), w2)"
    "length (bw_buffer w2) + bw_room w1 = bw_room w2 + length (bw_buffer w1) + 1"
    using bw_write_room [of w1 "[ch_nl]"] room by (cases "bw_write_all [ch_nl] w1") (auto simp: is_ok_iff)
  have "length (bw_buffer w2) \<le> bw_room w2" using w1(2) w2(2) room(2) by linarith
  then have "fst (bw_flush w2) = Inr ()" by (simp add: bw_flush_room)
  then show ?thesis
    using v line w1(1) w2(1)
    by (simp add: append_flush_def append_json_def Let_def r chain_flush_def case_prod_beta split: prod.splits)
qed

definition sample_daemon_lib :: "json daemon_lib" where
  "sample_daemon_lib = \<lparr>dl_chain = json_chain_lib, dl_json = sample_json_lib\<rparr>"

lemma sample_exact_lib: "exact_lib (\<lambda>_. True) sample_daemon_lib"
  by (simp add: exact_lib_def sample_daemon_lib_def sample_json_laws json_chain_exact)

abbreviation restart_intent :: session_intent where
  "restart_intent \<equiv> sample_intent ''t'' ''a''"

definition restart_record :: "json chain_record" where
  "restart_record =
     (let v = v_intent_registered sample_json_lib restart_intent in
      \<lparr>cr_schema_version = 1, cr_sequence = sat_add 0 1, cr_previous_hash = zero_hash,
       cr_record_hash = calculate_hash json_chain_lib 1 (sat_add 0 1) zero_hash (json_print v), cr_payload = v\<rparr>)"

definition sample_env :: daemon_env where
  "sample_env =
     \<lparr>de_room = length (json_print (record_to_json restart_record)) + 1, de_track = (\<lambda>_. Inr ()),
      de_untrack = (\<lambda>_. Inr ()), de_read_file = (\<lambda>_. None), de_quarantine_path = (\<lambda>p. p @ ''.quarantine''),
      de_remove_dir = (\<lambda>_. Inr ()), de_spares = (\<lambda>_ _. False),
      de_feedback = (\<lambda>_. Inr ())\<rparr>"

definition sample_start :: start_config where
  "sample_start =
     \<lparr>sc_state_dir = ''/var/lib/apolysis'', sc_max_sessions = 4, sc_max_pending = 4,
      sc_queue_capacity = 4, sc_feedback = False, sc_scope = False\<rparr>"

definition restart_first :: daemon_state where
  "restart_first =
     (case daemon_new sample_daemon_lib sample_env sample_start 0 [] of Inr d \<Rightarrow> d | Inl _ \<Rightarrow> undefined)"

definition restart_second :: daemon_state where
  "restart_second = snd (ds_register sample_daemon_lib sample_env restart_intent 1 restart_first)"

lemma restart_first: "daemon_new sample_daemon_lib sample_env sample_start 0 [] = Inr restart_first"
  by (simp add: restart_first_def daemon_new_def)

lemma restart_run: "daemon_run (\<lambda>_. True) sample_daemon_lib sample_start restart_second"
  unfolding restart_second_def
proof (rule run_register [OF run_start [OF restart_first]])
  show "dir_named (si_session_id restart_intent)" by (simp add: dir_named_def file_name_def sample_intent_def)
qed (rule prod.collapse [symmetric])

lemma restart_listing: "disk_listing restart_second [(''a'', the (timeline_bytes restart_second ''a''))]"
  and restart_registry:
    "ds_registry restart_second = put_session ''a'' (session_state_new restart_intent) (registry_new 4 4)"
  and restart_writable: "ds_storage_writable restart_second"
proof -
  let ?L = sample_daemon_lib and ?v = "v_intent_registered sample_json_lib restart_intent"
  have d: "ds_registry restart_first = registry_new 4 4" "ds_stores restart_first = []" "ds_files restart_first = []"
    "ds_unlinked restart_first = []" "ds_storage_writable restart_first"
    by (simp_all add: restart_first_def daemon_new_def sample_start_def)
  have reg: "registry_register restart_intent 1 (registry_new 4 4) =
      (Inr Inserted, put_session ''a'' (session_state_new restart_intent) (registry_new 4 4))"
    by code_simp
  obtain rc where rc: "create_or_recover json_chain_lib (de_room sample_env) None = Inr rc"
    "rc_store rc = \<lparr>hs_writer = bw_new [] (de_room sample_env), hs_sequence = 0, hs_previous_hash = zero_hash\<rparr>"
    by (simp add: create_or_recover_def validate_existing_def newline_positions_def scan_start_def)
  obtain s where af: "append_flush ?L ''failed to serialize session record: ''
      ''failed to append session timeline: '' ''failed to flush session timeline: '' ?v (rc_store rc) = (Inr (), s)"
    using append_flush_room [of ?L ?v "json_print ?v" restart_record "rc_store rc"
        "json_print (record_to_json restart_record)"]
    by (auto simp: rc(2) sample_daemon_lib_def json_chain_lib_def json_text.dec_enc restart_record_def Let_def
        bw_new_def sample_env_def prod_eq_iff intro: that)
  have "ds_persist ?L sample_env ''a'' ?v restart_first =
      (Inr (), put_store ''a'' s (put_store ''a'' (rc_store rc) restart_first))"
    using d rc(1) af
    by (simp add: ds_persist_def persist_inner_def open_store_def sample_daemon_lib_def)
  then have second: "restart_second =
      (put_store ''a'' s (put_store ''a'' (rc_store rc) restart_first))
        \<lparr>ds_registry := put_session ''a'' (session_state_new restart_intent) (registry_new 4 4),
         ds_policies := bm_insert ''a'' None (ds_policies restart_first)\<rparr>"
    using reg d(1)
    by (simp add: restart_second_def ds_register_def sample_daemon_lib_def sample_intent_def put_store_def
        load_redaction_policy_def sample_env_def)
  have "ds_stores restart_second = [(''a'', s)]" "ds_files restart_second = []" "ds_unlinked restart_second = []"
    unfolding second by (simp_all add: d put_store_def)
  then show "disk_listing restart_second [(''a'', the (timeline_bytes restart_second ''a''))]"
    by (simp add: disk_listing_def timeline_bytes_def fun_eq_iff)
  show "ds_registry restart_second = put_session ''a'' (session_state_new restart_intent) (registry_new 4 4)"
    "ds_storage_writable restart_second"
    unfolding second by (simp_all add: d put_store_def)
qed

theorem restart_restores_witness:
  "case daemon_new sample_daemon_lib sample_env sample_start 2
      [(''a'', the (timeline_bytes restart_second ''a''))] of
     Inl _ \<Rightarrow> False
   | Inr d' \<Rightarrow> ds_query ''a'' d' = Some (session_state_new restart_intent)"
proof -
  note * = restart_restores [OF sample_exact_lib restart_run restart_listing,
      where cfg' = sample_start and env = sample_env and now = 2]
  have st: "ds_query ''a'' restart_second = Some (session_state_new restart_intent)"
    "ds_tracked_cgroups restart_second = []"
    by (simp_all add: ds_query_def ds_tracked_cgroups_def restart_registry put_session_def registry_new_def
        tracked_cgroups_def)
  have active: "st_status (session_state_new restart_intent) = StActive"
    "(2::u64) < st_expires_at (session_state_new restart_intent)" "st_cgroup_ids (session_state_new restart_intent) = []"
    by (simp_all add: session_state_new_def sample_intent_def)
  show ?thesis
  proof (cases "daemon_new sample_daemon_lib sample_env sample_start 2
      [(''a'', the (timeline_bytes restart_second ''a''))]")
    case (Inl e)
    with * restart_writable show ?thesis by simp
  next
    case (Inr d')
    with * have "ds_query ''a'' d' = (case ds_query ''a'' restart_second of
        Some st \<Rightarrow>
          if st_status st = StActive \<and> 2 < st_expires_at st then
            Some (st\<lparr>st_cgroup_ids :=
              filter (\<lambda>c. ds_session_for_cgroup c restart_second = Some ''a'') (ds_tracked_cgroups restart_second)\<rparr>)
          else None
      | None \<Rightarrow> None)" by simp
    with Inr active show ?thesis by (simp add: st)
  qed
qed

section \<open>Operations that fail\<close>

text \<open>What a client sees of the sessions: the registry, the policies and the paused sessions.\<close>

definition same_sessions :: "daemon_state \<Rightarrow> daemon_state \<Rightarrow> bool" where
  "same_sessions d d' \<longleftrightarrow>
     ds_registry d' = ds_registry d \<and> ds_policies d' = ds_policies d \<and> ds_paused d' = ds_paused d"

lemma same_sessions_refl [simp]: "same_sessions d d"
  by (simp add: same_sessions_def)

lemma same_sessions_trans: "same_sessions d d1 \<Longrightarrow> same_sessions d1 d2 \<Longrightarrow> same_sessions d d2"
  by (simp add: same_sessions_def)

lemma persist_same_sessions: "ds_persist L env sid v d = (res, d') \<Longrightarrow> same_sessions d d'"
  by (auto simp: ds_persist_def persist_inner_def open_store_def put_store_def same_sessions_def Let_def
      split: if_splits sum.splits prod.splits option.splits)

lemma scope_same_sessions:
  "scope_track env c d = (res, d') \<Longrightarrow> same_sessions d d'"
  "scope_untrack env c d = (res, d') \<Longrightarrow> same_sessions d d'"
  by (auto simp: scope_track_def scope_untrack_def same_sessions_def split: sum.splits)

lemma retrack_same_sessions: "retrack env cs d = (res, d') \<Longrightarrow> same_sessions d d'"
proof (induction cs arbitrary: d)
  case (Cons c cs)
  then show ?case
    by (auto split: prod.splits sum.splits dest: scope_same_sessions(1) intro: same_sessions_trans)
qed simp

lemma retrack_quietly_same_sessions: "same_sessions d (retrack_quietly env cs d)"
proof (induction cs arbitrary: d)
  case (Cons c cs)
  have "same_sessions d (snd (scope_track env c d))"
    using scope_same_sessions(1) by (metis prod.collapse)
  with Cons [of "snd (scope_track env c d)"] show ?case
    by (auto simp: retrack_quietly_def intro: same_sessions_trans)
qed (simp add: retrack_quietly_def)

lemma untrack_all_same_sessions: "untrack_all env removed cs d = (res, d') \<Longrightarrow> same_sessions d d'"
proof (induction cs arbitrary: removed d)
  case (Cons c cs)
  then show ?case
    by (auto split: prod.splits sum.splits dest: scope_same_sessions(2)
        intro: same_sessions_trans retrack_quietly_same_sessions)
qed simp

text \<open>C24. Errors. When a registration, renewal, closing or discovery returns an error, at
  whatever point it failed (the registry refused it, the scope worker did, the record could
  not be written, or undoing the scope failed too), every session, policy and attribution is
  as it was.\<close>

theorem failed_operation_keeps_sessions:
  "(case ds_register L env i now d of (Inl e, d') \<Rightarrow> same_sessions d d' | (Inr _, _) \<Rightarrow> True)
   \<and> (case ds_renew L env sid expires now d of (Inl e, d') \<Rightarrow> same_sessions d d' | (Inr _, _) \<Rightarrow> True)
   \<and> (case ds_close L env sid d of (Inl e, d') \<Rightarrow> same_sessions d d' | (Inr _, _) \<Rightarrow> True)
   \<and> (case ds_discover_cgroup L env sid c d of (Inl e, d') \<Rightarrow> same_sessions d d' | (Inr _, _) \<Rightarrow> True)"
proof (intro conjI)
  show "case ds_register L env i now d of (Inl e, d') \<Rightarrow> same_sessions d d' | (Inr _, _) \<Rightarrow> True"
    by (auto simp: ds_register_def split: prod.splits sum.splits dest: persist_same_sessions)
  show "case ds_renew L env sid expires now d of (Inl e, d') \<Rightarrow> same_sessions d d' | (Inr _, _) \<Rightarrow> True"
    by (auto simp: ds_renew_def split: prod.splits sum.splits dest: persist_same_sessions)
  show "case ds_close L env sid d of (Inl e, d') \<Rightarrow> same_sessions d d' | (Inr _, _) \<Rightarrow> True"
    by (auto simp: ds_close_def split: prod.splits sum.splits if_splits
        dest!: persist_same_sessions untrack_all_same_sessions retrack_same_sessions
        intro: same_sessions_trans)
  show "case ds_discover_cgroup L env sid c d of (Inl e, d') \<Rightarrow> same_sessions d d' | (Inr _, _) \<Rightarrow> True"
    by (auto simp: ds_discover_cgroup_def split: prod.splits sum.splits if_splits
        dest!: persist_same_sessions scope_same_sessions intro: same_sessions_trans)
qed

section \<open>Where the daemon departs from what it means to do\<close>

text \<open>
  A degraded session gives up its cgroups in memory, but its timeline still claims them.
  When another session has discovered one since, both claim it at the restart, and the
  daemon does not start.
\<close>

lemma cgroup_claimed_twice_stops_start:
  "(case restore_cgroups ''a'' [7] (live_registry
          [OpRegister (sample_intent ''t'' ''a'') 1, OpRegister (sample_intent ''t'' ''b'') 1] 4 4) of
      Inl _ \<Rightarrow> False
    | Inr r \<Rightarrow> (case restore_cgroups ''b'' [7] r of Inl _ \<Rightarrow> True | Inr _ \<Rightarrow> False))"
  by code_simp

text \<open>
  The name of a session is the name of its directory, and the checks let through the two names
  that every directory has. Removing the state of a session called so takes the timelines of all
  the sessions, those of other tenants too, and what open sessions still write is lost with them.
\<close>

lemma dot_names_are_valid:
  "validate_intent (sample_intent ''t'' ''.'') 1 = Inr ()" "validate_intent (sample_intent ''t'' ''..'') 1 = Inr ()"
  by code_simp+

lemma dot_session_takes_every_timeline:
  assumes "sid = ''.'' \<or> sid = ''..''" and "dir_named other" and "ds_sessions_dir d = path_join state ''sessions''"
  shows "timeline_bytes (snd (remove_session_dir (env\<lparr>de_spares := \<lambda>_ _. False\<rparr>)
      (path_join (ds_sessions_dir d) sid) d)) other = None"
proof -
  have below: "dir_below (path_join (ds_sessions_dir d) sid) (path_join (ds_sessions_dir d) other)"
    using dir_below_all [OF assms(2,1)] assms(3) by simp
  then have "bm_get (filter (\<lambda>p. \<not> dir_below (path_join (ds_sessions_dir d) sid)
      (path_join (ds_sessions_dir d) (fst p))) m) other = None" for m :: "(string, string) bmap"
    by (auto simp: map_of_eq_None_iff)
  moreover have "other \<in> fst ` set (ds_stores d)" if "bm_get (ds_stores d) other = Some s" for s
    using that by (auto dest!: map_of_SomeD intro: image_eqI [of _ _ "(other, s)"])
  ultimately show ?thesis
    using below by (auto simp: timeline_bytes_def remove_session_dir_def Let_def split: option.splits)
qed

text \<open>
  The session id of a runtime workload is whatever label it carries. One that starts with a slash
  is its own path, and one with \<open>..\<close> in it leaves the directory of the sessions: the daemon
  creates a timeline there.
\<close>

lemma workload_names_a_path:
  "session_timeline ''/var/lib/apolysis/sessions'' ''/etc/x'' = ''/etc/x/timeline.jsonl''"
  "resolved_dir (session_timeline ''/var/lib/apolysis/sessions'' ''../../../../etc/x'') =
     [RootDir, NormalDir ''etc'', NormalDir ''x'', NormalDir ''timeline.jsonl'']"
  by code_simp+

end
