(* ===== verification/Rust_Net.thy ===== *)
theory Rust_Net
  imports Rust_Text
begin

text \<open>
  What the code uses of \<open>std::net\<close>: the parsers of IP and socket addresses and the display of
  IPv4 and IPv6 addresses; and \<open>String::from_utf8_lossy\<close>.
\<close>

section \<open>Readers\<close>

definition to_digit :: "nat \<Rightarrow> char \<Rightarrow> nat option" where
  "to_digit radix c =
     (let v = (if is_ascii_digit c then byte_val c - 48
               else if is_ascii_lower c then byte_val c - 87
               else if is_ascii_upper c then byte_val c - 55
               else 36)
      in if v < radix then Some v else None)"

text \<open>\<open>bound\<close> is the number of values of the type, \<open>n\<close> the digits read so far.\<close>

fun read_digits :: "nat \<Rightarrow> nat \<Rightarrow> nat option \<Rightarrow> nat \<Rightarrow> nat \<Rightarrow> string \<Rightarrow> (nat \<times> nat \<times> string) option" where
  "read_digits radix bound limit n acc [] = Some (acc, n, [])"
| "read_digits radix bound limit n acc (c # cs) =
     (case to_digit radix c of
        None \<Rightarrow> Some (acc, n, c # cs)
      | Some d \<Rightarrow>
          (if bound \<le> acc * radix + d \<or> (case limit of None \<Rightarrow> False | Some m \<Rightarrow> m < Suc n) then None
           else read_digits radix bound limit (Suc n) (acc * radix + d) cs))"

definition read_number :: "nat \<Rightarrow> nat \<Rightarrow> nat option \<Rightarrow> bool \<Rightarrow> string \<Rightarrow> (nat \<times> string) option" where
  "read_number radix bound limit zero_prefix s =
     (case read_digits radix bound limit 0 0 s of
        None \<Rightarrow> None
      | Some (v, n, rest) \<Rightarrow>
          (if n = 0 \<or> (\<not> zero_prefix \<and> prefix ''0'' s \<and> 1 < n) then None else Some (v, rest)))"

definition read_char :: "char \<Rightarrow> string \<Rightarrow> string option" where
  "read_char c s = (case s of [] \<Rightarrow> None | x # xs \<Rightarrow> if x = c then Some xs else None)"

text \<open>Four octets, separated by dots.\<close>

definition read_ipv4 :: "string \<Rightarrow> (nat list \<times> string) option" where
  "read_ipv4 s =
     (case read_number 10 256 (Some 3) False s of
        None \<Rightarrow> None
      | Some (a, s1) \<Rightarrow>
     (case Option.bind (read_char (CHR ''.'') s1) (read_number 10 256 (Some 3) False) of
        None \<Rightarrow> None
      | Some (b, s2) \<Rightarrow>
     (case Option.bind (read_char (CHR ''.'') s2) (read_number 10 256 (Some 3) False) of
        None \<Rightarrow> None
      | Some (c, s3) \<Rightarrow>
     (case Option.bind (read_char (CHR ''.'') s3) (read_number 10 256 (Some 3) False) of
        None \<Rightarrow> None
      | Some (d, s4) \<Rightarrow> Some ([a, b, c, d], s4)))))"

text \<open>
  \<open>read_groups\<close> reads up to \<open>left\<close> groups, \<open>i\<close> of them read so far, and tells whether the
  last two were an embedded IPv4 address.
\<close>

fun read_groups :: "nat \<Rightarrow> nat \<Rightarrow> nat list \<Rightarrow> string \<Rightarrow> nat list \<times> bool \<times> string" where
  "read_groups 0 i gs s = (gs, False, s)"
| "read_groups (Suc left) i gs s =
     (let sep = (if i = 0 then Some s else read_char (CHR '':'') s) in
      case (if 0 < left then Option.bind sep read_ipv4 else None) of
        Some (os, rest) \<Rightarrow> (gs @ [os ! 0 * 256 + os ! 1, os ! 2 * 256 + os ! 3], True, rest)
      | None \<Rightarrow>
          (case Option.bind sep (read_number 16 65536 (Some 4) True) of
             Some (g, rest) \<Rightarrow> read_groups left (Suc i) (gs @ [g]) rest
           | None \<Rightarrow> (gs, False, s)))"

definition read_ipv6 :: "string \<Rightarrow> (nat list \<times> string) option" where
  "read_ipv6 s =
     (let (front, ipv4, s1) = read_groups 8 0 [] s in
      if length front = 8 then Some (front, s1)
      else if ipv4 then None
      else
        (case Option.bind (read_char (CHR '':'') s1) (read_char (CHR '':'')) of
           None \<Rightarrow> None
         | Some s2 \<Rightarrow>
             (let (back, _, s3) = read_groups (7 - length front) 0 [] s2
              in Some (front @ replicate (8 - length front - length back) 0 @ back, s3))))"

definition parses_ip_addr :: "string \<Rightarrow> bool" where
  "parses_ip_addr s \<longleftrightarrow>
     (case read_ipv4 s of
        Some (_, rest) \<Rightarrow> rest = []
      | None \<Rightarrow> (case read_ipv6 s of Some (_, rest) \<Rightarrow> rest = [] | None \<Rightarrow> False))"

definition read_port :: "string \<Rightarrow> (nat \<times> string) option" where
  "read_port s = Option.bind (read_char (CHR '':'') s) (read_number 10 65536 None True)"

definition read_scope_id :: "string \<Rightarrow> (nat \<times> string) option" where
  "read_scope_id s = Option.bind (read_char (CHR ''%'') s) (read_number 10 (2 ^ 32) None True)"

definition read_socket_v6 :: "string \<Rightarrow> (nat \<times> string) option" where
  "read_socket_v6 s =
     (case Option.bind (read_char (CHR ''['') s) read_ipv6 of
        None \<Rightarrow> None
      | Some (_, s1) \<Rightarrow>
          (let s2 = (case read_scope_id s1 of Some (_, r) \<Rightarrow> r | None \<Rightarrow> s1)
           in Option.bind (read_char (CHR '']'') s2) read_port))"

definition parses_socket_addr :: "string \<Rightarrow> bool" where
  "parses_socket_addr s \<longleftrightarrow>
     (case Option.bind (read_ipv4 s) (\<lambda>(_, r). read_port r) of
        Some (_, rest) \<Rightarrow> rest = []
      | None \<Rightarrow> (case read_socket_v6 s of Some (_, rest) \<Rightarrow> rest = [] | None \<Rightarrow> False))"

text \<open>A text that begins with neither a digit, a colon nor a bracket is no address.\<close>

lemma to_digit_mono: "to_digit 16 c = None \<Longrightarrow> to_digit 10 c = None"
  by (auto simp: to_digit_def Let_def split: if_splits)

lemma no_number:
  "to_digit 16 c = None \<Longrightarrow> read_number 16 bound limit z (c # cs) = None"
  "to_digit 16 c = None \<Longrightarrow> read_number 10 bound limit z (c # cs) = None"
  by (simp_all add: read_number_def to_digit_mono)

lemma no_address:
  assumes "to_digit 16 c = None" "c \<noteq> CHR '':''" "c \<noteq> CHR ''[''"
  shows "\<not> parses_ip_addr (c # cs)" and "\<not> parses_socket_addr (c # cs)"
proof -
  have v4: "read_ipv4 (c # cs) = None" by (simp add: read_ipv4_def no_number [OF assms(1)])
  have "read_groups (Suc 7) 0 [] (c # cs) = ([], False, c # cs)"
    by (simp only: read_groups.simps) (simp add: v4 no_number [OF assms(1)])
  then have v6: "read_ipv6 (c # cs) = None"
    using assms(2) by (simp add: read_ipv6_def read_char_def)
  show "\<not> parses_ip_addr (c # cs)" by (simp add: parses_ip_addr_def v4 v6)
  show "\<not> parses_socket_addr (c # cs)"
    using assms(3) by (simp add: parses_socket_addr_def v4 read_socket_v6_def read_char_def)
qed

section \<open>Display\<close>

fun hex_str :: "nat \<Rightarrow> string" where
  "hex_str n = (if n < 16 then [hex_digit n] else hex_str (n div 16) @ [hex_digit (n mod 16)])"

declare hex_str.simps [simp del]

definition ipv4_str :: "nat list \<Rightarrow> string" where
  "ipv4_str os = join_with ''.'' (map dec_str os)"

text \<open>
  The first of the longest runs of zero segments, as its start and length; \<open>cur\<close> is the run
  that ends here.
\<close>

fun zero_run :: "nat \<Rightarrow> nat \<times> nat \<Rightarrow> nat \<times> nat \<Rightarrow> nat list \<Rightarrow> nat \<times> nat" where
  "zero_run i best cur [] = best"
| "zero_run i best cur (g # gs) =
     (if g = 0 then
        (let cur' = (if snd cur = 0 then i else fst cur, snd cur + 1)
         in zero_run (Suc i) (if snd best < snd cur' then cur' else best) cur' gs)
      else zero_run (Suc i) best (0, 0) gs)"

definition groups_str :: "nat list \<Rightarrow> string" where
  "groups_str gs = join_with '':'' (map hex_str gs)"

definition ipv6_str :: "nat list \<Rightarrow> string" where
  "ipv6_str gs =
     (if take 6 gs = [0, 0, 0, 0, 0, 0xFFFF] then
        ''::ffff:'' @ ipv4_str [gs ! 6 div 256, gs ! 6 mod 256, gs ! 7 div 256, gs ! 7 mod 256]
      else
        (let (start, n) = zero_run 0 (0, 0) (0, 0) gs in
         if 1 < n then groups_str (take start gs) @ ''::'' @ groups_str (drop (start + n) gs)
         else groups_str gs))"

section \<open>UTF-8\<close>

definition cont_byte :: "char \<Rightarrow> bool" where
  "cont_byte c \<longleftrightarrow> byte_val c div 64 = 2"

text \<open>The second bytes that may follow a first byte of three or four.\<close>

definition second_byte_ok :: "nat \<Rightarrow> nat \<Rightarrow> bool" where
  "second_byte_ok a b \<longleftrightarrow>
     (if a = 0xE0 then 0xA0 \<le> b \<and> b \<le> 0xBF
      else if a = 0xED then 0x80 \<le> b \<and> b \<le> 0x9F
      else if a = 0xF0 then 0x90 \<le> b \<and> b \<le> 0xBF
      else if a = 0xF4 then 0x80 \<le> b \<and> b \<le> 0x8F
      else 0x80 \<le> b \<and> b \<le> 0xBF)"

definition utf8_width :: "nat \<Rightarrow> nat" where
  "utf8_width a =
     (if a < 0x80 then 1 else if 0xC2 \<le> a \<and> a \<le> 0xDF then 2 else if 0xE0 \<le> a \<and> a \<le> 0xEF then 3
      else if 0xF0 \<le> a \<and> a \<le> 0xF4 then 4 else 0)"

text \<open>
  One step at the front of the bytes: how many belong together, and whether they are a
  character. Bytes past the end count as zero.
\<close>

definition byte_at :: "string \<Rightarrow> nat \<Rightarrow> char" where
  "byte_at s i = (if i < length s then s ! i else CHR 0x00)"

definition utf8_step :: "string \<Rightarrow> nat \<times> bool" where
  "utf8_step s =
     (let a = byte_val (byte_at s 0); w = utf8_width a in
      if w = 0 then (1, False)
      else if w = 1 then (1, True)
      else if w = 2 then (if cont_byte (byte_at s 1) then (2, True) else (1, False))
      else if \<not> second_byte_ok a (byte_val (byte_at s 1)) then (1, False)
      else if \<not> cont_byte (byte_at s 2) then (2, False)
      else if w = 3 then (3, True)
      else if \<not> cont_byte (byte_at s 3) then (3, False)
      else (4, True))"

definition replacement_char :: string where
  "replacement_char = [CHR 0xEF, CHR 0xBF, CHR 0xBD]"

lemma utf8_step_pos: "0 < fst (utf8_step s)"
  by (simp add: utf8_step_def Let_def)

lemma utf8_step_shorter: "s \<noteq> [] \<Longrightarrow> utf8_step s = (n, ok) \<Longrightarrow> length s - n < length s"
  using utf8_step_pos [of s] by simp

function from_utf8_lossy :: "string \<Rightarrow> string" where
  "from_utf8_lossy s =
     (if s = [] then []
      else
        (let (n, ok) = utf8_step s
         in (if ok then take n s else replacement_char) @ from_utf8_lossy (drop n s)))"
  by pat_completeness auto
termination
  by (relation "measure length") (auto dest: utf8_step_shorter [OF _ sym] utf8_step_shorter)

declare from_utf8_lossy.simps [simp del]

function utf8_valid :: "string \<Rightarrow> bool" where
  "utf8_valid s =
     (if s = [] then True else snd (utf8_step s) \<and> utf8_valid (drop (fst (utf8_step s)) s))"
  by pat_completeness auto
termination
  by (relation "measure length") (auto simp: utf8_step_pos)

declare utf8_valid.simps [simp del]

text \<open>Text that is UTF-8 is kept.\<close>

lemma from_utf8_lossy_valid: "utf8_valid s \<Longrightarrow> from_utf8_lossy s = s"
proof (induction s rule: utf8_valid.induct)
  case (1 s)
  then show ?case
    by (subst from_utf8_lossy.simps) (auto simp: utf8_valid.simps [of s] case_prod_beta)
qed

text \<open>Text without its broken characters is UTF-8, and so is all that is put together from such.\<close>

lemma byte_at_within:
  "cont_byte (byte_at s i) \<Longrightarrow> i < length s"
  "second_byte_ok a (byte_val (byte_at s i)) \<Longrightarrow> i < length s"
  by (auto simp: byte_at_def cont_byte_def second_byte_ok_def byte_val_def split: if_splits)

lemma utf8_step_len:
  assumes "utf8_step s = (n, True)" "s \<noteq> []"
  shows "n \<le> length s"
proof -
  have "1 \<le> length s" using assms(2) by (cases s) simp_all
  moreover have "n = 1 \<or> n = 2 \<and> cont_byte (byte_at s 1) \<or> n = 3 \<and> cont_byte (byte_at s 2)
      \<or> n = 4 \<and> cont_byte (byte_at s 3)"
    using assms(1) by (simp add: utf8_step_def Let_def split: if_splits)
  ultimately show ?thesis by (auto dest: byte_at_within(1))
qed

lemma utf8_step_take:
  assumes "utf8_step s = (n, True)" "s \<noteq> []"
  shows "utf8_step (take n s @ t) = (n, True)"
proof -
  have len: "n \<le> length s" by (rule utf8_step_len [OF assms])
  have at: "byte_at (take n s @ t) i = byte_at s i" if "i < n" for i
    using that len by (simp add: byte_at_def nth_append)
  show ?thesis
    using assms(1) at [of 0] at [of 1] at [of 2] at [of 3]
    by (simp add: utf8_step_def Let_def split: if_splits)
qed

lemma utf8_valid_char:
  assumes "utf8_step s = (n, True)" "s \<noteq> []"
  shows "utf8_valid (take n s @ t) \<longleftrightarrow> utf8_valid t"
proof -
  have "0 < n" "n \<le> length s" using utf8_step_pos [of s] utf8_step_len [OF assms] assms(1) by auto
  then have "take n s @ t \<noteq> []" "drop n (take n s @ t) = t" using assms(2) by simp_all
  then show ?thesis
    using utf8_step_take [OF assms, of t]
    by (simp only: utf8_valid.simps [of "take n s @ t"]) simp
qed

lemma utf8_valid_append: "utf8_valid s \<Longrightarrow> utf8_valid t \<Longrightarrow> utf8_valid (s @ t)"
proof (induction s rule: utf8_valid.induct)
  case (1 s)
  show ?case
  proof (cases "s = []")
    case False
    obtain n ok where st: "utf8_step s = (n, ok)" by (cases "utf8_step s")
    with "1.prems"(1) False have "ok" "utf8_valid (drop n s)" by (simp_all add: utf8_valid.simps [of s])
    with 1 False st have "utf8_valid (drop n s @ t)" by simp
    with utf8_valid_char [of s n "drop n s @ t"] st \<open>ok\<close> False show ?thesis by (metis append_assoc append_take_drop_id)
  qed (use 1 in simp)
qed

lemma utf8_valid_Nil [simp]: "utf8_valid []"
  by (simp add: utf8_valid.simps)

lemma utf8_valid_Cons [simp]: "byte_val c < 128 \<Longrightarrow> utf8_valid (c # s) \<longleftrightarrow> utf8_valid s"
  by (simp add: utf8_valid.simps [of "c # s"] utf8_step_def utf8_width_def byte_at_def Let_def)

lemma utf8_valid_ascii: "list_all (\<lambda>c. byte_val c < 128) s \<Longrightarrow> utf8_valid s"
  by (induction s) simp_all

lemma utf8_valid_replacement: "utf8_valid replacement_char"
  by (subst utf8_valid.simps)
    (simp add: replacement_char_def utf8_step_def utf8_width_def byte_at_def Let_def byte_val_def
      second_byte_ok_def cont_byte_def)

lemma utf8_valid_lossy: "utf8_valid (from_utf8_lossy s)"
proof (induction s rule: from_utf8_lossy.induct)
  case (1 s)
  show ?case
  proof (cases "s = []")
    case False
    obtain n ok where st: "utf8_step s = (n, ok)" by (cases "utf8_step s")
    have "utf8_valid (if ok then take n s else replacement_char)"
      using utf8_valid_char [of s n "[]"] st False utf8_valid_replacement by (cases ok) simp_all
    with 1 [OF False] st show ?thesis
      using False by (subst from_utf8_lossy.simps) (simp add: utf8_valid_append)
  qed (simp add: from_utf8_lossy.simps)
qed

lemma utf8_valid_join:
  "utf8_valid sep \<Longrightarrow> list_all utf8_valid ws \<Longrightarrow> utf8_valid (join_with sep ws)"
  by (induction sep ws rule: join_with.induct) (simp_all add: utf8_valid_append)

lemma utf8_valid_dec_str: "utf8_valid (dec_str n)"
proof (rule utf8_valid_ascii, unfold list_all_iff, rule ballI)
  fix c assume "c \<in> set (dec_str n)"
  then have "is_ascii_digit c" by (rule dec_str_digits)
  then show "byte_val c < 128" by (simp add: is_ascii_digit_def less_eq_char_def byte_val_def)
qed

lemma hex_digit_ascii: "n < 16 \<Longrightarrow> byte_val (hex_digit n) < 128"
  by (simp add: hex_digit_def byte_val_def)

lemma utf8_valid_hex_str: "utf8_valid (hex_str n)"
proof (induction n rule: hex_str.induct)
  case (1 n)
  then show ?case by (subst hex_str.simps) (simp add: utf8_valid_append hex_digit_ascii)
qed

lemma utf8_valid_numbers:
  "list_all utf8_valid (map dec_str ns)" "list_all utf8_valid (map hex_str ns)"
  by (simp_all add: list_all_iff utf8_valid_dec_str utf8_valid_hex_str)

lemma utf8_valid_ipv4_str: "utf8_valid (ipv4_str os)"
  unfolding ipv4_str_def by (rule utf8_valid_join [OF _ utf8_valid_numbers(1)]) (simp add: byte_val_def)

lemma utf8_valid_groups_str: "utf8_valid (groups_str gs)"
  unfolding groups_str_def by (rule utf8_valid_join [OF _ utf8_valid_numbers(2)]) (simp add: byte_val_def)

lemma utf8_valid_ipv6_str: "utf8_valid (ipv6_str gs)"
  by (simp add: ipv6_str_def utf8_valid_append utf8_valid_ipv4_str utf8_valid_groups_str case_prod_beta
      Let_def byte_val_def)

end
