(* ===== verification/Observer_Redaction.thy ===== *)
theory Observer_Redaction
  imports Core_Schema Hash_Chain Rust_Path Rust_Net
begin

text \<open>
  What is written of a resource (\<open>crates/apolysis-observer/src/redaction.rs\<close>, and the functions
  of \<open>live.rs\<close> beside it): tokens in place of credential paths, paths outside the workspace and
  addresses, and commands without their secrets. SHA-256 is the parameter \<open>sha\<close>.
\<close>

section \<open>The redactor\<close>

record redacted_value =
  rv_value :: string
  rv_redacted :: bool

record redactor =
  rd_session_id :: string
  rd_workspace_root :: string

abbreviation ch_nul :: char where "ch_nul \<equiv> CHR 0x00"

definition token_input :: "redactor \<Rightarrow> string \<Rightarrow> string \<Rightarrow> string" where
  "token_input rd kind v = rd_session_id rd @ [ch_nul] @ kind @ [ch_nul] @ v"

definition token_value :: "(string \<Rightarrow> string) \<Rightarrow> redactor \<Rightarrow> string \<Rightarrow> string \<Rightarrow> string" where
  "token_value sha rd kind v = encode_hex (take 12 (sha (token_input rd kind v)))"

definition redact_token :: "(string \<Rightarrow> string) \<Rightarrow> redactor \<Rightarrow> string \<Rightarrow> string \<Rightarrow> redacted_value" where
  "redact_token sha rd kind v =
     \<lparr>rv_value = kind @ ''_token:'' @ token_value sha rd kind v, rv_redacted = True\<rparr>"

definition kept :: "string \<Rightarrow> redacted_value" where
  "kept v = \<lparr>rv_value = v, rv_redacted = False\<rparr>"

text \<open>The loop over the components, with the depth at its width.\<close>

fun relative_stays :: "u32 \<Rightarrow> path_component list \<Rightarrow> bool" where
  "relative_stays depth [] \<longleftrightarrow> True"
| "relative_stays depth (CurDir # cs) \<longleftrightarrow> relative_stays depth cs"
| "relative_stays depth (NormalDir _ # cs) \<longleftrightarrow> relative_stays (sat_add depth 1) cs"
| "relative_stays depth (ParentDir # cs) \<longleftrightarrow> depth \<noteq> 0 \<and> relative_stays (depth - 1) cs"
| "relative_stays depth (RootDir # cs) \<longleftrightarrow> False"

definition relative_path_stays_in_workspace :: "string \<Rightarrow> bool" where
  "relative_path_stays_in_workspace p \<longleftrightarrow> relative_stays 0 (path_components p)"

definition is_workspace_path :: "redactor \<Rightarrow> string \<Rightarrow> bool" where
  "is_workspace_path rd resource \<longleftrightarrow>
     (if path_is_absolute resource then path_starts_with resource (rd_workspace_root rd)
      else relative_path_stays_in_workspace resource)"

definition socket_port :: "string \<Rightarrow> string option" where
  "socket_port resource =
     (case rsplit_once (CHR '':'') resource of
        None \<Rightarrow> None
      | Some (_, port) \<Rightarrow>
          (case (parse_word port :: (int_error, u16) res) of Inl _ \<Rightarrow> None | Inr _ \<Rightarrow> Some port))"

definition redact_resource ::
    "(string \<Rightarrow> string) \<Rightarrow> redactor \<Rightarrow> event_type \<Rightarrow> string \<Rightarrow> redacted_value" where
  "redact_resource sha rd ty resource =
     (if ty = EvCredentialRead then redact_token sha rd ''path'' resource
      else if ty \<in> {EvFileOpen, EvFileCreate, EvFileTruncate, EvFileUnlink, EvFileRename} then
        (if is_workspace_path rd resource then kept resource else redact_token sha rd ''path'' resource)
      else if ty = EvNetworkConnect then
        (let port = (case socket_port resource of Some p \<Rightarrow> p | None \<Rightarrow> ''unknown'')
         in \<lparr>rv_value = ''address_token:'' @ token_value sha rd ''address'' resource @ '':port:'' @ port,
             rv_redacted = True\<rparr>)
      else kept resource)"

section \<open>Events\<close>

definition append_marker :: "string \<Rightarrow> string \<Rightarrow> string" where
  "append_marker payload marker = payload @ (if payload = [] then [] else '','') @ marker"

definition open_events :: "string list" where
  "open_events = [''open'', ''openat'', ''openat2'']"

text \<open>The type of event a name stands for, when its resource is one to redact.\<close>

definition redacted_event_type :: "bool \<Rightarrow> string \<Rightarrow> event_type option" where
  "redacted_event_type credential_read name =
     (if name \<in> set open_events then Some (if credential_read then EvCredentialRead else EvFileOpen)
      else if name = ''creat'' then Some EvFileCreate
      else if name = ''truncate'' \<or> name = ''ftruncate'' then Some EvFileTruncate
      else if name = ''unlink'' \<or> name = ''unlinkat'' then Some EvFileUnlink
      else if name = ''rename'' \<or> name = ''renameat'' \<or> name = ''renameat2'' then Some EvFileRename
      else if name = ''connect'' then Some EvNetworkConnect
      else None)"

definition redact_raw_event_for_persistence ::
    "(string \<Rightarrow> string) \<Rightarrow> raw_kernel_event \<Rightarrow> redactor \<Rightarrow> bool \<Rightarrow> raw_kernel_event" where
  "redact_raw_event_for_persistence sha raw rd credential_read =
     (case redacted_event_type credential_read (rk_event_name raw) of
        None \<Rightarrow> raw
      | Some ty \<Rightarrow>
          (let resource = redact_resource sha rd ty (rk_resource raw);
               p1 = raw\<lparr>rk_resource := rv_value resource\<rparr>;
               p2 = (if rv_redacted resource then
                       p1\<lparr>rk_raw_payload := append_marker (rk_raw_payload p1) ''redacted:resource''\<rparr>
                     else p1)
           in
             (if ty = EvFileRename \<and> rk_raw_payload raw \<noteq> [] then
                (let payload = redact_resource sha rd EvFileRename (rk_raw_payload raw)
                 in p2\<lparr>rk_raw_payload :=
                         (if rv_redacted payload then append_marker (rv_value payload) ''redacted:payload''
                          else rv_value payload)\<rparr>)
              else p2)))"

section \<open>Commands\<close>

definition contains_word :: "string list \<Rightarrow> string \<Rightarrow> bool" where
  "contains_word ws v \<longleftrightarrow> list_ex (\<lambda>w. find_sub w (to_ascii_lowercase v) \<noteq> None) ws"

definition secret_word :: "string \<Rightarrow> bool" where
  "secret_word v \<longleftrightarrow>
     contains_word [''token'', ''secret'', ''password'', ''passwd'', ''credential'', ''api-key'', ''apikey'',
       ''authorization''] v"

definition secret_flag :: "string \<Rightarrow> bool" where
  "secret_flag v \<longleftrightarrow> prefix ''--'' v \<and> secret_word (trim_start_matches (\<lambda>c. c = CHR ''-'') v)"

definition quoting :: "char \<Rightarrow> bool" where
  "quoting c \<longleftrightarrow> c = CHR 0x27 \<or> c = CHR 0x22 \<or> c = CHR '','' \<or> c = CHR '';''"

definition looks_like_secret_value :: "string \<Rightarrow> bool" where
  "looks_like_secret_value v \<longleftrightarrow>
     (let n = trim_matches quoting v in
      prefix ''sk-'' n \<or> prefix ''ghp_'' n \<or> prefix ''github_pat_'' n \<or> prefix ''Bearer '' n)"

definition authorization_marker :: "string \<Rightarrow> bool" where
  "authorization_marker v \<longleftrightarrow>
     (let n = to_ascii_lowercase (trim_end_matches (\<lambda>c. c = CHR '':'') (trim_matches quoting v))
      in n = ''authorization'' \<or> n = ''bearer'')"

definition looks_like_path_argument :: "string \<Rightarrow> bool" where
  "looks_like_path_argument v \<longleftrightarrow> prefix ''/'' v \<or> prefix ''./'' v \<or> prefix ''../'' v \<or> prefix ''~/'' v"

definition looks_like_credential_path :: "string \<Rightarrow> bool" where
  "looks_like_credential_path v \<longleftrightarrow>
     suffix ''/.env'' v \<or> find_sub ''/.env.'' v \<noteq> None \<or> find_sub ''/.ssh/'' v \<noteq> None \<or> find_sub ''/.aws/'' v \<noteq> None
     \<or> find_sub ''/var/run/secrets/'' v \<noteq> None"

definition network_argument_resource :: "string \<Rightarrow> string option" where
  "network_argument_resource v =
     (let trimmed = trim_matches quoting v in
      if parses_socket_addr trimmed then Some trimmed
      else
        (let ip = trim_end_matches (\<lambda>c. c = CHR '']'') (trim_start_matches (\<lambda>c. c = CHR ''['') trimmed)
         in if parses_ip_addr ip then Some ip else None))"

definition redact_command_argument_resource ::
    "(string \<Rightarrow> string) \<Rightarrow> redactor \<Rightarrow> string \<Rightarrow> redacted_value" where
  "redact_command_argument_resource sha rd v =
     (case network_argument_resource v of
        Some resource \<Rightarrow> redact_resource sha rd EvNetworkConnect resource
      | None \<Rightarrow>
          (if \<not> looks_like_path_argument v then kept v
           else redact_resource sha rd
                  (if looks_like_credential_path v then EvCredentialRead else EvFileOpen) v))"

text \<open>
  One turn of the loop over the words: what is pushed, whether it counts as redacted, and
  whether the next word is to be redacted.
\<close>

definition placeholder :: string where
  "placeholder = ''<redacted>''"

definition redact_plain_word ::
    "(string \<Rightarrow> bool) \<Rightarrow> (string \<Rightarrow> bool) \<Rightarrow> (string \<Rightarrow> redacted_value) \<Rightarrow> string \<Rightarrow> string \<times> bool" where
  "redact_plain_word secret_key secret_value resource arg =
     (let whole =
        (if secret_value arg then (placeholder, True)
         else (let v = resource arg in (rv_value v, rv_redacted v)))
      in
        case split_once (CHR ''='') arg of
          None \<Rightarrow> whole
        | Some (key, val) \<Rightarrow>
            (if secret_key key then (key @ ''=<redacted>'', True)
             else
               (let v = resource val
                in if rv_redacted v then (key @ ''='' @ rv_value v, True) else whole)))"

definition command_word :: "(string \<Rightarrow> string) \<Rightarrow> redactor \<Rightarrow> bool \<Rightarrow> string \<Rightarrow> string \<times> bool \<times> bool" where
  "command_word sha rd redact_next arg =
     (if redact_next then (placeholder, True, False)
      else if secret_flag arg \<or> authorization_marker arg then (arg, False, True)
      else
        (let (w, redacted) = redact_plain_word secret_word looks_like_secret_value
               (redact_command_argument_resource sha rd) arg
         in (w, redacted, False)))"

fun redact_words :: "(bool \<Rightarrow> string \<Rightarrow> string \<times> bool \<times> bool) \<Rightarrow> bool \<Rightarrow> string list \<Rightarrow> string list \<times> bool" where
  "redact_words step redact_next [] = ([], False)"
| "redact_words step redact_next (arg # args) =
     (let (w, redacted, redact_next') = step redact_next arg;
          (ws, rest) = redact_words step redact_next' args
      in (w # ws, redacted \<or> rest))"

definition redact_command_text_for_persistence ::
    "(string \<Rightarrow> string) \<Rightarrow> string \<Rightarrow> string \<Rightarrow> string \<Rightarrow> redacted_value" where
  "redact_command_text_for_persistence sha session_id workspace_root command =
     (let rd = \<lparr>rd_session_id = session_id, rd_workspace_root = workspace_root\<rparr>;
          (args, redacted) = redact_words (command_word sha rd) False (split_whitespace command)
      in \<lparr>rv_value = join_with '' '' args, rv_redacted = redacted\<rparr>)"

section \<open>The live observer\<close>

text \<open>Its own lists of words (\<open>live.rs\<close>), for commands it launches and events it writes.\<close>

definition live_secret_word :: "string \<Rightarrow> bool" where
  "live_secret_word v \<longleftrightarrow>
     contains_word [''token'', ''secret'', ''password'', ''passwd'', ''credential'', ''api-key'', ''apikey''] v"

definition live_secret_flag :: "string \<Rightarrow> bool" where
  "live_secret_flag v \<longleftrightarrow> prefix ''--'' v \<and> live_secret_word (trim_start_matches (\<lambda>c. c = CHR ''-'') v)"

definition live_secret_value :: "string \<Rightarrow> bool" where
  "live_secret_value v \<longleftrightarrow> prefix ''sk-'' v \<or> prefix ''ghp_'' v \<or> prefix ''github_pat_'' v"

definition redact_argv_resource :: "(string \<Rightarrow> string) \<Rightarrow> redactor \<Rightarrow> string \<Rightarrow> redacted_value" where
  "redact_argv_resource sha rd v =
     (case network_argument_resource v of
        Some resource \<Rightarrow> redact_resource sha rd EvNetworkConnect resource
      | None \<Rightarrow>
          (if \<not> looks_like_path_argument v then kept v
           else redact_resource sha rd
                  (if looks_like_credential_path v then EvCredentialRead else EvFileOpen) v))"

definition argv_word :: "(string \<Rightarrow> string) \<Rightarrow> redactor \<Rightarrow> bool \<Rightarrow> string \<Rightarrow> string \<times> bool \<times> bool" where
  "argv_word sha rd redact_next arg =
     (if redact_next then (placeholder, True, False)
      else if live_secret_flag arg then (arg, False, True)
      else
        (let (w, redacted) = redact_plain_word live_secret_word live_secret_value
               (redact_argv_resource sha rd) arg
         in (w, redacted, False)))"

definition redact_exec_payload_for_persistence ::
    "(string \<Rightarrow> string) \<Rightarrow> redactor \<Rightarrow> string \<Rightarrow> string \<times> bool" where
  "redact_exec_payload_for_persistence sha rd payload =
     (let (argv, markers) = (case split_once (CHR '','') payload of Some p \<Rightarrow> p | None \<Rightarrow> (payload, [])) in
      case strip_prefix ''argv:'' argv of
        None \<Rightarrow> (payload, False)
      | Some args \<Rightarrow>
          (let (ws, redacted) = redact_words (argv_word sha rd) False (split_whitespace args)
           in (''argv:'' @ join_with '' '' ws @ (if markers = [] then [] else '','' @ markers), redacted)))"

definition redact_process_command_for_persistence ::
    "(string \<Rightarrow> string) \<Rightarrow> redactor \<Rightarrow> string option \<Rightarrow> string \<Rightarrow> string \<times> bool" where
  "redact_process_command_for_persistence sha rd executable command =
     (let (ws, redacted) =
        (case split_whitespace command of
           [] \<Rightarrow> ([], False)
         | arg # args \<Rightarrow>
             (if executable = Some arg then
                (let (ws, redacted) = redact_words (argv_word sha rd) False args in (arg # ws, redacted))
              else redact_words (argv_word sha rd) False (arg # args)))
      in (join_with '' '' ws, redacted))"

definition redact_for_persistence ::
    "(string \<Rightarrow> string) \<Rightarrow> raw_kernel_event \<Rightarrow> canonical_event \<Rightarrow> redactor
     \<Rightarrow> raw_kernel_event \<times> canonical_event" where
  "redact_for_persistence sha raw canonical rd =
     (let resource = redact_resource sha rd (ce_type canonical) (ce_resource canonical);
          raw1 = raw\<lparr>rk_resource := rv_value resource\<rparr>;
          canonical1 = canonical\<lparr>ce_resource := rv_value resource\<rparr>;
          raw2 = (if rv_redacted resource then
                    raw1\<lparr>rk_raw_payload := append_marker (rk_raw_payload raw1) ''redacted:resource''\<rparr>
                  else raw1);
          raw3 =
            (if ce_type canonical = EvFileRename \<and> rk_raw_payload raw \<noteq> [] then
               (let payload = redact_resource sha rd EvFileRename (rk_raw_payload raw)
                in raw2\<lparr>rk_raw_payload :=
                          (if rv_redacted payload then append_marker (rv_value payload) ''redacted:payload''
                           else rv_value payload)\<rparr>)
             else raw2);
          raw4 =
            (if ce_type canonical = EvExec \<and> rk_raw_payload raw \<noteq> [] then
               (let (payload, redacted) = redact_exec_payload_for_persistence sha rd (rk_raw_payload raw)
                in raw3\<lparr>rk_raw_payload :=
                          (if redacted then append_marker payload ''redacted:payload'' else payload)\<rparr>)
             else raw3)
      in (raw4,
          (case ce_process_command canonical of
             None \<Rightarrow> canonical1
           | Some command \<Rightarrow>
               canonical1\<lparr>ce_process_command :=
                 Some (fst (redact_process_command_for_persistence sha rd (ce_process_executable canonical)
                             command))\<rparr>)))"

text \<open>The command an agent is launched with, in the metadata.\<close>

definition credential_quoting :: "char \<Rightarrow> bool" where
  "credential_quoting c \<longleftrightarrow>
     c = CHR 0x27 \<or> c = CHR 0x22 \<or> c = CHR 0x60 \<or> c = CHR '';'' \<or> c = CHR '','' \<or> c = CHR ''('' \<or> c = CHR '')''"

definition redact_command_credential_paths :: "string \<Rightarrow> string" where
  "redact_command_credential_paths arg =
     (if CHR ''/'' \<notin> set arg then arg
      else
        (let secret = (\<lambda>t. looks_like_credential_path (trim_matches credential_quoting t));
             tokens = split_whitespace arg
         in if list_ex secret tokens then
              join_with '' '' (map (\<lambda>t. if secret t then ''<credential-path>'' else t) tokens)
            else arg))"

definition shell_plain :: "char \<Rightarrow> bool" where
  "shell_plain c \<longleftrightarrow>
     is_ascii_alphanumeric c \<or> c = CHR ''-'' \<or> c = CHR ''_'' \<or> c = CHR ''.'' \<or> c = CHR ''/''
     \<or> c = CHR '':'' \<or> c = CHR ''=''"

definition shell_display_arg :: "string \<Rightarrow> string" where
  "shell_display_arg v =
     (if list_all shell_plain v then v
      else [CHR 0x27]
        @ concat (map (\<lambda>c. if c = CHR 0x27 then [CHR 0x27, CHR 0x5C, CHR 0x27, CHR 0x27] else [c]) v)
        @ [CHR 0x27])"

definition launch_word :: "bool \<Rightarrow> string \<Rightarrow> string \<times> bool \<times> bool" where
  "launch_word redact_next arg =
     (if redact_next then (placeholder, True, False)
      else if live_secret_flag arg then (arg, False, True)
      else
        (let shown =
           (if live_secret_value arg then placeholder
            else shell_display_arg (redact_command_credential_paths arg))
         in
           case split_once (CHR ''='') arg of
             Some (key, _) \<Rightarrow>
               (if live_secret_word key then (key @ ''=<redacted>'', True, False) else (shown, False, False))
           | None \<Rightarrow> (shown, False, False)))"

definition redact_command :: "string list \<Rightarrow> string list" where
  "redact_command command = fst (redact_words launch_word False command)"

section \<open>What a token tells\<close>

text \<open>
  What may be learnt of a sensitive resource: whether it is sensitive, the digest, and the
  port of an address.
\<close>

definition disclosed ::
    "(string \<Rightarrow> string) \<Rightarrow> redactor \<Rightarrow> event_type \<Rightarrow> string \<Rightarrow> string option \<times> string option" where
  "disclosed sha rd ty resource =
     (if ty = EvNetworkConnect then (Some (sha (token_input rd ''address'' resource)), socket_port resource)
      else if ty = EvCredentialRead \<or> \<not> is_workspace_path rd resource then
        (Some (sha (token_input rd ''path'' resource)), None)
      else (None, Some resource))"

lemma redact_resource_disclosed:
  assumes "disclosed sha rd ty a = disclosed sha rd ty b"
    and "ty \<in> {EvFileOpen, EvFileCreate, EvFileTruncate, EvFileUnlink, EvFileRename, EvCredentialRead, EvNetworkConnect}"
  shows "redact_resource sha rd ty a = redact_resource sha rd ty b"
  using assms
  by (auto simp: disclosed_def redact_resource_def redact_token_def token_value_def kept_def split: if_splits)

lemma redacted_event_types:
  "redacted_event_type cr name = Some ty \<Longrightarrow>
   ty \<in> {EvFileOpen, EvFileCreate, EvFileTruncate, EvFileUnlink, EvFileRename, EvCredentialRead, EvNetworkConnect}"
  by (auto simp: redacted_event_type_def split: if_splits)

text \<open>The record written of an event says of its resource no more than: that
  it is inside the workspace, and then the path; or the session's SHA-256 digest of it and,
  for an address, the port. Two events that agree on these, and in everything else, are
  written alike, whatever their credential paths, files outside the workspace or addresses.\<close>

lemma redaction_discloses_only_digest:
  assumes "redacted_event_type cr (rk_event_name raw) = Some ty"
    and "disclosed sha rd ty (rk_resource raw) = disclosed sha rd ty other"
  shows "redact_raw_event_for_persistence sha raw rd cr =
    redact_raw_event_for_persistence sha (raw\<lparr>rk_resource := other\<rparr>) rd cr"
  using redact_resource_disclosed [OF assms(2) redacted_event_types [OF assms(1)]] assms(1)
  by (simp add: redact_raw_event_for_persistence_def Let_def)

lemma redaction_discloses_only_digest_example:
  "redact_raw_event_for_persistence (\<lambda>_. ''digest'')
     (raw_kernel_event_new 7 ''s'' SrcKernelTracepoint ''openat'' 2 1 0 0 ''cat'' ''/etc/passwd'' ''open'' None None [])
     \<lparr>rd_session_id = ''s'', rd_workspace_root = ''/w''\<rparr> False
   = redact_raw_event_for_persistence (\<lambda>_. ''digest'')
     (raw_kernel_event_new 7 ''s'' SrcKernelTracepoint ''openat'' 2 1 0 0 ''cat'' ''/etc/shadow'' ''open'' None None [])
     \<lparr>rd_session_id = ''s'', rd_workspace_root = ''/w''\<rparr> False"
proof -
  have "\<not> path_starts_with ''/etc/passwd'' ''/w''" "\<not> path_starts_with ''/etc/shadow'' ''/w''"
    by code_simp+
  then have d: "disclosed (\<lambda>_. ''digest'') \<lparr>rd_session_id = ''s'', rd_workspace_root = ''/w''\<rparr> EvFileOpen ''/etc/passwd''
      = disclosed (\<lambda>_. ''digest'') \<lparr>rd_session_id = ''s'', rd_workspace_root = ''/w''\<rparr> EvFileOpen ''/etc/shadow''"
    by (simp add: disclosed_def is_workspace_path_def path_is_absolute_def)
  show ?thesis
    using redaction_discloses_only_digest
      [of False "raw_kernel_event_new 7 ''s'' SrcKernelTracepoint ''openat'' 2 1 0 0 ''cat'' ''/etc/passwd'' ''open'' None None []"
        EvFileOpen "\<lambda>_. ''digest''" "\<lparr>rd_session_id = ''s'', rd_workspace_root = ''/w''\<rparr>" "''/etc/shadow''"] d
    by (simp add: raw_kernel_event_new_def redacted_event_type_def open_events_def)
qed

text \<open>Two digests agree only on a collision; the inputs differ when session or resource do.\<close>

lemma token_input_inj:
  assumes "ch_nul \<notin> set (rd_session_id rd)" "ch_nul \<notin> set (rd_session_id rd')"
    and "ch_nul \<notin> set kind" "ch_nul \<notin> set kind'"
    and "token_input rd kind v = token_input rd' kind' v'"
  shows "rd_session_id rd = rd_session_id rd'" and "kind = kind'" and "v = v'"
proof -
  have s: "split_once ch_nul (token_input rd kind v) = Some (rd_session_id rd, kind @ ch_nul # v)"
    using split_once_append [OF assms(1), of "kind @ ch_nul # v"] by (simp add: token_input_def)
  have s': "split_once ch_nul (token_input rd' kind' v') = Some (rd_session_id rd', kind' @ ch_nul # v')"
    using split_once_append [OF assms(2), of "kind' @ ch_nul # v'"] by (simp add: token_input_def)
  from s s' assms(5) have e: "rd_session_id rd = rd_session_id rd'" "kind @ ch_nul # v = kind' @ ch_nul # v'"
    by auto
  then show "rd_session_id rd = rd_session_id rd'" by blast
  have "Some (kind, v) = Some (kind', v')"
    using arg_cong [OF e(2), of "split_once ch_nul"]
    by (simp only: split_once_append [OF assms(3)] split_once_append [OF assms(4)])
  then show "kind = kind'" "v = v'" by simp_all
qed

section \<open>What a command tells\<close>

text \<open>Whether the next word is masked, after the words so far.\<close>

definition awaiting_secret :: "string list \<Rightarrow> bool" where
  "awaiting_secret ws = foldl (\<lambda>b w. \<not> b \<and> (secret_flag w \<or> authorization_marker w)) False ws"

fun step_flag :: "(bool \<Rightarrow> string \<Rightarrow> string \<times> bool \<times> bool) \<Rightarrow> bool \<Rightarrow> string list \<Rightarrow> bool" where
  "step_flag step b [] = b"
| "step_flag step b (w # ws) = step_flag step (snd (snd (step b w))) ws"

lemma redact_words_append:
  "redact_words step b (xs @ ys) =
     (let (us, r) = redact_words step b xs; (vs, r') = redact_words step (step_flag step b xs) ys
      in (us @ vs, r \<or> r'))"
  by (induction xs arbitrary: b) (simp_all add: Let_def case_prod_beta)

lemma command_word_flag:
  "snd (snd (command_word sha rd b w)) \<longleftrightarrow> \<not> b \<and> (secret_flag w \<or> authorization_marker w)"
  by (simp add: command_word_def case_prod_beta)

lemma step_flag_command_word:
  "step_flag (command_word sha rd) b ws = foldl (\<lambda>b w. \<not> b \<and> (secret_flag w \<or> authorization_marker w)) b ws"
  by (induction ws arbitrary: b) (simp_all add: command_word_flag)

lemma masked_word:
  assumes "\<not> awaiting_secret pre" "secret_flag flag \<or> authorization_marker flag"
  shows "redact_words (command_word sha rd) False (pre @ flag # v # post) =
    redact_words (command_word sha rd) False (pre @ flag # v' # post)"
proof -
  have "\<not> step_flag (command_word sha rd) False pre"
    using assms(1) by (simp add: step_flag_command_word awaiting_secret_def)
  then show ?thesis using assms(2) by (simp add: redact_words_append command_word_def)
qed



text \<open>
  A flag given with its value in one word is not masked, since the test for a flag comes first
  and looks at the whole word; the word after it is. Of two flags in a row, the second is what
  is masked, and the secret after it is written. And an absolute path is compared with the
  workspace as it stands, so that it may climb out of it.
\<close>

lemma flag_with_value_written:
  "redact_command_text_for_persistence sha session workspace ''--password=hunter2''
   = \<lparr>rv_value = ''--password=hunter2'', rv_redacted = False\<rparr>"
proof -
  have "split_whitespace ''--password=hunter2'' = [''--password=hunter2'']" "secret_flag ''--password=hunter2''"
    by code_simp+
  then show ?thesis by (simp add: redact_command_text_for_persistence_def command_word_def)
qed

lemma second_flag_shields_secret:
  "redact_command_text_for_persistence sha session workspace ''--token --token hunter2''
   = \<lparr>rv_value = ''--token <redacted> hunter2'', rv_redacted = True\<rparr>"
proof -
  have w: "split_whitespace ''--token --token hunter2'' = [''--token'', ''--token'', ''hunter2'']"
    and f: "secret_flag ''--token''" "\<not> secret_flag ''hunter2''" "\<not> authorization_marker ''hunter2''"
    and v: "\<not> looks_like_secret_value ''hunter2''" "split_once (CHR ''='') ''hunter2'' = None"
      "\<not> looks_like_path_argument ''hunter2''"
    by code_simp+
  have t: "trim_matches quoting ''hunter2'' = ''hunter2''" "trim_start_matches (\<lambda>c. c = CHR ''['') ''hunter2'' = ''hunter2''"
    "trim_end_matches (\<lambda>c. c = CHR '']'') ''hunter2'' = ''hunter2''"
    by code_simp+
  have n: "network_argument_resource ''hunter2'' = None"
  proof -
    have "to_digit 16 (CHR ''h'') = None" by code_simp
    then show ?thesis by (simp add: network_argument_resource_def t no_address)
  qed
  show ?thesis
    by (simp add: redact_command_text_for_persistence_def w command_word_def f v n redact_plain_word_def
        redact_command_argument_resource_def kept_def placeholder_def)
qed

lemma comma_ends_masking:
  "redact_exec_payload_for_persistence sha rd ''argv:g,b --token hunter2''
   = (''argv:g,b --token hunter2'', False)"
proof -
  have c: "split_once (CHR '','') ''argv:g,b --token hunter2'' = Some (''argv:g'', ''b --token hunter2'')"
    and p: "strip_prefix ''argv:'' ''argv:g'' = Some ''g''" and w: "split_whitespace ''g'' = [''g'']"
    and a: "\<not> live_secret_flag ''g''" "\<not> live_secret_value ''g''" "split_once (CHR ''='') ''g'' = None"
      "\<not> looks_like_path_argument ''g''" "trim_matches quoting ''g'' = ''g''"
    by code_simp+
  have n: "network_argument_resource ''g'' = None"
  proof -
    have "to_digit 16 (CHR ''g'') = None" "trim_start_matches (\<lambda>c. c = CHR ''['') ''g'' = ''g''"
      "trim_end_matches (\<lambda>c. c = CHR '']'') ''g'' = ''g''"
      by code_simp+
    then show ?thesis by (simp add: network_argument_resource_def a no_address)
  qed
  show ?thesis
    by (simp add: redact_exec_payload_for_persistence_def c p w argv_word_def redact_plain_word_def a
        redact_argv_resource_def n kept_def)
qed

lemma absolute_path_climbs_out:
  "redact_resource sha \<lparr>rd_session_id = session, rd_workspace_root = ''/workspace''\<rparr> EvFileOpen
     ''/workspace/../etc/shadow''
   = kept ''/workspace/../etc/shadow''"
proof -
  have "path_starts_with ''/workspace/../etc/shadow'' ''/workspace''" "path_is_absolute ''/workspace/../etc/shadow''"
    by code_simp+
  then show ?thesis by (simp add: redact_resource_def is_workspace_path_def)
qed

section \<open>Staying in the workspace\<close>

text \<open>
  The reference: a relative path stays when no beginning of it has more steps up than
  steps down.
\<close>

definition path_depth :: "path_component list \<Rightarrow> int" where
  "path_depth cs =
     int (length (filter (\<lambda>c. case c of NormalDir _ \<Rightarrow> True | _ \<Rightarrow> False) cs))
     - int (length (filter (\<lambda>c. c = ParentDir) cs))"

definition never_leaves :: "path_component list \<Rightarrow> bool" where
  "never_leaves cs \<longleftrightarrow> RootDir \<notin> set cs \<and> list_all (\<lambda>q. 0 \<le> path_depth q) (prefixes cs)"

lemma path_depth_simps [simp]:
  "path_depth [] = 0"
  "path_depth (c # cs) = (case c of NormalDir _ \<Rightarrow> 1 | ParentDir \<Rightarrow> - 1 | _ \<Rightarrow> 0) + path_depth cs"
  by (auto simp: path_depth_def split: path_component.splits)

lemma relative_stays_depth:
  "unat depth + length cs < 2 ^ 32 \<Longrightarrow>
   relative_stays depth cs \<longleftrightarrow>
     RootDir \<notin> set cs \<and> list_all (\<lambda>q. 0 \<le> int (unat depth) + path_depth q) (prefixes cs)"
proof (induction depth cs rule: relative_stays.induct)
  case (3 depth d cs)
  then have s: "unat (sat_add depth 1) = Suc (unat depth)" by (simp add: unat_sat_add)
  with 3 show ?case by (simp add: list_all_iff algebra_simps)
next
  case (4 depth cs)
  show ?case
  proof (cases "depth = 0")
    case True
    then show ?thesis by (cases cs) (auto simp: list_all_iff)
  next
    case False
    then have s: "unat (depth - 1) = unat depth - 1" "0 < unat depth"
      by (simp_all add: unat_gt_0 unat_minus_one)
    then have "relative_stays (depth - 1) cs \<longleftrightarrow> RootDir \<notin> set cs \<and>
        list_all (\<lambda>q. 0 \<le> int (unat depth) - 1 + path_depth q) (prefixes cs)"
      using 4 False by (simp add: of_nat_diff)
    then show ?thesis using False by (simp add: list_all_iff algebra_simps)
  qed
qed (auto simp: list_all_iff)

text \<open>Paths. The test that a relative path stays in the workspace, which counts the depth
  in an unsigned 32-bit integer, is right for every path the kernel can report: it holds
  exactly when no beginning of the path has climbed above where it started.\<close>

lemma relative_path_test_exact:
  assumes "length p < 2 ^ 32 - 2"
  shows "relative_path_stays_in_workspace p \<longleftrightarrow> never_leaves (path_components p)"
  using relative_stays_depth [of 0 "path_components p"] length_path_components [of p] assms
  by (simp add: relative_path_stays_in_workspace_def never_leaves_def)

theorem relative_path_test_exact_witness:
  "\<not> relative_path_stays_in_workspace ''a/../../etc/shadow''
   \<and> \<not> never_leaves (path_components ''a/../../etc/shadow'')"
proof -
  have "\<not> never_leaves (path_components ''a/../../etc/shadow'')" by code_simp
  then show ?thesis using relative_path_test_exact [of "''a/../../etc/shadow''"] by simp
qed

end
