(* ===== verification/Observer_Abi.thy ===== *)
theory Observer_Abi
  imports Core_Schema Rust_Net
begin

unbundle bit_operations_syntax

text \<open>
  From the ring buffer to raw events: the layout of a kernel record
  (\<open>crates/apolysis-observer/src/abi.rs\<close>), the decoding of a batch, the clock and the raw event
  of a record (\<open>live.rs\<close>), and the set of tracked cgroups (\<open>scope.rs\<close>). Bytes are characters;
  \<open>from_ne_bytes\<close> is little-endian, as on the hosts the observer supports.
\<close>

section \<open>Integers in bytes\<close>

fun le_nat :: "string \<Rightarrow> nat" where
  "le_nat [] = 0"
| "le_nat (c # cs) = byte_val c + 256 * le_nat cs"

fun le_bytes :: "nat \<Rightarrow> nat \<Rightarrow> string" where
  "le_bytes 0 v = []"
| "le_bytes (Suc n) v = char_of (v mod 256) # le_bytes n (v div 256)"

lemma byte_val_less: "byte_val c < 256"
  using of_char_mod_256 [of c, where 'a = nat] by (metis byte_val_def mod_less_divisor zero_less_numeral)

lemma byte_val_char: "byte_val (char_of n) = n mod 256"
  by (simp add: byte_val_def)

lemma length_le_bytes [simp]: "length (le_bytes n v) = n"
  by (induction n arbitrary: v) simp_all

lemma le_nat_bytes: "le_nat (le_bytes n v) = v mod 256 ^ n"
  by (induction n arbitrary: v) (simp_all add: byte_val_char mod_mult2_eq)

lemma le_bytes_nat: "le_bytes (length s) (le_nat s) = s"
proof (induction s)
  case (Cons c s)
  have "(byte_val c + 256 * le_nat s) mod 256 = byte_val c" "(byte_val c + 256 * le_nat s) div 256 = le_nat s"
    using byte_val_less [of c] by simp_all
  with Cons show ?case by (simp add: byte_val_def)
qed simp

lemma le_nat_less: "le_nat s < 256 ^ length s"
proof (induction s)
  case (Cons c s)
  have "byte_val c + 256 * le_nat s < 256 * Suc (le_nat s)" using byte_val_less [of c] by simp
  also have "\<dots> \<le> 256 * 256 ^ length s" using Cons.IH by (simp del: mult_Suc_right)
  finally show ?case by simp
qed simp

section \<open>The record\<close>

definition comm_len :: nat where "comm_len = 16"
definition resource_len :: nat where "resource_len = 256"
definition action_len :: nat where "action_len = 32"
definition payload_len :: nat where "payload_len = 256"

definition kernel_event_record_len :: nat where
  "kernel_event_record_len = 40 + comm_len + resource_len + action_len + payload_len"

definition flag_resource_truncated :: u32 where "flag_resource_truncated = push_bit 0 1"
definition flag_payload_truncated :: u32 where "flag_payload_truncated = push_bit 1 1"
definition flag_payload_sockaddr :: u32 where "flag_payload_sockaddr = push_bit 2 1"
definition flag_argv_truncated :: u32 where "flag_argv_truncated = push_bit 3 1"

datatype kernel_event_kind =
    KkExec | KkOpen | KkCreate | KkTruncate | KkUnlink | KkRename | KkConnect | KkExit | KkFork

definition kind_try_from :: "u32 \<Rightarrow> (string, kernel_event_kind) res" where
  "kind_try_from v =
     (if v = 1 then Inr KkExec else if v = 2 then Inr KkOpen else if v = 3 then Inr KkCreate
      else if v = 4 then Inr KkTruncate else if v = 5 then Inr KkUnlink else if v = 6 then Inr KkRename
      else if v = 7 then Inr KkConnect else if v = 8 then Inr KkExit else if v = 9 then Inr KkFork
      else Inl (''unknown kernel event kind: '' @ dec_str (unat v)))"

record kernel_event_record =
  kr_timestamp_ns :: u64
  kr_cgroup_id :: u64
  kr_pid :: u32
  kr_ppid :: u32
  kr_uid :: u32
  kr_gid :: u32
  kr_event_kind :: u32
  kr_flags :: u32
  kr_comm :: string
  kr_resource :: string
  kr_action :: string
  kr_payload :: string

definition read_u32 :: "string \<Rightarrow> nat \<Rightarrow> u32" where
  "read_u32 bytes offset = of_nat (le_nat (take 4 (drop offset bytes)))"

definition read_u64 :: "string \<Rightarrow> nat \<Rightarrow> u64" where
  "read_u64 bytes offset = of_nat (le_nat (take 8 (drop offset bytes)))"

definition copy_fixed :: "string \<Rightarrow> nat \<Rightarrow> nat \<Rightarrow> string" where
  "copy_fixed bytes offset n = take n (drop offset bytes)"

definition kernel_event_record_decode :: "string \<Rightarrow> (string, kernel_event_record) res" where
  "kernel_event_record_decode bytes =
     (if length bytes \<noteq> kernel_event_record_len then
        Inl (''invalid kernel event record: expected '' @ dec_str kernel_event_record_len
             @ '' bytes, received '' @ dec_str (length bytes))
      else
        (let o1 = 40; o2 = o1 + comm_len; o3 = o2 + resource_len; o4 = o3 + action_len in
         Inr \<lparr>kr_timestamp_ns = read_u64 bytes 0, kr_cgroup_id = read_u64 bytes 8,
              kr_pid = read_u32 bytes 16, kr_ppid = read_u32 bytes 20, kr_uid = read_u32 bytes 24,
              kr_gid = read_u32 bytes 28, kr_event_kind = read_u32 bytes 32, kr_flags = read_u32 bytes 36,
              kr_comm = copy_fixed bytes o1 comm_len, kr_resource = copy_fixed bytes o2 resource_len,
              kr_action = copy_fixed bytes o3 action_len, kr_payload = copy_fixed bytes o4 payload_len\<rparr>))"

definition fixed_string :: "string \<Rightarrow> string" where
  "fixed_string bytes = from_utf8_lossy (takeWhile (\<lambda>c. c \<noteq> CHR 0x00) bytes)"

text \<open>
  The layout a C compiler gives the structure (\<open>repr(C)\<close>): the fields in order, without padding
  since each starts at a multiple of its alignment.
\<close>

definition record_wf :: "kernel_event_record \<Rightarrow> bool" where
  "record_wf r \<longleftrightarrow> length (kr_comm r) = 16 \<and> length (kr_resource r) = 256 \<and> length (kr_action r) = 32
     \<and> length (kr_payload r) = 256"

definition record_layout :: "kernel_event_record \<Rightarrow> string" where
  "record_layout r =
     concat [le_bytes 8 (unat (kr_timestamp_ns r)), le_bytes 8 (unat (kr_cgroup_id r)),
       le_bytes 4 (unat (kr_pid r)), le_bytes 4 (unat (kr_ppid r)), le_bytes 4 (unat (kr_uid r)),
       le_bytes 4 (unat (kr_gid r)), le_bytes 4 (unat (kr_event_kind r)), le_bytes 4 (unat (kr_flags r)),
       kr_comm r, kr_resource r, kr_action r, kr_payload r]"

lemma unat_mod:
  "unat (v :: u32) mod 4294967296 = unat v" "unat (w :: u64) mod 18446744073709551616 = unat w"
  using unsigned_less [of v, where 'a = nat] unsigned_less [of w, where 'a = nat] by simp_all

lemma unat_read:
  "length bytes \<ge> off + 4 \<Longrightarrow> le_bytes 4 (unat (read_u32 bytes off)) = take 4 (drop off bytes)"
  "length bytes \<ge> off + 8 \<Longrightarrow> le_bytes 8 (unat (read_u64 bytes off)) = take 8 (drop off bytes)"
  using le_nat_less [of "take 4 (drop off bytes)"] le_nat_less [of "take 8 (drop off bytes)"]
    le_bytes_nat [of "take 4 (drop off bytes)"] le_bytes_nat [of "take 8 (drop off bytes)"]
  by (simp_all add: read_u32_def read_u64_def unsigned_of_nat take_bit_nat_eq_self)

lemmas abi_lens = kernel_event_record_len_def comm_len_def resource_len_def action_len_def payload_len_def

lemma decode_iff:
  "kernel_event_record_decode bytes = Inr r \<longleftrightarrow> record_wf r \<and> bytes = record_layout r"
proof
  assume a: "kernel_event_record_decode bytes = Inr r"
  then have len: "length bytes = 600"
    by (simp add: kernel_event_record_decode_def abi_lens split: if_splits)
  have cut: "take n (drop k bytes) @ drop (n + k) bytes = drop k bytes" for n k
    by (metis append_take_drop_id drop_drop)
  show "record_wf r \<and> bytes = record_layout r"
    using a len cut [of 8 0] cut [of 8 8] cut [of 4 16] cut [of 4 20] cut [of 4 24] cut [of 4 28]
      cut [of 4 32] cut [of 4 36] cut [of 16 40] cut [of 256 56] cut [of 32 312] cut [of 256 344]
    by (auto simp: kernel_event_record_decode_def abi_lens record_wf_def record_layout_def copy_fixed_def
        unat_read Let_def)
next
  assume a: "record_wf r \<and> bytes = record_layout r"
  then have len: "length bytes = 600" by (simp add: record_wf_def record_layout_def)
  from a have wf: "length (kr_comm r) = 16" "length (kr_resource r) = 256" "length (kr_action r) = 32"
    "length (kr_payload r) = 256"
    by (simp_all add: record_wf_def)
  show "kernel_event_record_decode bytes = Inr r"
    using len wf a
    by (cases r) (simp add: unat_mod kernel_event_record_decode_def abi_lens Let_def record_layout_def copy_fixed_def
        read_u32_def read_u64_def le_nat_bytes)
qed

text \<open>C26. Kernel records. Decoding is the inverse of the layout: bytes decode to a record exactly
  when its four arrays have their lengths and the bytes are its layout, field after field; all
  other bytes are an error.\<close>

theorem record_decode_iff:
  "kernel_event_record_decode bytes = Inr r \<longleftrightarrow> record_wf r \<and> bytes = record_layout r"
  by (rule decode_iff)

section \<open>A batch\<close>

record daemon_kernel_event =
  dk_timestamp :: u128
  dk_record :: kernel_event_record

record observer_batch =
  ob_events :: "daemon_kernel_event list"
  ob_decode_failures :: u64
  ob_truncations :: u64

text \<open>The clocks as they stood when the batch was read.\<close>

record batch_decoder =
  bd_monotonic_ns :: u64
  bd_unix_ms :: u128

definition to_unix_ms :: "batch_decoder \<Rightarrow> u64 \<Rightarrow> u128" where
  "to_unix_ms d ts =
     (if bd_monotonic_ns d \<le> ts then bd_unix_ms d + ucast (ts - bd_monotonic_ns d) div 1000000
      else sat_sub (bd_unix_ms d) (ucast (bd_monotonic_ns d - ts) div 1000000))"

definition has_flag :: "kernel_event_record \<Rightarrow> u32 \<Rightarrow> bool" where
  "has_flag r f \<longleftrightarrow> kr_flags r AND f \<noteq> 0"

definition decode_one :: "batch_decoder \<Rightarrow> string \<Rightarrow> observer_batch \<Rightarrow> observer_batch" where
  "decode_one d bytes b =
     (case kernel_event_record_decode bytes of
        Inl _ \<Rightarrow> b\<lparr>ob_decode_failures := ob_decode_failures b + 1\<rparr>
      | Inr r \<Rightarrow>
          b\<lparr>ob_truncations :=
               ob_truncations b + (if has_flag r (flag_resource_truncated OR flag_payload_truncated) then 1 else 0),
             ob_events :=
               ob_events b @ [\<lparr>dk_timestamp = to_unix_ms d (kr_timestamp_ns r), dk_record = r\<rparr>]\<rparr>)"

definition decode_batch :: "batch_decoder \<Rightarrow> string list \<Rightarrow> observer_batch" where
  "decode_batch d records =
     fold (decode_one d) records \<lparr>ob_events = [], ob_decode_failures = 0, ob_truncations = 0\<rparr>"

section \<open>The raw event of a record\<close>

fun event_name_of :: "kernel_event_kind \<Rightarrow> string" where
  "event_name_of KkExec = ''sched_process_exec''"
| "event_name_of KkOpen = ''openat''"
| "event_name_of KkCreate = ''creat''"
| "event_name_of KkTruncate = ''truncate''"
| "event_name_of KkUnlink = ''unlinkat''"
| "event_name_of KkRename = ''renameat2''"
| "event_name_of KkConnect = ''connect''"
| "event_name_of KkExit = ''sched_process_exit''"
| "event_name_of KkFork = ''sched_process_fork''"

text \<open>
  The family is read little-endian, the port big-endian; an IPv6 address is eight groups of two
  bytes, big-endian.
\<close>

definition octet :: "string \<Rightarrow> nat \<Rightarrow> nat" where
  "octet bytes i = byte_val (bytes ! i)"

definition decode_sockaddr :: "string \<Rightarrow> (string, string \<times> string) res" where
  "decode_sockaddr bytes =
     (if length bytes < 4 then Inl ''socket address payload is too short''
      else
        (let family = octet bytes 0 + 256 * octet bytes 1;
             port = dec_str (256 * octet bytes 2 + octet bytes 3)
         in
           if family = 2 \<and> 8 \<le> length bytes then
             Inr (ipv4_str (map (octet bytes) [4..<8]) @ '':'' @ port, ''inet'')
           else if family = 10 \<and> 24 \<le> length bytes then
             Inr (''['' @ ipv6_str (map (\<lambda>i. 256 * octet bytes (8 + 2 * i) + octet bytes (9 + 2 * i)) [0..<8])
                  @ '']:'' @ port, ''inet6'')
           else if family = 2 \<or> family = 10 then Inl ''socket address payload is truncated''
           else Inr (''family:'' @ dec_str family @ '',port:'' @ port, ''unknown'')))"

definition truncation_markers :: "kernel_event_record \<Rightarrow> string list" where
  "truncation_markers r =
     (if has_flag r flag_resource_truncated then [''resource_truncated:true''] else [])
     @ (if has_flag r flag_argv_truncated then [''argv_truncated:true''] else [])
     @ (if has_flag r flag_payload_truncated then [''payload_truncated:true''] else [])"

definition with_markers :: "string list \<Rightarrow> string \<Rightarrow> string" where
  "with_markers markers payload =
     (if markers = [] then payload
      else join_with '','' (if payload \<noteq> [] then payload # markers else markers))"

definition raw_event_from_record ::
    "kernel_event_record \<Rightarrow> string \<Rightarrow> u128 \<Rightarrow> (string, raw_kernel_event) res" where
  "raw_event_from_record r sid timestamp =
     (case kind_try_from (kr_event_kind r) of
        Inl e \<Rightarrow> Inl e
      | Inr kind \<Rightarrow>
          (case (if has_flag r flag_payload_sockaddr then
                   map_sum id (\<lambda>(address, family). (address, ''family:'' @ family))
                     (decode_sockaddr (kr_payload r))
                 else Inr (fixed_string (kr_resource r), fixed_string (kr_payload r))) of
             Inl e \<Rightarrow> Inl e
           | Inr (resource, payload) \<Rightarrow>
               Inr (raw_kernel_event_new timestamp sid SrcKernelTracepoint (event_name_of kind)
                      (kr_pid r) (kr_ppid r) (kr_uid r) (kr_gid r) (fixed_string (kr_comm r)) resource
                      (fixed_string (kr_action r)) None (Some (dec_str (unat (kr_cgroup_id r))))
                      (with_markers (truncation_markers r) payload))))"

section \<open>The tracked cgroups\<close>

definition max_tracked_cgroups :: nat where
  "max_tracked_cgroups = 16384"

datatype scope_set_error = InvalidCgroupId | CapacityReached nat

fun scope_set_error_str :: "scope_set_error \<Rightarrow> string" where
  "scope_set_error_str InvalidCgroupId = ''cgroup id must be non-zero''"
| "scope_set_error_str (CapacityReached n) = ''cgroup scope capacity reached: '' @ dec_str n"

record scope_set =
  sset_capacity :: nat
  sset_ids :: "u64 list"

definition scope_set_new :: "nat \<Rightarrow> scope_set" where
  "scope_set_new capacity = \<lparr>sset_capacity = capacity, sset_ids = []\<rparr>"

definition scope_set_insert :: "u64 \<Rightarrow> scope_set \<Rightarrow> (scope_set_error, bool) res \<times> scope_set" where
  "scope_set_insert c s =
     (if c = 0 then (Inl InvalidCgroupId, s)
      else if c \<in> set (sset_ids s) then (Inr False, s)
      else if sset_capacity s \<le> length (sset_ids s) then (Inl (CapacityReached (sset_capacity s)), s)
      else (Inr True, s\<lparr>sset_ids := bs_insert c (sset_ids s)\<rparr>))"

definition scope_set_remove :: "u64 \<Rightarrow> scope_set \<Rightarrow> bool \<times> scope_set" where
  "scope_set_remove c s = (c \<in> set (sset_ids s), s\<lparr>sset_ids := bs_remove c (sset_ids s)\<rparr>)"

lemma scope_set_wf_insert: "bs_wf (sset_ids s) \<Longrightarrow> bs_wf (sset_ids (snd (scope_set_insert c s)))"
  by (simp add: scope_set_insert_def sorted_insort_insert distinct_insort_insert)

lemma scope_set_insert_bounded:
  "length (sset_ids s) \<le> sset_capacity s \<Longrightarrow>
   length (sset_ids (snd (scope_set_insert c s))) \<le> sset_capacity (snd (scope_set_insert c s))"
  by (simp add: scope_set_insert_def length_bs_insert_new)

section \<open>Every record of a batch\<close>

definition decoded :: "string list \<Rightarrow> kernel_event_record list" where
  "decoded records =
     List.map_filter (\<lambda>bytes. case kernel_event_record_decode bytes of Inl _ \<Rightarrow> None | Inr r \<Rightarrow> Some r) records"

definition is_truncated :: "kernel_event_record \<Rightarrow> bool" where
  "is_truncated r \<longleftrightarrow> has_flag r flag_resource_truncated \<or> has_flag r flag_payload_truncated"

lemma has_flag_or:
  "has_flag r (flag_resource_truncated OR flag_payload_truncated) \<longleftrightarrow> is_truncated r"
  by (simp add: has_flag_def is_truncated_def bit.conj_disj_distrib or_eq_0_iff)

lemma decoded_Cons:
  "decoded (bytes # records) =
     (case kernel_event_record_decode bytes of Inl _ \<Rightarrow> decoded records | Inr r \<Rightarrow> r # decoded records)"
  by (simp add: decoded_def map_filter_simps split: sum.split)

definition undecodable :: "string list \<Rightarrow> string list" where
  "undecodable records = filter (\<lambda>bytes. \<not> is_ok (kernel_event_record_decode bytes)) records"

lemma length_decoded: "length (decoded records) + length (undecodable records) = length records"
  by (induction records)
    (simp_all add: decoded_Cons undecodable_def decoded_def map_filter_simps split: sum.split)

lemma decode_batch_fold:
  "fold (decode_one d) records b =
     \<lparr>ob_events = ob_events b
        @ map (\<lambda>r. \<lparr>dk_timestamp = to_unix_ms d (kr_timestamp_ns r), dk_record = r\<rparr>) (decoded records),
      ob_decode_failures = ob_decode_failures b + of_nat (length (undecodable records)),
      ob_truncations = ob_truncations b + of_nat (length (filter is_truncated (decoded records)))\<rparr>"
proof (induction records arbitrary: b)
  case (Cons bytes records)
  show ?case
  proof (cases "kernel_event_record_decode bytes")
    case (Inl e)
    then have "decode_one d bytes b = b\<lparr>ob_decode_failures := ob_decode_failures b + 1\<rparr>"
      by (simp add: decode_one_def)
    with Inl show ?thesis by (simp add: Cons.IH decoded_Cons undecodable_def)
  next
    case (Inr r)
    then have "decode_one d bytes b = b\<lparr>ob_truncations := ob_truncations b + (if is_truncated r then 1 else 0),
        ob_events := ob_events b @ [\<lparr>dk_timestamp = to_unix_ms d (kr_timestamp_ns r), dk_record = r\<rparr>]\<rparr>"
      by (simp add: decode_one_def has_flag_or)
    with Inr show ?thesis by (simp add: Cons.IH decoded_Cons undecodable_def)
  qed
qed (simp add: decoded_def undecodable_def map_filter_simps)

section \<open>Time\<close>

lemma unat_div_ms: "unat (ucast (x :: u64) div 1000000 :: u128) = unat x div 1000000"
proof -
  have "unat x < 2 ^ 64" using unsigned_less [of x, where 'a = nat] by simp
  then have "unat (ucast x :: u128) = unat x" by (simp add: unsigned_ucast_eq take_bit_nat_eq_self)
  then show ?thesis by (simp add: unat_div)
qed

lemma unat_to_unix_ms:
  assumes "unat (bd_unix_ms d) < 2 ^ 127"
  shows "unat (to_unix_ms d ts) =
    (if bd_monotonic_ns d \<le> ts then unat (bd_unix_ms d) + (unat ts - unat (bd_monotonic_ns d)) div 1000000
     else unat (bd_unix_ms d) - (unat (bd_monotonic_ns d) - unat ts) div 1000000)"
proof (cases "bd_monotonic_ns d \<le> ts")
  case True
  then have s: "unat (ts - bd_monotonic_ns d) = unat ts - unat (bd_monotonic_ns d)"
    by (simp add: unat_sub)
  have "unat (ts - bd_monotonic_ns d) < 2 ^ 64"
    using unsigned_less [of "ts - bd_monotonic_ns d", where 'a = nat] by simp
  then have "unat (ts - bd_monotonic_ns d) div 1000000 < 2 ^ 64" by simp
  with True s assms show ?thesis
    by (simp add: to_unix_ms_def unat_word_ariths(1) unat_div_ms)
next
  case False
  then have "unat (bd_monotonic_ns d - ts) = unat (bd_monotonic_ns d) - unat ts" by (simp add: unat_sub)
  with False show ?thesis by (simp add: to_unix_ms_def unat_sat_sub unat_div_ms)
qed

lemma to_unix_ms_mono:
  "unat (bd_unix_ms d) < 2 ^ 127 \<Longrightarrow> a \<le> b \<Longrightarrow> to_unix_ms d a \<le> to_unix_ms d b"
  by (auto simp: word_le_nat_alt unat_to_unix_ms intro: div_le_mono diff_le_mono)

lemma decode_batch_counts:
  assumes "length records < 2 ^ 64"
  shows "length (ob_events (decode_batch d records)) + unat (ob_decode_failures (decode_batch d records))
      = length records"
    and "unat (ob_truncations (decode_batch d records)) = length (filter is_truncated (decoded records))"
proof -
  have less: "length (filter is_truncated (decoded records)) < 2 ^ 64"
    using length_decoded [of records] assms
    by (intro le_less_trans [OF length_filter_le]) simp
  show "length (ob_events (decode_batch d records)) + unat (ob_decode_failures (decode_batch d records))
      = length records"
    using length_decoded [of records] assms
    by (simp add: decode_batch_def decode_batch_fold unsigned_of_nat take_bit_nat_eq_self)
  show "unat (ob_truncations (decode_batch d records)) = length (filter is_truncated (decoded records))"
    using less by (simp add: decode_batch_def decode_batch_fold unsigned_of_nat take_bit_nat_eq_self)
qed

text \<open>Batches. Every record read from the ring buffer is accounted for: those that decode
  become events, in order, and the others are counted as decode failures; so are the
  truncated ones among the events. The times of the events, on the wall clock, keep the order
  of the kernel's clock: a record stamped earlier is never placed later.\<close>

lemma batch_accounts_for_records:
  assumes "length records < 2 ^ 64" and "unat (bd_unix_ms d) < 2 ^ 127"
  shows "let b = decode_batch d records in
      map dk_record (ob_events b) = decoded records
      \<and> length (ob_events b) + unat (ob_decode_failures b) = length records
      \<and> unat (ob_truncations b) = length (filter is_truncated (decoded records))
      \<and> (\<forall>e \<in> set (ob_events b). \<forall>f \<in> set (ob_events b).
            kr_timestamp_ns (dk_record e) \<le> kr_timestamp_ns (dk_record f) \<longrightarrow> dk_timestamp e \<le> dk_timestamp f)"
proof -
  have "map dk_record (ob_events (decode_batch d records)) = decoded records"
    by (simp add: decode_batch_def decode_batch_fold comp_def)
  moreover have "\<forall>e \<in> set (ob_events (decode_batch d records)).
      dk_timestamp e = to_unix_ms d (kr_timestamp_ns (dk_record e))"
    by (auto simp: decode_batch_def decode_batch_fold)
  ultimately show ?thesis
    using decode_batch_counts [OF assms(1)] to_unix_ms_mono [OF assms(2)] by (simp add: Let_def)
qed

definition sample_record :: kernel_event_record where
  "sample_record =
     \<lparr>kr_timestamp_ns = 5000000, kr_cgroup_id = 77, kr_pid = 42, kr_ppid = 1, kr_uid = 1000, kr_gid = 1000,
      kr_event_kind = 2, kr_flags = 1, kr_comm = CHR 0xFF # replicate 15 (CHR 0x00),
      kr_resource = ''/w/a'' @ replicate 252 (CHR 0x00), kr_action = replicate 32 (CHR 0x00),
      kr_payload = replicate 256 (CHR 0x00)\<rparr>"

lemma sample_decodes: "kernel_event_record_decode (record_layout sample_record) = Inr sample_record"
  by (simp add: decode_iff record_wf_def sample_record_def)

theorem batch_accounts_for_records_witness:
  "let d = \<lparr>bd_monotonic_ns = 4000000, bd_unix_ms = 1700000000000\<rparr>;
       b = decode_batch d [record_layout sample_record, ''torn'']
   in map dk_record (ob_events b) = [sample_record] \<and> ob_decode_failures b = 1 \<and> ob_truncations b = 1"
proof -
  obtain e where torn: "kernel_event_record_decode ''torn'' = Inl e"
    by (simp add: kernel_event_record_decode_def abi_lens)
  have dec: "decoded [record_layout sample_record, ''torn''] = [sample_record]"
    by (simp add: decoded_Cons sample_decodes torn decoded_def map_filter_simps)
  have tr: "is_truncated sample_record"
    by (simp add: is_truncated_def has_flag_def sample_record_def flag_resource_truncated_def)
  have n: "length [record_layout sample_record, ''torn''] < 2 ^ 64"
    "unat (bd_unix_ms \<lparr>bd_monotonic_ns = 4000000, bd_unix_ms = 1700000000000\<rparr>) < 2 ^ 127"
    by simp_all
  have one: "length es = 1" if "map dk_record es = [sample_record]" for es
    using arg_cong [OF that, of length] by simp
  show ?thesis
    using batch_accounts_for_records [OF n] tr by (auto simp: Let_def dec word_unat_eq_iff dest: one)
qed

section \<open>Events are text\<close>

text \<open>Rust's \<open>String\<close> holds UTF-8 only; an event made of kernel bytes must too.\<close>

definition raw_event_utf8 :: "raw_kernel_event \<Rightarrow> bool" where
  "raw_event_utf8 e \<longleftrightarrow>
     list_all utf8_valid
       ([rk_session_id e, rk_event_name e, rk_comm e, rk_resource e, rk_action e, rk_raw_payload e]
        @ (case rk_container_id e of None \<Rightarrow> [] | Some s \<Rightarrow> [s])
        @ (case rk_cgroup_id e of None \<Rightarrow> [] | Some s \<Rightarrow> [s])
        @ (case rk_event_id e of None \<Rightarrow> [] | Some s \<Rightarrow> [s]))"

lemma utf8_valid_fixed_string: "utf8_valid (fixed_string s)"
  by (simp add: fixed_string_def utf8_valid_lossy)

lemma utf8_valid_sockaddr:
  "decode_sockaddr bytes = Inr (address, family) \<Longrightarrow> utf8_valid address \<and> utf8_valid family"
  by (auto simp: decode_sockaddr_def Let_def byte_val_def utf8_valid_append utf8_valid_ipv4_str utf8_valid_ipv6_str
      utf8_valid_dec_str split: if_splits)

lemma utf8_valid_with_markers:
  "utf8_valid payload \<Longrightarrow> utf8_valid (with_markers (truncation_markers r) payload)"
  by (auto simp: with_markers_def truncation_markers_def byte_val_def utf8_valid_append)

lemma utf8_valid_event_name: "utf8_valid (event_name_of k)"
  by (cases k) (simp_all add: byte_val_def)

lemma sockaddr_of_record: "length bytes = 256 \<Longrightarrow> is_ok (decode_sockaddr bytes)"
  by (simp add: decode_sockaddr_def Let_def)

text \<open>C27. Raw events. Of any bytes the kernel leaves in a record that decodes, the raw event has
  only text in its strings, whatever the bytes are; and it is an error only for an unknown
  kind of event, never for an address.\<close>

theorem raw_event_well_typed:
  assumes "kernel_event_record_decode bytes = Inr r" and "utf8_valid sid"
  shows "case raw_event_from_record r sid timestamp of
      Inl _ \<Rightarrow> kr_event_kind r \<notin> {1, 2, 3, 4, 5, 6, 7, 8, 9}
    | Inr e \<Rightarrow> raw_event_utf8 e \<and> rk_session_id e = sid \<and> rk_pid e = kr_pid r"
proof (cases "kind_try_from (kr_event_kind r)")
  case (Inl e)
  then show ?thesis by (simp add: raw_event_from_record_def kind_try_from_def split: if_splits)
next
  case (Inr kind)
  have "length (kr_payload r) = 256" using assms(1) by (auto simp: decode_iff record_wf_def)
  then obtain address family where s: "decode_sockaddr (kr_payload r) = Inr (address, family)"
    using sockaddr_of_record [of "kr_payload r"] by (cases "decode_sockaddr (kr_payload r)") auto
  note utf8 = utf8_valid_fixed_string utf8_valid_with_markers utf8_valid_event_name utf8_valid_dec_str
    utf8_valid_sockaddr [OF s] assms(2)
  show ?thesis
    using Inr s by (simp add: raw_event_from_record_def raw_kernel_event_new_def raw_event_utf8_def utf8 byte_val_def)
qed

theorem raw_event_well_typed_witness:
  "case raw_event_from_record sample_record ''s'' 5 of
     Inl _ \<Rightarrow> False
   | Inr e \<Rightarrow> raw_event_utf8 e \<and> rk_session_id e = ''s'' \<and> rk_pid e = 42"
proof -
  have "utf8_valid ''s''" by (simp add: byte_val_def)
  from raw_event_well_typed [OF sample_decodes this, of 5] show ?thesis
    by (simp add: sample_record_def split: sum.splits)
qed

end
