(* ===== verification/Observer_Runtime.thy ===== *)
theory Observer_Runtime
  imports Daemon_State Observer_Redaction Observer_Abi
begin

text \<open>
  From kernel batches to the event pipeline (\<open>crates/apolysis-daemon/src/runtime.rs\<close>): the
  ingestion of a batch, the effects it accounts for, and the worker that runs the observer.
  Every look at the shared state may find it changed by other tasks, so the state is a
  parameter \<open>seen\<close>, by event and by look; so are the answers of the pipeline, in the order of
  the submissions.
\<close>

section \<open>The effect of an event\<close>

definition effect_kind_of :: "bool \<Rightarrow> string \<Rightarrow> effect_kind option" where
  "effect_kind_of credential_read name =
     (if name \<in> {''exec'', ''execve'', ''sched_process_exec''} then Some EkExec
      else if name \<in> {''open'', ''openat'', ''openat2''} then
        Some (if credential_read then EkCredentialRead else EkFileRead)
      else if name \<in> {''creat'', ''truncate'', ''ftruncate'', ''unlink'', ''unlinkat'', ''rename'', ''renameat'',
                      ''renameat2''} then Some EkFileWrite
      else if name = ''connect'' then Some EkNetworkConnect
      else None)"

definition observed_effect_from_raw_event :: "raw_kernel_event \<Rightarrow> bool \<Rightarrow> observed_effect option" where
  "observed_effect_from_raw_event raw credential_read =
     (case effect_kind_of credential_read (rk_event_name raw) of
        None \<Rightarrow> None
      | Some kind \<Rightarrow>
          Some \<lparr>oe_session_id = rk_session_id raw,
            oe_evidence_ref = ''raw_kernel_event:'' @ dec_str (unat (rk_timestamp raw)) @ '':''
              @ dec_str (unat (rk_pid raw)) @ '':'' @ rk_event_name raw,
            oe_kind = kind,
            oe_actor = (if trim (rk_action raw) = [] then rk_comm raw else rk_action raw),
            oe_resource = rk_resource raw,
            oe_runtime =
              \<lparr>ri_runtime = ''kernel_tracepoint'', ri_container_id = rk_container_id raw, ri_pod_uid = None,
               ri_cgroup_id =
                 (case rk_cgroup_id raw of
                    None \<Rightarrow> None
                  | Some v \<Rightarrow> (case parse_word v of Inl _ \<Rightarrow> None | Inr c \<Rightarrow> Some c))\<rparr>,
            oe_boundary = HostBoundary\<rparr>)"

text \<open>
  The record of an event. A time of \<open>2 ^ 64\<close> milliseconds or more has no JSON number in
  serde_json and would stop the task; the wall clock is far below.
\<close>

definition v_raw_event :: "'v json_lib \<Rightarrow> raw_kernel_event \<Rightarrow> 'v" where
  "v_raw_event J e =
     jl_object J [(''record_type'', jl_string J ''raw_kernel_event''),
       (''timestamp_unix_ms'', jl_u64 J (ucast (rk_timestamp e))),
       (''session_id'', jl_string J (rk_session_id e)),
       (''event_source'', jl_string J (event_source_str (rk_source e))),
       (''event_name'', jl_string J (rk_event_name e)),
       (''pid'', jl_u64 J (ucast (rk_pid e))), (''ppid'', jl_u64 J (ucast (rk_ppid e))),
       (''uid'', jl_u64 J (ucast (rk_uid e))), (''gid'', jl_u64 J (ucast (rk_gid e))),
       (''comm'', jl_string J (rk_comm e)), (''resource'', jl_string J (rk_resource e)),
       (''action'', jl_string J (rk_action e)),
       (''container_id'', jl_optional J (rk_container_id e)),
       (''cgroup_id'', jl_optional J (rk_cgroup_id e)),
       (''raw_payload'', jl_string J (rk_raw_payload e))]"

section \<open>A batch\<close>

record ingest_summary =
  is_submitted :: u64
  is_dropped :: u64
  is_unscoped :: u64
  is_decode_failures :: u64
  is_truncations :: u64

definition summary_zero :: ingest_summary where
  "summary_zero = \<lparr>is_submitted = 0, is_dropped = 0, is_unscoped = 0, is_decode_failures = 0, is_truncations = 0\<rparr>"

text \<open>The looks at the state for one event: its session, workspace, policy and intent.\<close>

record look =
  lk_session :: daemon_state
  lk_workspace :: daemon_state
  lk_policy :: daemon_state
  lk_intent :: daemon_state

definition credential_read_of :: "look \<Rightarrow> string \<Rightarrow> raw_kernel_event \<Rightarrow> bool" where
  "credential_read_of lk sid raw \<longleftrightarrow>
     rk_event_name raw \<in> {''open'', ''openat'', ''openat2''}
     \<and> credential_path_requires_redaction sid (rk_resource raw) (lk_policy lk)"

text \<open>
  What one event does: nothing, for an unscoped one; a failure; or the records to submit, in
  order, and whether its findings could not be made.
\<close>

datatype 'v event_outcome =
    Unscoped
  | Undecodable
  | Submits "'v daemon_record list" bool

definition ingest_event ::
    "'v daemon_lib \<Rightarrow> daemon_env \<Rightarrow> (string \<Rightarrow> string) \<Rightarrow> look \<Rightarrow> daemon_kernel_event \<Rightarrow> 'v event_outcome" where
  "ingest_event L env sha lk e =
     (case ds_session_for_cgroup (kr_cgroup_id (dk_record e)) (lk_session lk) of
        None \<Rightarrow> Unscoped
      | Some sid \<Rightarrow>
          (case raw_event_from_record (dk_record e) sid (dk_timestamp e) of
             Inl _ \<Rightarrow> Undecodable
           | Inr raw \<Rightarrow>
               (let rd = \<lparr>rd_session_id = sid, rd_workspace_root = workspace_root_for_session sid (lk_workspace lk)\<rparr>;
                    credential_read = credential_read_of lk sid raw;
                    persisted = redact_raw_event_for_persistence sha raw rd credential_read;
                    first = \<lparr>dr_session_id = sid, dr_priority = Ordinary,
                             dr_payload = v_raw_event (dl_json L) persisted\<rparr>
                in
                  case observed_effect_from_raw_event persisted credential_read of
                    None \<Rightarrow> Submits [first] False
                  | Some effect \<Rightarrow>
                      (case accountability_finding_payloads L env effect (lk_intent lk) of
                         Inl _ \<Rightarrow> Submits [first] True
                       | Inr payloads \<Rightarrow>
                           Submits
                             (first # map (\<lambda>v. \<lparr>dr_session_id = sid, dr_priority = Finding, dr_payload = v\<rparr>)
                                        payloads) False))))"

definition record_submission ::
    "(submit_error, push_outcome) res \<Rightarrow> ingest_summary \<Rightarrow> ingest_summary" where
  "record_submission result s =
     (case result of
        Inr Accepted \<Rightarrow> s\<lparr>is_submitted := sat_add (is_submitted s) 1\<rparr>
      | Inr (AcceptedAfterShedding _) \<Rightarrow> s\<lparr>is_submitted := sat_add (is_submitted s) 1\<rparr>
      | _ \<Rightarrow> s\<lparr>is_dropped := sat_add (is_dropped s) 1\<rparr>)"

text \<open>The pipeline answers the submissions one after the other; \<open>answers n\<close> is its \<open>n\<close>th answer.\<close>

type_synonym answers = "nat \<Rightarrow> (submit_error, push_outcome) res"

definition submit_records ::
    "answers \<Rightarrow> 'v daemon_record list \<Rightarrow> 'v daemon_record list \<times> ingest_summary
     \<Rightarrow> 'v daemon_record list \<times> ingest_summary" where
  "submit_records answers rs =
     fold (\<lambda>r (sent, s). (sent @ [r], record_submission (answers (length sent)) s)) rs"

definition apply_outcome ::
    "answers \<Rightarrow> 'v event_outcome \<Rightarrow> 'v daemon_record list \<times> ingest_summary
     \<Rightarrow> 'v daemon_record list \<times> ingest_summary" where
  "apply_outcome answers out st =
     (case out of
        Unscoped \<Rightarrow> (fst st, (snd st)\<lparr>is_unscoped := sat_add (is_unscoped (snd st)) 1\<rparr>)
      | Undecodable \<Rightarrow> (fst st, (snd st)\<lparr>is_decode_failures := sat_add (is_decode_failures (snd st)) 1\<rparr>)
      | Submits rs failed \<Rightarrow>
          (let (sent, s) = submit_records answers rs st
           in (sent, if failed then s\<lparr>is_decode_failures := sat_add (is_decode_failures s) 1\<rparr> else s)))"

fun ingest_events ::
    "'v daemon_lib \<Rightarrow> daemon_env \<Rightarrow> (string \<Rightarrow> string) \<Rightarrow> answers \<Rightarrow> (daemon_kernel_event \<times> look) list
     \<Rightarrow> 'v daemon_record list \<times> ingest_summary \<Rightarrow> 'v daemon_record list \<times> ingest_summary" where
  "ingest_events L env sha answers [] st = st"
| "ingest_events L env sha answers ((e, lk) # es) st =
     ingest_events L env sha answers es (apply_outcome answers (ingest_event L env sha lk e) st)"

definition ingest_observer_batch ::
    "'v daemon_lib \<Rightarrow> daemon_env \<Rightarrow> (string \<Rightarrow> string) \<Rightarrow> answers \<Rightarrow> (nat \<Rightarrow> look) \<Rightarrow> observer_batch
     \<Rightarrow> 'v daemon_record list \<times> ingest_summary" where
  "ingest_observer_batch L env sha answers seen batch =
     ingest_events L env sha answers (zip (ob_events batch) (map seen [0..<length (ob_events batch)]))
       ([], summary_zero\<lparr>is_decode_failures := ob_decode_failures batch, is_truncations := ob_truncations batch\<rparr>)"

section \<open>Nothing of a batch is lost\<close>

text \<open>
  What an event is, told from its record and what was seen of the state: its session; the raw event of the session, if the
  record can be read; what is stored of that; and the findings it gives rise to, if they can be made.
\<close>

definition event_session :: "look \<Rightarrow> daemon_kernel_event \<Rightarrow> string option" where
  "event_session lk e = ds_session_for_cgroup (kr_cgroup_id (dk_record e)) (lk_session lk)"

definition event_raw :: "look \<Rightarrow> daemon_kernel_event \<Rightarrow> (string \<times> raw_kernel_event) option" where
  "event_raw lk e =
     (case event_session lk e of
        None \<Rightarrow> None
      | Some sid \<Rightarrow>
          (case raw_event_from_record (dk_record e) sid (dk_timestamp e) of
             Inl _ \<Rightarrow> None
           | Inr raw \<Rightarrow> Some (sid, raw)))"

definition event_stored :: "(string \<Rightarrow> string) \<Rightarrow> look \<Rightarrow> string \<Rightarrow> raw_kernel_event \<Rightarrow> raw_kernel_event" where
  "event_stored sha lk sid raw =
     redact_raw_event_for_persistence sha raw
       \<lparr>rd_session_id = sid, rd_workspace_root = workspace_root_for_session sid (lk_workspace lk)\<rparr>
       (credential_read_of lk sid raw)"

definition event_findings ::
    "'v daemon_lib \<Rightarrow> daemon_env \<Rightarrow> (string \<Rightarrow> string) \<Rightarrow> look \<Rightarrow> string \<times> raw_kernel_event \<Rightarrow> (string, 'v list) res" where
  "event_findings L env sha lk = (\<lambda>(sid, raw).
     case observed_effect_from_raw_event (event_stored sha lk sid raw) (credential_read_of lk sid raw) of
       None \<Rightarrow> Inr []
     | Some effect \<Rightarrow> accountability_finding_payloads L env effect (lk_intent lk))"

text \<open>The records due for an event: what is stored of it, and its findings, all for its own session.\<close>

definition due_records ::
    "'v daemon_lib \<Rightarrow> daemon_env \<Rightarrow> (string \<Rightarrow> string) \<Rightarrow> daemon_kernel_event \<times> look \<Rightarrow> 'v daemon_record list" where
  "due_records L env sha = (\<lambda>(e, lk).
     case event_raw lk e of
       None \<Rightarrow> []
     | Some (sid, raw) \<Rightarrow>
         \<lparr>dr_session_id = sid, dr_priority = Ordinary, dr_payload = v_raw_event (dl_json L) (event_stored sha lk sid raw)\<rparr>
         # map (\<lambda>v. \<lparr>dr_session_id = sid, dr_priority = Finding, dr_payload = v\<rparr>)
             (case event_findings L env sha lk (sid, raw) of Inl _ \<Rightarrow> [] | Inr vs \<Rightarrow> vs))"

definition event_unscoped :: "daemon_kernel_event \<times> look \<Rightarrow> bool" where
  "event_unscoped = (\<lambda>(e, lk). event_session lk e = None)"

definition event_failed ::
    "'v daemon_lib \<Rightarrow> daemon_env \<Rightarrow> (string \<Rightarrow> string) \<Rightarrow> daemon_kernel_event \<times> look \<Rightarrow> bool" where
  "event_failed L env sha = (\<lambda>(e, lk).
     event_session lk e \<noteq> None
     \<and> (case event_raw lk e of None \<Rightarrow> True | Some r \<Rightarrow> \<not> is_ok (event_findings L env sha lk r)))"

text \<open>The pipeline took a record, whether or not it gave up another one for it.\<close>

fun accepted_answer :: "(submit_error, push_outcome) res \<Rightarrow> bool" where
  "accepted_answer (Inr Accepted) = True"
| "accepted_answer (Inr (AcceptedAfterShedding _)) = True"
| "accepted_answer (Inr (Dropped _)) = False"
| "accepted_answer (Inl _) = False"

fun outcome_records :: "'v event_outcome \<Rightarrow> 'v daemon_record list" where
  "outcome_records (Submits rs failed) = rs"
| "outcome_records _ = []"

fun outcome_fails :: "'v event_outcome \<Rightarrow> bool" where
  "outcome_fails Unscoped = False"
| "outcome_fails Undecodable = True"
| "outcome_fails (Submits rs failed) = failed"

lemma ingest_event_due:
  "outcome_records (ingest_event L env sha lk e) = due_records L env sha (e, lk)"
  "ingest_event L env sha lk e = Unscoped \<longleftrightarrow> event_unscoped (e, lk)"
  "outcome_fails (ingest_event L env sha lk e) \<longleftrightarrow> event_failed L env sha (e, lk)"
proof -
  have "outcome_records (ingest_event L env sha lk e) = due_records L env sha (e, lk)
    \<and> (ingest_event L env sha lk e = Unscoped \<longleftrightarrow> event_unscoped (e, lk))
    \<and> (outcome_fails (ingest_event L env sha lk e) \<longleftrightarrow> event_failed L env sha (e, lk))"
  proof (cases "event_raw lk e")
    case None
    then show ?thesis
      by (auto simp: ingest_event_def due_records_def event_raw_def event_session_def event_unscoped_def event_failed_def
          split: option.splits sum.splits)
  next
    case (Some r)
    obtain sid raw where r: "r = (sid, raw)" by (cases r)
    then have "ds_session_for_cgroup (kr_cgroup_id (dk_record e)) (lk_session lk) = Some sid"
      "raw_event_from_record (dk_record e) sid (dk_timestamp e) = Inr raw"
      using Some by (auto simp: event_raw_def event_session_def split: option.splits sum.splits)
    then show ?thesis
      using Some r
      by (simp add: ingest_event_def due_records_def event_session_def event_stored_def event_findings_def
          event_unscoped_def event_failed_def Let_def split: option.split sum.split)
  qed
  then show "outcome_records (ingest_event L env sha lk e) = due_records L env sha (e, lk)"
    "ingest_event L env sha lk e = Unscoped \<longleftrightarrow> event_unscoped (e, lk)"
    "outcome_fails (ingest_event L env sha lk e) \<longleftrightarrow> event_failed L env sha (e, lk)" by blast+
qed

lemma unat_sat_add_1: "unat (x :: u64) < 2 ^ 64 - 1 \<Longrightarrow> unat (sat_add x 1) = Suc (unat x)"
  by (simp add: unat_sat_add)

text \<open>The counts of the submissions are those of the answers.\<close>

definition tallied :: "answers \<Rightarrow> 'v daemon_record list \<times> ingest_summary \<Rightarrow> bool" where
  "tallied answers st \<longleftrightarrow>
     unat (is_submitted (snd st)) = length (filter (\<lambda>i. accepted_answer (answers i)) [0..<length (fst st)])
     \<and> unat (is_dropped (snd st)) = length (filter (\<lambda>i. \<not> accepted_answer (answers i)) [0..<length (fst st)])"

lemma record_submission_frame [simp]:
  "is_unscoped (record_submission a s) = is_unscoped s"
  "is_decode_failures (record_submission a s) = is_decode_failures s"
  "is_truncations (record_submission a s) = is_truncations s"
  by (simp_all add: record_submission_def split: sum.split push_outcome.split)

lemma submit_records_simps:
  "submit_records answers [] st = st"
  "submit_records answers (r # rs) (sent, s) =
     submit_records answers rs (sent @ [r], record_submission (answers (length sent)) s)"
  by (simp_all add: submit_records_def)

lemma record_submission_tallied:
  assumes "tallied answers (sent, s)" "length sent < 2 ^ 64 - 1"
  shows "tallied answers (sent @ [r], record_submission (answers (length sent)) s)"
proof -
  have le: "length (filter P [0..<length sent]) < 2 ^ 64 - 1" for P
    using length_filter_le [of P "[0..<length sent]"] assms(2) by (simp del: length_filter_le)
  have sub: "unat (is_submitted s) = length (filter (\<lambda>i. accepted_answer (answers i)) [0..<length sent])"
    and drop: "unat (is_dropped s) = length (filter (\<lambda>i. \<not> accepted_answer (answers i)) [0..<length sent])"
    using assms(1) by (simp_all add: tallied_def)
  have "unat (sat_add (is_submitted s) 1) = Suc (unat (is_submitted s))"
    "unat (sat_add (is_dropped s) 1) = Suc (unat (is_dropped s))"
    by (rule unat_sat_add_1, simp only: sub drop le)+
  then show ?thesis
    using sub drop
    by (cases "answers (length sent)" rule: accepted_answer.cases) (simp_all add: tallied_def record_submission_def)
qed

lemma submit_records_parts:
  "fst (submit_records answers rs (sent, s)) = sent @ rs"
  "is_unscoped (snd (submit_records answers rs (sent, s))) = is_unscoped s"
  "is_decode_failures (snd (submit_records answers rs (sent, s))) = is_decode_failures s"
  "is_truncations (snd (submit_records answers rs (sent, s))) = is_truncations s"
  "tallied answers (sent, s) \<Longrightarrow> length sent + length rs < 2 ^ 64 \<Longrightarrow>
     tallied answers (submit_records answers rs (sent, s))"
proof (induction rs arbitrary: sent s)
  case (Cons r rs)
  { case 5
    then show ?case
      using Cons.IH(5) [of "sent @ [r]" "record_submission (answers (length sent)) s"] record_submission_tallied [of answers sent s r]
      by (simp add: submit_records_simps)
  }
qed (simp_all add: submit_records_simps)

lemma tallied_frame [simp]:
  "tallied answers (sent, s\<lparr>is_unscoped := n\<rparr>) = tallied answers (sent, s)"
  "tallied answers (sent, s\<lparr>is_decode_failures := n\<rparr>) = tallied answers (sent, s)"
  by (simp_all add: tallied_def)

lemma apply_outcome_parts:
  "fst (apply_outcome answers out st) = fst st @ outcome_records out"
  "is_unscoped (snd (apply_outcome answers out st)) =
     (if out = Unscoped then sat_add (is_unscoped (snd st)) 1 else is_unscoped (snd st))"
  "is_decode_failures (snd (apply_outcome answers out st)) =
     (if outcome_fails out then sat_add (is_decode_failures (snd st)) 1 else is_decode_failures (snd st))"
  "is_truncations (snd (apply_outcome answers out st)) = is_truncations (snd st)"
  "tallied answers st \<Longrightarrow> length (fst st) + length (outcome_records out) < 2 ^ 64 \<Longrightarrow>
     tallied answers (apply_outcome answers out st)"
proof -
  obtain sent s where st: "st = (sent, s)" by (cases st)
  note parts = submit_records_parts [where answers = answers and sent = sent and s = s]
  show "fst (apply_outcome answers out st) = fst st @ outcome_records out"
    "is_unscoped (snd (apply_outcome answers out st)) =
       (if out = Unscoped then sat_add (is_unscoped (snd st)) 1 else is_unscoped (snd st))"
    "is_decode_failures (snd (apply_outcome answers out st)) =
       (if outcome_fails out then sat_add (is_decode_failures (snd st)) 1 else is_decode_failures (snd st))"
    "is_truncations (snd (apply_outcome answers out st)) = is_truncations (snd st)"
    by (cases out; simp add: apply_outcome_def st parts(1-4) case_prod_beta)+
  show "tallied answers (apply_outcome answers out st)"
    if "tallied answers st" "length (fst st) + length (outcome_records out) < 2 ^ 64"
  proof (cases out)
    case (Submits rs failed)
    obtain sent' s' where sub: "submit_records answers rs (sent, s) = (sent', s')" by fastforce
    with parts(5) [where rs = rs] that Submits st show ?thesis by (simp add: apply_outcome_def)
  qed (use that st in \<open>simp_all add: apply_outcome_def\<close>)
qed

lemma fold_outcomes:
  fixes answers :: answers
  defines "run \<equiv> fold (apply_outcome answers)"
  shows "fst (run outs st) = fst st @ concat (map outcome_records outs)"
    and "tallied answers st \<Longrightarrow> length (fst st) + length (concat (map outcome_records outs)) < 2 ^ 64 \<Longrightarrow>
      tallied answers (run outs st)"
    and "unat (is_unscoped (snd st)) + length outs < 2 ^ 64 \<Longrightarrow>
      unat (is_unscoped (snd (run outs st))) =
        unat (is_unscoped (snd st)) + length (filter (\<lambda>out. out = Unscoped) outs)"
    and "unat (is_decode_failures (snd st)) + length outs < 2 ^ 64 \<Longrightarrow>
      unat (is_decode_failures (snd (run outs st))) =
        unat (is_decode_failures (snd st)) + length (filter outcome_fails outs)"
    and "is_truncations (snd (run outs st)) = is_truncations (snd st)"
  unfolding run_def
proof (induction outs arbitrary: st)
  case (Cons out outs)
  { case 1 show ?case by (simp add: Cons.IH(1) apply_outcome_parts)
  next
    case 2
    then have "tallied answers (apply_outcome answers out st)" by (intro apply_outcome_parts(5)) simp_all
    then show ?case using 2 by (simp add: Cons.IH(2) apply_outcome_parts)
  next
    case 3 then show ?case by (auto simp: Cons.IH(3) apply_outcome_parts unat_sat_add_1)
  next
    case 4 then show ?case by (auto simp: Cons.IH(4) apply_outcome_parts unat_sat_add_1)
  next
    case 5 show ?case by (simp add: Cons.IH(5) apply_outcome_parts)
  }
qed simp_all

lemma ingest_events_fold:
  "ingest_events L env sha answers es st =
     fold (apply_outcome answers) (map (\<lambda>(e, lk). ingest_event L env sha lk e) es) st"
  by (induction L env sha answers es st rule: ingest_events.induct) simp_all

text \<open>An event makes at most two findings.\<close>

lemma finding_payloads_length:
  "finding_payloads J env feedback fs acc = Inr vs \<Longrightarrow> length vs = length acc + length fs"
  by (induction J env feedback fs acc rule: finding_payloads.induct) (auto split: sum.splits)

lemma due_records_le: "length (due_records L env sha x) \<le> 3"
proof -
  have "length vs \<le> 2" if "accountability_finding_payloads L env effect d = Inr vs" for effect d vs
    using finding_payloads_length [OF that [unfolded accountability_finding_payloads_def]]
      findings_attributed by (metis add_0 list.size(3))
  then show ?thesis
    by (auto simp: due_records_def event_findings_def split: option.splits sum.splits prod.splits)
qed

lemma length_concat_le:
  "(\<And>x. x \<in> set xs \<Longrightarrow> length (f x) \<le> 3) \<Longrightarrow> length (concat (map f xs)) \<le> 3 * length xs"
  by (induction xs) (auto intro: add_mono)

text \<open>The events of a batch with what was seen of the state for each.\<close>

definition looked_at :: "(nat \<Rightarrow> look) \<Rightarrow> observer_batch \<Rightarrow> (daemon_kernel_event \<times> look) list" where
  "looked_at seen batch = zip (ob_events batch) (map seen [0..<length (ob_events batch)])"

text \<open>C29. Ingestion. What is handed to the pipeline is, event by event and in order, exactly what is due for it:
  nothing for an event whose cgroup belongs to no session or whose record cannot be read; otherwise
  one ordinary record of what is stored of this event, then its findings, all for the
  session its cgroup was attributed to at that moment. The summary counts a submission as
  submitted exactly if the pipeline took it and as dropped otherwise, the events without a session as unscoped, and as
  decode failures those of the batch, the events that could not be read and those
  whose findings could not be made. The batch is not so large that a 64-bit counter would saturate.\<close>

theorem ingest_accounts_for_events:
  fixes L :: "'v daemon_lib"
  assumes "ingest_observer_batch L env sha answers seen batch = (sent, s)"
    and "unat (ob_decode_failures batch) + 3 * length (ob_events batch) < 2 ^ 64"
  shows "sent = concat (map (due_records L env sha) (looked_at seen batch))
    \<and> unat (is_submitted s) = length (filter (\<lambda>i. accepted_answer (answers i)) [0..<length sent])
    \<and> unat (is_dropped s) = length (filter (\<lambda>i. \<not> accepted_answer (answers i)) [0..<length sent])
    \<and> unat (is_unscoped s) = length (filter event_unscoped (looked_at seen batch))
    \<and> unat (is_decode_failures s) =
        unat (ob_decode_failures batch) + length (filter (event_failed L env sha) (looked_at seen batch))
    \<and> is_truncations s = ob_truncations batch"
proof -
  let ?es = "looked_at seen batch"
  let ?outs = "map (\<lambda>(e, lk). ingest_event L env sha lk e) ?es"
  let ?st = "([] :: 'v daemon_record list,
    summary_zero\<lparr>is_decode_failures := ob_decode_failures batch, is_truncations := ob_truncations batch\<rparr>)"
  have run: "fold (apply_outcome answers) ?outs ?st = (sent, s)"
    using assms(1) by (simp add: ingest_observer_batch_def ingest_events_fold looked_at_def)
  note facts = fold_outcomes [where answers = answers and outs = ?outs and st = ?st, unfolded run fst_conv snd_conv]
  have n: "length ?outs = length (ob_events batch)" by (simp add: looked_at_def)
  have "map outcome_records ?outs = map (due_records L env sha) ?es"
    by (simp add: case_prod_beta ingest_event_due(1))
  then have sent: "sent = concat (map (due_records L env sha) ?es)" using facts(1) by (simp only: append_Nil)
  have "length sent \<le> 3 * length ?es" unfolding sent by (intro length_concat_le due_records_le)
  then have "length (concat (map outcome_records ?outs)) < 2 ^ 64"
    using assms(2) facts(1) by (simp add: looked_at_def)
  moreover have "tallied answers ?st" by (simp add: tallied_def summary_zero_def)
  ultimately have tally: "tallied answers (sent, s)" using facts(2) by simp
  have "filter (\<lambda>out. out = Unscoped) ?outs = map (\<lambda>(e, lk). ingest_event L env sha lk e) (filter event_unscoped ?es)"
    "filter outcome_fails ?outs = map (\<lambda>(e, lk). ingest_event L env sha lk e) (filter (event_failed L env sha) ?es)"
    by (simp_all add: filter_map o_def case_prod_beta ingest_event_due(2,3))
  then have "length (filter (\<lambda>out. out = Unscoped) ?outs) = length (filter event_unscoped ?es)"
    "length (filter outcome_fails ?outs) = length (filter (event_failed L env sha) ?es)"
    by (simp_all only: length_map)
  then show ?thesis
    using sent tally facts(3-5) assms(2) n by (simp add: tallied_def summary_zero_def)
qed

section \<open>Nothing of a sensitive resource is handed over\<close>

text \<open>C30. Confidentiality of ingestion. Take two kernel records that yield the same raw event but
  for the resource: files outside the workspace, credential files or addresses with the same
  session digest (and the same port). All that the daemon hands to its pipeline for them, the
  records and the findings, is the same: what is stored of a sensitive resource is its digest.\<close>

theorem ingest_hides_resource:
  assumes "kr_cgroup_id (dk_record e') = kr_cgroup_id (dk_record e)"
    and "event_session lk e = Some sid"
    and "raw_event_from_record (dk_record e) sid (dk_timestamp e) = Inr raw"
    and "raw_event_from_record (dk_record e') sid (dk_timestamp e') = Inr (raw\<lparr>rk_resource := other\<rparr>)"
    and "credential_read_of lk sid (raw\<lparr>rk_resource := other\<rparr>) \<longleftrightarrow> credential_read_of lk sid raw"
    and "redacted_event_type (credential_read_of lk sid raw) (rk_event_name raw) = Some ty"
    and "disclosed sha \<lparr>rd_session_id = sid, rd_workspace_root = workspace_root_for_session sid (lk_workspace lk)\<rparr>
        ty (rk_resource raw)
      = disclosed sha \<lparr>rd_session_id = sid, rd_workspace_root = workspace_root_for_session sid (lk_workspace lk)\<rparr>
        ty other"
  shows "ingest_event L env sha lk e' = ingest_event L env sha lk e"
proof -
  let ?rd = "\<lparr>rd_session_id = sid, rd_workspace_root = workspace_root_for_session sid (lk_workspace lk)\<rparr>"
  have "redact_raw_event_for_persistence sha (raw\<lparr>rk_resource := other\<rparr>) ?rd (credential_read_of lk sid raw)
      = redact_raw_event_for_persistence sha raw ?rd (credential_read_of lk sid raw)"
    using redaction_discloses_only_digest [OF assms(6,7)] by simp
  then show ?thesis
    using assms(1-5) by (simp add: ingest_event_def event_session_def)
qed

section \<open>The worker\<close>

datatype scope_operation = ScopeTrack | ScopeUntrack

text \<open>
  A request of the state to the worker (\<open>scope.rs\<close>): it fails at once when the queue of requests
  is full or the worker is gone, and after it was taken when the worker stops before the answer.
\<close>

definition scope_apply ::
    "(string, unit) res \<Rightarrow> (string, unit) res option \<Rightarrow> (string, unit) res" where
  "scope_apply sent response =
     (case sent of
        Inl e \<Rightarrow> Inl (''observer scope command queue unavailable: '' @ e)
      | Inr _ \<Rightarrow>
          (case response of
             None \<Rightarrow> Inl ''observer scope worker stopped before responding''
           | Some answer \<Rightarrow> answer))"

record observer_counters =
  oc_reserve_failures :: u64
  oc_map_pressure :: u64

text \<open>
  Its locals, with what it does to the outside: the records it submits, the answers it gives to
  scope requests and the states it sets the eBPF component to, in order.
\<close>

record 'v worker =
  wk_scope_open :: bool
  wk_summary :: ingest_summary
  wk_sent :: "'v daemon_record list"
  wk_replies :: "(string, unit) res list"
  wk_ebpf :: "component_state list"

definition worker_new :: "'v worker" where
  "worker_new = \<lparr>wk_scope_open = True, wk_summary = summary_zero, wk_sent = [], wk_replies = [], wk_ebpf = []\<rparr>"

definition wk_set_ebpf :: "component_state \<Rightarrow> 'v worker \<Rightarrow> 'v worker" where
  "wk_set_ebpf c w = w\<lparr>wk_ebpf := wk_ebpf w @ [c]\<rparr>"

text \<open>
  What the selection finds ready: the shutdown, with the counters read after it; a request and
  the backend's answer to it, or the end of the requests; a batch, or an error of the backend.
\<close>

datatype worker_event =
    WkShutdown "(string, observer_counters) res"
  | WkRequest "(scope_operation \<times> u64) option" "(string, unit) res"
  | WkBatch "(string, observer_batch) res" answers "nat \<Rightarrow> look"

datatype 'v worker_state =
    WkRunning "'v worker"
  | WkReturned "(string, observer_counters \<times> ingest_summary) res" "'v worker"

definition summary_add :: "ingest_summary \<Rightarrow> ingest_summary \<Rightarrow> ingest_summary" where
  "summary_add s c =
     \<lparr>is_submitted = sat_add (is_submitted s) (is_submitted c), is_dropped = sat_add (is_dropped s) (is_dropped c),
      is_unscoped = sat_add (is_unscoped s) (is_unscoped c),
      is_decode_failures = sat_add (is_decode_failures s) (is_decode_failures c),
      is_truncations = sat_add (is_truncations s) (is_truncations c)\<rparr>"

text \<open>A turn of the loop; a request cannot be received once they have ended.\<close>

fun worker_turn ::
    "'v daemon_lib \<Rightarrow> daemon_env \<Rightarrow> (string \<Rightarrow> string) \<Rightarrow> worker_event \<Rightarrow> 'v worker \<Rightarrow> 'v worker_state option" where
  "worker_turn L env sha (WkShutdown counters) w =
     Some (WkReturned (map_sum id (\<lambda>c. (c, wk_summary w)) counters) (wk_set_ebpf CsUnavailable w))"
| "worker_turn L env sha (WkRequest request answer) w =
     (if \<not> wk_scope_open w then None
      else
        (case request of
           Some _ \<Rightarrow> Some (WkRunning (w\<lparr>wk_replies := wk_replies w @ [answer]\<rparr>))
         | None \<Rightarrow> Some (WkRunning (w\<lparr>wk_scope_open := False\<rparr>))))"
| "worker_turn L env sha (WkBatch batch answers seen) w =
     (case batch of
        Inl e \<Rightarrow> Some (WkReturned (Inl e) (wk_set_ebpf CsUnavailable w))
      | Inr b \<Rightarrow>
          (let (sent, current) = ingest_observer_batch L env sha answers seen b
           in Some (WkRunning (w\<lparr>wk_summary := summary_add (wk_summary w) current, wk_sent := wk_sent w @ sent\<rparr>))))"

fun worker_loop ::
    "'v daemon_lib \<Rightarrow> daemon_env \<Rightarrow> (string \<Rightarrow> string) \<Rightarrow> worker_event list \<Rightarrow> 'v worker \<Rightarrow> 'v worker_state option" where
  "worker_loop L env sha [] w = Some (WkRunning w)"
| "worker_loop L env sha (ev # evs) w =
     (case worker_turn L env sha ev w of
        Some (WkRunning w') \<Rightarrow> worker_loop L env sha evs w'
      | out \<Rightarrow> out)"

fun restore_scope :: "(u64 \<Rightarrow> (string, unit) res) \<Rightarrow> u64 list \<Rightarrow> (string, unit) res" where
  "restore_scope track [] = Inr ()"
| "restore_scope track (c # cs) =
     (case track c of
        Inl e \<Rightarrow> Inl (''failed to restore observer scope for cgroup '' @ dec_str (unat c) @ '': '' @ e)
      | Inr _ \<Rightarrow> restore_scope track cs)"

definition run_observer_runtime ::
    "'v daemon_lib \<Rightarrow> daemon_env \<Rightarrow> (string \<Rightarrow> string) \<Rightarrow> (u64 \<Rightarrow> (string, unit) res) \<Rightarrow> u64 list \<Rightarrow> worker_event list
     \<Rightarrow> 'v worker_state option" where
  "run_observer_runtime L env sha track initial evs =
     (case restore_scope track initial of
        Inl e \<Rightarrow> Some (WkReturned (Inl e) (wk_set_ebpf CsUnavailable worker_new))
      | Inr _ \<Rightarrow> worker_loop L env sha evs (wk_set_ebpf CsReady worker_new))"

text \<open>The requests among the first turns, with the backend's answers.\<close>

definition answered_requests :: "worker_event list \<Rightarrow> (string, unit) res list" where
  "answered_requests evs =
     List.map_filter (\<lambda>ev. case ev of WkRequest (Some _) answer \<Rightarrow> Some answer | _ \<Rightarrow> None) evs"

definition worker_consistent :: "worker_event list \<Rightarrow> 'v worker_state \<Rightarrow> bool" where
  "worker_consistent evs st \<longleftrightarrow>
     (case st of
        WkRunning w \<Rightarrow> wk_ebpf w = [CsReady] \<and> wk_replies w = answered_requests evs
      | WkReturned res w \<Rightarrow>
          (wk_ebpf w = [CsReady, CsUnavailable] \<or> wk_ebpf w = [CsUnavailable] \<and> wk_sent w = [] \<and> (\<exists>e. res = Inl e))
          \<and> prefix (wk_replies w) (answered_requests evs))"

lemma answered_requests_simps [simp]:
  "answered_requests [] = []"
  "answered_requests (evs @ evs') = answered_requests evs @ answered_requests evs'"
  "answered_requests (WkRequest (Some q) answer # evs) = answer # answered_requests evs"
  "answered_requests (WkRequest None answer # evs) = answered_requests evs"
  "answered_requests (WkShutdown c # evs) = answered_requests evs"
  "answered_requests (WkBatch b a l # evs) = answered_requests evs"
  by (simp_all add: answered_requests_def map_filter_simps List.map_filter_def)

lemma worker_turn_consistent:
  assumes "wk_ebpf w = [CsReady]" "worker_turn L env sha ev w = Some st"
  shows "case st of
      WkRunning w' \<Rightarrow> wk_ebpf w' = [CsReady] \<and> wk_replies w' = wk_replies w @ answered_requests [ev]
    | WkReturned res w' \<Rightarrow> wk_ebpf w' = [CsReady, CsUnavailable] \<and> wk_replies w' = wk_replies w"
proof (cases ev)
  case (WkRequest request answer)
  with assms show ?thesis by (cases request) (auto split: if_splits)
next
  case (WkBatch batch answers seen)
  with assms show ?thesis by (cases batch) (auto simp: wk_set_ebpf_def split: prod.splits)
qed (use assms in \<open>auto simp: wk_set_ebpf_def\<close>)

lemma worker_loop_consistent:
  "wk_ebpf w = [CsReady] \<Longrightarrow> wk_replies w = answered_requests past \<Longrightarrow>
   worker_loop L env sha evs w = Some st \<Longrightarrow> worker_consistent (past @ evs) st"
proof (induction evs arbitrary: w past)
  case Nil
  then show ?case by (auto simp: worker_consistent_def)
next
  case (Cons ev evs)
  obtain st1 where t: "worker_turn L env sha ev w = Some st1" using Cons.prems(3) by (auto split: option.splits)
  note inv = worker_turn_consistent [OF Cons.prems(1) t]
  show ?case
  proof (cases st1)
    case (WkRunning w')
    with inv Cons.prems t Cons.IH [of w' "past @ [ev]"] show ?thesis by simp
  next
    case (WkReturned res w')
    with inv Cons.prems t show ?thesis by (auto simp: worker_consistent_def)
  qed
qed

text \<open>C31. The worker. The health snapshot calls the eBPF observer ready exactly while the worker
  is running: it is set to ready once, after every recovered cgroup is tracked again, and to
  unavailable whenever the worker returns, with a result or with any error. Each scope
  request it receives is answered, in order, with what the backend said.\<close>

theorem observer_health_is_true:
  "case run_observer_runtime L env sha track initial evs of
     None \<Rightarrow> True
   | Some st \<Rightarrow> worker_consistent evs st"
proof (cases "restore_scope track initial")
  case (Inl e)
  then show ?thesis
    by (simp add: run_observer_runtime_def worker_consistent_def wk_set_ebpf_def worker_new_def)
next
  case (Inr u)
  then show ?thesis
    using worker_loop_consistent [of "wk_set_ebpf CsReady worker_new" "[]" L env sha evs]
    by (simp add: run_observer_runtime_def wk_set_ebpf_def worker_new_def split: option.split)
qed

section \<open>Witnesses\<close>

abbreviation watching_lib :: "json daemon_lib" where
  "watching_lib \<equiv> \<lparr>dl_chain = json_chain_lib, dl_json = sample_json_lib\<rparr>"

abbreviation watching_env :: daemon_env where
  "watching_env \<equiv>
     \<lparr>de_room = 0, de_track = (\<lambda>_. Inr ()), de_untrack = (\<lambda>_. Inr ()), de_read_file = (\<lambda>_. None),
      de_quarantine_path = (\<lambda>p. p), de_remove_dir = (\<lambda>_. Inr ()), de_spares = (\<lambda>_ _. False),
      de_feedback = (\<lambda>_. Inr ())\<rparr>"

text \<open>Cgroup 77 belongs to a session, nothing else does.\<close>

definition watching :: daemon_state where
  "watching =
     \<lparr>ds_registry = (put_session ''s'' (session_state_new (sample_intent ''t'' ''s'')) (registry_new 4 4))
        \<lparr>sr_cgroup_index := [(77, ''s'')]\<rparr>,
      ds_health = health_new (queue_stats_new 4), ds_stores = [], ds_files = [], ds_unlinked = [], ds_paused = [],
      ds_sessions_dir = ''/d'', ds_storage_writable = True, ds_scope = False, ds_tracked = [],
      ds_policies = [], ds_feedback = False\<rparr>"

definition watching_look :: look where
  "watching_look = \<lparr>lk_session = watching, lk_workspace = watching, lk_policy = watching, lk_intent = watching\<rparr>"

definition watched_batch :: observer_batch where
  "watched_batch =
     \<lparr>ob_events = [\<lparr>dk_timestamp = 5, dk_record = sample_record\<rparr>,
        \<lparr>dk_timestamp = 6, dk_record = sample_record\<lparr>kr_cgroup_id := 78\<rparr>\<rparr>],
      ob_decode_failures = 1, ob_truncations = 2\<rparr>"

lemma watching_sessions:
  "ds_session_for_cgroup 77 watching = Some ''s''" "ds_session_for_cgroup 78 watching = None"
  by (simp_all add: ds_session_for_cgroup_def session_for_cgroup_def watching_def)

lemma watched_looks:
  "looked_at (\<lambda>_. watching_look) watched_batch =
     [(\<lparr>dk_timestamp = 5, dk_record = sample_record\<rparr>, watching_look),
      (\<lparr>dk_timestamp = 6, dk_record = sample_record\<lparr>kr_cgroup_id := 78\<rparr>\<rparr>, watching_look)]"
  by (simp add: looked_at_def watched_batch_def)

lemma watched_session:
  "event_session watching_look \<lparr>dk_timestamp = t, dk_record = sample_record\<rparr> = Some ''s''"
  "event_session watching_look \<lparr>dk_timestamp = t, dk_record = sample_record\<lparr>kr_cgroup_id := 78\<rparr>\<rparr> = None"
  by (simp_all add: event_session_def watching_look_def watching_sessions sample_record_def)

theorem ingest_accounts_for_events_witness:
  "let (sent, s) = ingest_observer_batch watching_lib watching_env (\<lambda>_. ''digest'') (\<lambda>_. Inr Accepted)
       (\<lambda>_. watching_look) watched_batch
   in is_unscoped s = 1 \<and> is_truncations s = 2 \<and> is_dropped s = 0
      \<and> map dr_priority (take 1 sent) = [Ordinary] \<and> list_all (\<lambda>r. dr_session_id r = ''s'') sent"
proof (cases "ingest_observer_batch watching_lib watching_env (\<lambda>_. ''digest'') (\<lambda>_. Inr Accepted)
       (\<lambda>_. watching_look) watched_batch")
  case (Pair sent s)
  let ?e = "\<lparr>dk_timestamp = 5, dk_record = sample_record\<rparr>"
  have small: "unat (ob_decode_failures watched_batch) + 3 * length (ob_events watched_batch) < 2 ^ 64"
    by (simp add: watched_batch_def)
  have "is_ok (raw_event_from_record sample_record ''s'' 5)"
    by (simp add: raw_event_from_record_def sample_record_def kind_try_from_def has_flag_def flag_payload_sockaddr_def)
  then obtain raw where raw: "event_raw watching_look ?e = Some (''s'', raw)"
    by (auto simp: event_raw_def watched_session is_ok_iff)
  have none: "event_raw watching_look \<lparr>dk_timestamp = 6, dk_record = sample_record\<lparr>kr_cgroup_id := 78\<rparr>\<rparr> = None"
    by (simp add: event_raw_def watched_session)
  show ?thesis
    using ingest_accounts_for_events [OF Pair small]
    by (simp add: Pair watched_looks watched_session word_unat_eq_iff due_records_def raw none event_unscoped_def)
      (simp add: watched_batch_def list_all_iff)
qed

text \<open>A connection to port 443 of 10.0.0.x.\<close>

definition connect_event :: "char \<Rightarrow> daemon_kernel_event" where
  "connect_event x =
     \<lparr>dk_timestamp = 5,
      dk_record = sample_record\<lparr>kr_event_kind := 7, kr_flags := 4,
        kr_payload := [CHR 0x02, CHR 0x00, CHR 0x01, CHR 0xBB, CHR 0x0A, CHR 0x00, CHR 0x00, x]
          @ replicate 248 (CHR 0x00)\<rparr>\<rparr>"

definition connect_address :: "char \<Rightarrow> string" where
  "connect_address x = ''10.0.0.'' @ dec_str (byte_val x) @ '':443''"

lemma connect_sockaddr:
  "decode_sockaddr (kr_payload (dk_record (connect_event x))) = Inr (connect_address x, ''inet'')"
proof -
  have d: "dec_str 443 = ''443''" "dec_str 10 = ''10''" "dec_str 0 = ''0''" by code_simp+
  show ?thesis
    by (simp add: connect_event_def decode_sockaddr_def octet_def upt_rec ipv4_str_def connect_address_def
        byte_val_def d)
qed

lemma connect_raw:
  "raw_event_from_record (dk_record (connect_event x)) sid 5 =
     Inr (raw_kernel_event_new 5 sid SrcKernelTracepoint ''connect'' 42 1 1000 1000 (fixed_string (kr_comm sample_record))
       (connect_address x) (fixed_string (kr_action sample_record)) None (Some (dec_str 77)) ''family:inet'')"
proof -
  have "has_flag (dk_record (connect_event x)) flag_payload_sockaddr"
    "truncation_markers (dk_record (connect_event x)) = []"
    "kind_try_from (kr_event_kind (dk_record (connect_event x))) = Inr KkConnect"
    by (simp_all add: connect_event_def has_flag_def truncation_markers_def flag_payload_sockaddr_def
        flag_resource_truncated_def flag_argv_truncated_def flag_payload_truncated_def kind_try_from_def)
  then show ?thesis
    using connect_sockaddr [of x]
    by (simp add: raw_event_from_record_def with_markers_def) (simp add: connect_event_def sample_record_def)
qed

lemma connect_event_fields:
  "kr_cgroup_id (dk_record (connect_event x)) = 77" "dk_timestamp (connect_event x) = 5"
  by (simp_all add: connect_event_def sample_record_def)

theorem ingest_hides_resource_witness:
  "ingest_event watching_lib watching_env (\<lambda>_. ''digest'') watching_look (connect_event (CHR 0x06))
   = ingest_event watching_lib watching_env (\<lambda>_. ''digest'') watching_look (connect_event (CHR 0x05))"
proof -
  have d: "dec_str 443 = ''443''" by code_simp
  have port: "socket_port (connect_address x) = Some ''443''" for x
  proof -
    have "rsplit_once (CHR '':'') (connect_address x) = Some (''10.0.0.'' @ dec_str (byte_val x), ''443'')"
      by (simp add: rsplit_once_def connect_address_def)
    moreover have "(parse_word ''443'' :: (int_error, u16) res) = Inr 443"
      using parse_unsigned_dec_str [of 443 65536] by (simp add: parse_word_def d)
    ultimately show ?thesis by (simp add: socket_port_def)
  qed
  show ?thesis
    by (rule ingest_hides_resource
        [where sid = "''s''" and other = "connect_address (CHR 0x06)" and ty = EvNetworkConnect
          and raw = "raw_kernel_event_new 5 ''s'' SrcKernelTracepoint ''connect'' 42 1 1000 1000
            (fixed_string (kr_comm sample_record)) (connect_address (CHR 0x05))
            (fixed_string (kr_action sample_record)) None (Some (dec_str 77)) ''family:inet''"])
      (simp_all add: connect_raw event_session_def watching_look_def watching_sessions connect_event_fields
        credential_read_of_def redacted_event_type_def open_events_def disclosed_def port
        raw_kernel_event_new_def)
qed

section \<open>Where the runtime departs from what it means to do\<close>

text \<open>
  Effects are made of the redacted event: the endpoint an intent declares is compared with a
  token. A connection to exactly the declared endpoint is reported as unknown egress.
\<close>

lemma declared_egress_still_flagged:
  assumes "observed_effect_from_raw_event
      (redact_raw_event_for_persistence sha (raw\<lparr>rk_event_name := ''connect''\<rparr>) rd False) False = Some effect"
    and "\<forall>s \<in> set (si_allowed_resources i). rs_kind s = ReEgress \<longrightarrow> rs_value s = endpoint"
    and "\<not> prefix ''a'' endpoint" and "\<not> prefix ''*'' endpoint"
  shows "FkUnknownEgress \<in> set (map af_kind (evaluate_effect (Some i) effect))"
proof -
  have "oe_kind effect = EkNetworkConnect" and res: "\<exists>t. oe_resource effect = ''address_token:'' @ t"
    using assms(1)
    by (auto simp: observed_effect_from_raw_event_def redact_raw_event_for_persistence_def redacted_event_type_def
        open_events_def effect_kind_of_def redact_resource_def Let_def)
  moreover have "\<not> endpoint_matches endpoint (oe_resource effect)"
    using assms(3,4) res by (cases endpoint) (auto simp: endpoint_matches_def strip_prefix_def)
  ultimately show ?thesis
    using assms(2) by (auto simp: evaluate_effect_def kind_findings_def mk_finding_def list_ex_iff)
qed

text \<open>A program's arguments are persisted as the kernel gave them, secrets included.\<close>

lemma exec_arguments_not_redacted:
  "rk_event_name raw = ''sched_process_exec'' \<Longrightarrow> redact_raw_event_for_persistence sha raw rd cr = raw"
  by (simp add: redact_raw_event_for_persistence_def redacted_event_type_def open_events_def)

end
