(* ===== verification/Feedback.thy ===== *)
theory Feedback
  imports Json_Value
begin

text \<open>
  The files an agent reads its last violation and finding from
  (\<open>crates/apolysis-feedback/src/lib.rs\<close>): what is written, and how a file is replaced as a
  whole. Files are a map from paths to contents; an operation on them may fail as \<open>write_faults\<close>
  says; every state of the files that a reader, or a crash of the process, may meet is listed.
\<close>

section \<open>Contents\<close>

definition render_machine_tag :: "policy_violation \<Rightarrow> string" where
  "render_machine_tag v =
     json_object
       [(''session_id'', json_string (pv_session_id v)), (''rule_id'', json_string (pv_rule_id v)),
        (''decision'', json_string (core_decision_str (pv_decision v))),
        (''target'', json_string (pv_target v)), (''pid'', json_num (pv_pid v)),
        (''enforcement_backend'', json_string (enforcement_backend_str (pv_backend v))),
        (''reason'', json_string (pv_reason v))]"

definition render_violation_feedback :: "policy_violation \<Rightarrow> string" where
  "render_violation_feedback v =
     ''Apolysis policy violation'' @ [ch_nl] @ ''session_id: '' @ pv_session_id v
     @ [ch_nl] @ ''rule_id: '' @ pv_rule_id v
     @ [ch_nl] @ ''decision: '' @ core_decision_str (pv_decision v)
     @ [ch_nl] @ ''target: '' @ pv_target v
     @ [ch_nl] @ ''pid: '' @ dec_str (unat (pv_pid v))
     @ [ch_nl] @ ''backend: '' @ enforcement_backend_str (pv_backend v)
     @ [ch_nl] @ ''reason: '' @ pv_reason v
     @ [ch_nl] @ ''APOLYSIS_VIOLATION '' @ render_machine_tag v @ [ch_nl]"

definition required_json_str :: "'v json_lib \<Rightarrow> 'v \<Rightarrow> string \<Rightarrow> (string, string) res" where
  "required_json_str J v key =
     (case Option.bind (jl_get J v key) (jl_as_str J) of
        None \<Rightarrow> Inl (''accountability finding missing string field '' @ key)
      | Some s \<Rightarrow> Inr s)"

definition render_accountability_finding_feedback ::
    "'v json_lib \<Rightarrow> accountability_finding \<Rightarrow> (string, string) res" where
  "render_accountability_finding_feedback J f =
     (case jl_of_finding J f of
        Inl e \<Rightarrow> Inl (''failed to serialize accountability finding: '' @ e)
      | Inr v \<Rightarrow>
          (case required_json_str J v ''kind'' of
             Inl e \<Rightarrow> Inl e
           | Inr kind \<Rightarrow>
               (case required_json_str J v ''decision'' of
                  Inl e \<Rightarrow> Inl e
                | Inr decision \<Rightarrow>
                    Inr (''Apolysis accountability finding'' @ [ch_nl] @ ''session_id: '' @ af_session_id f
                         @ [ch_nl] @ ''kind: '' @ kind @ [ch_nl] @ ''decision: '' @ decision
                         @ [ch_nl] @ ''evidence_ref: '' @ af_evidence_ref f
                         @ [ch_nl] @ ''runtime: '' @ ri_runtime (af_runtime f)
                         @ [ch_nl] @ ''reason: '' @ af_reason f @ [ch_nl]))))"

text \<open>\<open>serde_json::to_string\<close> of a finding is the parameter \<open>print\<close>.\<close>

definition render_accountability_finding_json ::
    "(accountability_finding \<Rightarrow> (string, string) res) \<Rightarrow> accountability_finding \<Rightarrow> (string, string) res" where
  "render_accountability_finding_json print f =
     map_sum (\<lambda>e. ''failed to serialize accountability finding: '' @ e) id (print f)"

section \<open>Replacing a file\<close>

type_synonym files = "string \<Rightarrow> string option"

record write_faults =
  wf_create :: "string option"
  wf_write :: "(nat \<times> string) option"
  wf_sync :: "string option"
  wf_rename :: "string option"
  wf_dir_sync :: "string option"
  wf_remove :: bool

definition no_faults :: write_faults where
  "no_faults = \<lparr>wf_create = None, wf_write = None, wf_sync = None, wf_rename = None, wf_dir_sync = None,
     wf_remove = False\<rparr>"

text \<open>A file \<open>name\<close> of a directory; names have no slash.\<close>

definition feedback_path :: "string \<Rightarrow> string \<Rightarrow> string" where
  "feedback_path directory name =
     (if directory = [] then name else if suffix ''/'' directory then directory @ name
      else directory @ ''/'' @ name)"

definition temporary_name :: "u32 \<Rightarrow> u64 \<Rightarrow> string \<Rightarrow> string" where
  "temporary_name pid i name = ''.'' @ name @ ''.tmp-'' @ dec_str (unat pid) @ ''-'' @ dec_str (unat i)"

definition written_parts :: "string \<Rightarrow> string \<Rightarrow> nat \<Rightarrow> files \<Rightarrow> files list" where
  "written_parts temporary contents n fs = map (\<lambda>k. fs(temporary \<mapsto> take k contents)) [0..<Suc n]"

definition cleaned :: "write_faults \<Rightarrow> string \<Rightarrow> files \<Rightarrow> files" where
  "cleaned w temporary fs = (if wf_remove w then fs else fs(temporary := None))"

definition atomic_write ::
    "u32 \<Rightarrow> u64 \<Rightarrow> write_faults \<Rightarrow> string \<Rightarrow> string \<Rightarrow> string \<Rightarrow> files \<Rightarrow> (string, unit) res \<times> files list" where
  "atomic_write pid i w directory name contents fs =
     (let path = feedback_path directory name;
          temporary = feedback_path directory (temporary_name pid i name)
      in
        case wf_create w of
          Some e \<Rightarrow> (Inl (''failed to create feedback temporary file: '' @ e), [cleaned w temporary fs])
        | None \<Rightarrow>
       (case wf_write w of
          Some (n, e) \<Rightarrow>
            (Inl (''failed to write feedback temporary file: '' @ e),
             written_parts temporary contents n fs @ [cleaned w temporary (fs(temporary \<mapsto> take n contents))])
        | None \<Rightarrow>
       (let parts = written_parts temporary contents (length contents) fs;
            full = fs(temporary \<mapsto> contents)
        in
        case wf_sync w of
          Some e \<Rightarrow> (Inl (''failed to sync feedback temporary file: '' @ e), parts @ [cleaned w temporary full])
        | None \<Rightarrow>
       (case wf_rename w of
          Some e \<Rightarrow> (Inl (''failed to replace feedback file: '' @ e), parts @ [cleaned w temporary full])
        | None \<Rightarrow>
       (let renamed = full(path \<mapsto> contents, temporary := None) in
        case wf_dir_sync w of
          Some e \<Rightarrow>
            (Inl (''failed to sync feedback directory: '' @ e), parts @ [renamed, cleaned w temporary renamed])
        | None \<Rightarrow> (Inr (), parts @ [renamed]))))))"

text \<open>
  Two files, one after the other, as both writers do; the second only after the first has been
  replaced. \<open>i\<close> and \<open>i + 1\<close> are the numbers \<open>TEMP_FILE_ID\<close> gives.
\<close>

definition write_both ::
    "u32 \<Rightarrow> u64 \<Rightarrow> write_faults \<times> write_faults \<Rightarrow> string \<Rightarrow> string \<times> string \<Rightarrow> string \<times> (string, string) res
     \<Rightarrow> files \<Rightarrow> (string, unit) res \<times> files list" where
  "write_both pid i w directory names contents fs =
     (case atomic_write pid i (fst w) directory (fst names) (fst contents) fs of
        (Inl e, states) \<Rightarrow> (Inl e, states)
      | (Inr _, states) \<Rightarrow>
          (case snd contents of
             Inl e \<Rightarrow> (Inl e, states)
           | Inr second \<Rightarrow>
               (let (res, more) = atomic_write pid (i + 1) (snd w) directory (snd names) second (last states)
                in (res, states @ more))))"

definition write_last_violation ::
    "u32 \<Rightarrow> u64 \<Rightarrow> (string, unit) res \<Rightarrow> write_faults \<times> write_faults \<Rightarrow> string \<Rightarrow> policy_violation \<Rightarrow> files
     \<Rightarrow> (string, unit) res \<times> files list" where
  "write_last_violation pid i create_dir w directory v fs =
     (case create_dir of
        Inl e \<Rightarrow> (Inl (''failed to create feedback directory: '' @ e), [])
      | Inr _ \<Rightarrow>
          write_both pid i w directory (''last-violation.txt'', ''last-violation.json'')
            (render_violation_feedback v, Inr (render_machine_tag v @ [ch_nl])) fs)"

definition write_last_accountability_finding ::
    "'v json_lib \<Rightarrow> (accountability_finding \<Rightarrow> (string, string) res) \<Rightarrow> u32 \<Rightarrow> u64 \<Rightarrow> (string, unit) res
     \<Rightarrow> write_faults \<times> write_faults \<Rightarrow> string \<Rightarrow> accountability_finding \<Rightarrow> files
     \<Rightarrow> (string, unit) res \<times> files list" where
  "write_last_accountability_finding J print pid i create_dir w directory f fs =
     (case create_dir of
        Inl e \<Rightarrow> (Inl (''failed to create feedback directory: '' @ e), [])
      | Inr _ \<Rightarrow>
          (case render_accountability_finding_feedback J f of
             Inl e \<Rightarrow> (Inl e, [])
           | Inr contents \<Rightarrow>
               write_both pid i w directory
                 (''last-accountability-finding.txt'', ''last-accountability-finding.json'')
                 (contents, map_sum id (\<lambda>t. t @ [ch_nl]) (render_accountability_finding_json print f)) fs))"

section \<open>A reader never sees half a file\<close>

lemma temporary_differs [simp]: "temporary_name pid i name \<noteq> name" "name \<noteq> temporary_name pid i name"
proof -
  have "length name < length (temporary_name pid i name)" by (simp add: temporary_name_def)
  then show "temporary_name pid i name \<noteq> name" "name \<noteq> temporary_name pid i name" by auto
qed

lemma feedback_path_inj [simp]: "feedback_path d a = feedback_path d b \<longleftrightarrow> a = b"
  by (simp add: feedback_path_def)

text \<open>Elsewhere nothing changes but for the temporary file.\<close>

lemma atomic_write_frame:
  assumes "f \<in> set (snd (atomic_write pid i w d name contents fs))"
    and "p \<noteq> feedback_path d name" and "p \<noteq> feedback_path d (temporary_name pid i name)"
  shows "f p = fs p"
  using assms
  by (auto simp: atomic_write_def Let_def written_parts_def cleaned_def split: option.splits if_splits)

lemma atomic_write_old_or_new:
  assumes "f \<in> set (snd (atomic_write pid i w d name contents fs))"
  shows "f (feedback_path d name) \<in> {fs (feedback_path d name), Some contents}"
  using assms
  by (auto simp: atomic_write_def Let_def written_parts_def cleaned_def split: option.splits if_splits)

lemma atomic_write_ok:
  assumes "fst (atomic_write pid i w d name contents fs) = Inr ()"
  shows "snd (atomic_write pid i w d name contents fs) \<noteq> []"
    and "last (snd (atomic_write pid i w d name contents fs)) (feedback_path d name) = Some contents"
    and "last (snd (atomic_write pid i w d name contents fs)) (feedback_path d (temporary_name pid i name)) = None"
  using assms by (auto simp: atomic_write_def Let_def split: option.splits)

text \<open>A temporary name begins with a dot, the names of the feedback files do not.\<close>

lemma temporary_dot: "temporary_name pid i name \<noteq> CHR ''l'' # rest"
  by (simp add: temporary_name_def)

lemma other_file:
  assumes "f \<in> set (snd (atomic_write pid i w d name contents fs))" and "name \<noteq> CHR ''l'' # rest"
  shows "f (feedback_path d (CHR ''l'' # rest)) = fs (feedback_path d (CHR ''l'' # rest))"
  using atomic_write_frame [OF assms(1), of "feedback_path d (CHR ''l'' # rest)"] assms(2)
  by (metis feedback_path_inj temporary_dot)

definition text_file :: "string \<Rightarrow> string" where
  "text_file directory = feedback_path directory ''last-violation.txt''"

definition json_file :: "string \<Rightarrow> string" where
  "json_file directory = feedback_path directory ''last-violation.json''"

text \<open>C28. Feedback files. An agent that reads its feedback while a violation is written, or after
  the writer was stopped at any point, by an error or a crash, finds in each of the two files
  the whole former contents or the whole new ones, and the new machine-readable file only
  beside the new text. When the writer returns without an error, both are new.\<close>

theorem feedback_never_torn:
  fixes v :: policy_violation and fs :: files
  assumes "write_last_violation pid i create_dir w d v fs = (res, states)"
  shows "(\<forall>f \<in> set states.
      f (text_file d) \<in> {fs (text_file d), Some (render_violation_feedback v)}
      \<and> f (json_file d) \<in> {fs (json_file d), Some (render_machine_tag v @ [ch_nl])}
      \<and> (f (json_file d) = fs (json_file d) \<or> f (text_file d) = Some (render_violation_feedback v)))
    \<and> (res = Inr () \<longrightarrow> states \<noteq> []
      \<and> last states (text_file d) = Some (render_violation_feedback v)
      \<and> last states (json_file d) = Some (render_machine_tag v @ [ch_nl]))"
proof (cases create_dir)
  case (Inl e)
  with assms show ?thesis by (auto simp: write_last_violation_def)
next
  case (Inr u)
  let ?T = "render_violation_feedback v" and ?M = "render_machine_tag v @ [ch_nl]"
  obtain r1 s1 where w1: "atomic_write pid i (fst w) d ''last-violation.txt'' ?T fs = (r1, s1)" by fastforce
  note first = other_file [of _ pid i "fst w" d "''last-violation.txt''" ?T fs, unfolded w1]
    atomic_write_old_or_new [of _ pid i "fst w" d "''last-violation.txt''" ?T fs, unfolded w1]
  show ?thesis
  proof (cases r1)
    case (Inl e)
    with Inr assms w1 have "res = Inl e" "states = s1" by (simp_all add: write_last_violation_def write_both_def)
    then show ?thesis using first by (auto simp: text_file_def json_file_def)
  next
    case (Inr u1)
    let ?base = "last s1"
    obtain r2 s2 where w2: "atomic_write pid (i + 1) (snd w) d ''last-violation.json'' ?M ?base = (r2, s2)"
      by fastforce
    have st: "res = r2" "states = s1 @ s2"
      using Inr \<open>create_dir = Inr u\<close> assms w1 w2 by (simp_all add: write_last_violation_def write_both_def)
    have ok1: "s1 \<noteq> []" "?base (text_file d) = Some ?T"
      using atomic_write_ok [of pid i "fst w" d "''last-violation.txt''" ?T fs] w1 Inr
      by (simp_all add: text_file_def)
    then have base: "?base (json_file d) = fs (json_file d)"
      using first(1) [of ?base "''ast-violation.json''"] by (simp add: json_file_def)
    have s1: "f (text_file d) \<in> {fs (text_file d), Some ?T} \<and> f (json_file d) = fs (json_file d)"
      if "f \<in> set s1" for f
      using first that by (auto simp: text_file_def json_file_def)
    have s2: "f (text_file d) = Some ?T \<and> f (json_file d) \<in> {fs (json_file d), Some ?M}"
      if "f \<in> set s2" for f
      using that w2 ok1(2) base
        other_file [of f pid "i + 1" "snd w" d "''last-violation.json''" ?M ?base]
        atomic_write_old_or_new [of f pid "i + 1" "snd w" d "''last-violation.json''" ?M ?base]
      by (simp add: text_file_def json_file_def)
    have "s2 \<noteq> [] \<and> last s2 (json_file d) = Some ?M" if "r2 = Inr ()"
      using atomic_write_ok [of pid "i + 1" "snd w" d "''last-violation.json''" ?M ?base] w2 that
      by (simp add: json_file_def)
    then show ?thesis using st s1 s2 by (auto simp: last_in_set)
  qed
qed

theorem feedback_never_torn_witness:
  "list_all (\<lambda>f. f (text_file ''/f'') = None \<longrightarrow> f (json_file ''/f'') = None)
     (snd (write_last_violation 7 1 (Inr ()) (no_faults, no_faults\<lparr>wf_sync := Some ''EIO''\<rparr>) ''/f''
        (policy_violation_new 5 ''s'' ''r'' CdNotify ''because'' 42 ''/etc/passwd'' BeAuditOnly) (\<lambda>_. None)))"
proof -
  let ?run = "write_last_violation 7 1 (Inr ()) (no_faults, no_faults\<lparr>wf_sync := Some ''EIO''\<rparr>) ''/f''
      (policy_violation_new 5 ''s'' ''r'' CdNotify ''because'' 42 ''/etc/passwd'' BeAuditOnly) (\<lambda>_. None)"
  have "?run = (fst ?run, snd ?run)" by simp
  from feedback_never_torn [OF this] show ?thesis by (fastforce simp: list_all_iff)
qed

end
