(* ===== verification/Host_Files.thy ===== *)
theory Host_Files
  imports Rust_Path "HOL-Library.List_Lexorder"
begin

unbundle bit_operations_syntax

text \<open>
  The file system as \<open>crates/apolysis-validation/src/lib.rs\<close> uses it: files with contents, owner
  and mode, symbolic links and directories, by the components of their paths, and the calls of
  \<open>std::fs\<close> and \<open>libc\<close> on them. A path is taken as it is written: that a directory on the way is
  itself a link, or that a path climbs with two dots, is not resolved. \<open>hf_deny\<close> is where the
  system refuses a call, with the text of its error.
\<close>

section \<open>Nodes\<close>

type_synonym pkey = "path_component list"

datatype fnode =
    FileNode string u32 u32 u32
  | LinkNode string u32 u32
  | DirNode

datatype fs_call =
    CallStat | CallRead | CallReadLink | CallWrite | CallMode | CallRename | CallRemove | CallMkdir
  | CallSymlink | CallChown

datatype io_error = NotFound | OtherError string

fun io_error_str :: "io_error \<Rightarrow> string" where
  "io_error_str NotFound = ''No such file or directory (os error 2)''"
| "io_error_str (OtherError e) = e"

text \<open>Contents, owner, group and mode of a file; a link has no mode of its own.\<close>

record host_fs =
  hf_nodes :: "pkey \<Rightarrow> fnode option"
  hf_deny :: "fs_call \<Rightarrow> pkey \<Rightarrow> string option"
  hf_uid :: u32
  hf_gid :: u32
  hf_new_mode :: u32

definition put :: "pkey \<Rightarrow> fnode \<Rightarrow> host_fs \<Rightarrow> host_fs" where
  "put k n fs = fs\<lparr>hf_nodes := (hf_nodes fs)(k \<mapsto> n)\<rparr>"

definition erase :: "(pkey \<Rightarrow> bool) \<Rightarrow> host_fs \<Rightarrow> host_fs" where
  "erase P fs = fs\<lparr>hf_nodes := \<lambda>x. if P x then None else hf_nodes fs x\<rparr>"

definition allowed :: "fs_call \<Rightarrow> pkey \<Rightarrow> host_fs \<Rightarrow> (io_error, unit) res" where
  "allowed c k fs = (case hf_deny fs c k of Some e \<Rightarrow> Inl (OtherError e) | None \<Rightarrow> Inr ())"

lemma put_simps [simp]:
  "hf_nodes (put k n fs) = (hf_nodes fs)(k \<mapsto> n)" "hf_deny (put k n fs) = hf_deny fs"
  "hf_uid (put k n fs) = hf_uid fs" "hf_gid (put k n fs) = hf_gid fs"
  "hf_new_mode (put k n fs) = hf_new_mode fs"
  by (simp_all add: put_def)

lemma erase_simps [simp]:
  "hf_nodes (erase P fs) = (\<lambda>x. if P x then None else hf_nodes fs x)" "hf_deny (erase P fs) = hf_deny fs"
  "hf_uid (erase P fs) = hf_uid fs" "hf_gid (erase P fs) = hf_gid fs"
  "hf_new_mode (erase P fs) = hf_new_mode fs"
  by (simp_all add: erase_def)

section \<open>Looking\<close>

text \<open>\<open>symlink_metadata\<close> and \<open>read_link\<close>.\<close>

definition fs_lstat :: "pkey \<Rightarrow> host_fs \<Rightarrow> (io_error, fnode) res" where
  "fs_lstat k fs =
     (case allowed CallStat k fs of Inl e \<Rightarrow> Inl e
      | Inr _ \<Rightarrow> (case hf_nodes fs k of None \<Rightarrow> Inl NotFound | Some n \<Rightarrow> Inr n))"

definition fs_read_link :: "pkey \<Rightarrow> host_fs \<Rightarrow> (io_error, string) res" where
  "fs_read_link k fs =
     (case allowed CallReadLink k fs of Inl e \<Rightarrow> Inl e
      | Inr _ \<Rightarrow>
          (case hf_nodes fs k of None \<Rightarrow> Inl NotFound | Some (LinkNode t _ _) \<Rightarrow> Inr t
           | Some _ \<Rightarrow> Inl (OtherError ''Invalid argument (os error 22)'')))"

text \<open>The links at the end of a path are followed, 40 of them at most.\<close>

definition link_target :: "pkey \<Rightarrow> string \<Rightarrow> pkey" where
  "link_target k t =
     (if path_is_absolute t then path_components t else butlast k @ path_components t)"

fun follow :: "nat \<Rightarrow> (pkey \<Rightarrow> fnode option) \<Rightarrow> pkey \<Rightarrow> pkey option" where
  "follow 0 m k = None"
| "follow (Suc n) m k =
     (case m k of Some (LinkNode t _ _) \<Rightarrow> follow n m (link_target k t) | _ \<Rightarrow> Some k)"

definition fs_final :: "pkey \<Rightarrow> host_fs \<Rightarrow> (io_error, pkey) res" where
  "fs_final k fs =
     (case follow 41 (hf_nodes fs) k of
        None \<Rightarrow> Inl (OtherError ''Too many levels of symbolic links (os error 40)'')
      | Some k' \<Rightarrow> Inr k')"

text \<open>\<open>metadata\<close>, \<open>read\<close> and the mode that \<open>copy\<close> takes along.\<close>

definition fs_stat :: "pkey \<Rightarrow> host_fs \<Rightarrow> (io_error, fnode) res" where
  "fs_stat k fs =
     (case allowed CallStat k fs of Inl e \<Rightarrow> Inl e
      | Inr _ \<Rightarrow>
          (case fs_final k fs of Inl e \<Rightarrow> Inl e
           | Inr k' \<Rightarrow> (case hf_nodes fs k' of None \<Rightarrow> Inl NotFound | Some n \<Rightarrow> Inr n)))"

definition fs_open :: "pkey \<Rightarrow> host_fs \<Rightarrow> (io_error, string \<times> u32) res" where
  "fs_open k fs =
     (case allowed CallRead k fs of Inl e \<Rightarrow> Inl e
      | Inr _ \<Rightarrow>
          (case fs_final k fs of Inl e \<Rightarrow> Inl e
           | Inr k' \<Rightarrow>
               (case hf_nodes fs k' of
                  Some (FileNode b _ _ m) \<Rightarrow> Inr (b, m)
                | Some _ \<Rightarrow> Inl (OtherError ''Is a directory (os error 21)'')
                | None \<Rightarrow> Inl NotFound)))"

definition fs_read :: "pkey \<Rightarrow> host_fs \<Rightarrow> (io_error, string) res" where
  "fs_read k fs = map_sum id fst (fs_open k fs)"

section \<open>Changing\<close>

text \<open>\<open>write\<close> creates the file, in a directory that is there, or replaces its contents.\<close>

definition fs_write :: "pkey \<Rightarrow> string \<Rightarrow> host_fs \<Rightarrow> (io_error, unit) res \<times> host_fs" where
  "fs_write k b fs =
     (case allowed CallWrite k fs of Inl e \<Rightarrow> (Inl e, fs)
      | Inr _ \<Rightarrow>
          (case fs_final k fs of Inl e \<Rightarrow> (Inl e, fs)
           | Inr k' \<Rightarrow>
               (case hf_nodes fs k' of
                  Some (FileNode _ u g m) \<Rightarrow> (Inr (), put k' (FileNode b u g m) fs)
                | Some _ \<Rightarrow> (Inl (OtherError ''Is a directory (os error 21)''), fs)
                | None \<Rightarrow>
                    (if hf_nodes fs (butlast k') = Some DirNode
                     then (Inr (), put k' (FileNode b (hf_uid fs) (hf_gid fs) (hf_new_mode fs)) fs)
                     else (Inl NotFound, fs)))))"

definition fs_set_mode :: "pkey \<Rightarrow> u32 \<Rightarrow> host_fs \<Rightarrow> (io_error, unit) res \<times> host_fs" where
  "fs_set_mode k m fs =
     (case allowed CallMode k fs of Inl e \<Rightarrow> (Inl e, fs)
      | Inr _ \<Rightarrow>
          (case fs_final k fs of Inl e \<Rightarrow> (Inl e, fs)
           | Inr k' \<Rightarrow>
               (case hf_nodes fs k' of
                  Some (FileNode b u g _) \<Rightarrow> (Inr (), put k' (FileNode b u g (m AND 0xFFF)) fs)
                | Some _ \<Rightarrow> (Inr (), fs)
                | None \<Rightarrow> (Inl NotFound, fs))))"

text \<open>\<open>copy\<close> copies the contents and the mode.\<close>

definition fs_copy :: "pkey \<Rightarrow> pkey \<Rightarrow> host_fs \<Rightarrow> (io_error, unit) res \<times> host_fs" where
  "fs_copy a k fs =
     (case fs_open a fs of Inl e \<Rightarrow> (Inl e, fs)
      | Inr (b, m) \<Rightarrow>
          (case fs_write k b fs of
             (Inl e, fs') \<Rightarrow> (Inl e, fs')
           | (Inr _, fs') \<Rightarrow> fs_set_mode k m fs'))"

definition fs_rename :: "pkey \<Rightarrow> pkey \<Rightarrow> host_fs \<Rightarrow> (io_error, unit) res \<times> host_fs" where
  "fs_rename a k fs =
     (case allowed CallRename k fs of Inl e \<Rightarrow> (Inl e, fs)
      | Inr _ \<Rightarrow>
          (case hf_nodes fs a of None \<Rightarrow> (Inl NotFound, fs)
           | Some n \<Rightarrow>
               (if hf_nodes fs k = Some DirNode then (Inl (OtherError ''Is a directory (os error 21)''), fs)
                else if a = k then (Inr (), fs)
                else (Inr (), put k n (erase (\<lambda>x. x = a) fs)))))"

definition fs_remove_file :: "pkey \<Rightarrow> host_fs \<Rightarrow> (io_error, unit) res \<times> host_fs" where
  "fs_remove_file k fs =
     (case allowed CallRemove k fs of Inl e \<Rightarrow> (Inl e, fs)
      | Inr _ \<Rightarrow>
          (case hf_nodes fs k of None \<Rightarrow> (Inl NotFound, fs)
           | Some DirNode \<Rightarrow> (Inl (OtherError ''Is a directory (os error 21)''), fs)
           | Some _ \<Rightarrow> (Inr (), erase (\<lambda>x. x = k) fs)))"

definition fs_remove_dir_all :: "pkey \<Rightarrow> host_fs \<Rightarrow> (io_error, unit) res \<times> host_fs" where
  "fs_remove_dir_all k fs =
     (case allowed CallRemove k fs of Inl e \<Rightarrow> (Inl e, fs) | Inr _ \<Rightarrow> (Inr (), erase (prefix k) fs))"

text \<open>\<open>create_dir_all\<close>: the directories from the root on, those missing made.\<close>

fun make_dirs :: "pkey list \<Rightarrow> host_fs \<Rightarrow> (io_error, unit) res \<times> host_fs" where
  "make_dirs [] fs = (Inr (), fs)"
| "make_dirs (k # ks) fs =
     (case hf_nodes fs k of
        None \<Rightarrow>
          (case allowed CallMkdir k fs of Inl e \<Rightarrow> (Inl e, fs) | Inr _ \<Rightarrow> make_dirs ks (put k DirNode fs))
      | Some (FileNode _ _ _ _) \<Rightarrow> (Inl (OtherError ''File exists (os error 17)''), fs)
      | Some _ \<Rightarrow> make_dirs ks fs)"

definition fs_create_dir_all :: "pkey \<Rightarrow> host_fs \<Rightarrow> (io_error, unit) res \<times> host_fs" where
  "fs_create_dir_all k = make_dirs (tl (prefixes k))"

definition fs_symlink :: "string \<Rightarrow> pkey \<Rightarrow> host_fs \<Rightarrow> (io_error, unit) res \<times> host_fs" where
  "fs_symlink t k fs =
     (case allowed CallSymlink k fs of Inl e \<Rightarrow> (Inl e, fs)
      | Inr _ \<Rightarrow>
          (case hf_nodes fs k of
             Some _ \<Rightarrow> (Inl (OtherError ''File exists (os error 17)''), fs)
           | None \<Rightarrow> (Inr (), put k (LinkNode t (hf_uid fs) (hf_gid fs)) fs)))"

text \<open>
  \<open>chown\<close> and \<open>lchown\<close>. Linux takes the set-user-id bit of the file away, and the set-group-id bit
  where the group may execute it, for the superuser as well.
\<close>

definition drop_suid :: "u32 \<Rightarrow> u32" where
  "drop_suid m =
     (let m' = m AND NOT 0x800 in if m AND 0x8 \<noteq> 0 then m' AND NOT 0x400 else m')"

definition fs_chown :: "bool \<Rightarrow> pkey \<Rightarrow> u32 \<Rightarrow> u32 \<Rightarrow> host_fs \<Rightarrow> (io_error, unit) res \<times> host_fs" where
  "fs_chown through k u g fs =
     (case allowed CallChown k fs of Inl e \<Rightarrow> (Inl e, fs)
      | Inr _ \<Rightarrow>
          (case (if through then fs_final k fs else Inr k) of Inl e \<Rightarrow> (Inl e, fs)
           | Inr k' \<Rightarrow>
               (case hf_nodes fs k' of
                  None \<Rightarrow> (Inl NotFound, fs)
                | Some (FileNode b _ _ m) \<Rightarrow> (Inr (), put k' (FileNode b u g (drop_suid m)) fs)
                | Some (LinkNode t _ _) \<Rightarrow> (Inr (), put k' (LinkNode t u g) fs)
                | Some DirNode \<Rightarrow> (Inr (), fs))))"

end
