(* ===== verification/Evidence_Gate.thy ===== *)
theory Evidence_Gate
  imports Rust_Text
begin

text \<open>
  What the gates of \<open>crates/apolysis-validation/src/lib.rs\<close> share: collecting failures, looking
  reports up by a key, the loop over the reports of a gate, and its verdict.
\<close>

section \<open>Failures and keys\<close>

definition fail_if :: "bool \<Rightarrow> 'f \<Rightarrow> 'f list" where
  "fail_if c f = (if c then [f] else [])"

lemma fail_if_simps [simp]: "fail_if False f = []" "fail_if True f = [f]" "fail_if c f = [] \<longleftrightarrow> \<not> c"
  by (simp_all add: fail_if_def)

text \<open>A \<open>BTreeMap\<close> collected from an iterator: the last entry of a key stays.\<close>

definition index_by :: "('r \<Rightarrow> 'k) \<Rightarrow> 'r list \<Rightarrow> 'k \<Rightarrow> 'r option" where
  "index_by key rs = fold (\<lambda>r m. m(key r \<mapsto> r)) rs Map.empty"

lemma index_by_snoc [simp]: "index_by key (rs @ [r]) = (index_by key rs)(key r \<mapsto> r)"
  by (simp add: index_by_def)

lemma index_by_Nil [simp]: "index_by key [] = Map.empty"
  by (simp add: index_by_def)

lemma index_by_Some: "index_by key rs k = Some r \<Longrightarrow> r \<in> set rs \<and> key r = k"
  by (induction rs arbitrary: r rule: rev_induct) (auto split: if_splits)

lemma index_by_None: "index_by key rs k = None \<longleftrightarrow> k \<notin> key ` set rs"
  by (induction rs rule: rev_induct) auto

lemma index_by_unique:
  "r \<in> set rs \<Longrightarrow> inj_on key (set rs) \<Longrightarrow> index_by key rs (key r) = Some r"
  by (cases "index_by key rs (key r)") (auto simp: index_by_None dest!: index_by_Some dest: inj_onD)

definition nonblank :: "string \<Rightarrow> bool" where
  "nonblank s \<longleftrightarrow> trim s \<noteq> []"

definition nonblank_id :: "string \<Rightarrow> string option" where
  "nonblank_id s = (if nonblank s then Some s else None)"

text \<open>The failures of the gates that name the evidence they are about.\<close>

record evidence_failure =
  ef_id :: "string option"
  ef_message :: string

definition evidence_fail :: "string option \<Rightarrow> string \<Rightarrow> evidence_failure" where
  "evidence_fail i m = \<lparr>ef_id = i, ef_message = m\<rparr>"

section \<open>The loop and the verdict\<close>

text \<open>
  A round pushes the failures of its report, and what it validated when there were none.
\<close>

fun gate_loop :: "('r \<Rightarrow> 'f list \<times> 'v list) \<Rightarrow> 'r list \<Rightarrow> 'f list \<times> 'v list" where
  "gate_loop check [] = ([], [])"
| "gate_loop check (r # rs) =
     (let (fs, vs) = check r; (fs', vs') = gate_loop check rs in (fs @ fs', vs @ vs'))"

record ('r, 'v, 'f) gate_report =
  gr_schema_version :: "32 word"
  gr_passed :: bool
  gr_reports :: "'r list"
  gr_validated :: "'v list"
  gr_failures :: "'f list"

definition gate_verdict :: "'r list \<Rightarrow> 'f list \<Rightarrow> 'v list \<Rightarrow> ('r, 'v, 'f) gate_report" where
  "gate_verdict rs fs vs =
     \<lparr>gr_schema_version = 1, gr_passed = (fs = []), gr_reports = rs,
      gr_validated = (if fs = [] then vs else []), gr_failures = fs\<rparr>"

definition gate_run :: "'f \<Rightarrow> ('r \<Rightarrow> 'f list \<times> 'v list) \<Rightarrow> 'r list \<Rightarrow> ('r, 'v, 'f) gate_report" where
  "gate_run missing check rs =
     (let (fs, vs) = gate_loop check rs in gate_verdict rs (fail_if (rs = []) missing @ fs) vs)"

lemma gate_verdict_simps [simp]:
  "gr_passed (gate_verdict rs fs vs) = (fs = [])"
  "gr_reports (gate_verdict rs fs vs) = rs"
  "gr_failures (gate_verdict rs fs vs) = fs"
  by (simp_all add: gate_verdict_def)

text \<open>
  The contract of a round: there are no failures exactly when the report is acceptable, and
  exactly then its approval is pushed.
\<close>

locale gate_check =
  fixes check :: "'r \<Rightarrow> 'f list \<times> 'v list" and acceptable :: "'r \<Rightarrow> bool" and approval :: "'r \<Rightarrow> 'v"
  assumes no_failures: "fst (check r) = [] \<longleftrightarrow> acceptable r"
    and approved: "snd (check r) = (if acceptable r then [approval r] else [])"
begin

lemma loop_failures: "fst (gate_loop check rs) = [] \<longleftrightarrow> list_all acceptable rs"
  by (induction rs) (auto simp: split_def Let_def no_failures)

lemma loop_approved: "snd (gate_loop check rs) = map approval (filter acceptable rs)"
  by (induction rs) (auto simp: split_def Let_def approved)

lemma run_passed: "gr_passed (gate_run missing check rs) \<longleftrightarrow> rs \<noteq> [] \<and> list_all acceptable rs"
  by (simp add: gate_run_def split_def Let_def loop_failures)

lemma run_validated:
  "gr_validated (gate_run missing check rs) =
     (if rs \<noteq> [] \<and> list_all acceptable rs then map approval rs else [])"
  by (auto simp: gate_run_def gate_verdict_def split_def Let_def loop_failures loop_approved list_all_iff
      intro: filter_True)

lemma run_reports [simp]: "gr_reports (gate_run missing check rs) = rs"
  by (simp add: gate_run_def split_def Let_def)

end

end
