(* ===== verification/Host_Restore.thy ===== *)
theory Host_Restore
  imports Host_Files Evidence_Gate
begin

text \<open>
  Backing up and restoring a host around a validation
  (\<open>crates/apolysis-validation/src/lib.rs\<close>): the capture of files and service states, the plan
  of a restoration, its verification against the manifest, and its execution. SHA-256 in hex is
  the parameter \<open>sha\<close>; the process id is \<open>pid\<close>; a \<open>ServiceController\<close> is a pair of functions on
  its own state.
\<close>

section \<open>Data\<close>

record backup_source =
  so_id :: string
  so_path :: string

datatype backup_kind = BkRegularFile | BkSymlink | BkMissing

record backup_entry =
  bk_id :: string
  bk_original_path :: string
  bk_kind :: backup_kind
  bk_relative_path :: "string option"
  bk_sha256 :: "string option"
  bk_symlink_target :: "string option"
  bk_uid :: "u32 option"
  bk_gid :: "u32 option"
  bk_mode :: "u32 option"

record backup_manifest =
  mf_schema_version :: u32
  mf_entries :: "backup_entry list"

record socket_state =
  ss_path :: string
  ss_present :: bool

record service_state =
  sv_service_name :: string
  sv_load_state :: string
  sv_active_state :: string
  sv_unit_file_state :: string
  sv_fragment_path :: "string option"
  sv_drop_in_paths :: "string list"
  sv_runtime_sockets :: "socket_state list"

record managed_service_inputs =
  ms_service_name :: string
  ms_entry_ids :: "string list"

datatype restore_action =
    RestoreRegularFile string string string "u32 option" "u32 option" "u32 option"
  | RestoreSymlink string string string "u32 option" "u32 option"
  | EnsureMissing string string
  | RemoveValidationPath string
  | RestoreServiceState string string string

record restore_plan =
  rp_schema_version :: u32
  rp_actions :: "restore_action list"

section \<open>Paths\<close>

definition require_absolute_path :: "string \<Rightarrow> (string, unit) res" where
  "require_absolute_path p =
     (if \<not> path_is_absolute p \<or> path_components p = [RootDir] then
        Inl (''restore path must be an absolute non-root path: '' @ p)
      else Inr ())"

text \<open>The parent of an absolute path other than the root.\<close>

definition trim_pieces :: "string list \<Rightarrow> string list" where
  "trim_pieces ps = rev (dropWhile (\<lambda>p. p = [] \<or> p = ''.'') (rev ps))"

definition absolute_parent :: "string \<Rightarrow> string" where
  "absolute_parent p =
     (let ps = trim_pieces (butlast (trim_pieces (split_on (CHR ''/'') p))) in
      if ps = [] then ''/'' else join_with ''/'' ps)"

definition file_name_of :: "string \<Rightarrow> string option" where
  "file_name_of p =
     (case path_components p of [] \<Rightarrow> None
      | k \<Rightarrow> (case last k of NormalDir n \<Rightarrow> Some n | _ \<Rightarrow> None))"

definition restore_temp_path :: "u32 \<Rightarrow> string \<Rightarrow> string \<Rightarrow> (string, string) res" where
  "restore_temp_path pid parent to_path =
     (case file_name_of to_path of
        None \<Rightarrow> Inl (''restore target has no file name: '' @ to_path)
      | Some n \<Rightarrow> Inr (path_join parent (''.'' @ n @ ''.apolysis-restore.'' @ dec_str (unat pid))))"

section \<open>Capture\<close>

definition safe_backup_name :: "string \<Rightarrow> string" where
  "safe_backup_name i =
     map (\<lambda>c. if is_ascii_alphanumeric c \<or> c = CHR ''-'' \<or> c = CHR ''_'' then c else CHR ''_'') i"

definition missing_entry :: "backup_source \<Rightarrow> backup_entry" where
  "missing_entry s =
     \<lparr>bk_id = so_id s, bk_original_path = so_path s, bk_kind = BkMissing, bk_relative_path = None,
      bk_sha256 = None, bk_symlink_target = None, bk_uid = None, bk_gid = None, bk_mode = None\<rparr>"

definition capture_source ::
    "(string \<Rightarrow> string) \<Rightarrow> string \<Rightarrow> backup_source \<Rightarrow> host_fs \<Rightarrow> (string, backup_entry) res \<times> host_fs" where
  "capture_source sha out s fs =
     (let k = path_components (so_path s) in
      case fs_lstat k fs of
        Inl NotFound \<Rightarrow> (Inr (missing_entry s), fs)
      | Inl e \<Rightarrow> (Inl (''failed to inspect backup source '' @ so_path s @ '': '' @ io_error_str e), fs)
      | Inr (LinkNode _ u g) \<Rightarrow>
          (case fs_read_link k fs of
             Inl e \<Rightarrow> (Inl (''failed to read symlink '' @ so_path s @ '': '' @ io_error_str e), fs)
           | Inr t \<Rightarrow>
               (Inr ((missing_entry s)\<lparr>bk_kind := BkSymlink, bk_symlink_target := Some t, bk_uid := Some u,
                        bk_gid := Some g, bk_mode := Some 0x1FF\<rparr>), fs))
      | Inr DirNode \<Rightarrow> (Inl (''backup source is not a regular file or symlink: '' @ so_path s), fs)
      | Inr (FileNode _ u g m) \<Rightarrow>
          (let relative = path_join ''files'' (safe_backup_name (so_id s));
               copy = path_join out relative
           in
             case fs_read k fs of
               Inl e \<Rightarrow> (Inl (''failed to read backup source '' @ so_path s @ '': '' @ io_error_str e), fs)
             | Inr b \<Rightarrow>
                 (case fs_write (path_components copy) b fs of
                    (Inl e, fs') \<Rightarrow> (Inl (''failed to write backup copy '' @ copy @ '': '' @ io_error_str e), fs')
                  | (Inr _, fs') \<Rightarrow>
                      (Inr ((missing_entry s)\<lparr>bk_kind := BkRegularFile, bk_relative_path := Some relative,
                               bk_sha256 := Some (sha b), bk_uid := Some u, bk_gid := Some g,
                               bk_mode := Some (m AND 0xFFF)\<rparr>), fs'))))"

fun capture_sources ::
    "(string \<Rightarrow> string) \<Rightarrow> string \<Rightarrow> backup_source list \<Rightarrow> host_fs
     \<Rightarrow> (string, backup_entry list) res \<times> host_fs" where
  "capture_sources sha out [] fs = (Inr [], fs)"
| "capture_sources sha out (s # ss) fs =
     (case capture_source sha out s fs of
        (Inl e, fs') \<Rightarrow> (Inl e, fs')
      | (Inr entry, fs') \<Rightarrow>
          (case capture_sources sha out ss fs' of
             (Inl e, fs'') \<Rightarrow> (Inl e, fs'')
           | (Inr entries, fs'') \<Rightarrow> (Inr (entry # entries), fs'')))"

definition capture_backup_manifest ::
    "(string \<Rightarrow> string) \<Rightarrow> string \<Rightarrow> backup_source list \<Rightarrow> host_fs
     \<Rightarrow> (string, backup_manifest) res \<times> host_fs" where
  "capture_backup_manifest sha out ss fs =
     (case fs_create_dir_all (path_components (path_join out ''files'')) fs of
        (Inl e, fs') \<Rightarrow> (Inl (''failed to create backup output directory: '' @ io_error_str e), fs')
      | (Inr _, fs') \<Rightarrow>
          (case capture_sources sha out ss fs' of
             (Inl e, fs'') \<Rightarrow> (Inl e, fs'')
           | (Inr es, fs'') \<Rightarrow> (Inr \<lparr>mf_schema_version = 1, mf_entries = es\<rparr>, fs'')))"

text \<open>The output of \<open>systemctl show\<close>.\<close>

definition systemctl_line :: "string \<Rightarrow> string \<Rightarrow> string option" where
  "systemctl_line key line =
     (case strip_prefix key line of None \<Rightarrow> None | Some rest \<Rightarrow> strip_prefix ''='' rest)"

fun find_map :: "('a \<Rightarrow> 'b option) \<Rightarrow> 'a list \<Rightarrow> 'b option" where
  "find_map f [] = None"
| "find_map f (x # xs) = (case f x of None \<Rightarrow> find_map f xs | Some y \<Rightarrow> Some y)"

definition systemctl_value :: "string \<Rightarrow> string \<Rightarrow> string option" where
  "systemctl_value input key = find_map (systemctl_line key) (lines_of input)"

definition required_systemctl_value :: "string \<Rightarrow> string \<Rightarrow> (string, string) res" where
  "required_systemctl_value input key =
     (case systemctl_value input key of
        Some v \<Rightarrow> if v \<noteq> [] then Inr v else Inl (''systemd service state is missing '' @ key)
      | None \<Rightarrow> Inl (''systemd service state is missing '' @ key))"

definition optional_path :: "string option \<Rightarrow> string option" where
  "optional_path v = (case v of Some p \<Rightarrow> if p \<noteq> [] then Some p else None | None \<Rightarrow> None)"

definition split_paths :: "string \<Rightarrow> string list" where
  "split_paths v = filter (\<lambda>p. p \<noteq> []) (split_whitespace v)"

definition capture_service_state ::
    "string \<Rightarrow> string \<Rightarrow> string list \<Rightarrow> host_fs \<Rightarrow> (string, service_state) res" where
  "capture_service_state name shown sockets fs =
     (case required_systemctl_value shown ''LoadState'' of Inl e \<Rightarrow> Inl e
      | Inr load \<Rightarrow>
     (case required_systemctl_value shown ''ActiveState'' of Inl e \<Rightarrow> Inl e
      | Inr active \<Rightarrow>
     (case required_systemctl_value shown ''UnitFileState'' of Inl e \<Rightarrow> Inl e
      | Inr unit_file \<Rightarrow>
          Inr \<lparr>sv_service_name = name, sv_load_state = load, sv_active_state = active,
            sv_unit_file_state = unit_file,
            sv_fragment_path = optional_path (systemctl_value shown ''FragmentPath''),
            sv_drop_in_paths =
              (case systemctl_value shown ''DropInPaths'' of None \<Rightarrow> [] | Some v \<Rightarrow> split_paths v),
            sv_runtime_sockets =
              map (\<lambda>p. \<lparr>ss_path = p, ss_present = is_ok (fs_lstat (path_components p) fs)\<rparr>) sockets\<rparr>)))"

section \<open>The plan\<close>

definition verify_backup_copy ::
    "(string \<Rightarrow> string) \<Rightarrow> string \<Rightarrow> host_fs \<Rightarrow> backup_entry \<Rightarrow> string \<Rightarrow> (string, unit) res" where
  "verify_backup_copy sha root fs entry relative =
     (case fs_read (path_components (path_join root relative)) fs of
        Inl e \<Rightarrow> Inl (''backup copy is missing for '' @ bk_id entry @ '': '' @ io_error_str e)
      | Inr b \<Rightarrow>
          if bk_sha256 entry \<noteq> Some (sha b) then Inl (''backup checksum mismatch for '' @ bk_id entry)
          else Inr ())"

definition entry_action ::
    "(string \<Rightarrow> string) \<Rightarrow> string \<Rightarrow> host_fs \<Rightarrow> backup_entry \<Rightarrow> (string, restore_action) res" where
  "entry_action sha root fs entry =
     (case bk_kind entry of
        BkRegularFile \<Rightarrow>
          (case bk_relative_path entry of
             None \<Rightarrow> Inl (''regular file backup entry '' @ bk_id entry @ '' is missing backup path'')
           | Some relative \<Rightarrow>
               (case verify_backup_copy sha root fs entry relative of Inl e \<Rightarrow> Inl e
                | Inr _ \<Rightarrow>
                    Inr (RestoreRegularFile (bk_id entry) relative (bk_original_path entry) (bk_uid entry)
                           (bk_gid entry) (bk_mode entry))))
      | BkSymlink \<Rightarrow>
          (case bk_symlink_target entry of
             None \<Rightarrow> Inl (''symlink backup entry '' @ bk_id entry @ '' is missing target'')
           | Some t \<Rightarrow>
               Inr (RestoreSymlink (bk_id entry) t (bk_original_path entry) (bk_uid entry) (bk_gid entry)))
      | BkMissing \<Rightarrow> Inr (EnsureMissing (bk_id entry) (bk_original_path entry)))"

text \<open>A loop whose rounds may return with an error.\<close>

fun try_map :: "('a \<Rightarrow> ('e, 'b) res) \<Rightarrow> 'a list \<Rightarrow> ('e, 'b list) res" where
  "try_map f [] = Inr []"
| "try_map f (x # xs) =
     (case f x of Inl e \<Rightarrow> Inl e
      | Inr y \<Rightarrow> (case try_map f xs of Inl e \<Rightarrow> Inl e | Inr ys \<Rightarrow> Inr (y # ys)))"

text \<open>Paths are ordered and compared by their components.\<close>

definition component_key :: "path_component \<Rightarrow> string" where
  "component_key c =
     (case c of RootDir \<Rightarrow> [CHR 0x01] | CurDir \<Rightarrow> [CHR 0x02] | ParentDir \<Rightarrow> [CHR 0x03]
      | NormalDir n \<Rightarrow> CHR 0x04 # n)"

definition sort_paths :: "string list \<Rightarrow> string list" where
  "sort_paths = sort_key (\<lambda>p. map component_key (path_components p))"

fun dedup_paths :: "string list \<Rightarrow> string list" where
  "dedup_paths (p # q # ps) =
     (if path_components p = path_components q then dedup_paths (p # ps) else p # dedup_paths (q # ps))"
| "dedup_paths ps = ps"

definition managed_action ::
    "string set \<Rightarrow> (string \<Rightarrow> service_state option) \<Rightarrow> managed_service_inputs \<Rightarrow> (string, restore_action) res" where
  "managed_action known services m =
     (case find (\<lambda>i. i \<notin> known) (ms_entry_ids m) of
        Some i \<Rightarrow>
          Inl (''managed service '' @ ms_service_name m @ '' references unknown backup entry '' @ i)
      | None \<Rightarrow>
          (case services (ms_service_name m) of
             None \<Rightarrow> Inl (''managed service '' @ ms_service_name m @ '' is missing captured service state'')
           | Some sv \<Rightarrow>
               Inr (RestoreServiceState (sv_service_name sv) (sv_active_state sv) (sv_unit_file_state sv))))"

definition plan_restore ::
    "(string \<Rightarrow> string) \<Rightarrow> host_fs \<Rightarrow> string \<Rightarrow> backup_manifest \<Rightarrow> service_state list
     \<Rightarrow> managed_service_inputs list \<Rightarrow> string list \<Rightarrow> (string, restore_plan) res" where
  "plan_restore sha fs root m services managed owned =
     (case try_map (entry_action sha root fs) (mf_entries m) of
        Inl e \<Rightarrow> Inl e
      | Inr files \<Rightarrow>
          (case try_map (managed_action (set (map bk_id (mf_entries m))) (index_by sv_service_name services))
                  (sort_key ms_service_name managed) of
             Inl e \<Rightarrow> Inl e
           | Inr servs \<Rightarrow>
               Inr \<lparr>rp_schema_version = 1,
                 rp_actions = files @ map RemoveValidationPath (dedup_paths (sort_paths owned)) @ servs\<rparr>))"

section \<open>Verification of a plan\<close>

definition path_eq :: "string \<Rightarrow> string \<Rightarrow> bool" where
  "path_eq p q \<longleftrightarrow> path_components p = path_components q"

text \<open>The first of a list of checks that fails.\<close>

fun checks :: "(bool \<times> string) list \<Rightarrow> (string, unit) res" where
  "checks [] = Inr ()"
| "checks ((ok, e) # cs) = (if ok then checks cs else Inl e)"

definition then_check :: "(string, 'a) res \<Rightarrow> ('a \<Rightarrow> (string, 'b) res) \<Rightarrow> (string, 'b) res" where
  "then_check r f = (case r of Inl e \<Rightarrow> Inl e | Inr x \<Rightarrow> f x)"

definition manifest_entry ::
    "(string \<Rightarrow> backup_entry option) \<Rightarrow> string \<Rightarrow> (string, backup_entry) res" where
  "manifest_entry entries i =
     (case entries i of None \<Rightarrow> Inl (''restore action references unknown backup entry '' @ i)
      | Some e \<Rightarrow> Inr e)"

fun verify_action ::
    "(string \<Rightarrow> string) \<Rightarrow> host_fs \<Rightarrow> string \<Rightarrow> (string \<Rightarrow> backup_entry option)
     \<Rightarrow> (string \<Rightarrow> service_state option) \<Rightarrow> restore_action \<Rightarrow> (string, unit) res" where
  "verify_action sha fs root entries services (RestoreRegularFile i from to u g m) =
     then_check (require_absolute_path to) (\<lambda>_.
     then_check (manifest_entry entries i) (\<lambda>e.
     then_check (checks
       [(bk_kind e = BkRegularFile, ''restore action '' @ i @ '' does not match manifest kind''),
        (path_eq (bk_original_path e) to, ''restore action '' @ i @ '' target does not match manifest'')]) (\<lambda>_.
     case bk_relative_path e of
       None \<Rightarrow> Inl (''regular file backup entry '' @ i @ '' is missing backup path'')
     | Some backup \<Rightarrow>
         (if \<not> path_eq backup from then
            Inl (''restore action '' @ i @ '' backup path does not match manifest'')
          else verify_backup_copy sha root fs e from))))"
| "verify_action sha fs root entries services (RestoreSymlink i t link u g) =
     then_check (require_absolute_path link) (\<lambda>_.
     then_check (manifest_entry entries i) (\<lambda>e.
     checks
       [(bk_kind e = BkSymlink, ''restore action '' @ i @ '' does not match manifest kind''),
        (path_eq (bk_original_path e) link, ''restore action '' @ i @ '' link path does not match manifest''),
        (case bk_symlink_target e of None \<Rightarrow> False | Some t' \<Rightarrow> path_eq t' t,
         ''restore action '' @ i @ '' target does not match manifest'')]))"
| "verify_action sha fs root entries services (EnsureMissing i p) =
     then_check (require_absolute_path p) (\<lambda>_.
     then_check (manifest_entry entries i) (\<lambda>e.
     checks
       [(bk_kind e = BkMissing, ''restore action '' @ i @ '' does not match manifest kind''),
        (path_eq (bk_original_path e) p, ''restore action '' @ i @ '' path does not match manifest'')]))"
| "verify_action sha fs root entries services (RemoveValidationPath p) = require_absolute_path p"
| "verify_action sha fs root entries services (RestoreServiceState name active unit_file) =
     (case services name of
        None \<Rightarrow> Inl (''restore action references uncaptured service '' @ name)
      | Some sv \<Rightarrow>
          checks
            [(sv_active_state sv = active,
              ''restore action for '' @ name @ '' active state does not match capture''),
             (sv_unit_file_state sv = unit_file,
              ''restore action for '' @ name @ '' unit file state does not match capture'')])"

definition verify_restore_inputs ::
    "(string \<Rightarrow> string) \<Rightarrow> host_fs \<Rightarrow> string \<Rightarrow> backup_manifest \<Rightarrow> service_state list \<Rightarrow> restore_plan
     \<Rightarrow> (string, unit) res" where
  "verify_restore_inputs sha fs root m services plan =
     then_check (checks
       [(rp_schema_version plan = 1,
         ''unsupported restore plan schema version '' @ dec_str (unat (rp_schema_version plan))),
        (mf_schema_version m = 1,
         ''unsupported backup manifest schema version '' @ dec_str (unat (mf_schema_version m)))]) (\<lambda>_.
     map_sum id (\<lambda>_. ())
       (try_map (verify_action sha fs root (index_by bk_id (mf_entries m)) (index_by sv_service_name services))
          (rp_actions plan)))"

section \<open>Execution\<close>

definition set_owner_if_needed ::
    "string \<Rightarrow> u32 option \<Rightarrow> u32 option \<Rightarrow> bool \<Rightarrow> host_fs \<Rightarrow> (string, unit) res \<times> host_fs" where
  "set_owner_if_needed p uid gid through fs =
     (case (uid, gid) of
        (Some u, Some g) \<Rightarrow>
          (let k = path_components p in
           case (if through then fs_stat k fs else fs_lstat k fs) of
             Inl e \<Rightarrow> (Inl (''failed to inspect restored owner '' @ p @ '': '' @ io_error_str e), fs)
           | Inr n \<Rightarrow>
               (if (case n of FileNode _ u' g' _ \<Rightarrow> u' = u \<and> g' = g | LinkNode _ u' g' \<Rightarrow> u' = u \<and> g' = g
                    | DirNode \<Rightarrow> False)
                then (Inr (), fs)
                else if CHR 0x00 \<in> set p then (Inl (''restore path contains a NUL byte: '' @ p), fs)
                else
                  (case fs_chown through k u g fs of
                     (Inl e, fs') \<Rightarrow> (Inl (''failed to restore owner on '' @ p @ '': '' @ io_error_str e), fs')
                   | (Inr _, fs') \<Rightarrow> (Inr (), fs'))))
      | _ \<Rightarrow> (Inr (), fs))"

definition remove_path_if_present :: "string \<Rightarrow> host_fs \<Rightarrow> (string, unit) res \<times> host_fs" where
  "remove_path_if_present p fs =
     (case require_absolute_path p of Inl e \<Rightarrow> (Inl e, fs)
      | Inr _ \<Rightarrow>
          (let k = path_components p in
           case fs_lstat k fs of
             Inl NotFound \<Rightarrow> (Inr (), fs)
           | Inl e \<Rightarrow> (Inl (''failed to inspect '' @ p @ '': '' @ io_error_str e), fs)
           | Inr DirNode \<Rightarrow>
               (case fs_remove_dir_all k fs of
                  (Inl e, fs') \<Rightarrow> (Inl (''failed to remove directory '' @ p @ '': '' @ io_error_str e), fs')
                | (Inr _, fs') \<Rightarrow> (Inr (), fs'))
           | Inr _ \<Rightarrow>
               (case fs_remove_file k fs of
                  (Inl e, fs') \<Rightarrow> (Inl (''failed to remove file '' @ p @ '': '' @ io_error_str e), fs')
                | (Inr _, fs') \<Rightarrow> (Inr (), fs'))))"

definition fs_try :: "string \<Rightarrow> (io_error, unit) res \<times> host_fs \<Rightarrow> (host_fs \<Rightarrow> (string, unit) res \<times> host_fs)
     \<Rightarrow> (string, unit) res \<times> host_fs" where
  "fs_try message r continue =
     (case r of (Inl e, fs) \<Rightarrow> (Inl (message @ io_error_str e), fs) | (Inr _, fs) \<Rightarrow> continue fs)"

definition set_mode_if :: "u32 option \<Rightarrow> string \<Rightarrow> host_fs \<Rightarrow> (io_error, unit) res \<times> host_fs" where
  "set_mode_if mode p fs =
     (case mode of None \<Rightarrow> (Inr (), fs) | Some m \<Rightarrow> fs_set_mode (path_components p) m fs)"

text \<open>
  The file is put together under a temporary name beside its place; a failed rename removes the
  temporary file, any other failure leaves it.
\<close>

definition put_in_place ::
    "string \<Rightarrow> string \<Rightarrow> string \<Rightarrow> (host_fs \<Rightarrow> (string, unit) res \<times> host_fs) \<Rightarrow> host_fs
     \<Rightarrow> (string, unit) res \<times> host_fs" where
  "put_in_place what temp to_path continue fs =
     (case fs_rename (path_components temp) (path_components to_path) fs of
        (Inl e, fs') \<Rightarrow>
          (Inl (''failed to move '' @ what @ '' '' @ temp @ '' to '' @ to_path @ '': '' @ io_error_str e),
           snd (fs_remove_file (path_components temp) fs'))
      | (Inr _, fs') \<Rightarrow> continue fs')"

definition restore_regular_file ::
    "u32 \<Rightarrow> string \<Rightarrow> string \<Rightarrow> string \<Rightarrow> u32 option \<Rightarrow> u32 option \<Rightarrow> u32 option \<Rightarrow> host_fs
     \<Rightarrow> (string, unit) res \<times> host_fs" where
  "restore_regular_file pid root from to uid gid mode fs =
     (case require_absolute_path to of Inl e \<Rightarrow> (Inl e, fs)
      | Inr _ \<Rightarrow>
          (let parent = absolute_parent to; k = path_components to in
           fs_try (''failed to create '' @ parent @ '': '') (fs_create_dir_all (path_components parent) fs)
           (\<lambda>fs.
              if fs_lstat k fs = Inr DirNode then
                (Inl (''refusing to replace directory with restored file: '' @ to), fs)
              else
                (case restore_temp_path pid parent to of Inl e \<Rightarrow> (Inl e, fs)
                 | Inr temp \<Rightarrow>
                     (let backup = path_join root from in
                      fs_try (''failed to copy backup '' @ backup @ '' to '' @ temp @ '': '')
                        (fs_copy (path_components backup) (path_components temp) fs)
                      (\<lambda>fs.
                      fs_try (''failed to set mode on '' @ temp @ '': '') (set_mode_if mode temp fs)
                      (\<lambda>fs.
                      put_in_place ''restored file'' temp to
                      (\<lambda>fs.
                      fs_try (''failed to set mode on '' @ to @ '': '') (set_mode_if mode to fs)
                      (set_owner_if_needed to uid gid True)) fs)))))))"

definition write_config_file ::
    "u32 \<Rightarrow> string \<Rightarrow> string \<Rightarrow> u32 \<Rightarrow> host_fs \<Rightarrow> (string, unit) res \<times> host_fs" where
  "write_config_file pid p contents mode fs =
     (case require_absolute_path p of Inl e \<Rightarrow> (Inl e, fs)
      | Inr _ \<Rightarrow>
          (let parent = absolute_parent p; k = path_components p in
           fs_try (''failed to create '' @ parent @ '': '') (fs_create_dir_all (path_components parent) fs)
           (\<lambda>fs.
              if fs_lstat k fs = Inr DirNode then
                (Inl (''refusing to replace directory with config file: '' @ p), fs)
              else
                (case restore_temp_path pid parent p of Inl e \<Rightarrow> (Inl e, fs)
                 | Inr temp \<Rightarrow>
                     fs_try (''failed to write '' @ temp @ '': '') (fs_write (path_components temp) contents fs)
                     (\<lambda>fs.
                     fs_try (''failed to set mode on '' @ temp @ '': '') (fs_set_mode (path_components temp) mode fs)
                     (\<lambda>fs.
                     put_in_place ''config file'' temp p
                     (\<lambda>fs.
                     fs_try (''failed to set mode on '' @ p @ '': '') (fs_set_mode k mode fs)
                     (\<lambda>fs. (Inr (), fs))) fs))))))"

definition restore_symlink ::
    "string \<Rightarrow> string \<Rightarrow> u32 option \<Rightarrow> u32 option \<Rightarrow> host_fs \<Rightarrow> (string, unit) res \<times> host_fs" where
  "restore_symlink target link uid gid fs =
     (case require_absolute_path link of Inl e \<Rightarrow> (Inl e, fs)
      | Inr _ \<Rightarrow>
          (let parent = absolute_parent link in
           fs_try (''failed to create '' @ parent @ '': '') (fs_create_dir_all (path_components parent) fs)
           (\<lambda>fs.
              case remove_path_if_present link fs of
                (Inl e, fs') \<Rightarrow> (Inl e, fs')
              | (Inr _, fs') \<Rightarrow>
                  fs_try (''failed to restore symlink '' @ link @ '' -> '' @ target @ '': '')
                    (fs_symlink target (path_components link) fs')
                    (set_owner_if_needed link uid gid False))))"

text \<open>A controller of services: the unit file state, then the active state.\<close>

type_synonym 'c control = "string \<Rightarrow> string \<Rightarrow> 'c \<Rightarrow> (string, unit) res \<times> 'c"

record 'c controller =
  co_unit_file :: "'c control"
  co_active :: "'c control"

definition execute_action ::
    "u32 \<Rightarrow> string \<Rightarrow> 'c controller \<Rightarrow> restore_action \<Rightarrow> host_fs \<times> 'c \<Rightarrow> (string, unit) res \<times> host_fs \<times> 'c" where
  "execute_action pid root C a st =
     (let (fs, c) = st in
      case a of
        RestoreRegularFile _ from to u g m \<Rightarrow>
          (let (r, fs') = restore_regular_file pid root from to u g m fs in (r, fs', c))
      | RestoreSymlink _ t link u g \<Rightarrow> (let (r, fs') = restore_symlink t link u g fs in (r, fs', c))
      | EnsureMissing _ p \<Rightarrow> (let (r, fs') = remove_path_if_present p fs in (r, fs', c))
      | RemoveValidationPath p \<Rightarrow> (let (r, fs') = remove_path_if_present p fs in (r, fs', c))
      | RestoreServiceState name active unit_file \<Rightarrow>
          (case co_unit_file C name unit_file c of
             (Inl e, c') \<Rightarrow> (Inl e, fs, c')
           | (Inr _, c') \<Rightarrow> (let (r, c'') = co_active C name active c' in (r, fs, c''))))"

fun execute_actions ::
    "u32 \<Rightarrow> string \<Rightarrow> 'c controller \<Rightarrow> restore_action list \<Rightarrow> host_fs \<times> 'c
     \<Rightarrow> (string, nat) res \<times> host_fs \<times> 'c" where
  "execute_actions pid root C [] st = (Inr 0, st)"
| "execute_actions pid root C (a # as) st =
     (case execute_action pid root C a st of
        (Inl e, st') \<Rightarrow> (Inl e, st')
      | (Inr _, st') \<Rightarrow>
          (case execute_actions pid root C as st' of
             (Inl e, st'') \<Rightarrow> (Inl e, st'')
           | (Inr n, st'') \<Rightarrow> (Inr (Suc n), st'')))"

definition execute_restore_plan ::
    "(string \<Rightarrow> string) \<Rightarrow> u32 \<Rightarrow> 'c controller \<Rightarrow> string \<Rightarrow> backup_manifest \<Rightarrow> service_state list
     \<Rightarrow> restore_plan \<Rightarrow> host_fs \<times> 'c \<Rightarrow> (string, nat) res \<times> host_fs \<times> 'c" where
  "execute_restore_plan sha pid C root m services plan st =
     (case verify_restore_inputs sha (fst st) root m services plan of
        Inl e \<Rightarrow> (Inl e, st)
      | Inr _ \<Rightarrow> execute_actions pid root C (rp_actions plan) st)"

text \<open>
  The controller that calls \<open>systemctl\<close>, whose answers are the parameter \<open>ctl\<close>; its state is the
  list of the calls.
\<close>

definition systemctl_action ::
    "(string \<Rightarrow> string \<Rightarrow> (string, unit) res) \<Rightarrow> string \<Rightarrow> string \<Rightarrow> (string \<times> string) list
     \<Rightarrow> (string, unit) res \<times> (string \<times> string) list" where
  "systemctl_action ctl action name calls = (ctl action name, calls @ [(action, name)])"

definition systemctl_unit_file ::
    "(string \<Rightarrow> string \<Rightarrow> (string, unit) res) \<Rightarrow> (string \<times> string) list control" where
  "systemctl_unit_file ctl name state calls =
     (if state = ''enabled'' then systemctl_action ctl ''enable'' name calls
      else if state = ''disabled'' then systemctl_action ctl ''disable'' name calls
      else if state = ''masked'' then systemctl_action ctl ''mask'' name calls
      else if state \<in> {''static'', ''generated'', ''indirect'', ''alias'', ''linked'', ''linked-runtime'',
                       ''transient''} then (Inr (), calls)
      else (Inl (''unsupported unit file state for '' @ name @ '': '' @ state), calls))"

definition systemctl_active ::
    "(string \<Rightarrow> string \<Rightarrow> (string, unit) res) \<Rightarrow> (string \<times> string) list control" where
  "systemctl_active ctl name state calls =
     (if state \<in> {''active'', ''reloading''} then systemctl_action ctl ''restart'' name calls
      else if state = ''activating'' then systemctl_action ctl ''start'' name calls
      else if state \<in> {''inactive'', ''deactivating''} then systemctl_action ctl ''stop'' name calls
      else if state = ''failed'' then
        (case systemctl_action ctl ''stop'' name calls of
           (Inl e, calls') \<Rightarrow> (Inl e, calls')
         | (Inr _, calls') \<Rightarrow> systemctl_action ctl ''reset-failed'' name calls')
      else (Inl (''unsupported active state for '' @ name @ '': '' @ state), calls))"

definition systemctl_controller ::
    "(string \<Rightarrow> string \<Rightarrow> (string, unit) res) \<Rightarrow> (string \<times> string) list controller" where
  "systemctl_controller ctl =
     \<lparr>co_unit_file = systemctl_unit_file ctl, co_active = systemctl_active ctl\<rparr>"

section \<open>Registration of runtimes\<close>

record config_write =
  cw_id :: string
  cw_path :: string
  cw_contents :: string
  cw_mode :: u32

fun duplicate_path :: "pkey list \<Rightarrow> config_write list \<Rightarrow> (string, unit) res" where
  "duplicate_path seen [] = Inr ()"
| "duplicate_path seen (w # ws) =
     then_check (require_absolute_path (cw_path w)) (\<lambda>_.
       if path_components (cw_path w) \<in> set seen then
         Inl (''runtime registration contains duplicate path: '' @ cw_path w)
       else duplicate_path (path_components (cw_path w) # seen) ws)"

fun write_configs :: "u32 \<Rightarrow> config_write list \<Rightarrow> host_fs \<Rightarrow> (string, nat) res \<times> host_fs" where
  "write_configs pid [] fs = (Inr 0, fs)"
| "write_configs pid (w # ws) fs =
     (case write_config_file pid (cw_path w) (cw_contents w) (cw_mode w) fs of
        (Inl e, fs') \<Rightarrow> (Inl e, fs')
      | (Inr _, fs') \<Rightarrow>
          (case write_configs pid ws fs' of
             (Inl e, fs'') \<Rightarrow> (Inl e, fs'')
           | (Inr n, fs'') \<Rightarrow> (Inr (Suc n), fs'')))"

definition apply_runtime_registration_plan ::
    "u32 \<Rightarrow> config_write list \<Rightarrow> host_fs \<Rightarrow> (string, nat) res \<times> host_fs" where
  "apply_runtime_registration_plan pid ws fs =
     (case duplicate_path [] ws of Inl e \<Rightarrow> (Inl e, fs) | Inr _ \<Rightarrow> write_configs pid ws fs)"

text \<open>The renderers of the Docker JSON and of the TOML are parameters.\<close>

definition plan_runtime_registration ::
    "(string \<Rightarrow> (string, string) res) \<Rightarrow> (string \<Rightarrow> (string, string) res) \<Rightarrow> string
     \<Rightarrow> string \<times> string \<Rightarrow> string \<times> string option \<Rightarrow> string \<Rightarrow> (string, config_write list) res" where
  "plan_runtime_registration docker containerd k3s docker_in containerd_in k3s_path =
     then_check (require_absolute_path (fst docker_in)) (\<lambda>_.
     then_check (require_absolute_path (fst containerd_in)) (\<lambda>_.
     then_check (require_absolute_path k3s_path) (\<lambda>_.
     then_check (docker (snd docker_in)) (\<lambda>d.
     then_check (containerd (case snd containerd_in of None \<Rightarrow> [] | Some t \<Rightarrow> t)) (\<lambda>c.
       Inr [\<lparr>cw_id = ''docker_daemon'', cw_path = fst docker_in, cw_contents = d, cw_mode = 0x1A4\<rparr>,
            \<lparr>cw_id = ''containerd_config'', cw_path = fst containerd_in, cw_contents = c, cw_mode = 0x1A4\<rparr>,
            \<lparr>cw_id = ''k3s_runtime_dropin'', cw_path = k3s_path, cw_contents = k3s, cw_mode = 0x1A4\<rparr>])))))"

section \<open>Arguments and defaults\<close>

datatype validate_mode = MdDryRun | MdApplyRuntimeRegistration | MdRestore

definition validate_host_usage :: string where
  "validate_host_usage =
     ''usage: apolysis-validate-host (--dry-run | --apply-runtime-registration | --restore) --output <dir>''"

definition set_validate_mode :: "validate_mode option \<Rightarrow> validate_mode \<Rightarrow> (string, validate_mode option) res" where
  "set_validate_mode mode next_mode =
     (if mode \<noteq> None then Inl (''expected exactly one mode'' @ [ch_nl] @ validate_host_usage)
      else Inr (Some next_mode))"

fun scan_validate_args ::
    "string list \<Rightarrow> validate_mode option \<Rightarrow> string option
     \<Rightarrow> (string, validate_mode option \<times> string option) res" where
  "scan_validate_args [] mode out = Inr (mode, out)"
| "scan_validate_args (a # as) mode out =
     (if a = ''--dry-run'' then
        then_check (set_validate_mode mode MdDryRun) (\<lambda>m. scan_validate_args as m out)
      else if a = ''--apply-runtime-registration'' then
        then_check (set_validate_mode mode MdApplyRuntimeRegistration) (\<lambda>m. scan_validate_args as m out)
      else if a = ''--restore'' then
        then_check (set_validate_mode mode MdRestore) (\<lambda>m. scan_validate_args as m out)
      else if a = ''--output'' then
        (case as of [] \<Rightarrow> Inr (mode, None) | d # as' \<Rightarrow> scan_validate_args as' mode (Some d))
      else Inl (''unknown argument: '' @ a @ [ch_nl] @ validate_host_usage))"

definition parse_validate_host_args :: "string list \<Rightarrow> (string, validate_mode \<times> string) res" where
  "parse_validate_host_args as =
     then_check (scan_validate_args as None None) (\<lambda>(mode, out).
       case mode of None \<Rightarrow> Inl (''missing mode'' @ [ch_nl] @ validate_host_usage)
       | Some m \<Rightarrow>
           (case out of None \<Rightarrow> Inl (''missing --output'' @ [ch_nl] @ validate_host_usage)
            | Some d \<Rightarrow> Inr (m, d)))"

definition default_host_backup_sources :: "backup_source list" where
  "default_host_backup_sources =
     map (\<lambda>(i, p). \<lparr>so_id = i, so_path = p\<rparr>)
       [(''docker_daemon'', ''/etc/docker/daemon.json''),
        (''containerd_config'', ''/etc/containerd/config.toml''),
        (''k3s_generated_containerd_config'', ''/var/lib/rancher/k3s/agent/etc/containerd/config.toml''),
        (''k3s_containerd_v3_template'', ''/var/lib/rancher/k3s/agent/etc/containerd/config-v3.toml.tmpl''),
        (''k3s_runtime_dropin'',
         ''/var/lib/rancher/k3s/agent/etc/containerd/config-v3.toml.d/99-apolysis-runtimes.toml''),
        (''docker_http_proxy_dropin'', ''/etc/systemd/system/docker.service.d/http-proxy.conf''),
        (''k3s_http_proxy_dropin'', ''/etc/systemd/system/k3s.service.d/http-proxy.conf'')]"

definition default_managed_service_inputs :: "managed_service_inputs list" where
  "default_managed_service_inputs =
     [\<lparr>ms_service_name = ''containerd.service'', ms_entry_ids = [''containerd_config'']\<rparr>,
      \<lparr>ms_service_name = ''docker.service'', ms_entry_ids = [''docker_daemon'', ''docker_http_proxy_dropin'']\<rparr>,
      \<lparr>ms_service_name = ''k3s.service'',
       ms_entry_ids = [''k3s_generated_containerd_config'', ''k3s_containerd_v3_template'',
         ''k3s_runtime_dropin'', ''k3s_http_proxy_dropin'']\<rparr>]"

definition default_validation_owned_paths :: "string list" where
  "default_validation_owned_paths = [''/run/apolysis-validation'', ''/var/lib/apolysis-validation'']"

text \<open>The host's own plan names only entries that its capture makes.\<close>

lemma default_inputs_known:
  "list_all (\<lambda>m. list_all (\<lambda>i. i \<in> set (map so_id default_host_backup_sources)) (ms_entry_ids m))
     default_managed_service_inputs"
  by code_simp

lemma default_names_distinct: "distinct (map (\<lambda>s. safe_backup_name (so_id s)) default_host_backup_sources)"
  by code_simp

end
