(* ===== verification/Host_Roundtrip.thy ===== *)
theory Host_Roundtrip
  imports Host_Restore
begin

text \<open>
  What a restoration achieves: the calls of the file system when they succeed, what an action
  of a plan leaves behind and what it leaves alone, a whole plan, and the way from the capture
  of a host back to it.
\<close>

section \<open>Calls that succeed\<close>

definition is_link :: "fnode option \<Rightarrow> bool" where
  "is_link n \<longleftrightarrow> (case n of Some (LinkNode _ _ _) \<Rightarrow> True | _ \<Rightarrow> False)"

lemma is_link_simps [simp]:
  "\<not> is_link None" "\<not> is_link (Some (FileNode b u g m))" "is_link (Some (LinkNode t u g))"
  "\<not> is_link (Some DirNode)"
  by (simp_all add: is_link_def)

lemma follow_no_link: "0 < n \<Longrightarrow> \<not> is_link (m k) \<Longrightarrow> follow n m k = Some k"
  by (cases n) (auto simp: is_link_def split: option.splits fnode.splits)

lemma final_no_link: "\<not> is_link (hf_nodes fs k) \<Longrightarrow> fs_final k fs = Inr k"
  by (simp add: fs_final_def follow_no_link)

lemma make_dirs_ok:
  "make_dirs ks fs = (Inr u, fs') \<Longrightarrow>
     hf_nodes fs' = (\<lambda>x. if hf_nodes fs x = None \<and> x \<in> set ks then Some DirNode else hf_nodes fs x)"
  by (induction ks arbitrary: fs)
    (auto split: option.splits fnode.splits sum.splits intro!: ext)

lemma set_tl_prefixes: "x \<in> set (tl (prefixes k)) \<longleftrightarrow> prefix x k \<and> x \<noteq> []"
  by (induction k arbitrary: x) (auto simp: prefix_Cons)

lemma create_dir_all_ok:
  "fs_create_dir_all k fs = (Inr u, fs') \<Longrightarrow>
     hf_nodes fs' = (\<lambda>x. if hf_nodes fs x = None \<and> prefix x k \<and> x \<noteq> [] then Some DirNode else hf_nodes fs x)"
  unfolding fs_create_dir_all_def by (drule make_dirs_ok) (simp add: set_tl_prefixes)

lemma write_ok:
  assumes "fs_write k b fs = (Inr u, fs')" "\<not> is_link (hf_nodes fs k)"
  shows "\<exists>u' g' m'. hf_nodes fs' = (hf_nodes fs)(k \<mapsto> FileNode b u' g' m')"
  using assms by (auto simp: fs_write_def final_no_link split: sum.splits option.splits fnode.splits if_splits)
    blast+

lemma open_file:
  assumes "hf_nodes fs k = Some (FileNode b u g m)" "fs_open k fs = Inr r"
  shows "r = (b, m)"
  using assms by (auto simp: fs_open_def final_no_link split: sum.splits)

lemma set_mode_ok:
  assumes "fs_set_mode k m fs = (Inr r, fs')" "hf_nodes fs k = Some (FileNode b u g m0)"
  shows "hf_nodes fs' = (hf_nodes fs)(k \<mapsto> FileNode b u g (m AND 0xFFF))"
  using assms by (auto simp: fs_set_mode_def final_no_link split: sum.splits)

lemma copy_ok:
  assumes "fs_copy a k fs = (Inr r, fs')" "hf_nodes fs a = Some (FileNode b u g m)"
    "\<not> is_link (hf_nodes fs k)"
  shows "\<exists>u' g'. hf_nodes fs' = (hf_nodes fs)(k \<mapsto> FileNode b u' g' (m AND 0xFFF))"
proof -
  from assms(1) obtain b' m' fs1 r1 where o: "fs_open a fs = Inr (b', m')"
    and w: "fs_write k b' fs = (Inr r1, fs1)" and s: "fs_set_mode k m' fs1 = (Inr r, fs')"
    by (auto simp: fs_copy_def split: sum.splits prod.splits)
  from open_file [OF assms(2) o] have "b' = b" "m' = m" by simp_all
  from write_ok [OF w assms(3)] obtain u' g' m1 where
    n: "hf_nodes fs1 = (hf_nodes fs)(k \<mapsto> FileNode b' u' g' m1)" by blast
  then have "hf_nodes fs1 k = Some (FileNode b' u' g' m1)" by simp
  from set_mode_ok [OF s this] n show ?thesis
    using \<open>b' = b\<close> \<open>m' = m\<close> by auto
qed

lemma rename_ok:
  assumes "fs_rename a k fs = (Inr r, fs')" "a \<noteq> k"
  shows "hf_nodes fs a \<noteq> None \<and> hf_nodes fs' = (hf_nodes fs)(a := None, k := hf_nodes fs a)"
  using assms by (auto simp: fs_rename_def fun_upd_def split: sum.splits option.splits if_splits)

lemma try_ok:
  "fs_try m r c = (Inr x, fs') \<longleftrightarrow> (\<exists>fs1. r = (Inr (), fs1) \<and> c fs1 = (Inr x, fs'))"
  by (cases r) (auto simp: fs_try_def split: sum.splits)

lemma allowed_not_found [simp]: "allowed c k fs \<noteq> Inl NotFound"
  by (simp add: allowed_def split: option.splits)

text \<open>A step that may return with an error, when the whole returns without one.\<close>

lemma step_ok:
  "(case r of (Inl e, s) \<Rightarrow> (Inl e, s) | (Inr _, s) \<Rightarrow> c s) = (Inr x, s') \<longleftrightarrow>
     (\<exists>y s1. r = (Inr y, s1) \<and> c s1 = (Inr x, s'))"
  by (auto split: prod.splits sum.splits)

lemma result_ok:
  "(case v of Inl e \<Rightarrow> (Inl e, s) | Inr y \<Rightarrow> d y) = (Inr x, s') \<longleftrightarrow> (\<exists>y. v = Inr y \<and> d y = (Inr x, s'))"
  by (auto split: sum.splits)

lemma guard_ok: "(if P then (Inl e, s) else z) = (Inr x, s') \<longleftrightarrow> \<not> P \<and> z = (Inr x, s')"
  by simp

lemma put_in_place_ok:
  "put_in_place w t p c fs = (Inr x, fs') \<longleftrightarrow>
     (\<exists>fs1. fs_rename (path_components t) (path_components p) fs = (Inr (), fs1) \<and> c fs1 = (Inr x, fs'))"
  by (auto simp: put_in_place_def split: sum.splits prod.splits)

lemma set_mode_if_ok:
  assumes "set_mode_if mode p fs = (Inr r, fs')" "hf_nodes fs (path_components p) = Some (FileNode b u g m)"
  shows "hf_nodes fs' = (hf_nodes fs)(path_components p \<mapsto>
     FileNode b u g (case mode of None \<Rightarrow> m | Some x \<Rightarrow> x AND 0xFFF))"
proof (cases mode)
  case None
  with assms show ?thesis by (auto simp: set_mode_if_def intro!: ext)
next
  case (Some x)
  with assms show ?thesis using set_mode_ok [of "path_components p" x fs r fs'] by (auto simp: set_mode_if_def)
qed

text \<open>The owner after \<open>set_owner_if_needed\<close>, and the mode it leaves.\<close>

definition owned_file :: "u32 option \<Rightarrow> u32 option \<Rightarrow> fnode \<Rightarrow> fnode" where
  "owned_file uid gid n =
     (case (uid, gid) of
        (Some u, Some g) \<Rightarrow>
          (case n of
             FileNode b u' g' m \<Rightarrow> FileNode b u g (if u' = u \<and> g' = g then m else drop_suid m)
           | LinkNode t _ _ \<Rightarrow> LinkNode t u g
           | DirNode \<Rightarrow> DirNode)
      | _ \<Rightarrow> n)"

lemma set_owner_ok:
  assumes "set_owner_if_needed p uid gid through fs = (Inr r, fs')"
    "hf_nodes fs (path_components p) = Some n" "through \<longrightarrow> \<not> is_link (Some n)"
  shows "hf_nodes fs' = (hf_nodes fs)(path_components p \<mapsto> owned_file uid gid n)"
proof (cases "uid = None \<or> gid = None")
  case True
  with assms show ?thesis
    by (auto simp: set_owner_if_needed_def owned_file_def split: option.splits intro!: ext)
next
  case False
  then obtain u g where ug: "uid = Some u" "gid = Some g" by auto
  have f: "(if through then fs_final (path_components p) fs else Inr (path_components p))
      = Inr (path_components p)"
    using assms(2,3) by (auto simp: final_no_link)
  have stat: "(if through then fs_stat (path_components p) fs else fs_lstat (path_components p) fs)
      \<in> {Inr n} \<union> Inl ` UNIV"
    using assms(2) f by (auto simp: fs_stat_def fs_lstat_def split: sum.splits if_splits)
  show ?thesis
    using assms(1,2) ug f stat
    by (cases n)
      (auto simp: set_owner_if_needed_def owned_file_def fs_chown_def Let_def
        split: sum.splits if_splits prod.splits intro!: ext)
qed

section \<open>What an action disturbs\<close>

definition parent_key :: "string \<Rightarrow> pkey" where
  "parent_key p = path_components (absolute_parent p)"

definition temp_key :: "u32 \<Rightarrow> string \<Rightarrow> pkey" where
  "temp_key pid p =
     (case restore_temp_path pid (absolute_parent p) p of
        Inl _ \<Rightarrow> path_components p | Inr t \<Rightarrow> path_components t)"

fun action_target :: "restore_action \<Rightarrow> pkey option" where
  "action_target (RestoreRegularFile _ _ to _ _ _) = Some (path_components to)"
| "action_target (RestoreSymlink _ _ link _ _) = Some (path_components link)"
| "action_target (EnsureMissing _ p) = Some (path_components p)"
| "action_target (RemoveValidationPath p) = Some (path_components p)"
| "action_target (RestoreServiceState _ _ _) = None"

fun disturbs :: "u32 \<Rightarrow> restore_action \<Rightarrow> pkey \<Rightarrow> bool" where
  "disturbs pid (RestoreRegularFile _ _ to _ _ _) x =
     (x = path_components to \<or> x = temp_key pid to \<or> prefix x (parent_key to))"
| "disturbs pid (RestoreSymlink _ _ link _ _) x =
     (prefix (path_components link) x \<or> prefix x (parent_key link))"
| "disturbs pid (EnsureMissing _ p) x = prefix (path_components p) x"
| "disturbs pid (RemoveValidationPath p) x = prefix (path_components p) x"
| "disturbs pid (RestoreServiceState _ _ _) x = False"

lemma remove_ok:
  assumes "remove_path_if_present p fs = (Inr u, fs')"
  shows "hf_nodes fs' (path_components p) = None"
    and "\<not> prefix (path_components p) x \<Longrightarrow> hf_nodes fs' x = hf_nodes fs x"
  using assms
  by (auto simp: remove_path_if_present_def fs_lstat_def fs_remove_dir_all_def fs_remove_file_def Let_def
      split: sum.splits io_error.splits fnode.splits option.splits prod.splits)

lemma symlink_ok:
  assumes "restore_symlink t link u g fs = (Inr r, fs')"
  shows "\<exists>u' g'. hf_nodes fs' (path_components link) = Some (owned_file u g (LinkNode t u' g'))"
    and "\<not> prefix (path_components link) x \<Longrightarrow> \<not> prefix x (parent_key link) \<Longrightarrow>
      hf_nodes fs' x = hf_nodes fs x"
proof -
  let ?k = "path_components link"
  from assms obtain fs1 fs2 fs3 where
    d: "fs_create_dir_all (parent_key link) fs = (Inr (), fs1)"
    and rm: "remove_path_if_present link fs1 = (Inr (), fs2)"
    and l: "fs_symlink t ?k fs2 = (Inr (), fs3)"
    and o: "set_owner_if_needed link u g False fs3 = (Inr r, fs')"
    by (auto simp: restore_symlink_def parent_key_def Let_def try_ok step_ok result_ok)
  from l have n3: "hf_nodes fs3 = (hf_nodes fs2)(?k \<mapsto> LinkNode t (hf_uid fs2) (hf_gid fs2))"
    by (auto simp: fs_symlink_def split: sum.splits option.splits)
  then have "hf_nodes fs3 ?k = Some (LinkNode t (hf_uid fs2) (hf_gid fs2))" by simp
  from set_owner_ok [OF o this] n3 have n: "hf_nodes fs' =
      (hf_nodes fs2)(?k \<mapsto> owned_file u g (LinkNode t (hf_uid fs2) (hf_gid fs2)))" by simp
  then show "\<exists>u' g'. hf_nodes fs' ?k = Some (owned_file u g (LinkNode t u' g'))" by auto
  assume "\<not> prefix ?k x" "\<not> prefix x (parent_key link)"
  with n remove_ok(2) [OF rm] create_dir_all_ok [OF d] show "hf_nodes fs' x = hf_nodes fs x" by auto
qed

lemma regular_file_ok:
  assumes "restore_regular_file pid root from to u g mode fs = (Inr r, fs')"
    "hf_nodes fs (path_components (path_join root from)) = Some (FileNode b u0 g0 m0)"
    "\<not> is_link (hf_nodes fs (temp_key pid to))" "temp_key pid to \<noteq> path_components to"
  shows "\<exists>u' g'. hf_nodes fs' (path_components to) =
      Some (owned_file u g (FileNode b u' g' (case mode of None \<Rightarrow> m0 AND 0xFFF | Some m \<Rightarrow> m AND 0xFFF)))"
    and "\<not> disturbs pid (RestoreRegularFile i from to u g mode) x \<Longrightarrow> hf_nodes fs' x = hf_nodes fs x"
proof -
  let ?k = "path_components to" and ?B = "path_components (path_join root from)"
  let ?m = "case mode of None \<Rightarrow> m0 AND 0xFFF | Some m \<Rightarrow> m AND 0xFFF"
  from assms(1) obtain temp fs1 fs2 fs3 fs4 fs5 where
    d: "fs_create_dir_all (parent_key to) fs = (Inr (), fs1)"
    and t: "restore_temp_path pid (absolute_parent to) to = Inr temp"
    and c: "fs_copy ?B (path_components temp) fs1 = (Inr (), fs2)"
    and m: "set_mode_if mode temp fs2 = (Inr (), fs3)"
    and mv: "fs_rename (path_components temp) ?k fs3 = (Inr (), fs4)"
    and m': "set_mode_if mode to fs4 = (Inr (), fs5)"
    and o: "set_owner_if_needed to u g True fs5 = (Inr r, fs')"
    by (auto simp: restore_regular_file_def parent_key_def Let_def try_ok put_in_place_ok result_ok guard_ok)
  have tk: "temp_key pid to = path_components temp" by (simp add: temp_key_def t)
  note n1 = create_dir_all_ok [OF d]
  from n1 assms(2) have "hf_nodes fs1 ?B = Some (FileNode b u0 g0 m0)" by simp
  moreover from n1 assms(3) tk have "\<not> is_link (hf_nodes fs1 (path_components temp))" by simp
  ultimately obtain u' g' where
    n2: "hf_nodes fs2 = (hf_nodes fs1)(path_components temp \<mapsto> FileNode b u' g' (m0 AND 0xFFF))"
    using copy_ok [OF c] by blast
  then have "hf_nodes fs2 (path_components temp) = Some (FileNode b u' g' (m0 AND 0xFFF))" by simp
  from set_mode_if_ok [OF m this] n2
  have n3: "hf_nodes fs3 = (hf_nodes fs1)(path_components temp \<mapsto> FileNode b u' g' ?m)" by simp
  from rename_ok [OF mv] assms(4) tk n3
  have n4: "hf_nodes fs4 = (hf_nodes fs1)(path_components temp := None, ?k \<mapsto> FileNode b u' g' ?m)"
    by (auto intro!: ext)
  then have "hf_nodes fs4 ?k = Some (FileNode b u' g' ?m)" by simp
  from set_mode_if_ok [OF m' this] n4
  have n5: "hf_nodes fs5 = (hf_nodes fs1)(path_components temp := None, ?k \<mapsto> FileNode b u' g' ?m)"
    by (auto split: option.splits)
  then have "hf_nodes fs5 ?k = Some (FileNode b u' g' ?m)" by simp
  from set_owner_ok [OF o this] n5
  have n: "hf_nodes fs' = (hf_nodes fs1)(path_components temp := None,
      ?k \<mapsto> owned_file u g (FileNode b u' g' ?m))" by simp
  then show "\<exists>u' g'. hf_nodes fs' ?k = Some (owned_file u g (FileNode b u' g' ?m))" by auto
  assume "\<not> disturbs pid (RestoreRegularFile i from to u g mode) x"
  with n n1 tk show "hf_nodes fs' x = hf_nodes fs x" by simp
qed

section \<open>What a plan achieves\<close>

text \<open>The keys an action reads or fills before its place: they have to be left alone before it.\<close>

fun action_needs :: "u32 \<Rightarrow> string \<Rightarrow> restore_action \<Rightarrow> pkey list" where
  "action_needs pid root (RestoreRegularFile _ from to _ _ _) =
     [path_components (path_join root from), temp_key pid to]"
| "action_needs pid root _ = []"

text \<open>No action disturbs what a later one needs or an earlier one has made.\<close>

fun independent :: "u32 \<Rightarrow> string \<Rightarrow> restore_action list \<Rightarrow> bool" where
  "independent pid root [] = True"
| "independent pid root (a # as) =
     (list_all (\<lambda>b. list_all (\<lambda>x. \<not> disturbs pid a x) (action_needs pid root b)
        \<and> (case action_target a of None \<Rightarrow> True | Some x \<Rightarrow> \<not> disturbs pid b x)) as
      \<and> independent pid root as)"

text \<open>The backup copy is a file and no link lies where the temporary file goes.\<close>

fun action_ready :: "u32 \<Rightarrow> string \<Rightarrow> host_fs \<Rightarrow> restore_action \<Rightarrow> bool" where
  "action_ready pid root fs (RestoreRegularFile _ from to _ _ _) =
     ((case hf_nodes fs (path_components (path_join root from)) of Some (FileNode _ _ _ _) \<Rightarrow> True | _ \<Rightarrow> False)
      \<and> \<not> is_link (hf_nodes fs (temp_key pid to)) \<and> temp_key pid to \<noteq> path_components to)"
| "action_ready pid root fs _ = True"

definition owner_is :: "u32 option \<Rightarrow> u32 option \<Rightarrow> u32 \<Rightarrow> u32 \<Rightarrow> bool" where
  "owner_is uid gid u g \<longleftrightarrow> (case (uid, gid) of (Some u', Some g') \<Rightarrow> u = u' \<and> g = g' | _ \<Rightarrow> True)"

lemma owned_file_cases:
  obtains x y m' where "owned_file uid gid (FileNode b u g m) = FileNode b x y m'" "owner_is uid gid x y"
    "m' = m \<or> m' = drop_suid m"
  by (cases uid; cases gid) (auto simp: owned_file_def owner_is_def)

lemma owned_link_cases:
  obtains x y where "owned_file uid gid (LinkNode t u g) = LinkNode t x y" "owner_is uid gid x y"
  by (cases uid; cases gid) (auto simp: owned_file_def owner_is_def)

text \<open>
  What an action promises of its place, given the file system before the plan: the contents of
  the backup copy under the owner and mode of the action, a link, or nothing.
\<close>

fun achieved :: "string \<Rightarrow> host_fs \<Rightarrow> restore_action \<Rightarrow> host_fs \<Rightarrow> bool" where
  "achieved root fs (RestoreRegularFile _ from to u g mode) fs' =
     (case (hf_nodes fs (path_components (path_join root from)), hf_nodes fs' (path_components to)) of
        (Some (FileNode b _ _ m0), Some (FileNode b' u' g' m')) \<Rightarrow>
          b' = b \<and> owner_is u g u' g'
          \<and> (let m = (case mode of None \<Rightarrow> m0 | Some x \<Rightarrow> x) AND 0xFFF in m' = m \<or> m' = drop_suid m)
      | _ \<Rightarrow> False)"
| "achieved root fs (RestoreSymlink _ t link u g) fs' =
     (case hf_nodes fs' (path_components link) of
        Some (LinkNode t' u' g') \<Rightarrow> t' = t \<and> owner_is u g u' g' | _ \<Rightarrow> False)"
| "achieved root fs (EnsureMissing _ p) fs' = (hf_nodes fs' (path_components p) = None)"
| "achieved root fs (RemoveValidationPath p) fs' = (hf_nodes fs' (path_components p) = None)"
| "achieved root fs (RestoreServiceState _ _ _) fs' = True"

lemma action_frame:
  assumes "execute_action pid root C a (fs, c) = (Inr u, fs', c')" "action_ready pid root fs a"
    "\<not> disturbs pid a x"
  shows "hf_nodes fs' x = hf_nodes fs x"
proof (cases a)
  case (RestoreRegularFile i src to uid gid mode)
  with assms show ?thesis
    using regular_file_ok(2) [of pid root src to uid gid mode fs u fs' _ _ _ _ i x]
    by (auto simp: execute_action_def split: prod.splits option.splits fnode.splits)
next
  case (RestoreSymlink i t link uid gid)
  with assms show ?thesis
    using symlink_ok(2) [of t link uid gid fs u fs' x]
    by (auto simp: execute_action_def split: prod.splits)
next
  case (EnsureMissing i p)
  with assms show ?thesis
    using remove_ok(2) [of p fs u fs' x] by (auto simp: execute_action_def split: prod.splits)
next
  case (RemoveValidationPath p)
  with assms show ?thesis
    using remove_ok(2) [of p fs u fs' x] by (auto simp: execute_action_def split: prod.splits)
next
  case (RestoreServiceState name active unit_file)
  with assms show ?thesis by (auto simp: execute_action_def split: prod.splits sum.splits)
qed

lemma action_achieves:
  assumes "execute_action pid root C a (fs, c) = (Inr u, fs', c')" "action_ready pid root fs a"
  shows "achieved root fs a fs'"
proof (cases a)
  case (RestoreRegularFile i src to uid gid mode)
  with assms(2) obtain b u0 g0 m0 where
    B: "hf_nodes fs (path_components (path_join root src)) = Some (FileNode b u0 g0 m0)"
    and t: "\<not> is_link (hf_nodes fs (temp_key pid to))" "temp_key pid to \<noteq> path_components to"
    by (auto split: option.splits fnode.splits)
  from assms(1) RestoreRegularFile have "restore_regular_file pid root src to uid gid mode fs = (Inr u, fs')"
    by (auto simp: execute_action_def split: prod.splits)
  from regular_file_ok(1) [OF this B t] obtain u' g' where
    n: "hf_nodes fs' (path_components to) =
      Some (owned_file uid gid (FileNode b u' g' (case mode of None \<Rightarrow> m0 AND 0xFFF | Some m \<Rightarrow> m AND 0xFFF)))"
    by blast
  have m: "(case mode of None \<Rightarrow> m0 AND 0xFFF | Some m \<Rightarrow> m AND 0xFFF)
      = (case mode of None \<Rightarrow> m0 | Some x \<Rightarrow> x) AND 0xFFF"
    by (cases mode) simp_all
  show ?thesis
    by (rule owned_file_cases [of uid gid b u' g' "(case mode of None \<Rightarrow> m0 | Some x \<Rightarrow> x) AND 0xFFF"])
      (simp add: RestoreRegularFile B n m Let_def)
next
  case (RestoreSymlink i t link uid gid)
  with assms(1) have "restore_symlink t link uid gid fs = (Inr u, fs')"
    by (auto simp: execute_action_def split: prod.splits)
  from symlink_ok(1) [OF this] obtain u' g' where
    n: "hf_nodes fs' (path_components link) = Some (owned_file uid gid (LinkNode t u' g'))" by blast
  show ?thesis
    by (rule owned_link_cases [of uid gid t u' g']) (simp add: RestoreSymlink n)
next
  case (EnsureMissing i p)
  with assms(1) show ?thesis
    using remove_ok(1) [of p fs u fs'] by (auto simp: execute_action_def split: prod.splits)
next
  case (RemoveValidationPath p)
  with assms(1) show ?thesis
    using remove_ok(1) [of p fs u fs'] by (auto simp: execute_action_def split: prod.splits)
qed simp

text \<open>Only the needs of an action and its place matter to readiness and achievement.\<close>

lemma ready_cong:
  "\<forall>x \<in> set (action_needs pid root a). hf_nodes fs' x = hf_nodes fs x \<Longrightarrow>
   action_ready pid root fs' a = action_ready pid root fs a"
  by (cases a) auto

lemma achieved_cong_before:
  "\<forall>x \<in> set (action_needs pid root a). hf_nodes fs1 x = hf_nodes fs x \<Longrightarrow>
   achieved root fs1 a fs' = achieved root fs a fs'"
  by (cases a) auto

lemma achieved_cong_after:
  "(case action_target a of None \<Rightarrow> True | Some x \<Rightarrow> hf_nodes fs2 x = hf_nodes fs1 x) \<Longrightarrow>
   achieved root fs a fs1 \<Longrightarrow> achieved root fs a fs2"
  by (cases a) auto

lemma actions_achieve:
  assumes "execute_actions pid root C as (fs, c) = (Inr n, fs', c')"
    "independent pid root as" "list_all (action_ready pid root fs) as"
  shows "n = length as \<and> list_all (\<lambda>a. achieved root fs a fs') as
    \<and> (\<forall>x. list_all (\<lambda>a. \<not> disturbs pid a x) as \<longrightarrow> hf_nodes fs' x = hf_nodes fs x)"
  using assms
proof (induction as arbitrary: fs c n)
  case (Cons a as)
  from Cons.prems(1) obtain u fs1 c1 n1 where
    e: "execute_action pid root C a (fs, c) = (Inr u, fs1, c1)"
    and es: "execute_actions pid root C as (fs1, c1) = (Inr n1, fs', c')" and n: "n = Suc n1"
    by (auto split: prod.splits sum.splits)
  have ra: "action_ready pid root fs a" using Cons.prems(3) by simp
  note frame = action_frame [OF e ra]
  have needs: "\<forall>b \<in> set as. \<forall>x \<in> set (action_needs pid root b). hf_nodes fs1 x = hf_nodes fs x"
    using Cons.prems(2) frame by (auto simp: list_all_iff)
  have "action_ready pid root fs1 b" if "b \<in> set as" for b
    using ready_cong [of pid root b fs1 fs] needs that Cons.prems(3) by (simp add: list_all_iff)
  then have "list_all (action_ready pid root fs1) as" by (simp add: list_all_iff)
  from Cons.IH [OF es _ this] Cons.prems(2) have ih: "n1 = length as"
    "list_all (\<lambda>b. achieved root fs1 b fs') as"
    "\<forall>x. list_all (\<lambda>b. \<not> disturbs pid b x) as \<longrightarrow> hf_nodes fs' x = hf_nodes fs1 x" by auto
  from Cons.prems(2) have "case action_target a of None \<Rightarrow> True
      | Some x \<Rightarrow> list_all (\<lambda>b. \<not> disturbs pid b x) as"
    by (auto simp: list_all_iff split: option.splits)
  with ih(3) have "case action_target a of None \<Rightarrow> True | Some x \<Rightarrow> hf_nodes fs' x = hf_nodes fs1 x"
    by (auto split: option.splits)
  from achieved_cong_after [OF this action_achieves [OF e ra]]
  have "achieved root fs a fs'" .
  moreover have "achieved root fs b fs'" if "b \<in> set as" for b
    using achieved_cong_before [of pid root b fs1 fs fs'] needs that ih(2) by (simp add: list_all_iff)
  ultimately show ?case using ih n frame by (auto simp: list_all_iff)
qed simp

section \<open>Loops\<close>

lemma try_map_ok: "try_map f xs = Inr ys \<Longrightarrow> list_all2 (\<lambda>x y. f x = Inr y) xs ys"
  by (induction xs arbitrary: ys) (auto split: sum.splits)

lemma execute_ok:
  assumes "execute_restore_plan sha pid C root m services plan (fs, c) = (Inr n, fs', c')"
  shows "verify_restore_inputs sha fs root m services plan = Inr ()
     \<and> execute_actions pid root C (rp_actions plan) (fs, c) = (Inr n, fs', c')"
  using assms by (auto simp: execute_restore_plan_def split: sum.splits)

section \<open>From a capture back to it\<close>

definition source_key :: "backup_source \<Rightarrow> pkey" where
  "source_key s = path_components (so_path s)"

definition copy_key :: "string \<Rightarrow> backup_source \<Rightarrow> pkey" where
  "copy_key out s = path_components (path_join out (path_join ''files'' (safe_backup_name (so_id s))))"

text \<open>What an entry says of the node it was made from.\<close>

definition describes :: "(string \<Rightarrow> string) \<Rightarrow> backup_source \<Rightarrow> backup_entry \<Rightarrow> fnode option \<Rightarrow> bool" where
  "describes sha s e n \<longleftrightarrow>
     bk_original_path e = so_path s
     \<and> (case n of
          None \<Rightarrow> bk_kind e = BkMissing
        | Some (LinkNode t u g) \<Rightarrow>
            bk_kind e = BkSymlink \<and> bk_symlink_target e = Some t \<and> bk_uid e = Some u \<and> bk_gid e = Some g
        | Some (FileNode b u g m) \<Rightarrow>
            bk_kind e = BkRegularFile \<and> bk_sha256 e = Some (sha b) \<and> bk_uid e = Some u \<and> bk_gid e = Some g
            \<and> bk_mode e = Some (m AND 0xFFF)
        | Some DirNode \<Rightarrow> False)"

text \<open>The backup is kept apart from what it backs up.\<close>

definition backup_apart :: "string \<Rightarrow> host_fs \<Rightarrow> backup_source list \<Rightarrow> bool" where
  "backup_apart out fs ss \<longleftrightarrow>
     list_all (\<lambda>s. \<not> is_link (hf_nodes fs (copy_key out s))
       \<and> \<not> prefix (source_key s) (path_components (path_join out ''files''))
       \<and> source_key s \<notin> set (map (copy_key out) ss)) ss"

lemma read_file:
  "hf_nodes fs k = Some (FileNode b u g m) \<Longrightarrow> fs_read k fs = Inr x \<Longrightarrow> x = b"
  by (auto simp: fs_read_def map_sum_def dest: open_file split: sum.splits)

lemma capture_source_ok:
  assumes "capture_source sha out s fs = (Inr e, fs')" "\<not> is_link (hf_nodes fs (copy_key out s))"
  shows "describes sha s e (hf_nodes fs (source_key s))"
    and "x \<noteq> copy_key out s \<Longrightarrow> hf_nodes fs' x = hf_nodes fs x"
    and "\<not> is_link (hf_nodes fs' (copy_key out s))"
proof -
  have lstat: "fs_lstat (source_key s) fs = Inr n \<Longrightarrow> hf_nodes fs (source_key s) = Some n" for n
    by (auto simp: fs_lstat_def split: sum.splits option.splits)
  have nf: "fs_lstat (source_key s) fs = Inl NotFound \<Longrightarrow> hf_nodes fs (source_key s) = None"
    by (auto simp: fs_lstat_def split: sum.splits option.splits)
  have rl: "fs_read_link (source_key s) fs = Inr t \<Longrightarrow> hf_nodes fs (source_key s) = Some (LinkNode t' u g)
      \<Longrightarrow> t' = t" for t t' u g
    by (auto simp: fs_read_link_def split: sum.splits)
  have "describes sha s e (hf_nodes fs (source_key s))
      \<and> (x \<noteq> copy_key out s \<longrightarrow> hf_nodes fs' x = hf_nodes fs x) \<and> \<not> is_link (hf_nodes fs' (copy_key out s))"
    for x
  proof (cases "fs_lstat (source_key s) fs")
    case (Inl err)
    with assms(1) have "e = missing_entry s" "fs' = fs" "err = NotFound"
      by (cases err; simp add: capture_source_def Let_def source_key_def)+
    with Inl nf assms(2) show ?thesis by (simp add: describes_def missing_entry_def)
  next
    case (Inr n)
    note node = lstat [OF Inr]
    show ?thesis
    proof (cases n)
      case (FileNode b u g md)
      with assms(1) Inr obtain y r where y: "fs_read (source_key s) fs = Inr y"
        and w: "fs_write (copy_key out s) y fs = (Inr r, fs')"
        and e: "e = (missing_entry s)\<lparr>bk_kind := BkRegularFile,
             bk_relative_path := Some (path_join ''files'' (safe_backup_name (so_id s))),
             bk_sha256 := Some (sha y), bk_uid := Some u, bk_gid := Some g, bk_mode := Some (md AND 0xFFF)\<rparr>"
        by (auto simp: capture_source_def Let_def source_key_def copy_key_def split: sum.splits prod.splits)
      from read_file [OF _ y] node FileNode have "y = b" by simp
      with write_ok [OF w assms(2)] e node FileNode show ?thesis
        by (auto simp: describes_def missing_entry_def)
    next
      case (LinkNode t u g)
      with assms(1) Inr obtain t' where t: "fs_read_link (source_key s) fs = Inr t'" and "fs' = fs"
        "e = (missing_entry s)\<lparr>bk_kind := BkSymlink, bk_symlink_target := Some t', bk_uid := Some u,
             bk_gid := Some g, bk_mode := Some 0x1FF\<rparr>"
        by (auto simp: capture_source_def Let_def source_key_def split: sum.splits)
      with rl [OF t] node LinkNode assms(2) show ?thesis by (simp add: describes_def missing_entry_def)
    next
      case DirNode
      with assms(1) Inr show ?thesis by (simp add: capture_source_def Let_def source_key_def)
    qed
  qed
  then show "describes sha s e (hf_nodes fs (source_key s))"
    "x \<noteq> copy_key out s \<Longrightarrow> hf_nodes fs' x = hf_nodes fs x" "\<not> is_link (hf_nodes fs' (copy_key out s))"
    by blast+
qed

lemma capture_sources_ok:
  assumes "capture_sources sha out ss fs = (Inr es, fs')"
    "\<forall>s \<in> set ss. \<not> is_link (hf_nodes fs (copy_key out s)) \<and> source_key s \<notin> copy_key out ` set ss"
  shows "list_all2 (\<lambda>s e. describes sha s e (hf_nodes fs (source_key s))) ss es"
  using assms
proof (induction ss arbitrary: fs es)
  case (Cons s ss)
  from Cons.prems(1) obtain e fs1 es1 where e: "capture_source sha out s fs = (Inr e, fs1)"
    and es: "capture_sources sha out ss fs1 = (Inr es1, fs')" "es = e # es1"
    by (auto split: prod.splits sum.splits)
  have nl: "\<not> is_link (hf_nodes fs (copy_key out s))" using Cons.prems(2) by simp
  note ok = capture_source_ok [OF e nl]
  have "\<not> is_link (hf_nodes fs1 (copy_key out s'))" if "s' \<in> set ss" for s'
    using ok(2) [of "copy_key out s'"] ok(3) Cons.prems(2) that
    by (cases "copy_key out s' = copy_key out s") auto
  with Cons.prems(2) have "list_all2 (\<lambda>s e. describes sha s e (hf_nodes fs1 (source_key s))) ss es1"
    by (intro Cons.IH [OF es(1)]) auto
  moreover have "hf_nodes fs1 (source_key s') = hf_nodes fs (source_key s')" if "s' \<in> set ss" for s'
    using ok(2) Cons.prems(2) that by auto
  ultimately have "list_all2 (\<lambda>s e. describes sha s e (hf_nodes fs (source_key s))) ss es1"
    by (auto simp: list_all2_conv_all_nth)
  with ok(1) es(2) show ?case by simp
qed simp

lemma manifest_describes:
  assumes "capture_backup_manifest sha out ss fs = (Inr m, fs')" "backup_apart out fs ss"
  shows "mf_schema_version m = 1
     \<and> list_all2 (\<lambda>s e. describes sha s e (hf_nodes fs (source_key s))) ss (mf_entries m)"
proof -
  from assms(1) obtain fs1 es where
    d: "fs_create_dir_all (path_components (path_join out ''files'')) fs = (Inr (), fs1)"
    and es: "capture_sources sha out ss fs1 = (Inr es, fs')" "m = \<lparr>mf_schema_version = 1, mf_entries = es\<rparr>"
    by (auto simp: capture_backup_manifest_def split: prod.splits sum.splits)
  note n1 = create_dir_all_ok [OF d]
  have "\<forall>s \<in> set ss. \<not> is_link (hf_nodes fs1 (copy_key out s)) \<and> source_key s \<notin> copy_key out ` set ss"
    using assms(2) by (auto simp: n1 backup_apart_def list_all_iff)
  from capture_sources_ok [OF es(1) this]
  have "list_all2 (\<lambda>s e. describes sha s e (hf_nodes fs1 (source_key s))) ss es" .
  moreover have "hf_nodes fs1 (source_key s) = hf_nodes fs (source_key s)" if "s \<in> set ss" for s
    using assms(2) that by (auto simp: n1 backup_apart_def list_all_iff)
  ultimately show ?thesis using es(2) by (auto simp: list_all2_conv_all_nth)
qed

text \<open>
  What is at a source again, compared with what was captured. The set-user-id and set-group-id
  bits are left out: a change of owner takes them away again.
\<close>

definition source_restored :: "(string \<Rightarrow> string) \<Rightarrow> fnode option \<Rightarrow> fnode option \<Rightarrow> bool" where
  "source_restored sha old new \<longleftrightarrow>
     (case old of
        None \<Rightarrow> new = None
      | Some (LinkNode t u g) \<Rightarrow> new = Some (LinkNode t u g)
      | Some (FileNode b u g m) \<Rightarrow>
          (case new of
             Some (FileNode b' u' g' m') \<Rightarrow>
               sha b' = sha b \<and> u' = u \<and> g' = g \<and> (m AND 0xC00 = 0 \<longrightarrow> m' = m AND 0xFFF)
           | _ \<Rightarrow> False)
      | Some DirNode \<Rightarrow> False)"

lemma drop_suid_plain:
  fixes m :: u32
  assumes "m AND 0xC00 = 0"
  shows "drop_suid (m AND 0xFFF) = m AND 0xFFF"
proof -
  have clear: "x AND NOT y = x" if "x AND y = 0" for x y :: u32
    using that by (simp add: bit_eq_iff bit_simps) blast
  have "(m AND 0xFFF) AND 0x800 = 0" "(m AND 0xFFF) AND 0x400 = 0"
    using arg_cong [OF assms, of "\<lambda>x. x AND 0x800"] arg_cong [OF assms, of "\<lambda>x. x AND 0x400"]
    by (simp_all add: and.assoc)
  moreover have "x AND - 2049 = x" if "x AND 0x800 = 0" for x :: u32
    using clear [OF that] by simp
  moreover have "x AND - 1025 = x" if "x AND 0x400 = 0" for x :: u32
    using clear [OF that] by simp
  ultimately show ?thesis by (simp add: drop_suid_def Let_def)
qed

lemma entry_restores:
  assumes d: "describes sha s e n" and a: "entry_action sha root fs1 e = Inr a"
    and f: "action_ready pid root fs1 a" and t: "achieved root fs1 a fs2"
  shows "source_restored sha n (hf_nodes fs2 (source_key s))"
proof (cases n)
  case None
  with d a t show ?thesis
    by (auto simp: describes_def entry_action_def source_restored_def source_key_def)
next
  case (Some node)
  show ?thesis
  proof (cases node)
    case (LinkNode l u g)
    with Some d a t show ?thesis
      by (auto simp: describes_def entry_action_def source_restored_def source_key_def owner_is_def
          split: option.splits fnode.splits)
  next
    case DirNode
    with Some d show ?thesis by (simp add: describes_def)
  next
    case (FileNode b u g m)
    with Some d have e: "bk_kind e = BkRegularFile" "bk_sha256 e = Some (sha b)" "bk_uid e = Some u"
        "bk_gid e = Some g" "bk_mode e = Some (m AND 0xFFF)" "bk_original_path e = so_path s"
      by (simp_all add: describes_def)
    with a obtain rel where v: "verify_backup_copy sha root fs1 e rel = Inr ()"
      and act: "a = RestoreRegularFile (bk_id e) rel (so_path s) (Some u) (Some g) (Some (m AND 0xFFF))"
      by (auto simp: entry_action_def split: option.splits sum.splits)
    from f act obtain b1 u1 g1 m1 where
      B: "hf_nodes fs1 (path_components (path_join root rel)) = Some (FileNode b1 u1 g1 m1)"
      by (auto split: option.splits fnode.splits)
    from v e(2) have "sha b1 = sha b"
      by (auto simp: verify_backup_copy_def split: sum.splits if_splits dest: read_file [OF B])
    with t act B Some FileNode drop_suid_plain [of m] show ?thesis
      by (auto simp: source_restored_def source_key_def owner_is_def Let_def and.assoc
          split: option.splits fnode.splits)
  qed
qed


definition sample_host :: host_fs where
  "sample_host =
     \<lparr>hf_nodes = map_of
        [(path_components ''/'', DirNode), (path_components ''/e'', DirNode),
         (path_components ''/e/a'', FileNode ''old'' 7 8 0x180), (path_components ''/e/l'', LinkNode ''a'' 7 8)],
      hf_deny = (\<lambda>_ _. None), hf_uid = 0, hf_gid = 0, hf_new_mode = 0x1A4\<rparr>"

definition sample_sources :: "backup_source list" where
  "sample_sources =
     [\<lparr>so_id = ''a'', so_path = ''/e/a''\<rparr>, \<lparr>so_id = ''l'', so_path = ''/e/l''\<rparr>,
      \<lparr>so_id = ''m'', so_path = ''/e/m''\<rparr>]"

definition sample_capture :: "(string, backup_manifest) res \<times> host_fs" where
  "sample_capture = capture_backup_manifest id ''/b'' sample_sources sample_host"

definition sample_manifest :: backup_manifest where
  "sample_manifest = (case fst sample_capture of Inr m \<Rightarrow> m | Inl _ \<Rightarrow> \<lparr>mf_schema_version = 0, mf_entries = []\<rparr>)"

text \<open>Afterwards the file is changed, the link is gone and a directory lies in the free place.\<close>

definition sample_damaged :: host_fs where
  "sample_damaged =
     put (path_components ''/e/a'') (FileNode ''new'' 0 0 0)
       (put (path_components ''/e/m'') DirNode
         (erase (\<lambda>x. x = path_components ''/e/l'') (snd sample_capture)))"

definition sample_plan :: restore_plan where
  "sample_plan =
     (case plan_restore id sample_damaged ''/b'' sample_manifest [] [] [] of
        Inr p \<Rightarrow> p | Inl _ \<Rightarrow> \<lparr>rp_schema_version = 0, rp_actions = []\<rparr>)"

definition sample_run :: "(string, nat) res \<times> host_fs \<times> (string \<times> string) list" where
  "sample_run =
     execute_restore_plan id 5 (systemctl_controller (\<lambda>_ _. Inr ())) ''/b'' sample_manifest [] sample_plan
       (sample_damaged, [])"

lemma sample_steps:
  "capture_backup_manifest id ''/b'' sample_sources sample_host = (Inr sample_manifest, snd sample_capture)"
  "plan_restore id sample_damaged ''/b'' sample_manifest [] [] [] = Inr sample_plan"
  "execute_restore_plan id 5 (systemctl_controller (\<lambda>_ _. Inr ())) ''/b'' sample_manifest [] sample_plan
     (sample_damaged, []) = (Inr 3, fst (snd sample_run), snd (snd sample_run))"
proof -
  have "is_ok (fst sample_capture)" by code_simp
  then show "capture_backup_manifest id ''/b'' sample_sources sample_host = (Inr sample_manifest, snd sample_capture)"
    by (auto simp: prod_eq_iff sample_manifest_def is_ok_iff simp flip: sample_capture_def)
  have "is_ok (plan_restore id sample_damaged ''/b'' sample_manifest [] [] [])" by code_simp
  then show "plan_restore id sample_damaged ''/b'' sample_manifest [] [] [] = Inr sample_plan"
    by (auto simp: sample_plan_def is_ok_iff)
  have "fst sample_run = Inr 3" by code_simp
  then show "execute_restore_plan id 5 (systemctl_controller (\<lambda>_ _. Inr ())) ''/b'' sample_manifest [] sample_plan
     (sample_damaged, []) = (Inr 3, fst (snd sample_run), snd (snd sample_run))"
    by (simp add: prod_eq_iff flip: sample_run_def)
qed


section \<open>What verification does not look at\<close>

text \<open>
  A plan read back from its file may remove any path: the removal of a validation path is only
  checked to be absolute and not the root, not to be one the validation owns; and a path that
  climbs back to the root passes.
\<close>

lemma any_path_may_be_removed:
  "let plan = \<lparr>rp_schema_version = 1, rp_actions = [RemoveValidationPath ''/e'']\<rparr>;
       m = \<lparr>mf_schema_version = 1, mf_entries = []\<rparr>;
       (r, fs, c) = execute_restore_plan id 5 (systemctl_controller (\<lambda>_ _. Inr ())) ''/b'' m [] plan
                      (sample_host, [])
   in r = Inr 1 \<and> hf_nodes fs (path_components ''/e/a'') = None"
  by code_simp

lemma climbing_path_passes: "require_absolute_path ''/etc/..'' = Inr ()"
  by code_simp

text \<open>The owner and the mode of a plan are not compared with the manifest: a plan may make a
  restored file anybody's and set-user-id.\<close>

lemma mode_of_plan_unchecked:
  "verify_action sha fs root entries services (RestoreRegularFile i src to u g mode) =
   verify_action sha fs root entries services (RestoreRegularFile i src to u' g' mode')"
  "verify_action sha fs root entries services (RestoreSymlink i t link u g) =
   verify_action sha fs root entries services (RestoreSymlink i t link u' g')"
  by simp_all

text \<open>
  Ids that differ only in characters that are not kept share a backup file: the second source
  overwrites the copy of the first, and the plan is refused.
\<close>

lemma backup_names_collide:
  "let ss = [\<lparr>so_id = ''x.y'', so_path = ''/e/a''\<rparr>, \<lparr>so_id = ''x_y'', so_path = ''/e/b''\<rparr>];
       host = put (path_components ''/e/b'') (FileNode ''other'' 0 0 0) sample_host;
       (r, host') = capture_backup_manifest id ''/b'' ss host
   in is_ok r
      \<and> (case r of Inl _ \<Rightarrow> False
         | Inr m \<Rightarrow> plan_restore id host' ''/b'' m [] [] [] = Inl ''backup checksum mismatch for x.y'')"
  by code_simp

text \<open>
  The mode is set before the owner, and a change of owner takes the set-user-id bit away: a
  restored set-user-id program is no longer one.
\<close>

lemma set_user_id_lost:
  "let host = put (path_components ''/e/a'') (FileNode ''old'' 7 8 0x9ED) sample_host;
       ss = [\<lparr>so_id = ''a'', so_path = ''/e/a''\<rparr>];
       (r, host') = capture_backup_manifest id ''/b'' ss host
   in case r of Inl _ \<Rightarrow> False
      | Inr m \<Rightarrow>
          (case plan_restore id host' ''/b'' m [] [] [] of Inl _ \<Rightarrow> False
           | Inr plan \<Rightarrow>
               hf_nodes (fst (snd (execute_restore_plan id 5 (systemctl_controller (\<lambda>_ _. Inr ())) ''/b'' m []
                 plan (host', [])))) (path_components ''/e/a'') = Some (FileNode ''old'' 7 8 0x1ED))"
  by code_simp

text \<open>
  States that systemd reports and the capture takes cannot be restored: the plan stops there,
  after the files have been put back and before the services that follow.
\<close>

lemma runtime_enabled_not_restored:
  "execute_action 5 ''/b'' (systemctl_controller (\<lambda>_ _. Inr ()))
     (RestoreServiceState ''docker.service'' ''active'' ''enabled-runtime'') (fs, c)
   = (Inl ''unsupported unit file state for docker.service: enabled-runtime'', fs, c)"
  by (simp add: execute_action_def systemctl_controller_def systemctl_unit_file_def)

end
