(* ===== verification/Block_Guardrails.thy ===== *)
theory Block_Guardrails
  imports Policy_Enforcement Evidence_Gate
begin

text \<open>
  The gates that stand between evidence and pre-operation blocking
  (\<open>crates/apolysis-validation/src/lib.rs\<close>): the validation of block evidence, the approval of
  enablements, the operator audit, the execution of the local seccomp prototype, and the
  prerequisites of the BPF-LSM prototype.
\<close>

section \<open>Validation of evidence\<close>

datatype validation_source = VsFixture | VsLiveHost

fun policy_source :: "validation_source \<Rightarrow> evidence_source" where
  "policy_source VsFixture = FixtureEvidence"
| "policy_source VsLiveHost = LiveHostEvidence"

datatype validation_runtime =
    VrLocal | VrDocker | VrContainerd | VrKubernetes | VrGvisor | VrKata | VrFirecracker | VrUnknown

fun policy_runtime :: "validation_runtime \<Rightarrow> enforcement_runtime" where
  "policy_runtime VrLocal = RtLocal"
| "policy_runtime VrDocker = RtDocker"
| "policy_runtime VrContainerd = RtContainerd"
| "policy_runtime VrKubernetes = RtKubernetes"
| "policy_runtime VrGvisor = RtGvisor"
| "policy_runtime VrKata = RtKata"
| "policy_runtime VrFirecracker = RtFirecracker"
| "policy_runtime VrUnknown = RtUnknown"

datatype validation_action = VaExec | VaFileRead | VaFileWrite | VaNetworkConnect | VaCredentialRead

fun policy_event_type :: "validation_action \<Rightarrow> event_type" where
  "policy_event_type VaExec = EvExec"
| "policy_event_type VaFileRead = EvFileOpen"
| "policy_event_type VaFileWrite = EvFileCreate"
| "policy_event_type VaNetworkConnect = EvNetworkConnect"
| "policy_event_type VaCredentialRead = EvCredentialRead"

record block_validation_report =
  bv_evidence_id :: string
  bv_source :: validation_source
  bv_runtime :: validation_runtime
  bv_action :: validation_action
  bv_backend :: string
  bv_bpf_lsm :: bool
  bv_seccomp :: bool
  bv_prevention :: bool
  bv_latency :: "u128 option"
  bv_race_window :: "u128 option"

record block_validation_enablement =
  bl_evidence_id :: string
  bl_runtime :: validation_runtime
  bl_action :: validation_action

type_synonym block_validation_gate_report =
  "(block_validation_report, block_validation_enablement, evidence_failure) gate_report"

definition backend_named :: "string \<Rightarrow> block_backend option" where
  "backend_named s =
     (if s = ''bpf_lsm_block'' then Some BbBpfLsm
      else if s = ''seccomp_block'' then Some BbSeccomp else None)"

definition block_report_failures :: "block_validation_report \<Rightarrow> evidence_failure list" where
  "block_report_failures r =
     (let i = nonblank_id (bv_evidence_id r); b = backend_named (bv_backend r) in
      fail_if (\<not> nonblank (bv_evidence_id r))
        (evidence_fail None ''block validation report is missing evidence id'')
      @ fail_if (b = None)
          (evidence_fail i ''PolicyGuardrails block validation report must target bpf_lsm_block or seccomp_block backend'')
      @ fail_if (bv_source r \<noteq> VsLiveHost)
          (evidence_fail i ''pre-operation block requires live-host validation evidence'')
      @ fail_if (b = Some BbBpfLsm \<and> \<not> bv_bpf_lsm r)
          (evidence_fail i ''BPF-LSM must be available before enabling block prototype'')
      @ fail_if (b = Some BbSeccomp \<and> \<not> bv_seccomp r)
          (evidence_fail i ''seccomp must be available before enabling block prototype'')
      @ fail_if (\<not> bv_prevention r)
          (evidence_fail i ''block prototype evidence must prove pre-operation prevention'')
      @ fail_if (bv_latency r = None)
          (evidence_fail i ''block prototype evidence must include decision latency'')
      @ fail_if (bv_race_window r \<noteq> Some 0)
          (evidence_fail i ''block prototype evidence must prove a zero side-effect race window''))"

definition report_capabilities :: "block_validation_report \<Rightarrow> capabilities" where
  "report_capabilities r =
     capabilities_default\<lparr>ca_bpf_lsm := bv_bpf_lsm r, ca_seccomp := bv_seccomp r,
       ca_runtime := policy_runtime (bv_runtime r)\<rparr>"

definition report_evidence :: "block_validation_report \<Rightarrow> block_evidence" where
  "report_evidence r =
     \<lparr>be_backend = the (backend_named (bv_backend r)), be_source = policy_source (bv_source r),
      be_runtime = policy_runtime (bv_runtime r), be_action = policy_event_type (bv_action r),
      be_preop_prevention = bv_prevention r, be_latency = bv_latency r,
      be_race_window = bv_race_window r\<rparr>"

definition block_enablement_of :: "block_validation_report \<Rightarrow> block_validation_enablement" where
  "block_enablement_of r =
     \<lparr>bl_evidence_id = bv_evidence_id r, bl_runtime = bv_runtime r, bl_action = bv_action r\<rparr>"

definition check_block_report ::
    "block_validation_report \<Rightarrow> evidence_failure list \<times> block_validation_enablement list" where
  "check_block_report r =
     (let i = nonblank_id (bv_evidence_id r); fs = block_report_failures r in
      if fs = [] then
        (case with_validated_block_prototype (report_evidence r) (report_capabilities r) of
           Inr c \<Rightarrow>
             (if can_preop_block c (policy_runtime (bv_runtime r))
                   (action_of_event (policy_event_type (bv_action r)))
              then ([], [block_enablement_of r])
              else ([evidence_fail i ''validated block prototype did not enable the requested action''], []))
         | Inl e \<Rightarrow> ([evidence_fail i e], []))
      else (fs, []))"

definition evaluate_block_validation_gate ::
    "block_validation_report list \<Rightarrow> block_validation_gate_report" where
  "evaluate_block_validation_gate =
     gate_run (evidence_fail None ''at least one PolicyGuardrails block validation report is required'')
       check_block_report"

section \<open>Approval of enablements\<close>

record rollback_plan =
  rp_plan_id :: string
  rp_disable :: string
  rp_validation :: string

record enablement_request =
  en_request_id :: string
  en_evidence_id :: string
  en_backend :: string
  en_runtime :: validation_runtime
  en_action :: validation_action
  en_operator_approved :: bool
  en_default_enabled :: bool
  en_rollback :: "rollback_plan option"

record approved_enablement =
  ae_request_id :: string
  ae_evidence_id :: string
  ae_backend :: string
  ae_runtime :: validation_runtime
  ae_action :: validation_action
  ae_default_enabled :: bool
  ae_rollback_plan_id :: string

record enablement_policy_report =
  pr_schema_version :: u32
  pr_passed :: bool
  pr_approved :: "approved_enablement list"
  pr_failures :: "evidence_failure list"

definition rollback_failures :: "string option \<Rightarrow> rollback_plan option \<Rightarrow> evidence_failure list" where
  "rollback_failures i plan =
     (case plan of
        Some p \<Rightarrow>
          fail_if (\<not> nonblank (rp_plan_id p)) (evidence_fail i ''rollback plan is missing plan id'')
          @ fail_if (\<not> nonblank (rp_disable p)) (evidence_fail i ''rollback plan is missing disable command'')
          @ fail_if (\<not> nonblank (rp_validation p))
              (evidence_fail i ''rollback plan is missing validation command'')
      | None \<Rightarrow> [evidence_fail i ''rollback plan is required''])"

definition request_failures :: "block_validation_gate_report \<Rightarrow> enablement_request \<Rightarrow> evidence_failure list" where
  "request_failures v q =
     (let i = nonblank_id (en_request_id q) in
      fail_if (\<not> nonblank (en_request_id q))
        (evidence_fail None ''block enablement request is missing request id'')
      @ fail_if (\<not> nonblank (en_evidence_id q))
          (evidence_fail i ''block enablement request is missing evidence id'')
      @ fail_if (\<not> en_operator_approved q) (evidence_fail i ''operator approval is required'')
      @ fail_if (en_default_enabled q) (evidence_fail i ''production-facing block must remain opt-in'')
      @ rollback_failures i (en_rollback q)
      @ fail_if (en_evidence_id q \<notin> set (map bl_evidence_id (gr_validated v)))
          (evidence_fail i ''no matching validated block evidence'')
      @ (case index_by bv_evidence_id (gr_reports v) (en_evidence_id q) of
           Some r \<Rightarrow>
             fail_if (bv_backend r \<noteq> en_backend q \<or> bv_runtime r \<noteq> en_runtime q \<or> bv_action r \<noteq> en_action q)
               (evidence_fail i ''enablement request does not match validated runtime/action/backend'')
         | None \<Rightarrow> []))"

definition approval_of :: "enablement_request \<Rightarrow> approved_enablement" where
  "approval_of q =
     \<lparr>ae_request_id = en_request_id q, ae_evidence_id = en_evidence_id q, ae_backend = en_backend q,
      ae_runtime = en_runtime q, ae_action = en_action q, ae_default_enabled = en_default_enabled q,
      ae_rollback_plan_id = rp_plan_id (the (en_rollback q))\<rparr>"

definition check_request ::
    "block_validation_gate_report \<Rightarrow> enablement_request \<Rightarrow> evidence_failure list \<times> approved_enablement list" where
  "check_request v q =
     (let fs = request_failures v q in (fs, if fs = [] then [approval_of q] else []))"

definition evaluate_block_enablement_policy ::
    "block_validation_gate_report \<Rightarrow> enablement_request list \<Rightarrow> enablement_policy_report" where
  "evaluate_block_enablement_policy v qs =
     (let (fs, approved) = gate_loop (check_request v) qs;
          failures =
            fail_if (\<not> gr_passed v)
              (evidence_fail None ''block validation gate must pass before enablement can be approved'')
            @ fail_if (qs = []) (evidence_fail None ''at least one block enablement request is required'')
            @ fs
      in \<lparr>pr_schema_version = 1, pr_passed = (failures = []),
          pr_approved = (if failures = [] then approved else []), pr_failures = failures\<rparr>)"

section \<open>Operator audit\<close>

datatype audit_operation = AoApprove | AoRollback

record operator_audit_record =
  oa_record_type :: string
  oa_operation :: audit_operation
  oa_request_id :: string
  oa_evidence_id :: string
  oa_backend :: string
  oa_runtime :: validation_runtime
  oa_action :: validation_action
  oa_default_enabled :: bool
  oa_rollback_plan_id :: string
  oa_operator :: string
  oa_timestamp :: u128

definition block_operator_audit_records ::
    "enablement_policy_report \<Rightarrow> audit_operation \<Rightarrow> string \<Rightarrow> u128
     \<Rightarrow> (string, operator_audit_record list) res" where
  "block_operator_audit_records report op operator ts =
     (if trim operator = [] then Inl ''operator is required for PolicyGuardrails block operator audit''
      else if \<not> pr_passed report then
        Inl ''PolicyGuardrails block operator audit requires a passed enablement policy report''
      else
        Inr (map (\<lambda>a. \<lparr>oa_record_type = ''policy_guardrails_block_operator_audit'', oa_operation = op,
                       oa_request_id = ae_request_id a, oa_evidence_id = ae_evidence_id a,
                       oa_backend = ae_backend a, oa_runtime = ae_runtime a, oa_action = ae_action a,
                       oa_default_enabled = ae_default_enabled a,
                       oa_rollback_plan_id = ae_rollback_plan_id a,
                       oa_operator = trim operator, oa_timestamp = ts\<rparr>)
               (pr_approved report)))"

section \<open>The local seccomp prototype\<close>

record seccomp_execution_request =
  sx_evidence_id :: string
  sx_backend :: string
  sx_runtime :: validation_runtime
  sx_action :: validation_action
  sx_target_path :: string

record seccomp_execution_report =
  sr_schema_version :: u32
  sr_passed :: bool
  sr_evidence_id :: string
  sr_target_path :: string
  sr_applied :: "string option"
  sr_backend :: "string option"
  sr_blocked_errno :: "32 word option"
  sr_blocked_message :: "string option"
  sr_failures :: "evidence_failure list"

definition evidence_id_opt :: "string \<Rightarrow> string option" where
  "evidence_id_opt s = (if s = [] then None else Some s)"

definition matching_enablement ::
    "enablement_policy_report \<Rightarrow> string \<Rightarrow> seccomp_execution_request \<Rightarrow> approved_enablement option" where
  "matching_enablement report i q =
     find (\<lambda>a. ae_evidence_id a = i \<and> ae_backend a = sx_backend q \<and> ae_runtime a = sx_runtime q
             \<and> ae_action a = sx_action q \<and> \<not> ae_default_enabled a) (pr_approved report)"

definition evaluate_local_seccomp_execution_gate ::
    "enablement_policy_report \<Rightarrow> seccomp_execution_request \<Rightarrow> seccomp_execution_report" where
  "evaluate_local_seccomp_execution_gate report q =
     (let i = trim (sx_evidence_id q); path = trim (sx_target_path q); o_i = evidence_id_opt i;
          m = matching_enablement report i q;
          fs =
            fail_if (\<not> pr_passed report)
              (evidence_fail None ''local seccomp execution requires a passed enablement policy report'')
            @ fail_if (i = []) (evidence_fail None ''evidence id is required'')
            @ fail_if (path = []) (evidence_fail o_i ''target path is required'')
            @ fail_if (sx_backend q \<noteq> ''seccomp_block'')
                (evidence_fail o_i ''local seccomp execution only supports backend seccomp_block'')
            @ fail_if (sx_runtime q \<noteq> VrLocal)
                (evidence_fail o_i ''local seccomp execution only supports local runtime'')
            @ fail_if (sx_action q \<noteq> VaFileRead)
                (evidence_fail o_i ''local seccomp execution only supports file_read action'')
            @ fail_if (m = None)
                (evidence_fail o_i ''no matching approved local seccomp file-read enablement'')
      in \<lparr>sr_schema_version = 1, sr_passed = (fs = []), sr_evidence_id = i, sr_target_path = path,
          sr_applied = (if fs = [] then map_option ae_request_id m else None),
          sr_backend = (if fs = [] then Some ''seccomp_block'' else None),
          sr_blocked_errno = None, sr_blocked_message = None, sr_failures = fs\<rparr>)"

section \<open>Prerequisites of the BPF-LSM prototype\<close>

record bpf_lsm_environment =
  ev_linux :: bool
  ev_btf :: bool
  ev_configured :: bool
  ev_active :: bool
  ev_object :: bool
  ev_privileged :: bool

record bpf_lsm_prerequisite_report =
  bq_schema_version :: u32
  bq_passed :: bool
  bq_environment :: bpf_lsm_environment
  bq_failures :: "string list"

definition evaluate_bpf_lsm_prerequisites :: "bpf_lsm_environment \<Rightarrow> bpf_lsm_prerequisite_report" where
  "evaluate_bpf_lsm_prerequisites e =
     (let fs =
        fail_if (\<not> ev_linux e) ''BPF-LSM prototype requires Linux''
        @ fail_if (\<not> ev_btf e) ''readable kernel BTF is required''
        @ fail_if (\<not> ev_configured e) ''kernel must be configured with CONFIG_BPF_LSM''
        @ fail_if (\<not> ev_active e) ''active LSM list must include bpf''
        @ fail_if (\<not> ev_object e) ''BPF-LSM prototype object is required''
        @ fail_if (\<not> ev_privileged e) ''CAP_BPF and CAP_PERFMON or CAP_SYS_ADMIN are required''
      in \<lparr>bq_schema_version = 1, bq_passed = (fs = []), bq_environment = e, bq_failures = fs\<rparr>)"

lemma bpf_lsm_prerequisites_exact:
  "bq_passed (evaluate_bpf_lsm_prerequisites e) \<longleftrightarrow>
     ev_linux e \<and> ev_btf e \<and> ev_configured e \<and> ev_active e \<and> ev_object e \<and> ev_privileged e"
  by (auto simp: evaluate_bpf_lsm_prerequisites_def Let_def)

section \<open>What a validated report proves\<close>

text \<open>A report is valid when the policy engine would accept its evidence on a host like its own.\<close>

definition block_report_valid :: "block_validation_report \<Rightarrow> bool" where
  "block_report_valid r \<longleftrightarrow>
     nonblank (bv_evidence_id r) \<and> backend_named (bv_backend r) \<noteq> None
     \<and> evidence_proves (report_capabilities r) (report_evidence r)"

lemma blockable_action [simp]: "action_of_event (policy_event_type a) \<noteq> EaOther"
  by (cases a) simp_all

lemma live_source [simp]: "policy_source s = LiveHostEvidence \<longleftrightarrow> s = VsLiveHost"
  by (cases s) simp_all

lemma backend_named_Some: "backend_named s = Some b \<longleftrightarrow> s = block_backend_str b"
  by (cases b) (auto simp: backend_named_def)

lemma report_parts [simp]:
  "ca_runtime (report_capabilities r) = policy_runtime (bv_runtime r)"
  "ca_block_backend (report_capabilities r) = None"
  "be_runtime (report_evidence r) = policy_runtime (bv_runtime r)"
  "be_backend (report_evidence r) = the (backend_named (bv_backend r))"
  "be_action (report_evidence r) = policy_event_type (bv_action r)"
  by (simp_all add: report_capabilities_def capabilities_default_def report_evidence_def)

lemma block_report_failures_Nil:
  "block_report_failures r = [] \<longleftrightarrow>
     nonblank (bv_evidence_id r) \<and> bv_source r = VsLiveHost \<and> bv_prevention r \<and> bv_latency r \<noteq> None
     \<and> bv_race_window r = Some 0
     \<and> (case backend_named (bv_backend r) of None \<Rightarrow> False
        | Some BbBpfLsm \<Rightarrow> bv_bpf_lsm r | Some BbSeccomp \<Rightarrow> bv_seccomp r)"
  by (auto simp: block_report_failures_def Let_def split: option.splits block_backend.splits)

lemma valid_no_failures: "block_report_valid r \<Longrightarrow> block_report_failures r = []"
  unfolding block_report_valid_def evidence_proves_def block_report_failures_Nil
  by (auto simp: report_evidence_def report_capabilities_def capabilities_default_def
      split: option.splits block_backend.splits)

lemma available_modulo_block [simp]:
  "backend_available (c\<lparr>ca_block_backend := b, ca_block := s\<rparr>) k r = backend_available c k r"
  by (cases k) simp_all

lemma check_valid: "block_report_valid r \<Longrightarrow> check_block_report r = ([], [block_enablement_of r])"
proof -
  assume v: "block_report_valid r"
  then have p: "evidence_proves (report_capabilities r) (report_evidence r)"
    by (simp add: block_report_valid_def)
  from evidence_accepted [OF p] obtain s where
    "with_validated_block_prototype (report_evidence r) (report_capabilities r) =
       Inr ((report_capabilities r)\<lparr>ca_block_backend := Some (be_backend (report_evidence r)), ca_block := s\<rparr>)"
    "supports_action s (action_of_event (policy_event_type (bv_action r)))" by auto
  with p valid_no_failures [OF v] show ?thesis
    by (simp add: check_block_report_def can_preop_block_def evidence_proves_def Let_def)
qed

lemma check_invalid:
  "\<not> block_report_valid r \<Longrightarrow> fst (check_block_report r) \<noteq> [] \<and> snd (check_block_report r) = []"
proof (cases "block_report_failures r = []")
  case True
  moreover assume "\<not> block_report_valid r"
  ultimately have "\<not> evidence_proves (report_capabilities r) (report_evidence r)"
    by (auto simp: block_report_valid_def block_report_failures_Nil)
  from evidence_refused [OF this] True show ?thesis
    by (auto simp: check_block_report_def Let_def not_is_ok_iff)
next
  case False
  then show ?thesis by (simp add: check_block_report_def Let_def)
qed

interpretation bg: gate_check check_block_report block_report_valid block_enablement_of
proof
  show "fst (check_block_report r) = [] \<longleftrightarrow> block_report_valid r" for r
    using check_valid [of r] check_invalid [of r] by auto
  show "snd (check_block_report r) = (if block_report_valid r then [block_enablement_of r] else [])" for r
    using check_valid [of r] check_invalid [of r] by auto
qed

lemma block_gate_exact:
  "gr_passed (evaluate_block_validation_gate rs) \<longleftrightarrow> rs \<noteq> [] \<and> list_all block_report_valid rs"
  "gr_validated (evaluate_block_validation_gate rs) =
     (if rs \<noteq> [] \<and> list_all block_report_valid rs then map block_enablement_of rs else [])"
  "gr_reports (evaluate_block_validation_gate rs) = rs"
  by (simp_all add: evaluate_block_validation_gate_def bg.run_passed bg.run_validated)


section \<open>What an approval rests on\<close>

definition rollback_complete :: "rollback_plan option \<Rightarrow> bool" where
  "rollback_complete plan \<longleftrightarrow>
     (case plan of None \<Rightarrow> False
      | Some p \<Rightarrow> nonblank (rp_plan_id p) \<and> nonblank (rp_disable p) \<and> nonblank (rp_validation p))"

definition request_matches :: "block_validation_report \<Rightarrow> enablement_request \<Rightarrow> bool" where
  "request_matches r q \<longleftrightarrow>
     bv_evidence_id r = en_evidence_id q \<and> bv_backend r = en_backend q \<and> bv_runtime r = en_runtime q
     \<and> bv_action r = en_action q"

text \<open>
  A request is acceptable when it is signed off, opt-in and reversible, its evidence was
  validated, and the last report of that evidence is for what it asks.
\<close>

definition request_acceptable :: "block_validation_gate_report \<Rightarrow> enablement_request \<Rightarrow> bool" where
  "request_acceptable v q \<longleftrightarrow>
     nonblank (en_request_id q) \<and> nonblank (en_evidence_id q) \<and> en_operator_approved q
     \<and> \<not> en_default_enabled q \<and> rollback_complete (en_rollback q)
     \<and> en_evidence_id q \<in> bl_evidence_id ` set (gr_validated v)
     \<and> (case index_by bv_evidence_id (gr_reports v) (en_evidence_id q) of
          None \<Rightarrow> True | Some r \<Rightarrow> request_matches r q)"

lemma rollback_failures_Nil: "rollback_failures i p = [] \<longleftrightarrow> rollback_complete p"
  by (auto simp: rollback_failures_def rollback_complete_def split: option.splits)

lemma request_failures_Nil: "request_failures v q = [] \<longleftrightarrow> request_acceptable v q"
  by (auto simp: request_failures_def request_acceptable_def rollback_failures_Nil request_matches_def
      Let_def split: option.splits dest: index_by_Some)

interpretation eg: gate_check "check_request v" "request_acceptable v" approval_of
  by unfold_locales (simp_all add: check_request_def request_failures_Nil Let_def)

lemma enablement_report:
  "pr_passed (evaluate_block_enablement_policy v qs) \<longleftrightarrow>
     gr_passed v \<and> qs \<noteq> [] \<and> list_all (request_acceptable v) qs"
  "pr_approved (evaluate_block_enablement_policy v qs) =
     (if gr_passed v \<and> qs \<noteq> [] \<and> list_all (request_acceptable v) qs then map approval_of qs else [])"
  by (auto simp: evaluate_block_enablement_policy_def split_def Let_def eg.loop_failures
      eg.loop_approved list_all_iff intro: filter_True)

lemma acceptable_has_report:
  assumes "request_acceptable (evaluate_block_validation_gate rs) q"
  shows "list_ex (\<lambda>r. block_report_valid r \<and> request_matches r q) rs"
proof -
  from assms have "en_evidence_id q \<in> bl_evidence_id ` set (gr_validated (evaluate_block_validation_gate rs))"
    by (simp add: request_acceptable_def)
  then have all: "list_all block_report_valid rs" and "en_evidence_id q \<in> bv_evidence_id ` set rs"
    by (auto simp: block_gate_exact block_enablement_of_def split: if_splits)
  then obtain r where "index_by bv_evidence_id rs (en_evidence_id q) = Some r"
    by (cases "index_by bv_evidence_id rs (en_evidence_id q)") (auto simp: index_by_None)
  with assms all index_by_Some [OF this] show ?thesis
    by (auto simp: request_acceptable_def block_gate_exact list_all_iff list_ex_iff)
qed

text \<open>The answer of the execution gate.\<close>

lemma execution_passed:
  "sr_passed (evaluate_local_seccomp_execution_gate p q) \<longleftrightarrow>
     pr_passed p \<and> nonblank (sx_evidence_id q) \<and> nonblank (sx_target_path q)
     \<and> sx_backend q = ''seccomp_block'' \<and> sx_runtime q = VrLocal \<and> sx_action q = VaFileRead
     \<and> matching_enablement p (trim (sx_evidence_id q)) q \<noteq> None"
  by (auto simp: evaluate_local_seccomp_execution_gate_def Let_def nonblank_def)

lemma execution_applied:
  "sr_passed (evaluate_local_seccomp_execution_gate p q) \<Longrightarrow>
   sr_applied (evaluate_local_seccomp_execution_gate p q) =
     map_option ae_request_id (matching_enablement p (trim (sx_evidence_id q)) q)"
  by (auto simp: evaluate_local_seccomp_execution_gate_def Let_def)

text \<open>C32. Blocking is executed only on the strength of the whole chain. When the gate for the
  local seccomp prototype passes, with the report of the enablement policy over the report of
  the validation gate, every evidence report given to the validation gate was valid, and the
  enablement it names was asked for by a request that an operator approved, is opt-in and has
  a complete rollback plan, for evidence from a live host that seccomp prevented a file read
  of a local process before it happened, with a measured latency and no race window. The
  policy engine accepts that evidence and then blocks file reads with seccomp.\<close>

theorem execution_needs_whole_chain:
  assumes "sr_passed (evaluate_local_seccomp_execution_gate
             (evaluate_block_enablement_policy (evaluate_block_validation_gate rs) qs) x)"
  shows "list_all block_report_valid rs
     \<and> list_ex (\<lambda>q. sr_applied (evaluate_local_seccomp_execution_gate
               (evaluate_block_enablement_policy (evaluate_block_validation_gate rs) qs) x)
             = Some (en_request_id q)
           \<and> en_operator_approved q \<and> \<not> en_default_enabled q \<and> rollback_complete (en_rollback q)
           \<and> list_ex (\<lambda>r. bv_evidence_id r = trim (sx_evidence_id x) \<and> bv_source r = VsLiveHost
               \<and> bv_runtime r = VrLocal \<and> bv_action r = VaFileRead \<and> bv_seccomp r
               \<and> bv_prevention r \<and> bv_latency r \<noteq> None \<and> bv_race_window r = Some 0
               \<and> (case with_validated_block_prototype (report_evidence r) (report_capabilities r) of
                    Inl _ \<Rightarrow> False
                  | Inr c \<Rightarrow> ca_block_backend c = Some BbSeccomp
                      \<and> can_preop_block c RtLocal EaFileRead)) rs) qs"
proof -
  let ?v = "evaluate_block_validation_gate rs"
  let ?p = "evaluate_block_enablement_policy ?v qs"
  from assms obtain a where m: "matching_enablement ?p (trim (sx_evidence_id x)) x = Some a"
    and x: "sx_backend x = ''seccomp_block''" "sx_runtime x = VrLocal" "sx_action x = VaFileRead"
    and p: "pr_passed ?p"
    by (auto simp: execution_passed)
  from m have "a \<in> set (pr_approved ?p)" and a: "ae_evidence_id a = trim (sx_evidence_id x)"
      "ae_backend a = sx_backend x" "ae_runtime a = sx_runtime x" "ae_action a = sx_action x"
    by (auto simp: matching_enablement_def find_Some_iff)
  with p obtain q where q: "q \<in> set qs" "a = approval_of q" "request_acceptable ?v q"
    by (auto simp: enablement_report list_all_iff)
  from acceptable_has_report [OF q(3)] obtain r where r: "r \<in> set rs" "block_report_valid r" "request_matches r q"
    by (auto simp: list_ex_iff)
  from a x q(2) r(3) have rq: "bv_evidence_id r = trim (sx_evidence_id x)"
      "bv_backend r = ''seccomp_block''" "bv_runtime r = VrLocal" "bv_action r = VaFileRead"
    by (simp_all add: approval_of_def request_matches_def)
  from r(2) have proves: "evidence_proves (report_capabilities r) (report_evidence r)"
    by (simp add: block_report_valid_def)
  from evidence_accepted [OF proves] obtain s where s:
    "with_validated_block_prototype (report_evidence r) (report_capabilities r) =
       Inr ((report_capabilities r)\<lparr>ca_block_backend := Some (be_backend (report_evidence r)), ca_block := s\<rparr>)"
    "supports_action s (action_of_event (policy_event_type (bv_action r)))" by auto
  have named: "backend_named ''seccomp_block'' = Some BbSeccomp" by (simp add: backend_named_def)
  have ok: "case with_validated_block_prototype (report_evidence r) (report_capabilities r) of
      Inl _ \<Rightarrow> False | Inr c \<Rightarrow> ca_block_backend c = Some BbSeccomp \<and> can_preop_block c RtLocal EaFileRead"
    using s rq proves
    by (simp add: named can_preop_block_def evidence_proves_def del: backend_available.simps)
  have "bv_source r = VsLiveHost \<and> bv_seccomp r \<and> bv_prevention r \<and> bv_latency r \<noteq> None
      \<and> bv_race_window r = Some 0"
    using valid_no_failures [OF r(2)] by (simp add: block_report_failures_Nil rq named)
  moreover have "en_operator_approved q \<and> \<not> en_default_enabled q \<and> rollback_complete (en_rollback q)"
    using q(3) by (simp add: request_acceptable_def)
  moreover have "list_all block_report_valid rs"
    using p by (simp add: enablement_report block_gate_exact)
  moreover have "sr_applied (evaluate_local_seccomp_execution_gate ?p x) = Some (en_request_id q)"
    using execution_applied [OF assms] m q(2) by (simp add: approval_of_def)
  ultimately show ?thesis using q(1) r(1) rq ok by (auto simp: list_ex_iff)
qed

definition sample_block_report :: block_validation_report where
  "sample_block_report =
     \<lparr>bv_evidence_id = ''ev-1'', bv_source = VsLiveHost, bv_runtime = VrLocal, bv_action = VaFileRead,
      bv_backend = ''seccomp_block'', bv_bpf_lsm = False, bv_seccomp = True, bv_prevention = True,
      bv_latency = Some 2, bv_race_window = Some 0\<rparr>"

definition sample_enablement :: enablement_request where
  "sample_enablement =
     \<lparr>en_request_id = ''rq-1'', en_evidence_id = ''ev-1'', en_backend = ''seccomp_block'',
      en_runtime = VrLocal, en_action = VaFileRead, en_operator_approved = True,
      en_default_enabled = False,
      en_rollback = Some \<lparr>rp_plan_id = ''rb-1'', rp_disable = ''off'', rp_validation = ''check''\<rparr>\<rparr>"

definition sample_execution :: seccomp_execution_request where
  "sample_execution =
     \<lparr>sx_evidence_id = '' ev-1'', sx_backend = ''seccomp_block'', sx_runtime = VrLocal,
      sx_action = VaFileRead, sx_target_path = ''/etc/shadow''\<rparr>"

lemma execution_needs_whole_chain_witness:
  "list_all block_report_valid [sample_block_report]
   \<and> sr_passed (evaluate_local_seccomp_execution_gate
       (evaluate_block_enablement_policy (evaluate_block_validation_gate [sample_block_report])
         [sample_enablement]) sample_execution)"
proof -
  have "sr_passed (evaluate_local_seccomp_execution_gate
       (evaluate_block_enablement_policy (evaluate_block_validation_gate [sample_block_report])
         [sample_enablement]) sample_execution)" by code_simp
  with execution_needs_whole_chain [OF this] show ?thesis by blast
qed

text \<open>
  Two reports may share an evidence id: the later one decides what may be enabled, so the
  action of the other is refused although its evidence was validated.
\<close>

lemma duplicate_evidence_shadows:
  "let rs = [sample_block_report, sample_block_report\<lparr>bv_action := VaExec\<rparr>];
       v = evaluate_block_validation_gate rs
   in gr_passed v \<and> length (gr_validated v) = 2
      \<and> \<not> pr_passed (evaluate_block_enablement_policy v [sample_enablement])"
  by code_simp

text \<open>
  The execution gate trims the evidence id of its request but not the approved one: evidence
  with a space around its id is validated and approved, and then never found.
\<close>

lemma padded_evidence_never_executes:
  "let v = evaluate_block_validation_gate [sample_block_report\<lparr>bv_evidence_id := ''ev-1 ''\<rparr>];
       p = evaluate_block_enablement_policy v [sample_enablement\<lparr>en_evidence_id := ''ev-1 ''\<rparr>]
   in pr_passed p
      \<and> \<not> sr_passed (evaluate_local_seccomp_execution_gate p (sample_execution\<lparr>sx_evidence_id := ''ev-1 ''\<rparr>))"
  by code_simp

end
