(* ===== verification/Release_Gates.thy ===== *)
theory Release_Gates
  imports Evidence_Gate
begin

text \<open>
  The gates of a release (\<open>crates/apolysis-validation/src/lib.rs\<close>): performance under load,
  visibility reports, and the signing profile and its execution.
\<close>

section \<open>Performance\<close>

datatype performance_load = LoadIdle | LoadSteady10000 | LoadBurst50000

fun load_name :: "performance_load \<Rightarrow> string" where
  "load_name LoadIdle = ''idle''"
| "load_name LoadSteady10000 = ''steady_10000''"
| "load_name LoadBurst50000 = ''burst_50000''"

record performance_budget =
  bd_load :: performance_load
  bd_min_rate :: u64
  bd_max_milli_cpu :: "u64 option"
  bd_max_rss :: u64
  bd_worker_pool :: bool
  bd_loss :: bool
  bd_queue :: bool
  bd_adapter :: bool

record performance_sample =
  sm_load :: performance_load
  sm_rate :: u64
  sm_milli_cpu :: u64
  sm_rss :: u64
  sm_submitted :: u64
  sm_accepted :: u64
  sm_written :: u64
  sm_dropped :: u64
  sm_worker_pool :: bool
  sm_loss :: bool
  sm_queue :: bool
  sm_adapter :: bool

record performance_failure =
  pf_load :: performance_load
  pf_metric :: string
  pf_message :: string
  pf_actual :: string
  pf_budget :: string

record performance_gate_report =
  pg_schema_version :: u32
  pg_passed :: bool
  pg_budgets :: "performance_budget list"
  pg_samples :: "performance_sample list"
  pg_failures :: "performance_failure list"

definition default_budgets :: "performance_budget list" where
  "default_budgets =
     [\<lparr>bd_load = LoadIdle, bd_min_rate = 0, bd_max_milli_cpu = Some 10, bd_max_rss = 128,
       bd_worker_pool = True, bd_loss = True, bd_queue = True, bd_adapter = True\<rparr>,
      \<lparr>bd_load = LoadSteady10000, bd_min_rate = 10000, bd_max_milli_cpu = Some 1000, bd_max_rss = 256,
       bd_worker_pool = True, bd_loss = True, bd_queue = True, bd_adapter = True\<rparr>,
      \<lparr>bd_load = LoadBurst50000, bd_min_rate = 50000, bd_max_milli_cpu = None, bd_max_rss = 256,
       bd_worker_pool = True, bd_loss = True, bd_queue = True, bd_adapter = True\<rparr>]"

definition perf_failure ::
    "performance_load \<Rightarrow> string \<Rightarrow> string \<Rightarrow> string \<Rightarrow> string \<Rightarrow> performance_failure" where
  "perf_failure l metric message actual budget =
     \<lparr>pf_load = l, pf_metric = metric, pf_message = message, pf_actual = actual, pf_budget = budget\<rparr>"

definition u64_string :: "u64 \<Rightarrow> string" where
  "u64_string x = dec_str (unat x)"

definition accounted_events :: "performance_sample \<Rightarrow> u64" where
  "accounted_events s =
     max (sat_add (sm_written s) (sm_dropped s)) (sat_add (sm_accepted s) (sm_dropped s))"

definition sample_failures :: "performance_budget \<Rightarrow> performance_sample \<Rightarrow> performance_failure list" where
  "sample_failures b s =
     (let l = bd_load b; name = load_name l in
      fail_if (sm_rate s < bd_min_rate b)
        (perf_failure l ''events_per_second'' (name @ '' event rate below required load'')
          (u64_string (sm_rate s)) (u64_string (bd_min_rate b)))
      @ (case bd_max_milli_cpu b of
           Some m \<Rightarrow>
             fail_if (sm_milli_cpu s > m)
               (perf_failure l ''milli_cpu'' (name @ '' cpu budget exceeded'')
                 (u64_string (sm_milli_cpu s)) (u64_string m))
         | None \<Rightarrow> [])
      @ fail_if (sm_rss s > bd_max_rss b)
          (perf_failure l ''rss_mib'' (name @ '' rss budget exceeded'')
            (u64_string (sm_rss s)) (u64_string (bd_max_rss b)))
      @ fail_if (bd_worker_pool b \<and> \<not> sm_worker_pool s)
          (perf_failure l ''worker_pool_bounded'' (name @ '' worker pool was not bounded'') ''false'' ''true'')
      @ fail_if (bd_loss b \<and> \<not> sm_loss s)
          (perf_failure l ''loss_accounted'' (name @ '' loss was not accounted'') ''false'' ''true'')
      @ fail_if (bd_queue b \<and> \<not> sm_queue s)
          (perf_failure l ''queue_bounded'' (name @ '' queue was not bounded'') ''false'' ''true'')
      @ fail_if (bd_adapter b \<and> \<not> sm_adapter s)
          (perf_failure l ''adapter_connected'' (name @ '' adapters not connected'') ''false'' ''true'')
      @ fail_if (accounted_events s < sm_submitted s)
          (perf_failure l ''event_accounting'' (name @ '' submitted events were not fully accounted'')
            (u64_string (accounted_events s)) (u64_string (sm_submitted s))))"

definition budget_failures :: "performance_sample list \<Rightarrow> performance_budget \<Rightarrow> performance_failure list" where
  "budget_failures ss b =
     (case index_by sm_load ss (bd_load b) of
        None \<Rightarrow> [perf_failure (bd_load b) ''sample'' ''required load sample missing'' ''missing'' ''present'']
      | Some s \<Rightarrow> sample_failures b s)"

definition evaluate_performance_gate ::
    "performance_budget list \<Rightarrow> performance_sample list \<Rightarrow> performance_gate_report" where
  "evaluate_performance_gate bs ss =
     (let fs = concat (map (budget_failures ss) bs) in
      \<lparr>pg_schema_version = 1, pg_passed = (fs = []), pg_budgets = bs, pg_samples = ss, pg_failures = fs\<rparr>)"

text \<open>What a sample has to show, in numbers that do not saturate.\<close>

definition meets_budget :: "performance_budget \<Rightarrow> performance_sample \<Rightarrow> bool" where
  "meets_budget b s \<longleftrightarrow>
     bd_min_rate b \<le> sm_rate s
     \<and> (case bd_max_milli_cpu b of None \<Rightarrow> True | Some m \<Rightarrow> sm_milli_cpu s \<le> m)
     \<and> sm_rss s \<le> bd_max_rss b
     \<and> (bd_worker_pool b \<longrightarrow> sm_worker_pool s) \<and> (bd_loss b \<longrightarrow> sm_loss s)
     \<and> (bd_queue b \<longrightarrow> sm_queue s) \<and> (bd_adapter b \<longrightarrow> sm_adapter s)
     \<and> unat (sm_submitted s) \<le> max (unat (sm_written s)) (unat (sm_accepted s)) + unat (sm_dropped s)"

lemma accounted_exact:
  "accounted_events s < sm_submitted s \<longleftrightarrow>
     max (unat (sm_written s)) (unat (sm_accepted s)) + unat (sm_dropped s) < unat (sm_submitted s)"
proof -
  have "unat (sm_submitted s) < 2 ^ 64" using unsigned_less [of "sm_submitted s"] by simp
  then show ?thesis
    by (auto simp: accounted_events_def max_def word_less_nat_alt word_le_nat_alt unat_sat_add)
qed

lemma sample_failures_Nil: "sample_failures b s = [] \<longleftrightarrow> meets_budget b s"
  by (auto simp: sample_failures_def meets_budget_def Let_def accounted_exact not_less
      split: option.splits)

lemma performance_gate_exact:
  "pg_passed (evaluate_performance_gate bs ss) \<longleftrightarrow>
     list_all (\<lambda>b. case index_by sm_load ss (bd_load b) of None \<Rightarrow> False | Some s \<Rightarrow> meets_budget b s) bs"
  by (auto simp: evaluate_performance_gate_def Let_def budget_failures_def list_all_iff
      sample_failures_Nil split: option.splits)

definition good_sample :: "performance_load \<Rightarrow> performance_sample" where
  "good_sample l =
     \<lparr>sm_load = l, sm_rate = 60000, sm_milli_cpu = 5, sm_rss = 100, sm_submitted = 9, sm_accepted = 9,
      sm_written = 9, sm_dropped = 0, sm_worker_pool = True, sm_loss = True, sm_queue = True,
      sm_adapter = True\<rparr>"

definition all_loads :: "performance_load list" where
  "all_loads = [LoadIdle, LoadSteady10000, LoadBurst50000]"

text \<open>
  Events that were accepted count as accounted for although none of them was written or
  dropped: a writer that loses everything passes.
\<close>

lemma accepted_hides_lost_events:
  "pg_passed (evaluate_performance_gate default_budgets
     (map (\<lambda>l. good_sample l\<lparr>sm_written := 0, sm_dropped := 0\<rparr>) all_loads))"
  by (simp add: performance_gate_exact default_budgets_def all_loads_def good_sample_def
      meets_budget_def index_by_def)

text \<open>Of two samples of a load the last is judged, so a good run after a bad one passes.\<close>

lemma last_sample_counts:
  "pg_passed (evaluate_performance_gate default_budgets
     ((good_sample LoadIdle\<lparr>sm_rss := 4096\<rparr>) # map good_sample all_loads))"
  by (simp add: performance_gate_exact default_budgets_def all_loads_def good_sample_def
      meets_budget_def index_by_def)

section \<open>Visibility reports\<close>

datatype visibility_target =
    TgLocal | TgDockerRunc | TgDockerGvisor | TgContainerdRunc | TgContainerdGvisor | TgContainerdKata
  | TgK3sRunc | TgK3sGvisor | TgK3sKata

fun visibility_target_str :: "visibility_target \<Rightarrow> string" where
  "visibility_target_str TgLocal = ''local''"
| "visibility_target_str TgDockerRunc = ''docker_runc''"
| "visibility_target_str TgDockerGvisor = ''docker_gvisor''"
| "visibility_target_str TgContainerdRunc = ''containerd_runc''"
| "visibility_target_str TgContainerdGvisor = ''containerd_gvisor''"
| "visibility_target_str TgContainerdKata = ''containerd_kata''"
| "visibility_target_str TgK3sRunc = ''k3s_runc''"
| "visibility_target_str TgK3sGvisor = ''k3s_gvisor''"
| "visibility_target_str TgK3sKata = ''k3s_kata''"

record visibility_report =
  vi_target :: visibility_target
  vi_live :: bool
  vi_source :: string
  vi_scope :: string
  vi_guest :: bool

record visibility_failure =
  vf_target :: "visibility_target option"
  vf_message :: string

record visibility_gate_report =
  vg_schema_version :: u32
  vg_passed :: bool
  vg_reports :: "visibility_report list"
  vg_failures :: "visibility_failure list"

definition required_visibility_targets :: "visibility_target list" where
  "required_visibility_targets =
     [TgLocal, TgDockerRunc, TgDockerGvisor, TgContainerdRunc, TgContainerdGvisor, TgContainerdKata,
      TgK3sRunc, TgK3sGvisor, TgK3sKata]"

definition vis_failure :: "visibility_target \<Rightarrow> string \<Rightarrow> visibility_failure" where
  "vis_failure t m = \<lparr>vf_target = Some t, vf_message = m\<rparr>"

definition target_failures :: "visibility_report list \<Rightarrow> visibility_target \<Rightarrow> visibility_failure list" where
  "target_failures rs t =
     (case index_by vi_target rs t of
        None \<Rightarrow> [vis_failure t (''missing visibility report for '' @ visibility_target_str t)]
      | Some r \<Rightarrow>
          fail_if (\<not> vi_live r) (vis_failure t ''visibility report is not live validated'')
          @ fail_if (\<not> nonblank (vi_source r)) (vis_failure t ''visibility report is missing evidence source'')
          @ fail_if (\<not> nonblank (vi_scope r))
              (vis_failure t ''visibility report is missing host visibility scope'')
          @ fail_if (vi_guest r \<and> t \<in> {TgContainerdKata, TgK3sKata})
              (vis_failure t ''Kata host-boundary report must not claim full guest semantics''))"

definition evaluate_visibility_report_gate :: "visibility_report list \<Rightarrow> visibility_gate_report" where
  "evaluate_visibility_report_gate rs =
     (let fs = concat (map (target_failures rs) required_visibility_targets) in
      \<lparr>vg_schema_version = 1, vg_passed = (fs = []), vg_reports = rs, vg_failures = fs\<rparr>)"

definition visible_truthfully :: "visibility_report \<Rightarrow> bool" where
  "visible_truthfully r \<longleftrightarrow>
     vi_live r \<and> nonblank (vi_source r) \<and> nonblank (vi_scope r)
     \<and> \<not> (vi_guest r \<and> vi_target r \<in> {TgContainerdKata, TgK3sKata})"

lemma required_visibility_all: "t \<in> set required_visibility_targets"
  by (cases t) (simp_all add: required_visibility_targets_def)

lemma target_failures_Nil:
  "target_failures rs t = [] \<longleftrightarrow>
     (case index_by vi_target rs t of None \<Rightarrow> False | Some r \<Rightarrow> visible_truthfully r)"
  by (auto simp: target_failures_def visible_truthfully_def split: option.splits dest: index_by_Some)

text \<open>A passed gate speaks for every target there is.\<close>

lemma visibility_gate_exact:
  "vg_passed (evaluate_visibility_report_gate rs) \<longleftrightarrow>
     (\<forall>t. case index_by vi_target rs t of None \<Rightarrow> False | Some r \<Rightarrow> visible_truthfully r)"
  using required_visibility_all
  by (auto simp: evaluate_visibility_report_gate_def Let_def target_failures_Nil)

lemma visibility_gate_reports [simp]: "vg_reports (evaluate_visibility_report_gate rs) = rs"
  by (simp add: evaluate_visibility_report_gate_def Let_def)

section \<open>The signing profile\<close>

datatype key_provider = KpEphemeral | KpLocalFile | KpKms | KpHsm

datatype release_channel = ChStaging | ChProduction

record signing_profile =
  sp_profile_id :: string
  sp_provider :: key_provider
  sp_key_uri :: string
  sp_public_key_ref :: string
  sp_certificate_chain_ref :: string
  sp_attestation_ref :: string
  sp_non_exportable :: bool
  sp_backed :: bool
  sp_operator_approved :: bool
  sp_rotation_days :: u32
  sp_channels :: "release_channel list"

record signing_profile_approval =
  sa_profile_id :: string
  sa_provider :: key_provider
  sa_key_uri :: string
  sa_public_key_ref :: string
  sa_certificate_chain_ref :: string
  sa_attestation_ref :: string
  sa_max_rotation_days :: u32

record signing_failure =
  sf_field :: string
  sf_message :: string

definition sign_fail :: "string \<Rightarrow> string \<Rightarrow> signing_failure" where
  "sign_fail f m = \<lparr>sf_field = f, sf_message = m\<rparr>"

record 'a signing_report =
  sg_schema_version :: u32
  sg_passed :: bool
  sg_approval :: "'a option"
  sg_failures :: "signing_failure list"

definition max_rotation_days :: u32 where
  "max_rotation_days = 180"

definition is_file_key_uri :: "string \<Rightarrow> bool" where
  "is_file_key_uri u \<longleftrightarrow>
     starts_with u ''/'' \<or> starts_with u ''./'' \<or> starts_with u ''../'' \<or> starts_with u ''file:''"

definition kms_uri :: "string \<Rightarrow> bool" where
  "kms_uri u \<longleftrightarrow>
     starts_with u ''awskms://'' \<or> starts_with u ''azurekms://'' \<or> starts_with u ''gcpkms://''
     \<or> starts_with u ''hashivault://'' \<or> starts_with u ''kms://''"

definition hsm_uri :: "string \<Rightarrow> bool" where
  "hsm_uri u \<longleftrightarrow> starts_with u ''pkcs11:'' \<or> starts_with u ''pkcs11://''"

fun signing_uri_matches_provider :: "key_provider \<Rightarrow> string \<Rightarrow> bool" where
  "signing_uri_matches_provider KpKms u = kms_uri u"
| "signing_uri_matches_provider KpHsm u = hsm_uri u"
| "signing_uri_matches_provider KpEphemeral u = False"
| "signing_uri_matches_provider KpLocalFile u = False"

definition key_uri_failures :: "bool \<Rightarrow> string \<Rightarrow> string \<Rightarrow> signing_failure list" where
  "key_uri_failures matches message u =
     (if is_file_key_uri u then
        [sign_fail ''key_uri'' ''file paths are not valid production signing key URIs'']
      else fail_if (\<not> matches) (sign_fail ''key_uri'' message))"

definition signing_profile_failures :: "signing_profile \<Rightarrow> signing_failure list" where
  "signing_profile_failures p =
     (fail_if (\<not> nonblank (sp_profile_id p)) (sign_fail ''profile_id''
          ''profile id is required'')
      @ fail_if (sp_provider p \<notin> {KpKms, KpHsm}) (sign_fail ''provider''
          ''production release signing requires KMS or HSM provider'')
      @ fail_if (\<not> sp_non_exportable p) (sign_fail ''non_exportable''
          ''production signing key must be non-exportable'')
      @ fail_if (\<not> sp_backed p) (sign_fail ''hardware_or_service_backed''
          ''production signing key must be hardware-backed or managed by a KMS service'')
      @ fail_if (\<not> sp_operator_approved p) (sign_fail ''operator_approved''
          ''operator approval is required'')
      @ fail_if (\<not> nonblank (sp_public_key_ref p)) (sign_fail ''public_key_ref''
          ''public key reference is required'')
      @ fail_if (\<not> nonblank (sp_certificate_chain_ref p)) (sign_fail ''certificate_chain_ref''
          ''certificate chain or verification bundle reference is required'')
      @ fail_if (\<not> nonblank (sp_attestation_ref p)) (sign_fail ''attestation_ref''
          ''attestation or key policy evidence is required'')
      @ fail_if (sp_rotation_days p = 0 \<or> sp_rotation_days p > max_rotation_days) (sign_fail ''rotation_period_days''
          ''rotation period must be 180 days or less'')
      @ fail_if (ChProduction \<notin> set (sp_channels p)) (sign_fail ''allowed_release_channels''
          ''production release channel must be allowed'')
      @ key_uri_failures (signing_uri_matches_provider (sp_provider p) (sp_key_uri p))
          ''signing key URI must match the selected KMS or HSM provider'' (sp_key_uri p))"

definition signing_verdict :: "'a \<Rightarrow> signing_failure list \<Rightarrow> 'a signing_report" where
  "signing_verdict a fs =
     (let approval = (if fs = [] then Some a else None) in
      \<lparr>sg_schema_version = 1, sg_passed = (approval \<noteq> None), sg_approval = approval, sg_failures = fs\<rparr>)"

definition evaluate_signing_profile :: "signing_profile \<Rightarrow> signing_profile_approval signing_report" where
  "evaluate_signing_profile p =
     signing_verdict
       \<lparr>sa_profile_id = sp_profile_id p, sa_provider = sp_provider p, sa_key_uri = sp_key_uri p,
        sa_public_key_ref = sp_public_key_ref p, sa_certificate_chain_ref = sp_certificate_chain_ref p,
        sa_attestation_ref = sp_attestation_ref p, sa_max_rotation_days = sp_rotation_days p\<rparr>
       (signing_profile_failures p)"

section \<open>The execution of a signature\<close>

datatype signing_source = SsFixture | SsLiveProvider

datatype execution_provider = XpEphemeral | XpLocalFile | XpPkcs11Hsm | XpExternalHsm | XpCloudKms

datatype signing_algorithm = RsaPkcs1Sha256 | EcdsaP256Sha256

record signing_evidence =
  se_evidence_id :: string
  se_source :: signing_source
  se_provider :: execution_provider
  se_key_uri :: string
  se_token_label :: string
  se_key_label :: string
  se_key_id :: string
  se_algorithm :: signing_algorithm
  se_manifest_sha256 :: string
  se_signature_sha256 :: string
  se_public_key_sha256 :: string
  se_verified :: bool
  se_non_extractable :: bool
  se_sensitive :: bool
  se_generated_in_provider :: bool
  se_token_initialized :: bool
  se_signer_tool :: string
  se_verifier_tool :: string
  se_operator_approved :: bool
  se_cleanup :: bool
  se_observed_at :: u64

record signing_execution_approval =
  xa_evidence_id :: string
  xa_provider :: execution_provider
  xa_key_uri :: string
  xa_algorithm :: signing_algorithm
  xa_manifest_sha256 :: string
  xa_signature_sha256 :: string
  xa_public_key_sha256 :: string
  xa_observed_at :: u64

fun execution_uri_matches_provider :: "execution_provider \<Rightarrow> string \<Rightarrow> bool" where
  "execution_uri_matches_provider XpPkcs11Hsm u = hsm_uri u"
| "execution_uri_matches_provider XpExternalHsm u = hsm_uri u"
| "execution_uri_matches_provider XpCloudKms u = kms_uri u"
| "execution_uri_matches_provider XpEphemeral u = False"
| "execution_uri_matches_provider XpLocalFile u = False"

definition is_ascii_hexdigit :: "char \<Rightarrow> bool" where
  "is_ascii_hexdigit c \<longleftrightarrow>
     is_ascii_digit c \<or> (CHR ''a'' \<le> c \<and> c \<le> CHR ''f'') \<or> (CHR ''A'' \<le> c \<and> c \<le> CHR ''F'')"

definition is_sha256_hex :: "string \<Rightarrow> bool" where
  "is_sha256_hex s \<longleftrightarrow> length s = 64 \<and> list_all is_ascii_hexdigit s"

definition signing_execution_failures :: "signing_evidence \<Rightarrow> signing_failure list" where
  "signing_execution_failures e =
     (fail_if (\<not> nonblank (se_evidence_id e)) (sign_fail ''evidence_id''
          ''evidence id is required'')
      @ fail_if (se_source e \<noteq> SsLiveProvider) (sign_fail ''source''
          ''live provider signing evidence is required'')
      @ fail_if (se_provider e \<notin> {XpPkcs11Hsm, XpExternalHsm, XpCloudKms}) (sign_fail ''provider''
          ''signing execution requires PKCS#11 HSM, external HSM, or cloud KMS provider'')
      @ key_uri_failures (execution_uri_matches_provider (se_provider e) (se_key_uri e))
          ''signing key URI must match the selected execution provider'' (se_key_uri e)
      @ fail_if (\<not> nonblank (se_token_label e)) (sign_fail ''token_label''
          ''token label is required'')
      @ fail_if (\<not> nonblank (se_key_label e)) (sign_fail ''key_label''
          ''key label is required'')
      @ fail_if (\<not> nonblank (se_key_id e)) (sign_fail ''key_id''
          ''key id is required'')
      @ fail_if (\<not> is_sha256_hex (se_manifest_sha256 e)) (sign_fail ''release_manifest_sha256''
          ''release manifest sha256 must be 64 hex characters'')
      @ fail_if (\<not> is_sha256_hex (se_signature_sha256 e)) (sign_fail ''signature_sha256''
          ''signature sha256 must be 64 hex characters'')
      @ fail_if (\<not> is_sha256_hex (se_public_key_sha256 e)) (sign_fail ''public_key_sha256''
          ''public key sha256 must be 64 hex characters'')
      @ fail_if (\<not> se_verified e) (sign_fail ''signature_verified''
          ''signature verification evidence is required'')
      @ fail_if (\<not> se_non_extractable e) (sign_fail ''private_key_non_extractable''
          ''private key must be non-extractable'')
      @ fail_if (\<not> se_sensitive e) (sign_fail ''private_key_sensitive''
          ''private key must be sensitive'')
      @ fail_if (\<not> se_generated_in_provider e) (sign_fail ''key_generated_in_provider''
          ''key must be generated inside the signing provider'')
      @ fail_if (\<not> se_token_initialized e) (sign_fail ''token_initialized''
          ''token initialization evidence is required'')
      @ fail_if (\<not> nonblank (se_signer_tool e)) (sign_fail ''signer_tool''
          ''signer tool is required'')
      @ fail_if (\<not> nonblank (se_verifier_tool e)) (sign_fail ''verifier_tool''
          ''verifier tool is required'')
      @ fail_if (\<not> se_operator_approved e) (sign_fail ''operator_approved''
          ''operator approval is required'')
      @ fail_if (\<not> se_cleanup e) (sign_fail ''cleanup_confirmed''
          ''cleanup confirmation is required'')
      @ fail_if (se_observed_at e = 0) (sign_fail ''observed_at_unix_ms''
          ''observed timestamp is required''))"

definition evaluate_signing_execution_evidence ::
    "signing_evidence \<Rightarrow> signing_execution_approval signing_report" where
  "evaluate_signing_execution_evidence e =
     signing_verdict
       \<lparr>xa_evidence_id = se_evidence_id e, xa_provider = se_provider e, xa_key_uri = se_key_uri e,
        xa_algorithm = se_algorithm e, xa_manifest_sha256 = se_manifest_sha256 e,
        xa_signature_sha256 = se_signature_sha256 e, xa_public_key_sha256 = se_public_key_sha256 e,
        xa_observed_at = se_observed_at e\<rparr>
       (signing_execution_failures e)"

lemma signing_verdict_passed: "sg_passed (signing_verdict a fs) \<longleftrightarrow> fs = []"
  by (simp add: signing_verdict_def Let_def)

text \<open>
  The schemes of providers and of files exclude each other, so the match alone decides, and a
  match already means a KMS or an HSM: the separate checks of the provider never decide alone.
\<close>

lemma provider_uri_not_file:
  "kms_uri u \<Longrightarrow> \<not> is_file_key_uri u" "hsm_uri u \<Longrightarrow> \<not> is_file_key_uri u"
  by (auto simp: kms_uri_def hsm_uri_def is_file_key_uri_def prefix_def)

lemma matches_is_remote:
  "signing_uri_matches_provider k u \<Longrightarrow> k \<in> {KpKms, KpHsm} \<and> \<not> is_file_key_uri u"
  "execution_uri_matches_provider x u \<Longrightarrow> x \<in> {XpPkcs11Hsm, XpExternalHsm, XpCloudKms} \<and> \<not> is_file_key_uri u"
  by (cases k; simp add: provider_uri_not_file) (cases x; simp add: provider_uri_not_file)

lemma key_uri_failures_Nil: "key_uri_failures m t u = [] \<longleftrightarrow> \<not> is_file_key_uri u \<and> m"
  by (simp add: key_uri_failures_def)

lemma signing_profile_exact:
  "sg_passed (evaluate_signing_profile p) \<longleftrightarrow>
     nonblank (sp_profile_id p) \<and> nonblank (sp_public_key_ref p) \<and> nonblank (sp_certificate_chain_ref p)
     \<and> nonblank (sp_attestation_ref p) \<and> sp_non_exportable p \<and> sp_backed p \<and> sp_operator_approved p
     \<and> sp_rotation_days p \<noteq> 0 \<and> sp_rotation_days p \<le> 180 \<and> ChProduction \<in> set (sp_channels p)
     \<and> signing_uri_matches_provider (sp_provider p) (sp_key_uri p)"
  using matches_is_remote(1) [of "sp_provider p" "sp_key_uri p"]
  by (auto simp: evaluate_signing_profile_def signing_verdict_passed signing_profile_failures_def
      key_uri_failures_Nil max_rotation_days_def not_less)

lemma signing_execution_remote:
  "sg_passed (evaluate_signing_execution_evidence e) \<Longrightarrow>
     se_source e = SsLiveProvider \<and> execution_uri_matches_provider (se_provider e) (se_key_uri e)
     \<and> se_verified e \<and> se_generated_in_provider e \<and> se_non_extractable e \<and> se_sensitive e
     \<and> is_sha256_hex (se_signature_sha256 e)"
  by (simp add: evaluate_signing_execution_evidence_def signing_verdict_passed
      signing_execution_failures_def key_uri_failures_Nil)

end
