(* ===== verification/Runtime_Guardrails.thy ===== *)
theory Runtime_Guardrails
  imports Block_Guardrails Release_Gates Rust_Path
begin

text \<open>
  What is claimed for each runtime (\<open>crates/apolysis-validation/src/lib.rs\<close>): the gates for
  evidence from the runtime adapters, gVisor, Kubernetes and Kata, the matrix of guardrail
  support built from it, and the bundle of live evidence the matrix is published with.
\<close>

section \<open>Data\<close>

datatype guardrail_target = GtLocal | GtDocker | GtContainerd | GtKubernetes | GtGvisor | GtKata | GtFirecracker

fun guardrail_target_str :: "guardrail_target \<Rightarrow> string" where
  "guardrail_target_str GtLocal = ''local''"
| "guardrail_target_str GtDocker = ''docker''"
| "guardrail_target_str GtContainerd = ''containerd''"
| "guardrail_target_str GtKubernetes = ''kubernetes''"
| "guardrail_target_str GtGvisor = ''gvisor''"
| "guardrail_target_str GtKata = ''kata''"
| "guardrail_target_str GtFirecracker = ''firecracker''"

datatype support_status =
    GsSupported | GsPrototypeValidated | GsRequiresRuntimeEvidence | GsMetadataOnly | GsBoundaryOnly

record support_entry =
  gs_status :: support_status
  gs_evidence_ids :: "string list"
  gs_note :: string

record guardrail_support =
  gu_runtime :: guardrail_target
  gu_notify :: support_entry
  gu_review :: support_entry
  gu_kill :: support_entry
  gu_seccomp_block :: support_entry
  gu_bpf_lsm_block :: support_entry
  gu_requires_guest_collector :: bool
  gu_no_go_claims :: "string list"

record matrix_report =
  mx_schema_version :: u32
  mx_production_blocking :: bool
  mx_runtimes :: "guardrail_support list"

datatype adapter_source = AsFixture | AsLiveHost

record adapter_evidence =
  ra_evidence_id :: string
  ra_source :: adapter_source
  ra_runtime :: guardrail_target
  ra_adapter :: string
  ra_session_id :: string
  ra_workload_id :: string
  ra_cgroup_id :: u64
  ra_handler :: "string option"
  ra_metadata :: bool
  ra_cgroup :: bool
  ra_host_boundary :: bool
  ra_guest_claimed :: bool

record gvisor_evidence =
  gm_evidence_id :: string
  gm_source :: adapter_source
  gm_adapter_evidence_id :: string
  gm_session_id :: string
  gm_handler :: "string option"
  gm_subjects :: "string list"
  gm_runsc :: bool
  gm_sentry :: bool
  gm_gofer :: bool
  gm_collapsed :: bool
  gm_guest_claimed :: bool

record kubernetes_evidence =
  ks_evidence_id :: string
  ks_source :: adapter_source
  ks_adapter_evidence_id :: string
  ks_session_id :: string
  ks_pod_name :: string
  ks_namespace :: string
  ks_service_account :: "string option"
  ks_runtime_class :: "string option"
  ks_sandbox_name :: "string option"
  ks_node_name :: "string option"
  ks_pod_uid :: "string option"
  ks_host_boundary :: bool
  ks_guest_claimed :: bool

record kata_evidence =
  kb_evidence_id :: string
  kb_source :: adapter_source
  kb_adapter_evidence_id :: string
  kb_session_id :: string
  kb_handler :: "string option"
  kb_subjects :: "string list"
  kb_shim :: bool
  kb_vmm :: bool
  kb_host_boundary :: bool
  kb_guest_collector :: bool
  kb_guest_claimed :: bool

type_synonym 'r evidence_report = "('r, 'r, evidence_failure) gate_report"

section \<open>Tests on handlers and subjects\<close>

definition is_gvisor_handler :: "string \<Rightarrow> bool" where
  "is_gvisor_handler s \<longleftrightarrow>
     str_contains (to_ascii_lowercase s) ''runsc'' \<or> str_contains (to_ascii_lowercase s) ''gvisor''"

definition is_kata_handler :: "string \<Rightarrow> bool" where
  "is_kata_handler s \<longleftrightarrow> str_contains (to_ascii_lowercase s) ''kata''"

definition handler_is :: "(string \<Rightarrow> bool) \<Rightarrow> string option \<Rightarrow> bool" where
  "handler_is P h \<longleftrightarrow> (case h of None \<Rightarrow> False | Some s \<Rightarrow> P s)"

definition optional_nonempty :: "string option \<Rightarrow> bool" where
  "optional_nonempty v \<longleftrightarrow> (case v of None \<Rightarrow> False | Some s \<Rightarrow> nonblank s)"

definition subject_observed :: "string list \<Rightarrow> string \<Rightarrow> bool" where
  "subject_observed subjects needle \<longleftrightarrow>
     list_ex (\<lambda>s. str_contains (to_ascii_lowercase s) needle) subjects"

section \<open>Evidence gates\<close>

definition adapter_failures :: "adapter_evidence \<Rightarrow> evidence_failure list" where
  "adapter_failures r =
     (let i = nonblank_id (ra_evidence_id r) in
      fail_if (\<not> nonblank (ra_evidence_id r))
          (evidence_fail None ''runtime adapter evidence is missing evidence id'')
      @ fail_if (ra_source r \<noteq> AsLiveHost)
          (evidence_fail i ''RuntimeGuardrails runtime guardrail support requires live runtime adapter evidence'')
      @ fail_if (\<not> nonblank (ra_adapter r))
          (evidence_fail i ''runtime adapter evidence is missing adapter name'')
      @ fail_if (\<not> nonblank (ra_session_id r))
          (evidence_fail i ''runtime adapter evidence is missing session id'')
      @ fail_if (\<not> nonblank (ra_workload_id r))
          (evidence_fail i ''runtime adapter evidence is missing workload id'')
      @ fail_if (ra_cgroup_id r = 0)
          (evidence_fail i ''runtime adapter evidence must include a non-zero cgroup id'')
      @ fail_if (\<not> ra_metadata r)
          (evidence_fail i ''runtime adapter evidence must prove metadata correlation'')
      @ fail_if (\<not> ra_cgroup r)
          (evidence_fail i ''runtime adapter evidence must prove cgroup correlation'')
      @ fail_if (\<not> ra_host_boundary r)
          (evidence_fail i ''runtime adapter evidence must prove host-boundary visibility'')
      @ fail_if (ra_guest_claimed r \<and> ra_runtime r \<in> {GtGvisor, GtKata, GtFirecracker})
          (evidence_fail i ''strong-isolation runtime adapter evidence must not claim guest semantics''))"

definition gvisor_failures :: "gvisor_evidence \<Rightarrow> evidence_failure list" where
  "gvisor_failures r =
     (let i = nonblank_id (gm_evidence_id r) in
      fail_if (\<not> nonblank (gm_evidence_id r))
          (evidence_fail None ''gVisor metadata evidence is missing evidence id'')
      @ fail_if (gm_source r \<noteq> AsLiveHost)
          (evidence_fail i ''gVisor metadata evidence requires live-host evidence'')
      @ fail_if (\<not> nonblank (gm_adapter_evidence_id r))
          (evidence_fail i ''gVisor metadata evidence is missing runtime adapter evidence id'')
      @ fail_if (\<not> nonblank (gm_session_id r))
          (evidence_fail i ''gVisor metadata evidence is missing session id'')
      @ fail_if (\<not> handler_is is_gvisor_handler (gm_handler r))
          (evidence_fail i ''gVisor metadata evidence requires a runsc or gvisor runtime handler'')
      @ fail_if (gm_subjects r = [])
          (evidence_fail i ''gVisor metadata evidence must include host event subjects'')
      @ fail_if (\<not> gm_runsc r \<or> \<not> gm_sentry r \<or> \<not> gm_gofer r)
          (evidence_fail i ''gVisor metadata evidence must observe runsc, sentry, and gofer'')
      @ fail_if (\<not> subject_observed (gm_subjects r) ''runsc''
           \<or> \<not> subject_observed (gm_subjects r) ''sentry''
           \<or> \<not> subject_observed (gm_subjects r) ''gofer'')
          (evidence_fail i ''gVisor host event subjects must include runsc, sentry, and gofer'')
      @ fail_if (\<not> gm_collapsed r)
          (evidence_fail i ''gVisor metadata evidence must prove host semantics are collapsed to the runtime boundary'')
      @ fail_if (gm_guest_claimed r)
          (evidence_fail i ''gVisor metadata evidence must not claim guest semantics''))"

definition kubernetes_failures :: "kubernetes_evidence \<Rightarrow> evidence_failure list" where
  "kubernetes_failures r =
     (let i = nonblank_id (ks_evidence_id r) in
      fail_if (\<not> nonblank (ks_evidence_id r))
          (evidence_fail None ''Kubernetes Agent Sandbox evidence is missing evidence id'')
      @ fail_if (ks_source r \<noteq> AsLiveHost)
          (evidence_fail i ''Kubernetes Agent Sandbox evidence requires live-host evidence'')
      @ fail_if (\<not> nonblank (ks_adapter_evidence_id r))
          (evidence_fail i ''Kubernetes Agent Sandbox evidence is missing runtime adapter evidence id'')
      @ fail_if (\<not> nonblank (ks_session_id r))
          (evidence_fail i ''Kubernetes Agent Sandbox evidence is missing session id'')
      @ fail_if (\<not> nonblank (ks_pod_name r))
          (evidence_fail i ''Kubernetes Agent Sandbox evidence is missing pod name'')
      @ fail_if (\<not> nonblank (ks_namespace r))
          (evidence_fail i ''Kubernetes Agent Sandbox evidence is missing namespace'')
      @ fail_if (\<not> optional_nonempty (ks_service_account r))
          (evidence_fail i ''Kubernetes Agent Sandbox evidence is missing service account'')
      @ fail_if (\<not> optional_nonempty (ks_runtime_class r))
          (evidence_fail i ''Kubernetes Agent Sandbox evidence is missing RuntimeClass'')
      @ fail_if (\<not> optional_nonempty (ks_sandbox_name r))
          (evidence_fail i ''Kubernetes Agent Sandbox evidence is missing sandbox name'')
      @ fail_if (\<not> ks_host_boundary r)
          (evidence_fail i ''Kubernetes Agent Sandbox evidence must prove host-boundary visibility'')
      @ fail_if (ks_guest_claimed r)
          (evidence_fail i ''Kubernetes Agent Sandbox evidence must not claim guest semantics''))"

definition kata_failures :: "kata_evidence \<Rightarrow> evidence_failure list" where
  "kata_failures r =
     (let i = nonblank_id (kb_evidence_id r) in
      fail_if (\<not> nonblank (kb_evidence_id r))
          (evidence_fail None ''Kata boundary evidence is missing evidence id'')
      @ fail_if (kb_source r \<noteq> AsLiveHost)
          (evidence_fail i ''Kata boundary evidence requires live-host evidence'')
      @ fail_if (\<not> nonblank (kb_adapter_evidence_id r))
          (evidence_fail i ''Kata boundary evidence is missing runtime adapter evidence id'')
      @ fail_if (\<not> nonblank (kb_session_id r))
          (evidence_fail i ''Kata boundary evidence is missing session id'')
      @ fail_if (\<not> handler_is is_kata_handler (kb_handler r))
          (evidence_fail i ''Kata boundary evidence requires a Kata runtime handler'')
      @ fail_if (kb_subjects r = [])
          (evidence_fail i ''Kata boundary evidence must include host event subjects'')
      @ fail_if (\<not> kb_shim r)
          (evidence_fail i ''Kata boundary evidence must observe the containerd shim'')
      @ fail_if (\<not> kb_vmm r)
          (evidence_fail i ''Kata boundary evidence must observe the VMM'')
      @ fail_if (\<not> subject_observed (kb_subjects r) ''shim'' \<or> \<not> subject_observed (kb_subjects r) ''kata'')
          (evidence_fail i ''Kata host event subjects must include the Kata shim'')
      @ fail_if (\<not> subject_observed (kb_subjects r) ''qemu'' \<and> \<not> subject_observed (kb_subjects r) ''vmm'')
          (evidence_fail i ''Kata host event subjects must include a VMM'')
      @ fail_if (\<not> kb_host_boundary r)
          (evidence_fail i ''Kata boundary evidence must prove host-boundary visibility'')
      @ fail_if (\<not> kb_guest_collector r)
          (evidence_fail i ''Kata boundary evidence must require a guest collector for guest semantics'')
      @ fail_if (kb_guest_claimed r)
          (evidence_fail i ''Kata boundary evidence must not claim guest semantics''))"

text \<open>A round of these gates validates the report itself.\<close>

definition check_evidence ::
    "('r \<Rightarrow> evidence_failure list) \<Rightarrow> 'r \<Rightarrow> evidence_failure list \<times> 'r list" where
  "check_evidence failures r = (failures r, if failures r = [] then [r] else [])"

definition evaluate_adapter_evidence_gate :: "adapter_evidence list \<Rightarrow> adapter_evidence evidence_report" where
  "evaluate_adapter_evidence_gate =
     gate_run (evidence_fail None ''at least one RuntimeGuardrails runtime adapter evidence report is required'')
       (check_evidence adapter_failures)"

definition evaluate_gvisor_evidence_gate :: "gvisor_evidence list \<Rightarrow> gvisor_evidence evidence_report" where
  "evaluate_gvisor_evidence_gate =
     gate_run (evidence_fail None ''at least one RuntimeGuardrails gVisor metadata evidence report is required'')
       (check_evidence gvisor_failures)"

definition evaluate_kubernetes_evidence_gate ::
    "kubernetes_evidence list \<Rightarrow> kubernetes_evidence evidence_report" where
  "evaluate_kubernetes_evidence_gate =
     gate_run
       (evidence_fail None ''at least one RuntimeGuardrails Kubernetes Agent Sandbox evidence report is required'')
       (check_evidence kubernetes_failures)"

definition evaluate_kata_evidence_gate :: "kata_evidence list \<Rightarrow> kata_evidence evidence_report" where
  "evaluate_kata_evidence_gate =
     gate_run (evidence_fail None ''at least one RuntimeGuardrails Kata boundary evidence report is required'')
       (check_evidence kata_failures)"

section \<open>The matrix of support\<close>

definition support_entry_of :: "support_status \<Rightarrow> string list \<Rightarrow> string \<Rightarrow> support_entry" where
  "support_entry_of st ids note = \<lparr>gs_status = st, gs_evidence_ids = ids, gs_note = note\<rparr>"

definition local_block_entry :: "string list \<Rightarrow> string \<Rightarrow> support_entry" where
  "local_block_entry ids label =
     (if ids = [] then
        support_entry_of GsRequiresRuntimeEvidence ids
          (label @ '' requires live local PolicyGuardrails validation evidence'')
      else
        support_entry_of GsPrototypeValidated ids
          (label @ '' has narrow live local file-read prototype evidence only''))"

definition runtime_evidence_required :: "string \<Rightarrow> support_entry" where
  "runtime_evidence_required capability =
     support_entry_of GsRequiresRuntimeEvidence []
       (capability @ '' requires runtime-specific live prevention evidence'')"

definition metadata_only_block :: "string \<Rightarrow> string list \<Rightarrow> support_entry" where
  "metadata_only_block capability ids =
     support_entry_of GsMetadataOnly ids
       (capability @ '' is metadata-only until guest/runtime prevention semantics are proven'')"

definition boundary_only_block :: "string \<Rightarrow> string list \<Rightarrow> support_entry" where
  "boundary_only_block capability ids =
     support_entry_of GsBoundaryOnly ids
       (capability @ '' is boundary-only without guest collector evidence'')"

definition local_block_proof :: "string \<Rightarrow> block_validation_report \<Rightarrow> bool" where
  "local_block_proof backend r \<longleftrightarrow>
     bv_source r = VsLiveHost \<and> bv_runtime r = VrLocal \<and> bv_action r = VaFileRead
     \<and> bv_backend r = backend \<and> bv_prevention r \<and> bv_latency r \<noteq> None \<and> bv_race_window r = Some 0
     \<and> (if backend = ''seccomp_block'' then bv_seccomp r
        else if backend = ''bpf_lsm_block'' then bv_bpf_lsm r else False)"

definition validated_local_block_evidence :: "block_validation_report list \<Rightarrow> string \<Rightarrow> string list" where
  "validated_local_block_evidence rs backend = map bv_evidence_id (filter (local_block_proof backend) rs)"

text \<open>The ids by runtime; a runtime without an entry has none.\<close>

definition adapter_ids :: "adapter_evidence evidence_report \<Rightarrow> guardrail_target \<Rightarrow> string list" where
  "adapter_ids g =
     (if \<not> gr_passed g then (\<lambda>_. [])
      else fold (\<lambda>r m. m(ra_runtime r := m (ra_runtime r) @ [ra_evidence_id r])) (gr_validated g) (\<lambda>_. []))"

definition evidence_ids :: "('r \<Rightarrow> string) \<Rightarrow> 'r evidence_report \<Rightarrow> string list" where
  "evidence_ids id_of g = (if \<not> gr_passed g then [] else map id_of (gr_validated g))"

definition merge_evidence_ids :: "string list \<Rightarrow> string list \<Rightarrow> string list" where
  "merge_evidence_ids left right = sorted_list_of_set (set left \<union> set right)"

definition local_support :: "string list \<Rightarrow> string list \<Rightarrow> guardrail_support" where
  "local_support seccomp bpf_lsm =
     \<lparr>gu_runtime = GtLocal,
      gu_notify = support_entry_of GsSupported []
        ''audit timeline can emit notify findings for local process sessions'',
      gu_review = support_entry_of GsSupported []
        ''review findings can be attached to local session evidence'',
      gu_kill = support_entry_of GsSupported []
        ''post-event kill containment is available for local process sessions'',
      gu_seccomp_block = local_block_entry seccomp ''seccomp_block'',
      gu_bpf_lsm_block = local_block_entry bpf_lsm ''bpf_lsm_block'',
      gu_requires_guest_collector = False,
      gu_no_go_claims =
        [''local block prototypes are not production-facing kernel blocking'',
         ''block remains opt-in and must keep validation, approval, rollback, and audit evidence'']\<rparr>"

definition docker_support :: "string list \<Rightarrow> guardrail_support" where
  "docker_support ids =
     \<lparr>gu_runtime = GtDocker,
      gu_notify = support_entry_of GsSupported ids
        ''Docker metadata correlation supports accountable notify findings'',
      gu_review = support_entry_of GsSupported ids
        ''Docker workload identity can be attached to review findings'',
      gu_kill = support_entry_of GsSupported ids
        ''Docker workload metadata supports post-event kill containment decisions'',
      gu_seccomp_block = runtime_evidence_required ''Docker seccomp block'',
      gu_bpf_lsm_block = runtime_evidence_required ''Docker BPF-LSM block'',
      gu_requires_guest_collector = False,
      gu_no_go_claims =
        [''Docker block support must not inherit local-only PolicyGuardrails evidence'',
         ''runtime-specific live evidence is required before any Docker block enablement'']\<rparr>"

definition containerd_support :: "string list \<Rightarrow> guardrail_support" where
  "containerd_support ids =
     \<lparr>gu_runtime = GtContainerd,
      gu_notify = support_entry_of GsSupported ids
        ''containerd task metadata supports accountable notify findings'',
      gu_review = support_entry_of GsSupported ids
        ''containerd workload identity can be attached to review findings'',
      gu_kill = support_entry_of GsSupported ids
        ''containerd task metadata supports post-event kill containment decisions'',
      gu_seccomp_block = runtime_evidence_required ''containerd seccomp block'',
      gu_bpf_lsm_block = runtime_evidence_required ''containerd BPF-LSM block'',
      gu_requires_guest_collector = False,
      gu_no_go_claims =
        [''containerd block support must not inherit local-only PolicyGuardrails evidence'',
         ''runtime-specific live evidence is required before any containerd block enablement'']\<rparr>"

definition kubernetes_support :: "string list \<Rightarrow> guardrail_support" where
  "kubernetes_support ids =
     \<lparr>gu_runtime = GtKubernetes,
      gu_notify = support_entry_of GsSupported ids
        ''Pod, namespace, service account, and RuntimeClass metadata support notify findings'',
      gu_review = support_entry_of GsSupported ids
        ''Kubernetes identity can be attached to review findings'',
      gu_kill = support_entry_of GsSupported ids
        ''Kubernetes workload identity supports post-event containment decisions'',
      gu_seccomp_block = runtime_evidence_required ''Kubernetes seccomp block'',
      gu_bpf_lsm_block = runtime_evidence_required ''Kubernetes BPF-LSM block'',
      gu_requires_guest_collector = False,
      gu_no_go_claims =
        [''Kubernetes block support must not inherit local-only PolicyGuardrails evidence'',
         ''RuntimeClass-specific live evidence is required before any Kubernetes block enablement'']\<rparr>"

definition gvisor_support :: "string list \<Rightarrow> guardrail_support" where
  "gvisor_support ids =
     \<lparr>gu_runtime = GtGvisor,
      gu_notify = support_entry_of GsSupported ids
        ''runsc, sentry, and gofer metadata can identify the sandbox boundary'',
      gu_review = support_entry_of GsSupported ids
        ''gVisor metadata can support review findings without claiming guest syscall semantics'',
      gu_kill = support_entry_of GsRequiresRuntimeEvidence ids
        ''kill containment needs runtime-specific evidence for runsc/sentry/gofer behavior'',
      gu_seccomp_block = metadata_only_block ''gVisor seccomp block'' ids,
      gu_bpf_lsm_block = metadata_only_block ''gVisor BPF-LSM block'' ids,
      gu_requires_guest_collector = False,
      gu_no_go_claims =
        [''host-side evidence must not claim gVisor guest syscall semantics'',
         ''block support is metadata-only until runtime-specific prevention is proven'']\<rparr>"

definition kata_support :: "string list \<Rightarrow> guardrail_support" where
  "kata_support ids =
     \<lparr>gu_runtime = GtKata,
      gu_notify = support_entry_of GsBoundaryOnly ids
        ''host visibility can identify the Kata VM boundary'',
      gu_review = support_entry_of GsBoundaryOnly ids
        ''review findings must be scoped to host-boundary evidence unless a guest collector exists'',
      gu_kill = support_entry_of GsBoundaryOnly ids
        ''kill containment is limited to boundary-level actions without guest evidence'',
      gu_seccomp_block = boundary_only_block ''Kata seccomp block'' ids,
      gu_bpf_lsm_block = boundary_only_block ''Kata BPF-LSM block'' ids,
      gu_requires_guest_collector = True,
      gu_no_go_claims =
        [''host-side kernel block must not claim Kata guest-semantic prevention'',
         ''guest collector evidence is required for guest-semantic guardrail claims'']\<rparr>"

definition firecracker_support :: "string list \<Rightarrow> guardrail_support" where
  "firecracker_support ids =
     \<lparr>gu_runtime = GtFirecracker,
      gu_notify = support_entry_of GsBoundaryOnly ids
        ''Firecracker support remains a host-boundary research prototype'',
      gu_review = support_entry_of GsBoundaryOnly ids
        ''review findings must be scoped to the VM boundary in the research prototype'',
      gu_kill = support_entry_of GsBoundaryOnly ids
        ''kill containment is limited to boundary-level research behavior'',
      gu_seccomp_block = boundary_only_block ''Firecracker seccomp block'' ids,
      gu_bpf_lsm_block = boundary_only_block ''Firecracker BPF-LSM block'' ids,
      gu_requires_guest_collector = True,
      gu_no_go_claims =
        [''Firecracker is not a production runtime lifecycle manager in RuntimeGuardrails'',
         ''host-side kernel block must not claim Firecracker guest-semantic prevention'']\<rparr>"

definition guardrail_matrix ::
    "block_validation_report list \<Rightarrow> adapter_evidence evidence_report \<Rightarrow> gvisor_evidence evidence_report
     \<Rightarrow> kubernetes_evidence evidence_report \<Rightarrow> kata_evidence evidence_report \<Rightarrow> matrix_report" where
  "guardrail_matrix rs adapter gvisor kubernetes kata =
     \<lparr>mx_schema_version = 1, mx_production_blocking = False,
      mx_runtimes =
        [local_support (validated_local_block_evidence rs ''seccomp_block'')
           (validated_local_block_evidence rs ''bpf_lsm_block''),
         docker_support (adapter_ids adapter GtDocker),
         containerd_support (adapter_ids adapter GtContainerd),
         kubernetes_support
           (merge_evidence_ids (adapter_ids adapter GtKubernetes) (evidence_ids ks_evidence_id kubernetes)),
         gvisor_support
           (merge_evidence_ids (adapter_ids adapter GtGvisor) (evidence_ids gm_evidence_id gvisor)),
         kata_support
           (merge_evidence_ids (adapter_ids adapter GtKata) (evidence_ids kb_evidence_id kata)),
         firecracker_support (adapter_ids adapter GtFirecracker)]\<rparr>"

text \<open>The entry points that leave some of the evidence out give an empty, passed report for it.\<close>

definition empty_passed :: "'r evidence_report" where
  "empty_passed =
     \<lparr>gr_schema_version = 1, gr_passed = True, gr_reports = [], gr_validated = [], gr_failures = []\<rparr>"

definition guardrail_matrix_with_gvisor ::
    "block_validation_report list \<Rightarrow> adapter_evidence evidence_report \<Rightarrow> gvisor_evidence evidence_report
     \<Rightarrow> matrix_report" where
  "guardrail_matrix_with_gvisor rs adapter gvisor =
     guardrail_matrix rs adapter gvisor empty_passed empty_passed"

definition guardrail_matrix_with_kubernetes ::
    "block_validation_report list \<Rightarrow> adapter_evidence evidence_report \<Rightarrow> kubernetes_evidence evidence_report
     \<Rightarrow> matrix_report" where
  "guardrail_matrix_with_kubernetes rs adapter kubernetes =
     guardrail_matrix rs adapter empty_passed kubernetes empty_passed"

definition guardrail_matrix_with_kata ::
    "block_validation_report list \<Rightarrow> adapter_evidence evidence_report \<Rightarrow> kata_evidence evidence_report
     \<Rightarrow> matrix_report" where
  "guardrail_matrix_with_kata rs adapter kata =
     guardrail_matrix rs adapter empty_passed empty_passed kata"

definition guardrail_matrix_with_adapter ::
    "block_validation_report list \<Rightarrow> adapter_evidence evidence_report \<Rightarrow> matrix_report" where
  "guardrail_matrix_with_adapter rs adapter = guardrail_matrix_with_gvisor rs adapter empty_passed"

definition guardrail_matrix_local :: "block_validation_report list \<Rightarrow> matrix_report" where
  "guardrail_matrix_local rs = guardrail_matrix_with_adapter rs empty_passed"

section \<open>The bundle of live evidence\<close>

record bundle_request =
  bu_artifact_dir :: string
  bu_visibility :: "visibility_report list"
  bu_block :: "block_validation_report list"
  bu_adapter :: "adapter_evidence list"
  bu_gvisor :: "gvisor_evidence list"
  bu_kubernetes :: "kubernetes_evidence list"
  bu_kata :: "kata_evidence list"

record bundle_report =
  bn_schema_version :: u32
  bn_passed :: bool
  bn_artifact_dir :: string
  bn_visibility_gate :: visibility_gate_report
  bn_matrix :: "matrix_report option"
  bn_failures :: "string list"

definition required_live_artifacts :: "string list" where
  "required_live_artifacts =
     [''backup-manifest.json'', ''service-state.json'', ''kubernetes-context.json'', ''restore-plan.json'',
      ''runtime-registration-report.json'', ''restore-execution-report.json'']"

definition optional_gate ::
    "('r list \<Rightarrow> 'r evidence_report) \<Rightarrow> string \<Rightarrow> 'r list \<Rightarrow> 'r evidence_report \<times> string list" where
  "optional_gate gate message rs =
     (if rs = [] then (empty_passed, [])
      else (gate rs, fail_if (\<not> gr_passed (gate rs)) message))"

text \<open>
  \<open>is_file\<close> tells which paths are files; a directory is written as \<open>Path::display\<close> prints it,
  which for text is the text.
\<close>

definition evaluate_live_evidence_bundle :: "(string \<Rightarrow> bool) \<Rightarrow> bundle_request \<Rightarrow> bundle_report" where
  "evaluate_live_evidence_bundle is_file q =
     (let dir = bu_artifact_dir q;
          artifact_fs = concat (map (\<lambda>a. let p = path_join dir a in
            fail_if (\<not> is_file p) (''runtime adapter matrix artifact missing required file: '' @ p))
            required_live_artifacts);
          vg = evaluate_visibility_report_gate (bu_visibility q);
          visibility_fs = fail_if (\<not> vg_passed vg)
            ''RuntimeGuardrails live runtime evidence requires a passed RuntimeFoundation visibility report gate'';
          marker_fs = concat (map (\<lambda>r. fail_if (\<not> str_contains (vi_source r) dir)
            (''visibility evidence source for '' @ visibility_target_str (vi_target r)
             @ '' must reference runtime adapter matrix artifact '' @ dir)) (vg_reports vg));
          ag = evaluate_adapter_evidence_gate (bu_adapter q);
          adapter_fs = fail_if (\<not> gr_passed ag)
            ''RuntimeGuardrails live runtime evidence requires a passed runtime adapter evidence gate'';
          (gg, gvisor_fs) = optional_gate evaluate_gvisor_evidence_gate
            ''RuntimeGuardrails live runtime evidence requires a passed gVisor metadata evidence gate''
            (bu_gvisor q);
          (kg, kubernetes_fs) = optional_gate evaluate_kubernetes_evidence_gate
            ''RuntimeGuardrails live runtime evidence requires a passed Kubernetes Agent Sandbox evidence gate''
            (bu_kubernetes q);
          (tg, kata_fs) = optional_gate evaluate_kata_evidence_gate
            ''RuntimeGuardrails live runtime evidence requires a passed Kata boundary evidence gate''
            (bu_kata q);
          fs = artifact_fs @ visibility_fs @ marker_fs @ adapter_fs @ gvisor_fs @ kubernetes_fs @ kata_fs
      in \<lparr>bn_schema_version = 1, bn_passed = (fs = []), bn_artifact_dir = dir, bn_visibility_gate = vg,
          bn_matrix = (if fs = [] then Some (guardrail_matrix (bu_block q) ag gg kg tg) else None),
          bn_failures = fs\<rparr>)"

section \<open>What the gates let through\<close>

lemma check_evidence_gate: "gate_check (check_evidence f) (\<lambda>r. f r = []) (\<lambda>r. r)"
  by unfold_locales (simp_all add: check_evidence_def)

interpretation ag: gate_check "check_evidence adapter_failures" "\<lambda>r. adapter_failures r = []" "\<lambda>r. r"
  by (rule check_evidence_gate)

interpretation gg: gate_check "check_evidence gvisor_failures" "\<lambda>r. gvisor_failures r = []" "\<lambda>r. r"
  by (rule check_evidence_gate)

interpretation kg: gate_check "check_evidence kubernetes_failures" "\<lambda>r. kubernetes_failures r = []" "\<lambda>r. r"
  by (rule check_evidence_gate)

interpretation tg: gate_check "check_evidence kata_failures" "\<lambda>r. kata_failures r = []" "\<lambda>r. r"
  by (rule check_evidence_gate)

lemma adapter_failures_Nil:
  "adapter_failures r = [] \<Longrightarrow>
     nonblank (ra_evidence_id r) \<and> ra_source r = AsLiveHost \<and> ra_cgroup_id r \<noteq> 0 \<and> ra_metadata r
     \<and> ra_cgroup r \<and> ra_host_boundary r
     \<and> \<not> (ra_guest_claimed r \<and> ra_runtime r \<in> {GtGvisor, GtKata, GtFirecracker})"
  by (simp add: adapter_failures_def Let_def)

lemma gvisor_failures_Nil:
  "gvisor_failures r = [] \<Longrightarrow> gm_source r = AsLiveHost \<and> gm_collapsed r \<and> \<not> gm_guest_claimed r"
  by (simp add: gvisor_failures_def Let_def)

lemma kubernetes_failures_Nil:
  "kubernetes_failures r = [] \<Longrightarrow> ks_source r = AsLiveHost \<and> ks_host_boundary r \<and> \<not> ks_guest_claimed r"
  by (simp add: kubernetes_failures_def Let_def)

lemma kata_failures_Nil:
  "kata_failures r = [] \<Longrightarrow> kb_source r = AsLiveHost \<and> kb_host_boundary r \<and> \<not> kb_guest_claimed r"
  by (simp add: kata_failures_def Let_def)

text \<open>Whether live evidence of the request stands behind an id listed for a runtime.\<close>

definition id_backed :: "bundle_request \<Rightarrow> guardrail_target \<Rightarrow> string \<Rightarrow> bool" where
  "id_backed q t i \<longleftrightarrow>
     list_ex (\<lambda>r. ra_evidence_id r = i \<and> ra_runtime r = t \<and> ra_source r = AsLiveHost \<and> ra_host_boundary r
       \<and> \<not> (ra_guest_claimed r \<and> t \<in> {GtGvisor, GtKata, GtFirecracker})) (bu_adapter q)
     \<or> t = GtGvisor \<and> list_ex (\<lambda>r. gm_evidence_id r = i \<and> gm_source r = AsLiveHost \<and> gm_collapsed r
         \<and> \<not> gm_guest_claimed r) (bu_gvisor q)
     \<or> t = GtKubernetes \<and> list_ex (\<lambda>r. ks_evidence_id r = i \<and> ks_source r = AsLiveHost \<and> ks_host_boundary r
         \<and> \<not> ks_guest_claimed r) (bu_kubernetes q)
     \<or> t = GtKata \<and> list_ex (\<lambda>r. kb_evidence_id r = i \<and> kb_source r = AsLiveHost \<and> kb_host_boundary r
         \<and> \<not> kb_guest_claimed r) (bu_kata q)"

text \<open>
  A report of the request that shows a local prototype of a backend: seen on a live host with the backend there,
  it prevented a local file read before it happened, with a measured latency and no race window.
\<close>

definition seccomp_shown :: "block_validation_report \<Rightarrow> bool" where
  "seccomp_shown r \<longleftrightarrow>
     bv_backend r = ''seccomp_block'' \<and> bv_seccomp r
     \<and> bv_source r = VsLiveHost \<and> bv_runtime r = VrLocal \<and> bv_action r = VaFileRead
     \<and> bv_prevention r \<and> (\<exists>ns. bv_latency r = Some ns) \<and> bv_race_window r = Some 0"

definition bpf_lsm_shown :: "block_validation_report \<Rightarrow> bool" where
  "bpf_lsm_shown r \<longleftrightarrow>
     bv_backend r = ''bpf_lsm_block'' \<and> bv_bpf_lsm r
     \<and> bv_source r = VsLiveHost \<and> bv_runtime r = VrLocal \<and> bv_action r = VaFileRead
     \<and> bv_prevention r \<and> (\<exists>ns. bv_latency r = Some ns) \<and> bv_race_window r = Some 0"

text \<open>The ids of all the evidence of the request for a runtime.\<close>

definition evidence_for :: "bundle_request \<Rightarrow> guardrail_target \<Rightarrow> string set" where
  "evidence_for q t =
     {ra_evidence_id r | r. r \<in> set (bu_adapter q) \<and> ra_runtime r = t}
     \<union> (case t of
          GtGvisor \<Rightarrow> gm_evidence_id ` set (bu_gvisor q)
        | GtKubernetes \<Rightarrow> ks_evidence_id ` set (bu_kubernetes q)
        | GtKata \<Rightarrow> kb_evidence_id ` set (bu_kata q)
        | _ \<Rightarrow> {})"

definition block_backed ::
    "bundle_request \<Rightarrow> (block_validation_report \<Rightarrow> bool) \<Rightarrow> guardrail_target \<Rightarrow> support_entry \<Rightarrow> bool" where
  "block_backed q shown t e \<longleftrightarrow>
     gs_status e \<noteq> GsSupported
     \<and> (if t = GtLocal then
          (gs_status e = GsPrototypeValidated \<longleftrightarrow> list_ex shown (bu_block q))
          \<and> gs_evidence_ids e = map bv_evidence_id (filter shown (bu_block q))
        else gs_status e \<noteq> GsPrototypeValidated \<and> list_all (id_backed q t) (gs_evidence_ids e))"

definition support_backed :: "bundle_request \<Rightarrow> guardrail_support \<Rightarrow> bool" where
  "support_backed q u \<longleftrightarrow>
     list_all (id_backed q (gu_runtime u))
       (gs_evidence_ids (gu_notify u) @ gs_evidence_ids (gu_review u) @ gs_evidence_ids (gu_kill u))
     \<and> (gu_runtime u = GtLocal \<or> set (gs_evidence_ids (gu_notify u)) = evidence_for q (gu_runtime u))
     \<and> block_backed q seccomp_shown (gu_runtime u) (gu_seccomp_block u)
     \<and> block_backed q bpf_lsm_shown (gu_runtime u) (gu_bpf_lsm_block u)"

lemma support_entry_simps [simp]:
  "gs_status (support_entry_of st ids n) = st" "gs_evidence_ids (support_entry_of st ids n) = ids"
  "gs_status (runtime_evidence_required c) = GsRequiresRuntimeEvidence"
  "gs_evidence_ids (runtime_evidence_required c) = []"
  "gs_status (metadata_only_block c ids) = GsMetadataOnly" "gs_evidence_ids (metadata_only_block c ids) = ids"
  "gs_status (boundary_only_block c ids) = GsBoundaryOnly" "gs_evidence_ids (boundary_only_block c ids) = ids"
  by (simp_all add: support_entry_of_def runtime_evidence_required_def metadata_only_block_def
      boundary_only_block_def)

lemma local_block_proof_shown:
  "local_block_proof ''seccomp_block'' = seccomp_shown" "local_block_proof ''bpf_lsm_block'' = bpf_lsm_shown"
  by (auto simp: fun_eq_iff local_block_proof_def seccomp_shown_def bpf_lsm_shown_def)

lemma local_entry_backed:
  "block_backed q (local_block_proof backend) GtLocal
     (local_block_entry (validated_local_block_evidence (bu_block q) backend) label)"
  by (auto simp: block_backed_def local_block_entry_def validated_local_block_evidence_def
      list_ex_iff filter_empty_conv)

lemma adapter_ids_fold:
  "fold (\<lambda>r m. m(ra_runtime r := m (ra_runtime r) @ [ra_evidence_id r])) rs m t =
     m t @ map ra_evidence_id (filter (\<lambda>r. ra_runtime r = t) rs)"
  by (induction rs arbitrary: m) auto

lemma adapter_ids_backed:
  "list_all (id_backed q t) (adapter_ids (evaluate_adapter_evidence_gate (bu_adapter q)) t)"
  by (auto simp: adapter_ids_def adapter_ids_fold evaluate_adapter_evidence_gate_def ag.run_passed
      ag.run_validated list_all_iff id_backed_def list_ex_iff dest: adapter_failures_Nil)

lemma gvisor_ids_backed:
  "list_all (id_backed q GtGvisor)
     (evidence_ids gm_evidence_id (fst (optional_gate evaluate_gvisor_evidence_gate m (bu_gvisor q))))"
  by (auto simp: optional_gate_def evidence_ids_def empty_passed_def evaluate_gvisor_evidence_gate_def
      gg.run_passed gg.run_validated list_all_iff id_backed_def list_ex_iff dest: gvisor_failures_Nil)

lemma kubernetes_ids_backed:
  "list_all (id_backed q GtKubernetes)
     (evidence_ids ks_evidence_id (fst (optional_gate evaluate_kubernetes_evidence_gate m (bu_kubernetes q))))"
  by (auto simp: optional_gate_def evidence_ids_def empty_passed_def evaluate_kubernetes_evidence_gate_def
      kg.run_passed kg.run_validated list_all_iff id_backed_def list_ex_iff dest: kubernetes_failures_Nil)

lemma kata_ids_backed:
  "list_all (id_backed q GtKata)
     (evidence_ids kb_evidence_id (fst (optional_gate evaluate_kata_evidence_gate m (bu_kata q))))"
  by (auto simp: optional_gate_def evidence_ids_def empty_passed_def evaluate_kata_evidence_gate_def
      tg.run_passed tg.run_validated list_all_iff id_backed_def list_ex_iff dest: kata_failures_Nil)

lemma list_all_merge [simp]:
  "list_all P (merge_evidence_ids xs ys) \<longleftrightarrow> list_all P xs \<and> list_all P ys"
  by (auto simp: merge_evidence_ids_def list_all_iff)

lemmas support_defs =
  local_support_def docker_support_def containerd_support_def kubernetes_support_def gvisor_support_def
  kata_support_def firecracker_support_def

lemma local_support_backed:
  "support_backed q (local_support (validated_local_block_evidence (bu_block q) ''seccomp_block'')
     (validated_local_block_evidence (bu_block q) ''bpf_lsm_block''))"
  using local_entry_backed [of q "''seccomp_block''" "''seccomp_block''"]
    local_entry_backed [of q "''bpf_lsm_block''" "''bpf_lsm_block''"]
  by (simp add: support_backed_def local_support_def local_block_proof_shown)

lemma remote_support_backed:
  "list_all (id_backed q GtDocker) ids \<Longrightarrow> set ids = evidence_for q GtDocker \<Longrightarrow> support_backed q (docker_support ids)"
  "list_all (id_backed q GtContainerd) ids \<Longrightarrow> set ids = evidence_for q GtContainerd \<Longrightarrow>
    support_backed q (containerd_support ids)"
  "list_all (id_backed q GtKubernetes) ids \<Longrightarrow> set ids = evidence_for q GtKubernetes \<Longrightarrow>
    support_backed q (kubernetes_support ids)"
  "list_all (id_backed q GtGvisor) ids \<Longrightarrow> set ids = evidence_for q GtGvisor \<Longrightarrow> support_backed q (gvisor_support ids)"
  "list_all (id_backed q GtKata) ids \<Longrightarrow> set ids = evidence_for q GtKata \<Longrightarrow> support_backed q (kata_support ids)"
  "list_all (id_backed q GtFirecracker) ids \<Longrightarrow> set ids = evidence_for q GtFirecracker \<Longrightarrow>
    support_backed q (firecracker_support ids)"
  by (simp_all add: support_backed_def block_backed_def support_defs)

text \<open>A gate that passes validates all of its evidence.\<close>

lemma passed_adapter_ids:
  "gr_passed (evaluate_adapter_evidence_gate rs) \<Longrightarrow>
     set (adapter_ids (evaluate_adapter_evidence_gate rs) t) = {ra_evidence_id r | r. r \<in> set rs \<and> ra_runtime r = t}"
  by (auto simp: adapter_ids_def adapter_ids_fold evaluate_adapter_evidence_gate_def ag.run_passed
      ag.run_validated list_all_iff image_iff)

lemma optional_gate_fine: "snd (optional_gate gate message rs) = [] \<longleftrightarrow> rs = [] \<or> gr_passed (gate rs)"
  by (simp add: optional_gate_def fail_if_def)

lemma passed_evidence_ids:
  "snd (optional_gate evaluate_gvisor_evidence_gate m1 gs) = [] \<Longrightarrow>
     set (evidence_ids gm_evidence_id (fst (optional_gate evaluate_gvisor_evidence_gate m1 gs))) = gm_evidence_id ` set gs"
  "snd (optional_gate evaluate_kubernetes_evidence_gate m2 ks) = [] \<Longrightarrow>
     set (evidence_ids ks_evidence_id (fst (optional_gate evaluate_kubernetes_evidence_gate m2 ks)))
       = ks_evidence_id ` set ks"
  "snd (optional_gate evaluate_kata_evidence_gate m3 ts) = [] \<Longrightarrow>
     set (evidence_ids kb_evidence_id (fst (optional_gate evaluate_kata_evidence_gate m3 ts))) = kb_evidence_id ` set ts"
  by (auto simp: optional_gate_fine optional_gate_def evidence_ids_def empty_passed_def
      evaluate_gvisor_evidence_gate_def evaluate_kubernetes_evidence_gate_def evaluate_kata_evidence_gate_def
      gg.run_passed gg.run_validated kg.run_passed kg.run_validated tg.run_passed tg.run_validated list_all_iff)

lemma set_merge [simp]: "set (merge_evidence_ids xs ys) = set xs \<union> set ys"
  by (simp add: merge_evidence_ids_def)

lemma bundle_matrix:
  assumes "bn_matrix (evaluate_live_evidence_bundle is_file q) = Some m"
  obtains m1 m2 m3 where
    "m = guardrail_matrix (bu_block q) (evaluate_adapter_evidence_gate (bu_adapter q))
         (fst (optional_gate evaluate_gvisor_evidence_gate m1 (bu_gvisor q)))
         (fst (optional_gate evaluate_kubernetes_evidence_gate m2 (bu_kubernetes q)))
         (fst (optional_gate evaluate_kata_evidence_gate m3 (bu_kata q)))"
    "gr_passed (evaluate_adapter_evidence_gate (bu_adapter q))"
    "snd (optional_gate evaluate_gvisor_evidence_gate m1 (bu_gvisor q)) = []"
    "snd (optional_gate evaluate_kubernetes_evidence_gate m2 (bu_kubernetes q)) = []"
    "snd (optional_gate evaluate_kata_evidence_gate m3 (bu_kata q)) = []"
proof (rule that)
  let ?m1 = "''RuntimeGuardrails live runtime evidence requires a passed gVisor metadata evidence gate''"
    and ?m2 = "''RuntimeGuardrails live runtime evidence requires a passed Kubernetes Agent Sandbox evidence gate''"
    and ?m3 = "''RuntimeGuardrails live runtime evidence requires a passed Kata boundary evidence gate''"
  show "m = guardrail_matrix (bu_block q) (evaluate_adapter_evidence_gate (bu_adapter q))
      (fst (optional_gate evaluate_gvisor_evidence_gate ?m1 (bu_gvisor q)))
      (fst (optional_gate evaluate_kubernetes_evidence_gate ?m2 (bu_kubernetes q)))
      (fst (optional_gate evaluate_kata_evidence_gate ?m3 (bu_kata q)))"
    using assms by (simp add: evaluate_live_evidence_bundle_def Let_def split_def split: if_splits)
  show "gr_passed (evaluate_adapter_evidence_gate (bu_adapter q))"
    using assms by (simp add: evaluate_live_evidence_bundle_def Let_def split_def split: if_splits)
  show "snd (optional_gate evaluate_gvisor_evidence_gate ?m1 (bu_gvisor q)) = []"
    "snd (optional_gate evaluate_kubernetes_evidence_gate ?m2 (bu_kubernetes q)) = []"
    "snd (optional_gate evaluate_kata_evidence_gate ?m3 (bu_kata q)) = []"
    using assms by (simp_all add: evaluate_live_evidence_bundle_def Let_def split_def split: if_splits)
qed

text \<open>C33. The published matrix claims what the evidence shows, no more and no less. Whenever the
  bundle yields a matrix, it lists every runtime once and does not claim production blocking, and
  for each runtime: every evidence id it lists is that of evidence in the bundle for that
  runtime, observed on a live host at the host boundary, and for gVisor, Kata and Firecracker
  without a claim on what happens inside the guest; and the remote runtimes list the ids of all the evidence
  for them. Blocking is never called supported. It is called a validated prototype only for local processes, exactly when
  the bundle has a report from a live host, with the backend there, of a local file read that was
  prevented with a measured latency and no race window; and the ids of exactly these reports are listed.\<close>

theorem matrix_claims_backed:
  assumes "bn_matrix (evaluate_live_evidence_bundle is_file q) = Some m"
  shows "\<not> mx_production_blocking m
     \<and> map gu_runtime (mx_runtimes m) =
         [GtLocal, GtDocker, GtContainerd, GtKubernetes, GtGvisor, GtKata, GtFirecracker]
     \<and> list_all (support_backed q) (mx_runtimes m)"
proof (rule bundle_matrix [OF assms])
  fix m1 m2 m3
  let ?gg = "optional_gate evaluate_gvisor_evidence_gate m1 (bu_gvisor q)"
    and ?kg = "optional_gate evaluate_kubernetes_evidence_gate m2 (bu_kubernetes q)"
    and ?tg = "optional_gate evaluate_kata_evidence_gate m3 (bu_kata q)"
  assume m: "m = guardrail_matrix (bu_block q) (evaluate_adapter_evidence_gate (bu_adapter q)) (fst ?gg) (fst ?kg) (fst ?tg)"
    and passed: "gr_passed (evaluate_adapter_evidence_gate (bu_adapter q))" "snd ?gg = []" "snd ?kg = []" "snd ?tg = []"
  have "map gu_runtime (mx_runtimes m) =
      [GtLocal, GtDocker, GtContainerd, GtKubernetes, GtGvisor, GtKata, GtFirecracker]"
    unfolding m guardrail_matrix_def by (simp add: support_defs)
  moreover have "list_all (support_backed q) (mx_runtimes m)"
    unfolding m guardrail_matrix_def
    by (simp add: local_support_backed remote_support_backed adapter_ids_backed gvisor_ids_backed
        kubernetes_ids_backed kata_ids_backed passed_adapter_ids [OF passed(1)] passed_evidence_ids(1) [OF passed(2)]
        passed_evidence_ids(2) [OF passed(3)] passed_evidence_ids(3) [OF passed(4)] evidence_for_def)
  ultimately show ?thesis unfolding m guardrail_matrix_def by simp
qed

definition sample_adapter :: "guardrail_target \<Rightarrow> adapter_evidence" where
  "sample_adapter t =
     \<lparr>ra_evidence_id = ''ra-1'', ra_source = AsLiveHost, ra_runtime = t, ra_adapter = ''docker'',
      ra_session_id = ''s'', ra_workload_id = ''w'', ra_cgroup_id = 7, ra_handler = None,
      ra_metadata = True, ra_cgroup = True, ra_host_boundary = True, ra_guest_claimed = False\<rparr>"

definition sample_gvisor :: gvisor_evidence where
  "sample_gvisor =
     \<lparr>gm_evidence_id = ''gv-1'', gm_source = AsLiveHost, gm_adapter_evidence_id = ''ra-1'',
      gm_session_id = ''s'', gm_handler = Some ''runsc'', gm_subjects = [''runsc'', ''Sentry'', ''gofer''],
      gm_runsc = True, gm_sentry = True, gm_gofer = True, gm_collapsed = True, gm_guest_claimed = False\<rparr>"

definition sample_bundle :: bundle_request where
  "sample_bundle =
     \<lparr>bu_artifact_dir = ''/var/x'',
      bu_visibility = map (\<lambda>t. \<lparr>vi_target = t, vi_live = True, vi_source = ''/var/x/log'',
        vi_scope = ''host'', vi_guest = False\<rparr>) required_visibility_targets,
      bu_block = [sample_block_report], bu_adapter = [sample_adapter GtGvisor],
      bu_gvisor = [sample_gvisor], bu_kubernetes = [], bu_kata = []\<rparr>"

lemma matrix_claims_backed_witness:
  "list_ex (\<lambda>u. gu_runtime u = GtGvisor \<and> gs_evidence_ids (gu_notify u) = [''gv-1'', ''ra-1''])
     (mx_runtimes (the (bn_matrix (evaluate_live_evidence_bundle (\<lambda>_. True) sample_bundle))))
   \<and> list_all (support_backed sample_bundle)
       (mx_runtimes (the (bn_matrix (evaluate_live_evidence_bundle (\<lambda>_. True) sample_bundle))))"
proof -
  have a: "list_ex (\<lambda>u. gu_runtime u = GtGvisor \<and> gs_evidence_ids (gu_notify u) = [''gv-1'', ''ra-1''])
      (mx_runtimes (the (bn_matrix (evaluate_live_evidence_bundle (\<lambda>_. True) sample_bundle))))"
    by code_simp
  have "bn_matrix (evaluate_live_evidence_bundle (\<lambda>_. True) sample_bundle) \<noteq> None" by code_simp
  then obtain m where "bn_matrix (evaluate_live_evidence_bundle (\<lambda>_. True) sample_bundle) = Some m" by auto
  with matrix_claims_backed [OF this] a show ?thesis by simp
qed

text \<open>
  The evidence of gVisor, Kubernetes and Kata names the adapter evidence it belongs to, and
  only that the name is not blank is checked: a reference to nothing passes.
\<close>

lemma dangling_adapter_reference_passes:
  "bn_passed (evaluate_live_evidence_bundle (\<lambda>_. True)
     (sample_bundle\<lparr>bu_gvisor := [sample_gvisor\<lparr>gm_adapter_evidence_id := ''no-such''\<rparr>]\<rparr>))"
  by code_simp

text \<open>
  The matrix takes block evidence that the validation gate refuses: a report without an
  evidence id makes a validated prototype.
\<close>

lemma matrix_takes_refused_block_evidence:
  "let rs = [sample_block_report\<lparr>bv_evidence_id := []\<rparr>];
       local = hd (mx_runtimes (guardrail_matrix_local rs))
   in \<not> gr_passed (evaluate_block_validation_gate rs)
      \<and> gs_status (gu_seccomp_block local) = GsPrototypeValidated"
  by code_simp

end
