(* ===== verification/Kubernetes_Metadata.thy ===== *)
theory Kubernetes_Metadata
  imports Policy_Parser Runtime_Guardrails
begin

text \<open>
  Pod metadata (\<open>crates/apolysis-kubernetes/src/lib.rs\<close>): the parser of a manifest, line by
  line, the isolation profile of a RuntimeClass, the events for the timeline, and the evidence
  for the guardrails. The process id and the clock of the events are parameters.
\<close>

section \<open>Data\<close>

record kubernetes_metadata =
  km_pod_name :: string
  km_namespace :: string
  km_pod_uid :: "string option"
  km_service_account :: "string option"
  km_runtime_class_name :: "string option"
  km_node_name :: "string option"
  km_sandbox_name :: "string option"
  km_automount :: "bool option"

record metadata_parser =
  mp_section :: string
  mp_list :: string
  mp_pod_name :: "string option"
  mp_namespace :: "string option"
  mp_pod_uid :: "string option"
  mp_service_account :: "string option"
  mp_runtime_class_name :: "string option"
  mp_node_name :: "string option"
  mp_sandbox_name :: "string option"
  mp_automount :: "bool option"

definition parser_default :: metadata_parser where
  "parser_default =
     \<lparr>mp_section = [], mp_list = [], mp_pod_name = None, mp_namespace = None, mp_pod_uid = None,
      mp_service_account = None, mp_runtime_class_name = None, mp_node_name = None,
      mp_sandbox_name = None, mp_automount = None\<rparr>"

section \<open>The parser\<close>

definition consume_field :: "string \<Rightarrow> string \<Rightarrow> metadata_parser \<Rightarrow> (string, metadata_parser) res" where
  "consume_field key value p =
     (let at = (mp_section p, mp_list p, key) in
      if at = (''metadata'', [], ''name'') then Inr (p\<lparr>mp_pod_name := Some value\<rparr>)
      else if at = (''metadata'', [], ''namespace'') then Inr (p\<lparr>mp_namespace := Some value\<rparr>)
      else if at = (''metadata'', [], ''uid'') then Inr (p\<lparr>mp_pod_uid := Some value\<rparr>)
      else if at = (''metadata'', ''labels'', ''agent-sandbox.sigs.k8s.io/sandbox'')
              \<or> at = (''metadata'', ''labels'', ''apolysis.dev/agent-sandbox'') then
        Inr (p\<lparr>mp_sandbox_name := Some value\<rparr>)
      else if at = (''spec'', [], ''serviceAccountName'') then Inr (p\<lparr>mp_service_account := Some value\<rparr>)
      else if at = (''spec'', [], ''runtimeClassName'') then Inr (p\<lparr>mp_runtime_class_name := Some value\<rparr>)
      else if at = (''spec'', [], ''nodeName'') then Inr (p\<lparr>mp_node_name := Some value\<rparr>)
      else if at = (''spec'', [], ''automountServiceAccountToken'') then
        (case parse_bool value ''kubernetes'' of
           Inl _ \<Rightarrow> Inl (''invalid kubernetes boolean: '' @ value)
         | Inr b \<Rightarrow> Inr (p\<lparr>mp_automount := Some b\<rparr>))
      else Inr p)"

definition consume_line :: "string \<Rightarrow> metadata_parser \<Rightarrow> (string, metadata_parser) res" where
  "consume_line raw p =
     (let line = trim raw in
      if line = [] \<or> starts_with line ''#'' \<or> line = ''---'' then Inr p
      else if \<not> starts_with raw '' '' \<and> ends_with line '':'' then
        Inr (p\<lparr>mp_section := trim_end_matches is_colon line, mp_list := []\<rparr>)
      else if ends_with line '':'' then Inr (p\<lparr>mp_list := trim_end_matches is_colon line\<rparr>)
      else
        (case split_once (CHR '':'') line of
           None \<Rightarrow> Inr p
         | Some (key, value) \<Rightarrow> consume_field (trim key) (clean_scalar value) p))"

fun consume_lines :: "string list \<Rightarrow> metadata_parser \<Rightarrow> (string, metadata_parser) res" where
  "consume_lines [] p = Inr p"
| "consume_lines (l # ls) p =
     (case consume_line l p of Inl e \<Rightarrow> Inl e | Inr p' \<Rightarrow> consume_lines ls p')"

definition parser_metadata :: "metadata_parser \<Rightarrow> (string, kubernetes_metadata) res" where
  "parser_metadata p =
     (case mp_pod_name p of None \<Rightarrow> Inl ''kubernetes metadata missing pod name''
      | Some name \<Rightarrow>
     (case mp_namespace p of None \<Rightarrow> Inl ''kubernetes metadata missing namespace''
      | Some ns \<Rightarrow>
          Inr \<lparr>km_pod_name = name, km_namespace = ns, km_pod_uid = mp_pod_uid p,
            km_service_account = mp_service_account p, km_runtime_class_name = mp_runtime_class_name p,
            km_node_name = mp_node_name p, km_sandbox_name = mp_sandbox_name p,
            km_automount = mp_automount p\<rparr>))"

definition metadata_parse :: "string \<Rightarrow> (string, kubernetes_metadata) res" where
  "metadata_parse input =
     (case consume_lines (lines_of input) parser_default of
        Inl e \<Rightarrow> Inl e | Inr p \<Rightarrow> parser_metadata p)"

section \<open>Profiles, events, evidence\<close>

datatype isolation_profile = IpDefaultContainer | IpGvisor | IpKata | IpUnknown string

definition profile_from_runtime_class :: "string \<Rightarrow> isolation_profile" where
  "profile_from_runtime_class c =
     (let n = to_ascii_lowercase c in
      if str_contains n ''gvisor'' \<or> n = ''runsc'' then IpGvisor
      else if str_contains n ''kata'' then IpKata
      else if n = ''runc'' \<or> n = ''default'' then IpDefaultContainer
      else IpUnknown c)"

fun isolation_profile_str :: "isolation_profile \<Rightarrow> string" where
  "isolation_profile_str IpDefaultContainer = ''default-container''"
| "isolation_profile_str IpGvisor = ''gvisor''"
| "isolation_profile_str IpKata = ''kata''"
| "isolation_profile_str (IpUnknown v) = v"

definition runtime_isolation_profile :: "kubernetes_metadata \<Rightarrow> isolation_profile" where
  "runtime_isolation_profile m =
     (case km_runtime_class_name m of
        None \<Rightarrow> IpDefaultContainer | Some c \<Rightarrow> profile_from_runtime_class c)"

definition metadata_event ::
    "u128 \<Rightarrow> u32 \<Rightarrow> string \<Rightarrow> string \<Rightarrow> string \<Rightarrow> canonical_event" where
  "metadata_event now pid sid resource action =
     canonical_event_new now sid SrcRuntimeMetadata EvRuntimeMetadata pid 0 ''kubernetes'' resource action"

definition optional_event ::
    "(string \<Rightarrow> string \<Rightarrow> canonical_event) \<Rightarrow> string \<Rightarrow> string \<Rightarrow> string option \<Rightarrow> canonical_event list" where
  "optional_event ev resource pre v = (case v of None \<Rightarrow> [] | Some s \<Rightarrow> [ev resource (pre @ s)])"

text \<open>\<open>now i\<close> is the time of the event at index \<open>i\<close>.\<close>

definition to_timeline_events ::
    "(nat \<Rightarrow> u128) \<Rightarrow> u32 \<Rightarrow> string \<Rightarrow> kubernetes_metadata \<Rightarrow> canonical_event list" where
  "to_timeline_events now pid sid m =
     (let ev = metadata_event 0 pid sid;
          evs =
            [ev ''kubernetes-pod'' (''name:'' @ km_pod_name m),
             ev ''kubernetes-namespace'' (''namespace:'' @ km_namespace m),
             ev ''kubernetes-runtime-profile''
               (''isolation:'' @ isolation_profile_str (runtime_isolation_profile m))]
            @ optional_event ev ''kubernetes-pod-uid'' ''uid:'' (km_pod_uid m)
            @ optional_event ev ''kubernetes-service-account'' ''serviceAccount:'' (km_service_account m)
            @ optional_event ev ''kubernetes-runtime-class'' ''runtimeClass:'' (km_runtime_class_name m)
            @ optional_event ev ''kubernetes-node'' ''node:'' (km_node_name m)
            @ optional_event ev ''agent-sandbox'' ''sandbox:'' (km_sandbox_name m)
            @ optional_event ev ''kubernetes-service-account-token'' ''automount:''
                (map_option json_bool (km_automount m))
      in map (\<lambda>i. ce_with_timestamp (now i) (evs ! i)) [0..<length evs])"

definition agent_sandbox_evidence ::
    "kubernetes_metadata \<Rightarrow> string \<Rightarrow> string \<Rightarrow> string \<Rightarrow> adapter_source
     \<Rightarrow> (string, kubernetes_evidence) res" where
  "agent_sandbox_evidence m sid eid adapter src =
     (if \<not> nonblank sid then Inl ''RuntimeGuardrails Kubernetes Agent Sandbox evidence requires session id''
      else if \<not> nonblank eid then
        Inl ''RuntimeGuardrails Kubernetes Agent Sandbox evidence requires evidence id''
      else if \<not> nonblank adapter then
        Inl ''RuntimeGuardrails Kubernetes Agent Sandbox evidence requires runtime adapter evidence id''
      else if \<not> nonblank (km_pod_name m) then
        Inl ''RuntimeGuardrails Kubernetes Agent Sandbox evidence requires pod name''
      else if \<not> nonblank (km_namespace m) then
        Inl ''RuntimeGuardrails Kubernetes Agent Sandbox evidence requires namespace''
      else
        Inr \<lparr>ks_evidence_id = eid, ks_source = src, ks_adapter_evidence_id = adapter, ks_session_id = sid,
          ks_pod_name = km_pod_name m, ks_namespace = km_namespace m,
          ks_service_account = km_service_account m, ks_runtime_class = km_runtime_class_name m,
          ks_sandbox_name = km_sandbox_name m, ks_node_name = km_node_name m, ks_pod_uid = km_pod_uid m,
          ks_host_boundary = True, ks_guest_claimed = False\<rparr>)"

text \<open>
  The evidence passes its gate exactly when it was observed live and the pod names its service
  account, RuntimeClass and sandbox.
\<close>

lemma sandbox_evidence_passes_iff:
  assumes "agent_sandbox_evidence m sid eid adapter src = Inr e"
  shows "gr_passed (evaluate_kubernetes_evidence_gate [e]) \<longleftrightarrow>
     src = AsLiveHost \<and> optional_nonempty (km_service_account m)
     \<and> optional_nonempty (km_runtime_class_name m) \<and> optional_nonempty (km_sandbox_name m)"
  using assms
  by (auto simp: agent_sandbox_evidence_def evaluate_kubernetes_evidence_gate_def kg.run_passed
      kubernetes_failures_def Let_def split: if_splits)

section \<open>A manifest parses back\<close>

definition field_line :: "string \<Rightarrow> string \<Rightarrow> string \<Rightarrow> string" where
  "field_line indent key value = indent @ key @ '': '' @ value"

definition opt_line :: "string \<Rightarrow> string option \<Rightarrow> string list" where
  "opt_line key v = (case v of None \<Rightarrow> [] | Some s \<Rightarrow> [field_line ''  '' key s])"

definition manifest_lines :: "kubernetes_metadata \<Rightarrow> string list" where
  "manifest_lines m =
     [''metadata:'', field_line ''  '' ''name'' (km_pod_name m), field_line ''  '' ''namespace'' (km_namespace m)]
     @ opt_line ''uid'' (km_pod_uid m)
     @ (case km_sandbox_name m of None \<Rightarrow> []
        | Some s \<Rightarrow> [''  labels:'', field_line ''    '' ''apolysis.dev/agent-sandbox'' s])
     @ [''spec:'']
     @ opt_line ''serviceAccountName'' (km_service_account m)
     @ opt_line ''runtimeClassName'' (km_runtime_class_name m)
     @ opt_line ''nodeName'' (km_node_name m)
     @ opt_line ''automountServiceAccountToken'' (map_option json_bool (km_automount m))"

definition render_manifest :: "kubernetes_metadata \<Rightarrow> string" where
  "render_manifest m = concat (map (\<lambda>l. l @ [ch_nl]) (manifest_lines m))"

definition plain_metadata :: "kubernetes_metadata \<Rightarrow> bool" where
  "plain_metadata m \<longleftrightarrow>
     plain_value (km_pod_name m) \<and> plain_value (km_namespace m)
     \<and> pred_option plain_value (km_pod_uid m) \<and> pred_option plain_value (km_service_account m)
     \<and> pred_option plain_value (km_runtime_class_name m) \<and> pred_option plain_value (km_node_name m)
     \<and> pred_option plain_value (km_sandbox_name m)"

definition plain_key :: "string \<Rightarrow> bool" where
  "plain_key k \<longleftrightarrow>
     k \<noteq> [] \<and> ws_free (hd k) \<and> ws_free (last k) \<and> hd k \<noteq> CHR ''#'' \<and> CHR '':'' \<notin> set k \<and> ch_nl \<notin> set k"

lemma field_line_read:
  assumes k: "plain_key k" and v: "plain_value v" and i: "i = ''  '' \<or> i = ''    ''"
  shows "consume_line (field_line i k v) p = consume_field k v p"
proof -
  have t: "trim (field_line i k v) = k @ '': '' @ v"
    using i k v by (auto simp: field_line_def plain_key_def plain_value_def intro!: trim_id)
  have "\<not> ends_with (k @ '': '' @ v) '':''"
  proof
    assume "ends_with (k @ '': '' @ v) '':''"
    then obtain z where "k @ '': '' @ v = z @ '':''" by (auto simp: suffix_def)
    then have "last (k @ '': '' @ v) = CHR '':''" by (metis last_snoc)
    with v show False by (simp add: plain_value_def)
  qed
  moreover have "k @ '': '' @ v \<noteq> ''---''"
  proof
    assume "k @ '': '' @ v = ''---''"
    from arg_cong [OF this, of set] show False by simp
  qed
  moreover have "\<not> starts_with (k @ '': '' @ v) ''#''" using k by (cases k) (auto simp: plain_key_def)
  moreover have "starts_with (field_line i k v) '' ''" using i by (auto simp: field_line_def)
  moreover have "split_once (CHR '':'') (k @ '': '' @ v) = Some (k, CHR '' '' # v)"
    using k split_once_append [of "CHR '':''" k "CHR '' '' # v"] by (simp add: plain_key_def)
  moreover have "trim k = k" using k by (simp add: plain_key_def trim_id)
  moreover have "clean_scalar (CHR '' '' # v) = v"
    using v by (simp add: clean_scalar_def plain_value_def trim_id trim_ends_id)
  ultimately show ?thesis using k t by (auto simp: consume_line_def Let_def plain_key_def)
qed

lemma section_line_read:
  assumes "plain_name n"
  shows "consume_line (n @ '':'') p = Inr (p\<lparr>mp_section := n, mp_list := []\<rparr>)"
    and "consume_line (''  '' @ n @ '':'') p = Inr (p\<lparr>mp_list := n\<rparr>)"
  using header_line [OF assms] assms
  by (simp_all add: consume_line_def trim_header trim_end_colon plain_name_def)

lemma consume_lines_append [simp]:
  "consume_lines (a @ b) p = (case consume_lines a p of Inl e \<Rightarrow> Inl e | Inr p' \<Rightarrow> consume_lines b p')"
  by (induction a arbitrary: p) (auto split: sum.splits)

lemma opt_line_read:
  assumes "plain_key k" "pred_option plain_value v"
  shows "consume_lines (opt_line k v) p =
     (case v of None \<Rightarrow> Inr p | Some s \<Rightarrow> consume_field k s p)"
  using assms by (auto simp: opt_line_def field_line_read split: option.splits sum.splits)

lemma plain_bool [simp]: "plain_value (json_bool b)"
  by (simp add: json_bool_def plain_value_def ws_free_def unicode_ws_def)

lemma metadata_keys:
  "plain_key ''name''" "plain_key ''namespace''" "plain_key ''uid''" "plain_key ''serviceAccountName''"
  "plain_key ''runtimeClassName''" "plain_key ''nodeName''" "plain_key ''automountServiceAccountToken''"
  "plain_key ''apolysis.dev/agent-sandbox''"
  by (simp_all add: plain_key_def ws_free_def unicode_ws_def)

lemma metadata_names: "plain_name ''metadata''" "plain_name ''spec''" "plain_name ''labels''"
  by (simp_all add: plain_name_def ws_free_def unicode_ws_def)

lemma consume_manifest:
  assumes "plain_metadata m"
  shows "consume_lines (manifest_lines m) parser_default =
     Inr \<lparr>mp_section = ''spec'', mp_list = [], mp_pod_name = Some (km_pod_name m),
       mp_namespace = Some (km_namespace m), mp_pod_uid = km_pod_uid m,
       mp_service_account = km_service_account m, mp_runtime_class_name = km_runtime_class_name m,
       mp_node_name = km_node_name m, mp_sandbox_name = km_sandbox_name m, mp_automount = km_automount m\<rparr>"
proof -
  note heads = metadata_names(1) [THEN section_line_read(1), simplified]
    metadata_names(2) [THEN section_line_read(1), simplified]
    metadata_names(3) [THEN section_line_read(2), simplified]
  have bool: "pred_option plain_value (map_option json_bool (km_automount m))"
    by (cases "km_automount m") simp_all
  have readback: "parse_bool (json_bool b) ''kubernetes'' = Inr b" for b
    by (simp add: parse_bool_def json_bool_def)
  show ?thesis
    using assms
    by (cases "km_pod_uid m"; cases "km_sandbox_name m"; cases "km_service_account m";
        cases "km_runtime_class_name m"; cases "km_node_name m"; cases "km_automount m")
      (simp_all add: manifest_lines_def plain_metadata_def heads opt_line_read metadata_keys bool
        field_line_read consume_field_def parser_default_def readback Let_def)
qed

lemma clean_field:
  assumes "plain_key k" "plain_value v"
  shows "clean_line (field_line ''  '' k v)" "clean_line (field_line ''    '' k v)"
  using assms by (auto simp: clean_line_def field_line_def plain_key_def plain_value_def ws_free_def unicode_ws_def)

lemma clean_opt: "plain_key k \<Longrightarrow> pred_option plain_value v \<Longrightarrow> list_all clean_line (opt_line k v)"
  by (cases v) (simp_all add: opt_line_def clean_field)

lemma clean_manifest:
  assumes "plain_metadata m"
  shows "list_all clean_line (manifest_lines m)"
proof -
  have bool: "pred_option plain_value (map_option json_bool (km_automount m))"
    by (cases "km_automount m") simp_all
  show ?thesis
    using assms
    unfolding manifest_lines_def list_all_append plain_metadata_def
    by (intro conjI clean_opt metadata_keys bool; (cases "km_sandbox_name m")?;
        simp add: clean_field metadata_keys; simp add: clean_line_def)
qed

text \<open>A manifest parses back. Pod metadata whose values a line can carry, printed as a
  manifest with its metadata, labels and spec, is read back exactly: every field that was
  there, and none that was not.\<close>

lemma metadata_print_parse:
  assumes "plain_metadata m"
  shows "metadata_parse (render_manifest m) = Inr m"
proof -
  have clean: "\<forall>l \<in> set (manifest_lines m). clean_line l"
    using clean_manifest [OF assms] by (simp add: list_all_iff)
  then have "lines_of (render_manifest m) = map strip_cr (manifest_lines m)"
    unfolding render_manifest_def by (intro lines_of_terminated) (simp add: clean_line_def)
  also have "\<dots> = manifest_lines m"
    using clean by (intro map_idI) (simp add: strip_cr_def clean_line_def)
  finally show ?thesis
    by (simp add: metadata_parse_def consume_manifest [OF assms] parser_metadata_def)
qed

definition sample_pod :: kubernetes_metadata where
  "sample_pod =
     \<lparr>km_pod_name = ''agent-0'', km_namespace = ''prod'', km_pod_uid = None,
      km_service_account = Some ''runner'', km_runtime_class_name = Some ''gvisor'', km_node_name = None,
      km_sandbox_name = Some ''box:1'', km_automount = Some False\<rparr>"

lemma metadata_print_parse_witness:
  "plain_metadata sample_pod \<and> metadata_parse (render_manifest sample_pod) = Inr sample_pod"
proof -
  have "plain_metadata sample_pod"
    by (simp add: sample_pod_def plain_metadata_def plain_value_def ws_free_def unicode_ws_def)
  then show ?thesis using metadata_print_parse [of sample_pod] by blast
qed

section \<open>Manifests that are misread\<close>

text \<open>
  A nested block is never left before the next section: with the labels before the name, which
  is the order \<open>kubectl\<close> prints, the name is taken for one of the labels.
\<close>

lemma labels_before_name_hide_it:
  "metadata_parse (concat (map (\<lambda>l. l @ [ch_nl])
     [''metadata:'', ''  labels:'', ''    app: web'', ''  name: agent-0'', ''  namespace: prod'']))
   = Inl ''kubernetes metadata missing pod name''"
  by code_simp

text \<open>A comment behind a value becomes part of it.\<close>

lemma comment_kept_in_value:
  "map_sum id (map_option id o km_runtime_class_name)
     (metadata_parse (concat (map (\<lambda>l. l @ [ch_nl])
       [''metadata:'', ''  name: a'', ''  namespace: b'', ''spec:'', ''  runtimeClassName: runc # trusted''])))
   = Inr (Some ''runc # trusted'')"
  by code_simp

text \<open>The metadata of a second document replaces that of the first.\<close>

lemma second_document_wins:
  "map_sum id km_pod_name
     (metadata_parse (concat (map (\<lambda>l. l @ [ch_nl])
       [''metadata:'', ''  name: a'', ''  namespace: b'', ''---'', ''metadata:'', ''  name: c''])))
   = Inr ''c''"
  by code_simp

text \<open>Quotes of both kinds are taken away, each as often as it occurs.\<close>

lemma clean_scalar_strips_layers:
  "clean_scalar (ch_quote # ch_quote # ch_apos # ''a'' @ [ch_apos, ch_quote, ch_quote]) = ''a''"
  by code_simp

end
