(* ===== verification/Visibility.thy ===== *)
theory Visibility
  imports Kubernetes_Metadata
begin

text \<open>
  What the host can see of a runtime (\<open>crates/apolysis-visibility/src/lib.rs\<close>): the profiles, the
  assessment of a scenario, its JSON line, and the evidence made from it for the guardrails.
\<close>

section \<open>Data\<close>

datatype visibility_profile =
    PfDockerDefault | PfDockerGvisor | PfKubernetesGvisor | PfKubernetesKata | PfFirecracker

fun visibility_profile_str :: "visibility_profile \<Rightarrow> string" where
  "visibility_profile_str PfDockerDefault = ''docker-default''"
| "visibility_profile_str PfDockerGvisor = ''docker-gvisor''"
| "visibility_profile_str PfKubernetesGvisor = ''kubernetes-gvisor''"
| "visibility_profile_str PfKubernetesKata = ''kubernetes-kata''"
| "visibility_profile_str PfFirecracker = ''firecracker-prototype''"

definition visibility_profile_parse :: "string \<Rightarrow> (string, visibility_profile) res" where
  "visibility_profile_parse v =
     (if v = ''docker-default'' then Inr PfDockerDefault
      else if v = ''docker-gvisor'' then Inr PfDockerGvisor
      else if v = ''kubernetes-gvisor'' then Inr PfKubernetesGvisor
      else if v = ''kubernetes-kata'' then Inr PfKubernetesKata
      else if v = ''firecracker-prototype'' then Inr PfFirecracker
      else Inl (''unknown visibility scenario: '' @ v))"

datatype host_scope = HsGuestProcess | HsRuntimeBoundary | HsBoundaryOnly

fun host_scope_str :: "host_scope \<Rightarrow> string" where
  "host_scope_str HsGuestProcess = ''guest_process''"
| "host_scope_str HsRuntimeBoundary = ''runtime_boundary''"
| "host_scope_str HsBoundaryOnly = ''boundary_only''"

record visibility_input =
  vn_session_id :: string
  vn_profile :: visibility_profile
  vn_host_events :: string
  vn_kubernetes :: "kubernetes_metadata option"

record visibility_assessment =
  va_session_id :: string
  va_profile :: visibility_profile
  va_scope :: host_scope
  va_collapsed :: bool
  va_guest_collector :: bool
  va_runtime_metadata :: bool
  va_subjects :: "string list"
  va_pod_name :: "string option"
  va_namespace :: "string option"
  va_runtime_class_name :: "string option"
  va_sandbox_name :: "string option"
  va_notes :: string

definition json_strings :: "string list \<Rightarrow> string" where
  "json_strings vs = ''['' @ join_with '','' (map json_string vs) @ '']''"

definition visibility_assessment_json :: "visibility_assessment \<Rightarrow> string" where
  "visibility_assessment_json a = json_object
     [(''record_type'', json_string ''visibility_assessment''),
      (''session_id'', json_string (va_session_id a)),
      (''runtime_profile'', json_string (visibility_profile_str (va_profile a))),
      (''host_visibility_scope'', json_string (host_scope_str (va_scope a))),
      (''host_semantics_collapsed'', json_bool (va_collapsed a)),
      (''guest_collector_required'', json_bool (va_guest_collector a)),
      (''runtime_metadata_required'', json_bool (va_runtime_metadata a)),
      (''host_event_subjects'', json_strings (va_subjects a)),
      (''pod_name'', optional_json_string (va_pod_name a)),
      (''namespace'', optional_json_string (va_namespace a)),
      (''runtime_class_name'', optional_json_string (va_runtime_class_name a)),
      (''sandbox_name'', optional_json_string (va_sandbox_name a)),
      (''notes'', json_string (va_notes a))]"

section \<open>The assessment\<close>

text \<open>Scope, collapsed semantics, guest collector, runtime metadata, notes.\<close>

fun classify_profile :: "visibility_profile \<Rightarrow> host_scope \<times> bool \<times> bool \<times> bool \<times> string" where
  "classify_profile PfDockerDefault =
     (HsGuestProcess, False, False, False,
      ''host eBPF can usually see container process, file, and network subjects directly; container metadata is still useful for session correlation'')"
| "classify_profile PfDockerGvisor =
     (HsRuntimeBoundary, True, False, True,
      ''host eBPF commonly sees runsc, sentry, and gofer boundary activity; runtime metadata or gVisor-specific metadata is needed to map back to guest intent'')"
| "classify_profile PfKubernetesGvisor =
     (HsRuntimeBoundary, True, False, True,
      ''host eBPF commonly sees runsc, sentry, and gofer boundary activity; Kubernetes pod and RuntimeClass metadata are required for correlation'')"
| "classify_profile PfKubernetesKata =
     (HsBoundaryOnly, True, True, True,
      ''host eBPF sees the VMM, shim, virtio, and host boundary; a guest kernel collector is required for full process, file, and network semantics'')"
| "classify_profile PfFirecracker =
     (HsBoundaryOnly, True, True, True,
      ''host eBPF sees firecracker, block, tap, and vsock boundary events; a guest collector or vsock event channel is required for full agent side-effect semantics'')"

fun subject_lines :: "string list \<Rightarrow> string list \<Rightarrow> (string, string list) res" where
  "subject_lines [] subjects = Inr subjects"
| "subject_lines (raw # ls) subjects =
     (let line = trim raw in
      if line = [] \<or> starts_with line ''#'' then subject_lines ls subjects
      else
        (case pipe_parse line of
           Inl e \<Rightarrow> Inl (''invalid host visibility event: '' @ e)
         | Inr fs \<Rightarrow>
             (case pipe_required fs ''comm'' of
                Inl _ \<Rightarrow> Inl (''host visibility event missing comm field: '' @ line)
              | Inr v \<Rightarrow> subject_lines ls (bs_insert v subjects))))"

definition collect_host_subjects :: "string \<Rightarrow> (string, string list) res" where
  "collect_host_subjects input = subject_lines (lines_of input) []"

definition assess_visibility :: "visibility_input \<Rightarrow> (string, visibility_assessment) res" where
  "assess_visibility i =
     (case collect_host_subjects (vn_host_events i) of
        Inl e \<Rightarrow> Inl e
      | Inr subjects \<Rightarrow>
          (let (scope, collapsed, guest, metadata, notes) = classify_profile (vn_profile i);
               m = vn_kubernetes i
           in Inr \<lparr>va_session_id = vn_session_id i, va_profile = vn_profile i, va_scope = scope,
                va_collapsed = collapsed, va_guest_collector = guest, va_runtime_metadata = metadata,
                va_subjects = subjects, va_pod_name = map_option km_pod_name m,
                va_namespace = map_option km_namespace m,
                va_runtime_class_name = Option.bind m km_runtime_class_name,
                va_sandbox_name = Option.bind m km_sandbox_name, va_notes = notes\<rparr>))"

section \<open>Evidence from an assessment\<close>

definition gvisor_evidence_from_assessment ::
    "visibility_assessment \<Rightarrow> string \<Rightarrow> string \<Rightarrow> string option \<Rightarrow> adapter_source
     \<Rightarrow> (string, gvisor_evidence) res" where
  "gvisor_evidence_from_assessment a eid adapter handler src =
     (if va_profile a \<notin> {PfDockerGvisor, PfKubernetesGvisor} then
        Inl ''RuntimeGuardrails gVisor metadata evidence requires a gVisor visibility profile''
      else if \<not> nonblank eid then Inl ''RuntimeGuardrails gVisor metadata evidence id must not be empty''
      else if \<not> nonblank adapter then
        Inl ''RuntimeGuardrails gVisor runtime adapter evidence reference must not be empty''
      else
        Inr \<lparr>gm_evidence_id = eid, gm_source = src, gm_adapter_evidence_id = adapter,
          gm_session_id = va_session_id a, gm_handler = handler, gm_subjects = va_subjects a,
          gm_runsc = subject_observed (va_subjects a) ''runsc'',
          gm_sentry = subject_observed (va_subjects a) ''sentry'',
          gm_gofer = subject_observed (va_subjects a) ''gofer'',
          gm_collapsed = va_collapsed a, gm_guest_claimed = False\<rparr>)"

definition kata_evidence_from_assessment ::
    "visibility_assessment \<Rightarrow> string \<Rightarrow> string \<Rightarrow> string option \<Rightarrow> adapter_source
     \<Rightarrow> (string, kata_evidence) res" where
  "kata_evidence_from_assessment a eid adapter handler src =
     (if va_profile a \<noteq> PfKubernetesKata then
        Inl ''RuntimeGuardrails Kata boundary evidence requires a Kubernetes Kata profile''
      else if \<not> nonblank eid then Inl ''RuntimeGuardrails Kata boundary evidence id must not be empty''
      else if \<not> nonblank adapter then
        Inl ''RuntimeGuardrails Kata runtime adapter evidence reference must not be empty''
      else
        Inr \<lparr>kb_evidence_id = eid, kb_source = src, kb_adapter_evidence_id = adapter,
          kb_session_id = va_session_id a, kb_handler = handler, kb_subjects = va_subjects a,
          kb_shim = (subject_observed (va_subjects a) ''shim'' \<and> subject_observed (va_subjects a) ''kata''),
          kb_vmm = (subject_observed (va_subjects a) ''qemu'' \<or> subject_observed (va_subjects a) ''vmm''),
          kb_host_boundary = va_collapsed a, kb_guest_collector = va_guest_collector a,
          kb_guest_claimed = False\<rparr>)"

section \<open>What assessments say\<close>

lemma profile_parse_str: "visibility_profile_parse (visibility_profile_str p) = Inr p"
  by (cases p) (simp_all add: visibility_profile_parse_def)

lemma assessment_parts:
  "assess_visibility i = Inr a \<Longrightarrow>
     va_session_id a = vn_session_id i \<and> va_profile a = vn_profile i
     \<and> collect_host_subjects (vn_host_events i) = Inr (va_subjects a)
     \<and> (va_scope a, va_collapsed a, va_guest_collector a, va_runtime_metadata a, va_notes a)
         = classify_profile (vn_profile i)"
  by (auto simp: assess_visibility_def Let_def split: sum.splits prod.splits)

text \<open>
  The host claims to see what the guest does only where nothing collapses its semantics; every
  profile that hides the guest's kernel asks for a guest collector.
\<close>

lemma assessment_is_modest:
  assumes "assess_visibility i = Inr a"
  shows "va_scope a = HsGuestProcess \<longleftrightarrow> \<not> va_collapsed a"
    and "va_guest_collector a \<longleftrightarrow> va_scope a = HsBoundaryOnly"
    and "va_runtime_metadata a \<longleftrightarrow> va_collapsed a"
  using assessment_parts [OF assms] by (cases "vn_profile i"; simp)+

text \<open>The subjects are the distinct commands of the events, in order.\<close>

lemma bs_wf_insert: "bs_wf xs \<Longrightarrow> bs_wf (bs_insert x xs)"
  by (simp add: sorted_insort_insert distinct_insort_insert)

lemma subject_lines_sorted: "bs_wf acc \<Longrightarrow> subject_lines ls acc = Inr ss \<Longrightarrow> bs_wf ss"
proof (induction ls arbitrary: acc)
  case (Cons l ls)
  then show ?case
    using Cons.IH [OF bs_wf_insert [OF Cons.prems(1)]] Cons.IH [OF Cons.prems(1)]
    by (auto simp: Let_def split: if_splits sum.splits)
qed simp

lemma subject_empty: "\<not> subject_observed [] n"
  by (simp add: subject_observed_def)

text \<open>Evidence passes its gate exactly when it should. gVisor evidence made from an assessment
  of a session passes the evidence gate if and only if it was observed on a live host, the
  session is named, the runtime handler is runsc or gvisor, and the events of the host show
  runsc, sentry and gofer at work; nothing else that the assessment says can make it pass or
  fail.\<close>

lemma gvisor_assessment_passes_iff:
  assumes "assess_visibility i = Inr a"
    "gvisor_evidence_from_assessment a eid adapter handler src = Inr e"
  shows "gr_passed (evaluate_gvisor_evidence_gate [e]) \<longleftrightarrow>
     src = AsLiveHost \<and> nonblank (vn_session_id i) \<and> handler_is is_gvisor_handler handler
     \<and> (case collect_host_subjects (vn_host_events i) of
          Inl _ \<Rightarrow> False
        | Inr ss \<Rightarrow> subject_observed ss ''runsc'' \<and> subject_observed ss ''sentry'' \<and> subject_observed ss ''gofer'')"
proof -
  have p: "vn_profile i = PfDockerGvisor \<or> vn_profile i = PfKubernetesGvisor"
    and e: "nonblank eid" "nonblank adapter" "gm_evidence_id e = eid" "gm_source e = src"
      "gm_adapter_evidence_id e = adapter" "gm_session_id e = va_session_id a" "gm_handler e = handler"
      "gm_subjects e = va_subjects a" "gm_runsc e = subject_observed (va_subjects a) ''runsc''"
      "gm_sentry e = subject_observed (va_subjects a) ''sentry''"
      "gm_gofer e = subject_observed (va_subjects a) ''gofer''" "gm_collapsed e = va_collapsed a"
      "\<not> gm_guest_claimed e"
    using assms(2) assessment_parts [OF assms(1)]
    by (auto simp: gvisor_evidence_from_assessment_def split: if_splits)
  moreover have "va_collapsed a" using p assessment_parts [OF assms(1)] by auto
  ultimately show ?thesis
    using assessment_parts [OF assms(1)] subject_empty [of "''runsc''"]
    by (auto simp: evaluate_gvisor_evidence_gate_def gg.run_passed gvisor_failures_def Let_def)
qed

definition sample_visibility :: visibility_input where
  "sample_visibility =
     \<lparr>vn_session_id = ''s'', vn_profile = PfDockerGvisor,
      vn_host_events = ''comm=runsc'' @ [ch_nl] @ ''comm=runsc-Sentry'' @ [ch_nl] @ ''comm=runsc-gofer|pid=4'',
      vn_kubernetes = Some sample_pod\<rparr>"

lemma gvisor_assessment_passes_iff_witness:
  "case assess_visibility sample_visibility of Inl _ \<Rightarrow> False
   | Inr a \<Rightarrow>
       (case gvisor_evidence_from_assessment a ''ev'' ''ra'' (Some ''runsc'') AsLiveHost of Inl _ \<Rightarrow> False
        | Inr e \<Rightarrow> gr_passed (evaluate_gvisor_evidence_gate [e]))"
proof -
  let ?ok = "case assess_visibility sample_visibility of Inl _ \<Rightarrow> False
    | Inr a \<Rightarrow> is_ok (gvisor_evidence_from_assessment a ''ev'' ''ra'' (Some ''runsc'') AsLiveHost)"
  have "?ok" by code_simp
  then obtain a e where "assess_visibility sample_visibility = Inr a"
    "gvisor_evidence_from_assessment a ''ev'' ''ra'' (Some ''runsc'') AsLiveHost = Inr e"
    by (auto simp: is_ok_iff split: sum.splits)
  moreover have "case collect_host_subjects (vn_host_events sample_visibility) of Inl _ \<Rightarrow> False
      | Inr ss \<Rightarrow> subject_observed ss ''runsc'' \<and> subject_observed ss ''sentry'' \<and> subject_observed ss ''gofer''"
    by code_simp
  moreover have "nonblank (vn_session_id sample_visibility) \<and> handler_is is_gvisor_handler (Some ''runsc'')"
    by code_simp
  ultimately show ?thesis
    using gvisor_assessment_passes_iff [of sample_visibility a "''ev''" "''ra''" "Some ''runsc''" AsLiveHost e]
    by simp
qed

text \<open>The same of Kata evidence, where the boundary is known from the profile.\<close>

lemma kata_assessment_passes_iff:
  assumes "assess_visibility i = Inr a"
    "kata_evidence_from_assessment a eid adapter handler src = Inr e"
  shows "gr_passed (evaluate_kata_evidence_gate [e]) \<longleftrightarrow>
     src = AsLiveHost \<and> nonblank (vn_session_id i) \<and> handler_is is_kata_handler handler
     \<and> subject_observed (va_subjects a) ''shim'' \<and> subject_observed (va_subjects a) ''kata''
     \<and> (subject_observed (va_subjects a) ''qemu'' \<or> subject_observed (va_subjects a) ''vmm'')"
proof -
  have "va_profile a = PfKubernetesKata"
    using assms(2) by (auto simp: kata_evidence_from_assessment_def split: if_splits)
  then have "va_collapsed a \<and> va_guest_collector a" using assessment_parts [OF assms(1)] by auto
  then show ?thesis
    using assms(2) assessment_parts [OF assms(1)] subject_empty [of "''shim''"]
    by (auto simp: kata_evidence_from_assessment_def evaluate_kata_evidence_gate_def tg.run_passed
        kata_failures_def Let_def split: if_splits)
qed

end
