(* ===== verification/Agent_Discovery.thy ===== *)
theory Agent_Discovery
  imports Observer_Redaction
begin

text \<open>
  Which processes an observer follows (\<open>crates/apolysis-observer/src/live.rs\<close>): what it reads of
  \<open>/proc\<close>, the tree of a process, the search for the process of an agent, and the identity of a
  registered one. What \<open>/proc\<close> holds, and the parser of a registration (serde_json), are
  parameters; so is SHA-256.
\<close>

section \<open>Reading \<open>/proc\<close>\<close>

text \<open>Paths below the root of \<open>/proc\<close>, by their components. Names of entries that could be read.\<close>

record proc_fs =
  pf_root_path :: string
  pf_root :: "(string, string list) res"
  pf_dir :: "string list \<Rightarrow> string list option"
  pf_text :: "string list \<Rightarrow> string option"
  pf_bytes :: "string list \<Rightarrow> string option"
  pf_link :: "string list \<Rightarrow> string option"

definition parse_ok :: "string \<Rightarrow> 'a::len word option" where
  "parse_ok s = (case parse_word s of Inl _ \<Rightarrow> None | Inr w \<Rightarrow> Some w)"

definition pid_str :: "u32 \<Rightarrow> string" where
  "pid_str pid = dec_str (unat pid)"

definition nth_ok :: "nat \<Rightarrow> 'a list \<Rightarrow> 'a option" where
  "nth_ok n xs = (if n < length xs then Some (xs ! n) else None)"

text \<open>\<open>str::rfind\<close> and \<open>str::rsplit_once\<close> of a text.\<close>

fun rfind_sub :: "string \<Rightarrow> string \<Rightarrow> nat option" where
  "rfind_sub p [] = (if p = [] then Some 0 else None)"
| "rfind_sub p (c # s) =
     (case rfind_sub p s of
        Some i \<Rightarrow> Some (Suc i)
      | None \<Rightarrow> if prefix p (c # s) then Some 0 else None)"

definition rsplit_once_str :: "string \<Rightarrow> string \<Rightarrow> (string \<times> string) option" where
  "rsplit_once_str p s = map_option (\<lambda>i. (take i s, drop (i + length p) s)) (rfind_sub p s)"

definition parse_proc_stat_ppid :: "string \<Rightarrow> u32 option" where
  "parse_proc_stat_ppid stat =
     (case rsplit_once_str '') '' stat of
        None \<Rightarrow> None
      | Some (_, after) \<Rightarrow> Option.bind (nth_ok 1 (split_whitespace after)) parse_ok)"

definition parse_proc_stat_start_time_ticks :: "string \<Rightarrow> u64 option" where
  "parse_proc_stat_start_time_ticks stat =
     (case rsplit_once_str '') '' stat of
        None \<Rightarrow> None
      | Some (_, after) \<Rightarrow> Option.bind (nth_ok 19 (split_whitespace after)) parse_ok)"

definition parse_proc_stat_comm :: "string \<Rightarrow> string option" where
  "parse_proc_stat_comm stat =
     (case find_sub '' ('' stat of
        None \<Rightarrow> None
      | Some i \<Rightarrow>
          (case rfind_sub '') '' stat of
             None \<Rightarrow> None
           | Some e \<Rightarrow> if i + 2 \<le> e then Some (take (e - (i + 2)) (drop (i + 2) stat)) else None))"

definition read_proc_stat :: "proc_fs \<Rightarrow> u32 \<Rightarrow> string option" where
  "read_proc_stat fs pid = pf_text fs [pid_str pid, ''stat'']"

definition read_proc_cmdline :: "proc_fs \<Rightarrow> u32 \<Rightarrow> string list" where
  "read_proc_cmdline fs pid =
     (let bytes = (case pf_bytes fs [pid_str pid, ''cmdline''] of None \<Rightarrow> [] | Some b \<Rightarrow> b)
      in filter utf8_valid (filter (\<lambda>v. v \<noteq> []) (split_on ch_nul bytes)))"

definition read_process_start_time_ticks :: "proc_fs \<Rightarrow> u32 \<Rightarrow> u64 option" where
  "read_process_start_time_ticks fs pid = Option.bind (read_proc_stat fs pid) parse_proc_stat_start_time_ticks"

section \<open>The tree of a process\<close>

definition proc_task_ids :: "proc_fs \<Rightarrow> u32 \<Rightarrow> u32 list" where
  "proc_task_ids fs pid =
     (case pf_dir fs [pid_str pid, ''task''] of None \<Rightarrow> [] | Some names \<Rightarrow> List.map_filter parse_ok names)"

definition proc_task_children :: "proc_fs \<Rightarrow> u32 \<Rightarrow> u32 \<Rightarrow> u32 list" where
  "proc_task_children fs pid tid =
     (case pf_text fs [pid_str pid, ''task'', pid_str tid, ''children''] of
        None \<Rightarrow> []
      | Some children \<Rightarrow> List.map_filter parse_ok (split_whitespace children))"

definition scan_error :: "proc_fs \<Rightarrow> string \<Rightarrow> string" where
  "scan_error fs e = ''failed to scan proc root '' @ pf_root_path fs @ '': '' @ e"

text \<open>The status is read under the name of the entry, as it is written.\<close>

definition proc_parent_pair :: "proc_fs \<Rightarrow> string \<Rightarrow> (u32 \<times> u32) option" where
  "proc_parent_pair fs name =
     (case parse_ok name of
        None \<Rightarrow> None
      | Some pid \<Rightarrow>
          map_option (Pair pid) (Option.bind (pf_text fs [name, ''stat'']) parse_proc_stat_ppid))"

definition proc_parent_pairs :: "proc_fs \<Rightarrow> (string, (u32 \<times> u32) list) res" where
  "proc_parent_pairs fs = map_sum (scan_error fs) (List.map_filter (proc_parent_pair fs)) (pf_root fs)"

text \<open>\<open>changed |= pids.insert(pid)\<close>\<close>

definition add_pid :: "u32 \<Rightarrow> u32 list \<times> bool \<Rightarrow> u32 list \<times> bool" where
  "add_pid pid st = (if pid \<in> set (fst st) then st else (bs_insert pid (fst st), True))"

definition add_tasks :: "proc_fs \<Rightarrow> u32 \<Rightarrow> u32 list \<times> bool \<Rightarrow> u32 list \<times> bool" where
  "add_tasks fs pid =
     fold (\<lambda>tid st. fold add_pid (proc_task_children fs pid tid) (add_pid tid st)) (proc_task_ids fs pid)"

definition add_parent_pair :: "u32 \<times> u32 \<Rightarrow> u32 list \<times> bool \<Rightarrow> u32 list \<times> bool" where
  "add_parent_pair pair st = (if snd pair \<in> set (fst st) then add_pid (fst pair) st else st)"

definition scope_pass :: "proc_fs \<Rightarrow> u32 list \<Rightarrow> (string, u32 list \<times> bool) res" where
  "scope_pass fs pids =
     map_sum id (\<lambda>pairs. fold add_parent_pair pairs (fold (add_tasks fs) pids (pids, False)))
       (proc_parent_pairs fs)"

text \<open>
  The loop ends, whatever \<open>/proc\<close> shows to each pass: a pass that is not the last finds a new
  process id.
\<close>

lemma add_pid_grows:
  "set (fst st) \<subseteq> set (fst (add_pid pid st))"
  "snd (add_pid pid st) \<longleftrightarrow> snd st \<or> pid \<notin> set (fst st)"
  "set (fst (add_pid pid st)) = insert pid (set (fst st))"
  by (auto simp: add_pid_def set_insort_insert)

definition pids_grow :: "u32 list \<times> bool \<Rightarrow> u32 list \<times> bool \<Rightarrow> bool" where
  "pids_grow st st' \<longleftrightarrow>
     set (fst st) \<subseteq> set (fst st') \<and> (snd st' \<longrightarrow> snd st \<or> set (fst st) \<noteq> set (fst st'))
     \<and> (\<not> snd st' \<longrightarrow> st' = st)"

lemma pids_grow_refl: "pids_grow st st"
  by (simp add: pids_grow_def)

lemma pids_grow_trans: "pids_grow a b \<Longrightarrow> pids_grow b c \<Longrightarrow> pids_grow a c"
  by (auto simp: pids_grow_def)

lemma add_pid_grow: "pids_grow st (add_pid pid st)"
  by (auto simp: pids_grow_def add_pid_def set_insort_insert)

lemma fold_grow: "(\<And>x st. pids_grow st (f x st)) \<Longrightarrow> pids_grow st (fold f xs st)"
proof (induction xs arbitrary: st)
  case (Cons x xs)
  show ?case using pids_grow_trans [OF Cons.prems Cons.IH [OF Cons.prems]] by simp
qed (simp add: pids_grow_refl)

lemma add_tasks_grow: "pids_grow st (add_tasks fs pid st)"
  unfolding add_tasks_def by (intro fold_grow) (metis pids_grow_trans add_pid_grow fold_grow)

lemma add_parent_pair_grow: "pids_grow st (add_parent_pair pair st)"
  by (simp add: add_parent_pair_def pids_grow_refl add_pid_grow)

lemma scope_pass_grow: "scope_pass fs pids = Inr st \<Longrightarrow> pids_grow (pids, False) st"
  using pids_grow_trans [OF fold_grow fold_grow, OF add_tasks_grow add_parent_pair_grow]
  by (cases "proc_parent_pairs fs") (auto simp: scope_pass_def)

function scope_loop :: "(nat \<Rightarrow> proc_fs) \<Rightarrow> nat \<Rightarrow> u32 list \<Rightarrow> (string, u32 list) res" where
  "scope_loop views k pids =
     (case scope_pass (views k) pids of
        Inl e \<Rightarrow> Inl e
      | Inr (pids', changed) \<Rightarrow> if changed then scope_loop views (k + 1) pids' else Inr pids')"
  by pat_completeness auto
termination
proof (relation "measure (\<lambda>(views, k, pids). card (- set pids))")
  fix views :: "nat \<Rightarrow> proc_fs" and k pids x pids' changed
  assume "scope_pass (views k) pids = Inr x" "(pids', changed) = x" changed
  then have "pids_grow (pids, False) (pids', True)" using scope_pass_grow by fastforce
  then have "- set pids' \<subset> - set pids" by (auto simp: pids_grow_def)
  then show "((views, k + 1, pids'), views, k, pids) \<in> measure (\<lambda>(views, k, pids). card (- set pids))"
    by (simp add: psubset_card_mono)
qed simp

declare scope_loop.simps [simp del]

definition discover_process_tree_scope_pids :: "u32 \<Rightarrow> (nat \<Rightarrow> proc_fs) \<Rightarrow> (string, u32 list) res" where
  "discover_process_tree_scope_pids root views =
     (if root = 0 then Inl ''process-tree root PID must be non-zero'' else scope_loop views 0 [root])"

text \<open>\<open>q\<close> belongs with \<open>p\<close>: a thread of it, a child of one, or a process whose parent it is.\<close>

definition scope_edge :: "proc_fs \<Rightarrow> u32 \<Rightarrow> u32 \<Rightarrow> bool" where
  "scope_edge fs p q \<longleftrightarrow>
     q \<in> set (proc_task_ids fs p)
     \<or> list_ex (\<lambda>t. q \<in> set (proc_task_children fs p t)) (proc_task_ids fs p)
     \<or> (case proc_parent_pairs fs of Inl _ \<Rightarrow> False | Inr pairs \<Rightarrow> (q, p) \<in> set pairs)"

definition pids_in :: "(u32 \<Rightarrow> bool) \<Rightarrow> u32 list \<times> bool \<Rightarrow> bool" where
  "pids_in P st \<longleftrightarrow> bs_wf (fst st) \<and> (\<forall>p. p \<in> set (fst st) \<longrightarrow> P p)"

lemma fold_keeps:
  "pids_in P st \<Longrightarrow> (\<And>x st. x \<in> set xs \<Longrightarrow> pids_in P st \<Longrightarrow> pids_in P (f x st)) \<Longrightarrow> pids_in P (fold f xs st)"
  by (rule fold_invariant [where Q = "\<lambda>x. x \<in> set xs"]) auto

lemma add_pid_in: "P pid \<Longrightarrow> pids_in P st \<Longrightarrow> pids_in P (add_pid pid st)"
  by (auto simp: pids_in_def add_pid_def set_insort_insert sorted_insort_insert distinct_insort_insert)

lemma add_tasks_in:
  assumes "\<And>q. scope_edge fs p q \<Longrightarrow> P q" and "pids_in P st"
  shows "pids_in P (add_tasks fs p st)"
  unfolding add_tasks_def
proof (rule fold_keeps [OF assms(2)])
  fix tid st
  assume t: "tid \<in> set (proc_task_ids fs p)" and st: "pids_in P st"
  have "P tid" using t assms(1) by (simp add: scope_edge_def)
  then have tid: "pids_in P (add_pid tid st)" using st by (rule add_pid_in)
  have c: "P c" if "c \<in> set (proc_task_children fs p tid)" for c
    using that t assms(1) by (auto simp: scope_edge_def list_ex_iff)
  show "pids_in P (fold add_pid (proc_task_children fs p tid) (add_pid tid st))"
    by (rule fold_keeps [OF tid]) (rule add_pid_in [OF c])
qed

lemma scope_pass_in:
  assumes pass: "scope_pass fs pids = Inr st" and closed: "\<And>p q. P p \<Longrightarrow> scope_edge fs p q \<Longrightarrow> P q"
    and start: "pids_in P (pids, False)"
  shows "pids_in P st"
proof -
  obtain pairs where pairs: "proc_parent_pairs fs = Inr pairs"
    and st: "st = fold add_parent_pair pairs (fold (add_tasks fs) pids (pids, False))"
    using pass by (cases "proc_parent_pairs fs") (auto simp: scope_pass_def)
  have "pids_in P (fold (add_tasks fs) pids (pids, False))"
  proof (rule fold_keeps [OF start], rule add_tasks_in)
    fix p st q
    assume "p \<in> set pids" "scope_edge fs p q"
    then show "P q" using start closed by (auto simp: pids_in_def)
  qed
  then show ?thesis
    unfolding st
  proof (rule fold_keeps)
    fix pair st
    assume pair: "pair \<in> set pairs" and inv: "pids_in P st"
    show "pids_in P (add_parent_pair pair st)"
    proof (cases "snd pair \<in> set (fst st)")
      case True
      have "scope_edge fs (snd pair) (fst pair)" using pair pairs by (simp add: scope_edge_def)
      with True inv have "P (fst pair)" using closed by (auto simp: pids_in_def)
      with True inv show ?thesis by (simp add: add_parent_pair_def add_pid_in)
    next
      case False
      with inv show ?thesis by (simp add: add_parent_pair_def)
    qed
  qed
qed

lemma fold_unchanged:
  assumes "\<And>x st. pids_grow st (f x st)" and "\<not> snd (fold f xs st)" and "x \<in> set xs"
  shows "f x st = st"
  using assms(2,3)
proof (induction xs arbitrary: st)
  case (Cons y xs)
  have "fold f xs (f y st) = f y st"
    using fold_grow [of f "f y st" xs, OF assms(1)] Cons.prems(1) by (simp add: pids_grow_def)
  with Cons.prems(1) have "f y st = st" using assms(1) [of st y] by (simp add: pids_grow_def)
  with Cons.prems Cons.IH show ?case by (cases "x = y") simp_all
qed simp

lemma add_pid_same: "add_pid p st = st \<Longrightarrow> p \<in> set (fst st)"
  using add_pid_grows(3) [of p st] by auto

lemma scope_pass_closed:
  assumes pass: "scope_pass fs pids = Inr (pids', False)" and edge: "scope_edge fs p q" "p \<in> set pids"
  shows "pids' = pids" and "q \<in> set pids"
proof -
  obtain pairs where pairs: "proc_parent_pairs fs = Inr pairs"
    and st: "fold add_parent_pair pairs (fold (add_tasks fs) pids (pids, False)) = (pids', False)"
    using pass by (cases "proc_parent_pairs fs") (auto simp: scope_pass_def)
  let ?mid = "fold (add_tasks fs) pids (pids, False)"
  have mid: "?mid = (pids', False)"
    using fold_grow [of add_parent_pair ?mid pairs, OF add_parent_pair_grow] st by (simp add: pids_grow_def)
  then show same: "pids' = pids"
    using fold_grow [of "add_tasks fs" "(pids, False)" pids, OF add_tasks_grow] by (simp add: pids_grow_def)
  have tasks: "add_tasks fs p (pids, False) = (pids, False)"
    using fold_unchanged [of "add_tasks fs" pids "(pids, False)" p, OF add_tasks_grow] mid edge(2) by simp
  let ?f = "\<lambda>tid st. fold add_pid (proc_task_children fs p tid) (add_pid tid st)"
  have task_grow: "pids_grow st (fold add_pid (proc_task_children fs p tid) (add_pid tid st))" for tid st
    by (metis pids_grow_trans add_pid_grow fold_grow)
  have task: "add_pid tid (pids, False) = (pids, False)"
    "c \<in> set (proc_task_children fs p tid) \<Longrightarrow> add_pid c (pids, False) = (pids, False)"
    if "tid \<in> set (proc_task_ids fs p)" for tid c
  proof -
    have all: "fold add_pid (proc_task_children fs p tid) (add_pid tid (pids, False)) = (pids, False)"
      using fold_unchanged [of ?f "proc_task_ids fs p" "(pids, False)" tid, OF task_grow] tasks that
      by (simp add: add_tasks_def)
    then show one: "add_pid tid (pids, False) = (pids, False)"
      using fold_grow [of add_pid "add_pid tid (pids, False)" "proc_task_children fs p tid", OF add_pid_grow]
        add_pid_grow [of "(pids, False)" tid] by (simp add: pids_grow_def)
    show "add_pid c (pids, False) = (pids, False)" if "c \<in> set (proc_task_children fs p tid)"
      using fold_unchanged [of add_pid "proc_task_children fs p tid" "(pids, False)" c, OF add_pid_grow] all one that by simp
  qed
  have "add_parent_pair (q, p) (pids, False) = (pids, False)" if "(q, p) \<in> set pairs"
    using fold_unchanged [of add_parent_pair pairs "(pids, False)" "(q, p)", OF add_parent_pair_grow] st mid same that by simp
  then show "q \<in> set pids"
    using edge pairs task add_pid_same [of q "(pids, False)"]
    by (auto simp: scope_edge_def list_ex_iff add_parent_pair_def)
qed

lemma scope_loop_stable:
  assumes "pf_root fs = Inr names" and "pids_in (rtranclp (scope_edge fs) root) (pids, False)" and "root \<in> set pids"
  shows "\<exists>pids'. scope_loop (\<lambda>_. fs) k pids = Inr pids' \<and> bs_wf pids'
    \<and> set pids' = {q. (scope_edge fs)\<^sup>*\<^sup>* root q}"
  using assms
proof (induction "\<lambda>_ :: nat. fs" k pids rule: scope_loop.induct)
  case (1 k pids)
  obtain pids' changed where pass: "scope_pass fs pids = Inr (pids', changed)"
    using 1(2) by (simp add: scope_pass_def proc_parent_pairs_def) (metis surj_pair)
  have step: "(scope_edge fs)\<^sup>*\<^sup>* root q" if "(scope_edge fs)\<^sup>*\<^sup>* root p" "scope_edge fs p q" for p q
    using that by (rule rtranclp.rtrancl_into_rtrancl)
  have inv: "pids_in (rtranclp (scope_edge fs) root) (pids', changed)"
    by (rule scope_pass_in [OF pass step 1(3)])
  have grow: "pids_grow (pids, False) (pids', changed)" by (rule scope_pass_grow [OF pass])
  show ?case
  proof (cases changed)
    case True
    have "pids_in (rtranclp (scope_edge fs) root) (pids', False)" "root \<in> set pids'"
      using inv grow 1(4) by (auto simp: pids_in_def pids_grow_def)
    with 1(1) [OF pass refl True 1(2)] pass True show ?thesis by (simp add: scope_loop.simps [of _ k])
  next
    case False
    have last: "scope_pass fs pids = Inr (pids', False)" using pass False by simp
    have "q \<in> set pids" if "(scope_edge fs)\<^sup>*\<^sup>* root q" for q
      using that
    proof (induction rule: rtranclp_induct)
      case base
      show ?case by (rule 1(4))
    next
      case (step p q)
      show ?case by (rule scope_pass_closed(2) [OF last step(2,3)])
    qed
    moreover have "pids' = pids" using grow False by (simp add: pids_grow_def)
    ultimately show ?thesis using 1(3) pass False
      by (auto simp: scope_loop.simps [of _ k] pids_in_def)
  qed
qed

text \<open>C36. The scope of a process. Over a \<open>/proc\<close> that can be listed and does not change meanwhile,
  the search returns, for any process but 0 and in finitely many passes, exactly the process
  and whatever is reached from it through threads, the children of threads, and processes
  that name a parent already found; each once, in order. It ends also when \<open>/proc\<close> changes
  between passes, since the loop is a total function.\<close>

theorem process_tree_exact:
  assumes "root \<noteq> 0" and "pf_root fs = Inr names"
  shows "case discover_process_tree_scope_pids root (\<lambda>_. fs) of
      Inl _ \<Rightarrow> False
    | Inr pids \<Rightarrow> set pids = {q. (scope_edge fs)\<^sup>*\<^sup>* root q} \<and> sorted pids \<and> distinct pids"
  using scope_loop_stable [OF assms(2), of root "[root]" 0] assms(1)
  by (auto simp: discover_process_tree_scope_pids_def pids_in_def)

text \<open>A process with a thread, a child of the thread, and a process it became the parent of.\<close>

definition sample_proc :: proc_fs where
  "sample_proc =
     \<lparr>pf_root_path = ''/proc'', pf_root = Inr [''self'', ''7'', ''9'', ''12''],
      pf_dir = (\<lambda>path. if path = [''7'', ''task''] then Some [''7'', ''8''] else None),
      pf_text = (\<lambda>path.
        if path = [''7'', ''task'', ''8'', ''children''] then Some ''9 ''
        else if path = [''12'', ''stat''] then Some ''12 (a) b) S 9 1 1'' else None),
      pf_bytes = (\<lambda>_. None), pf_link = (\<lambda>_. None)\<rparr>"

lemma process_tree_exact_witness:
  "case discover_process_tree_scope_pids 7 (\<lambda>_. sample_proc) of
      Inl _ \<Rightarrow> False
    | Inr pids \<Rightarrow> set pids = {q. (scope_edge sample_proc)\<^sup>*\<^sup>* 7 q} \<and> sorted pids \<and> distinct pids"
  by (rule process_tree_exact [of 7 sample_proc "[''self'', ''7'', ''9'', ''12'']"])
    (simp_all add: sample_proc_def)

section \<open>Registered agents\<close>

record agent_registration =
  ar_kind :: string
  ar_pid :: u32
  ar_start_time_ticks :: u64
  ar_workspace_root :: string
  ar_executable :: string
  ar_command_fingerprint :: string
  ar_command :: "string option"

definition registration_validate :: "agent_registration \<Rightarrow> (string, unit) res" where
  "registration_validate r =
     (if trim (ar_kind r) = [] then Inl ''agent registration kind must not be empty''
      else if ar_pid r = 0 then Inl ''agent registration pid must be non-zero''
      else if ar_start_time_ticks r = 0 then Inl ''agent registration start_time_ticks must be non-zero''
      else if \<not> path_is_absolute (ar_workspace_root r) then
        Inl ''agent registration workspace_root must be absolute''
      else if trim (ar_executable r) = [] then Inl ''agent registration executable must not be empty''
      else if trim (ar_command_fingerprint r) = [] then
        Inl ''agent registration command_fingerprint must not be empty''
      else Inr ())"

definition registration_from_json ::
    "(string \<Rightarrow> (string, string) res) \<Rightarrow> (string \<Rightarrow> (string, agent_registration) res) \<Rightarrow> string
     \<Rightarrow> (string, agent_registration) res" where
  "registration_from_json read decode path =
     (case read path of
        Inl e \<Rightarrow> Inl (''failed to read agent registration '' @ path @ '': '' @ e)
      | Inr input \<Rightarrow>
          (case decode input of
             Inl e \<Rightarrow> Inl (''failed to parse agent registration '' @ path @ '': '' @ e)
           | Inr r \<Rightarrow> map_sum id (\<lambda>_. r) (registration_validate r)))"

definition validate_proc_identity :: "proc_fs \<Rightarrow> agent_registration \<Rightarrow> (string, unit) res" where
  "validate_proc_identity fs r =
     (case registration_validate r of
        Inl e \<Rightarrow> Inl e
      | Inr _ \<Rightarrow>
          (case read_process_start_time_ticks fs (ar_pid r) of
             None \<Rightarrow>
               Inl (''agent registration PID identity is unavailable before attach: pid='' @ pid_str (ar_pid r))
           | Some actual \<Rightarrow>
               if actual \<noteq> ar_start_time_ticks r then
                 Inl (''agent registration rejected possible PID reuse: pid='' @ pid_str (ar_pid r)
                   @ '',expected_start_time_ticks='' @ dec_str (unat (ar_start_time_ticks r))
                   @ '',actual_start_time_ticks='' @ dec_str (unat actual))
               else Inr ()))"

record agent_scope_metadata =
  am_supervisor_mode :: string
  am_kind :: string
  am_root_pid :: u32
  am_executable :: string
  am_command :: string
  am_command_fingerprint :: "string option"
  am_workspace_root :: string
  am_start_time_ticks :: "u64 option"

definition registration_into_metadata :: "string \<Rightarrow> agent_registration \<Rightarrow> agent_scope_metadata" where
  "registration_into_metadata mode r =
     \<lparr>am_supervisor_mode = mode, am_kind = ar_kind r, am_root_pid = ar_pid r,
      am_executable = ar_executable r,
      am_command = (case ar_command r of None \<Rightarrow> ''fingerprint:'' @ ar_command_fingerprint r | Some c \<Rightarrow> c),
      am_command_fingerprint = Some (ar_command_fingerprint r), am_workspace_root = ar_workspace_root r,
      am_start_time_ticks = Some (ar_start_time_ticks r)\<rparr>"

section \<open>Finding an agent\<close>

record proc_identity =
  pi_pid :: u32
  pi_ppid :: u32
  pi_start_time_ticks :: u64
  pi_comm :: string
  pi_executable :: string
  pi_cwd :: "string option"
  pi_command_args :: "string list"
  pi_command_fingerprint :: string

definition identity_command :: "proc_identity \<Rightarrow> string" where
  "identity_command i =
     (if pi_command_args i = [] then pi_comm i else join_with '' '' (redact_command (pi_command_args i)))"

definition command_for_matching :: "proc_identity \<Rightarrow> string" where
  "command_for_matching i = (if pi_command_args i = [] then pi_comm i else join_with '' '' (pi_command_args i))"

definition to_registration :: "string \<Rightarrow> string \<Rightarrow> proc_identity \<Rightarrow> agent_registration" where
  "to_registration kind workspace i =
     \<lparr>ar_kind = kind, ar_pid = pi_pid i, ar_start_time_ticks = pi_start_time_ticks i,
      ar_workspace_root = workspace,
      ar_executable = (if pi_executable i = [] then pi_comm i else pi_executable i),
      ar_command_fingerprint = pi_command_fingerprint i, ar_command = Some (identity_command i)\<rparr>"

definition command_fingerprint :: "(string \<Rightarrow> string) \<Rightarrow> string \<Rightarrow> string" where
  "command_fingerprint sha bytes = ''sha256:'' @ encode_hex (sha bytes)"

definition command_fingerprint_from_args :: "(string \<Rightarrow> string) \<Rightarrow> string list \<Rightarrow> string" where
  "command_fingerprint_from_args sha args = command_fingerprint sha (join_with [ch_nul] args)"

definition read_proc_identity :: "(string \<Rightarrow> string) \<Rightarrow> proc_fs \<Rightarrow> string \<Rightarrow> proc_identity option" where
  "read_proc_identity sha fs name =
     (case parse_ok name of None \<Rightarrow> None
      | Some pid \<Rightarrow>
     (case read_proc_stat fs pid of None \<Rightarrow> None
      | Some stat \<Rightarrow>
     (case parse_proc_stat_ppid stat of None \<Rightarrow> None
      | Some ppid \<Rightarrow>
     (case parse_proc_stat_start_time_ticks stat of None \<Rightarrow> None
      | Some ticks \<Rightarrow>
          (let comm = (case parse_proc_stat_comm stat of None \<Rightarrow> pid_str pid | Some c \<Rightarrow> c);
               args = read_proc_cmdline fs pid
           in Some
             \<lparr>pi_pid = pid, pi_ppid = ppid, pi_start_time_ticks = ticks, pi_comm = comm,
              pi_executable = (case pf_link fs [pid_str pid, ''exe''] of None \<Rightarrow> [] | Some p \<Rightarrow> p),
              pi_cwd = pf_link fs [pid_str pid, ''cwd''], pi_command_args = args,
              pi_command_fingerprint =
                command_fingerprint sha (if args = [] then comm else join_with [ch_nul] args)\<rparr>)))))"

definition read_proc_identities ::
    "(string \<Rightarrow> string) \<Rightarrow> proc_fs \<Rightarrow> (string, proc_identity list) res" where
  "read_proc_identities sha fs = map_sum (scan_error fs) (List.map_filter (read_proc_identity sha fs)) (pf_root fs)"

type_synonym identity_map = "(u32, proc_identity) bmap"

definition mentions_kind :: "string \<Rightarrow> proc_identity \<Rightarrow> bool" where
  "mentions_kind kind i \<longleftrightarrow>
     str_contains (to_ascii_lowercase (pi_executable i)) kind
     \<or> str_contains (to_ascii_lowercase (command_for_matching i)) kind
     \<or> str_contains (to_ascii_lowercase (pi_comm i)) kind"

text \<open>Up the parents, each visited once.\<close>

function parent_chain :: "identity_map \<Rightarrow> string \<Rightarrow> u32 \<Rightarrow> u32 list \<Rightarrow> bool" where
  "parent_chain by_pid kind ppid visited =
     (if ppid = 0 \<or> ppid \<in> set visited then False
      else
        (case bm_get by_pid ppid of
           None \<Rightarrow> False
         | Some parent \<Rightarrow>
             if mentions_kind kind parent then True
             else parent_chain by_pid kind (pi_ppid parent) (bs_insert ppid visited)))"
  by pat_completeness auto
termination
proof (relation "measure (\<lambda>(by_pid, kind, ppid, visited). card (- set visited))")
  fix by_pid :: identity_map and kind and ppid :: u32 and visited and parent :: proc_identity
  assume "\<not> (ppid = 0 \<or> ppid \<in> set visited)"
  then have "- set (bs_insert ppid visited) \<subset> - set visited" by (auto simp: set_insort_insert)
  then show "((by_pid, kind, pi_ppid parent, bs_insert ppid visited), by_pid, kind, ppid, visited)
      \<in> measure (\<lambda>(by_pid, kind, ppid, visited). card (- set visited))"
    by (simp add: psubset_card_mono)
qed simp

declare parent_chain.simps [simp del]

definition parent_chain_contains_kind :: "proc_identity \<Rightarrow> identity_map \<Rightarrow> string \<Rightarrow> bool" where
  "parent_chain_contains_kind i by_pid kind = parent_chain by_pid kind (pi_ppid i) []"

definition discovery_request_new :: "string \<Rightarrow> (string, string) res" where
  "discovery_request_new kind =
     (if trim kind = [] then Inl ''agent kind must not be empty'' else Inr kind)"

definition score_discovery_candidate ::
    "identity_map \<Rightarrow> string \<Rightarrow> string \<Rightarrow> string \<Rightarrow> proc_identity \<Rightarrow> nat" where
  "score_discovery_candidate by_pid kind sid workspace i =
     (let kind = to_ascii_lowercase kind;
          executable = to_ascii_lowercase (pi_executable i);
          command = command_for_matching i;
          workspace_match =
            ((case pi_cwd i of None \<Rightarrow> False | Some cwd \<Rightarrow> path_components cwd = path_components workspace)
             \<or> (workspace \<noteq> [] \<and> str_contains command workspace));
          session_match = (sid \<noteq> [] \<and> str_contains command sid);
          executable_kind_match = (pi_executable i \<noteq> [] \<and> str_contains executable kind);
          command_kind_match =
            (str_contains (to_ascii_lowercase command) kind
             \<or> str_contains (to_ascii_lowercase (pi_comm i)) kind);
          parent_chain_kind_match = parent_chain_contains_kind i by_pid kind
      in
        if \<not> (executable_kind_match \<or> command_kind_match \<or> workspace_match \<and> session_match
              \<or> parent_chain_kind_match) then 0
        else
          (if executable_kind_match then 4 else 0) + (if command_kind_match then 3 else 0)
          + (if workspace_match then 2 else 0) + (if session_match then 2 else 0)
          + (if parent_chain_kind_match then 1 else 0))"

record discovery_candidate =
  dc_identity :: proc_identity
  dc_score :: nat

definition candidate_summary :: "discovery_candidate \<Rightarrow> string" where
  "candidate_summary c =
     ''pid='' @ pid_str (pi_pid (dc_identity c)) @ '',score='' @ dec_str (dc_score c)
     @ '',executable='' @ pi_executable (dc_identity c) @ '',command='' @ identity_command (dc_identity c)"

definition candidate_of ::
    "(proc_identity \<Rightarrow> nat) \<Rightarrow> proc_identity \<Rightarrow> discovery_candidate option" where
  "candidate_of score i = (if 0 < score i then Some \<lparr>dc_identity = i, dc_score = score i\<rparr> else None)"

text \<open>By falling score, then by process id: two stable sorts.\<close>

definition sort_candidates :: "discovery_candidate list \<Rightarrow> discovery_candidate list" where
  "sort_candidates cs = sort_key (\<lambda>c. - int (dc_score c)) (sort_key (pi_pid \<circ> dc_identity) cs)"

definition discover_agent_registration ::
    "(string \<Rightarrow> string) \<Rightarrow> proc_fs \<Rightarrow> string \<Rightarrow> string \<Rightarrow> string \<Rightarrow> (string, agent_registration) res" where
  "discover_agent_registration sha fs kind sid workspace =
     (case read_proc_identities sha fs of
        Inl e \<Rightarrow> Inl e
      | Inr identities \<Rightarrow>
          (let by_pid = fold (\<lambda>i. bm_insert (pi_pid i) i) identities [];
               candidates = sort_candidates
                 (List.map_filter (candidate_of (score_discovery_candidate by_pid kind sid workspace)) identities)
           in if candidates = [] then Inl (''agent discovery found no matching '' @ kind @ '' process'')
              else
                (let top_score = dc_score (hd candidates);
                     top = filter (\<lambda>c. dc_score c = top_score) candidates
                 in if length top \<noteq> 1 then
                      Inl (''agent discovery is ambiguous; refusing to attach: ''
                        @ join_with ''; '' (map candidate_summary top))
                    else Inr (to_registration kind workspace (dc_identity (hd top))))))"

text \<open>\<open>/proc\<close> is looked at for the search, and again for the identity.\<close>

definition resolve_registered_agent ::
    "(string \<Rightarrow> string) \<Rightarrow> (string \<Rightarrow> (string, string) res) \<Rightarrow> (string \<Rightarrow> (string, agent_registration) res)
     \<Rightarrow> proc_fs \<times> proc_fs \<Rightarrow> string option \<Rightarrow> string option \<Rightarrow> string \<Rightarrow> string
     \<Rightarrow> (string, agent_scope_metadata option) res" where
  "resolve_registered_agent sha read decode looks registration discovery sid workspace =
     (case registration of
        Some path \<Rightarrow>
          (case registration_from_json read decode path of
             Inl e \<Rightarrow> Inl e
           | Inr r \<Rightarrow>
               map_sum id (\<lambda>_. Some (registration_into_metadata ''external_registration'' r))
                 (validate_proc_identity (snd looks) r))
      | None \<Rightarrow>
          (case discovery of
             Some kind \<Rightarrow>
               (case discover_agent_registration sha (fst looks) kind sid workspace of
                  Inl e \<Rightarrow> Inl e
                | Inr r \<Rightarrow>
                    map_sum id (\<lambda>_. Some (registration_into_metadata ''proc_discovery'' r))
                      (validate_proc_identity (snd looks) r))
           | None \<Rightarrow> Inr None))"

section \<open>Only the best candidate, and only alone\<close>

lemma sort_candidates_simps [simp]:
  "set (sort_candidates cs) = set cs" "sort_candidates cs = [] \<longleftrightarrow> cs = []"
  "length (filter P (sort_candidates cs)) = length (filter P cs)"
proof -
  show "set (sort_candidates cs) = set cs" by (simp add: sort_candidates_def)
  then show "sort_candidates cs = [] \<longleftrightarrow> cs = []" by (metis set_empty)
  show "length (filter P (sort_candidates cs)) = length (filter P cs)"
    by (simp add: sort_candidates_def filter_sort)
qed

lemma top_score:
  assumes "c \<in> set cs"
  shows "dc_score c \<le> dc_score (hd (sort_candidates cs))"
proof -
  let ?s = "sort_candidates cs"
  have "sorted (map (\<lambda>c. - int (dc_score c)) ?s)" by (simp add: sort_candidates_def)
  moreover have "c \<in> set ?s" using assms by simp
  moreover from this obtain d ds where "?s = d # ds" by (cases ?s) auto
  ultimately show ?thesis by auto
qed

definition candidate :: "(proc_identity \<Rightarrow> nat) \<Rightarrow> proc_identity \<Rightarrow> discovery_candidate" where
  "candidate score i = \<lparr>dc_identity = i, dc_score = score i\<rparr>"

lemma candidates_map:
  "List.map_filter (candidate_of score) ids = map (candidate score) (filter (\<lambda>i. 0 < score i) ids)"
  by (induction ids) (simp_all add: List.map_filter_simps candidate_of_def candidate_def)

lemma length_filter_1:
  "length (filter P xs) = 1 \<longleftrightarrow> (\<exists>i < length xs. P (xs ! i) \<and> (\<forall>j < length xs. P (xs ! j) \<longrightarrow> j = i))"
  (is "?l \<longleftrightarrow> ?r")
proof -
  have "?l \<longleftrightarrow> (\<exists>i. {i. i < length xs \<and> P (xs ! i)} = {i})"
    by (simp only: length_filter_conv_card card_1_singleton_iff One_nat_def)
  also have "\<dots> \<longleftrightarrow> ?r" by blast
  finally show ?thesis .
qed

text \<open>
  The process whose score is positive and more than every other's, where there is one; it is
  the head of the candidates with the top score, and the only one.
\<close>

definition best_at :: "(proc_identity \<Rightarrow> nat) \<Rightarrow> proc_identity list \<Rightarrow> nat \<Rightarrow> bool" where
  "best_at score ids i \<longleftrightarrow>
     i < length ids \<and> 0 < score (ids ! i)
     \<and> (\<forall>j < length ids. j \<noteq> i \<longrightarrow> score (ids ! j) < score (ids ! i))"

lemma best_at_unique: "best_at score ids i \<Longrightarrow> best_at score ids j \<Longrightarrow> i = j"
  unfolding best_at_def by (metis less_asym)

lemma top_candidates:
  fixes score ids
  defines "cs \<equiv> sort_candidates (List.map_filter (candidate_of score) ids)"
  defines "tops \<equiv> filter (\<lambda>c. dc_score c = dc_score (hd cs)) cs"
  shows "cs \<noteq> [] \<and> length tops = 1 \<longleftrightarrow> (\<exists>i. best_at score ids i)"
    and "best_at score ids i \<Longrightarrow> cs \<noteq> [] \<and> length tops = 1 \<and> dc_identity (hd tops) = ids ! i"
proof -
  let ?cands = "map (candidate score) (filter (\<lambda>i. 0 < score i) ids)"
  let ?m = "dc_score (hd cs)"
  have cs: "cs = sort_candidates ?cands" by (simp add: cs_def candidates_map)
  have len: "length tops = length (filter (\<lambda>i. score i = ?m) ids)" if "0 < ?m"
    using that by (simp add: tops_def cs filter_map comp_def candidate_def conj_commute)
      (metis (mono_tags, lifting) order_less_irrefl)
  have le: "score x \<le> ?m" if "x \<in> set ids" for x
    using top_score [of "candidate score x" ?cands] that by (cases "score x = 0") (auto simp: cs candidate_def)
  have hd: "\<exists>x \<in> set ids. score x = ?m \<and> 0 < ?m" if "cs \<noteq> []"
    using hd_in_set [OF that] by (auto simp: cs candidate_def)
  have best: "cs \<noteq> [] \<and> length tops = 1 \<and> dc_identity (hd tops) = ids ! i" if b: "best_at score ids i" for i
  proof -
    have i: "i < length ids" "0 < score (ids ! i)" using b by (auto simp: best_at_def)
    then have ne: "cs \<noteq> []" by (auto simp: cs filter_empty_conv)
    then obtain x where x: "x \<in> set ids" "score x = ?m" "0 < ?m" using hd by blast
    have other: "score (ids ! j) < score (ids ! i)" if "j < length ids" "j \<noteq> i" for j
      using b that by (simp add: best_at_def)
    have m: "?m = score (ids ! i)"
      using x le [of "ids ! i"] i other by (auto simp: in_set_conv_nth) (metis leD)
    have one: "length tops = 1"
      unfolding len [OF x(3)] length_filter_1 m using i other by (metis less_irrefl)
    then obtain c where c: "tops = [c]" by (cases tops) auto
    then have "c \<in> set tops" by simp
    then have "c \<in> set cs" "dc_score c = ?m" by (auto simp: tops_def)
    then obtain j where "j < length ids" "c = candidate score (ids ! j)" "score (ids ! j) = ?m"
      by (auto simp: cs candidate_def in_set_conv_nth)
    then have "dc_identity c = ids ! i" using other [of j] m by (cases "j = i") (auto simp: candidate_def)
    with ne one c show ?thesis by simp
  qed
  then show "best_at score ids i \<Longrightarrow> cs \<noteq> [] \<and> length tops = 1 \<and> dc_identity (hd tops) = ids ! i" .
  show "cs \<noteq> [] \<and> length tops = 1 \<longleftrightarrow> (\<exists>i. best_at score ids i)"
  proof
    assume a: "cs \<noteq> [] \<and> length tops = 1"
    then have m: "0 < ?m" using hd by blast
    with a len obtain i where "i < length ids" "score (ids ! i) = ?m"
      "\<And>j. j < length ids \<Longrightarrow> score (ids ! j) = ?m \<Longrightarrow> j = i"
      using length_filter_1 [of "\<lambda>i. score i = ?m" ids] by auto
    then have "best_at score ids i"
      unfolding best_at_def using m le by (metis nth_mem order_less_le)
    then show "\<exists>i. best_at score ids i" ..
  qed (use best in blast)
qed

text \<open>Discovery fails closed. The search for an agent returns a registration exactly when
  one of the processes that \<open>/proc\<close> lists scores, and every other scores strictly less; the
  registration is then of that process. No match and a tie are errors.\<close>

lemma discovery_takes_unique_best:
  "discover_agent_registration sha fs kind sid workspace = Inr r \<longleftrightarrow>
     (case read_proc_identities sha fs of
        Inl _ \<Rightarrow> False
      | Inr ids \<Rightarrow>
          (let score = score_discovery_candidate (fold (\<lambda>i. bm_insert (pi_pid i) i) ids []) kind sid workspace
           in \<exists>i. best_at score ids i \<and> r = to_registration kind workspace (ids ! i)))"
proof (cases "read_proc_identities sha fs")
  case (Inr ids)
  let ?score = "score_discovery_candidate (fold (\<lambda>i. bm_insert (pi_pid i) i) ids []) kind sid workspace"
  show ?thesis
    using top_candidates(1) [of ?score ids] top_candidates(2) [of ?score ids] Inr
    by (auto simp: discover_agent_registration_def Let_def dest: best_at_unique)
qed (simp add: discover_agent_registration_def)

text \<open>
  An attached registration names a process that was alive, with the start time registered,
  when it was looked at last.
\<close>

lemma resolved_identity:
  assumes "resolve_registered_agent sha read decode looks registration discovery sid workspace = Inr (Some m)"
  shows "am_root_pid m \<noteq> 0 \<and> am_start_time_ticks m = read_process_start_time_ticks (snd looks) (am_root_pid m)"
  using assms
  by (auto simp: resolve_registered_agent_def validate_proc_identity_def registration_validate_def
      registration_into_metadata_def split: option.splits sum.splits if_splits)

text \<open>
  The observer's own command line names the kind it looks for, the session and the workspace.
  It is a candidate like any other, and here beats the agent, which an interpreter runs: the
  observer would follow itself.
\<close>

definition observer_process :: proc_identity where
  "observer_process =
     \<lparr>pi_pid = 5, pi_ppid = 1, pi_start_time_ticks = 80, pi_comm = ''apolysis'',
      pi_executable = ''/usr/bin/apolysis'', pi_cwd = None,
      pi_command_args =
        [''apolysis'', ''observe'', ''--backend'', ''live'', ''--agent-kind'', ''codex'', ''--agent-discover'', ''--session'', ''s1'',
         ''--workspace-root'', ''/w''],
      pi_command_fingerprint = ''f''\<rparr>"

definition agent_process :: proc_identity where
  "agent_process =
     \<lparr>pi_pid = 6, pi_ppid = 1, pi_start_time_ticks = 70, pi_comm = ''node'',
      pi_executable = ''/usr/bin/node'', pi_cwd = Some ''/w'', pi_command_args = [''node'', ''codex.js''],
      pi_command_fingerprint = ''g''\<rparr>"

lemma observer_outscores_agent:
  "map (score_discovery_candidate (fold (\<lambda>i. bm_insert (pi_pid i) i) [observer_process, agent_process] [])
      ''codex'' ''s1'' ''/w'') [observer_process, agent_process] = [7, 5]"
  by code_simp

lemma observer_discovers_itself:
  assumes "read_proc_identities sha fs = Inr [observer_process, agent_process]"
  shows "discover_agent_registration sha fs ''codex'' ''s1'' ''/w'' =
    Inr (to_registration ''codex'' ''/w'' observer_process)"
proof -
  let ?ids = "[observer_process, agent_process]"
  let ?score = "score_discovery_candidate (fold (\<lambda>i. bm_insert (pi_pid i) i) ?ids []) ''codex'' ''s1'' ''/w''"
  have "best_at ?score ?ids 0"
    using observer_outscores_agent by (simp add: best_at_def less_Suc_eq del: fold_simps)
  from top_candidates(2) [OF this] assms show ?thesis
    by (simp add: discover_agent_registration_def Let_def del: fold_simps)
qed

end
