(* ===== verification/Observer_Events.thy ===== *)
theory Observer_Events
  imports Policy_Enforcement Observer_Abi
begin

text \<open>
  From raw to canonical events (\<open>crates/apolysis-observer\<close>): the canonical form and the ids of
  events, the lines of a fixture (\<open>src/lib.rs\<close>), and the context of processes that later
  events are given (\<open>src/process_context.rs\<close>).
\<close>

section \<open>Canonical events\<close>

definition canonical_type :: "policy \<Rightarrow> raw_kernel_event \<Rightarrow> event_type" where
  "canonical_type p raw =
     (let n = rk_event_name raw in
      if n \<in> {''exec'', ''execve'', ''sched_process_exec''} then EvExec
      else if n \<in> {''open'', ''openat'', ''openat2''} then
        (if denies_credential_path p (rk_resource raw) then EvCredentialRead else EvFileOpen)
      else if n = ''creat'' then EvFileCreate
      else if n \<in> {''truncate'', ''ftruncate''} then EvFileTruncate
      else if n \<in> {''unlink'', ''unlinkat''} then EvFileUnlink
      else if n \<in> {''rename'', ''renameat'', ''renameat2''} then EvFileRename
      else if n = ''connect'' then EvNetworkConnect
      else if n \<in> {''sched_process_exit'', ''process_exit''} then EvProcessExit
      else EvRuntimeMetadata)"

text \<open>The time that the constructor reads is replaced at once.\<close>

definition canonicalize :: "raw_kernel_event \<Rightarrow> policy \<Rightarrow> canonical_event" where
  "canonicalize raw p =
     (let e = ce_with_runtime_identity (rk_container_id raw) (rk_cgroup_id raw)
                (ce_with_timestamp (rk_timestamp raw)
                  (canonical_event_new 0 (rk_session_id raw) SrcKernelTracepoint (canonical_type p raw)
                    (rk_pid raw) (rk_ppid raw) (rk_comm raw) (rk_resource raw) (rk_action raw)))
      in case rk_event_id raw of None \<Rightarrow> e | Some i \<Rightarrow> ce_with_raw_event_id i e)"

section \<open>Event ids\<close>

record event_ids =
  ei_session_id :: string
  ei_next :: u64

definition event_ids_new :: "string \<Rightarrow> event_ids" where
  "event_ids_new sid = \<lparr>ei_session_id = sid, ei_next = 1\<rparr>"

text \<open>\<open>{:016x}\<close>\<close>

definition hex16 :: "nat \<Rightarrow> string" where
  "hex16 n = replicate (16 - length (hex_str n)) (CHR ''0'') @ hex_str n"

definition event_id :: "string \<Rightarrow> u64 \<Rightarrow> string" where
  "event_id sid n = sid @ '':event:'' @ hex16 (unat n)"

text \<open>The number wraps where a debug build would stop, after \<open>2 ^ 64 - 1\<close> events.\<close>

definition next_raw_event_id :: "event_ids \<Rightarrow> string \<times> event_ids" where
  "next_raw_event_id ids =
     (event_id (ei_session_id ids) (ei_next ids), ids\<lparr>ei_next := ei_next ids + 1\<rparr>)"

section \<open>Lines of a fixture\<close>

definition required_raw :: "pipe_fields \<Rightarrow> string \<Rightarrow> (string, string) res" where
  "required_raw f k =
     (case pipe_required f k of Inl _ \<Rightarrow> Inl (''missing raw event field: '' @ k) | Inr v \<Rightarrow> Inr v)"

definition parse_raw :: "pipe_fields \<Rightarrow> string \<Rightarrow> (string, 'a::len word) res" where
  "parse_raw f k =
     (case required_raw f k of
        Inl e \<Rightarrow> Inl e
      | Inr v \<Rightarrow> map_sum (\<lambda>e. ''invalid '' @ k @ '': '' @ int_error_str e) id (parse_word v))"

text \<open>\<open>str::replace\<close>\<close>

function str_replace :: "string \<Rightarrow> string \<Rightarrow> string \<Rightarrow> string" where
  "str_replace old new s =
     (if s = [] \<or> old = [] then s
      else if prefix old s then new @ str_replace old new (drop (length old) s)
      else hd s # str_replace old new (tl s))"
  by pat_completeness auto
termination by (relation "measure (\<lambda>(old, new, s). length s)") auto

declare str_replace.simps [simp del]

definition parse_fixture_raw_event :: "string \<Rightarrow> string \<Rightarrow> (string, raw_kernel_event) res" where
  "parse_fixture_raw_event line sid =
     (case pipe_parse line of
        Inl e \<Rightarrow> Inl (str_replace ''pipe field'' ''raw event field'' e)
      | Inr f \<Rightarrow>
     (case parse_raw f ''timestamp'' of Inl e \<Rightarrow> Inl e
      | Inr (timestamp :: u128) \<Rightarrow>
     (case parse_raw f ''pid'' of Inl e \<Rightarrow> Inl e
      | Inr (pid :: u32) \<Rightarrow>
     (case parse_raw f ''ppid'' of Inl e \<Rightarrow> Inl e
      | Inr (ppid :: u32) \<Rightarrow>
     (case parse_raw f ''uid'' of Inl e \<Rightarrow> Inl e
      | Inr (uid :: u32) \<Rightarrow>
     (case parse_raw f ''gid'' of Inl e \<Rightarrow> Inl e
      | Inr (gid :: u32) \<Rightarrow>
     (case required_raw f ''comm'' of Inl e \<Rightarrow> Inl e
      | Inr comm \<Rightarrow>
     (case required_raw f ''event'' of Inl e \<Rightarrow> Inl e
      | Inr event_name \<Rightarrow>
     (case required_raw f ''resource'' of Inl e \<Rightarrow> Inl e
      | Inr resource \<Rightarrow>
     (case required_raw f ''action'' of Inl e \<Rightarrow> Inl e
      | Inr action \<Rightarrow>
          Inr (raw_kernel_event_new timestamp sid SrcKernelTracepoint event_name pid ppid uid gid comm
                 resource action (pipe_optional f ''container_id'') (pipe_optional f ''cgroup_id'')
                 (case pipe_optional f ''payload'' of None \<Rightarrow> [] | Some v \<Rightarrow> v))))))))))))"

section \<open>The context of processes\<close>

record process_context =
  pc_command :: string
  pc_executable :: string
  pc_started_at :: u128

text \<open>The map is never listed, so a function stands for it.\<close>

type_synonym context_table = "u32 \<Rightarrow> process_context option"

definition should_enrich :: "event_type \<Rightarrow> bool" where
  "should_enrich ty \<longleftrightarrow>
     ty \<in> {EvExec, EvFileOpen, EvFileCreate, EvFileTruncate, EvFileUnlink, EvFileRename, EvCredentialRead,
           EvNetworkConnect, EvProcessExit}"

definition strip_exec_payload_marker :: "string \<Rightarrow> string \<Rightarrow> string" where
  "strip_exec_payload_marker v marker =
     (case Option.bind (strip_suffix marker v) (strip_suffix '','') of None \<Rightarrow> v | Some w \<Rightarrow> w)"

definition exec_command :: "raw_kernel_event \<Rightarrow> string option" where
  "exec_command raw =
     (case (case strip_prefix ''argv:'' (rk_raw_payload raw) of
              None \<Rightarrow> strip_prefix ''argv='' (rk_raw_payload raw) | Some v \<Rightarrow> Some v) of
        None \<Rightarrow> None
      | Some v \<Rightarrow>
          (let v = strip_exec_payload_marker v ''payload_truncated:true'';
               v = strip_exec_payload_marker v ''argv_truncated:true'';
               v = trim (strip_exec_payload_marker v ''resource_truncated:true'')
           in if v = [] then None else Some v))"

definition exec_context :: "raw_kernel_event \<Rightarrow> process_context" where
  "exec_context raw =
     \<lparr>pc_command = (case exec_command raw of None \<Rightarrow> rk_resource raw | Some c \<Rightarrow> c),
      pc_executable = rk_resource raw, pc_started_at = rk_timestamp raw\<rparr>"

definition enrich :: "process_context option \<Rightarrow> canonical_event \<Rightarrow> canonical_event" where
  "enrich c e =
     (case c of
        None \<Rightarrow> e
      | Some c \<Rightarrow>
          if should_enrich (ce_type e)
          then ce_with_process_context (pc_command c) (pc_executable c) (pc_started_at c) e else e)"

definition context_observe ::
    "raw_kernel_event \<Rightarrow> canonical_event \<Rightarrow> context_table \<Rightarrow> canonical_event \<times> context_table" where
  "context_observe raw canonical t =
     (let t1 = (if ce_type canonical = EvExec then t(rk_pid raw \<mapsto> exec_context raw) else t);
          enriched = enrich (t1 (rk_pid raw)) canonical
      in (enriched, if ce_type enriched = EvProcessExit then t1(rk_pid raw := None) else t1))"

section \<open>Facts\<close>

section \<open>Facts\<close>

text \<open>Event ids tell the events of a session apart.\<close>

lemma length_hex_str: "n < 16 ^ k \<Longrightarrow> 0 < k \<Longrightarrow> length (hex_str n) \<le> k"
proof (induction n arbitrary: k rule: hex_str.induct)
  case (1 n)
  show ?case
  proof (cases "n < 16")
    case False
    then obtain k' where k: "k = Suc k'" "0 < k'" using 1(2,3) by (cases k; cases "k - 1") auto
    have "n div 16 < 16 ^ k'" using 1(2) k by (simp add: less_mult_imp_div_less mult.commute)
    from 1(1) [OF False this k(2)] show ?thesis using False k by (subst hex_str.simps) simp
  qed (use 1(3) in \<open>simp add: hex_str.simps\<close>)
qed

lemma length_hex16: "n < 2 ^ 64 \<Longrightarrow> length (hex16 n) = 16"
  using length_hex_str [of n 16] by (simp add: hex16_def)

fun hex_value :: "nat \<Rightarrow> string \<Rightarrow> nat" where
  "hex_value acc [] = acc"
| "hex_value acc (c # cs) = hex_value (16 * acc + (if byte_val c < 58 then byte_val c - 48 else byte_val c - 87)) cs"

lemma hex_value_append: "hex_value acc (a @ b) = hex_value (hex_value acc a) b"
  by (induction a arbitrary: acc) simp_all

lemma hex_value_digit: "d < 16 \<Longrightarrow> hex_value acc [hex_digit d] = 16 * acc + d"
  by (simp add: hex_digit_def byte_val_def)

lemma hex_value_str: "hex_value 0 (hex_str n) = n"
proof (induction n rule: hex_str.induct)
  case (1 n)
  then show ?case
    by (subst hex_str.simps) (simp add: hex_value_append hex_value_digit del: hex_value.simps)
qed

lemma hex_value_zeros: "hex_value 0 (replicate k (CHR ''0'') @ s) = hex_value 0 s"
  by (induction k) (simp_all add: byte_val_def)

lemma event_id_inj: "event_id sid m = event_id sid n \<longleftrightarrow> m = n"
proof
  have h: "hex_value 0 (hex16 k) = k" for k by (simp add: hex16_def hex_value_zeros hex_value_str)
  assume "event_id sid m = event_id sid n"
  then have "hex16 (unat m) = hex16 (unat n)" by (simp add: event_id_def)
  then have "unat m = unat n" using h by metis
  then show "m = n" by (rule unsigned_word_eqI)
qed simp

text \<open>The markers of truncated records are not part of the command.\<close>

lemma strip_marker_plain: "CHR '','' \<notin> set v \<Longrightarrow> strip_exec_payload_marker v m = v"
  by (auto simp: strip_exec_payload_marker_def strip_suffix_def suffix_def bind_eq_Some_conv
      split: option.splits)

lemma strip_marker_own: "strip_exec_payload_marker (v @ '','' @ m) m = v"
  by (simp add: strip_exec_payload_marker_def strip_suffix_def suffix_def)

lemma strip_marker_other:
  "\<not> suffix m (v @ w) \<Longrightarrow> strip_exec_payload_marker (v @ w) m = v @ w"
  by (simp add: strip_exec_payload_marker_def strip_suffix_def)

lemma exec_command_unmarked:
  assumes "rk_raw_payload raw = with_markers (truncation_markers r) (''argv:'' @ argv)"
    and "CHR '','' \<notin> set argv"
  shows "exec_command raw = (if trim argv = [] then None else Some (trim argv))"
  using assms
  by (cases "has_flag r flag_resource_truncated"; cases "has_flag r flag_argv_truncated";
      cases "has_flag r flag_payload_truncated")
    (simp_all add: exec_command_def with_markers_def truncation_markers_def strip_prefix_def Let_def
      strip_marker_plain strip_marker_other suffix_to_prefix
      strip_marker_own [of "argv" "''resource_truncated:true''", simplified]
      strip_marker_own [of "argv" "''argv_truncated:true''", simplified]
      strip_marker_own [of "argv" "''payload_truncated:true''", simplified]
      strip_marker_own [of "argv @ '',resource_truncated:true''" "''argv_truncated:true''", simplified]
      strip_marker_own [of "argv @ '',resource_truncated:true''" "''payload_truncated:true''", simplified]
      strip_marker_own [of "argv @ '',argv_truncated:true''" "''payload_truncated:true''", simplified]
      strip_marker_own [of "argv @ '',resource_truncated:true,argv_truncated:true''" "''payload_truncated:true''", simplified])

text \<open>
  Of all the raw events before, the latest start or end of a process of that id says what its
  context is.
\<close>

definition decides :: "policy \<Rightarrow> u32 \<Rightarrow> raw_kernel_event \<Rightarrow> bool" where
  "decides p pid r \<longleftrightarrow> rk_pid r = pid \<and> canonical_type p r \<in> {EvExec, EvProcessExit}"

definition context_after :: "policy \<Rightarrow> raw_kernel_event list \<Rightarrow> context_table" where
  "context_after p raws pid =
     (case find (decides p pid) (rev raws) of
        None \<Rightarrow> None
      | Some r \<Rightarrow> if canonical_type p r = EvExec then Some (exec_context r) else None)"

definition enriched_event :: "policy \<Rightarrow> raw_kernel_event list \<Rightarrow> raw_kernel_event \<Rightarrow> canonical_event" where
  "enriched_event p before raw =
     enrich (if canonical_type p raw = EvExec then Some (exec_context raw)
             else context_after p before (rk_pid raw)) (canonicalize raw p)"

lemma ce_type_enrich [simp]: "ce_type (enrich c e) = ce_type e"
  by (simp add: enrich_def ce_with_process_context_def split: option.splits)

lemma ce_type_canonicalize [simp]: "ce_type (canonicalize raw p) = canonical_type p raw"
  by (simp add: canonicalize_def Let_def ce_with_raw_event_id_def ce_with_runtime_identity_def
      ce_with_timestamp_def canonical_event_new_def split: option.splits)

lemma context_after_empty: "context_after p [] = (\<lambda>_. None)"
  by (simp add: context_after_def fun_eq_iff)

lemma context_observe_spec:
  "context_observe raw (canonicalize raw p) (context_after p before) =
     (enriched_event p before raw, context_after p (before @ [raw]))"
  by (auto simp: context_observe_def Let_def enriched_event_def context_after_def decides_def fun_eq_iff)

end
