(* ===== verification/Observer_Timeline.thy ===== *)
theory Observer_Timeline
  imports Observer_Events Jsonl_Store Feedback Policy_Parser Kubernetes_Metadata
begin

text \<open>
  The timeline of an observer (\<open>crates/apolysis-observer/src/lib.rs\<close>): the plans, the metadata,
  the policy evaluation of an event and its records, and the replay of a fixture. Parameters:
  what the files read hold, the clock, the process id, the capabilities of the host, the room
  on the device, and the faults of the feedback files.
\<close>

section \<open>Plans\<close>

datatype observer_backend = ObFixtureRingBuffer | ObAyaRingBuffer

fun observer_backend_str :: "observer_backend \<Rightarrow> string" where
  "observer_backend_str ObFixtureRingBuffer = ''fixture_ring_buffer''"
| "observer_backend_str ObAyaRingBuffer = ''aya_ring_buffer''"

datatype observer_mode = OmAuditOnly

fun observer_mode_str :: "observer_mode \<Rightarrow> string" where
  "observer_mode_str OmAuditOnly = ''audit-only''"

record runner_plan =
  rn_process :: bool
  rn_system :: bool
  rn_stdio :: bool
  rn_ssl_http_uprobe :: bool

definition runner_plan_default :: runner_plan where
  "runner_plan_default =
     \<lparr>rn_process = True, rn_system = True, rn_stdio = False, rn_ssl_http_uprobe = False\<rparr>"

definition enabled :: "bool \<Rightarrow> string" where
  "enabled b = (if b then ''enabled'' else ''disabled'')"

definition runner_summary :: "runner_plan \<Rightarrow> string" where
  "runner_summary p =
     ''process:'' @ enabled (rn_process p) @ '',system:'' @ enabled (rn_system p)
     @ '',stdio:'' @ enabled (rn_stdio p) @ '',ssl-http-uprobe:'' @ enabled (rn_ssl_http_uprobe p)"

record tracepoint_attach =
  ta_category :: string
  ta_name :: string

definition tracepoint :: "string \<Rightarrow> string \<Rightarrow> tracepoint_attach" where
  "tracepoint category name = \<lparr>ta_category = category, ta_name = name\<rparr>"

definition program_name :: "tracepoint_attach \<Rightarrow> string" where
  "program_name t = ''apolysis_'' @ ta_name t"

record loader_plan =
  lp_object_path :: string
  lp_ring_buffer_map :: string
  lp_tracepoints :: "tracepoint_attach list"

definition host_observer_plan :: "string \<Rightarrow> loader_plan" where
  "host_observer_plan path =
     \<lparr>lp_object_path = path, lp_ring_buffer_map = ''APOLYSIS_EVENTS'',
      lp_tracepoints =
        [tracepoint ''sched'' ''sched_process_exec'', tracepoint ''sched'' ''sched_process_exit'',
         tracepoint ''syscalls'' ''sys_enter_execve'', tracepoint ''syscalls'' ''sys_enter_execveat'',
         tracepoint ''syscalls'' ''sys_enter_openat'', tracepoint ''syscalls'' ''sys_enter_openat2'',
         tracepoint ''syscalls'' ''sys_enter_creat'', tracepoint ''syscalls'' ''sys_enter_truncate'',
         tracepoint ''syscalls'' ''sys_enter_unlinkat'', tracepoint ''syscalls'' ''sys_enter_renameat2'',
         tracepoint ''syscalls'' ''sys_enter_connect'']\<rparr>"

definition audit_observer_plan :: "string \<Rightarrow> loader_plan" where
  "audit_observer_plan path =
     (let p = host_observer_plan path; ts = lp_tracepoints p
      in p\<lparr>lp_tracepoints := take 1 ts @ tracepoint ''sched'' ''sched_process_fork'' # drop 1 ts\<rparr>)"

section \<open>Writing\<close>

text \<open>
  The output of an observer: the timeline, the feedback files, and how often feedback was
  written. A failed append leaves the writer as it is.
\<close>

record observer_out =
  oo_store :: jsonl_store
  oo_files :: files
  oo_writes :: nat

definition put_line :: "string \<Rightarrow> string \<Rightarrow> observer_out \<Rightarrow> (string, unit) res \<times> observer_out" where
  "put_line err line out =
     (let (res, s) = jsonl_append line (oo_store out)
      in (map_sum (\<lambda>e. err @ e) id res, out\<lparr>oo_store := s\<rparr>))"

fun put_lines :: "string \<Rightarrow> string list \<Rightarrow> observer_out \<Rightarrow> (string, unit) res \<times> observer_out" where
  "put_lines err [] out = (Inr (), out)"
| "put_lines err (l # ls) out =
     (case put_line err l out of (Inl e, o') \<Rightarrow> (Inl e, o') | (Inr _, o') \<Rightarrow> put_lines err ls o')"

text \<open>The writer of feedback, where there is one; each field by the number of the writing.\<close>

record feedback_writer =
  fw_directory :: string
  fw_pid :: u32
  fw_temporary :: "nat \<Rightarrow> u64"
  fw_create_dir :: "nat \<Rightarrow> (string, unit) res"
  fw_faults :: "nat \<Rightarrow> write_faults \<times> write_faults"

definition put_feedback ::
    "feedback_writer option \<Rightarrow> policy_violation \<Rightarrow> observer_out \<Rightarrow> (string, unit) res \<times> observer_out" where
  "put_feedback writer v out =
     (case writer of
        None \<Rightarrow> (Inr (), out)
      | Some w \<Rightarrow>
          (let n = oo_writes out;
               (res, states) = write_last_violation (fw_pid w) (fw_temporary w n) (fw_create_dir w n)
                                 (fw_faults w n) (fw_directory w) v (oo_files out)
           in (res, out\<lparr>oo_files := last (oo_files out # states), oo_writes := n + 1\<rparr>)))"

section \<open>The evaluation of an event\<close>

text \<open>The clock is read by the three constructors, in order.\<close>

type_synonym clock = "nat \<Rightarrow> u128"

definition violation_of ::
    "clock \<Rightarrow> canonical_event \<Rightarrow> string option \<Rightarrow> policy_evaluation \<Rightarrow> string \<Rightarrow> string \<Rightarrow> policy_violation" where
  "violation_of clk e target v rule reason =
     (let pv = policy_violation_new (clk 0) (ce_session_id e) rule (policy_decision_core (pe_decision v)) reason
                 (ce_pid e) (case target of None \<Rightarrow> ce_resource e | Some t \<Rightarrow> t) (pe_backend v)
      in case ce_raw_event_id e of None \<Rightarrow> pv | Some i \<Rightarrow> pv_with_observed_event_id i pv)"

definition enforcement_of ::
    "clock \<Rightarrow> canonical_event \<Rightarrow> policy_evaluation \<Rightarrow> string \<Rightarrow> enforcement_metadata" where
  "enforcement_of clk e v rule =
     (let m = em_with_measurement (ce_timestamp e) (clk 2)
                (em_with_downgrade_reason (map_option dd_reason (pe_downgrade v))
                  (em_with_rule_id rule
                    (enforcement_metadata_new (clk 1) (ce_session_id e) (decision_kind_core (pe_requested v))
                      (decision_kind_core (pe_effective v)) (pe_backend v)
                      (enforcement_timing_str (pe_timing v)) (enforcement_runtime_str (pe_runtime v))
                      (enforcement_action_str (pe_action v)) (pe_preop_prevention v))))
      in case ce_raw_event_id e of None \<Rightarrow> m | Some i \<Rightarrow> em_with_observed_event_id i m)"

definition append_policy_evaluation ::
    "clock \<Rightarrow> canonical_event \<Rightarrow> policy \<Rightarrow> capabilities \<Rightarrow> feedback_writer option \<Rightarrow> string option
     \<Rightarrow> observer_out \<Rightarrow> (string, unit) res \<times> observer_out" where
  "append_policy_evaluation clk e p caps writer target out =
     (let v = evaluate_event p e caps in
      if is_allow (pe_decision v) then (Inr (), out)
      else
        (case decision_rule_id (pe_decision v) of
           None \<Rightarrow> (Inl ''policy violation missing rule id'', out)
         | Some rule \<Rightarrow>
        (case decision_reason (pe_decision v) of
           None \<Rightarrow> (Inl ''policy violation missing reason'', out)
         | Some reason \<Rightarrow>
             (let pv = violation_of clk e target v rule reason in
              case put_line ''failed to write policy violation: '' (policy_violation_json pv) out of
                (Inl err, o1) \<Rightarrow> (Inl err, o1)
              | (Inr _, o1) \<Rightarrow>
             (case put_line ''failed to write enforcement metadata: ''
                     (enforcement_metadata_json (enforcement_of clk e v rule)) o1 of
                (Inl err, o2) \<Rightarrow> (Inl err, o2)
              | (Inr _, o2) \<Rightarrow> put_feedback writer pv o2)))))"

section \<open>Metadata\<close>

definition runtime_event :: "u128 \<Rightarrow> u32 \<Rightarrow> string \<Rightarrow> string \<Rightarrow> string \<Rightarrow> string \<Rightarrow> canonical_event" where
  "runtime_event now pid sid actor resource action =
     canonical_event_new now sid SrcRuntimeMetadata EvRuntimeMetadata pid 0 actor resource action"

definition observer_entries :: "runner_plan \<Rightarrow> observer_backend \<Rightarrow> rotation_policy option \<Rightarrow> (string \<times> string) list" where
  "observer_entries plan backend rotation =
     [(''observer-mode'', observer_mode_str OmAuditOnly), (''observer-backend'', observer_backend_str backend),
      (''observer-runners'', runner_summary plan)]
     @ (case rotation of
          None \<Rightarrow> []
        | Some r \<Rightarrow>
            [(''observer-output-rotation'',
              ''max_file_bytes:'' @ dec_str (unat (rp_max_file_bytes r)) @ '',max_archived_files:''
                @ dec_str (rp_max_archived_files r))])"

definition entry_lines :: "clock \<Rightarrow> u32 \<Rightarrow> string \<Rightarrow> (string \<times> string) list \<Rightarrow> string list" where
  "entry_lines clk pid sid entries =
     map (\<lambda>(i, resource, action). canonical_event_json (runtime_event (clk i) pid sid ''observer'' resource action))
       (enumerate 0 entries)"

definition downgrade_line :: "u128 \<Rightarrow> u32 \<Rightarrow> string \<Rightarrow> decision_downgrade \<Rightarrow> string" where
  "downgrade_line now pid sid d =
     canonical_event_json
       (runtime_event now pid sid ''policy'' ''bpf-lsm''
         (''unavailable:downgrade:'' @ decision_kind_str (dd_from d) @ ''->'' @ decision_kind_str (dd_to d)))"

definition write_observer_metadata ::
    "clock \<Rightarrow> u32 \<Rightarrow> string \<Rightarrow> runner_plan \<Rightarrow> observer_backend \<Rightarrow> decision_downgrade option
     \<Rightarrow> rotation_policy option \<Rightarrow> observer_out \<Rightarrow> (string, unit) res \<times> observer_out" where
  "write_observer_metadata clk pid sid plan backend downgrade rotation out =
     (let entries = observer_entries plan backend rotation in
      case put_lines ''failed to write observer metadata: '' (entry_lines clk pid sid entries) out of
        (Inl e, o1) \<Rightarrow> (Inl e, o1)
      | (Inr _, o1) \<Rightarrow>
          (case downgrade of
             None \<Rightarrow> (Inr (), o1)
           | Some d \<Rightarrow>
               put_line ''failed to write policy metadata: '' (downgrade_line (clk (length entries)) pid sid d) o1))"

definition write_kubernetes_metadata ::
    "(string \<Rightarrow> (string, string) res) \<Rightarrow> clock \<Rightarrow> u32 \<Rightarrow> string \<Rightarrow> string option \<Rightarrow> observer_out
     \<Rightarrow> (string, unit) res \<times> observer_out" where
  "write_kubernetes_metadata read clk pid sid path out =
     (case path of
        None \<Rightarrow> (Inr (), out)
      | Some path \<Rightarrow>
          (case read path of
             Inl e \<Rightarrow> (Inl (''failed to read kubernetes metadata: '' @ e), out)
           | Inr input \<Rightarrow>
               (case metadata_parse input of
                  Inl e \<Rightarrow> (Inl e, out)
                | Inr m \<Rightarrow>
                    put_lines ''failed to write kubernetes metadata: ''
                      (map canonical_event_json (to_timeline_events clk pid sid m)) out)))"

section \<open>Replaying a fixture\<close>

record fixture_request =
  fr_input_path :: string
  fr_output_path :: string
  fr_policy_path :: string
  fr_session_id :: string
  fr_feedback_dir :: "string option"
  fr_kubernetes_path :: "string option"
  fr_rotation :: "rotation_policy option"

record observe_result =
  or_raw_events :: nat
  or_canonical_events :: nat
  or_backend :: observer_backend
  or_mode :: observer_mode
  or_agent_exit_code :: "u32 option"

text \<open>
  The surroundings: \<open>fs::read_to_string\<close>, the process id, the capabilities found, the clock (of
  the metadata, of the Kubernetes events, then of each event), the device and the other files
  of the timeline's directory, the feedback files and their faults.
\<close>

record observer_env =
  oe_read :: "string \<Rightarrow> (string, string) res"
  oe_pid :: u32
  oe_capabilities :: capabilities
  oe_clock :: "nat \<Rightarrow> clock"
  oe_room :: nat
  oe_directory :: "string \<Rightarrow> string option"
  oe_feedback_files :: files
  oe_temporary :: "nat \<Rightarrow> u64"
  oe_create_dir :: "nat \<Rightarrow> (string, unit) res"
  oe_faults :: "nat \<Rightarrow> write_faults \<times> write_faults"

definition feedback_writer_new :: "observer_env \<Rightarrow> string \<Rightarrow> feedback_writer" where
  "feedback_writer_new env directory =
     \<lparr>fw_directory = directory, fw_pid = oe_pid env, fw_temporary = oe_temporary env,
      fw_create_dir = oe_create_dir env, fw_faults = oe_faults env\<rparr>"

definition load_policy :: "observer_env \<Rightarrow> string \<Rightarrow> (string, policy) res" where
  "load_policy env path =
     (case oe_read env path of
        Inl e \<Rightarrow> Inl (''failed to read policy: '' @ e)
      | Inr input \<Rightarrow> map_sum (\<lambda>e. ''failed to parse policy: '' @ e) id (policy_parse input))"

record fixture_replay =
  ry_out :: observer_out
  ry_ids :: event_ids
  ry_context :: context_table
  ry_raw :: nat
  ry_canonical :: nat

definition replay_line ::
    "observer_env \<Rightarrow> fixture_request \<Rightarrow> policy \<Rightarrow> string \<Rightarrow> fixture_replay \<Rightarrow> (string, unit) res \<times> fixture_replay" where
  "replay_line env req p line st =
     (case parse_fixture_raw_event line (fr_session_id req) of
        Inl e \<Rightarrow> (Inl e, st)
      | Inr parsed \<Rightarrow>
          (let (eid, ids) = next_raw_event_id (ry_ids st);
               raw = rk_with_event_id eid parsed;
               st = st\<lparr>ry_ids := ids\<rparr>
           in case put_line ''failed to write raw kernel event: '' (raw_kernel_event_json raw) (ry_out st) of
                (Inl e, o1) \<Rightarrow> (Inl e, st\<lparr>ry_out := o1\<rparr>)
              | (Inr _, o1) \<Rightarrow>
          (let (canonical, table) = context_observe raw (canonicalize raw p) (ry_context st);
               st = st\<lparr>ry_raw := ry_raw st + 1, ry_context := table\<rparr>
           in case put_line ''failed to write canonical event: '' (canonical_event_json canonical) o1 of
                (Inl e, o2) \<Rightarrow> (Inl e, st\<lparr>ry_out := o2\<rparr>)
              | (Inr _, o2) \<Rightarrow>
             (case append_policy_evaluation (oe_clock env (ry_canonical st + 2)) canonical p (oe_capabilities env)
                     (map_option (feedback_writer_new env) (fr_feedback_dir req)) None o2 of
                (Inl e, o3) \<Rightarrow> (Inl e, st\<lparr>ry_out := o3\<rparr>)
              | (Inr _, o3) \<Rightarrow> (Inr (), st\<lparr>ry_out := o3, ry_canonical := ry_canonical st + 1\<rparr>)))))"

fun replay_lines ::
    "observer_env \<Rightarrow> fixture_request \<Rightarrow> policy \<Rightarrow> string list \<Rightarrow> fixture_replay \<Rightarrow> (string, unit) res \<times> fixture_replay" where
  "replay_lines env req p [] st = (Inr (), st)"
| "replay_lines env req p (raw_line # ls) st =
     (let line = trim raw_line in
      if line = [] \<or> starts_with line ''#'' then replay_lines env req p ls st
      else
        (case replay_line env req p line st of
           (Inl e, st') \<Rightarrow> (Inl e, st')
         | (Inr _, st') \<Rightarrow> replay_lines env req p ls st'))"

definition put_flush :: "string \<Rightarrow> observer_out \<Rightarrow> (string, unit) res \<times> observer_out" where
  "put_flush err out =
     (let (res, s) = jsonl_flush (oo_store out) in (map_sum (\<lambda>e. err @ e) id res, out\<lparr>oo_store := s\<rparr>))"

text \<open>The output is there from the creation of the timeline on.\<close>

definition observe_fixture ::
    "observer_env \<Rightarrow> fixture_request \<Rightarrow> (string, observe_result) res \<times> observer_out option" where
  "observe_fixture env req =
     (case load_policy env (fr_policy_path req) of
        Inl e \<Rightarrow> (Inl e, None)
      | Inr p \<Rightarrow>
     (case jsonl_create (fr_output_path req) (fr_rotation req) (oe_room env) (oe_directory env) of
        Inl e \<Rightarrow> (Inl (''failed to create observer timeline: '' @ e), None)
      | Inr store \<Rightarrow>
     (case write_observer_metadata (oe_clock env 0) (oe_pid env) (fr_session_id req) runner_plan_default
             ObFixtureRingBuffer (startup_downgrade p (oe_capabilities env)) (fr_rotation req)
             \<lparr>oo_store = store, oo_files = oe_feedback_files env, oo_writes = 0\<rparr> of
        (Inl e, o1) \<Rightarrow> (Inl e, Some o1)
      | (Inr _, o1) \<Rightarrow>
     (case write_kubernetes_metadata (oe_read env) (oe_clock env 1) (oe_pid env) (fr_session_id req)
             (fr_kubernetes_path req) o1 of
        (Inl e, o2) \<Rightarrow> (Inl e, Some o2)
      | (Inr _, o2) \<Rightarrow>
     (case oe_read env (fr_input_path req) of
        Inl e \<Rightarrow> (Inl (''failed to read observer fixture: '' @ e), Some o2)
      | Inr input \<Rightarrow>
     (case replay_lines env req p (lines_of input)
             \<lparr>ry_out = o2, ry_ids = event_ids_new (fr_session_id req), ry_context = (\<lambda>_. None),
              ry_raw = 0, ry_canonical = 0\<rparr> of
        (Inl e, st) \<Rightarrow> (Inl e, Some (ry_out st))
      | (Inr _, st) \<Rightarrow>
     (case put_flush ''failed to flush observer timeline: '' (ry_out st) of
        (Inl e, o3) \<Rightarrow> (Inl e, Some o3)
      | (Inr _, o3) \<Rightarrow>
          (Inr \<lparr>or_raw_events = ry_raw st, or_canonical_events = ry_canonical st,
             or_backend = ObFixtureRingBuffer, or_mode = OmAuditOnly, or_agent_exit_code = None\<rparr>,
           Some o3))))))))"

section \<open>What is written\<close>

text \<open>
  A writer of lines as the observer uses it: what a state is after some lines were written to
  another. The lines of a successful writing add up.
\<close>

locale line_sink =
  fixes put :: "string \<Rightarrow> 'o \<Rightarrow> (string, unit) res \<times> 'o"
    and extends :: "'o \<Rightarrow> string list \<Rightarrow> 'o \<Rightarrow> bool"
  assumes refl: "extends o1 [] o1"
    and trans: "extends o1 a o2 \<Longrightarrow> extends o2 b o3 \<Longrightarrow> extends o1 (a @ b) o3"
    and put_ok: "put l o1 = (Inr u, o2) \<Longrightarrow> extends o1 [l] o2"
begin

lemma two: "extends o1 [k] o2 \<Longrightarrow> extends o2 [l] o3 \<Longrightarrow> extends o1 [k, l] o3"
  using trans [of o1 "[k]" o2 "[l]" o3] by simp

fun put_all :: "string list \<Rightarrow> 'o \<Rightarrow> (string, unit) res \<times> 'o" where
  "put_all [] o1 = (Inr (), o1)"
| "put_all (l # ls) o1 = (case put l o1 of (Inl e, o2) \<Rightarrow> (Inl e, o2) | (Inr _, o2) \<Rightarrow> put_all ls o2)"

lemma put_all_ok: "put_all ls o1 = (Inr u, o2) \<Longrightarrow> extends o1 ls o2"
proof (induction ls arbitrary: o1)
  case (Cons l ls)
  then obtain o3 where "put l o1 = (Inr (), o3)" "put_all ls o3 = (Inr u, o2)"
    by (auto split: prod.splits sum.splits)
  with Cons.IH [of o3] trans [of o1 "[l]" o3 ls o2] put_ok show ?case by auto
qed (simp add: refl)

end

definition out_extends :: "observer_out \<Rightarrow> string list \<Rightarrow> observer_out \<Rightarrow> bool" where
  "out_extends o1 ls o2 \<longleftrightarrow>
     js_rotation (oo_store o2) = js_rotation (oo_store o1)
     \<and> (\<forall>lg. implements_log (oo_store o1) lg \<longrightarrow>
            implements_log (oo_store o2) (fold (spec_append (js_rotation (oo_store o1))) ls lg))"

lemma put_line_ok: "put_line err l o1 = (Inr u, o2) \<Longrightarrow> out_extends o1 [l] o2"
proof -
  assume a: "put_line err l o1 = (Inr u, o2)"
  then obtain v s where s: "jsonl_append l (oo_store o1) = (Inr v, s)" "o2 = o1\<lparr>oo_store := s\<rparr>"
    by (cases "jsonl_append l (oo_store o1)"; cases "fst (jsonl_append l (oo_store o1))")
      (auto simp: put_line_def)
  have "js_rotation s = js_rotation (oo_store o1)"
    using s(1) by (auto simp: jsonl_append_def jsonl_rotate_def Let_def split: if_splits prod.splits sum.splits option.splits)
  with s show ?thesis using append_implements [OF _ s(1)] by (auto simp: out_extends_def)
qed

interpretation ls: line_sink "put_line err" out_extends
proof
  fix o1 o2 o3 a b l u
  show "out_extends o1 [] o1" by (simp add: out_extends_def)
  show "out_extends o1 a o2 \<Longrightarrow> out_extends o2 b o3 \<Longrightarrow> out_extends o1 (a @ b) o3"
    by (simp add: out_extends_def del: split_paired_All)
  show "put_line err l o1 = (Inr u, o2) \<Longrightarrow> out_extends o1 [l] o2" by (rule put_line_ok)
qed

lemma put_lines_all: "put_lines err lines o1 = ls.put_all err lines o1"
  by (induction lines arbitrary: o1) (simp_all split: prod.split sum.split)

lemma put_lines_ok: "put_lines err lines o1 = (Inr u, o2) \<Longrightarrow> out_extends o1 lines o2"
  using ls.put_all_ok [of err lines o1 u o2] by (simp add: put_lines_all)

lemma put_feedback_extends: "out_extends o1 [] (snd (put_feedback w v o1))"
  by (simp add: put_feedback_def out_extends_def Let_def case_prod_beta split: option.split)

text \<open>The records of an event.\<close>

definition evaluation_lines ::
    "clock \<Rightarrow> canonical_event \<Rightarrow> policy \<Rightarrow> capabilities \<Rightarrow> string option \<Rightarrow> string list" where
  "evaluation_lines clk e p caps target =
     (let v = evaluate_event p e caps in
      case (decision_rule_id (pe_decision v), decision_reason (pe_decision v)) of
        (Some rule, Some reason) \<Rightarrow>
          [policy_violation_json (violation_of clk e target v rule reason),
           enforcement_metadata_json (enforcement_of clk e v rule)]
      | _ \<Rightarrow> [])"

lemma decision_parts:
  "is_allow d \<longleftrightarrow> decision_rule_id d = None" "decision_reason d = None \<longleftrightarrow> decision_rule_id d = None"
  by (cases d; simp add: is_allow_def)+

lemma append_policy_evaluation_ok:
  assumes "append_policy_evaluation clk e p caps w target o1 = (Inr u, o2)"
  shows "out_extends o1 (evaluation_lines clk e p caps target) o2"
proof (cases "decision_rule_id (pe_decision (evaluate_event p e caps))")
  case None
  with assms show ?thesis
    by (simp add: append_policy_evaluation_def evaluation_lines_def Let_def decision_parts ls.refl)
next
  case (Some rule)
  then obtain reason where r: "decision_reason (pe_decision (evaluate_event p e caps)) = Some reason"
    using decision_parts(2) by fastforce
  let ?v = "evaluate_event p e caps"
  let ?pv = "violation_of clk e target ?v rule reason"
  obtain o3 o4 where w1: "put_line ''failed to write policy violation: '' (policy_violation_json ?pv) o1 = (Inr (), o3)"
    and w2: "put_line ''failed to write enforcement metadata: ''
        (enforcement_metadata_json (enforcement_of clk e ?v rule)) o3 = (Inr (), o4)"
    and w3: "put_feedback w ?pv o4 = (Inr u, o2)"
    using assms Some r
    by (auto simp: append_policy_evaluation_def Let_def decision_parts split: prod.splits sum.splits)
  have "out_extends o4 [] o2" using put_feedback_extends [of o4 w ?pv] w3 by simp
  then show ?thesis
    using ls.trans [OF ls.two [OF put_line_ok [OF w1] put_line_ok [OF w2]]] Some r
    by (fastforce simp: evaluation_lines_def Let_def)
qed

definition event_lines ::
    "clock \<Rightarrow> policy \<Rightarrow> capabilities \<Rightarrow> raw_kernel_event list \<Rightarrow> raw_kernel_event \<Rightarrow> string list" where
  "event_lines clk p caps before raw =
     (let e = enriched_event p before raw in
      raw_kernel_event_json raw # canonical_event_json e # evaluation_lines clk e p caps None)"

text \<open>
  The events of a fixture, each with its number; and the lines of a timeline of events, where
  each is seen in the light of those before it.
\<close>

fun numbered_events :: "string \<Rightarrow> string list \<Rightarrow> nat \<Rightarrow> (string, raw_kernel_event list) res" where
  "numbered_events sid [] n = Inr []"
| "numbered_events sid (l # ls) n =
     (case parse_fixture_raw_event l sid of
        Inl e \<Rightarrow> Inl e
      | Inr raw \<Rightarrow>
          map_sum id (\<lambda>raws. rk_with_event_id (event_id sid (of_nat (n + 1))) raw # raws)
            (numbered_events sid ls (n + 1)))"

fun event_timeline ::
    "(nat \<Rightarrow> clock) \<Rightarrow> policy \<Rightarrow> capabilities \<Rightarrow> raw_kernel_event list \<Rightarrow> raw_kernel_event list \<Rightarrow> string list" where
  "event_timeline clocks p caps before [] = []"
| "event_timeline clocks p caps before (raw # raws) =
     event_lines (clocks (length before + 2)) p caps before raw
     @ event_timeline clocks p caps (before @ [raw]) raws"

definition fixture_lines :: "string \<Rightarrow> string list" where
  "fixture_lines input = filter (\<lambda>l. l \<noteq> [] \<and> \<not> starts_with l ''#'') (map trim (lines_of input))"

definition replay_at :: "string \<Rightarrow> policy \<Rightarrow> raw_kernel_event list \<Rightarrow> fixture_replay \<Rightarrow> bool" where
  "replay_at sid p before st \<longleftrightarrow>
     ry_ids st = \<lparr>ei_session_id = sid, ei_next = of_nat (length before + 1)\<rparr>
     \<and> ry_context st = context_after p before
     \<and> ry_raw st = length before \<and> ry_canonical st = length before"

lemma replay_line_ok:
  assumes "replay_line env req p line st = (Inr u, st')" and at: "replay_at (fr_session_id req) p before st"
  shows "\<exists>parsed raw. parse_fixture_raw_event line (fr_session_id req) = Inr parsed
      \<and> raw = rk_with_event_id (event_id (fr_session_id req) (of_nat (length before + 1))) parsed
      \<and> replay_at (fr_session_id req) p (before @ [raw]) st'
      \<and> out_extends (ry_out st)
          (event_lines (oe_clock env (length before + 2)) p (oe_capabilities env) before raw) (ry_out st')"
proof -
  obtain parsed where parsed: "parse_fixture_raw_event line (fr_session_id req) = Inr parsed"
    using assms(1) by (auto simp: replay_line_def split: sum.splits)
  define raw where "raw = rk_with_event_id (event_id (fr_session_id req) (of_nat (length before + 1))) parsed"
  let ?e = "enriched_event p before raw" and ?w = "map_option (feedback_writer_new env) (fr_feedback_dir req)"
  have ids: "next_raw_event_id (ry_ids st) =
      (event_id (fr_session_id req) (of_nat (length before + 1)),
       \<lparr>ei_session_id = fr_session_id req, ei_next = of_nat (length before + 2)\<rparr>)"
    using at by (simp add: replay_at_def next_raw_event_id_def)
  have obs: "context_observe raw (canonicalize raw p) (ry_context st) = (?e, context_after p (before @ [raw]))"
    using at by (simp add: replay_at_def context_observe_spec)
  have n: "ry_raw st = length before" "ry_canonical st = length before"
    using at by (simp_all add: replay_at_def)
  note run = assms(1) [unfolded replay_line_def parsed sum.case ids Let_def prod.case raw_def [symmetric]]
  obtain o1 where p1: "put_line ''failed to write raw kernel event: '' (raw_kernel_event_json raw) (ry_out st) = (Inr (), o1)"
    using run by (auto split: prod.splits sum.splits)
  obtain o2 where p2: "put_line ''failed to write canonical event: '' (canonical_event_json ?e) o1 = (Inr (), o2)"
    using run p1 by (auto simp: obs split: prod.splits sum.splits)
  obtain o3 where p3: "append_policy_evaluation (oe_clock env (length before + 2)) ?e p (oe_capabilities env) ?w None o2
      = (Inr (), o3)"
    and st': "st' = st\<lparr>ry_ids := \<lparr>ei_session_id = fr_session_id req, ei_next = of_nat (length before + 2)\<rparr>,
        ry_raw := length before + 1, ry_context := context_after p (before @ [raw]), ry_out := o3,
        ry_canonical := length before + 1\<rparr>"
    using run p1 p2 by (auto simp: obs n split: prod.splits sum.splits)
  have "out_extends (ry_out st) (event_lines (oe_clock env (length before + 2)) p (oe_capabilities env) before raw) o3"
    using ls.trans [OF ls.two [OF put_line_ok [OF p1] put_line_ok [OF p2]] append_policy_evaluation_ok [OF p3]]
    by (simp add: event_lines_def Let_def)
  then show ?thesis using parsed raw_def st' by (auto simp: replay_at_def)
qed

lemma replay_lines_ok:
  assumes "replay_lines env req p lines st = (Inr u, st')" and "replay_at (fr_session_id req) p before st"
  shows "\<exists>raws. numbered_events (fr_session_id req)
        (filter (\<lambda>l. l \<noteq> [] \<and> \<not> starts_with l ''#'') (map trim lines)) (length before) = Inr raws
      \<and> replay_at (fr_session_id req) p (before @ raws) st'
      \<and> out_extends (ry_out st) (event_timeline (oe_clock env) p (oe_capabilities env) before raws) (ry_out st')"
  using assms
proof (induction lines arbitrary: st before)
  case Nil
  then show ?case by (simp add: ls.refl)
next
  case (Cons l lines)
  show ?case
  proof (cases "trim l = [] \<or> starts_with (trim l) ''#''")
    case True
    with Cons show ?thesis by auto
  next
    case False
    with Cons.prems(1) obtain st1 where l: "replay_line env req p (trim l) st = (Inr (), st1)"
      and rest: "replay_lines env req p lines st1 = (Inr u, st')"
      by (auto simp: Let_def split: prod.splits sum.splits)
    from replay_line_ok [OF l Cons.prems(2)] obtain parsed raw where
      parsed: "parse_fixture_raw_event (trim l) (fr_session_id req) = Inr parsed"
      and raw: "raw = rk_with_event_id (event_id (fr_session_id req) (of_nat (length before + 1))) parsed"
      and at: "replay_at (fr_session_id req) p (before @ [raw]) st1"
      and ext: "out_extends (ry_out st)
          (event_lines (oe_clock env (length before + 2)) p (oe_capabilities env) before raw) (ry_out st1)"
      by blast
    from Cons.IH [OF rest at] ls.trans [OF ext] parsed raw False show ?thesis
      by (fastforce simp: ac_simps)
  qed
qed

text \<open>The whole timeline, and the summary, as a function of the inputs.\<close>

definition fixture_timeline :: "observer_env \<Rightarrow> fixture_request \<Rightarrow> (string, string list) res" where
  "fixture_timeline env req =
     (case load_policy env (fr_policy_path req) of Inl e \<Rightarrow> Inl e
      | Inr p \<Rightarrow>
     (case (case fr_kubernetes_path req of
              None \<Rightarrow> Inr []
            | Some path \<Rightarrow>
                (case oe_read env path of Inl e \<Rightarrow> Inl e
                 | Inr text \<Rightarrow> map_sum id (to_timeline_events (oe_clock env 1) (oe_pid env) (fr_session_id req))
                     (metadata_parse text))) of Inl e \<Rightarrow> Inl e
      | Inr pod \<Rightarrow>
     (case oe_read env (fr_input_path req) of Inl e \<Rightarrow> Inl e
      | Inr input \<Rightarrow>
     (case numbered_events (fr_session_id req) (fixture_lines input) 0 of Inl e \<Rightarrow> Inl e
      | Inr raws \<Rightarrow>
          (let entries = observer_entries runner_plan_default ObFixtureRingBuffer (fr_rotation req) in
           Inr (entry_lines (oe_clock env 0) (oe_pid env) (fr_session_id req) entries
             @ (case startup_downgrade p (oe_capabilities env) of
                  None \<Rightarrow> []
                | Some d \<Rightarrow> [downgrade_line (oe_clock env 0 (length entries)) (oe_pid env) (fr_session_id req) d])
             @ map canonical_event_json pod
             @ event_timeline (oe_clock env) p (oe_capabilities env) [] raws))))))"

lemma write_observer_metadata_ok:
  assumes "write_observer_metadata clk pid sid plan backend d rotation o1 = (Inr u, o2)"
  shows "out_extends o1
      (entry_lines clk pid sid (observer_entries plan backend rotation)
       @ (case d of None \<Rightarrow> []
          | Some d \<Rightarrow> [downgrade_line (clk (length (observer_entries plan backend rotation))) pid sid d])) o2"
proof -
  obtain o3 where "put_lines ''failed to write observer metadata: ''
      (entry_lines clk pid sid (observer_entries plan backend rotation)) o1 = (Inr (), o3)"
    using assms by (auto simp: write_observer_metadata_def Let_def split: prod.splits sum.splits)
  with assms show ?thesis
    using ls.trans [OF put_lines_ok [of _ _ o1] put_line_ok]
    by (fastforce simp: write_observer_metadata_def Let_def put_lines_ok split: option.splits)
qed

lemma write_kubernetes_metadata_ok:
  assumes "write_kubernetes_metadata read clk pid sid path o1 = (Inr u, o2)"
  shows "\<exists>pod. (case path of
        None \<Rightarrow> Inr []
      | Some path \<Rightarrow>
          (case read path of Inl e \<Rightarrow> Inl e
           | Inr text \<Rightarrow> map_sum id (to_timeline_events clk pid sid) (metadata_parse text))) = Inr pod
      \<and> out_extends o1 (map canonical_event_json pod) o2"
  using assms
  by (auto simp: write_kubernetes_metadata_def ls.refl intro: put_lines_ok split: option.splits sum.splits)

lemma map_sum_Inr: "map_sum f g x = Inr y \<longleftrightarrow> (\<exists>z. x = Inr z \<and> y = g z)"
  by (cases x) auto

lemma numbered_events_length: "numbered_events sid ls n = Inr raws \<Longrightarrow> length raws = length ls"
  by (induction ls arbitrary: n raws) (auto split: sum.splits simp: map_sum_Inr)

lemma put_flush_ok:
  assumes "put_flush err o1 = (Inr u, o2)"
  shows "out_extends o1 [] o2" and "bw_disk (js_writer (oo_store o2)) = bw_stream (js_writer (oo_store o2))"
proof -
  obtain w where w: "bw_flush (js_writer (oo_store o1)) = (Inr (), w)"
    "o2 = o1\<lparr>oo_store := (oo_store o1)\<lparr>js_writer := w\<rparr>\<rparr>"
    using assms by (auto simp: put_flush_def jsonl_flush_def Let_def map_sum_Inr split: prod.splits)
  then show "out_extends o1 [] o2" "bw_disk (js_writer (oo_store o2)) = bw_stream (js_writer (oo_store o2))"
    using bw.flush_ok [of "js_writer (oo_store o1)"] bw.flush_stream [of "js_writer (oo_store o1)"]
    by (auto simp: out_extends_def implements_log_def archives_are_def)
qed

lemma jsonl_create_implements:
  assumes "jsonl_create path rotation room (\<lambda>_. None) = Inr s"
  shows "implements_log s ([], [])" and "js_rotation s = rotation"
  using assms
  by (auto simp: jsonl_create_def implements_log_def archives_are_def bw_new_def bw_stream_def
      log_bytes_def validate_rotation_policy_def split: if_splits option.splits)

text \<open>C35. Replaying a fixture. When a replay returns without an error, what it has put on the disk
  is exactly the log of one list of lines, which depends on the inputs alone: the metadata of
  the observer, a downgrade if there is one, the events of the pod, and then, of every event
  of the fixture in order, the raw record with an id of its own, the canonical record with the
  context that the latest start of the process gives it, and the violation and enforcement
  record of the rule that it breaks, if it breaks one. Nothing is left in a buffer, and both
  counts it returns are the number of the events.\<close>

theorem replay_writes_timeline:
  assumes "observe_fixture env req = (Inr r, Some out)" and "oe_directory env = (\<lambda>_. None)"
  shows "case fixture_timeline env req of Inl _ \<Rightarrow> False
    | Inr lines \<Rightarrow>
        implements_log (oo_store out) (spec_run (fr_rotation req) lines)
        \<and> bw_disk (js_writer (oo_store out)) = log_text (fst (spec_run (fr_rotation req) lines))
        \<and> (case oe_read env (fr_input_path req) of Inl _ \<Rightarrow> False
           | Inr input \<Rightarrow> or_raw_events r = length (fixture_lines input)
               \<and> or_canonical_events r = length (fixture_lines input))"
proof -
  note run = assms(1) [unfolded observe_fixture_def assms(2)]
  obtain p where p: "load_policy env (fr_policy_path req) = Inr p"
    using run by (auto split: sum.splits)
  obtain s where s: "jsonl_create (fr_output_path req) (fr_rotation req) (oe_room env) (\<lambda>_. None) = Inr s"
    using run p by (auto split: sum.splits)
  define o0 where "o0 = \<lparr>oo_store = s, oo_files = oe_feedback_files env, oo_writes = 0\<rparr>"
  note run2 = run [unfolded p s sum.case o0_def [symmetric]]
  obtain o1 where m: "write_observer_metadata (oe_clock env 0) (oe_pid env) (fr_session_id req) runner_plan_default
      ObFixtureRingBuffer (startup_downgrade p (oe_capabilities env)) (fr_rotation req) o0 = (Inr (), o1)"
    using run2 by (auto split: prod.splits sum.splits)
  obtain o2 where k: "write_kubernetes_metadata (oe_read env) (oe_clock env 1) (oe_pid env) (fr_session_id req)
      (fr_kubernetes_path req) o1 = (Inr (), o2)"
    using run2 m by (auto split: prod.splits sum.splits)
  obtain input where input: "oe_read env (fr_input_path req) = Inr input"
    using run2 m k by (auto split: prod.splits sum.splits)
  define st0 where "st0 = \<lparr>ry_out = o2, ry_ids = event_ids_new (fr_session_id req),
      ry_context = (\<lambda>_. None :: process_context option), ry_raw = 0, ry_canonical = 0\<rparr>"
  obtain st where l: "replay_lines env req p (lines_of input) st0 = (Inr (), st)"
    using run2 m k input by (auto simp: st0_def split: prod.splits sum.splits)
  have f: "put_flush ''failed to flush observer timeline: '' (ry_out st) = (Inr (), out)"
    and r: "or_raw_events r = ry_raw st" "or_canonical_events r = ry_canonical st"
    using run2 m k input l by (auto simp: st0_def split: prod.splits sum.splits)
  have "replay_at (fr_session_id req) p [] st0"
    by (simp add: replay_at_def st0_def event_ids_new_def context_after_empty)
  from replay_lines_ok [OF l this] obtain raws where
    raws: "numbered_events (fr_session_id req) (fixture_lines input) 0 = Inr raws"
    and at: "replay_at (fr_session_id req) p raws st"
    and e3: "out_extends o2 (event_timeline (oe_clock env) p (oe_capabilities env) [] raws) (ry_out st)"
    by (auto simp: fixture_lines_def st0_def)
  obtain lines where lines: "fixture_timeline env req = Inr lines" and ext: "out_extends o0 lines out"
    using write_kubernetes_metadata_ok [OF k] p input raws put_flush_ok(1) [OF f]
      ls.trans [OF ls.trans [OF ls.trans [OF write_observer_metadata_ok [OF m]] e3] put_flush_ok(1) [OF f]]
    by (fastforce simp: fixture_timeline_def Let_def)
  have "implements_log (oo_store out) (spec_run (fr_rotation req) lines)"
    using ext jsonl_create_implements [OF s] by (simp add: out_extends_def o0_def)
  then show ?thesis
    using lines input r at numbered_events_length [OF raws] put_flush_ok(2) [OF f]
    by (simp add: implements_log_def replay_at_def)
qed

section \<open>A replay with room succeeds\<close>

text \<open>An output without rotation, and room for some more bytes.\<close>

definition room_for :: "observer_out \<Rightarrow> nat \<Rightarrow> bool" where
  "room_for o1 n \<longleftrightarrow>
     js_rotation (oo_store o1) = None
     \<and> length (bw_buffer (js_writer (oo_store o1))) + n \<le> bw_room (js_writer (oo_store o1)) \<and> n < 2 ^ 64"

lemma log_bytes_simps [simp]:
  "log_bytes [] = 0" "log_bytes (l # ls) = length l + 1 + log_bytes ls"
  "log_bytes (a @ b) = log_bytes a + log_bytes b"
  by (simp_all add: log_bytes_def)

lemma put_line_room:
  assumes "room_for o1 (length l + 1 + n)"
  obtains o2 where "put_line err l o1 = (Inr (), o2)" "room_for o2 n"
proof -
  let ?w = "js_writer (oo_store o1)"
  have room: "length (bw_buffer ?w) + (length l + 1 + n) \<le> bw_room ?w" and rot: "js_rotation (oo_store o1) = None"
    and small: "length l < 2 ^ 64" "n < 2 ^ 64" using assms by (auto simp: room_for_def)
  have w1: "is_ok (fst (bw_write_all l ?w))"
    "length (bw_buffer (snd (bw_write_all l ?w))) + bw_room ?w =
       bw_room (snd (bw_write_all l ?w)) + length (bw_buffer ?w) + length l"
    using bw_write_room [of ?w l] room by simp_all
  let ?w1 = "snd (bw_write_all l ?w)"
  have w2: "is_ok (fst (bw_write_all [ch_nl] ?w1))"
    "length (bw_buffer (snd (bw_write_all [ch_nl] ?w1))) + bw_room ?w1 =
       bw_room (snd (bw_write_all [ch_nl] ?w1)) + length (bw_buffer ?w1) + 1"
    using bw_write_room [of ?w1 "[ch_nl]"] w1 room by simp_all
  let ?w2 = "snd (bw_write_all [ch_nl] ?w1)"
  have "\<exists>o2. put_line err l o1 = (Inr (), o2) \<and> js_rotation (oo_store o2) = None \<and> js_writer (oo_store o2) = ?w2"
    using w1(1) w2(1) rot small
    by (auto simp: put_line_def jsonl_append_def should_rotate_before_def Let_def is_ok_iff case_prod_beta
        split: sum.splits)
  then show ?thesis using that w1(2) w2(2) room small(2) by (auto simp: room_for_def)
qed

lemma put_lines_room:
  assumes "room_for o1 (log_bytes ls + n)"
  obtains o2 where "put_lines err ls o1 = (Inr (), o2)" "room_for o2 n"
  using assms
proof (induction ls arbitrary: o1 thesis)
  case (Cons l ls)
  obtain o3 where "put_line err l o1 = (Inr (), o3)" "room_for o3 (log_bytes ls + n)"
    using put_line_room [of o1 l "log_bytes ls + n" err] Cons.prems(2) by (auto simp: ac_simps)
  with Cons.IH [of o3] Cons.prems(1) show ?case by auto
qed simp

lemma evaluation_room:
  assumes "room_for o1 (log_bytes (evaluation_lines clk e p caps target) + n)"
  obtains o2 where "append_policy_evaluation clk e p caps None target o1 = (Inr (), o2)" "room_for o2 n"
proof (cases "decision_rule_id (pe_decision (evaluate_event p e caps))")
  case None
  with assms that show thesis
    by (simp add: append_policy_evaluation_def evaluation_lines_def Let_def decision_parts)
next
  case (Some rule)
  then obtain reason where r: "decision_reason (pe_decision (evaluate_event p e caps)) = Some reason"
    using decision_parts(2) by fastforce
  let ?v = "evaluate_event p e caps"
  let ?a = "policy_violation_json (violation_of clk e target ?v rule reason)"
  let ?b = "enforcement_metadata_json (enforcement_of clk e ?v rule)"
  have "room_for o1 (length ?a + 1 + (length ?b + 1 + n))"
    using assms Some r by (simp add: evaluation_lines_def Let_def ac_simps)
  then obtain o3 where o3: "put_line ''failed to write policy violation: '' ?a o1 = (Inr (), o3)"
    "room_for o3 (length ?b + 1 + n)" by (rule put_line_room)
  from o3(2) obtain o4 where "put_line ''failed to write enforcement metadata: '' ?b o3 = (Inr (), o4)"
    "room_for o4 n" by (rule put_line_room)
  with o3(1) Some r that show thesis
    by (simp add: append_policy_evaluation_def Let_def decision_parts put_feedback_def)
qed

lemma replay_line_room:
  assumes "parse_fixture_raw_event line (fr_session_id req) = Inr parsed"
    and "replay_at (fr_session_id req) p before st" and "fr_feedback_dir req = None"
    and "raw = rk_with_event_id (event_id (fr_session_id req) (of_nat (length before + 1))) parsed"
    and "room_for (ry_out st)
      (log_bytes (event_lines (oe_clock env (length before + 2)) p (oe_capabilities env) before raw) + n)"
  obtains st' where "replay_line env req p line st = (Inr (), st')" "room_for (ry_out st') n"
proof -
  let ?e = "enriched_event p before raw" and ?clk = "oe_clock env (length before + 2)"
  have ids: "next_raw_event_id (ry_ids st) =
      (event_id (fr_session_id req) (of_nat (length before + 1)),
       \<lparr>ei_session_id = fr_session_id req, ei_next = of_nat (length before + 2)\<rparr>)"
    using assms(2) by (simp add: replay_at_def next_raw_event_id_def)
  have obs: "context_observe raw (canonicalize raw p) (ry_context st) = (?e, context_after p (before @ [raw]))"
    using assms(2) by (simp add: replay_at_def context_observe_spec)
  have cnt: "ry_canonical st = length before" using assms(2) by (simp add: replay_at_def)
  let ?ev = "log_bytes (evaluation_lines ?clk ?e p (oe_capabilities env) None) + n"
  have "room_for (ry_out st) (length (raw_kernel_event_json raw) + 1 + (length (canonical_event_json ?e) + 1 + ?ev))"
    using assms(5) by (simp add: event_lines_def Let_def ac_simps)
  then obtain o1 where o1: "put_line ''failed to write raw kernel event: '' (raw_kernel_event_json raw) (ry_out st)
      = (Inr (), o1)" "room_for o1 (length (canonical_event_json ?e) + 1 + ?ev)" by (rule put_line_room)
  from o1(2) obtain o2 where o2: "put_line ''failed to write canonical event: '' (canonical_event_json ?e) o1 = (Inr (), o2)"
    "room_for o2 ?ev" by (rule put_line_room)
  from o2(2) obtain o3 where "append_policy_evaluation ?clk ?e p (oe_capabilities env) None None o2 = (Inr (), o3)"
    "room_for o3 n" by (rule evaluation_room)
  moreover from this(1) o1(1) o2(1) obs have "\<exists>st'. replay_line env req p line st = (Inr (), st') \<and> ry_out st' = o3"
    unfolding replay_line_def assms(1) sum.case ids Let_def prod.case assms(4) [symmetric]
    by (simp add: cnt assms(3))
  ultimately show thesis using that by blast
qed

lemma replay_lines_room:
  assumes "numbered_events (fr_session_id req)
        (filter (\<lambda>l. l \<noteq> [] \<and> \<not> starts_with l ''#'') (map trim lines)) (length before) = Inr raws"
    and "replay_at (fr_session_id req) p before st" and "fr_feedback_dir req = None"
    and "room_for (ry_out st) (log_bytes (event_timeline (oe_clock env) p (oe_capabilities env) before raws) + n)"
  obtains st' where "replay_lines env req p lines st = (Inr (), st')" "room_for (ry_out st') n"
  using assms
proof (induction lines arbitrary: st before raws thesis)
  case Nil
  then show ?case by simp
next
  case (Cons l lines)
  show ?case
  proof (cases "trim l = [] \<or> starts_with (trim l) ''#''")
    case True
    then have "replay_lines env req p (l # lines) st = replay_lines env req p lines st" by (auto simp: Let_def)
    moreover have "numbered_events (fr_session_id req)
        (filter (\<lambda>l. l \<noteq> [] \<and> \<not> starts_with l ''#'') (map trim lines)) (length before) = Inr raws"
      using Cons.prems(2) True by auto
    ultimately show ?thesis using Cons.prems(1) by (auto intro: Cons.IH [OF _ _ Cons.prems(3-5)])
  next
    case False
    let ?rest = "filter (\<lambda>l. l \<noteq> [] \<and> \<not> starts_with l ''#'') (map trim lines)"
    obtain parsed raws' where parsed: "parse_fixture_raw_event (trim l) (fr_session_id req) = Inr parsed"
      and raws': "numbered_events (fr_session_id req) ?rest (length before + 1) = Inr raws'"
      and raws: "raws = rk_with_event_id (event_id (fr_session_id req) (of_nat (length before + 1))) parsed # raws'"
      using Cons.prems(2) False by (auto simp: map_sum_Inr split: sum.splits)
    define raw where "raw = rk_with_event_id (event_id (fr_session_id req) (of_nat (length before + 1))) parsed"
    let ?more = "log_bytes (event_timeline (oe_clock env) p (oe_capabilities env) (before @ [raw]) raws') + n"
    have "room_for (ry_out st)
        (log_bytes (event_lines (oe_clock env (length before + 2)) p (oe_capabilities env) before raw) + ?more)"
      using Cons.prems(5) raws by (simp add: raw_def ac_simps)
    from replay_line_room [OF parsed Cons.prems(3,4) raw_def this] obtain st1 where
      st1: "replay_line env req p (trim l) st = (Inr (), st1)" "room_for (ry_out st1) ?more" .
    have "replay_at (fr_session_id req) p (before @ [raw]) st1"
      using replay_line_ok [OF st1(1) Cons.prems(3)] parsed by (auto simp: raw_def)
    from Cons.IH [OF _ _ this Cons.prems(4) st1(2)] raws' obtain st' where
      "replay_lines env req p lines st1 = (Inr (), st')" "room_for (ry_out st') n" by auto
    then show ?thesis using Cons.prems(1) st1(1) False by (simp add: Let_def)
  qed
qed

lemma write_observer_metadata_room:
  assumes "room_for o1
      (log_bytes (entry_lines clk pid sid (observer_entries plan backend rotation)
         @ (case d of None \<Rightarrow> []
            | Some d \<Rightarrow> [downgrade_line (clk (length (observer_entries plan backend rotation))) pid sid d])) + n)"
  obtains o2 where "write_observer_metadata clk pid sid plan backend d rotation o1 = (Inr (), o2)" "room_for o2 n"
proof (cases d)
  case None
  with assms have "room_for o1 (log_bytes (entry_lines clk pid sid (observer_entries plan backend rotation)) + n)"
    by simp
  then obtain o2 where "put_lines ''failed to write observer metadata: ''
      (entry_lines clk pid sid (observer_entries plan backend rotation)) o1 = (Inr (), o2)" "room_for o2 n"
    by (rule put_lines_room)
  with None that show thesis by (simp add: write_observer_metadata_def Let_def)
next
  case (Some d')
  let ?l = "downgrade_line (clk (length (observer_entries plan backend rotation))) pid sid d'"
  obtain o3 where o3: "put_lines ''failed to write observer metadata: ''
      (entry_lines clk pid sid (observer_entries plan backend rotation)) o1 = (Inr (), o3)"
    "room_for o3 (length ?l + 1 + n)"
  proof (rule put_lines_room)
    show "room_for o1 (log_bytes (entry_lines clk pid sid (observer_entries plan backend rotation)) + (length ?l + 1 + n))"
      using assms Some by (simp add: ac_simps)
  qed
  from o3(2) obtain o2 where "put_line ''failed to write policy metadata: '' ?l o3 = (Inr (), o2)" "room_for o2 n"
    by (rule put_line_room)
  with Some o3(1) that show thesis by (simp add: write_observer_metadata_def Let_def)
qed

lemma replay_succeeds:
  assumes tl: "fixture_timeline env req = Inr lines"
    and "fr_rotation req = None" "fr_feedback_dir req = None" "oe_directory env = (\<lambda>_. None)"
    and room: "log_bytes lines \<le> oe_room env" "log_bytes lines < 2 ^ 64"
  shows "\<exists>r out. observe_fixture env req = (Inr r, Some out)"
proof -
  obtain p where p: "load_policy env (fr_policy_path req) = Inr p"
    using tl by (auto simp: fixture_timeline_def split: sum.splits)
  obtain pod where pod: "(case fr_kubernetes_path req of
        None \<Rightarrow> Inr []
      | Some path \<Rightarrow>
          (case oe_read env path of Inl e \<Rightarrow> Inl e
           | Inr text \<Rightarrow> map_sum id (to_timeline_events (oe_clock env 1) (oe_pid env) (fr_session_id req))
               (metadata_parse text))) = Inr pod"
    using tl p by (auto simp: fixture_timeline_def split: sum.splits)
  obtain input raws where input: "oe_read env (fr_input_path req) = Inr input"
    and raws: "numbered_events (fr_session_id req) (fixture_lines input) 0 = Inr raws"
    using tl p pod by (auto simp: fixture_timeline_def split: sum.splits)
  let ?n3 = "log_bytes (event_timeline (oe_clock env) p (oe_capabilities env) [] raws)"
  let ?n2 = "log_bytes (map canonical_event_json pod) + ?n3"
  let ?entries = "observer_entries runner_plan_default ObFixtureRingBuffer (fr_rotation req)"
  let ?meta = "entry_lines (oe_clock env 0) (oe_pid env) (fr_session_id req) ?entries
      @ (case startup_downgrade p (oe_capabilities env) of None \<Rightarrow> []
         | Some d \<Rightarrow> [downgrade_line (oe_clock env 0 (length ?entries)) (oe_pid env) (fr_session_id req) d])"
  obtain s where s: "jsonl_create (fr_output_path req) (fr_rotation req) (oe_room env) (\<lambda>_. None) = Inr s"
    using assms(2) by (simp add: jsonl_create_def)
  define o0 where "o0 = \<lparr>oo_store = s, oo_files = oe_feedback_files env, oo_writes = 0\<rparr>"
  have "lines = ?meta @ map canonical_event_json pod @ event_timeline (oe_clock env) p (oe_capabilities env) [] raws"
    using tl p pod input raws by (simp add: fixture_timeline_def Let_def)
  then have "log_bytes lines = log_bytes ?meta + ?n2" by (simp only: log_bytes_simps ac_simps)
  moreover have "oo_store o0 = s" "js_rotation s = None" "js_writer s = bw_new [] (oe_room env)"
    using s assms(2) by (auto simp: o0_def jsonl_create_def)
  ultimately have "room_for o0 (log_bytes ?meta + ?n2)"
    using room by (simp only: room_for_def) (simp add: bw_new_def)
  then obtain o1 where o1: "write_observer_metadata (oe_clock env 0) (oe_pid env) (fr_session_id req) runner_plan_default
      ObFixtureRingBuffer (startup_downgrade p (oe_capabilities env)) (fr_rotation req) o0 = (Inr (), o1)"
    "room_for o1 ?n2" by (rule write_observer_metadata_room)
  obtain o2 where o2: "write_kubernetes_metadata (oe_read env) (oe_clock env 1) (oe_pid env) (fr_session_id req)
      (fr_kubernetes_path req) o1 = (Inr (), o2)" "room_for o2 (?n3 + 0)"
  proof -
    obtain o2 where o2: "put_lines ''failed to write kubernetes metadata: '' (map canonical_event_json pod) o1 = (Inr (), o2)"
      "room_for o2 ?n3" using o1(2) by (rule put_lines_room)
    show thesis
    proof (cases "fr_kubernetes_path req")
      case None
      with pod o1(2) that [of o1] show thesis by (simp add: write_kubernetes_metadata_def)
    next
      case (Some path)
      with pod o2 that [of o2] show thesis
        by (auto simp: write_kubernetes_metadata_def map_sum_Inr split: sum.splits)
    qed
  qed
  define st0 where "st0 = \<lparr>ry_out = o2, ry_ids = event_ids_new (fr_session_id req),
      ry_context = (\<lambda>_. None :: process_context option), ry_raw = 0, ry_canonical = 0\<rparr>"
  have at: "replay_at (fr_session_id req) p [] st0"
    by (simp add: replay_at_def st0_def event_ids_new_def context_after_empty)
  have "room_for (ry_out st0) (?n3 + 0)" using o2(2) by (simp add: st0_def)
  from replay_lines_room [OF _ at assms(3) this] raws obtain st where
    st: "replay_lines env req p (lines_of input) st0 = (Inr (), st)" "room_for (ry_out st) 0"
    by (auto simp: fixture_lines_def)
  obtain o3 where "put_flush ''failed to flush observer timeline: '' (ry_out st) = (Inr (), o3)"
    using st(2) bw_flush_room [of "js_writer (oo_store (ry_out st))"]
    by (simp add: put_flush_def jsonl_flush_def room_for_def)
  then show ?thesis
    using p s o1(1) o2(1) input st(1) assms(4) by (simp add: observe_fixture_def o0_def st0_def)
qed

definition sample_observer_env :: observer_env where
  "sample_observer_env =
     \<lparr>oe_read = (\<lambda>path.
        if path = ''policy'' then Inr (''credentials:'' @ [ch_nl] @ ''  deny_read:'' @ [ch_nl] @ ''    - /k'')
        else Inr (''# two events'' @ [ch_nl]
          @ ''timestamp=5|pid=7|ppid=1|uid=0|gid=0|comm=sh|event=execve|resource=/sh|action=run|payload=argv:sh -c x''
          @ [ch_nl] @ ''timestamp=6|pid=7|ppid=1|uid=0|gid=0|comm=sh|event=openat|resource=/k|action=read'')),
      oe_pid = 3, oe_capabilities = capabilities_default, oe_clock = (\<lambda>_ _. 9), oe_room = 10000,
      oe_directory = (\<lambda>_. None), oe_feedback_files = (\<lambda>_. None), oe_temporary = (\<lambda>_. 0),
      oe_create_dir = (\<lambda>_. Inr ()), oe_faults = (\<lambda>_. (no_faults, no_faults))\<rparr>"

definition sample_fixture_request :: fixture_request where
  "sample_fixture_request =
     \<lparr>fr_input_path = ''fixture'', fr_output_path = ''out'', fr_policy_path = ''policy'', fr_session_id = ''s'',
      fr_feedback_dir = None, fr_kubernetes_path = None, fr_rotation = None\<rparr>"

definition sample_event :: raw_kernel_event where
  "sample_event =
     raw_kernel_event_new 5 ''s'' SrcKernelTracepoint ''execve'' 7 1 0 0 ''sh'' ''/sh'' ''run'' None None ''argv:sh -c x''"

definition sample_read :: raw_kernel_event where
  "sample_read =
     raw_kernel_event_new 6 ''s'' SrcKernelTracepoint ''openat'' 7 1 0 0 ''sh'' ''/k'' ''read'' None None []"

definition sample_deny :: policy where
  "sample_deny = policy_default\<lparr>po_deny_read := [''/k'']\<rparr>"

lemma sample_policy_loads: "load_policy sample_observer_env ''policy'' = Inr sample_deny"
  by code_simp

lemma sample_input:
  "fixture_lines (case oe_read sample_observer_env ''fixture'' of Inr t \<Rightarrow> t | Inl _ \<Rightarrow> []) =
     [''timestamp=5|pid=7|ppid=1|uid=0|gid=0|comm=sh|event=execve|resource=/sh|action=run|payload=argv:sh -c x'',
      ''timestamp=6|pid=7|ppid=1|uid=0|gid=0|comm=sh|event=openat|resource=/k|action=read'']"
  by code_simp

lemma sample_fields:
  "pipe_parse ''timestamp=5|pid=7|ppid=1|uid=0|gid=0|comm=sh|event=execve|resource=/sh|action=run|payload=argv:sh -c x'' =
     Inr [(''action'', ''run''), (''comm'', ''sh''), (''event'', ''execve''), (''gid'', ''0''),
       (''payload'', ''argv:sh -c x''), (''pid'', ''7''), (''ppid'', ''1''), (''resource'', ''/sh''),
       (''timestamp'', ''5''), (''uid'', ''0'')]"
  "pipe_parse ''timestamp=6|pid=7|ppid=1|uid=0|gid=0|comm=sh|event=openat|resource=/k|action=read'' =
     Inr [(''action'', ''read''), (''comm'', ''sh''), (''event'', ''openat''), (''gid'', ''0''),
       (''pid'', ''7''), (''ppid'', ''1''), (''resource'', ''/k''), (''timestamp'', ''6''), (''uid'', ''0'')]"
  by code_simp+

lemma sample_events_read:
  "parse_fixture_raw_event
     ''timestamp=5|pid=7|ppid=1|uid=0|gid=0|comm=sh|event=execve|resource=/sh|action=run|payload=argv:sh -c x'' ''s'' =
     Inr sample_event"
  "parse_fixture_raw_event
     ''timestamp=6|pid=7|ppid=1|uid=0|gid=0|comm=sh|event=openat|resource=/k|action=read'' ''s'' = Inr sample_read"
  by (simp_all add: parse_fixture_raw_event_def sample_fields parse_raw_def required_raw_def pipe_required_def
      pipe_optional_def sample_event_def sample_read_def parse_word_def parse_unsigned_def digit_val_def
      is_ascii_digit_def byte_val_def)

lemma sample_timeline_bytes:
  "log_bytes (event_timeline (oe_clock sample_observer_env) sample_deny capabilities_default []
     [rk_with_event_id (event_id ''s'' 1) sample_event, rk_with_event_id (event_id ''s'' 2) sample_read]) \<le> 4000"
  by code_simp

lemma sample_metadata_bytes:
  "log_bytes (entry_lines (oe_clock sample_observer_env 0) 3 ''s''
     (observer_entries runner_plan_default ObFixtureRingBuffer None)) \<le> 4000"
  by code_simp

lemma sample_replay_lines:
  "\<exists>ls. fixture_timeline sample_observer_env sample_fixture_request = Inr ls \<and> log_bytes ls \<le> 10000"
proof -
  let ?raws = "[rk_with_event_id (event_id ''s'' 1) sample_event, rk_with_event_id (event_id ''s'' 2) sample_read]"
  obtain input where input: "oe_read sample_observer_env ''fixture'' = Inr input"
    by (simp add: sample_observer_env_def)
  have "numbered_events ''s'' (fixture_lines input) 0 = Inr ?raws"
    using sample_input input by (simp add: sample_events_read)
  moreover have "startup_downgrade sample_deny (oe_capabilities sample_observer_env) = None"
    by (simp add: startup_downgrade_def sample_deny_def policy_default_def)
  moreover have "oe_pid sample_observer_env = 3" "oe_capabilities sample_observer_env = capabilities_default"
    by (simp_all add: sample_observer_env_def)
  ultimately show ?thesis
    using sample_timeline_bytes sample_metadata_bytes sample_policy_loads input
    by (simp add: fixture_timeline_def sample_fixture_request_def del: event_timeline.simps)
qed

lemma replay_writes_timeline_witness:
  "case observe_fixture sample_observer_env sample_fixture_request of
     (Inr r, Some out) \<Rightarrow>
       (case fixture_timeline sample_observer_env sample_fixture_request of Inl _ \<Rightarrow> False
        | Inr lines \<Rightarrow>
            implements_log (oo_store out) (spec_run None lines)
            \<and> bw_disk (js_writer (oo_store out)) = log_text (fst (spec_run None lines)))
   | _ \<Rightarrow> False"
proof -
  obtain ls where ls: "fixture_timeline sample_observer_env sample_fixture_request = Inr ls" "log_bytes ls \<le> 10000"
    using sample_replay_lines by blast
  have req: "fr_rotation sample_fixture_request = None" "fr_feedback_dir sample_fixture_request = None"
    "oe_directory sample_observer_env = (\<lambda>_. None)" "oe_room sample_observer_env = 10000"
    by (simp_all add: sample_fixture_request_def sample_observer_env_def)
  obtain r out where run: "observe_fixture sample_observer_env sample_fixture_request = (Inr r, Some out)"
    using replay_succeeds [OF ls(1) req(1-3)] ls(2) req(4) by auto
  show ?thesis using replay_writes_timeline [OF run req(3)] ls(1) run req(1) by simp
qed

end
