(* ===== verification/Rust_Radix.thy ===== *)
theory Rust_Radix
  imports Rust_Net
begin

text \<open>
  \<open>from_str_radix\<close> of the unsigned integers for the radix 16, with \<open>bound\<close> the number of values of the
  type, and that it reads back what is printed in that radix.
\<close>

fun parse_hex_digits :: "nat \<Rightarrow> nat \<Rightarrow> string \<Rightarrow> (int_error, nat) res" where
  "parse_hex_digits bound acc [] = Inr acc"
| "parse_hex_digits bound acc (c # cs) =
     (case to_digit 16 c of
        None \<Rightarrow> Inl IntInvalidDigit
      | Some d \<Rightarrow>
          if acc * 16 + d < bound then parse_hex_digits bound (acc * 16 + d) cs else Inl IntPosOverflow)"

definition parse_hex :: "nat \<Rightarrow> string \<Rightarrow> (int_error, nat) res" where
  "parse_hex bound s =
     (if s = [] then Inl IntEmpty
      else if s = ''+'' \<or> s = ''-'' then Inl IntInvalidDigit
      else parse_hex_digits bound 0 (if hd s = CHR ''+'' then tl s else s))"

section \<open>What is printed is read back\<close>

lemma to_digit_hex: "d < 16 \<Longrightarrow> to_digit 16 (hex_digit d) = Some d"
  by (auto simp: to_digit_def hex_digit_def byte_val_def less_eq_char_def is_ascii_digit_def
      is_ascii_lower_def Let_def)

lemma parse_hex_digits_snoc:
  "parse_hex_digits b acc (s @ [c]) =
     (case parse_hex_digits b acc s of Inl e \<Rightarrow> Inl e | Inr v \<Rightarrow> parse_hex_digits b v [c])"
  by (induction s arbitrary: acc) (auto split: option.splits)

lemma hex_str_chars: "c \<in> set (hex_str n) \<Longrightarrow> \<exists>d < 16. c = hex_digit d"
proof (induction n rule: hex_str.induct)
  case (1 n)
  have "\<exists>d < 16. hex_digit (n mod 16) = hex_digit d" by (rule exI [of _ "n mod 16"]) simp
  with 1 show ?case by (subst (asm) hex_str.simps) (auto split: if_splits)
qed

lemma hex_digit_plain:
  assumes "d < 16"
  shows "byte_val (hex_digit d) < 128 \<and> ws_free (hex_digit d)
    \<and> hex_digit d \<notin> {CHR 0x0D, CHR 0x0A, CHR '';'', CHR ''+'', CHR ''-''}"
proof -
  have "is_ascii_digit (hex_digit d) \<or> is_ascii_lower (hex_digit d)"
    using assms by (auto simp: hex_digit_def is_ascii_digit_def is_ascii_lower_def less_eq_char_def)
  moreover have "ws_free c \<and> c \<notin> {CHR 0x0D, CHR 0x0A, CHR '';'', CHR ''+'', CHR ''-''}"
    if "is_ascii_digit c \<or> is_ascii_lower c" for c
    using that by (auto simp: ws_free_def unicode_ws_def is_ascii_digit_def is_ascii_lower_def less_eq_char_def)
  ultimately show ?thesis using hex_digit_ascii [OF assms] by blast
qed

lemma hex_str_plain:
  assumes "c \<in> set (hex_str n)"
  shows "byte_val c < 128 \<and> ws_free c \<and> c \<notin> {CHR 0x0D, CHR 0x0A, CHR '';'', CHR ''+'', CHR ''-''}"
proof -
  obtain d where d: "d < 16" "c = hex_digit d" using hex_str_chars [OF assms] by auto
  show ?thesis unfolding d(2) by (rule hex_digit_plain [OF d(1)])
qed

lemma parse_hex_str: "n < b \<Longrightarrow> parse_hex b (hex_str n) = Inr n"
proof -
  have ne: "hex_str n \<noteq> []" by (subst hex_str.simps) simp
  have "parse_hex_digits b 0 (hex_str m) = Inr m" if "m < b" for m
    using that
  proof (induction m rule: hex_str.induct)
    case (1 m)
    show ?case
    proof (cases "m < 16")
      case True
      with "1.prems" show ?thesis by (simp add: hex_str.simps [of m] to_digit_hex)
    next
      case False
      with 1 have "parse_hex_digits b 0 (hex_str (m div 16)) = Inr (m div 16)" by simp
      with False "1.prems" show ?thesis
        by (simp add: hex_str.simps [of m] parse_hex_digits_snoc to_digit_hex)
    qed
  qed
  moreover have "hd (hex_str n) \<noteq> CHR ''+''" "hex_str n \<noteq> ''+''" "hex_str n \<noteq> ''-''"
    using hex_str_plain [of "hd (hex_str n)" n] ne by auto
  moreover assume "n < b"
  ultimately show ?thesis using ne by (simp add: parse_hex_def)
qed

end
