(* ===== verification/Live_Scope.thy ===== *)
theory Live_Scope
  imports Agent_Discovery Observer_Timeline Rust_Radix
begin

unbundle bit_operations_syntax

text \<open>
  What a live observer needs before it starts (\<open>crates/apolysis-observer/src/live.rs\<close>,
  \<open>capabilities.rs\<close>): the request and its checks, the user an agent runs as, the capabilities of
  the process and the interfaces of the kernel, and the set-up of the eBPF object: its scope,
  its tracked cgroups and its tracepoints. The answers of the kernel and of aya are parameters.
\<close>

section \<open>Requests\<close>

datatype live_scope = LsCgroup u64 | LsProcessTree u32

fun live_scope_metadata :: "live_scope \<Rightarrow> string" where
  "live_scope_metadata (LsCgroup i) = ''mode:cgroup,cgroup_id:'' @ dec_str (unat i)"
| "live_scope_metadata (LsProcessTree pid) = ''mode:process_tree,root_pid:'' @ dec_str (unat pid)"

record agent_run_request =
  ag_kind :: string
  ag_command :: "string list"

definition agent_run_request_new :: "string \<Rightarrow> string list \<Rightarrow> (string, agent_run_request) res" where
  "agent_run_request_new kind command =
     (if trim kind = [] then Inl ''agent kind must not be empty''
      else if command = [] then Inl ''agent command must not be empty''
      else Inr \<lparr>ag_kind = kind, ag_command = command\<rparr>)"

definition redacted_command :: "agent_run_request \<Rightarrow> string" where
  "redacted_command r = join_with '' '' (redact_command (ag_command r))"

record live_request =
  lr_object_path :: string
  lr_output_path :: string
  lr_policy_path :: string
  lr_session_id :: string
  lr_feedback_dir :: "string option"
  lr_scope :: "live_scope option"
  lr_agent_run :: "agent_run_request option"
  lr_registration_path :: "string option"
  lr_discovery :: "string option"
  lr_workspace_root :: string
  lr_rotation :: "rotation_policy option"

definition live_scope_requirement :: string where
  "live_scope_requirement =
     ''live observer requires exactly one of --scope-cgroup, --scope-pid, --agent-run, --agent-registration, or --agent-discover''"

definition scope_modes :: "live_request \<Rightarrow> nat" where
  "scope_modes r =
     of_bool (lr_scope r \<noteq> None) + of_bool (lr_agent_run r \<noteq> None)
     + of_bool (lr_registration_path r \<noteq> None) + of_bool (lr_discovery r \<noteq> None)"

definition live_request_validate :: "(string \<Rightarrow> bool) \<Rightarrow> live_request \<Rightarrow> (string, unit) res" where
  "live_request_validate is_file r =
     (if \<not> is_file (lr_object_path r) then Inl (''BPF object does not exist: '' @ lr_object_path r)
      else if lr_agent_run r \<noteq> None \<and> lr_scope r \<noteq> None then
        Inl ''--agent-run cannot be combined with --scope-pid or --scope-cgroup''
      else if lr_registration_path r \<noteq> None \<and> lr_scope r \<noteq> None then
        Inl ''--agent-registration cannot be combined with --scope-pid or --scope-cgroup''
      else if lr_discovery r \<noteq> None \<and> lr_scope r \<noteq> None then
        Inl ''--agent-discover cannot be combined with --scope-pid or --scope-cgroup''
      else if lr_agent_run r \<noteq> None \<and> (lr_registration_path r \<noteq> None \<or> lr_discovery r \<noteq> None) then
        Inl ''--agent-run cannot be combined with --agent-registration or --agent-discover''
      else if lr_registration_path r \<noteq> None \<and> lr_discovery r \<noteq> None then
        Inl ''--agent-registration cannot be combined with --agent-discover''
      else if scope_modes r \<noteq> 1 then Inl live_scope_requirement
      else Inr ())"

definition daemon_observer_validate :: "(string \<Rightarrow> bool) \<Rightarrow> string \<Rightarrow> (string, unit) res" where
  "daemon_observer_validate is_file path =
     (if \<not> is_file path then Inl (''BPF object does not exist: '' @ path) else Inr ())"

text \<open>Exactly one way to name what is observed.\<close>

lemma live_request_valid_iff:
  "live_request_validate is_file r = Inr () \<longleftrightarrow> is_file (lr_object_path r) \<and> scope_modes r = 1"
  by (auto simp: live_request_validate_def scope_modes_def)

section \<open>The user of a managed agent\<close>

record run_as =
  ra_uid :: u32
  ra_gid :: u32
  ra_home :: "string option"
  ra_codex_home :: "string option"

definition nonblank_env :: "string option \<Rightarrow> string option" where
  "nonblank_env v = (case v of None \<Rightarrow> None | Some s \<Rightarrow> if trim s = [] then None else Some s)"

definition managed_agent_run_as :: "u32 \<Rightarrow> (string \<Rightarrow> string option) \<Rightarrow> run_as option" where
  "managed_agent_run_as euid env =
     (if euid \<noteq> 0 then None
      else
        (case Option.bind (env ''SUDO_UID'') parse_ok of None \<Rightarrow> None
         | Some uid \<Rightarrow>
        (case Option.bind (env ''SUDO_GID'') parse_ok of None \<Rightarrow> None
         | Some gid \<Rightarrow>
             if uid = 0 then None
             else Some \<lparr>ra_uid = uid, ra_gid = gid, ra_home = nonblank_env (env ''HOME''),
                    ra_codex_home = nonblank_env (env ''CODEX_HOME'')\<rparr>)))"

lemma run_as_drops_root:
  "managed_agent_run_as euid env = Some r \<Longrightarrow> euid = 0 \<and> ra_uid r \<noteq> 0"
  by (auto simp: managed_agent_run_as_def split: if_splits option.splits)

text \<open>
  The group is not looked at: under a sudo of a user of the root group the agent keeps it. And
  without the variables of sudo, a root observer starts the agent as root.
\<close>

lemma run_as_keeps_root_group:
  "managed_agent_run_as 0 [''SUDO_UID'' \<mapsto> ''7'', ''SUDO_GID'' \<mapsto> ''0''] =
     Some \<lparr>ra_uid = 7, ra_gid = 0, ra_home = None, ra_codex_home = None\<rparr>"
  by (simp add: managed_agent_run_as_def parse_ok_def parse_word_def parse_unsigned_def digit_val_def
      is_ascii_digit_def byte_val_def nonblank_env_def)

section \<open>Capabilities\<close>

definition cap_sys_admin :: nat where "cap_sys_admin = 21"
definition cap_perfmon :: nat where "cap_perfmon = 38"
definition cap_bpf :: nat where "cap_bpf = 39"

definition has_capability :: "u64 \<Rightarrow> nat \<Rightarrow> bool" where
  "has_capability effective capability \<longleftrightarrow> effective AND push_bit capability 1 \<noteq> 0"

definition has_required_bpf_capabilities :: "u64 \<Rightarrow> bool" where
  "has_required_bpf_capabilities e \<longleftrightarrow>
     has_capability e cap_sys_admin \<or> has_capability e cap_bpf \<and> has_capability e cap_perfmon"

definition parse_effective_capabilities :: "string \<Rightarrow> (string, u64) res" where
  "parse_effective_capabilities status =
     (case List.map_filter (strip_prefix ''CapEff:'') (lines_of status) of
        [] \<Rightarrow> Inl ''missing CapEff in /proc/self/status''
      | v # _ \<Rightarrow>
          map_sum (\<lambda>e. ''invalid CapEff value '' @ [ch_apos] @ trim v @ [ch_apos] @ '': '' @ int_error_str e) of_nat
            (parse_hex (2 ^ 64) (trim v)))"

lemma has_capability_bit: "has_capability e n \<longleftrightarrow> bit e n"
  by (simp add: has_capability_def bit_iff_and_push_bit_not_eq_0)

section \<open>The interfaces of the kernel\<close>

record prerequisites =
  pq_linux :: bool
  pq_btf_readable :: bool
  pq_is_file :: "string \<Rightarrow> bool"
  pq_is_dir :: "string \<Rightarrow> bool"
  pq_status :: "(string, string) res"

definition tracefs_root :: "prerequisites \<Rightarrow> string option" where
  "tracefs_root q =
     find (\<lambda>path. pq_is_dir q (path_join path ''events''))
       [''/sys/kernel/tracing'', ''/sys/kernel/debug/tracing'']"

definition effective_capabilities :: "prerequisites \<Rightarrow> (string, u64) res" where
  "effective_capabilities q =
     (case pq_status q of
        Inl e \<Rightarrow> Inl (''failed to read effective capabilities: '' @ e)
      | Inr status \<Rightarrow> parse_effective_capabilities status)"

definition tracepoint_id :: "string \<Rightarrow> tracepoint_attach \<Rightarrow> string" where
  "tracepoint_id tracefs t =
     path_join (path_join (path_join (path_join tracefs ''events'') (ta_category t)) (ta_name t)) ''id''"

definition validate_live_prerequisites :: "prerequisites \<Rightarrow> live_scope \<Rightarrow> loader_plan \<Rightarrow> (string, unit) res" where
  "validate_live_prerequisites q scope plan =
     (if \<not> pq_linux q then Inl ''live eBPF requires Linux''
      else if \<not> pq_btf_readable q then Inl ''readable /sys/kernel/btf/vmlinux is required''
      else if (case scope of LsCgroup _ \<Rightarrow> True | LsProcessTree _ \<Rightarrow> False)
              \<and> \<not> pq_is_file q ''/sys/fs/cgroup/cgroup.controllers'' then
        Inl ''cgroup v2 is required for --scope-cgroup''
      else
        (case effective_capabilities q of
           Inl e \<Rightarrow> Inl e
         | Inr effective \<Rightarrow>
             if \<not> has_required_bpf_capabilities effective then
               Inl ''CAP_BPF and CAP_PERFMON (or CAP_SYS_ADMIN) are required for live observation''
             else
               (case tracefs_root q of
                  None \<Rightarrow> Inl ''tracefs events are unavailable; mount tracefs at /sys/kernel/tracing''
                | Some tracefs \<Rightarrow>
                    (case find (\<lambda>t. \<not> pq_is_file q (tracepoint_id tracefs t)) (lp_tracepoints plan) of
                       Some t \<Rightarrow>
                         Inl (''required tracepoint is unavailable: '' @ ta_category t @ ''/'' @ ta_name t)
                     | None \<Rightarrow> Inr ()))))"

section \<open>The eBPF object\<close>

record scope_config =
  sc_cgroup_id :: u64
  sc_root_pid :: u32
  sc_mode :: u32

fun scope_config_of :: "live_scope \<Rightarrow> scope_config" where
  "scope_config_of (LsCgroup i) = \<lparr>sc_cgroup_id = i, sc_root_pid = 0, sc_mode = 1\<rparr>"
| "scope_config_of (LsProcessTree pid) = \<lparr>sc_cgroup_id = 0, sc_root_pid = pid, sc_mode = 2\<rparr>"

definition multi_cgroup_config :: scope_config where
  "multi_cgroup_config = \<lparr>sc_cgroup_id = 0, sc_root_pid = 0, sc_mode = 3\<rparr>"

text \<open>What is asked of the object, in order, and what else an observer does to its surroundings.\<close>

datatype live_call =
    SpawnAgent "string list"
  | LoadObject
  | SetConfig scope_config
  | TrackPid u32
  | TrackCgroup u64
  | UntrackCgroup u64
  | LoadProgram string
  | AttachProgram string string string
  | ReleaseGate
  | TerminateAgent

datatype map_state = MapMissing | MapInvalid string | MapOpen

datatype program_state = ProgramMissing | ProgramInvalid string | ProgramFound

record bpf_object =
  bo_map :: "string \<Rightarrow> map_state"
  bo_program :: "string \<Rightarrow> program_state"
  bo_answer :: "live_call \<Rightarrow> (string, unit) res"

definition open_map :: "bpf_object \<Rightarrow> string \<Rightarrow> (string, unit) res" where
  "open_map b name =
     (case bo_map b name of
        MapMissing \<Rightarrow> Inl (''missing BPF map: '' @ name)
      | MapInvalid e \<Rightarrow> Inl (''invalid '' @ name @ '' map: '' @ e)
      | MapOpen \<Rightarrow> Inr ())"

text \<open>A call, with the text that goes before its error.\<close>

definition call :: "bpf_object \<Rightarrow> string \<Rightarrow> live_call \<Rightarrow> (string, unit) res \<times> live_call list" where
  "call b err c = (map_sum (\<lambda>e. err @ e) id (bo_answer b c), [c])"

definition after_call ::
    "(string, unit) res \<times> live_call list \<Rightarrow> (string, unit) res \<times> live_call list
     \<Rightarrow> (string, unit) res \<times> live_call list" where
  "after_call first next =
     (case fst first of Inl e \<Rightarrow> first | Inr _ \<Rightarrow> (fst next, snd first @ snd next))"

fun each_call ::
    "('a \<Rightarrow> (string, unit) res \<times> live_call list) \<Rightarrow> 'a list \<Rightarrow> (string, unit) res \<times> live_call list" where
  "each_call f [] = (Inr (), [])"
| "each_call f (x # xs) = after_call (f x) (each_call f xs)"

definition set_config :: "bpf_object \<Rightarrow> string \<Rightarrow> scope_config \<Rightarrow> (string, unit) res \<times> live_call list" where
  "set_config b err c = after_call (open_map b ''APOLYSIS_CONFIG'', []) (call b err (SetConfig c))"

definition track_pid :: "bpf_object \<Rightarrow> u32 \<Rightarrow> (string, unit) res \<times> live_call list" where
  "track_pid b pid =
     call b (''failed to seed process-tree scope pid '' @ dec_str (unat pid) @ '': '') (TrackPid pid)"

definition configure_scope ::
    "bpf_object \<Rightarrow> (nat \<Rightarrow> proc_fs) \<Rightarrow> live_scope \<Rightarrow> (string, unit) res \<times> live_call list" where
  "configure_scope b views scope =
     after_call (set_config b ''failed to configure live observer scope: '' (scope_config_of scope))
       (case scope of
          LsCgroup _ \<Rightarrow> (Inr (), [])
        | LsProcessTree root \<Rightarrow>
            after_call (open_map b ''APOLYSIS_TRACKED_PIDS'', [])
              (case discover_process_tree_scope_pids root views of
                 Inl e \<Rightarrow> (Inl e, [])
               | Inr pids \<Rightarrow> each_call (track_pid b) pids))"

definition enable_multi_cgroup_scope :: "bpf_object \<Rightarrow> (string, unit) res \<times> live_call list" where
  "enable_multi_cgroup_scope b =
     set_config b ''failed to configure multi-cgroup observer scope: '' multi_cgroup_config"

definition update_tracked_cgroup :: "bpf_object \<Rightarrow> u64 \<Rightarrow> bool \<Rightarrow> (string, unit) res \<times> live_call list" where
  "update_tracked_cgroup b cgroup present =
     (if cgroup = 0 then (Inl ''cgroup id must be non-zero'', [])
      else
        after_call (open_map b ''APOLYSIS_TRACKED_CGROUPS'', [])
          (if present then call b ''failed to add cgroup observer scope: '' (TrackCgroup cgroup)
           else call b ''failed to remove cgroup observer scope: '' (UntrackCgroup cgroup)))"

definition attach_tracepoint :: "bpf_object \<Rightarrow> tracepoint_attach \<Rightarrow> (string, unit) res \<times> live_call list" where
  "attach_tracepoint b t =
     (let name = program_name t in
      case bo_program b name of
        ProgramMissing \<Rightarrow> (Inl (''missing BPF program: '' @ name), [])
      | ProgramInvalid e \<Rightarrow> (Inl (''invalid tracepoint program '' @ name @ '': '' @ e), [])
      | ProgramFound \<Rightarrow>
          after_call (call b (''BPF load or verifier failure for '' @ name @ '': '') (LoadProgram name))
            (call b (''BPF attach failure for '' @ name @ '' at '' @ ta_category t @ ''/'' @ ta_name t @ '': '')
              (AttachProgram name (ta_category t) (ta_name t))))"

definition attach_tracepoints :: "bpf_object \<Rightarrow> loader_plan \<Rightarrow> (string, unit) res \<times> live_call list" where
  "attach_tracepoints b plan = each_call (attach_tracepoint b) (lp_tracepoints plan)"

section \<open>What a set-up that succeeds has done\<close>

lemma after_call_fst: "fst (after_call a b) = Inr u \<longleftrightarrow> is_ok (fst a) \<and> fst b = Inr u"
  by (cases "fst a") (simp_all add: after_call_def)

lemma after_call_snd: "is_ok (fst a) \<Longrightarrow> snd (after_call a b) = snd a @ snd b"
  by (cases "fst a") (simp_all add: after_call_def)

lemma after_call_ok:
  "after_call a b = (Inr u, cs) \<longleftrightarrow> is_ok (fst a) \<and> fst b = Inr u \<and> cs = snd a @ snd b"
  using after_call_fst [of a b u] after_call_snd [of a b] by (auto simp: prod_eq_iff)

lemma each_call_ok:
  "fst (each_call f xs) = Inr u \<Longrightarrow>
   snd (each_call f xs) = concat (map (snd \<circ> f) xs) \<and> list_all (is_ok \<circ> fst \<circ> f) xs"
  by (induction xs) (auto simp: after_call_fst after_call_snd)

definition tracepoint_calls :: "loader_plan \<Rightarrow> live_call list" where
  "tracepoint_calls plan =
     concat (map (\<lambda>t. [LoadProgram (program_name t), AttachProgram (program_name t) (ta_category t) (ta_name t)])
       (lp_tracepoints plan))"

lemma attach_tracepoints_ok:
  assumes "attach_tracepoints b plan = (Inr u, cs)"
  shows "cs = tracepoint_calls plan"
proof -
  have "snd (attach_tracepoint b t) = [LoadProgram (program_name t), AttachProgram (program_name t) (ta_category t) (ta_name t)]"
    if "is_ok (fst (attach_tracepoint b t))" for t
    using that
    by (auto simp: attach_tracepoint_def Let_def after_call_def call_def is_ok_iff split: program_state.splits sum.splits)
  with each_call_ok [of "attach_tracepoint b" "lp_tracepoints plan"] assms show ?thesis
    by (auto simp: attach_tracepoints_def tracepoint_calls_def list_all_iff intro!: arg_cong [of _ _ concat] map_cong)
qed

definition scope_calls :: "live_scope \<Rightarrow> u32 list \<Rightarrow> live_call list" where
  "scope_calls scope pids = SetConfig (scope_config_of scope) # map TrackPid pids"

lemma configure_scope_ok:
  assumes "configure_scope b views scope = (Inr u, cs)"
  shows "case scope of
      LsCgroup _ \<Rightarrow> cs = scope_calls scope []
    | LsProcessTree root \<Rightarrow>
        (case discover_process_tree_scope_pids root views of
           Inl _ \<Rightarrow> False | Inr pids \<Rightarrow> cs = scope_calls scope pids)"
proof -
  have t: "map (snd \<circ> track_pid b) pids = map (\<lambda>pid. [TrackPid pid]) pids" for pids
    by (simp add: track_pid_def call_def)
  have c: "concat (map (\<lambda>pid. [TrackPid pid]) pids) = map TrackPid pids" for pids by (induction pids) simp_all
  have config: "snd (set_config b err (scope_config_of scope)) = [SetConfig (scope_config_of scope)]"
    if "is_ok (fst (set_config b err (scope_config_of scope)))" for err
    using that by (auto simp: set_config_def call_def after_call_def split: sum.splits)
  show ?thesis
  proof (cases scope)
    case (LsCgroup i)
    with assms config show ?thesis by (auto simp: configure_scope_def after_call_ok scope_calls_def)
  next
    case (LsProcessTree root)
    with assms obtain pids where pids: "discover_process_tree_scope_pids root views = Inr pids"
      by (auto simp: configure_scope_def after_call_ok after_call_fst split: sum.splits)
    with assms LsProcessTree config have "fst (each_call (track_pid b) pids) = Inr u"
      "cs = SetConfig (scope_config_of scope) # snd (each_call (track_pid b) pids)"
      by (auto simp: configure_scope_def after_call_ok after_call_fst after_call_snd)
    with each_call_ok [of "track_pid b" pids] pids LsProcessTree show ?thesis
      by (simp add: scope_calls_def t c)
  qed
qed

end
