(* ===== verification/Observer_Live.thy ===== *)
theory Observer_Live
  imports Live_Scope Observer_Runtime
begin

text \<open>
  The live observer (\<open>observe_live\<close> of \<open>crates/apolysis-observer/src/live.rs\<close>): its start, the
  loop over the ring buffer, and its end. Parameters: the answers of the kernel and of aya, the
  start of the agent, and, for every turn of the loop, which branch of the \<open>select!\<close> is taken and
  with what.
\<close>

section \<open>The surroundings\<close>

datatype spawn_outcome = SpPipe string | SpStart string | SpNoPid | SpPid u32

record live_env = observer_env +
  le_is_file :: "string \<Rightarrow> bool"
  le_prerequisites :: prerequisites
  le_sha :: "string \<Rightarrow> string"
  le_decode_registration :: "string \<Rightarrow> (string, agent_registration) res"
  le_looks :: "proc_fs \<times> proc_fs"
  le_spawn :: spawn_outcome
  le_spawned_proc :: proc_fs
  le_load :: "(string, bpf_object) res"
  le_views :: "nat \<Rightarrow> proc_fs"
  le_ring :: "(string, unit) res"
  le_calibration :: "(string, batch_decoder) res"
  le_counters :: "(string, observer_counters) res"
  le_start_clock :: clock
  le_end_clock :: clock

text \<open>The timeline and the feedback written, and the calls made of the surroundings.\<close>

record live_world =
  lw_out :: observer_out
  lw_calls :: "live_call list"

definition on_out ::
    "(observer_out \<Rightarrow> (string, 'a) res \<times> observer_out) \<Rightarrow> live_world \<Rightarrow> (string, 'a) res \<times> live_world" where
  "on_out f w = (let (r, o') = f (lw_out w) in (r, w\<lparr>lw_out := o'\<rparr>))"

definition do_calls :: "(string, unit) res \<times> live_call list \<Rightarrow> live_world \<Rightarrow> (string, unit) res \<times> live_world" where
  "do_calls rc w = (fst rc, w\<lparr>lw_calls := lw_calls w @ snd rc\<rparr>)"

definition and_then ::
    "(string, 'a) res \<times> 's \<Rightarrow> ('a \<Rightarrow> 's \<Rightarrow> (string, 'b) res \<times> 's) \<Rightarrow> (string, 'b) res \<times> 's" where
  "and_then m f = (case m of (Inl e, s) \<Rightarrow> (Inl e, s) | (Inr x, s) \<Rightarrow> f x s)"

section \<open>Records of the start and the end\<close>

definition put_diagnostics ::
    "clock \<Rightarrow> string \<Rightarrow> (diagnostic_kind \<times> u64 \<times> string) list \<Rightarrow> string list" where
  "put_diagnostics clk sid ds =
     map (\<lambda>(i, kind, n, detail). observer_diagnostic_json (observer_diagnostic_new (clk i) sid kind n detail))
       (enumerate 0 ds)"

text \<open>A failure before the loop: it is recorded, the timeline flushed, and the error returned.\<close>

definition report_failure ::
    "u128 \<Rightarrow> string \<Rightarrow> diagnostic_kind \<Rightarrow> string \<Rightarrow> string \<Rightarrow> string \<Rightarrow> live_world
     \<Rightarrow> (string, 'a) res \<times> live_world" where
  "report_failure now sid kind detail flush_err err w =
     and_then
       (on_out (put_line ''failed to write observer diagnostic: ''
         (observer_diagnostic_json (observer_diagnostic_new now sid kind 1 detail))) w)
       (\<lambda>_ w. and_then (on_out (put_flush flush_err) w) (\<lambda>_ w. (Inl err, w)))"

definition supervisor_entries :: "agent_scope_metadata \<Rightarrow> (string \<times> string) list" where
  "supervisor_entries m =
     [(''agent-supervisor-mode'', am_supervisor_mode m), (''agent-kind'', am_kind m),
      (''agent-root-pid'', pid_str (am_root_pid m)), (''agent-command'', am_command m),
      (''agent-executable'', am_executable m), (''agent-workspace-root'', am_workspace_root m),
      (''agent-start-time'',
       (case am_start_time_ticks m of
          None \<Rightarrow> ''start_time_ticks:unavailable''
        | Some t \<Rightarrow> ''start_time_ticks:'' @ dec_str (unat t)))]
     @ (case am_command_fingerprint m of None \<Rightarrow> [] | Some f \<Rightarrow> [(''agent-command-fingerprint'', f)])"

definition live_metadata_error :: string where
  "live_metadata_error = ''failed to write live observer metadata: ''"

definition write_agent_supervisor_metadata ::
    "clock \<Rightarrow> u32 \<Rightarrow> string \<Rightarrow> agent_scope_metadata \<Rightarrow> observer_out \<Rightarrow> (string, unit) res \<times> observer_out" where
  "write_agent_supervisor_metadata clk pid sid m =
     put_lines live_metadata_error (entry_lines clk pid sid (supervisor_entries m))"

definition write_scope_metadata ::
    "u128 \<Rightarrow> u32 \<Rightarrow> string \<Rightarrow> live_scope \<Rightarrow> observer_out \<Rightarrow> (string, unit) res \<times> observer_out" where
  "write_scope_metadata now pid sid scope =
     put_line ''failed to write live observer scope: ''
       (canonical_event_json (runtime_event now pid sid ''observer'' ''observer-scope'' (live_scope_metadata scope)))"

section \<open>The agent\<close>

text \<open>The wrapper waits on the gate; at the end of its input it leaves without the command.\<close>

definition gate_command :: "agent_run_request \<Rightarrow> string list" where
  "gate_command r =
     [''/bin/sh'', ''-c'', ''IFS= read -r _ <&3 || exit 127; exec '' @ [ch_quote] @ ''$@'' @ [ch_quote],
      ''apolysis-agent-gate''] @ ag_command r"

definition spawn_managed_agent ::
    "(string \<Rightarrow> string) \<Rightarrow> spawn_outcome \<Rightarrow> proc_fs \<Rightarrow> string \<Rightarrow> agent_run_request
     \<Rightarrow> (string, agent_scope_metadata) res" where
  "spawn_managed_agent sha outcome fs workspace r =
     (case outcome of
        SpPipe e \<Rightarrow> Inl (''failed to create managed agent gate pipe: '' @ e)
      | SpStart e \<Rightarrow>
          Inl (''failed to start managed agent command '' @ [ch_apos] @ redacted_command r @ [ch_apos] @ '': '' @ e)
      | SpNoPid \<Rightarrow> Inl ''managed agent child pid is unavailable''
      | SpPid pid \<Rightarrow>
          Inr \<lparr>am_supervisor_mode = ''apolysis_managed_launch'', am_kind = ag_kind r, am_root_pid = pid,
            am_executable = hd (ag_command r), am_command = redacted_command r,
            am_command_fingerprint = Some (command_fingerprint_from_args sha (ag_command r)),
            am_workspace_root = workspace, am_start_time_ticks = read_process_start_time_ticks fs pid\<rparr>)"

section \<open>The start\<close>

definition prerequisite_scope :: "u32 \<Rightarrow> live_scope option \<Rightarrow> agent_scope_metadata option \<Rightarrow> live_scope" where
  "prerequisite_scope own scope enrolled =
     (case scope of
        Some s \<Rightarrow> s
      | None \<Rightarrow>
          (case enrolled of Some m \<Rightarrow> LsProcessTree (am_root_pid m) | None \<Rightarrow> LsProcessTree own))"

text \<open>Without any of them the code would stop with a panic; a checked request has one.\<close>

definition observed_scope ::
    "agent_scope_metadata option \<Rightarrow> agent_scope_metadata option \<Rightarrow> live_scope option \<Rightarrow> (string, live_scope) res" where
  "observed_scope managed enrolled scope =
     (case managed of
        Some m \<Rightarrow> Inr (LsProcessTree (am_root_pid m))
      | None \<Rightarrow>
          (case enrolled of
             Some m \<Rightarrow> Inr (LsProcessTree (am_root_pid m))
           | None \<Rightarrow>
               (case scope of
                  Some s \<Rightarrow> Inr s
                | None \<Rightarrow> Inl ''live request validation requires a scope or managed agent'')))"

definition start_agent ::
    "live_env \<Rightarrow> live_request \<Rightarrow> live_world \<Rightarrow> (string, agent_scope_metadata option) res \<times> live_world" where
  "start_agent env req w =
     (case lr_agent_run req of
        None \<Rightarrow> (Inr None, w)
      | Some run \<Rightarrow>
          (let w = w\<lparr>lw_calls := lw_calls w @ [SpawnAgent (gate_command run)]\<rparr> in
           case spawn_managed_agent (le_sha env) (le_spawn env) (le_spawned_proc env) (lr_workspace_root req) run of
             Inl e \<Rightarrow> (Inl e, w)
           | Inr m \<Rightarrow>
               and_then
                 (on_out (write_agent_supervisor_metadata (oe_clock env 1) (oe_pid env) (lr_session_id req) m) w)
                 (\<lambda>_ w. (Inr (Some m), w))))"

definition terminate_agent :: "agent_scope_metadata option \<Rightarrow> live_world \<Rightarrow> live_world" where
  "terminate_agent managed w =
     (case managed of None \<Rightarrow> w | Some _ \<Rightarrow> w\<lparr>lw_calls := lw_calls w @ [TerminateAgent]\<rparr>)"

definition attach_failure_kind :: "string \<Rightarrow> diagnostic_kind" where
  "attach_failure_kind e = (if str_contains e ''verifier'' then DkVerifierFailure else DkAttachFailure)"

text \<open>The object is loaded, given its scope, attached; only then is the agent let go.\<close>

definition attach_and_release ::
    "live_env \<Rightarrow> live_request \<Rightarrow> agent_scope_metadata option \<Rightarrow> live_scope \<Rightarrow> live_world
     \<Rightarrow> (string, unit) res \<times> live_world" where
  "attach_and_release env req managed scope w =
     (let sid = lr_session_id req; now = le_start_clock env 0;
          w = w\<lparr>lw_calls := lw_calls w @ [LoadObject]\<rparr>
      in case le_load env of
           Inl e \<Rightarrow>
             report_failure now sid DkVerifierFailure e ''failed to flush verifier diagnostic: ''
               (''BPF load or verifier failure: '' @ e) (terminate_agent managed w)
         | Inr b \<Rightarrow>
        (case do_calls (configure_scope b (le_views env) scope) w of
           (Inl e, w) \<Rightarrow>
             report_failure now sid DkAttachFailure e ''failed to flush scope diagnostic: '' e
               (terminate_agent managed w)
         | (Inr _, w) \<Rightarrow>
        (case do_calls (attach_tracepoints b (audit_observer_plan (lr_object_path req))) w of
           (Inl e, w) \<Rightarrow>
             report_failure now sid (attach_failure_kind e) e ''failed to flush attach diagnostic: '' e
               (terminate_agent managed w)
         | (Inr _, w) \<Rightarrow>
             (Inr (), case managed of None \<Rightarrow> w | Some _ \<Rightarrow> w\<lparr>lw_calls := lw_calls w @ [ReleaseGate]\<rparr>))))"

definition live_start ::
    "live_env \<Rightarrow> live_request \<Rightarrow> policy \<Rightarrow> live_world \<Rightarrow> (string, bool \<times> batch_decoder) res \<times> live_world" where
  "live_start env req p w =
     (let sid = lr_session_id req; now = le_start_clock env 0 in
      and_then
        (on_out (write_observer_metadata (oe_clock env 0) (oe_pid env) sid runner_plan_default ObAyaRingBuffer
           (startup_downgrade p (oe_capabilities env)) (lr_rotation req)) w)
        (\<lambda>_ w.
           case resolve_registered_agent (le_sha env) (oe_read env) (le_decode_registration env) (le_looks env)
                  (lr_registration_path req) (lr_discovery req) sid (lr_workspace_root req) of
             Inl e \<Rightarrow> report_failure now sid DkAttachFailure e ''failed to flush agent registration diagnostic: '' e w
           | Inr enrolled \<Rightarrow>
          (case validate_live_prerequisites (le_prerequisites env)
                  (prerequisite_scope (oe_pid env) (lr_scope req) enrolled)
                  (audit_observer_plan (lr_object_path req)) of
             Inl e \<Rightarrow>
               report_failure now sid DkAttachFailure e ''failed to flush prerequisite diagnostic: ''
                 (''live observer prerequisite failed: '' @ e) w
           | Inr _ \<Rightarrow>
               and_then (start_agent env req w) (\<lambda>managed w.
               and_then
                 (case enrolled of
                    None \<Rightarrow> (Inr (), w)
                  | Some m \<Rightarrow> on_out (write_agent_supervisor_metadata (oe_clock env 1) (oe_pid env) sid m) w) (\<lambda>_ w.
               (case observed_scope managed enrolled (lr_scope req) of
                  Inl e \<Rightarrow> (Inl e, w)
                | Inr scope \<Rightarrow>
                    and_then (on_out (write_scope_metadata (le_start_clock env 1) (oe_pid env) sid scope) w) (\<lambda>_ w.
                    and_then (attach_and_release env req managed scope w) (\<lambda>_ w.
                    (case le_ring env of
                       Inl e \<Rightarrow> (Inl e, w)
                     | Inr _ \<Rightarrow> (map_sum id (\<lambda>d. (managed \<noteq> None, d)) (le_calibration env), w))))))))))"

section \<open>The loop\<close>

text \<open>
  A turn: what \<open>try_wait\<close> answers, and the branch that \<open>select!\<close> takes: a batch, an empty one for
  a tick of the poll, or none for the deadline or a signal. An exit status has no code when a
  signal ended the process.
\<close>

record live_turn =
  lt_exit :: "(string, u32 option option) res"
  lt_batch :: "(string, string list option) res"

record live_state =
  lv_out :: observer_out
  lv_ids :: event_ids
  lv_context :: context_table
  lv_raw :: nat
  lv_canonical :: nat
  lv_decode_failures :: u64
  lv_truncations :: u64
  lv_exit :: "u32 option option"

definition live_event ::
    "live_env \<Rightarrow> live_request \<Rightarrow> policy \<Rightarrow> raw_kernel_event \<Rightarrow> live_state \<Rightarrow> (string, unit) res \<times> live_state" where
  "live_event env req p raw st =
     (let rd = \<lparr>rd_session_id = lr_session_id req, rd_workspace_root = lr_workspace_root req\<rparr>;
          (canonical, table) = context_observe raw (canonicalize raw p) (lv_context st);
          (persisted_raw, persisted_canonical) = redact_for_persistence (le_sha env) raw canonical rd;
          st = st\<lparr>lv_context := table\<rparr>
      in case put_line ''failed to write live raw event: '' (raw_kernel_event_json persisted_raw) (lv_out st) of
           (Inl e, o1) \<Rightarrow> (Inl e, st\<lparr>lv_out := o1\<rparr>)
         | (Inr _, o1) \<Rightarrow>
        (let st = st\<lparr>lv_raw := lv_raw st + 1\<rparr> in
         case put_line ''failed to write live canonical event: '' (canonical_event_json persisted_canonical) o1 of
           (Inl e, o2) \<Rightarrow> (Inl e, st\<lparr>lv_out := o2\<rparr>)
         | (Inr _, o2) \<Rightarrow>
        (case append_policy_evaluation (oe_clock env (lv_canonical st + 2)) canonical p (oe_capabilities env)
                (map_option (feedback_writer_new (observer_env.truncate env)) (lr_feedback_dir req))
                (Some (ce_resource persisted_canonical)) o2 of
           (Inl e, o3) \<Rightarrow> (Inl e, st\<lparr>lv_out := o3\<rparr>)
         | (Inr _, o3) \<Rightarrow> (Inr (), st\<lparr>lv_out := o3, lv_canonical := lv_canonical st + 1\<rparr>))))"

definition live_record ::
    "live_env \<Rightarrow> live_request \<Rightarrow> policy \<Rightarrow> batch_decoder \<Rightarrow> string \<Rightarrow> live_state
     \<Rightarrow> (string, unit) res \<times> live_state" where
  "live_record env req p d bytes st =
     (case kernel_event_record_decode bytes of
        Inl _ \<Rightarrow> (Inr (), st\<lparr>lv_decode_failures := lv_decode_failures st + 1\<rparr>)
      | Inr r \<Rightarrow>
          (let st = (if has_flag r (flag_resource_truncated OR flag_payload_truncated)
                     then st\<lparr>lv_truncations := lv_truncations st + 1\<rparr> else st)
           in case raw_event_from_record r (lr_session_id req) (to_unix_ms d (kr_timestamp_ns r)) of
                Inl _ \<Rightarrow> (Inr (), st\<lparr>lv_decode_failures := lv_decode_failures st + 1\<rparr>)
              | Inr raw \<Rightarrow>
                  (let (eid, ids) = next_raw_event_id (lv_ids st)
                   in live_event env req p (rk_with_event_id eid raw) (st\<lparr>lv_ids := ids\<rparr>))))"

fun live_batch ::
    "live_env \<Rightarrow> live_request \<Rightarrow> policy \<Rightarrow> batch_decoder \<Rightarrow> string list \<Rightarrow> live_state
     \<Rightarrow> (string, unit) res \<times> live_state" where
  "live_batch env req p d [] st = (Inr (), st)"
| "live_batch env req p d (bytes # bs) st =
     (case live_record env req p d bytes st of
        (Inl e, st') \<Rightarrow> (Inl e, st')
      | (Inr _, st') \<Rightarrow> live_batch env req p d bs st')"

definition poll_exit :: "bool \<Rightarrow> live_turn \<Rightarrow> live_state \<Rightarrow> (string, unit) res \<times> live_state" where
  "poll_exit managed t st =
     (if managed \<and> lv_exit st = None then
        (case lt_exit t of
           Inl e \<Rightarrow> (Inl (''failed to poll managed agent exit: '' @ e), st)
         | Inr None \<Rightarrow> (Inr (), st)
         | Inr (Some status) \<Rightarrow> (Inr (), st\<lparr>lv_exit := Some status\<rparr>))
      else (Inr (), st))"

text \<open>\<open>None\<close>: the turns are over and the observer still runs.\<close>

fun live_loop ::
    "live_env \<Rightarrow> live_request \<Rightarrow> policy \<Rightarrow> batch_decoder \<Rightarrow> bool \<Rightarrow> live_turn list \<Rightarrow> live_state
     \<Rightarrow> ((string, unit) res \<times> live_state) option" where
  "live_loop env req p d managed [] st = None"
| "live_loop env req p d managed (t # ts) st =
     (case poll_exit managed t st of
        (Inl e, st1) \<Rightarrow> Some (Inl e, st1)
      | (Inr _, st1) \<Rightarrow>
          (case lt_batch t of
             Inl e \<Rightarrow> Some (Inl e, st1)
           | Inr None \<Rightarrow> Some (Inr (), st1)
           | Inr (Some batch) \<Rightarrow>
               (case live_batch env req p d batch st1 of
                  (Inl e, st2) \<Rightarrow> Some (Inl e, st2)
                | (Inr _, st2) \<Rightarrow> live_loop env req p d managed ts st2)))"

section \<open>The end\<close>

definition status_exit_code :: "u32 option \<Rightarrow> u32" where
  "status_exit_code status = (case status of None \<Rightarrow> 1 | Some c \<Rightarrow> c)"

definition exit_line :: "u128 \<Rightarrow> u32 \<Rightarrow> string \<Rightarrow> u32 \<Rightarrow> string" where
  "exit_line now pid sid code =
     canonical_event_json
       (runtime_event now pid sid ''observer'' ''agent-exit-status'' (''exit:'' @ dec_str (unat code)))"

definition summary_detail :: "observer_counters \<Rightarrow> live_state \<Rightarrow> string" where
  "summary_detail c st =
     ''raw_events:'' @ dec_str (lv_raw st) @ '',canonical_events:'' @ dec_str (lv_canonical st)
     @ '',reserve_failures:'' @ dec_str (unat (oc_reserve_failures c))
     @ '',map_pressure:'' @ dec_str (unat (oc_map_pressure c))
     @ '',decode_failures:'' @ dec_str (unat (lv_decode_failures st))
     @ '',truncations:'' @ dec_str (unat (lv_truncations st))"

definition final_diagnostics :: "observer_counters \<Rightarrow> live_state \<Rightarrow> (diagnostic_kind \<times> u64 \<times> string) list" where
  "final_diagnostics c st =
     (if 0 < oc_reserve_failures c
      then [(DkRingBufferReserveFailure, oc_reserve_failures c, ''kernel APOLYSIS_COUNTERS'')] else [])
     @ (if 0 < oc_map_pressure c then [(DkMapPressure, oc_map_pressure c, ''kernel APOLYSIS_COUNTERS'')] else [])
     @ (if 0 < lv_decode_failures st
        then [(DkDecodeFailure, lv_decode_failures st, ''userspace ring-buffer decoder'')] else [])
     @ (if 0 < lv_truncations st then [(DkTruncation, lv_truncations st, ''kernel event flags'')] else [])
     @ [(DkSummary, of_nat (lv_raw st), summary_detail c st)]"

definition live_finish ::
    "live_env \<Rightarrow> live_request \<Rightarrow> live_state \<Rightarrow> (string, observe_result) res \<times> observer_out" where
  "live_finish env req st =
     (let sid = lr_session_id req in
      and_then
        (case lv_exit st of
           None \<Rightarrow> (Inr (), lv_out st)
         | Some status \<Rightarrow>
             put_line live_metadata_error (exit_line (le_end_clock env 0) (oe_pid env) sid (status_exit_code status))
               (lv_out st))
        (\<lambda>_ o1.
           case le_counters env of
             Inl e \<Rightarrow> (Inl e, o1)
           | Inr c \<Rightarrow>
               and_then
                 (put_lines ''failed to write observer diagnostic: ''
                   (put_diagnostics (\<lambda>i. le_end_clock env (i + 1)) sid (final_diagnostics c st)) o1)
                 (\<lambda>_ o2. and_then (put_flush ''failed to flush live observer timeline: '' o2)
                 (\<lambda>_ o3.
                    (Inr \<lparr>or_raw_events = lv_raw st, or_canonical_events = lv_canonical st,
                       or_backend = ObAyaRingBuffer, or_mode = OmAuditOnly,
                       or_agent_exit_code = map_option status_exit_code (lv_exit st)\<rparr>, o3)))))"

text \<open>
  The whole run: its result, where there is one, and the world from the creation of the
  timeline on.
\<close>

definition observe_live ::
    "live_env \<Rightarrow> live_request \<Rightarrow> live_turn list \<Rightarrow> (string, observe_result) res option \<times> live_world option" where
  "observe_live env req turns =
     (case live_request_validate (le_is_file env) req of
        Inl e \<Rightarrow> (Some (Inl e), None)
      | Inr _ \<Rightarrow>
     (case load_policy (observer_env.truncate env) (lr_policy_path req) of
        Inl e \<Rightarrow> (Some (Inl e), None)
      | Inr p \<Rightarrow>
     (case jsonl_create (lr_output_path req) (lr_rotation req) (oe_room env) (oe_directory env) of
        Inl e \<Rightarrow> (Some (Inl (''failed to create live observer timeline: '' @ e)), None)
      | Inr store \<Rightarrow>
     (case live_start env req p
             \<lparr>lw_out = \<lparr>oo_store = store, oo_files = oe_feedback_files env, oo_writes = 0\<rparr>, lw_calls = []\<rparr> of
        (Inl e, w) \<Rightarrow> (Some (Inl e), Some w)
      | (Inr (managed, d), w) \<Rightarrow>
     (case live_loop env req p d managed turns
             \<lparr>lv_out = lw_out w, lv_ids = event_ids_new (lr_session_id req), lv_context = (\<lambda>_. None), lv_raw = 0,
              lv_canonical = 0, lv_decode_failures = 0, lv_truncations = 0, lv_exit = None\<rparr> of
        None \<Rightarrow> (None, Some w)
      | Some (Inl e, st) \<Rightarrow> (Some (Inl e), Some (w\<lparr>lw_out := lv_out st\<rparr>))
      | Some (Inr _, st) \<Rightarrow>
          (let (r, o') = live_finish env req st in (Some r, Some (w\<lparr>lw_out := o'\<rparr>))))))))"

section \<open>The observer of the daemon\<close>

text \<open>
  The object is loaded without an agent, with the scope of many cgroups; the ring is opened and
  the clocks are read last.
\<close>

definition daemon_observer_load ::
    "live_env \<Rightarrow> string \<Rightarrow> (string, batch_decoder) res \<times> live_call list" where
  "daemon_observer_load env path =
     (let plan = audit_observer_plan path in
      case daemon_observer_validate (le_is_file env) path of
        Inl e \<Rightarrow> (Inl e, [])
      | Inr _ \<Rightarrow>
     (case validate_live_prerequisites (le_prerequisites env) (LsCgroup 1) plan of
        Inl e \<Rightarrow> (Inl (''daemon observer prerequisite failed: '' @ e), [])
      | Inr _ \<Rightarrow>
     (case le_load env of
        Inl e \<Rightarrow> (Inl (''BPF load or verifier failure: '' @ e), [LoadObject])
      | Inr b \<Rightarrow>
          (let (r, cs) = after_call (Inr (), [LoadObject])
                           (after_call (enable_multi_cgroup_scope b) (attach_tracepoints b plan))
           in case r of
                Inl e \<Rightarrow> (Inl e, cs)
              | Inr _ \<Rightarrow>
                  (case le_ring env of Inl e \<Rightarrow> (Inl e, cs) | Inr _ \<Rightarrow> (le_calibration env, cs))))))"

lemma daemon_observer_loaded:
  assumes "daemon_observer_load env path = (Inr d, cs)"
  shows "cs = LoadObject # SetConfig multi_cgroup_config # tracepoint_calls (audit_observer_plan path)"
proof -
  let ?plan = "audit_observer_plan path"
  obtain b where b: "le_load env = Inr b"
    using assms by (cases "le_load env") (auto simp: daemon_observer_load_def Let_def split: sum.splits)
  let ?calls = "after_call (Inr (), [LoadObject]) (after_call (enable_multi_cgroup_scope b) (attach_tracepoints b ?plan))"
  have calls: "?calls = (Inr (), cs)"
    using assms b by (auto simp: daemon_observer_load_def Let_def split: sum.splits prod.splits)
  obtain r1 c1 r2 c2 where c: "enable_multi_cgroup_scope b = (r1, c1)" "attach_tracepoints b ?plan = (r2, c2)" by fastforce
  with calls have ok: "is_ok r1" "r2 = Inr ()" "cs = LoadObject # c1 @ c2"
    by (auto simp: after_call_ok after_call_fst after_call_snd)
  have "c1 = [SetConfig multi_cgroup_config]"
    using ok(1) c(1)
    by (auto simp: enable_multi_cgroup_scope_def set_config_def call_def after_call_def is_ok_iff split: sum.splits)
  with attach_tracepoints_ok [OF c(2) [unfolded ok(2)]] ok(3) show ?thesis by simp
qed

section \<open>The agent runs only when it is observed\<close>

lemma and_then_ok: "and_then m f = (Inr y, s) \<longleftrightarrow> (\<exists>x s1. m = (Inr x, s1) \<and> f x s1 = (Inr y, s))"
  by (auto simp: and_then_def split: prod.split sum.split)

lemma and_then_fail: "and_then m f = (Inl e, s) \<longleftrightarrow> m = (Inl e, s) \<or> (\<exists>x s1. m = (Inr x, s1) \<and> f x s1 = (Inl e, s))"
  by (auto simp: and_then_def split: prod.split sum.split)

lemma on_out_calls [simp]: "lw_calls (snd (on_out f w)) = lw_calls w"
  by (simp add: on_out_def case_prod_beta Let_def)

lemma on_out_result: "on_out f w = (r, w') \<longleftrightarrow> fst (f (lw_out w)) = r \<and> w' = w\<lparr>lw_out := snd (f (lw_out w))\<rparr>"
  by (auto simp: on_out_def case_prod_beta Let_def)

lemma and_then_calls:
  assumes "\<And>x s. m = (Inr x, s) \<Longrightarrow> lw_calls (snd (f x s)) = lw_calls s"
  shows "lw_calls (snd (and_then m f)) = lw_calls (snd m)"
  using assms by (auto simp: and_then_def split: prod.split sum.split)

lemma report_failure_calls [simp]: "lw_calls (snd (report_failure now sid kind detail ferr err w)) = lw_calls w"
  unfolding report_failure_def by (subst and_then_calls, subst and_then_calls) auto

lemma report_failure_fails: "report_failure now sid kind detail ferr err w \<noteq> (Inr x, w')"
  by (simp add: report_failure_def and_then_ok)

lemma report_failure_not_ok [simp]: "\<not> is_ok (fst (report_failure now sid kind detail ferr err w))"
  by (metis is_ok_iff prod.collapse report_failure_fails)

text \<open>No call but the release itself opens the gate.\<close>

lemma each_call_set: "(\<And>x. c \<notin> set (snd (f x))) \<Longrightarrow> c \<notin> set (snd (each_call f xs))"
  by (induction xs) (auto simp: after_call_def split: sum.splits)

lemma no_release:
  "ReleaseGate \<notin> set (snd (configure_scope b views scope))"
  "ReleaseGate \<notin> set (snd (attach_tracepoints b plan))"
proof -
  have track: "ReleaseGate \<notin> set (snd (each_call (track_pid b) pids))" for pids
    by (rule each_call_set) (simp add: track_pid_def call_def)
  have config: "ReleaseGate \<notin> set (snd (set_config b err c))" for err c
    by (auto simp: set_config_def after_call_def call_def split: sum.splits)
  show "ReleaseGate \<notin> set (snd (configure_scope b views scope))"
    using track config by (auto simp: configure_scope_def after_call_def split: sum.splits live_scope.splits)
  show "ReleaseGate \<notin> set (snd (attach_tracepoints b plan))"
    unfolding attach_tracepoints_def
    by (rule each_call_set)
      (auto simp: attach_tracepoint_def Let_def after_call_def call_def split: program_state.splits sum.splits)
qed

definition observed_calls :: "live_env \<Rightarrow> live_request \<Rightarrow> live_scope \<Rightarrow> live_call list \<Rightarrow> bool" where
  "observed_calls env req scope cs \<longleftrightarrow>
     (case scope of
        LsCgroup _ \<Rightarrow>
          cs = LoadObject # scope_calls scope [] @ tracepoint_calls (audit_observer_plan (lr_object_path req))
      | LsProcessTree root \<Rightarrow>
          (case discover_process_tree_scope_pids root (le_views env) of
             Inl _ \<Rightarrow> False
           | Inr pids \<Rightarrow>
               cs = LoadObject # scope_calls scope pids @ tracepoint_calls (audit_observer_plan (lr_object_path req))))"

lemma observed_no_release: "observed_calls env req scope cs \<Longrightarrow> ReleaseGate \<notin> set cs"
  by (auto simp: observed_calls_def scope_calls_def tracepoint_calls_def split: live_scope.splits sum.splits)

lemma attach_and_release_cases:
  assumes "attach_and_release env req managed scope w = (r, w')"
  shows "(\<exists>cs. lw_calls w' = lw_calls w @ cs \<and> ReleaseGate \<notin> set cs \<and> \<not> is_ok r)
    \<or> (\<exists>cs. observed_calls env req scope cs \<and> is_ok r
          \<and> lw_calls w' = lw_calls w @ cs @ (if managed = None then [] else [ReleaseGate]))"
proof -
  let ?plan = "audit_observer_plan (lr_object_path req)"
  note run = assms [unfolded attach_and_release_def Let_def]
  show ?thesis
  proof (cases "le_load env")
    case (Inl e)
    with run show ?thesis
      by (auto simp: terminate_agent_def prod_eq_iff split: option.splits)
  next
    case (Inr b)
    obtain r1 c1 where conf: "configure_scope b (le_views env) scope = (r1, c1)" by fastforce
    obtain r2 c2 where att: "attach_tracepoints b ?plan = (r2, c2)" by fastforce
    have rel: "ReleaseGate \<notin> set c1" "ReleaseGate \<notin> set c2"
      using no_release(1) [of b "le_views env" scope] no_release(2) [of b ?plan] conf att by simp_all
    show ?thesis
    proof (cases r1)
      case (Inl e)
      with run Inr conf rel show ?thesis
        by (auto simp: do_calls_def terminate_agent_def prod_eq_iff split: option.splits)
    next
      case ok1: (Inr u1)
      show ?thesis
      proof (cases r2)
        case (Inl e)
        with run Inr ok1 conf att rel show ?thesis
          by (auto simp: do_calls_def terminate_agent_def prod_eq_iff split: option.splits)
      next
        case ok2: (Inr u2)
        have "observed_calls env req scope (LoadObject # c1 @ c2)"
          using configure_scope_ok [OF conf [unfolded ok1]] attach_tracepoints_ok [OF att [unfolded ok2]]
          by (auto simp: observed_calls_def split: live_scope.splits sum.splits)
        then show ?thesis
          using run Inr ok1 ok2 conf att
          by (intro disjI2 exI [of _ "LoadObject # c1 @ c2"]) (auto simp: do_calls_def split: option.splits)
      qed
    qed
  qed
qed

lemma and_then_split:
  assumes "and_then m f = (r, s)"
  obtains (fail) e where "m = (Inl e, s)" "r = Inl e"
    | (ok) x s1 where "m = (Inr x, s1)" "f x s1 = (r, s)"
  using assms by (auto simp: and_then_def split: prod.splits sum.splits)

lemma start_agent_calls:
  assumes "start_agent env req w = (r, w')"
  shows "lw_calls w' = lw_calls w @ (case lr_agent_run req of None \<Rightarrow> [] | Some a \<Rightarrow> [SpawnAgent (gate_command a)])"
    and "r = Inr managed \<Longrightarrow>
      (case managed of
         None \<Rightarrow> lr_agent_run req = None
       | Some m \<Rightarrow> \<exists>a. lr_agent_run req = Some a \<and> le_spawn env = SpPid (am_root_pid m))"
proof -
  note run = assms [unfolded start_agent_def Let_def]
  show "lw_calls w' = lw_calls w @ (case lr_agent_run req of None \<Rightarrow> [] | Some a \<Rightarrow> [SpawnAgent (gate_command a)])"
    using run
    by (auto simp: on_out_result elim!: and_then_split split: option.splits sum.splits)
  show "case managed of
         None \<Rightarrow> lr_agent_run req = None
       | Some m \<Rightarrow> \<exists>a. lr_agent_run req = Some a \<and> le_spawn env = SpPid (am_root_pid m)"
    if "r = Inr managed"
    using run that
    by (auto simp: spawn_managed_agent_def elim!: and_then_split split: option.splits sum.splits spawn_outcome.splits)
qed

definition released_observed :: "live_env \<Rightarrow> live_request \<Rightarrow> live_call list \<Rightarrow> bool" where
  "released_observed env req calls \<longleftrightarrow>
     (\<exists>a root cs. lr_agent_run req = Some a \<and> le_spawn env = SpPid root
        \<and> observed_calls env req (LsProcessTree root) cs
        \<and> calls = SpawnAgent (gate_command a) # cs @ [ReleaseGate])"

lemma live_start_released:
  assumes "live_start env req p w0 = (r, w)" "lw_calls w0 = []" "ReleaseGate \<in> set (lw_calls w)"
  shows "released_observed env req (lw_calls w)"
  using assms(1) [unfolded live_start_def Let_def]
proof (cases rule: and_then_split)
  case (fail e)
  with assms(2,3) show ?thesis by (auto simp: on_out_result)
next
  case (ok x s1)
  from ok(1) assms(2) have none: "lw_calls s1 = []" by (auto simp: on_out_result)
  have stop: False if "report_failure now sid kind detail ferr err s1 = (r, w)" for now sid kind detail ferr err
    using arg_cong [of _ _ "\<lambda>x. lw_calls (snd x)", OF that] none assms(3) by simp
  let ?res = "resolve_registered_agent (le_sha env) (oe_read env) (le_decode_registration env) (le_looks env)
                  (lr_registration_path req) (lr_discovery req) (lr_session_id req) (lr_workspace_root req)"
  let ?pre = "\<lambda>enrolled. validate_live_prerequisites (le_prerequisites env)
                  (prerequisite_scope (oe_pid env) (lr_scope req) enrolled)
                  (audit_observer_plan (lr_object_path req))"
  from ok(2) obtain enrolled where enrolled: "?res = Inr enrolled" by (cases ?res) (auto dest: stop)
  from ok(2) enrolled obtain u where pre: "?pre enrolled = Inr u"
    by (cases "?pre enrolled") (auto dest: stop)
  note rest = ok(2) [unfolded enrolled sum.case pre]
  from rest show ?thesis
  proof (cases rule: and_then_split)
    case (fail e)
    with start_agent_calls(1) [OF fail(1)] none assms(3) show ?thesis by (auto split: option.splits)
  next
    case (ok managed s2)
    note agent = start_agent_calls [OF ok(1)]
    have calls2: "ReleaseGate \<notin> set (lw_calls s2)" using agent(1) none by (auto split: option.splits)
    from ok(2) show ?thesis
    proof (cases rule: and_then_split)
      case (fail e)
      with calls2 assms(3) show ?thesis by (auto simp: on_out_result split: option.splits)
    next
      case (ok x3 s3)
      then have calls3: "lw_calls s3 = lw_calls s2" by (auto simp: on_out_result split: option.splits)
      from ok(2) calls2 calls3 assms(3) obtain scope where scope: "observed_scope managed enrolled (lr_scope req) = Inr scope"
        by (auto split: sum.splits)
      from ok(2) [unfolded scope sum.case] show ?thesis
      proof (cases rule: and_then_split)
        case (fail e)
        with calls2 calls3 assms(3) show ?thesis by (auto simp: on_out_result)
      next
        case (ok x4 s4)
        then have calls4: "lw_calls s4 = lw_calls s2" using calls3 by (auto simp: on_out_result)
        obtain r5 s5 where attach: "attach_and_release env req managed scope s4 = (r5, s5)" by fastforce
        have w: "lw_calls w = lw_calls s5"
          using ok(2) attach by (auto elim!: and_then_split split: sum.splits)
        from attach_and_release_cases [OF attach] w calls4 calls2 assms(3)
        obtain cs where cs: "observed_calls env req scope cs" "managed \<noteq> None" "lw_calls w = lw_calls s2 @ cs @ [ReleaseGate]"
          by (auto split: if_splits dest: observed_no_release)
        then obtain m where m: "managed = Some m" by auto
        with agent(2) [OF refl] obtain a where "lr_agent_run req = Some a" "le_spawn env = SpPid (am_root_pid m)" by auto
        moreover have "scope = LsProcessTree (am_root_pid m)" using scope m by (simp add: observed_scope_def)
        ultimately show ?thesis using cs agent(1) none by (auto simp: released_observed_def)
      qed
    qed
  qed
qed

end
