(* ===== verification/Live_Timeline.thy ===== *)
theory Live_Timeline
  imports Observer_Live
begin

text \<open>
  What a live run of \<open>observe_live\<close> (\<open>crates/apolysis-observer/src/live.rs\<close>) puts on its timeline
  and asks of its surroundings, as functions of the inputs, and that a run with enough room on
  the device and a kernel that answers does succeed.
\<close>

section \<open>The start\<close>

definition downgrade_lines :: "live_env \<Rightarrow> live_request \<Rightarrow> policy \<Rightarrow> string list" where
  "downgrade_lines env req p =
     (case startup_downgrade p (oe_capabilities env) of
        None \<Rightarrow> []
      | Some d \<Rightarrow>
          [downgrade_line (oe_clock env 0 (length (observer_entries runner_plan_default ObAyaRingBuffer (lr_rotation req))))
             (oe_pid env) (lr_session_id req) d])"

definition supervisor_lines :: "live_env \<Rightarrow> live_request \<Rightarrow> agent_scope_metadata option \<Rightarrow> string list" where
  "supervisor_lines env req m =
     (case m of None \<Rightarrow> []
      | Some m \<Rightarrow> entry_lines (oe_clock env 1) (oe_pid env) (lr_session_id req) (supervisor_entries m))"

definition live_start_lines ::
    "live_env \<Rightarrow> live_request \<Rightarrow> policy \<Rightarrow> agent_scope_metadata option \<Rightarrow> agent_scope_metadata option
     \<Rightarrow> live_scope \<Rightarrow> string list" where
  "live_start_lines env req p managed enrolled scope =
     (entry_lines (oe_clock env 0) (oe_pid env) (lr_session_id req)
        (observer_entries runner_plan_default ObAyaRingBuffer (lr_rotation req))
      @ downgrade_lines env req p)
     @ supervisor_lines env req managed @ supervisor_lines env req enrolled
     @ [canonical_event_json (runtime_event (le_start_clock env 1) (oe_pid env) (lr_session_id req) ''observer''
          ''observer-scope'' (live_scope_metadata scope))]"

text \<open>Everything the surroundings have to answer for a start to succeed.\<close>

definition live_set_up ::
    "live_env \<Rightarrow> live_request \<Rightarrow> agent_scope_metadata option \<Rightarrow> agent_scope_metadata option \<Rightarrow> live_scope
     \<Rightarrow> bpf_object \<Rightarrow> live_call list \<Rightarrow> batch_decoder \<Rightarrow> bool" where
  "live_set_up env req managed enrolled scope b cs d \<longleftrightarrow>
     resolve_registered_agent (le_sha env) (oe_read env) (le_decode_registration env) (le_looks env)
       (lr_registration_path req) (lr_discovery req) (lr_session_id req) (lr_workspace_root req) = Inr enrolled
     \<and> validate_live_prerequisites (le_prerequisites env) (prerequisite_scope (oe_pid env) (lr_scope req) enrolled)
         (audit_observer_plan (lr_object_path req)) = Inr ()
     \<and> (case lr_agent_run req of
          None \<Rightarrow> managed = None
        | Some a \<Rightarrow>
            \<exists>m. managed = Some m
              \<and> spawn_managed_agent (le_sha env) (le_spawn env) (le_spawned_proc env) (lr_workspace_root req) a = Inr m)
     \<and> observed_scope managed enrolled (lr_scope req) = Inr scope
     \<and> le_load env = Inr b
     \<and> (\<exists>c1 c2. configure_scope b (le_views env) scope = (Inr (), c1)
          \<and> attach_tracepoints b (audit_observer_plan (lr_object_path req)) = (Inr (), c2) \<and> cs = c1 @ c2)
     \<and> le_ring env = Inr () \<and> le_calibration env = Inr d"

definition agent_calls :: "live_request \<Rightarrow> live_call list" where
  "agent_calls req = (case lr_agent_run req of None \<Rightarrow> [] | Some a \<Rightarrow> [SpawnAgent (gate_command a)])"

lemma on_out_ok:
  "on_out f w = (Inr u, w') \<longleftrightarrow> (\<exists>o'. f (lw_out w) = (Inr u, o') \<and> w' = w\<lparr>lw_out := o'\<rparr>)"
  by (cases "f (lw_out w)") (auto simp: on_out_def)

lemma attach_and_release_ok:
  "attach_and_release env req managed scope w = (Inr (), w') \<longleftrightarrow>
     (\<exists>b c1 c2. le_load env = Inr b \<and> configure_scope b (le_views env) scope = (Inr (), c1)
        \<and> attach_tracepoints b (audit_observer_plan (lr_object_path req)) = (Inr (), c2)
        \<and> w' = w\<lparr>lw_calls := lw_calls w @ LoadObject # c1 @ c2 @ (if managed = None then [] else [ReleaseGate])\<rparr>)"
proof (cases "le_load env")
  case (Inr b)
  let ?plan = "audit_observer_plan (lr_object_path req)"
  obtain r1 c1 r2 c2 where c: "configure_scope b (le_views env) scope = (r1, c1)" "attach_tracepoints b ?plan = (r2, c2)"
    by fastforce
  show ?thesis
    by (cases r1; cases r2; cases managed)
      (auto simp: Inr c attach_and_release_def do_calls_def report_failure_fails Let_def)
qed (simp add: attach_and_release_def report_failure_fails)

lemma start_agent_ok:
  "start_agent env req w = (Inr managed, w') \<longleftrightarrow>
     (case lr_agent_run req of
        None \<Rightarrow> managed = None \<and> w' = w
      | Some a \<Rightarrow>
          \<exists>m o'. managed = Some m
            \<and> spawn_managed_agent (le_sha env) (le_spawn env) (le_spawned_proc env) (lr_workspace_root req) a = Inr m
            \<and> write_agent_supervisor_metadata (oe_clock env 1) (oe_pid env) (lr_session_id req) m (lw_out w) = (Inr (), o')
            \<and> w' = w\<lparr>lw_calls := lw_calls w @ [SpawnAgent (gate_command a)], lw_out := o'\<rparr>)"
  by (auto simp: start_agent_def and_then_ok on_out_ok Let_def split: option.splits sum.splits)

definition supervisor_put ::
    "live_env \<Rightarrow> live_request \<Rightarrow> agent_scope_metadata option \<Rightarrow> observer_out \<Rightarrow> (string, unit) res \<times> observer_out" where
  "supervisor_put env req m out = put_lines live_metadata_error (supervisor_lines env req m) out"

lemma supervisor_put_simps:
  "supervisor_put env req None out = (Inr (), out)"
  "supervisor_put env req (Some m) out =
     write_agent_supervisor_metadata (oe_clock env 1) (oe_pid env) (lr_session_id req) m out"
  by (simp_all add: supervisor_put_def supervisor_lines_def write_agent_supervisor_metadata_def)

text \<open>A start succeeds when it is set up and the four groups of its lines are written.\<close>

lemma live_start_ok:
  "live_start env req p w0 = (Inr (b, d), w) \<longleftrightarrow>
     (\<exists>managed enrolled scope bpf cs o1 o2 o3 o4.
        live_set_up env req managed enrolled scope bpf cs d \<and> b = (managed \<noteq> None)
        \<and> write_observer_metadata (oe_clock env 0) (oe_pid env) (lr_session_id req) runner_plan_default ObAyaRingBuffer
            (startup_downgrade p (oe_capabilities env)) (lr_rotation req) (lw_out w0) = (Inr (), o1)
        \<and> supervisor_put env req managed o1 = (Inr (), o2)
        \<and> supervisor_put env req enrolled o2 = (Inr (), o3)
        \<and> write_scope_metadata (le_start_clock env 1) (oe_pid env) (lr_session_id req) scope o3 = (Inr (), o4)
        \<and> w = \<lparr>lw_out = o4, lw_calls = lw_calls w0 @ agent_calls req @ LoadObject # cs
               @ (if managed = None then [] else [ReleaseGate])\<rparr>)"
  (is "?l = ?r")
proof
  let ?sid = "lr_session_id req"
  assume l: ?l
  then obtain o1 where o1: "write_observer_metadata (oe_clock env 0) (oe_pid env) ?sid
      runner_plan_default ObAyaRingBuffer (startup_downgrade p (oe_capabilities env)) (lr_rotation req) (lw_out w0)
      = (Inr (), o1)"
    by (auto simp: live_start_def Let_def and_then_ok on_out_ok)
  let ?resolved = "resolve_registered_agent (le_sha env) (oe_read env) (le_decode_registration env)
      (le_looks env) (lr_registration_path req) (lr_discovery req) ?sid (lr_workspace_root req)"
  obtain enrolled where enrolled: "?resolved = Inr enrolled"
    using l by (cases ?resolved) (auto simp: live_start_def Let_def and_then_ok report_failure_fails)
  let ?ready = "validate_live_prerequisites (le_prerequisites env) (prerequisite_scope (oe_pid env) (lr_scope req) enrolled)
      (audit_observer_plan (lr_object_path req))"
  have pre: "?ready = Inr ()"
    using l by (cases ?ready) (auto simp: live_start_def Let_def and_then_ok enrolled report_failure_fails)
  let ?w1 = "w0\<lparr>lw_out := o1\<rparr>"
  obtain managed w2 w3 where agent: "start_agent env req ?w1 = (Inr managed, w2)"
    and enrolled_put: "(case enrolled of None \<Rightarrow> (Inr (), w2)
        | Some m \<Rightarrow> on_out (write_agent_supervisor_metadata (oe_clock env 1) (oe_pid env) ?sid m) w2) = (Inr (), w3)"
    and rest: "(case observed_scope managed enrolled (lr_scope req) of
        Inl e \<Rightarrow> (Inl e, w3)
      | Inr scope \<Rightarrow>
          and_then (on_out (write_scope_metadata (le_start_clock env 1) (oe_pid env) ?sid scope) w3) (\<lambda>_ w.
          and_then (attach_and_release env req managed scope w) (\<lambda>_ w.
          (case le_ring env of
             Inl e \<Rightarrow> (Inl e, w)
           | Inr _ \<Rightarrow> (map_sum id (\<lambda>d. (managed \<noteq> None, d)) (le_calibration env), w))))) = (Inr (b, d), w)"
    using l by (auto simp: live_start_def Let_def and_then_ok enrolled pre o1 on_out_ok)
  obtain scope where scope: "observed_scope managed enrolled (lr_scope req) = Inr scope"
    using rest by (auto split: sum.splits)
  obtain w4 w5 where w4: "on_out (write_scope_metadata (le_start_clock env 1) (oe_pid env) ?sid scope) w3 = (Inr (), w4)"
    and w5: "attach_and_release env req managed scope w4 = (Inr (), w5)"
    and ring: "le_ring env = Inr ()" "le_calibration env = Inr d" "b = (managed \<noteq> None)" "w = w5"
    using rest scope by (cases "le_ring env") (auto simp: and_then_ok map_sum_Inr)
  from w4 obtain o4 where o4: "write_scope_metadata (le_start_clock env 1) (oe_pid env) ?sid scope (lw_out w3) = (Inr (), o4)"
    "w4 = w3\<lparr>lw_out := o4\<rparr>" by (auto simp: on_out_ok)
  from enrolled_put have o3: "supervisor_put env req enrolled (lw_out w2) = (Inr (), lw_out w3)" "lw_calls w3 = lw_calls w2"
    by (auto simp: supervisor_put_simps on_out_ok split: option.splits)
  from agent have o2: "supervisor_put env req managed o1 = (Inr (), lw_out w2)"
    "lw_calls w2 = lw_calls w0 @ agent_calls req"
    by (auto simp: supervisor_put_simps start_agent_ok agent_calls_def split: option.splits)
  from w5 obtain bpf c1 c2 where bpf: "le_load env = Inr bpf"
    "configure_scope bpf (le_views env) scope = (Inr (), c1)"
    "attach_tracepoints bpf (audit_observer_plan (lr_object_path req)) = (Inr (), c2)"
    "w5 = w4\<lparr>lw_calls := lw_calls w4 @ LoadObject # c1 @ c2 @ (if managed = None then [] else [ReleaseGate])\<rparr>"
    unfolding attach_and_release_ok by blast
  have "live_set_up env req managed enrolled scope bpf (c1 @ c2) d"
    using enrolled pre agent scope bpf ring by (auto simp: live_set_up_def start_agent_ok split: option.splits)
  moreover have "w = \<lparr>lw_out = o4, lw_calls = lw_calls w0 @ agent_calls req @ LoadObject # (c1 @ c2)
      @ (if managed = None then [] else [ReleaseGate])\<rparr>"
    using bpf(4) o4(2) o3(2) o2(2) ring(4) by simp
  ultimately show ?r using o1 o2(1) o3(1) o4(1) ring(3) by blast
next
  let ?sid = "lr_session_id req"
  assume ?r
  then obtain managed enrolled scope bpf cs o1 o2 o3 o4 where up: "live_set_up env req managed enrolled scope bpf cs d"
    and b: "b = (managed \<noteq> None)"
    and o1: "write_observer_metadata (oe_clock env 0) (oe_pid env) ?sid runner_plan_default ObAyaRingBuffer
        (startup_downgrade p (oe_capabilities env)) (lr_rotation req) (lw_out w0) = (Inr (), o1)"
    and o2: "supervisor_put env req managed o1 = (Inr (), o2)"
    and o3: "supervisor_put env req enrolled o2 = (Inr (), o3)"
    and o4: "write_scope_metadata (le_start_clock env 1) (oe_pid env) ?sid scope o3 = (Inr (), o4)"
    and w: "w = \<lparr>lw_out = o4, lw_calls = lw_calls w0 @ agent_calls req @ LoadObject # cs
        @ (if managed = None then [] else [ReleaseGate])\<rparr>"
    by blast
  let ?w1 = "w0\<lparr>lw_out := o1\<rparr>" and ?w = "\<lambda>o'. \<lparr>lw_out = o', lw_calls = lw_calls w0 @ agent_calls req\<rparr>"
  have agent: "start_agent env req ?w1 = (Inr managed, ?w o2)"
    using up o2 unfolding start_agent_ok
    by (auto simp: live_set_up_def supervisor_put_simps agent_calls_def split: option.splits)
  have enrolled_put: "(case enrolled of None \<Rightarrow> (Inr (), ?w o2)
        | Some m \<Rightarrow> on_out (write_agent_supervisor_metadata (oe_clock env 1) (oe_pid env) ?sid m) (?w o2))
      = (Inr (), ?w o3)"
    using o3 by (auto simp: supervisor_put_simps on_out_ok split: option.splits)
  have attach: "attach_and_release env req managed scope (?w o4) = (Inr (), w)"
    using up w unfolding attach_and_release_ok by (auto simp: live_set_up_def)
  have scope_put: "on_out (write_scope_metadata (le_start_clock env 1) (oe_pid env) ?sid scope) (?w o3)
      = (Inr (), ?w o4)"
    using o4 by (simp add: on_out_ok)
  have first: "on_out (write_observer_metadata (oe_clock env 0) (oe_pid env) ?sid runner_plan_default ObAyaRingBuffer
        (startup_downgrade p (oe_capabilities env)) (lr_rotation req)) w0 = (Inr (), ?w1)"
    using o1 by (simp add: on_out_ok)
  have step: "and_then (Inr x, s) f = f x s" for x :: 'x and s :: live_world and f :: "'x \<Rightarrow> live_world \<Rightarrow> (string, 'y) res \<times> live_world"
    by (simp add: and_then_def)
  note up = up [unfolded live_set_up_def]
  from up have "resolve_registered_agent (le_sha env) (oe_read env) (le_decode_registration env)
      (le_looks env) (lr_registration_path req) (lr_discovery req) ?sid (lr_workspace_root req) = Inr enrolled"
    "validate_live_prerequisites (le_prerequisites env) (prerequisite_scope (oe_pid env) (lr_scope req) enrolled)
      (audit_observer_plan (lr_object_path req)) = Inr ()"
    "observed_scope managed enrolled (lr_scope req) = Inr scope" "le_ring env = Inr ()" "le_calibration env = Inr d"
    by blast+
  then show ?l
    unfolding live_start_def Let_def first step agent enrolled_put
    by (simp add: step agent enrolled_put scope_put attach b del: on_out_calls One_nat_def)
qed

lemma live_start_lines_ok:
  assumes "live_start env req p w0 = (Inr (b, d), w)"
  obtains managed enrolled scope bpf cs where
    "live_set_up env req managed enrolled scope bpf cs d" "b = (managed \<noteq> None)"
    "out_extends (lw_out w0) (live_start_lines env req p managed enrolled scope) (lw_out w)"
    "lw_calls w = lw_calls w0 @ agent_calls req @ LoadObject # cs @ (if managed = None then [] else [ReleaseGate])"
proof -
  from assms [unfolded live_start_ok] obtain managed enrolled scope bpf cs o1 o2 o3 o4 where
    up: "live_set_up env req managed enrolled scope bpf cs d" "b = (managed \<noteq> None)"
    and o1: "write_observer_metadata (oe_clock env 0) (oe_pid env) (lr_session_id req) runner_plan_default ObAyaRingBuffer
        (startup_downgrade p (oe_capabilities env)) (lr_rotation req) (lw_out w0) = (Inr (), o1)"
    and o2: "supervisor_put env req managed o1 = (Inr (), o2)"
    and o3: "supervisor_put env req enrolled o2 = (Inr (), o3)"
    and o4: "write_scope_metadata (le_start_clock env 1) (oe_pid env) (lr_session_id req) scope o3 = (Inr (), o4)"
    and w: "w = \<lparr>lw_out = o4, lw_calls = lw_calls w0 @ agent_calls req @ LoadObject # cs
        @ (if managed = None then [] else [ReleaseGate])\<rparr>"
    by blast
  have "out_extends (lw_out w0) (live_start_lines env req p managed enrolled scope) o4"
    unfolding live_start_lines_def downgrade_lines_def
    using ls.trans [OF write_observer_metadata_ok [OF o1]
        ls.trans [OF put_lines_ok [OF o2 [unfolded supervisor_put_def]]
          ls.trans [OF put_lines_ok [OF o3 [unfolded supervisor_put_def]]
            put_line_ok [OF o4 [unfolded write_scope_metadata_def]]]]] .
  with up w that show thesis by simp
qed

lemma live_start_room:
  assumes "live_set_up env req managed enrolled scope bpf cs d"
    and "room_for (lw_out w0) (log_bytes (live_start_lines env req p managed enrolled scope) + n)"
  obtains w where "live_start env req p w0 = (Inr (managed \<noteq> None, d), w)" "room_for (lw_out w) n"
    "lw_calls w = lw_calls w0 @ agent_calls req @ LoadObject # cs @ (if managed = None then [] else [ReleaseGate])"
proof -
  let ?scope = "canonical_event_json (runtime_event (le_start_clock env 1) (oe_pid env) (lr_session_id req) ''observer''
          ''observer-scope'' (live_scope_metadata scope))"
  let ?n3 = "length ?scope + 1 + n"
  let ?n2 = "log_bytes (supervisor_lines env req enrolled) + ?n3"
  let ?n1 = "log_bytes (supervisor_lines env req managed) + ?n2"
  have "room_for (lw_out w0) (log_bytes (entry_lines (oe_clock env 0) (oe_pid env) (lr_session_id req)
        (observer_entries runner_plan_default ObAyaRingBuffer (lr_rotation req)) @ downgrade_lines env req p) + ?n1)"
    using assms(2) by (simp add: live_start_lines_def ac_simps)
  from this [unfolded downgrade_lines_def] obtain o1 where
    o1: "write_observer_metadata (oe_clock env 0) (oe_pid env) (lr_session_id req) runner_plan_default ObAyaRingBuffer
        (startup_downgrade p (oe_capabilities env)) (lr_rotation req) (lw_out w0) = (Inr (), o1)"
    and r1: "room_for o1 ?n1"
    by (rule write_observer_metadata_room)
  obtain o2 where o2: "supervisor_put env req managed o1 = (Inr (), o2)" "room_for o2 ?n2"
    unfolding supervisor_put_def using r1 by (rule put_lines_room)
  obtain o3 where o3: "supervisor_put env req enrolled o2 = (Inr (), o3)" "room_for o3 ?n3"
    unfolding supervisor_put_def using o2(2) by (rule put_lines_room)
  obtain o4 where o4: "write_scope_metadata (le_start_clock env 1) (oe_pid env) (lr_session_id req) scope o3 = (Inr (), o4)"
    "room_for o4 n"
    unfolding write_scope_metadata_def using o3(2) by (rule put_line_room)
  let ?w = "\<lparr>lw_out = o4, lw_calls = lw_calls w0 @ agent_calls req @ LoadObject # cs
      @ (if managed = None then [] else [ReleaseGate])\<rparr>"
  have "live_start env req p w0 = (Inr (managed \<noteq> None, d), ?w)"
    unfolding live_start_ok using assms(1) o1 o2(1) o3(1) o4(1) by blast
  with o4(2) that show thesis by simp
qed

section \<open>The loop\<close>

text \<open>What a record of the ring buffer is, if it is one; and the records read before the loop ends.\<close>

definition live_decoded :: "live_request \<Rightarrow> batch_decoder \<Rightarrow> string \<Rightarrow> raw_kernel_event option" where
  "live_decoded req d bytes =
     (case kernel_event_record_decode bytes of
        Inl _ \<Rightarrow> None
      | Inr r \<Rightarrow>
          (case raw_event_from_record r (lr_session_id req) (to_unix_ms d (kr_timestamp_ns r)) of
             Inl _ \<Rightarrow> None | Inr raw \<Rightarrow> Some raw))"

definition counts_truncated :: "string \<Rightarrow> bool" where
  "counts_truncated bytes \<longleftrightarrow>
     (case kernel_event_record_decode bytes of
        Inl _ \<Rightarrow> False | Inr r \<Rightarrow> has_flag r (flag_resource_truncated OR flag_payload_truncated))"

fun taken_records :: "live_turn list \<Rightarrow> string list" where
  "taken_records [] = []"
| "taken_records (t # ts) = (case lt_batch t of Inr (Some batch) \<Rightarrow> batch @ taken_records ts | _ \<Rightarrow> [])"

definition numbered_from :: "string \<Rightarrow> nat \<Rightarrow> raw_kernel_event list \<Rightarrow> raw_kernel_event list" where
  "numbered_from sid n raws =
     map (\<lambda>(i, raw). rk_with_event_id (event_id sid (of_nat (i + 1))) raw) (enumerate n raws)"

definition live_raws :: "live_request \<Rightarrow> batch_decoder \<Rightarrow> nat \<Rightarrow> string list \<Rightarrow> raw_kernel_event list" where
  "live_raws req d n records = numbered_from (lr_session_id req) n (List.map_filter (live_decoded req d) records)"

definition live_event_lines ::
    "live_env \<Rightarrow> live_request \<Rightarrow> policy \<Rightarrow> raw_kernel_event list \<Rightarrow> raw_kernel_event \<Rightarrow> string list" where
  "live_event_lines env req p before raw =
     (let e = enriched_event p before raw;
          (raw', e') = redact_for_persistence (le_sha env) raw e
            \<lparr>rd_session_id = lr_session_id req, rd_workspace_root = lr_workspace_root req\<rparr>
      in raw_kernel_event_json raw' # canonical_event_json e'
         # evaluation_lines (oe_clock env (length before + 2)) e p (oe_capabilities env) (Some (ce_resource e')))"

fun live_lines ::
    "live_env \<Rightarrow> live_request \<Rightarrow> policy \<Rightarrow> raw_kernel_event list \<Rightarrow> raw_kernel_event list \<Rightarrow> string list" where
  "live_lines env req p before [] = []"
| "live_lines env req p before (raw # raws) =
     live_event_lines env req p before raw @ live_lines env req p (before @ [raw]) raws"

definition live_at ::
    "live_request \<Rightarrow> policy \<Rightarrow> batch_decoder \<Rightarrow> string list \<Rightarrow> live_state \<Rightarrow> bool" where
  "live_at req p d records st \<longleftrightarrow>
     (let raws = live_raws req d 0 records in
      lv_ids st = \<lparr>ei_session_id = lr_session_id req, ei_next = of_nat (length raws + 1)\<rparr>
      \<and> lv_context st = context_after p raws
      \<and> lv_raw st = length raws \<and> lv_canonical st = length raws
      \<and> lv_decode_failures st = of_nat (length (filter (\<lambda>r. live_decoded req d r = None) records))
      \<and> lv_truncations st = of_nat (length (filter counts_truncated records)))"

lemma live_raws_simps:
  "live_raws req d n [] = []"
  "live_decoded req d r = None \<Longrightarrow> live_raws req d n (r # rs) = live_raws req d n rs"
  "live_decoded req d r = Some raw \<Longrightarrow>
     live_raws req d n (r # rs) = rk_with_event_id (event_id (lr_session_id req) (of_nat (n + 1))) raw
       # live_raws req d (n + 1) rs"
  by (simp_all add: live_raws_def numbered_from_def List.map_filter_simps)

lemma live_raws_append:
  "live_raws req d n (rs @ rs') = live_raws req d n rs @ live_raws req d (n + length (live_raws req d n rs)) rs'"
  by (simp add: live_raws_def numbered_from_def map_filter_def enumerate_append_eq)

lemma live_lines_append:
  "live_lines env req p before (raws @ raws') =
     live_lines env req p before raws @ live_lines env req p (before @ raws) raws'"
  by (induction raws arbitrary: before) simp_all

lemma live_event_ok:
  assumes "live_event env req p raw st = (Inr u, st')"
    and "lv_context st = context_after p before" and "lv_canonical st = length before"
  obtains o' where "st' = st\<lparr>lv_out := o', lv_context := context_after p (before @ [raw]), lv_raw := lv_raw st + 1,
        lv_canonical := length before + 1\<rparr>"
    and "out_extends (lv_out st) (live_event_lines env req p before raw) o'"
proof -
  let ?e = "enriched_event p before raw"
  obtain raw' e' where red: "redact_for_persistence (le_sha env) raw ?e
      \<lparr>rd_session_id = lr_session_id req, rd_workspace_root = lr_workspace_root req\<rparr> = (raw', e')" by fastforce
  let ?w = "map_option (feedback_writer_new (observer_env.truncate env)) (lr_feedback_dir req)"
  note run = assms(1) [unfolded live_event_def assms(2) context_observe_spec Let_def prod.case red assms(3)]
  obtain o1 where p1: "put_line ''failed to write live raw event: '' (raw_kernel_event_json raw') (lv_out st) = (Inr (), o1)"
    using run by (auto split: prod.splits sum.splits)
  obtain o2 where p2: "put_line ''failed to write live canonical event: '' (canonical_event_json e') o1 = (Inr (), o2)"
    using run p1 by (auto split: prod.splits sum.splits)
  obtain o3 where p3: "append_policy_evaluation (oe_clock env (length before + 2)) ?e p (oe_capabilities env) ?w
      (Some (ce_resource e')) o2 = (Inr (), o3)"
    and st': "st' = st\<lparr>lv_out := o3, lv_context := context_after p (before @ [raw]), lv_raw := lv_raw st + 1,
        lv_canonical := length before + 1\<rparr>"
    using run p1 p2 by (auto simp: assms(3) split: prod.splits sum.splits)
  have "out_extends (lv_out st) (live_event_lines env req p before raw) o3"
    using ls.trans [OF ls.two [OF put_line_ok [OF p1] put_line_ok [OF p2]] append_policy_evaluation_ok [OF p3]] red
    by (simp add: live_event_lines_def)
  with st' that show thesis by blast
qed

lemma live_record_ok:
  assumes "live_record env req p d bytes st = (Inr u, st')" and at: "live_at req p d records st"
  defines "before \<equiv> live_raws req d 0 records"
  shows "live_at req p d (records @ [bytes]) st' \<and> lv_exit st' = lv_exit st
    \<and> out_extends (lv_out st) (live_lines env req p before (live_raws req d (length before) [bytes])) (lv_out st')"
proof (cases "kernel_event_record_decode bytes")
  case (Inl e)
  then have "live_decoded req d bytes = None" "\<not> counts_truncated bytes"
    by (simp_all add: live_decoded_def counts_truncated_def)
  with assms Inl show ?thesis
    by (auto simp: live_record_def live_at_def live_raws_append live_raws_simps ls.refl Let_def)
next
  case (Inr r)
  define st1 where "st1 = (if has_flag r (flag_resource_truncated OR flag_payload_truncated)
      then st\<lparr>lv_truncations := lv_truncations st + 1\<rparr> else st)"
  have trunc: "lv_truncations st1 = of_nat (length (filter counts_truncated (records @ [bytes])))"
    "lv_truncations st1 = lv_truncations st + of_bool (counts_truncated bytes)"
    using at Inr by (simp_all add: st1_def live_at_def Let_def counts_truncated_def)
  have st1: "lv_out st1 = lv_out st" "lv_ids st1 = lv_ids st" "lv_context st1 = lv_context st" "lv_raw st1 = lv_raw st"
    "lv_canonical st1 = lv_canonical st" "lv_decode_failures st1 = lv_decode_failures st" "lv_exit st1 = lv_exit st"
    by (simp_all add: st1_def)
  note run = assms(1) [unfolded live_record_def Inr sum.case st1_def [symmetric] Let_def]
  show ?thesis
  proof (cases "raw_event_from_record r (lr_session_id req) (to_unix_ms d (kr_timestamp_ns r))")
    case (Inl e)
    with Inr have none: "live_decoded req d bytes = None" by (simp add: live_decoded_def)
    from run Inl have "st' = st1\<lparr>lv_decode_failures := lv_decode_failures st1 + 1\<rparr>" by simp
    with none at st1 trunc show ?thesis
      by (simp add: live_at_def live_raws_append live_raws_simps ls.refl Let_def)
  next
    case (Inr parsed)
    with \<open>kernel_event_record_decode bytes = Inr r\<close> have some: "live_decoded req d bytes = Some parsed"
      by (simp add: live_decoded_def)
    define raw where "raw = rk_with_event_id (event_id (lr_session_id req) (of_nat (length before + 1))) parsed"
    define st2 where "st2 = st1\<lparr>lv_ids := \<lparr>ei_session_id = lr_session_id req, ei_next = of_nat (length before + 2)\<rparr>\<rparr>"
    have ids: "next_raw_event_id (lv_ids st1) =
        (event_id (lr_session_id req) (of_nat (length before + 1)),
         \<lparr>ei_session_id = lr_session_id req, ei_next = of_nat (length before + 2)\<rparr>)"
      using at st1 by (simp add: live_at_def next_raw_event_id_def before_def Let_def)
    from run Inr ids have event: "live_event env req p raw st2 = (Inr u, st')"
      by (simp add: raw_def st2_def)
    have at2: "lv_context st2 = context_after p before" "lv_canonical st2 = length before"
      using at st1 by (simp_all add: st2_def live_at_def before_def Let_def)
    from live_event_ok [OF event at2] obtain o' where
      st': "st' = st2\<lparr>lv_out := o', lv_context := context_after p (before @ [raw]), lv_raw := lv_raw st2 + 1,
        lv_canonical := length before + 1\<rparr>"
      and ext: "out_extends (lv_out st2) (live_event_lines env req p before raw) o'" .
    have raws: "live_raws req d (length before) [bytes] = [raw]"
      using some by (simp add: live_raws_simps raw_def)
    have all: "live_raws req d 0 (records @ [bytes]) = before @ [raw]"
      using raws by (simp add: live_raws_append before_def)
    have "live_at req p d (records @ [bytes]) st'"
      unfolding live_at_def all Let_def
      using at st1 trunc some by (simp add: st' st2_def live_at_def before_def Let_def)
    with ext raws st' st1 show ?thesis by (simp add: st2_def)
  qed
qed

lemma live_batch_ok:
  assumes "live_batch env req p d batch st = (Inr u, st')" "live_at req p d records st"
  shows "live_at req p d (records @ batch) st' \<and> lv_exit st' = lv_exit st
    \<and> out_extends (lv_out st)
        (live_lines env req p (live_raws req d 0 records)
          (live_raws req d (length (live_raws req d 0 records)) batch)) (lv_out st')"
  using assms
proof (induction batch arbitrary: st records)
  case Nil
  then show ?case by (simp add: ls.refl live_raws_simps)
next
  case (Cons bytes batch)
  from Cons.prems(1) obtain st1 where one: "live_record env req p d bytes st = (Inr (), st1)"
    and rest: "live_batch env req p d batch st1 = (Inr u, st')"
    by (auto split: prod.splits sum.splits)
  let ?before = "live_raws req d 0 records" and ?raw = "live_raws req d (length (live_raws req d 0 records)) [bytes]"
  note one = live_record_ok [OF one Cons.prems(2)]
  have "live_raws req d (length ?before) (bytes # batch) =
      ?raw @ live_raws req d (length (?before @ ?raw)) batch"
    using live_raws_append [of req d "length ?before" "[bytes]" batch] by simp
  moreover have "live_raws req d 0 (records @ [bytes]) = ?before @ ?raw" by (simp add: live_raws_append)
  ultimately show ?case
    using one Cons.IH [OF rest, of "records @ [bytes]"] ls.trans [of "lv_out st" _ "lv_out st1" _ "lv_out st'"]
    by (auto simp: live_lines_append)
qed

fun seen_exit :: "bool \<Rightarrow> live_turn list \<Rightarrow> u32 option option" where
  "seen_exit managed [] = None"
| "seen_exit managed (t # ts) =
     (case (if managed then lt_exit t else Inr None) of
        Inr (Some status) \<Rightarrow> Some status
      | _ \<Rightarrow> (case lt_batch t of Inr (Some _) \<Rightarrow> seen_exit managed ts | _ \<Rightarrow> None))"

lemma poll_exit_ok:
  assumes "poll_exit managed t st = (Inr u, st')" and "live_at req p d records st"
  shows "live_at req p d records st'" "lv_out st' = lv_out st"
    "lv_exit st' = (case lv_exit st of
       Some s \<Rightarrow> Some s
     | None \<Rightarrow> (case (if managed then lt_exit t else Inr None) of Inr (Some status) \<Rightarrow> Some status | _ \<Rightarrow> None))"
  using assms by (auto simp: poll_exit_def live_at_def Let_def split: if_splits sum.splits option.splits)

lemma live_loop_ok:
  assumes "live_loop env req p d managed turns st = Some (Inr u, st')" "live_at req p d records st"
  shows "live_at req p d (records @ taken_records turns) st'
    \<and> lv_exit st' = (case lv_exit st of Some s \<Rightarrow> Some s | None \<Rightarrow> seen_exit managed turns)
    \<and> out_extends (lv_out st)
        (live_lines env req p (live_raws req d 0 records)
          (live_raws req d (length (live_raws req d 0 records)) (taken_records turns))) (lv_out st')"
  using assms
proof (induction turns arbitrary: st records)
  case (Cons t turns)
  obtain v st1 where poll: "poll_exit managed t st = (Inr v, st1)"
    using Cons.prems(1) by (cases "poll_exit managed t st"; cases "fst (poll_exit managed t st)") auto
  note st1 = poll_exit_ok [OF poll Cons.prems(2)]
  show ?case
  proof (cases "lt_batch t")
    case (Inl e)
    with Cons.prems(1) poll show ?thesis by simp
  next
    case (Inr b)
    show ?thesis
    proof (cases b)
      case None
      with Inr Cons.prems(1) poll have "st' = st1" by simp
      with st1 None Inr show ?thesis by (auto simp: ls.refl live_raws_simps split: option.splits sum.splits)
    next
      case (Some batch)
      obtain st2 where one: "live_batch env req p d batch st1 = (Inr (), st2)"
        and rest: "live_loop env req p d managed turns st2 = Some (Inr u, st')"
        using Cons.prems(1) poll Inr Some by (auto split: prod.splits sum.splits)
      let ?before = "live_raws req d 0 records"
      let ?raws = "live_raws req d (length (live_raws req d 0 records)) batch"
      note one = live_batch_ok [OF one st1(1)]
      note ih = Cons.IH [OF rest, of "records @ batch"]
      have raws: "live_raws req d (length ?before) (batch @ taken_records turns) =
          ?raws @ live_raws req d (length (?before @ ?raws)) (taken_records turns)"
        using live_raws_append [of req d "length ?before" batch] by simp
      have before: "live_raws req d 0 (records @ batch) = ?before @ ?raws" by (simp add: live_raws_append)
      have "lv_exit st' = (case lv_exit st of Some s \<Rightarrow> Some s | None \<Rightarrow> seen_exit managed (t # turns))"
        using ih one st1(3) Inr Some by (auto split: option.splits sum.splits if_splits)
      then show ?thesis
        using one ih raws before Inr Some st1(2) ls.trans [of "lv_out st" _ "lv_out st2" _ "lv_out st'"]
        by (auto simp: live_lines_append)
    qed
  qed
qed simp

section \<open>The end\<close>

definition exit_lines :: "live_env \<Rightarrow> live_request \<Rightarrow> u32 option option \<Rightarrow> string list" where
  "exit_lines env req exit_status =
     (case exit_status of
        None \<Rightarrow> []
      | Some status \<Rightarrow>
          [exit_line (le_end_clock env 0) (oe_pid env) (lr_session_id req) (status_exit_code status)])"

definition live_finish_lines :: "live_env \<Rightarrow> live_request \<Rightarrow> observer_counters \<Rightarrow> live_state \<Rightarrow> string list" where
  "live_finish_lines env req c st =
     exit_lines env req (lv_exit st)
     @ put_diagnostics (\<lambda>i. le_end_clock env (i + 1)) (lr_session_id req) (final_diagnostics c st)"

definition live_result :: "live_state \<Rightarrow> observe_result" where
  "live_result st =
     \<lparr>or_raw_events = lv_raw st, or_canonical_events = lv_canonical st, or_backend = ObAyaRingBuffer,
      or_mode = OmAuditOnly, or_agent_exit_code = map_option status_exit_code (lv_exit st)\<rparr>"

lemma exit_put:
  "(case lv_exit st of
      None \<Rightarrow> (Inr (), lv_out st)
    | Some status \<Rightarrow>
        put_line live_metadata_error
          (exit_line (le_end_clock env 0) (oe_pid env) (lr_session_id req) (status_exit_code status)) (lv_out st))
   = put_lines live_metadata_error (exit_lines env req (lv_exit st)) (lv_out st)"
  by (auto simp: exit_lines_def split: option.split sum.split prod.split)

lemma live_finish_ok:
  assumes "live_finish env req st = (Inr r, o')"
  obtains c where "le_counters env = Inr c" "r = live_result st"
    "out_extends (lv_out st) (live_finish_lines env req c st) o'"
    "bw_disk (js_writer (oo_store o')) = bw_stream (js_writer (oo_store o'))"
proof -
  note run = assms [unfolded live_finish_def Let_def exit_put and_then_ok]
  obtain c where c: "le_counters env = Inr c" using run by (cases "le_counters env") auto
  with run obtain o1 o2 where
    o1: "put_lines live_metadata_error (exit_lines env req (lv_exit st)) (lv_out st) = (Inr (), o1)"
    and o2: "put_lines ''failed to write observer diagnostic: ''
        (put_diagnostics (\<lambda>i. le_end_clock env (i + 1)) (lr_session_id req) (final_diagnostics c st)) o1 = (Inr (), o2)"
    and o3: "put_flush ''failed to flush live observer timeline: '' o2 = (Inr (), o')" and r: "r = live_result st"
    by (auto simp: and_then_ok live_result_def)
  have "out_extends (lv_out st) (live_finish_lines env req c st) o'"
    using ls.trans [OF ls.trans [OF put_lines_ok [OF o1] put_lines_ok [OF o2]] put_flush_ok(1) [OF o3]]
    by (simp add: live_finish_lines_def)
  with c r put_flush_ok(2) [OF o3] that show thesis by blast
qed

section \<open>The whole timeline\<close>

definition live_world_new :: "live_env \<Rightarrow> jsonl_store \<Rightarrow> live_world" where
  "live_world_new env store =
     \<lparr>lw_out = \<lparr>oo_store = store, oo_files = oe_feedback_files env, oo_writes = 0\<rparr>, lw_calls = []\<rparr>"

definition live_state_new :: "live_request \<Rightarrow> observer_out \<Rightarrow> live_state" where
  "live_state_new req out =
     \<lparr>lv_out = out, lv_ids = event_ids_new (lr_session_id req), lv_context = (\<lambda>_. None), lv_raw = 0,
      lv_canonical = 0, lv_decode_failures = 0, lv_truncations = 0, lv_exit = None\<rparr>"

lemma live_at_new: "live_at req p d [] (live_state_new req out)"
  by (simp add: live_at_def live_state_new_def live_raws_simps event_ids_new_def context_after_empty)

lemma observe_live_ok:
  assumes "observe_live env req turns = (Some (Inr r), Some w)"
  obtains p store managed d w1 st o' where
    "load_policy (observer_env.truncate env) (lr_policy_path req) = Inr p"
    "jsonl_create (lr_output_path req) (lr_rotation req) (oe_room env) (oe_directory env) = Inr store"
    "live_start env req p (live_world_new env store) = (Inr (managed, d), w1)"
    "live_loop env req p d managed turns (live_state_new req (lw_out w1)) = Some (Inr (), st)"
    "live_finish env req st = (Inr r, o')" "w = w1\<lparr>lw_out := o'\<rparr>"
  using assms
  by (auto simp: observe_live_def live_world_new_def live_state_new_def Let_def
      split: sum.splits prod.splits option.splits)

definition live_run_lines ::
    "live_env \<Rightarrow> live_request \<Rightarrow> policy \<Rightarrow> agent_scope_metadata option \<Rightarrow> agent_scope_metadata option
     \<Rightarrow> live_scope \<Rightarrow> batch_decoder \<Rightarrow> string list \<Rightarrow> observer_counters \<Rightarrow> live_state \<Rightarrow> string list" where
  "live_run_lines env req p managed enrolled scope d records c st =
     live_start_lines env req p managed enrolled scope
     @ live_lines env req p [] (live_raws req d 0 records)
     @ live_finish_lines env req c st"

text \<open>C4. A live run. When a run returns without an error, what is on the disk is exactly the log of
  one list of lines, a function of the inputs and of the records read: the metadata of the
  observer, of the agent and of the scope; of every record that decodes, in order, the raw and
  the canonical event as the redactor leaves them, with the context of the process, and the
  violation and enforcement record where the event as it was seen breaks a rule; the exit status
  of the agent if it was seen; and the diagnostics. Every record read is an event or is counted
  as a failure to decode, the counters that the last line reports are those numbers, and
  nothing stays in a buffer.\<close>

theorem live_run_writes_timeline:
  assumes "observe_live env req turns = (Some (Inr r), Some w)" and "oe_directory env = (\<lambda>_. None)"
  shows "\<exists>p managed enrolled scope b cs d c st.
      load_policy (observer_env.truncate env) (lr_policy_path req) = Inr p
      \<and> live_set_up env req managed enrolled scope b cs d \<and> le_counters env = Inr c
      \<and> (let records = taken_records turns;
             lines = live_run_lines env req p managed enrolled scope d records c st;
             written = spec_run (lr_rotation req) lines
         in live_at req p d records st
            \<and> lv_exit st = seen_exit (managed \<noteq> None) turns
            \<and> r = live_result st
            \<and> or_raw_events r + length (filter (\<lambda>b. live_decoded req d b = None) records) = length records
            \<and> implements_log (oo_store (lw_out w)) written
            \<and> bw_disk (js_writer (oo_store (lw_out w))) = log_text (fst written))"
proof -
  obtain p s b d w1 st o' where
    p: "load_policy (observer_env.truncate env) (lr_policy_path req) = Inr p"
    and s: "jsonl_create (lr_output_path req) (lr_rotation req) (oe_room env) (\<lambda>_. None) = Inr s"
    and start: "live_start env req p (live_world_new env s) = (Inr (b, d), w1)"
    and loop: "live_loop env req p d b turns (live_state_new req (lw_out w1)) = Some (Inr (), st)"
    and finish: "live_finish env req st = (Inr r, o')" and w: "w = w1\<lparr>lw_out := o'\<rparr>"
    by (rule observe_live_ok [OF assms(1), unfolded assms(2)])
  from live_start_lines_ok [OF start] obtain managed enrolled scope bpf cs where
    up: "live_set_up env req managed enrolled scope bpf cs d" and b: "b = (managed \<noteq> None)"
    and e1: "out_extends (lw_out (live_world_new env s)) (live_start_lines env req p managed enrolled scope) (lw_out w1)"
    by metis
  note l = live_loop_ok [OF loop live_at_new, unfolded append_Nil live_raws_simps list.size]
  from live_finish_ok [OF finish] obtain c where c: "le_counters env = Inr c" "r = live_result st"
    and e3: "out_extends (lv_out st) (live_finish_lines env req c st) o'"
    and disk: "bw_disk (js_writer (oo_store o')) = bw_stream (js_writer (oo_store o'))" .
  let ?records = "taken_records turns"
  let ?lines = "live_run_lines env req p managed enrolled scope d ?records c st"
  have "out_extends (lw_out (live_world_new env s)) ?lines o'"
    unfolding live_run_lines_def
    using ls.trans [OF e1 ls.trans [OF _ e3]] l by (simp add: live_state_new_def)
  then have log: "implements_log (oo_store o') (spec_run (lr_rotation req) ?lines)"
    using jsonl_create_implements [OF s] by (simp add: out_extends_def live_world_new_def)
  have exit: "lv_exit st = seen_exit (managed \<noteq> None) turns" using l b by (simp add: live_state_new_def)
  have "length (List.map_filter (live_decoded req d) rs) + length (filter (\<lambda>b. live_decoded req d b = None) rs) = length rs"
    for rs by (induction rs) (auto simp: List.map_filter_simps split: option.split)
  then have "or_raw_events r + length (filter (\<lambda>b. live_decoded req d b = None) ?records) = length ?records"
    using l c(2) by (simp add: live_result_def live_at_def live_raws_def numbered_from_def Let_def)
  with p up c exit l log disk show ?thesis
    by (intro exI [of _ p] exI [of _ managed] exI [of _ enrolled] exI [of _ scope] exI [of _ bpf] exI [of _ cs]
        exI [of _ d] exI [of _ c] exI [of _ st]) (simp add: w Let_def implements_log_def)
qed

section \<open>A run with room succeeds\<close>

lemma live_event_room:
  assumes "lv_context st = context_after p before" and "lv_canonical st = length before" and "lr_feedback_dir req = None"
    and "room_for (lv_out st) (log_bytes (live_event_lines env req p before raw) + n)"
  obtains st' where "live_event env req p raw st = (Inr (), st')" "room_for (lv_out st') n"
proof -
  let ?e = "enriched_event p before raw"
  obtain raw' e' where red: "redact_for_persistence (le_sha env) raw ?e
      \<lparr>rd_session_id = lr_session_id req, rd_workspace_root = lr_workspace_root req\<rparr> = (raw', e')" by fastforce
  let ?clk = "oe_clock env (length before + 2)"
  let ?ev = "log_bytes (evaluation_lines ?clk ?e p (oe_capabilities env) (Some (ce_resource e'))) + n"
  have "room_for (lv_out st) (length (raw_kernel_event_json raw') + 1 + (length (canonical_event_json e') + 1 + ?ev))"
    using assms(4) red by (simp add: live_event_lines_def Let_def ac_simps)
  then obtain o1 where o1: "put_line ''failed to write live raw event: '' (raw_kernel_event_json raw') (lv_out st)
      = (Inr (), o1)" "room_for o1 (length (canonical_event_json e') + 1 + ?ev)" by (rule put_line_room)
  from o1(2) obtain o2 where o2: "put_line ''failed to write live canonical event: '' (canonical_event_json e') o1
      = (Inr (), o2)" "room_for o2 ?ev" by (rule put_line_room)
  from o2(2) obtain o3 where o3: "append_policy_evaluation ?clk ?e p (oe_capabilities env) None
      (Some (ce_resource e')) o2 = (Inr (), o3)" "room_for o3 n" by (rule evaluation_room)
  have "\<exists>st'. live_event env req p raw st = (Inr (), st') \<and> lv_out st' = o3"
    unfolding live_event_def assms(1) context_observe_spec Let_def prod.case red
    using o1(1) o2(1) o3(1) by (simp add: assms(2,3))
  with o3(2) that show thesis by blast
qed

lemma live_record_room:
  assumes at: "live_at req p d records st" and "lr_feedback_dir req = None"
  defines "before \<equiv> live_raws req d 0 records"
  assumes room: "room_for (lv_out st) (log_bytes (live_lines env req p before (live_raws req d (length before) [bytes])) + n)"
  obtains st' where "live_record env req p d bytes st = (Inr (), st')" "room_for (lv_out st') n"
proof (cases "live_decoded req d bytes")
  case None
  with room have "room_for (lv_out st) n" by (simp add: live_raws_simps)
  with None that show thesis by (auto simp: live_record_def live_decoded_def Let_def split: sum.splits)
next
  case (Some parsed)
  then obtain r where r: "kernel_event_record_decode bytes = Inr r"
    "raw_event_from_record r (lr_session_id req) (to_unix_ms d (kr_timestamp_ns r)) = Inr parsed"
    by (auto simp: live_decoded_def split: sum.splits)
  define raw where "raw = rk_with_event_id (event_id (lr_session_id req) (of_nat (length before + 1))) parsed"
  define st1 where "st1 = (if has_flag r (flag_resource_truncated OR flag_payload_truncated)
      then st\<lparr>lv_truncations := lv_truncations st + 1\<rparr> else st)"
  define st2 where "st2 = st1\<lparr>lv_ids := \<lparr>ei_session_id = lr_session_id req, ei_next = of_nat (length before + 2)\<rparr>\<rparr>"
  have st1: "lv_out st1 = lv_out st" "lv_ids st1 = lv_ids st" "lv_context st1 = lv_context st"
    "lv_canonical st1 = lv_canonical st" by (simp_all add: st1_def)
  have "room_for (lv_out st2) (log_bytes (live_event_lines env req p before raw) + n)"
    using room Some st1 by (simp add: live_raws_simps st2_def raw_def)
  moreover have "lv_context st2 = context_after p before" "lv_canonical st2 = length before"
    using at st1 by (simp_all add: st2_def live_at_def before_def Let_def)
  ultimately obtain st' where st': "live_event env req p raw st2 = (Inr (), st')" "room_for (lv_out st') n"
    using live_event_room [of st2 p before req env raw n] assms(2) by metis
  have "next_raw_event_id (lv_ids st1) =
      (event_id (lr_session_id req) (of_nat (length before + 1)),
       \<lparr>ei_session_id = lr_session_id req, ei_next = of_nat (length before + 2)\<rparr>)"
    using at st1 by (simp add: live_at_def next_raw_event_id_def before_def Let_def)
  with st'(1) r have "live_record env req p d bytes st = (Inr (), st')"
    unfolding live_record_def r sum.case st1_def [symmetric] Let_def by (simp add: r st2_def raw_def)
  with st'(2) that show thesis by blast
qed

lemma live_batch_room:
  assumes "live_at req p d records st" and "lr_feedback_dir req = None"
    and "room_for (lv_out st)
      (log_bytes (live_lines env req p (live_raws req d 0 records)
        (live_raws req d (length (live_raws req d 0 records)) batch)) + n)"
  obtains st' where "live_batch env req p d batch st = (Inr (), st')" "room_for (lv_out st') n"
  using assms
proof (induction batch arbitrary: st records thesis)
  case Nil
  then show ?case by (simp add: live_raws_simps)
next
  case (Cons bytes batch)
  let ?before = "live_raws req d 0 records" and ?raw = "live_raws req d (length (live_raws req d 0 records)) [bytes]"
  let ?rest = "live_raws req d (length (?before @ ?raw)) batch"
  have "live_raws req d (length ?before) (bytes # batch) = ?raw @ ?rest"
    using live_raws_append [of req d "length ?before" "[bytes]" batch] by simp
  with Cons.prems(4) have "room_for (lv_out st)
      (log_bytes (live_lines env req p ?before ?raw) + (log_bytes (live_lines env req p (?before @ ?raw) ?rest) + n))"
    by (simp add: live_lines_append ac_simps)
  from live_record_room [OF Cons.prems(2,3) this] obtain st1 where
    st1: "live_record env req p d bytes st = (Inr (), st1)"
      "room_for (lv_out st1) (log_bytes (live_lines env req p (?before @ ?raw) ?rest) + n)" .
  have before: "live_raws req d 0 (records @ [bytes]) = ?before @ ?raw" by (simp add: live_raws_append)
  from Cons.IH [where st = st1 and records = "records @ [bytes]"] live_record_ok [OF st1(1) Cons.prems(2)] st1(2) before Cons.prems(3)
  obtain st' where "live_batch env req p d batch st1 = (Inr (), st')" "room_for (lv_out st') n" by auto
  with st1(1) Cons.prems(1) show ?case by simp
qed

text \<open>Turns without an error, of which one ends the loop.\<close>

fun turns_end :: "live_turn list \<Rightarrow> bool" where
  "turns_end [] = False"
| "turns_end (t # ts) =
     (is_ok (lt_exit t)
      \<and> (case lt_batch t of Inl _ \<Rightarrow> False | Inr None \<Rightarrow> True | Inr (Some _) \<Rightarrow> turns_end ts))"

lemma live_loop_room:
  assumes "turns_end turns" and "live_at req p d records st" and "lr_feedback_dir req = None"
    and "room_for (lv_out st)
      (log_bytes (live_lines env req p (live_raws req d 0 records)
        (live_raws req d (length (live_raws req d 0 records)) (taken_records turns))) + n)"
  obtains st' where "live_loop env req p d managed turns st = Some (Inr (), st')" "room_for (lv_out st') n"
  using assms
proof (induction turns arbitrary: st records thesis)
  case (Cons t turns)
  from Cons.prems(2) obtain status where "lt_exit t = Inr status" by (auto simp: is_ok_iff)
  then obtain st1 where poll: "poll_exit managed t st = (Inr (), st1)"
    by (cases status; cases "managed \<and> lv_exit st = None") (auto simp: poll_exit_def)
  note st1 = poll_exit_ok [OF poll Cons.prems(3)]
  let ?before = "live_raws req d 0 records"
  show ?case
  proof (cases "\<exists>batch. lt_batch t = Inr (Some batch)")
    case False
    with Cons.prems(2) have t: "lt_batch t = Inr None" by (auto split: sum.splits option.splits)
    with Cons.prems(5) st1(2) have "room_for (lv_out st1) n" by (simp add: live_raws_simps)
    with t poll Cons.prems(1) show ?thesis by simp
  next
    case True
    then obtain batch where t: "lt_batch t = Inr (Some batch)" by blast
    let ?raws = "live_raws req d (length ?before) batch"
    let ?rest = "live_raws req d (length (?before @ ?raws)) (taken_records turns)"
    have "live_raws req d (length ?before) (taken_records (t # turns)) = ?raws @ ?rest"
      using live_raws_append [of req d "length ?before" batch] t by simp
    with Cons.prems(5) st1(2) have "room_for (lv_out st1)
        (log_bytes (live_lines env req p ?before ?raws) + (log_bytes (live_lines env req p (?before @ ?raws) ?rest) + n))"
      by (simp add: live_lines_append ac_simps)
    from live_batch_room [OF st1(1) Cons.prems(4) this] obtain st2 where
      st2: "live_batch env req p d batch st1 = (Inr (), st2)"
        "room_for (lv_out st2) (log_bytes (live_lines env req p (?before @ ?raws) ?rest) + n)" .
    have before: "live_raws req d 0 (records @ batch) = ?before @ ?raws" by (simp add: live_raws_append)
    have "turns_end turns" using Cons.prems(2) t by simp
    from Cons.IH [OF _ this, where st = st2 and records = "records @ batch"] live_batch_ok [OF st2(1) st1(1)] st2(2) before Cons.prems(4)
    obtain st' where "live_loop env req p d managed turns st2 = Some (Inr (), st')" "room_for (lv_out st') n" by auto
    with st2(1) t poll Cons.prems(1) show ?thesis by simp
  qed
qed simp

lemma live_finish_room:
  assumes "le_counters env = Inr c" and "room_for (lv_out st) (log_bytes (live_finish_lines env req c st))"
  obtains r o' where "live_finish env req st = (Inr r, o')"
proof -
  let ?d = "put_diagnostics (\<lambda>i. le_end_clock env (i + 1)) (lr_session_id req) (final_diagnostics c st)"
  have "room_for (lv_out st) (log_bytes (exit_lines env req (lv_exit st)) + (log_bytes ?d + 0))"
    using assms(2) by (simp add: live_finish_lines_def)
  then obtain o1 where o1: "put_lines live_metadata_error (exit_lines env req (lv_exit st)) (lv_out st) = (Inr (), o1)"
    "room_for o1 (log_bytes ?d + 0)" by (rule put_lines_room)
  from o1(2) obtain o2 where o2: "put_lines ''failed to write observer diagnostic: '' ?d o1 = (Inr (), o2)" "room_for o2 0"
    by (rule put_lines_room)
  obtain o3 where "put_flush ''failed to flush live observer timeline: '' o2 = (Inr (), o3)"
    using o2(2) bw_flush_room [of "js_writer (oo_store o2)"] by (simp add: put_flush_def jsonl_flush_def room_for_def)
  then show thesis
    using that o1(1) o2(1) assms(1) unfolding live_finish_def Let_def exit_put by (simp add: and_then_def)
qed

lemma live_run_succeeds:
  assumes "is_ok (live_request_validate (le_is_file env) req)"
    and p: "load_policy (observer_env.truncate env) (lr_policy_path req) = Inr p"
    and up: "live_set_up env req managed enrolled scope b cs d" and c: "le_counters env = Inr c"
    and turns: "turns_end turns"
    and none: "lr_rotation req = None" "lr_feedback_dir req = None" "oe_directory env = (\<lambda>_. None)"
    and room: "\<And>st. live_at req p d (taken_records turns) st \<Longrightarrow> lv_exit st = seen_exit (managed \<noteq> None) turns \<Longrightarrow>
        log_bytes (live_run_lines env req p managed enrolled scope d (taken_records turns) c st) \<le> oe_room env"
      "oe_room env < 2 ^ 64"
  shows "\<exists>r w. observe_live env req turns = (Some (Inr r), Some w)
      \<and> lw_calls w = agent_calls req @ LoadObject # cs @ (if managed = None then [] else [ReleaseGate])"
proof -
  obtain s where s: "jsonl_create (lr_output_path req) (lr_rotation req) (oe_room env) (\<lambda>_. None) = Inr s"
    using none(1) by (simp add: jsonl_create_def)
  have store: "js_rotation s = None" "js_writer s = bw_new [] (oe_room env)"
    using s none(1) by (auto simp: jsonl_create_def)
  let ?w0 = "live_world_new env s" and ?records = "taken_records turns"
  let ?lines = "live_lines env req p [] (live_raws req d 0 ?records)"
  let ?start = "live_start_lines env req p managed enrolled scope"
  \<comment> \<open>what is left for the end, once the start and the loop have written their lines\<close>
  define left where "left = oe_room env - log_bytes ?start - log_bytes ?lines"
  have fits: "log_bytes ?start + log_bytes ?lines + log_bytes (live_finish_lines env req c st) \<le> oe_room env"
    if "live_at req p d ?records st" "lv_exit st = seen_exit (managed \<noteq> None) turns" for st
    using room(1) [OF that] by (simp add: live_run_lines_def ac_simps)
  define st0 where "st0 = (live_state_new req (lw_out ?w0))
      \<lparr>lv_ids := \<lparr>ei_session_id = lr_session_id req, ei_next = of_nat (length (live_raws req d 0 ?records) + 1)\<rparr>,
       lv_context := context_after p (live_raws req d 0 ?records), lv_raw := length (live_raws req d 0 ?records),
       lv_canonical := length (live_raws req d 0 ?records),
       lv_decode_failures := of_nat (length (filter (\<lambda>r. live_decoded req d r = None) ?records)),
       lv_truncations := of_nat (length (filter counts_truncated ?records)),
       lv_exit := seen_exit (managed \<noteq> None) turns\<rparr>"
  have "log_bytes ?start + log_bytes ?lines \<le> oe_room env"
    using fits [of st0] by (simp add: st0_def live_at_def Let_def)
  then have split: "oe_room env = log_bytes ?start + (log_bytes ?lines + left)" by (simp add: left_def)
  have "room_for (lw_out ?w0) (oe_room env)"
    using store room(2) by (simp add: room_for_def live_world_new_def bw_new_def)
  then have "room_for (lw_out ?w0) (log_bytes ?start + (log_bytes ?lines + left))" using split by simp
  from live_start_room [OF up this] obtain w where
    w: "live_start env req p ?w0 = (Inr (managed \<noteq> None, d), w)" "room_for (lw_out w) (log_bytes ?lines + left)"
      "lw_calls w = agent_calls req @ LoadObject # cs @ (if managed = None then [] else [ReleaseGate])"
    by (auto simp: live_world_new_def)
  let ?st = "live_state_new req (lw_out w)"
  have "room_for (lv_out ?st) (log_bytes (live_lines env req p (live_raws req d 0 [])
      (live_raws req d (length (live_raws req d 0 [])) ?records)) + left)"
    using w(2) by (simp add: live_state_new_def live_raws_simps)
  from live_loop_room [OF turns live_at_new none(2) this] obtain st where
    st: "live_loop env req p d (managed \<noteq> None) turns ?st = Some (Inr (), st)" "room_for (lv_out st) left" .
  note l = live_loop_ok [OF st(1) live_at_new, unfolded append_Nil]
  have "log_bytes (live_finish_lines env req c st) \<le> left"
    using fits [of st] l split by (simp add: live_state_new_def)
  then have "room_for (lv_out st) (log_bytes (live_finish_lines env req c st))"
    using st(2) by (simp add: room_for_def)
  from live_finish_room [OF c this] obtain r o' where "live_finish env req st = (Inr r, o')" .
  with assms(1) p s w(1,3) st(1) show ?thesis
    unfolding observe_live_def none(3)
    by (auto simp: is_ok_iff live_world_new_def live_state_new_def)
qed

section \<open>The agent runs last\<close>

text \<open>C3. A managed agent is let go only when it is observed. Whenever the observer opens the gate
  that its agent waits at, in a run that ends in any way or does not end, that is the last thing
  it did to its surroundings, and what it did before is exactly this: it started the agent, behind
  the gate; loaded the object; set the scope to the process tree of that agent and marked every
  process of the tree as tracked; and loaded and attached every tracepoint of the plan. So no act
  of the agent goes before the observation.\<close>

theorem agent_released_last:
  assumes "observe_live env req turns = (res, Some w)" and "ReleaseGate \<in> set (lw_calls w)"
  shows "\<exists>a root pids. lr_agent_run req = Some a \<and> le_spawn env = SpPid root
      \<and> discover_process_tree_scope_pids root (le_views env) = Inr pids
      \<and> lw_calls w = SpawnAgent (gate_command a) # LoadObject # scope_calls (LsProcessTree root) pids
          @ tracepoint_calls (audit_observer_plan (lr_object_path req)) @ [ReleaseGate]"
proof -
  obtain p w0 r w1 where start: "live_start env req p w0 = (r, w1)" "lw_calls w0 = []" "lw_calls w1 = lw_calls w"
    using assms(1) by (auto simp: observe_live_def Let_def split: sum.splits prod.splits option.splits)
  with live_start_released [OF start(1,2)] assms(2) have "released_observed env req (lw_calls w)" by simp
  then obtain a root cs where a: "lr_agent_run req = Some a" "le_spawn env = SpPid root"
    and cs: "observed_calls env req (LsProcessTree root) cs" "lw_calls w = SpawnAgent (gate_command a) # cs @ [ReleaseGate]"
    by (auto simp: released_observed_def)
  obtain pids where "discover_process_tree_scope_pids root (le_views env) = Inr pids"
    using cs(1) by (auto simp: observed_calls_def split: sum.splits)
  with a cs show ?thesis by (auto simp: observed_calls_def)
qed

definition sample_live_env :: live_env where
  "sample_live_env =
     \<lparr>oe_read = (\<lambda>_. Inr (''credentials:'' @ [ch_nl] @ ''  deny_read:'' @ [ch_nl] @ ''    - /w/a'')), oe_pid = 3,
      oe_capabilities = capabilities_default, oe_clock = (\<lambda>_ _. 9), oe_room = 20000, oe_directory = (\<lambda>_. None),
      oe_feedback_files = (\<lambda>_. None), oe_temporary = (\<lambda>_. 0), oe_create_dir = (\<lambda>_. Inr ()),
      oe_faults = (\<lambda>_. (no_faults, no_faults)),
      le_is_file = (\<lambda>_. True),
      le_prerequisites =
        \<lparr>pq_linux = True, pq_btf_readable = True, pq_is_file = (\<lambda>_. True), pq_is_dir = (\<lambda>_. True),
         pq_status = Inr ''CapEff: 200000''\<rparr>,
      le_sha = (\<lambda>_. ''hash of a text''), le_decode_registration = (\<lambda>_. Inl ''none''),
      le_looks = (sample_proc, sample_proc), le_spawn = SpPid 7, le_spawned_proc = sample_proc,
      le_load = Inr \<lparr>bo_map = (\<lambda>_. MapOpen), bo_program = (\<lambda>_. ProgramFound), bo_answer = (\<lambda>_. Inr ())\<rparr>,
      le_views = (\<lambda>_. sample_proc\<lparr>pf_root := Inr [], pf_dir := (\<lambda>_. None), pf_text := (\<lambda>_. None)\<rparr>), le_ring = Inr (),
      le_calibration = Inr \<lparr>bd_monotonic_ns = 0, bd_unix_ms = 5\<rparr>,
      le_counters = Inr \<lparr>oc_reserve_failures = 0, oc_map_pressure = 0\<rparr>,
      le_start_clock = (\<lambda>_. 9), le_end_clock = (\<lambda>_. 9)\<rparr>"

definition sample_agent :: agent_run_request where
  "sample_agent = \<lparr>ag_kind = ''sh'', ag_command = [''sh'', ''-c'', ''x'']\<rparr>"

definition sample_live_request :: live_request where
  "sample_live_request =
     \<lparr>lr_object_path = ''o'', lr_output_path = ''out'', lr_policy_path = ''policy'', lr_session_id = ''s'',
      lr_feedback_dir = None, lr_scope = None, lr_agent_run = Some sample_agent, lr_registration_path = None,
      lr_discovery = None, lr_workspace_root = ''/w'', lr_rotation = None\<rparr>"

text \<open>A truncated record and a torn one are read; then the agent is seen to have ended with 2.\<close>

definition sample_live_record :: kernel_event_record where
  "sample_live_record =
     Observer_Abi.sample_record\<lparr>kr_timestamp_ns := 5, kr_action := ''open'' @ replicate 28 (CHR 0x00)\<rparr>"

definition sample_turns :: "live_turn list" where
  "sample_turns =
     [\<lparr>lt_exit = Inr None, lt_batch = Inr (Some [record_layout sample_live_record, ''torn''])\<rparr>,
      \<lparr>lt_exit = Inr (Some (Some 2)), lt_batch = Inr None\<rparr>]"

lemma sample_live_decodes: "kernel_event_record_decode (record_layout sample_live_record) = Inr sample_live_record"
  by (simp add: decode_iff record_wf_def sample_live_record_def Observer_Abi.sample_record_def)

lemma sample_live_event:
  "raw_event_from_record sample_live_record ''s'' 5 =
     Inr (raw_kernel_event_new 5 ''s'' SrcKernelTracepoint ''openat'' 42 1 1000 1000
       [CHR 0xEF, CHR 0xBF, CHR 0xBD] ''/w/a'' ''open'' None (Some ''77'') ''resource_truncated:true'')"
  by code_simp

definition sample_decoder :: batch_decoder where
  "sample_decoder = \<lparr>bd_monotonic_ns = 0, bd_unix_ms = 5\<rparr>"

definition sample_event :: raw_kernel_event where
  "sample_event =
     rk_with_event_id (event_id ''s'' 1)
       (raw_kernel_event_new 5 ''s'' SrcKernelTracepoint ''openat'' 42 1 1000 1000
          [CHR 0xEF, CHR 0xBF, CHR 0xBD] ''/w/a'' ''open'' None (Some ''77'') ''resource_truncated:true'')"

definition sample_managed :: agent_scope_metadata where
  "sample_managed =
     \<lparr>am_supervisor_mode = ''apolysis_managed_launch'', am_kind = ''sh'', am_root_pid = 7, am_executable = ''sh'',
      am_command = redacted_command sample_agent,
      am_command_fingerprint = Some (command_fingerprint (\<lambda>_. ''hash of a text'') (''sh'' @ [ch_nul] @ ''-c'' @ [ch_nul] @ ''x'')),
      am_workspace_root = ''/w'', am_start_time_ticks = None\<rparr>"

lemma sample_live_decoded:
  "live_decoded sample_live_request sample_decoder (record_layout sample_live_record) =
     Some (raw_kernel_event_new 5 ''s'' SrcKernelTracepoint ''openat'' 42 1 1000 1000
       [CHR 0xEF, CHR 0xBF, CHR 0xBD] ''/w/a'' ''open'' None (Some ''77'') ''resource_truncated:true'')"
  "live_decoded sample_live_request sample_decoder ''torn'' = None"
proof -
  have "to_unix_ms sample_decoder (kr_timestamp_ns sample_live_record) = 5" by code_simp
  then show "live_decoded sample_live_request sample_decoder (record_layout sample_live_record) =
     Some (raw_kernel_event_new 5 ''s'' SrcKernelTracepoint ''openat'' 42 1 1000 1000
       [CHR 0xEF, CHR 0xBF, CHR 0xBD] ''/w/a'' ''open'' None (Some ''77'') ''resource_truncated:true'')"
    using sample_live_event by (simp add: live_decoded_def sample_live_decodes sample_live_request_def)
  show "live_decoded sample_live_request sample_decoder ''torn'' = None"
    by (simp add: live_decoded_def kernel_event_record_decode_def abi_lens)
qed

lemma sample_taken: "taken_records sample_turns = [record_layout sample_live_record, ''torn'']"
  by (simp add: sample_turns_def)

lemma sample_live_raws:
  "live_raws sample_live_request sample_decoder 0 (taken_records sample_turns) = [sample_event]"
  using sample_live_decoded by (simp add: sample_taken live_raws_simps sample_event_def sample_live_request_def)

lemma sample_live_policy:
  "load_policy (observer_env.truncate sample_live_env) ''policy'' = Inr (policy_default\<lparr>po_deny_read := [''/w/a'']\<rparr>)"
  by code_simp

lemma sample_live_ready:
  "validate_live_prerequisites (le_prerequisites sample_live_env) (LsProcessTree 3) (audit_observer_plan ''o'') = Inr ()"
proof -
  have "List.map_filter (strip_prefix ''CapEff:'') (lines_of ''CapEff: 200000'') = ['' 200000'']"
    "trim '' 200000'' = ''200000''"
    by code_simp+
  moreover have "to_digit 16 (CHR ''0'') = Some 0" "to_digit 16 (CHR ''2'') = Some 2"
    by code_simp+
  then have "parse_hex (2 ^ 64) ''200000'' = Inr 0x200000"
    by (simp add: parse_hex_def)
  ultimately have "effective_capabilities (le_prerequisites sample_live_env) = Inr 0x200000"
    by (simp add: effective_capabilities_def sample_live_env_def parse_effective_capabilities_def)
  moreover have "has_required_bpf_capabilities 0x200000"
    by (simp add: has_required_bpf_capabilities_def has_capability_bit cap_sys_admin_def)
  moreover have "find (\<lambda>t. \<not> True) ts = None" for ts :: "tracepoint_attach list" by (induction ts) simp_all
  ultimately show ?thesis
    by (simp add: validate_live_prerequisites_def) (simp add: sample_live_env_def tracefs_root_def)
qed

lemma sample_live_set_up:
  "\<exists>b cs. live_set_up sample_live_env sample_live_request (Some sample_managed) None (LsProcessTree 7) b cs sample_decoder"
proof -
  obtain b where b: "le_load sample_live_env = Inr b" by (simp add: sample_live_env_def)
  have pids: "discover_process_tree_scope_pids 7 (le_views sample_live_env) = Inr [7]"
    by code_simp
  have call: "fst (call b err c) = Inr ()" "open_map b name = Inr ()" for err c name
    using b by (auto simp: call_def open_map_def sample_live_env_def)
  have each: "(\<And>x. fst (f x) = Inr ()) \<Longrightarrow> fst (each_call f xs) = Inr ()" for f :: "'x \<Rightarrow> (string, unit) res \<times> live_call list" and xs
    by (induction xs) (simp_all add: after_call_def)
  have "fst (configure_scope b (le_views sample_live_env) (LsProcessTree 7)) = Inr ()"
    by (simp add: configure_scope_def set_config_def after_call_def call pids track_pid_def)
  moreover have "fst (attach_tracepoints b (audit_observer_plan ''o'')) = Inr ()"
    unfolding attach_tracepoints_def
    using b by (intro each) (auto simp: attach_tracepoint_def after_call_def call_def sample_live_env_def Let_def)
  moreover have "spawn_managed_agent (le_sha sample_live_env) (le_spawn sample_live_env) (le_spawned_proc sample_live_env)
      ''/w'' sample_agent = Inr sample_managed"
    by code_simp
  moreover have "resolve_registered_agent (le_sha sample_live_env) (oe_read sample_live_env)
      (le_decode_registration sample_live_env) (le_looks sample_live_env) None None ''s'' ''/w'' = Inr None"
    by (simp add: resolve_registered_agent_def)
  moreover have "oe_pid sample_live_env = 3" "le_ring sample_live_env = Inr ()"
    "le_calibration sample_live_env = Inr sample_decoder" "am_root_pid sample_managed = 7"
    by (simp_all add: sample_live_env_def sample_decoder_def sample_managed_def)
  ultimately show ?thesis
    using b sample_live_ready
    by (auto simp: live_set_up_def sample_live_request_def prerequisite_scope_def observed_scope_def prod_eq_iff)
qed

lemma sample_start_bytes:
  "log_bytes (live_start_lines sample_live_env sample_live_request (policy_default\<lparr>po_deny_read := [''/w/a'']\<rparr>)
     (Some sample_managed) None (LsProcessTree 7)) \<le> 10000"
  by code_simp

lemma sample_event_bytes:
  "log_bytes (live_lines sample_live_env sample_live_request (policy_default\<lparr>po_deny_read := [''/w/a'']\<rparr>) []
     [sample_event]) \<le> 5000"
  by code_simp

lemma sample_finish_bytes:
  "log_bytes (exit_lines sample_live_env sample_live_request (Some (Some 2))
     @ put_diagnostics (\<lambda>i. 9) ''s''
         [(DkDecodeFailure, 1, ''userspace ring-buffer decoder''), (DkTruncation, 1, ''kernel event flags''),
          (DkSummary, 1,
           ''raw_events:1,canonical_events:1,reserve_failures:0,map_pressure:0,decode_failures:1,truncations:1'')])
   \<le> 5000"
  by code_simp

lemma sample_run_succeeds:
  "\<exists>r w cs. observe_live sample_live_env sample_live_request sample_turns = (Some (Inr r), Some w)
     \<and> lw_calls w = agent_calls sample_live_request @ LoadObject # cs @ [ReleaseGate]"
proof -
  let ?p = "policy_default\<lparr>po_deny_read := [''/w/a'']\<rparr>"
  obtain b cs where up: "live_set_up sample_live_env sample_live_request (Some sample_managed) None (LsProcessTree 7) b cs sample_decoder"
    using sample_live_set_up by blast
  have p: "load_policy (observer_env.truncate sample_live_env) (lr_policy_path sample_live_request) = Inr ?p"
    using sample_live_policy by (simp add: sample_live_request_def)
  have c: "le_counters sample_live_env = Inr \<lparr>oc_reserve_failures = 0, oc_map_pressure = 0\<rparr>"
    by (simp add: sample_live_env_def)
  have trunc: "counts_truncated (record_layout sample_live_record)" "\<not> counts_truncated ''torn''"
    by (simp_all add: counts_truncated_def sample_live_decodes)
      (simp_all add: has_flag_def sample_live_record_def Observer_Abi.sample_record_def flag_resource_truncated_def
        flag_payload_truncated_def kernel_event_record_decode_def abi_lens)
  have bytes: "log_bytes (live_run_lines sample_live_env sample_live_request ?p (Some sample_managed) None
      (LsProcessTree 7) sample_decoder (taken_records sample_turns) \<lparr>oc_reserve_failures = 0, oc_map_pressure = 0\<rparr> st)
      \<le> oe_room sample_live_env"
    if at: "live_at sample_live_request ?p sample_decoder (taken_records sample_turns) st"
      and exit: "lv_exit st = seen_exit (Some sample_managed \<noteq> None) sample_turns" for st
  proof -
    have n: "lv_raw st = 1" "lv_canonical st = 1" "lv_decode_failures st = 1" "lv_truncations st = 1"
      using at sample_live_decoded trunc by (simp_all add: live_at_def sample_live_raws Let_def) (simp_all add: sample_taken)
    have e: "lv_exit st = Some (Some 2)" using exit by (simp add: sample_turns_def)
    have digits: "dec_str 0 = ''0''" "dec_str (Suc 0) = ''1''" by code_simp+
    have d: "''raw_events:1,canonical_events:1,reserve_failures:0,map_pressure:0,decode_failures:1,truncations:1''
        = summary_detail \<lparr>oc_reserve_failures = 0, oc_map_pressure = 0\<rparr> st"
      by (simp add: summary_detail_def n digits)
    have "live_finish_lines sample_live_env sample_live_request \<lparr>oc_reserve_failures = 0, oc_map_pressure = 0\<rparr> st =
        exit_lines sample_live_env sample_live_request (Some (Some 2))
     @ put_diagnostics (\<lambda>i. 9) ''s''
         [(DkDecodeFailure, 1, ''userspace ring-buffer decoder''), (DkTruncation, 1, ''kernel event flags''),
          (DkSummary, 1, summary_detail \<lparr>oc_reserve_failures = 0, oc_map_pressure = 0\<rparr> st)]"
      by (simp add: live_finish_lines_def final_diagnostics_def n e)
        (simp add: sample_live_env_def sample_live_request_def)
    with sample_finish_bytes sample_start_bytes sample_event_bytes
    show ?thesis
      unfolding d live_run_lines_def sample_live_raws by (simp add: sample_live_env_def)
  qed
  have "is_ok (live_request_validate (le_is_file sample_live_env) sample_live_request)"
    by (simp add: live_request_validate_def scope_modes_def sample_live_env_def sample_live_request_def)
  moreover have "turns_end sample_turns" by (simp add: sample_turns_def)
  moreover have "lr_rotation sample_live_request = None" "lr_feedback_dir sample_live_request = None"
    "oe_directory sample_live_env = (\<lambda>_. None)" "oe_room sample_live_env < 2 ^ 64"
    by (simp_all add: sample_live_request_def sample_live_env_def)
  ultimately show ?thesis
    using live_run_succeeds [OF _ p up c _ _ _ _ bytes] by auto
qed

lemma live_run_writes_timeline_witness:
  "case observe_live sample_live_env sample_live_request sample_turns of
     (Some (Inr r), Some w) \<Rightarrow>
       or_raw_events r = 1 \<and> or_agent_exit_code r = Some 2
       \<and> (\<exists>lines. [] \<noteq> lines
            \<and> bw_disk (js_writer (oo_store (lw_out w))) = log_text (fst (spec_run None lines)))
   | _ \<Rightarrow> False"
proof -
  obtain r w where run: "observe_live sample_live_env sample_live_request sample_turns = (Some (Inr r), Some w)"
    using sample_run_succeeds by blast
  have "oe_directory sample_live_env = (\<lambda>_. None)" "lr_rotation sample_live_request = None"
    "le_calibration sample_live_env = Inr sample_decoder" "lr_agent_run sample_live_request = Some sample_agent"
    by (simp_all add: sample_live_env_def sample_live_request_def sample_decoder_def)
  with live_run_writes_timeline [OF run] obtain p managed enrolled scope b cs d c st where
    up: "live_set_up sample_live_env sample_live_request managed enrolled scope b cs d"
    and at: "live_at sample_live_request p d (taken_records sample_turns) st"
    and e: "lv_exit st = seen_exit (managed \<noteq> None) sample_turns" "r = live_result st"
    and disk: "bw_disk (js_writer (oo_store (lw_out w))) = log_text (fst (spec_run None
        (live_run_lines sample_live_env sample_live_request p managed enrolled scope d (taken_records sample_turns) c st)))"
    by (auto simp: Let_def)
  have "d = sample_decoder" "managed \<noteq> None"
    using up \<open>le_calibration _ = _\<close> \<open>lr_agent_run _ = _\<close> by (auto simp: live_set_up_def)
  then have "or_raw_events r = 1" "or_agent_exit_code r = Some 2"
    using at e by (auto simp: live_result_def live_at_def sample_live_raws Let_def)
      (simp add: sample_turns_def status_exit_code_def)
  moreover have "live_run_lines sample_live_env sample_live_request p managed enrolled scope d (taken_records sample_turns) c st
      \<noteq> []"
    by (simp add: live_run_lines_def live_start_lines_def)
  ultimately show ?thesis using run disk by auto
qed

lemma agent_released_last_witness:
  "case observe_live sample_live_env sample_live_request sample_turns of
     (res, Some w) \<Rightarrow>
       (\<exists>a root pids. lr_agent_run sample_live_request = Some a \<and> le_spawn sample_live_env = SpPid root
      \<and> discover_process_tree_scope_pids root (le_views sample_live_env) = Inr pids
      \<and> lw_calls w = SpawnAgent (gate_command a) # LoadObject # scope_calls (LsProcessTree root) pids
          @ tracepoint_calls (audit_observer_plan (lr_object_path sample_live_request)) @ [ReleaseGate])
   | _ \<Rightarrow> False"
proof -
  obtain r w where run: "observe_live sample_live_env sample_live_request sample_turns = (Some (Inr r), Some w)"
    and "ReleaseGate \<in> set (lw_calls w)"
    using sample_run_succeeds by auto
  from agent_released_last [OF this] run show ?thesis by simp
qed

section \<open>A cut command line is not counted\<close>

text \<open>
  The kernel side marks a command line that it cut with \<open>argv_truncated\<close> alone, and the loop
  looks at the other two marks only: neither the count of truncations nor the last line of the
  timeline tells that part of a command is missing.
\<close>

lemma cut_argv_uncounted:
  "\<not> counts_truncated (record_layout (sample_live_record\<lparr>kr_flags := flag_argv_truncated\<rparr>))"
proof -
  let ?r = "sample_live_record\<lparr>kr_flags := flag_argv_truncated\<rparr>"
  have "kernel_event_record_decode (record_layout ?r) = Inr ?r"
    by (simp add: decode_iff record_wf_def sample_live_record_def Observer_Abi.sample_record_def)
  moreover have "\<not> has_flag ?r (flag_resource_truncated OR flag_payload_truncated)"
    by (simp add: has_flag_def flag_argv_truncated_def flag_resource_truncated_def flag_payload_truncated_def)
  ultimately show ?thesis by (simp add: counts_truncated_def)
qed

end
