(* ===== verification/Runtime_Adapter.thy ===== *)
theory Runtime_Adapter
  imports Runtime_Guardrails Daemon_State
begin

text \<open>
  What the adapters of the daemon read from the container runtimes
  (\<open>crates/apolysis-daemon/src/adapter.rs\<close>, first part): JSON answers of Docker, the CRI and
  Kubernetes become snapshots, snapshots become workloads, a workload may become evidence, and a process
  or a container finds its cgroup. The values of the JSON library are a parameter.
\<close>

section \<open>Values\<close>

record 'v json_view =
  jv_get :: "'v \<Rightarrow> string \<Rightarrow> 'v option"
  jv_as_str :: "'v \<Rightarrow> string option"
  jv_as_u64 :: "'v \<Rightarrow> u64 option"
  jv_as_array :: "'v \<Rightarrow> 'v list option"
  jv_as_object :: "'v \<Rightarrow> (string \<times> 'v) list option"
  jv_is_null :: "'v \<Rightarrow> bool"

fun jv_at :: "'v json_view \<Rightarrow> 'v \<Rightarrow> string list \<Rightarrow> 'v option" where
  "jv_at V v [] = Some v"
| "jv_at V v (segment # path) = (case jv_get V v segment of None \<Rightarrow> None | Some w \<Rightarrow> jv_at V w path)"

text \<open>A trimmed text, if anything is left of it.\<close>

definition trimmed :: "string \<Rightarrow> string option" where
  "trimmed s = (if trim s = [] then None else Some (trim s))"

definition string_field :: "'v json_view \<Rightarrow> 'v \<Rightarrow> string list \<Rightarrow> string option" where
  "string_field V v path =
     (case jv_at V v path of
        None \<Rightarrow> None
      | Some w \<Rightarrow> (case jv_as_str V w of None \<Rightarrow> None | Some s \<Rightarrow> trimmed s))"

definition or_else :: "'a option \<Rightarrow> 'a option \<Rightarrow> 'a option" where
  "or_else x y = (case x of None \<Rightarrow> y | Some a \<Rightarrow> Some a)"

text \<open>A missing or null value on the way ends the search; it is no error.\<close>

fun map_at :: "'v json_view \<Rightarrow> 'v \<Rightarrow> string list \<Rightarrow> 'v option" where
  "map_at V v [] = Some v"
| "map_at V v (segment # path) =
     (case jv_get V v segment of
        None \<Rightarrow> None
      | Some w \<Rightarrow> if jv_is_null V w then None else map_at V w path)"

fun string_entries ::
    "'v json_view \<Rightarrow> string \<Rightarrow> (string \<times> 'v) list \<Rightarrow> (string, string) bmap \<Rightarrow> (string, (string, string) bmap) res" where
  "string_entries V name [] labels = Inr labels"
| "string_entries V name ((key, value) # kvs) labels =
     (case jv_as_str V value of
        None \<Rightarrow> Inl (name @ '' entry '' @ key @ '' must be a string'')
      | Some s \<Rightarrow> string_entries V name kvs (bm_insert key s labels))"

definition string_map_field ::
    "'v json_view \<Rightarrow> 'v \<Rightarrow> string list \<Rightarrow> string \<Rightarrow> (string, (string, string) bmap) res" where
  "string_map_field V v path name =
     (case map_at V v path of
        None \<Rightarrow> Inr []
      | Some w \<Rightarrow>
          (case jv_as_object V w of
             None \<Rightarrow> Inl (name @ '' must be an object when present'')
           | Some kvs \<Rightarrow> string_entries V name kvs []))"

text \<open>\<open>Option::ok_or_else\<close>; a result whose error stops, and a loop that pushes what it gets.\<close>

definition ok_or :: "'e \<Rightarrow> 'a option \<Rightarrow> ('e, 'a) res" where
  "ok_or e x = (case x of None \<Rightarrow> Inl e | Some a \<Rightarrow> Inr a)"

fun collect_ok :: "('a \<Rightarrow> ('e, 'b option) res) \<Rightarrow> 'a list \<Rightarrow> ('e, 'b list) res" where
  "collect_ok f [] = Inr []"
| "collect_ok f (x # xs) =
     (case f x of
        Inl e \<Rightarrow> Inl e
      | Inr y \<Rightarrow>
          (case collect_ok f xs of
             Inl e \<Rightarrow> Inl e
           | Inr ys \<Rightarrow> Inr ((case y of None \<Rightarrow> [] | Some z \<Rightarrow> [z]) @ ys)))"

lemma trimmed_Some: "trimmed s = Some t \<longleftrightarrow> t = trim s \<and> t \<noteq> []"
  by (auto simp: trimmed_def)

lemma ok_or_Inr [simp]: "ok_or e x = Inr a \<longleftrightarrow> x = Some a"
  by (cases x) (simp_all add: ok_or_def)

lemma ok_or_Inl [simp]: "ok_or e x = Inl e' \<longleftrightarrow> x = None \<and> e' = e"
  by (cases x) (auto simp: ok_or_def)

lemma string_field_nonempty: "string_field V v path = Some s \<Longrightarrow> trim s \<noteq> [] \<or> s \<noteq> []"
  by (auto simp: string_field_def trimmed_def split: option.splits if_splits)

lemma collect_ok_Inr:
  "collect_ok f xs = Inr ys \<longleftrightarrow>
     (\<forall>x \<in> set xs. is_ok (f x)) \<and> ys = List.map_filter (\<lambda>x. case f x of Inl _ \<Rightarrow> None | Inr y \<Rightarrow> y) xs"
proof (induction xs arbitrary: ys)
  case (Cons x xs)
  show ?case
  proof (cases "f x")
    case (Inr y)
    then show ?thesis
      using Cons.IH by (cases "collect_ok f xs") (auto simp: map_filter_simps split: option.splits)
  qed simp
qed (auto simp: map_filter_simps)

section \<open>Workloads and evidence\<close>

definition session_label :: string where "session_label = ''apolysis.session_id''"
definition session_annotation :: string where "session_annotation = ''apolysis.dev/session-id''"

fun adapter_name :: "adapter_kind \<Rightarrow> string" where
  "adapter_name AkDocker = ''docker''"
| "adapter_name AkContainerd = ''containerd''"
| "adapter_name AkK3sContainerd = ''k3s_containerd''"
| "adapter_name AkKubernetes = ''kubernetes''"

fun target_of_adapter :: "adapter_kind \<Rightarrow> guardrail_target" where
  "target_of_adapter AkDocker = GtDocker"
| "target_of_adapter AkContainerd = GtContainerd"
| "target_of_adapter AkK3sContainerd = GtContainerd"
| "target_of_adapter AkKubernetes = GtKubernetes"

definition target_from_workload :: "runtime_workload \<Rightarrow> guardrail_target" where
  "target_from_workload w =
     (let h = map_option to_ascii_lowercase (rw_runtime_handler w) in
      case h of
        None \<Rightarrow> target_of_adapter (rw_adapter w)
      | Some handler \<Rightarrow>
          if str_contains handler ''runsc'' \<or> str_contains handler ''gvisor'' then GtGvisor
          else if str_contains handler ''kata'' then GtKata
          else if str_contains handler ''firecracker'' then GtFirecracker
          else target_of_adapter (rw_adapter w))"

definition evidence_from_workload ::
    "runtime_workload \<Rightarrow> string \<Rightarrow> adapter_source \<Rightarrow> (string, adapter_evidence) res" where
  "evidence_from_workload w evidence_id source =
     (if trim evidence_id = [] then
        Inl ''RuntimeGuardrails runtime adapter evidence id must not be empty''
      else if trim (rw_session_id w) = [] then
        Inl ''RuntimeGuardrails runtime adapter evidence session id must not be empty''
      else if trim (rw_workload_id w) = [] then
        Inl ''RuntimeGuardrails runtime adapter evidence workload id must not be empty''
      else if rw_cgroup_id w = 0 then
        Inl ''RuntimeGuardrails runtime adapter evidence cgroup id must be non-zero''
      else
        Inr \<lparr>ra_evidence_id = evidence_id, ra_source = source, ra_runtime = target_from_workload w,
          ra_adapter = adapter_name (rw_adapter w), ra_session_id = rw_session_id w,
          ra_workload_id = rw_workload_id w, ra_cgroup_id = rw_cgroup_id w,
          ra_handler = rw_runtime_handler w, ra_metadata = True, ra_cgroup = True,
          ra_host_boundary = True, ra_guest_claimed = False\<rparr>)"

section \<open>Docker\<close>

record docker_snapshot =
  dk_container_id :: string
  dk_labels :: "(string, string) bmap"
  dk_cgroup_id :: u64
  dk_image :: "string option"
  dk_runtime_handler :: "string option"

text \<open>A label counts when its text is not blank.\<close>

definition marks :: "string \<Rightarrow> (string, string) bmap \<Rightarrow> bool" where
  "marks key labels = (case bm_get labels key of None \<Rightarrow> False | Some s \<Rightarrow> trim s \<noteq> [])"

definition docker_marked_id :: "'v json_view \<Rightarrow> 'v \<Rightarrow> (string, string option) res" where
  "docker_marked_id V container =
     (case Option.bind (jv_get V container ''Labels'') (jv_as_object V) of
        None \<Rightarrow> Inl ''Docker container summary Labels must be an object''
      | Some labels \<Rightarrow>
          (case Option.bind (map_of labels session_label) (jv_as_str V) of
             None \<Rightarrow> Inr None
           | Some s \<Rightarrow>
               if trim s = [] then Inr None
               else
                 (case Option.bind (Option.bind (jv_get V container ''Id'') (jv_as_str V)) trimmed of
                    None \<Rightarrow> Inl ''Docker marked container summary Id must be non-empty''
                  | Some i \<Rightarrow> Inr (Some i))))"

definition marked_container_ids_from_list :: "'v json_view \<Rightarrow> 'v \<Rightarrow> (string, string list) res" where
  "marked_container_ids_from_list V v =
     (case jv_as_array V v of
        None \<Rightarrow> Inl ''Docker Engine /containers/json response must be an array''
      | Some containers \<Rightarrow> collect_ok (docker_marked_id V) containers)"

definition docker_workload_from_snapshot :: "docker_snapshot \<Rightarrow> (string, runtime_workload option) res" where
  "docker_workload_from_snapshot s =
     (case bm_get (dk_labels s) session_label of
        None \<Rightarrow> Inr None
      | Some sid \<Rightarrow>
          if trim sid = [] then Inl (session_label @ '' must not be empty'')
          else if trim (dk_container_id s) = [] then Inl ''Docker container id must not be empty''
          else if dk_cgroup_id s = 0 then Inl ''Docker cgroup id must be non-zero''
          else
            Inr (Some \<lparr>rw_adapter = AkDocker, rw_session_id = trim sid, rw_workload_id = dk_container_id s,
              rw_cgroup_id = dk_cgroup_id s, rw_image = dk_image s, rw_runtime_handler = dk_runtime_handler s\<rparr>))"

definition docker_snapshot_from_inspect :: "'v json_view \<Rightarrow> 'v \<Rightarrow> u64 \<Rightarrow> (string, docker_snapshot) res" where
  "docker_snapshot_from_inspect V v cgroup_id =
     (if cgroup_id = 0 then Inl ''Docker cgroup id must be non-zero''
      else
        (case string_field V v [''Id''] of
           None \<Rightarrow> Inl ''Docker inspect field Id must be a non-empty string''
         | Some i \<Rightarrow>
             (case string_map_field V v [''Config'', ''Labels''] ''Docker inspect Config.Labels'' of
                Inl e \<Rightarrow> Inl e
              | Inr labels \<Rightarrow>
                  Inr \<lparr>dk_container_id = i, dk_labels = labels, dk_cgroup_id = cgroup_id,
                    dk_image = or_else (string_field V v [''Config'', ''Image'']) (string_field V v [''Image'']),
                    dk_runtime_handler = string_field V v [''HostConfig'', ''Runtime'']\<rparr>)))"

definition docker_pid_from_inspect :: "'v json_view \<Rightarrow> 'v \<Rightarrow> (string, u32) res" where
  "docker_pid_from_inspect V v =
     (case Option.bind (jv_at V v [''State'', ''Pid'']) (jv_as_u64 V) of
        None \<Rightarrow> Inl ''Docker inspect State.Pid must be a positive integer''
      | Some pid \<Rightarrow>
          if pid = 0 then Inl ''Docker container is not running; State.Pid is zero''
          else if 2 ^ 32 \<le> unat pid then Inl (''Docker inspect State.Pid exceeds u32: '' @ dec_str (unat pid))
          else Inr (ucast pid))"

section \<open>The CRI\<close>

record cri_candidate =
  cc_container_id :: string
  cc_inherited :: "(string, string) bmap"

record containerd_snapshot =
  cs_adapter :: adapter_kind
  cs_namespace :: string
  cs_container_id :: string
  cs_labels :: "(string, string) bmap"
  cs_cgroup_id :: u64
  cs_image :: "string option"
  cs_runtime_handler :: "string option"

fun cri_adapter :: "adapter_kind \<Rightarrow> bool" where
  "cri_adapter AkContainerd = True"
| "cri_adapter AkK3sContainerd = True"
| "cri_adapter _ = False"

definition cri_marked_id :: "'v json_view \<Rightarrow> 'v \<Rightarrow> (string, string option) res" where
  "cri_marked_id V container =
     (if string_field V container [''state''] \<noteq> Some ''CONTAINER_RUNNING'' then Inr None
      else
        (case string_map_field V container [''labels''] ''CRI container labels'' of
           Inl e \<Rightarrow> Inl e
         | Inr labels \<Rightarrow>
             if \<not> marks session_label labels then Inr None
             else map_sum id Some (ok_or ''marked CRI container id must be non-empty'' (string_field V container [''id'']))))"

definition cri_marked_ids_from_ps :: "'v json_view \<Rightarrow> 'v \<Rightarrow> (string, string list) res" where
  "cri_marked_ids_from_ps V v =
     (case Option.bind (jv_get V v ''containers'') (jv_as_array V) of
        None \<Rightarrow> Inl ''crictl ps JSON must contain containers array''
      | Some containers \<Rightarrow> collect_ok (cri_marked_id V) containers)"

definition cri_marked_pod :: "'v json_view \<Rightarrow> 'v \<Rightarrow> (string, (string \<times> (string, string) bmap) option) res" where
  "cri_marked_pod V pod =
     (if string_field V pod [''state''] \<noteq> Some ''SANDBOX_READY'' then Inr None
      else
        (case string_map_field V pod [''labels''] ''CRI pod sandbox labels'' of
           Inl e \<Rightarrow> Inl e
         | Inr labels \<Rightarrow>
             if \<not> marks session_label labels then Inr None
             else
               map_sum id (\<lambda>i. Some (i, labels))
                 (ok_or ''marked CRI pod sandbox id must be non-empty'' (string_field V pod [''id'']))))"

definition cri_candidate_of ::
    "'v json_view \<Rightarrow> (string, (string, string) bmap) bmap \<Rightarrow> 'v \<Rightarrow> (string, cri_candidate option) res" where
  "cri_candidate_of V pod_labels container =
     (if string_field V container [''state''] \<noteq> Some ''CONTAINER_RUNNING'' then Inr None
      else
        (case string_map_field V container [''labels''] ''CRI container labels'' of
           Inl e \<Rightarrow> Inl e
         | Inr labels \<Rightarrow>
             (case string_field V container [''id''] of
                None \<Rightarrow> Inl ''marked CRI container id must be non-empty''
              | Some i \<Rightarrow>
                  if marks session_label labels then Inr (Some \<lparr>cc_container_id = i, cc_inherited = []\<rparr>)
                  else
                    (case Option.bind (string_field V container [''podSandboxId'']) (bm_get pod_labels) of
                       None \<Rightarrow> Inr None
                     | Some ls \<Rightarrow> Inr (Some \<lparr>cc_container_id = i, cc_inherited = ls\<rparr>)))))"

definition cri_candidates_from_ps_and_pods :: "'v json_view \<Rightarrow> 'v \<Rightarrow> 'v \<Rightarrow> (string, cri_candidate list) res" where
  "cri_candidates_from_ps_and_pods V ps pods =
     (case Option.bind (jv_get V pods ''items'') (jv_as_array V) of
        None \<Rightarrow> Inl ''crictl pods JSON must contain items array''
      | Some items \<Rightarrow>
     (case collect_ok (cri_marked_pod V) items of
        Inl e \<Rightarrow> Inl e
      | Inr marked \<Rightarrow>
     (case Option.bind (jv_get V ps ''containers'') (jv_as_array V) of
        None \<Rightarrow> Inl ''crictl ps JSON must contain containers array''
      | Some containers \<Rightarrow>
          collect_ok (cri_candidate_of V (fold (\<lambda>(i, ls). bm_insert i ls) marked [])) containers)))"

definition cri_namespace :: "'v json_view \<Rightarrow> 'v \<Rightarrow> (string, string) bmap \<Rightarrow> string" where
  "cri_namespace V inspect labels =
     (case or_else (bm_get labels ''io.kubernetes.pod.namespace'')
             (string_field V inspect
                [''info'', ''runtimeSpec'', ''annotations'', ''io.kubernetes.cri.sandbox-namespace'']) of
        None \<Rightarrow> ''default''
      | Some n \<Rightarrow> n)"

definition snapshot_from_cri_inspect ::
    "'v json_view \<Rightarrow> adapter_kind \<Rightarrow> 'v \<Rightarrow> u64 \<Rightarrow> (string, containerd_snapshot) res" where
  "snapshot_from_cri_inspect V adapter inspect cgroup_id =
     (if \<not> cri_adapter adapter then Inl ''CRI inspect adapter must be containerd or k3s_containerd''
      else if cgroup_id = 0 then Inl ''CRI cgroup id must be non-zero''
      else
        (case string_field V inspect [''status'', ''id''] of
           None \<Rightarrow> Inl ''CRI inspect status.id must be a non-empty string''
         | Some i \<Rightarrow>
             (case string_map_field V inspect [''status'', ''labels''] ''CRI status.labels'' of
                Inl e \<Rightarrow> Inl e
              | Inr labels \<Rightarrow>
                  Inr \<lparr>cs_adapter = adapter, cs_namespace = cri_namespace V inspect labels,
                    cs_container_id = i, cs_labels = labels, cs_cgroup_id = cgroup_id,
                    cs_image =
                      or_else (string_field V inspect [''status'', ''image'', ''userSpecifiedImage''])
                        (or_else (string_field V inspect [''status'', ''image'', ''image''])
                           (string_field V inspect [''status'', ''imageRef''])),
                    cs_runtime_handler =
                      or_else (string_field V inspect [''info'', ''runtimeType''])
                        (string_field V inspect [''status'', ''image'', ''runtimeHandler''])\<rparr>)))"

definition snapshot_from_metadata ::
    "'v json_view \<Rightarrow> adapter_kind \<Rightarrow> 'v \<Rightarrow> u64 \<Rightarrow> (string, containerd_snapshot) res" where
  "snapshot_from_metadata V adapter metadata cgroup_id =
     (if \<not> cri_adapter adapter then Inl ''containerd metadata adapter must be containerd or k3s_containerd''
      else if cgroup_id = 0 then Inl ''containerd cgroup id must be non-zero''
      else
        (case string_field V metadata [''namespace''] of
           None \<Rightarrow> Inl ''containerd namespace must be a non-empty string''
         | Some ns \<Rightarrow>
        (case string_field V metadata [''id''] of
           None \<Rightarrow> Inl ''containerd task id must be a non-empty string''
         | Some i \<Rightarrow>
             (case string_map_field V metadata [''labels''] ''containerd labels'' of
                Inl e \<Rightarrow> Inl e
              | Inr labels \<Rightarrow>
                  Inr \<lparr>cs_adapter = adapter, cs_namespace = ns, cs_container_id = i, cs_labels = labels,
                    cs_cgroup_id = cgroup_id, cs_image = string_field V metadata [''image''],
                    cs_runtime_handler =
                      or_else (string_field V metadata [''runtime'', ''name''])
                        (string_field V metadata [''runtime'', ''runtime_type''])\<rparr>))))"

definition containerd_workload_from_snapshot :: "containerd_snapshot \<Rightarrow> (string, runtime_workload option) res" where
  "containerd_workload_from_snapshot s =
     (if \<not> cri_adapter (cs_adapter s) then Inl ''containerd snapshot adapter must be containerd or k3s_containerd''
      else
        (case bm_get (cs_labels s) session_label of
           None \<Rightarrow> Inr None
         | Some sid \<Rightarrow>
             if trim sid = [] then Inl (session_label @ '' must not be empty'')
             else if trim (cs_namespace s) = [] then Inl ''containerd namespace must not be empty''
             else if trim (cs_container_id s) = [] then Inl ''containerd container id must not be empty''
             else if cs_cgroup_id s = 0 then Inl ''containerd cgroup id must be non-zero''
             else
               Inr (Some \<lparr>rw_adapter = cs_adapter s, rw_session_id = trim sid,
                 rw_workload_id = trim (cs_namespace s) @ ''/'' @ trim (cs_container_id s),
                 rw_cgroup_id = cs_cgroup_id s, rw_image = cs_image s,
                 rw_runtime_handler = cs_runtime_handler s\<rparr>)))"

definition cri_pid_from_inspect :: "'v json_view \<Rightarrow> 'v \<Rightarrow> (string, u32) res" where
  "cri_pid_from_inspect V v =
     (case Option.bind (jv_at V v [''info'', ''pid'']) (jv_as_u64 V) of
        None \<Rightarrow> Inl ''CRI inspect info.pid must be a positive integer''
      | Some pid \<Rightarrow>
          if pid = 0 then Inl ''CRI container is not running; info.pid is zero''
          else if 2 ^ 32 \<le> unat pid then Inl (''CRI inspect info.pid exceeds u32: '' @ dec_str (unat pid))
          else Inr (ucast pid))"

section \<open>Kubernetes\<close>

record pod_snapshot =
  ps_namespace :: string
  ps_pod_name :: string
  ps_pod_uid :: "string option"
  ps_annotations :: "(string, string) bmap"
  ps_cgroup_id :: u64
  ps_runtime_class :: "string option"

definition workload_from_pod_snapshot :: "pod_snapshot \<Rightarrow> (string, runtime_workload option) res" where
  "workload_from_pod_snapshot s =
     (case bm_get (ps_annotations s) session_annotation of
        None \<Rightarrow> Inr None
      | Some sid \<Rightarrow>
          if trim sid = [] then Inl (session_annotation @ '' must not be empty'')
          else if trim (ps_namespace s) = [] then Inl ''Kubernetes namespace must not be empty''
          else if trim (ps_pod_name s) = [] then Inl ''Kubernetes pod name must not be empty''
          else if ps_cgroup_id s = 0 then Inl ''Kubernetes cgroup id must be non-zero''
          else
            Inr (Some \<lparr>rw_adapter = AkKubernetes, rw_session_id = trim sid,
              rw_workload_id =
                (case Option.bind (ps_pod_uid s) trimmed of
                   Some uid \<Rightarrow> uid
                 | None \<Rightarrow> trim (ps_namespace s) @ ''/'' @ trim (ps_pod_name s)),
              rw_cgroup_id = ps_cgroup_id s, rw_image = None, rw_runtime_handler = ps_runtime_class s\<rparr>))"

abbreviation pod_annotations :: "'v json_view \<Rightarrow> 'v \<Rightarrow> (string, (string, string) bmap) res" where
  "pod_annotations V pod \<equiv>
     string_map_field V pod [''metadata'', ''annotations''] ''Kubernetes Pod metadata.annotations''"

definition pod_snapshot_from_api :: "'v json_view \<Rightarrow> 'v \<Rightarrow> u64 \<Rightarrow> (string, pod_snapshot) res" where
  "pod_snapshot_from_api V pod cgroup_id =
     (if cgroup_id = 0 then Inl ''Kubernetes cgroup id must be non-zero''
      else
        (case string_field V pod [''metadata'', ''namespace''] of
           None \<Rightarrow> Inl ''Kubernetes Pod metadata.namespace must be a non-empty string''
         | Some ns \<Rightarrow>
        (case string_field V pod [''metadata'', ''name''] of
           None \<Rightarrow> Inl ''Kubernetes Pod metadata.name must be a non-empty string''
         | Some name \<Rightarrow>
             (case pod_annotations V pod of
                Inl e \<Rightarrow> Inl e
              | Inr annotations \<Rightarrow>
                  Inr \<lparr>ps_namespace = ns, ps_pod_name = name,
                    ps_pod_uid = string_field V pod [''metadata'', ''uid''], ps_annotations = annotations,
                    ps_cgroup_id = cgroup_id,
                    ps_runtime_class = string_field V pod [''spec'', ''runtimeClassName'']\<rparr>))))"

definition container_id_of_status :: "'v json_view \<Rightarrow> 'v \<Rightarrow> string option" where
  "container_id_of_status V status =
     (case Option.bind (jv_get V status ''containerID'') (jv_as_str V) of
        None \<Rightarrow> None
      | Some s \<Rightarrow>
          Option.bind
            (or_else (strip_prefix ''containerd://'' (trim s))
              (or_else (strip_prefix ''cri-containerd://'' (trim s))
                (or_else (strip_prefix ''docker://'' (trim s)) (Some (trim s)))))
            trimmed)"

definition pod_container_ids :: "'v json_view \<Rightarrow> 'v \<Rightarrow> string list" where
  "pod_container_ids V pod =
     (case Option.bind (jv_at V pod [''status'', ''containerStatuses'']) (jv_as_array V) of
        None \<Rightarrow> []
      | Some statuses \<Rightarrow> List.map_filter (container_id_of_status V) statuses)"

text \<open>A pod that is marked and running, with the cgroup of the first of its containers that has one.\<close>

definition pod_marked_running :: "'v json_view \<Rightarrow> 'v \<Rightarrow> (string, bool) res" where
  "pod_marked_running V pod =
     map_sum id
       (\<lambda>annotations. marks session_annotation annotations
          \<and> string_field V pod [''status'', ''phase''] = Some ''Running'')
       (pod_annotations V pod)"

definition marked_pod_snapshot ::
    "'v json_view \<Rightarrow> (string, u64) bmap \<Rightarrow> 'v \<Rightarrow> (string, pod_snapshot option) res" where
  "marked_pod_snapshot V cgroups pod =
     (case pod_marked_running V pod of
        Inl e \<Rightarrow> Inl e
      | Inr False \<Rightarrow> Inr None
      | Inr True \<Rightarrow>
          (case List.map_filter (bm_get cgroups) (pod_container_ids V pod) of
             [] \<Rightarrow>
               Inl (''Kubernetes marked Pod ''
                 @ (case string_field V pod [''metadata'', ''name''] of None \<Rightarrow> ''<unknown>'' | Some n \<Rightarrow> n)
                 @ '' has no known running container cgroup'')
           | cgroup_id # _ \<Rightarrow> map_sum id Some (pod_snapshot_from_api V pod cgroup_id)))"

definition pods_of_list :: "'v json_view \<Rightarrow> 'v \<Rightarrow> (string, 'v list) res" where
  "pods_of_list V pod_list =
     ok_or ''Kubernetes PodList must contain items array''
       (Option.bind (jv_get V pod_list ''items'') (jv_as_array V))"

definition marked_pod_snapshots ::
    "'v json_view \<Rightarrow> 'v \<Rightarrow> (string, u64) bmap \<Rightarrow> (string, pod_snapshot list) res" where
  "marked_pod_snapshots V pod_list cgroups =
     (case pods_of_list V pod_list of
        Inl e \<Rightarrow> Inl e
      | Inr pods \<Rightarrow> collect_ok (marked_pod_snapshot V cgroups) pods)"

definition marked_pod_ids :: "'v json_view \<Rightarrow> 'v \<Rightarrow> (string, string list option) res" where
  "marked_pod_ids V pod =
     map_sum id (\<lambda>on. if on then Some (pod_container_ids V pod) else None) (pod_marked_running V pod)"

definition marked_running_container_ids :: "'v json_view \<Rightarrow> 'v \<Rightarrow> (string, string list) res" where
  "marked_running_container_ids V pod_list =
     (case pods_of_list V pod_list of
        Inl e \<Rightarrow> Inl e
      | Inr pods \<Rightarrow> map_sum id (\<lambda>ids. fold bs_insert (concat ids) []) (collect_ok (marked_pod_ids V) pods))"

section \<open>Cgroups\<close>

text \<open>A \<open>PathBuf\<close> that is built from single names is the list of them; \<open>stat\<close> gives the inode of a path.\<close>

definition push_component :: "path_component \<Rightarrow> string list \<Rightarrow> string list" where
  "push_component c names =
     (case c of NormalDir name \<Rightarrow> names @ [name] | ParentDir \<Rightarrow> butlast names | CurDir \<Rightarrow> names | RootDir \<Rightarrow> names)"

definition normalized_relative_path :: "string \<Rightarrow> string list" where
  "normalized_relative_path relative = fold push_component (path_components relative) []"

fun slice_names :: "string \<Rightarrow> string list \<Rightarrow> string \<Rightarrow> string list \<Rightarrow> (string, string list) res" where
  "slice_names unit_name [] current names = Inr names"
| "slice_names unit_name (part # parts) current names =
     (if part = [] then Inl (''systemd slice cgroup has an empty component: '' @ unit_name)
      else
        (let current' = (if current = [] then part else current @ ''-'' @ part)
         in slice_names unit_name parts current' (names @ [current' @ ''.slice''])))"

definition systemd_slice_path :: "string \<Rightarrow> (string, string list) res" where
  "systemd_slice_path unit_name =
     (case strip_suffix ''.slice'' unit_name of
        None \<Rightarrow> Inl (''systemd slice cgroup must end with .slice: '' @ unit_name)
      | Some name \<Rightarrow>
          if name = [] then Inl ''systemd slice cgroup name must not be empty''
          else slice_names unit_name (split_on (CHR ''-'') name) [] [])"

definition relative_cgroup_path :: "string \<Rightarrow> (string, string list) res" where
  "relative_cgroup_path text =
     (let cgroups_path = trim text in
      if cgroups_path = [] then Inl ''CRI runtimeSpec linux.cgroupsPath must not be empty''
      else if CHR ''/'' \<in> set cgroups_path then Inr (normalized_relative_path cgroups_path)
      else
        (case split_on (CHR '':'') cgroups_path of
           [unit_name, prefix_part, name_part] \<Rightarrow>
             if suffix ''.slice'' unit_name then
               (case systemd_slice_path unit_name of
                  Inl e \<Rightarrow> Inl e
                | Inr names \<Rightarrow>
                    if trim prefix_part = [] \<or> trim name_part = [] then
                      Inl (''CRI systemd cgroupsPath must include scope prefix and name: '' @ cgroups_path)
                    else Inr (names @ [trim prefix_part @ ''-'' @ trim name_part @ ''.scope'']))
             else Inr (normalized_relative_path cgroups_path)
         | _ \<Rightarrow> Inr (normalized_relative_path cgroups_path)))"

definition below :: "string \<Rightarrow> string list \<Rightarrow> string" where
  "below root names = path_join root (join_with ''/'' names)"

definition cgroup_id_from_proc_cgroup ::
    "(string \<Rightarrow> (string, u64) res) \<Rightarrow> string \<Rightarrow> string \<Rightarrow> (string, u64) res" where
  "cgroup_id_from_proc_cgroup stat proc_cgroup root =
     (case List.map_filter (strip_prefix ''0::'') (lines_of proc_cgroup) of
        [] \<Rightarrow> Inl ''process cgroup data does not contain a cgroup v2 entry''
      | line # _ \<Rightarrow>
          (let path = below root (normalized_relative_path (trim line))
           in map_sum (\<lambda>e. ''failed to stat cgroup path '' @ path @ '': '' @ e) id (stat path)))"

definition cgroup_id_from_cgroups_path ::
    "'v json_view \<Rightarrow> (string \<Rightarrow> (string, u64) res) \<Rightarrow> 'v \<Rightarrow> string \<Rightarrow> (string, u64 option) res" where
  "cgroup_id_from_cgroups_path V stat inspect root =
     (case string_field V inspect [''info'', ''runtimeSpec'', ''linux'', ''cgroupsPath''] of
        None \<Rightarrow> Inr None
      | Some text \<Rightarrow>
          (case relative_cgroup_path text of
             Inl e \<Rightarrow> Inl e
           | Inr names \<Rightarrow>
               (let path = below root names
                in map_sum (\<lambda>e. ''failed to stat CRI cgroupsPath '' @ path @ '': '' @ e) Some (stat path))))"

definition cgroup_id_from_pid ::
    "(string \<Rightarrow> (string, u64) res) \<Rightarrow> (string \<Rightarrow> (string, string) res) \<Rightarrow> u32 \<Rightarrow> string \<Rightarrow> string
     \<Rightarrow> (string, u64) res" where
  "cgroup_id_from_pid stat read_file pid proc_root cgroup_root =
     (let path = path_join (path_join proc_root (dec_str (unat pid))) ''cgroup'' in
      case read_file path of
        Inl e \<Rightarrow> Inl (''failed to read process cgroup file '' @ path @ '': '' @ e)
      | Inr text \<Rightarrow> cgroup_id_from_proc_cgroup stat text cgroup_root)"

section \<open>A cgroup is looked up below the root only\<close>

definition dir_name :: "string \<Rightarrow> bool" where
  "dir_name s \<longleftrightarrow> s \<noteq> [] \<and> CHR ''/'' \<notin> set s \<and> s \<noteq> ''.'' \<and> s \<noteq> ''..''"

lemma plain_component: "dir_name s \<Longrightarrow> piece_component s = Some (NormalDir s)"
  by (simp add: dir_name_def piece_component_def)

lemma normal_component: "NormalDir s \<in> set (path_components p) \<Longrightarrow> dir_name s"
proof -
  assume "NormalDir s \<in> set (path_components p)"
  then have "s \<in> set (split_on (CHR ''/'') p)" "s \<noteq> []" "s \<noteq> ''.''" "s \<noteq> ''..''"
    by (auto simp: path_components_def Let_def List.map_filter_def piece_component_def split: if_splits)
  then show ?thesis using split_on_pieces [of s "CHR ''/''" p] by (simp add: dir_name_def)
qed

lemma push_component_plain:
  assumes "list_all dir_name names" and "\<And>s. c = NormalDir s \<Longrightarrow> dir_name s"
  shows "list_all dir_name (push_component c names)"
  using assms by (auto simp: push_component_def list_all_iff dest: in_set_butlastD split: path_component.splits)

lemma normalized_plain: "list_all dir_name (normalized_relative_path p)"
proof -
  have "list_all dir_name (fold push_component cs names)"
    if "list_all dir_name names" "\<And>s. NormalDir s \<in> set cs \<Longrightarrow> dir_name s" for cs names
    using that
  proof (induction cs arbitrary: names)
    case (Cons c cs)
    have "list_all dir_name (push_component c names)"
      using Cons.prems by (intro push_component_plain) auto
    with Cons show ?case by simp
  qed simp
  from this [of "[]" "path_components p"] show ?thesis
    by (simp add: normalized_relative_path_def normal_component)
qed

lemma plain_suffix: "CHR ''/'' \<notin> set a \<Longrightarrow> dir_name (a @ ''.slice'')" "CHR ''/'' \<notin> set a \<Longrightarrow> dir_name (a @ ''.scope'')"
  by (auto simp: dir_name_def append_eq_Cons_conv)

lemma slice_names_plain:
  assumes "slice_names unit_name parts current names = Inr out" "list_all dir_name names"
    "CHR ''/'' \<notin> set current" "\<forall>p \<in> set parts. CHR ''/'' \<notin> set p"
  shows "list_all dir_name out"
  using assms
  by (induction unit_name parts current names rule: slice_names.induct)
    (auto simp: Let_def plain_suffix split: if_splits)

lemma split_on_sets: "p \<in> set (split_on c s) \<Longrightarrow> set p \<subseteq> set s"
  by (induction s arbitrary: p) (force split: list.splits if_splits)+

lemma map_filter_append: "List.map_filter f (xs @ ys) = List.map_filter f xs @ List.map_filter f ys"
  by (simp add: List.map_filter_def)

lemma split_on_join: "split_on c (a @ c # b) = split_on c a @ split_on c b"
proof (induction a)
  case (Cons x a)
  obtain p ps where sp: "split_on c a = p # ps" by (cases "split_on c a") auto
  with Cons show ?case by simp
qed simp

lemma relative_cgroup_path_plain:
  assumes "relative_cgroup_path text = Inr names"
  shows "list_all dir_name names"
proof (cases "CHR ''/'' \<in> set (trim text)")
  case True
  with assms show ?thesis by (auto simp: relative_cgroup_path_def Let_def normalized_plain split: if_splits)
next
  case False
  let ?ps = "split_on (CHR '':'') (trim text)"
  show ?thesis
  proof (cases "names = normalized_relative_path (trim text)")
    case plain: False
    then obtain unit_name a b out where ps: "?ps = [unit_name, a, b]" and sl: "systemd_slice_path unit_name = Inr out"
      and names: "names = out @ [trim a @ ''-'' @ trim b @ ''.scope'']"
      using assms False
      by (auto simp: relative_cgroup_path_def Let_def split: if_splits list.splits sum.splits)
    have clean: "CHR ''/'' \<notin> set q" if "q \<in> set ?ps" for q
      using that split_on_sets False by blast
    then have abs: "CHR ''/'' \<notin> set unit_name" "CHR ''/'' \<notin> set (trim a)" "CHR ''/'' \<notin> set (trim b)"
      using ps set_trim by (auto simp: subset_iff)
    have "list_all dir_name out"
      using sl abs(1) split_on_sets
      by (fastforce simp: systemd_slice_path_def strip_suffix_Some split: option.splits if_splits
          intro: slice_names_plain)
    moreover have "dir_name ((trim a @ ''-'' @ trim b) @ ''.scope'')"
      using abs by (intro plain_suffix) simp
    ultimately show ?thesis using names by simp
  qed (simp add: normalized_plain)
qed

lemma components_below:
  assumes "list_all dir_name names"
  shows "path_components (below root names) = path_components root @ map NormalDir names"
proof -
  let ?rel = "join_with ''/'' names"
  have pieces: "split_on (CHR ''/'') ?rel = (if names = [] then [[]] else names)"
    using assms
  proof (induction names)
    case (Cons n ns)
    then show ?case by (cases ns) (auto simp: dir_name_def split_on_none)
  qed simp
  have filtered: "List.map_filter piece_component (split_on (CHR ''/'') ?rel) = map NormalDir names"
  proof -
    have "List.map_filter piece_component ns = map NormalDir ns" if "list_all dir_name ns" for ns
      using that by (induction ns) (simp_all add: map_filter_simps plain_component)
    then show ?thesis using assms pieces by (simp add: map_filter_simps piece_component_def)
  qed
  have relative: "\<not> prefix ''/'' ?rel" "hd (split_on (CHR ''/'') ?rel) \<noteq> ''.''"
    using assms pieces by (cases names; auto simp: dir_name_def prefix_def Cons_eq_append_conv)+
  have slash: "path_components (r @ ''/'' @ q) =
      (if prefix ''/'' (r @ ''/'') then [RootDir] else if hd (split_on (CHR ''/'') r) = ''.'' then [CurDir] else [])
      @ List.map_filter piece_component (split_on (CHR ''/'') r)
      @ List.map_filter piece_component (split_on (CHR ''/'') q)" for r q
  proof -
    have "prefix ''/'' (r @ ''/'' @ q) = prefix ''/'' (r @ ''/'')" by (cases r) simp_all
    moreover have "split_on (CHR ''/'') (r @ ''/'' @ q) = split_on (CHR ''/'') r @ split_on (CHR ''/'') q"
      using split_on_join [of "CHR ''/''" r q] by simp
    ultimately show ?thesis by (simp add: path_components_def Let_def map_filter_append)
  qed
  have none: "List.map_filter piece_component (split_on (CHR ''/'') []) = []"
    by (simp add: map_filter_simps piece_component_def)
  show ?thesis
  proof (cases "root = [] \<or> \<not> suffix ''/'' root")
    case True
    show ?thesis
    proof (cases "root = []")
      case True
      then show ?thesis using relative filtered
        by (simp add: below_def path_join_def path_components_def Let_def map_filter_simps piece_component_def)
    next
      case False
      with True relative have "below root names = root @ ''/'' @ ?rel" by (simp add: below_def path_join_def)
      moreover have "prefix ''/'' (root @ ''/'') = prefix ''/'' root" using False by (cases root) auto
      ultimately show ?thesis using slash [of root ?rel] filtered
        by (simp add: path_components_def [of root] Let_def)
    qed
  next
    case False
    then obtain r where r: "root = r @ ''/''" by (auto simp: suffix_def)
    with relative have "below root names = r @ ''/'' @ ?rel" by (simp add: below_def path_join_def suffix_def)
    then show ?thesis using slash [of r ?rel] slash [of r "[]"] filtered none r by simp
  qed
qed

text \<open>C39. A container cannot make the daemon look outside the cgroup tree. Whatever the file of a process
  or the answer of the runtime says, with any number of parents and links in its text, the result of both
  lookups depends on nothing but the inodes of paths that are the root followed by plain names.\<close>

theorem cgroup_lookup_stays_below:
  assumes "\<And>p names. path_components p = path_components root @ map NormalDir names \<Longrightarrow> list_all dir_name names
      \<Longrightarrow> stat p = stat' p"
  shows "cgroup_id_from_proc_cgroup stat text root = cgroup_id_from_proc_cgroup stat' text root
    \<and> cgroup_id_from_cgroups_path V stat inspect root = cgroup_id_from_cgroups_path V stat' inspect root"
proof
  have same: "stat (below root names) = stat' (below root names)" if "list_all dir_name names" for names
    using assms [OF components_below] that by blast
  show "cgroup_id_from_proc_cgroup stat text root = cgroup_id_from_proc_cgroup stat' text root"
    by (simp add: cgroup_id_from_proc_cgroup_def same normalized_plain split: list.split)
  show "cgroup_id_from_cgroups_path V stat inspect root = cgroup_id_from_cgroups_path V stat' inspect root"
    by (auto simp: cgroup_id_from_cgroups_path_def same dest: relative_cgroup_path_plain
        split: option.split sum.split)
qed

lemma cgroup_lookup_stays_below_witness:
  "cgroup_id_from_proc_cgroup (\<lambda>p. Inr 7) (''0::/../../etc/x'' @ [ch_nl]) ''/sys/fs/cgroup''
   = cgroup_id_from_proc_cgroup (\<lambda>p. if path_starts_with p ''/sys/fs/cgroup'' then Inr 7 else Inr 9)
       (''0::/../../etc/x'' @ [ch_nl]) ''/sys/fs/cgroup''"
  by (rule cgroup_lookup_stays_below [THEN conjunct1]) (simp add: path_starts_with_def)

section \<open>Workloads keep to their label\<close>

lemma docker_workload_label:
  assumes "docker_workload_from_snapshot s = Inr (Some w)"
  shows "map_option trim (bm_get (dk_labels s) session_label) = Some (rw_session_id w)"
    and "rw_session_id w \<noteq> [] \<and> rw_cgroup_id w = dk_cgroup_id s \<and> rw_cgroup_id w \<noteq> 0 \<and> rw_adapter w = AkDocker"
  using assms by (auto simp: docker_workload_from_snapshot_def split: option.splits if_splits)

lemma containerd_workload_label:
  assumes "containerd_workload_from_snapshot s = Inr (Some w)"
  shows "map_option trim (bm_get (cs_labels s) session_label) = Some (rw_session_id w)"
    and "rw_session_id w \<noteq> [] \<and> rw_cgroup_id w = cs_cgroup_id s \<and> rw_cgroup_id w \<noteq> 0 \<and> rw_adapter w = cs_adapter s"
  using assms by (auto simp: containerd_workload_from_snapshot_def split: option.splits if_splits)

lemma pod_workload_label:
  assumes "workload_from_pod_snapshot s = Inr (Some w)"
  shows "map_option trim (bm_get (ps_annotations s) session_annotation) = Some (rw_session_id w)"
    and "rw_session_id w \<noteq> [] \<and> rw_cgroup_id w = ps_cgroup_id s \<and> rw_cgroup_id w \<noteq> 0 \<and> rw_adapter w = AkKubernetes"
  using assms by (auto simp: workload_from_pod_snapshot_def split: option.splits if_splits)

text \<open>Evidence that is made from a workload passes the gate on evidence when it was seen on a live host.\<close>

lemma workload_evidence_passes:
  assumes "evidence_from_workload w i source = Inr r"
  shows "adapter_failures r = [] \<longleftrightarrow> source = AsLiveHost"
proof -
  have r: "ra_source r = source" "ra_evidence_id r = i" "ra_adapter r = adapter_name (rw_adapter w)"
    "ra_session_id r = rw_session_id w" "ra_workload_id r = rw_workload_id w" "ra_cgroup_id r = rw_cgroup_id w"
    "ra_metadata r" "ra_cgroup r" "ra_host_boundary r" "\<not> ra_guest_claimed r"
    and ok: "nonblank i" "nonblank (rw_session_id w)" "nonblank (rw_workload_id w)" "rw_cgroup_id w \<noteq> 0"
    using assms by (auto simp: evidence_from_workload_def nonblank_def split: if_splits)
  have "nonblank (adapter_name AkDocker)" "nonblank (adapter_name AkContainerd)"
    "nonblank (adapter_name AkK3sContainerd)" "nonblank (adapter_name AkKubernetes)" by code_simp+
  then have "nonblank (adapter_name a)" for a by (cases a) simp_all
  with r ok show ?thesis by (simp add: adapter_failures_def fail_if_def Let_def)
qed

text \<open>A pod whose containers are not known yet stops the whole list: no other pod is handed over.\<close>

lemma unknown_pod_stops_list:
  assumes "pod_marked_running V pod = Inr True" "\<forall>i \<in> set (pod_container_ids V pod). bm_get cgroups i = None"
    and "pods_of_list V pod_list = Inr pods" "pod \<in> set pods"
  shows "\<not> is_ok (marked_pod_snapshots V pod_list cgroups)"
proof -
  have "List.map_filter (bm_get cgroups) (pod_container_ids V pod) = []"
    using assms(2) by (auto simp: List.map_filter_def filter_empty_conv)
  then have "\<not> is_ok (marked_pod_snapshot V cgroups pod)" using assms(1) by (simp add: marked_pod_snapshot_def)
  with assms(3,4) show ?thesis
    by (auto simp: marked_pod_snapshots_def is_ok_iff [of "collect_ok _ _"] collect_ok_Inr)
qed

end
