(* ===== verification/Adapter_Client.thy ===== *)
theory Adapter_Client
  imports Runtime_Adapter Rust_Radix
begin

text \<open>
  The clients of the runtime adapters (\<open>crates/apolysis-daemon/src/adapter.rs\<close>): the HTTP of the Docker
  engine with chunked bodies, and the commands \<open>crictl\<close> and \<open>kubectl\<close>. What a socket or a command
  answers, the texts of library errors and the JSON reader are parameters.
\<close>

section \<open>Failures\<close>

text \<open>
  A computation that panics ends the task of its adapter: nobody catches it. Sums of \<open>usize\<close> panic when
  they overflow or, without overflow checks, in the slice that follows.
\<close>

datatype adapter_failure = AfError string | AfPanic

abbreviation err :: "(string, 'a) res \<Rightarrow> (adapter_failure, 'a) res" where
  "err r \<equiv> map_sum AfError id r"

record 'v client_lib =
  ct_view :: "'v json_view"
  ct_from_slice :: "string \<Rightarrow> (string, 'v) res"
  ct_utf8_error :: "string \<Rightarrow> string"
  ct_lossy :: "string \<Rightarrow> string"
  ct_debug :: "string \<Rightarrow> string"
  ct_debug_list :: "string list \<Rightarrow> string"

section \<open>HTTP\<close>

definition crlf :: string where "crlf = [CHR 0x0D, CHR 0x0A]"

definition same_ignoring_case :: "string \<Rightarrow> string \<Rightarrow> bool" where
  "same_ignoring_case a b \<longleftrightarrow> to_ascii_lowercase a = to_ascii_lowercase b"

definition has_header_value :: "string \<Rightarrow> string \<Rightarrow> string \<Rightarrow> bool" where
  "has_header_value headers name expected \<longleftrightarrow>
     list_ex
       (\<lambda>line. case split_once (CHR '':'') line of
          None \<Rightarrow> False
        | Some (n, value) \<Rightarrow>
            same_ignoring_case (trim n) name
            \<and> list_ex (\<lambda>part. same_ignoring_case (trim part) expected) (split_on (CHR '','') value))
       (drop 1 (lines_of headers))"

fun content_length_in :: "string list \<Rightarrow> (string, nat option) res" where
  "content_length_in [] = Inr None"
| "content_length_in (line # ls) =
     (case split_once (CHR '':'') line of
        None \<Rightarrow> content_length_in ls
      | Some (name, value) \<Rightarrow>
          if same_ignoring_case (trim name) ''content-length'' then
            map_sum (\<lambda>e. ''invalid Docker Engine Content-Length: '' @ int_error_str e) Some
              (parse_unsigned (2 ^ 64) (trim value))
          else content_length_in ls)"

definition content_length :: "string \<Rightarrow> (string, nat option) res" where
  "content_length headers = content_length_in (drop 1 (lines_of headers))"

definition find_crlf :: "string \<Rightarrow> nat \<Rightarrow> nat option" where
  "find_crlf bytes start =
     (if length bytes < start then None else map_option (\<lambda>offset. start + offset) (find_sub crlf (drop start bytes)))"

lemma find_crlf_bounds:
  assumes "find_crlf bytes start = Some e"
  shows "start \<le> e \<and> e + 2 \<le> length bytes"
proof -
  from assms obtain k where k: "find_sub crlf (drop start bytes) = Some k" "e = start + k" "start \<le> length bytes"
    by (auto simp: find_crlf_def split: if_splits)
  then show ?thesis using find_sub_bound [OF k(1)] by (simp add: crlf_def)
qed

function decode_chunks ::
    "'v client_lib \<Rightarrow> string \<Rightarrow> nat \<Rightarrow> string \<Rightarrow> (adapter_failure, string) res" where
  "decode_chunks T body index decoded =
     (case find_crlf body index of
        None \<Rightarrow> Inl (AfError ''Docker Engine chunked body missing chunk size terminator'')
      | Some size_end \<Rightarrow>
          (let line = take (size_end - index) (drop index body) in
           if \<not> utf8_valid line then
             Inl (AfError (''Docker Engine chunk size is not UTF-8: '' @ ct_utf8_error T line))
           else
             (let token = trim (hd (split_on (CHR '';'') line)) in
              case parse_hex (2 ^ 64) token of
                Inl e \<Rightarrow>
                  Inl (AfError (''invalid Docker Engine chunk size '' @ ct_debug T token @ '': '' @ int_error_str e))
              | Inr n \<Rightarrow>
                  (let start = size_end + 2; chunk_end = start + n in
                   if n = 0 then Inr decoded
                   else if 2 ^ 64 \<le> chunk_end then Inl (AfError ''Docker Engine chunk size overflow'')
                   else if 2 ^ 64 \<le> chunk_end + 2 then Inl AfPanic
                   else if length body < chunk_end + 2 then
                     Inl (AfError ''Docker Engine chunked body ended inside a chunk'')
                   else if take 2 (drop chunk_end body) \<noteq> crlf then
                     Inl (AfError ''Docker Engine chunk missing trailing CRLF'')
                   else decode_chunks T body (chunk_end + 2) (decoded @ take n (drop start body))))))"
  by pat_completeness auto
termination
proof (relation "measure (\<lambda>(T, body, index, decoded). length body - index)", goal_cases)
  case (2 T body index decoded size_end line token n start chunk_end)
  then show ?case using find_crlf_bounds [OF 2(1)] by auto
qed simp

declare decode_chunks.simps [simp del]

definition decode_chunked_body :: "'v client_lib \<Rightarrow> string \<Rightarrow> (adapter_failure, string) res" where
  "decode_chunked_body T body = decode_chunks T body 0 []"

definition http_body :: "'v client_lib \<Rightarrow> string \<Rightarrow> string \<Rightarrow> (adapter_failure, string) res" where
  "http_body T headers body =
     (if has_header_value headers ''transfer-encoding'' ''chunked'' then decode_chunked_body T body
      else
        (case content_length headers of
           Inl e \<Rightarrow> Inl (AfError e)
         | Inr None \<Rightarrow> Inr body
         | Inr (Some n) \<Rightarrow>
             if length body < n then
               Inl (AfError (''Docker Engine response body shorter than Content-Length: ''
                 @ dec_str (length body) @ '' < '' @ dec_str n))
             else Inr (take n body)))"

definition parse_http_json_response :: "'v client_lib \<Rightarrow> string \<Rightarrow> (adapter_failure, 'v) res" where
  "parse_http_json_response T response =
     (case find_sub (crlf @ crlf) response of
        None \<Rightarrow> Inl (AfError ''Docker Engine response missing header terminator'')
      | Some i \<Rightarrow>
          (let headers = take i response in
           if \<not> utf8_valid headers then
             Inl (AfError (''Docker Engine response headers are not UTF-8: '' @ ct_utf8_error T headers))
           else
             (case lines_of headers of
                [] \<Rightarrow> Inl (AfError ''Docker Engine response missing status line'')
              | status # _ \<Rightarrow>
                  if \<not> str_contains status '' 200 '' then
                    Inl (AfError (''Docker Engine request failed: '' @ status))
                  else
                    (case http_body T headers (drop (i + 4) response) of
                       Inl e \<Rightarrow> Inl e
                     | Inr body \<Rightarrow>
                         map_sum (\<lambda>e. AfError (''failed to decode Docker Engine JSON response: '' @ e)) id
                           (ct_from_slice T body)))))"

section \<open>The Docker engine\<close>

text \<open>The socket path and, for a request, how far the exchange came.\<close>

datatype docker_exchange = ExConnectError string | ExWriteError string | ExReadError string | ExResponse string

definition docker_request :: "string \<Rightarrow> string" where
  "docker_request path =
     ''GET '' @ path @ '' HTTP/1.1'' @ crlf @ ''Host: docker'' @ crlf @ ''Connection: close'' @ crlf @ crlf"

definition docker_get_json ::
    "'v client_lib \<Rightarrow> string \<Rightarrow> (string \<Rightarrow> docker_exchange) \<Rightarrow> string \<Rightarrow> (adapter_failure, 'v) res" where
  "docker_get_json T socket exchange path =
     (case exchange (docker_request path) of
        ExConnectError e \<Rightarrow> Inl (AfError (''failed to connect Docker Engine socket '' @ socket @ '': '' @ e))
      | ExWriteError e \<Rightarrow> Inl (AfError (''failed to write Docker Engine request: '' @ e))
      | ExReadError e \<Rightarrow> Inl (AfError (''failed to read Docker Engine response: '' @ e))
      | ExResponse response \<Rightarrow> parse_http_json_response T response)"

definition path_safe_id :: "string \<Rightarrow> bool" where
  "path_safe_id i \<longleftrightarrow> i \<noteq> [] \<and> list_all (\<lambda>c. \<not> is_ascii_whitespace c \<and> c \<noteq> CHR ''/'') i"

definition docker_inspect ::
    "'v client_lib \<Rightarrow> string \<Rightarrow> (string \<Rightarrow> docker_exchange) \<Rightarrow> string \<Rightarrow> (adapter_failure, 'v) res" where
  "docker_inspect T socket exchange i =
     (if \<not> path_safe_id (trim i) then Inl (AfError ''Docker container id must be non-empty and path-safe'')
      else docker_get_json T socket exchange (''/containers/'' @ trim i @ ''/json''))"

definition docker_list ::
    "'v client_lib \<Rightarrow> string \<Rightarrow> (string \<Rightarrow> docker_exchange) \<Rightarrow> (adapter_failure, string list) res" where
  "docker_list T socket exchange =
     (case docker_get_json T socket exchange ''/containers/json'' of
        Inl e \<Rightarrow> Inl e
      | Inr v \<Rightarrow> err (marked_container_ids_from_list (ct_view T) v))"

section \<open>Commands\<close>

datatype command_outcome = CoFailed string | CoExit bool string string

record cri_client =
  cr_crictl_path :: string
  cr_runtime_endpoint :: string
  cr_image_endpoint :: "string option"
  cr_timeout_secs :: nat

definition cri_client_new :: "string \<Rightarrow> cri_client" where
  "cri_client_new socket =
     (let endpoint = ''unix://'' @ socket
      in \<lparr>cr_crictl_path = ''crictl'', cr_runtime_endpoint = endpoint, cr_image_endpoint = Some endpoint,
          cr_timeout_secs = 5\<rparr>)"

definition crictl_args :: "cri_client \<Rightarrow> string list \<Rightarrow> string list" where
  "crictl_args c args =
     [''--config'', ''/dev/null'', ''--runtime-endpoint'', cr_runtime_endpoint c, ''--timeout'',
      dec_str (max 1 (cr_timeout_secs c)) @ ''s'']
     @ (case cr_image_endpoint c of None \<Rightarrow> [] | Some e \<Rightarrow> [''--image-endpoint'', e])
     @ args"

definition crictl_json ::
    "'v client_lib \<Rightarrow> cri_client \<Rightarrow> (string list \<Rightarrow> command_outcome) \<Rightarrow> string list \<Rightarrow> (adapter_failure, 'v) res" where
  "crictl_json T c run args =
     (case run (crictl_args c args) of
        CoFailed e \<Rightarrow> Inl (AfError (''failed to run '' @ cr_crictl_path c @ '': '' @ e))
      | CoExit ok stdout stderr \<Rightarrow>
          if \<not> ok then
            Inl (AfError (''crictl '' @ ct_debug_list T args @ '' failed: '' @ trim (ct_lossy T stderr)))
          else map_sum (\<lambda>e. AfError (''failed to decode crictl JSON: '' @ e)) id (ct_from_slice T stdout))"

definition cri_inspect ::
    "'v client_lib \<Rightarrow> cri_client \<Rightarrow> (string list \<Rightarrow> command_outcome) \<Rightarrow> string \<Rightarrow> (adapter_failure, 'v) res" where
  "cri_inspect T c run i =
     (if \<not> path_safe_id (trim i) then Inl (AfError ''CRI container id must be non-empty and path-safe'')
      else crictl_json T c run [''inspect'', ''-o'', ''json'', trim i])"

definition cri_list ::
    "'v client_lib \<Rightarrow> cri_client \<Rightarrow> (string list \<Rightarrow> command_outcome) \<Rightarrow> bool
     \<Rightarrow> (adapter_failure, cri_candidate list) res" where
  "cri_list T c run include_pods =
     (case crictl_json T c run [''ps'', ''-o'', ''json''] of
        Inl e \<Rightarrow> Inl e
      | Inr ps \<Rightarrow>
          if \<not> include_pods then
            err (map_sum id (map (\<lambda>i. \<lparr>cc_container_id = i, cc_inherited = []\<rparr>)) (cri_marked_ids_from_ps (ct_view T) ps))
          else
            (case crictl_json T c run [''pods'', ''-o'', ''json''] of
               Inl e \<Rightarrow> Inl e
             | Inr pods \<Rightarrow> err (cri_candidates_from_ps_and_pods (ct_view T) ps pods)))"

definition kubectl_args :: "string list" where
  "kubectl_args = [''get'', ''pods'', ''--all-namespaces'', ''-o'', ''json'']"

definition list_pods ::
    "'v client_lib \<Rightarrow> string \<Rightarrow> (string list \<Rightarrow> command_outcome) \<Rightarrow> (adapter_failure, 'v) res" where
  "list_pods T kubectl run =
     (case run kubectl_args of
        CoFailed e \<Rightarrow> Inl (AfError (''failed to run '' @ kubectl @ '': '' @ e))
      | CoExit ok stdout stderr \<Rightarrow>
          if \<not> ok then Inl (AfError (''kubectl get pods failed: '' @ trim (ct_lossy T stderr)))
          else
            map_sum (\<lambda>e. AfError (''failed to decode Kubernetes PodList JSON: '' @ e)) id (ct_from_slice T stdout))"

text \<open>The request for a container is one line with the id in the place of the path.\<close>

lemma docker_inspect_request:
  assumes "path_safe_id (trim i)"
  shows "docker_inspect T socket exchange i
    = docker_get_json T socket exchange (''/containers/'' @ trim i @ ''/json'')"
    and "CHR 0x0D \<notin> set (trim i) \<and> CHR 0x0A \<notin> set (trim i) \<and> CHR '' '' \<notin> set (trim i)"
  using assms by (auto simp: docker_inspect_def path_safe_id_def list_all_iff is_ascii_whitespace_def)

section \<open>A chunked body decodes to its chunks\<close>

lemma find_sub_Nil: "find_sub [] s = Some 0"
  by (cases s) simp_all

lemma find_sub_append: "find_sub p s = Some i \<Longrightarrow> find_sub p (s @ t) = Some i"
proof (induction s arbitrary: i)
  case (Cons c s)
  show ?case
  proof (cases "prefix p (c # s)")
    case True
    then have "prefix p (c # s @ t)" using prefix_prefix [of p "c # s" t] by simp
    with True Cons.prems show ?thesis by simp
  next
    case False
    with Cons.prems obtain j where j: "find_sub p s = Some j" "i = Suc j" by auto
    have "length p \<le> length s" using find_sub_bound [OF j(1)] by simp
    then have "\<not> prefix p (c # s @ t)"
      using False prefix_length_prefix [of p "c # s @ t" "c # s"] by auto
    with False j Cons.IH [OF j(1)] show ?thesis by simp
  qed
qed (simp add: find_sub_Nil split: if_splits)

lemma find_sub_first: "c \<notin> set a \<Longrightarrow> find_sub (c # p) (a @ c # p @ t) = Some (length a)"
  by (induction a) auto
text \<open>A chunk with its extension, and the end of a body: a chunk of no length and trailers.\<close>

definition plain_extension :: "string \<Rightarrow> bool" where
  "plain_extension x \<longleftrightarrow> (x = [] \<or> hd x = CHR '';'') \<and> list_all (\<lambda>c. byte_val c < 128 \<and> c \<noteq> CHR 0x0D) x"

fun encode_chunks :: "(string \<times> string) list \<Rightarrow> string \<Rightarrow> string" where
  "encode_chunks [] trailers = ''0'' @ crlf @ trailers"
| "encode_chunks ((extension, data) # chunks) trailers =
     hex_str (length data) @ extension @ crlf @ data @ crlf @ encode_chunks chunks trailers"

lemma size_line:
  assumes "plain_extension x"
  shows "find_sub crlf (hex_str n @ x @ crlf @ t) = Some (length (hex_str n @ x))"
    and "utf8_valid (hex_str n @ x)"
    and "trim (hd (split_on (CHR '';'') (hex_str n @ x))) = hex_str n"
proof -
  have "CHR 0x0D \<notin> set (hex_str n @ x)"
    using assms hex_str_plain [of "CHR 0x0D" n] by (auto simp: plain_extension_def list_all_iff)
  then show "find_sub crlf (hex_str n @ x @ crlf @ t) = Some (length (hex_str n @ x))"
    using find_sub_first [of "CHR 0x0D" "hex_str n @ x" "[CHR 0x0A]" t] by (simp add: crlf_def)
  show "utf8_valid (hex_str n @ x)"
    using assms by (intro utf8_valid_append utf8_valid_hex_str utf8_valid_ascii) (simp add: plain_extension_def list_all_iff)
  have "CHR '';'' \<notin> set (hex_str n)" using hex_str_plain [of "CHR '';''" n] by auto
  then have "hd (split_on (CHR '';'') (hex_str n @ x)) = hex_str n"
    using assms by (cases x) (auto simp: plain_extension_def split_on_none)
  moreover have "hex_str n \<noteq> []" by (subst hex_str.simps) simp
  then have "trim (hex_str n) = hex_str n" using hex_str_plain by (intro trim_nonempty) blast+
  ultimately show "trim (hd (split_on (CHR '';'') (hex_str n @ x))) = hex_str n" by simp
qed

lemma decode_chunks_encoded:
  assumes "list_all (\<lambda>(x, data). plain_extension x \<and> data \<noteq> []) chunks"
    and "length before + length (encode_chunks chunks trailers) < 2 ^ 64"
  shows "decode_chunks T (before @ encode_chunks chunks trailers) (length before) decoded
    = Inr (decoded @ concat (map snd chunks))"
  using assms
proof (induction chunks arbitrary: before decoded)
  case Nil
  have "hex_str 0 = ''0''" by code_simp
  then have "find_sub crlf (''0'' @ crlf @ trailers) = Some 1" "trim (hd (split_on (CHR '';'') ''0'')) = hex_str 0"
    "utf8_valid ''0''"
    using size_line(1) [of "[]" 0 trailers] size_line(2,3) [of "[]" 0] by (simp_all add: plain_extension_def)
  moreover have "parse_hex (2 ^ 64) (hex_str 0) = Inr 0" by (rule parse_hex_str) simp
  ultimately show ?case
    by (subst decode_chunks.simps) (simp add: find_crlf_def Let_def)
next
  case (Cons c chunks)
  obtain x data where c: "c = (x, data)" by fastforce
  with Cons.prems have x: "plain_extension x" and data: "data \<noteq> []" by simp_all
  let ?head = "hex_str (length data) @ x" and ?rest = "encode_chunks chunks trailers"
  let ?body = "before @ encode_chunks (c # chunks) trailers"
  have body: "?body = before @ ?head @ crlf @ data @ crlf @ ?rest" by (simp add: c)
  have len: "length before + length ?head + 2 + length data + 2 + length ?rest < 2 ^ 64"
    using Cons.prems(2) by (simp add: c crlf_def)
  have fc: "find_crlf ?body (length before) = Some (length before + length ?head)"
    using size_line(1) [OF x, of "length data" "data @ crlf @ ?rest"] by (simp add: find_crlf_def c)
  have line: "take (length ?head) (drop (length before) ?body) = ?head" by (simp add: body)
  have hex: "parse_hex (2 ^ 64) (hex_str (length data)) = Inr (length data)"
    using len by (intro parse_hex_str) simp
  have chunk: "take (length data) (drop (length before + length ?head + 2) ?body) = data"
    and tail: "take 2 (drop (length before + length ?head + 2 + length data) ?body) = crlf"
    by (simp_all add: body crlf_def)
  have next_chunk: "decode_chunks T ?body (length before + length ?head + 2 + length data + 2) (decoded @ data)
      = Inr ((decoded @ data) @ concat (map snd chunks))"
    using Cons.IH [of "before @ ?head @ crlf @ data @ crlf" "decoded @ data"] Cons.prems(1) len
    by (simp add: c crlf_def add.assoc)
  have long: "\<not> length ?body < length before + length ?head + 2 + length data + 2"
    by (simp add: body crlf_def)
  show ?case
    using fc line size_line(2,3) [OF x, of "length data"] hex data chunk tail next_chunk long len
    by (subst decode_chunks.simps) (simp add: Let_def c)
qed

lemma parse_response:
  assumes "find_sub (crlf @ crlf) (headers @ crlf @ crlf) = Some (length headers)" "utf8_valid headers"
    and "lines_of headers = status # header_lines" "str_contains status '' 200 ''"
  shows "parse_http_json_response T (headers @ crlf @ crlf @ body) =
    (case http_body T headers body of
       Inl e \<Rightarrow> Inl e
     | Inr b \<Rightarrow>
         map_sum (\<lambda>e. AfError (''failed to decode Docker Engine JSON response: '' @ e)) id (ct_from_slice T b))"
proof -
  have "find_sub (crlf @ crlf) (headers @ crlf @ crlf @ body) = Some (length headers)"
    using find_sub_append [OF assms(1), of body] by simp
  moreover have "drop (length headers + 4) (headers @ crlf @ crlf @ body) = body" by (simp add: crlf_def)
  ultimately show ?thesis using assms(2-4) by (simp add: parse_http_json_response_def Let_def)
qed

text \<open>C40. What the Docker engine sends in chunks is read as it was sent. A response whose first line has the
  status 200 and whose headers announce chunks, with any chunk lengths, chunk extensions and trailers,
  comes out as the JSON value of the chunks put together.\<close>

theorem chunked_response_decodes:
  assumes "list_all (\<lambda>(x, data). plain_extension x \<and> data \<noteq> []) chunks"
    and "find_sub (crlf @ crlf) (headers @ crlf @ crlf) = Some (length headers)" "utf8_valid headers"
    and "lines_of headers = status # header_lines" "str_contains status '' 200 ''"
    and "has_header_value headers ''transfer-encoding'' ''chunked''"
    and "length (encode_chunks chunks trailers) < 2 ^ 64"
    and "ct_from_slice T (concat (map snd chunks)) = Inr v"
  shows "parse_http_json_response T (headers @ crlf @ crlf @ encode_chunks chunks trailers) = Inr v"
  using decode_chunks_encoded [OF assms(1), of "[]" trailers T "[]"] assms(6-8)
  by (simp add: parse_response [OF assms(2-5)] http_body_def decode_chunked_body_def)

definition sample_client_lib :: "string client_lib" where
  "sample_client_lib = \<lparr>ct_view = \<lparr>jv_get = (\<lambda>_ _. None), jv_as_str = Some, jv_as_u64 = (\<lambda>_. None),
      jv_as_array = (\<lambda>_. None), jv_as_object = (\<lambda>_. None), jv_is_null = (\<lambda>_. False)\<rparr>,
    ct_from_slice = Inr, ct_utf8_error = id, ct_lossy = id, ct_debug = id, ct_debug_list = concat\<rparr>"

definition sample_headers :: string where
  "sample_headers = ''HTTP/1.1 200 OK'' @ crlf @ ''Transfer-Encoding: gzip, Chunked''"

lemma chunked_response_decodes_witness:
  "parse_http_json_response sample_client_lib
     (sample_headers @ crlf @ crlf @ encode_chunks [('';name=x'', ''[1,''), ([], ''2]'')] crlf) = Inr ''[1,2]''"
proof (rule chunked_response_decodes)
  show "list_all (\<lambda>(x, data). plain_extension x \<and> data \<noteq> []) [('';name=x'', ''[1,''), ([], ''2]'')]"
    by code_simp
  show "find_sub (crlf @ crlf) (sample_headers @ crlf @ crlf) = Some (length sample_headers)" by code_simp
  show "utf8_valid sample_headers" by code_simp
  show "lines_of sample_headers = ''HTTP/1.1 200 OK'' # [''Transfer-Encoding: gzip, Chunked'']" by code_simp
  show "str_contains ''HTTP/1.1 200 OK'' '' 200 ''" by code_simp
  show "has_header_value sample_headers ''transfer-encoding'' ''chunked''" by code_simp
  have "length (encode_chunks [('';name=x'', ''[1,''), ([], ''2]'')] crlf) = 27" by code_simp
  then show "length (encode_chunks [('';name=x'', ''[1,''), ([], ''2]'')] crlf) < 2 ^ 64" by simp
qed (simp add: sample_client_lib_def)

text \<open>A chunk size just below the largest number passes the check for overflow, and the task panics.\<close>

lemma huge_chunk_panics: "decode_chunked_body T (''ffffffffffffffed'' @ crlf) = Inl AfPanic"
proof -
  have fc: "find_crlf (''ffffffffffffffed'' @ crlf) 0 = Some 16" by code_simp
  have token: "utf8_valid ''ffffffffffffffed''" "trim (hd (split_on (CHR '';'') ''ffffffffffffffed'')) = ''ffffffffffffffed''"
    by code_simp+
  have digits: "to_digit 16 (CHR ''f'') = Some 15" "to_digit 16 (CHR ''e'') = Some 14" "to_digit 16 (CHR ''d'') = Some 13"
    by code_simp+
  have hex: "parse_hex (2 ^ 64) ''ffffffffffffffed'' = Inr (2 ^ 64 - 19)"
    using digits by (simp add: parse_hex_def)
  have "decode_chunks T (t @ crlf) 0 [] = Inl AfPanic"
    if "find_crlf (t @ crlf) 0 = Some 16" "length t = 16" "utf8_valid t" "trim (hd (split_on (CHR '';'') t)) = t"
      "parse_hex (2 ^ 64) t = Inr (2 ^ 64 - 19)" for t
    using that by (subst decode_chunks.simps) (simp add: Let_def)
  from this [OF fc _ token hex] show ?thesis by (simp add: decode_chunked_body_def)
qed

end
