(* ===== verification/Adapter_Loop.thy ===== *)
theory Adapter_Loop
  imports Adapter_Client
begin

text \<open>
  The adapters at work (\<open>crates/apolysis-daemon/src/adapter.rs\<close>): how each polls its runtime and remembers
  what it has seen, and the loop that hands workloads to the daemon, counts, and waits longer
  after every failure. The answers of one moment are one value; time goes from moment to moment.
\<close>

section \<open>What an adapter meets\<close>

record adapter_moment =
  am_exchange :: "string \<Rightarrow> docker_exchange"
  am_crictl :: "string list \<Rightarrow> command_outcome"
  am_kubectl :: "string list \<Rightarrow> command_outcome"
  am_stat :: "string \<Rightarrow> (string, u64) res"
  am_read_file :: "string \<Rightarrow> (string, string) res"

record adapter_roots =
  ar_proc_root :: string
  ar_cgroup_root :: string

text \<open>\<open>?\<close>: an error ends the computation.\<close>

definition res_then :: "('e, 'a) res \<Rightarrow> ('a \<Rightarrow> ('e, 'b) res) \<Rightarrow> ('e, 'b) res" where
  "res_then r f = (case r of Inl e \<Rightarrow> Inl e | Inr a \<Rightarrow> f a)"

lemma res_then_simps [simp]: "res_then (Inl e) f = Inl e" "res_then (Inr a) f = f a"
  by (simp_all add: res_then_def)

lemma err_Inr [simp]: "err r = Inr a \<longleftrightarrow> r = Inr a"
  by (cases r) simp_all

lemma res_then_Inr: "res_then r f = Inr b \<longleftrightarrow> (\<exists>a. r = Inr a \<and> f a = Inr b)"
  by (cases r) simp_all

definition pid_cgroup :: "adapter_roots \<Rightarrow> adapter_moment \<Rightarrow> u32 \<Rightarrow> (adapter_failure, u64) res" where
  "pid_cgroup R m pid =
     err (cgroup_id_from_pid (am_stat m) (am_read_file m) pid (ar_proc_root R) (ar_cgroup_root R))"

definition docker_workload ::
    "'v client_lib \<Rightarrow> adapter_roots \<Rightarrow> string \<Rightarrow> adapter_moment \<Rightarrow> string
     \<Rightarrow> (adapter_failure, runtime_workload option) res" where
  "docker_workload T R socket m container_id =
     res_then (docker_inspect T socket (am_exchange m) container_id)
       (\<lambda>inspect. res_then (err (docker_pid_from_inspect (ct_view T) inspect))
       (\<lambda>pid. res_then (pid_cgroup R m pid)
       (\<lambda>cgroup_id. res_then (err (docker_snapshot_from_inspect (ct_view T) inspect cgroup_id))
       (\<lambda>snapshot. err (docker_workload_from_snapshot snapshot)))))"

text \<open>The cgroup that the CRI names, or that of the process; the error names both.\<close>

definition cri_cgroup ::
    "'v client_lib \<Rightarrow> adapter_roots \<Rightarrow> adapter_moment \<Rightarrow> 'v \<Rightarrow> (adapter_failure, u64) res" where
  "cri_cgroup T R m inspect =
     (case cgroup_id_from_cgroups_path (ct_view T) (am_stat m) inspect (ar_cgroup_root R) of
        Inr (Some cgroup_id) \<Rightarrow> Inr cgroup_id
      | Inr None \<Rightarrow> res_then (err (cri_pid_from_inspect (ct_view T) inspect)) (pid_cgroup R m)
      | Inl path_error \<Rightarrow>
          res_then (err (cri_pid_from_inspect (ct_view T) inspect))
            (\<lambda>pid. err
               (map_sum
                  (\<lambda>pid_error. path_error @ ''; fallback via CRI pid '' @ dec_str (unat pid) @ '' failed: '' @ pid_error) id
                  (cgroup_id_from_pid (am_stat m) (am_read_file m) pid (ar_proc_root R) (ar_cgroup_root R)))))"

text \<open>Labels of the pod fill in those that the container lacks.\<close>

definition inherit_labels :: "(string, string) bmap \<Rightarrow> (string, string) bmap \<Rightarrow> (string, string) bmap" where
  "inherit_labels inherited labels =
     fold (\<lambda>(k, v) ls. case bm_get ls k of None \<Rightarrow> bm_insert k v ls | Some _ \<Rightarrow> ls) inherited labels"

definition cri_workload ::
    "'v client_lib \<Rightarrow> adapter_roots \<Rightarrow> cri_client \<Rightarrow> adapter_kind \<Rightarrow> adapter_moment \<Rightarrow> cri_candidate
     \<Rightarrow> (adapter_failure, runtime_workload option) res" where
  "cri_workload T R c adapter m candidate =
     res_then (cri_inspect T c (am_crictl m) (cc_container_id candidate))
       (\<lambda>inspect. res_then (cri_cgroup T R m inspect)
       (\<lambda>cgroup_id. res_then (err (snapshot_from_cri_inspect (ct_view T) adapter inspect cgroup_id))
       (\<lambda>snapshot. err (containerd_workload_from_snapshot
          (snapshot\<lparr>cs_labels := inherit_labels (cc_inherited candidate) (cs_labels snapshot)\<rparr>)))))"

fun container_cgroups ::
    "'v client_lib \<Rightarrow> adapter_roots \<Rightarrow> cri_client \<Rightarrow> adapter_moment \<Rightarrow> string list \<Rightarrow> (string, u64) bmap
     \<Rightarrow> (adapter_failure, (string, u64) bmap) res" where
  "container_cgroups T R c m [] cgroups = Inr cgroups"
| "container_cgroups T R c m (i # ids) cgroups =
     res_then (cri_inspect T c (am_crictl m) i)
       (\<lambda>inspect. res_then (err (cri_pid_from_inspect (ct_view T) inspect))
       (\<lambda>pid. res_then (pid_cgroup R m pid)
       (\<lambda>cgroup_id. container_cgroups T R c m ids (bm_insert i cgroup_id cgroups))))"

definition list_marked_pods ::
    "'v client_lib \<Rightarrow> adapter_roots \<Rightarrow> cri_client \<Rightarrow> string \<Rightarrow> adapter_moment
     \<Rightarrow> (adapter_failure, pod_snapshot list) res" where
  "list_marked_pods T R c kubectl m =
     res_then (list_pods T kubectl (am_kubectl m))
       (\<lambda>pod_list. res_then (err (marked_running_container_ids (ct_view T) pod_list))
       (\<lambda>ids. res_then (container_cgroups T R c m ids [])
       (\<lambda>cgroups. err (marked_pod_snapshots (ct_view T) pod_list cgroups))))"

section \<open>Polling\<close>

text \<open>The three adapters differ in what they list, how they name it, and how it becomes a workload.\<close>

record 'c poller =
  po_list :: "adapter_moment \<Rightarrow> (adapter_failure, 'c list) res"
  po_key :: "'c \<Rightarrow> string"
  po_workload :: "adapter_moment \<Rightarrow> 'c \<Rightarrow> (adapter_failure, runtime_workload option) res"

record 'c polling =
  pg_pending :: "'c list"
  pg_seen :: "string list"
  pg_capacity :: nat

definition polling_new :: "nat \<Rightarrow> 'c polling" where
  "polling_new seen_capacity = \<lparr>pg_pending = [], pg_seen = [], pg_capacity = seen_capacity\<rparr>"

definition remember_seen :: "string list \<Rightarrow> nat \<Rightarrow> string \<Rightarrow> bool \<times> string list" where
  "remember_seen seen seen_capacity i =
     (if i \<in> set seen then (False, seen)
      else (True, bs_insert i (if 0 < seen_capacity \<and> seen_capacity \<le> length seen then tl seen else seen)))"

fun keep_unseen :: "('c \<Rightarrow> string) \<Rightarrow> nat \<Rightarrow> 'c list \<Rightarrow> string list \<Rightarrow> 'c list \<times> string list" where
  "keep_unseen key seen_capacity [] seen = ([], seen)"
| "keep_unseen key seen_capacity (c # cs) seen =
     (let (unseen, seen1) = remember_seen seen seen_capacity (key c);
          (kept, seen2) = keep_unseen key seen_capacity cs seen1
      in (if unseen then c # kept else kept, seen2))"

text \<open>One turn of the loops: the next pending item, or a new list. A result leaves the loop.\<close>

definition poll_turn ::
    "'c poller \<Rightarrow> adapter_moment \<Rightarrow> 'c polling
     \<Rightarrow> (adapter_failure, runtime_workload option) res option \<times> 'c polling" where
  "poll_turn A m g =
     (case pg_pending g of
        c # cs \<Rightarrow>
          (let g' = g\<lparr>pg_pending := cs\<rparr> in
           case po_workload A m c of
             Inl e \<Rightarrow> (Some (Inl e), g')
           | Inr (Some w) \<Rightarrow> (Some (Inr (Some w)), g')
           | Inr None \<Rightarrow> (None, g'))
      | [] \<Rightarrow>
          (case po_list A m of
             Inl e \<Rightarrow> (Some (Inl e), g)
           | Inr cs \<Rightarrow>
               (let (kept, seen) = keep_unseen (po_key A) (pg_capacity g) cs (pg_seen g)
                in (None, g\<lparr>pg_pending := kept, pg_seen := seen\<rparr>))))"

text \<open>A call: turns until one gives a result; what is left of the moments.\<close>

fun next_workload ::
    "'c poller \<Rightarrow> adapter_moment list \<Rightarrow> 'c polling
     \<Rightarrow> ((adapter_failure, runtime_workload option) res \<times> 'c polling \<times> adapter_moment list) option" where
  "next_workload A [] g = None"
| "next_workload A (m # ms) g =
     (case poll_turn A m g of
        (Some r, g') \<Rightarrow> Some (r, g', ms)
      | (None, g') \<Rightarrow> next_workload A ms g')"

definition docker_poller :: "'v client_lib \<Rightarrow> adapter_roots \<Rightarrow> string \<Rightarrow> string poller" where
  "docker_poller T R socket =
     \<lparr>po_list = (\<lambda>m. docker_list T socket (am_exchange m)), po_key = id,
      po_workload = docker_workload T R socket\<rparr>"

definition cri_poller :: "'v client_lib \<Rightarrow> adapter_roots \<Rightarrow> cri_client \<Rightarrow> adapter_kind \<Rightarrow> cri_candidate poller" where
  "cri_poller T R c adapter =
     \<lparr>po_list = (\<lambda>m. cri_list T c (am_crictl m) (adapter = AkK3sContainerd)), po_key = cc_container_id,
      po_workload = cri_workload T R c adapter\<rparr>"

definition cri_poller_new ::
    "'v client_lib \<Rightarrow> adapter_roots \<Rightarrow> cri_client \<Rightarrow> adapter_kind \<Rightarrow> (string, cri_candidate poller) res" where
  "cri_poller_new T R c adapter =
     (if cri_adapter adapter then Inr (cri_poller T R c adapter)
      else Inl ''CRI runtime adapter must be containerd or k3s_containerd'')"

definition kubernetes_poller ::
    "'v client_lib \<Rightarrow> adapter_roots \<Rightarrow> cri_client \<Rightarrow> string \<Rightarrow> pod_snapshot poller" where
  "kubernetes_poller T R c kubectl =
     \<lparr>po_list = list_marked_pods T R c kubectl,
      po_key = (\<lambda>s. case ps_pod_uid s of Some uid \<Rightarrow> uid | None \<Rightarrow> ps_pod_name s),
      po_workload = (\<lambda>_ s. err (workload_from_pod_snapshot s))\<rparr>"

text \<open>The adapter for a fixed list of containers: it ends.\<close>

fun next_docker_workload ::
    "'v client_lib \<Rightarrow> adapter_roots \<Rightarrow> string \<Rightarrow> adapter_moment \<Rightarrow> string list
     \<Rightarrow> (adapter_failure, runtime_workload option) res \<times> string list" where
  "next_docker_workload T R socket m [] = (Inr None, [])"
| "next_docker_workload T R socket m (i # ids) =
     (case docker_workload T R socket m i of
        Inl e \<Rightarrow> (Inl e, ids)
      | Inr (Some w) \<Rightarrow> (Inr (Some w), ids)
      | Inr None \<Rightarrow> next_docker_workload T R socket m ids)"

section \<open>Backoff\<close>

record backoff_policy =
  bo_initial_delay_ms :: u64
  bo_max_delay_ms :: u64
  bo_jitter_ms :: u64

definition default_backoff :: backoff_policy where
  "default_backoff = \<lparr>bo_initial_delay_ms = 250, bo_max_delay_ms = 5000, bo_jitter_ms = 100\<rparr>"

definition sat_mul :: "u64 \<Rightarrow> u64 \<Rightarrow> u64" where
  "sat_mul a b = (if unat a * unat b < 2 ^ 64 then a * b else - 1)"

fun adapter_seed :: "adapter_kind \<Rightarrow> u64" where
  "adapter_seed AkDocker = 11"
| "adapter_seed AkContainerd = 23"
| "adapter_seed AkK3sContainerd = 37"
| "adapter_seed AkKubernetes = 53"

definition adapter_backoff_delay :: "backoff_policy \<Rightarrow> adapter_kind \<Rightarrow> u64 \<Rightarrow> u64" where
  "adapter_backoff_delay policy adapter consecutive_errors =
     (let initial = max (bo_initial_delay_ms policy) 1;
          max_delay = max (bo_max_delay_ms policy) initial;
          exponent = min (sat_sub consecutive_errors 1) 16;
          base = min (sat_mul initial (push_bit (unat exponent) 1)) max_delay;
          jitter = (if bo_jitter_ms policy = 0 then 0
                    else (adapter_seed adapter + sat_mul consecutive_errors 17) mod (bo_jitter_ms policy + 1))
      in sat_add base jitter)"

lemma unat_sat_mul: "unat (sat_mul a b) = min (unat a * unat b) (2 ^ 64 - 1)"
  by (auto simp: sat_mul_def unat_word_ariths unsigned_minus_1_eq_mask mask_eq_exp_minus_1)

lemma default_delay_bounds:
  "250 \<le> adapter_backoff_delay default_backoff adapter n \<and> adapter_backoff_delay default_backoff adapter n \<le> 5100"
proof -
  let ?e = "unat (min (sat_sub n 1) 16)"
  let ?base = "min (sat_mul 250 (push_bit ?e 1)) (5000 :: u64)" and ?j = "(adapter_seed adapter + sat_mul n 17) mod 101"
  have e: "?e \<le> 16" by (simp add: word_le_nat_alt min_def)
  then have "(2 :: nat) ^ ?e < 2 ^ 64" by (intro power_strict_increasing) simp_all
  moreover have "(push_bit ?e 1 :: u64) = of_nat (2 ^ ?e)" by (simp add: push_bit_eq_mult)
  ultimately have "unat (push_bit ?e 1 :: u64) = 2 ^ ?e"
    by (simp only: unsigned_of_nat) (use e in \<open>simp add: take_bit_nat_eq_self\<close>)
  moreover have "(2 :: nat) ^ ?e \<le> 2 ^ 16" using e by (rule power_increasing) simp
  ultimately have "250 \<le> unat (sat_mul 250 (push_bit ?e 1))" by (simp add: unat_sat_mul)
  then have base: "250 \<le> unat ?base" "unat ?base \<le> 5000" by (auto simp: min_def word_le_nat_alt)
  have "unat ?j \<le> 100" by (simp add: unat_mod)
  moreover have "adapter_backoff_delay default_backoff adapter n = sat_add ?base ?j"
    by (simp add: adapter_backoff_delay_def default_backoff_def Let_def max_def word_le_nat_alt)
  ultimately show ?thesis using base by (simp add: word_le_nat_alt unat_sat_add)
qed

section \<open>The loop\<close>

record adapter_summary =
  as_adapter :: adapter_kind
  as_discovered :: u64
  as_missing_intent :: u64
  as_backend_errors :: u64
  as_backend_recoveries :: u64
  as_ingest_errors :: u64

definition adapter_summary_new :: "adapter_kind \<Rightarrow> adapter_summary" where
  "adapter_summary_new adapter =
     \<lparr>as_adapter = adapter, as_discovered = 0, as_missing_intent = 0, as_backend_errors = 0,
      as_backend_recoveries = 0, as_ingest_errors = 0\<rparr>"

datatype adapter_end = AeRunning | AeStopped | AePanicked

record 'c adapter_run =
  ru_backend :: "'c polling"
  ru_summary :: adapter_summary
  ru_consecutive :: u64
  ru_daemon :: daemon_state
  ru_delays :: "u64 list"
  ru_end :: adapter_end

definition adapter_run_new :: "adapter_kind \<Rightarrow> nat \<Rightarrow> daemon_state \<Rightarrow> 'c adapter_run" where
  "adapter_run_new adapter seen_capacity d =
     \<lparr>ru_backend = polling_new seen_capacity, ru_summary = adapter_summary_new adapter, ru_consecutive = 0,
      ru_daemon = d, ru_delays = [], ru_end = AeRunning\<rparr>"

text \<open>What a workload does, what an error of the backend does; a turn, whose answers come with it.\<close>

definition hand_over ::
    "'w daemon_lib \<Rightarrow> daemon_env \<Rightarrow> adapter_kind \<Rightarrow> runtime_workload \<Rightarrow> 'c adapter_run \<Rightarrow> 'c adapter_run" where
  "hand_over L env adapter w r =
     (let recovered = 0 < ru_consecutive r; s = ru_summary r in
      case ingest_runtime_workload L env w (ru_daemon r) of
        (Inr outcome, d) \<Rightarrow>
          r\<lparr>ru_consecutive := 0, ru_daemon := d,
            ru_summary := s\<lparr>as_discovered := sat_add (as_discovered s) 1,
              as_missing_intent :=
                (if outcome = MissingIntent then sat_add (as_missing_intent s) 1 else as_missing_intent s),
              as_backend_recoveries :=
                (if recovered then sat_add (as_backend_recoveries s) 1 else as_backend_recoveries s)\<rparr>\<rparr>
      | (Inl _, d) \<Rightarrow>
          r\<lparr>ru_consecutive := 0, ru_daemon := ds_set_adapter adapter CsDegraded d,
            ru_summary := s\<lparr>as_ingest_errors := sat_add (as_ingest_errors s) 1\<rparr>\<rparr>)"

definition backend_failed :: "backoff_policy \<Rightarrow> adapter_kind \<Rightarrow> 'c adapter_run \<Rightarrow> 'c adapter_run" where
  "backend_failed policy adapter r =
     (let n = sat_add (ru_consecutive r) 1; s = ru_summary r in
      r\<lparr>ru_consecutive := n, ru_summary := s\<lparr>as_backend_errors := sat_add (as_backend_errors s) 1\<rparr>,
        ru_daemon := ds_set_adapter adapter CsDegraded (ru_daemon r),
        ru_delays := ru_delays r @ [adapter_backoff_delay policy adapter n]\<rparr>)"

datatype adapter_event = AvShutdown | AvTurn adapter_moment daemon_env

definition run_turn ::
    "'w daemon_lib \<Rightarrow> 'c poller \<Rightarrow> backoff_policy \<Rightarrow> adapter_kind \<Rightarrow> adapter_event \<Rightarrow> 'c adapter_run \<Rightarrow> 'c adapter_run" where
  "run_turn L A policy adapter ev r =
     (if ru_end r \<noteq> AeRunning then r
      else
        (case ev of
           AvShutdown \<Rightarrow> r\<lparr>ru_end := AeStopped\<rparr>
         | AvTurn m env \<Rightarrow>
             (case poll_turn A m (ru_backend r) of
                (None, g) \<Rightarrow> r\<lparr>ru_backend := g\<rparr>
              | (Some (Inr (Some w)), g) \<Rightarrow> hand_over L env adapter w (r\<lparr>ru_backend := g\<rparr>)
              | (Some (Inr None), g) \<Rightarrow> r\<lparr>ru_backend := g, ru_end := AeStopped\<rparr>
              | (Some (Inl (AfError _)), g) \<Rightarrow> backend_failed policy adapter (r\<lparr>ru_backend := g\<rparr>)
              | (Some (Inl AfPanic), g) \<Rightarrow> r\<lparr>ru_backend := g, ru_end := AePanicked\<rparr>)))"

definition run_runtime_adapter ::
    "'w daemon_lib \<Rightarrow> 'c poller \<Rightarrow> adapter_kind \<Rightarrow> nat \<Rightarrow> adapter_event list \<Rightarrow> daemon_state \<Rightarrow> 'c adapter_run" where
  "run_runtime_adapter L A adapter seen_capacity evs d =
     fold (run_turn L A default_backoff adapter) evs (adapter_run_new adapter seen_capacity d)"

section \<open>Every listed container is asked for once\<close>

text \<open>The names that a run of turns asks for, and those that its lists hold.\<close>

definition asks :: "'c poller \<Rightarrow> 'c polling \<Rightarrow> string list" where
  "asks A g = (case pg_pending g of [] \<Rightarrow> [] | c # _ \<Rightarrow> [po_key A c])"

definition lists :: "'c poller \<Rightarrow> adapter_moment \<Rightarrow> 'c polling \<Rightarrow> string list" where
  "lists A m g =
     (case pg_pending g of [] \<Rightarrow> (case po_list A m of Inl _ \<Rightarrow> [] | Inr cs \<Rightarrow> map (po_key A) cs) | _ # _ \<Rightarrow> [])"

fun asked :: "'c poller \<Rightarrow> adapter_moment list \<Rightarrow> 'c polling \<Rightarrow> string list" where
  "asked A [] g = []"
| "asked A (m # ms) g = asks A g @ asked A ms (snd (poll_turn A m g))"

fun listed :: "'c poller \<Rightarrow> adapter_moment list \<Rightarrow> 'c polling \<Rightarrow> string list" where
  "listed A [] g = []"
| "listed A (m # ms) g = lists A m g @ listed A ms (snd (poll_turn A m g))"

definition polled :: "'c poller \<Rightarrow> adapter_moment list \<Rightarrow> 'c polling \<Rightarrow> 'c polling" where
  "polled A ms g = fold (\<lambda>m g. snd (poll_turn A m g)) ms g"

definition remembers_all :: "nat \<Rightarrow> string set \<Rightarrow> bool" where
  "remembers_all seen_capacity ids \<longleftrightarrow> seen_capacity = 0 \<or> card ids \<le> seen_capacity"

lemma remember_seen_room:
  assumes "distinct seen" "remembers_all cap (insert i (set seen))"
  shows "remember_seen seen cap i = (i \<notin> set seen, bs_insert i seen)"
proof (cases "i \<in> set seen")
  case True
  then show ?thesis by (simp add: remember_seen_def insort_insert_triv)
next
  case False
  then have "card (insert i (set seen)) = Suc (length seen)" using assms(1) by (simp add: distinct_card)
  with False assms(2) show ?thesis by (auto simp: remember_seen_def remembers_all_def)
qed

lemma keep_unseen_room:
  assumes "distinct seen" "sorted seen" "remembers_all cap (set seen \<union> set (map key cs))"
    and "keep_unseen key cap cs seen = (kept, seen')"
  shows "distinct seen' \<and> sorted seen' \<and> set seen' = set seen \<union> set (map key cs)
    \<and> distinct (map key kept) \<and> set (map key kept) = set (map key cs) - set seen"
  using assms
proof (induction cs arbitrary: seen kept)
  case (Cons c cs)
  have "card (insert (key c) (set seen)) \<le> card (set seen \<union> set (map key (c # cs)))"
    by (rule card_mono) auto
  then have room: "remembers_all cap (insert (key c) (set seen))"
    using Cons.prems(3) by (auto simp: remembers_all_def)
  obtain rest where rest: "keep_unseen key cap cs (bs_insert (key c) seen) = (rest, seen')"
    and kept: "kept = (if key c \<notin> set seen then c # rest else rest)"
    using Cons.prems(4) remember_seen_room [OF Cons.prems(1) room]
    by (cases "keep_unseen key cap cs (bs_insert (key c) seen)") (auto simp: Let_def split: if_splits)
  have ins: "distinct (bs_insert (key c) seen)" "sorted (bs_insert (key c) seen)"
    "set (bs_insert (key c) seen) = insert (key c) (set seen)"
    using Cons.prems(1,2) by (simp_all add: distinct_insort_insert sorted_insort_insert set_insort_insert)
  have "remembers_all cap (set (bs_insert (key c) seen) \<union> set (map key cs))"
    using Cons.prems(3) ins(3) by simp
  from Cons.IH [OF ins(1,2) this rest] ins(3) kept show ?case by auto
qed simp

definition polling_wf :: "'c poller \<Rightarrow> 'c polling \<Rightarrow> bool" where
  "polling_wf A g \<longleftrightarrow> distinct (pg_seen g) \<and> sorted (pg_seen g) \<and> distinct (map (po_key A) (pg_pending g))
     \<and> set (map (po_key A) (pg_pending g)) \<subseteq> set (pg_seen g)"

lemma poll_turn_room:
  assumes "polling_wf A g" "remembers_all (pg_capacity g) (set (pg_seen g) \<union> set (lists A m g))"
    and "snd (poll_turn A m g) = g'"
  shows "polling_wf A g' \<and> pg_capacity g' = pg_capacity g \<and> set (pg_seen g') = set (pg_seen g) \<union> set (lists A m g)
    \<and> distinct (asks A g @ map (po_key A) (pg_pending g'))
    \<and> set (asks A g) \<union> set (map (po_key A) (pg_pending g'))
        = set (map (po_key A) (pg_pending g)) \<union> (set (lists A m g) - set (pg_seen g))"
proof (cases "pg_pending g")
  case (Cons c cs)
  then have "g' = g\<lparr>pg_pending := cs\<rparr>"
    using assms(3) by (auto simp: poll_turn_def Let_def split: sum.splits option.splits)
  with Cons assms(1) show ?thesis by (auto simp: polling_wf_def asks_def lists_def)
next
  case Nil
  show ?thesis
  proof (cases "po_list A m")
    case (Inl e)
    with Nil assms show ?thesis by (auto simp: poll_turn_def polling_wf_def asks_def lists_def)
  next
    case (Inr cs)
    obtain kept seen' where k: "keep_unseen (po_key A) (pg_capacity g) cs (pg_seen g) = (kept, seen')" by fastforce
    with Nil Inr assms(3) have g': "g' = g\<lparr>pg_pending := kept, pg_seen := seen'\<rparr>" by (auto simp: poll_turn_def)
    have "remembers_all (pg_capacity g) (set (pg_seen g) \<union> set (map (po_key A) cs))"
      using assms(2) Nil Inr by (simp add: lists_def)
    from keep_unseen_room [OF _ _ this k] assms(1) Nil Inr g' show ?thesis
      by (auto simp: polling_wf_def asks_def lists_def)
  qed
qed

lemma polled_room:
  assumes "polling_wf A g" "remembers_all (pg_capacity g) (set (pg_seen g) \<union> set (listed A ms g))"
  shows "distinct (asked A ms g @ map (po_key A) (pg_pending (polled A ms g)))
    \<and> set (asked A ms g @ map (po_key A) (pg_pending (polled A ms g)))
        = set (map (po_key A) (pg_pending g)) \<union> (set (listed A ms g) - set (pg_seen g))"
  using assms
proof (induction ms arbitrary: g)
  case Nil
  then show ?case by (simp add: polled_def polling_wf_def)
next
  case (Cons m ms)
  let ?g = "snd (poll_turn A m g)"
  have sub: "card (set (pg_seen g) \<union> set (lists A m g)) \<le> card (set (pg_seen g) \<union> set (listed A (m # ms) g))"
    by (rule card_mono) auto
  then have "remembers_all (pg_capacity g) (set (pg_seen g) \<union> set (lists A m g))"
    using Cons.prems(2) by (auto simp: remembers_all_def)
  from poll_turn_room [OF Cons.prems(1) this refl] have turn: "polling_wf A ?g" "pg_capacity ?g = pg_capacity g"
    "set (pg_seen ?g) = set (pg_seen g) \<union> set (lists A m g)"
    "distinct (asks A g @ map (po_key A) (pg_pending ?g))"
    "set (asks A g) \<union> set (map (po_key A) (pg_pending ?g))
        = set (map (po_key A) (pg_pending g)) \<union> (set (lists A m g) - set (pg_seen g))" by blast+
  have "remembers_all (pg_capacity ?g) (set (pg_seen ?g) \<union> set (listed A ms ?g))"
    using Cons.prems(2) turn(2,3) by (simp add: Un_assoc)
  note rest = Cons.IH [OF turn(1) this]
  have known: "set (asks A g) \<subseteq> set (pg_seen g)"
    using Cons.prems(1) by (cases "pg_pending g") (auto simp: asks_def polling_wf_def)
  have next_turns: "polled A (m # ms) g = polled A ms ?g" by (simp add: polled_def)
  show ?case unfolding next_turns using rest turn(3-5) known by (auto simp: disjoint_iff)
qed

lemma polling_new_wf: "polling_wf A (polling_new cap)"
  by (simp add: polling_wf_def polling_new_def)

text \<open>C37. A container is asked for once. However the turns of a polling adapter go, with lists that fail
  and containers whose inspection fails, as long as its memory holds every name listed: the names asked for
  and those still waiting are all different, and they are exactly the names that were listed.\<close>

theorem listed_asked_once:
  assumes "remembers_all seen_capacity (set (listed A ms (polling_new seen_capacity)))"
  shows "distinct (asked A ms (polling_new seen_capacity)
        @ map (po_key A) (pg_pending (polled A ms (polling_new seen_capacity))))
    \<and> set (asked A ms (polling_new seen_capacity)
        @ map (po_key A) (pg_pending (polled A ms (polling_new seen_capacity))))
      = set (listed A ms (polling_new seen_capacity))"
  using polled_room [OF polling_new_wf [of A seen_capacity], of ms] assms by (simp add: polling_new_def)

text \<open>A runtime with two containers, one of which cannot be inspected.\<close>

definition sample_poller :: "string poller" where
  "sample_poller =
     \<lparr>po_list = (\<lambda>_. Inr [''a'', ''b'']), po_key = id,
      po_workload = (\<lambda>_ i. if i = ''a'' then Inl (AfError ''gone'') else Inr None)\<rparr>"

definition quiet_moment :: adapter_moment where
  "quiet_moment = \<lparr>am_exchange = (\<lambda>_. ExConnectError []), am_crictl = (\<lambda>_. CoFailed []),
     am_kubectl = (\<lambda>_. CoFailed []), am_stat = (\<lambda>_. Inl []), am_read_file = (\<lambda>_. Inl [])\<rparr>"

lemma listed_asked_once_witness:
  "distinct (asked sample_poller (replicate 5 quiet_moment) (polling_new 2)
      @ map (po_key sample_poller) (pg_pending (polled sample_poller (replicate 5 quiet_moment) (polling_new 2))))"
proof -
  have "set (listed sample_poller (replicate 5 quiet_moment) (polling_new 2)) = {''a'', ''b''}" by code_simp
  then have "remembers_all 2 (set (listed sample_poller (replicate 5 quiet_moment) (polling_new 2)))"
    by (simp add: remembers_all_def)
  from listed_asked_once [OF this] show ?thesis by (rule conjunct1)
qed

text \<open>
  A container that was asked for once and failed is not asked for again; with more containers than the
  memory holds, the first by name is forgotten and all are asked for at every pass.
\<close>

lemma failed_never_asked_again:
  assumes "polling_wf A g" "remembers_all (pg_capacity g) (set (pg_seen g) \<union> set (listed A ms g))"
    and "i \<in> set (pg_seen g)" "i \<notin> set (map (po_key A) (pg_pending g))"
  shows "i \<notin> set (asked A ms g)"
  using polled_room [OF assms(1,2)] assms(3,4) by auto

lemma small_memory_asks_again:
  "asked sample_poller (replicate 6 quiet_moment) (polling_new 1) = [''a'', ''b'', ''a'', ''b'']"
  by code_simp

section \<open>The health of an adapter\<close>

text \<open>
  The result of a turn that came to one: a workload that the daemon took in, or refused, or an error of the runtime.
\<close>

datatype turn_result = TrTaken association_outcome | TrRefused | TrFailed

fun taken :: "turn_result \<Rightarrow> bool" where
  "taken (TrTaken _) = True"
| "taken _ = False"

definition ingest_result :: "'w daemon_lib \<Rightarrow> daemon_env \<Rightarrow> runtime_workload \<Rightarrow> daemon_state \<Rightarrow> turn_result" where
  "ingest_result L env w d =
     (case fst (ingest_runtime_workload L env w d) of Inl _ \<Rightarrow> TrRefused | Inr outcome \<Rightarrow> TrTaken outcome)"

definition turn_outcome ::
    "'w daemon_lib \<Rightarrow> 'c poller \<Rightarrow> adapter_event \<Rightarrow> 'c adapter_run \<Rightarrow> turn_result list" where
  "turn_outcome L A ev r =
     (case ev of
        AvShutdown \<Rightarrow> []
      | AvTurn m env \<Rightarrow>
          if ru_end r \<noteq> AeRunning then []
          else
            (case fst (poll_turn A m (ru_backend r)) of
               Some (Inr (Some w)) \<Rightarrow> [ingest_result L env w (ru_daemon r)]
             | Some (Inl (AfError _)) \<Rightarrow> [TrFailed]
             | _ \<Rightarrow> []))"

lemma turn_outcome_le: "length (turn_outcome L A ev r) \<le> 1"
  by (simp add: turn_outcome_def split: adapter_event.split option.split sum.split adapter_failure.split)

fun run_outcomes ::
    "'w daemon_lib \<Rightarrow> 'c poller \<Rightarrow> adapter_kind \<Rightarrow> adapter_event list \<Rightarrow> 'c adapter_run \<Rightarrow> turn_result list" where
  "run_outcomes L A adapter [] r = []"
| "run_outcomes L A adapter (ev # evs) r =
     turn_outcome L A ev r @ run_outcomes L A adapter evs (run_turn L A default_backoff adapter ev r)"

lemma bm_get_insert_same: "bm_get (bm_insert k v m) k = Some v"
  by (induction m) auto

lemma health_after_set: "health_adapter (ds_health (ds_set_adapter a s d)) a = s"
  by (simp add: ds_set_adapter_def health_set_adapter_def health_adapter_def bm_get_insert_same)

lemma ingested_is_ready:
  assumes "ingest_runtime_workload L env w d = (Inr outcome, d')"
  shows "health_adapter (ds_health d') (rw_adapter w) = CsReady"
  using assms by (auto simp: ingest_runtime_workload_def health_after_set split: prod.splits sum.splits)

text \<open>What the loop needs of the adapter it runs: a workload is named after it.\<close>

locale runtime_backend =
  fixes A :: "'c poller" and adapter :: adapter_kind
  assumes own_workload: "po_workload A m c = Inr (Some w) \<Longrightarrow> rw_adapter w = adapter"
begin

lemma own_result: "fst (poll_turn A m g) = Some (Inr (Some w)) \<Longrightarrow> rw_adapter w = adapter"
  by (auto simp: poll_turn_def Let_def split: list.splits sum.splits option.splits prod.splits dest: own_workload)

lemma turn_health:
  "health_adapter (ds_health (ru_daemon (run_turn L A policy adapter ev r))) adapter =
     (case turn_outcome L A ev r of
        [] \<Rightarrow> health_adapter (ds_health (ru_daemon r)) adapter
      | b # _ \<Rightarrow> if taken b then CsReady else CsDegraded)"
proof (cases ev)
  case (AvTurn m env)
  obtain x g where turn: "poll_turn A m (ru_backend r) = (x, g)" by fastforce
  show ?thesis
  proof (cases "\<exists>w. x = Some (Inr (Some w)) \<and> ru_end r = AeRunning")
    case True
    then obtain w where w: "x = Some (Inr (Some w))" "ru_end r = AeRunning" by auto
    then have "rw_adapter w = adapter" using own_result [of m "ru_backend r" w] turn by simp
    then show ?thesis
      using AvTurn turn w ingested_is_ready [of L env w "ru_daemon r"]
      by (auto simp: run_turn_def turn_outcome_def ingest_result_def hand_over_def health_after_set Let_def
          split: prod.splits sum.splits)
  next
    case False
    then show ?thesis using AvTurn turn
      by (auto simp: run_turn_def turn_outcome_def backend_failed_def health_after_set Let_def
          split: option.splits sum.splits adapter_failure.splits)
  qed
qed (simp add: run_turn_def turn_outcome_def)

lemma run_health:
  "health_adapter (ds_health (ru_daemon (fold (run_turn L A default_backoff adapter) evs r))) adapter =
     (if run_outcomes L A adapter evs r = [] then health_adapter (ds_health (ru_daemon r)) adapter
      else if taken (last (run_outcomes L A adapter evs r)) then CsReady else CsDegraded)"
proof (induction evs arbitrary: r)
  case (Cons ev evs)
  show ?case
    using turn_outcome_le [of L A ev r] Cons.IH [of "run_turn L A default_backoff adapter ev r"]
      turn_health [where L = L and policy = default_backoff and ev = ev and r = r]
    by (cases "turn_outcome L A ev r") auto
qed simp

end

interpretation docker_backend: runtime_backend "docker_poller T R socket" AkDocker
  by unfold_locales
    (auto simp: docker_poller_def docker_workload_def res_then_Inr dest: docker_workload_label(2))

interpretation cri_backend: runtime_backend "cri_poller T R c adapter" adapter
  by unfold_locales
    (auto simp: cri_poller_def cri_workload_def res_then_Inr snapshot_from_cri_inspect_def
      split: sum.splits if_splits option.splits dest!: containerd_workload_label(2))

interpretation kubernetes_backend: runtime_backend "kubernetes_poller T R c kubectl" AkKubernetes
  by unfold_locales (auto simp: kubernetes_poller_def dest: pod_workload_label(2))

section \<open>The counts of an adapter\<close>

text \<open>At each failure of the runtime, how many there have been in a row.\<close>

definition failures_in_row :: "turn_result list \<Rightarrow> nat" where
  "failures_in_row os = length (takeWhile (\<lambda>o1. o1 = TrFailed) (rev os))"

definition failure_runs :: "turn_result list \<Rightarrow> nat list" where
  "failure_runs os =
     map (\<lambda>i. failures_in_row (take (Suc i) os)) (filter (\<lambda>i. os ! i = TrFailed) [0..<length os])"

text \<open>The recoveries: workloads that were taken in right after a failure.\<close>

definition recoveries :: "turn_result list \<Rightarrow> nat" where
  "recoveries os = length (filter (\<lambda>i. os ! i = TrFailed \<and> taken (os ! Suc i)) [0..<length os - 1])"

text \<open>What the summary of a run has to say after these results.\<close>

definition counts :: "adapter_kind \<Rightarrow> turn_result list \<Rightarrow> 'c adapter_run \<Rightarrow> bool" where
  "counts adapter os r \<longleftrightarrow>
     (let s = ru_summary r in
      unat (as_discovered s) = length (filter taken os)
      \<and> unat (as_missing_intent s) = length (filter (\<lambda>o1. o1 = TrTaken MissingIntent) os)
      \<and> unat (as_ingest_errors s) = length (filter (\<lambda>o1. o1 = TrRefused) os)
      \<and> unat (as_backend_errors s) = length (filter (\<lambda>o1. o1 = TrFailed) os)
      \<and> unat (as_backend_recoveries s) = recoveries os
      \<and> ru_delays r = map (\<lambda>n. adapter_backoff_delay default_backoff adapter (of_nat n)) (failure_runs os))"

definition row_counted :: "turn_result list \<Rightarrow> 'c adapter_run \<Rightarrow> bool" where
  "row_counted os r \<longleftrightarrow> unat (ru_consecutive r) = failures_in_row os"

lemma failures_in_row_snoc:
  "failures_in_row (os @ [o1]) = (if o1 = TrFailed then Suc (failures_in_row os) else 0)"
  by (simp add: failures_in_row_def)

lemma failures_in_row_pos: "0 < failures_in_row os \<longleftrightarrow> os \<noteq> [] \<and> last os = TrFailed"
  by (cases os rule: rev_cases) (simp_all add: failures_in_row_snoc, simp add: failures_in_row_def)

lemma failures_in_row_le: "failures_in_row os \<le> length os"
  by (metis failures_in_row_def length_rev length_takeWhile_le)

lemma failure_runs_snoc:
  "failure_runs (os @ [o1]) = failure_runs os @ (if o1 = TrFailed then [Suc (failures_in_row os)] else [])"
proof -
  have "filter (\<lambda>i. (os @ [o1]) ! i = TrFailed) [0..<length os] = filter (\<lambda>i. os ! i = TrFailed) [0..<length os]"
    by (intro filter_cong) (simp_all add: nth_append)
  then show ?thesis by (auto simp: failure_runs_def failures_in_row_snoc)
qed

lemma recoveries_snoc:
  "recoveries (os @ [o1]) = recoveries os + (if 0 < failures_in_row os \<and> taken o1 then 1 else 0)"
proof (cases os rule: rev_cases)
  case (snoc os' x)
  have "filter (\<lambda>i. (os @ [o1]) ! i = TrFailed \<and> taken ((os @ [o1]) ! Suc i)) [0..<length os']
      = filter (\<lambda>i. os ! i = TrFailed \<and> taken (os ! Suc i)) [0..<length os']"
    by (intro filter_cong) (simp_all add: nth_append snoc)
  then show ?thesis by (simp add: snoc recoveries_def failures_in_row_snoc nth_append)
qed (simp add: recoveries_def failures_in_row_def)

lemma unat_sat_Suc: "unat x + 1 < 2 ^ 64 \<Longrightarrow> unat (sat_add x 1) = Suc (unat x)" for x :: u64
  by (simp add: unat_sat_add)

lemma recoveries_le: "recoveries os \<le> length os"
proof -
  have "recoveries os \<le> length [0..<length os - 1]" unfolding recoveries_def by (rule length_filter_le)
  then show ?thesis by simp
qed

lemma counts_small:
  assumes "counts adapter os r" "row_counted os r" "length os + 1 < 2 ^ 64"
  shows "unat (as_discovered (ru_summary r)) + 1 < 2 ^ 64" "unat (as_missing_intent (ru_summary r)) + 1 < 2 ^ 64"
    "unat (as_ingest_errors (ru_summary r)) + 1 < 2 ^ 64" "unat (as_backend_errors (ru_summary r)) + 1 < 2 ^ 64"
    "unat (as_backend_recoveries (ru_summary r)) + 1 < 2 ^ 64" "unat (ru_consecutive r) + 1 < 2 ^ 64"
proof -
  have f: "length (filter P os) \<le> length os" for P by (rule length_filter_le)
  have "unat (as_discovered (ru_summary r)) \<le> length os" "unat (as_missing_intent (ru_summary r)) \<le> length os"
    "unat (as_ingest_errors (ru_summary r)) \<le> length os" "unat (as_backend_errors (ru_summary r)) \<le> length os"
    using assms(1) f unfolding counts_def Let_def by presburger+
  moreover have "unat (as_backend_recoveries (ru_summary r)) \<le> length os" "unat (ru_consecutive r) \<le> length os"
    using assms(1,2) recoveries_le [of os] failures_in_row_le [of os] unfolding counts_def row_counted_def Let_def
    by presburger+
  ultimately show "unat (as_discovered (ru_summary r)) + 1 < 2 ^ 64" "unat (as_missing_intent (ru_summary r)) + 1 < 2 ^ 64"
    "unat (as_ingest_errors (ru_summary r)) + 1 < 2 ^ 64" "unat (as_backend_errors (ru_summary r)) + 1 < 2 ^ 64"
    "unat (as_backend_recoveries (ru_summary r)) + 1 < 2 ^ 64" "unat (ru_consecutive r) + 1 < 2 ^ 64"
    using assms(3) by linarith+
qed

lemma hand_over_counts:
  assumes "counts adapter os r" "row_counted os r" "length os + 1 < 2 ^ 64"
  shows "counts adapter (os @ [ingest_result L env w (ru_daemon r)]) (hand_over L env adapter w r)
    \<and> row_counted (os @ [ingest_result L env w (ru_daemon r)]) (hand_over L env adapter w r)"
proof -
  note sucs = counts_small [OF assms(1-3), THEN unat_sat_Suc]
  have row: "0 < ru_consecutive r \<longleftrightarrow> 0 < failures_in_row os"
    using assms(2) by (simp add: row_counted_def word_less_nat_alt)
  obtain x d where ing: "ingest_runtime_workload L env w (ru_daemon r) = (x, d)" by fastforce
  note c = assms(1) [unfolded counts_def Let_def]
  show ?thesis
  proof (cases x)
    case (Inl e)
    then have "ingest_result L env w (ru_daemon r) = TrRefused" by (simp add: ingest_result_def ing)
    with c Inl sucs(3) show ?thesis
      by (simp add: hand_over_def ing counts_def row_counted_def Let_def failures_in_row_snoc failure_runs_snoc
          recoveries_snoc)
  next
    case (Inr outcome)
    then have "ingest_result L env w (ru_daemon r) = TrTaken outcome" by (simp add: ingest_result_def ing)
    with c Inr sucs(1,2,5) row show ?thesis
      by (simp add: hand_over_def ing counts_def row_counted_def Let_def failures_in_row_snoc failure_runs_snoc
          recoveries_snoc)
  qed
qed

lemma backend_failed_counts:
  assumes "counts adapter os r" "row_counted os r" "length os + 1 < 2 ^ 64"
  shows "counts adapter (os @ [TrFailed]) (backend_failed default_backoff adapter r)
    \<and> row_counted (os @ [TrFailed]) (backend_failed default_backoff adapter r)"
proof -
  note sucs = counts_small [OF assms, THEN unat_sat_Suc]
  have "sat_add (ru_consecutive r) 1 = of_nat (Suc (failures_in_row os))"
  proof -
    have "unat (sat_add (ru_consecutive r) 1) = Suc (failures_in_row os)"
      using sucs(6) assms(2) by (simp add: row_counted_def)
    then have "of_nat (unat (sat_add (ru_consecutive r) 1)) = (of_nat (Suc (failures_in_row os)) :: u64)" by simp
    then show ?thesis by simp
  qed
  then show ?thesis
    using assms(1,2) sucs
    by (simp add: backend_failed_def counts_def row_counted_def Let_def failures_in_row_snoc failure_runs_snoc
        recoveries_snoc)
qed

lemma counts_frame [simp]:
  "counts adapter os (r\<lparr>ru_backend := g\<rparr>) = counts adapter os r"
  "counts adapter os (r\<lparr>ru_end := e\<rparr>) = counts adapter os r"
  "row_counted os (r\<lparr>ru_backend := g\<rparr>) = row_counted os r" "row_counted os (r\<lparr>ru_end := e\<rparr>) = row_counted os r"
  by (simp_all add: counts_def row_counted_def)

lemma run_turn_counts:
  assumes "counts adapter os r" "row_counted os r" "length os + 1 < 2 ^ 64"
  shows "counts adapter (os @ turn_outcome L A ev r) (run_turn L A default_backoff adapter ev r)
    \<and> row_counted (os @ turn_outcome L A ev r) (run_turn L A default_backoff adapter ev r)"
proof (cases ev)
  case (AvTurn m env)
  obtain x g where turn: "poll_turn A m (ru_backend r) = (x, g)" by fastforce
  show ?thesis
  proof (cases "\<exists>w. x = Some (Inr (Some w)) \<and> ru_end r = AeRunning")
    case True
    then obtain w where w: "x = Some (Inr (Some w))" "ru_end r = AeRunning" by auto
    show ?thesis
      using AvTurn turn w assms(1,2)
        hand_over_counts [of adapter os "r\<lparr>ru_backend := g\<rparr>" L env w] assms(3)
      by (auto simp: run_turn_def turn_outcome_def)
  next
    case False
    then show ?thesis
      using AvTurn turn assms backend_failed_counts [of adapter os "r\<lparr>ru_backend := g\<rparr>"]
      by (auto simp: run_turn_def turn_outcome_def split: option.splits sum.splits adapter_failure.splits)
  qed
qed (use assms in \<open>simp add: run_turn_def turn_outcome_def\<close>)

lemma run_counts:
  assumes "counts adapter os r" "row_counted os r" "length os + length evs < 2 ^ 64"
  shows "counts adapter (os @ run_outcomes L A adapter evs r) (fold (run_turn L A default_backoff adapter) evs r)"
  using assms
proof (induction evs arbitrary: r os)
  case (Cons ev evs)
  let ?os = "os @ turn_outcome L A ev r"
  have "counts adapter ?os (run_turn L A default_backoff adapter ev r)
    \<and> row_counted ?os (run_turn L A default_backoff adapter ev r)"
    using Cons.prems by (intro run_turn_counts) simp_all
  moreover have "length ?os + length evs < 2 ^ 64"
    using turn_outcome_le [of L A ev r] Cons.prems(3) by simp
  ultimately show ?case using Cons.IH [of ?os "run_turn L A default_backoff adapter ev r"] by simp
qed simp

text \<open>C38. An adapter reports what happened. Take the results of the turns of a run, however it goes: workloads that the
  daemon took in or refused, and errors of the runtime. Once there is one, the health of
  the adapter is ready exactly if the last result was a workload that was taken in, and
  degraded otherwise. And the summary has the exact numbers: of the workloads taken in, of those among them without
  an intent, of those refused, of the errors of the runtime, and of the recoveries, which are
  the workloads taken in right after an error. After each error the adapter waited the delay of its
  number in the row of errors.\<close>

theorem adapter_reports_truly:
  assumes "runtime_backend A adapter" and "length evs < 2 ^ 64"
    and "r = run_runtime_adapter L A adapter seen_capacity evs d"
    and "outcomes = run_outcomes L A adapter evs (adapter_run_new adapter seen_capacity d)"
  shows "(outcomes = []
        \<or> health_adapter (ds_health (ru_daemon r)) adapter = (if taken (last outcomes) then CsReady else CsDegraded))
    \<and> counts adapter outcomes r"
proof -
  have "counts adapter [] (adapter_run_new adapter seen_capacity d :: 'a adapter_run)"
    "row_counted [] (adapter_run_new adapter seen_capacity d :: 'a adapter_run)"
    by (simp_all add: counts_def row_counted_def adapter_run_new_def adapter_summary_new_def recoveries_def failure_runs_def
        failures_in_row_def)
  from run_counts [OF this, of evs L A] assms(2-4) have "counts adapter outcomes r"
    by (simp add: run_runtime_adapter_def)
  then show ?thesis
    using runtime_backend.run_health [OF assms(1), of L evs "adapter_run_new adapter seen_capacity d"] assms(3,4)
    by (auto simp: run_runtime_adapter_def)
qed

definition sample_docker :: "string poller" where
  "sample_docker =
     docker_poller sample_client_lib \<lparr>ar_proc_root = ''/proc'', ar_cgroup_root = ''/sys/fs/cgroup''\<rparr> ''/run/docker.sock''"

lemma adapter_reports_truly_witness:
  "\<forall>(L :: json daemon_lib) env d.
     health_adapter (ds_health (ru_daemon
       (run_runtime_adapter L sample_docker AkDocker 16 [AvTurn quiet_moment env, AvShutdown] d))) AkDocker = CsDegraded"
proof (intro allI)
  fix L :: "json daemon_lib" and env d
  let ?r = "adapter_run_new AkDocker 16 d" and ?evs = "[AvTurn quiet_moment env, AvShutdown]"
  have ok: "runtime_backend sample_docker AkDocker"
    unfolding sample_docker_def by (rule docker_backend.runtime_backend_axioms)
  have "run_outcomes L sample_docker AkDocker ?evs ?r = [TrFailed]"
    by (simp add: turn_outcome_def adapter_run_new_def polling_new_def poll_turn_def sample_docker_def docker_poller_def
        docker_list_def docker_get_json_def quiet_moment_def run_turn_def backend_failed_def Let_def)
  with adapter_reports_truly [OF ok _ refl refl, of ?evs L 16 d]
  show "health_adapter (ds_health (ru_daemon (run_runtime_adapter L sample_docker AkDocker 16 ?evs d))) AkDocker
      = CsDegraded"
    by (simp del: run_outcomes.simps)
qed

text \<open>
  A runtime that answers again without a new container does not make its adapter ready: the health stays
  degraded until a workload is taken in.
\<close>

lemma answer_leaves_health:
  assumes "pg_pending (ru_backend r) = []" "po_list A m = Inr cs"
  shows "ru_daemon (run_turn L A policy adapter (AvTurn m env) r) = ru_daemon r"
  using assms by (simp add: run_turn_def poll_turn_def split: prod.split)

end
