(* ===== verification/Daemon_Server.thy ===== *)
theory Daemon_Server
  imports Daemon_Restart Daemon_Config Adapter_Loop
begin

text \<open>
  The server of the daemon (\<open>crates/apolysis-daemon/src/server.rs\<close>): a request and its response,
  the frames of the socket, the limit on connections, the metrics page, and the order of the start
  and of the end. The JSON of requests and responses, the clock, the socket calls and the tasks'
  ends are parameters.
\<close>

section \<open>Responses\<close>

definition daemon_schema_v1 :: u32 where "daemon_schema_v1 = 1"

datatype daemon_response =
    RespAck u32 string "string option"
  | RespHealth u32 bool bool health_snapshot
  | RespSession u32 "session_state option"
  | RespSessionList u32 string "retention_tier option" "session_state list"
  | RespRetentionPurge u32 string bool u64 "string list" "string list" "string list"
  | RespError u32 string string

definition ack :: "string \<Rightarrow> string option \<Rightarrow> daemon_response" where
  "ack operation sid = RespAck daemon_schema_v1 operation sid"

definition error_response :: "string \<Rightarrow> string \<Rightarrow> daemon_response" where
  "error_response code message = RespError daemon_schema_v1 code message"

fun intent_error_code :: "intent_error \<Rightarrow> string" where
  "intent_error_code (FrameTooLarge _) = ''frame_too_large''"
| "intent_error_code _ = ''invalid_request''"

section \<open>Requests\<close>

text \<open>An operation that answers with nothing but success.\<close>

definition acknowledged ::
    "string \<Rightarrow> string \<Rightarrow> (string, 'a) res \<times> daemon_state \<Rightarrow> daemon_response \<times> daemon_state" where
  "acknowledged operation sid outcome =
     (case outcome of
        (Inl e, d) \<Rightarrow> (error_response ''state_error'' e, d)
      | (Inr _, d) \<Rightarrow> (ack operation (Some sid), d))"

fun dispatch ::
    "'v daemon_lib \<Rightarrow> daemon_env \<Rightarrow> (submit_error, queue_stats) res \<Rightarrow> intent_request \<Rightarrow> u64 \<Rightarrow> daemon_state
     \<Rightarrow> daemon_response \<times> daemon_state" where
  "dispatch L env stats (ReqRegister i) now d =
     acknowledged ''register'' (si_session_id i) (ds_register L env i now d)"
| "dispatch L env stats (ReqRenew sid expires) now d =
     acknowledged ''renew'' sid (ds_renew L env sid expires now d)"
| "dispatch L env stats (ReqClose sid) now d = acknowledged ''close'' sid (ds_close L env sid d)"
| "dispatch L env stats (ReqQuery tenant sid) now d =
     (RespSession daemon_schema_v1 (ds_query_for_tenant sid tenant d), d)"
| "dispatch L env stats (ReqListSessions tenant tier) now d =
     (RespSessionList daemon_schema_v1 tenant tier (ds_list_for_tenant tenant tier d), d)"
| "dispatch L env stats (ReqApplyRetention tenant dry_run requested) now d =
     (case ds_apply_retention env tenant (case requested of None \<Rightarrow> now | Some n \<Rightarrow> n) dry_run d of
        (Inl e, d') \<Rightarrow> (error_response ''state_error'' e, d')
      | (Inr r, d') \<Rightarrow>
          (RespRetentionPurge daemon_schema_v1 (pr_tenant_id r) (pr_dry_run r) (pr_now r) (pr_eligible r)
             (pr_purged r) (pr_retained r), d'))"
| "dispatch L env stats ReqHealth now d =
     (let h = ds_health_of stats d in (RespHealth daemon_schema_v1 (liveness h) (readiness h) h, d))"

section \<open>Frames\<close>

text \<open>What a connection meets: the JSON library, the clock, the queue, the socket.\<close>

record connection_env =
  cn_from_slice :: "string \<Rightarrow> (string, intent_request) res"
  cn_to_vec :: "daemon_response \<Rightarrow> (string, string) res"
  cn_now :: "(string, u64) res"
  cn_stats :: "(submit_error, queue_stats) res"
  cn_short_read :: string
  cn_write :: "string \<Rightarrow> (string, unit) res"

definition be_val :: "string \<Rightarrow> nat" where
  "be_val bytes = foldl (\<lambda>n c. n * 256 + byte_val c) 0 bytes"

text \<open>The bytes written: a refused write adds nothing.\<close>

definition write_response :: "connection_env \<Rightarrow> daemon_response \<Rightarrow> (string, unit) res \<times> string" where
  "write_response C resp =
     (case cn_to_vec C resp of
        Inl e \<Rightarrow> (Inl (''failed to serialize daemon response: '' @ e), [])
      | Inr bytes \<Rightarrow>
          if 2 ^ 32 \<le> length bytes then (Inl ''daemon response is too large'', [])
          else
            (let prefix = be_bytes 4 (of_nat (length bytes) :: u32) in
             case cn_write C prefix of
               Inl e \<Rightarrow> (Inl (''failed to write response length: '' @ e), [])
             | Inr _ \<Rightarrow>
                 (case cn_write C bytes of
                    Inl e \<Rightarrow> (Inl (''failed to write response body: '' @ e), prefix)
                  | Inr _ \<Rightarrow> (Inr (), prefix @ bytes))))"

definition frame_too_large :: "nat \<Rightarrow> daemon_response" where
  "frame_too_large n = error_response ''frame_too_large'' (''request frame is too large: '' @ dec_str n)"

text \<open>\<open>input\<close>: all the bytes that the client sends before it stops.\<close>

definition handle_connection ::
    "'v daemon_lib \<Rightarrow> daemon_env \<Rightarrow> connection_env \<Rightarrow> string \<Rightarrow> daemon_state
     \<Rightarrow> ((string, unit) res \<times> string) \<times> daemon_state" where
  "handle_connection L env C input d =
     (if length input < 4 then ((Inl (''failed to read request length: '' @ cn_short_read C), []), d)
      else
        (let n = be_val (take 4 input) in
         if max_intent_frame_bytes < n then (write_response C (frame_too_large n), d)
         else if length (drop 4 input) < n then
           ((Inl (''failed to read request body: '' @ cn_short_read C), []), d)
         else
           (case cn_now C of
              Inl e \<Rightarrow> ((Inl e, []), d)
            | Inr now \<Rightarrow>
                (let (resp, d') =
                   (case decode_intent_frame (cn_from_slice C) (take n (drop 4 input)) now of
                      Inr request \<Rightarrow> dispatch L env (cn_stats C) request now d
                    | Inl e \<Rightarrow> (error_response (intent_error_code e) (intent_error_str e), d))
                 in (write_response C resp, d')))))"

text \<open>How a client reads an answer.\<close>

definition read_frame :: "string \<Rightarrow> string option" where
  "read_frame bytes =
     (if length bytes < 4 \<or> length (drop 4 bytes) \<noteq> be_val (take 4 bytes) then None else Some (drop 4 bytes))"

lemma be_val_simps [simp]:
  "be_val [] = 0" "be_val (c # cs) = byte_val c * 256 ^ length cs + be_val cs"
proof -
  have "foldl (\<lambda>n c. n * 256 + byte_val c) k cs = k * 256 ^ length cs + foldl (\<lambda>n c. n * 256 + byte_val c) 0 cs" for k
  proof (induction cs arbitrary: k)
    case (Cons a cs)
    show ?case using Cons [of "k * 256 + byte_val a"] Cons [of "byte_val a"] by (simp add: algebra_simps)
  qed simp
  from this [of "byte_val c"] show "be_val (c # cs) = byte_val c * 256 ^ length cs + be_val cs" by (simp add: be_val_def)
qed (simp add: be_val_def)

lemma be_val_word: "be_val (be_bytes 4 (w :: u32)) = unat w"
proof -
  have "be_val (rev (map (\<lambda>i. char_of ((x div 256 ^ i) mod 256)) [0..<n])) = (\<Sum>i<n. ((x div 256 ^ i) mod 256) * 256 ^ i)"
    for x n by (induction n) (simp_all add: byte_val_def)
  moreover have "unat w < 256 ^ 4" using unsigned_less [of w] by simp
  then have "unat w mod 256 ^ 4 = unat w" by simp
  ultimately show ?thesis by (simp add: be_bytes_def unat_be_sum [symmetric])
qed

lemma read_frame_written:
  assumes "write_response C resp = (Inr (), out)"
  obtains body where "cn_to_vec C resp = Inr body" "read_frame out = Some body"
proof -
  obtain body where body: "cn_to_vec C resp = Inr body" "length body < 2 ^ 32"
    "out = be_bytes 4 (of_nat (length body) :: u32) @ body"
    using assms by (auto simp: write_response_def Let_def not_le split: sum.splits if_splits)
  moreover have "length (be_bytes 4 w) = 4" for w :: u32 by (simp add: be_bytes_def)
  moreover have "unat (of_nat (length body) :: u32) = length body"
    using body(2) by (simp add: unsigned_of_nat take_bit_nat_eq_self)
  ultimately show thesis using that by (simp add: read_frame_def be_val_word)
qed

text \<open>The request that a connection carries, and the time at which it is read, if it carries one.\<close>

definition requested :: "connection_env \<Rightarrow> string \<Rightarrow> (intent_request \<times> u64) option" where
  "requested C input =
     (let n = be_val (take 4 input) in
      if length input < 4 \<or> max_intent_frame_bytes < n \<or> length (drop 4 input) < n then None
      else
        (case cn_now C of
           Inl _ \<Rightarrow> None
         | Inr now \<Rightarrow>
             (case decode_intent_frame (cn_from_slice C) (take n (drop 4 input)) now of
                Inl _ \<Rightarrow> None | Inr request \<Rightarrow> Some (request, now))))"

text \<open>C5. Every connection gets one whole answer, and only a valid request reaches the state. When the
  daemon has served a connection without an error, the client reads from the socket exactly one
  frame, whose body is the JSON of a response; that response is an error, and the state is
  as it was, unless the client sent a frame within the bound whose body is a request that passes its
  checks at the time it is read: then response and state are those of the request. A connection that
  fails without such a request changes nothing, and one that fails after it has the state of the
  request.\<close>

theorem connection_answered:
  assumes "handle_connection L env C input d = ((res, out), d')"
  shows "\<exists>resp.
      (case requested C input of
         None \<Rightarrow> d' = d \<and> (\<exists>code message. resp = error_response code message)
       | Some (request, now) \<Rightarrow> dispatch L env (cn_stats C) request now d = (resp, d'))
      \<and> (is_ok res \<longrightarrow> (\<exists>body. cn_to_vec C resp = Inr body \<and> read_frame out = Some body))"
proof -
  have written: "\<exists>body. cn_to_vec C resp = Inr body \<and> read_frame out = Some body"
    if "write_response C resp = (res, out)" "is_ok res" for resp
    using that read_frame_written [of C resp out] by (auto simp: is_ok_iff)
  have error: "\<exists>resp. (\<exists>code message. resp = error_response code message)
      \<and> (is_ok res \<longrightarrow> (\<exists>body. cn_to_vec C resp = Inr body \<and> read_frame out = Some body))"
    if "(\<exists>code message. write_response C (error_response code message) = (res, out)) \<or> \<not> is_ok res"
    using that written by blast
  let ?n = "be_val (take 4 input)" and ?frame = "take (be_val (take 4 input)) (drop 4 input)"
  show ?thesis
  proof (cases "requested C input")
    case None
    with assms have "d' = d \<and> ((\<exists>code message. write_response C (error_response code message) = (res, out)) \<or> \<not> is_ok res)"
      by (auto simp: handle_connection_def requested_def frame_too_large_def Let_def
          split: if_splits sum.splits prod.splits)
    with error None show ?thesis by simp
  next
    case (Some req)
    then obtain now request where req: "req = (request, now)" "cn_now C = Inr now"
      "decode_intent_frame (cn_from_slice C) ?frame now = Inr request"
      and read: "\<not> length input < 4" "\<not> max_intent_frame_bytes < ?n" "\<not> length (drop 4 input) < ?n"
      by (auto simp: requested_def Let_def split: if_splits sum.splits)
    obtain resp d2 where run: "dispatch L env (cn_stats C) request now d = (resp, d2)" by fastforce
    have "write_response C resp = (res, out)" "d' = d2"
      using assms req run read by (simp_all add: handle_connection_def Let_def)
    with written run Some req(1) show ?thesis by auto
  qed
qed

section \<open>Tenants\<close>

fun request_tenant :: "intent_request \<Rightarrow> string option" where
  "request_tenant (ReqQuery tenant _) = Some tenant"
| "request_tenant (ReqListSessions tenant _) = Some tenant"
| "request_tenant (ReqApplyRetention tenant _ _) = Some tenant"
| "request_tenant _ = None"

definition of_tenant :: "string \<Rightarrow> session_state \<Rightarrow> bool" where
  "of_tenant t st \<longleftrightarrow> si_tenant_id (st_intent st) = t"

definition tenant_sessions :: "string \<Rightarrow> daemon_state \<Rightarrow> (string \<times> session_state) list" where
  "tenant_sessions t d = filter (\<lambda>p. of_tenant t (snd p)) (sr_sessions (ds_registry d))"

definition same_view :: "string \<Rightarrow> daemon_state \<Rightarrow> daemon_state \<Rightarrow> bool" where
  "same_view t d1 d2 \<longleftrightarrow>
     tenant_sessions t d1 = tenant_sessions t d2 \<and> ds_sessions_dir d1 = ds_sessions_dir d2"

lemma bm_get_filter:
  "distinct (map fst m) \<Longrightarrow>
   bm_get (filter (\<lambda>p. P (snd p)) m) k = (case bm_get m k of Some v \<Rightarrow> if P v then Some v else None | None \<Rightarrow> None)"
proof (induction m)
  case (Cons a m)
  show ?case
  proof (cases "fst a = k")
    case True
    with Cons.prems have "bm_get m k = None" by (simp add: map_of_eq_None_iff)
    with Cons True show ?thesis by simp
  qed (use Cons in simp)
qed simp

lemma get_for_tenant_view:
  assumes "bm_wf (sr_sessions r)"
  shows "get_for_tenant r sid t = bm_get (filter (\<lambda>p. of_tenant t (snd p)) (sr_sessions r)) sid"
  using bm_get_filter [OF bm_distinct_keys [OF assms], of "of_tenant t" sid]
  by (simp add: get_for_tenant_def of_tenant_def split: option.split)

lemma list_for_tenant_view:
  "list_for_tenant r t tier =
     filter (\<lambda>st. case tier of Some t \<Rightarrow> si_retention_tier (st_intent st) = t | None \<Rightarrow> True)
       (map snd (filter (\<lambda>p. of_tenant t (snd p)) (sr_sessions r)))"
  by (simp add: list_for_tenant_def of_tenant_def filter_map comp_def conj_commute)

lemma report_view:
  "retention_purge_report r t now dry =
     (let mine = filter (\<lambda>p. of_tenant t (snd p)) (sr_sessions r)
      in \<lparr>pr_tenant_id = t, pr_now = now, pr_dry_run = dry,
          pr_eligible = map fst (filter (\<lambda>p. retention_eligible (snd p) now) mine),
          pr_purged = [],
          pr_retained = map fst (filter (\<lambda>p. \<not> retention_eligible (snd p) now) mine)\<rparr>)"
  by (simp add: retention_purge_report_def of_tenant_def)

lemma remove_dirs_result: "ds_sessions_dir d1 = ds_sessions_dir d2 \<Longrightarrow> fst (remove_dirs env sids d1) = fst (remove_dirs env sids d2)"
proof (induction sids arbitrary: d1 d2)
  case (Cons s sids)
  let ?dir = "path_join (ds_sessions_dir d2) s"
  have "ds_sessions_dir (snd (remove_session_dir env ?dir d)) = ds_sessions_dir d"
    "fst (remove_session_dir env ?dir d) = de_remove_dir env ?dir" for d
    by (simp_all add: remove_session_dir_def Let_def)
  with Cons.IH [of "snd (remove_session_dir env ?dir d1)" "snd (remove_session_dir env ?dir d2)"] Cons.prems
  show ?case
    by (cases "de_remove_dir env ?dir") (simp_all add: Let_def case_prod_beta)
qed simp

text \<open>What the removal of a session's directory leaves of another session.\<close>

definition same_timeline :: "string \<Rightarrow> daemon_state \<Rightarrow> daemon_state \<Rightarrow> bool" where
  "same_timeline sid d d' \<longleftrightarrow>
     bm_get (ds_files d') sid = bm_get (ds_files d) sid \<and> bm_get (ds_stores d') sid = bm_get (ds_stores d) sid
     \<and> (sid \<in> set (ds_unlinked d') \<longleftrightarrow> sid \<in> set (ds_unlinked d))"

lemma same_timeline_trans: "same_timeline sid d d1 \<Longrightarrow> same_timeline sid d1 d2 \<Longrightarrow> same_timeline sid d d2"
  by (simp add: same_timeline_def)

lemma same_timeline_refl [simp]: "same_timeline sid d d"
  by (simp add: same_timeline_def)

lemma bm_get_filter_keep: "(\<And>v. P (k, v)) \<Longrightarrow> bm_get (filter P m) k = bm_get m k"
  by (induction m) auto

lemma remove_session_dir_frame:
  assumes "remove_session_dir env (path_join (ds_sessions_dir d) s) d = (res, d')"
  shows "ds_registry d' = ds_registry d" "ds_sessions_dir d' = ds_sessions_dir d"
    and "dir_named s \<Longrightarrow> file_name sid \<Longrightarrow> sid \<noteq> s \<Longrightarrow> same_timeline sid d d'"
  using assms dir_below_own [of s sid "ds_sessions_dir d"]
  by (auto simp: remove_session_dir_def Let_def same_timeline_def intro!: bm_get_filter_keep)

lemma remove_dirs_frame:
  "ds_registry (snd (remove_dirs env sids d)) = ds_registry d"
  "list_all dir_named sids \<Longrightarrow> file_name sid \<Longrightarrow> sid \<notin> set sids \<Longrightarrow>
   same_timeline sid d (snd (remove_dirs env sids d))"
proof (induction sids arbitrary: d)
  case (Cons s sids)
  {
    case 1
    show ?case using Cons.IH(1) remove_session_dir_frame(1)
      by (simp add: Let_def split: prod.split sum.split)
  next
    case 2
    obtain res d1 where r: "remove_session_dir env (path_join (ds_sessions_dir d) s) d = (res, d1)" by fastforce
    have "same_timeline sid d d1" by (rule remove_session_dir_frame(3) [OF r]) (use 2 in auto)
    moreover have "same_timeline sid d1 (snd (remove_dirs env sids d1))" using Cons.IH(2) 2 by simp
    ultimately show ?case
      by (cases res) (auto simp: Let_def r intro: same_timeline_trans)
  }
qed simp_all

lemma drop_stores_frame:
  assumes "bm_wf (ds_files d)"
  shows "ds_registry (fold (drop_store env) sids d) = ds_registry d
    \<and> ds_sessions_dir (fold (drop_store env) sids d) = ds_sessions_dir d
    \<and> (sid \<notin> set sids \<longrightarrow> same_timeline sid d (fold (drop_store env) sids d))"
  using assms
proof (induction sids arbitrary: d)
  case (Cons s sids)
  have "bm_wf (ds_files (drop_store env s d))" "ds_registry (drop_store env s d) = ds_registry d"
    "ds_sessions_dir (drop_store env s d) = ds_sessions_dir d"
    "sid \<noteq> s \<Longrightarrow> same_timeline sid d (drop_store env s d)"
    using Cons.prems by (auto simp: drop_store_def bm_wf_insert same_timeline_def split: option.splits)
  with Cons.IH [of "drop_store env s d"] same_timeline_trans [of sid d "drop_store env s d"] show ?case by simp
qed simp

definition retention_of :: "string \<Rightarrow> u64 \<Rightarrow> daemon_state \<Rightarrow> purge_report" where
  "retention_of t now d =
     (let r = retention_purge_report (ds_registry d) t now False in r\<lparr>pr_purged := pr_eligible r\<rparr>)"

lemma retention_of_view: "same_view t d1 d2 \<Longrightarrow> retention_of t now d1 = retention_of t now d2"
  by (simp add: retention_of_def report_view same_view_def tenant_sessions_def)

text \<open>Retention that is not a dry run, in terms of the report.\<close>

lemma apply_retention_run:
  assumes wf: "registry_wf (ds_registry d)" and files: "bm_wf (ds_files d)"
  shows "fst (ds_apply_retention env t now False d) =
      map_sum id (\<lambda>_. retention_of t now d)
        (fst (remove_dirs env (pr_eligible (retention_of t now d)) d))"
    and "of_tenant t st = False \<Longrightarrow> session_at (ds_registry d) sid = Some st \<Longrightarrow> file_name sid \<Longrightarrow>
      (\<And>x y. session_at (ds_registry d) x = Some y \<Longrightarrow> of_tenant t y \<Longrightarrow> dir_named x) \<Longrightarrow>
      session_at (ds_registry (snd (ds_apply_retention env t now False d))) sid = Some st
      \<and> same_timeline sid d (snd (ds_apply_retention env t now False d))"
proof -
  let ?r = "ds_registry d" and ?e = "pr_eligible (retention_of t now d)"
  have report: "fst (apply_retention t now ?r) = retention_of t now d"
    using retention_purged [OF wf, of t now] by (simp add: retention_of_def apply_retention_parts Let_def)
  have purged: "pr_purged (retention_of t now d) = ?e" by (simp add: retention_of_def Let_def)
  let ?d1 = "fold (drop_store env) ?e d"
  note frame = drop_stores_frame [OF files, of env ?e]
  have run: "ds_apply_retention env t now False d =
      (case remove_dirs env ?e ?d1 of
         (Inl e, d2) \<Rightarrow> (Inl e, d2)
       | (Inr _, d2) \<Rightarrow>
           (Inr (retention_of t now d),
            d2\<lparr>ds_policies := fold bm_remove ?e (ds_policies d2), ds_paused := fold bm_remove ?e (ds_paused d2),
               ds_registry := snd (apply_retention t now ?r)\<rparr>))"
  proof -
    obtain candidate where "apply_retention t now ?r = (retention_of t now d, candidate)"
      using report by (metis prod.collapse)
    then show ?thesis by (simp add: ds_apply_retention_def Let_def purged split: prod.split sum.split)
  qed
  have dirs: "fst (remove_dirs env ?e ?d1) = fst (remove_dirs env ?e d)"
    by (rule remove_dirs_result) (simp add: frame)
  show "fst (ds_apply_retention env t now False d) =
      map_sum id (\<lambda>_. retention_of t now d) (fst (remove_dirs env ?e d))"
    unfolding run dirs [symmetric] by (simp split: prod.split sum.split)
  show "session_at (ds_registry (snd (ds_apply_retention env t now False d))) sid = Some st
      \<and> same_timeline sid d (snd (ds_apply_retention env t now False d))"
    if other: "of_tenant t st = False" and at: "session_at (ds_registry d) sid = Some st" and name: "file_name sid"
      and own: "\<And>x y. session_at (ds_registry d) x = Some y \<Longrightarrow> of_tenant t y \<Longrightarrow> dir_named x"
  proof -
    have mine: "x \<in> set ?e \<longleftrightarrow> (\<exists>y. session_at ?r x = Some y \<and> of_tenant t y \<and> retention_eligible y now)" for x
      using set_bm_keys_filter [OF maps_wfD(1) [OF registry_wfD(1) [OF wf]], of x "\<lambda>st. of_tenant t st \<and> retention_eligible st now"]
      by (auto simp: retention_of_def report_view Let_def conj_commute split: option.splits)
    have "sid \<notin> set ?e" using mine other at by simp
    moreover have "list_all dir_named ?e" using mine own by (auto simp: list_all_iff)
    ultimately have "same_timeline sid ?d1 (snd (remove_dirs env ?e ?d1))"
      by (intro remove_dirs_frame(2) name)
    then have "same_timeline sid d (snd (remove_dirs env ?e ?d1))"
      using drop_stores_frame [OF files, of env ?e sid] \<open>sid \<notin> set ?e\<close> by (blast intro: same_timeline_trans)
    moreover have "session_at (snd (apply_retention t now ?r)) sid = Some st"
      using retention_session [OF wf, of t now sid] other at by (simp add: purgeable_def of_tenant_def)
    ultimately show ?thesis
      unfolding run using frame remove_dirs_frame(1) [of env ?e ?d1] at
      by (cases "remove_dirs env ?e ?d1"; cases "fst (remove_dirs env ?e ?d1)") (auto simp: same_timeline_def)
  qed
qed

text \<open>C6. A tenant sees and touches its own sessions only. Of a request that names a tenant (a query, a
  list, retention), the response is a function of that tenant's sessions: two daemons that agree
  on them, and on the directory, answer alike, whatever the sessions of other tenants are. And when
  no session of the tenant is called \<open>.\<close> or \<open>..\<close>, the request leaves every session of another
  tenant, its timeline on the disk and its open store as they were, and the file of an open store
  in its place. The ids of sessions are file names, as the checks of a request make them.\<close>

theorem tenants_are_isolated:
  assumes "request_tenant request = Some t" and wf: "registry_wf (ds_registry d)" "bm_wf (ds_files d)"
    and ids: "\<And>sid st. session_at (ds_registry d) sid = Some st \<Longrightarrow> file_name sid"
    and own: "\<And>sid st. session_at (ds_registry d) sid = Some st \<Longrightarrow> of_tenant t st \<Longrightarrow> sid \<noteq> ''.'' \<and> sid \<noteq> ''..''"
    and run: "dispatch L env stats request now d = (resp, d')"
  shows "(\<forall>other. same_view t d other \<longrightarrow> registry_wf (ds_registry other) \<longrightarrow> bm_wf (ds_files other) \<longrightarrow>
        fst (dispatch L env stats request now other) = resp)
    \<and> (\<forall>sid st. session_at (ds_registry d) sid = Some st \<longrightarrow> \<not> of_tenant t st \<longrightarrow>
        session_at (ds_registry d') sid = Some st \<and> same_timeline sid d d')"
proof (cases request)
  case (ReqApplyRetention tenant dry_run requested)
  then have t: "tenant = t" using assms(1) by simp
  define n where "n = (case requested of None \<Rightarrow> now | Some n \<Rightarrow> n)"
  show ?thesis
  proof (cases dry_run)
    case True
    have "retention_purge_report (ds_registry other) t n True = retention_purge_report (ds_registry d) t n True"
      if "same_view t d other" for other
      using that by (simp add: report_view same_view_def tenant_sessions_def)
    with run show ?thesis
      by (auto simp: ReqApplyRetention t True ds_apply_retention_def n_def [symmetric])
  next
    case False
    have same: "fst (ds_apply_retention env t n False other) = fst (ds_apply_retention env t n False d)"
      if "same_view t d other" "registry_wf (ds_registry other)" "bm_wf (ds_files other)" for other
      using retention_of_view [OF that(1), of n] remove_dirs_result [of d other env] that(1)
      by (simp add: apply_retention_run(1) [OF wf] apply_retention_run(1) [OF that(2,3)] same_view_def)
    have answer: "fst (dispatch L env stats request now other) =
        (case fst (ds_apply_retention env t n False other) of
           Inl e \<Rightarrow> error_response ''state_error'' e
         | Inr r \<Rightarrow> RespRetentionPurge daemon_schema_v1 (pr_tenant_id r) (pr_dry_run r) (pr_now r) (pr_eligible r)
             (pr_purged r) (pr_retained r))" for other
      by (simp add: ReqApplyRetention t False n_def [symmetric] split: prod.split sum.split)
    have after: "d' = snd (ds_apply_retention env t n False d)"
      using run by (simp add: ReqApplyRetention t False n_def [symmetric] split: prod.splits sum.splits)
    have "fst (dispatch L env stats request now other) = resp"
      if "same_view t d other" "registry_wf (ds_registry other)" "bm_wf (ds_files other)" for other
      using answer [of other] answer [of d] same [OF that] run by simp
    moreover have "session_at (ds_registry d') sid = Some st \<and> same_timeline sid d d'"
      if "session_at (ds_registry d) sid = Some st" "\<not> of_tenant t st" for sid st
      using apply_retention_run(2) [OF wf _ that(1) ids [OF that(1)], of t env n] that(2) ids own
      by (auto simp: after dir_named_def)
    ultimately show ?thesis by blast
  qed
next
  case (ReqQuery tenant sid)
  have "get_for_tenant (ds_registry other) sid t = get_for_tenant (ds_registry d) sid t"
    if "same_view t d other" "registry_wf (ds_registry other)" for other
    using that get_for_tenant_view maps_wfD(1) registry_wfD(1) wf(1)
    by (simp add: same_view_def tenant_sessions_def)
  with run assms(1) show ?thesis by (auto simp: ReqQuery ds_query_for_tenant_def)
next
  case (ReqListSessions tenant tier)
  have "list_for_tenant (ds_registry other) t tier = list_for_tenant (ds_registry d) t tier"
    if "same_view t d other" for other
    using that by (simp add: list_for_tenant_view same_view_def tenant_sessions_def)
  with run assms(1) show ?thesis by (auto simp: ReqListSessions ds_list_for_tenant_def)
qed (use assms(1) in simp_all)

lemma retention_commits:
  assumes "\<And>sids e. fst (remove_dirs env sids e) = Inr ()"
  shows "ds_registry (snd (ds_apply_retention env t now False d)) = snd (apply_retention t now (ds_registry d))"
proof -
  obtain report candidate where a: "apply_retention t now (ds_registry d) = (report, candidate)" by fastforce
  obtain d2 where "remove_dirs env (pr_purged report) (fold (drop_store env) (pr_purged report) d) = (Inr (), d2)"
    using assms by (metis prod.collapse)
  with a show ?thesis by (simp add: ds_apply_retention_def Let_def)
qed

definition sample_two_tenants :: daemon_state where
  "sample_two_tenants =
     \<lparr>ds_registry = snd (registry_register (sample_intent ''u'' ''b'') 1
          (snd (registry_register (sample_intent ''t'' ''a'') 1 (registry_new 4 4)))),
      ds_health = health_new (queue_stats_new 4), ds_stores = [], ds_files = [(''a'', ''x''), (''b'', ''y'')],
      ds_unlinked = [], ds_paused = [], ds_sessions_dir = ''/s'', ds_storage_writable = True, ds_scope = True, ds_tracked = [],
      ds_policies = [], ds_feedback = False\<rparr>"

lemma sample_two_wf: "registry_wf (ds_registry sample_two_tenants)" "bm_wf (ds_files sample_two_tenants)"
proof -
  have "registry_wf (registry_new 4 4)" using registry_new_inv [of 4 4] by (simp add: registry_inv_def)
  then show "registry_wf (ds_registry sample_two_tenants)"
    by (simp add: sample_two_tenants_def register_wf)
  show "bm_wf (ds_files sample_two_tenants)" by (simp add: sample_two_tenants_def bm_wf_def)
qed

text \<open>Retention for \<open>t\<close> at a late time: the session of \<open>t\<close> goes, that of \<open>u\<close> stays.\<close>

lemma tenants_are_isolated_witness:
  "let d = sample_two_tenants; request = ReqApplyRetention ''t'' False (Some (2 ^ 62));
       d' = snd (dispatch sample_daemon_lib sample_env (Inl SubClosed) request 5 d)
   in session_at (ds_registry d) ''a'' \<noteq> None \<and> session_at (ds_registry d') ''a'' = None
      \<and> session_at (ds_registry d') ''b'' = session_at (ds_registry d) ''b'' \<and> session_at (ds_registry d) ''b'' \<noteq> None
      \<and> bm_get (ds_files d') ''b'' = Some ''y''"
proof -
  let ?d = sample_two_tenants and ?request = "ReqApplyRetention ''t'' False (Some (2 ^ 62))"
  obtain resp d' where run: "dispatch sample_daemon_lib sample_env (Inl SubClosed) ?request 5 ?d = (resp, d')"
    by fastforce
  have a: "session_at (ds_registry ?d) ''a'' = Some (session_state_new (sample_intent ''t'' ''a''))" by code_simp
  have b: "session_at (ds_registry ?d) ''b'' = Some (session_state_new (sample_intent ''u'' ''b''))" by code_simp
  have "bm_get (ds_files ?d) ''b'' = Some ''y''" by (simp add: sample_two_tenants_def)
  moreover have "\<not> of_tenant ''t'' (session_state_new (sample_intent ''u'' ''b''))" by code_simp
  moreover have "session_at (ds_registry (snd (dispatch sample_daemon_lib sample_env (Inl SubClosed) ?request 5 ?d))) ''a'' = None"
  proof -
    have "fst (remove_dirs sample_env sids e) = Inr ()" for sids e
      by (induction sids arbitrary: e) (simp_all add: remove_session_dir_def Let_def sample_env_def)
    then have "ds_registry (snd (ds_apply_retention sample_env ''t'' (2 ^ 62) False ?d)) =
        snd (apply_retention ''t'' (2 ^ 62) (ds_registry ?d))"
      by (rule retention_commits)
    moreover have "snd (dispatch L env stats (ReqApplyRetention t False (Some n)) now d) = snd (ds_apply_retention env t n False d)"
      for L :: "json daemon_lib" and env stats t n now d
      by (simp split: prod.split sum.split)
    moreover have "purgeable ''t'' (2 ^ 62) (session_state_new (sample_intent ''t'' ''a''))"
      by (simp add: purgeable_def retention_eligible_iff session_state_new_def sample_intent_def day_ms_def)
    ultimately show ?thesis using retention_session [OF sample_two_wf(1)] a by simp
  qed
  moreover have "dir_named sid" if "session_at (ds_registry ?d) sid = Some st" for sid st
  proof -
    have "bm_keys (sr_sessions (ds_registry ?d)) = [''a'', ''b'']" by code_simp
    then have "sid = ''a'' \<or> sid = ''b''" using map_of_SomeD [OF that] by force
    then show ?thesis by (auto simp: dir_named_def file_name_def)
  qed
  ultimately show ?thesis
    using tenants_are_isolated [OF _ sample_two_wf _ _ run, of "''t''"] run a b
    by (simp add: Let_def dir_named_def same_timeline_def)
qed

text \<open>A client asks for the health, and reads the answer.\<close>

definition sample_connection :: connection_env where
  "sample_connection =
     \<lparr>cn_from_slice = (\<lambda>_. Inr ReqHealth), cn_to_vec = (\<lambda>_. Inr ''[7]''), cn_now = Inr 5,
      cn_stats = Inl SubClosed, cn_short_read = ''early eof'', cn_write = (\<lambda>_. Inr ())\<rparr>"

lemma connection_answered_witness:
  "let out = snd (fst (handle_connection sample_daemon_lib sample_env sample_connection
        (be_bytes 4 (2 :: u32) @ ''{}'' @ ''more'') sample_two_tenants))
   in requested sample_connection (be_bytes 4 (2 :: u32) @ ''{}'' @ ''more'') = Some (ReqHealth, 5)
      \<and> read_frame out = Some ''[7]''"
proof -
  let ?input = "be_bytes 4 (2 :: u32) @ ''{}'' @ ''more''"
  obtain res out d' where run: "handle_connection sample_daemon_lib sample_env sample_connection ?input sample_two_tenants
      = ((res, out), d')" by (metis prod.collapse)
  have len: "length (be_bytes 4 w) = 4" for w :: u32 by (simp add: be_bytes_def)
  have req: "requested sample_connection ?input = Some (ReqHealth, 5)"
    by (simp add: requested_def Let_def len be_val_word max_intent_frame_bytes_def sample_connection_def
        decode_intent_frame_def)
  have "is_ok (fst (fst (handle_connection sample_daemon_lib sample_env sample_connection ?input sample_two_tenants)))"
    by (simp add: handle_connection_def Let_def len be_val_word max_intent_frame_bytes_def sample_connection_def
        decode_intent_frame_def write_response_def)
  with run have "is_ok res" by simp
  with connection_answered [OF run] req run show ?thesis by (auto simp: sample_connection_def Let_def)
qed

section \<open>The clock of retention, and a close that is cut off\<close>

text \<open>
  A client that names a time for retention has it applied at that time: the windows of retention
  hold against the clock of the client, not of the daemon.
\<close>

lemma retention_clock_of_client:
  "dispatch L env stats (ReqApplyRetention t dry (Some n)) now d = dispatch L env stats (ReqApplyRetention t dry None) n d"
  by simp

text \<open>
  A connection that takes longer than the request timeout is dropped where it waits. A close waits for
  the scope worker once for each cgroup: \<open>k\<close> of them are then untracked, nothing tracks them again,
  and the session is as active as before.
\<close>

definition close_cut :: "daemon_env \<Rightarrow> nat \<Rightarrow> string \<Rightarrow> daemon_state \<Rightarrow> daemon_state" where
  "close_cut env k sid d =
     (case registry_close sid (ds_registry d) of
        (Inl _, _) \<Rightarrow> d
      | (Inr closed, _) \<Rightarrow>
          if ds_scope d then snd (untrack_all env [] (take k (st_cgroup_ids closed)) d) else d)"

lemma untrack_all_answered:
  assumes "\<And>c. de_untrack env c = Inr ()" and "distinct (ds_tracked d)"
  shows "ds_registry (snd (untrack_all env removed cs d)) = ds_registry d
    \<and> distinct (ds_tracked (snd (untrack_all env removed cs d)))
    \<and> set (ds_tracked (snd (untrack_all env removed cs d))) = set (ds_tracked d) - set cs"
  using assms(2)
proof (induction cs arbitrary: d removed)
  case (Cons c cs)
  from Cons.IH [of "d\<lparr>ds_tracked := bs_remove c (ds_tracked d)\<rparr>" "removed @ [c]"] Cons.prems
  show ?case by (auto simp: scope_untrack_def assms(1))
qed simp

lemma timed_out_close_blinds_session:
  assumes "registry_close sid (ds_registry d) = (Inr closed, r)" "ds_scope d" "distinct (ds_tracked d)"
    and "\<And>c. de_untrack env c = Inr ()" and "c \<in> set (take k (st_cgroup_ids closed))"
  shows "ds_registry (close_cut env k sid d) = ds_registry d \<and> c \<notin> set (ds_tracked (close_cut env k sid d))"
  using untrack_all_answered [of env d "[]" "take k (st_cgroup_ids closed)"] assms by (simp add: close_cut_def)

section \<open>The metrics page\<close>

text \<open>\<open>String::from_utf8\<close>; the text of its error is a parameter.\<close>

definition http_text :: "(string \<Rightarrow> string) \<Rightarrow> string \<Rightarrow> (string, string) res" where
  "http_text utf8_error bytes =
     (if utf8_valid bytes then Inr bytes else Inl (''metrics HTTP request was not UTF-8: '' @ utf8_error bytes))"

text \<open>The reads of the socket, an empty one at its end; \<open>None\<close>: it waits for more.\<close>

fun read_http_request ::
    "(string \<Rightarrow> string) \<Rightarrow> string \<Rightarrow> (string, string) res list \<Rightarrow> (string, string) res option" where
  "read_http_request utf8_error request [] = None"
| "read_http_request utf8_error request (Inl e # _) =
     Some (Inl (''failed to read metrics HTTP request: '' @ e))"
| "read_http_request utf8_error request (Inr chunk # reads) =
     (if chunk = [] then Some (http_text utf8_error request)
      else if suffix (crlf @ crlf) (request @ chunk) then Some (http_text utf8_error (request @ chunk))
      else if 8 * 1024 < length (request @ chunk) then Some (Inl ''metrics HTTP request exceeded 8 KiB'')
      else read_http_request utf8_error (request @ chunk) reads)"

definition request_path :: "string \<Rightarrow> string" where
  "request_path request =
     (case lines_of request of
        [] \<Rightarrow> ''/''
      | line # _ \<Rightarrow> (case split_whitespace line of _ # path # _ \<Rightarrow> path | _ \<Rightarrow> ''/''))"

definition http_response :: "string \<Rightarrow> string \<Rightarrow> string \<Rightarrow> string" where
  "http_response status content_type body =
     ''HTTP/1.1 '' @ status @ crlf @ ''Content-Type: '' @ content_type @ crlf
     @ ''Content-Length: '' @ dec_str (length body) @ crlf @ ''Connection: close'' @ crlf @ crlf @ body"

definition metrics_answer :: "(submit_error, queue_stats) res \<Rightarrow> daemon_state \<Rightarrow> string \<Rightarrow> string" where
  "metrics_answer stats d request =
     (if request_path request \<noteq> ''/metrics'' then
        http_response ''404 Not Found'' ''text/plain; charset=utf-8'' (''not found'' @ [ch_nl])
      else
        http_response ''200 OK'' ''text/plain; version=0.0.4; charset=utf-8''
          (render_prometheus_metrics (ds_health_of stats d)))"

text \<open>A request that is read is short, however a client sends it.\<close>

lemma http_request_bounded:
  assumes "read_http_request u request reads = Some (Inr text)" and "length request \<le> 8 * 1024"
    and "\<And>chunk. Inr chunk \<in> set reads \<Longrightarrow> length chunk \<le> 512"
  shows "length text \<le> 8 * 1024 + 512"
  using assms
proof (induction reads arbitrary: request)
  case (Cons r reads)
  show ?case
  proof (cases r)
    case (Inr chunk)
    have len: "length chunk \<le> 512" using Cons.prems(3) Inr by simp
    have rest: "\<And>c. Inr c \<in> set reads \<Longrightarrow> length c \<le> 512" using Cons.prems(3) by simp
    show ?thesis
    proof (cases "chunk = [] \<or> suffix (crlf @ crlf) (request @ chunk)")
      case True
      then show ?thesis using Cons.prems(1,2) Inr len by (auto simp: http_text_def split: if_splits)
    next
      case False
      with Cons.prems(1) Inr have short: "length (request @ chunk) \<le> 8 * 1024"
        and read: "read_http_request u (request @ chunk) reads = Some (Inr text)"
        by (auto simp: not_less split: if_splits)
      show ?thesis by (rule Cons.IH [OF read short rest])
    qed
  qed (use Cons.prems in simp)
qed simp

section \<open>Runtime adapters\<close>

text \<open>The sockets the adapters speak to; of the CRI, also whether images are asked for.\<close>

datatype adapter_start =
    StartDocker string
  | StartCri adapter_kind string bool
  | StartKubernetes string string

definition default_k3s_socket :: string where
  "default_k3s_socket = ''/run/k3s/containerd/containerd.sock''"

definition opt_list :: "('a \<Rightarrow> 'b) \<Rightarrow> 'a option \<Rightarrow> 'b list" where
  "opt_list f x = (case x of None \<Rightarrow> [] | Some y \<Rightarrow> [f y])"

definition start_runtime_adapters :: "'a daemon_config \<Rightarrow> adapter_start list" where
  "start_runtime_adapters c =
     opt_list StartDocker (dc_docker_socket c)
     @ opt_list (\<lambda>socket. StartCri AkContainerd socket True) (dc_containerd_socket c)
     @ opt_list (\<lambda>socket. StartCri AkK3sContainerd socket False) (dc_k3s_containerd_socket c)
     @ opt_list
         (\<lambda>kubectl. StartKubernetes kubectl
            (case dc_kubernetes_cri_socket c of
               Some socket \<Rightarrow> socket
             | None \<Rightarrow> (case dc_k3s_containerd_socket c of Some socket \<Rightarrow> socket | None \<Rightarrow> default_k3s_socket)))
         (dc_kubernetes_kubectl c)"

definition degraded_summary :: "adapter_kind \<Rightarrow> daemon_state \<Rightarrow> adapter_summary \<times> daemon_state" where
  "degraded_summary adapter d =
     (\<lparr>as_adapter = adapter, as_discovered = 0, as_missing_intent = 0, as_backend_errors = 1,
       as_backend_recoveries = 0, as_ingest_errors = 0\<rparr>, ds_set_adapter adapter CsDegraded d)"

section \<open>The socket\<close>

datatype socket_entry = EntrySocket "(string, unit) res" | EntryOther | EntryMissing | EntryError string

definition remove_socket_if_socket :: "string \<Rightarrow> socket_entry \<Rightarrow> (string, unit) res" where
  "remove_socket_if_socket path entry =
     (case entry of
        EntrySocket removal \<Rightarrow> map_sum (\<lambda>e. ''failed to remove stale daemon socket: '' @ e) id removal
      | EntryOther \<Rightarrow> Inl (''refusing to replace daemon path that is not a Unix socket: '' @ path)
      | EntryMissing \<Rightarrow> Inr ()
      | EntryError e \<Rightarrow> Inl (''failed to inspect daemon socket path: '' @ e))"

text \<open>A path has a parent unless it is empty or the root.\<close>

definition prepare_socket :: "string \<Rightarrow> (string, unit) res \<Rightarrow> socket_entry \<Rightarrow> (string, unit) res" where
  "prepare_socket path mkdir entry =
     (if path_components path \<in> {[], [RootDir]} then Inl ''daemon socket path has no parent''
      else
        (case mkdir of
           Inl e \<Rightarrow> Inl (''failed to create daemon socket directory: '' @ e)
         | Inr _ \<Rightarrow> remove_socket_if_socket path entry))"

section \<open>The start\<close>

record serve_env =
  sn_socket_path :: string
  sn_mkdir :: "(string, unit) res"
  sn_entry :: socket_entry
  sn_bind :: "(string, unit) res"
  sn_permissions :: "(string, unit) res"
  sn_observer :: "(string, unit) res option"
  sn_state :: "(string, daemon_state) res"
  sn_metrics :: "(string, unit) res"
  sn_entry_at_end :: socket_entry

definition give_up :: "serve_env \<Rightarrow> string \<Rightarrow> (string, 'a) res" where
  "give_up S e =
     (case remove_socket_if_socket (sn_socket_path S) (sn_entry_at_end S) of Inl f \<Rightarrow> Inl f | Inr _ \<Rightarrow> Inl e)"

text \<open>Whether the observer runs, and the state; an observer that does not load is only reported.\<close>

definition serve_start :: "serve_env \<Rightarrow> (string, bool \<times> daemon_state) res" where
  "serve_start S =
     (case prepare_socket (sn_socket_path S) (sn_mkdir S) (sn_entry S) of
        Inl e \<Rightarrow> Inl e
      | Inr _ \<Rightarrow>
     (case sn_bind S of
        Inl e \<Rightarrow> Inl (''failed to bind daemon socket: '' @ e)
      | Inr _ \<Rightarrow>
     (case sn_permissions S of
        Inl e \<Rightarrow> Inl (''failed to set daemon socket permissions: '' @ e)
      | Inr _ \<Rightarrow>
     (case sn_state S of
        Inl e \<Rightarrow> give_up S e
      | Inr d \<Rightarrow>
     (case sn_metrics S of
        Inl e \<Rightarrow> give_up S e
      | Inr _ \<Rightarrow> Inr ((case sn_observer S of Some (Inr _) \<Rightarrow> True | _ \<Rightarrow> False), d))))))"

section \<open>Connections\<close>

text \<open>A turn of the loop, or a handler that ends by itself and lets go of its permit.\<close>

datatype serve_event = SvShutdown | SvHandlerEnds | SvJoined | SvConnection | SvAcceptError string

record serving =
  sv_permits :: nat
  sv_running :: nat
  sv_ended :: nat
  sv_busy :: nat

definition serving_new :: "nat \<Rightarrow> serving" where
  "serving_new max_connections = \<lparr>sv_permits = max_connections, sv_running = 0, sv_ended = 0, sv_busy = 0\<rparr>"

fun serve_turn :: "serve_event \<Rightarrow> serving \<Rightarrow> serving" where
  "serve_turn SvConnection s =
     (if 0 < sv_permits s then s\<lparr>sv_permits := sv_permits s - 1, sv_running := sv_running s + 1\<rparr>
      else s\<lparr>sv_busy := sv_busy s + 1\<rparr>)"
| "serve_turn SvHandlerEnds s =
     (if 0 < sv_running s then
        s\<lparr>sv_permits := sv_permits s + 1, sv_running := sv_running s - 1, sv_ended := sv_ended s + 1\<rparr>
      else s)"
| "serve_turn SvJoined s = s\<lparr>sv_ended := sv_ended s - 1\<rparr>"
| "serve_turn _ s = s"

fun serve_loop :: "serve_event list \<Rightarrow> serving \<Rightarrow> (string option \<times> serving) option" where
  "serve_loop [] s = None"
| "serve_loop (SvShutdown # _) s = Some (None, s)"
| "serve_loop (SvAcceptError e # _) s = Some (Some (''failed to accept daemon connection: '' @ e), s)"
| "serve_loop (ev # evs) s = serve_loop evs (serve_turn ev s)"

lemma connections_bounded:
  "sv_running (fold serve_turn evs (serving_new n)) \<le> n"
proof -
  have "sv_permits (fold serve_turn evs s) + sv_running (fold serve_turn evs s) = sv_permits s + sv_running s" for s
  proof (induction evs arbitrary: s)
    case (Cons ev evs)
    have "sv_permits (serve_turn ev s) + sv_running (serve_turn ev s) = sv_permits s + sv_running s"
      by (cases ev) simp_all
    with Cons [of "serve_turn ev s"] show ?case by simp
  qed simp
  from this [of "serving_new n"] show ?thesis by (simp add: serving_new_def)
qed

section \<open>The end\<close>

datatype task_end = TeDone | TeError string | TePanicked string | TeDeadline

datatype serve_call =
    CloseListener | JoinHandlers
  | SignalObserver | AwaitObserver | SignalMetrics | AwaitMetrics
  | SignalAdapter nat | AwaitAdapter nat | SignalWriter | AwaitWriter | RemoveSocket

text \<open>
  What is stopped, in order: no connection, no observer and no adapter is left to hand a record over
  when the writer is told to stop.
\<close>

definition serve_end_calls :: "bool \<Rightarrow> bool \<Rightarrow> nat \<Rightarrow> serve_call list" where
  "serve_end_calls observer metrics adapters =
     [CloseListener, JoinHandlers]
     @ (if observer then [SignalObserver] else []) @ (if metrics then [SignalMetrics] else [])
     @ (if metrics then [AwaitMetrics] else []) @ (if observer then [AwaitObserver] else [])
     @ map SignalAdapter [0..<adapters] @ map AwaitAdapter [0..<adapters]
     @ [SignalWriter, AwaitWriter, RemoveSocket]"

definition serve_end :: "serve_env \<Rightarrow> task_end \<Rightarrow> string option \<Rightarrow> (string, unit) res" where
  "serve_end S writer accept_error =
     (case writer of
        TeDone \<Rightarrow>
          (case remove_socket_if_socket (sn_socket_path S) (sn_entry_at_end S) of
             Inl f \<Rightarrow> Inl f
           | Inr _ \<Rightarrow> (case accept_error of Some e \<Rightarrow> Inl e | None \<Rightarrow> Inr ()))
      | TeError e \<Rightarrow> give_up S (''daemon writer stopped with error: '' @ e)
      | TePanicked e \<Rightarrow> give_up S (''daemon writer task failed: '' @ e)
      | TeDeadline \<Rightarrow> give_up S ''daemon writer shutdown deadline exceeded'')"

definition serve :: "serve_env \<Rightarrow> nat \<Rightarrow> serve_event list \<Rightarrow> task_end \<Rightarrow> (string, unit) res option" where
  "serve S max_connections events writer =
     (case serve_start S of
        Inl e \<Rightarrow> Some (Inl e)
      | Inr _ \<Rightarrow>
          (case serve_loop events (serving_new max_connections) of
             None \<Rightarrow> None
           | Some (accept_error, _) \<Rightarrow> Some (serve_end S writer accept_error)))"

text \<open>A server that ends well started, was told to stop, had its writer done, and left no socket.\<close>

lemma serve_ends_well:
  assumes "serve S n events writer = Some (Inr ())"
  shows "is_ok (serve_start S) \<and> writer = TeDone
    \<and> (sn_entry_at_end S = EntryMissing \<or> sn_entry_at_end S = EntrySocket (Inr ()))
    \<and> (\<exists>s. serve_loop events (serving_new n) = Some (None, s))"
proof -
  obtain x where start: "serve_start S = Inr x"
    using assms by (cases "serve_start S") (simp_all add: serve_def)
  obtain e s where loop: "serve_loop events (serving_new n) = Some (e, s)"
    using assms start by (auto simp: serve_def split: option.splits)
  have fin: "serve_end S writer e = Inr ()" using assms start loop by (simp add: serve_def)
  then have "writer = TeDone" "e = None"
    by (auto simp: serve_end_def give_up_def split: task_end.splits sum.splits option.splits)
  moreover from this fin have "is_ok (remove_socket_if_socket (sn_socket_path S) (sn_entry_at_end S))"
    by (auto simp: serve_end_def split: sum.splits)
  then have "sn_entry_at_end S = EntryMissing \<or> sn_entry_at_end S = EntrySocket (Inr ())"
    by (auto simp: remove_socket_if_socket_def is_ok_iff map_sum_def split: socket_entry.splits sum.splits)
  ultimately show ?thesis using start loop by simp
qed

end
