(* ===== verification/Spec2Isabelle.thy ===== *)
theory Spec2Isabelle
  imports Session_Invariants Timeline_Integrity Jsonl_Store Priority_Queue Finding_Analysis
    Policy_Matching Policy_Parser Event_Pipeline
    Health_Metrics Daemon_Config Daemon_Restart
    Observer_Redaction Observer_Abi Observer_Runtime Feedback
    Host_Roundtrip Kubernetes_Metadata Visibility Live_Timeline Daemon_Server
begin

text \<open>
  A verification development of Apolysis, a Rust system that accounts for what AI agents do on a
  host: an eBPF program reports process, file and network events; a daemon attributes them to
  registered sessions and keeps tamper-evident timelines; a standalone observer watches one agent;
  a policy says what is allowed and with what backing it may be claimed to be blocked; and a set
  of gates decides which claims a release may publish.

  \<^bold>\<open>How to read it.\<close> Every definition translates the Rust function, type or piece of a function
  that the manifest maps it to, in the order of the code; lemmas follow the definitions of their
  theory. Fixed-width integers are words of that width and wrap where the code wraps; \<open>usize\<close> is
  \<open>nat\<close>; a \<open>String\<close> or \<open>&str\<close> is the list of its UTF-8 bytes, and so is a byte vector; \<open>Result<T, E>\<close>
  is a sum with the error on the left, a method with \<open>&mut self\<close> returns its result and the new
  state, also when it fails; a \<open>BTreeMap\<close> or \<open>BTreeSet\<close> is a sorted association list or list, a
  \<open>HashMap\<close> whose order is not looked at a map. Constructor and field names carry a prefix of
  their type.

  \<^bold>\<open>Parameters.\<close> What is not in the repository is an argument: the clock (each reading of it), SHA-256
  (a function on byte lists; what needs it has injectivity on the texts at hand as a hypothesis),
  the JSON library (its printing of values and its parsers, tied to each other by named laws that
  a concrete codec satisfies), the sizes of devices, the answers of the kernel, of aya, of systemctl
  and of the process table, and the choices of a \<open>select!\<close>. A full device is modelled by the room that
  is left on it; a killed process by the bytes that had reached the disk. Layouts are little-endian.

  \<^bold>\<open>The library.\<close> \<open>Prelude\<close> has the machine types, results, sorted maps and sets; \<open>Rust_Text\<close>, \<open>Rust_Path\<close>
  and \<open>Rust_Net\<close> have what the code uses of \<open>str\<close>, \<open>std::path\<close> and \<open>std::net\<close>, with parsing and printing
  proved inverse; \<open>Buf_Writer\<close> has the buffered writer of the standard library on a device with
  bounded room, and a locale of such writers.

  \<^bold>\<open>Sessions\<close> (\<open>crates/apolysis-accountability\<close>). \<open>Intent\<close>: intents, requests, retention windows (\<open>intent.rs\<close>).
  \<open>Session_Registry\<close>: the registry and its operations (\<open>session.rs\<close>); \<open>Session_Invariants\<close>: that its maps
  agree and its bounds hold after any operations, that a cgroup never changes owner, what expiry
  and retention do. \<open>Priority_Queue\<close>: the bounded queue (\<open>queue.rs\<close>), refined against a list per priority
  from which the greatest priority is served, with every record accounted for. \<open>Finding_Analysis\<close>: the analyzer (\<open>finding.rs\<close>). \<open>Health_Metrics\<close>:
  the health snapshot (\<open>health.rs\<close>) and its rendering (\<open>metrics.rs\<close> of the daemon), read back.

  \<^bold>\<open>Timelines\<close> (\<open>crates/apolysis-store\<close>, \<open>crates/apolysis-core\<close>, \<open>crates/apolysis-feedback\<close>). \<open>Core_Schema\<close>: the records
  and their JSON lines. \<open>Hash_Chain\<close>: the hash-chained store over the bytes of its file, verification and
  recovery (\<open>hash_chain.rs\<close>); \<open>Timeline_Integrity\<close>: the two agree, a file torn at any byte recovers exactly
  the records whose lines are complete, appended records read back, and equal hashes mean equal records.
  \<open>Jsonl_Store\<close>: the rotating store (\<open>lib.rs\<close>), refined against a list of lines; it drops and rotates no
  more than its policy asks for. \<open>Feedback\<close>: the files that an
  agent reads, replaced without ever being torn.

  \<^bold>\<open>Policy\<close> (\<open>crates/apolysis-policy\<close>). \<open>Policy_Enforcement\<close>: rules, decisions, capabilities, the resolution of a
  block and what may be claimed of it; \<open>Policy_Matching\<close>: matching is by whole path components;
  \<open>Policy_Parser\<close>: the two readers of policies, with a printer.

  \<^bold>\<open>The daemon\<close> (\<open>crates/apolysis-daemon\<close>). \<open>Daemon_Config\<close> (\<open>config.rs\<close>), \<open>Event_Pipeline\<close> (\<open>pipeline.rs\<close>: threads of
  atomic steps that interleave; no record is lost at shutdown, no wakeup is lost, the writer returns once nobody submits any more),
  \<open>Json_Value\<close> (\<open>serde_json::Value\<close> and the record types), \<open>Daemon_State\<close> (\<open>state.rs\<close>), \<open>Session_Replay\<close>,
  \<open>Daemon_Journal\<close> and \<open>Daemon_Restart\<close> (the timelines are a journal of the registry: a daemon started again
  has the active sessions, a failed operation changes none; four kinds of runs are left out, named at
  \<open>daemon_run\<close>, on which the first of these breaks),
  \<open>Observer_Runtime\<close> (\<open>runtime.rs\<close>, \<open>scope.rs\<close>: what a batch submits is exactly what is due for its events, each
  submission counted by its answer, with what must be hidden hidden), \<open>Runtime_Adapter\<close>, \<open>Adapter_Client\<close> and \<open>Adapter_Loop\<close> (\<open>adapter.rs\<close>: the answers of
  Docker, the CRI and Kubernetes as workloads, cgroups, HTTP in chunks, commands, polling, and a summary
  that counts exactly what happened),
  \<open>Daemon_Server\<close> (\<open>server.rs\<close>: requests, responses and frames, the metrics page, what a tenant sees and touches, as
  long as its sessions are not named by one dot or two, limits, start and end).

  \<^bold>\<open>The observer\<close> (\<open>crates/apolysis-observer\<close>). \<open>Observer_Abi\<close> (\<open>abi.rs\<close>, the batch decoder of \<open>live.rs\<close>),
  \<open>Observer_Redaction\<close> (\<open>redaction.rs\<close> and the redaction in \<open>live.rs\<close>), \<open>Observer_Events\<close> (canonical events of
  \<open>lib.rs\<close>, \<open>process_context.rs\<close>), \<open>Observer_Timeline\<close> (\<open>lib.rs\<close>: plans, metadata, policy evaluation, the replay of
  a fixture; a replay that returns has written exactly a function of its inputs, and one with room
  returns), \<open>Agent_Discovery\<close> (process trees, registrations and the search for an agent in \<open>live.rs\<close>),
  \<open>Live_Scope\<close> (requests, \<open>capabilities.rs\<close>, the set-up of the eBPF object), \<open>Observer_Live\<close> (\<open>observe_live\<close>) and
  \<open>Live_Timeline\<close> (what a live run writes and asks for: the agent is let go last, every record read is
  an event or counted).

  \<^bold>\<open>Gates and hosts\<close> (\<open>crates/apolysis-validation\<close>, \<open>crates/apolysis-kubernetes\<close>, \<open>crates/apolysis-visibility\<close>). \<open>Evidence_Gate\<close>:
  readers of reports; \<open>Block_Guardrails\<close>, \<open>Release_Gates\<close>, \<open>Runtime_Guardrails\<close>: what must be shown before a claim is
  enabled or published; \<open>Kubernetes_Metadata\<close> and \<open>Visibility\<close>: the evidence of pods and runtimes. \<open>Host_Files\<close>: the
  calls of \<open>std::fs\<close> on a tree of entries, with faults; \<open>Host_Restore\<close>: capture, plan, verification and
  execution of a restoration; \<open>Host_Roundtrip\<close>: they bring a host back.

  \<^bold>\<open>Interfaces.\<close> A locale states what a client needs of its provider, and is interpreted on the model of
  the code: buffered writers, sinks of lines, the JSON codec, hashed logs, and those of the
  session maps among others; the properties use the interpretations' facts.

  \<^bold>\<open>Termination and bounds.\<close> Loops are structural or have a measure: the lines of a file, the
  records of a batch, the process ids not yet in a scope, the parents not yet visited. Nothing in a
  model runs out of fuel except the resolution of symbolic links, which stops at 40 as the kernel
  does. A loop that waits for the outside (the writer of the pipeline, the live observer) takes the
  sequence of what it meets as an argument; that the writer returns is a theorem, and a live run
  whose turns end has its result proved to exist.

  \<^bold>\<open>Idealisations.\<close> A path is resolved by its components, \<open>..\<close> and links on the way to a file are not
  followed by the model of the file system; only the removal of a session's directory resolves \<open>.\<close> and
  \<open>..\<close>, and takes every timeline below it, and a timeline is kept per session id, not per file; errors of
  making and reading the directories at the start of the daemon, and those of opening a store, are
  left out, as they end it; a change of owner drops the set-user-id bits, as Linux
  does; within one pass over \<open>/proc\<close> it does not change; floating-point thresholds of the performance
  gate are compared as rationals; memory does not run out.

  \<^bold>\<open>Not modelled.\<close> The eBPF program in C. \<open>crates/apolysis-runtime\<close>, which runs container tools. The command line
  (\<open>crates/apolysis-cli\<close>) and the binaries and benchmarks: arguments and printing around the functions
  modelled here. The edits of TOML and JSON runtime configurations and the collection of
  Kubernetes snapshots in \<open>crates/apolysis-validation\<close>. The asynchronous JSONL store, the waiting on the
  ring buffer, deadlines and signals of the live observer, and the constants of the vocabulary,
  which stand in the definitions that use them. Tests and documents.
\<close>

end
